(* ===== verification/Aster_Prelude.thy ===== *)
theory Aster_Prelude
  imports Main "HOL-Library.Monad_Syntax"
begin

text \<open>
  Shared vocabulary of the development.

  \<^item> Machine integers. Rust's \<open>i64\<close> and \<open>i32\<close> values are modelled as \<open>int\<close>; where the code can
    leave the range the model says so (\<open>in_i64\<close>, \<open>checked_add_i32\<close>). Timestamps (\<open>DateTime<Utc>\<close>)
    are \<open>int\<close> instants.
  \<^item> Results. Rust's \<open>Result<T, E>\<close> is the sum \<open>'e + 'a\<close>: \<open>Inl\<close> is \<open>Err\<close>, \<open>Inr\<close> is \<open>Ok\<close>.
    \<open>bind_result\<close> is the \<open>?\<close> operator.
  \<^item> Relational tables. A SeaORM entity is a list of rows. \<open>update_where\<close>, \<open>delete_where\<close> and
    \<open>select_where\<close> are the SQL statements \<open>UPDATE .. SET .. WHERE\<close>, \<open>DELETE .. WHERE\<close> and
    \<open>SELECT .. WHERE\<close>; the first two also return the number of rows they touched. A comparison
    with a NULL column is never true (\<open>null_le\<close>, \<open>null_gt\<close>).
  \<^item> Interfaces. The locale \<open>keyed_update\<close> is the contract a guarded update of one row by primary key
    offers to its callers; \<open>step_system\<close> is the contract of a transition system with an inductive
    invariant, and \<open>ordered_steps\<close> adds a preorder that no step descends.
\<close>

section \<open>Collections of rewrite rules\<close>

named_theorems sql_simps \<open>equations of the table statements\<close>
named_theorems null_simps \<open>comparisons with nullable columns\<close>
named_theorems result_simps \<open>results and the question mark operator\<close>

section \<open>Machine integers\<close>

type_synonym time = int

definition i64_max :: int where
  "i64_max = 9223372036854775807"

definition i64_min :: int where
  "i64_min = - 9223372036854775808"

definition i32_max :: int where
  "i32_max = 2147483647"

definition in_i64 :: "int \<Rightarrow> bool" where
  "in_i64 x \<longleftrightarrow> i64_min \<le> x \<and> x \<le> i64_max"

definition checked_add_i32 :: "int \<Rightarrow> int \<Rightarrow> int option" where
  "checked_add_i32 a b =
     (if - 2147483648 \<le> a + b \<and> a + b \<le> i32_max then Some (a + b) else None)"

definition checked_add_i64 :: "int \<Rightarrow> int \<Rightarrow> int option" where
  "checked_add_i64 a b = (if in_i64 (a + b) then Some (a + b) else None)"

lemma checked_add_i32_Some [simp]:
  "checked_add_i32 a b = Some c \<longleftrightarrow> c = a + b \<and> - 2147483648 \<le> c \<and> c \<le> i32_max"
  by (auto simp: checked_add_i32_def)

lemma checked_add_i64_Some [simp]:
  "checked_add_i64 a b = Some c \<longleftrightarrow> c = a + b \<and> in_i64 c"
  by (auto simp: checked_add_i64_def)

section \<open>Results\<close>

type_synonym ('e, 'a) result = "'e + 'a"

definition bind_result :: "('e, 'a) result \<Rightarrow> ('a \<Rightarrow> ('e, 'b) result) \<Rightarrow> ('e, 'b) result" where
  "bind_result r f = (case r of Inl e \<Rightarrow> Inl e | Inr a \<Rightarrow> f a)"

definition is_ok :: "('e, 'a) result \<Rightarrow> bool" where
  "is_ok r = (case r of Inl _ \<Rightarrow> False | Inr _ \<Rightarrow> True)"

lemma bind_result_simps [simp, result_simps]:
  "bind_result (Inl e) f = Inl e"
  "bind_result (Inr a) f = f a"
  by (simp_all add: bind_result_def)

lemma is_ok_simps [simp, result_simps]:
  "is_ok (Inl e) = False"
  "is_ok (Inr a) = True"
  by (simp_all add: is_ok_def)

lemma bind_result_Inr_iff [result_simps]:
  "bind_result r f = Inr b \<longleftrightarrow> (\<exists>a. r = Inr a \<and> f a = Inr b)"
  by (cases r) auto

lemma is_ok_iff [result_simps]: "is_ok r \<longleftrightarrow> (\<exists>a. r = Inr a)"
  by (cases r) auto

section \<open>Nullable columns\<close>

definition null_le :: "'a::linorder option \<Rightarrow> 'a \<Rightarrow> bool" where
  "null_le c v = (case c of None \<Rightarrow> False | Some x \<Rightarrow> x \<le> v)"

definition null_gt :: "'a::linorder option \<Rightarrow> 'a \<Rightarrow> bool" where
  "null_gt c v = (case c of None \<Rightarrow> False | Some x \<Rightarrow> v < x)"

definition if_null :: "'a option \<Rightarrow> 'a \<Rightarrow> 'a option" where
  "if_null c v = (case c of None \<Rightarrow> Some v | Some x \<Rightarrow> Some x)"

lemma null_cmp_simps [simp, null_simps]:
  "null_le None v = False"
  "null_le (Some x) v = (x \<le> v)"
  "null_gt None v = False"
  "null_gt (Some x) v = (v < x)"
  by (simp_all add: null_le_def null_gt_def)

lemma if_null_simps [simp, null_simps]:
  "if_null None v = Some v"
  "if_null (Some x) v = Some x"
  by (simp_all add: if_null_def)

lemma null_gt_not_le: "null_gt c v \<Longrightarrow> \<not> null_le c v"
  by (cases c) auto

lemma if_null_not_None [simp]: "if_null c v \<noteq> None"
  by (cases c) auto

section \<open>Tables\<close>

definition select_where :: "('r \<Rightarrow> bool) \<Rightarrow> 'r list \<Rightarrow> 'r list" where
  "select_where p t = filter p t"

definition count_where :: "('r \<Rightarrow> bool) \<Rightarrow> 'r list \<Rightarrow> nat" where
  "count_where p t = length (filter p t)"

definition update_where :: "('r \<Rightarrow> bool) \<Rightarrow> ('r \<Rightarrow> 'r) \<Rightarrow> 'r list \<Rightarrow> 'r list \<times> nat" where
  "update_where p f t = (map (\<lambda>r. if p r then f r else r) t, count_where p t)"

definition delete_where :: "('r \<Rightarrow> bool) \<Rightarrow> 'r list \<Rightarrow> 'r list \<times> nat" where
  "delete_where p t = (filter (\<lambda>r. \<not> p r) t, count_where p t)"

definition find_key :: "('r \<Rightarrow> 'k) \<Rightarrow> 'k \<Rightarrow> 'r list \<Rightarrow> 'r option" where
  "find_key key k t = List.find (\<lambda>r. key r = k) t"

text \<open>The primary key constraint: no two rows share a key.\<close>

definition unique_key :: "('r \<Rightarrow> 'k) \<Rightarrow> 'r list \<Rightarrow> bool" where
  "unique_key key t \<longleftrightarrow> distinct (map key t)"

lemma count_where_simps [simp, sql_simps]:
  "count_where p [] = 0"
  "count_where p (r # t) = (if p r then Suc (count_where p t) else count_where p t)"
  by (simp_all add: count_where_def)

lemma update_where_simps [simp, sql_simps]:
  "fst (update_where p f t) = map (\<lambda>r. if p r then f r else r) t"
  "snd (update_where p f t) = count_where p t"
  by (simp_all add: update_where_def)

lemma delete_where_simps [simp, sql_simps]:
  "fst (delete_where p t) = filter (\<lambda>r. \<not> p r) t"
  "snd (delete_where p t) = count_where p t"
  by (simp_all add: delete_where_def)

lemma count_where_0_iff [sql_simps]: "count_where p t = 0 \<longleftrightarrow> (\<forall>r \<in> set t. \<not> p r)"
  by (simp add: count_where_def filter_empty_conv)

lemma count_where_pos_iff: "0 < count_where p t \<longleftrightarrow> (\<exists>r \<in> set t. p r)"
  using count_where_0_iff [of p t] by auto

lemma count_where_le_length: "count_where p t \<le> length t"
  by (simp add: count_where_def)

lemma update_where_no_match: "count_where p t = 0 \<Longrightarrow> fst (update_where p f t) = t"
  by (auto simp: count_where_0_iff intro: map_idI)

lemma map_key_update_where:
  "(\<And>r. key (f r) = key r) \<Longrightarrow> map key (fst (update_where p f t)) = map key t"
  by (induction t) auto

lemma unique_key_update_where:
  "(\<And>r. key (f r) = key r) \<Longrightarrow> unique_key key (fst (update_where p f t)) = unique_key key t"
  unfolding unique_key_def by (simp only: map_key_update_where)

lemma unique_key_delete_where: "unique_key key t \<Longrightarrow> unique_key key (fst (delete_where p t))"
  by (simp add: unique_key_def distinct_map_filter)

lemma unique_key_inj:
  "unique_key key t \<Longrightarrow> r \<in> set t \<Longrightarrow> r' \<in> set t \<Longrightarrow> key r = key r' \<Longrightarrow> r = r'"
  by (auto simp: unique_key_def distinct_map dest: inj_onD)

lemma find_key_Some_iff:
  assumes "unique_key key t"
  shows "find_key key k t = Some r \<longleftrightarrow> r \<in> set t \<and> key r = k"
proof
  assume "find_key key k t = Some r"
  then show "r \<in> set t \<and> key r = k"
    by (auto simp: find_key_def find_Some_iff)
next
  assume r: "r \<in> set t \<and> key r = k"
  then obtain r' where r': "find_key key k t = Some r'"
    unfolding find_key_def by (cases "List.find (\<lambda>r. key r = k) t") (auto simp: find_None_iff)
  then have "r' \<in> set t \<and> key r' = k"
    by (auto simp: find_key_def find_Some_iff)
  with r assms have "r' = r" by (auto dest: unique_key_inj)
  with r' show "find_key key k t = Some r" by simp
qed

lemma find_key_SomeD: "find_key key k t = Some r \<Longrightarrow> r \<in> set t \<and> key r = k"
  by (auto simp: find_key_def find_Some_iff)

lemma find_key_only:
  "unique_key key t \<Longrightarrow> find_key key k t = Some r \<Longrightarrow> x \<in> set t \<Longrightarrow> key x = k \<Longrightarrow> x = r"
  using find_key_SomeD [of key k t r] unique_key_inj [of key t x r] by auto

lemma find_key_None_iff: "find_key key k t = None \<longleftrightarrow> k \<notin> key ` set t"
  by (auto simp: find_key_def find_None_iff)

lemma find_key_update_where:
  assumes "\<And>r. key (f r) = key r"
  shows "find_key key k (fst (update_where p f t)) =
    map_option (\<lambda>r. if p r then f r else r) (find_key key k t)"
  using assms by (induction t) (auto simp: find_key_def)

lemma count_where_unique_key:
  assumes "unique_key key t" and "\<And>r. p r \<Longrightarrow> key r = k"
  shows "count_where p t \<le> 1"
  using assms
proof (induction t)
  case (Cons a t)
  show ?case
  proof (cases "p a")
    case True
    with Cons.prems have "count_where p t = 0"
      by (force simp: count_where_0_iff unique_key_def)
    with True show ?thesis by simp
  next
    case False
    with Cons show ?thesis by (simp add: unique_key_def)
  qed
qed simp

text \<open>\<open>rows_affected == 1\<close>, the result of the single-row statements.\<close>

definition exec_one :: "('r \<Rightarrow> bool) \<Rightarrow> ('r \<Rightarrow> 'r) \<Rightarrow> 'r list \<Rightarrow> 'r list \<times> bool" where
  "exec_one p f t = (fst (update_where p f t), snd (update_where p f t) = 1)"

lemma exec_one_no_match: "\<forall>r \<in> set t. \<not> p r \<Longrightarrow> exec_one p f t = (t, False)"
  using count_where_0_iff [of p t] update_where_no_match [of p t f] by (simp add: exec_one_def)

lemma exec_one_simps [sql_simps]:
  "fst (exec_one p f t) = map (\<lambda>r. if p r then f r else r) t"
  "snd (exec_one p f t) = (count_where p t = 1)"
  by (simp_all add: exec_one_def)

section \<open>Guarded updates of one row\<close>

text \<open>
  The statement \<open>UPDATE .. WHERE key = i AND ..\<close>, where \<open>p\<close> is the whole condition and \<open>f\<close> the
  assignment of columns.
\<close>

locale keyed_update =
  fixes key :: "'r \<Rightarrow> 'k" and i :: 'k and p :: "'r \<Rightarrow> bool" and f :: "'r \<Rightarrow> 'r"
  assumes key_kept: "key (f r) = key r"
    and at_key: "p r \<Longrightarrow> key r = i"
begin

lemma keeps_keys: "map key (fst (exec_one p f t)) = map key t"
  unfolding exec_one_def fst_conv by (rule map_key_update_where) (rule key_kept)

lemma keeps_unique: "unique_key key (fst (exec_one p f t)) = unique_key key t"
  by (simp only: unique_key_def keeps_keys)

lemma other_rows: "j \<noteq> i \<Longrightarrow> find_key key j (fst (exec_one p f t)) = find_key key j t"
  using at_key key_kept by (induction t) (auto simp: exec_one_def find_key_def)

lemma its_row:
  "find_key key i (fst (exec_one p f t)) = map_option (\<lambda>r. if p r then f r else r) (find_key key i t)"
  unfolding exec_one_def fst_conv by (rule find_key_update_where) (rule key_kept)

lemma success_iff:
  assumes "unique_key key t"
  shows "snd (exec_one p f t) \<longleftrightarrow> (\<exists>r \<in> set t. p r)"
proof -
  have "count_where p t \<le> 1" by (rule count_where_unique_key [OF assms]) (rule at_key)
  then have "count_where p t = 1 \<longleftrightarrow> 0 < count_where p t" by linarith
  then show ?thesis using count_where_pos_iff [of p t] by (simp add: exec_one_def)
qed

lemma failure_keeps:
  assumes "unique_key key t" "\<not> snd (exec_one p f t)"
  shows "exec_one p f t = (t, False)"
  using assms success_iff by (intro exec_one_no_match) blast

lemma success_row:
  assumes "unique_key key t" "snd (exec_one p f t)"
  shows "\<exists>r. find_key key i t = Some r \<and> p r \<and> find_key key i (fst (exec_one p f t)) = Some (f r)"
proof -
  obtain r where r: "r \<in> set t" "p r" using assms success_iff by blast
  then have "find_key key i t = Some r" using assms(1) at_key by (simp add: find_key_Some_iff)
  then show ?thesis using r(2) by (simp add: its_row)
qed

lemma all_rows:
  assumes "\<And>r. r \<in> set t \<Longrightarrow> Q r" "\<And>r. p r \<Longrightarrow> Q r \<Longrightarrow> Q (f r)"
  shows "\<forall>r \<in> set (fst (exec_one p f t)). Q r"
  using assms by (auto simp: exec_one_def)

end

section \<open>Transition systems\<close>

locale step_system =
  fixes step :: "'s \<Rightarrow> 's \<Rightarrow> bool" and inv :: "'s \<Rightarrow> bool"
  assumes step_inv: "inv s \<Longrightarrow> step s t \<Longrightarrow> inv t"
begin

lemma reach_inv: "step\<^sup>*\<^sup>* s t \<Longrightarrow> inv s \<Longrightarrow> inv t"
  by (induction rule: rtranclp_induct) (auto intro: step_inv)

end

locale ordered_steps = step_system +
  fixes le :: "'s \<Rightarrow> 's \<Rightarrow> bool"
  assumes le_refl: "le s s"
    and le_trans: "le s t \<Longrightarrow> le t u \<Longrightarrow> le s u"
    and step_le: "inv s \<Longrightarrow> step s t \<Longrightarrow> le s t"
begin

lemma reach_le: "step\<^sup>*\<^sup>* s t \<Longrightarrow> inv s \<Longrightarrow> le s t"
proof (induction rule: rtranclp_induct)
  case (step t u)
  then show ?case using step_le [of t u] reach_inv [of s t] le_trans by blast
qed (rule le_refl)

end

section \<open>Sorted lists without repetitions\<close>

lemma strict_sorted_remdups_adj:
  fixes xs :: "'a::linorder list"
  shows "sorted xs \<Longrightarrow> sorted_wrt (<) (remdups_adj xs)"
  by (induction xs rule: remdups_adj.induct) auto

section \<open>Ordering helpers of the Rust iterator library\<close>

text \<open>
  \<open>Iterator::min_by_key\<close>: of several minimal elements the first one is returned.
\<close>

definition min_by_key :: "('a \<Rightarrow> 'k::linorder) \<Rightarrow> 'a list \<Rightarrow> 'a option" where
  "min_by_key f xs = (case xs of [] \<Rightarrow> None
     | x # ys \<Rightarrow> Some (fold (\<lambda>y best. if f y < f best then y else best) ys x))"

lemma fold_min_in:
  "fold (\<lambda>y best. if f y < f best then y else best) ys x \<in> insert x (set ys)"
  by (induction ys arbitrary: x) fastforce+

lemma fold_min_le:
  fixes f :: "'a \<Rightarrow> 'k::linorder"
  shows "\<forall>y \<in> insert x (set ys). f (fold (\<lambda>y best. if f y < f best then y else best) ys x) \<le> f y"
proof (induction ys arbitrary: x)
  case (Cons a ys)
  show ?case using Cons.IH [of "if f a < f x then a else x"] by (auto split: if_splits)
qed simp

lemma min_by_key_None [simp]: "min_by_key f xs = None \<longleftrightarrow> xs = []"
  by (cases xs) (auto simp: min_by_key_def)

lemma min_by_key_SomeD:
  "min_by_key f xs = Some m \<Longrightarrow> m \<in> set xs \<and> (\<forall>x \<in> set xs. f m \<le> f x)"
  using fold_min_in [of f] fold_min_le [of _ _ f]
  by (cases xs) (fastforce simp: min_by_key_def)+

text \<open>Two ways of splitting one list.\<close>

lemma append_split_cases:
  assumes "a @ b = c @ d"
  obtains us where "c = a @ us" "us @ d = b"
  | us where "us \<noteq> []" "a = c @ us" "us @ b = d"
  using assms append_eq_append_conv2 [of a b c d] by (metis append_Nil append_Nil2)

end
