(* ===== verification/Placement.thy ===== *)
theory Placement
  imports Aster_Prelude
begin

text \<open>
  Storage placement: \<open>src/src/services/storage_policy/policy/placement.rs\<close>.

  A placement profile is an admission filter and an ordered list of rules; a rule has a matcher and
  weighted targets. The resolver turns a file (name, size, extension, category) into a routing
  decision or a rejection; \<open>maximum_admitted_file_size\<close> inverts it for streams of unknown size.

  The definitions follow the Rust source function by function. What the source takes from other
  crates is a parameter: \<open>'cat\<close> is \<open>FileCategory\<close>, \<open>as_str\<close> its code, \<open>normalize_ext\<close> is
  \<open>normalize_extension_filter\<close>, \<open>classify\<close> is \<open>classify_file\<close>, and \<open>rng w\<close> is the value
  \<open>random_range(0..w)\<close> yields.
\<close>

section \<open>Data\<close>

definition PLACEMENT_PAYLOAD_FORMAT_VERSION :: nat where
  "PLACEMENT_PAYLOAD_FORMAT_VERSION = 1"

definition PLACEMENT_PAYLOAD_SCHEMA_VERSION :: nat where
  "PLACEMENT_PAYLOAD_SCHEMA_VERSION = 1"

record 'v placement_payload_envelope =
  format_version :: nat
  schema_version :: nat
  envelope_values :: 'v

definition envelope_new :: "'v \<Rightarrow> 'v placement_payload_envelope" where
  "envelope_new v =
     \<lparr>format_version = PLACEMENT_PAYLOAD_FORMAT_VERSION,
      schema_version = PLACEMENT_PAYLOAD_SCHEMA_VERSION,
      envelope_values = v\<rparr>"

record 'cat storage_admission_constraints =
  allowed_extensions :: "string list"
  denied_extensions :: "string list"
  accept_extensionless :: bool
  allowed_categories :: "'cat list"
  adm_max_file_size :: int

definition default_admission :: "'cat storage_admission_constraints" where
  "default_admission =
     \<lparr>allowed_extensions = [], denied_extensions = [], accept_extensionless = True,
      allowed_categories = [], adm_max_file_size = 0\<rparr>"

record 'cat placement_matcher =
  min_file_size :: int
  max_file_size :: int
  extensions :: "string list"
  compound_extensions :: "string list"
  extensionless :: "bool option"
  categories :: "'cat list"

datatype placement_selection_mode = FirstAvailable | WeightedRandom

fun selection_mode_as_str :: "placement_selection_mode \<Rightarrow> string" where
  "selection_mode_as_str FirstAvailable = ''first_available''"
| "selection_mode_as_str WeightedRandom = ''weighted_random''"

datatype placement_unavailable_behavior = NextRule | Reject

datatype upload_execution_preference = Automatic | ForceServerStream

fun execution_preference_as_str :: "upload_execution_preference \<Rightarrow> string" where
  "execution_preference_as_str Automatic = ''automatic''"
| "execution_preference_as_str ForceServerStream = ''force_server_stream''"

definition parse_execution_preference :: "string \<Rightarrow> upload_execution_preference option" where
  "parse_execution_preference v =
     (if v = ''automatic'' then Some Automatic
      else if v = ''force_server_stream'' then Some ForceServerStream
      else None)"

datatype target_exclusion_reason =
    Draining
  | Unavailable
  | Incompatible
  | PolicyFileSizeExceeded
  | CapacityInsufficient
  | CapacityUnavailable

fun exclusion_code :: "target_exclusion_reason \<Rightarrow> string" where
  "exclusion_code Draining = ''target_draining''"
| "exclusion_code Unavailable = ''target_unavailable''"
| "exclusion_code Incompatible = ''target_incompatible''"
| "exclusion_code PolicyFileSizeExceeded = ''policy_max_file_size_exceeded''"
| "exclusion_code CapacityInsufficient = ''capacity_insufficient''"
| "exclusion_code CapacityUnavailable = ''capacity_unavailable''"

record 'cat storage_placement_context =
  ctx_profile_id :: int
  filename :: string
  file_size :: int
  extension :: string
  compound_extension :: "string option"
  category :: 'cat

record 'cat storage_placement_classification =
  cl_filename :: string
  cl_file_size :: int
  cl_extension :: string
  cl_compound_extension :: "string option"
  cl_category :: 'cat

text \<open>\<open>classify_file\<close> returns extension, compound extension and category.\<close>

definition from_filename ::
  "(string \<Rightarrow> string \<Rightarrow> string \<times> string option \<times> 'cat) \<Rightarrow> int \<Rightarrow> string \<Rightarrow> int \<Rightarrow> string
     \<Rightarrow> 'cat storage_placement_context" where
  "from_filename classify pid name sz mime =
     (let (ext, cmp, cat) = classify name mime in
      \<lparr>ctx_profile_id = pid, filename = name, file_size = sz, extension = ext,
       compound_extension = cmp, category = cat\<rparr>)"

record placement_target =
  target_id :: int
  policy_id :: int
  weight :: nat
  stable_order :: nat
  accepting_new_writes :: bool
  policy_max_file_size :: int
  exclusion :: "target_exclusion_reason option"

definition eligible_for :: "placement_target \<Rightarrow> int \<Rightarrow> target_exclusion_reason + unit" where
  "eligible_for t sz =
     (if \<not> accepting_new_writes t then Inl Draining
      else case exclusion t of
        Some reason \<Rightarrow> Inl reason
      | None \<Rightarrow>
          if 0 < policy_max_file_size t \<and> policy_max_file_size t < sz
          then Inl PolicyFileSizeExceeded
          else if weight t = 0 then Inl Incompatible
          else Inr ())"

record 'cat placement_rule =
  rule_id :: int
  rule_name :: string
  rule_description :: string
  priority :: int
  rule_is_enabled :: bool
  matcher :: "'cat placement_matcher"
  selection_mode :: placement_selection_mode
  unavailable_behavior :: placement_unavailable_behavior
  targets :: "placement_target list"

record 'cat compiled_placement_profile =
  profile_id :: int
  revision :: int
  profile_is_enabled :: bool
  admission :: "'cat storage_admission_constraints"
  execution_preference :: upload_execution_preference
  rules :: "'cat placement_rule list"

record folder_placement_override =
  fo_policy_id :: int
  fo_policy_max_file_size :: int
  fo_is_available :: bool

record placement_rule_evaluation =
  ev_rule_id :: int
  ev_matched :: bool
  ev_reason_code :: "string option"

type_synonym exclusions = "(int \<times> target_exclusion_reason) list"

record storage_routing_decision =
  d_profile_id :: int
  d_revision :: int
  d_rule_id :: "int option"
  d_policy_id :: int
  d_selection_mode :: placement_selection_mode
  d_folder_override :: bool
  d_execution_preference :: upload_execution_preference
  d_excluded_targets :: exclusions
  d_evaluated_rules :: "placement_rule_evaluation list"

record 'cat storage_placement_simulation_result =
  classification :: "'cat storage_placement_classification"
  admitted :: bool
  decision :: "storage_routing_decision option"
  rejection_code :: "string option"
  evaluated_rules :: "placement_rule_evaluation list"
  excluded_targets :: exclusions

datatype placement_rejection =
    ProfileDisabled
  | AdmissionExtensionDenied
  | AdmissionCategoryDenied
  | AdmissionExtensionlessDenied
  | AdmissionFileTooLarge
  | NoMatchingRule
  | NoEligibleTarget
  | FolderPolicyUnavailable
  | FolderPolicyFileTooLarge

fun placement_rejection_code :: "placement_rejection \<Rightarrow> string" where
  "placement_rejection_code ProfileDisabled = ''placement_profile_disabled''"
| "placement_rejection_code AdmissionExtensionDenied = ''placement_extension_denied''"
| "placement_rejection_code AdmissionCategoryDenied = ''placement_category_denied''"
| "placement_rejection_code AdmissionExtensionlessDenied = ''placement_extensionless_denied''"
| "placement_rejection_code AdmissionFileTooLarge = ''placement_file_too_large''"
| "placement_rejection_code NoMatchingRule = ''placement_no_matching_rule''"
| "placement_rejection_code NoEligibleTarget = ''placement_no_eligible_target''"
| "placement_rejection_code FolderPolicyUnavailable = ''folder_policy_unavailable''"
| "placement_rejection_code FolderPolicyFileTooLarge = ''folder_policy_file_too_large''"

fun rejects_admission :: "placement_rejection \<Rightarrow> bool" where
  "rejects_admission ProfileDisabled = True"
| "rejects_admission AdmissionExtensionDenied = True"
| "rejects_admission AdmissionCategoryDenied = True"
| "rejects_admission AdmissionExtensionlessDenied = True"
| "rejects_admission AdmissionFileTooLarge = True"
| "rejects_admission _ = False"

datatype placement_resolution =
    Selected storage_routing_decision
  | Rejected placement_rejection "placement_rule_evaluation list" exclusions

section \<open>Compilation of payloads\<close>

fun normalize_unique_extensions_from ::
  "(string \<Rightarrow> string + string) \<Rightarrow> string list \<Rightarrow> string list \<Rightarrow> string + string list" where
  "normalize_unique_extensions_from normalize_ext acc [] = Inr acc"
| "normalize_unique_extensions_from normalize_ext acc (v # vs) =
     (case normalize_ext v of
        Inl e \<Rightarrow> Inl e
      | Inr n \<Rightarrow>
          normalize_unique_extensions_from normalize_ext
            (if n \<in> set acc then acc else acc @ [n]) vs)"

definition normalize_unique_extensions ::
  "(string \<Rightarrow> string + string) \<Rightarrow> string list \<Rightarrow> string + string list" where
  "normalize_unique_extensions normalize_ext vs =
     normalize_unique_extensions_from normalize_ext [] vs"

fun validate_categories_from ::
  "('cat \<Rightarrow> string) \<Rightarrow> string list \<Rightarrow> 'cat list \<Rightarrow> string + unit" where
  "validate_categories_from as_str seen [] = Inr ()"
| "validate_categories_from as_str seen (c # cs) =
     (if as_str c \<in> set seen then Inl (''duplicate category '' @ as_str c)
      else validate_categories_from as_str (as_str c # seen) cs)"

definition validate_categories :: "('cat \<Rightarrow> string) \<Rightarrow> 'cat list \<Rightarrow> string + unit" where
  "validate_categories as_str cs = validate_categories_from as_str [] cs"

definition compile_admission ::
  "(string \<Rightarrow> string + string) \<Rightarrow> ('cat \<Rightarrow> string) \<Rightarrow> 'cat storage_admission_constraints
     \<Rightarrow> string + 'cat storage_admission_constraints" where
  "compile_admission normalize_ext as_str a =
     bind_result (normalize_unique_extensions normalize_ext (allowed_extensions a)) (\<lambda>allow.
     bind_result (normalize_unique_extensions normalize_ext (denied_extensions a)) (\<lambda>deny.
     bind_result (validate_categories as_str (allowed_categories a)) (\<lambda>_.
       if adm_max_file_size a < 0
       then Inl ''admission max_file_size must be non-negative''
       else Inr (a\<lparr>allowed_extensions := allow, denied_extensions := deny\<rparr>))))"

definition compile_matcher ::
  "(string \<Rightarrow> string + string) \<Rightarrow> ('cat \<Rightarrow> string) \<Rightarrow> 'cat placement_matcher
     \<Rightarrow> string + 'cat placement_matcher" where
  "compile_matcher normalize_ext as_str m =
     bind_result (normalize_unique_extensions normalize_ext (extensions m)) (\<lambda>exts.
     bind_result (normalize_unique_extensions normalize_ext (compound_extensions m)) (\<lambda>comps.
     bind_result (validate_categories as_str (categories m)) (\<lambda>_.
       if min_file_size m < 0 \<or> max_file_size m < 0
       then Inl ''matcher file sizes must be non-negative''
       else if 0 < max_file_size m \<and> max_file_size m \<le> min_file_size m
       then Inl ''matcher max_file_size must be greater than min_file_size''
       else Inr (m\<lparr>extensions := exts, compound_extensions := comps\<rparr>))))"

section \<open>Admission and matching\<close>

definition compound_is :: "'cat storage_placement_context \<Rightarrow> string \<Rightarrow> bool" where
  "compound_is c v = (case compound_extension c of None \<Rightarrow> False | Some compound \<Rightarrow> v = compound)"

definition apply_admission ::
  "'cat storage_admission_constraints \<Rightarrow> 'cat storage_placement_context
     \<Rightarrow> placement_rejection + unit" where
  "apply_admission a c =
     bind_result
       (if extension c = [] then
          (if allowed_extensions a \<noteq> [] \<or> \<not> accept_extensionless a
           then Inl AdmissionExtensionlessDenied else Inr ())
        else if (\<exists>v \<in> set (denied_extensions a). v = extension c)
                \<or> (\<exists>v \<in> set (denied_extensions a). compound_is c v)
          then Inl AdmissionExtensionDenied
        else if allowed_extensions a \<noteq> []
                \<and> \<not> (\<exists>v \<in> set (allowed_extensions a). v = extension c \<or> compound_is c v)
          then Inl AdmissionExtensionDenied
        else Inr ())
       (\<lambda>_. if allowed_categories a \<noteq> [] \<and> category c \<notin> set (allowed_categories a)
            then Inl AdmissionCategoryDenied else Inr ())"

definition matches_matcher ::
  "'cat placement_matcher \<Rightarrow> 'cat storage_placement_context \<Rightarrow> bool" where
  "matches_matcher m c =
     (if file_size c < min_file_size m
         \<or> (0 < max_file_size m \<and> max_file_size m \<le> file_size c) then False
      else if (case extensionless m of None \<Rightarrow> False
                 | Some e \<Rightarrow> e \<noteq> (extension c = [])) then False
      else if extensions m \<noteq> []
              \<and> \<not> (\<exists>v \<in> set (extensions m). v = extension c \<or> compound_is c v) then False
      else if compound_extensions m \<noteq> []
              \<and> \<not> (\<exists>v \<in> set (compound_extensions m). compound_is c v) then False
      else categories m = [] \<or> category c \<in> set (categories m))"

section \<open>Target selection\<close>

definition dynamic_exclusion :: "exclusions \<Rightarrow> int \<Rightarrow> target_exclusion_reason option" where
  "dynamic_exclusion dyn pid = map_option snd (List.find (\<lambda>(p, _). p = pid) dyn)"

text \<open>The per-target verdict of the inner loop: a dynamic exclusion wins over \<open>eligible_for\<close>.\<close>

definition target_verdict ::
  "exclusions \<Rightarrow> int \<Rightarrow> placement_target \<Rightarrow> target_exclusion_reason + unit" where
  "target_verdict dyn sz t =
     (case dynamic_exclusion dyn (policy_id t) of
        Some reason \<Rightarrow> Inl reason
      | None \<Rightarrow> eligible_for t sz)"

fun partition_targets ::
  "exclusions \<Rightarrow> int \<Rightarrow> placement_target list \<Rightarrow> placement_target list \<Rightarrow> exclusions
     \<Rightarrow> placement_target list \<times> exclusions" where
  "partition_targets dyn sz [] eligible excluded = (eligible, excluded)"
| "partition_targets dyn sz (t # ts) eligible excluded =
     (case target_verdict dyn sz t of
        Inr _ \<Rightarrow> partition_targets dyn sz ts (eligible @ [t]) excluded
      | Inl reason \<Rightarrow> partition_targets dyn sz ts eligible (excluded @ [(policy_id t, reason)]))"

definition total_weight :: "placement_target list \<Rightarrow> nat" where
  "total_weight ts = sum_list (map weight ts)"

fun weighted_pick :: "nat \<Rightarrow> placement_target \<Rightarrow> placement_target list \<Rightarrow> placement_target" where
  "weighted_pick cursor selected [] = selected"
| "weighted_pick cursor selected (t # ts) =
     (if cursor < weight t then t else weighted_pick (cursor - weight t) selected ts)"

definition select_target ::
  "(nat \<Rightarrow> nat) \<Rightarrow> nat option \<Rightarrow> placement_selection_mode \<Rightarrow> placement_target list
     \<Rightarrow> placement_target option" where
  "select_target rng random_draw mode eligible =
     (case mode of
        FirstAvailable \<Rightarrow> min_by_key stable_order eligible
      | WeightedRandom \<Rightarrow>
          (let total = total_weight eligible;
               draw = (case random_draw of Some d \<Rightarrow> d | None \<Rightarrow> rng total)
           in Some (weighted_pick (draw mod total) (last eligible) eligible)))"

section \<open>The resolver\<close>

fun resolve_rules ::
  "(nat \<Rightarrow> nat) \<Rightarrow> nat option \<Rightarrow> 'cat compiled_placement_profile \<Rightarrow> 'cat storage_placement_context
     \<Rightarrow> exclusions \<Rightarrow> 'cat placement_rule list \<Rightarrow> placement_rule_evaluation list \<Rightarrow> exclusions
     \<Rightarrow> placement_resolution" where
  "resolve_rules rng random_draw profile c dyn [] evaluated excluded =
     Rejected (if excluded = [] then NoMatchingRule else NoEligibleTarget) evaluated excluded"
| "resolve_rules rng random_draw profile c dyn (r # rs) evaluated excluded =
     (if \<not> rule_is_enabled r then
        resolve_rules rng random_draw profile c dyn rs evaluated excluded
      else if \<not> matches_matcher (matcher r) c then
        resolve_rules rng random_draw profile c dyn rs
          (evaluated @ [\<lparr>ev_rule_id = rule_id r, ev_matched = False,
                         ev_reason_code = Some ''matcher_mismatch''\<rparr>])
          excluded
      else
        (let evaluated' = evaluated @ [\<lparr>ev_rule_id = rule_id r, ev_matched = True,
                                        ev_reason_code = None\<rparr>];
             (eligible, excluded') =
               partition_targets dyn (file_size c) (targets r) [] excluded
         in
           if eligible = [] then
             (if unavailable_behavior r = Reject
              then Rejected NoEligibleTarget evaluated' excluded'
              else resolve_rules rng random_draw profile c dyn rs evaluated' excluded')
           else
             (case select_target rng random_draw (selection_mode r) eligible of
                None \<Rightarrow> Rejected NoEligibleTarget [] []
              | Some selected \<Rightarrow>
                  Selected
                    \<lparr>d_profile_id = profile_id profile, d_revision = revision profile,
                     d_rule_id = Some (rule_id r), d_policy_id = policy_id selected,
                     d_selection_mode = selection_mode r, d_folder_override = False,
                     d_execution_preference = execution_preference profile,
                     d_excluded_targets = excluded', d_evaluated_rules = evaluated'\<rparr>)))"

definition resolve_placement_internal ::
  "(nat \<Rightarrow> nat) \<Rightarrow> 'cat compiled_placement_profile \<Rightarrow> 'cat storage_placement_context
     \<Rightarrow> folder_placement_override option \<Rightarrow> exclusions \<Rightarrow> nat option \<Rightarrow> placement_resolution" where
  "resolve_placement_internal rng profile c folder_override dyn random_draw =
     (if \<not> profile_is_enabled profile then Rejected ProfileDisabled [] []
      else if 0 < adm_max_file_size (admission profile)
              \<and> adm_max_file_size (admission profile) < file_size c
        then Rejected AdmissionFileTooLarge [] []
      else case apply_admission (admission profile) c of
        Inl rejection \<Rightarrow> Rejected rejection [] []
      | Inr _ \<Rightarrow>
          (case folder_override of
             Some folder \<Rightarrow>
               (if \<not> fo_is_available folder then Rejected FolderPolicyUnavailable [] []
                else if 0 < fo_policy_max_file_size folder
                        \<and> fo_policy_max_file_size folder < file_size c
                  then Rejected FolderPolicyFileTooLarge [] []
                else case dynamic_exclusion dyn (fo_policy_id folder) of
                  Some reason \<Rightarrow> Rejected NoEligibleTarget [] [(fo_policy_id folder, reason)]
                | None \<Rightarrow>
                    Selected
                      \<lparr>d_profile_id = profile_id profile, d_revision = revision profile,
                       d_rule_id = None, d_policy_id = fo_policy_id folder,
                       d_selection_mode = FirstAvailable, d_folder_override = True,
                       d_execution_preference = execution_preference profile,
                       d_excluded_targets = [], d_evaluated_rules = []\<rparr>)
           | None \<Rightarrow>
               resolve_rules rng random_draw profile c dyn (rules profile) [] []))"

definition resolve_placement_with_exclusions ::
  "(nat \<Rightarrow> nat) \<Rightarrow> 'cat compiled_placement_profile \<Rightarrow> 'cat storage_placement_context
     \<Rightarrow> folder_placement_override option \<Rightarrow> exclusions \<Rightarrow> nat option
     \<Rightarrow> placement_rejection + storage_routing_decision" where
  "resolve_placement_with_exclusions rng profile c folder_override dyn random_draw =
     (case resolve_placement_internal rng profile c folder_override dyn random_draw of
        Selected d \<Rightarrow> Inr d
      | Rejected rejection _ _ \<Rightarrow> Inl rejection)"

definition resolve_placement_with_random ::
  "(nat \<Rightarrow> nat) \<Rightarrow> 'cat compiled_placement_profile \<Rightarrow> 'cat storage_placement_context
     \<Rightarrow> folder_placement_override option \<Rightarrow> nat option
     \<Rightarrow> placement_rejection + storage_routing_decision" where
  "resolve_placement_with_random rng profile c folder_override random_draw =
     resolve_placement_with_exclusions rng profile c folder_override [] random_draw"

definition resolve_placement ::
  "(nat \<Rightarrow> nat) \<Rightarrow> 'cat compiled_placement_profile \<Rightarrow> 'cat storage_placement_context
     \<Rightarrow> folder_placement_override option \<Rightarrow> placement_rejection + storage_routing_decision" where
  "resolve_placement rng profile c folder_override =
     resolve_placement_with_random rng profile c folder_override None"

definition simulate_placement ::
  "(nat \<Rightarrow> nat) \<Rightarrow> 'cat compiled_placement_profile \<Rightarrow> 'cat storage_placement_context
     \<Rightarrow> folder_placement_override option \<Rightarrow> 'cat storage_placement_simulation_result" where
  "simulate_placement rng profile c folder_override =
     (let cl = \<lparr>cl_filename = filename c, cl_file_size = file_size c,
                cl_extension = extension c, cl_compound_extension = compound_extension c,
                cl_category = category c\<rparr>
      in case resolve_placement_internal rng profile c folder_override [] None of
           Selected d \<Rightarrow>
             \<lparr>classification = cl, admitted = True, decision = Some d, rejection_code = None,
              evaluated_rules = d_evaluated_rules d, excluded_targets = d_excluded_targets d\<rparr>
         | Rejected rejection evaluated excluded \<Rightarrow>
             \<lparr>classification = cl, admitted = \<not> rejects_admission rejection, decision = None,
              rejection_code = Some (placement_rejection_code rejection),
              evaluated_rules = evaluated, excluded_targets = excluded\<rparr>)"

section \<open>Largest admitted size\<close>

definition rule_endpoints :: "'cat placement_rule \<Rightarrow> int list" where
  "rule_endpoints r =
     (if 0 < min_file_size (matcher r) then [min_file_size (matcher r) - 1] else [])
     @ (if 0 < max_file_size (matcher r) then [max_file_size (matcher r) - 1] else [])
     @ concat (map (\<lambda>t. if 0 < policy_max_file_size t then [policy_max_file_size t] else [])
         (targets r))"

definition size_endpoints ::
  "'cat compiled_placement_profile \<Rightarrow> folder_placement_override option \<Rightarrow> int list" where
  "size_endpoints profile folder_override =
     [i64_max, 0]
     @ (if 0 < adm_max_file_size (admission profile)
        then [adm_max_file_size (admission profile)] else [])
     @ (case folder_override of
          None \<Rightarrow> []
        | Some folder \<Rightarrow>
            if 0 < fo_policy_max_file_size folder then [fo_policy_max_file_size folder] else [])
     @ concat (map rule_endpoints (rules profile))"

fun first_admitted ::
  "(nat \<Rightarrow> nat) \<Rightarrow> 'cat compiled_placement_profile \<Rightarrow> 'cat storage_placement_context
     \<Rightarrow> folder_placement_override option \<Rightarrow> placement_rejection \<Rightarrow> int list
     \<Rightarrow> placement_rejection + int" where
  "first_admitted rng profile c folder_override rejection [] = Inl rejection"
| "first_admitted rng profile c folder_override rejection (sz # szs) =
     (case resolve_placement_with_random rng profile (c\<lparr>file_size := sz\<rparr>) folder_override (Some 0)
      of Inr _ \<Rightarrow> Inr sz
       | Inl error \<Rightarrow> first_admitted rng profile c folder_override error szs)"

definition maximum_admitted_file_size ::
  "(nat \<Rightarrow> nat) \<Rightarrow> 'cat compiled_placement_profile \<Rightarrow> 'cat storage_placement_context
     \<Rightarrow> folder_placement_override option \<Rightarrow> placement_rejection + int" where
  "maximum_admitted_file_size rng profile c folder_override =
     first_admitted rng profile c folder_override NoMatchingRule
       (rev (remdups_adj (sort (size_endpoints profile folder_override))))"

section \<open>Targets: lemmas\<close>

definition eligible_targets :: "exclusions \<Rightarrow> int \<Rightarrow> placement_target list \<Rightarrow> placement_target list" where
  "eligible_targets dyn sz ts = filter (\<lambda>t. is_ok (target_verdict dyn sz t)) ts"

definition verdict_exclusions :: "exclusions \<Rightarrow> int \<Rightarrow> placement_target list \<Rightarrow> exclusions" where
  "verdict_exclusions dyn sz ts =
     concat (map (\<lambda>t. case target_verdict dyn sz t of
                        Inr _ \<Rightarrow> [] | Inl reason \<Rightarrow> [(policy_id t, reason)]) ts)"

lemma partition_targets_eq [simp]:
  "partition_targets dyn sz ts eligible excluded =
     (eligible @ eligible_targets dyn sz ts, excluded @ verdict_exclusions dyn sz ts)"
  by (induction ts arbitrary: eligible excluded)
    (auto simp: eligible_targets_def verdict_exclusions_def split: sum.splits)

lemma eligible_targets_iff [simp]:
  "t \<in> set (eligible_targets dyn sz ts) \<longleftrightarrow> t \<in> set ts \<and> is_ok (target_verdict dyn sz t)"
  by (auto simp: eligible_targets_def)

lemma dynamic_exclusion_None_iff [simp]:
  "dynamic_exclusion dyn pid = None \<longleftrightarrow> pid \<notin> fst ` set dyn"
  by (force simp: dynamic_exclusion_def find_None_iff)

lemma target_verdict_okD:
  assumes "is_ok (target_verdict dyn sz t)"
  shows "policy_id t \<notin> fst ` set dyn" and "accepting_new_writes t" and "exclusion t = None"
    and "0 < policy_max_file_size t \<Longrightarrow> sz \<le> policy_max_file_size t" and "0 < weight t"
  using assms dynamic_exclusion_None_iff [of dyn "policy_id t"]
  by (auto simp: target_verdict_def eligible_for_def split: option.splits if_splits)

lemma weighted_pick_in: "weighted_pick cursor sel ts \<in> insert sel (set ts)"
  by (induction cursor sel ts rule: weighted_pick.induct) auto

lemma weighted_pick_last: "ts \<noteq> [] \<Longrightarrow> weighted_pick cursor (last ts) ts \<in> set ts"
  using weighted_pick_in [of cursor "last ts" ts] by auto

lemma select_target_Some:
  "eligible \<noteq> [] \<Longrightarrow> \<exists>t \<in> set eligible. select_target rng draw mode eligible = Some t"
proof (cases mode)
  case FirstAvailable
  assume "eligible \<noteq> []"
  then obtain t where "min_by_key stable_order eligible = Some t"
    by (cases "min_by_key stable_order eligible") auto
  with FirstAvailable show ?thesis
    by (auto simp: select_target_def dest: min_by_key_SomeD)
next
  case WeightedRandom
  assume "eligible \<noteq> []"
  with WeightedRandom show ?thesis
    by (simp add: select_target_def Let_def weighted_pick_last)
qed

text \<open>Weighted selection visits the targets in order, each owning an interval of the draws.\<close>

lemma card_shift: "card {d. w \<le> d \<and> d < w + n \<and> P (d - w)} = card {d::nat. d < n \<and> P d}"
proof -
  have eq: "{d. w \<le> d \<and> d < w + n \<and> P (d - w)} = (+) w ` {d::nat. d < n \<and> P d}" (is "?A = ?B")
  proof
    show "?A \<subseteq> ?B"
    proof
      fix d assume "d \<in> ?A"
      then have "d = w + (d - w)" and "d - w \<in> {d. d < n \<and> P d}" by auto
      then show "d \<in> ?B" by blast
    qed
  qed auto
  show ?thesis unfolding eq by (rule card_image) simp
qed

lemma weighted_pick_card:
  assumes "distinct ts" and "t \<in> set ts"
  shows "card {d. d < total_weight ts \<and> weighted_pick d sel ts = t} = weight t"
  using assms
proof (induction ts)
  case (Cons a ts)
  let ?S = "{d. d < total_weight (a # ts) \<and> weighted_pick d sel (a # ts) = t}"
  let ?lo = "{d. d < weight a \<and> a = t}"
  let ?hi = "{d. weight a \<le> d \<and> d < weight a + total_weight ts \<and> weighted_pick (d - weight a) sel ts = t}"
  have split: "?S = ?lo \<union> ?hi"
    by (auto simp: total_weight_def split: if_splits)
  have fin: "finite ?lo" "finite ?hi" by auto
  have card: "card ?S = card ?lo + card {d. d < total_weight ts \<and> weighted_pick d sel ts = t}"
    unfolding split
    by (subst card_Un_disjoint [OF fin])
      (auto simp: card_shift [where P = "\<lambda>d. weighted_pick d sel ts = t"])
  show ?case
  proof (cases "a = t")
    case True
    with Cons.prems have out: "t \<notin> set ts" by simp
    have "{d. d < total_weight ts \<and> weighted_pick d sel ts = t} = {}"
    proof -
      have "d < total_weight ts \<Longrightarrow> weighted_pick d sel ts \<in> set ts" for d
        by (induction d sel ts rule: weighted_pick.induct) (auto simp: total_weight_def)
      with out show ?thesis by auto
    qed
    with card True show ?thesis by simp
  next
    case False
    with Cons card show ?thesis by simp
  qed
qed simp

section \<open>The resolver: lemmas\<close>

definition is_selected :: "placement_resolution \<Rightarrow> bool" where
  "is_selected r = (case r of Selected _ \<Rightarrow> True | Rejected _ _ _ \<Rightarrow> False)"

lemma is_selected_simps [simp]:
  "is_selected (Selected d) = True"
  "is_selected (Rejected x y z) = False"
  by (simp_all add: is_selected_def)

lemma resolve_with_exclusions_ok [simp]:
  "is_ok (resolve_placement_with_exclusions rng p c fo dyn draw)
     = is_selected (resolve_placement_internal rng p c fo dyn draw)"
  by (simp add: resolve_placement_with_exclusions_def split: placement_resolution.splits)

text \<open>
  The rule that decides: all enabled matching rules before it had no eligible target and let the
  search continue.
\<close>

definition rule_passes ::
  "exclusions \<Rightarrow> 'cat storage_placement_context \<Rightarrow> 'cat placement_rule \<Rightarrow> bool" where
  "rule_passes dyn c r \<longleftrightarrow>
     \<not> rule_is_enabled r \<or> \<not> matches_matcher (matcher r) c
     \<or> (eligible_targets dyn (file_size c) (targets r) = [] \<and> unavailable_behavior r = NextRule)"

definition rule_decides ::
  "exclusions \<Rightarrow> 'cat storage_placement_context \<Rightarrow> 'cat placement_rule \<Rightarrow> bool" where
  "rule_decides dyn c r \<longleftrightarrow>
     rule_is_enabled r \<and> matches_matcher (matcher r) c
     \<and> eligible_targets dyn (file_size c) (targets r) \<noteq> []"

fun deciding_rule ::
  "exclusions \<Rightarrow> 'cat storage_placement_context \<Rightarrow> 'cat placement_rule list
     \<Rightarrow> 'cat placement_rule option" where
  "deciding_rule dyn c [] = None"
| "deciding_rule dyn c (r # rs) =
     (if rule_decides dyn c r then Some r
      else if rule_passes dyn c r then deciding_rule dyn c rs
      else None)"

lemma deciding_rule_Some:
  "deciding_rule dyn c rs = Some r \<Longrightarrow>
     rule_decides dyn c r
     \<and> (\<exists>before after. rs = before @ r # after \<and> (\<forall>b \<in> set before. rule_passes dyn c b))"
proof (induction rs)
  case (Cons a rs)
  show ?case
  proof (cases "rule_decides dyn c a")
    case True
    with Cons.prems show ?thesis by force
  next
    case False
    with Cons obtain before after where "rule_decides dyn c r" "rule_passes dyn c a"
      "rs = before @ r # after" "\<forall>b \<in> set before. rule_passes dyn c b"
      by (auto split: if_splits)
    then show ?thesis by (intro conjI exI [of _ "a # before"] exI [of _ after]) auto
  qed
qed simp

definition decision_of ::
  "'cat compiled_placement_profile \<Rightarrow> 'cat placement_rule \<Rightarrow> placement_target
     \<Rightarrow> storage_routing_decision \<Rightarrow> bool" where
  "decision_of p r t d \<longleftrightarrow>
     d_profile_id d = profile_id p \<and> d_revision d = revision p
     \<and> d_rule_id d = Some (rule_id r) \<and> d_policy_id d = policy_id t
     \<and> d_selection_mode d = selection_mode r \<and> \<not> d_folder_override d
     \<and> d_execution_preference d = execution_preference p"

lemma resolve_rules_pass:
  assumes pass: "rule_passes dyn c r" and not_dec: "\<not> rule_decides dyn c r"
  shows "\<exists>ev' ex'. resolve_rules rng draw p c dyn (r # rs) ev ex
    = resolve_rules rng draw p c dyn rs ev' ex'"
proof (cases "rule_is_enabled r \<and> matches_matcher (matcher r) c")
  case True
  with pass not_dec have "eligible_targets dyn (file_size c) (targets r) = []"
    and "unavailable_behavior r = NextRule"
    by (auto simp: rule_decides_def rule_passes_def)
  with True show ?thesis by (simp add: Let_def) blast
next
  case False
  then show ?thesis by (cases "rule_is_enabled r") (simp, blast)+
qed

lemma resolve_rules_stop:
  assumes "\<not> rule_passes dyn c r" and "\<not> rule_decides dyn c r"
  shows "\<not> is_selected (resolve_rules rng draw p c dyn (r # rs) ev ex)"
  using assms by (cases "unavailable_behavior r") (auto simp: rule_decides_def rule_passes_def Let_def)

lemma resolve_rules_cases:
  "(case deciding_rule dyn c rs of
      None \<Rightarrow> \<not> is_selected (resolve_rules rng draw p c dyn rs ev ex)
    | Some r \<Rightarrow>
        \<exists>t d. select_target rng draw (selection_mode r)
                (eligible_targets dyn (file_size c) (targets r)) = Some t
            \<and> t \<in> set (eligible_targets dyn (file_size c) (targets r))
            \<and> decision_of p r t d
            \<and> resolve_rules rng draw p c dyn rs ev ex = Selected d)"
proof (induction rs arbitrary: ev ex)
  case (Cons r rs)
  let ?el = "eligible_targets dyn (file_size c) (targets r)"
  show ?case
  proof (cases "rule_decides dyn c r")
    case True
    then have ne: "?el \<noteq> []" by (simp add: rule_decides_def)
    from select_target_Some [OF ne, of rng draw "selection_mode r"] obtain t where
      t: "t \<in> set ?el" "select_target rng draw (selection_mode r) ?el = Some t" by blast
    with True show ?thesis
      by (auto simp: rule_decides_def Let_def decision_of_def)
  next
    case False
    show ?thesis
    proof (cases "rule_passes dyn c r")
      case pass: True
      from resolve_rules_pass [OF pass False, of rng draw p rs ev ex] obtain ev' ex' where
        "resolve_rules rng draw p c dyn (r # rs) ev ex = resolve_rules rng draw p c dyn rs ev' ex'"
        by blast
      with False pass Cons.IH [of ev' ex'] show ?thesis
        by (simp del: resolve_rules.simps split: option.splits)
    next
      case stop: False
      with False resolve_rules_stop [OF stop False] show ?thesis by (simp del: resolve_rules.simps)
    qed
  qed
qed simp

lemma resolve_rules_Selected:
  assumes "resolve_rules rng draw p c dyn rs ev ex = Selected d"
  obtains r t where "deciding_rule dyn c rs = Some r" and "decision_of p r t d"
    and "t \<in> set (eligible_targets dyn (file_size c) (targets r))"
    and "select_target rng draw (selection_mode r)
           (eligible_targets dyn (file_size c) (targets r)) = Some t"
  using assms resolve_rules_cases [where dyn = dyn and c = c and rs = rs and rng = rng and draw = draw
      and p = p and ev = ev and ex = ex]
  by (auto split: option.splits)

lemma resolve_rules_is_selected:
  "is_selected (resolve_rules rng draw p c dyn rs ev ex) \<longleftrightarrow> deciding_rule dyn c rs \<noteq> None"
  using resolve_rules_cases [where dyn = dyn and c = c and rs = rs and rng = rng and draw = draw
      and p = p and ev = ev and ex = ex]
  by (auto split: option.splits)

text \<open>Whether a file is placed does not depend on the draw.\<close>

lemma resolve_rules_draw:
  "is_selected (resolve_rules rng draw p c dyn rs ev ex)
     = is_selected (resolve_rules rng' draw' p c dyn rs ev ex)"
  by (simp add: resolve_rules_is_selected)

lemma resolve_internal_draw:
  "is_selected (resolve_placement_internal rng p c fo dyn draw)
     = is_selected (resolve_placement_internal rng' p c fo dyn draw')"
  unfolding resolve_placement_internal_def
  using resolve_rules_draw [of rng draw p c dyn "rules p" "[]" "[]" rng' draw']
  by (simp split: sum.splits option.splits)

section \<open>Bands: sizes the resolver cannot tell apart\<close>

text \<open>
  \<open>first_ok\<close> probes candidate sizes in order. The locale states what a caller may rely on when the
  outcome is constant between the listed endpoints: probing the endpoints from the top finds the
  largest accepted size.
\<close>

fun first_ok :: "(int \<Rightarrow> 'e + 'd) \<Rightarrow> 'e \<Rightarrow> int list \<Rightarrow> 'e + int" where
  "first_ok f e [] = Inl e"
| "first_ok f e (x # xs) = (case f x of Inr _ \<Rightarrow> Inr x | Inl e' \<Rightarrow> first_ok f e' xs)"

lemma first_ok_Inr:
  "first_ok f e xs = Inr x \<Longrightarrow> \<exists>before after. xs = before @ x # after \<and> is_ok (f x)
     \<and> (\<forall>b \<in> set before. \<not> is_ok (f b))"
proof (induction xs arbitrary: e)
  case (Cons a xs)
  show ?case
  proof (cases "f a")
    case (Inl e')
    with Cons obtain before after where "xs = before @ x # after" "is_ok (f x)"
      "\<forall>b \<in> set before. \<not> is_ok (f b)" by fastforce
    with Inl show ?thesis by (intro exI [of _ "a # before"] exI [of _ after]) auto
  next
    case (Inr d)
    with Cons.prems show ?thesis by (intro exI [of _ "[]"] exI [of _ xs]) auto
  qed
qed simp

lemma first_ok_Inl: "first_ok f e xs = Inl e' \<Longrightarrow> \<forall>x \<in> set xs. \<not> is_ok (f x)"
  by (induction xs arbitrary: e) (auto split: sum.splits)

lemma first_ok_descending:
  assumes "sorted_wrt (>) xs" and "first_ok f e xs = Inr s" and "x \<in> set xs" and "is_ok (f x)"
  shows "x \<le> s"
proof -
  from first_ok_Inr [OF assms(2)] obtain before after where
    "xs = before @ s # after" "\<forall>b \<in> set before. \<not> is_ok (f b)" by blast
  with assms show ?thesis by (auto simp: sorted_wrt_append)
qed

definition probes :: "int list \<Rightarrow> int list" where
  "probes es = rev (remdups_adj (sort es))"

lemma probes_sorted: "sorted_wrt (>) (probes es)"
proof -
  have "sorted_wrt (<) (remdups_adj (sort es))"
    by (rule strict_sorted_remdups_adj) simp
  then show ?thesis by (simp add: probes_def sorted_wrt_rev)
qed

lemma set_probes [simp]: "set (probes es) = set es"
  by (simp add: probes_def)

locale banded_outcome =
  fixes endpoints :: "int list" and outcome :: "int \<Rightarrow> 'e + 'd"
  assumes top: "i64_max \<in> set endpoints"
    and band: "\<lbrakk>0 \<le> s; 0 \<le> s'; \<forall>e \<in> set endpoints. s \<le> e \<longleftrightarrow> s' \<le> e\<rbrakk>
      \<Longrightarrow> is_ok (outcome s) = is_ok (outcome s')"
begin

lemma endpoint_above:
  assumes "0 \<le> s" and "s \<le> i64_max" and "is_ok (outcome s)"
  shows "\<exists>e \<in> set endpoints. s \<le> e \<and> is_ok (outcome e)"
proof -
  define e where "e = Min {x \<in> set endpoints. s \<le> x}"
  have ne: "{x \<in> set endpoints. s \<le> x} \<noteq> {}" using top assms(2) by auto
  then have e: "e \<in> set endpoints" "s \<le> e"
    unfolding e_def using Min_in [OF _ ne] by auto
  have least: "e \<le> x" if "x \<in> set endpoints" "s \<le> x" for x
    unfolding e_def using that by (intro Min_le) auto
  have "is_ok (outcome s) = is_ok (outcome e)"
    using assms(1) e least by (intro band) (auto intro: order_trans)
  with assms(3) e show ?thesis by blast
qed

lemma probe_maximal:
  assumes "first_ok outcome e0 (probes endpoints) = Inr m" and "0 \<le> s" and "s \<le> i64_max"
    and "is_ok (outcome s)"
  shows "s \<le> m"
  using endpoint_above [OF assms(2-4)] first_ok_descending [OF probes_sorted assms(1)] by force

lemma probe_accepted: "first_ok outcome e0 (probes endpoints) = Inr m \<Longrightarrow> is_ok (outcome m) \<and> m \<in> set endpoints"
  using first_ok_Inr [of outcome e0 "probes endpoints" m] by (metis in_set_conv_decomp set_probes)

lemma probe_rejected:
  assumes "first_ok outcome e0 (probes endpoints) = Inl e" and "0 \<le> s" and "s \<le> i64_max"
  shows "\<not> is_ok (outcome s)"
  using endpoint_above [OF assms(2,3)] first_ok_Inl [OF assms(1)] by auto

end

definition same_band :: "int list \<Rightarrow> int \<Rightarrow> int \<Rightarrow> bool" where
  "same_band es s s' \<longleftrightarrow> 0 \<le> s \<and> 0 \<le> s' \<and> (\<forall>e \<in> set es. s \<le> e \<longleftrightarrow> s' \<le> e)"

lemma same_band_subset: "set ys \<subseteq> set xs \<Longrightarrow> same_band xs s s' \<Longrightarrow> same_band ys s s'"
  by (auto simp: same_band_def)

lemma same_band_concat:
  "same_band (concat (map f xs)) s s' \<Longrightarrow> x \<in> set xs \<Longrightarrow> same_band (f x) s s'"
  unfolding same_band_def by simp

lemma same_band_limit:
  "same_band (if 0 < m then [m] else []) s s' \<Longrightarrow> (0 < m \<and> m < s) = (0 < m \<and> m < s')"
  by (auto simp: same_band_def split: if_splits)

lemma same_band_below:
  "same_band (if 0 < m then [m - 1] else []) s s' \<Longrightarrow> (s < m) = (s' < m)"
  by (auto simp: same_band_def split: if_splits)

lemma same_band_matches:
  assumes "same_band (rule_endpoints r) s s'"
  shows "matches_matcher (matcher r) (c\<lparr>file_size := s\<rparr>) = matches_matcher (matcher r) (c\<lparr>file_size := s'\<rparr>)"
proof -
  from assms have "(s < min_file_size (matcher r)) = (s' < min_file_size (matcher r))"
    and "(s < max_file_size (matcher r)) = (s' < max_file_size (matcher r))"
    by (auto simp: rule_endpoints_def elim!: same_band_subset [rotated] intro!: same_band_below)
  then show ?thesis
    by (cases "extensionless (matcher r)")
      (simp_all add: matches_matcher_def compound_is_def not_less [symmetric])
qed

lemma same_band_eligible:
  assumes "same_band (rule_endpoints r) s s'"
  shows "eligible_targets dyn s (targets r) = eligible_targets dyn s' (targets r)"
    and "verdict_exclusions dyn s (targets r) = verdict_exclusions dyn s' (targets r)"
proof -
  have "target_verdict dyn s t = target_verdict dyn s' t" if "t \<in> set (targets r)" for t
  proof -
    from assms that have "same_band (if 0 < policy_max_file_size t then [policy_max_file_size t] else []) s s'"
      by (auto simp: rule_endpoints_def elim!: same_band_subset [rotated])
    from same_band_limit [OF this] show ?thesis
      by (simp only: target_verdict_def eligible_for_def)
  qed
  then show "eligible_targets dyn s (targets r) = eligible_targets dyn s' (targets r)"
    and "verdict_exclusions dyn s (targets r) = verdict_exclusions dyn s' (targets r)"
    unfolding eligible_targets_def verdict_exclusions_def
    by (auto intro!: filter_cong arg_cong [where f = concat])
qed

lemma same_band_resolve_rules:
  assumes "\<And>r. r \<in> set rs \<Longrightarrow> same_band (rule_endpoints r) s s'"
  shows "resolve_rules rng draw p (c\<lparr>file_size := s\<rparr>) dyn rs ev ex
    = resolve_rules rng draw p (c\<lparr>file_size := s'\<rparr>) dyn rs ev ex"
  using assms
proof (induction rs arbitrary: ev ex)
  case (Cons r rs)
  then have r: "same_band (rule_endpoints r) s s'" by simp
  show ?case
    using Cons same_band_matches [OF r, of c] same_band_eligible [OF r, of dyn]
    by (simp add: Let_def)
qed simp

text \<open>The endpoints the code collects separate all sizes the resolver can tell apart.\<close>

lemma same_band_resolve:
  assumes "same_band (size_endpoints p fo) s s'"
  shows "resolve_placement_internal rng p (c\<lparr>file_size := s\<rparr>) fo dyn draw
    = resolve_placement_internal rng p (c\<lparr>file_size := s'\<rparr>) fo dyn draw"
proof -
  from assms have adm: "same_band (if 0 < adm_max_file_size (admission p)
      then [adm_max_file_size (admission p)] else []) s s'"
    and fold: "\<And>f. fo = Some f \<Longrightarrow> same_band (if 0 < fo_policy_max_file_size f
      then [fo_policy_max_file_size f] else []) s s'"
    and rules: "same_band (concat (map rule_endpoints (rules p))) s s'"
    by (auto simp: size_endpoints_def elim!: same_band_subset [rotated])
  have "resolve_rules rng draw p (c\<lparr>file_size := s\<rparr>) dyn (rules p) [] []
      = resolve_rules rng draw p (c\<lparr>file_size := s'\<rparr>) dyn (rules p) [] []"
    by (rule same_band_resolve_rules) (rule same_band_concat [OF rules])
  moreover have "apply_admission (admission p) (c\<lparr>file_size := s\<rparr>)
      = apply_admission (admission p) (c\<lparr>file_size := s'\<rparr>)"
    by (simp add: apply_admission_def compound_is_def)
  ultimately show ?thesis
    unfolding resolve_placement_internal_def
    using same_band_limit [OF adm] same_band_limit [OF fold]
    by (simp split: sum.splits option.splits)
qed

interpretation placement_bands: banded_outcome "size_endpoints p fo"
  "\<lambda>s. resolve_placement_with_random rng p (c\<lparr>file_size := s\<rparr>) fo (Some 0)"
  for rng :: "nat \<Rightarrow> nat" and p :: "'cat compiled_placement_profile"
    and c :: "'cat storage_placement_context" and fo :: "folder_placement_override option"
proof
  show "i64_max \<in> set (size_endpoints p fo)" by (simp add: size_endpoints_def)
next
  fix s s'
  assume "0 \<le> s" and "0 \<le> s'" and "\<forall>e \<in> set (size_endpoints p fo). s \<le> e \<longleftrightarrow> s' \<le> e"
  then have "same_band (size_endpoints p fo) s s'" by (simp add: same_band_def)
  then show "is_ok (resolve_placement_with_random rng p (c\<lparr>file_size := s\<rparr>) fo (Some 0))
    = is_ok (resolve_placement_with_random rng p (c\<lparr>file_size := s'\<rparr>) fo (Some 0))"
    by (simp add: resolve_placement_with_random_def same_band_resolve [of p fo s s'])
qed

lemma first_admitted_first_ok:
  "first_admitted rng p c fo e xs =
     first_ok (\<lambda>s. resolve_placement_with_random rng p (c\<lparr>file_size := s\<rparr>) fo (Some 0)) e xs"
  by (induction xs arbitrary: e) (auto split: sum.splits)

lemma maximum_admitted_probes:
  "maximum_admitted_file_size rng p c fo =
     first_ok (\<lambda>s. resolve_placement_with_random rng p (c\<lparr>file_size := s\<rparr>) fo (Some 0))
       NoMatchingRule (probes (size_endpoints p fo))"
  by (simp add: maximum_admitted_file_size_def first_admitted_first_ok probes_def)

lemma resolve_random_draw:
  "is_ok (resolve_placement_with_random rng p c fo draw)
     = is_ok (resolve_placement_with_random rng' p c fo draw')"
  by (simp add: resolve_placement_with_random_def
      resolve_internal_draw [of rng p c fo "[]" draw rng' draw'])

section \<open>Properties\<close>

text \<open>A profile for concrete evaluation: a rule for small files and a weighted rule for the rest.\<close>

definition ex_target :: "int \<Rightarrow> nat \<Rightarrow> nat \<Rightarrow> int \<Rightarrow> placement_target" where
  "ex_target pid w ord lim =
     \<lparr>target_id = pid, policy_id = pid, weight = w, stable_order = ord,
      accepting_new_writes = True, policy_max_file_size = lim, exclusion = None\<rparr>"

definition ex_matcher :: "int \<Rightarrow> int \<Rightarrow> nat placement_matcher" where
  "ex_matcher lo hi =
     \<lparr>min_file_size = lo, max_file_size = hi, extensions = [], compound_extensions = [],
      extensionless = None, categories = []\<rparr>"

definition ex_rule ::
  "int \<Rightarrow> nat placement_matcher \<Rightarrow> placement_selection_mode \<Rightarrow> placement_target list
     \<Rightarrow> nat placement_rule" where
  "ex_rule rid m mode ts =
     \<lparr>rule_id = rid, rule_name = ''r'', rule_description = [], priority = rid,
      rule_is_enabled = True, matcher = m, selection_mode = mode,
      unavailable_behavior = NextRule, targets = ts\<rparr>"

definition ex_profile :: "nat compiled_placement_profile" where
  "ex_profile =
     \<lparr>profile_id = 1, revision = 1, profile_is_enabled = True, admission = default_admission,
      execution_preference = Automatic,
      rules = [ex_rule 10 (ex_matcher 0 100) FirstAvailable [ex_target 7 1 0 0],
               ex_rule 11 (ex_matcher 0 0) WeightedRandom [ex_target 8 1 0 500, ex_target 9 3 1 2000]]\<rparr>"

definition ex_context :: "int \<Rightarrow> nat storage_placement_context" where
  "ex_context sz =
     \<lparr>ctx_profile_id = 1, filename = ''a.bin'', file_size = sz, extension = ''bin'',
      compound_extension = None, category = 0\<rparr>"

lemmas ex_placement_defs =
  ex_profile_def ex_rule_def ex_matcher_def ex_target_def ex_context_def default_admission_def

lemmas placement_eval =
  resolve_placement_with_random_def resolve_placement_with_exclusions_def
  resolve_placement_internal_def apply_admission_def matches_matcher_def eligible_targets_def
  verdict_exclusions_def target_verdict_def dynamic_exclusion_def eligible_for_def
  select_target_def total_weight_def Let_def compound_is_def

lemma ex_maximum: "maximum_admitted_file_size (\<lambda>_. 0) ex_profile (ex_context 0) None = Inr 2000"
  by (simp add: maximum_admitted_file_size_def size_endpoints_def rule_endpoints_def i64_max_def
      ex_placement_defs placement_eval)

text \<open>
  (C15) The receive ceiling of a stream of unknown size is exact. If \<open>maximum_admitted_file_size\<close>
  returns \<open>m\<close>, a file of size \<open>m\<close> is placed whatever the random draw, and no larger \<open>i64\<close> size is
  placed by any draw: the endpoints the code collects are enough.
\<close>

theorem maximum_admitted_file_size_exact:
  assumes "maximum_admitted_file_size rng p c fo = Inr m"
  shows "is_ok (resolve_placement_with_random rng' p (c\<lparr>file_size := m\<rparr>) fo draw)
    \<and> (\<forall>s. m < s \<and> 0 \<le> s \<and> s \<le> i64_max
      \<longrightarrow> \<not> is_ok (resolve_placement_with_random rng' p (c\<lparr>file_size := s\<rparr>) fo draw))"
proof -
  note max = assms [unfolded maximum_admitted_probes]
  have draw: "is_ok (resolve_placement_with_random rng' p (c\<lparr>file_size := s\<rparr>) fo draw)
      = is_ok (resolve_placement_with_random rng p (c\<lparr>file_size := s\<rparr>) fo (Some 0))" for s
    by (rule resolve_random_draw)
  show ?thesis
    unfolding draw
    using placement_bands.probe_accepted [OF max] placement_bands.probe_maximal [OF max]
    by (meson not_le)
qed

theorem maximum_admitted_file_size_exact_witness:
  "is_ok (resolve_placement_with_random (\<lambda>_. 5) ex_profile (ex_context 2000) None None)
   \<and> \<not> is_ok (resolve_placement_with_random (\<lambda>_. 5) ex_profile (ex_context 2001) None None)"
  using maximum_admitted_file_size_exact [OF ex_maximum, of "\<lambda>_. 5" None]
  by (auto simp: ex_context_def i64_max_def)

text \<open>
  When no ceiling is found there is nothing to receive: if \<open>maximum_admitted_file_size\<close>
  rejects, every size from \<open>0\<close> to the largest \<open>i64\<close> is rejected, for every draw.
\<close>

theorem maximum_admitted_file_size_none:
  assumes "maximum_admitted_file_size rng p c fo = Inl e" and "0 \<le> s" and "s \<le> i64_max"
  shows "\<not> is_ok (resolve_placement_with_random rng' p (c\<lparr>file_size := s\<rparr>) fo draw)"
  using placement_bands.probe_rejected [OF assms(1) [unfolded maximum_admitted_probes] assms(2,3)]
    resolve_random_draw [of rng' p "c\<lparr>file_size := s\<rparr>" fo draw rng "Some 0"] by simp

theorem maximum_admitted_file_size_none_witness:
  "\<not> is_ok (resolve_placement_with_random (\<lambda>_. 0)
       (ex_profile\<lparr>profile_is_enabled := False\<rparr>) ((ex_context 0)\<lparr>file_size := 42\<rparr>) None None)"
proof (rule maximum_admitted_file_size_none)
  show "maximum_admitted_file_size (\<lambda>_. 0) (ex_profile\<lparr>profile_is_enabled := False\<rparr>)
      (ex_context 0) None = Inl ProfileDisabled"
    by (simp add: maximum_admitted_file_size_def size_endpoints_def rule_endpoints_def i64_max_def
        ex_placement_defs resolve_placement_with_random_def resolve_placement_with_exclusions_def
        resolve_placement_internal_def)
qed (simp_all add: i64_max_def)

text \<open>
  (C20) Routing follows the rule order. A decision without a folder override comes from the first
  rule that is enabled, matches the file and has an eligible target; every rule before it was
  disabled, did not match, or had no eligible target and asked for the next rule. The chosen target
  belongs to that rule, is not excluded, accepts writes and can hold the file; in
  \<open>FirstAvailable\<close> mode it has the least stable order of all eligible targets.
\<close>

theorem resolve_placement_first_deciding_rule:
  assumes "resolve_placement_with_exclusions rng p c None dyn draw = Inr d"
  shows "\<exists>before r after t. rules p = before @ r # after
    \<and> (\<forall>b \<in> set before. rule_passes dyn c b) \<and> rule_decides dyn c r
    \<and> decision_of p r t d \<and> t \<in> set (targets r)
    \<and> policy_id t \<notin> fst ` set dyn \<and> accepting_new_writes t \<and> exclusion t = None
    \<and> (0 < policy_max_file_size t \<longrightarrow> file_size c \<le> policy_max_file_size t) \<and> 0 < weight t
    \<and> (selection_mode r = FirstAvailable \<longrightarrow>
         (\<forall>u \<in> set (eligible_targets dyn (file_size c) (targets r)). stable_order t \<le> stable_order u))"
proof -
  from assms have "resolve_rules rng draw p c dyn (rules p) [] [] = Selected d"
    by (auto simp: resolve_placement_with_exclusions_def resolve_placement_internal_def
        split: if_splits sum.splits placement_resolution.splits)
  then obtain r t where r: "deciding_rule dyn c (rules p) = Some r" "decision_of p r t d"
    and t: "t \<in> set (eligible_targets dyn (file_size c) (targets r))"
    and sel: "select_target rng draw (selection_mode r)
        (eligible_targets dyn (file_size c) (targets r)) = Some t"
    by (rule resolve_rules_Selected)
  from deciding_rule_Some [OF r(1)] obtain before after where
    split: "rules p = before @ r # after" "\<forall>b \<in> set before. rule_passes dyn c b" "rule_decides dyn c r"
    by blast
  from t have ok: "t \<in> set (targets r)" "is_ok (target_verdict dyn (file_size c) t)" by simp_all
  have least: "selection_mode r = FirstAvailable \<longrightarrow>
      (\<forall>u \<in> set (eligible_targets dyn (file_size c) (targets r)). stable_order t \<le> stable_order u)"
    using sel min_by_key_SomeD [of stable_order "eligible_targets dyn (file_size c) (targets r)" t]
    by (auto simp: select_target_def)
  show ?thesis
    using split r(2) ok(1) target_verdict_okD [OF ok(2)] least
    by (intro exI [of _ before] exI [of _ r] exI [of _ after] exI [of _ t]) blast
qed

lemma ex_resolve_9: "resolve_placement_with_exclusions (\<lambda>_. 0) ex_profile (ex_context 300) None
    [(8, CapacityInsufficient)] (Some 0) =
  Inr \<lparr>d_profile_id = 1, d_revision = 1, d_rule_id = Some 11, d_policy_id = 9,
       d_selection_mode = WeightedRandom, d_folder_override = False,
       d_execution_preference = Automatic, d_excluded_targets = [(8, CapacityInsufficient)],
       d_evaluated_rules =
         [\<lparr>ev_rule_id = 10, ev_matched = False, ev_reason_code = Some ''matcher_mismatch''\<rparr>,
          \<lparr>ev_rule_id = 11, ev_matched = True, ev_reason_code = None\<rparr>]\<rparr>"
  by (simp add: ex_placement_defs placement_eval)

theorem resolve_placement_first_deciding_rule_witness:
  "\<exists>before r after t. rules ex_profile = before @ r # after
    \<and> rule_decides [(8, CapacityInsufficient)] (ex_context 300) r
    \<and> t \<in> set (targets r) \<and> policy_id t \<noteq> 8"
  using resolve_placement_first_deciding_rule [OF ex_resolve_9] by force

text \<open>
  Weighted selection is proportional: of the \<open>total_weight\<close> possible draws, exactly
  \<open>weight t\<close> select the target \<open>t\<close>.
\<close>

theorem weighted_selection_proportional:
  assumes "distinct eligible" and "t \<in> set eligible"
  shows "card {d. d < total_weight eligible
      \<and> select_target rng (Some d) WeightedRandom eligible = Some t} = weight t"
proof -
  have "{d. d < total_weight eligible \<and> select_target rng (Some d) WeightedRandom eligible = Some t}
      = {d. d < total_weight eligible \<and> weighted_pick d (last eligible) eligible = t}"
    by (auto simp: select_target_def Let_def)
  with weighted_pick_card [OF assms, of "last eligible"] show ?thesis by simp
qed

theorem weighted_selection_proportional_witness:
  "card {d. d < total_weight [ex_target 8 1 0 0, ex_target 9 3 1 0]
      \<and> select_target (\<lambda>_. 0) (Some d) WeightedRandom [ex_target 8 1 0 0, ex_target 9 3 1 0]
        = Some (ex_target 9 3 1 0)} = 3"
  using weighted_selection_proportional
    [of "[ex_target 8 1 0 0, ex_target 9 3 1 0]" "ex_target 9 3 1 0" "\<lambda>_. 0"]
  by (simp add: ex_target_def)


end
