(* ===== verification/Rust_Strings.thy ===== *)
theory Rust_Strings
  imports Aster_Prelude "HOL-Library.Sublist"
begin

text \<open>
  The string functions of the Rust standard library the modelled code calls. A string is its UTF-8
  byte sequence: an Isabelle character is one byte. Searching, splitting at ASCII characters and
  ASCII case folding work on bytes as they do in Rust; functions on \<open>char\<close> boundaries
  (\<open>chars().take(n)\<close>) count the bytes that do not continue a character; \<open>trim\<close> and
  \<open>split_whitespace\<close> know the encodings of all Unicode white space.
\<close>

section \<open>Searching, case folding and white space\<close>

definition to_ascii_lowercase :: "string \<Rightarrow> string" where
  "to_ascii_lowercase s =
     map (\<lambda>c. if 65 \<le> (of_char c :: nat) \<and> of_char c \<le> (90::nat) then char_of (of_char c + (32::nat)) else c) s"

fun find_sub :: "string \<Rightarrow> string \<Rightarrow> nat option" where
  "find_sub n [] = (if n = [] then Some 0 else None)"
| "find_sub n (c # cs) = (if prefix n (c # cs) then Some 0 else map_option Suc (find_sub n cs))"

definition contains_str :: "string \<Rightarrow> string \<Rightarrow> bool" where
  "contains_str n s = sublist n s"

text \<open>The UTF-8 encodings of the characters with the Unicode property \<open>White_Space\<close>.\<close>

definition whitespace_seqs :: "string list" where
  "whitespace_seqs =
     map (map char_of)
       ([[9], [10], [11], [12], [13], [32], [0xC2, 0x85], [0xC2, 0xA0], [0xE1, 0x9A, 0x80]]
        @ map (\<lambda>b. [0xE2, 0x80, b]) [0x80, 0x81, 0x82, 0x83, 0x84, 0x85, 0x86, 0x87, 0x88, 0x89, 0x8A]
        @ [[0xE2, 0x80, 0xA8], [0xE2, 0x80, 0xA9], [0xE2, 0x80, 0xAF], [0xE2, 0x81, 0x9F],
           [0xE3, 0x80, 0x80 :: nat]])"

definition leading_whitespace :: "string \<Rightarrow> nat" where
  "leading_whitespace s =
     (case List.find (\<lambda>w. prefix w s) whitespace_seqs of Some w \<Rightarrow> length w | None \<Rightarrow> 0)"

definition trailing_whitespace :: "string \<Rightarrow> nat" where
  "trailing_whitespace s =
     (case List.find (\<lambda>w. suffix w s) whitespace_seqs of Some w \<Rightarrow> length w | None \<Rightarrow> 0)"

function trim_start :: "string \<Rightarrow> string" where
  "trim_start s =
     (if leading_whitespace s = 0 \<or> s = [] then s else trim_start (drop (leading_whitespace s) s))"
  by auto
termination by (relation "measure length") auto

function trim_end :: "string \<Rightarrow> string" where
  "trim_end s =
     (if trailing_whitespace s = 0 \<or> s = [] then s
      else trim_end (take (length s - trailing_whitespace s) s))"
  by auto
termination by (relation "measure length") auto

declare trim_start.simps [simp del] trim_end.simps [simp del]

definition trim :: "string \<Rightarrow> string" where
  "trim s = trim_end (trim_start s)"

function split_whitespace_from :: "string \<Rightarrow> string \<Rightarrow> string list" where
  "split_whitespace_from word s =
     (case s of
        [] \<Rightarrow> (if word = [] then [] else [word])
      | c # cs \<Rightarrow>
          (if leading_whitespace s = 0 then split_whitespace_from (word @ [c]) cs
           else (if word = [] then [] else [word])
                @ split_whitespace_from [] (drop (leading_whitespace s) s)))"
  by pat_completeness auto
termination by (relation "measure (length \<circ> snd)") auto

declare split_whitespace_from.simps [simp del]

definition split_whitespace :: "string \<Rightarrow> string list" where
  "split_whitespace s = split_whitespace_from [] s"

fun join_with :: "string \<Rightarrow> string list \<Rightarrow> string" where
  "join_with sep [] = []"
| "join_with sep [x] = x"
| "join_with sep (x # y # ys) = x @ sep @ join_with sep (y # ys)"

definition is_ascii_whitespace :: "char \<Rightarrow> bool" where
  "is_ascii_whitespace c = ((of_char c :: nat) \<in> {9, 10, 12, 13, 32})"

lemma find_sub_split:
  assumes "find_sub n s = Some i"
  shows "\<exists>post. s = take i s @ n @ post"
  using assms
proof (induction n s arbitrary: i rule: find_sub.induct)
  case (2 n c cs)
  then show ?case by (cases i) (auto split: if_splits simp: prefix_def)
qed (auto split: if_splits)

lemma find_sub_bound:
  assumes "find_sub n s = Some i"
  shows "i + length n \<le> length s"
  using assms
proof (induction n s arbitrary: i rule: find_sub.induct)
  case (2 n c cs)
  then show ?case using prefix_length_le [of n "c # cs"] by (auto split: if_splits)
qed (auto split: if_splits)

lemma find_sub_first:
  assumes "find_sub n s = Some i" "s = pre @ n @ post"
  shows "i \<le> length pre"
  using assms
proof (induction n s arbitrary: i pre rule: find_sub.induct)
  case (2 n c cs)
  show ?case
  proof (cases pre)
    case Nil
    then have "prefix n (c # cs)" using 2(3) by simp
    then show ?thesis using 2(2) by simp
  next
    case (Cons d pre')
    then show ?thesis using 2 by (cases i) (auto split: if_splits)
  qed
qed (auto split: if_splits)

lemma find_sub_None_iff: "find_sub n s = None \<longleftrightarrow> \<not> sublist n s"
  by (induction n s rule: find_sub.induct) (auto simp: sublist_Cons_right)

lemma length_to_ascii_lowercase [simp]: "length (to_ascii_lowercase s) = length s"
  by (simp add: to_ascii_lowercase_def)

section \<open>Decimal numerals\<close>

fun nat_to_string :: "nat \<Rightarrow> string" where
  "nat_to_string n =
     (if n < 10 then [char_of (48 + n)] else nat_to_string (n div 10) @ [char_of (48 + n mod 10)])"

declare nat_to_string.simps [simp del]

definition int_to_string :: "int \<Rightarrow> string" where
  "int_to_string i = (if i < 0 then ''-'' @ nat_to_string (nat (- i)) else nat_to_string (nat i))"

text \<open>\<open>str::parse\<close> for the integer types: an optional sign, then one or more decimal digits in range.\<close>

definition is_digit :: "char \<Rightarrow> bool" where
  "is_digit c = (48 \<le> (of_char c :: nat) \<and> (of_char c :: nat) \<le> 57)"

definition digits_value :: "string \<Rightarrow> nat" where
  "digits_value s = foldl (\<lambda>n c. 10 * n + (of_char c - 48)) 0 s"

definition parse_nat_digits :: "string \<Rightarrow> nat option" where
  "parse_nat_digits s = (if s \<noteq> [] \<and> list_all is_digit s then Some (digits_value s) else None)"

definition parse_u64 :: "string \<Rightarrow> nat option" where
  "parse_u64 s =
     Option.bind (parse_nat_digits (if prefix ''+'' s then tl s else s))
       (\<lambda>n. if n < 2 ^ 64 then Some n else None)"

definition parse_i64 :: "string \<Rightarrow> int option" where
  "parse_i64 s =
     Option.bind
       (if prefix ''-'' s then map_option (\<lambda>n. - int n) (parse_nat_digits (tl s))
        else map_option int (parse_nat_digits (if prefix ''+'' s then tl s else s)))
       (\<lambda>i. if in_i64 i then Some i else None)"

section \<open>Characters\<close>

definition is_continuation :: "char \<Rightarrow> bool" where
  "is_continuation c = (128 \<le> (of_char c :: nat) \<and> (of_char c :: nat) < 192)"

fun take_chars :: "nat \<Rightarrow> string \<Rightarrow> string" where
  "take_chars n [] = []"
| "take_chars n (c # cs) =
     (if is_continuation c then c # take_chars n cs
      else case n of 0 \<Rightarrow> [] | Suc m \<Rightarrow> c # take_chars m cs)"

definition count_chars :: "string \<Rightarrow> nat" where
  "count_chars s = length (filter (\<lambda>c. \<not> is_continuation c) s)"

lemma count_take_chars: "count_chars (take_chars n s) \<le> n"
  by (induction n s rule: take_chars.induct) (auto simp: count_chars_def split: nat.splits)

lemma prefix_take_chars: "prefix (take_chars n s) s"
  by (induction n s rule: take_chars.induct) (auto split: nat.splits)

section \<open>Round trip of decimal numerals\<close>

lemma digit_char: "n < 10 \<Longrightarrow> is_digit (char_of (48 + n)) \<and> (of_char (char_of (48 + n)) :: nat) = 48 + n"
  by (simp add: is_digit_def)

lemma nat_to_string_not_Nil [simp]: "nat_to_string n \<noteq> []"
  by (subst nat_to_string.simps) simp

lemma nat_to_string_digits: "list_all is_digit (nat_to_string n)"
proof (induction n rule: nat_to_string.induct)
  case (1 n)
  then show ?case using digit_char [of n] digit_char [of "n mod 10"]
    by (subst nat_to_string.simps) (simp del: of_char_of)
qed

lemma nat_to_string_value: "digits_value (nat_to_string n) = n"
proof (induction n rule: nat_to_string.induct)
  case (1 n)
  then show ?case using digit_char [of n] digit_char [of "n mod 10"]
    by (subst nat_to_string.simps) (simp add: digits_value_def del: of_char_of)
qed

lemma nat_to_string_unsigned: "\<not> prefix ''+'' (nat_to_string n)" "\<not> prefix ''-'' (nat_to_string n)"
  using nat_to_string_digits [of n] by (cases "nat_to_string n"; auto simp: is_digit_def)+

lemma parse_nat_to_string [simp]: "parse_nat_digits (nat_to_string n) = Some n"
  by (simp add: parse_nat_digits_def nat_to_string_digits nat_to_string_value)

lemma parse_u64_nat_to_string: "n < 2 ^ 64 \<Longrightarrow> parse_u64 (nat_to_string n) = Some n"
  by (simp add: parse_u64_def nat_to_string_unsigned)

lemma parse_i64_int_to_string: "in_i64 i \<Longrightarrow> parse_i64 (int_to_string i) = Some i"
  by (simp add: parse_i64_def int_to_string_def nat_to_string_unsigned)

end
