(* ===== verification/Aster_Errors.thy ===== *)
theory Aster_Errors
  imports Rust_Strings
begin

text \<open>
  The product error type (\<open>src/src/errors.rs\<close>), the storage error classification
  (\<open>src/crates/aster_drive_storage/src/error.rs\<close>) and the retry policy of background tasks
  (\<open>src/src/services/task/retry.rs\<close>).

  An \<open>AsterError\<close> variant carries a payload: the message, an optional API error code (named by its
  Rust variant) and an optional structured storage kind. \<open>TaskRetryClass\<close> is the three-valued enum
  of the task library the code returns.
\<close>

section \<open>Storage error kinds\<close>

datatype storage_error_kind =
    SK_Auth | SK_Misconfigured | SK_NotFound | SK_Permission | SK_Precondition
  | SK_RateLimited | SK_Transient | SK_Unsupported | SK_Unknown

fun storage_error_kind_as_str :: "storage_error_kind \<Rightarrow> string" where
  "storage_error_kind_as_str SK_Auth = ''auth''"
| "storage_error_kind_as_str SK_Misconfigured = ''misconfigured''"
| "storage_error_kind_as_str SK_NotFound = ''not_found''"
| "storage_error_kind_as_str SK_Permission = ''permission''"
| "storage_error_kind_as_str SK_Precondition = ''precondition''"
| "storage_error_kind_as_str SK_RateLimited = ''rate_limited''"
| "storage_error_kind_as_str SK_Transient = ''transient''"
| "storage_error_kind_as_str SK_Unsupported = ''unsupported''"
| "storage_error_kind_as_str SK_Unknown = ''unknown''"

definition contains_any :: "string \<Rightarrow> string list \<Rightarrow> bool" where
  "contains_any message needles = (\<exists>n \<in> set needles. sublist n message)"

definition needles_auth :: "string list" where
  "needles_auth =
     [''invalidaccesskeyid'',
      ''signaturedoesnotmatch'',
      ''authentication failed'',
      ''invalid credentials'',
      ''access_key cannot be empty'',
      ''secret_key cannot be empty'']"

definition needles_permission :: "string list" where
  "needles_permission =
     [''access forbidden'',
      ''accessdenied'',
      ''permission denied'',
      ''operation not permitted'']"

definition needles_misconfigured :: "string list" where
  "needles_misconfigured =
     [''remote node base_url must use'',
      ''invalid remote node base_url'',
      ''namespace cannot be empty'',
      ''missing remote_node_id'',
      ''not loaded in registry'',
      ''no such bucket'',
      ''nosuchbucket'',
      ''invalid bucket'',
      ''invalid storage path'',
      ''escapes base path'',
      ''base path'',
      ''not a directory'',
      ''local path has no'',
      ''cloudflare r2 endpoint'',
      ''does not match bucket field'',
      ''bucket is required'',
      ''base_url is required'']"

definition needles_unsupported :: "string list" where
  "needles_unsupported =
     [''does not support multipart upload'',
      ''presigned put not supported'',
      ''stream upload not supported'',
      ''ingress policy does not support'',
      ''ingress target does not support'']"

definition needles_precondition :: "string list" where
  "needles_precondition =
     [''is disabled'',
      ''precondition failed'',
      ''master binding is disabled'',
      ''host key'']"

definition needles_not_found :: "string list" where
  "needles_not_found =
     [''not found'',
      ''no such key'',
      ''nosuchkey'',
      ''no such upload'',
      ''nosuchupload'',
      ''404'',
      ''os error 2'']"

definition needles_rate_limited :: "string list" where
  "needles_rate_limited =
     [''too many requests'',
      ''429'',
      ''slowdown'',
      ''slow down'',
      ''throttl'']"

definition needles_transient :: "string list" where
  "needles_transient =
     [''timed out'',
      ''request failed'',
      ''error sending request'',
      ''connection refused'',
      ''connection reset'',
      ''connection aborted'',
      ''broken pipe'',
      ''unexpected eof'',
      ''network is unreachable'',
      ''temporarily unavailable'',
      ''temporary failure'',
      ''dns error'',
      ''name or service not known'',
      ''failed to lookup address information'',
      ''connection closed before message completed'',
      ''service unavailable'',
      ''502'',
      ''503'',
      ''504'',
      ''500'',
      ''dispatch failure'',
      ''requesttimeout'']"

definition infer_storage_error_kind :: "string \<Rightarrow> storage_error_kind" where
  "infer_storage_error_kind msg =
     (let message = to_ascii_lowercase msg in
      if contains_any message needles_auth then SK_Auth
      else if contains_any message needles_permission then SK_Permission
      else if contains_any message needles_misconfigured then SK_Misconfigured
      else if contains_any message needles_unsupported then SK_Unsupported
      else if contains_any message needles_precondition then SK_Precondition
      else if contains_any message needles_not_found then SK_NotFound
      else if contains_any message needles_rate_limited then SK_RateLimited
      else if contains_any message needles_transient then SK_Transient
      else SK_Unknown)"

section \<open>Storage errors\<close>

datatype storage_error_context =
    TransportTimeout
  | TransportDisconnected
  | SftpHostKeyRejected (expected_fingerprint: "string option") (actual_fingerprint: string)

record storage_error =
  se_kind :: storage_error_kind
  se_message :: string
  se_context :: "storage_error_context option"

definition storage_error_new :: "storage_error_kind \<Rightarrow> string \<Rightarrow> storage_error" where
  "storage_error_new k m = \<lparr>se_kind = k, se_message = m, se_context = None\<rparr>"

definition storage_error_with_context :: "storage_error_context \<Rightarrow> storage_error \<Rightarrow> storage_error" where
  "storage_error_with_context c e = e\<lparr>se_context := Some c\<rparr>"

section \<open>Product errors\<close>

text \<open>
  \<open>ApiErrorCode\<close> and the database library's error kind are named by their Rust variants.
\<close>

type_synonym api_error_code = string
type_synonym database_error_kind = string

record aster_error_payload =
  message :: string
  api_code :: "api_error_code option"
  storage_kind :: "storage_error_kind option"
  storage_context :: "storage_error_context option"
  database_error_kind :: "database_error_kind option"
  database_commit_outcome_uncertain :: bool

definition payload_new :: "string \<Rightarrow> aster_error_payload" where
  "payload_new m =
     \<lparr>message = m, api_code = None, storage_kind = None, storage_context = None,
      database_error_kind = None, database_commit_outcome_uncertain = False\<rparr>"

datatype aster_error =
    DatabaseConnection aster_error_payload
  | DatabaseOperation aster_error_payload
  | ConfigError aster_error_payload
  | InternalError aster_error_payload
  | ValidationError aster_error_payload
  | RecordNotFound aster_error_payload
  | RateLimited aster_error_payload
  | MailNotConfigured aster_error_payload
  | MailDeliveryFailed aster_error_payload
  | AuthInvalidCredentials aster_error_payload
  | AuthTokenExpired aster_error_payload
  | AuthTokenInvalid aster_error_payload
  | AuthForbidden aster_error_payload
  | AuthPendingActivation aster_error_payload
  | ContactVerificationInvalid aster_error_payload
  | ContactVerificationExpired aster_error_payload
  | AuthTokenMissing aster_error_payload
  | AuthMfaFailed aster_error_payload
  | AuthRefreshTokenStale aster_error_payload
  | FileNotFound aster_error_payload
  | FileTooLarge aster_error_payload
  | FileTypeNotAllowed aster_error_payload
  | FileUploadFailed aster_error_payload
  | PayloadTooLarge aster_error_payload
  | StoragePolicyNotFound aster_error_payload
  | StorageDriverError aster_error_payload
  | StorageQuotaExceeded aster_error_payload
  | UnsupportedDriver aster_error_payload
  | FolderNotFound aster_error_payload
  | ShareNotFound aster_error_payload
  | ShareExpired aster_error_payload
  | SharePasswordRequired aster_error_payload
  | ShareDownloadLimit aster_error_payload
  | UploadSessionNotFound aster_error_payload
  | UploadSessionExpired aster_error_payload
  | ChunkUploadFailed aster_error_payload
  | UploadAssemblyFailed aster_error_payload
  | ThumbnailGenerationFailed aster_error_payload
  | ResourceLocked aster_error_payload
  | PreconditionFailed aster_error_payload
  | UploadAssembling aster_error_payload
  | AuthRefreshTokenReuseDetected aster_error_payload
  | OperationResourceLimitExceeded aster_error_payload
  | Conflict aster_error_payload
  | UploadTargetCapacityInsufficient aster_error_payload
  | UploadStagingCapacityInsufficient aster_error_payload

primrec error_code :: "aster_error \<Rightarrow> string" where
  "error_code (DatabaseConnection _) = ''E001''"
| "error_code (DatabaseOperation _) = ''E002''"
| "error_code (ConfigError _) = ''E003''"
| "error_code (InternalError _) = ''E004''"
| "error_code (ValidationError _) = ''E005''"
| "error_code (RecordNotFound _) = ''E006''"
| "error_code (RateLimited _) = ''E007''"
| "error_code (MailNotConfigured _) = ''E008''"
| "error_code (MailDeliveryFailed _) = ''E009''"
| "error_code (AuthInvalidCredentials _) = ''E010''"
| "error_code (AuthTokenExpired _) = ''E011''"
| "error_code (AuthTokenInvalid _) = ''E012''"
| "error_code (AuthForbidden _) = ''E013''"
| "error_code (AuthPendingActivation _) = ''E014''"
| "error_code (ContactVerificationInvalid _) = ''E015''"
| "error_code (ContactVerificationExpired _) = ''E016''"
| "error_code (AuthTokenMissing _) = ''E017''"
| "error_code (AuthMfaFailed _) = ''E018''"
| "error_code (AuthRefreshTokenStale _) = ''E019''"
| "error_code (FileNotFound _) = ''E020''"
| "error_code (FileTooLarge _) = ''E021''"
| "error_code (FileTypeNotAllowed _) = ''E022''"
| "error_code (FileUploadFailed _) = ''E023''"
| "error_code (PayloadTooLarge _) = ''E024''"
| "error_code (StoragePolicyNotFound _) = ''E030''"
| "error_code (StorageDriverError _) = ''E031''"
| "error_code (StorageQuotaExceeded _) = ''E032''"
| "error_code (UnsupportedDriver _) = ''E033''"
| "error_code (FolderNotFound _) = ''E040''"
| "error_code (ShareNotFound _) = ''E050''"
| "error_code (ShareExpired _) = ''E051''"
| "error_code (SharePasswordRequired _) = ''E052''"
| "error_code (ShareDownloadLimit _) = ''E053''"
| "error_code (UploadSessionNotFound _) = ''E054''"
| "error_code (UploadSessionExpired _) = ''E055''"
| "error_code (ChunkUploadFailed _) = ''E056''"
| "error_code (UploadAssemblyFailed _) = ''E057''"
| "error_code (ThumbnailGenerationFailed _) = ''E058''"
| "error_code (ResourceLocked _) = ''E059''"
| "error_code (PreconditionFailed _) = ''E060''"
| "error_code (UploadAssembling _) = ''E061''"
| "error_code (AuthRefreshTokenReuseDetected _) = ''E062''"
| "error_code (OperationResourceLimitExceeded _) = ''E063''"
| "error_code (Conflict _) = ''E064''"
| "error_code (UploadTargetCapacityInsufficient _) = ''E065''"
| "error_code (UploadStagingCapacityInsufficient _) = ''E066''"

primrec error_type :: "aster_error \<Rightarrow> string" where
  "error_type (DatabaseConnection _) = ''Database Connection Error''"
| "error_type (DatabaseOperation _) = ''Database Operation Error''"
| "error_type (ConfigError _) = ''Configuration Error''"
| "error_type (InternalError _) = ''Internal Server Error''"
| "error_type (ValidationError _) = ''Validation Error''"
| "error_type (RecordNotFound _) = ''Record Not Found''"
| "error_type (RateLimited _) = ''Rate Limited''"
| "error_type (MailNotConfigured _) = ''Mail Not Configured''"
| "error_type (MailDeliveryFailed _) = ''Mail Delivery Failed''"
| "error_type (AuthInvalidCredentials _) = ''Invalid Credentials''"
| "error_type (AuthTokenExpired _) = ''Token Expired''"
| "error_type (AuthTokenInvalid _) = ''Token Invalid''"
| "error_type (AuthForbidden _) = ''Forbidden''"
| "error_type (AuthPendingActivation _) = ''Pending Activation''"
| "error_type (ContactVerificationInvalid _) = ''Contact Verification Invalid''"
| "error_type (ContactVerificationExpired _) = ''Contact Verification Expired''"
| "error_type (AuthTokenMissing _) = ''Token Missing''"
| "error_type (AuthMfaFailed _) = ''MFA Failed''"
| "error_type (AuthRefreshTokenStale _) = ''Refresh Token Stale''"
| "error_type (FileNotFound _) = ''File Not Found''"
| "error_type (FileTooLarge _) = ''File Too Large''"
| "error_type (FileTypeNotAllowed _) = ''File Type Not Allowed''"
| "error_type (FileUploadFailed _) = ''Upload Failed''"
| "error_type (PayloadTooLarge _) = ''Payload Too Large''"
| "error_type (StoragePolicyNotFound _) = ''Storage Policy Not Found''"
| "error_type (StorageDriverError _) = ''Storage Driver Error''"
| "error_type (StorageQuotaExceeded _) = ''Quota Exceeded''"
| "error_type (UnsupportedDriver _) = ''Unsupported Driver''"
| "error_type (FolderNotFound _) = ''Folder Not Found''"
| "error_type (ShareNotFound _) = ''Share Not Found''"
| "error_type (ShareExpired _) = ''Share Expired''"
| "error_type (SharePasswordRequired _) = ''Share Password Required''"
| "error_type (ShareDownloadLimit _) = ''Share Download Limit Reached''"
| "error_type (UploadSessionNotFound _) = ''Upload Session Not Found''"
| "error_type (UploadSessionExpired _) = ''Upload Session Expired''"
| "error_type (ChunkUploadFailed _) = ''Chunk Upload Failed''"
| "error_type (UploadAssemblyFailed _) = ''Upload Assembly Failed''"
| "error_type (ThumbnailGenerationFailed _) = ''Thumbnail Generation Failed''"
| "error_type (ResourceLocked _) = ''Resource Locked''"
| "error_type (PreconditionFailed _) = ''Precondition Failed''"
| "error_type (UploadAssembling _) = ''Upload Assembling''"
| "error_type (AuthRefreshTokenReuseDetected _) = ''Refresh Token Reuse Detected''"
| "error_type (OperationResourceLimitExceeded _) = ''Operation Resource Limit Exceeded''"
| "error_type (Conflict _) = ''Conflict''"
| "error_type (UploadTargetCapacityInsufficient _) = ''Upload Target Capacity Insufficient''"
| "error_type (UploadStagingCapacityInsufficient _) = ''Upload Staging Capacity Insufficient''"

primrec into_payload :: "aster_error \<Rightarrow> aster_error_payload" where
  "into_payload (DatabaseConnection p) = p"
| "into_payload (DatabaseOperation p) = p"
| "into_payload (ConfigError p) = p"
| "into_payload (InternalError p) = p"
| "into_payload (ValidationError p) = p"
| "into_payload (RecordNotFound p) = p"
| "into_payload (RateLimited p) = p"
| "into_payload (MailNotConfigured p) = p"
| "into_payload (MailDeliveryFailed p) = p"
| "into_payload (AuthInvalidCredentials p) = p"
| "into_payload (AuthTokenExpired p) = p"
| "into_payload (AuthTokenInvalid p) = p"
| "into_payload (AuthForbidden p) = p"
| "into_payload (AuthPendingActivation p) = p"
| "into_payload (ContactVerificationInvalid p) = p"
| "into_payload (ContactVerificationExpired p) = p"
| "into_payload (AuthTokenMissing p) = p"
| "into_payload (AuthMfaFailed p) = p"
| "into_payload (AuthRefreshTokenStale p) = p"
| "into_payload (FileNotFound p) = p"
| "into_payload (FileTooLarge p) = p"
| "into_payload (FileTypeNotAllowed p) = p"
| "into_payload (FileUploadFailed p) = p"
| "into_payload (PayloadTooLarge p) = p"
| "into_payload (StoragePolicyNotFound p) = p"
| "into_payload (StorageDriverError p) = p"
| "into_payload (StorageQuotaExceeded p) = p"
| "into_payload (UnsupportedDriver p) = p"
| "into_payload (FolderNotFound p) = p"
| "into_payload (ShareNotFound p) = p"
| "into_payload (ShareExpired p) = p"
| "into_payload (SharePasswordRequired p) = p"
| "into_payload (ShareDownloadLimit p) = p"
| "into_payload (UploadSessionNotFound p) = p"
| "into_payload (UploadSessionExpired p) = p"
| "into_payload (ChunkUploadFailed p) = p"
| "into_payload (UploadAssemblyFailed p) = p"
| "into_payload (ThumbnailGenerationFailed p) = p"
| "into_payload (ResourceLocked p) = p"
| "into_payload (PreconditionFailed p) = p"
| "into_payload (UploadAssembling p) = p"
| "into_payload (AuthRefreshTokenReuseDetected p) = p"
| "into_payload (OperationResourceLimitExceeded p) = p"
| "into_payload (Conflict p) = p"
| "into_payload (UploadTargetCapacityInsufficient p) = p"
| "into_payload (UploadStagingCapacityInsufficient p) = p"

primrec map_payload :: "(aster_error_payload \<Rightarrow> aster_error_payload) \<Rightarrow> aster_error \<Rightarrow> aster_error" where
  "map_payload f (DatabaseConnection p) = DatabaseConnection (f p)"
| "map_payload f (DatabaseOperation p) = DatabaseOperation (f p)"
| "map_payload f (ConfigError p) = ConfigError (f p)"
| "map_payload f (InternalError p) = InternalError (f p)"
| "map_payload f (ValidationError p) = ValidationError (f p)"
| "map_payload f (RecordNotFound p) = RecordNotFound (f p)"
| "map_payload f (RateLimited p) = RateLimited (f p)"
| "map_payload f (MailNotConfigured p) = MailNotConfigured (f p)"
| "map_payload f (MailDeliveryFailed p) = MailDeliveryFailed (f p)"
| "map_payload f (AuthInvalidCredentials p) = AuthInvalidCredentials (f p)"
| "map_payload f (AuthTokenExpired p) = AuthTokenExpired (f p)"
| "map_payload f (AuthTokenInvalid p) = AuthTokenInvalid (f p)"
| "map_payload f (AuthForbidden p) = AuthForbidden (f p)"
| "map_payload f (AuthPendingActivation p) = AuthPendingActivation (f p)"
| "map_payload f (ContactVerificationInvalid p) = ContactVerificationInvalid (f p)"
| "map_payload f (ContactVerificationExpired p) = ContactVerificationExpired (f p)"
| "map_payload f (AuthTokenMissing p) = AuthTokenMissing (f p)"
| "map_payload f (AuthMfaFailed p) = AuthMfaFailed (f p)"
| "map_payload f (AuthRefreshTokenStale p) = AuthRefreshTokenStale (f p)"
| "map_payload f (FileNotFound p) = FileNotFound (f p)"
| "map_payload f (FileTooLarge p) = FileTooLarge (f p)"
| "map_payload f (FileTypeNotAllowed p) = FileTypeNotAllowed (f p)"
| "map_payload f (FileUploadFailed p) = FileUploadFailed (f p)"
| "map_payload f (PayloadTooLarge p) = PayloadTooLarge (f p)"
| "map_payload f (StoragePolicyNotFound p) = StoragePolicyNotFound (f p)"
| "map_payload f (StorageDriverError p) = StorageDriverError (f p)"
| "map_payload f (StorageQuotaExceeded p) = StorageQuotaExceeded (f p)"
| "map_payload f (UnsupportedDriver p) = UnsupportedDriver (f p)"
| "map_payload f (FolderNotFound p) = FolderNotFound (f p)"
| "map_payload f (ShareNotFound p) = ShareNotFound (f p)"
| "map_payload f (ShareExpired p) = ShareExpired (f p)"
| "map_payload f (SharePasswordRequired p) = SharePasswordRequired (f p)"
| "map_payload f (ShareDownloadLimit p) = ShareDownloadLimit (f p)"
| "map_payload f (UploadSessionNotFound p) = UploadSessionNotFound (f p)"
| "map_payload f (UploadSessionExpired p) = UploadSessionExpired (f p)"
| "map_payload f (ChunkUploadFailed p) = ChunkUploadFailed (f p)"
| "map_payload f (UploadAssemblyFailed p) = UploadAssemblyFailed (f p)"
| "map_payload f (ThumbnailGenerationFailed p) = ThumbnailGenerationFailed (f p)"
| "map_payload f (ResourceLocked p) = ResourceLocked (f p)"
| "map_payload f (PreconditionFailed p) = PreconditionFailed (f p)"
| "map_payload f (UploadAssembling p) = UploadAssembling (f p)"
| "map_payload f (AuthRefreshTokenReuseDetected p) = AuthRefreshTokenReuseDetected (f p)"
| "map_payload f (OperationResourceLimitExceeded p) = OperationResourceLimitExceeded (f p)"
| "map_payload f (Conflict p) = Conflict (f p)"
| "map_payload f (UploadTargetCapacityInsufficient p) = UploadTargetCapacityInsufficient (f p)"
| "map_payload f (UploadStagingCapacityInsufficient p) = UploadStagingCapacityInsufficient (f p)"

definition raw_message :: "aster_error \<Rightarrow> string" where
  "raw_message e = message (into_payload e)"

definition error_display :: "aster_error \<Rightarrow> string" where
  "error_display e = error_type e @ '': '' @ raw_message e"

definition encode_task_error_for_storage :: "aster_error \<Rightarrow> string" where
  "encode_task_error_for_storage e = error_display e"

definition api_error_code_override :: "aster_error \<Rightarrow> api_error_code option" where
  "api_error_code_override e = api_code (into_payload e)"

definition structured_storage_error_kind :: "aster_error \<Rightarrow> storage_error_kind option" where
  "structured_storage_error_kind e = storage_kind (into_payload e)"

definition with_api_error_code :: "api_error_code \<Rightarrow> aster_error \<Rightarrow> aster_error" where
  "with_api_error_code c e = map_payload (\<lambda>p. p\<lparr>api_code := Some c\<rparr>) e"

definition with_storage_error_context :: "storage_error_context \<Rightarrow> aster_error \<Rightarrow> aster_error" where
  "with_storage_error_context c e = map_payload (\<lambda>p. p\<lparr>storage_context := Some c\<rparr>) e"

definition validation_error :: "string \<Rightarrow> aster_error" where
  "validation_error m = ValidationError (payload_new m)"

definition internal_error :: "string \<Rightarrow> aster_error" where
  "internal_error m = InternalError (payload_new m)"

definition record_not_found :: "string \<Rightarrow> aster_error" where
  "record_not_found m = RecordNotFound (payload_new m)"

definition resource_locked :: "string \<Rightarrow> aster_error" where
  "resource_locked m = ResourceLocked (payload_new m)"

definition precondition_failed :: "string \<Rightarrow> aster_error" where
  "precondition_failed m = PreconditionFailed (payload_new m)"

definition validation_error_with_code :: "api_error_code \<Rightarrow> string \<Rightarrow> aster_error" where
  "validation_error_with_code c m = with_api_error_code c (validation_error m)"

definition precondition_failed_with_code :: "api_error_code \<Rightarrow> string \<Rightarrow> aster_error" where
  "precondition_failed_with_code c m = with_api_error_code c (precondition_failed m)"

definition auth_forbidden_with_code :: "api_error_code \<Rightarrow> string \<Rightarrow> aster_error" where
  "auth_forbidden_with_code c m = with_api_error_code c (AuthForbidden (payload_new m))"

fun storage_error_kind_of :: "aster_error \<Rightarrow> storage_error_kind option" where
  "storage_error_kind_of (StorageDriverError p) =
     Some (case structured_storage_error_kind (StorageDriverError p) of
             Some k \<Rightarrow> k
           | None \<Rightarrow> infer_storage_error_kind (message p))"
| "storage_error_kind_of (PreconditionFailed _) = Some SK_Precondition"
| "storage_error_kind_of (UnsupportedDriver _) = Some SK_Unsupported"
| "storage_error_kind_of _ = None"

definition from_storage_error :: "storage_error \<Rightarrow> aster_error" where
  "from_storage_error v =
     (let e = StorageDriverError ((payload_new (se_message v))\<lparr>storage_kind := Some (se_kind v)\<rparr>) in
      case se_context v of
        Some c \<Rightarrow> with_storage_error_context c e
      | None \<Rightarrow> e)"

definition to_storage_error :: "aster_error \<Rightarrow> storage_error" where
  "to_storage_error v =
     (let k = (case storage_error_kind_of v of Some k \<Rightarrow> k | None \<Rightarrow> SK_Unknown);
          p = into_payload v;
          e = storage_error_new k (message p) in
      case storage_context p of
        Some c \<Rightarrow> storage_error_with_context c e
      | None \<Rightarrow> e)"

definition storage_driver_error :: "storage_error_kind \<Rightarrow> string \<Rightarrow> aster_error" where
  "storage_driver_error k m = from_storage_error (storage_error_new k m)"

definition storage_driver_error_with_code ::
  "storage_error_kind \<Rightarrow> api_error_code \<Rightarrow> string \<Rightarrow> aster_error" where
  "storage_driver_error_with_code k c m =
     with_api_error_code c (from_storage_error (storage_error_new k m))"

type_synonym 'a aster_result = "(aster_error, 'a) result"

section \<open>API error code, HTTP status and logging\<close>

fun storage_error_kind_api_error_code :: "storage_error_kind \<Rightarrow> api_error_code" where
  "storage_error_kind_api_error_code SK_Auth = ''StorageAuth''"
| "storage_error_kind_api_error_code SK_Misconfigured = ''StorageMisconfigured''"
| "storage_error_kind_api_error_code SK_NotFound = ''StorageNotFound''"
| "storage_error_kind_api_error_code SK_Permission = ''StoragePermission''"
| "storage_error_kind_api_error_code SK_Precondition = ''StoragePrecondition''"
| "storage_error_kind_api_error_code SK_RateLimited = ''StorageRateLimited''"
| "storage_error_kind_api_error_code SK_Transient = ''StorageTransient''"
| "storage_error_kind_api_error_code SK_Unsupported = ''StorageUnsupported''"
| "storage_error_kind_api_error_code SK_Unknown = ''StorageUnknown''"

primrec default_api_error_code :: "aster_error \<Rightarrow> api_error_code" where
  "default_api_error_code (DatabaseConnection _) = ''DatabaseError''"
| "default_api_error_code (DatabaseOperation _) = ''DatabaseError''"
| "default_api_error_code (ConfigError _) = ''ConfigError''"
| "default_api_error_code (InternalError _) = ''InternalServerError''"
| "default_api_error_code (ValidationError _) = ''BadRequest''"
| "default_api_error_code (RecordNotFound _) = ''NotFound''"
| "default_api_error_code (RateLimited _) = ''RateLimited''"
| "default_api_error_code (MailNotConfigured _) = ''MailNotConfigured''"
| "default_api_error_code (MailDeliveryFailed _) = ''MailDeliveryFailed''"
| "default_api_error_code (AuthInvalidCredentials _) = ''CredentialsFailed''"
| "default_api_error_code (AuthTokenExpired _) = ''TokenExpired''"
| "default_api_error_code (AuthTokenInvalid _) = ''TokenInvalid''"
| "default_api_error_code (AuthForbidden _) = ''Forbidden''"
| "default_api_error_code (AuthPendingActivation _) = ''PendingActivation''"
| "default_api_error_code (ContactVerificationInvalid _) = ''ContactVerificationInvalid''"
| "default_api_error_code (ContactVerificationExpired _) = ''ContactVerificationExpired''"
| "default_api_error_code (AuthTokenMissing _) = ''TokenMissing''"
| "default_api_error_code (AuthMfaFailed _) = ''MfaFailed''"
| "default_api_error_code (AuthRefreshTokenStale _) = ''RefreshTokenStale''"
| "default_api_error_code (FileNotFound _) = ''FileNotFound''"
| "default_api_error_code (FileTooLarge _) = ''FileTooLarge''"
| "default_api_error_code (FileTypeNotAllowed _) = ''FileTypeNotAllowed''"
| "default_api_error_code (FileUploadFailed _) = ''FileUploadFailed''"
| "default_api_error_code (PayloadTooLarge _) = ''FileTooLarge''"
| "default_api_error_code (StoragePolicyNotFound _) = ''StoragePolicyNotFound''"
| "default_api_error_code (StorageDriverError p) =
     storage_error_kind_api_error_code
       (case storage_error_kind_of (StorageDriverError p) of Some k \<Rightarrow> k | None \<Rightarrow> SK_Unknown)"
| "default_api_error_code (StorageQuotaExceeded _) = ''StorageQuotaExceeded''"
| "default_api_error_code (UnsupportedDriver _) = ''UnsupportedDriver''"
| "default_api_error_code (FolderNotFound _) = ''FolderNotFound''"
| "default_api_error_code (ShareNotFound _) = ''ShareNotFound''"
| "default_api_error_code (ShareExpired _) = ''ShareExpired''"
| "default_api_error_code (SharePasswordRequired _) = ''SharePasswordRequired''"
| "default_api_error_code (ShareDownloadLimit _) = ''ShareDownloadLimitReached''"
| "default_api_error_code (UploadSessionNotFound _) = ''UploadSessionNotFound''"
| "default_api_error_code (UploadSessionExpired _) = ''UploadSessionExpired''"
| "default_api_error_code (ChunkUploadFailed _) = ''ChunkUploadFailed''"
| "default_api_error_code (UploadAssemblyFailed _) = ''UploadAssemblyFailed''"
| "default_api_error_code (ThumbnailGenerationFailed _) = ''ThumbnailFailed''"
| "default_api_error_code (ResourceLocked _) = ''ResourceLocked''"
| "default_api_error_code (PreconditionFailed _) = ''PreconditionFailed''"
| "default_api_error_code (UploadAssembling _) = ''UploadAssembling''"
| "default_api_error_code (AuthRefreshTokenReuseDetected _) = ''RefreshTokenReuseDetected''"
| "default_api_error_code (OperationResourceLimitExceeded _) = ''OperationResourceLimitExceeded''"
| "default_api_error_code (Conflict _) = ''Conflict''"
| "default_api_error_code (UploadTargetCapacityInsufficient _) = ''UploadTargetCapacityInsufficient''"
| "default_api_error_code (UploadStagingCapacityInsufficient _) = ''UploadStagingCapacityInsufficient''"

definition api_error_code :: "aster_error \<Rightarrow> api_error_code" where
  "api_error_code e =
     (case api_error_code_override e of
        Some c \<Rightarrow> c
      | None \<Rightarrow> default_api_error_code e)"

definition capacity_unavailable :: "aster_error \<Rightarrow> bool" where
  "capacity_unavailable e = (api_error_code_override e = Some ''UploadCapacityUnavailable'')"

definition api_error_retryable :: "aster_error \<Rightarrow> bool" where
  "api_error_retryable e =
     (case e of
        RateLimited _ \<Rightarrow> True
      | UploadAssembling _ \<Rightarrow> True
      | StorageDriverError _ \<Rightarrow>
          storage_error_kind_of e \<in> {Some SK_Transient, Some SK_RateLimited} \<or> capacity_unavailable e
      | _ \<Rightarrow> False)"

definition chunk_upload_failure_is_client_error :: "aster_error \<Rightarrow> bool" where
  "chunk_upload_failure_is_client_error e =
     (case api_error_code_override e of
        Some c \<Rightarrow> c \<in> set [''UploadChunkNumberOutOfRange'', ''UploadChunkSizeMismatch'',
                          ''UploadChunkTooLarge'', ''UploadChunkSizeOverflow'',
                          ''UploadChunkTransportMismatch'', ''UploadChunkSessionInvalid'',
                          ''UploadRequestBodyReadFailed'']
      | None \<Rightarrow> False)"

definition file_upload_failure_is_client_error :: "aster_error \<Rightarrow> bool" where
  "file_upload_failure_is_client_error e =
     (case api_error_code_override e of
        Some c \<Rightarrow> c \<in> set [''UploadFieldReadFailed'', ''AvatarUploadReadFailed'']
      | None \<Rightarrow> False)"

text \<open>The status codes are their numeric values.\<close>

primrec http_status :: "aster_error \<Rightarrow> nat" where
  "http_status (DatabaseConnection _) = 500"
| "http_status (DatabaseOperation _) = 500"
| "http_status (ConfigError _) = 500"
| "http_status (InternalError _) = 500"
| "http_status (ValidationError _) = 400"
| "http_status (RecordNotFound _) = 404"
| "http_status (RateLimited _) = 429"
| "http_status (MailNotConfigured _) = 503"
| "http_status (MailDeliveryFailed _) = 503"
| "http_status (AuthInvalidCredentials _) = 401"
| "http_status (AuthTokenExpired _) = 401"
| "http_status (AuthTokenInvalid _) = 401"
| "http_status (AuthForbidden _) = 403"
| "http_status (AuthPendingActivation _) = 403"
| "http_status (ContactVerificationInvalid _) = 400"
| "http_status (ContactVerificationExpired _) = 410"
| "http_status (AuthTokenMissing _) = 401"
| "http_status (AuthMfaFailed _) = 401"
| "http_status (AuthRefreshTokenStale _) = 401"
| "http_status (FileNotFound _) = 404"
| "http_status (FileTooLarge _) = 400"
| "http_status (FileTypeNotAllowed _) = 400"
| "http_status (FileUploadFailed p) = (if file_upload_failure_is_client_error (FileUploadFailed p) then 400 else 500)"
| "http_status (PayloadTooLarge _) = 413"
| "http_status (StoragePolicyNotFound _) = 404"
| "http_status (StorageDriverError p) = (if capacity_unavailable (StorageDriverError p) then 503 else 500)"
| "http_status (StorageQuotaExceeded _) = 507"
| "http_status (UnsupportedDriver _) = 400"
| "http_status (FolderNotFound _) = 404"
| "http_status (ShareNotFound _) = 404"
| "http_status (ShareExpired _) = 404"
| "http_status (SharePasswordRequired _) = 403"
| "http_status (ShareDownloadLimit _) = 403"
| "http_status (UploadSessionNotFound _) = 404"
| "http_status (UploadSessionExpired _) = 410"
| "http_status (ChunkUploadFailed p) = (if chunk_upload_failure_is_client_error (ChunkUploadFailed p) then 400 else 500)"
| "http_status (UploadAssemblyFailed _) = 500"
| "http_status (ThumbnailGenerationFailed _) = 500"
| "http_status (ResourceLocked _) = 423"
| "http_status (PreconditionFailed _) = 412"
| "http_status (UploadAssembling _) = 202"
| "http_status (AuthRefreshTokenReuseDetected _) = 401"
| "http_status (OperationResourceLimitExceeded _) = 507"
| "http_status (Conflict _) = 409"
| "http_status (UploadTargetCapacityInsufficient _) = 507"
| "http_status (UploadStagingCapacityInsufficient _) = 507"

datatype response_log_level = Log_Skip | Log_Warn | Log_Error

definition status_is_client_error :: "nat \<Rightarrow> bool" where
  "status_is_client_error n = (400 \<le> n \<and> n < 500)"

definition status_is_server_error :: "nat \<Rightarrow> bool" where
  "status_is_server_error n = (500 \<le> n \<and> n < 600)"

definition status_log_level :: "nat \<Rightarrow> response_log_level" where
  "status_log_level status =
     (if status_is_server_error status then Log_Error
      else if status_is_client_error status \<and> status \<noteq> 401 \<and> status \<noteq> 403 \<and> status \<noteq> 404 then Log_Warn
      else Log_Skip)"

definition log_level_of :: "aster_error \<Rightarrow> response_log_level" where
  "log_level_of e =
     (case e of
        StorageQuotaExceeded _ \<Rightarrow> Log_Warn
      | OperationResourceLimitExceeded _ \<Rightarrow> Log_Warn
      | UploadTargetCapacityInsufficient _ \<Rightarrow> Log_Warn
      | UploadStagingCapacityInsufficient _ \<Rightarrow> Log_Warn
      | RateLimited _ \<Rightarrow> Log_Warn
      | MailNotConfigured _ \<Rightarrow> Log_Warn
      | MailDeliveryFailed _ \<Rightarrow> Log_Warn
      | StorageDriverError _ \<Rightarrow>
          (if capacity_unavailable e then Log_Warn else status_log_level (http_status e))
      | _ \<Rightarrow> status_log_level (http_status e))"

definition client_message :: "aster_error \<Rightarrow> string" where
  "client_message e =
     (case e of
        StorageDriverError _ \<Rightarrow> error_type e
      | UploadStagingCapacityInsufficient _ \<Rightarrow> ''upload staging capacity is insufficient''
      | _ \<Rightarrow>
          (case log_level_of e of
             Log_Error \<Rightarrow> error_type e
           | Log_Warn \<Rightarrow> raw_message e
           | Log_Skip \<Rightarrow> raw_message e))"

definition share_error_should_disable_cache :: "aster_error \<Rightarrow> bool" where
  "share_error_should_disable_cache e =
     (case e of
        ShareNotFound _ \<Rightarrow> True
      | ShareExpired _ \<Rightarrow> True
      | SharePasswordRequired _ \<Rightarrow> True
      | ShareDownloadLimit _ \<Rightarrow> True
      | _ \<Rightarrow> False)"

section \<open>Retry policy\<close>

datatype task_retry_class = Retry_Auto | Retry_Manual | Retry_Never

fun storage_retry_class :: "storage_error_kind option \<Rightarrow> task_retry_class" where
  "storage_retry_class (Some SK_Transient) = Retry_Auto"
| "storage_retry_class (Some SK_RateLimited) = Retry_Auto"
| "storage_retry_class (Some SK_Auth) = Retry_Manual"
| "storage_retry_class (Some SK_Misconfigured) = Retry_Manual"
| "storage_retry_class (Some SK_Permission) = Retry_Manual"
| "storage_retry_class (Some SK_Precondition) = Retry_Manual"
| "storage_retry_class (Some SK_Unknown) = Retry_Manual"
| "storage_retry_class (Some SK_NotFound) = Retry_Never"
| "storage_retry_class (Some SK_Unsupported) = Retry_Never"
| "storage_retry_class None = Retry_Never"

definition default_retry_class :: "aster_error \<Rightarrow> task_retry_class" where
  "default_retry_class e =
     (case e of
        DatabaseConnection _ \<Rightarrow> Retry_Auto
      | RateLimited _ \<Rightarrow> Retry_Auto
      | DatabaseOperation _ \<Rightarrow> Retry_Manual
      | ConfigError _ \<Rightarrow> Retry_Manual
      | InternalError _ \<Rightarrow> Retry_Manual
      | StorageQuotaExceeded _ \<Rightarrow> Retry_Manual
      | ResourceLocked _ \<Rightarrow> Retry_Manual
      | StoragePolicyNotFound _ \<Rightarrow> Retry_Manual
      | StorageDriverError _ \<Rightarrow> storage_retry_class (storage_error_kind_of e)
      | _ \<Rightarrow> Retry_Never)"

section \<open>Properties of the error boundary\<close>

definition with_message :: "string \<Rightarrow> aster_error \<Rightarrow> aster_error" where
  "with_message m e = map_payload (\<lambda>p. p\<lparr>message := m\<rparr>) e"

definition business_limit :: "aster_error \<Rightarrow> bool" where
  "business_limit e =
     (error_code e \<in> set [''E008'', ''E009'', ''E032'', ''E063'', ''E065''])"

lemma into_payload_map_payload [simp]: "into_payload (map_payload f e) = f (into_payload e)"
  by (cases e) simp_all

lemma override_with_message [simp]: "api_error_code_override (with_message m e) = api_error_code_override e"
  by (simp add: api_error_code_override_def with_message_def)

lemma http_status_with_message [simp]: "http_status (with_message m e) = http_status e"
  using override_with_message [of m e]
  by (cases e)
    (simp_all add: with_message_def capacity_unavailable_def chunk_upload_failure_is_client_error_def
      file_upload_failure_is_client_error_def api_error_code_override_def)

text \<open>
  A storage error survives the trip through the product error type: converting it to an
  \<open>AsterError\<close> and back gives the same kind, message and context, whatever the message says (the
  kind is carried, never re-inferred from the text).
\<close>

theorem storage_error_roundtrip: "to_storage_error (from_storage_error e) = e"
  by (cases e)
    (auto simp: to_storage_error_def from_storage_error_def with_storage_error_context_def
      storage_error_new_def storage_error_with_context_def structured_storage_error_kind_def
      payload_new_def Let_def split: option.splits)



text \<open>
  Automatic retry of a failed background task is decided exactly by the error: it happens for a
  lost database connection, a rate limit, and a storage error whose kind (structured, or inferred
  from the message when none is attached) is transient or rate-limited; and every storage error that
  is retried automatically is also reported to API clients as retryable.
\<close>

theorem default_retry_class_auto:
  "(default_retry_class e = Retry_Auto) =
     (error_code e \<in> {''E001'', ''E007''}
      \<or> error_code e = ''E031'' \<and> storage_error_kind_of e \<in> {Some SK_Transient, Some SK_RateLimited})
   \<and> {p. default_retry_class (StorageDriverError p) = Retry_Auto}
       \<subseteq> {p. api_error_retryable (StorageDriverError p)}"
proof -
  have k: "storage_retry_class k = Retry_Auto \<longleftrightarrow> k \<in> {Some SK_Transient, Some SK_RateLimited}" for k
    by (cases k rule: storage_retry_class.cases) simp_all
  have "(default_retry_class e = Retry_Auto) =
     (error_code e \<in> {''E001'', ''E007''}
      \<or> error_code e = ''E031'' \<and> storage_error_kind_of e \<in> {Some SK_Transient, Some SK_RateLimited})"
    by (cases e) (simp_all add: default_retry_class_def k del: storage_error_kind_of.simps)
  moreover have "{p. default_retry_class (StorageDriverError p) = Retry_Auto}
       \<subseteq> {p. api_error_retryable (StorageDriverError p)}"
    by (auto simp: default_retry_class_def api_error_retryable_def k simp del: storage_error_kind_of.simps)
  ultimately show ?thesis by simp
qed

end
