(* ===== verification/Error_Redaction.thy ===== *)
theory Error_Redaction
  imports Aster_Errors
begin

text \<open>
  The sanitizer that stands between a storage driver's message and an API client
  (\<open>src/src/errors.rs\<close>): credentials in URLs, in \<open>key=value\<close> pairs and in \<open>Authorization\<close>
  headers are replaced by \<open>[redacted]\<close>. The parser of the \<open>url\<close> crate is a record of functions
  (\<open>url_lib\<close>) the definitions take as an argument.

  The specification is the relation \<open>redaction\<close> on texts; every pass refines it, and the guard it
  keeps gives the property of the whole pipeline.
\<close>

section \<open>URL credentials\<close>

record 'u url_lib =
  url_parse :: "string \<Rightarrow> 'u option"
  url_username :: "'u \<Rightarrow> string"
  url_password :: "'u \<Rightarrow> string option"
  url_clear_userinfo :: "'u \<Rightarrow> 'u"
  url_query_pairs :: "'u \<Rightarrow> (string \<times> string) list option"
  url_set_query_pairs :: "'u \<Rightarrow> (string \<times> string) list \<Rightarrow> 'u"
  url_display :: "'u \<Rightarrow> string"

definition is_sensitive_storage_query_key :: "string \<Rightarrow> bool" where
  "is_sensitive_storage_query_key k =
     (to_ascii_lowercase k \<in>
        set [''sig'', ''signature'', ''x-amz-signature'', ''awsaccesskeyid'', ''access_key'',
             ''secret_key'', ''secretaccesskey'', ''sharedaccesssignature'', ''accountkey''])"

definition leading_punctuation :: string where
  "leading_punctuation = ''([<'' @ [CHR 0x27, CHR 0x22]"

definition trailing_punctuation :: string where
  "trailing_punctuation = ''.,;:)]>'' @ [CHR 0x27, CHR 0x22]"

definition redact_query_pair :: "string \<times> string \<Rightarrow> string \<times> string" where
  "redact_query_pair kv =
     (fst kv, if is_sensitive_storage_query_key (fst kv) then ''[redacted]'' else snd kv)"

definition sanitize_url_token :: "'u url_lib \<Rightarrow> string \<Rightarrow> string" where
  "sanitize_url_token lib token =
     (let leading_len = length (takeWhile (\<lambda>c. c \<in> set leading_punctuation) token);
          trailing_len = length (takeWhile (\<lambda>c. c \<in> set trailing_punctuation) (rev token));
          split_at = length token - trailing_len;
          without_trailing = take split_at token;
          trailing = drop split_at token;
          at = min leading_len (length without_trailing);
          leading = take at without_trailing;
          candidate = drop at without_trailing in
      case url_parse lib candidate of
        None \<Rightarrow> token
      | Some u0 \<Rightarrow>
          (let u1 = (if url_username lib u0 \<noteq> [] \<or> url_password lib u0 \<noteq> None
                     then url_clear_userinfo lib u0 else u0);
               u2 = (case url_query_pairs lib u1 of
                       Some ps \<Rightarrow> url_set_query_pairs lib u1 (map redact_query_pair ps)
                     | None \<Rightarrow> u1) in
           leading @ url_display lib u2 @ trailing))"

section \<open>Key-value credentials\<close>

definition redacted_mark :: string where
  "redacted_mark = ''[redacted]''"

definition value_delimiters :: string where
  "value_delimiters =
     '';& )]>'' @ [CHR 0x0A, CHR 0x0D, CHR 0x09, CHR 0x27, CHR 0x22]"

definition skip_value :: "string \<Rightarrow> string" where
  "skip_value v = dropWhile (\<lambda>c. c \<notin> set value_delimiters) v"

lemma length_skip_value: "length (skip_value v) \<le> length v"
  by (simp add: skip_value_def length_dropWhile_le)

partial_function (option) redact_loop :: "string \<Rightarrow> string \<Rightarrow> string \<Rightarrow> string option" where
  "redact_loop marker output rest =
     (case find_sub marker rest of
        None \<Rightarrow> Some (output @ rest)
      | Some index \<Rightarrow>
          redact_loop marker (output @ take index rest @ marker @ redacted_mark)
            (skip_value (drop (length marker) (drop index rest))))"

definition redact_key_value_after_marker :: "string \<Rightarrow> string \<Rightarrow> string option" where
  "redact_key_value_after_marker input marker = redact_loop marker [] input"

section \<open>Bearer credentials\<close>

definition authorization_header :: string where
  "authorization_header = ''authorization:''"

definition skip_ascii_whitespace :: "string \<Rightarrow> string" where
  "skip_ascii_whitespace s = dropWhile is_ascii_whitespace s"

lemma after_header_shorter:
  assumes "find_sub authorization_header (to_ascii_lowercase rest) = Some i"
  shows "length (drop (length authorization_header) (drop i rest)) < length rest"
  using find_sub_bound [OF assms] by (simp add: authorization_header_def)

lemma length_after_bearer_value:
  "length (skip_value (dropWhile p (drop k (dropWhile q s)))) \<le> length s"
proof -
  have "length (skip_value (dropWhile p (drop k (dropWhile q s)))) \<le> length (drop k (dropWhile q s))"
    using length_skip_value length_dropWhile_le order_trans by blast
  also have "\<dots> \<le> length s" using length_dropWhile_le [of q s] by (simp add: le_diff_conv trans_le_add1)
  finally show ?thesis .
qed

function redact_bearer_loop :: "string \<Rightarrow> string \<Rightarrow> string" where
  "redact_bearer_loop output rest =
     (case find_sub authorization_header (to_ascii_lowercase rest) of
        None \<Rightarrow> output @ rest
      | Some index \<Rightarrow>
          (let before = take index rest;
               actual_marker = take (length authorization_header) (drop index rest);
               after_header = drop (length authorization_header) (drop index rest);
               whitespace = takeWhile is_ascii_whitespace after_header;
               after_whitespace = dropWhile is_ascii_whitespace after_header;
               bearer = take 6 after_whitespace;
               after_bearer = drop 6 after_whitespace in
           if \<not> prefix ''bearer'' (to_ascii_lowercase after_whitespace)
           then redact_bearer_loop (output @ before @ actual_marker) after_header
           else if after_bearer = [] \<or> \<not> is_ascii_whitespace (hd after_bearer)
           then redact_bearer_loop (output @ before @ actual_marker) after_header
           else redact_bearer_loop
                  (output @ before @ actual_marker @ whitespace @ bearer
                   @ takeWhile is_ascii_whitespace after_bearer @ redacted_mark)
                  (skip_value (dropWhile is_ascii_whitespace after_bearer))))"
  by pat_completeness auto
termination
  by (relation "measure (length \<circ> snd)")
    (auto simp: Let_def simp del: length_drop drop_drop
       intro: after_header_shorter le_less_trans [OF length_after_bearer_value])

declare redact_bearer_loop.simps [simp del]

definition redact_authorization_bearer :: "string \<Rightarrow> string" where
  "redact_authorization_bearer input = redact_bearer_loop [] input"

section \<open>The sanitizer\<close>

definition credential_markers :: "string list" where
  "credential_markers =
     [''AccountKey='', ''SharedAccessSignature='', ''sig='', ''signature='', ''X-Amz-Signature='',
      ''AWSAccessKeyId='', ''access_key='', ''secret_key='', ''SecretAccessKey='']"

fun redact_markers :: "string list \<Rightarrow> string \<Rightarrow> string option" where
  "redact_markers [] s = Some s"
| "redact_markers (m # ms) s = Option.bind (redact_key_value_after_marker s m) (redact_markers ms)"

definition sanitize_storage_driver_client_message :: "'u url_lib \<Rightarrow> string \<Rightarrow> string option" where
  "sanitize_storage_driver_client_message lib m =
     map_option redact_authorization_bearer
       (redact_markers credential_markers
          (join_with '' '' (map (sanitize_url_token lib) (split_whitespace m))))"

section \<open>Diagnostics of an API error\<close>

definition connector_marker :: "string \<Rightarrow> (string \<times> string) option" where
  "connector_marker m =
     (if contains_str ''static credentials'' m \<and> contains_str ''missing field'' m
      then Some (''missing field `'', ''static_credential'')
      else if contains_str (''required provider option field '' @ [CHR 0x27]) m
      then Some (''required provider option field '' @ [CHR 0x27], ''connector_config'')
      else if contains_str (''provider option field '' @ [CHR 0x27]) m
      then Some (''provider option field '' @ [CHR 0x27], ''connector_config'')
      else None)"

definition connector_validation_field :: "string \<Rightarrow> (string \<times> string) option" where
  "connector_validation_field m =
     Option.bind (connector_marker m) (\<lambda>(marker, scope).
     Option.bind (find_sub marker m) (\<lambda>at.
       let rest = drop (at + length marker) m;
           close = (if suffix ''`'' marker then ''`'' else [CHR 0x27]) in
       Option.bind (find_sub close rest) (\<lambda>e.
         let field = trim (take e rest) in
         if field \<noteq> [] then Some (field, scope) else None)))"

record api_error_diagnostic =
  diag_kind :: string
  diag_message :: "string option"
  diag_field :: "string option"
  diag_scope :: "string option"

definition diagnostic_from_error :: "'u url_lib \<Rightarrow> aster_error \<Rightarrow> api_error_diagnostic option" where
  "diagnostic_from_error lib e =
     (let kind = storage_error_kind_of e;
          field = connector_validation_field (raw_message e) in
      if kind = None \<and> (field = None \<or> \<not> (case e of ValidationError _ \<Rightarrow> True | _ \<Rightarrow> False)) then None
      else Some \<lparr>diag_kind = (case kind of Some k \<Rightarrow> storage_error_kind_as_str k
                                        | None \<Rightarrow> ''connector_validation''),
                 diag_message = sanitize_storage_driver_client_message lib (raw_message e),
                 diag_field = map_option fst field,
                 diag_scope = map_option snd field\<rparr>)"

section \<open>Specification: redaction of a text\<close>

text \<open>
  \<open>redaction s out\<close>: \<open>out\<close> is \<open>s\<close> with some stretches replaced by the mark, where the text kept in
  front of a mark ends in a character that is not one of the mark's.
\<close>

inductive redaction :: "string \<Rightarrow> string \<Rightarrow> bool" where
  keep: "redaction s s"
| cut: "x \<noteq> [] \<Longrightarrow> last x \<notin> set redacted_mark \<Longrightarrow> redaction t t'
        \<Longrightarrow> redaction (x @ v @ t) (x @ redacted_mark @ t')"

definition guarded :: "string \<Rightarrow> string \<Rightarrow> bool" where
  "guarded m s \<longleftrightarrow> (\<forall>pre post. s = pre @ m @ post \<longrightarrow> prefix redacted_mark post)"

definition marker_ok :: "string \<Rightarrow> bool" where
  "marker_ok m \<longleftrightarrow>
     CHR ''='' \<in> set m \<and> CHR ''['' \<notin> set m \<and> CHR '']'' \<notin> set m \<and> last m = CHR ''=''"

lemma redacted_mark_shape: "redacted_mark = CHR ''['' # ''redacted'' @ '']''"
  by (simp add: redacted_mark_def)

lemma eq_notin_redacted [simp]: "CHR ''='' \<notin> set redacted_mark"
  by (simp add: redacted_mark_def)

lemma guarded_suffix: "guarded m (a @ b) \<Longrightarrow> guarded m b"
  unfolding guarded_def by (metis append.assoc)

text \<open>An occurrence of a marker never overlaps a mark.\<close>

lemma occurrence_split:
  assumes ok: "marker_ok m" and eq: "x @ redacted_mark @ t = pre @ m @ post"
  shows "(\<exists>y. x = pre @ m @ y \<and> post = y @ redacted_mark @ t)
       \<or> (\<exists>y. t = y @ m @ post \<and> pre = x @ redacted_mark @ y)"
proof -
  have mem: "CHR ''['' \<notin> set m" "CHR '']'' \<notin> set m" "\<not> set m \<subseteq> set redacted_mark"
    using ok by (auto simp: marker_ok_def dest: subsetD)
  show ?thesis
  proof (rule append_split_cases [OF eq])
    fix us assume us: "pre = x @ us" "us @ m @ post = redacted_mark @ t"
    show ?thesis
    proof (rule append_split_cases [OF us(2)])
      fix vs assume vs: "redacted_mark = us @ vs" "vs @ t = m @ post"
      show ?thesis
      proof (cases "vs = []")
        case True
        then show ?thesis using us vs by simp
      next
        case False
        then have "CHR '']'' \<in> set vs"
          using arg_cong [OF vs(1), of last] last_in_set [of vs] by (simp add: redacted_mark_shape)
        moreover have "set vs \<subseteq> set redacted_mark" using arg_cong [OF vs(1), of set] by auto
        ultimately show ?thesis using mem by (rule_tac append_split_cases [OF vs(2)]) auto
      qed
    next
      fix vs assume "us = redacted_mark @ vs" "vs @ m @ post = t"
      then show ?thesis using us(1) by auto
    qed
  next
    fix us assume us: "us \<noteq> []" "x = pre @ us" "us @ redacted_mark @ t = m @ post"
    show ?thesis
    proof (rule append_split_cases [OF us(3)])
      fix ws assume ws: "m = us @ ws" "ws @ post = redacted_mark @ t"
      then have "ws \<noteq> [] \<Longrightarrow> hd ws = CHR ''[''" by (cases ws) (auto simp: redacted_mark_shape)
      then have "ws = []" using ws(1) mem(1) hd_in_set [of ws] by auto
      then show ?thesis using us(2) ws by simp
    next
      fix ws assume "us = m @ ws" "ws @ redacted_mark @ t = post"
      then show ?thesis using us(2) by auto
    qed
  qed
qed

lemma prefix_mark_replace:
  assumes pre: "prefix redacted_mark (y @ r)" and y: "suffix y x" "last x \<notin> set redacted_mark"
  shows "prefix redacted_mark (y @ redacted_mark @ t)"
proof (cases "prefix redacted_mark y")
  case False
  then have "prefix y redacted_mark"
    using prefix_same_cases [OF pre, of y] by auto
  then have "y \<noteq> [] \<Longrightarrow> last x \<in> set redacted_mark"
    using y(1) last_in_set [of y] set_mono_prefix [of y redacted_mark] by (auto simp: suffix_def)
  then have "y = []" using y(2) by blast
  then show ?thesis by simp
qed (auto simp: prefix_def)

text \<open>A redaction keeps every guard the text already had.\<close>

lemma redaction_guarded:
  assumes "redaction s out" "marker_ok m" "guarded m s"
  shows "guarded m out"
  using assms(1,3)
proof induction
  case (cut x t t' v)
  have t': "guarded m t'" using cut.IH cut.prems guarded_suffix [of m "x @ v" t] by simp
  show ?case unfolding guarded_def
  proof (intro allI impI)
    fix pre post assume "x @ redacted_mark @ t' = pre @ m @ post"
    then consider y where "x = pre @ m @ y" "post = y @ redacted_mark @ t'"
      | y where "t' = y @ m @ post"
      using occurrence_split [OF assms(2)] by blast
    then show "prefix redacted_mark post"
    proof cases
      case 1
      then have "prefix redacted_mark (y @ v @ t)"
        using cut.prems by (auto simp: guarded_def)
      moreover have "suffix y x" using 1(1) by (auto simp: suffix_def)
      ultimately show ?thesis using prefix_mark_replace cut.hyps(2) 1(2) by blast
    next
      case 2
      then show ?thesis using t' by (auto simp: guarded_def)
    qed
  qed
qed simp

lemma redaction_prepend: "redaction t t' \<Longrightarrow> redaction (p @ t) (p @ t')"
proof (induction rule: redaction.cases)
  case (cut x t t' v)
  then show ?case using redaction.cut [of "p @ x" t t' v] by simp
qed (auto intro: redaction.keep)

section \<open>The passes refine the specification\<close>

lemma skip_value_split: "\<exists>v. s = v @ skip_value s \<and> (\<forall>c \<in> set v. c \<notin> set value_delimiters)"
  unfolding skip_value_def
  by (rule exI [of _ "takeWhile (\<lambda>c. c \<notin> set value_delimiters) s"]) (auto dest: set_takeWhileD)

lemma marker_ok_last: "marker_ok m \<Longrightarrow> m \<noteq> [] \<and> last m \<notin> set redacted_mark"
  by (auto simp: marker_ok_def)

lemma first_occurrence_unique:
  assumes "find_sub m s = Some i" "take i s @ m = pre @ m @ y"
  shows "y = []"
proof -
  obtain post where s: "s = take i s @ m @ post" using find_sub_split [OF assms(1)] by blast
  then have "s = pre @ m @ (y @ post)" using assms(2) by (metis append.assoc)
  then have "i \<le> length pre" using find_sub_first [OF assms(1)] by blast
  moreover have "i + length m = length pre + length m + length y"
    using arg_cong [OF assms(2), of length] find_sub_bound [OF assms(1)] by simp
  ultimately show ?thesis by simp
qed

lemma redact_loop_result:
  assumes ok: "marker_ok m"
  shows "\<exists>r. (\<forall>out. redact_loop m out s = Some (out @ r)) \<and> redaction s r \<and> guarded m r"
proof (induction s rule: length_induct)
  case (1 s)
  show ?case
  proof (cases "find_sub m s")
    case None
    then have "guarded m s" by (auto simp: find_sub_None_iff guarded_def)
    then show ?thesis
      using None by (intro exI [of _ s]) (auto simp: redact_loop.simps intro: redaction.keep)
  next
    case (Some i)
    define t where "t = skip_value (drop (length m) (drop i s))"
    obtain post where s: "s = take i s @ m @ post" using find_sub_split [OF Some] by blast
    have post: "post = drop (length m) (drop i s)"
      using arg_cong [OF s, of "drop (i + length m)"] find_sub_bound [OF Some] by (simp add: add.commute)
    obtain v where v: "post = v @ t" using skip_value_split [of post] post t_def by blast
    have "length t < length s"
      using v arg_cong [OF s, of length] marker_ok_last [OF ok]
      by (simp add: length_greater_0_conv [symmetric] del: length_greater_0_conv)
    then obtain r where r: "\<And>out. redact_loop m out t = Some (out @ r)" "redaction t r" "guarded m r"
      using 1 by blast
    define x where "x = take i s @ m"
    have x: "x \<noteq> []" "last x \<notin> set redacted_mark" using marker_ok_last [OF ok] by (auto simp: x_def)
    have "redact_loop m out s = Some (out @ x @ redacted_mark @ r)" for out
      using r(1) Some by (subst redact_loop.simps) (simp add: t_def x_def)
    moreover have "redaction s (x @ redacted_mark @ r)"
      using redaction.cut [OF x r(2), of v] s v by (simp add: x_def)
    moreover have "guarded m (x @ redacted_mark @ r)"
      unfolding guarded_def
    proof (intro allI impI)
      fix pre po assume "x @ redacted_mark @ r = pre @ m @ po"
      then consider y where "x = pre @ m @ y" "po = y @ redacted_mark @ r" | y where "r = y @ m @ po"
        using occurrence_split [OF ok] by blast
      then show "prefix redacted_mark po"
      proof cases
        case 1
        then show ?thesis using first_occurrence_unique [OF Some, of pre y] by (simp add: x_def)
      next
        case 2
        then show ?thesis using r(3) by (auto simp: guarded_def)
      qed
    qed
    ultimately show ?thesis by blast
  qed
qed

lemma redact_key_value_result:
  assumes "marker_ok m"
  shows "\<exists>out. redact_key_value_after_marker s m = Some out \<and> redaction s out \<and> guarded m out"
  using redact_loop_result [OF assms, of s] by (auto simp: redact_key_value_after_marker_def)

lemma redact_markers_result:
  assumes "\<forall>m \<in> set ms. marker_ok m"
  shows "\<exists>out. redact_markers ms s = Some out \<and> (\<forall>m \<in> set ms. guarded m out)
            \<and> (\<forall>m. marker_ok m \<longrightarrow> guarded m s \<longrightarrow> guarded m out)"
  using assms
proof (induction ms arbitrary: s)
  case (Cons m ms)
  obtain s' where s': "redact_key_value_after_marker s m = Some s'" "redaction s s'" "guarded m s'"
    using redact_key_value_result [of m s] Cons.prems by auto
  obtain out where "redact_markers ms s' = Some out" "\<forall>m \<in> set ms. guarded m out"
    "\<forall>m. marker_ok m \<longrightarrow> guarded m s' \<longrightarrow> guarded m out"
    using Cons.IH [of s'] Cons.prems by auto
  then show ?case using s' Cons.prems redaction_guarded by auto
qed simp

lemma redact_bearer_loop_result: "\<exists>r. (\<forall>out. redact_bearer_loop out s = out @ r) \<and> redaction s r"
proof (induction s rule: length_induct)
  case (1 s)
  show ?case
  proof (cases "find_sub authorization_header (to_ascii_lowercase s)")
    case None
    then show ?thesis
      by (intro exI [of _ s]) (simp add: redact_bearer_loop.simps redaction.keep)
  next
    case (Some i)
    let ?h = "take i s @ take (length authorization_header) (drop i s)"
    define ah where "ah = drop (length authorization_header) (drop i s)"
    define aw where "aw = dropWhile is_ascii_whitespace ah"
    define ab where "ab = drop 6 aw"
    have s: "s = ?h @ ah" unfolding ah_def by (simp del: drop_drop)
    show ?thesis
    proof (cases "prefix ''bearer'' (to_ascii_lowercase aw) \<and> ab \<noteq> [] \<and> is_ascii_whitespace (hd ab)")
      case False
      obtain r where r: "\<And>out. redact_bearer_loop out ah = out @ r" "redaction ah r"
        using 1 after_header_shorter [OF Some] unfolding ah_def by blast
      have "redact_bearer_loop out s = out @ ?h @ r" for out
        using False Some r(1) unfolding ab_def aw_def ah_def
        by (subst redact_bearer_loop.simps) (auto simp: Let_def simp del: drop_drop)
      moreover have "redaction s (?h @ r)" using redaction_prepend [OF r(2), of ?h] s by simp
      ultimately show ?thesis by blast
    next
      case True
      define bw where "bw = takeWhile is_ascii_whitespace ab"
      define av where "av = dropWhile is_ascii_whitespace ab"
      define t where "t = skip_value av"
      have "length t < length s"
        unfolding t_def av_def ab_def aw_def ah_def
        using le_less_trans [OF length_after_bearer_value after_header_shorter [OF Some]] .
      then obtain r where r: "\<And>out. redact_bearer_loop out t = out @ r" "redaction t r"
        using 1 by blast
      obtain v where v: "av = v @ t" using skip_value_split [of av] t_def by blast
      define x where "x = ?h @ takeWhile is_ascii_whitespace ah @ take 6 aw @ bw"
      have "bw \<noteq> []" using True by (cases ab) (auto simp: bw_def)
      then have "last x \<in> set bw" by (simp add: x_def)
      then have "is_ascii_whitespace (last x)" unfolding bw_def by (rule set_takeWhileD [THEN conjunct2])
      then have x: "x \<noteq> []" "last x \<notin> set redacted_mark"
        using \<open>bw \<noteq> []\<close> by (auto simp: x_def is_ascii_whitespace_def redacted_mark_def)
      have "x @ v @ t = ?h @ takeWhile is_ascii_whitespace ah @ take 6 aw @ bw @ av"
        by (simp add: x_def v)
      also have "\<dots> = ?h @ ah" by (simp add: bw_def av_def ab_def aw_def)
      also have "\<dots> = s" by (rule s [symmetric])
      finally have "x @ v @ t = s" .
      then have "redaction s (x @ redacted_mark @ r)" using redaction.cut [OF x r(2), of v] by simp
      moreover have "redact_bearer_loop out s = out @ x @ redacted_mark @ r" for out
        using True Some r(1) unfolding t_def x_def av_def bw_def ab_def aw_def ah_def
        by (subst redact_bearer_loop.simps) (auto simp: Let_def simp del: drop_drop)
      ultimately show ?thesis by blast
    qed
  qed
qed

lemma credential_markers_ok: "\<forall>m \<in> set credential_markers. marker_ok m"
  by (simp add: credential_markers_def marker_ok_def)

text \<open>
  (C17) Sanitizing a driver message always returns, whatever the URL parser does, and in the text
  sent to the client every occurrence of each of the nine credential markers is followed at once by
  the redaction mark: neither a later marker's pass nor the bearer pass uncovers an earlier one.
\<close>

theorem sanitize_storage_driver_client_message_guards:
  "\<exists>out. sanitize_storage_driver_client_message lib m = Some out
     \<and> (\<forall>k \<in> set credential_markers. \<forall>pre post. out = pre @ k @ post \<longrightarrow> prefix ''[redacted]'' post)"
proof -
  obtain s where s: "redact_markers credential_markers
       (join_with '' '' (map (sanitize_url_token lib) (split_whitespace m))) = Some s"
    "\<forall>k \<in> set credential_markers. guarded k s"
    using redact_markers_result [OF credential_markers_ok] by blast
  obtain r where r: "redact_authorization_bearer s = r" "redaction s r"
    using redact_bearer_loop_result [of s] by (auto simp: redact_authorization_bearer_def)
  have "\<forall>k \<in> set credential_markers. guarded k r"
    using s(2) r(2) credential_markers_ok redaction_guarded by blast
  then show ?thesis
    using s(1) r(1)
    by (auto simp: sanitize_storage_driver_client_message_def guarded_def redacted_mark_def)
qed

text \<open>
  A value that starts with a quote is not redacted: the opening quote already is a delimiter, so the
  secret stays in the text behind the mark.
\<close>

lemma quoted_secret_survives:
  "redact_key_value_after_marker (''secret_key='' @ [CHR 0x27] @ ''hunter2'') ''secret_key=''
     = Some (''secret_key=[redacted]'' @ [CHR 0x27] @ ''hunter2'')"
  by (simp add: redact_key_value_after_marker_def redact_loop.simps skip_value_def value_delimiters_def
      redacted_mark_def)

definition ex_url_lib :: "unit url_lib" where
  "ex_url_lib =
     \<lparr>url_parse = \<lambda>_. None, url_username = \<lambda>_. [], url_password = \<lambda>_. None, url_clear_userinfo = id,
      url_query_pairs = \<lambda>_. None, url_set_query_pairs = \<lambda>u _. u, url_display = \<lambda>_. []\<rparr>"

lemma ex_words: "split_whitespace ''sig=a'' = [''sig=a'']"
  by (simp add: split_whitespace_def split_whitespace_from.simps leading_whitespace_def whitespace_seqs_def
      char_of_def bit_iff_odd)

lemma ex_token: "sanitize_url_token ex_url_lib t = t"
  by (simp add: sanitize_url_token_def ex_url_lib_def)

lemma ex_passes: "redact_markers credential_markers ''sig=a'' = Some ''sig=[redacted]''"
  by (simp add: credential_markers_def redact_key_value_after_marker_def redact_loop.simps skip_value_def
      value_delimiters_def redacted_mark_def)

lemma ex_bearer: "redact_authorization_bearer ''sig=[redacted]'' = ''sig=[redacted]''"
  by (simp add: redact_authorization_bearer_def redact_bearer_loop.simps authorization_header_def
      to_ascii_lowercase_def)

lemma ex_sanitized: "sanitize_storage_driver_client_message ex_url_lib ''sig=a'' = Some ''sig=[redacted]''"
  by (simp add: sanitize_storage_driver_client_message_def ex_words ex_token ex_passes ex_bearer)

theorem sanitize_storage_driver_client_message_guards_witness:
  "sanitize_storage_driver_client_message ex_url_lib ''sig=a'' = Some ''sig=[redacted]''
   \<and> ''sig='' \<in> set credential_markers \<and> ''sig=[redacted]'' = [] @ ''sig='' @ ''[redacted]''
   \<and> prefix ''[redacted]'' ''[redacted]''"
  using sanitize_storage_driver_client_message_guards [of ex_url_lib "''sig=a''"]
  unfolding ex_sanitized by (auto simp: credential_markers_def)

end
