(* ===== verification/Resource_Locks.thy ===== *)
theory Resource_Locks
  imports Aster_Errors "HOL-Library.Sublist"
begin

text \<open>
  Resource locks of files, folders and workspace roots: the lock domain
  (\<open>src/src/services/files/lock/domain.rs\<close>), acquisition and release (\<open>lifecycle.rs\<close>), enforcement
  on mutations (\<open>enforcement.rs\<close>), cleanup (\<open>cleanup.rs\<close>) and the two repositories
  \<open>src/src/db/repository/lock_repo.rs\<close> and \<open>lock_namespace_repo.rs\<close>.

  The database is the record \<open>lock_db\<close>: the two lock tables and, of users, teams, files and folders,
  the columns the lock service reads. A function that runs in a transaction returns the new database
  in \<open>Inr\<close>; \<open>Inl\<close> is an error, after which the transaction is rolled back. The clock, the random
  token and the ids the database assigns come from the record \<open>lock_env\<close>; the JSON encoding of the
  owner information is an argument.
\<close>

section \<open>Domain\<close>

datatype lock_workspace_type = Personal_Workspace | Team_Workspace
datatype lock_root_kind = RK_WorkspaceRoot | RK_Folder | RK_File
datatype lock_depth = Resource | Infinity
datatype lock_mode = Exclusive | Shared
datatype lock_origin = Product | WebDav | Wopi
datatype entity_type = ET_File | ET_Folder

datatype lock_workspace =
    LW_Personal (lw_user_id: int)
  | LW_Team (lw_team_id: int)

fun persistence_key :: "lock_workspace \<Rightarrow> lock_workspace_type \<times> int" where
  "persistence_key (LW_Personal u) = (Personal_Workspace, u)"
| "persistence_key (LW_Team t) = (Team_Workspace, t)"

datatype lock_root =
    LR_WorkspaceRoot
  | LR_Folder (lr_folder_id: int)
  | LR_File (lr_file_id: int)

fun persistence_parts :: "lock_root \<Rightarrow> lock_root_kind \<times> int option \<times> int option" where
  "persistence_parts LR_WorkspaceRoot = (RK_WorkspaceRoot, None, None)"
| "persistence_parts (LR_Folder f) = (RK_Folder, Some f, None)"
| "persistence_parts (LR_File f) = (RK_File, None, Some f)"

record lock_target =
  lt_workspace :: lock_workspace
  lt_root :: lock_root
  lt_depth :: lock_depth

record resource_lock =
  rl_id :: int
  rl_token :: string
  rl_namespace_id :: int
  rl_root_kind :: lock_root_kind
  rl_root_folder_id :: "int option"
  rl_root_file_id :: "int option"
  rl_depth :: lock_depth
  rl_mode :: lock_mode
  rl_origin :: lock_origin
  rl_holder_user_id :: "int option"
  rl_owner_info :: "string option"
  rl_timeout_at :: "time option"
  rl_lockroot_path :: "string option"
  rl_created_at :: time

record resource_lock_namespace =
  ns_id :: int
  ns_workspace_type :: lock_workspace_type
  ns_workspace_id :: int
  ns_generation :: int
  ns_created_at :: time
  ns_updated_at :: time

definition root_from_model :: "resource_lock \<Rightarrow> lock_root aster_result" where
  "root_from_model l =
     (case (rl_root_kind l, rl_root_folder_id l, rl_root_file_id l) of
        (RK_WorkspaceRoot, None, None) \<Rightarrow> Inr LR_WorkspaceRoot
      | (RK_Folder, Some f, None) \<Rightarrow> Inr (LR_Folder f)
      | (RK_File, None, Some f) \<Rightarrow> Inr (LR_File f)
      | _ \<Rightarrow> Inl (internal_error
          (''resource lock #'' @ int_to_string (rl_id l) @ '' has an invalid root column combination'')))"

datatype lock_owner_info =
    OI_Wopi (app_key: string) (wopi_lock: string)
  | OI_Webdav (owner_xml: string)
  | OI_Text (owner_text: string)

fun origin_for_owner_info :: "lock_owner_info option \<Rightarrow> lock_origin" where
  "origin_for_owner_info (Some (OI_Webdav _)) = WebDav"
| "origin_for_owner_info (Some (OI_Wopi _ _)) = Wopi"
| "origin_for_owner_info (Some (OI_Text _)) = Product"
| "origin_for_owner_info None = Product"

section \<open>Files, folders, users and teams\<close>

record file_row =
  fi_id :: int
  fi_folder_id :: "int option"
  fi_team_id :: "int option"
  fi_owner_user_id :: "int option"

record folder_row =
  fo_id :: int
  fo_parent_id :: "int option"
  fo_team_id :: "int option"
  fo_owner_user_id :: "int option"
  fo_deleted_at :: "time option"

datatype db_backend = Postgres | MySql | Sqlite

record lock_db =
  db_kind :: db_backend
  db_users :: "int list"
  db_teams :: "int list"
  db_files :: "file_row list"
  db_folders :: "folder_row list"
  db_namespaces :: "resource_lock_namespace list"
  db_locks :: "resource_lock list"

record lock_env =
  le_now :: time
  le_uuid :: string
  le_new_namespace_id :: int
  le_new_lock_id :: int

definition workspace_from :: "string \<Rightarrow> int \<Rightarrow> int option \<Rightarrow> int option \<Rightarrow> lock_workspace aster_result" where
  "workspace_from what i team owner =
     (case (team, owner) of
        (Some t, _) \<Rightarrow> Inr (LW_Team t)
      | (None, Some u) \<Rightarrow> Inr (LW_Personal u)
      | (None, None) \<Rightarrow> Inl (internal_error (what @ '' #'' @ int_to_string i @ '' has no workspace identity'')))"

definition from_file :: "file_row \<Rightarrow> lock_workspace aster_result" where
  "from_file f = workspace_from ''file'' (fi_id f) (fi_team_id f) (fi_owner_user_id f)"

definition from_folder :: "folder_row \<Rightarrow> lock_workspace aster_result" where
  "from_folder f = workspace_from ''folder'' (fo_id f) (fo_team_id f) (fo_owner_user_id f)"

definition file_find_by_id :: "int \<Rightarrow> lock_db \<Rightarrow> file_row aster_result" where
  "file_find_by_id i db =
     (case find_key fi_id i (db_files db) of
        Some f \<Rightarrow> Inr f
      | None \<Rightarrow> Inl (FileNotFound (payload_new (''file #'' @ int_to_string i))))"

definition file_lock_by_id :: "int \<Rightarrow> lock_db \<Rightarrow> file_row aster_result" where
  "file_lock_by_id i db = file_find_by_id i db"

definition folder_find_by_id :: "int \<Rightarrow> lock_db \<Rightarrow> folder_row aster_result" where
  "folder_find_by_id i db =
     (case find_key fo_id i (db_folders db) of
        Some f \<Rightarrow> Inr f
      | None \<Rightarrow> Inl (record_not_found (''folder #'' @ int_to_string i)))"

definition folder_lock_by_id :: "int \<Rightarrow> lock_db \<Rightarrow> folder_row aster_result" where
  "folder_lock_by_id i db =
     (if db_kind db \<in> {Postgres, MySql} then
        (case find_key fo_id i (db_folders db) of
           Some f \<Rightarrow> Inr f
         | None \<Rightarrow> Inl (FolderNotFound (payload_new (''folder #'' @ int_to_string i))))
      else folder_find_by_id i db)"

definition user_find_by_id :: "int \<Rightarrow> lock_db \<Rightarrow> unit aster_result" where
  "user_find_by_id i db =
     (if i \<in> set (db_users db) then Inr () else Inl (record_not_found (''user #'' @ int_to_string i)))"

definition team_find_by_id :: "int \<Rightarrow> lock_db \<Rightarrow> unit aster_result" where
  "team_find_by_id i db =
     (if i \<in> set (db_teams db) then Inr () else Inl (record_not_found (''team #'' @ int_to_string i)))"

section \<open>Lock repository\<close>

definition entity_condition :: "entity_type \<Rightarrow> int \<Rightarrow> resource_lock \<Rightarrow> bool" where
  "entity_condition et i l =
     (case et of
        ET_File \<Rightarrow> rl_root_kind l = RK_File \<and> rl_root_file_id l = Some i
      | ET_Folder \<Rightarrow> rl_root_kind l = RK_Folder \<and> rl_root_folder_id l = Some i)"

definition locks_of_namespace :: "int \<Rightarrow> lock_db \<Rightarrow> resource_lock list" where
  "locks_of_namespace n db = sort_key rl_id (select_where (\<lambda>l. rl_namespace_id l = n) (db_locks db))"

definition find_all_by_entity :: "entity_type \<Rightarrow> int \<Rightarrow> lock_db \<Rightarrow> resource_lock list" where
  "find_all_by_entity et i db = sort_key rl_id (select_where (entity_condition et i) (db_locks db))"

definition lock_expired :: "time \<Rightarrow> resource_lock \<Rightarrow> bool" where
  "lock_expired now l = null_le (rl_timeout_at l) now"

definition find_active_by_entity :: "time \<Rightarrow> entity_type \<Rightarrow> int \<Rightarrow> lock_db \<Rightarrow> resource_lock option" where
  "find_active_by_entity now et i db = List.find (\<lambda>l. \<not> lock_expired now l) (find_all_by_entity et i db)"

definition find_by_token :: "string \<Rightarrow> lock_db \<Rightarrow> resource_lock option" where
  "find_by_token tok db = List.find (\<lambda>l. rl_token l = tok) (db_locks db)"

definition lock_find_by_id :: "int \<Rightarrow> lock_db \<Rightarrow> resource_lock option" where
  "lock_find_by_id i db = find_key rl_id i (db_locks db)"

definition delete_locks :: "(resource_lock \<Rightarrow> bool) \<Rightarrow> lock_db \<Rightarrow> lock_db \<times> nat" where
  "delete_locks p db =
     (db\<lparr>db_locks := fst (delete_where p (db_locks db))\<rparr>, snd (delete_where p (db_locks db)))"

definition delete_by_id :: "int \<Rightarrow> lock_db \<Rightarrow> lock_db" where
  "delete_by_id i db = fst (delete_locks (\<lambda>l. rl_id l = i) db)"

definition delete_by_entity :: "entity_type \<Rightarrow> int \<Rightarrow> lock_db \<Rightarrow> lock_db" where
  "delete_by_entity et i db = fst (delete_locks (entity_condition et i) db)"

definition delete_by_entity_and_owner :: "entity_type \<Rightarrow> int \<Rightarrow> int \<Rightarrow> lock_db \<Rightarrow> lock_db" where
  "delete_by_entity_and_owner et i owner db =
     fst (delete_locks (\<lambda>l. entity_condition et i l \<and> rl_holder_user_id l = Some owner) db)"

definition delete_expired_by_entity_before :: "entity_type \<Rightarrow> int \<Rightarrow> time \<Rightarrow> lock_db \<Rightarrow> lock_db \<times> nat" where
  "delete_expired_by_entity_before et i cutoff db =
     delete_locks (\<lambda>l. entity_condition et i l \<and> rl_timeout_at l \<noteq> None \<and> null_le (rl_timeout_at l) cutoff) db"

definition delete_expired_by_namespace_before :: "int \<Rightarrow> time \<Rightarrow> lock_db \<Rightarrow> lock_db \<times> nat" where
  "delete_expired_by_namespace_before n cutoff db =
     delete_locks (\<lambda>l. rl_namespace_id l = n \<and> rl_timeout_at l \<noteq> None \<and> null_le (rl_timeout_at l) cutoff) db"

definition delete_by_owner_in_namespace :: "int \<Rightarrow> int \<Rightarrow> lock_db \<Rightarrow> lock_db \<times> nat" where
  "delete_by_owner_in_namespace n owner db =
     delete_locks (\<lambda>l. rl_namespace_id l = n \<and> rl_holder_user_id l = Some owner) db"

definition find_expired_before :: "time \<Rightarrow> lock_db \<Rightarrow> resource_lock list" where
  "find_expired_before cutoff db =
     select_where (\<lambda>l. rl_timeout_at l \<noteq> None \<and> null_le (rl_timeout_at l) cutoff) (db_locks db)"

definition find_by_owner :: "int \<Rightarrow> lock_db \<Rightarrow> resource_lock list" where
  "find_by_owner owner db = select_where (\<lambda>l. rl_holder_user_id l = Some owner) (db_locks db)"

definition count_active_by_owner :: "int \<Rightarrow> time \<Rightarrow> lock_db \<Rightarrow> nat" where
  "count_active_by_owner owner now db =
     count_where (\<lambda>l. rl_holder_user_id l = Some owner
                      \<and> (rl_timeout_at l = None \<or> null_gt (rl_timeout_at l) now)) (db_locks db)"

section \<open>Namespace repository\<close>

definition find_by_workspace :: "lock_workspace_type \<Rightarrow> int \<Rightarrow> lock_db \<Rightarrow> resource_lock_namespace option" where
  "find_by_workspace wt wid db =
     List.find (\<lambda>n. ns_workspace_type n = wt \<and> ns_workspace_id n = wid) (db_namespaces db)"

definition ensure_and_lock ::
  "lock_env \<Rightarrow> lock_workspace_type \<Rightarrow> int \<Rightarrow> lock_db \<Rightarrow> (lock_db \<times> resource_lock_namespace) aster_result" where
  "ensure_and_lock env wt wid db =
     (let db' = (case find_by_workspace wt wid db of
                   Some _ \<Rightarrow> db
                 | None \<Rightarrow> db\<lparr>db_namespaces := db_namespaces db @
                     [\<lparr>ns_id = le_new_namespace_id env, ns_workspace_type = wt, ns_workspace_id = wid,
                       ns_generation = 0, ns_created_at = le_now env, ns_updated_at = le_now env\<rparr>]\<rparr>) in
      case find_by_workspace wt wid db' of
        Some n \<Rightarrow> Inr (db', n)
      | None \<Rightarrow> Inl (internal_error ''resource lock namespace disappeared''))"

definition namespace_lock_by_id :: "int \<Rightarrow> lock_db \<Rightarrow> resource_lock_namespace aster_result" where
  "namespace_lock_by_id n db =
     (case find_key ns_id n (db_namespaces db) of
        Some x \<Rightarrow> Inr x
      | None \<Rightarrow> Inl (record_not_found ''resource lock namespace''))"

definition increment_generation :: "lock_env \<Rightarrow> resource_lock_namespace \<Rightarrow> lock_db \<Rightarrow> lock_db aster_result" where
  "increment_generation env n db =
     (case checked_add_i64 (ns_generation n) 1 of
        None \<Rightarrow> Inl (internal_error ''resource lock generation overflow'')
      | Some g \<Rightarrow>
          Inr (db\<lparr>db_namespaces := fst (update_where (\<lambda>x. ns_id x = ns_id n)
                     (\<lambda>x. x\<lparr>ns_generation := g, ns_updated_at := le_now env\<rparr>) (db_namespaces db))\<rparr>))"

section \<open>Overlap\<close>

definition path_is_ancestor :: "string \<Rightarrow> string \<Rightarrow> bool" where
  "path_is_ancestor ancestor descendant =
     (ancestor = descendant
      \<or> (let pre = (if suffix ''/'' ancestor then ancestor else ancestor @ ''/'') in prefix pre descendant))"

definition locks_overlap :: "resource_lock \<Rightarrow> lock_target \<Rightarrow> string option \<Rightarrow> bool" where
  "locks_overlap existing requested requested_path =
     (if (rl_root_kind existing, rl_root_folder_id existing, rl_root_file_id existing)
           = persistence_parts (lt_root requested) then True
      else if rl_root_kind existing = RK_WorkspaceRoot \<and> rl_depth existing = Infinity then True
      else if lt_root requested = LR_WorkspaceRoot \<and> lt_depth requested = Infinity then True
      else case (rl_lockroot_path existing, requested_path) of
             (Some ep, Some rp) \<Rightarrow>
               path_is_ancestor ep rp \<and> rl_depth existing = Infinity
               \<or> path_is_ancestor rp ep \<and> lt_depth requested = Infinity
           | _ \<Rightarrow> False)"

section \<open>Acquisition\<close>

record lock_acquire_command =
  ac_target :: lock_target
  ac_mode :: lock_mode
  ac_origin :: lock_origin
  ac_holder_user_id :: "int option"
  ac_owner_info :: "lock_owner_info option"
  ac_timeout :: "time option"
  ac_presentation_path :: "string option"

definition lock_target_namespace ::
  "lock_env \<Rightarrow> lock_workspace \<Rightarrow> lock_db \<Rightarrow> (lock_db \<times> resource_lock_namespace) aster_result" where
  "lock_target_namespace env ws db =
     (let (wt, wid) = persistence_key ws in
      bind_result (case wt of Personal_Workspace \<Rightarrow> user_find_by_id wid db
                            | Team_Workspace \<Rightarrow> team_find_by_id wid db)
        (\<lambda>_. ensure_and_lock env wt wid db))"

definition lock_and_revalidate_target :: "lock_target \<Rightarrow> lock_db \<Rightarrow> unit aster_result" where
  "lock_and_revalidate_target target db =
     (case lt_root target of
        LR_WorkspaceRoot \<Rightarrow>
          (case lt_workspace target of
             LW_Personal u \<Rightarrow> user_find_by_id u db
           | LW_Team t \<Rightarrow> team_find_by_id t db)
      | LR_File i \<Rightarrow>
          bind_result (file_lock_by_id i db) (\<lambda>f.
          bind_result (from_file f) (\<lambda>ws.
            if ws \<noteq> lt_workspace target
            then Inl (resource_locked ''file workspace changed during lock mutation'') else Inr ()))
      | LR_Folder i \<Rightarrow>
          bind_result (folder_lock_by_id i db) (\<lambda>f.
          bind_result (from_folder f) (\<lambda>ws.
            if ws \<noteq> lt_workspace target
            then Inl (resource_locked ''folder workspace changed during lock mutation'') else Inr ())))"

fun scan_existing ::
  "time \<Rightarrow> lock_target \<Rightarrow> lock_mode \<Rightarrow> string option \<Rightarrow> resource_lock list \<Rightarrow> lock_db \<Rightarrow> lock_db aster_result" where
  "scan_existing now target mode path [] db = Inr db"
| "scan_existing now target mode path (e # es) db =
     (if lock_expired now e then scan_existing now target mode path es (delete_by_id (rl_id e) db)
      else if locks_overlap e target path \<and> (mode = Exclusive \<or> rl_mode e = Exclusive)
      then Inl (resource_locked ''resource is already locked'')
      else scan_existing now target mode path es db)"

definition serialize_owner_info ::
  "(lock_owner_info \<Rightarrow> string aster_result) \<Rightarrow> lock_owner_info option \<Rightarrow> string option aster_result" where
  "serialize_owner_info to_json oi =
     (case oi of None \<Rightarrow> Inr None | Some x \<Rightarrow> bind_result (to_json x) (\<lambda>raw. Inr (Some raw)))"

definition acquired_row :: "lock_env \<Rightarrow> int \<Rightarrow> lock_acquire_command \<Rightarrow> string option \<Rightarrow> resource_lock" where
  "acquired_row env n cmd owner =
     (let (rk, rfo, rfi) = persistence_parts (lt_root (ac_target cmd)) in
      \<lparr>rl_id = le_new_lock_id env, rl_token = ''urn:uuid:'' @ le_uuid env, rl_namespace_id = n,
       rl_root_kind = rk, rl_root_folder_id = rfo, rl_root_file_id = rfi,
       rl_depth = lt_depth (ac_target cmd), rl_mode = ac_mode cmd, rl_origin = ac_origin cmd,
       rl_holder_user_id = ac_holder_user_id cmd, rl_owner_info = owner,
       rl_timeout_at = map_option (\<lambda>d. le_now env + d) (ac_timeout cmd),
       rl_lockroot_path = ac_presentation_path cmd, rl_created_at = le_now env\<rparr>)"

definition acquire_after_namespace_lock_on ::
  "(lock_owner_info \<Rightarrow> string aster_result) \<Rightarrow> lock_env \<Rightarrow> resource_lock_namespace
   \<Rightarrow> lock_acquire_command \<Rightarrow> lock_db \<Rightarrow> (lock_db \<times> resource_lock) aster_result" where
  "acquire_after_namespace_lock_on to_json env n cmd db =
     bind_result (serialize_owner_info to_json (ac_owner_info cmd)) (\<lambda>owner.
     if (ns_workspace_type n, ns_workspace_id n) \<noteq> persistence_key (lt_workspace (ac_target cmd))
     then Inl (resource_locked ''lock namespace does not match the requested workspace'')
     else bind_result (lock_and_revalidate_target (ac_target cmd) db) (\<lambda>_.
     bind_result (scan_existing (le_now env) (ac_target cmd) (ac_mode cmd) (ac_presentation_path cmd)
                    (locks_of_namespace (ns_id n) db) db) (\<lambda>db1.
     let l = acquired_row env (ns_id n) cmd owner in
     bind_result (increment_generation env n (db1\<lparr>db_locks := db_locks db1 @ [l]\<rparr>)) (\<lambda>db2.
     Inr (db2, l)))))"

definition acquire_on ::
  "(lock_owner_info \<Rightarrow> string aster_result) \<Rightarrow> lock_env \<Rightarrow> lock_acquire_command \<Rightarrow> lock_db
   \<Rightarrow> (lock_db \<times> resource_lock) aster_result" where
  "acquire_on to_json env cmd db =
     bind_result (lock_target_namespace env (lt_workspace (ac_target cmd)) db) (\<lambda>(db1, n).
       acquire_after_namespace_lock_on to_json env n cmd db1)"

definition resolve_entity_target :: "entity_type \<Rightarrow> int \<Rightarrow> lock_db \<Rightarrow> lock_target aster_result" where
  "resolve_entity_target et i db =
     (case et of
        ET_File \<Rightarrow>
          bind_result (file_find_by_id i db) (\<lambda>f.
          bind_result (from_file f) (\<lambda>ws. Inr \<lparr>lt_workspace = ws, lt_root = LR_File i, lt_depth = Resource\<rparr>))
      | ET_Folder \<Rightarrow>
          bind_result (folder_find_by_id i db) (\<lambda>f.
          bind_result (from_folder f) (\<lambda>ws. Inr \<lparr>lt_workspace = ws, lt_root = LR_Folder i, lt_depth = Resource\<rparr>)))"

text \<open>The path of the entity (\<open>resolve_entity_path\<close>) is an argument: it walks the folder names.\<close>

definition lock_entity ::
  "(lock_owner_info \<Rightarrow> string aster_result) \<Rightarrow> (entity_type \<Rightarrow> int \<Rightarrow> lock_db \<Rightarrow> string aster_result)
   \<Rightarrow> lock_env \<Rightarrow> entity_type \<Rightarrow> int \<Rightarrow> int option \<Rightarrow> lock_owner_info option \<Rightarrow> time option \<Rightarrow> lock_db
   \<Rightarrow> (lock_db \<times> resource_lock) aster_result" where
  "lock_entity to_json entity_path env et i owner oi timeout db =
     bind_result (resolve_entity_target et i db) (\<lambda>target.
     bind_result (lock_target_namespace env (lt_workspace target) db) (\<lambda>(db1, n).
     bind_result (lock_and_revalidate_target target db1) (\<lambda>_.
     bind_result (entity_path et i db1) (\<lambda>path.
     acquire_after_namespace_lock_on to_json env n
       \<lparr>ac_target = target, ac_mode = Exclusive, ac_origin = origin_for_owner_info oi,
        ac_holder_user_id = owner, ac_owner_info = oi, ac_timeout = timeout,
        ac_presentation_path = Some path\<rparr> db1))))"

section \<open>Release and refresh\<close>

definition check_entity_ownership :: "entity_type \<Rightarrow> int \<Rightarrow> int \<Rightarrow> lock_db \<Rightarrow> bool aster_result" where
  "check_entity_ownership et i user db =
     (case et of
        ET_File \<Rightarrow> bind_result (file_find_by_id i db) (\<lambda>f. Inr (fi_owner_user_id f = Some user))
      | ET_Folder \<Rightarrow> bind_result (folder_find_by_id i db) (\<lambda>f. Inr (fo_owner_user_id f = Some user)))"

definition remove_released_locks :: "entity_type \<Rightarrow> int \<Rightarrow> int \<Rightarrow> lock_db \<Rightarrow> (lock_db \<times> nat) aster_result" where
  "remove_released_locks et i user db =
     (let locks = find_all_by_entity et i db in
      if locks = [] then Inr (db, 0)
      else bind_result (check_entity_ownership et i user db) (\<lambda>owns.
        if owns then Inr (delete_by_entity et i db, length locks)
        else if \<exists>l \<in> set locks. rl_holder_user_id l \<noteq> Some user
        then Inl (auth_forbidden_with_code ''LockNotOwner'' ''not the lock owner'')
        else Inr (delete_by_entity_and_owner et i user db, length locks)))"

definition unlock :: "lock_env \<Rightarrow> entity_type \<Rightarrow> int \<Rightarrow> int \<Rightarrow> lock_db \<Rightarrow> lock_db aster_result" where
  "unlock env et i user db =
     bind_result (resolve_entity_target et i db) (\<lambda>target.
     bind_result (lock_target_namespace env (lt_workspace target) db) (\<lambda>(db1, n).
     bind_result (lock_and_revalidate_target target db1) (\<lambda>_.
     let (db2, expired) = delete_expired_by_entity_before et i (le_now env) db1 in
     bind_result (remove_released_locks et i user db2) (\<lambda>(db3, removed).
     if expired + removed \<noteq> 0 then increment_generation env n db3 else Inr db3))))"

definition lock_snapshot_target ::
  "resource_lock \<Rightarrow> resource_lock_namespace \<Rightarrow> lock_db \<Rightarrow> unit aster_result" where
  "lock_snapshot_target l n db =
     (let ws = (case ns_workspace_type n of
                  Personal_Workspace \<Rightarrow> LW_Personal (ns_workspace_id n)
                | Team_Workspace \<Rightarrow> LW_Team (ns_workspace_id n)) in
      bind_result (root_from_model l) (\<lambda>root.
        lock_and_revalidate_target \<lparr>lt_workspace = ws, lt_root = root, lt_depth = rl_depth l\<rparr> db))"

datatype lock_selector = Sel_Token string | Sel_Id int

definition select_lock :: "lock_selector \<Rightarrow> lock_db \<Rightarrow> resource_lock option" where
  "select_lock sel db =
     (case sel of Sel_Token t \<Rightarrow> find_by_token t db | Sel_Id i \<Rightarrow> lock_find_by_id i db)"

definition same_root :: "resource_lock \<Rightarrow> resource_lock \<Rightarrow> bool" where
  "same_root a b =
     (rl_namespace_id a = rl_namespace_id b \<and> rl_root_kind a = rl_root_kind b
      \<and> rl_root_folder_id a = rl_root_folder_id b \<and> rl_root_file_id a = rl_root_file_id b)"

text \<open>
  Release, refresh and owner replacement share their transaction: the namespace of the snapshot read
  before is locked, the target revalidated, and the row read again and compared with the snapshot.
\<close>

definition with_current_lock ::
  "string \<Rightarrow> resource_lock \<Rightarrow> lock_selector \<Rightarrow> lock_db
   \<Rightarrow> (resource_lock \<times> resource_lock_namespace) aster_result" where
  "with_current_lock doing snapshot sel db =
     bind_result (namespace_lock_by_id (rl_namespace_id snapshot) db) (\<lambda>n.
     bind_result (lock_snapshot_target snapshot n db) (\<lambda>_.
     case select_lock sel db of
       None \<Rightarrow> Inl (record_not_found ''lock not found'')
     | Some current \<Rightarrow>
         if \<not> same_root current snapshot
         then Inl (resource_locked (''resource lock target changed while '' @ doing @ '' it''))
         else Inr (current, n)))"

definition release_snapshot_on ::
  "lock_env \<Rightarrow> resource_lock \<Rightarrow> lock_selector \<Rightarrow> lock_db \<Rightarrow> (lock_db \<times> resource_lock) aster_result" where
  "release_snapshot_on env snapshot sel db =
     bind_result (with_current_lock ''releasing'' snapshot sel db) (\<lambda>(current, n).
     bind_result (increment_generation env n (delete_by_id (rl_id current) db)) (\<lambda>db2.
     Inr (db2, current)))"

definition unlock_by_token_on :: "lock_env \<Rightarrow> string \<Rightarrow> lock_db \<Rightarrow> (lock_db \<times> resource_lock) aster_result" where
  "unlock_by_token_on env tok db =
     (case find_by_token tok db of
        None \<Rightarrow> Inl (record_not_found ''lock not found'')
      | Some snapshot \<Rightarrow> release_snapshot_on env snapshot (Sel_Token tok) db)"

definition force_unlock :: "lock_env \<Rightarrow> int \<Rightarrow> lock_db \<Rightarrow> (lock_db \<times> resource_lock) aster_result" where
  "force_unlock env i db =
     (case lock_find_by_id i db of
        None \<Rightarrow> Inl (record_not_found ''lock not found'')
      | Some snapshot \<Rightarrow> release_snapshot_on env snapshot (Sel_Id i) db)"

definition update_lock :: "int \<Rightarrow> (resource_lock \<Rightarrow> resource_lock) \<Rightarrow> lock_db \<Rightarrow> lock_db" where
  "update_lock i f db = db\<lparr>db_locks := fst (exec_one (\<lambda>l. rl_id l = i) f (db_locks db))\<rparr>"

definition refresh_by_token_on ::
  "lock_env \<Rightarrow> string \<Rightarrow> time option \<Rightarrow> lock_db \<Rightarrow> (lock_db \<times> resource_lock) aster_result" where
  "refresh_by_token_on env tok timeout db =
     (case find_by_token tok db of
        None \<Rightarrow> Inl (record_not_found ''lock not found'')
      | Some snapshot \<Rightarrow>
          bind_result (with_current_lock ''refreshing'' snapshot (Sel_Token tok) db) (\<lambda>(current, n).
          let f = (\<lambda>l. l\<lparr>rl_timeout_at := timeout\<rparr>) in
          bind_result (increment_generation env n (update_lock (rl_id current) f db)) (\<lambda>db2.
          Inr (db2, f current))))"

definition replace_owner_info_and_timeout_by_token_on ::
  "(lock_owner_info \<Rightarrow> string aster_result) \<Rightarrow> lock_env \<Rightarrow> string \<Rightarrow> lock_owner_info \<Rightarrow> time option \<Rightarrow> lock_db
   \<Rightarrow> (lock_db \<times> resource_lock) aster_result" where
  "replace_owner_info_and_timeout_by_token_on to_json env tok oi timeout db =
     bind_result (serialize_owner_info to_json (Some oi)) (\<lambda>owner.
     case find_by_token tok db of
       None \<Rightarrow> Inl (record_not_found ''lock not found'')
     | Some snapshot \<Rightarrow>
         bind_result (with_current_lock ''replacing'' snapshot (Sel_Token tok) db) (\<lambda>(current, n).
         let f = (\<lambda>l. l\<lparr>rl_owner_info := owner, rl_timeout_at := timeout\<rparr>) in
         bind_result (increment_generation env n (update_lock (rl_id current) f db)) (\<lambda>db2.
         Inr (db2, f current))))"

section \<open>Cleanup\<close>

definition purge_namespace ::
  "lock_env \<Rightarrow> (int \<Rightarrow> lock_db \<Rightarrow> lock_db \<times> nat) \<Rightarrow> int \<Rightarrow> lock_db \<Rightarrow> (lock_db \<times> nat) aster_result" where
  "purge_namespace env del n db =
     bind_result (namespace_lock_by_id n db) (\<lambda>ns.
     let (db1, affected) = del n db in
     if affected \<noteq> 0 then bind_result (increment_generation env ns db1) (\<lambda>db2. Inr (db2, affected))
     else Inr (db1, affected))"

fun purge_namespaces ::
  "lock_env \<Rightarrow> (int \<Rightarrow> lock_db \<Rightarrow> lock_db \<times> nat) \<Rightarrow> int list \<Rightarrow> lock_db \<Rightarrow> nat \<Rightarrow> (lock_db \<times> nat) aster_result" where
  "purge_namespaces env del [] db removed = Inr (db, removed)"
| "purge_namespaces env del (n # ns) db removed =
     bind_result (purge_namespace env del n db) (\<lambda>(db', k). purge_namespaces env del ns db' (removed + k))"

definition namespace_ids :: "resource_lock list \<Rightarrow> int list" where
  "namespace_ids ls = sorted_list_of_set (rl_namespace_id ` set ls)"

definition cleanup_expired :: "lock_env \<Rightarrow> lock_db \<Rightarrow> (lock_db \<times> nat) aster_result" where
  "cleanup_expired env db =
     purge_namespaces env (\<lambda>n. delete_expired_by_namespace_before n (le_now env))
       (namespace_ids (find_expired_before (le_now env) db)) db 0"

definition delete_all_held_by_on :: "lock_env \<Rightarrow> int \<Rightarrow> lock_db \<Rightarrow> (lock_db \<times> nat) aster_result" where
  "delete_all_held_by_on env holder db =
     purge_namespaces env (\<lambda>n. delete_by_owner_in_namespace n holder)
       (namespace_ids (find_by_owner holder db)) db 0"

section \<open>Enforcement\<close>

record submitted_lock_credentials =
  sc_holder_user_id :: "int option"
  sc_tokens :: "string list"

datatype lock_mutation_credentials =
  LC_None | LC_HolderUser int | LC_SubmittedTokens "string list"

fun submitted :: "lock_mutation_credentials \<Rightarrow> submitted_lock_credentials" where
  "submitted LC_None = \<lparr>sc_holder_user_id = None, sc_tokens = []\<rparr>"
| "submitted (LC_HolderUser u) = \<lparr>sc_holder_user_id = Some u, sc_tokens = []\<rparr>"
| "submitted (LC_SubmittedTokens ts) = \<lparr>sc_holder_user_id = None, sc_tokens = ts\<rparr>"

definition lock_covers_target :: "resource_lock \<Rightarrow> lock_target \<Rightarrow> int list \<Rightarrow> bool" where
  "lock_covers_target l target ancestor_ids =
     (case rl_root_kind l of
        RK_WorkspaceRoot \<Rightarrow> lt_root target = LR_WorkspaceRoot \<or> rl_depth l = Infinity
      | RK_File \<Rightarrow> (case lt_root target of LR_File i \<Rightarrow> rl_root_file_id l = Some i | _ \<Rightarrow> False)
      | RK_Folder \<Rightarrow>
          (case lt_root target of LR_Folder i \<Rightarrow> rl_root_folder_id l = Some i | _ \<Rightarrow> False)
          \<or> rl_depth l = Infinity
            \<and> (case rl_root_folder_id l of Some i \<Rightarrow> i \<in> set ancestor_ids | None \<Rightarrow> False))"

definition lock_is_satisfied :: "resource_lock \<Rightarrow> submitted_lock_credentials \<Rightarrow> bool" where
  "lock_is_satisfied l cr =
     ((\<exists>t \<in> set (sc_tokens cr). t = rl_token l)
      \<or> rl_origin l = Product
        \<and> (case sc_holder_user_id cr of Some u \<Rightarrow> rl_holder_user_id l = Some u | None \<Rightarrow> False))"

text \<open>
  The recursive query of the ancestor chain: the folder itself and its parents, as long as they
  belong to the workspace and are not deleted. The chain visits no folder twice, so a bound of the
  number of folders is enough.
\<close>

definition folder_in_scope :: "lock_workspace \<Rightarrow> folder_row \<Rightarrow> bool" where
  "folder_in_scope ws f =
     (case ws of
        LW_Personal u \<Rightarrow> fo_owner_user_id f = Some u
      | LW_Team t \<Rightarrow> fo_team_id f = Some t)"

fun ancestor_chain :: "nat \<Rightarrow> lock_workspace \<Rightarrow> folder_row list \<Rightarrow> int \<Rightarrow> int list" where
  "ancestor_chain 0 ws fs i = []"
| "ancestor_chain (Suc fuel) ws fs i =
     (case find_key fo_id i fs of
        Some f \<Rightarrow>
          if folder_in_scope ws f \<and> fo_deleted_at f = None
          then i # (case fo_parent_id f of Some p \<Rightarrow> ancestor_chain fuel ws fs p | None \<Rightarrow> [])
          else []
      | None \<Rightarrow> [])"

definition load_ancestor_ids :: "lock_workspace \<Rightarrow> int option \<Rightarrow> lock_db \<Rightarrow> int list" where
  "load_ancestor_ids ws parent db =
     (case parent of
        None \<Rightarrow> []
      | Some p \<Rightarrow> rev (ancestor_chain (length (db_folders db)) ws (db_folders db) p))"

fun enforce_locks ::
  "time \<Rightarrow> lock_target \<Rightarrow> int list \<Rightarrow> submitted_lock_credentials \<Rightarrow> resource_lock list \<Rightarrow> unit aster_result" where
  "enforce_locks now target anc cr [] = Inr ()"
| "enforce_locks now target anc cr (l # ls) =
     (if lock_expired now l \<or> \<not> lock_covers_target l target anc \<or> lock_is_satisfied l cr
      then enforce_locks now target anc cr ls
      else Inl (resource_locked ''resource is locked''))"

definition enforce_mutation_locks_in_namespace_on ::
  "time \<Rightarrow> int \<Rightarrow> lock_target \<Rightarrow> int option \<Rightarrow> submitted_lock_credentials \<Rightarrow> lock_db \<Rightarrow> unit aster_result" where
  "enforce_mutation_locks_in_namespace_on now n target parent cr db =
     enforce_locks now target (load_ancestor_ids (lt_workspace target) parent db) cr (locks_of_namespace n db)"

definition lock_workspace_for_mutation_on ::
  "lock_env \<Rightarrow> lock_workspace \<Rightarrow> lock_db \<Rightarrow> (lock_db \<times> resource_lock_namespace) aster_result" where
  "lock_workspace_for_mutation_on env ws db =
     (let (wt, wid) = persistence_key ws in ensure_and_lock env wt wid db)"

definition enforce_file_mutation_on ::
  "lock_env \<Rightarrow> file_row \<Rightarrow> submitted_lock_credentials \<Rightarrow> lock_db \<Rightarrow> (lock_db \<times> file_row) aster_result" where
  "enforce_file_mutation_on env file cr db =
     bind_result (from_file file) (\<lambda>ws.
     let target = \<lparr>lt_workspace = ws, lt_root = LR_File (fi_id file), lt_depth = Resource\<rparr> in
     bind_result (lock_workspace_for_mutation_on env ws db) (\<lambda>(db1, n).
     bind_result (file_lock_by_id (fi_id file) db1) (\<lambda>current.
     bind_result (from_file current) (\<lambda>ws'.
     if ws' \<noteq> ws
     then Inl (resource_locked ''file workspace changed during mutation lock validation'')
     else bind_result (enforce_mutation_locks_in_namespace_on (le_now env) (ns_id n) target
                         (fi_folder_id current) cr db1) (\<lambda>_. Inr (db1, current))))))"

definition enforce_folder_mutation_on ::
  "lock_env \<Rightarrow> folder_row \<Rightarrow> lock_depth \<Rightarrow> submitted_lock_credentials \<Rightarrow> lock_db
   \<Rightarrow> (lock_db \<times> folder_row) aster_result" where
  "enforce_folder_mutation_on env folder depth cr db =
     bind_result (from_folder folder) (\<lambda>ws.
     let target = \<lparr>lt_workspace = ws, lt_root = LR_Folder (fo_id folder), lt_depth = depth\<rparr> in
     bind_result (lock_workspace_for_mutation_on env ws db) (\<lambda>(db1, n).
     bind_result (folder_lock_by_id (fo_id folder) db1) (\<lambda>current.
     bind_result (from_folder current) (\<lambda>ws'.
     if ws' \<noteq> ws
     then Inl (resource_locked ''folder workspace changed during mutation lock validation'')
     else bind_result (enforce_mutation_locks_in_namespace_on (le_now env) (ns_id n) target
                         (fo_parent_id current) cr db1) (\<lambda>_. Inr (db1, current))))))"

definition membership_root ::
  "lock_workspace \<Rightarrow> int option \<Rightarrow> lock_db \<Rightarrow> (lock_root \<times> int option) aster_result" where
  "membership_root ws parent db =
     (case parent of
        Some i \<Rightarrow>
          bind_result (folder_lock_by_id i db) (\<lambda>p.
          bind_result (from_folder p) (\<lambda>ws'.
          if ws' \<noteq> ws
          then Inl (resource_locked ''parent folder workspace changed during membership mutation'')
          else Inr (LR_Folder i, fo_parent_id p)))
      | None \<Rightarrow>
          bind_result (case ws of LW_Personal u \<Rightarrow> user_find_by_id u db | LW_Team t \<Rightarrow> team_find_by_id t db)
            (\<lambda>_. Inr (LR_WorkspaceRoot, None)))"

definition enforce_collection_membership_mutation_on ::
  "lock_env \<Rightarrow> lock_workspace \<Rightarrow> int option \<Rightarrow> submitted_lock_credentials \<Rightarrow> lock_db \<Rightarrow> lock_db aster_result" where
  "enforce_collection_membership_mutation_on env ws parent cr db =
     bind_result (lock_workspace_for_mutation_on env ws db) (\<lambda>(db1, n).
     bind_result (membership_root ws parent db1) (\<lambda>(root, anc_parent).
     bind_result (enforce_mutation_locks_in_namespace_on (le_now env) (ns_id n)
        \<lparr>lt_workspace = ws, lt_root = root, lt_depth = Resource\<rparr> anc_parent cr db1) (\<lambda>_. Inr db1)))"

section \<open>Conflicts between stored locks\<close>

definition overlap_rows :: "resource_lock \<Rightarrow> resource_lock \<Rightarrow> bool" where
  "overlap_rows a b \<longleftrightarrow>
     (rl_root_kind a = rl_root_kind b \<and> rl_root_folder_id a = rl_root_folder_id b
        \<and> rl_root_file_id a = rl_root_file_id b)
     \<or> (rl_root_kind a = RK_WorkspaceRoot \<and> rl_depth a = Infinity)
     \<or> (rl_root_kind b = RK_WorkspaceRoot \<and> rl_depth b = Infinity)
     \<or> (\<exists>p q. rl_lockroot_path a = Some p \<and> rl_lockroot_path b = Some q
           \<and> (path_is_ancestor p q \<and> rl_depth a = Infinity \<or> path_is_ancestor q p \<and> rl_depth b = Infinity))"

definition conflict :: "resource_lock \<Rightarrow> resource_lock \<Rightarrow> bool" where
  "conflict a b \<longleftrightarrow>
     rl_namespace_id a = rl_namespace_id b \<and> overlap_rows a b
     \<and> (rl_mode a = Exclusive \<or> rl_mode b = Exclusive)"

definition lock_table_ok :: "lock_db \<Rightarrow> bool" where
  "lock_table_ok db \<longleftrightarrow>
     unique_key rl_id (db_locks db)
     \<and> (\<forall>a \<in> set (db_locks db). \<forall>b \<in> set (db_locks db). rl_id a \<noteq> rl_id b \<longrightarrow> \<not> conflict a b)"

lemma conflict_sym: "conflict a b = conflict b a"
  unfolding conflict_def overlap_rows_def by metis

lemma acquired_row_fields [simp]:
  "rl_id (acquired_row env n cmd owner) = le_new_lock_id env"
  "rl_namespace_id (acquired_row env n cmd owner) = n"
  "rl_token (acquired_row env n cmd owner) = ''urn:uuid:'' @ le_uuid env"
  "rl_mode (acquired_row env n cmd owner) = ac_mode cmd"
  "rl_depth (acquired_row env n cmd owner) = lt_depth (ac_target cmd)"
  "rl_origin (acquired_row env n cmd owner) = ac_origin cmd"
  "rl_holder_user_id (acquired_row env n cmd owner) = ac_holder_user_id cmd"
  "rl_timeout_at (acquired_row env n cmd owner) = map_option (\<lambda>d. le_now env + d) (ac_timeout cmd)"
  "rl_lockroot_path (acquired_row env n cmd owner) = ac_presentation_path cmd"
  "rl_root_kind (acquired_row env n cmd owner) = fst (persistence_parts (lt_root (ac_target cmd)))"
  "rl_root_folder_id (acquired_row env n cmd owner) = fst (snd (persistence_parts (lt_root (ac_target cmd))))"
  "rl_root_file_id (acquired_row env n cmd owner) = snd (snd (persistence_parts (lt_root (ac_target cmd))))"
  by (simp_all add: acquired_row_def Let_def split: prod.splits)

lemma persistence_parts_root: "fst (persistence_parts r) = RK_WorkspaceRoot \<longleftrightarrow> r = LR_WorkspaceRoot"
  by (cases r) auto

lemma locks_overlap_rows:
  "locks_overlap e (ac_target cmd) (ac_presentation_path cmd) \<longleftrightarrow> overlap_rows e (acquired_row env n cmd owner)"
  unfolding locks_overlap_def overlap_rows_def acquired_row_fields persistence_parts_root prod_eq_iff fst_conv snd_conv
  by (simp split: option.splits) blast

lemma find_key_locks_of_namespace:
  "set (locks_of_namespace n db) = {l \<in> set (db_locks db). rl_namespace_id l = n}"
  by (auto simp: locks_of_namespace_def select_where_def)

lemma scan_existing_Inr:
  "scan_existing now target mode path es db = Inr db' \<longleftrightarrow>
     (\<forall>e \<in> set es. \<not> lock_expired now e \<longrightarrow>
        \<not> (locks_overlap e target path \<and> (mode = Exclusive \<or> rl_mode e = Exclusive)))
     \<and> db' = db\<lparr>db_locks := filter (\<lambda>l. \<forall>e \<in> set es. lock_expired now e \<longrightarrow> rl_id l \<noteq> rl_id e) (db_locks db)\<rparr>"
  by (induction es arbitrary: db)
    (auto simp: delete_by_id_def delete_locks_def intro: filter_cong)

lemma scan_existing_error:
  "scan_existing now target mode path es db = Inl err \<Longrightarrow> err = resource_locked ''resource is already locked''"
  by (induction es arbitrary: db) (auto split: if_splits)

text \<open>Rows may only disappear, or change in columns that no overlap depends on.\<close>

definition lock_shape ::
  "resource_lock \<Rightarrow> int \<times> int \<times> lock_root_kind \<times> int option \<times> int option \<times> lock_depth \<times> lock_mode \<times> string option" where
  "lock_shape l =
     (rl_id l, rl_namespace_id l, rl_root_kind l, rl_root_folder_id l, rl_root_file_id l, rl_depth l,
      rl_mode l, rl_lockroot_path l)"

definition locks_shrink :: "lock_db \<Rightarrow> lock_db \<Rightarrow> bool" where
  "locks_shrink db db' \<longleftrightarrow> subseq (map lock_shape (db_locks db')) (map lock_shape (db_locks db))"

lemma subseq_set: "subseq xs ys \<Longrightarrow> set xs \<subseteq> set ys"
  by (induction rule: list_emb.induct) auto

lemma subseq_distinct: "subseq xs ys \<Longrightarrow> distinct ys \<Longrightarrow> distinct xs"
  by (induction rule: list_emb.induct) (auto dest: subseq_set)

lemma conflict_shape:
  "lock_shape a = lock_shape a' \<Longrightarrow> lock_shape b = lock_shape b' \<Longrightarrow> conflict a b = conflict a' b'"
  by (simp add: lock_shape_def conflict_def overlap_rows_def)

lemma map_id_shape: "map rl_id t = map fst (map lock_shape t)"
  by (simp add: lock_shape_def comp_def)

lemma locks_shrink_ok:
  assumes "locks_shrink db db'" "lock_table_ok db"
  shows "lock_table_ok db'"
proof -
  have sub: "subseq (map lock_shape (db_locks db')) (map lock_shape (db_locks db))"
    using assms(1) by (simp add: locks_shrink_def)
  have old: "\<exists>y \<in> set (db_locks db). lock_shape y = lock_shape x" if "x \<in> set (db_locks db')" for x
  proof -
    have "lock_shape x \<in> lock_shape ` set (db_locks db)" using subseq_set [OF sub] that by auto
    then obtain y where "y \<in> set (db_locks db)" "lock_shape x = lock_shape y" by (rule imageE)
    then show ?thesis by (auto intro: sym)
  qed
  have "unique_key rl_id (db_locks db')"
    using assms(2) subseq_distinct [OF subseq_map [OF sub, of fst]]
    by (simp add: lock_table_ok_def unique_key_def map_id_shape)
  moreover have "\<not> conflict a' b'"
    if m: "a' \<in> set (db_locks db')" "b' \<in> set (db_locks db')" "rl_id a' \<noteq> rl_id b'" for a' b'
  proof -
    obtain a b where ab: "a \<in> set (db_locks db)" "lock_shape a = lock_shape a'"
        "b \<in> set (db_locks db)" "lock_shape b = lock_shape b'"
      using old [OF m(1)] old [OF m(2)] by blast
    then have "rl_id a \<noteq> rl_id b" using m(3) by (simp add: lock_shape_def)
    then have "\<not> conflict a b" using ab assms(2) by (simp add: lock_table_ok_def)
    then show ?thesis using conflict_shape [OF ab(2,4)] by simp
  qed
  ultimately show ?thesis by (simp add: lock_table_ok_def)
qed

lemma locks_shrink_refl [simp]: "locks_shrink db db"
  by (simp add: locks_shrink_def)

lemma locks_shrink_same: "db_locks db' = db_locks db \<Longrightarrow> locks_shrink db db'"
  by (simp add: locks_shrink_def)

lemma locks_shrink_trans: "locks_shrink a b \<Longrightarrow> locks_shrink b c \<Longrightarrow> locks_shrink a c"
  unfolding locks_shrink_def by (rule subseq_order.trans)

lemma delete_locks_shrink: "locks_shrink db (fst (delete_locks p db))"
  by (simp add: locks_shrink_def delete_locks_def subseq_map)

lemma increment_generation_locks:
  "increment_generation env n db = Inr db' \<Longrightarrow> db_locks db' = db_locks db"
  by (auto simp: increment_generation_def split: option.splits)

lemma ensure_and_lock_locks:
  "ensure_and_lock env wt wid db = Inr (db', n) \<Longrightarrow> db_locks db' = db_locks db"
  by (auto simp: ensure_and_lock_def Let_def split: option.splits)

lemma lock_target_namespace_locks:
  "lock_target_namespace env ws db = Inr (db', n) \<Longrightarrow> db_locks db' = db_locks db"
  by (cases ws) (auto simp: lock_target_namespace_def result_simps dest: ensure_and_lock_locks)

section \<open>Acquisition and release\<close>

lemma acquire_after_Inr:
  "acquire_after_namespace_lock_on to_json env n cmd db = Inr (db', l) \<longleftrightarrow>
   (\<exists>owner db1.
      serialize_owner_info to_json (ac_owner_info cmd) = Inr owner
      \<and> (ns_workspace_type n, ns_workspace_id n) = persistence_key (lt_workspace (ac_target cmd))
      \<and> lock_and_revalidate_target (ac_target cmd) db = Inr ()
      \<and> scan_existing (le_now env) (ac_target cmd) (ac_mode cmd) (ac_presentation_path cmd)
           (locks_of_namespace (ns_id n) db) db = Inr db1
      \<and> l = acquired_row env (ns_id n) cmd owner
      \<and> increment_generation env n (db1\<lparr>db_locks := db_locks db1 @ [l]\<rparr>) = Inr db')"
  by (auto simp: acquire_after_namespace_lock_on_def Let_def bind_result_Inr_iff split: if_splits)

lemma acquire_after_locks:
  assumes "acquire_after_namespace_lock_on to_json env n cmd db = Inr (db', l)" "unique_key rl_id (db_locks db)"
  shows "db_locks db' =
      filter (\<lambda>x. \<not> (rl_namespace_id x = ns_id n \<and> lock_expired (le_now env) x)) (db_locks db) @ [l]"
    and "\<exists>owner. l = acquired_row env (ns_id n) cmd owner"
    and "\<forall>e \<in> set (db_locks db). rl_namespace_id e = ns_id n \<longrightarrow> \<not> lock_expired (le_now env) e
           \<longrightarrow> \<not> conflict e l"
proof -
  obtain owner db1 where l: "l = acquired_row env (ns_id n) cmd owner"
    and scan: "scan_existing (le_now env) (ac_target cmd) (ac_mode cmd) (ac_presentation_path cmd)
           (locks_of_namespace (ns_id n) db) db = Inr db1"
    and inc: "increment_generation env n (db1\<lparr>db_locks := db_locks db1 @ [l]\<rparr>) = Inr db'"
    using assms(1) unfolding acquire_after_Inr by blast
  have "(\<forall>e \<in> set (locks_of_namespace (ns_id n) db). lock_expired (le_now env) e \<longrightarrow> rl_id x \<noteq> rl_id e)
      \<longleftrightarrow> \<not> (rl_namespace_id x = ns_id n \<and> lock_expired (le_now env) x)" if "x \<in> set (db_locks db)" for x
    using that assms(2) by (auto simp: find_key_locks_of_namespace dest: unique_key_inj)
  then have "db_locks db1 =
      filter (\<lambda>x. \<not> (rl_namespace_id x = ns_id n \<and> lock_expired (le_now env) x)) (db_locks db)"
    using scan by (auto simp: scan_existing_Inr intro!: filter_cong [OF refl])
  then show "db_locks db' =
      filter (\<lambda>x. \<not> (rl_namespace_id x = ns_id n \<and> lock_expired (le_now env) x)) (db_locks db) @ [l]"
    using increment_generation_locks [OF inc] by simp
  show "\<exists>owner. l = acquired_row env (ns_id n) cmd owner" using l by blast
  show "\<forall>e \<in> set (db_locks db). rl_namespace_id e = ns_id n \<longrightarrow> \<not> lock_expired (le_now env) e
      \<longrightarrow> \<not> conflict e l"
    using scan l
    by (auto simp: scan_existing_Inr find_key_locks_of_namespace conflict_def
        locks_overlap_rows [where env = env and n = "ns_id n" and owner = owner])
qed

lemma acquire_after_ok:
  assumes "acquire_after_namespace_lock_on to_json env n cmd db = Inr (db', l)"
    and "lock_table_ok db" "le_new_lock_id env \<notin> rl_id ` set (db_locks db)"
  shows "lock_table_ok db'"
proof -
  have u: "unique_key rl_id (db_locks db)" using assms(2) by (simp add: lock_table_ok_def)
  note locks = acquire_after_locks [OF assms(1) u]
  obtain owner where l: "l = acquired_row env (ns_id n) cmd owner" using locks(2) by blast
  have "\<not> conflict e l" if "e \<in> set (db_locks db')" "e \<noteq> l" for e
    using that locks(1,3) l by (auto simp: conflict_def)
  moreover have "\<not> conflict l e" if "e \<in> set (db_locks db')" "e \<noteq> l" for e
    using calculation [OF that] conflict_sym by blast
  moreover have "unique_key rl_id (db_locks db')"
    using u assms(3) l by (auto simp: locks(1) unique_key_def distinct_map_filter)
  ultimately show ?thesis
    using assms(2) locks(1) unfolding lock_table_ok_def by (auto; blast)
qed

lemma acquire_on_ok:
  assumes "acquire_on to_json env cmd db = Inr (db', l)"
    and "lock_table_ok db" "le_new_lock_id env \<notin> rl_id ` set (db_locks db)"
  shows "lock_table_ok db'"
proof -
  obtain db1 n where 1: "lock_target_namespace env (lt_workspace (ac_target cmd)) db = Inr (db1, n)"
    "acquire_after_namespace_lock_on to_json env n cmd db1 = Inr (db', l)"
    using assms(1) by (auto simp: acquire_on_def result_simps split: prod.splits)
  have "db_locks db1 = db_locks db" using lock_target_namespace_locks [OF 1(1)] .
  then show ?thesis
    using acquire_after_ok [OF 1(2)] locks_shrink_ok [OF locks_shrink_same assms(2)] assms(3) by simp
qed

lemma lock_entity_ok:
  assumes "lock_entity to_json path env et i owner oi timeout db = Inr (db', l)"
    and "lock_table_ok db" "le_new_lock_id env \<notin> rl_id ` set (db_locks db)"
  shows "lock_table_ok db'"
proof -
  obtain target db1 n p where 1: "lock_target_namespace env (lt_workspace target) db = Inr (db1, n)"
    "acquire_after_namespace_lock_on to_json env n
       \<lparr>ac_target = target, ac_mode = Exclusive, ac_origin = origin_for_owner_info oi,
        ac_holder_user_id = owner, ac_owner_info = oi, ac_timeout = timeout,
        ac_presentation_path = Some p\<rparr> db1 = Inr (db', l)"
    using assms(1) by (auto simp: lock_entity_def result_simps split: prod.splits)
  have "db_locks db1 = db_locks db" using lock_target_namespace_locks [OF 1(1)] .
  then show ?thesis
    using acquire_after_ok [OF 1(2)] locks_shrink_ok [OF locks_shrink_same assms(2)] assms(3) by simp
qed

lemma delete_by_shrink [simp]:
  "locks_shrink db (delete_by_id i db)"
  "locks_shrink db (delete_by_entity et i db)"
  "locks_shrink db (delete_by_entity_and_owner et i u db)"
  "locks_shrink db (fst (delete_expired_by_entity_before et i c db))"
  "locks_shrink db (fst (delete_expired_by_namespace_before n c db))"
  "locks_shrink db (fst (delete_by_owner_in_namespace n u db))"
  by (simp_all add: delete_by_id_def delete_by_entity_def delete_by_entity_and_owner_def
      delete_expired_by_entity_before_def delete_expired_by_namespace_before_def
      delete_by_owner_in_namespace_def delete_locks_shrink)

lemma increment_generation_shrink: "increment_generation env n db = Inr db' \<Longrightarrow> locks_shrink db db'"
  by (simp add: increment_generation_locks locks_shrink_same)

lemma update_lock_shrink: "(\<And>l. lock_shape (f l) = lock_shape l) \<Longrightarrow> locks_shrink db (update_lock i f db)"
  by (simp add: locks_shrink_def update_lock_def exec_one_def comp_def if_distrib cong: if_cong)

lemma remove_released_shrink: "remove_released_locks et i u db = Inr (db', k) \<Longrightarrow> locks_shrink db db'"
  by (auto simp: remove_released_locks_def Let_def result_simps split: if_splits)

lemma unlock_InrD:
  assumes "unlock env et i u db = Inr db'"
  shows "\<exists>target db1 n db3 k.
     resolve_entity_target et i db = Inr target
     \<and> lock_target_namespace env (lt_workspace target) db = Inr (db1, n)
     \<and> remove_released_locks et i u (fst (delete_expired_by_entity_before et i (le_now env) db1)) = Inr (db3, k)
     \<and> (snd (delete_expired_by_entity_before et i (le_now env) db1) + k \<noteq> 0
           \<and> increment_generation env n db3 = Inr db'
        \<or> snd (delete_expired_by_entity_before et i (le_now env) db1) + k = 0 \<and> db' = db3)"
  using assms unfolding unlock_def Let_def case_prod_beta bind_result_Inr_iff
  by (auto split: if_splits)

lemma unlock_shrink:
  assumes "unlock env et i u db = Inr db'"
  shows "locks_shrink db db'"
proof -
  obtain target db1 n db3 k where
    "resolve_entity_target et i db = Inr target" and
    1: "lock_target_namespace env (lt_workspace target) db = Inr (db1, n)" and
    2: "remove_released_locks et i u (fst (delete_expired_by_entity_before et i (le_now env) db1)) = Inr (db3, k)" and
    3: "increment_generation env n db3 = Inr db' \<or> db' = db3"
    using unlock_InrD [OF assms] by blast
  have "locks_shrink db db1" using lock_target_namespace_locks [OF 1] by (rule locks_shrink_same)
  moreover have "locks_shrink db1 db3"
    using remove_released_shrink [OF 2] delete_by_shrink(4) locks_shrink_trans by blast
  moreover have "locks_shrink db3 db'" using 3 increment_generation_shrink by auto
  ultimately show ?thesis using locks_shrink_trans by blast
qed

lemma release_snapshot_shrink: "release_snapshot_on env s sel db = Inr (db', l) \<Longrightarrow> locks_shrink db db'"
  by (auto simp: release_snapshot_on_def result_simps split: prod.splits
      intro: locks_shrink_trans [OF delete_by_shrink(1) increment_generation_shrink])

lemma update_by_token_shrink:
  assumes "(case find_by_token tok db of
        None \<Rightarrow> Inl e
      | Some snapshot \<Rightarrow>
          bind_result (with_current_lock what snapshot (Sel_Token tok) db) (\<lambda>(current, n).
          bind_result (increment_generation env n (update_lock (rl_id current) f db)) (\<lambda>db2.
          Inr (db2, f current)))) = Inr (db', l)"
    and "\<And>l. lock_shape (f l) = lock_shape l"
  shows "locks_shrink db db'"
  using assms(1)
  by (auto simp: result_simps split: option.splits prod.splits
      intro: locks_shrink_trans [OF update_lock_shrink [OF assms(2)] increment_generation_shrink])

lemma refresh_shrink: "refresh_by_token_on env tok timeout db = Inr (db', l) \<Longrightarrow> locks_shrink db db'"
  unfolding refresh_by_token_on_def Let_def
  by (erule update_by_token_shrink) (simp add: lock_shape_def)

lemma replace_shrink:
  "replace_owner_info_and_timeout_by_token_on to_json env tok oi timeout db = Inr (db', l) \<Longrightarrow> locks_shrink db db'"
  unfolding replace_owner_info_and_timeout_by_token_on_def Let_def bind_result_Inr_iff [of "serialize_owner_info _ _"]
  by (elim exE conjE, erule update_by_token_shrink) (simp add: lock_shape_def)

lemma purge_namespaces_shrink:
  assumes "\<And>n db. locks_shrink db (fst (del n db))"
  shows "purge_namespaces env del ns db k = Inr (db', k') \<Longrightarrow> locks_shrink db db'"
proof (induction ns arbitrary: db k)
  case (Cons n ns)
  then obtain db1 j where 1: "purge_namespace env del n db = Inr (db1, j)" "locks_shrink db1 db'"
    by (auto simp: result_simps split: prod.splits)
  have "locks_shrink db db1"
    using 1(1) assms [where n = n and db = db]
    by (auto simp: purge_namespace_def Let_def result_simps case_prod_beta split: if_splits
        intro: locks_shrink_trans increment_generation_shrink)
  then show ?case using 1(2) locks_shrink_trans by blast
qed simp

section \<open>The lock service as a transition system\<close>

inductive lock_step ::
  "(lock_owner_info \<Rightarrow> string aster_result) \<Rightarrow> (entity_type \<Rightarrow> int \<Rightarrow> lock_db \<Rightarrow> string aster_result)
   \<Rightarrow> lock_db \<Rightarrow> lock_db \<Rightarrow> bool" for to_json path where
  acquire: "acquire_on to_json env cmd db = Inr (db', l) \<Longrightarrow> le_new_lock_id env \<notin> rl_id ` set (db_locks db)
            \<Longrightarrow> lock_step to_json path db db'"
| lock: "lock_entity to_json path env et i owner oi timeout db = Inr (db', l)
         \<Longrightarrow> le_new_lock_id env \<notin> rl_id ` set (db_locks db) \<Longrightarrow> lock_step to_json path db db'"
| unlock: "unlock env et i u db = Inr db' \<Longrightarrow> lock_step to_json path db db'"
| release: "release_snapshot_on env snapshot sel db = Inr (db', l) \<Longrightarrow> lock_step to_json path db db'"
| refresh: "refresh_by_token_on env tok timeout db = Inr (db', l) \<Longrightarrow> lock_step to_json path db db'"
| replace: "replace_owner_info_and_timeout_by_token_on to_json env tok oi timeout db = Inr (db', l)
            \<Longrightarrow> lock_step to_json path db db'"
| cleanup: "cleanup_expired env db = Inr (db', k) \<Longrightarrow> lock_step to_json path db db'"
| revoke: "delete_all_held_by_on env holder db = Inr (db', k) \<Longrightarrow> lock_step to_json path db db'"

lemma cleanup_expired_shrink: "cleanup_expired env db = Inr (db', k) \<Longrightarrow> locks_shrink db db'"
  unfolding cleanup_expired_def by (rule purge_namespaces_shrink) simp_all

lemma delete_all_held_by_shrink: "delete_all_held_by_on env u db = Inr (db', k) \<Longrightarrow> locks_shrink db db'"
  unfolding delete_all_held_by_on_def by (rule purge_namespaces_shrink) simp_all

lemma lock_step_ok: "lock_step to_json path db db' \<Longrightarrow> lock_table_ok db \<Longrightarrow> lock_table_ok db'"
  by (induction rule: lock_step.induct)
    (auto intro: acquire_on_ok lock_entity_ok locks_shrink_ok dest: unlock_shrink release_snapshot_shrink
      refresh_shrink replace_shrink cleanup_expired_shrink delete_all_held_by_shrink)

interpretation lock_system: step_system "lock_step to_json path" lock_table_ok for to_json path
  by unfold_locales (rule lock_step_ok)

text \<open>
  (C4) Mutual exclusion of locks. Starting from a table without conflicting locks, no sequence of
  acquisitions, releases, refreshes, owner replacements, expiry cleanups and revocations ever
  stores two locks of one namespace that overlap while one of them is exclusive. This covers expired
  rows too: an expired lock can be refreshed at any later time without colliding with a lock that was
  granted in between.
\<close>

theorem locks_never_conflict:
  assumes "lock_table_ok db" "(lock_step to_json path)\<^sup>*\<^sup>* db db'"
    and "a \<in> set (db_locks db')" "b \<in> set (db_locks db')" "rl_id a \<noteq> rl_id b"
  shows "\<not> (rl_namespace_id a = rl_namespace_id b \<and> overlap_rows a b
            \<and> (rl_mode a = Exclusive \<or> rl_mode b = Exclusive))"
  using lock_system.reach_inv [OF assms(2,1)] assms(3-) by (simp add: lock_table_ok_def conflict_def)


section \<open>Enforcement of locks on mutations\<close>

lemma enforce_locks_Inr:
  "enforce_locks now target anc cr ls = Inr () \<longleftrightarrow>
     (\<forall>l \<in> set ls. \<not> lock_expired now l \<longrightarrow> lock_covers_target l target anc \<longrightarrow> lock_is_satisfied l cr)"
  by (induction ls) auto

lemma enforce_locks_Inl:
  "enforce_locks now target anc cr ls = Inl err \<Longrightarrow> err = resource_locked ''resource is locked''"
  by (induction ls) (auto split: if_splits)

lemma enforce_in_namespace_Inr:
  "enforce_mutation_locks_in_namespace_on now n target parent cr db = Inr () \<longleftrightarrow>
     (\<forall>l \<in> set (db_locks db). rl_namespace_id l = n \<longrightarrow> \<not> lock_expired now l
        \<longrightarrow> lock_covers_target l target (load_ancestor_ids (lt_workspace target) parent db)
        \<longrightarrow> lock_is_satisfied l cr)"
  by (auto simp: enforce_mutation_locks_in_namespace_on_def enforce_locks_Inr find_key_locks_of_namespace)

lemma ensure_and_lock_existing:
  "find_by_workspace wt wid db = Some n \<Longrightarrow> ensure_and_lock env wt wid db = Inr (db, n)"
  by (simp add: ensure_and_lock_def)

text \<open>
  (C22) Enforcement is exact for a file whose workspace already has a lock namespace: the mutation is
  admitted if and only if every unexpired lock of the namespace that covers the file (a lock on the
  file itself, a deep lock on one of its ancestor folders, or a deep lock on the workspace root) is
  satisfied by the submitted credentials.
\<close>

theorem enforce_file_mutation_exact:
  assumes "find_key fi_id (fi_id file) (db_files db) = Some file"
    and "from_file file = Inr ws"
    and "find_by_workspace (fst (persistence_key ws)) (snd (persistence_key ws)) db = Some n"
  shows "is_ok (enforce_file_mutation_on env file cr db) \<longleftrightarrow>
     (\<forall>l \<in> set (db_locks db). rl_namespace_id l = ns_id n \<and> \<not> lock_expired (le_now env) l
        \<and> (rl_root_kind l = RK_File \<and> rl_root_file_id l = Some (fi_id file)
           \<or> rl_root_kind l = RK_Folder \<and> rl_depth l = Infinity
             \<and> (\<exists>f \<in> set (load_ancestor_ids ws (fi_folder_id file) db). rl_root_folder_id l = Some f)
           \<or> rl_root_kind l = RK_WorkspaceRoot \<and> rl_depth l = Infinity)
        \<longrightarrow> lock_is_satisfied l cr)"
proof -
  let ?target = "\<lparr>lt_workspace = ws, lt_root = LR_File (fi_id file), lt_depth = Resource\<rparr>"
  have cov: "lock_covers_target l ?target anc \<longleftrightarrow>
      (rl_root_kind l = RK_File \<and> rl_root_file_id l = Some (fi_id file)
       \<or> rl_root_kind l = RK_Folder \<and> rl_depth l = Infinity \<and> (\<exists>f \<in> set anc. rl_root_folder_id l = Some f)
       \<or> rl_root_kind l = RK_WorkspaceRoot \<and> rl_depth l = Infinity)" for l anc
    by (cases "rl_root_kind l") (auto simp: lock_covers_target_def split: option.splits)
  have "is_ok (enforce_file_mutation_on env file cr db) \<longleftrightarrow>
      enforce_mutation_locks_in_namespace_on (le_now env) (ns_id n) ?target (fi_folder_id file) cr db = Inr ()"
    using assms
    by (auto simp: enforce_file_mutation_on_def lock_workspace_for_mutation_on_def Let_def case_prod_beta
        ensure_and_lock_existing file_lock_by_id_def file_find_by_id_def result_simps)
  then show ?thesis by (simp add: enforce_in_namespace_Inr cov) blast
qed

text \<open>
  A granted exclusive lock on a file protects it: right after the acquisition, and until the lock
  expires, a mutation of the file is refused with \<open>ResourceLocked\<close> unless it submits the lock's token
  or, for a lock taken by the product itself, comes from the lock's holder.
\<close>

theorem acquired_lock_blocks_mutation:
  assumes "acquire_on to_json env cmd db = Inr (db', l)"
    and "unique_key rl_id (db_locks db)"
    and "lt_root (ac_target cmd) = LR_File (fi_id file)" "lt_workspace (ac_target cmd) = ws"
    and "find_key fi_id (fi_id file) (db_files db') = Some file" "from_file file = Inr ws"
    and "find_by_workspace (fst (persistence_key ws)) (snd (persistence_key ws)) db' = Some n"
    and "ns_id n = rl_namespace_id l"
    and "\<not> null_le (rl_timeout_at l) (le_now env')"
    and "rl_token l \<notin> set (sc_tokens cr)"
    and "ac_origin cmd = Product \<longrightarrow> sc_holder_user_id cr = None \<or> sc_holder_user_id cr \<noteq> ac_holder_user_id cmd"
  shows "\<not> is_ok (enforce_file_mutation_on env' file cr db')"
proof -
  obtain db1 n0 where 1: "lock_target_namespace env (lt_workspace (ac_target cmd)) db = Inr (db1, n0)"
    "acquire_after_namespace_lock_on to_json env n0 cmd db1 = Inr (db', l)"
    using assms(1) by (auto simp: acquire_on_def result_simps split: prod.splits)
  have u: "unique_key rl_id (db_locks db1)"
    using assms(2) lock_target_namespace_locks [OF 1(1)] by simp
  obtain owner where l: "l = acquired_row env (ns_id n0) cmd owner"
    using acquire_after_locks(2) [OF 1(2) u] by blast
  have "l \<in> set (db_locks db')" using acquire_after_locks(1) [OF 1(2) u] by simp
  moreover have "rl_root_kind l = RK_File" "rl_root_file_id l = Some (fi_id file)"
    using l assms(3) by simp_all
  moreover have "\<not> lock_is_satisfied l cr"
    using assms(10,11) l by (auto simp: lock_is_satisfied_def split: option.splits)
  ultimately show ?thesis
    using enforce_file_mutation_exact [OF assms(5-7), of env' cr] assms(8,9)
    by (auto simp: lock_expired_def)
qed

section \<open>Authority to release\<close>

text \<open>
  Unlocking respects ownership: a successful unlock of an entity by a user who does not own the
  entity only removes locks that user holds or that had expired. Every unexpired lock of another
  holder is still in the table.
\<close>

theorem unlock_respects_holders:
  assumes "unlock env et i u db = Inr db'"
    and "check_entity_ownership et i u db = Inr False"
    and "l \<in> set (db_locks db)" "rl_holder_user_id l \<noteq> Some u" "\<not> lock_expired (le_now env) l"
  shows "l \<in> set (db_locks db')"
proof -
  obtain target db1 n db3 k where r: "resolve_entity_target et i db = Inr target" and
    1: "lock_target_namespace env (lt_workspace target) db = Inr (db1, n)" and
    2: "remove_released_locks et i u (fst (delete_expired_by_entity_before et i (le_now env) db1)) = Inr (db3, k)" and
    3: "increment_generation env n db3 = Inr db' \<or> db' = db3"
    using unlock_InrD [OF assms(1)] by blast
  let ?db2 = "fst (delete_expired_by_entity_before et i (le_now env) db1)"
  have same: "db_files db1 = db_files db" "db_folders db1 = db_folders db" "db_kind db1 = db_kind db"
    using 1 by (auto simp: lock_target_namespace_def ensure_and_lock_def Let_def result_simps
        case_prod_beta split: option.splits)
  have own: "check_entity_ownership et i u ?db2 = Inr False"
    using assms(2) same
    by (auto simp: check_entity_ownership_def file_find_by_id_def folder_find_by_id_def
        delete_expired_by_entity_before_def delete_locks_def split: entity_type.splits)
  have "l \<in> set (db_locks ?db2)"
    using assms(3,5) lock_target_namespace_locks [OF 1]
    by (auto simp: delete_expired_by_entity_before_def delete_locks_def lock_expired_def)
  then have "l \<in> set (db_locks db3)"
    using 2 own assms(4)
    by (auto simp: remove_released_locks_def Let_def delete_by_entity_and_owner_def delete_locks_def
        split: if_splits)
  then show ?thesis using 3 increment_generation_locks by auto
qed

section \<open>Generations and expiry\<close>

definition generation_of :: "int \<Rightarrow> lock_db \<Rightarrow> int option" where
  "generation_of n db = map_option ns_generation (find_key ns_id n (db_namespaces db))"

lemma increment_generation_find:
  assumes "increment_generation env n db = Inr db'"
  shows "find_key ns_id j (db_namespaces db') =
     map_option (\<lambda>x. if ns_id x = ns_id n
                     then x\<lparr>ns_generation := ns_generation n + 1, ns_updated_at := le_now env\<rparr> else x)
       (find_key ns_id j (db_namespaces db))"
proof -
  have "db_namespaces db' = fst (update_where (\<lambda>x. ns_id x = ns_id n)
      (\<lambda>x. x\<lparr>ns_generation := ns_generation n + 1, ns_updated_at := le_now env\<rparr>) (db_namespaces db))"
    using assms by (auto simp: increment_generation_def split: option.splits)
  then show ?thesis by (simp only:) (rule find_key_update_where, simp)
qed

lemma increment_generation_bumps:
  assumes "increment_generation env n db = Inr db'" "find_key ns_id (ns_id n) (db_namespaces db) = Some n"
  shows "generation_of j db' = (if j = ns_id n then Some (ns_generation n + 1) else generation_of j db)"
proof (cases "find_key ns_id j (db_namespaces db)")
  case None
  then show ?thesis
    using increment_generation_find [OF assms(1), of j] assms(2) by (auto simp: generation_of_def)
next
  case (Some x)
  then have "ns_id x = j" using find_key_SomeD by metis
  then show ?thesis
    using increment_generation_find [OF assms(1), of j] assms(2) Some by (auto simp: generation_of_def)
qed

lemma locks_of_namespace_cong:
  "filter (\<lambda>l. rl_namespace_id l = m) (db_locks db') = filter (\<lambda>l. rl_namespace_id l = m) (db_locks db)
   \<Longrightarrow> locks_of_namespace m db' = locks_of_namespace m db"
  by (simp add: locks_of_namespace_def select_where_def)

lemma with_current_lock_InrD:
  assumes "with_current_lock what s sel db = Inr (current, n)"
  shows "find_key ns_id (ns_id n) (db_namespaces db) = Some n" "rl_namespace_id current = ns_id n"
    "current \<in> set (db_locks db)"
proof -
  have n: "find_key ns_id (rl_namespace_id s) (db_namespaces db) = Some n"
    and c: "select_lock sel db = Some current" "same_root current s"
    using assms by (auto simp: with_current_lock_def namespace_lock_by_id_def result_simps
        split: option.splits if_splits)
  then show "find_key ns_id (ns_id n) (db_namespaces db) = Some n" "rl_namespace_id current = ns_id n"
    using find_key_SomeD [OF n] by (auto simp: same_root_def)
  show "current \<in> set (db_locks db)"
    using c(1) by (auto simp: select_lock_def find_by_token_def lock_find_by_id_def find_key_def
        find_Some_iff split: lock_selector.splits)
qed

lemma update_lock_locks:
  "db_locks (update_lock i f db) = map (\<lambda>l. if rl_id l = i then f l else l) (db_locks db)"
  by (simp add: update_lock_def exec_one_simps)

lemma filter_map_other:
  assumes "\<forall>l \<in> set t. rl_id l = k \<longrightarrow> rl_namespace_id l \<noteq> m" "\<And>l. rl_namespace_id (f l) = rl_namespace_id l"
  shows "filter (\<lambda>l. rl_namespace_id l = m) (map (\<lambda>l. if rl_id l = k then f l else l) t)
           = filter (\<lambda>l. rl_namespace_id l = m) t"
  using assms(1) by (induction t) (auto simp: assms(2))

lemma filter_other_namespace:
  assumes "unique_key rl_id t" "c \<in> set t" "m \<noteq> rl_namespace_id c"
  shows "filter (\<lambda>l. rl_id l \<noteq> rl_id c \<and> rl_namespace_id l = m) t = filter (\<lambda>l. rl_namespace_id l = m) t"
    and "(\<And>l. rl_namespace_id (f l) = rl_namespace_id l)
       \<Longrightarrow> filter (\<lambda>l. rl_namespace_id l = m) (map (\<lambda>l. if rl_id l = rl_id c then f l else l) t)
           = filter (\<lambda>l. rl_namespace_id l = m) t"
proof -
  have only: "\<forall>l \<in> set t. rl_id l = rl_id c \<longrightarrow> rl_namespace_id l \<noteq> m"
    using assms unique_key_inj by metis
  show "filter (\<lambda>l. rl_id l \<noteq> rl_id c \<and> rl_namespace_id l = m) t = filter (\<lambda>l. rl_namespace_id l = m) t"
    using only by (auto intro!: filter_cong [OF refl])
  show "filter (\<lambda>l. rl_namespace_id l = m) (map (\<lambda>l. if rl_id l = rl_id c then f l else l) t)
           = filter (\<lambda>l. rl_namespace_id l = m) t" if "\<And>l. rl_namespace_id (f l) = rl_namespace_id l"
    using only by (rule filter_map_other) (rule that)
qed

text \<open>
  The namespace generation identifies the lock set. Each of acquiring, releasing and refreshing
  a lock raises the generation of the lock's namespace by one and leaves the generation and the locks
  of every other namespace as they are, so a projection cached under (namespace, generation) is never
  served for a changed set of locks.
\<close>

theorem lock_change_bumps_generation:
  assumes "unique_key rl_id (db_locks db)"
    and "release_snapshot_on env s sel db = Inr (db', l)
       \<or> refresh_by_token_on env tok timeout db = Inr (db', l)
       \<or> acquire_after_namespace_lock_on to_json env n cmd db = Inr (db', l)
         \<and> find_key ns_id (ns_id n) (db_namespaces db) = Some n"
  shows "generation_of (rl_namespace_id l) db \<noteq> None
    \<and> generation_of (rl_namespace_id l) db' = map_option (\<lambda>g. g + 1) (generation_of (rl_namespace_id l) db)
    \<and> (\<forall>m. m \<noteq> rl_namespace_id l \<longrightarrow> generation_of m db' = generation_of m db
             \<and> locks_of_namespace m db' = locks_of_namespace m db)"
proof -
  have main: ?thesis
    if "find_key ns_id (ns_id ns) (db_namespaces db) = Some ns" "rl_namespace_id l = ns_id ns"
      "increment_generation env ns db1 = Inr db'" "db_namespaces db1 = db_namespaces db"
      "\<And>m. m \<noteq> ns_id ns \<Longrightarrow> filter (\<lambda>l. rl_namespace_id l = m) (db_locks db1)
              = filter (\<lambda>l. rl_namespace_id l = m) (db_locks db)" for ns db1
    using that increment_generation_bumps [OF that(3)] increment_generation_locks [OF that(3)]
    by (auto simp: generation_of_def intro!: locks_of_namespace_cong)
  from assms(2) consider
    (rel) "release_snapshot_on env s sel db = Inr (db', l)"
    | (ref) "refresh_by_token_on env tok timeout db = Inr (db', l)"
    | (acq) "acquire_after_namespace_lock_on to_json env n cmd db = Inr (db', l)"
        "find_key ns_id (ns_id n) (db_namespaces db) = Some n" by blast
  then show ?thesis
  proof cases
    case rel
    then obtain ns where w: "with_current_lock ''releasing'' s sel db = Inr (l, ns)"
      and i: "increment_generation env ns (delete_by_id (rl_id l) db) = Inr db'"
      by (auto simp: release_snapshot_on_def result_simps)
    show ?thesis
      using main [OF with_current_lock_InrD(1,2) [OF w] i] with_current_lock_InrD(2,3) [OF w]
        filter_other_namespace(1) [OF assms(1)]
      by (simp add: delete_by_id_def delete_locks_def)
  next
    case ref
    then obtain snap c ns where w: "with_current_lock ''refreshing'' snap (Sel_Token tok) db = Inr (c, ns)"
      and l: "l = c\<lparr>rl_timeout_at := timeout\<rparr>"
      and i: "increment_generation env ns (update_lock (rl_id c) (\<lambda>l. l\<lparr>rl_timeout_at := timeout\<rparr>) db) = Inr db'"
      by (auto simp: refresh_by_token_on_def Let_def result_simps split: option.splits)
    have f: "filter (\<lambda>l. rl_namespace_id l = m)
          (db_locks (update_lock (rl_id c) (\<lambda>l. l\<lparr>rl_timeout_at := timeout\<rparr>) db))
        = filter (\<lambda>l. rl_namespace_id l = m) (db_locks db)" if "m \<noteq> ns_id ns" for m
    proof -
      have "m \<noteq> rl_namespace_id c" using that with_current_lock_InrD(2) [OF w] by simp
      then show ?thesis
        unfolding update_lock_locks
        by (rule filter_other_namespace(2) [OF assms(1) with_current_lock_InrD(3) [OF w]]) simp
    qed
    show ?thesis
      by (rule main [OF with_current_lock_InrD(1) [OF w] _ i _ f])
        (simp_all add: l with_current_lock_InrD(2) [OF w] update_lock_def)
  next
    case acq
    then obtain owner db1 where l: "l = acquired_row env (ns_id n) cmd owner"
      and scan: "scan_existing (le_now env) (ac_target cmd) (ac_mode cmd) (ac_presentation_path cmd)
           (locks_of_namespace (ns_id n) db) db = Inr db1"
      and inc: "increment_generation env n (db1\<lparr>db_locks := db_locks db1 @ [l]\<rparr>) = Inr db'"
      unfolding acquire_after_Inr by blast
    have "filter (\<lambda>l. rl_namespace_id l = m) (db_locks db1) = filter (\<lambda>l. rl_namespace_id l = m) (db_locks db)"
      if "m \<noteq> ns_id n" for m
      using scan that assms(1)
      by (auto simp: scan_existing_Inr find_key_locks_of_namespace intro!: filter_cong [OF refl]
          dest: unique_key_inj)
    then show ?thesis
      using main [OF acq(2) _ inc] l scan by (auto simp: scan_existing_Inr)
  qed
qed

lemma purge_namespaces_result:
  assumes del: "\<And>n db. del n db = delete_locks (\<lambda>l. rl_namespace_id l = n \<and> P l) db"
    and "distinct ns"
    and "\<And>n. n \<in> set ns \<Longrightarrow> \<exists>x. find_key ns_id n (db_namespaces db) = Some x \<and> in_i64 (ns_generation x + 1)"
  shows "\<exists>db'. purge_namespaces env del ns db k
            = Inr (db', k + count_where (\<lambda>l. rl_namespace_id l \<in> set ns \<and> P l) (db_locks db))
          \<and> db_locks db' = filter (\<lambda>l. \<not> (rl_namespace_id l \<in> set ns \<and> P l)) (db_locks db)"
  using assms(2,3)
proof (induction ns arbitrary: db k)
  case Nil
  then show ?case by (simp add: count_where_def)
next
  case (Cons n ns)
  let ?p = "\<lambda>l. rl_namespace_id l = n \<and> P l"
  let ?db1 = "db\<lparr>db_locks := filter (\<lambda>l. \<not> ?p l) (db_locks db)\<rparr>"
  obtain x where x: "find_key ns_id n (db_namespaces db) = Some x" "in_i64 (ns_generation x + 1)"
    using Cons.prems(2) by auto
  have d: "del n db = (?db1, count_where ?p (db_locks db))" by (simp add: del delete_locks_def)
  obtain db2 where db2: "purge_namespace env del n db = Inr (db2, count_where ?p (db_locks db))"
    "db_locks db2 = filter (\<lambda>l. \<not> ?p l) (db_locks db)"
    "\<And>j. j \<noteq> n \<Longrightarrow> find_key ns_id j (db_namespaces db2) = find_key ns_id j (db_namespaces db)"
  proof (cases "count_where ?p (db_locks db) = 0")
    case True
    then show ?thesis using that [of ?db1] x d by (simp add: purge_namespace_def namespace_lock_by_id_def Let_def)
  next
    case False
    obtain db2 where i: "increment_generation env x ?db1 = Inr db2"
      using x(2) by (simp add: increment_generation_def checked_add_i64_def)
    have "find_key ns_id j (db_namespaces db2) = find_key ns_id j (db_namespaces db)" if "j \<noteq> n" for j
      using increment_generation_find [OF i, of j] find_key_SomeD [OF x(1)] that
        find_key_SomeD [of ns_id j "db_namespaces db"]
      by (cases "find_key ns_id j (db_namespaces db)") auto
    then show ?thesis
      using that [of db2] increment_generation_locks [OF i] x d i False
      by (simp add: purge_namespace_def namespace_lock_by_id_def Let_def)
  qed
  have "\<exists>y. find_key ns_id j (db_namespaces db2) = Some y \<and> in_i64 (ns_generation y + 1)" if "j \<in> set ns" for j
  proof -
    have "j \<noteq> n" using Cons.prems(1) that by auto
    then show ?thesis using db2(3) [of j] Cons.prems(2) [of j] that by simp
  qed
  then obtain db3 where db3:
    "purge_namespaces env del ns db2 (k + count_where ?p (db_locks db))
      = Inr (db3, k + count_where ?p (db_locks db) + count_where (\<lambda>l. rl_namespace_id l \<in> set ns \<and> P l) (db_locks db2))"
    "db_locks db3 = filter (\<lambda>l. \<not> (rl_namespace_id l \<in> set ns \<and> P l)) (db_locks db2)"
    using Cons.IH [of db2 "k + count_where ?p (db_locks db)"] Cons.prems(1) by auto
  have cnt: "count_where ?p t + count_where (\<lambda>l. rl_namespace_id l \<in> set ns \<and> P l) (filter (\<lambda>l. \<not> ?p l) t)
      = count_where (\<lambda>l. rl_namespace_id l \<in> set (n # ns) \<and> P l) t" for t
    using Cons.prems(1) by (induction t) auto
  show ?case
    using db2 db3 cnt [of "db_locks db"] by (auto simp: conj_commute intro!: filter_cong [OF refl])
qed

text \<open>
  Expiry cleanup is complete and exact: when every expired lock's namespace exists and has a
  generation below the \<open>i64\<close> limit, the cleanup succeeds, removes all locks expired at its start and
  no other, keeps the rest in order, and returns the number it removed.
\<close>

theorem cleanup_expired_exact:
  assumes "\<And>l. l \<in> set (db_locks db) \<Longrightarrow> lock_expired (le_now env) l \<Longrightarrow>
     \<exists>x. find_key ns_id (rl_namespace_id l) (db_namespaces db) = Some x \<and> in_i64 (ns_generation x + 1)"
  shows "\<exists>db'. cleanup_expired env db = Inr (db', count_where (lock_expired (le_now env)) (db_locks db))
     \<and> db_locks db' = filter (\<lambda>l. \<not> lock_expired (le_now env) l) (db_locks db)"
proof -
  let ?P = "\<lambda>l. rl_timeout_at l \<noteq> None \<and> null_le (rl_timeout_at l) (le_now env)"
  let ?ns = "namespace_ids (find_expired_before (le_now env) db)"
  have P: "?P l \<longleftrightarrow> lock_expired (le_now env) l" for l by (cases "rl_timeout_at l") (auto simp: lock_expired_def)
  have ns: "set ?ns = rl_namespace_id ` {l \<in> set (db_locks db). lock_expired (le_now env) l}" "distinct ?ns"
    unfolding namespace_ids_def find_expired_before_def select_where_def P by simp_all
  have "\<exists>db'. cleanup_expired env db = Inr (db', 0 + count_where (\<lambda>l. rl_namespace_id l \<in> set ?ns \<and> ?P l) (db_locks db))
     \<and> db_locks db' = filter (\<lambda>l. \<not> (rl_namespace_id l \<in> set ?ns \<and> ?P l)) (db_locks db)"
    unfolding cleanup_expired_def
    by (rule purge_namespaces_result [where P = ?P])
      (use assms ns in \<open>auto simp: delete_expired_by_namespace_before_def\<close>)
  moreover have "count_where (\<lambda>l. rl_namespace_id l \<in> set ?ns \<and> ?P l) (db_locks db)
      = count_where (lock_expired (le_now env)) (db_locks db)"
    unfolding count_where_def P ns by (auto intro!: arg_cong [where f = length] filter_cong [OF refl])
  moreover have "filter (\<lambda>l. \<not> (rl_namespace_id l \<in> set ?ns \<and> ?P l)) (db_locks db)
      = filter (\<lambda>l. \<not> lock_expired (le_now env) l) (db_locks db)"
    unfolding P ns by (auto intro!: filter_cong [OF refl])
  ultimately show ?thesis by simp
qed

section \<open>Concrete instances\<close>

definition ex_file :: file_row where
  "ex_file = \<lparr>fi_id = 10, fi_folder_id = None, fi_team_id = None, fi_owner_user_id = Some 1\<rparr>"

definition ex_namespace :: "int \<Rightarrow> resource_lock_namespace" where
  "ex_namespace g =
     \<lparr>ns_id = 5, ns_workspace_type = Personal_Workspace, ns_workspace_id = 1, ns_generation = g,
      ns_created_at = 0, ns_updated_at = 0\<rparr>"

definition ex_db :: lock_db where
  "ex_db =
     \<lparr>db_kind = Sqlite, db_users = [1, 2], db_teams = [], db_files = [ex_file], db_folders = [],
      db_namespaces = [ex_namespace 0], db_locks = []\<rparr>"

definition ex_env :: "time \<Rightarrow> lock_env" where
  "ex_env t = \<lparr>le_now = t, le_uuid = ''u1'', le_new_namespace_id = 6, le_new_lock_id = 1\<rparr>"

definition ex_cmd :: lock_acquire_command where
  "ex_cmd =
     \<lparr>ac_target = \<lparr>lt_workspace = LW_Personal 1, lt_root = LR_File 10, lt_depth = Resource\<rparr>,
      ac_mode = Exclusive, ac_origin = WebDav, ac_holder_user_id = Some 1, ac_owner_info = None,
      ac_timeout = Some 100, ac_presentation_path = Some ''/a''\<rparr>"

definition ex_lock :: resource_lock where
  "ex_lock = acquired_row (ex_env 0) 5 ex_cmd None"

definition ex_db_locked :: lock_db where
  "ex_db_locked = ex_db\<lparr>db_locks := [ex_lock], db_namespaces := [ex_namespace 1]\<rparr>"

definition ex_db_refreshed :: lock_db where
  "ex_db_refreshed =
     ex_db\<lparr>db_locks := [ex_lock\<lparr>rl_timeout_at := Some 300\<rparr>],
           db_namespaces := [(ex_namespace 2)\<lparr>ns_updated_at := 200\<rparr>]\<rparr>"

lemmas ex_defs = ex_file_def ex_namespace_def ex_db_def ex_env_def ex_cmd_def ex_db_locked_def
lemmas lookup_eval = find_key_def find_by_workspace_def user_find_by_id_def file_find_by_id_def
  file_lock_by_id_def from_file_def workspace_from_def

lemma ex_acquired: "acquire_on to_json (ex_env 0) ex_cmd ex_db = Inr (ex_db_locked, ex_lock)"
  by (simp add: acquire_on_def acquire_after_namespace_lock_on_def lock_target_namespace_def
      ensure_and_lock_def lock_and_revalidate_target_def serialize_owner_info_def
      locks_of_namespace_def select_where_def increment_generation_def checked_add_i64_def in_i64_def
      i64_max_def i64_min_def update_where_def lookup_eval ex_defs ex_lock_def Let_def)

lemma ex_acquired_after:
  "acquire_after_namespace_lock_on to_json (ex_env 0) (ex_namespace 0) ex_cmd ex_db = Inr (ex_db_locked, ex_lock)"
  by (simp add: acquire_after_namespace_lock_on_def
      lock_and_revalidate_target_def serialize_owner_info_def
      locks_of_namespace_def select_where_def increment_generation_def checked_add_i64_def in_i64_def
      i64_max_def i64_min_def update_where_def lookup_eval ex_defs ex_lock_def Let_def)

lemma ex_refreshed:
  "refresh_by_token_on (ex_env 200) ''urn:uuid:u1'' (Some 300) ex_db_locked
     = Inr (ex_db_refreshed, ex_lock\<lparr>rl_timeout_at := Some 300\<rparr>)"
  by (simp add: refresh_by_token_on_def find_by_token_def with_current_lock_def namespace_lock_by_id_def
      lock_snapshot_target_def root_from_model_def lock_and_revalidate_target_def select_lock_def
      same_root_def update_lock_def exec_one_def update_where_def increment_generation_def
      checked_add_i64_def in_i64_def i64_max_def i64_min_def lookup_eval ex_defs ex_lock_def
      ex_db_refreshed_def acquired_row_def Let_def)

theorem locks_never_conflict_witness:
  "\<exists>db'. lock_table_ok ex_db \<and> (lock_step (\<lambda>_. Inr []) (\<lambda>_ _ _. Inr []))\<^sup>*\<^sup>* ex_db db'
     \<and> ex_lock \<in> set (db_locks db')
     \<and> (\<forall>b \<in> set (db_locks db'). rl_id b \<noteq> rl_id ex_lock \<longrightarrow>
          \<not> (rl_namespace_id ex_lock = rl_namespace_id b \<and> overlap_rows ex_lock b
             \<and> (rl_mode ex_lock = Exclusive \<or> rl_mode b = Exclusive)))"
proof -
  have ok: "lock_table_ok ex_db" by (simp add: lock_table_ok_def unique_key_def ex_db_def)
  have "lock_step (\<lambda>_. Inr []) (\<lambda>_ _ _. Inr []) ex_db ex_db_locked"
    by (rule lock_step.acquire [OF ex_acquired]) (simp add: ex_db_def)
  then have reach: "(lock_step (\<lambda>_. Inr []) (\<lambda>_ _ _. Inr []))\<^sup>*\<^sup>* ex_db ex_db_locked" by blast
  have "ex_lock \<in> set (db_locks ex_db_locked)" by (simp add: ex_db_locked_def)
  then show ?thesis using locks_never_conflict [OF ok reach] ok reach by metis
qed


theorem enforce_file_mutation_exact_witness:
  "\<not> is_ok (enforce_file_mutation_on (ex_env 50) ex_file (submitted (LC_HolderUser 1)) ex_db_locked)
   \<and> is_ok (enforce_file_mutation_on (ex_env 50) ex_file (submitted (LC_SubmittedTokens [''urn:uuid:u1''])) ex_db_locked)"
proof -
  have p: "find_key fi_id (fi_id ex_file) (db_files ex_db_locked) = Some ex_file" "from_file ex_file = Inr (LW_Personal 1)"
    "find_by_workspace (fst (persistence_key (LW_Personal 1))) (snd (persistence_key (LW_Personal 1))) ex_db_locked
       = Some (ex_namespace 1)"
    by (simp_all add: lookup_eval ex_defs)
  show ?thesis
    unfolding enforce_file_mutation_exact [OF p]
    by (simp add: ex_defs ex_lock_def lock_is_satisfied_def lock_expired_def)
qed

theorem acquired_lock_blocks_mutation_witness:
  "acquire_on (\<lambda>_. Inr []) (ex_env 0) ex_cmd ex_db = Inr (ex_db_locked, ex_lock)
   \<and> \<not> is_ok (enforce_file_mutation_on (ex_env 50) ex_file (submitted (LC_HolderUser 1)) ex_db_locked)"
  using acquired_lock_blocks_mutation [OF ex_acquired, of ex_file "LW_Personal 1" "ex_namespace 1" "ex_env 50"
      "submitted (LC_HolderUser 1)"] ex_acquired [of "\<lambda>_. Inr []"]
  by (simp add: lookup_eval ex_defs ex_lock_def unique_key_def)

definition ex_folder_lock :: resource_lock where
  "ex_folder_lock = ex_lock\<lparr>rl_root_kind := RK_Folder, rl_root_file_id := None, rl_root_folder_id := Some 3\<rparr>"

lemma ex_unlock_keeps:
  "unlock (ex_env 50) ET_File 10 2 (ex_db\<lparr>db_locks := [ex_folder_lock]\<rparr>) = Inr (ex_db\<lparr>db_locks := [ex_folder_lock]\<rparr>)"
  by (simp add: unlock_def resolve_entity_target_def lock_target_namespace_def ensure_and_lock_def
      lock_and_revalidate_target_def delete_expired_by_entity_before_def delete_locks_def delete_where_def
      remove_released_locks_def find_all_by_entity_def select_where_def entity_condition_def
      ex_folder_lock_def lookup_eval ex_defs ex_lock_def Let_def)

theorem unlock_respects_holders_witness:
  "unlock (ex_env 50) ET_File 10 2 (ex_db\<lparr>db_locks := [ex_folder_lock]\<rparr>) = Inr (ex_db\<lparr>db_locks := [ex_folder_lock]\<rparr>)
   \<and> check_entity_ownership ET_File 10 2 (ex_db\<lparr>db_locks := [ex_folder_lock]\<rparr>) = Inr False
   \<and> ex_folder_lock \<in> set (db_locks (ex_db\<lparr>db_locks := [ex_folder_lock]\<rparr>))"
  using unlock_respects_holders [OF ex_unlock_keeps, of ex_folder_lock] ex_unlock_keeps
  by (simp add: check_entity_ownership_def lookup_eval ex_defs ex_lock_def ex_folder_lock_def lock_expired_def)

theorem lock_change_bumps_generation_witness:
  "refresh_by_token_on (ex_env 200) ''urn:uuid:u1'' (Some 300) ex_db_locked
      = Inr (ex_db_refreshed, ex_lock\<lparr>rl_timeout_at := Some 300\<rparr>)
   \<and> generation_of 5 ex_db_locked = Some 1 \<and> generation_of 5 ex_db_refreshed = Some 2"
proof -
  have g: "generation_of 5 ex_db_locked = Some 1" by (simp add: generation_of_def find_key_def ex_defs)
  have u: "unique_key rl_id (db_locks ex_db_locked)" by (simp add: unique_key_def ex_db_locked_def)
  have n: "rl_namespace_id (ex_lock\<lparr>rl_timeout_at := Some 300\<rparr>) = 5" by (simp add: ex_lock_def)
  show ?thesis
    using lock_change_bumps_generation [OF u disjI2 [OF disjI1 [OF ex_refreshed]]] g ex_refreshed
    unfolding n by simp
qed

theorem cleanup_expired_exact_witness:
  "\<exists>db'. cleanup_expired (ex_env 200) ex_db_locked = Inr (db', 1) \<and> db_locks db' = []"
  using cleanup_expired_exact [of ex_db_locked "ex_env 200"]
  by (simp add: ex_defs ex_lock_def lock_expired_def find_key_def in_i64_def i64_max_def i64_min_def)

end
