(* ===== verification/Task_Repo.thy ===== *)
theory Task_Repo
  imports Resource_Locks
begin

text \<open>
  The background task table and the statements on it:
  \<open>src/crates/aster_drive_model/src/entities/background_task.rs\<close>,
  \<open>src/crates/aster_drive_model/src/types/task.rs\<close> and
  \<open>src/src/db/repository/background_task_repo/\<close>.

  A table is a list of rows. A repository function that returns \<open>Result<bool>\<close> is a function from
  the table to the new table and the boolean; a failing database connection is not modelled, since
  a failed statement leaves the table as it is. The clock is an argument wherever the code reads it.
\<close>

section \<open>Rows\<close>

datatype background_task_kind =
    ArchiveExtract | ArchiveCompress | ArchivePreviewGenerate | ThumbnailGenerate
  | ImagePreviewGenerate | MediaMetadataExtract | TrashPurgeAll | FolderTreeMutation
  | StoragePolicyTempCleanup | StoragePolicyMigration | StoragePolicyForcedPurge
  | BlobMaintenance | OfflineDownload | SystemRuntime

fun task_kind_as_str :: "background_task_kind \<Rightarrow> string" where
  "task_kind_as_str ArchiveExtract = ''archive_extract''"
| "task_kind_as_str ArchiveCompress = ''archive_compress''"
| "task_kind_as_str ArchivePreviewGenerate = ''archive_preview_generate''"
| "task_kind_as_str ThumbnailGenerate = ''thumbnail_generate''"
| "task_kind_as_str ImagePreviewGenerate = ''image_preview_generate''"
| "task_kind_as_str MediaMetadataExtract = ''media_metadata_extract''"
| "task_kind_as_str TrashPurgeAll = ''trash_purge_all''"
| "task_kind_as_str FolderTreeMutation = ''folder_tree_mutation''"
| "task_kind_as_str StoragePolicyTempCleanup = ''storage_policy_temp_cleanup''"
| "task_kind_as_str StoragePolicyMigration = ''storage_policy_migration''"
| "task_kind_as_str StoragePolicyForcedPurge = ''storage_policy_forced_purge''"
| "task_kind_as_str BlobMaintenance = ''blob_maintenance''"
| "task_kind_as_str OfflineDownload = ''offline_download''"
| "task_kind_as_str SystemRuntime = ''system_runtime''"

datatype background_task_status =
  Pending | Processing | Canceling | Retry | Succeeded | Failed | Canceled

fun task_status_as_str :: "background_task_status \<Rightarrow> string" where
  "task_status_as_str Pending = ''pending''"
| "task_status_as_str Processing = ''processing''"
| "task_status_as_str Canceling = ''canceling''"
| "task_status_as_str Retry = ''retry''"
| "task_status_as_str Succeeded = ''succeeded''"
| "task_status_as_str Failed = ''failed''"
| "task_status_as_str Canceled = ''canceled''"

definition is_terminal :: "background_task_status \<Rightarrow> bool" where
  "is_terminal s = (s \<in> {Succeeded, Failed, Canceled})"

record background_task =
  bt_id :: int
  bt_kind :: background_task_kind
  bt_status :: background_task_status
  bt_creator_user_id :: "int option"
  bt_team_id :: "int option"
  bt_share_id :: "int option"
  bt_display_name :: string
  bt_dedupe_key :: "string option"
  bt_payload_json :: string
  bt_result_json :: "string option"
  bt_runtime_json :: "string option"
  bt_steps_json :: "string option"
  bt_progress_current :: int
  bt_progress_total :: int
  bt_status_text :: "string option"
  bt_attempt_count :: int
  bt_max_attempts :: int
  bt_next_run_at :: time
  bt_processing_token :: int
  bt_processing_started_at :: "time option"
  bt_last_heartbeat_at :: "time option"
  bt_lease_expires_at :: "time option"
  bt_started_at :: "time option"
  bt_finished_at :: "time option"
  bt_last_error :: "string option"
  bt_failure_can_retry :: "bool option"
  bt_expires_at :: time
  bt_created_at :: time
  bt_updated_at :: time

type_synonym task_table = "background_task list"

section \<open>Conditions\<close>

definition processing_stale_condition :: "time \<Rightarrow> background_task \<Rightarrow> bool" where
  "processing_stale_condition now t =
     (bt_status t \<in> {Processing, Canceling} \<and> bt_lease_expires_at t \<noteq> None
      \<and> null_le (bt_lease_expires_at t) now)"

definition claimable_condition :: "time \<Rightarrow> background_task \<Rightarrow> bool" where
  "claimable_condition now t =
     ((bt_status t \<in> {Pending, Retry} \<and> bt_next_run_at t \<le> now) \<or> processing_stale_condition now t)"

definition active_processing_by_kinds_condition ::
  "time \<Rightarrow> background_task_kind list \<Rightarrow> background_task \<Rightarrow> bool" where
  "active_processing_by_kinds_condition now kinds t =
     (bt_status t \<in> {Processing, Canceling} \<and> bt_lease_expires_at t \<noteq> None
      \<and> null_gt (bt_lease_expires_at t) now \<and> bt_kind t \<in> set kinds)"

record terminal_task_cleanup_filters =
  cf_finished_before :: time
  cf_kind :: "background_task_kind option"
  cf_status :: "background_task_status option"

definition terminal_cleanup_condition :: "terminal_task_cleanup_filters \<Rightarrow> background_task \<Rightarrow> bool" where
  "terminal_cleanup_condition fl t =
     ((case cf_status fl of
         Some s \<Rightarrow> bt_status t = s
       | None \<Rightarrow> bt_status t \<in> {Succeeded, Failed, Canceled})
      \<and> (case cf_kind fl of Some k \<Rightarrow> bt_kind t = k | None \<Rightarrow> True)
      \<and> (null_le (bt_finished_at t) (cf_finished_before fl)
         \<or> bt_finished_at t = None \<and> bt_updated_at t \<le> cf_finished_before fl))"

section \<open>Claiming and heartbeats\<close>

definition list_claimable_query :: "time \<Rightarrow> (background_task \<Rightarrow> bool) \<Rightarrow> nat \<Rightarrow> task_table \<Rightarrow> background_task list" where
  "list_claimable_query now extra limit tbl =
     take limit (sort_key bt_created_at (sort_key bt_id
       (select_where (\<lambda>t. claimable_condition now t \<and> extra t) tbl)))"

definition list_claimable :: "time \<Rightarrow> nat \<Rightarrow> task_table \<Rightarrow> background_task list" where
  "list_claimable now limit tbl = list_claimable_query now (\<lambda>_. True) limit tbl"

definition list_claimable_by_kinds ::
  "time \<Rightarrow> background_task_kind list \<Rightarrow> nat \<Rightarrow> task_table \<Rightarrow> background_task list" where
  "list_claimable_by_kinds now kinds limit tbl =
     (if kinds = [] \<or> limit = 0 then []
      else list_claimable_query now (\<lambda>t. bt_kind t \<in> set kinds) limit tbl)"

text \<open>
  The locking variant reads the same rows; rows another transaction holds are skipped, which
  \<open>locked\<close> stands for.
\<close>

definition list_claimable_by_kinds_for_update ::
  "(background_task \<Rightarrow> bool) \<Rightarrow> time \<Rightarrow> background_task_kind list \<Rightarrow> nat \<Rightarrow> task_table \<Rightarrow> background_task list" where
  "list_claimable_by_kinds_for_update locked now kinds limit tbl =
     (if kinds = [] \<or> limit = 0 then []
      else list_claimable_query now (\<lambda>t. bt_kind t \<in> set kinds \<and> \<not> locked t) limit tbl)"

definition claim_row :: "time \<Rightarrow> int \<Rightarrow> time \<Rightarrow> background_task \<Rightarrow> background_task" where
  "claim_row now next_token lease t =
     t\<lparr>bt_status := (if bt_status t = Canceling then Canceling else Processing),
       bt_processing_started_at := Some now,
       bt_last_heartbeat_at := Some now,
       bt_processing_token := next_token,
       bt_lease_expires_at := Some lease,
       bt_started_at := if_null (bt_started_at t) now,
       bt_updated_at := now\<rparr>"

definition try_claim :: "int \<Rightarrow> int \<Rightarrow> time \<Rightarrow> int \<Rightarrow> time \<Rightarrow> task_table \<Rightarrow> task_table \<times> bool" where
  "try_claim i expected now next_token lease tbl =
     exec_one (\<lambda>t. bt_id t = i \<and> bt_processing_token t = expected \<and> claimable_condition now t)
       (claim_row now next_token lease) tbl"

definition fenced_row :: "int \<Rightarrow> int \<Rightarrow> background_task \<Rightarrow> bool" where
  "fenced_row i token t = (bt_id t = i \<and> bt_status t = Processing \<and> bt_processing_token t = token)"

definition heartbeat_row :: "time \<Rightarrow> time \<Rightarrow> background_task \<Rightarrow> background_task" where
  "heartbeat_row now lease t = t\<lparr>bt_last_heartbeat_at := Some now, bt_lease_expires_at := Some lease\<rparr>"

definition touch_heartbeat :: "int \<Rightarrow> int \<Rightarrow> time \<Rightarrow> time \<Rightarrow> task_table \<Rightarrow> task_table \<times> bool" where
  "touch_heartbeat i token now lease tbl = exec_one (fenced_row i token) (heartbeat_row now lease) tbl"

section \<open>Mutations\<close>

text \<open>
  \<open>INSERT\<close>: the database gives the row a fresh id (\<open>new_id\<close>) and refuses a second row with the same
  non-null dedupe key (the unique index on \<open>dedupe_key\<close>).
\<close>

definition create :: "int \<Rightarrow> background_task \<Rightarrow> task_table \<Rightarrow> (task_table \<times> background_task) aster_result" where
  "create new_id model tbl =
     (if bt_dedupe_key model \<noteq> None \<and> (\<exists>t \<in> set tbl. bt_dedupe_key t = bt_dedupe_key model)
      then Inl (DatabaseOperation (payload_new ''UNIQUE constraint failed''))
      else let row = model\<lparr>bt_id := new_id\<rparr> in Inr (tbl @ [row], row))"

definition clear_unsuccessful_dedupe_key :: "int \<Rightarrow> string \<Rightarrow> task_table \<Rightarrow> task_table" where
  "clear_unsuccessful_dedupe_key i key tbl =
     fst (update_where
       (\<lambda>t. bt_id t = i \<and> bt_status t \<in> {Failed, Canceled} \<and> bt_dedupe_key t = Some key)
       (\<lambda>t. t\<lparr>bt_dedupe_key := None\<rparr>) tbl)"

record system_runtime_success_refresh =
  rf_id :: int
  rf_result_json :: string
  rf_status_text :: "string option"
  rf_next_run_at :: time
  rf_started_at :: time
  rf_finished_at :: time
  rf_expires_at :: time

definition refresh_row :: "system_runtime_success_refresh \<Rightarrow> background_task \<Rightarrow> background_task" where
  "refresh_row r t =
     t\<lparr>bt_status := Succeeded, bt_result_json := Some (rf_result_json r),
       bt_progress_current := 1, bt_progress_total := 1, bt_status_text := rf_status_text r,
       bt_next_run_at := rf_next_run_at r, bt_processing_started_at := None,
       bt_last_heartbeat_at := None, bt_lease_expires_at := None,
       bt_started_at := Some (rf_started_at r), bt_finished_at := Some (rf_finished_at r),
       bt_last_error := None, bt_failure_can_retry := None, bt_expires_at := rf_expires_at r,
       bt_updated_at := rf_finished_at r\<rparr>"

definition refresh_system_runtime_success ::
  "system_runtime_success_refresh \<Rightarrow> task_table \<Rightarrow> task_table \<times> bool" where
  "refresh_system_runtime_success r tbl =
     exec_one (\<lambda>t. bt_id t = rf_id r \<and> bt_kind t = SystemRuntime \<and> bt_status t = Succeeded)
       (refresh_row r) tbl"

definition set_steps :: "string option \<Rightarrow> background_task \<Rightarrow> background_task" where
  "set_steps steps t = (case steps of Some s \<Rightarrow> t\<lparr>bt_steps_json := Some s\<rparr> | None \<Rightarrow> t)"

record task_progress_update =
  pu_id :: int
  pu_processing_token :: int
  pu_now :: time
  pu_lease_expires_at :: time
  pu_current :: int
  pu_total :: int
  pu_status_text :: "string option"
  pu_steps_json :: "string option"

definition progress_row :: "task_progress_update \<Rightarrow> background_task \<Rightarrow> background_task" where
  "progress_row u t =
     set_steps (pu_steps_json u)
       (t\<lparr>bt_progress_current := pu_current u, bt_progress_total := pu_total u,
          bt_status_text := pu_status_text u, bt_last_heartbeat_at := Some (pu_now u),
          bt_lease_expires_at := Some (pu_lease_expires_at u), bt_updated_at := pu_now u\<rparr>)"

definition mark_progress :: "task_progress_update \<Rightarrow> task_table \<Rightarrow> task_table \<times> bool" where
  "mark_progress u tbl = exec_one (fenced_row (pu_id u) (pu_processing_token u)) (progress_row u) tbl"

definition runtime_row :: "string option \<Rightarrow> time \<Rightarrow> background_task \<Rightarrow> background_task" where
  "runtime_row js now t = t\<lparr>bt_runtime_json := js, bt_updated_at := now\<rparr>"

definition set_runtime_json :: "int \<Rightarrow> int \<Rightarrow> string option \<Rightarrow> time \<Rightarrow> task_table \<Rightarrow> task_table \<times> bool" where
  "set_runtime_json i token js now tbl = exec_one (fenced_row i token) (runtime_row js now) tbl"

definition display_row :: "string \<Rightarrow> time \<Rightarrow> background_task \<Rightarrow> background_task" where
  "display_row name now t = t\<lparr>bt_display_name := name, bt_updated_at := now\<rparr>"

definition set_display_name :: "int \<Rightarrow> int \<Rightarrow> string \<Rightarrow> time \<Rightarrow> task_table \<Rightarrow> task_table \<times> bool" where
  "set_display_name i token name now tbl = exec_one (fenced_row i token) (display_row name now) tbl"

record task_success_update =
  su_id :: int
  su_processing_token :: int
  su_result_json :: "string option"
  su_steps_json :: "string option"
  su_current :: int
  su_total :: int
  su_status_text :: "string option"
  su_finished_at :: time
  su_expires_at :: time

definition success_row :: "task_success_update \<Rightarrow> background_task \<Rightarrow> background_task" where
  "success_row u t =
     set_steps (su_steps_json u)
       (t\<lparr>bt_status := Succeeded, bt_result_json := su_result_json u,
          bt_progress_current := su_current u, bt_progress_total := su_total u,
          bt_status_text := su_status_text u, bt_processing_started_at := None,
          bt_last_heartbeat_at := None, bt_lease_expires_at := None,
          bt_finished_at := Some (su_finished_at u), bt_expires_at := su_expires_at u,
          bt_updated_at := su_finished_at u\<rparr>)"

definition mark_succeeded :: "task_success_update \<Rightarrow> task_table \<Rightarrow> task_table \<times> bool" where
  "mark_succeeded u tbl = exec_one (fenced_row (su_id u) (su_processing_token u)) (success_row u) tbl"

definition retry_row ::
  "int \<Rightarrow> time \<Rightarrow> string \<Rightarrow> string option \<Rightarrow> time \<Rightarrow> background_task \<Rightarrow> background_task" where
  "retry_row attempts next_run err steps now t =
     set_steps steps
       (t\<lparr>bt_status := Retry, bt_attempt_count := attempts, bt_next_run_at := next_run,
          bt_processing_started_at := None, bt_last_heartbeat_at := None,
          bt_lease_expires_at := None, bt_status_text := None, bt_last_error := Some err,
          bt_updated_at := now\<rparr>)"

definition mark_retry ::
  "int \<Rightarrow> int \<Rightarrow> int \<Rightarrow> time \<Rightarrow> string \<Rightarrow> string option \<Rightarrow> time \<Rightarrow> task_table \<Rightarrow> task_table \<times> bool" where
  "mark_retry i token attempts next_run err steps now tbl =
     exec_one (fenced_row i token) (retry_row attempts next_run err steps now) tbl"

definition release_row :: "time \<Rightarrow> background_task_status \<Rightarrow> background_task \<Rightarrow> background_task" where
  "release_row now st t =
     t\<lparr>bt_status := st, bt_next_run_at := now, bt_processing_started_at := None,
       bt_last_heartbeat_at := None, bt_lease_expires_at := None, bt_status_text := None,
       bt_updated_at := now\<rparr>"

definition release_processing ::
  "int \<Rightarrow> int \<Rightarrow> time \<Rightarrow> background_task_status \<Rightarrow> task_table \<Rightarrow> (task_table \<times> bool) aster_result" where
  "release_processing i token now st tbl =
     (if st \<notin> {Pending, Retry}
      then Inl (internal_error ''released background task status must be pending or retry'')
      else Inr (exec_one (fenced_row i token) (release_row now st) tbl))"

record task_failure_update =
  fu_id :: int
  fu_processing_token :: int
  fu_attempt_count :: int
  fu_last_error :: string
  fu_finished_at :: time
  fu_expires_at :: time
  fu_steps_json :: "string option"
  fu_failure_can_retry :: bool

definition failure_row :: "task_failure_update \<Rightarrow> background_task \<Rightarrow> background_task" where
  "failure_row u t =
     set_steps (fu_steps_json u)
       (t\<lparr>bt_status := Failed, bt_attempt_count := fu_attempt_count u,
          bt_processing_started_at := None, bt_last_heartbeat_at := None,
          bt_lease_expires_at := None, bt_status_text := None,
          bt_last_error := Some (fu_last_error u),
          bt_failure_can_retry := Some (fu_failure_can_retry u),
          bt_finished_at := Some (fu_finished_at u), bt_expires_at := fu_expires_at u,
          bt_updated_at := fu_finished_at u\<rparr>)"

definition mark_failed :: "task_failure_update \<Rightarrow> task_table \<Rightarrow> task_table \<times> bool" where
  "mark_failed u tbl = exec_one (fenced_row (fu_id u) (fu_processing_token u)) (failure_row u) tbl"

definition reset_row :: "time \<Rightarrow> int \<Rightarrow> string option \<Rightarrow> background_task \<Rightarrow> background_task" where
  "reset_row now max_attempts steps t =
     set_steps steps
       (t\<lparr>bt_status := Pending, bt_attempt_count := 0, bt_progress_current := 0,
          bt_max_attempts := max_attempts, bt_next_run_at := now,
          bt_processing_started_at := None, bt_last_heartbeat_at := None,
          bt_lease_expires_at := None, bt_started_at := None, bt_finished_at := None,
          bt_status_text := None, bt_last_error := None, bt_result_json := None,
          bt_failure_can_retry := None, bt_updated_at := now\<rparr>)"

definition reset_for_manual_retry ::
  "int \<Rightarrow> time \<Rightarrow> int \<Rightarrow> string option \<Rightarrow> task_table \<Rightarrow> task_table \<times> bool" where
  "reset_for_manual_retry i now max_attempts steps tbl =
     exec_one (\<lambda>t. bt_id t = i \<and> bt_status t \<in> {Failed, Canceled}) (reset_row now max_attempts steps) tbl"

section \<open>Queries and cleanup\<close>

definition find_by_id :: "int \<Rightarrow> task_table \<Rightarrow> background_task aster_result" where
  "find_by_id i tbl =
     (case find_key bt_id i tbl of
        Some t \<Rightarrow> Inr t
      | None \<Rightarrow> Inl (record_not_found (''task #'' @ int_to_string i)))"

definition find_active_by_kind_in_workspace ::
  "background_task_kind \<Rightarrow> lock_workspace_type \<Rightarrow> int \<Rightarrow> task_table \<Rightarrow> background_task option" where
  "find_active_by_kind_in_workspace k ws wid tbl =
     List.find
       (\<lambda>t. bt_kind t = k \<and> bt_status t \<in> {Pending, Processing, Retry, Canceling}
            \<and> (case ws of
                 Personal_Workspace \<Rightarrow> bt_creator_user_id t = Some wid \<and> bt_team_id t = None
               | Team_Workspace \<Rightarrow> bt_team_id t = Some wid)) tbl"

definition find_by_dedupe_key :: "string \<Rightarrow> task_table \<Rightarrow> background_task option" where
  "find_by_dedupe_key key tbl = List.find (\<lambda>t. bt_dedupe_key t = Some key) tbl"

definition count_processing :: "task_table \<Rightarrow> nat" where
  "count_processing tbl = count_where (\<lambda>t. bt_status t \<in> {Processing, Canceling}) tbl"

definition count_pending_or_retry :: "task_table \<Rightarrow> nat" where
  "count_pending_or_retry tbl = count_where (\<lambda>t. bt_status t \<in> {Pending, Retry}) tbl"

definition count_active_processing_by_kinds ::
  "time \<Rightarrow> background_task_kind list \<Rightarrow> task_table \<Rightarrow> nat" where
  "count_active_processing_by_kinds now kinds tbl =
     (if kinds = [] then 0 else count_where (active_processing_by_kinds_condition now kinds) tbl)"

definition list_expired_terminal :: "time \<Rightarrow> nat \<Rightarrow> task_table \<Rightarrow> background_task list" where
  "list_expired_terminal now limit tbl =
     take limit (sort_key bt_expires_at
       (select_where (\<lambda>t. bt_expires_at t \<le> now \<and> bt_status t \<in> {Succeeded, Failed, Canceled}) tbl))"

definition delete_many :: "int list \<Rightarrow> task_table \<Rightarrow> task_table \<times> nat" where
  "delete_many ids tbl =
     (if ids = [] then (tbl, 0) else delete_where (\<lambda>t. bt_id t \<in> set ids) tbl)"

definition delete_terminal_by_filters ::
  "terminal_task_cleanup_filters \<Rightarrow> task_table \<Rightarrow> task_table \<times> nat" where
  "delete_terminal_by_filters fl tbl = delete_where (terminal_cleanup_condition fl) tbl"

definition list_terminal_by_filters_for_update ::
  "terminal_task_cleanup_filters \<Rightarrow> task_table \<Rightarrow> background_task list" where
  "list_terminal_by_filters_for_update fl tbl =
     sort_key bt_id (select_where (terminal_cleanup_condition fl) tbl)"

definition find_latest_system_runtime_by_payload :: "string \<Rightarrow> task_table \<Rightarrow> background_task option" where
  "find_latest_system_runtime_by_payload js tbl =
     (case sort_key (\<lambda>t. - bt_updated_at t)
             (select_where (\<lambda>t. bt_kind t = SystemRuntime \<and> bt_payload_json t = js) tbl) of
        [] \<Rightarrow> None
      | t # _ \<Rightarrow> Some t)"

section \<open>Fenced writes\<close>

text \<open>
  What a worker's write promises: it touches at most the row of its task, only while that row is
  being processed under the worker's token, and it keeps the identity and the token of the row.
\<close>

locale fenced_write =
  fixes i :: int and token :: int and f :: "background_task \<Rightarrow> background_task"
  assumes keeps_id: "bt_id (f r) = bt_id r"
    and keeps_token: "bt_processing_token (f r) = bt_processing_token r"
    and keeps_kind: "bt_kind (f r) = bt_kind r"
    and keeps_dedupe: "bt_dedupe_key (f r) = bt_dedupe_key r"
begin

lemma stale_write:
  "\<forall>r \<in> set tbl. bt_id r = i \<longrightarrow> bt_processing_token r \<noteq> token
   \<Longrightarrow> exec_one (fenced_row i token) f tbl = (tbl, False)"
  by (rule exec_one_no_match) (auto simp: fenced_row_def)

lemma not_processing:
  "\<forall>r \<in> set tbl. bt_id r = i \<longrightarrow> bt_status r \<noteq> Processing
   \<Longrightarrow> exec_one (fenced_row i token) f tbl = (tbl, False)"
  by (rule exec_one_no_match) (auto simp: fenced_row_def)

lemma tokens_kept:
  "map (\<lambda>r. (bt_id r, bt_processing_token r)) (fst (exec_one (fenced_row i token) f tbl))
   = map (\<lambda>r. (bt_id r, bt_processing_token r)) tbl"
  by (simp add: exec_one_def keeps_id keeps_token)

end

sublocale fenced_write \<subseteq> keyed_update bt_id i "fenced_row i token" f
  by unfold_locales (auto simp: keeps_id fenced_row_def)

lemmas row_defs = claim_row_def heartbeat_row_def progress_row_def runtime_row_def display_row_def
  success_row_def retry_row_def release_row_def failure_row_def reset_row_def refresh_row_def
  set_steps_def

lemma set_steps_fields [simp]:
  "bt_id (set_steps s t) = bt_id t" "bt_kind (set_steps s t) = bt_kind t"
  "bt_status (set_steps s t) = bt_status t"
  "bt_processing_token (set_steps s t) = bt_processing_token t"
  "bt_processing_started_at (set_steps s t) = bt_processing_started_at t"
  "bt_last_heartbeat_at (set_steps s t) = bt_last_heartbeat_at t"
  "bt_lease_expires_at (set_steps s t) = bt_lease_expires_at t"
  "bt_finished_at (set_steps s t) = bt_finished_at t"
  "bt_next_run_at (set_steps s t) = bt_next_run_at t"
  "bt_attempt_count (set_steps s t) = bt_attempt_count t"
  "bt_failure_can_retry (set_steps s t) = bt_failure_can_retry t"
  "bt_dedupe_key (set_steps s t) = bt_dedupe_key t"
  by (simp_all add: set_steps_def split: option.splits)

interpretation heartbeat_fw: fenced_write i token "heartbeat_row now lease" for i token now lease
  by unfold_locales (simp_all add: heartbeat_row_def)

interpretation progress_fw: fenced_write "pu_id u" "pu_processing_token u" "progress_row u" for u
  by unfold_locales (simp_all add: progress_row_def)

interpretation runtime_fw: fenced_write i token "runtime_row js now" for i token js now
  by unfold_locales (simp_all add: runtime_row_def)

interpretation display_fw: fenced_write i token "display_row nm now" for i token nm now
  by unfold_locales (simp_all add: display_row_def)

interpretation success_fw: fenced_write "su_id u" "su_processing_token u" "success_row u" for u
  by unfold_locales (simp_all add: success_row_def)

interpretation retry_fw: fenced_write i token "retry_row attempts next_run err steps now"
  for i token attempts next_run err steps now
  by unfold_locales (simp_all add: retry_row_def)

interpretation release_fw: fenced_write i token "release_row now st" for i token now st
  by unfold_locales (simp_all add: release_row_def)

interpretation failure_fw: fenced_write "fu_id u" "fu_processing_token u" "failure_row u" for u
  by unfold_locales (simp_all add: failure_row_def)

interpretation claim_ku: keyed_update bt_id i
  "\<lambda>t. bt_id t = i \<and> bt_processing_token t = expected \<and> claimable_condition now t"
  "claim_row now next_token lease" for i expected now next_token lease
  by unfold_locales (simp_all add: claim_row_def)

interpretation reset_ku: keyed_update bt_id i "\<lambda>t. bt_id t = i \<and> bt_status t \<in> {Failed, Canceled}"
  "reset_row now max_attempts steps" for i now max_attempts steps
  by unfold_locales (simp_all add: reset_row_def)

interpretation refresh_ku: keyed_update bt_id "rf_id r"
  "\<lambda>t. bt_id t = rf_id r \<and> bt_kind t = SystemRuntime \<and> bt_status t = Succeeded" "refresh_row r" for r
  by unfold_locales (simp_all add: refresh_row_def)

lemmas fenced_write_defs = touch_heartbeat_def mark_progress_def set_runtime_json_def
  set_display_name_def mark_succeeded_def mark_retry_def release_processing_def mark_failed_def

lemma try_claim_row:
  assumes "unique_key bt_id tbl" "try_claim i expected now next_token lease tbl = (tbl', True)"
  shows "\<exists>r. find_key bt_id i tbl = Some r \<and> bt_processing_token r = expected
            \<and> claimable_condition now r \<and> find_key bt_id i tbl' = Some (claim_row now next_token lease r)
            \<and> unique_key bt_id tbl'"
proof -
  have eq: "exec_one (\<lambda>t. bt_id t = i \<and> bt_processing_token t = expected \<and> claimable_condition now t)
       (claim_row now next_token lease) tbl = (tbl', True)"
    using assms(2) by (simp add: try_claim_def)
  show ?thesis
    using claim_ku.success_row [OF assms(1), of i expected now next_token lease]
      claim_ku.keeps_unique [of i expected now next_token lease tbl] assms(1)
    unfolding eq by auto
qed

lemma claimed_row_is:
  assumes "unique_key bt_id tbl" "try_claim i expected now next_token lease tbl = (tbl', True)"
    and "x \<in> set tbl'" "bt_id x = i"
  shows "\<exists>r. x = claim_row now next_token lease r"
  using try_claim_row [OF assms(1,2)] assms(3,4) find_key_only [of bt_id tbl' i _ x] by blast

lemma claimed_token:
  assumes "unique_key bt_id tbl" "try_claim i expected now next_token lease tbl = (tbl', True)"
  shows "\<forall>r \<in> set tbl'. bt_id r = i \<longrightarrow> bt_processing_token r = next_token"
  using claimed_row_is [OF assms] by (fastforce simp: claim_row_def)

lemma claimed_lease:
  assumes "unique_key bt_id tbl" "try_claim i expected now next_token lease tbl = (tbl', True)"
  shows "\<forall>r \<in> set tbl'. bt_id r = i \<longrightarrow> bt_status r \<in> {Processing, Canceling} \<and> bt_lease_expires_at r = Some lease"
proof (intro ballI impI)
  fix x assume "x \<in> set tbl'" "bt_id x = i"
  then obtain r where "x = claim_row now next_token lease r" using claimed_row_is [OF assms] by blast
  then show "bt_status x \<in> {Processing, Canceling} \<and> bt_lease_expires_at x = Some lease"
    by (simp add: claim_row_def)
qed

text \<open>
  (C16) Fencing. Once a dispatcher has claimed a task under a new token, every write of a worker that
  still holds another token is refused: heartbeat, progress, runtime state, display name, success,
  retry, release and failure all return false and leave the whole table as it is.
\<close>

theorem superseded_worker_is_fenced:
  assumes "unique_key bt_id tbl"
    and "try_claim i expected now next_token lease tbl = (tbl', True)"
    and "token \<noteq> next_token"
    and "pu_id pu = i" "pu_processing_token pu = token"
    and "su_id su = i" "su_processing_token su = token"
    and "fu_id fu = i" "fu_processing_token fu = token"
  shows "touch_heartbeat i token n l tbl' = (tbl', False)
    \<and> mark_progress pu tbl' = (tbl', False)
    \<and> set_runtime_json i token js n tbl' = (tbl', False)
    \<and> set_display_name i token nm n tbl' = (tbl', False)
    \<and> mark_succeeded su tbl' = (tbl', False)
    \<and> mark_retry i token attempts next_run err steps n tbl' = (tbl', False)
    \<and> release_processing i token n Retry tbl' = Inr (tbl', False)
    \<and> mark_failed fu tbl' = (tbl', False)"
proof -
  have stale: "\<forall>r \<in> set tbl'. bt_id r = i \<longrightarrow> bt_processing_token r \<noteq> token"
    using claimed_token [OF assms(1,2)] assms(3) by auto
  show ?thesis
    using heartbeat_fw.stale_write [OF stale] progress_fw.stale_write [of tbl' pu]
      runtime_fw.stale_write [OF stale] display_fw.stale_write [OF stale]
      success_fw.stale_write [of tbl' su] retry_fw.stale_write [OF stale]
      release_fw.stale_write [OF stale] failure_fw.stale_write [of tbl' fu] stale assms(4-)
    by (simp add: fenced_write_defs)
qed

definition ex_task :: background_task where
  "ex_task =
     \<lparr>bt_id = 7, bt_kind = ArchiveExtract, bt_status = Processing, bt_creator_user_id = Some 1,
      bt_team_id = None, bt_share_id = None, bt_display_name = ''x'', bt_dedupe_key = None,
      bt_payload_json = ''{}'', bt_result_json = None, bt_runtime_json = None, bt_steps_json = None,
      bt_progress_current = 0, bt_progress_total = 0, bt_status_text = None, bt_attempt_count = 0,
      bt_max_attempts = 3, bt_next_run_at = 0, bt_processing_token = 1,
      bt_processing_started_at = Some 0, bt_last_heartbeat_at = Some 0,
      bt_lease_expires_at = Some 60, bt_started_at = Some 0, bt_finished_at = None,
      bt_last_error = None, bt_failure_can_retry = None, bt_expires_at = 100, bt_created_at = 0,
      bt_updated_at = 0\<rparr>"

lemmas ex_task_eval = ex_task_def try_claim_def exec_one_def claimable_condition_def
  processing_stale_condition_def claim_row_def unique_key_def

lemma ex_task_claimed: "try_claim 7 1 60 2 120 [ex_task] = ([claim_row 60 2 120 ex_task], True)"
  by (simp add: ex_task_eval)

theorem superseded_worker_is_fenced_witness:
  "unique_key bt_id [ex_task]
   \<and> try_claim 7 1 60 2 120 [ex_task] = ([claim_row 60 2 120 ex_task], True)
   \<and> touch_heartbeat 7 1 61 121 [claim_row 60 2 120 ex_task] = ([claim_row 60 2 120 ex_task], False)
   \<and> mark_succeeded \<lparr>su_id = 7, su_processing_token = 1, su_result_json = None, su_steps_json = None,
        su_current = 1, su_total = 1, su_status_text = None, su_finished_at = 61, su_expires_at = 99\<rparr>
        [claim_row 60 2 120 ex_task] = ([claim_row 60 2 120 ex_task], False)"
  using superseded_worker_is_fenced [OF _ ex_task_claimed, of 1
      "\<lparr>pu_id = 7, pu_processing_token = 1, pu_now = 61, pu_lease_expires_at = 121, pu_current = 0,
        pu_total = 0, pu_status_text = None, pu_steps_json = None\<rparr>"
      "\<lparr>su_id = 7, su_processing_token = 1, su_result_json = None, su_steps_json = None,
        su_current = 1, su_total = 1, su_status_text = None, su_finished_at = 61, su_expires_at = 99\<rparr>"
      "\<lparr>fu_id = 7, fu_processing_token = 1, fu_attempt_count = 1, fu_last_error = [],
        fu_finished_at = 61, fu_expires_at = 99, fu_steps_json = None, fu_failure_can_retry = True\<rparr>"]
  by (simp add: ex_task_claimed unique_key_def)

text \<open>
  Claims are exclusive. After a successful claim of a task with a fresh token, another dispatcher
  that read the same candidate (the old token) loses, and no dispatcher at all, whatever token it
  expects, can take the task over before the granted lease has expired.
\<close>

theorem try_claim_exclusive:
  assumes "unique_key bt_id tbl"
    and "try_claim i expected now next_token lease tbl = (tbl', True)"
  shows "(next_token \<noteq> expected \<longrightarrow> try_claim i expected now2 next2 lease2 tbl' = (tbl', False))
       \<and> (now2 < lease \<longrightarrow> try_claim i expected2 now2 next2 lease2 tbl' = (tbl', False))"
proof (intro conjI impI)
  assume "next_token \<noteq> expected"
  then show "try_claim i expected now2 next2 lease2 tbl' = (tbl', False)"
    unfolding try_claim_def using claimed_token [OF assms] by (intro exec_one_no_match) auto
next
  assume "now2 < lease"
  then show "try_claim i expected2 now2 next2 lease2 tbl' = (tbl', False)"
    unfolding try_claim_def using claimed_lease [OF assms]
    by (intro exec_one_no_match) (auto simp: claimable_condition_def processing_stale_condition_def)
qed

theorem try_claim_exclusive_witness:
  "unique_key bt_id [ex_task]
   \<and> try_claim 7 1 60 2 120 [ex_task] = ([claim_row 60 2 120 ex_task], True)
   \<and> try_claim 7 1 60 2 120 [claim_row 60 2 120 ex_task] = ([claim_row 60 2 120 ex_task], False)
   \<and> try_claim 7 2 119 3 180 [claim_row 60 2 120 ex_task] = ([claim_row 60 2 120 ex_task], False)"
  using try_claim_exclusive [OF _ ex_task_claimed, of 60 2 120]
    try_claim_exclusive [OF _ ex_task_claimed, of 119 3 180 2]
  by (simp add: ex_task_claimed unique_key_def)

end
