(* ===== verification/Task_Dispatch.thy ===== *)
theory Task_Dispatch
  imports Task_Repo
begin

text \<open>
  The background task service: creation of tasks (\<open>TypedTaskCreate\<close> in \<open>src/src/services/task/mod.rs\<close>),
  lanes and the claim transaction (\<open>dispatch/lane.rs\<close>, \<open>dispatch/claim.rs\<close>, \<open>registry.rs\<close>), the
  execution store (\<open>dispatch/execute.rs\<close>), cancellation (\<open>cancel.rs\<close>), manual retry, runtime records
  (\<open>runtime.rs\<close>), the purge fence (\<open>src/src/services/files/trash/coordination.rs\<close>) and cleanup.

  Arguments stand for the task library and for data the specifications of the task kinds provide:
  \<open>candidates\<close> (\<open>task_claim_candidates\<close>: the token each row will get next), \<open>capacity\<close>
  (\<open>available_lane_capacity\<close>), \<open>decode\<close> (the JSON payload of a folder-tree task), \<open>from_json\<close> (owner
  information of a lock), and the fields of the record \<open>task_env\<close>: the clock, the id of the next row,
  the configured retention, the attempts and steps of a kind and the file-name truncation.
\<close>

section \<open>State and environment\<close>

record task_world =
  tw_tasks :: task_table
  tw_members :: "int list"
  tw_locks :: lock_db

text \<open>\<open>tw_members\<close> holds the \<open>task_id\<close> column of the staged folder-tree members.\<close>

record task_env =
  te_now :: time
  te_new_task_id :: int
  te_retention_setting :: "string option"
  te_max_attempts :: "background_task_kind \<Rightarrow> int"
  te_initial_steps :: "background_task_kind \<Rightarrow> string aster_result"
  te_truncate_name :: "nat \<Rightarrow> string \<Rightarrow> string"
  te_lock_env :: lock_env

definition DEFAULT_TASK_RETENTION_HOURS :: int where "DEFAULT_TASK_RETENTION_HOURS = 24"
definition TASK_PROCESSING_STALE_SECS :: int where "TASK_PROCESSING_STALE_SECS = 60"
definition TASK_DISPLAY_NAME_MAX_LEN :: nat where "TASK_DISPLAY_NAME_MAX_LEN = 512"
definition TASK_LAST_ERROR_MAX_LEN :: nat where "TASK_LAST_ERROR_MAX_LEN = 1024"
definition TASK_STATUS_TEXT_MAX_LEN :: nat where "TASK_STATUS_TEXT_MAX_LEN = 255"

definition truncate_status_text :: "string \<Rightarrow> string" where
  "truncate_status_text v = take_chars TASK_STATUS_TEXT_MAX_LEN v"

definition truncate_error :: "string \<Rightarrow> string" where
  "truncate_error e = take_chars TASK_LAST_ERROR_MAX_LEN e"

definition truncate_display_name :: "task_env \<Rightarrow> string \<Rightarrow> string" where
  "truncate_display_name env v = te_truncate_name env TASK_DISPLAY_NAME_MAX_LEN v"

definition load_task_retention_hours :: "task_env \<Rightarrow> int" where
  "load_task_retention_hours env =
     (case te_retention_setting env of
        None \<Rightarrow> DEFAULT_TASK_RETENTION_HOURS
      | Some raw \<Rightarrow>
          (case parse_i64 raw of
             Some hours \<Rightarrow> if hours > 0 then hours else DEFAULT_TASK_RETENTION_HOURS
           | None \<Rightarrow> DEFAULT_TASK_RETENTION_HOURS))"

text \<open>Instants count seconds.\<close>

definition task_expiration_from :: "task_env \<Rightarrow> time \<Rightarrow> time" where
  "task_expiration_from env now = now + 3600 * load_task_retention_hours env"

section \<open>Scopes\<close>

datatype workspace_storage_scope =
    WS_Personal (ws_user_id: int)
  | WS_Team (ws_team_id: int) (ws_actor_user_id: int)

fun actor_user_id :: "workspace_storage_scope \<Rightarrow> int" where
  "actor_user_id (WS_Personal u) = u"
| "actor_user_id (WS_Team _ a) = a"

fun scope_team_id :: "workspace_storage_scope \<Rightarrow> int option" where
  "scope_team_id (WS_Personal _) = None"
| "scope_team_id (WS_Team t _) = Some t"

fun scope_lock_workspace :: "workspace_storage_scope \<Rightarrow> lock_workspace" where
  "scope_lock_workspace (WS_Personal u) = LW_Personal u"
| "scope_lock_workspace (WS_Team t _) = LW_Team t"

definition auth_forbidden :: "string \<Rightarrow> aster_error" where
  "auth_forbidden m = AuthForbidden (payload_new m)"

definition verify_owner :: "int \<Rightarrow> int \<Rightarrow> string \<Rightarrow> unit aster_result" where
  "verify_owner entity_user_id user_id name =
     (if entity_user_id \<noteq> user_id then Inl (auth_forbidden (''not your '' @ name)) else Inr ())"

definition missing_creator :: "background_task \<Rightarrow> aster_error" where
  "missing_creator t = internal_error (''task #'' @ int_to_string (bt_id t) @ '' is missing creator_user_id'')"

definition task_scope :: "background_task \<Rightarrow> workspace_storage_scope aster_result" where
  "task_scope t =
     (case bt_creator_user_id t of
        None \<Rightarrow> Inl (missing_creator t)
      | Some u \<Rightarrow> Inr (case bt_team_id t of Some team \<Rightarrow> WS_Team team u | None \<Rightarrow> WS_Personal u))"

definition ensure_task_in_scope :: "background_task \<Rightarrow> workspace_storage_scope \<Rightarrow> unit aster_result" where
  "ensure_task_in_scope t scope =
     (case scope of
        WS_Personal u \<Rightarrow>
          (if bt_team_id t \<noteq> None then Inl (auth_forbidden ''task belongs to a team workspace'')
           else case bt_creator_user_id t of
                  None \<Rightarrow> Inl (missing_creator t)
                | Some c \<Rightarrow> verify_owner c u ''task'')
      | WS_Team team _ \<Rightarrow>
          (if bt_team_id t \<noteq> Some team then Inl (auth_forbidden ''task is outside team workspace'') else Inr ()))"

section \<open>Creation\<close>

record typed_task_create =
  tc_kind :: background_task_kind
  tc_display_name :: string
  tc_payload_json :: "string aster_result"
  tc_dedupe_key :: "string option"
  tc_creator_user_id :: "int option"
  tc_team_id :: "int option"
  tc_status :: background_task_status
  tc_result_json :: "string option"
  tc_include_steps :: bool
  tc_progress_current :: int
  tc_progress_total :: int
  tc_status_text :: "string option"
  tc_next_run_at :: time
  tc_started_at :: "time option"
  tc_finished_at :: "time option"
  tc_last_error :: "string option"
  tc_failure_can_retry :: "bool option"
  tc_expires_at_anchor :: time
  tc_created_at :: time
  tc_updated_at :: time

text \<open>\<open>payload\<close> is the result of serializing the typed payload.\<close>

definition task_create_new :: "task_env \<Rightarrow> background_task_kind \<Rightarrow> string \<Rightarrow> string aster_result \<Rightarrow> typed_task_create" where
  "task_create_new env kind name payload =
     \<lparr>tc_kind = kind, tc_display_name = name, tc_payload_json = payload, tc_dedupe_key = None,
      tc_creator_user_id = None, tc_team_id = None, tc_status = Pending, tc_result_json = None,
      tc_include_steps = True, tc_progress_current = 0, tc_progress_total = 0, tc_status_text = None,
      tc_next_run_at = te_now env, tc_started_at = None, tc_finished_at = None, tc_last_error = None,
      tc_failure_can_retry = None, tc_expires_at_anchor = te_now env, tc_created_at = te_now env,
      tc_updated_at = te_now env\<rparr>"

definition tc_in_scope :: "workspace_storage_scope \<Rightarrow> typed_task_create \<Rightarrow> typed_task_create" where
  "tc_in_scope scope c = c\<lparr>tc_creator_user_id := Some (actor_user_id scope), tc_team_id := scope_team_id scope\<rparr>"

definition tc_set_next_run_at :: "time \<Rightarrow> typed_task_create \<Rightarrow> typed_task_create" where
  "tc_set_next_run_at t c = c\<lparr>tc_next_run_at := t, tc_expires_at_anchor := t\<rparr>"

definition tc_progress :: "int \<Rightarrow> int \<Rightarrow> typed_task_create \<Rightarrow> typed_task_create" where
  "tc_progress cur tot c = c\<lparr>tc_progress_current := cur, tc_progress_total := tot\<rparr>"

definition tc_set_started_at :: "time \<Rightarrow> typed_task_create \<Rightarrow> typed_task_create" where
  "tc_set_started_at t c = c\<lparr>tc_started_at := Some t, tc_created_at := t\<rparr>"

definition tc_set_finished_at :: "time \<Rightarrow> typed_task_create \<Rightarrow> typed_task_create" where
  "tc_set_finished_at t c =
     c\<lparr>tc_finished_at := Some t, tc_next_run_at := t, tc_expires_at_anchor := t, tc_updated_at := t\<rparr>"

definition tc_steps_json :: "task_env \<Rightarrow> typed_task_create \<Rightarrow> string option aster_result" where
  "tc_steps_json env c =
     (if tc_include_steps c then bind_result (te_initial_steps env (tc_kind c)) (\<lambda>s. Inr (Some s))
      else Inr None)"

definition into_active_model :: "task_env \<Rightarrow> typed_task_create \<Rightarrow> background_task aster_result" where
  "into_active_model env c =
     bind_result (tc_payload_json c) (\<lambda>payload.
     bind_result (tc_steps_json env c) (\<lambda>steps.
     Inr \<lparr>bt_id = 0, bt_kind = tc_kind c, bt_status = tc_status c,
          bt_creator_user_id = tc_creator_user_id c, bt_team_id = tc_team_id c, bt_share_id = None,
          bt_display_name = truncate_display_name env (tc_display_name c),
          bt_dedupe_key = tc_dedupe_key c, bt_payload_json = payload,
          bt_result_json = tc_result_json c, bt_runtime_json = None, bt_steps_json = steps,
          bt_progress_current = tc_progress_current c, bt_progress_total = tc_progress_total c,
          bt_status_text = map_option truncate_status_text (tc_status_text c),
          bt_attempt_count = 0, bt_max_attempts = te_max_attempts env (tc_kind c),
          bt_next_run_at = tc_next_run_at c, bt_processing_token = 0,
          bt_processing_started_at = None, bt_last_heartbeat_at = None, bt_lease_expires_at = None,
          bt_started_at = tc_started_at c, bt_finished_at = tc_finished_at c,
          bt_last_error = map_option truncate_error (tc_last_error c),
          bt_failure_can_retry = tc_failure_can_retry c,
          bt_expires_at = task_expiration_from env (tc_expires_at_anchor c),
          bt_created_at = tc_created_at c, bt_updated_at = tc_updated_at c\<rparr>))"

definition insert_typed_task_record ::
  "task_env \<Rightarrow> typed_task_create \<Rightarrow> task_table \<Rightarrow> (task_table \<times> background_task) aster_result" where
  "insert_typed_task_record env c tbl =
     bind_result (into_active_model env c) (\<lambda>active.
     case create (te_new_task_id env) active tbl of
       Inr r \<Rightarrow> Inr r
     | Inl e \<Rightarrow>
         (case tc_dedupe_key c of
            Some key \<Rightarrow>
              (case find_by_dedupe_key key tbl of
                 Some existing \<Rightarrow> Inr (tbl, existing)
               | None \<Rightarrow> Inl e)
          | None \<Rightarrow> Inl e))"

definition create_typed_task_record ::
  "task_env \<Rightarrow> workspace_storage_scope \<Rightarrow> background_task_kind \<Rightarrow> string \<Rightarrow> string aster_result \<Rightarrow> task_table
   \<Rightarrow> (task_table \<times> background_task) aster_result" where
  "create_typed_task_record env scope kind name payload tbl =
     insert_typed_task_record env (tc_in_scope scope (task_create_new env kind name payload)) tbl"

section \<open>Lanes\<close>

datatype task_lane_t = TL_Archive | TL_Thumbnail | TL_OfflineDownload | TL_StorageMigration | TL_Fallback

definition TASK_LANES :: "task_lane_t list" where
  "TASK_LANES = [TL_Archive, TL_Thumbnail, TL_OfflineDownload, TL_StorageMigration, TL_Fallback]"

fun task_lane_kinds :: "task_lane_t \<Rightarrow> background_task_kind list" where
  "task_lane_kinds TL_Archive = [ArchiveCompress, ArchiveExtract, ArchivePreviewGenerate]"
| "task_lane_kinds TL_Thumbnail = [ThumbnailGenerate, ImagePreviewGenerate, MediaMetadataExtract]"
| "task_lane_kinds TL_OfflineDownload = [OfflineDownload]"
| "task_lane_kinds TL_StorageMigration = [StoragePolicyMigration, StoragePolicyForcedPurge]"
| "task_lane_kinds TL_Fallback =
     [SystemRuntime, StoragePolicyTempCleanup, TrashPurgeAll, FolderTreeMutation, BlobMaintenance]"

fun task_lane :: "background_task_kind \<Rightarrow> task_lane_t" where
  "task_lane ArchiveExtract = TL_Archive"
| "task_lane ArchiveCompress = TL_Archive"
| "task_lane ArchivePreviewGenerate = TL_Archive"
| "task_lane ThumbnailGenerate = TL_Thumbnail"
| "task_lane ImagePreviewGenerate = TL_Thumbnail"
| "task_lane MediaMetadataExtract = TL_Thumbnail"
| "task_lane TrashPurgeAll = TL_Fallback"
| "task_lane FolderTreeMutation = TL_Fallback"
| "task_lane StoragePolicyTempCleanup = TL_Fallback"
| "task_lane StoragePolicyMigration = TL_StorageMigration"
| "task_lane StoragePolicyForcedPurge = TL_StorageMigration"
| "task_lane BlobMaintenance = TL_Fallback"
| "task_lane OfflineDownload = TL_OfflineDownload"
| "task_lane SystemRuntime = TL_Fallback"

fun lane_lock_key :: "task_lane_t \<Rightarrow> string" where
  "lane_lock_key TL_Archive = ''task_archive_cluster_concurrency''"
| "lane_lock_key TL_Thumbnail = ''task_thumbnail_cluster_concurrency''"
| "lane_lock_key TL_OfflineDownload = ''task_offline_download_cluster_concurrency''"
| "lane_lock_key TL_StorageMigration = ''task_storage_migration_cluster_concurrency''"
| "lane_lock_key TL_Fallback = ''task_fallback_cluster_concurrency''"

section \<open>The claim transaction\<close>

definition normalize_cluster_concurrency_config_value :: "string \<Rightarrow> string \<Rightarrow> string aster_result" where
  "normalize_cluster_concurrency_config_value key value =
     (case parse_u64 (trim value) of
        None \<Rightarrow> Inl (validation_error (key @ '' must be an integer between 0 and 65536''))
      | Some v \<Rightarrow>
          if v > 65536 then Inl (validation_error (key @ '' cannot exceed 65536''))
          else Inr (nat_to_string v))"

definition parse_cluster_concurrency :: "string \<Rightarrow> string \<Rightarrow> nat option aster_result" where
  "parse_cluster_concurrency key value =
     bind_result (normalize_cluster_concurrency_config_value key value) (\<lambda>normalized.
     Inr (case parse_u64 normalized of Some v \<Rightarrow> if v > 0 then Some v else None | None \<Rightarrow> None))"

record task_claim_candidate =
  cc_index :: nat
  cc_task_id :: int
  cc_expected_processing_token :: int
  cc_next_processing_token :: int

record claimed_task =
  ct_index :: nat
  ct_task_id :: int
  ct_processing_token :: int

fun claim_candidates_on ::
  "nat \<Rightarrow> task_claim_candidate list \<Rightarrow> time \<Rightarrow> time \<Rightarrow> claimed_task list \<Rightarrow> task_table
   \<Rightarrow> task_table \<times> claimed_task list" where
  "claim_candidates_on available [] claimed_at expires_at claimed tbl = (tbl, claimed)"
| "claim_candidates_on available (c # cs) claimed_at expires_at claimed tbl =
     (if length claimed \<ge> available then (tbl, claimed)
      else
        let (tbl', won) = try_claim (cc_task_id c) (cc_expected_processing_token c) claimed_at
                            (cc_next_processing_token c) expires_at tbl in
        claim_candidates_on available cs claimed_at expires_at
          (if won then claimed @ [\<lparr>ct_index = cc_index c, ct_task_id = cc_task_id c,
                                   ct_processing_token = cc_next_processing_token c\<rparr>]
           else claimed) tbl')"

record task_lease =
  ls_task_id :: int
  ls_processing_token :: int

text \<open>
  \<open>setting\<close> is the value of the lane's quota row in the configuration table and \<open>locked\<close> the rows that
  other transactions hold. The transaction owns the quota row's lock throughout, so claims of one lane
  are serialized.
\<close>

definition claim ::
  "(background_task list \<Rightarrow> task_claim_candidate list aster_result) \<Rightarrow> (nat \<Rightarrow> nat \<Rightarrow> nat)
   \<Rightarrow> (background_task \<Rightarrow> bool) \<Rightarrow> string option \<Rightarrow> task_lane_t \<Rightarrow> nat \<Rightarrow> time \<Rightarrow> time \<Rightarrow> task_table
   \<Rightarrow> (task_table \<times> (background_task \<times> task_lease) list) aster_result" where
  "claim candidates capacity locked setting lane max_claim now lease_expires_at tbl =
     (let key = lane_lock_key lane; kinds = task_lane_kinds lane in
      case setting of
        None \<Rightarrow> Inl (ConfigError (payload_new (''missing shared task quota '' @ key)))
      | Some value \<Rightarrow>
          bind_result (parse_cluster_concurrency key value) (\<lambda>limit.
          let available = (case limit of
                Some l \<Rightarrow> min (capacity l (count_active_processing_by_kinds now kinds tbl)) max_claim
              | None \<Rightarrow> max_claim);
              due = list_claimable_by_kinds_for_update locked now kinds available tbl in
          bind_result (candidates due) (\<lambda>cs.
          let (tbl', claimed) = claim_candidates_on available cs now lease_expires_at [] tbl in
          Inr (tbl', map (\<lambda>c. (due ! ct_index c,
                               \<lparr>ls_task_id = ct_task_id c, ls_processing_token = ct_processing_token c\<rparr>))
                         claimed))))"

section \<open>Execution store\<close>

text \<open>The lease length \<open>task_lease_expires_at\<close> belongs to the task library: \<open>lease_of\<close>.\<close>

definition lease_lost :: aster_error where
  "lease_lost = precondition_failed_with_code ''TaskLeaseLost'' ''task lease lost''"

datatype task_heartbeat_outcome = HB_Renewed | HB_CancellationRequested | HB_Lost

definition touch_task_heartbeat ::
  "task_lease \<Rightarrow> time \<Rightarrow> time \<Rightarrow> task_table \<Rightarrow> (task_table \<times> task_heartbeat_outcome) aster_result" where
  "touch_task_heartbeat lease now lease_expires_at tbl =
     (let (tbl', renewed) = touch_heartbeat (ls_task_id lease) (ls_processing_token lease) now lease_expires_at tbl in
      if renewed then Inr (tbl', HB_Renewed)
      else bind_result (find_by_id (ls_task_id lease) tbl') (\<lambda>row.
        if bt_processing_token row = ls_processing_token lease \<and> bt_status row = Canceling
        then Inr (tbl', HB_CancellationRequested) else Inr (tbl', HB_Lost)))"

definition confirm_task_succeeded :: "task_lease \<Rightarrow> task_table \<Rightarrow> bool aster_result" where
  "confirm_task_succeeded lease tbl =
     bind_result (find_by_id (ls_task_id lease) tbl) (\<lambda>current.
       Inr (bt_processing_token current = ls_processing_token lease \<and> bt_status current = Succeeded))"

definition update_task_progress_db ::
  "(time \<Rightarrow> time) \<Rightarrow> task_env \<Rightarrow> task_lease \<Rightarrow> int \<Rightarrow> int \<Rightarrow> string option \<Rightarrow> string aster_result \<Rightarrow> task_table
   \<Rightarrow> task_table aster_result" where
  "update_task_progress_db lease_of env lease current tot status_text steps tbl =
     bind_result steps (\<lambda>steps_json.
     let (tbl', ok) = mark_progress
           \<lparr>pu_id = ls_task_id lease, pu_processing_token = ls_processing_token lease, pu_now = te_now env,
            pu_lease_expires_at = lease_of (te_now env), pu_current = current, pu_total = tot,
            pu_status_text = map_option truncate_status_text status_text, pu_steps_json = Some steps_json\<rparr> tbl in
     if ok then Inr tbl' else Inl lease_lost)"

definition set_task_runtime_json ::
  "task_env \<Rightarrow> task_lease \<Rightarrow> string option \<Rightarrow> task_table \<Rightarrow> task_table aster_result" where
  "set_task_runtime_json env lease js tbl =
     (let (tbl', ok) = set_runtime_json (ls_task_id lease) (ls_processing_token lease) js (te_now env) tbl in
      if ok then Inr tbl' else Inl lease_lost)"

definition set_task_display_name :: "task_env \<Rightarrow> task_lease \<Rightarrow> string \<Rightarrow> task_table \<Rightarrow> task_table aster_result" where
  "set_task_display_name env lease name tbl =
     (let (tbl', ok) = set_display_name (ls_task_id lease) (ls_processing_token lease)
                         (truncate_display_name env name) (te_now env) tbl in
      if ok then Inr tbl' else Inl lease_lost)"

definition mark_task_succeeded ::
  "task_env \<Rightarrow> task_lease \<Rightarrow> string option \<Rightarrow> int \<Rightarrow> int \<Rightarrow> string option \<Rightarrow> string aster_result \<Rightarrow> task_table
   \<Rightarrow> task_table aster_result" where
  "mark_task_succeeded env lease result_json current tot status_text steps tbl =
     bind_result steps (\<lambda>steps_json.
     let (tbl', ok) = mark_succeeded
           \<lparr>su_id = ls_task_id lease, su_processing_token = ls_processing_token lease,
            su_result_json = result_json, su_steps_json = Some steps_json, su_current = current,
            su_total = tot, su_status_text = map_option truncate_status_text status_text,
            su_finished_at = te_now env, su_expires_at = task_expiration_from env (te_now env)\<rparr> tbl in
     if ok then Inr tbl' else Inl lease_lost)"

definition mark_task_retry ::
  "task_env \<Rightarrow> int \<Rightarrow> task_lease \<Rightarrow> int \<Rightarrow> time \<Rightarrow> string \<Rightarrow> string option \<Rightarrow> task_table \<Rightarrow> task_table \<times> bool" where
  "mark_task_retry env task_id lease attempts retry_at err steps tbl =
     mark_retry task_id (ls_processing_token lease) attempts retry_at err steps (te_now env) tbl"

definition release_task_for_shutdown ::
  "task_env \<Rightarrow> int \<Rightarrow> task_lease \<Rightarrow> task_table \<Rightarrow> (task_table \<times> bool) aster_result" where
  "release_task_for_shutdown env task_id lease tbl =
     release_processing task_id (ls_processing_token lease) (te_now env) Retry tbl"

definition is_task_lease_lost :: "aster_error \<Rightarrow> bool" where
  "is_task_lease_lost e = (api_error_code_override e = Some ''TaskLeaseLost'')"

definition is_task_lease_renewal_timed_out :: "aster_error \<Rightarrow> bool" where
  "is_task_lease_renewal_timed_out e = (api_error_code_override e = Some ''TaskLeaseRenewalTimedOut'')"

definition is_task_worker_shutdown_requested :: "aster_error \<Rightarrow> bool" where
  "is_task_worker_shutdown_requested e = (api_error_code_override e = Some ''TaskWorkerShutdownRequested'')"

definition is_cancellation_requested_error :: "aster_error \<Rightarrow> bool" where
  "is_cancellation_requested_error e = (api_error_code_override e = Some ''TaskCancellationRequested'')"

definition execution_storage_error :: "aster_error \<Rightarrow> string" where
  "execution_storage_error e = truncate_error (encode_task_error_for_storage e)"

section \<open>Cleanup of a terminal folder-tree operation\<close>

definition operation_lock_marker :: "int \<Rightarrow> string" where
  "operation_lock_marker task_id = ''folder-tree-task:'' @ int_to_string task_id"

definition deserialize_owner_info ::
  "(string \<Rightarrow> lock_owner_info aster_result) \<Rightarrow> resource_lock \<Rightarrow> lock_owner_info option aster_result" where
  "deserialize_owner_info from_json l =
     (case rl_owner_info l of
        None \<Rightarrow> Inr None
      | Some raw \<Rightarrow> bind_result (from_json raw) (\<lambda>oi. Inr (Some oi)))"

definition operation_lock_matches ::
  "(string \<Rightarrow> lock_owner_info aster_result) \<Rightarrow> resource_lock \<Rightarrow> int \<Rightarrow> string \<Rightarrow> bool aster_result" where
  "operation_lock_matches from_json l folder_id marker =
     (if rl_root_folder_id l \<noteq> Some folder_id \<or> rl_root_file_id l \<noteq> None \<or> rl_depth l \<noteq> Infinity
         \<or> rl_mode l \<noteq> Exclusive \<or> rl_origin l \<noteq> Product
      then Inr False
      else bind_result (deserialize_owner_info from_json l) (\<lambda>oi. Inr (oi = Some (OI_Text marker))))"

fun release_operation_locks ::
  "(string \<Rightarrow> lock_owner_info aster_result) \<Rightarrow> lock_env \<Rightarrow> int \<Rightarrow> string \<Rightarrow> resource_lock list \<Rightarrow> lock_db
   \<Rightarrow> lock_db aster_result" where
  "release_operation_locks from_json env folder_id marker [] db = Inr db"
| "release_operation_locks from_json env folder_id marker (l # ls) db =
     bind_result (operation_lock_matches from_json l folder_id marker) (\<lambda>matches.
     if \<not> matches then release_operation_locks from_json env folder_id marker ls db
     else bind_result (namespace_lock_by_id (rl_namespace_id l) db) (\<lambda>n.
          bind_result (increment_generation env n (delete_by_id (rl_id l) db)) (\<lambda>db'.
          release_operation_locks from_json env folder_id marker ls db')))"

definition clear_members :: "int \<Rightarrow> task_world \<Rightarrow> task_world" where
  "clear_members task_id w = w\<lparr>tw_members := fst (delete_where (\<lambda>m. m = task_id) (tw_members w))\<rparr>"

definition cleanup_terminal_operation_on ::
  "(string \<Rightarrow> int option) \<Rightarrow> (string \<Rightarrow> lock_owner_info aster_result) \<Rightarrow> lock_env \<Rightarrow> background_task
   \<Rightarrow> task_world \<Rightarrow> task_world aster_result" where
  "cleanup_terminal_operation_on decode from_json env t w =
     (if bt_kind t \<noteq> FolderTreeMutation then Inr w
      else
        case decode (bt_payload_json t) of
          None \<Rightarrow> Inr (clear_members (bt_id t) w)
        | Some folder_id \<Rightarrow>
            bind_result
              (release_operation_locks from_json env folder_id (operation_lock_marker (bt_id t))
                 (find_all_by_entity ET_Folder folder_id (tw_locks w)) (tw_locks w)) (\<lambda>db.
            Inr ((clear_members (bt_id t) w)\<lparr>tw_locks := db\<rparr>)))"

definition mark_task_failed ::
  "(string \<Rightarrow> int option) \<Rightarrow> (string \<Rightarrow> lock_owner_info aster_result) \<Rightarrow> task_env \<Rightarrow> background_task \<Rightarrow> task_lease
   \<Rightarrow> int \<Rightarrow> string \<Rightarrow> time \<Rightarrow> string option \<Rightarrow> bool \<Rightarrow> task_world \<Rightarrow> task_world \<times> bool" where
  "mark_task_failed decode from_json env t lease attempts err finished_at steps can_retry w =
     (let (tbl', marked) = mark_failed
            \<lparr>fu_id = bt_id t, fu_processing_token = ls_processing_token lease, fu_attempt_count = attempts,
             fu_last_error = err, fu_finished_at = finished_at,
             fu_expires_at = task_expiration_from env finished_at, fu_steps_json = steps,
             fu_failure_can_retry = can_retry\<rparr> (tw_tasks w);
          w1 = w\<lparr>tw_tasks := tbl'\<rparr> in
      if marked
      then (case cleanup_terminal_operation_on decode from_json (te_lock_env env) t w1 of
              Inr w2 \<Rightarrow> (w2, True)
            | Inl _ \<Rightarrow> (w1, True))
      else (w1, False))"

section \<open>Cancellation\<close>

definition conflict_error :: "string \<Rightarrow> aster_error" where
  "conflict_error m = Conflict (payload_new m)"

definition update_task :: "int \<Rightarrow> (background_task \<Rightarrow> background_task) \<Rightarrow> task_table \<Rightarrow> task_table" where
  "update_task i f tbl = fst (exec_one (\<lambda>t. bt_id t = i) f tbl)"

definition cancel_queued_row :: "task_env \<Rightarrow> background_task \<Rightarrow> background_task" where
  "cancel_queued_row env t =
     t\<lparr>bt_status := Canceled, bt_status_text := Some ''Canceled'',
       bt_processing_started_at := None, bt_last_heartbeat_at := None, bt_lease_expires_at := None,
       bt_finished_at := Some (te_now env), bt_failure_can_retry := Some True,
       bt_expires_at := task_expiration_from env (te_now env), bt_updated_at := te_now env\<rparr>"

definition cancel_running_row :: "task_env \<Rightarrow> background_task \<Rightarrow> background_task" where
  "cancel_running_row env t =
     t\<lparr>bt_status := Canceling, bt_status_text := Some ''Cancellation requested'',
       bt_updated_at := te_now env\<rparr>"

text \<open>
  The request's transaction; \<open>access\<close> is the outcome of the workspace access check. The boolean says
  whether the row changed (then the request is audited and the dispatcher woken).
\<close>

definition cancel_request ::
  "(string \<Rightarrow> int option) \<Rightarrow> (string \<Rightarrow> lock_owner_info aster_result) \<Rightarrow> unit aster_result \<Rightarrow> task_env
   \<Rightarrow> workspace_storage_scope \<Rightarrow> int \<Rightarrow> task_world \<Rightarrow> (task_world \<times> bool) aster_result" where
  "cancel_request decode from_json access env scope i w =
     bind_result access (\<lambda>_.
     case find_key bt_id i (tw_tasks w) of
       None \<Rightarrow> Inl (record_not_found ''task not found'')
     | Some t \<Rightarrow>
         bind_result (ensure_task_in_scope t scope) (\<lambda>_.
         if bt_kind t = SystemRuntime
         then Inl (precondition_failed_with_code ''TaskCancelNotAllowed''
                     ''system maintenance cannot be canceled through a workspace'')
         else if bt_status t \<in> {Canceled, Canceling} then Inr (w, False)
         else if bt_status t \<in> {Succeeded, Failed}
         then Inl (with_api_error_code ''TaskCancelNotAllowed'' (conflict_error ''task has already finished''))
         else if bt_status t \<in> {Pending, Retry}
         then bind_result (cleanup_terminal_operation_on decode from_json (te_lock_env env) t w) (\<lambda>w'.
              Inr (w'\<lparr>tw_tasks := update_task i (cancel_queued_row env) (tw_tasks w')\<rparr>, True))
         else Inr (w\<lparr>tw_tasks := update_task i (cancel_running_row env) (tw_tasks w)\<rparr>, True)))"

definition acknowledged_row :: "time \<Rightarrow> time \<Rightarrow> background_task \<Rightarrow> background_task" where
  "acknowledged_row now expires t =
     t\<lparr>bt_status := Canceled, bt_status_text := Some ''Canceled; completed changes retained'',
       bt_processing_started_at := None, bt_last_heartbeat_at := None, bt_lease_expires_at := None,
       bt_finished_at := Some now, bt_failure_can_retry := Some True, bt_expires_at := expires,
       bt_updated_at := now\<rparr>"

definition acknowledge ::
  "(string \<Rightarrow> int option) \<Rightarrow> (string \<Rightarrow> lock_owner_info aster_result) \<Rightarrow> task_env \<Rightarrow> background_task \<Rightarrow> task_lease
   \<Rightarrow> time \<Rightarrow> task_world \<Rightarrow> (task_world \<times> bool) aster_result" where
  "acknowledge decode from_json env t lease expires w =
     (let (tbl', updated) = exec_one
            (\<lambda>r. bt_id r = ls_task_id lease \<and> bt_processing_token r = ls_processing_token lease
                 \<and> bt_status r = Canceling)
            (acknowledged_row (te_now env) expires) (tw_tasks w);
          w1 = w\<lparr>tw_tasks := tbl'\<rparr> in
      if updated then bind_result (cleanup_terminal_operation_on decode from_json (te_lock_env env) t w1)
                        (\<lambda>w2. Inr (w2, True))
      else Inr (w1, False))"

section \<open>Manual retry, cleanup and the purge fence\<close>

definition task_can_retry :: "background_task \<Rightarrow> bool" where
  "task_can_retry t =
     (bt_status t \<in> {Failed, Canceled} \<and> (case bt_failure_can_retry t of Some b \<Rightarrow> b | None \<Rightarrow> True))"

definition lock_scope_on :: "lock_env \<Rightarrow> lock_workspace \<Rightarrow> task_world \<Rightarrow> task_world aster_result" where
  "lock_scope_on env ws w =
     bind_result (lock_workspace_for_mutation_on env ws (tw_locks w)) (\<lambda>(db, _). Inr (w\<lparr>tw_locks := db\<rparr>))"

definition admit_mutation_on :: "lock_env \<Rightarrow> lock_workspace \<Rightarrow> task_world \<Rightarrow> task_world aster_result" where
  "admit_mutation_on env ws w =
     bind_result (lock_scope_on env ws w) (\<lambda>w1.
     let (wt, wid) = persistence_key ws in
     if find_active_by_kind_in_workspace TrashPurgeAll wt wid (tw_tasks w1) \<noteq> None
     then Inl (with_api_error_code ''TrashPurgeInProgress'' (conflict_error
            ''Trash is being emptied; wait until the task finishes before restoring or deleting items''))
     else Inr w1)"

definition task_in_workspace :: "lock_workspace \<Rightarrow> background_task \<Rightarrow> bool" where
  "task_in_workspace ws t =
     (case ws of
        LW_Personal u \<Rightarrow> bt_team_id t = None \<and> bt_creator_user_id t = Some u
      | LW_Team team \<Rightarrow> bt_team_id t = Some team)"

definition fence_purge_on :: "time \<Rightarrow> lock_env \<Rightarrow> lock_workspace \<Rightarrow> task_lease \<Rightarrow> task_world \<Rightarrow> task_world aster_result" where
  "fence_purge_on now env ws lease w =
     bind_result (lock_scope_on env ws w) (\<lambda>w1.
     case find_key bt_id (ls_task_id lease) (tw_tasks w1) of
       None \<Rightarrow> Inl (with_api_error_code ''TaskLeaseLost'' (conflict_error ''Trash purge task lease is no longer active''))
     | Some t \<Rightarrow>
         if bt_processing_token t = ls_processing_token lease \<and> bt_status t = Canceling
         then Inl (with_api_error_code ''TaskCancellationRequested'' (conflict_error ''Trash purge cancellation requested''))
         else if \<not> (bt_processing_token t = ls_processing_token lease \<and> bt_status t = Processing
                    \<and> null_gt (bt_lease_expires_at t) now)
         then Inl (with_api_error_code ''TaskLeaseLost'' (conflict_error ''Trash purge task lease is no longer active''))
         else if bt_kind t \<noteq> TrashPurgeAll \<or> \<not> task_in_workspace ws t
         then Inl (internal_error ''Trash purge fence belongs to another scope or task kind'')
         else Inr w1)"

datatype purge_guard = PG_Mutation | PG_Task task_lease | PG_Maintenance

definition enforce_purge_guard :: "time \<Rightarrow> lock_env \<Rightarrow> purge_guard \<Rightarrow> lock_workspace \<Rightarrow> task_world \<Rightarrow> task_world aster_result" where
  "enforce_purge_guard now env g ws w =
     (case g of
        PG_Mutation \<Rightarrow> admit_mutation_on env ws w
      | PG_Task lease \<Rightarrow> fence_purge_on now env ws lease w
      | PG_Maintenance \<Rightarrow> lock_scope_on env ws w)"

definition retry_admission :: "lock_env \<Rightarrow> background_task \<Rightarrow> task_world \<Rightarrow> task_world aster_result" where
  "retry_admission env t w =
     (case bt_kind t of
        TrashPurgeAll \<Rightarrow> bind_result (task_scope t) (\<lambda>sc. lock_scope_on env (scope_lock_workspace sc) w)
      | FolderTreeMutation \<Rightarrow> bind_result (task_scope t) (\<lambda>sc. admit_mutation_on env (scope_lock_workspace sc) w)
      | _ \<Rightarrow> Inr w)"

text \<open>\<open>t\<close> is the row read before the transaction; \<open>temp_cleanup\<close> the outcome of removing its scratch directory.\<close>

definition retry_task_record ::
  "unit aster_result \<Rightarrow> task_env \<Rightarrow> background_task \<Rightarrow> task_world \<Rightarrow> task_world aster_result" where
  "retry_task_record temp_cleanup env t w =
     (if bt_status t \<notin> {Failed, Canceled}
      then Inl (validation_error_with_code ''TaskRetryStatusConflict'' ''only failed or canceled tasks can be retried'')
      else if \<not> task_can_retry t
      then Inl (validation_error_with_code ''TaskRetryNotAllowed'' ''this task failure cannot be retried'')
      else bind_result temp_cleanup (\<lambda>_.
           bind_result (te_initial_steps env (bt_kind t)) (\<lambda>steps.
           bind_result (retry_admission (te_lock_env env) t w) (\<lambda>w1.
           let (tbl', ok) = reset_for_manual_retry (bt_id t) (te_now env) (te_max_attempts env (bt_kind t))
                              (Some steps) (tw_tasks w1) in
           if \<not> ok
           then Inl (internal_error (''failed to reset task #'' @ int_to_string (bt_id t) @ '' for retry''))
           else Inr (w1\<lparr>tw_tasks := tbl'\<rparr>)))))"

definition validate_admin_task_cleanup_status :: "background_task_status option \<Rightarrow> unit aster_result" where
  "validate_admin_task_cleanup_status st =
     (if (case st of Some s \<Rightarrow> \<not> is_terminal s | None \<Rightarrow> False)
      then Inl (validation_error ''only completed task statuses can be cleaned up'') else Inr ())"

fun cleanup_operations ::
  "(string \<Rightarrow> int option) \<Rightarrow> (string \<Rightarrow> lock_owner_info aster_result) \<Rightarrow> lock_env \<Rightarrow> background_task list
   \<Rightarrow> task_world \<Rightarrow> task_world aster_result" where
  "cleanup_operations decode from_json env [] w = Inr w"
| "cleanup_operations decode from_json env (t # ts) w =
     bind_result (cleanup_terminal_operation_on decode from_json env t w)
       (\<lambda>w'. cleanup_operations decode from_json env ts w')"

definition cleanup_tasks_for_admin ::
  "(string \<Rightarrow> int option) \<Rightarrow> (string \<Rightarrow> lock_owner_info aster_result) \<Rightarrow> task_env
   \<Rightarrow> terminal_task_cleanup_filters \<Rightarrow> task_world \<Rightarrow> (task_world \<times> nat) aster_result" where
  "cleanup_tasks_for_admin decode from_json env fl w =
     bind_result (validate_admin_task_cleanup_status (cf_status fl)) (\<lambda>_.
     let tasks = list_terminal_by_filters_for_update fl (tw_tasks w) in
     bind_result (cleanup_operations decode from_json (te_lock_env env) tasks w) (\<lambda>w1.
     let (tbl', k) = delete_many (map bt_id tasks) (tw_tasks w1) in
     Inr (w1\<lparr>tw_tasks := tbl'\<rparr>, k)))"

section \<open>Runtime records\<close>

datatype system_runtime_task_kind =
    RT_MailOutboxDispatch
  | RT_BackgroundTaskDispatch
  | RT_UploadCleanup
  | RT_CompletedUploadCleanup
  | RT_BlobReconcile
  | RT_SystemHealthCheck
  | RT_RemoteNodeHealthTest
  | RT_TrashCleanup
  | RT_TeamArchiveCleanup
  | RT_LockCleanup
  | RT_AuthSessionCleanup
  | RT_ExternalAuthFlowCleanup
  | RT_MfaFlowCleanup
  | RT_AuditCleanup
  | RT_TaskCleanup
  | RT_WopiSessionCleanup

fun runtime_task_as_str :: "system_runtime_task_kind \<Rightarrow> string" where
  "runtime_task_as_str RT_MailOutboxDispatch = ''mail-outbox-dispatch''"
| "runtime_task_as_str RT_BackgroundTaskDispatch = ''background-task-dispatch''"
| "runtime_task_as_str RT_UploadCleanup = ''upload-cleanup''"
| "runtime_task_as_str RT_CompletedUploadCleanup = ''completed-upload-cleanup''"
| "runtime_task_as_str RT_BlobReconcile = ''blob-reconcile''"
| "runtime_task_as_str RT_SystemHealthCheck = ''system-health-check''"
| "runtime_task_as_str RT_RemoteNodeHealthTest = ''remote-node-health-test''"
| "runtime_task_as_str RT_TrashCleanup = ''trash-cleanup''"
| "runtime_task_as_str RT_TeamArchiveCleanup = ''team-archive-cleanup''"
| "runtime_task_as_str RT_LockCleanup = ''lock-cleanup''"
| "runtime_task_as_str RT_AuthSessionCleanup = ''auth-session-cleanup''"
| "runtime_task_as_str RT_ExternalAuthFlowCleanup = ''external-auth-flow-cleanup''"
| "runtime_task_as_str RT_MfaFlowCleanup = ''mfa-flow-cleanup''"
| "runtime_task_as_str RT_AuditCleanup = ''audit-cleanup''"
| "runtime_task_as_str RT_TaskCleanup = ''task-cleanup''"
| "runtime_task_as_str RT_WopiSessionCleanup = ''wopi-session-cleanup''"

fun runtime_task_display_name :: "system_runtime_task_kind \<Rightarrow> string" where
  "runtime_task_display_name RT_MailOutboxDispatch = ''Mail outbox dispatch''"
| "runtime_task_display_name RT_BackgroundTaskDispatch = ''Background task dispatch''"
| "runtime_task_display_name RT_UploadCleanup = ''Upload cleanup''"
| "runtime_task_display_name RT_CompletedUploadCleanup = ''Completed upload cleanup''"
| "runtime_task_display_name RT_BlobReconcile = ''Blob reconcile''"
| "runtime_task_display_name RT_SystemHealthCheck = ''System health check''"
| "runtime_task_display_name RT_RemoteNodeHealthTest = ''Remote node health test''"
| "runtime_task_display_name RT_TrashCleanup = ''Trash cleanup''"
| "runtime_task_display_name RT_TeamArchiveCleanup = ''Team archive cleanup''"
| "runtime_task_display_name RT_LockCleanup = ''Lock cleanup''"
| "runtime_task_display_name RT_AuthSessionCleanup = ''Auth session cleanup''"
| "runtime_task_display_name RT_ExternalAuthFlowCleanup = ''External auth flow cleanup''"
| "runtime_task_display_name RT_MfaFlowCleanup = ''MFA flow cleanup''"
| "runtime_task_display_name RT_AuditCleanup = ''Audit log cleanup''"
| "runtime_task_display_name RT_TaskCleanup = ''Task artifact cleanup''"
| "runtime_task_display_name RT_WopiSessionCleanup = ''WOPI session cleanup''"

fun runtime_task_from_wire_value :: "string \<Rightarrow> system_runtime_task_kind option" where
  "runtime_task_from_wire_value v =
     List.find (\<lambda>k. runtime_task_as_str k = v)
       [RT_MailOutboxDispatch, RT_BackgroundTaskDispatch, RT_UploadCleanup, RT_CompletedUploadCleanup, RT_BlobReconcile, RT_SystemHealthCheck, RT_RemoteNodeHealthTest, RT_TrashCleanup, RT_TeamArchiveCleanup, RT_LockCleanup, RT_AuthSessionCleanup, RT_ExternalAuthFlowCleanup, RT_MfaFlowCleanup, RT_AuditCleanup, RT_TaskCleanup, RT_WopiSessionCleanup]"

datatype runtime_health_status = Healthy | Degraded | Unhealthy

record runtime_system_health =
  rh_status :: runtime_health_status
  rh_components :: "string list"

datatype runtime_task_run_outcome =
    RO_Quiet
  | RO_Succeeded "string option" "runtime_system_health option"
  | RO_Failed "string option" string "runtime_system_health option"

fun should_record :: "runtime_task_run_outcome \<Rightarrow> bool" where
  "should_record RO_Quiet = False"
| "should_record _ = True"

fun outcome_status :: "runtime_task_run_outcome \<Rightarrow> background_task_status" where
  "outcome_status (RO_Failed _ _ _) = Failed"
| "outcome_status _ = Succeeded"

fun outcome_summary :: "runtime_task_run_outcome \<Rightarrow> string option" where
  "outcome_summary RO_Quiet = None"
| "outcome_summary (RO_Succeeded s _) = s"
| "outcome_summary (RO_Failed s _ _) = s"

fun outcome_error :: "runtime_task_run_outcome \<Rightarrow> string option" where
  "outcome_error (RO_Failed _ e _) = Some e"
| "outcome_error _ = None"

fun outcome_health :: "runtime_task_run_outcome \<Rightarrow> runtime_system_health option" where
  "outcome_health RO_Quiet = None"
| "outcome_health (RO_Succeeded _ h) = h"
| "outcome_health (RO_Failed _ _ h) = h"

definition should_refresh_latest_success :: "system_runtime_task_kind \<Rightarrow> runtime_task_run_outcome \<Rightarrow> bool" where
  "should_refresh_latest_success k o1 =
     (k = RT_SystemHealthCheck
      \<and> (case o1 of RO_Succeeded _ (Some h) \<Rightarrow> rh_status h = Healthy | _ \<Rightarrow> False))"

definition is_failed_outcome :: "runtime_task_run_outcome \<Rightarrow> bool" where
  "is_failed_outcome o1 = (case o1 of RO_Failed _ _ _ \<Rightarrow> True | _ \<Rightarrow> False)"

definition runtime_create ::
  "task_env \<Rightarrow> system_runtime_task_kind \<Rightarrow> string \<Rightarrow> string \<Rightarrow> time \<Rightarrow> time \<Rightarrow> runtime_task_run_outcome \<Rightarrow> string option
   \<Rightarrow> typed_task_create" where
  "runtime_create env k payload result started finished o1 dedupe =
     (let c = tc_set_finished_at finished (tc_set_started_at started (tc_progress
                (if is_failed_outcome o1 then 0 else 1) 1
                (task_create_new env SystemRuntime (runtime_task_display_name k) (Inr payload)))) in
      c\<lparr>tc_status := outcome_status o1, tc_include_steps := False,
        tc_last_error := map_option truncate_error (outcome_error o1),
        tc_failure_can_retry := (if is_failed_outcome o1 then Some False else None),
        tc_result_json := Some result,
        tc_status_text := map_option truncate_status_text (outcome_summary o1),
        tc_dedupe_key := dedupe\<rparr>)"

text \<open>\<open>payload\<close> and \<open>result\<close> are the serialized payload and result of the run.\<close>

definition record_runtime_task_run_with_dedupe_key ::
  "string aster_result \<Rightarrow> string aster_result \<Rightarrow> task_env \<Rightarrow> system_runtime_task_kind \<Rightarrow> time \<Rightarrow> time
   \<Rightarrow> runtime_task_run_outcome \<Rightarrow> string option \<Rightarrow> task_table
   \<Rightarrow> (task_table \<times> background_task option) aster_result" where
  "record_runtime_task_run_with_dedupe_key payload result env k started finished o1 dedupe tbl =
     (if \<not> should_record o1 then Inr (tbl, None)
      else bind_result payload (\<lambda>payload_json.
           bind_result result (\<lambda>result_json.
           let refreshed =
             (if should_refresh_latest_success k o1
              then (case find_latest_system_runtime_by_payload payload_json tbl of
                      Some existing \<Rightarrow>
                        if bt_status existing = Succeeded
                        then let (tbl', ok) = refresh_system_runtime_success
                               \<lparr>rf_id = bt_id existing, rf_result_json = result_json,
                                rf_status_text = map_option truncate_status_text (outcome_summary o1),
                                rf_next_run_at = finished, rf_started_at = started,
                                rf_finished_at = finished, rf_expires_at = task_expiration_from env finished\<rparr> tbl
                             in if ok then Some (tbl', bt_id existing) else None
                        else None
                    | None \<Rightarrow> None)
              else None) in
           case refreshed of
             Some (tbl', i) \<Rightarrow> bind_result (find_by_id i tbl') (\<lambda>t. Inr (tbl', Some t))
           | None \<Rightarrow>
               bind_result (insert_typed_task_record env
                  (runtime_create env k payload_json result_json started finished o1 dedupe) tbl)
                 (\<lambda>(tbl', t). Inr (tbl', Some t)))))"

section \<open>Scratch directories of finished tasks\<close>

text \<open>
  An entry of the scratch root, as the directory listing reports it: its path, whether it is a
  directory, its name when it is UTF-8, and what the check after the removal finds.
\<close>

record scratch_entry =
  sc_path :: string
  sc_is_dir :: "bool aster_result"
  sc_name :: "string option"
  sc_still_exists :: "bool aster_result"

datatype read_dir_outcome = RD_Entries "scratch_entry list" | RD_NotFound | RD_Error string

definition should_cleanup_scratch :: "time \<Rightarrow> int \<Rightarrow> task_table \<Rightarrow> bool" where
  "should_cleanup_scratch now task_id tbl =
     (case find_by_id task_id tbl of
        Inr t \<Rightarrow> bt_expires_at t \<le> now \<and> bt_status t \<in> {Succeeded, Failed, Canceled}
      | Inl _ \<Rightarrow> True)"

text \<open>The result pairs the paths handed to the removal, in order, with the returned count or error.\<close>

fun cleanup_expired_entries ::
  "time \<Rightarrow> task_table \<Rightarrow> scratch_entry list \<Rightarrow> string list \<Rightarrow> nat \<Rightarrow> string list \<times> nat aster_result" where
  "cleanup_expired_entries now tbl [] gone n = (gone, Inr n)"
| "cleanup_expired_entries now tbl (e # es) gone n =
     (case sc_is_dir e of
        Inl err \<Rightarrow> (gone, Inl err)
      | Inr False \<Rightarrow> cleanup_expired_entries now tbl es gone n
      | Inr True \<Rightarrow>
          (case sc_name e of
             None \<Rightarrow> cleanup_expired_entries now tbl es gone n
           | Some name \<Rightarrow>
               (case parse_i64 name of
                  None \<Rightarrow> cleanup_expired_entries now tbl es gone n
                | Some task_id \<Rightarrow>
                    if \<not> should_cleanup_scratch now task_id tbl
                    then cleanup_expired_entries now tbl es gone n
                    else (case sc_still_exists e of
                            Inl err \<Rightarrow> (gone @ [sc_path e], Inl err)
                          | Inr True \<Rightarrow> cleanup_expired_entries now tbl es (gone @ [sc_path e]) n
                          | Inr False \<Rightarrow> cleanup_expired_entries now tbl es (gone @ [sc_path e]) (n + 1)))))"

definition cleanup_expired_in_root ::
  "time \<Rightarrow> task_table \<Rightarrow> string \<Rightarrow> read_dir_outcome \<Rightarrow> string list \<times> nat aster_result" where
  "cleanup_expired_in_root now tbl tasks_root listing =
     (case listing of
        RD_NotFound \<Rightarrow> ([], Inr 0)
      | RD_Error err \<Rightarrow>
          ([], Inl (StorageDriverError (payload_new (''read task temp root '' @ tasks_root @ '': '' @ err))))
      | RD_Entries es \<Rightarrow> cleanup_expired_entries now tbl es [] 0)"

end
