(* ===== verification/Task_Claims.thy ===== *)
theory Task_Claims
  imports Task_Dispatch
begin

text \<open>
  Correctness of the claim transaction of \<open>Task_Dispatch\<close>: what a batch of claims does to the rows,
  the cluster quota of a lane, and the partition of the task kinds into lanes.
\<close>

section \<open>One claim\<close>

abbreviation active_rows :: "time \<Rightarrow> background_task_kind list \<Rightarrow> task_table \<Rightarrow> nat" where
  "active_rows now kinds \<equiv> count_where (active_processing_by_kinds_condition now kinds)"

lemma count_where_map_one:
  "count_where q (map (\<lambda>r. if p r then f r else r) t) \<le> count_where q t + count_where p t"
  by (induction t) auto

lemma try_claim_unique:
  "unique_key bt_id (fst (try_claim i e now n lease tbl)) = unique_key bt_id tbl"
  unfolding try_claim_def by (rule claim_ku.keeps_unique)

lemma try_claim_count:
  assumes "unique_key bt_id tbl" "try_claim i e now n lease tbl = (tbl', won)"
  shows "active_rows m kinds tbl' \<le> active_rows m kinds tbl + (if won then 1 else 0)"
proof (cases won)
  case True
  let ?p = "\<lambda>t. bt_id t = i \<and> bt_processing_token t = e \<and> claimable_condition now t"
  have "tbl' = map (\<lambda>r. if ?p r then claim_row now n lease r else r) tbl" "count_where ?p tbl = 1"
    using assms(2) True by (auto simp: try_claim_def exec_one_def)
  then show ?thesis
    using count_where_map_one [of "active_processing_by_kinds_condition m kinds" ?p
        "claim_row now n lease" tbl] True by simp
next
  case False
  then have "\<not> snd (try_claim i e now n lease tbl)" using assms(2) by simp
  then have "tbl' = tbl"
    using claim_ku.failure_keeps [OF assms(1), of i e now n lease] assms(2) unfolding try_claim_def by auto
  then show ?thesis by simp
qed

text \<open>A lease that has just been granted is out of reach of every later claim at the same instant.\<close>

definition holds_lease :: "time \<Rightarrow> task_table \<Rightarrow> int \<Rightarrow> int \<Rightarrow> bool" where
  "holds_lease lease tbl i token =
     (case find_key bt_id i tbl of
        None \<Rightarrow> False
      | Some r \<Rightarrow> bt_processing_token r = token \<and> bt_status r \<in> {Processing, Canceling}
                  \<and> bt_lease_expires_at r = Some lease)"

lemma try_claim_holds:
  assumes "unique_key bt_id tbl" "try_claim i e now n lease tbl = (tbl', True)"
  shows "holds_lease lease tbl' i n"
  using try_claim_row [OF assms] by (auto simp: holds_lease_def claim_row_def)

lemma try_claim_keeps_holder:
  assumes "unique_key bt_id tbl" "now < lease" "holds_lease lease tbl j token"
    "try_claim i e now n lease tbl = (tbl', won)"
  shows "holds_lease lease tbl' j token \<and> (won \<longrightarrow> i \<noteq> j)"
proof (cases "i = j")
  case True
  then have "\<forall>r \<in> set tbl. bt_id r = i \<longrightarrow> \<not> claimable_condition now r"
    using assms(1-3) find_key_only [OF assms(1), of i]
    by (fastforce simp: holds_lease_def claimable_condition_def processing_stale_condition_def
        split: option.splits)
  then have "try_claim i e now n lease tbl = (tbl, False)"
    unfolding try_claim_def by (intro exec_one_no_match) auto
  then show ?thesis using assms(3,4) by simp
next
  case False
  have "find_key bt_id j tbl' = find_key bt_id j tbl"
    using claim_ku.other_rows [of j i e now n lease tbl] assms(4) False unfolding try_claim_def by simp
  then show ?thesis using assms(3) False by (simp add: holds_lease_def)
qed

section \<open>A batch of claims\<close>

abbreviation holds_all :: "time \<Rightarrow> task_table \<Rightarrow> claimed_task list \<Rightarrow> bool" where
  "holds_all lease tbl claimed \<equiv>
     distinct (map ct_task_id claimed)
     \<and> (\<forall>c \<in> set claimed. holds_lease lease tbl (ct_task_id c) (ct_processing_token c))"

lemma claim_candidates_unique:
  "claim_candidates_on av cs now lease claimed tbl = (tbl', out) \<Longrightarrow>
   unique_key bt_id tbl' = unique_key bt_id tbl"
proof (induction cs arbitrary: claimed tbl)
  case (Cons c cs)
  then show ?case
    using try_claim_unique [of "cc_task_id c" "cc_expected_processing_token c" now
        "cc_next_processing_token c" lease tbl]
    by (auto simp: case_prod_beta Let_def split: if_splits)
qed simp

lemma claim_candidates_count:
  assumes "unique_key bt_id tbl" "claim_candidates_on av cs now lease claimed tbl = (tbl', out)"
    "length claimed \<le> av"
  shows "active_rows m kinds tbl' + length claimed \<le> active_rows m kinds tbl + length out
         \<and> length out \<le> av"
  using assms
proof (induction cs arbitrary: claimed tbl)
  case (Cons c cs)
  obtain tbl1 won where tc: "try_claim (cc_task_id c) (cc_expected_processing_token c) now
      (cc_next_processing_token c) lease tbl = (tbl1, won)" by (metis surj_pair)
  have u: "unique_key bt_id tbl1" using Cons.prems(1) try_claim_unique tc by (metis fst_conv)
  show ?case
  proof (cases "length claimed \<ge> av")
    case True
    then show ?thesis using Cons.prems by simp
  next
    case False
    then show ?thesis
      using Cons.IH [OF u, of "if won then claimed @ [\<lparr>ct_index = cc_index c, ct_task_id = cc_task_id c,
                                   ct_processing_token = cc_next_processing_token c\<rparr>] else claimed"]
        Cons.prems tc try_claim_count [OF Cons.prems(1) tc, of m kinds]
      by (auto split: if_splits)
  qed
qed simp

lemma claim_candidates_hold:
  assumes "unique_key bt_id tbl" "now < lease"
    "claim_candidates_on av cs now lease claimed tbl = (tbl', out)" "holds_all lease tbl claimed"
  shows "holds_all lease tbl' out"
  using assms
proof (induction cs arbitrary: claimed tbl)
  case (Cons c cs)
  obtain tbl1 won where tc: "try_claim (cc_task_id c) (cc_expected_processing_token c) now
      (cc_next_processing_token c) lease tbl = (tbl1, won)" by (metis surj_pair)
  have u: "unique_key bt_id tbl1" using Cons.prems(1) try_claim_unique tc by (metis fst_conv)
  have keep: "\<forall>d \<in> set claimed. holds_lease lease tbl1 (ct_task_id d) (ct_processing_token d)
              \<and> (won \<longrightarrow> cc_task_id c \<noteq> ct_task_id d)"
    using try_claim_keeps_holder [OF Cons.prems(1,2) _ tc] Cons.prems(4) by blast
  have new: "won \<Longrightarrow> holds_lease lease tbl1 (cc_task_id c) (cc_next_processing_token c)"
    using try_claim_holds [OF Cons.prems(1)] tc by simp
  show ?case
  proof (cases "length claimed \<ge> av")
    case True
    then show ?thesis using Cons.prems by simp
  next
    case False
    have "holds_all lease tbl1 (if won then claimed @ [\<lparr>ct_index = cc_index c, ct_task_id = cc_task_id c,
                                   ct_processing_token = cc_next_processing_token c\<rparr>] else claimed)"
      using keep new Cons.prems(4) by auto
    then show ?thesis using Cons.IH [OF u Cons.prems(2)] Cons.prems(3) False tc by (simp split: if_splits)
  qed
qed simp

lemma claim_candidates_from:
  "claim_candidates_on av cs now lease claimed tbl = (tbl', out) \<Longrightarrow> x \<in> set out \<Longrightarrow>
   x \<in> set claimed \<or> (\<exists>c \<in> set cs. x = \<lparr>ct_index = cc_index c, ct_task_id = cc_task_id c,
                                       ct_processing_token = cc_next_processing_token c\<rparr>)"
  by (induction cs arbitrary: claimed tbl) (fastforce simp: case_prod_beta Let_def split: if_splits)+

section \<open>The claim transaction\<close>

text \<open>
  What the transaction relies on of the task library: \<open>task_claim_candidates\<close> describes the rows it was
  given by their position and gives each a token that differs from the current one, and
  \<open>available_lane_capacity\<close> never exceeds what the limit leaves.
\<close>

definition candidates_ok :: "(background_task list \<Rightarrow> task_claim_candidate list aster_result) \<Rightarrow> bool" where
  "candidates_ok candidates =
     (\<forall>rows cs. candidates rows = Inr cs \<longrightarrow>
        (\<forall>c \<in> set cs. cc_index c < length rows
            \<and> cc_task_id c = bt_id (rows ! cc_index c)
            \<and> cc_expected_processing_token c = bt_processing_token (rows ! cc_index c)
            \<and> cc_next_processing_token c > cc_expected_processing_token c))"

definition capacity_ok :: "(nat \<Rightarrow> nat \<Rightarrow> nat) \<Rightarrow> bool" where
  "capacity_ok capacity = (\<forall>limit active. capacity limit active \<le> limit - active)"

lemma claim_InrD:
  assumes "claim candidates capacity locked setting lane mx now lease tbl = Inr (tbl', out)"
  obtains v limit av cs claimed where
    "setting = Some v" "parse_cluster_concurrency (lane_lock_key lane) v = Inr limit"
    "av = (case limit of
             Some l \<Rightarrow> min (capacity l (count_active_processing_by_kinds now (task_lane_kinds lane) tbl)) mx
           | None \<Rightarrow> mx)"
    "candidates (list_claimable_by_kinds_for_update locked now (task_lane_kinds lane) av tbl) = Inr cs"
    "claim_candidates_on av cs now lease [] tbl = (tbl', claimed)"
    "out = map (\<lambda>c. (list_claimable_by_kinds_for_update locked now (task_lane_kinds lane) av tbl ! ct_index c,
                     \<lparr>ls_task_id = ct_task_id c, ls_processing_token = ct_processing_token c\<rparr>)) claimed"
proof -
  let ?k = "task_lane_kinds lane"
  obtain v limit where v: "setting = Some v" "parse_cluster_concurrency (lane_lock_key lane) v = Inr limit"
    using assms by (cases setting) (auto simp: claim_def Let_def bind_result_Inr_iff)
  define av where "av = (case limit of
      Some l \<Rightarrow> min (capacity l (count_active_processing_by_kinds now ?k tbl)) mx | None \<Rightarrow> mx)"
  define due where "due = list_claimable_by_kinds_for_update locked now ?k av tbl"
  have r: "bind_result (candidates due) (\<lambda>cs.
      case claim_candidates_on av cs now lease [] tbl of (t, claimed) \<Rightarrow>
        Inr (t, map (\<lambda>c. (due ! ct_index c,
                  \<lparr>ls_task_id = ct_task_id c, ls_processing_token = ct_processing_token c\<rparr>)) claimed))
      = Inr (tbl', out)"
    using assms v by (simp add: claim_def Let_def av_def due_def)
  then obtain cs where cs: "candidates due = Inr cs" unfolding bind_result_Inr_iff by blast
  obtain t claimed where cc: "claim_candidates_on av cs now lease [] tbl = (t, claimed)" by (metis surj_pair)
  show thesis using that [OF v av_def cs [unfolded due_def], of claimed] r cs cc
    by (simp add: due_def)
qed

lemma parse_cluster_concurrency_exact:
  "parse_cluster_concurrency key value =
     (case parse_u64 (trim value) of
        None \<Rightarrow> Inl (validation_error (key @ '' must be an integer between 0 and 65536''))
      | Some v \<Rightarrow>
          if v > 65536 then Inl (validation_error (key @ '' cannot exceed 65536''))
          else Inr (if v = 0 then None else Some v))"
  by (simp add: parse_cluster_concurrency_def normalize_cluster_concurrency_config_value_def
      parse_u64_nat_to_string split: option.splits)

lemma kinds_nonempty [simp]: "task_lane_kinds lane \<noteq> []"
  by (cases lane) auto

lemma claimable_listed:
  "r \<in> set (list_claimable_by_kinds_for_update locked now kinds n tbl)
   \<Longrightarrow> r \<in> set tbl \<and> claimable_condition now r \<and> bt_kind r \<in> set kinds"
  by (auto simp: list_claimable_by_kinds_for_update_def list_claimable_query_def select_where_def
      split: if_splits dest!: in_set_takeD)

text \<open>
  (C19) The cluster quota. A claim that a dispatcher makes under a configured limit never takes the number
  of live leases of the lane above that limit (or above what it already was, after the limit was
  lowered), and grants at most \<open>max_claim\<close> leases.
\<close>

theorem claim_respects_cluster_quota:
  assumes "unique_key bt_id tbl" "capacity_ok capacity"
    and "claim candidates capacity locked (Some value) lane max_claim now lease tbl = Inr (tbl', out)"
    and "parse_cluster_concurrency (lane_lock_key lane) value = Inr limit"
  shows "length out \<le> max_claim
       \<and> (\<forall>l. limit = Some l \<longrightarrow>
            count_active_processing_by_kinds now (task_lane_kinds lane) tbl'
            \<le> max l (count_active_processing_by_kinds now (task_lane_kinds lane) tbl))"
proof -
  let ?k = "task_lane_kinds lane"
  obtain av cs claimed where *:
    "av = (case limit of Some l \<Rightarrow> min (capacity l (count_active_processing_by_kinds now ?k tbl)) max_claim
           | None \<Rightarrow> max_claim)"
    "claim_candidates_on av cs now lease [] tbl = (tbl', claimed)" "length out = length claimed"
    using assms(3,4) by (elim claim_InrD) auto
  have c: "active_rows now ?k tbl' \<le> active_rows now ?k tbl + length claimed" "length claimed \<le> av"
    using claim_candidates_count [OF assms(1) *(2), of now ?k] by auto
  have cap: "capacity l n \<le> l - n" for l n using assms(2) by (simp add: capacity_ok_def)
  show ?thesis
    using c * cap [of "the limit" "active_rows now ?k tbl"]
    by (cases limit) (auto simp: count_active_processing_by_kinds_def)
qed

text \<open>
  The leases a claim returns are real and exclusive: they are for different tasks of the lane, each
  task was claimable when it was read, and each row now carries the token of its lease, a processing
  status and the granted expiry.
\<close>

theorem claimed_leases_are_held:
  assumes "unique_key bt_id tbl" "candidates_ok candidates" "now < lease"
    and "claim candidates capacity locked setting lane max_claim now lease tbl = Inr (tbl', out)"
  shows "distinct (map (ls_task_id \<circ> snd) out)
       \<and> (\<forall>(t, l) \<in> set out. t \<in> set tbl \<and> claimable_condition now t
            \<and> bt_kind t \<in> set (task_lane_kinds lane) \<and> bt_id t = ls_task_id l
            \<and> holds_lease lease tbl' (ls_task_id l) (ls_processing_token l))"
proof -
  obtain av cs claimed where *:
    "candidates (list_claimable_by_kinds_for_update locked now (task_lane_kinds lane) av tbl) = Inr cs"
    "claim_candidates_on av cs now lease [] tbl = (tbl', claimed)"
    "out = map (\<lambda>c. (list_claimable_by_kinds_for_update locked now (task_lane_kinds lane) av tbl ! ct_index c,
                     \<lparr>ls_task_id = ct_task_id c, ls_processing_token = ct_processing_token c\<rparr>)) claimed"
    using assms(4) by (elim claim_InrD) auto
  let ?due = "list_claimable_by_kinds_for_update locked now (task_lane_kinds lane) av tbl"
  have hold: "holds_all lease tbl' claimed"
    using claim_candidates_hold [OF assms(1,3) *(2)] by simp
  have from_due: "ct_index c < length ?due \<and> ct_task_id c = bt_id (?due ! ct_index c)"
    if "c \<in> set claimed" for c
    using claim_candidates_from [OF *(2) that] assms(2) *(1) by (auto simp: candidates_ok_def)
  show ?thesis
    using hold from_due claimable_listed [OF nth_mem, of _ locked now "task_lane_kinds lane" av tbl] *(3)
    by (auto simp: comp_def)
qed

definition ex_candidates :: "background_task list \<Rightarrow> task_claim_candidate list aster_result" where
  "ex_candidates rows = Inr (map (\<lambda>i. \<lparr>cc_index = i, cc_task_id = bt_id (rows ! i),
     cc_expected_processing_token = bt_processing_token (rows ! i),
     cc_next_processing_token = bt_processing_token (rows ! i) + 1\<rparr>) [0..<length rows])"

definition ex_queue :: task_table where
  "ex_queue = [ex_task, ex_task\<lparr>bt_id := 8, bt_status := Pending, bt_lease_expires_at := None\<rparr>,
               ex_task\<lparr>bt_id := 9, bt_status := Retry, bt_lease_expires_at := None\<rparr>]"

lemma ex_candidates_ok: "candidates_ok ex_candidates"
  by (auto simp: candidates_ok_def ex_candidates_def)

lemma ex_capacity_ok: "capacity_ok (-)"
  by (simp add: capacity_ok_def)

lemma ex_queue_unique: "unique_key bt_id ex_queue"
  by (simp add: ex_queue_def ex_task_def unique_key_def)

lemma trim_id: "leading_whitespace s = 0 \<Longrightarrow> trailing_whitespace s = 0 \<Longrightarrow> trim s = s"
  by (simp add: trim_def trim_start.simps trim_end.simps)

lemma ex_limit: "parse_cluster_concurrency key ''2'' = Inr (Some 2)"
proof -
  have "leading_whitespace ''2'' = 0" "trailing_whitespace ''2'' = 0"
    by (simp_all add: leading_whitespace_def trailing_whitespace_def whitespace_seqs_def suffix_def char_of_def)
  then have "trim ''2'' = ''2''" by (rule trim_id)
  then have "parse_u64 (trim ''2'') = Some 2"
    by (simp add: parse_u64_def parse_nat_digits_def is_digit_def digits_value_def)
  then show ?thesis by (simp add: parse_cluster_concurrency_exact)
qed

text \<open>One lease is alive and the limit is 2, so one of the two waiting tasks is claimed.\<close>

definition ex_claimed :: "task_table \<times> (background_task \<times> task_lease) list" where
  "ex_claimed = ([ex_task, claim_row 10 2 70 (ex_queue ! 1), ex_queue ! 2],
                 [(ex_queue ! 1, \<lparr>ls_task_id = 8, ls_processing_token = 2\<rparr>)])"

lemmas ex_claim_eval = ex_queue_def ex_task_eval count_active_processing_by_kinds_def
  active_processing_by_kinds_condition_def

lemma ex_claim: "claim ex_candidates (-) (\<lambda>_. False) (Some ''2'') TL_Archive 16 10 70 ex_queue
   = Inr (fst ex_claimed, snd ex_claimed)"
proof -
  let ?due = "list_claimable_by_kinds_for_update (\<lambda>_. False) 10 (task_lane_kinds TL_Archive) 1 ex_queue"
  have act: "count_active_processing_by_kinds 10 (task_lane_kinds TL_Archive) ex_queue = 1"
    by (simp add: ex_claim_eval)
  have due: "?due = [ex_queue ! 1]"
    by (simp add: ex_claim_eval list_claimable_by_kinds_for_update_def list_claimable_query_def
        select_where_def)
  have won: "try_claim 8 1 10 2 70 ex_queue = (fst ex_claimed, True)"
    by (simp add: ex_claim_eval ex_claimed_def)
  have row: "bt_id (ex_queue ! 1) = 8" "bt_processing_token (ex_queue ! 1) = 1"
    by (simp_all add: ex_claim_eval)
  show ?thesis
    using act due won row by (simp add: claim_def ex_limit ex_candidates_def ex_claimed_def Let_def)
qed

theorem claim_respects_cluster_quota_witness:
  "unique_key bt_id ex_queue \<and> capacity_ok (-)
   \<and> claim ex_candidates (-) (\<lambda>_. False) (Some ''2'') TL_Archive 16 10 70 ex_queue = Inr (fst ex_claimed, snd ex_claimed)
   \<and> count_active_processing_by_kinds 10 (task_lane_kinds TL_Archive) ex_queue = 1
   \<and> count_active_processing_by_kinds 10 (task_lane_kinds TL_Archive) (fst ex_claimed) \<le> 2"
proof -
  have "count_active_processing_by_kinds 10 (task_lane_kinds TL_Archive) ex_queue = 1"
    by (simp add: ex_claim_eval)
  then show ?thesis
    using claim_respects_cluster_quota [OF ex_queue_unique ex_capacity_ok ex_claim ex_limit]
    by (simp add: ex_queue_unique ex_capacity_ok ex_claim)
qed

theorem claimed_leases_are_held_witness:
  "unique_key bt_id ex_queue \<and> candidates_ok ex_candidates
   \<and> claim ex_candidates (-) (\<lambda>_. False) (Some ''2'') TL_Archive 16 10 70 ex_queue = Inr (fst ex_claimed, snd ex_claimed)
   \<and> holds_lease 70 (fst ex_claimed) 8 2"
proof -
  have "(ex_queue ! 1, \<lparr>ls_task_id = 8, ls_processing_token = 2\<rparr>) \<in> set (snd ex_claimed)"
    by (simp add: ex_claimed_def)
  then show ?thesis
    using claimed_leases_are_held [OF ex_queue_unique ex_candidates_ok _ ex_claim]
    by (fastforce simp: ex_queue_unique ex_candidates_ok ex_claim)
qed

section \<open>Lanes\<close>

text \<open>
  The lanes partition the task kinds: the two tables of the dispatcher, kind to lane and lane to
  kinds, agree, every lane is scheduled, no kind is listed twice, and the quota keys of the lanes are
  different.
\<close>

theorem lanes_partition_kinds:
  "(k \<in> set (task_lane_kinds l)) = (task_lane k = l) \<and> l \<in> set TASK_LANES
   \<and> distinct (concat (map task_lane_kinds TASK_LANES)) \<and> distinct (map lane_lock_key TASK_LANES)"
  by (cases k; cases l) (simp_all add: TASK_LANES_def)

end
