(* ===== verification/Task_Lifecycle.thy ===== *)
theory Task_Lifecycle
  imports Task_Claims
begin

text \<open>
  The life of background tasks as a transition system. A state holds the tables, the next id of the
  task sequence and the rows that workers and request handlers have read earlier (their snapshots may
  be stale when they are used). Every operation of \<open>Task_Dispatch\<close> that writes the task table is a
  step; steps of any number of dispatchers, workers and requests interleave freely.
\<close>

section \<open>Well-formed rows\<close>

definition row_ok :: "background_task \<Rightarrow> bool" where
  "row_ok t =
     ((bt_status t \<in> {Processing, Canceling}) = (bt_lease_expires_at t \<noteq> None)
      \<and> is_terminal (bt_status t) = (bt_finished_at t \<noteq> None)
      \<and> (bt_kind t = SystemRuntime \<longrightarrow>
           bt_status t = Succeeded \<or> bt_status t = Failed \<and> bt_failure_can_retry t = Some False))"

text \<open>How one row may change: it keeps its identity and kind, its token never decreases.\<close>

definition row_evolves :: "background_task \<Rightarrow> background_task \<Rightarrow> bool" where
  "row_evolves r r' =
     (bt_id r' = bt_id r \<and> bt_kind r' = bt_kind r \<and> bt_processing_token r \<le> bt_processing_token r'
      \<and> (row_ok r \<longrightarrow> row_ok r'))"

abbreviation table_evolves :: "task_table \<Rightarrow> task_table \<Rightarrow> bool" where
  "table_evolves tbl tbl' \<equiv> list_all2 row_evolves tbl tbl'"

lemma row_evolves_refl [simp, intro]: "row_evolves r r"
  by (simp add: row_evolves_def)

lemma table_evolves_refl [simp, intro]: "table_evolves tbl tbl"
  by (simp add: list_all2_refl)

lemma row_evolves_trans: "row_evolves a b \<Longrightarrow> row_evolves b c \<Longrightarrow> row_evolves a c"
  by (auto simp: row_evolves_def)

lemma table_evolves_trans: "table_evolves a b \<Longrightarrow> table_evolves b c \<Longrightarrow> table_evolves a c"
  by (rule list_all2_trans [OF row_evolves_trans])

lemma table_evolves_ids: "table_evolves tbl tbl' \<Longrightarrow> map bt_id tbl' = map bt_id tbl"
  by (induction rule: list_all2_induct) (auto simp: row_evolves_def)

lemma table_evolves_origin: "table_evolves tbl tbl' \<Longrightarrow> r' \<in> set tbl' \<Longrightarrow> \<exists>r \<in> set tbl. row_evolves r r'"
  by (induction rule: list_all2_induct) auto

lemma exec_one_evolves:
  assumes "\<And>r. r \<in> set tbl \<Longrightarrow> p r \<Longrightarrow> row_evolves r (f r)"
  shows "table_evolves tbl (fst (exec_one p f tbl))"
  using assms by (auto simp: exec_one_def list_all2_conv_all_nth)

lemma exec_one_evolves':
  assumes "exec_one p f tbl = (tbl', b)" "\<And>r. r \<in> set tbl \<Longrightarrow> p r \<Longrightarrow> row_evolves r (f r)"
  shows "table_evolves tbl tbl'"
  using exec_one_evolves [of tbl p f] assms by simp

section \<open>Every write evolves the table\<close>

lemmas evolve_defs = row_evolves_def row_ok_def is_terminal_def fenced_row_def

lemma worker_rows_evolve:
  assumes "fenced_row i token r"
  shows "row_evolves r (heartbeat_row now lease r)"
    and "row_evolves r (progress_row pu r)"
    and "row_evolves r (runtime_row js now r)"
    and "row_evolves r (display_row nm now r)"
    and "row_evolves r (success_row su r)"
    and "row_evolves r (retry_row attempts next_run err steps now r)"
    and "st \<in> {Pending, Retry} \<Longrightarrow> row_evolves r (release_row now st r)"
    and "row_evolves r (failure_row fu r)"
  using assms
  by (auto simp: evolve_defs heartbeat_row_def progress_row_def runtime_row_def display_row_def
      success_row_def retry_row_def release_row_def failure_row_def)

lemma claim_row_evolves:
  assumes "claimable_condition now r" "bt_processing_token r < n"
  shows "row_evolves r (claim_row now n lease r)"
  using assms
  by (auto simp: evolve_defs claim_row_def claimable_condition_def processing_stale_condition_def)

lemma refresh_row_evolves:
  "bt_kind r = SystemRuntime \<Longrightarrow> bt_status r = Succeeded \<Longrightarrow> row_evolves r (refresh_row rf r)"
  by (auto simp: evolve_defs refresh_row_def)

lemma reset_row_evolves: "bt_kind r \<noteq> SystemRuntime \<Longrightarrow> row_evolves r (reset_row now m steps r)"
  by (auto simp: evolve_defs reset_row_def)

lemma cancel_rows_evolve:
  assumes "bt_kind r \<noteq> SystemRuntime"
  shows "row_evolves r (cancel_queued_row env r)"
    and "bt_status r = Processing \<Longrightarrow> row_evolves r (cancel_running_row env r)"
  using assms by (auto simp: evolve_defs cancel_queued_row_def cancel_running_row_def)

lemma acknowledged_row_evolves: "bt_status r = Canceling \<Longrightarrow> row_evolves r (acknowledged_row now ex r)"
  by (auto simp: evolve_defs acknowledged_row_def)

lemma claim_candidates_evolve:
  assumes "claim_candidates_on av cs now lease claimed tbl = (tbl', out)"
    "\<forall>c \<in> set cs. cc_expected_processing_token c < cc_next_processing_token c"
  shows "table_evolves tbl tbl'"
  using assms
proof (induction cs arbitrary: claimed tbl)
  case (Cons c cs)
  obtain tbl1 won where tc: "try_claim (cc_task_id c) (cc_expected_processing_token c) now
      (cc_next_processing_token c) lease tbl = (tbl1, won)" by (metis surj_pair)
  have "table_evolves tbl tbl1"
    using tc Cons.prems(2) unfolding try_claim_def
    by (elim exec_one_evolves') (auto intro: claim_row_evolves)
  then show ?case using Cons tc by (auto split: if_splits intro: table_evolves_trans)
qed simp

lemma claim_evolves:
  assumes "candidates_ok candidates"
    "claim candidates capacity locked setting lane mx now lease tbl = Inr (tbl', out)"
  shows "table_evolves tbl tbl'"
  using assms(2)
  by (elim claim_InrD)
     (use assms(1) in \<open>auto simp: candidates_ok_def intro!: claim_candidates_evolve\<close>)

lemma worker_writes_evolve [intro]:
  "table_evolves tbl (fst (touch_heartbeat i token now lease tbl))"
  "table_evolves tbl (fst (mark_progress pu tbl))"
  "table_evolves tbl (fst (set_runtime_json i token js now tbl))"
  "table_evolves tbl (fst (set_display_name i token nm now tbl))"
  "table_evolves tbl (fst (mark_succeeded su tbl))"
  "table_evolves tbl (fst (mark_retry i token attempts next_run err steps now tbl))"
  "table_evolves tbl (fst (mark_failed fu tbl))"
  unfolding fenced_write_defs by (rule exec_one_evolves, erule worker_rows_evolve)+

lemma release_evolves:
  "release_processing i token now st tbl = Inr (tbl', b) \<Longrightarrow> table_evolves tbl tbl'"
  by (auto simp: release_processing_def split: if_splits elim!: exec_one_evolves' intro!: worker_rows_evolve(7))

text \<open>The execution store reports a refused write as an error, so what it returns is an evolved table.\<close>

lemmas store_defs = touch_task_heartbeat_def update_task_progress_db_def set_task_runtime_json_def
  set_task_display_name_def mark_task_succeeded_def mark_task_retry_def release_task_for_shutdown_def

lemma store_writes_evolve:
  "touch_task_heartbeat lease now ex tbl = Inr (tbl', hb) \<Longrightarrow> table_evolves tbl tbl'"
  "update_task_progress_db lease_of env lease cur tot txt steps tbl = Inr tbl' \<Longrightarrow> table_evolves tbl tbl'"
  "set_task_runtime_json env lease js tbl = Inr tbl' \<Longrightarrow> table_evolves tbl tbl'"
  "set_task_display_name env lease nm tbl = Inr tbl' \<Longrightarrow> table_evolves tbl tbl'"
  "mark_task_succeeded env lease result cur tot txt steps tbl = Inr tbl' \<Longrightarrow> table_evolves tbl tbl'"
  by (auto simp: store_defs bind_result_Inr_iff case_prod_beta Let_def split: if_splits)

lemma release_writes_evolve:
  "mark_task_retry env i lease attempts at err st tbl = (tbl', b) \<Longrightarrow> table_evolves tbl tbl'"
  "release_task_for_shutdown env i lease tbl = Inr (tbl', b) \<Longrightarrow> table_evolves tbl tbl'"
  using worker_writes_evolve(6) [of tbl i "ls_processing_token lease" attempts at err st "te_now env"]
  by (auto simp: store_defs intro: release_evolves)

lemma cleanup_keeps_tasks:
  "cleanup_terminal_operation_on decode from_json env t w = Inr w' \<Longrightarrow> tw_tasks w' = tw_tasks w"
  by (auto simp: cleanup_terminal_operation_on_def clear_members_def bind_result_Inr_iff
      split: if_splits option.splits)

lemma cleanup_operations_keeps_tasks:
  "cleanup_operations decode from_json env ts w = Inr w' \<Longrightarrow> tw_tasks w' = tw_tasks w"
  by (induction ts arbitrary: w) (auto simp: bind_result_Inr_iff dest!: cleanup_keeps_tasks)

lemma failed_evolves:
  "mark_task_failed decode from_json env t lease attempts err fin steps can w = (w', b)
   \<Longrightarrow> table_evolves (tw_tasks w) (tw_tasks w')"
  by (auto simp: mark_task_failed_def Let_def case_prod_beta split: if_splits sum.splits
      dest!: cleanup_keeps_tasks)

lemma acknowledge_evolves:
  "acknowledge decode from_json env t lease ex w = Inr (w', b) \<Longrightarrow> table_evolves (tw_tasks w) (tw_tasks w')"
  by (auto simp: acknowledge_def Let_def bind_result_Inr_iff case_prod_beta split: if_splits
      dest!: cleanup_keeps_tasks intro!: exec_one_evolves acknowledged_row_evolves)

lemma cancel_evolves:
  assumes "unique_key bt_id (tw_tasks w)" "cancel_request decode from_json access env scope i w = Inr (w', b)"
  shows "table_evolves (tw_tasks w) (tw_tasks w')"
proof -
  obtain t where t: "find_key bt_id i (tw_tasks w) = Some t"
    using assms(2) by (auto simp: cancel_request_def bind_result_Inr_iff split: option.splits)
  have only: "r = t" if "r \<in> set (tw_tasks w)" "bt_id r = i" for r
    using find_key_only [OF assms(1) t that] .
  have status: "bt_status t = Processing"
    if "bt_status t \<notin> {Canceled, Canceling}" "bt_status t \<notin> {Succeeded, Failed}" "bt_status t \<notin> {Pending, Retry}"
    using that by (cases "bt_status t") auto
  show ?thesis
    using assms(2) t only status
    by (auto simp: cancel_request_def bind_result_Inr_iff update_task_def split: if_splits
        dest!: cleanup_keeps_tasks intro!: exec_one_evolves cancel_rows_evolve)
qed

lemma lock_scope_keeps_tasks: "lock_scope_on env ws w = Inr w' \<Longrightarrow> tw_tasks w' = tw_tasks w"
  by (auto simp: lock_scope_on_def bind_result_Inr_iff)

lemma admit_keeps_tasks: "admit_mutation_on env ws w = Inr w' \<Longrightarrow> tw_tasks w' = tw_tasks w"
  by (auto simp: admit_mutation_on_def bind_result_Inr_iff case_prod_beta Let_def split: if_splits
      dest!: lock_scope_keeps_tasks)

lemma retry_admission_keeps_tasks: "retry_admission env t w = Inr w' \<Longrightarrow> tw_tasks w' = tw_tasks w"
  by (cases "bt_kind t") (auto simp: retry_admission_def bind_result_Inr_iff
      dest!: lock_scope_keeps_tasks admit_keeps_tasks)

lemma retry_evolves:
  assumes "retry_task_record temp env t w = Inr w'" "row_ok t"
    "\<And>r. r \<in> set (tw_tasks w) \<Longrightarrow> bt_id r = bt_id t \<Longrightarrow> bt_kind r = bt_kind t"
  shows "table_evolves (tw_tasks w) (tw_tasks w')"
proof -
  have kind: "bt_kind t \<noteq> SystemRuntime"
    using assms(1,2) by (auto simp: retry_task_record_def task_can_retry_def row_ok_def split: if_splits)
  show ?thesis
    using assms(1,3) kind
    by (auto simp: retry_task_record_def bind_result_Inr_iff Let_def reset_for_manual_retry_def
        case_prod_beta split: if_splits dest!: retry_admission_keeps_tasks
        intro!: exec_one_evolves reset_row_evolves)
qed

section \<open>Insertions\<close>

text \<open>
  What the service inserts: tasks that wait to be claimed (\<open>TypedTaskCreate::new\<close> and its builder
  methods, none of which a service uses to change the initial status), and finished runtime records.
\<close>

definition queued_create :: "typed_task_create \<Rightarrow> bool" where
  "queued_create c = (tc_status c = Pending \<and> tc_finished_at c = None \<and> tc_kind c \<noteq> SystemRuntime)"

lemma insert_cases:
  assumes "insert_typed_task_record env c tbl = Inr (tbl', t)"
  obtains (existing) "tbl' = tbl"
  | (inserted) row where "into_active_model env c = Inr row" "tbl' = tbl @ [row\<lparr>bt_id := te_new_task_id env\<rparr>]"
proof -
  obtain row where row: "into_active_model env c = Inr row"
    using assms by (auto simp: insert_typed_task_record_def bind_result_Inr_iff)
  show thesis
  proof (cases "create (te_new_task_id env) row tbl")
    case (Inl e)
    then have "tbl' = tbl"
      using assms row by (simp add: insert_typed_task_record_def split: option.splits)
    then show thesis by (rule existing)
  next
    case (Inr x)
    then have "tbl' = tbl @ [row\<lparr>bt_id := te_new_task_id env\<rparr>]"
      using assms row by (simp add: insert_typed_task_record_def)
         (auto simp: create_def Let_def split: if_splits)
    then show thesis by (rule inserted [OF row])
  qed
qed

lemma active_model_fields:
  assumes "into_active_model env c = Inr row"
  shows "bt_status row = tc_status c" "bt_kind row = tc_kind c" "bt_lease_expires_at row = None"
    "bt_finished_at row = tc_finished_at c" "bt_failure_can_retry row = tc_failure_can_retry c"
    "bt_dedupe_key row = tc_dedupe_key c" "bt_processing_token row = 0"
  using assms by (auto simp: into_active_model_def bind_result_Inr_iff)

lemma runtime_create_fields:
  "tc_status (runtime_create env k p r st fi oc d) = outcome_status oc"
  "tc_finished_at (runtime_create env k p r st fi oc d) = Some fi"
  "tc_failure_can_retry (runtime_create env k p r st fi oc d) = (if is_failed_outcome oc then Some False else None)"
  "tc_kind (runtime_create env k p r st fi oc d) = SystemRuntime"
  by (simp_all add: runtime_create_def Let_def tc_set_finished_at_def tc_set_started_at_def
      tc_progress_def task_create_new_def)

lemma inserted_row_ok:
  assumes "into_active_model env c = Inr row" "queued_create c \<or> c = runtime_create env' k p r st fi oc d"
  shows "row_ok (row\<lparr>bt_id := i\<rparr>)"
  using assms(2) active_model_fields [OF assms(1)]
  by (cases oc) (auto simp: row_ok_def is_terminal_def queued_create_def runtime_create_fields
      is_failed_outcome_def)

text \<open>
  The tables of two moments: every row of the later one is an evolved row of the earlier one, or a new
  well-formed row with an id from the sequence.
\<close>

definition grows :: "int \<Rightarrow> task_table \<Rightarrow> int \<Rightarrow> task_table \<Rightarrow> bool" where
  "grows n tbl n' tbl' =
     (n \<le> n' \<and> (\<forall>r' \<in> set tbl'. (\<exists>r \<in> set tbl. row_evolves r r')
                     \<or> n \<le> bt_id r' \<and> bt_id r' < n' \<and> row_ok r')
      \<and> (unique_key bt_id tbl \<and> (\<forall>r \<in> set tbl. bt_id r < n) \<longrightarrow> unique_key bt_id tbl'))"

lemma evolves_grows: "table_evolves tbl tbl' \<Longrightarrow> n \<le> n' \<Longrightarrow> grows n tbl n' tbl'"
  using table_evolves_ids [of tbl tbl'] table_evolves_origin [of tbl tbl']
  by (auto simp: grows_def unique_key_def)

lemma filter_grows: "grows n tbl n (filter p tbl)"
  by (auto simp: grows_def unique_key_def distinct_map_filter)

lemma insert_grows:
  assumes "insert_typed_task_record env c tbl = Inr (tbl', t)" "te_new_task_id env = n"
    "queued_create c \<or> c = runtime_create env' k p r st fi oc d"
  shows "grows n tbl (n + 1) tbl'"
  using assms(1)
proof (cases rule: insert_cases)
  case existing
  then show ?thesis by (simp add: evolves_grows)
next
  case (inserted row)
  have "row_ok (row\<lparr>bt_id := n\<rparr>)" using inserted_row_ok [OF inserted(1) assms(3)] .
  then show ?thesis using inserted(2) assms(2) by (force simp: grows_def unique_key_def)
qed

lemma runtime_record_grows:
  assumes "record_runtime_task_run_with_dedupe_key payload result env k st fi oc d tbl = Inr (tbl', t)"
    "te_new_task_id env = n"
  shows "grows n tbl (n + 1) tbl'"
proof -
  have refresh: "grows n tbl (n + 1) (fst (refresh_system_runtime_success rf tbl))" for rf
    unfolding refresh_system_runtime_success_def
    by (intro evolves_grows exec_one_evolves) (auto intro: refresh_row_evolves)
  have inserted: "insert_typed_task_record env (runtime_create env k p r st fi oc d) tbl = Inr (tbl', t')
      \<Longrightarrow> grows n tbl (n + 1) tbl'" for p r t'
    using insert_grows assms(2) by blast
  have same: "grows n tb (n + 1) tb" for tb by (simp add: evolves_grows)
  show ?thesis
    using assms(1)
    by (auto simp: record_runtime_task_run_with_dedupe_key_def bind_result_Inr_iff Let_def case_prod_beta
        split: if_splits option.splits intro: refresh inserted same)
qed

section \<open>The transition system\<close>

record task_system =
  sy_world :: task_world
  sy_next_id :: int
  sy_read :: "background_task list"

abbreviation sy_tasks :: "task_system \<Rightarrow> task_table" where
  "sy_tasks s \<equiv> tw_tasks (sy_world s)"

abbreviation set_tasks :: "task_system \<Rightarrow> task_table \<Rightarrow> task_system" where
  "set_tasks s tbl \<equiv> s\<lparr>sy_world := (sy_world s)\<lparr>tw_tasks := tbl\<rparr>\<rparr>"

inductive task_step ::
  "(string \<Rightarrow> int option) \<Rightarrow> (string \<Rightarrow> lock_owner_info aster_result)
   \<Rightarrow> (background_task list \<Rightarrow> task_claim_candidate list aster_result)
   \<Rightarrow> task_system \<Rightarrow> task_system \<Rightarrow> bool"
  for decode from_json candidates where
  read: "t \<in> set (sy_tasks s) \<Longrightarrow> task_step decode from_json candidates s (s\<lparr>sy_read := t # sy_read s\<rparr>)"
| create: "queued_create c \<Longrightarrow> te_new_task_id env = sy_next_id s
   \<Longrightarrow> insert_typed_task_record env c (sy_tasks s) = Inr (tbl', t)
   \<Longrightarrow> task_step decode from_json candidates s ((set_tasks s tbl')\<lparr>sy_next_id := sy_next_id s + 1\<rparr>)"
| runtime: "te_new_task_id env = sy_next_id s
   \<Longrightarrow> record_runtime_task_run_with_dedupe_key payload result env k started finished oc dedupe (sy_tasks s)
       = Inr (tbl', rt)
   \<Longrightarrow> task_step decode from_json candidates s ((set_tasks s tbl')\<lparr>sy_next_id := sy_next_id s + 1\<rparr>)"
| claim: "candidates_ok candidates
   \<Longrightarrow> claim candidates capacity locked setting lane mx now lease (sy_tasks s) = Inr (tbl', out)
   \<Longrightarrow> task_step decode from_json candidates s (set_tasks s tbl')"
| heartbeat: "touch_task_heartbeat l now ex (sy_tasks s) = Inr (tbl', hb)
   \<Longrightarrow> task_step decode from_json candidates s (set_tasks s tbl')"
| progress: "update_task_progress_db lease_of env l cur tot txt steps (sy_tasks s) = Inr tbl'
   \<Longrightarrow> task_step decode from_json candidates s (set_tasks s tbl')"
| runtime_json: "set_task_runtime_json env l js (sy_tasks s) = Inr tbl'
   \<Longrightarrow> task_step decode from_json candidates s (set_tasks s tbl')"
| display_name: "set_task_display_name env l nm (sy_tasks s) = Inr tbl'
   \<Longrightarrow> task_step decode from_json candidates s (set_tasks s tbl')"
| succeeded: "mark_task_succeeded env l res cur tot txt steps (sy_tasks s) = Inr tbl'
   \<Longrightarrow> task_step decode from_json candidates s (set_tasks s tbl')"
| retry: "mark_task_retry env i l attempts at err st (sy_tasks s) = (tbl', b)
   \<Longrightarrow> task_step decode from_json candidates s (set_tasks s tbl')"
| release: "release_task_for_shutdown env i l (sy_tasks s) = Inr (tbl', b)
   \<Longrightarrow> task_step decode from_json candidates s (set_tasks s tbl')"
| failed: "t \<in> set (sy_read s)
   \<Longrightarrow> mark_task_failed decode from_json env t l attempts err fin steps can (sy_world s) = (w', b)
   \<Longrightarrow> task_step decode from_json candidates s (s\<lparr>sy_world := w'\<rparr>)"
| cancel: "cancel_request decode from_json access env scope i (sy_world s) = Inr (w', b)
   \<Longrightarrow> task_step decode from_json candidates s (s\<lparr>sy_world := w'\<rparr>)"
| acknowledge: "t \<in> set (sy_read s) \<Longrightarrow> acknowledge decode from_json env t l ex (sy_world s) = Inr (w', b)
   \<Longrightarrow> task_step decode from_json candidates s (s\<lparr>sy_world := w'\<rparr>)"
| manual_retry: "t \<in> set (sy_read s) \<Longrightarrow> retry_task_record temp env t (sy_world s) = Inr w'
   \<Longrightarrow> task_step decode from_json candidates s (s\<lparr>sy_world := w'\<rparr>)"
| admin_cleanup: "cleanup_tasks_for_admin decode from_json env fl (sy_world s) = Inr (w', n)
   \<Longrightarrow> task_step decode from_json candidates s (s\<lparr>sy_world := w'\<rparr>)"

text \<open>
  The invariant: ids are unique and come from the sequence, every row is well formed, and what was read
  earlier about a row that still exists has its kind and a token not larger than the current one.
\<close>

definition system_ok :: "task_system \<Rightarrow> bool" where
  "system_ok s =
     (unique_key bt_id (sy_tasks s)
      \<and> (\<forall>r \<in> set (sy_tasks s). bt_id r < sy_next_id s \<and> row_ok r)
      \<and> (\<forall>x \<in> set (sy_read s). bt_id x < sy_next_id s \<and> row_ok x
           \<and> (\<forall>r \<in> set (sy_tasks s). bt_id r = bt_id x \<longrightarrow>
                bt_kind r = bt_kind x \<and> bt_processing_token x \<le> bt_processing_token r)))"

text \<open>Later states: the rows that existed keep their kind and their tokens have not decreased.\<close>

definition tokens_le :: "task_system \<Rightarrow> task_system \<Rightarrow> bool" where
  "tokens_le s s' =
     (sy_next_id s \<le> sy_next_id s'
      \<and> (\<forall>r' \<in> set (sy_tasks s'). bt_id r' < sy_next_id s \<longrightarrow>
           (\<exists>r \<in> set (sy_tasks s). bt_id r = bt_id r' \<and> bt_kind r = bt_kind r'
              \<and> bt_processing_token r \<le> bt_processing_token r')))"

lemma cleanup_admin_tasks:
  assumes "cleanup_tasks_for_admin decode from_json env fl w = Inr (w', n)"
  shows "tw_tasks w' = filter (\<lambda>r. bt_id r \<notin> bt_id ` set (list_terminal_by_filters_for_update fl (tw_tasks w)))
                        (tw_tasks w)"
  using assms
  by (auto simp: cleanup_tasks_for_admin_def bind_result_Inr_iff Let_def case_prod_beta delete_many_def
      dest!: cleanup_operations_keeps_tasks)

lemma step_grows:
  assumes "task_step decode from_json candidates s s'" "system_ok s"
  shows "grows (sy_next_id s) (sy_tasks s) (sy_next_id s') (sy_tasks s')
         \<and> set (sy_read s') \<subseteq> set (sy_read s) \<union> set (sy_tasks s)"
  using assms(1)
proof (cases rule: task_step.cases)
  case (create c env tbl' t)
  then show ?thesis using insert_grows by fastforce
next
  case (runtime env payload result k started finished oc dedupe tbl' rt)
  then show ?thesis using runtime_record_grows by fastforce
next
  case (claim capacity locked setting lane mx now lease tbl' out)
  then show ?thesis using claim_evolves by (fastforce intro: evolves_grows)
next
  case (cancel access env scope i w' b)
  then show ?thesis
    using cancel_evolves assms(2) by (fastforce simp: system_ok_def intro: evolves_grows)
next
  case (manual_retry t temp env w')
  then have "table_evolves (sy_tasks s) (tw_tasks w')"
    using assms(2) by (intro retry_evolves [OF manual_retry(3)]) (auto simp: system_ok_def)
  then show ?thesis using manual_retry(1) by (simp add: evolves_grows)
next
  case (admin_cleanup env fl w' n)
  then show ?thesis using cleanup_admin_tasks [OF admin_cleanup(2)] filter_grows by auto
qed (auto intro!: evolves_grows dest: store_writes_evolve release_writes_evolve failed_evolves
    acknowledge_evolves)

lemma grows_ok:
  assumes "grows n tbl n' tbl'" "\<forall>r \<in> set tbl. bt_id r < n \<and> row_ok r" "r' \<in> set tbl'"
  shows "bt_id r' < n' \<and> row_ok r'"
proof -
  have "n \<le> n'" using assms(1) by (simp add: grows_def)
  moreover have "(\<exists>r \<in> set tbl. row_evolves r r') \<or> bt_id r' < n' \<and> row_ok r'"
    using assms(1,3) by (auto simp: grows_def)
  ultimately show ?thesis using assms(2) by (fastforce simp: row_evolves_def)
qed

lemma grows_old:
  assumes "grows n tbl n' tbl'" "r' \<in> set tbl'" "bt_id r' < n"
  shows "\<exists>r \<in> set tbl. row_evolves r r'"
  using assms unfolding grows_def by force

lemma step_tokens_le:
  assumes "task_step decode from_json candidates s s'" "system_ok s"
  shows "tokens_le s s'"
  using step_grows [OF assms] grows_old [of "sy_next_id s" "sy_tasks s" "sy_next_id s'" "sy_tasks s'"]
  unfolding tokens_le_def by (fastforce simp: row_evolves_def grows_def)

lemma step_system_ok:
  assumes "task_step decode from_json candidates s s'" "system_ok s"
  shows "system_ok s'"
proof -
  let ?n = "sy_next_id s" and ?n' = "sy_next_id s'" and ?t = "sy_tasks s" and ?t' = "sy_tasks s'"
  have g: "grows ?n ?t ?n' ?t'" and rd: "set (sy_read s') \<subseteq> set (sy_read s) \<union> set ?t"
    using step_grows [OF assms] by auto
  have old: "unique_key bt_id ?t" "\<forall>r \<in> set ?t. bt_id r < ?n \<and> row_ok r"
    using assms(2) by (auto simp: system_ok_def)
  have "unique_key bt_id ?t'" "?n \<le> ?n'" using g old by (auto simp: grows_def)
  moreover have "bt_id x < ?n \<and> row_ok x \<and> (\<forall>r \<in> set ?t'. bt_id r = bt_id x \<longrightarrow>
      bt_kind r = bt_kind x \<and> bt_processing_token x \<le> bt_processing_token r)"
    if "x \<in> set (sy_read s')" for x
  proof -
    have same: "\<forall>r \<in> set ?t. bt_id r = bt_id x \<longrightarrow> r = x" if "x \<in> set ?t"
      using unique_key_inj [OF old(1) _ that] by blast
    have "x \<in> set (sy_read s) \<or> x \<in> set ?t" using that rd by blast
    then have x: "bt_id x < ?n" "row_ok x" "\<forall>r \<in> set ?t. bt_id r = bt_id x \<longrightarrow>
        bt_kind r = bt_kind x \<and> bt_processing_token x \<le> bt_processing_token r"
      using assms(2) old(2) same unfolding system_ok_def by blast+
    have "bt_kind r = bt_kind x \<and> bt_processing_token x \<le> bt_processing_token r"
      if r: "r \<in> set ?t'" "bt_id r = bt_id x" for r
    proof -
      obtain q where "q \<in> set ?t" "row_evolves q r" using grows_old [OF g r(1)] r(2) x(1) by auto
      then show ?thesis using x(3) r(2) by (fastforce simp: row_evolves_def)
    qed
    then show ?thesis using x by blast
  qed
  ultimately show ?thesis
    unfolding system_ok_def using grows_ok [OF g old(2)] by (meson order_less_le_trans)
qed

lemma tokens_le_trans: "tokens_le a b \<Longrightarrow> tokens_le b c \<Longrightarrow> tokens_le a c"
  unfolding tokens_le_def by (auto, smt (verit) order_trans)

interpretation task_runs: ordered_steps "task_step decode from_json candidates" system_ok tokens_le
  for decode from_json candidates
proof unfold_locales
  show "system_ok s \<Longrightarrow> task_step decode from_json candidates s t \<Longrightarrow> system_ok t" for s t
    using step_system_ok by blast
  show "tokens_le s s" for s by (auto simp: tokens_le_def)
  show "tokens_le s t \<Longrightarrow> tokens_le t u \<Longrightarrow> tokens_le s u" for s t u by (rule tokens_le_trans)
  show "system_ok s \<Longrightarrow> task_step decode from_json candidates s t \<Longrightarrow> tokens_le s t" for s t
    using step_tokens_le by blast
qed

section \<open>Reachable states\<close>

definition empty_system :: "lock_db \<Rightarrow> int list \<Rightarrow> int \<Rightarrow> task_system" where
  "empty_system locks members n =
     \<lparr>sy_world = \<lparr>tw_tasks = [], tw_members = members, tw_locks = locks\<rparr>, sy_next_id = n, sy_read = []\<rparr>"

lemma empty_system_ok: "system_ok (empty_system locks members n)"
  by (simp add: system_ok_def empty_system_def unique_key_def)

lemma reachable_ok:
  "(task_step decode from_json candidates)\<^sup>*\<^sup>* (empty_system locks members n) s \<Longrightarrow> system_ok s"
  by (rule task_runs.reach_inv [OF _ empty_system_ok])

text \<open>
  (C5) The task table stays well formed under every interleaving of creations, claims, worker writes,
  cancellations, retries and cleanups: ids are unique, exactly the tasks that are processing or canceling
  have a lease, exactly the finished tasks have a finishing time, and a runtime record is always finished
  and can never be retried.
\<close>

theorem reachable_tasks_well_formed:
  assumes "(task_step decode from_json candidates)\<^sup>*\<^sup>* (empty_system locks members n) s"
  shows "unique_key bt_id (tw_tasks (sy_world s))
       \<and> (\<forall>t \<in> set (tw_tasks (sy_world s)).
            (bt_status t \<in> {Processing, Canceling}) = (bt_lease_expires_at t \<noteq> None)
          \<and> is_terminal (bt_status t) = (bt_finished_at t \<noteq> None)
          \<and> (bt_kind t = SystemRuntime \<longrightarrow> is_terminal (bt_status t) \<and> \<not> task_can_retry t))"
  using reachable_ok [OF assms]
  by (auto simp: system_ok_def row_ok_def is_terminal_def task_can_retry_def)

lemma claimable_eventually:
  assumes "row_ok t" "\<not> is_terminal (bt_status t)"
  shows "\<exists>T. \<forall>now \<ge> T. claimable_condition now t"
proof (cases "bt_lease_expires_at t")
  case None
  then have "bt_status t \<in> {Pending, Retry}"
    using assms by (cases "bt_status t") (auto simp: row_ok_def is_terminal_def)
  then show ?thesis by (auto simp: claimable_condition_def)
next
  case (Some e)
  then have "bt_status t \<in> {Processing, Canceling}" using assms(1) by (auto simp: row_ok_def)
  then show ?thesis
    using Some by (intro exI [of _ e]) (auto simp: claimable_condition_def processing_stale_condition_def)
qed

lemma listed_when_claimable:
  assumes "t \<in> set tbl" "claimable_condition now t" "length tbl \<le> limit"
  shows "t \<in> set (list_claimable_by_kinds now (task_lane_kinds (task_lane (bt_kind t))) limit tbl)"
proof -
  have "length (filter p tbl) \<le> limit" for p using assms(3) length_filter_le [of p tbl] by linarith
  moreover have "limit \<noteq> 0" using assms(1,3) by (cases tbl) auto
  moreover have "bt_kind t \<in> set (task_lane_kinds (task_lane (bt_kind t)))"
    by (cases "bt_kind t") auto
  ultimately show ?thesis
    using assms(1,2) by (simp add: list_claimable_by_kinds_def list_claimable_query_def select_where_def)
qed


text \<open>
  (C32) Fencing is permanent. Once a task has been claimed under a token larger than a worker's, no
  sequence of operations whatsoever lets that worker write to the task again: in every later state its
  heartbeat, progress, runtime state, display name, success, retry and failure writes change nothing.
\<close>

theorem fenced_forever:
  assumes "system_ok s" "(task_step decode from_json candidates)\<^sup>*\<^sup>* s s'"
    and "r \<in> set (tw_tasks (sy_world s))" "token < bt_processing_token r" "i = bt_id r"
    and "pu_id pu = i" "pu_processing_token pu = token"
    and "su_id su = i" "su_processing_token su = token"
    and "fu_id fu = i" "fu_processing_token fu = token"
  shows "touch_heartbeat i token n l (tw_tasks (sy_world s')) = (tw_tasks (sy_world s'), False)
    \<and> mark_progress pu (tw_tasks (sy_world s')) = (tw_tasks (sy_world s'), False)
    \<and> set_runtime_json i token js n (tw_tasks (sy_world s')) = (tw_tasks (sy_world s'), False)
    \<and> set_display_name i token nm n (tw_tasks (sy_world s')) = (tw_tasks (sy_world s'), False)
    \<and> mark_succeeded su (tw_tasks (sy_world s')) = (tw_tasks (sy_world s'), False)
    \<and> mark_retry i token attempts next_run err steps n (tw_tasks (sy_world s')) = (tw_tasks (sy_world s'), False)
    \<and> mark_failed fu (tw_tasks (sy_world s')) = (tw_tasks (sy_world s'), False)"
proof -
  let ?t = "tw_tasks (sy_world s')"
  have "tokens_le s s'" using task_runs.reach_le [OF assms(2,1)] .
  moreover have "bt_id r < sy_next_id s" using assms(1,3) by (auto simp: system_ok_def)
  ultimately have "\<forall>x \<in> set ?t. bt_id x = i \<longrightarrow> (\<exists>q \<in> set (sy_tasks s). bt_id q = i
      \<and> bt_processing_token q \<le> bt_processing_token x)"
    using assms(5) by (fastforce simp: tokens_le_def)
  then have stale: "\<forall>x \<in> set ?t. bt_id x = i \<longrightarrow> bt_processing_token x \<noteq> token"
    using assms(1,3-5) unique_key_inj [of bt_id "sy_tasks s" r] by (fastforce simp: system_ok_def)
  show ?thesis
    using heartbeat_fw.stale_write [OF stale] progress_fw.stale_write [of ?t pu]
      runtime_fw.stale_write [OF stale] display_fw.stale_write [OF stale]
      success_fw.stale_write [of ?t su] retry_fw.stale_write [OF stale]
      failure_fw.stale_write [of ?t fu] stale assms(6-)
    by (simp add: fenced_write_defs)
qed

section \<open>Concrete runs\<close>

definition ex_task_env :: "time \<Rightarrow> int \<Rightarrow> task_env" where
  "ex_task_env now i =
     \<lparr>te_now = now, te_new_task_id = i, te_retention_setting = None, te_max_attempts = (\<lambda>_. 3),
      te_initial_steps = (\<lambda>_. Inr ''[]''), te_truncate_name = take, te_lock_env = ex_env now\<rparr>"

definition ex_created :: background_task where
  "ex_created =
     \<lparr>bt_id = 7, bt_kind = TrashPurgeAll, bt_status = Pending, bt_creator_user_id = Some 1,
      bt_team_id = None, bt_share_id = None, bt_display_name = ''Empty trash'', bt_dedupe_key = None,
      bt_payload_json = ''{}'', bt_result_json = None, bt_runtime_json = None,
      bt_steps_json = Some ''[]'', bt_progress_current = 0, bt_progress_total = 0,
      bt_status_text = None, bt_attempt_count = 0, bt_max_attempts = 3, bt_next_run_at = 0,
      bt_processing_token = 0, bt_processing_started_at = None, bt_last_heartbeat_at = None,
      bt_lease_expires_at = None, bt_started_at = None, bt_finished_at = None, bt_last_error = None,
      bt_failure_can_retry = None, bt_expires_at = 86400, bt_created_at = 0, bt_updated_at = 0\<rparr>"

definition ex_create :: typed_task_create where
  "ex_create = tc_in_scope (WS_Personal 1)
     (task_create_new (ex_task_env 0 7) TrashPurgeAll ''Empty trash'' (Inr ''{}''))"

definition ex_running :: task_system where
  "ex_running =
     \<lparr>sy_world = \<lparr>tw_tasks = [ex_created], tw_members = [], tw_locks = ex_db\<rparr>, sy_next_id = 8, sy_read = []\<rparr>"

lemma ex_created_by_insert:
  "insert_typed_task_record (ex_task_env 0 7) ex_create [] = Inr ([ex_created], ex_created)"
  by (simp add: insert_typed_task_record_def into_active_model_def ex_create_def task_create_new_def
      tc_in_scope_def tc_steps_json_def ex_task_env_def create_def ex_created_def Let_def
      truncate_display_name_def TASK_DISPLAY_NAME_MAX_LEN_def task_expiration_from_def
      load_task_retention_hours_def DEFAULT_TASK_RETENTION_HOURS_def)

lemma ex_reach:
  "(task_step decode from_json candidates)\<^sup>*\<^sup>* (empty_system ex_db [] 7) ex_running"
proof (rule r_into_rtranclp)
  let ?s = "empty_system ex_db [] 7"
  have c: "queued_create ex_create" "te_new_task_id (ex_task_env 0 7) = sy_next_id ?s" "sy_tasks ?s = []"
    by (simp_all add: empty_system_def queued_create_def ex_create_def tc_in_scope_def
         task_create_new_def ex_task_env_def)
  have "ex_running = (set_tasks ?s [ex_created])\<lparr>sy_next_id := sy_next_id ?s + 1\<rparr>"
    by (simp add: empty_system_def ex_running_def)
  then show "task_step decode from_json candidates ?s ex_running"
    using task_step.create [OF c(1,2)] ex_created_by_insert c(3) by metis
qed

theorem reachable_tasks_well_formed_witness:
  "(task_step (\<lambda>_. None) (\<lambda>_. Inr (OI_Text [])) ex_candidates)\<^sup>*\<^sup>* (empty_system ex_db [] 7) ex_running
   \<and> unique_key bt_id (tw_tasks (sy_world ex_running))
   \<and> bt_lease_expires_at (hd (tw_tasks (sy_world ex_running))) = None"
  using reachable_tasks_well_formed [OF ex_reach] ex_reach
  by (auto simp: ex_running_def ex_created_def)


definition ex_taken_over :: task_system where
  "ex_taken_over = ex_running\<lparr>sy_world := (sy_world ex_running)\<lparr>tw_tasks := [claim_row 60 2 120 ex_task]\<rparr>\<rparr>"

theorem fenced_forever_witness:
  "system_ok ex_taken_over
   \<and> touch_heartbeat 7 1 61 121 (tw_tasks (sy_world ex_taken_over)) = (tw_tasks (sy_world ex_taken_over), False)"
proof -
  have ok: "system_ok ex_taken_over"
    by (simp add: ex_taken_over_def ex_running_def system_ok_def unique_key_def row_ok_def
        is_terminal_def claim_row_def ex_task_def)
  have r: "claim_row 60 2 120 ex_task \<in> set (tw_tasks (sy_world ex_taken_over))"
    "1 < bt_processing_token (claim_row 60 2 120 ex_task)" "7 = bt_id (claim_row 60 2 120 ex_task)"
    by (simp_all add: ex_taken_over_def claim_row_def ex_task_def)
  have "touch_heartbeat 7 1 61 121 (tw_tasks (sy_world ex_taken_over)) = (tw_tasks (sy_world ex_taken_over), False)"
    by (rule fenced_forever [OF ok rtranclp.rtrancl_refl r, of
      "\<lparr>pu_id = 7, pu_processing_token = 1, pu_now = 61, pu_lease_expires_at = 121, pu_current = 0,
        pu_total = 0, pu_status_text = None, pu_steps_json = None\<rparr>"
      "\<lparr>su_id = 7, su_processing_token = 1, su_result_json = None, su_steps_json = None,
        su_current = 1, su_total = 1, su_status_text = None, su_finished_at = 61, su_expires_at = 99\<rparr>"
      "\<lparr>fu_id = 7, fu_processing_token = 1, fu_attempt_count = 1, fu_last_error = [],
        fu_finished_at = 61, fu_expires_at = 99, fu_steps_json = None, fu_failure_can_retry = True\<rparr>",
      THEN conjunct1]) simp_all
  then show ?thesis using ok by simp
qed

end
