(* ===== verification/Task_Service.thy ===== *)
theory Task_Service
  imports Task_Lifecycle
begin

text \<open>
  What the operations of the task service promise to their callers: insertion under a dedupe key,
  cooperative cancellation, manual retry, the purge fence of the trash, administrative cleanup and the
  removal of scratch directories.
\<close>

section \<open>Dedupe keys\<close>

lemma find_dedupe_append:
  "find_by_dedupe_key key (tbl @ [r]) =
     (case find_by_dedupe_key key tbl of
        Some t \<Rightarrow> Some t
      | None \<Rightarrow> if bt_dedupe_key r = Some key then Some r else None)"
  unfolding find_by_dedupe_key_def by (induction tbl) auto

lemma create_dedupe_conflict:
  assumes "find_by_dedupe_key key tbl = Some t" "bt_dedupe_key model = Some key"
  shows "\<exists>e. create i model tbl = Inl e"
  using assms by (auto simp: create_def find_by_dedupe_key_def find_Some_iff)

lemma insert_finds_dedupe:
  assumes "insert_typed_task_record env c tbl = Inr (tbl', t)" "tc_dedupe_key c = Some key"
  shows "find_by_dedupe_key key tbl' = Some t"
proof -
  obtain row where row: "into_active_model env c = Inr row"
    using assms(1) by (auto simp: insert_typed_task_record_def bind_result_Inr_iff)
  have key: "bt_dedupe_key row = Some key" using active_model_fields(6) [OF row] assms(2) by simp
  show ?thesis
  proof (cases "create (te_new_task_id env) row tbl")
    case (Inl e)
    then show ?thesis
      using assms row by (auto simp: insert_typed_task_record_def split: option.splits)
  next
    case (Inr x)
    then have "x = (tbl', t)" using assms row by (simp add: insert_typed_task_record_def)
    then have "find_by_dedupe_key key tbl = None" "tbl' = tbl @ [t]" "bt_dedupe_key t = Some key"
      using Inr key
      by (auto simp: create_def Let_def find_by_dedupe_key_def find_None_iff split: if_splits)
    then show ?thesis by (simp add: find_dedupe_append)
  qed
qed

text \<open>
  Insertion under a dedupe key is idempotent: after a first insertion, inserting any task with the
  same key (by another request, at another time, with another name) returns the first task and leaves the
  table as it is.
\<close>

theorem dedupe_insert_idempotent:
  assumes "insert_typed_task_record env c tbl = Inr (tbl', t)" "tc_dedupe_key c = Some key"
    and "tc_dedupe_key c2 = Some key" "into_active_model env2 c2 = Inr row2"
  shows "insert_typed_task_record env2 c2 tbl' = Inr (tbl', t)"
proof -
  have f: "find_by_dedupe_key key tbl' = Some t" using insert_finds_dedupe [OF assms(1,2)] .
  moreover have "bt_dedupe_key row2 = Some key" using active_model_fields(6) [OF assms(4)] assms(3) by simp
  ultimately obtain e where "create (te_new_task_id env2) row2 tbl' = Inl e"
    using create_dedupe_conflict by blast
  then show ?thesis using f assms(3,4) by (simp add: insert_typed_task_record_def)
qed

section \<open>Cancellation\<close>

interpretation running_ku: keyed_update bt_id i "\<lambda>t. bt_id t = i" "cancel_running_row env" for i env
  by unfold_locales (simp_all add: cancel_running_row_def)

interpretation queued_ku: keyed_update bt_id i "\<lambda>t. bt_id t = i" "cancel_queued_row env" for i env
  by unfold_locales (simp_all add: cancel_queued_row_def)

interpretation ack_ku: keyed_update bt_id i
  "\<lambda>r. bt_id r = i \<and> bt_processing_token r = token \<and> bt_status r = Canceling" "acknowledged_row now expires"
  for i token now expires
  by unfold_locales (simp_all add: acknowledged_row_def)

lemma cancel_running:
  assumes "unique_key bt_id (tw_tasks w)" "find_key bt_id i (tw_tasks w) = Some t" "bt_status t = Processing"
    and "access = Inr ()" "ensure_task_in_scope t scope = Inr ()" "bt_kind t \<noteq> SystemRuntime"
  shows "\<exists>tbl'. cancel_request decode from_json access env scope i w = Inr (w\<lparr>tw_tasks := tbl'\<rparr>, True)
    \<and> find_key bt_id i tbl' = Some (cancel_running_row env t) \<and> unique_key bt_id tbl'"
  using assms running_ku.its_row [of i env "tw_tasks w"] running_ku.keeps_unique [of i env "tw_tasks w"]
    find_key_SomeD [OF assms(2)]
  by (auto simp: cancel_request_def update_task_def)

text \<open>
  (C31) Cancellation of a running task is cooperative. The request only marks the row; the worker keeps its
  token and its lease, but from then on it can record neither progress nor an outcome: its next heartbeat
  tells it to stop, and the only write left to it is the acknowledgement, which finishes the task as
  canceled.
\<close>

theorem cancel_running_is_cooperative:
  assumes "unique_key bt_id (tw_tasks w)" "find_key bt_id i (tw_tasks w) = Some t" "bt_status t = Processing"
    and "ensure_task_in_scope t scope = Inr ()" "bt_kind t \<noteq> SystemRuntime"
    and "lease = \<lparr>ls_task_id = i, ls_processing_token = bt_processing_token t\<rparr>"
    and "su_id su = i" "fu_id fu = i"
  shows "\<exists>tbl'. cancel_request decode from_json (Inr ()) env scope i w = Inr (w\<lparr>tw_tasks := tbl'\<rparr>, True)
     \<and> bt_processing_token (the (find_key bt_id i tbl')) = bt_processing_token t
     \<and> bt_lease_expires_at (the (find_key bt_id i tbl')) = bt_lease_expires_at t
     \<and> mark_succeeded su tbl' = (tbl', False) \<and> mark_failed fu tbl' = (tbl', False)
     \<and> touch_task_heartbeat lease now expires tbl' = Inr (tbl', HB_CancellationRequested)
     \<and> (\<forall>w2 b. acknowledge decode from_json env2 t2 lease expires (w\<lparr>tw_tasks := tbl'\<rparr>) = Inr (w2, b) \<longrightarrow>
          b \<and> bt_status (the (find_key bt_id i (tw_tasks w2))) = Canceled)"
proof -
  obtain tbl' where c: "cancel_request decode from_json (Inr ()) env scope i w = Inr (w\<lparr>tw_tasks := tbl'\<rparr>, True)"
    and f: "find_key bt_id i tbl' = Some (cancel_running_row env t)" and u: "unique_key bt_id tbl'"
    using cancel_running [OF assms(1-3) refl assms(4,5)] by blast
  have row: "r = cancel_running_row env t" if "r \<in> set tbl'" "bt_id r = i" for r
    using find_key_only [OF u f] that by simp
  have "bt_status (cancel_running_row env t) = Canceling" by (simp add: cancel_running_row_def)
  then have st: "\<forall>r \<in> set tbl'. bt_id r = i \<longrightarrow> bt_status r \<noteq> Processing"
    using row by fastforce
  have hb: "touch_task_heartbeat lease now expires tbl' = Inr (tbl', HB_CancellationRequested)"
    using heartbeat_fw.not_processing [OF st] f assms(6)
    by (simp add: touch_task_heartbeat_def touch_heartbeat_def find_by_id_def cancel_running_row_def)
  have hit: "cancel_running_row env t \<in> set tbl'" "bt_id (cancel_running_row env t) = i"
    using find_key_SomeD [OF f] by auto
  have ack: "b \<and> bt_status (the (find_key bt_id i (tw_tasks w2))) = Canceled"
    if "acknowledge decode from_json env2 t2 lease expires (w\<lparr>tw_tasks := tbl'\<rparr>) = Inr (w2, b)" for w2 b
  proof -
    let ?p = "\<lambda>r. bt_id r = i \<and> bt_processing_token r = bt_processing_token t \<and> bt_status r = Canceling"
    let ?e = "exec_one ?p (acknowledged_row (te_now env2) expires) tbl'"
    have "?p (cancel_running_row env t)" using hit by (simp add: cancel_running_row_def)
    then have "snd ?e" "find_key bt_id i (fst ?e) = Some (acknowledged_row (te_now env2) expires (cancel_running_row env t))"
      using hit f ack_ku.success_iff [OF u, of i "bt_processing_token t"]
        ack_ku.its_row [of i "bt_processing_token t" "te_now env2" expires tbl'] by auto
    then show ?thesis
      using that assms(6)
      by (auto simp: acknowledge_def Let_def case_prod_beta bind_result_Inr_iff acknowledged_row_def
          dest!: cleanup_keeps_tasks)
  qed
  show ?thesis
    using c hb ack f success_fw.not_processing [of tbl' su] failure_fw.not_processing [of tbl' fu] st assms(7,8)
    by (intro exI [of _ tbl']) (auto simp: mark_succeeded_def mark_failed_def cancel_running_row_def)
qed

section \<open>The purge fence\<close>

lemma fence_purge_InrD:
  assumes "fence_purge_on now env ws lease w = Inr w1"
  obtains t where "tw_tasks w1 = tw_tasks w" "find_key bt_id (ls_task_id lease) (tw_tasks w) = Some t"
    "bt_processing_token t = ls_processing_token lease" "bt_status t = Processing"
    "null_gt (bt_lease_expires_at t) now" "bt_kind t = TrashPurgeAll" "task_in_workspace ws t"
  using assms
  by (auto simp: fence_purge_on_def bind_result_Inr_iff split: option.splits if_splits
      dest!: lock_scope_keeps_tasks)

lemma active_purge_found:
  assumes "t \<in> set tbl" "bt_kind t = TrashPurgeAll" "bt_status t \<in> {Pending, Processing, Retry, Canceling}"
    "task_in_workspace ws t" "persistence_key ws = (wt, wid)"
  shows "find_active_by_kind_in_workspace TrashPurgeAll wt wid tbl \<noteq> None"
  using assms
  by (cases ws) (auto simp: find_active_by_kind_in_workspace_def find_None_iff task_in_workspace_def)

text \<open>
  (C25) A purge of the trash excludes other changes of the workspace. Whenever the fence lets the purge
  task proceed, the task is a purge of that workspace, processing under the caller's token with a live
  lease, and in that state no restore or delete is admitted in the workspace, whoever asks and even if the
  lease expires before the task is finished.
\<close>

theorem purge_excludes_mutations:
  assumes "fence_purge_on now env ws lease w = Inr w1"
  shows "(\<forall>env2 w2. admit_mutation_on env2 ws w1 \<noteq> Inr w2)
       \<and> (\<exists>t. find_key bt_id (ls_task_id lease) (tw_tasks w) = Some t
              \<and> bt_processing_token t = ls_processing_token lease \<and> bt_status t = Processing
              \<and> null_gt (bt_lease_expires_at t) now \<and> bt_kind t = TrashPurgeAll \<and> task_in_workspace ws t)"
proof -
  obtain t where t: "tw_tasks w1 = tw_tasks w" "find_key bt_id (ls_task_id lease) (tw_tasks w) = Some t"
    "bt_processing_token t = ls_processing_token lease" "bt_status t = Processing"
    "null_gt (bt_lease_expires_at t) now" "bt_kind t = TrashPurgeAll" "task_in_workspace ws t"
    using fence_purge_InrD [OF assms] .
  obtain wt wid where key: "persistence_key ws = (wt, wid)" by (metis surj_pair)
  have "find_active_by_kind_in_workspace TrashPurgeAll wt wid (tw_tasks w1) \<noteq> None"
    using active_purge_found [OF _ t(6) _ t(7) key, of "tw_tasks w1"] t find_key_SomeD [OF t(2)] by simp
  then have "admit_mutation_on env2 ws w1 \<noteq> Inr w2" for env2 w2
    using key by (auto simp: admit_mutation_on_def bind_result_Inr_iff dest!: lock_scope_keeps_tasks)
  then show ?thesis using t by blast
qed

section \<open>Manual retry\<close>

text \<open>
  Manual retry. When it succeeds, the task it was asked about had failed or been canceled and was
  retryable, the row was still in one of those states when it was written, it is now pending with its
  attempts, error and outcome reset and due at once, and no other task has changed.
\<close>

theorem manual_retry_resets:
  assumes "unique_key bt_id (tw_tasks w)" "retry_task_record temp env t w = Inr w'"
  shows "task_can_retry t
    \<and> (\<exists>r r'. find_key bt_id (bt_id t) (tw_tasks w) = Some r \<and> bt_status r \<in> {Failed, Canceled}
          \<and> find_key bt_id (bt_id t) (tw_tasks w') = Some r' \<and> bt_status r' = Pending
          \<and> bt_attempt_count r' = 0 \<and> bt_last_error r' = None \<and> bt_finished_at r' = None
          \<and> bt_lease_expires_at r' = None \<and> claimable_condition (te_now env) r')
    \<and> (\<forall>j. j \<noteq> bt_id t \<longrightarrow> find_key bt_id j (tw_tasks w') = find_key bt_id j (tw_tasks w))"
proof -
  let ?upd = "\<lambda>steps. reset_for_manual_retry (bt_id t) (te_now env) (te_max_attempts env (bt_kind t)) (Some steps)"
  obtain steps w1 where s: "retry_admission (te_lock_env env) t w = Inr w1"
    "snd (?upd steps (tw_tasks w1))" "tw_tasks w' = fst (?upd steps (tw_tasks w1))" "task_can_retry t"
    using assms(2)
    by (auto simp: retry_task_record_def bind_result_Inr_iff Let_def case_prod_beta split: if_splits)
  have same: "tw_tasks w1 = tw_tasks w" using retry_admission_keeps_tasks [OF s(1)] .
  obtain r where r: "find_key bt_id (bt_id t) (tw_tasks w) = Some r" "bt_status r \<in> {Failed, Canceled}"
    "find_key bt_id (bt_id t) (tw_tasks w') =
       Some (reset_row (te_now env) (te_max_attempts env (bt_kind t)) (Some steps) r)"
    using reset_ku.success_row [OF assms(1)] s(2,3) same unfolding reset_for_manual_retry_def by fastforce
  show ?thesis
    using s(3,4) same r reset_ku.other_rows [of _ "bt_id t" "te_now env"]
    by (auto simp: reset_for_manual_retry_def reset_row_def claimable_condition_def set_steps_def)
qed

section \<open>Administrative cleanup\<close>

abbreviation lock_matches ::
  "(string \<Rightarrow> lock_owner_info aster_result) \<Rightarrow> int \<Rightarrow> int \<Rightarrow> resource_lock \<Rightarrow> bool" where
  "lock_matches from_json folder_id task_id l \<equiv>
     operation_lock_matches from_json l folder_id (operation_lock_marker task_id) = Inr True"

lemma db_locks_delete_by_id [simp]: "db_locks (delete_by_id i db) = filter (\<lambda>l. rl_id l \<noteq> i) (db_locks db)"
  by (simp add: delete_by_id_def delete_locks_def case_prod_beta)

lemma db_locks_increment: "increment_generation env n db = Inr db' \<Longrightarrow> db_locks db' = db_locks db"
  by (auto simp: increment_generation_def split: option.splits)

lemma release_operation_locks_exact:
  assumes "release_operation_locks from_json env f marker ls db = Inr db'"
  shows "db_locks db' = filter (\<lambda>x. \<not> (\<exists>l \<in> set ls. rl_id l = rl_id x
            \<and> operation_lock_matches from_json l f marker = Inr True)) (db_locks db)"
  using assms
proof (induction ls arbitrary: db)
  case (Cons l ls)
  then show ?case
  proof (cases "operation_lock_matches from_json l f marker = Inr True")
    case True
    then obtain n db1 where "increment_generation env n (delete_by_id (rl_id l) db) = Inr db1"
      "release_operation_locks from_json env f marker ls db1 = Inr db'"
      using Cons.prems by (auto simp: bind_result_Inr_iff)
    then show ?thesis using Cons.IH [of db1] True db_locks_increment by (fastforce intro: filter_cong)
  next
    case False
    then have "release_operation_locks from_json env f marker ls db = Inr db'"
      using Cons.prems by (auto simp: bind_result_Inr_iff split: if_splits)
    then show ?thesis using Cons.IH [of db] False by simp
  qed
qed simp

definition task_owns_lock ::
  "(string \<Rightarrow> int option) \<Rightarrow> (string \<Rightarrow> lock_owner_info aster_result) \<Rightarrow> background_task \<Rightarrow> resource_lock \<Rightarrow> bool" where
  "task_owns_lock decode from_json t l =
     (bt_kind t = FolderTreeMutation
      \<and> (case decode (bt_payload_json t) of
            None \<Rightarrow> False
          | Some f \<Rightarrow> entity_condition ET_Folder f l \<and> lock_matches from_json f (bt_id t) l))"

lemma cleanup_operation_locks:
  assumes "unique_key rl_id (db_locks (tw_locks w))" "cleanup_terminal_operation_on decode from_json env t w = Inr w'"
  shows "db_locks (tw_locks w') = filter (\<lambda>l. \<not> task_owns_lock decode from_json t l) (db_locks (tw_locks w))"
proof (cases "bt_kind t = FolderTreeMutation \<and> decode (bt_payload_json t) \<noteq> None")
  case True
  then obtain f where f: "decode (bt_payload_json t) = Some f" by auto
  let ?ls = "find_all_by_entity ET_Folder f (tw_locks w)"
  have in_ls: "l \<in> set ?ls \<longleftrightarrow> l \<in> set (db_locks (tw_locks w)) \<and> entity_condition ET_Folder f l" for l
    by (simp add: find_all_by_entity_def select_where_def)
  have iff: "(\<exists>l \<in> set ?ls. rl_id l = rl_id x \<and> lock_matches from_json f (bt_id t) l)
        \<longleftrightarrow> task_owns_lock decode from_json t x" if "x \<in> set (db_locks (tw_locks w))" for x
    using that True f in_ls unique_key_inj [OF assms(1) _ that]
    by (simp add: task_owns_lock_def) blast
  have owns: "filter (\<lambda>x. \<not> (\<exists>l \<in> set ?ls. rl_id l = rl_id x \<and> lock_matches from_json f (bt_id t) l))
        (db_locks (tw_locks w))
      = filter (\<lambda>l. \<not> task_owns_lock decode from_json t l) (db_locks (tw_locks w))"
    by (rule filter_cong [OF refl]) (simp only: iff)
  obtain db where db: "release_operation_locks from_json env f (operation_lock_marker (bt_id t)) ?ls (tw_locks w) = Inr db"
    "tw_locks w' = db"
    using assms(2) True f by (auto simp: cleanup_terminal_operation_on_def bind_result_Inr_iff)
  show ?thesis unfolding db(2) owns [symmetric] by (rule release_operation_locks_exact [OF db(1)])
next
  case False
  then show ?thesis
    using assms(2)
    by (auto simp: cleanup_terminal_operation_on_def clear_members_def task_owns_lock_def
        split: if_splits option.splits)
qed

lemma cleanup_operations_locks:
  assumes "unique_key rl_id (db_locks (tw_locks w))" "cleanup_operations decode from_json env ts w = Inr w'"
  shows "db_locks (tw_locks w') =
    filter (\<lambda>l. \<not> (\<exists>t \<in> set ts. task_owns_lock decode from_json t l)) (db_locks (tw_locks w))"
  using assms
proof (induction ts arbitrary: w)
  case (Cons t ts)
  then obtain w1 where w1: "cleanup_terminal_operation_on decode from_json env t w = Inr w1"
    "cleanup_operations decode from_json env ts w1 = Inr w'"
    by (auto simp: bind_result_Inr_iff)
  have l1: "db_locks (tw_locks w1) = filter (\<lambda>l. \<not> task_owns_lock decode from_json t l) (db_locks (tw_locks w))"
    using cleanup_operation_locks [OF Cons.prems(1) w1(1)] .
  moreover have "unique_key rl_id (db_locks (tw_locks w1))"
    using Cons.prems(1) by (simp add: l1 unique_key_def distinct_map_filter)
  ultimately show ?case using Cons.IH [OF _ w1(2)] by (simp add: conj_commute)
qed simp

lemma delete_where_cong: "(\<And>r. r \<in> set t \<Longrightarrow> p r \<longleftrightarrow> q r) \<Longrightarrow> delete_where p t = delete_where q t"
  by (induction t) (simp_all add: delete_where_def)

lemma terminal_listed:
  "r \<in> set (list_terminal_by_filters_for_update fl tbl) \<longleftrightarrow> r \<in> set tbl \<and> terminal_cleanup_condition fl r"
  by (simp add: list_terminal_by_filters_for_update_def select_where_def)

text \<open>
  Administrative cleanup deletes exactly the selected finished tasks: every task it deletes has
  reached a terminal status, all others keep their rows unchanged, and the only resource locks that
  disappear are the exclusive folder locks that a deleted folder-tree task had taken for its own
  operation.
\<close>

theorem admin_cleanup_exact:
  assumes "unique_key bt_id (tw_tasks w)" "unique_key rl_id (db_locks (tw_locks w))"
    and "cleanup_tasks_for_admin decode from_json env fl w = Inr (w', k)"
  shows "tw_tasks w' = filter (\<lambda>t. \<not> terminal_cleanup_condition fl t) (tw_tasks w)
       \<and> k = count_where (terminal_cleanup_condition fl) (tw_tasks w)
       \<and> (\<forall>t \<in> set (tw_tasks w). terminal_cleanup_condition fl t \<longrightarrow> is_terminal (bt_status t))
       \<and> db_locks (tw_locks w') =
           filter (\<lambda>l. \<not> (\<exists>t \<in> set (tw_tasks w). terminal_cleanup_condition fl t
                             \<and> task_owns_lock decode from_json t l)) (db_locks (tw_locks w))"
proof -
  let ?ts = "list_terminal_by_filters_for_update fl (tw_tasks w)"
  obtain w1 where w1: "cleanup_operations decode from_json (te_lock_env env) ?ts w = Inr w1"
    "validate_admin_task_cleanup_status (cf_status fl) = Inr ()"
    "w' = w1\<lparr>tw_tasks := fst (delete_many (map bt_id ?ts) (tw_tasks w1))\<rparr>"
    "k = snd (delete_many (map bt_id ?ts) (tw_tasks w1))"
    using assms(3) by (auto simp: cleanup_tasks_for_admin_def bind_result_Inr_iff Let_def case_prod_beta)
  have same: "tw_tasks w1 = tw_tasks w" using cleanup_operations_keeps_tasks [OF w1(1)] .
  have sel: "bt_id t \<in> set (map bt_id ?ts) \<longleftrightarrow> terminal_cleanup_condition fl t" if "t \<in> set (tw_tasks w)" for t
  proof
    assume "bt_id t \<in> set (map bt_id ?ts)"
    then obtain r where r: "r \<in> set ?ts" "bt_id t = bt_id r" unfolding set_map by blast
    then have "t = r" using unique_key_inj [OF assms(1) that] unfolding terminal_listed by blast
    then show "terminal_cleanup_condition fl t" using r(1) unfolding terminal_listed by blast
  next
    assume "terminal_cleanup_condition fl t"
    then show "bt_id t \<in> set (map bt_id ?ts)" using that unfolding set_map by (blast intro: terminal_listed [THEN iffD2])
  qed
  have "delete_many (map bt_id ?ts) (tw_tasks w) = delete_where (terminal_cleanup_condition fl) (tw_tasks w)"
  proof (cases "?ts = []")
    case True
    then have "\<forall>t \<in> set (tw_tasks w). \<not> terminal_cleanup_condition fl t" using terminal_listed [of _ fl "tw_tasks w"] by auto
    then show ?thesis using True by (simp add: delete_many_def delete_where_def count_where_0_iff)
  next
    case False
    then show ?thesis using delete_where_cong [OF sel, of "tw_tasks w"] by (simp add: delete_many_def)
  qed
  moreover have "\<forall>t \<in> set (tw_tasks w). terminal_cleanup_condition fl t \<longrightarrow> is_terminal (bt_status t)"
    using w1(2) by (auto simp: terminal_cleanup_condition_def validate_admin_task_cleanup_status_def is_terminal_def
        split: option.splits if_splits)
  moreover have "db_locks (tw_locks w1) =
      filter (\<lambda>l. \<not> (\<exists>t \<in> set (tw_tasks w). terminal_cleanup_condition fl t
                        \<and> task_owns_lock decode from_json t l)) (db_locks (tw_locks w))"
    using cleanup_operations_locks [OF assms(2) w1(1)] by (simp only: Bex_def terminal_listed conj_assoc)
  ultimately show ?thesis using w1(3,4) same by simp
qed

section \<open>Scratch directories\<close>

lemma cleanup_entries_removed:
  assumes "cleanup_expired_entries now tbl es gone n = (gone', res)" "p \<in> set gone'"
  shows "p \<in> set gone \<or> (\<exists>e \<in> set es. \<exists>name i. sc_path e = p \<and> sc_name e = Some name \<and> parse_i64 name = Some i
            \<and> should_cleanup_scratch now i tbl)"
  using assms
proof (induction es arbitrary: gone n)
  case (Cons e es)
  have step: "p \<in> set g \<or> (\<exists>e \<in> set (e # es). \<exists>name i. sc_path e = p \<and> sc_name e = Some name
      \<and> parse_i64 name = Some i \<and> should_cleanup_scratch now i tbl)"
    if "cleanup_expired_entries now tbl es g m = (gone', res)" for g m
    using Cons.IH [OF that Cons.prems(2)] by auto
  show ?case
    using Cons.prems step
    by (fastforce split: sum.splits bool.splits option.splits if_splits)
qed simp

text \<open>
  The scratch cleanup never touches a live task: every directory it removes is named after a task id
  whose task either no longer exists or has finished and expired.
\<close>

theorem scratch_cleanup_spares_live_tasks:
  assumes "unique_key bt_id tbl" "cleanup_expired_in_root now tbl root listing = (gone, res)" "p \<in> set gone"
  shows "\<exists>es e name i. listing = RD_Entries es \<and> e \<in> set es \<and> sc_path e = p
           \<and> sc_name e = Some name \<and> parse_i64 name = Some i
           \<and> (\<forall>t \<in> set tbl. bt_id t = i \<longrightarrow> bt_expires_at t \<le> now \<and> is_terminal (bt_status t))"
proof -
  obtain es where es: "listing = RD_Entries es"
    using assms(2,3) by (cases listing) (auto simp: cleanup_expired_in_root_def)
  obtain e name i where e: "e \<in> set es" "sc_path e = p" "sc_name e = Some name" "parse_i64 name = Some i"
    and c: "should_cleanup_scratch now i tbl"
    using cleanup_entries_removed [of now tbl es "[]" 0 gone res p] assms(2,3) es
    by (auto simp: cleanup_expired_in_root_def)
  have "bt_expires_at t \<le> now \<and> is_terminal (bt_status t)" if "t \<in> set tbl" "bt_id t = i" for t
  proof -
    have "find_key bt_id i tbl = Some t" using that find_key_Some_iff [OF assms(1)] by blast
    then show ?thesis using c by (simp add: should_cleanup_scratch_def find_by_id_def is_terminal_def)
  qed
  then show ?thesis using es e by blast
qed

section \<open>Concrete applications\<close>

definition ex_keyed :: typed_task_create where
  "ex_keyed = ex_create\<lparr>tc_dedupe_key := Some ''k''\<rparr>"

lemma ex_keyed_model: "into_active_model (ex_task_env 0 i) ex_keyed = Inr (ex_created\<lparr>bt_id := 0, bt_dedupe_key := Some ''k''\<rparr>)"
  by (simp add: into_active_model_def ex_keyed_def ex_create_def task_create_new_def
      tc_in_scope_def tc_steps_json_def ex_task_env_def ex_created_def
      truncate_display_name_def TASK_DISPLAY_NAME_MAX_LEN_def task_expiration_from_def
      load_task_retention_hours_def DEFAULT_TASK_RETENTION_HOURS_def)

lemma ex_keyed_insert:
  "insert_typed_task_record (ex_task_env 0 7) ex_keyed []
   = Inr ([ex_created\<lparr>bt_dedupe_key := Some ''k''\<rparr>], ex_created\<lparr>bt_dedupe_key := Some ''k''\<rparr>)"
  by (simp add: insert_typed_task_record_def ex_keyed_model create_def Let_def)
     (simp add: ex_created_def ex_task_env_def)

theorem dedupe_insert_idempotent_witness:
  "insert_typed_task_record (ex_task_env 0 8) ex_keyed [ex_created\<lparr>bt_dedupe_key := Some ''k''\<rparr>]
   = Inr ([ex_created\<lparr>bt_dedupe_key := Some ''k''\<rparr>], ex_created\<lparr>bt_dedupe_key := Some ''k''\<rparr>)"
  by (rule dedupe_insert_idempotent [OF ex_keyed_insert _ _ ex_keyed_model])
     (simp_all add: ex_keyed_def)

definition ex_purge :: background_task where
  "ex_purge = ex_task\<lparr>bt_kind := TrashPurgeAll\<rparr>"

definition ex_world :: "background_task list \<Rightarrow> task_world" where
  "ex_world tbl = \<lparr>tw_tasks = tbl, tw_members = [], tw_locks = ex_db\<rparr>"

theorem cancel_running_is_cooperative_witness:
  "\<exists>tbl'. cancel_request (\<lambda>_. None) (\<lambda>_. Inr (OI_Text [])) (Inr ()) (ex_task_env 10 8) (WS_Personal 1) 7 (ex_world [ex_purge])
       = Inr ((ex_world [ex_purge])\<lparr>tw_tasks := tbl'\<rparr>, True)
     \<and> touch_task_heartbeat \<lparr>ls_task_id = 7, ls_processing_token = 1\<rparr> 11 71 tbl' = Inr (tbl', HB_CancellationRequested)"
proof -
  have "unique_key bt_id (tw_tasks (ex_world [ex_purge]))"
    "find_key bt_id 7 (tw_tasks (ex_world [ex_purge])) = Some ex_purge" "bt_status ex_purge = Processing"
    "ensure_task_in_scope ex_purge (WS_Personal 1) = Inr ()" "bt_kind ex_purge \<noteq> SystemRuntime"
    "\<lparr>ls_task_id = 7, ls_processing_token = 1\<rparr> = \<lparr>ls_task_id = 7, ls_processing_token = bt_processing_token ex_purge\<rparr>"
    by (simp_all add: ex_world_def ex_purge_def ex_task_def unique_key_def find_key_def
        ensure_task_in_scope_def verify_owner_def)
  note c = cancel_running_is_cooperative [OF this, of
      "\<lparr>su_id = 7, su_processing_token = 1, su_result_json = None, su_steps_json = None,
        su_current = 1, su_total = 1, su_status_text = None, su_finished_at = 61, su_expires_at = 99\<rparr>"
      "\<lparr>fu_id = 7, fu_processing_token = 1, fu_attempt_count = 1, fu_last_error = [],
        fu_finished_at = 61, fu_expires_at = 99, fu_steps_json = None, fu_failure_can_retry = True\<rparr>"]
  show ?thesis using c by simp metis
qed

lemma ex_scope_locked: "lock_scope_on (ex_env 0) (LW_Personal 1) (ex_world tbl) = Inr (ex_world tbl)"
  by (simp add: lock_scope_on_def lock_workspace_for_mutation_on_def ensure_and_lock_def lookup_eval ex_defs
      ex_world_def Let_def)

theorem purge_excludes_mutations_witness:
  "fence_purge_on 10 (ex_env 0) (LW_Personal 1) \<lparr>ls_task_id = 7, ls_processing_token = 1\<rparr> (ex_world [ex_purge])
     = Inr (ex_world [ex_purge])
   \<and> admit_mutation_on (ex_env 0) (LW_Personal 1) (ex_world [ex_purge]) \<noteq> Inr (ex_world [ex_purge])"
proof -
  have "fence_purge_on 10 (ex_env 0) (LW_Personal 1) \<lparr>ls_task_id = 7, ls_processing_token = 1\<rparr> (ex_world [ex_purge])
     = Inr (ex_world [ex_purge])"
    by (simp add: fence_purge_on_def ex_scope_locked) (simp add: ex_world_def ex_purge_def ex_task_def
        find_key_def task_in_workspace_def)
  then show ?thesis using purge_excludes_mutations by blast
qed

definition ex_failed :: background_task where
  "ex_failed = ex_task\<lparr>bt_status := Failed, bt_lease_expires_at := None, bt_finished_at := Some 5\<rparr>"

theorem manual_retry_resets_witness:
  "\<exists>w' r'. retry_task_record (Inr ()) (ex_task_env 10 8) ex_failed (ex_world [ex_failed]) = Inr w'
     \<and> find_key bt_id 7 (tw_tasks w') = Some r' \<and> bt_status r' = Pending \<and> claimable_condition 10 r'"
proof -
  have u: "unique_key bt_id (tw_tasks (ex_world [ex_failed]))" by (simp add: ex_world_def unique_key_def)
  obtain w' where w: "retry_task_record (Inr ()) (ex_task_env 10 8) ex_failed (ex_world [ex_failed]) = Inr w'"
    by (simp add: retry_task_record_def ex_failed_def ex_task_def task_can_retry_def ex_task_env_def
        retry_admission_def ex_world_def reset_for_manual_retry_def exec_one_def)
  have "bt_id ex_failed = 7" "te_now (ex_task_env 10 8) = 10"
    by (simp_all add: ex_failed_def ex_task_def ex_task_env_def)
  then show ?thesis using manual_retry_resets [OF u w] w by auto
qed

theorem admin_cleanup_exact_witness:
  "\<exists>w'. cleanup_tasks_for_admin (\<lambda>_. None) (\<lambda>_. Inr (OI_Text [])) (ex_task_env 10 8)
       \<lparr>cf_finished_before = 9, cf_kind = None, cf_status = None\<rparr> (ex_world [ex_failed, ex_purge\<lparr>bt_id := 8\<rparr>]) = Inr (w', 1)
     \<and> tw_tasks w' = [ex_purge\<lparr>bt_id := 8\<rparr>]"
proof -
  let ?w = "ex_world [ex_failed, ex_purge\<lparr>bt_id := 8\<rparr>]"
  let ?fl = "\<lparr>cf_finished_before = 9, cf_kind = None, cf_status = None\<rparr>"
  have u: "unique_key bt_id (tw_tasks ?w)" "unique_key rl_id (db_locks (tw_locks ?w))"
    by (simp_all add: ex_world_def unique_key_def ex_failed_def ex_purge_def ex_task_def ex_db_def)
  have sel: "terminal_cleanup_condition ?fl ex_failed" "\<not> terminal_cleanup_condition ?fl (ex_purge\<lparr>bt_id := 8\<rparr>)"
    by (simp_all add: terminal_cleanup_condition_def ex_failed_def ex_purge_def ex_task_def)
  have "cleanup_terminal_operation_on (\<lambda>_. None) (\<lambda>_. Inr (OI_Text [])) env ex_failed w = Inr w" for env w
    by (simp add: cleanup_terminal_operation_on_def ex_failed_def ex_task_def)
  then obtain w' k where "cleanup_tasks_for_admin (\<lambda>_. None) (\<lambda>_. Inr (OI_Text [])) (ex_task_env 10 8) ?fl ?w = Inr (w', k)"
    using sel by (simp add: cleanup_tasks_for_admin_def validate_admin_task_cleanup_status_def
        list_terminal_by_filters_for_update_def select_where_def case_prod_beta Let_def ex_world_def)
  then show ?thesis using admin_cleanup_exact [OF u] sel by (force simp: ex_world_def)
qed

theorem scratch_cleanup_spares_live_tasks_witness:
  "\<exists>gone res. cleanup_expired_in_root 10 [] ''/t''
        (RD_Entries [\<lparr>sc_path = ''/t/7'', sc_is_dir = Inr True, sc_name = Some ''7'', sc_still_exists = Inr False\<rparr>]) = (gone, res)
      \<and> ''/t/7'' \<in> set gone \<and> (\<exists>i. parse_i64 ''7'' = Some i)"
proof -
  let ?l = "RD_Entries [\<lparr>sc_path = ''/t/7'', sc_is_dir = Inr True, sc_name = Some ''7'', sc_still_exists = Inr False\<rparr>]"
  have "parse_i64 ''7'' = Some 7"
    by (simp add: parse_i64_def parse_nat_digits_def is_digit_def digits_value_def in_i64_def i64_max_def i64_min_def)
  then have c: "cleanup_expired_in_root 10 [] ''/t'' ?l = ([''/t/7''], Inr 1)"
    by (simp add: cleanup_expired_in_root_def should_cleanup_scratch_def find_by_id_def find_key_def)
  show ?thesis
    using scratch_cleanup_spares_live_tasks [OF _ c, of "''/t/7''"] c by (auto simp: unique_key_def)
qed

end
