(* ===== verification/Blob_Store.thy ===== *)
theory Blob_Store
  imports Aster_Errors
begin

text \<open>
  Blob rows and their reference counts:
  \<open>src/crates/aster_drive_model/src/entities/file_blob.rs\<close> and
  \<open>src/src/db/repository/file_repo/blob/\<close> (reference counting, cleanup claims, lookup and creation,
  thumbnail columns and moves between policies).

  A blob is active while its reference count is at least 0; the count -1 marks a row that a cleanup
  worker has claimed. The clock is the argument \<open>now\<close>. An \<open>UPDATE\<close> evaluates its expressions on the
  old row.
\<close>

section \<open>Rows\<close>

datatype file_blob_backing = Stored | VirtualEmpty

definition has_connector_object :: "file_blob_backing \<Rightarrow> bool" where
  "has_connector_object b = (b = Stored)"

record file_blob =
  fb_id :: int
  fb_hash :: string
  fb_size :: int
  fb_policy_id :: int
  fb_storage_path :: "string option"
  fb_backing :: file_blob_backing
  fb_thumbnail_path :: "string option"
  fb_thumbnail_processor :: "string option"
  fb_thumbnail_version :: "string option"
  fb_ref_count :: int
  fb_cleanup_pending_since :: "time option"
  fb_created_at :: time
  fb_updated_at :: time

type_synonym blob_table = "file_blob list"

definition EMPTY_SHA256 :: string where
  "EMPTY_SHA256 = ''e3b0c44298fc1c149afbf4c8996fb92427ae41e4649b934ca495991b7852b855''"

definition validate_backing_fields ::
  "file_blob_backing \<Rightarrow> string option \<Rightarrow> int \<Rightarrow> string \<Rightarrow> string + unit" where
  "validate_backing_fields backing path sz hash =
     (case backing of
        Stored \<Rightarrow> if path \<noteq> None then Inr () else Inl ''stored blob is missing storage_path''
      | VirtualEmpty \<Rightarrow>
          if path = None \<and> sz = 0 \<and> hash = EMPTY_SHA256 then Inr ()
          else Inl ''virtual_empty blob must have zero size, canonical empty SHA-256, and no storage_path'')"

definition validate_backing :: "file_blob \<Rightarrow> string + unit" where
  "validate_backing b = validate_backing_fields (fb_backing b) (fb_storage_path b) (fb_size b) (fb_hash b)"

definition storage_path_for_connector :: "file_blob \<Rightarrow> string option" where
  "storage_path_for_connector b = (if has_connector_object (fb_backing b) then fb_storage_path b else None)"

definition is_virtual_empty :: "file_blob \<Rightarrow> bool" where
  "is_virtual_empty b = (fb_backing b = VirtualEmpty)"

section \<open>Reference counts\<close>

definition find_active_blob_by_hash :: "string \<Rightarrow> int \<Rightarrow> blob_table \<Rightarrow> file_blob option" where
  "find_active_blob_by_hash hash policy tbl =
     List.find (\<lambda>b. fb_hash b = hash \<and> fb_policy_id b = policy \<and> fb_ref_count b \<ge> 0) tbl"

definition blob_not_found :: "int \<Rightarrow> aster_error" where
  "blob_not_found i = record_not_found (''file_blob #'' @ int_to_string i)"

definition increment_row :: "time \<Rightarrow> int \<Rightarrow> file_blob \<Rightarrow> file_blob" where
  "increment_row now delta b =
     b\<lparr>fb_cleanup_pending_since := None, fb_ref_count := fb_ref_count b + delta, fb_updated_at := now\<rparr>"

definition increment_blob_ref_count :: "time \<Rightarrow> int \<Rightarrow> blob_table \<Rightarrow> blob_table aster_result" where
  "increment_blob_ref_count now i tbl =
     (let (tbl', n) = update_where (\<lambda>b. fb_id b = i \<and> fb_ref_count b \<ge> 0) (increment_row now 1) tbl in
      if n = 0 then Inl (blob_not_found i) else Inr tbl')"

definition increment_blob_ref_count_by :: "time \<Rightarrow> int \<Rightarrow> int \<Rightarrow> blob_table \<Rightarrow> blob_table aster_result" where
  "increment_blob_ref_count_by now i delta tbl =
     (if delta < 0
      then Inl (internal_error (''increment_blob_ref_count_by requires positive delta, got '' @ int_to_string delta))
      else if delta = 0 then Inr tbl
      else let (tbl', n) = update_where (\<lambda>b. fb_id b = i \<and> fb_ref_count b \<ge> 0) (increment_row now delta) tbl in
           if n = 0 then Inl (blob_not_found i) else Inr tbl')"

text \<open>The merged deltas are an ordered map from blob ids to \<open>i32\<close> values: a sorted association list.\<close>

fun merge_delta :: "int \<Rightarrow> int \<Rightarrow> (int \<times> int) list \<Rightarrow> (int \<times> int) list option" where
  "merge_delta i d [] = Some [(i, d)]"
| "merge_delta i d ((j, e) # m) =
     (if i < j then Some ((i, d) # (j, e) # m)
      else if i = j then map_option (\<lambda>s. (j, s) # m) (checked_add_i32 e d)
      else map_option (\<lambda>m'. (j, e) # m') (merge_delta i d m))"

fun normalize_deltas_from ::
  "string \<Rightarrow> (int \<times> int) list \<Rightarrow> (int \<times> int) list \<Rightarrow> (int \<times> int) list aster_result" where
  "normalize_deltas_from ctx [] merged = Inr merged"
| "normalize_deltas_from ctx ((i, d) # ds) merged =
     (if d < 0
      then Inl (internal_error (ctx @ '' requires positive delta for blob '' @ int_to_string i @ '', got '' @ int_to_string d))
      else if d = 0 then normalize_deltas_from ctx ds merged
      else case merge_delta i d merged of
             None \<Rightarrow> Inl (internal_error (ctx @ '' delta overflow while merging blob '' @ int_to_string i))
           | Some m \<Rightarrow> normalize_deltas_from ctx ds m)"

definition normalize_blob_ref_count_deltas :: "(int \<times> int) list \<Rightarrow> string \<Rightarrow> (int \<times> int) list aster_result" where
  "normalize_blob_ref_count_deltas deltas ctx = normalize_deltas_from ctx deltas []"

definition blob_ref_count_increment_expr :: "(int \<times> int) list \<Rightarrow> file_blob \<Rightarrow> int" where
  "blob_ref_count_increment_expr deltas b =
     (case map_of deltas (fb_id b) of Some d \<Rightarrow> fb_ref_count b + d | None \<Rightarrow> fb_ref_count b)"

definition floor_sub :: "int \<Rightarrow> int \<Rightarrow> int" where
  "floor_sub r d = (if r < d then 0 else r - d)"

definition blob_ref_count_decrement_expr :: "(int \<times> int) list \<Rightarrow> file_blob \<Rightarrow> int" where
  "blob_ref_count_decrement_expr deltas b =
     (case map_of deltas (fb_id b) of Some d \<Rightarrow> floor_sub (fb_ref_count b) d | None \<Rightarrow> fb_ref_count b)"

definition increment_blob_ref_counts_by :: "time \<Rightarrow> (int \<times> int) list \<Rightarrow> blob_table \<Rightarrow> blob_table aster_result" where
  "increment_blob_ref_counts_by now ds tbl =
     bind_result (normalize_blob_ref_count_deltas ds ''increment_blob_ref_counts_by'') (\<lambda>deltas.
     if deltas = [] then Inr tbl
     else let (tbl', n) = update_where
                (\<lambda>b. fb_id b \<in> set (map fst deltas) \<and> fb_ref_count b \<ge> 0)
                (\<lambda>b. b\<lparr>fb_cleanup_pending_since := None, fb_ref_count := blob_ref_count_increment_expr deltas b,
                       fb_updated_at := now\<rparr>) tbl in
          if n \<noteq> length deltas
          then Inl (record_not_found ''one or more file_blob rows were missing or cleanup-claimed during ref_count increment'')
          else Inr tbl')"

definition cleanup_pending_since_expr :: "time \<Rightarrow> int \<Rightarrow> file_blob \<Rightarrow> time option" where
  "cleanup_pending_since_expr now next b =
     (if next \<le> 0 then if_null (fb_cleanup_pending_since b) now else None)"

definition set_count_row :: "time \<Rightarrow> (file_blob \<Rightarrow> int) \<Rightarrow> file_blob \<Rightarrow> file_blob" where
  "set_count_row now next b =
     b\<lparr>fb_cleanup_pending_since := cleanup_pending_since_expr now (next b) b, fb_ref_count := next b,
       fb_updated_at := now\<rparr>"

definition decrement_blob_ref_count :: "time \<Rightarrow> int \<Rightarrow> blob_table \<Rightarrow> blob_table" where
  "decrement_blob_ref_count now i tbl =
     fst (update_where (\<lambda>b. fb_id b = i) (set_count_row now (\<lambda>b. floor_sub (fb_ref_count b) 1)) tbl)"

definition decrement_blob_ref_count_by :: "time \<Rightarrow> int \<Rightarrow> int \<Rightarrow> blob_table \<Rightarrow> blob_table aster_result" where
  "decrement_blob_ref_count_by now i delta tbl =
     (if delta < 0
      then Inl (internal_error (''decrement_blob_ref_count_by requires positive delta, got '' @ int_to_string delta))
      else if delta = 0 then Inr tbl
      else Inr (fst (update_where (\<lambda>b. fb_id b = i)
                 (set_count_row now (\<lambda>b. floor_sub (fb_ref_count b) delta)) tbl)))"

definition decrement_blob_ref_counts_by :: "time \<Rightarrow> (int \<times> int) list \<Rightarrow> blob_table \<Rightarrow> blob_table aster_result" where
  "decrement_blob_ref_counts_by now ds tbl =
     bind_result (normalize_blob_ref_count_deltas ds ''decrement_blob_ref_counts_by'') (\<lambda>deltas.
     if deltas = [] then Inr tbl
     else Inr (fst (update_where (\<lambda>b. fb_id b \<in> set (map fst deltas))
                 (set_count_row now (blob_ref_count_decrement_expr deltas)) tbl)))"

section \<open>Cleanup claims\<close>

definition BLOB_CLEANUP_CLAIMED_REF_COUNT :: int where "BLOB_CLEANUP_CLAIMED_REF_COUNT = - 1"

definition count_blobs_by_policy :: "int \<Rightarrow> blob_table \<Rightarrow> nat" where
  "count_blobs_by_policy policy tbl = count_where (\<lambda>b. fb_policy_id b = policy) tbl"

definition delete_blobs :: "int list \<Rightarrow> blob_table \<Rightarrow> blob_table" where
  "delete_blobs ids tbl = (if ids = [] then tbl else fst (delete_where (\<lambda>b. fb_id b \<in> set ids) tbl))"

definition delete_blob :: "int \<Rightarrow> blob_table \<Rightarrow> blob_table" where
  "delete_blob i tbl = fst (delete_where (\<lambda>b. fb_id b = i) tbl)"

definition claim_blob_row :: "time \<Rightarrow> file_blob \<Rightarrow> file_blob" where
  "claim_blob_row now b =
     b\<lparr>fb_cleanup_pending_since := if_null (fb_cleanup_pending_since b) now,
       fb_ref_count := BLOB_CLEANUP_CLAIMED_REF_COUNT, fb_updated_at := now\<rparr>"

definition claim_blob_cleanup :: "time \<Rightarrow> int \<Rightarrow> blob_table \<Rightarrow> blob_table \<times> bool" where
  "claim_blob_cleanup now i tbl = exec_one (\<lambda>b. fb_id b = i \<and> fb_ref_count b = 0) (claim_blob_row now) tbl"

definition restore_blob_row :: "time \<Rightarrow> file_blob \<Rightarrow> file_blob" where
  "restore_blob_row now b = b\<lparr>fb_ref_count := 0, fb_updated_at := now\<rparr>"

definition restore_blob_cleanup_claim :: "time \<Rightarrow> int \<Rightarrow> blob_table \<Rightarrow> blob_table \<times> bool" where
  "restore_blob_cleanup_claim now i tbl =
     exec_one (\<lambda>b. fb_id b = i \<and> fb_ref_count b = BLOB_CLEANUP_CLAIMED_REF_COUNT) (restore_blob_row now) tbl"

definition delete_blob_if_cleanup_claimed :: "int \<Rightarrow> blob_table \<Rightarrow> blob_table \<times> bool" where
  "delete_blob_if_cleanup_claimed i tbl =
     (let (tbl', n) = delete_where (\<lambda>b. fb_id b = i \<and> fb_ref_count b = BLOB_CLEANUP_CLAIMED_REF_COUNT) tbl in
      (tbl', n = 1))"

definition reset_blob_ref_count_to_zero :: "time \<Rightarrow> int \<Rightarrow> blob_table \<Rightarrow> blob_table" where
  "reset_blob_ref_count_to_zero now i tbl = fst (update_where (\<lambda>b. fb_id b = i) (set_count_row now (\<lambda>_. 0)) tbl)"

definition set_blob_ref_count :: "time \<Rightarrow> int \<Rightarrow> int \<Rightarrow> blob_table \<Rightarrow> blob_table \<times> bool" where
  "set_blob_ref_count now i r tbl =
     (let (tbl', n) = update_where (\<lambda>b. fb_id b = i) (set_count_row now (\<lambda>_. r)) tbl in (tbl', n > 0))"

section \<open>Lookup and creation\<close>

definition find_blob_by_hash :: "string \<Rightarrow> int \<Rightarrow> blob_table \<Rightarrow> file_blob option" where
  "find_blob_by_hash hash policy tbl =
     List.find (\<lambda>b. fb_hash b = hash \<and> fb_policy_id b = policy \<and> fb_backing b = Stored) tbl"

definition find_virtual_empty_blob_by_policy :: "int \<Rightarrow> blob_table \<Rightarrow> file_blob option" where
  "find_virtual_empty_blob_by_policy policy tbl =
     List.find (\<lambda>b. fb_hash b = EMPTY_SHA256 \<and> fb_policy_id b = policy \<and> fb_backing b = VirtualEmpty) tbl"

definition find_blob_by_id :: "int \<Rightarrow> blob_table \<Rightarrow> file_blob aster_result" where
  "find_blob_by_id i tbl =
     (case find_key fb_id i tbl of Some b \<Rightarrow> Inr b | None \<Rightarrow> Inl (blob_not_found i))"

definition lock_blob_by_id :: "int \<Rightarrow> blob_table \<Rightarrow> file_blob aster_result" where
  "lock_blob_by_id i tbl = find_blob_by_id i tbl"

definition find_blobs_paginated :: "int option \<Rightarrow> int option \<Rightarrow> nat \<Rightarrow> blob_table \<Rightarrow> file_blob list" where
  "find_blobs_paginated after_id max_id limit tbl =
     take limit (sort_key fb_id (select_where
       (\<lambda>b. (case after_id of Some a \<Rightarrow> fb_id b > a | None \<Rightarrow> True)
          \<and> (case max_id of Some m \<Rightarrow> fb_id b \<le> m | None \<Rightarrow> True)) tbl))"

definition find_stored_blobs_by_policy_paginated :: "int \<Rightarrow> int \<Rightarrow> nat \<Rightarrow> blob_table \<Rightarrow> file_blob list" where
  "find_stored_blobs_by_policy_paginated policy after_id limit tbl =
     take limit (sort_key fb_id (select_where
       (\<lambda>b. fb_policy_id b = policy \<and> fb_backing b = Stored \<and> fb_id b > after_id) tbl))"

definition find_stored_blob_probe_sample_by_policy :: "int \<Rightarrow> nat \<Rightarrow> blob_table \<Rightarrow> file_blob list" where
  "find_stored_blob_probe_sample_by_policy policy limit tbl =
     (if limit = 0 then []
      else let rows = sort_key fb_id (select_where (\<lambda>b. fb_policy_id b = policy \<and> fb_backing b = Stored) tbl);
               first = take ((limit + 1) div 2) rows;
               last' = take (limit div 2) (rev rows) in
           map (\<lambda>xs. hd xs) (map (\<lambda>i. filter (\<lambda>b. fb_id b = i) (first @ last'))
             (remdups_adj (sort (map fb_id (first @ last'))))))"

text \<open>The unique index on (hash, policy, backing).\<close>

definition same_slot :: "file_blob \<Rightarrow> file_blob \<Rightarrow> bool" where
  "same_slot a b = (fb_hash a = fb_hash b \<and> fb_policy_id a = fb_policy_id b \<and> fb_backing a = fb_backing b)"

definition insert_blob :: "file_blob \<Rightarrow> blob_table \<Rightarrow> blob_table option" where
  "insert_blob b tbl = (if \<exists>x \<in> set tbl. same_slot x b then None else Some (tbl @ [b]))"

definition unique_violation :: aster_error where
  "unique_violation = DatabaseOperation (payload_new ''UNIQUE constraint failed'')"

definition create_blob :: "time \<Rightarrow> file_blob \<Rightarrow> blob_table \<Rightarrow> (blob_table \<times> file_blob) aster_result" where
  "create_blob now model tbl =
     (case validate_backing model of
        Inl m \<Rightarrow> Inl (internal_error m)
      | Inr _ \<Rightarrow>
          let row = (if fb_ref_count model \<le> 0 \<and> fb_cleanup_pending_since model = None
                     then model\<lparr>fb_cleanup_pending_since := Some now\<rparr> else model) in
          case insert_blob row tbl of
            None \<Rightarrow> Inl unique_violation
          | Some tbl' \<Rightarrow> Inr (tbl', row))"

definition FIND_OR_CREATE_BLOB_MAX_ATTEMPTS :: nat where "FIND_OR_CREATE_BLOB_MAX_ATTEMPTS = 7"
definition FIND_OR_CREATE_BLOB_INITIAL_DELAY_MS :: nat where "FIND_OR_CREATE_BLOB_INITIAL_DELAY_MS = 5"
definition FIND_OR_CREATE_BLOB_MAX_DELAY_MS :: nat where "FIND_OR_CREATE_BLOB_MAX_DELAY_MS = 80"

definition find_or_create_blob_retry_delay :: "nat \<Rightarrow> nat" where
  "find_or_create_blob_retry_delay attempt =
     min (FIND_OR_CREATE_BLOB_INITIAL_DELAY_MS * 2 ^ min attempt 4) FIND_OR_CREATE_BLOB_MAX_DELAY_MS"

definition new_blob_row ::
  "time \<Rightarrow> int \<Rightarrow> string \<Rightarrow> int \<Rightarrow> int \<Rightarrow> string option \<Rightarrow> file_blob_backing \<Rightarrow> file_blob" where
  "new_blob_row now i hash sz policy path backing =
     \<lparr>fb_id = i, fb_hash = hash, fb_size = sz, fb_policy_id = policy, fb_storage_path = path,
      fb_backing = backing, fb_thumbnail_path = None, fb_thumbnail_processor = None,
      fb_thumbnail_version = None, fb_ref_count = 1, fb_cleanup_pending_since = None,
      fb_created_at = now, fb_updated_at = now\<rparr>"

record find_or_create_blob_result =
  fr_model :: file_blob
  fr_inserted :: bool

definition find_slot :: "string \<Rightarrow> int \<Rightarrow> file_blob_backing \<Rightarrow> blob_table \<Rightarrow> file_blob option" where
  "find_slot hash policy backing tbl =
     List.find (\<lambda>b. fb_hash b = hash \<and> fb_policy_id b = policy \<and> fb_backing b = backing) tbl"

definition find_active_slot :: "string \<Rightarrow> int \<Rightarrow> file_blob_backing \<Rightarrow> blob_table \<Rightarrow> file_blob option" where
  "find_active_slot hash policy backing tbl =
     List.find (\<lambda>b. fb_hash b = hash \<and> fb_policy_id b = policy \<and> fb_backing b = backing \<and> fb_ref_count b \<ge> 0) tbl"

text \<open>
  The retry loops. \<open>others k\<close> is what other transactions do to the table before the \<open>k\<close>-th statement of
  the call; \<open>left\<close> counts the remaining attempts. The result is the table together with the outcome.
\<close>

fun find_or_create_blob_loop ::
  "(nat \<Rightarrow> blob_table \<Rightarrow> blob_table) \<Rightarrow> file_blob \<Rightarrow> time \<Rightarrow> nat \<Rightarrow> nat \<Rightarrow> blob_table
   \<Rightarrow> blob_table \<times> find_or_create_blob_result aster_result" where
  "find_or_create_blob_loop others row now k 0 tbl =
     (tbl, Inl (internal_error (''find_or_create_blob exceeded contention retry budget after ''
        @ nat_to_string FIND_OR_CREATE_BLOB_MAX_ATTEMPTS @ '' attempts for hash='' @ fb_hash row
        @ '', policy_id='' @ int_to_string (fb_policy_id row))))"
| "find_or_create_blob_loop others row now k (Suc left) tbl =
     (let tbl1 = others k tbl in
      case find_active_slot (fb_hash row) (fb_policy_id row) Stored tbl1 of
        Some existing \<Rightarrow>
          if checked_add_i32 (fb_ref_count existing) 1 = None
          then (tbl1, Inl (internal_error (''file_blob #'' @ int_to_string (fb_id existing) @ '' ref_count overflow: ''
                             @ int_to_string (fb_ref_count existing))))
          else let tbl2 = others (k + 1) tbl1 in
               (case increment_blob_ref_count now (fb_id existing) tbl2 of
                  Inr tbl3 \<Rightarrow>
                    let tbl4 = others (k + 2) tbl3 in
                    (tbl4, bind_result (find_blob_by_id (fb_id existing) tbl4)
                             (\<lambda>b. Inr \<lparr>fr_model = b, fr_inserted = False\<rparr>))
                | Inl e \<Rightarrow>
                    if error_code e = ''E006''
                    then find_or_create_blob_loop others row now (k + 3) left tbl2
                    else (tbl2, Inl e))
      | None \<Rightarrow>
          let tbl2 = others (k + 1) tbl1 in
          (case insert_blob row tbl2 of
             Some tbl3 \<Rightarrow>
               let tbl4 = others (k + 2) tbl3 in
               (tbl4, case find_slot (fb_hash row) (fb_policy_id row) Stored tbl4 of
                        Some b \<Rightarrow> Inr \<lparr>fr_model = b, fr_inserted = True\<rparr>
                      | None \<Rightarrow> Inl (internal_error (''find_or_create_blob could not reload inserted blob for hash=''
                                  @ fb_hash row @ '', policy_id='' @ int_to_string (fb_policy_id row))))
           | None \<Rightarrow> find_or_create_blob_loop others row now (k + 3) left tbl2))"

definition find_or_create_blob ::
  "(nat \<Rightarrow> blob_table \<Rightarrow> blob_table) \<Rightarrow> time \<Rightarrow> int \<Rightarrow> string \<Rightarrow> int \<Rightarrow> int \<Rightarrow> string \<Rightarrow> blob_table
   \<Rightarrow> blob_table \<times> find_or_create_blob_result aster_result" where
  "find_or_create_blob others now new_id hash sz policy path tbl =
     (case validate_backing_fields Stored (Some path) sz hash of
        Inl m \<Rightarrow> (tbl, Inl (internal_error m))
      | Inr _ \<Rightarrow> find_or_create_blob_loop others
                   (new_blob_row now new_id hash sz policy (Some path) Stored) now 0
                   FIND_OR_CREATE_BLOB_MAX_ATTEMPTS tbl)"

text \<open>Unlike the loop above, this one hands on the not-found error of its last attempt.\<close>

fun find_or_create_virtual_empty_loop ::
  "(nat \<Rightarrow> blob_table \<Rightarrow> blob_table) \<Rightarrow> file_blob \<Rightarrow> time \<Rightarrow> nat \<Rightarrow> nat \<Rightarrow> blob_table
   \<Rightarrow> blob_table \<times> find_or_create_blob_result aster_result" where
  "find_or_create_virtual_empty_loop others row now k 0 tbl =
     (tbl, Inl (internal_error (''find_or_create_virtual_empty_blob exceeded contention retry budget for policy_id=''
        @ int_to_string (fb_policy_id row))))"
| "find_or_create_virtual_empty_loop others row now k (Suc left) tbl =
     (let tbl1 = others k tbl in
      case find_active_slot (fb_hash row) (fb_policy_id row) VirtualEmpty tbl1 of
        Some existing \<Rightarrow>
          if checked_add_i32 (fb_ref_count existing) 1 = None
          then (tbl1, Inl (internal_error (''virtual empty file_blob #'' @ int_to_string (fb_id existing)
                             @ '' ref_count overflow: '' @ int_to_string (fb_ref_count existing))))
          else let tbl2 = others (k + 1) tbl1 in
               (case increment_blob_ref_count now (fb_id existing) tbl2 of
                  Inr tbl3 \<Rightarrow>
                    let tbl4 = others (k + 2) tbl3 in
                    (tbl4, bind_result (find_blob_by_id (fb_id existing) tbl4)
                             (\<lambda>b. Inr \<lparr>fr_model = b, fr_inserted = False\<rparr>))
                | Inl e \<Rightarrow>
                    if error_code e = ''E006'' \<and> 0 < left
                    then find_or_create_virtual_empty_loop others row now (k + 3) left tbl2
                    else (tbl2, Inl e))
      | None \<Rightarrow>
          let tbl2 = others (k + 1) tbl1 in
          (case insert_blob row tbl2 of
             Some tbl3 \<Rightarrow>
               let tbl4 = others (k + 2) tbl3 in
               (tbl4, case find_slot (fb_hash row) (fb_policy_id row) VirtualEmpty tbl4 of
                        Some b \<Rightarrow> Inr \<lparr>fr_model = b, fr_inserted = True\<rparr>
                      | None \<Rightarrow> Inl (internal_error ''inserted virtual empty blob could not be reloaded''))
           | None \<Rightarrow> find_or_create_virtual_empty_loop others row now (k + 3) left tbl2))"

definition find_or_create_virtual_empty_blob ::
  "(nat \<Rightarrow> blob_table \<Rightarrow> blob_table) \<Rightarrow> time \<Rightarrow> int \<Rightarrow> string \<Rightarrow> int \<Rightarrow> blob_table
   \<Rightarrow> blob_table \<times> find_or_create_blob_result aster_result" where
  "find_or_create_virtual_empty_blob others now new_id hash policy tbl =
     (case validate_backing_fields VirtualEmpty None 0 hash of
        Inl m \<Rightarrow> (tbl, Inl (internal_error m))
      | Inr _ \<Rightarrow> find_or_create_virtual_empty_loop others
                   (new_blob_row now new_id hash 0 policy None VirtualEmpty) now 0
                   FIND_OR_CREATE_BLOB_MAX_ATTEMPTS tbl)"

section \<open>Thumbnail columns, accounting and moves\<close>

definition find_blob_storage_paths_by_storage_paths :: "string list \<Rightarrow> blob_table \<Rightarrow> string set" where
  "find_blob_storage_paths_by_storage_paths candidates tbl =
     set (List.map_filter fb_storage_path
       (select_where (\<lambda>b. case fb_storage_path b of Some p \<Rightarrow> p \<in> set candidates | None \<Rightarrow> False) tbl))"

definition blob_storage_path_exists_for_policy :: "int \<Rightarrow> string \<Rightarrow> blob_table \<Rightarrow> bool" where
  "blob_storage_path_exists_for_policy policy path tbl =
     (count_where (\<lambda>b. fb_policy_id b = policy \<and> fb_storage_path b = Some path) tbl > 0)"

definition set_thumbnail_metadata ::
  "time \<Rightarrow> int \<Rightarrow> string \<Rightarrow> string \<Rightarrow> string \<Rightarrow> blob_table \<Rightarrow> blob_table \<times> bool" where
  "set_thumbnail_metadata now i path processor version tbl =
     exec_one (\<lambda>b. fb_id b = i)
       (\<lambda>b. b\<lparr>fb_thumbnail_path := Some path, fb_thumbnail_processor := Some processor,
              fb_thumbnail_version := Some version, fb_updated_at := now\<rparr>) tbl"

definition clear_thumbnail_row :: "time \<Rightarrow> file_blob \<Rightarrow> file_blob" where
  "clear_thumbnail_row now b =
     b\<lparr>fb_thumbnail_path := None, fb_thumbnail_processor := None, fb_thumbnail_version := None,
       fb_updated_at := now\<rparr>"

definition clear_thumbnail_metadata :: "time \<Rightarrow> int \<Rightarrow> blob_table \<Rightarrow> blob_table \<times> bool" where
  "clear_thumbnail_metadata now i tbl = exec_one (\<lambda>b. fb_id b = i) (clear_thumbnail_row now) tbl"

definition count_all_blobs :: "blob_table \<Rightarrow> nat" where
  "count_all_blobs tbl = length tbl"

definition sum_blob_bytes :: "blob_table \<Rightarrow> int" where
  "sum_blob_bytes tbl = sum_list (map fb_size tbl)"

definition sum_blob_bytes_by_policy :: "int \<Rightarrow> blob_table \<Rightarrow> int" where
  "sum_blob_bytes_by_policy policy tbl = sum_list (map fb_size (select_where (\<lambda>b. fb_policy_id b = policy) tbl))"

definition move_blob_row :: "time \<Rightarrow> int \<Rightarrow> string \<Rightarrow> string \<Rightarrow> file_blob \<Rightarrow> file_blob" where
  "move_blob_row now target hash path b =
     b\<lparr>fb_hash := hash, fb_policy_id := target, fb_storage_path := Some path, fb_thumbnail_path := None,
       fb_thumbnail_processor := None, fb_thumbnail_version := None, fb_updated_at := now\<rparr>"

text \<open>An update that would put two rows into one slot of the unique index is refused as a whole.\<close>

definition slots_distinct :: "blob_table \<Rightarrow> bool" where
  "slots_distinct tbl = distinct (map (\<lambda>b. (fb_hash b, fb_policy_id b, fb_backing b)) tbl)"

definition move_blob_policy_if_current ::
  "time \<Rightarrow> int \<Rightarrow> int \<Rightarrow> int \<Rightarrow> string \<Rightarrow> string \<Rightarrow> blob_table \<Rightarrow> (blob_table \<times> bool) aster_result" where
  "move_blob_policy_if_current now i source target hash path tbl =
     (let r = exec_one (\<lambda>b. fb_id b = i \<and> fb_policy_id b = source) (move_blob_row now target hash path) tbl in
      if slots_distinct (fst r) then Inr r else Inl unique_violation)"

definition move_virtual_empty_blob_policy_if_current ::
  "time \<Rightarrow> int \<Rightarrow> int \<Rightarrow> int \<Rightarrow> blob_table \<Rightarrow> (blob_table \<times> bool) aster_result" where
  "move_virtual_empty_blob_policy_if_current now i source target tbl =
     (let r = exec_one (\<lambda>b. fb_id b = i \<and> fb_policy_id b = source \<and> fb_backing b = VirtualEmpty)
                (\<lambda>b. b\<lparr>fb_policy_id := target, fb_updated_at := now\<rparr>) tbl in
      if slots_distinct (fst r) then Inr r else Inl unique_violation)"

definition delete_blob_by_id :: "int \<Rightarrow> blob_table \<Rightarrow> blob_table \<times> bool" where
  "delete_blob_by_id i tbl =
     (let (tbl', n) = delete_where (\<lambda>b. fb_id b = i) tbl in (tbl', n = 1))"

section \<open>Blobs that are not shared by content\<close>

definition is_ascii_hexdigit :: "char \<Rightarrow> bool" where
  "is_ascii_hexdigit c =
     (let n = of_char c :: nat in (48 \<le> n \<and> n \<le> 57) \<or> (65 \<le> n \<and> n \<le> 70) \<or> (97 \<le> n \<and> n \<le> 102))"

definition is_content_sha256_blob_key :: "string \<Rightarrow> bool" where
  "is_content_sha256_blob_key k = (length k = 64 \<and> list_all is_ascii_hexdigit k)"

definition create_nondedup_blob_with_key ::
  "time \<Rightarrow> int \<Rightarrow> int \<Rightarrow> int \<Rightarrow> string \<Rightarrow> string \<Rightarrow> blob_table \<Rightarrow> (blob_table \<times> file_blob) aster_result" where
  "create_nondedup_blob_with_key now new_id sz policy blob_key path tbl =
     (if is_content_sha256_blob_key blob_key
      then Inl (validation_error ''non-deduplicated blob keys must not be 64-character hexadecimal content hashes'')
      else create_blob now (new_blob_row now new_id blob_key sz policy (Some path) Stored) tbl)"

definition create_opaque_nondedup_blob ::
  "time \<Rightarrow> int \<Rightarrow> int \<Rightarrow> int \<Rightarrow> string \<Rightarrow> string \<Rightarrow> string \<Rightarrow> blob_table \<Rightarrow> (blob_table \<times> file_blob) aster_result" where
  "create_opaque_nondedup_blob now new_id sz policy hash_prefix object_id path tbl =
     create_blob now (new_blob_row now new_id (hash_prefix @ ''-'' @ object_id) sz policy (Some path) Stored) tbl"

section \<open>Comparing two storage policies\<close>

definition find_blobs_by_policy_paginated :: "int \<Rightarrow> int \<Rightarrow> nat \<Rightarrow> blob_table \<Rightarrow> file_blob list" where
  "find_blobs_by_policy_paginated policy after_id limit tbl =
     take limit (sort_key fb_id (select_where (\<lambda>b. fb_policy_id b = policy \<and> fb_id b > after_id) tbl))"

definition find_blobs_by_ids :: "int list \<Rightarrow> blob_table \<Rightarrow> int \<Rightarrow> file_blob option" where
  "find_blobs_by_ids ids tbl = (\<lambda>i. if i \<in> set ids then find_key fb_id i tbl else None)"

record storage_policy_blob_summary =
  bs_count :: nat
  bs_total_size :: int

definition summarize_blobs_by_policy_and_backing ::
  "int \<Rightarrow> file_blob_backing \<Rightarrow> blob_table \<Rightarrow> storage_policy_blob_summary" where
  "summarize_blobs_by_policy_and_backing policy backing tbl =
     (let rows = select_where (\<lambda>b. fb_policy_id b = policy \<and> fb_backing b = backing) tbl in
      \<lparr>bs_count = length rows, bs_total_size = sum_list (map fb_size rows)\<rparr>)"

definition summarize_blobs_by_policy :: "int \<Rightarrow> blob_table \<Rightarrow> storage_policy_blob_summary" where
  "summarize_blobs_by_policy policy tbl =
     (let rows = select_where (\<lambda>b. fb_policy_id b = policy) tbl in
      \<lparr>bs_count = length rows, bs_total_size = sum_list (map fb_size rows)\<rparr>)"

record storage_policy_blob_hash_kind_summary =
  hk_content_sha256_count :: nat
  hk_opaque_count :: nat

definition summarize_blob_hash_kinds_by_policy :: "int \<Rightarrow> blob_table \<Rightarrow> storage_policy_blob_hash_kind_summary" where
  "summarize_blob_hash_kinds_by_policy policy tbl =
     \<lparr>hk_content_sha256_count =
        count_where (\<lambda>b. fb_policy_id b = policy \<and> is_content_sha256_blob_key (fb_hash b)) tbl,
      hk_opaque_count =
        count_where (\<lambda>b. fb_policy_id b = policy \<and> \<not> is_content_sha256_blob_key (fb_hash b)) tbl\<rparr>"

definition same_content :: "file_blob \<Rightarrow> file_blob \<Rightarrow> bool" where
  "same_content source target =
     (fb_hash target = fb_hash source \<and> fb_size target = fb_size source \<and> fb_backing target = fb_backing source)"

text \<open>An inner join: one row per matching pair.\<close>

definition count_matching_hashes_between_policies :: "int \<Rightarrow> int \<Rightarrow> blob_table \<Rightarrow> nat" where
  "count_matching_hashes_between_policies source_policy target_policy tbl =
     length [(s, t). s \<leftarrow> tbl, t \<leftarrow> tbl, same_content s t \<and> fb_policy_id t = target_policy
             \<and> fb_policy_id s = source_policy \<and> is_content_sha256_blob_key (fb_hash s)]"

definition count_opaque_hash_conflicts_between_policies :: "int \<Rightarrow> int \<Rightarrow> blob_table \<Rightarrow> nat" where
  "count_opaque_hash_conflicts_between_policies source_policy target_policy tbl =
     count_where (\<lambda>s. fb_policy_id s = source_policy \<and> \<not> is_content_sha256_blob_key (fb_hash s)
       \<and> (\<exists>t \<in> set tbl. fb_policy_id t = target_policy \<and> fb_hash t = fb_hash s \<and> fb_backing t = fb_backing s)) tbl"

record storage_policy_missing_blob_summary =
  ms_count :: nat
  ms_total_size :: int
  ms_max_size :: int

definition summarize_missing_blobs_between_policies ::
  "int \<Rightarrow> int \<Rightarrow> blob_table \<Rightarrow> storage_policy_missing_blob_summary" where
  "summarize_missing_blobs_between_policies source_policy target_policy tbl =
     (let rows = select_where (\<lambda>s. fb_policy_id s = source_policy
                   \<and> \<not> (\<exists>t \<in> set tbl. fb_policy_id t = target_policy \<and> same_content s t
                            \<and> is_content_sha256_blob_key (fb_hash s))) tbl in
      \<lparr>ms_count = length rows, ms_total_size = sum_list (map fb_size rows),
       ms_max_size = (if rows = [] then 0 else Max (set (map fb_size rows)))\<rparr>)"

section \<open>Order of updates\<close>

lemma floor_sub_floor_sub: "0 \<le> d \<Longrightarrow> 0 \<le> e \<Longrightarrow> floor_sub (floor_sub r d) e = floor_sub r (d + e)"
  by (auto simp: floor_sub_def)

lemma floor_sub_nonneg: "0 \<le> d \<Longrightarrow> 0 \<le> floor_sub r d"
  by (auto simp: floor_sub_def)

section \<open>Well-formed rows\<close>

text \<open>The cleanup marker is set exactly on the rows without references, claimed ones included.\<close>

definition blob_row_ok :: "file_blob \<Rightarrow> bool" where
  "blob_row_ok b = (- 1 \<le> fb_ref_count b \<and> (fb_cleanup_pending_since b \<noteq> None) = (fb_ref_count b \<le> 0))"

definition blob_table_ok :: "blob_table \<Rightarrow> bool" where
  "blob_table_ok tbl = (unique_key fb_id tbl \<and> slots_distinct tbl \<and> (\<forall>b \<in> set tbl. blob_row_ok b))"

lemma insert_blob_distinct:
  assumes "insert_blob b tbl = Some tbl'" "slots_distinct tbl"
  shows "slots_distinct tbl'"
  using assms by (fastforce simp: insert_blob_def slots_distinct_def same_slot_def split: if_splits)

lemma slots_distinct_update:
  assumes "\<And>b. fb_hash (f b) = fb_hash b \<and> fb_policy_id (f b) = fb_policy_id b \<and> fb_backing (f b) = fb_backing b"
  shows "slots_distinct (fst (update_where p f tbl)) = slots_distinct tbl"
proof -
  have "map (\<lambda>b. (fb_hash b, fb_policy_id b, fb_backing b)) (fst (update_where p f tbl)) =
        map (\<lambda>b. (fb_hash b, fb_policy_id b, fb_backing b)) tbl"
    by (rule map_key_update_where) (simp add: assms)
  then show ?thesis by (simp only: slots_distinct_def)
qed

lemma slots_distinct_delete: "slots_distinct tbl \<Longrightarrow> slots_distinct (fst (delete_where p tbl))"
  by (simp add: slots_distinct_def distinct_map_filter)

lemma table_ok_update:
  assumes "blob_table_ok tbl"
    and "\<And>b. fb_id (f b) = fb_id b \<and> fb_hash (f b) = fb_hash b \<and> fb_policy_id (f b) = fb_policy_id b
             \<and> fb_backing (f b) = fb_backing b"
    and "\<And>b. p b \<Longrightarrow> blob_row_ok b \<Longrightarrow> blob_row_ok (f b)"
  shows "blob_table_ok (fst (update_where p f tbl))"
proof -
  have "unique_key fb_id (fst (update_where p f tbl))"
    using assms(1,2) by (subst unique_key_update_where) (auto simp: blob_table_ok_def)
  moreover have "slots_distinct (fst (update_where p f tbl))"
    using assms(1,2) by (subst slots_distinct_update) (auto simp: blob_table_ok_def)
  ultimately show ?thesis using assms(1,3) by (auto simp: blob_table_ok_def)
qed

lemma table_ok_delete: "blob_table_ok tbl \<Longrightarrow> blob_table_ok (fst (delete_where p tbl))"
  unfolding blob_table_ok_def
  by (auto intro: unique_key_delete_where slots_distinct_delete simp del: delete_where_simps)
     (simp_all add: delete_where_def)

lemma table_ok_insert:
  assumes "blob_table_ok tbl" "insert_blob b tbl = Some tbl'" "blob_row_ok b" "fb_id b \<notin> fb_id ` set tbl"
  shows "blob_table_ok tbl'"
  using assms insert_blob_distinct [OF assms(2)]
  by (auto simp: blob_table_ok_def unique_key_def insert_blob_def split: if_splits)

text \<open>How the writes change one row.\<close>

lemma if_null_Some [simp]: "\<exists>y. if_null c v = Some y"
  by (cases c) auto

lemma increment_row_ok: "0 < d \<Longrightarrow> 0 \<le> fb_ref_count b \<Longrightarrow> blob_row_ok b \<Longrightarrow> blob_row_ok (increment_row now d b)"
  by (simp add: blob_row_ok_def increment_row_def)

lemma set_count_row_ok: "0 \<le> next b \<Longrightarrow> blob_row_ok (set_count_row now next b)"
  by (simp add: blob_row_ok_def set_count_row_def cleanup_pending_since_expr_def)

lemma claim_blob_row_ok: "blob_row_ok (claim_blob_row now b)"
  by (simp add: blob_row_ok_def claim_blob_row_def BLOB_CLEANUP_CLAIMED_REF_COUNT_def)

lemma restore_blob_row_ok:
  "fb_ref_count b = BLOB_CLEANUP_CLAIMED_REF_COUNT \<Longrightarrow> blob_row_ok b \<Longrightarrow> blob_row_ok (restore_blob_row now b)"
  by (simp add: blob_row_ok_def restore_blob_row_def BLOB_CLEANUP_CLAIMED_REF_COUNT_def)

lemma merge_delta_sum:
  assumes "merge_delta i d m = Some m'" "sorted_wrt (<) (map fst m)"
  shows "map_of m' = (\<lambda>j. if j = i then Some (d + (case map_of m i of Some e \<Rightarrow> e | None \<Rightarrow> 0)) else map_of m j)
         \<and> sorted_wrt (<) (map fst m') \<and> set (map fst m') = insert i (set (map fst m))"
  using assms
proof (induction i d m arbitrary: m' rule: merge_delta.induct)
  case (2 i d j e m)
  have none: "map_of m i = None" if "i \<le> j"
    using "2.prems"(2) that by (auto simp: map_of_eq_None_iff)
  show ?case
  proof (cases "i \<le> j")
    case True
    have "i < j \<longrightarrow> (\<forall>p \<in> set m. i < fst p)" using "2.prems"(2) by force
    then show ?thesis
      using "2.prems" none [OF True] True by (cases "i = j") (auto simp: fun_eq_iff)
  next
    case False
    then obtain m1 where m1: "merge_delta i d m = Some m1" "m' = (j, e) # m1"
      using "2.prems"(1) by auto
    then show ?thesis using "2.IH" [of m1] False "2.prems"(2) by (auto simp: fun_eq_iff)
  qed
qed (auto simp: fun_eq_iff)

text \<open>The sum of the deltas a request carries for one blob.\<close>

definition delta_sum :: "(int \<times> int) list \<Rightarrow> int \<Rightarrow> int" where
  "delta_sum ds i = sum_list (map snd (filter (\<lambda>p. fst p = i) ds))"

definition delta_of :: "(int \<times> int) list \<Rightarrow> int \<Rightarrow> int" where
  "delta_of m i = (case map_of m i of Some d \<Rightarrow> d | None \<Rightarrow> 0)"

lemma delta_sum_simps [simp]:
  "delta_sum [] i = 0"
  "delta_sum ((j, d) # ds) i = (if j = i then d else 0) + delta_sum ds i"
  by (simp_all add: delta_sum_def)

lemma delta_sum_nonneg: "\<forall>p \<in> set ds. 0 \<le> snd p \<Longrightarrow> 0 \<le> delta_sum ds i"
  by (induction ds) auto

text \<open>A positive merged map: no zero entries, keys in order.\<close>

definition deltas_ok :: "(int \<times> int) list \<Rightarrow> bool" where
  "deltas_ok m = (sorted_wrt (<) (map fst m) \<and> (\<forall>p \<in> set m. 0 < snd p))"

lemma deltas_ok_keys: "deltas_ok m \<Longrightarrow> i \<in> set (map fst m) \<longleftrightarrow> 0 < delta_of m i"
  by (induction m) (auto simp: deltas_ok_def delta_of_def)

lemma map_of_pos: "(\<forall>p \<in> set m. 0 < snd p) \<Longrightarrow> map_of m i = Some e \<Longrightarrow> (0::int) < e"
  by (auto dest!: map_of_SomeD)

lemma merge_delta_ok:
  assumes "merge_delta i d m = Some m'" "deltas_ok m" "0 < d"
  shows "deltas_ok m' \<and> (\<forall>j. delta_of m' j = (if j = i then d else 0) + delta_of m j)"
proof -
  note mm = merge_delta_sum [OF assms(1)]
  have s: "sorted_wrt (<) (map fst m')" and mo: "map_of m' = (\<lambda>j. if j = i then Some (d + delta_of m i) else map_of m j)"
    using mm assms(2) by (auto simp: deltas_ok_def delta_of_def)
  have "0 \<le> delta_of m i"
    using assms(2) by (auto simp: delta_of_def deltas_ok_def split: option.splits dest: map_of_pos)
  moreover have "distinct (map fst m')" using s by (simp add: strict_sorted_iff)
  ultimately have "0 < snd p" if "p \<in> set m'" for p
  proof -
    have "map_of m' (fst p) = Some (snd p)" using \<open>distinct (map fst m')\<close> that by (simp add: map_of_eq_Some_iff)
    then show ?thesis using \<open>0 \<le> delta_of m i\<close> assms(2,3) unfolding mo
      by (auto simp: deltas_ok_def split: if_splits dest: map_of_pos)
  qed
  then show ?thesis using s mo by (auto simp: deltas_ok_def delta_of_def)
qed

lemma normalize_deltas_from_Inr:
  assumes "normalize_deltas_from ctx ds m = Inr m'" "deltas_ok m"
  shows "(\<forall>p \<in> set ds. 0 \<le> snd p) \<and> deltas_ok m' \<and> (\<forall>i. delta_of m' i = delta_sum ds i + delta_of m i)"
  using assms
proof (induction ctx ds m rule: normalize_deltas_from.induct)
  case (2 ctx i d ds merged)
  show ?case
  proof (cases "d = 0")
    case True
    then show ?thesis using "2.IH"(1) "2.prems" by auto
  next
    case False
    then obtain m where m: "merge_delta i d merged = Some m" "0 < d" "normalize_deltas_from ctx ds m = Inr m'"
      using "2.prems"(1) by (auto split: if_splits option.splits)
    then show ?thesis using "2.IH"(2) [of m] merge_delta_ok [OF m(1) "2.prems"(2)] by auto
  qed
qed auto

section \<open>Batched counts against counts in turn\<close>

fun increments_in_turn :: "time \<Rightarrow> (int \<times> int) list \<Rightarrow> blob_table \<Rightarrow> blob_table aster_result" where
  "increments_in_turn now [] tbl = Inr tbl"
| "increments_in_turn now ((i, d) # ds) tbl =
     bind_result (increment_blob_ref_count_by now i d tbl) (increments_in_turn now ds)"

fun decrements_in_turn :: "time \<Rightarrow> (int \<times> int) list \<Rightarrow> blob_table \<Rightarrow> blob_table aster_result" where
  "decrements_in_turn now [] tbl = Inr tbl"
| "decrements_in_turn now ((i, d) # ds) tbl =
     bind_result (decrement_blob_ref_count_by now i d tbl) (decrements_in_turn now ds)"

definition bump :: "time \<Rightarrow> int \<Rightarrow> file_blob \<Rightarrow> file_blob" where
  "bump now s b = (if 0 < s then increment_row now s b else b)"

definition drain :: "time \<Rightarrow> int \<Rightarrow> file_blob \<Rightarrow> file_blob" where
  "drain now s b = (if 0 < s then set_count_row now (\<lambda>b. floor_sub (fb_ref_count b) s) b else b)"

lemma bump_keeps [simp]:
  "fb_id (bump now s b) = fb_id b" "fb_id (drain now s b) = fb_id b"
  "0 \<le> s \<Longrightarrow> 0 \<le> fb_ref_count b \<Longrightarrow> 0 \<le> fb_ref_count (bump now s b)"
  by (simp_all add: bump_def drain_def increment_row_def set_count_row_def)

lemma bump_bump: "0 \<le> s \<Longrightarrow> 0 \<le> t \<Longrightarrow> bump now t (bump now s b) = bump now (s + t) b"
  by (simp add: bump_def increment_row_def)

lemma drain_drain:
  "0 \<le> s \<Longrightarrow> 0 \<le> t \<Longrightarrow> blob_row_ok b \<Longrightarrow> drain now t (drain now s b) = drain now (s + t) b"
  by (cases "fb_cleanup_pending_since b")
     (auto simp: drain_def set_count_row_def cleanup_pending_since_expr_def blob_row_ok_def floor_sub_floor_sub
           floor_sub_def)

lemma drain_row_ok: "blob_row_ok b \<Longrightarrow> blob_row_ok (drain now s b)"
  by (simp add: drain_def set_count_row_ok floor_sub_nonneg)

lemma increments_in_turn_eq:
  assumes "\<forall>p \<in> set ds. 0 \<le> snd p" "unique_key fb_id tbl"
    and "\<forall>i. 0 < delta_sum ds i \<longrightarrow> (\<exists>b \<in> set tbl. fb_id b = i \<and> 0 \<le> fb_ref_count b)"
  shows "increments_in_turn now ds tbl = Inr (map (\<lambda>b. bump now (delta_sum ds (fb_id b)) b) tbl)"
  using assms
proof (induction now ds tbl rule: increments_in_turn.induct)
  case (1 now tbl)
  then show ?case by (simp add: bump_def)
next
  case (2 now i d ds tbl)
  let ?t1 = "map (\<lambda>b. bump now (if fb_id b = i then d else 0) b) tbl"
  have ds: "\<forall>p \<in> set ds. 0 \<le> snd p" "0 \<le> d" using "2.prems"(1) by auto
  have pos: "0 < delta_sum ((i, d) # ds) j" if "0 < delta_sum ds j \<or> j = i \<and> 0 < d" for j
    using that ds delta_sum_nonneg [OF ds(1), of j] by auto
  have hit: "fb_ref_count b \<ge> 0" if b: "b \<in> set tbl" "0 < delta_sum ds (fb_id b) \<or> fb_id b = i \<and> 0 < d" for b
  proof -
    obtain b' where b': "b' \<in> set tbl" "fb_id b' = fb_id b" "0 \<le> fb_ref_count b'"
      using "2.prems"(3) pos [OF b(2)] by blast
    then have "b' = b" using unique_key_inj [OF "2.prems"(2) b'(1) b(1)] by simp
    then show ?thesis using b'(3) by simp
  qed
  have first: "increment_blob_ref_count_by now i d tbl = Inr ?t1"
  proof (cases "d = 0")
    case False
    have "\<exists>b \<in> set tbl. fb_id b = i \<and> 0 \<le> fb_ref_count b" using "2.prems"(3) pos [of i] False ds(2) by auto
    moreover have "map (\<lambda>b. if fb_id b = i \<and> 0 \<le> fb_ref_count b then increment_row now d b else b) tbl = ?t1"
      using hit ds(2) False by (intro map_cong refl) (auto simp: bump_def)
    ultimately show ?thesis using False ds(2)
      by (simp add: increment_blob_ref_count_by_def update_where_def count_where_0_iff)
  next
    case True
    then have "?t1 = tbl" by (intro map_idI) (auto simp: bump_def)
    then show ?thesis using True by (simp add: increment_blob_ref_count_by_def)
  qed
  have u1: "unique_key fb_id ?t1" using "2.prems"(2) by (simp add: unique_key_def comp_def)
  have a1: "\<forall>j. 0 < delta_sum ds j \<longrightarrow> (\<exists>b \<in> set ?t1. fb_id b = j \<and> 0 \<le> fb_ref_count b)"
  proof (intro allI impI)
    fix j assume "0 < delta_sum ds j"
    then obtain b where "b \<in> set tbl" "fb_id b = j" "0 \<le> fb_ref_count b" using "2.prems"(3) pos by blast
    then show "\<exists>b \<in> set ?t1. fb_id b = j \<and> 0 \<le> fb_ref_count b"
      using ds(2) by (intro bexI [of _ "bump now (if fb_id b = i then d else 0) b"]) auto
  qed
  show ?case
    using "2.IH" [OF ds(1) u1 a1] first ds delta_sum_nonneg [OF ds(1)]
    by (auto simp: bump_bump algebra_simps)
qed

lemma decrements_in_turn_eq:
  assumes "\<forall>p \<in> set ds. 0 \<le> snd p" "\<forall>b \<in> set tbl. blob_row_ok b"
  shows "decrements_in_turn now ds tbl = Inr (map (\<lambda>b. drain now (delta_sum ds (fb_id b)) b) tbl)"
  using assms
proof (induction now ds tbl rule: decrements_in_turn.induct)
  case (1 now tbl)
  then show ?case by (simp add: drain_def)
next
  case (2 now i d ds tbl)
  let ?t1 = "map (\<lambda>b. drain now (if fb_id b = i then d else 0) b) tbl"
  have ds: "\<forall>p \<in> set ds. 0 \<le> snd p" "0 \<le> d" using "2.prems"(1) by auto
  have first: "decrement_blob_ref_count_by now i d tbl = Inr ?t1"
    using ds(2) by (auto simp: decrement_blob_ref_count_by_def drain_def)
  have "\<forall>b \<in> set ?t1. blob_row_ok b" using "2.prems"(2) by (auto intro: drain_row_ok)
  then show ?case
    using "2.IH" [OF ds(1)] first ds "2.prems"(2) delta_sum_nonneg [OF ds(1)]
    by (auto simp: drain_drain algebra_simps)
qed

lemma normalized_deltas:
  assumes "normalize_blob_ref_count_deltas ds ctx = Inr m"
  shows "\<forall>p \<in> set ds. 0 \<le> snd p" "deltas_ok m" "delta_of m i = delta_sum ds i"
proof -
  have "deltas_ok []" by (simp add: deltas_ok_def)
  from normalize_deltas_from_Inr [OF assms [unfolded normalize_blob_ref_count_deltas_def] this]
  show "\<forall>p \<in> set ds. 0 \<le> snd p" "deltas_ok m" "delta_of m i = delta_sum ds i"
    by (auto simp: delta_of_def)
qed

lemma all_keys_hit:
  assumes u: "unique_key fb_id tbl" and m: "distinct keys"
    and n: "count_where (\<lambda>b. fb_id b \<in> set keys \<and> q b) tbl = length keys" and i: "i \<in> set keys"
  shows "\<exists>b \<in> set tbl. fb_id b = i \<and> q b"
proof -
  let ?hit = "filter (\<lambda>b. fb_id b \<in> set keys \<and> q b) tbl"
  have "distinct (map fb_id ?hit)" using u by (simp add: unique_key_def distinct_map_filter)
  then have "card (fb_id ` set ?hit) = length keys"
    using n by (metis count_where_def distinct_card length_map set_map)
  moreover have "fb_id ` set ?hit \<subseteq> set keys" by auto
  ultimately have "fb_id ` set ?hit = set keys"
    using m by (metis List.finite_set card_subset_eq distinct_card)
  then have "i \<in> fb_id ` set ?hit" using i by simp
  then show ?thesis by auto
qed

lemma deltas_ok_empty: "deltas_ok m \<Longrightarrow> m = [] \<longleftrightarrow> (\<forall>i. delta_of m i = 0)"
  by (cases m) (force simp: deltas_ok_def delta_of_def)+

lemma normalize_context:
  "normalize_deltas_from ctx ds m = Inr r \<Longrightarrow> normalize_deltas_from ctx' ds m = Inr r"
  by (induction ctx ds m rule: normalize_deltas_from.induct) (auto split: if_splits option.splits)

lemma increment_by_active:
  assumes "increment_blob_ref_count_by now i d tbl = Inr t1"
  shows "0 < d \<longrightarrow> (\<exists>b \<in> set tbl. fb_id b = i \<and> 0 \<le> fb_ref_count b)"
    and "b' \<in> set t1 \<Longrightarrow> 0 \<le> fb_ref_count b' \<Longrightarrow> \<exists>b \<in> set tbl. fb_id b = fb_id b' \<and> 0 \<le> fb_ref_count b"
  using assms
  by (fastforce simp: increment_blob_ref_count_by_def update_where_def count_where_0_iff Let_def increment_row_def
      split: if_splits)+

lemma increments_in_turn_active:
  assumes "increments_in_turn now ds tbl = Inr t" "(i, d) \<in> set ds" "0 < d"
  shows "\<exists>b \<in> set tbl. fb_id b = i \<and> 0 \<le> fb_ref_count b"
  using assms
proof (induction now ds tbl rule: increments_in_turn.induct)
  case (2 now j e ds tbl)
  then obtain t1 where t1: "increment_blob_ref_count_by now j e tbl = Inr t1" "increments_in_turn now ds t1 = Inr t"
    by (auto simp: bind_result_Inr_iff)
  show ?case
  proof (cases "(i, d) = (j, e)")
    case True
    then show ?thesis using increment_by_active(1) [OF t1(1)] "2.prems"(3) by simp
  next
    case False
    then obtain b where "b \<in> set t1" "fb_id b = i" "0 \<le> fb_ref_count b"
      using "2.IH" [OF t1(2)] "2.prems" by auto
    then show ?thesis using increment_by_active(2) [OF t1(1)] by blast
  qed
qed simp

lemma delta_sum_pos: "0 < delta_sum ds i \<Longrightarrow> \<exists>d. (i, d) \<in> set ds \<and> 0 < d"
  by (induction ds) (auto split: if_splits, force)

lemma batched_increment_rows:
  assumes norm: "normalize_blob_ref_count_deltas ds ctx = Inr m" and u: "unique_key fb_id tbl"
  shows "increment_blob_ref_counts_by now ds tbl =
    (if \<forall>i. 0 < delta_sum ds i \<longrightarrow> (\<exists>b \<in> set tbl. fb_id b = i \<and> 0 \<le> fb_ref_count b)
     then Inr (map (\<lambda>b. bump now (delta_sum ds (fb_id b)) b) tbl)
     else Inl (record_not_found ''one or more file_blob rows were missing or cleanup-claimed during ref_count increment''))"
    (is "_ = (if ?hit then _ else _)")
proof -
  note m = normalized_deltas [OF norm]
  let ?p = "\<lambda>b. fb_id b \<in> set (map fst m) \<and> 0 \<le> fb_ref_count b"
  have norm': "normalize_blob_ref_count_deltas ds ''increment_blob_ref_counts_by'' = Inr m"
    using norm unfolding normalize_blob_ref_count_deltas_def by (rule normalize_context)
  have keys: "i \<in> set (map fst m) \<longleftrightarrow> 0 < delta_sum ds i" for i using deltas_ok_keys [OF m(2)] m(3) by simp
  have d: "distinct (map fst m)" using m(2) by (simp add: deltas_ok_def strict_sorted_iff)
  have n: "count_where ?p tbl = length m \<longleftrightarrow> ?hit"
  proof
    assume "count_where ?p tbl = length m"
    then show ?hit using all_keys_hit [OF u d, of "\<lambda>b. 0 \<le> fb_ref_count b"] keys by simp
  next
    assume h: ?hit
    have "i \<in> fb_id ` set (filter ?p tbl)" if "i \<in> set (map fst m)" for i
    proof -
      have "0 < delta_sum ds i" using that keys [of i] by simp
      then obtain b where "b \<in> set tbl" "fb_id b = i" "0 \<le> fb_ref_count b" using h by auto
      then show ?thesis using that by (intro image_eqI [of _ _ b]) auto
    qed
    then have "set (map fb_id (filter ?p tbl)) = set (map fst m)" by (simp only: set_map) auto
    moreover have "distinct (map fb_id (filter ?p tbl))" using u by (simp add: unique_key_def distinct_map_filter)
    ultimately have "length (map fb_id (filter ?p tbl)) = length (map fst m)" using d by (metis distinct_card)
    then show "count_where ?p tbl = length m" by (simp add: count_where_def)
  qed
  have rows: "map (\<lambda>b. if ?p b then b\<lparr>fb_cleanup_pending_since := None,
        fb_ref_count := blob_ref_count_increment_expr m b, fb_updated_at := now\<rparr> else b) tbl
      = map (\<lambda>b. bump now (delta_sum ds (fb_id b)) b) tbl" if h: ?hit
  proof (intro map_cong refl)
    fix b assume b: "b \<in> set tbl"
    have "?p b \<longleftrightarrow> 0 < delta_sum ds (fb_id b)" using keys h b unique_key_inj [OF u] by blast
    moreover have "blob_ref_count_increment_expr m b = fb_ref_count b + delta_sum ds (fb_id b)"
      using m(3) [of "fb_id b"] by (auto simp: blob_ref_count_increment_expr_def delta_of_def split: option.splits)
    ultimately show "(if ?p b then b\<lparr>fb_cleanup_pending_since := None,
        fb_ref_count := blob_ref_count_increment_expr m b, fb_updated_at := now\<rparr> else b)
      = bump now (delta_sum ds (fb_id b)) b" by (simp add: bump_def increment_row_def)
  qed
  show ?thesis
  proof (cases "m = []")
    case True
    then have "delta_sum ds i = 0" for i using m(3) [of i] by (simp add: delta_of_def)
    then show ?thesis using True norm' by (simp add: increment_blob_ref_counts_by_def bump_def)
  next
    case False
    then show ?thesis using norm' n rows
      by (auto simp: increment_blob_ref_counts_by_def update_where_def)
  qed
qed

lemma batched_decrement_rows:
  assumes norm: "normalize_blob_ref_count_deltas ds ctx = Inr m"
  shows "decrement_blob_ref_counts_by now ds tbl = Inr (map (\<lambda>b. drain now (delta_sum ds (fb_id b)) b) tbl)"
proof -
  note m = normalized_deltas [OF norm]
  have norm': "normalize_blob_ref_count_deltas ds ''decrement_blob_ref_counts_by'' = Inr m"
    using norm unfolding normalize_blob_ref_count_deltas_def by (rule normalize_context)
  have keys: "i \<in> set (map fst m) \<longleftrightarrow> 0 < delta_sum ds i" for i using deltas_ok_keys [OF m(2)] m(3) by simp
  have expr: "blob_ref_count_decrement_expr m b = floor_sub (fb_ref_count b) (delta_sum ds (fb_id b))"
    if "0 < delta_sum ds (fb_id b)" for b
    using m(3) [of "fb_id b"] that
    by (auto simp: blob_ref_count_decrement_expr_def delta_of_def split: option.splits)
  have "map (\<lambda>b. if fb_id b \<in> set (map fst m) then set_count_row now (blob_ref_count_decrement_expr m) b else b) tbl
      = map (\<lambda>b. drain now (delta_sum ds (fb_id b)) b) tbl"
    using keys expr by (intro map_cong refl) (simp add: drain_def set_count_row_def)
  then show ?thesis using norm' deltas_ok_empty [OF m(2)] m(3)
    by (auto simp: decrement_blob_ref_counts_by_def drain_def)
qed

text \<open>
  One batched statement has the effect of its counts in turn. When the deltas of a request merge
  (none negative, no \<open>i32\<close> overflow), the batched increment succeeds exactly when applying them one by one
  does, with the same table; in a well-formed table the batched decrement gives the table of the
  decrements one by one, which floor at 0 and set the cleanup marker once.
\<close>

theorem batched_counts_equal_counts_in_turn:
  assumes "normalize_blob_ref_count_deltas ds ctx = Inr m" "blob_table_ok tbl"
  shows "(increment_blob_ref_counts_by now ds tbl = Inr tbl' \<longleftrightarrow> increments_in_turn now ds tbl = Inr tbl')
    \<and> decrement_blob_ref_counts_by now ds tbl = decrements_in_turn now ds tbl"
proof
  note m = normalized_deltas [OF assms(1)]
  have u: "unique_key fb_id tbl" using assms(2) by (simp add: blob_table_ok_def)
  let ?hit = "\<forall>i. 0 < delta_sum ds i \<longrightarrow> (\<exists>b \<in> set tbl. fb_id b = i \<and> 0 \<le> fb_ref_count b)"
  have "?hit" if "increments_in_turn now ds tbl = Inr tbl'"
    using increments_in_turn_active [OF that] delta_sum_pos by blast
  then show "increment_blob_ref_counts_by now ds tbl = Inr tbl' \<longleftrightarrow> increments_in_turn now ds tbl = Inr tbl'"
    using batched_increment_rows [OF assms(1) u] increments_in_turn_eq [OF m(1) u] by (cases ?hit) auto
  show "decrement_blob_ref_counts_by now ds tbl = decrements_in_turn now ds tbl"
    using batched_decrement_rows [OF assms(1)] decrements_in_turn_eq [OF m(1)] assms(2)
    by (simp add: blob_table_ok_def)
qed

definition ex_blob :: file_blob where
  "ex_blob = (new_blob_row 10 3 ''abc'' 5 1 (Some ''files/ab/c'') Stored)\<lparr>fb_ref_count := 2\<rparr>"

lemma ex_blob_table_ok: "blob_table_ok [ex_blob]"
  by (simp add: blob_table_ok_def unique_key_def slots_distinct_def blob_row_ok_def ex_blob_def new_blob_row_def)

theorem batched_counts_equal_counts_in_turn_witness:
  "normalize_blob_ref_count_deltas [(3, 1), (4, 0), (3, 2)] ''purge'' = Inr [(3, 3)]
   \<and> decrement_blob_ref_counts_by 20 [(3, 1), (4, 0), (3, 2)] [ex_blob]
     = decrements_in_turn 20 [(3, 1), (4, 0), (3, 2)] [ex_blob]
   \<and> decrements_in_turn 20 [(3, 1), (4, 0), (3, 2)] [ex_blob]
     = Inr [ex_blob\<lparr>fb_ref_count := 0, fb_cleanup_pending_since := Some 20, fb_updated_at := 20\<rparr>]"
proof -
  have n: "normalize_blob_ref_count_deltas [(3, 1), (4, 0), (3, 2)] ''purge'' = Inr [(3, 3)]"
    by (simp add: normalize_blob_ref_count_deltas_def checked_add_i32_def i32_max_def)
  then show ?thesis
    using batched_counts_equal_counts_in_turn [OF n ex_blob_table_ok, of 20]
    by (simp add: decrement_blob_ref_count_by_def set_count_row_def floor_sub_def cleanup_pending_since_expr_def
        ex_blob_def new_blob_row_def)
qed

section \<open>All writes keep the table well formed\<close>

inductive blob_write :: "blob_table \<Rightarrow> blob_table \<Rightarrow> bool" where
  increment: "increment_blob_ref_count now i tbl = Inr tbl' \<Longrightarrow> blob_write tbl tbl'"
| increment_by: "increment_blob_ref_count_by now i d tbl = Inr tbl' \<Longrightarrow> blob_write tbl tbl'"
| increments: "increment_blob_ref_counts_by now ds tbl = Inr tbl' \<Longrightarrow> blob_write tbl tbl'"
| decrement: "blob_write tbl (decrement_blob_ref_count now i tbl)"
| decrement_by: "decrement_blob_ref_count_by now i d tbl = Inr tbl' \<Longrightarrow> blob_write tbl tbl'"
| decrements: "decrement_blob_ref_counts_by now ds tbl = Inr tbl' \<Longrightarrow> blob_write tbl tbl'"
| claim: "blob_write tbl (fst (claim_blob_cleanup now i tbl))"
| restore: "blob_write tbl (fst (restore_blob_cleanup_claim now i tbl))"
| delete_claimed: "blob_write tbl (fst (delete_blob_if_cleanup_claimed i tbl))"
| delete_many: "blob_write tbl (delete_blobs ids tbl)"
| delete_one: "blob_write tbl (delete_blob i tbl)"
| delete_by_id: "blob_write tbl (fst (delete_blob_by_id i tbl))"
| reset: "blob_write tbl (reset_blob_ref_count_to_zero now i tbl)"
| set_count: "0 \<le> r \<Longrightarrow> blob_write tbl (fst (set_blob_ref_count now i r tbl))"
| set_thumbnail: "blob_write tbl (fst (set_thumbnail_metadata now i path processor version tbl))"
| clear_thumbnail: "blob_write tbl (fst (clear_thumbnail_metadata now i tbl))"
| move: "move_blob_policy_if_current now i source target hash path tbl = Inr (tbl', ok) \<Longrightarrow> blob_write tbl tbl'"
| move_empty: "move_virtual_empty_blob_policy_if_current now i source target tbl = Inr (tbl', ok)
   \<Longrightarrow> blob_write tbl tbl'"
| create: "create_blob now model tbl = Inr (tbl', row) \<Longrightarrow> fb_cleanup_pending_since model = None
   \<Longrightarrow> 0 \<le> fb_ref_count model \<Longrightarrow> fb_id model \<notin> fb_id ` set tbl \<Longrightarrow> blob_write tbl tbl'"
| create_with_key: "create_nondedup_blob_with_key now new_id sz policy key path tbl = Inr (tbl', row)
   \<Longrightarrow> new_id \<notin> fb_id ` set tbl \<Longrightarrow> blob_write tbl tbl'"
| create_opaque: "create_opaque_nondedup_blob now new_id sz policy pre obj path tbl = Inr (tbl', row)
   \<Longrightarrow> new_id \<notin> fb_id ` set tbl \<Longrightarrow> blob_write tbl tbl'"
| find_or_create: "find_or_create_blob (\<lambda>_ t. t) now new_id hash sz policy path tbl = (tbl', out)
   \<Longrightarrow> new_id \<notin> fb_id ` set tbl \<Longrightarrow> blob_write tbl tbl'"
| find_or_create_empty: "find_or_create_virtual_empty_blob (\<lambda>_ t. t) now new_id hash policy tbl = (tbl', out)
   \<Longrightarrow> new_id \<notin> fb_id ` set tbl \<Longrightarrow> blob_write tbl tbl'"

lemma increment_ok:
  assumes "blob_table_ok tbl" "0 < d"
  shows "blob_table_ok (fst (update_where (\<lambda>b. fb_id b = i \<and> 0 \<le> fb_ref_count b) (increment_row now d) tbl))"
  using assms by (intro table_ok_update) (auto simp: increment_row_ok, auto simp: increment_row_def)

lemma increment_one_ok:
  "increment_blob_ref_count now i tbl = Inr tbl' \<Longrightarrow> blob_table_ok tbl \<Longrightarrow> blob_table_ok tbl'"
  using increment_ok [of tbl 1 i now] by (auto simp: increment_blob_ref_count_def case_prod_beta Let_def split: if_splits)

lemma increment_by_ok:
  "increment_blob_ref_count_by now i d tbl = Inr tbl' \<Longrightarrow> blob_table_ok tbl \<Longrightarrow> blob_table_ok tbl'"
  using increment_ok [of tbl d i now]
  by (auto simp: increment_blob_ref_count_by_def case_prod_beta Let_def split: if_splits)

lemma increments_in_turn_ok:
  "increments_in_turn now ds tbl = Inr tbl' \<Longrightarrow> blob_table_ok tbl \<Longrightarrow> blob_table_ok tbl'"
  by (induction now ds tbl rule: increments_in_turn.induct)
     (auto simp: bind_result_Inr_iff dest: increment_by_ok)

lemma set_count_ok:
  assumes "blob_table_ok tbl" "\<And>b. 0 \<le> next b"
  shows "blob_table_ok (fst (update_where p (set_count_row now next) tbl))"
  using assms by (intro table_ok_update) (auto simp: set_count_row_ok, auto simp: set_count_row_def)

lemma slot_unique:
  assumes "slots_distinct tbl" "a \<in> set tbl" "b \<in> set tbl"
    "fb_hash a = fb_hash b" "fb_policy_id a = fb_policy_id b" "fb_backing a = fb_backing b"
  shows "a = b"
  using assms by (auto simp: slots_distinct_def distinct_map dest!: inj_onD)

lemma find_slot_Some:
  assumes "slots_distinct tbl"
  shows "find_slot hash policy backing tbl = Some b \<longleftrightarrow>
    b \<in> set tbl \<and> fb_hash b = hash \<and> fb_policy_id b = policy \<and> fb_backing b = backing"
proof
  assume b: "b \<in> set tbl \<and> fb_hash b = hash \<and> fb_policy_id b = policy \<and> fb_backing b = backing"
  then obtain a where a: "find_slot hash policy backing tbl = Some a"
    by (cases "find_slot hash policy backing tbl") (auto simp: find_slot_def find_None_iff)
  then have "a = b" using slot_unique [OF assms, of a b] b by (auto simp: find_slot_def find_Some_iff)
  then show "find_slot hash policy backing tbl = Some b" using a by simp
qed (auto simp: find_slot_def find_Some_iff)

lemma find_active_slot_eq:
  assumes "slots_distinct tbl"
  shows "find_active_slot hash policy backing tbl =
    (case find_slot hash policy backing tbl of
       Some b \<Rightarrow> if 0 \<le> fb_ref_count b then Some b else None | None \<Rightarrow> None)"
proof (cases "find_active_slot hash policy backing tbl")
  case None
  then show ?thesis
    using find_slot_Some [OF assms, of hash policy backing]
    by (auto simp: find_active_slot_def find_None_iff split: option.splits)
next
  case (Some b)
  then have "find_slot hash policy backing tbl = Some b"
    by (subst find_slot_Some [OF assms]) (auto simp: find_active_slot_def find_Some_iff)
  then show ?thesis using Some by (auto simp: find_active_slot_def find_Some_iff)
qed

lemma insert_blob_eq:
  "insert_blob row tbl =
     (if find_slot (fb_hash row) (fb_policy_id row) (fb_backing row) tbl = None then Some (tbl @ [row]) else None)"
  by (auto simp: insert_blob_def find_slot_def find_None_iff same_slot_def)

lemma find_slot_append_new:
  "find_slot hash policy backing tbl = None \<Longrightarrow> fb_hash row = hash \<Longrightarrow> fb_policy_id row = policy
   \<Longrightarrow> fb_backing row = backing \<Longrightarrow> find_slot hash policy backing (tbl @ [row]) = Some row"
  by (induction tbl) (auto simp: find_slot_def split: if_splits)

lemma increment_active_row:
  assumes "unique_key fb_id tbl" "b \<in> set tbl" "0 \<le> fb_ref_count b"
  shows "increment_blob_ref_count now (fb_id b) tbl =
      Inr (map (\<lambda>x. if fb_id x = fb_id b then increment_row now 1 x else x) tbl)"
    and "find_blob_by_id (fb_id b) (map (\<lambda>x. if fb_id x = fb_id b then increment_row now 1 x else x) tbl)
      = Inr (increment_row now 1 b)"
proof -
  have one: "fb_id x = fb_id b \<and> 0 \<le> fb_ref_count x \<longleftrightarrow> fb_id x = fb_id b" if "x \<in> set tbl" for x
    using assms that by (auto dest: unique_key_inj)
  have c: "count_where (\<lambda>x. fb_id x = fb_id b \<and> 0 \<le> fb_ref_count x) tbl \<noteq> 0"
    using assms by (auto simp: count_where_0_iff)
  have "map (\<lambda>x. if fb_id x = fb_id b \<and> 0 \<le> fb_ref_count x then increment_row now 1 x else x) tbl
      = map (\<lambda>x. if fb_id x = fb_id b then increment_row now 1 x else x) tbl"
    using one by (intro map_cong refl) auto
  then show "increment_blob_ref_count now (fb_id b) tbl =
      Inr (map (\<lambda>x. if fb_id x = fb_id b then increment_row now 1 x else x) tbl)"
    using c by (simp add: increment_blob_ref_count_def update_where_def)
  let ?t = "map (\<lambda>x. if fb_id x = fb_id b then increment_row now 1 x else x) tbl"
  have "unique_key fb_id ?t"
    using assms(1) unique_key_update_where [of fb_id "increment_row now 1" "\<lambda>x. fb_id x = fb_id b" tbl]
    by (simp add: increment_row_def)
  moreover have "increment_row now 1 b \<in> set ?t" using assms(2) by (auto simp: image_iff intro!: bexI [of _ b])
  ultimately have "find_key fb_id (fb_id b) ?t = Some (increment_row now 1 b)"
    by (subst find_key_Some_iff) (auto simp: increment_row_def)
  then show "find_blob_by_id (fb_id b) ?t = Inr (increment_row now 1 b)" by (simp add: find_blob_by_id_def)
qed

lemma overflow_iff: "0 \<le> r \<Longrightarrow> checked_add_i32 r 1 = None \<longleftrightarrow> i32_max \<le> r"
  by (auto simp: checked_add_i32_def i32_max_def)

text \<open>
  The undisturbed outcome, shared by the two loops: an active row gains one reference, an absent one is
  inserted with one, a row at the \<open>i32\<close> limit or claimed for cleanup is left alone.
\<close>

definition adopt_or_insert :: "(file_blob \<Rightarrow> aster_error) \<Rightarrow> aster_error \<Rightarrow> time \<Rightarrow> file_blob \<Rightarrow> blob_table
    \<Rightarrow> blob_table \<times> find_or_create_blob_result aster_result" where
  "adopt_or_insert overflow contention now row tbl =
     (case find_slot (fb_hash row) (fb_policy_id row) (fb_backing row) tbl of
        None \<Rightarrow> (tbl @ [row], Inr \<lparr>fr_model = row, fr_inserted = True\<rparr>)
      | Some b \<Rightarrow>
          if fb_ref_count b < 0 then (tbl, Inl contention)
          else if i32_max \<le> fb_ref_count b then (tbl, Inl (overflow b))
          else (map (\<lambda>x. if fb_id x = fb_id b then increment_row now 1 x else x) tbl,
                Inr \<lparr>fr_model = increment_row now 1 b, fr_inserted = False\<rparr>))"

lemma adopt_loop:
  assumes "blob_table_ok tbl" "fb_backing row = Stored" "contention = snd (find_or_create_blob_loop (\<lambda>_ t. t) row now 0 0 tbl)"
  shows "find_or_create_blob_loop (\<lambda>_ t. t) row now k (Suc n) tbl =
    adopt_or_insert (\<lambda>b. internal_error (''file_blob #'' @ int_to_string (fb_id b) @ '' ref_count overflow: ''
        @ int_to_string (fb_ref_count b)))
      (projl contention) now row tbl"
proof (induction n arbitrary: k)
  have s: "slots_distinct tbl" and u: "unique_key fb_id tbl" using assms(1) by (auto simp: blob_table_ok_def)
  note step = find_active_slot_eq [OF s] insert_blob_eq assms(2,3) find_slot_append_new adopt_or_insert_def
    overflow_iff
  {
    case 0
    show ?case
    proof (cases "find_slot (fb_hash row) (fb_policy_id row) Stored tbl")
      case (Some b)
      then have "b \<in> set tbl" using find_slot_Some [OF s] by auto
      then show ?thesis using Some increment_active_row [OF u, of b now] by (auto simp: step Let_def)
    qed (simp add: step)
  next
    case (Suc n)
    show ?case
    proof (cases "find_slot (fb_hash row) (fb_policy_id row) Stored tbl")
      case (Some b)
      then have "b \<in> set tbl" using find_slot_Some [OF s] by auto
      then show ?thesis
        using Some increment_active_row [OF u, of b now] Suc [of "k + 3"]
        by (auto simp: step Let_def)
    qed (simp add: step)
  }
qed

lemma adopt_empty_loop:
  assumes "blob_table_ok tbl" "fb_backing row = VirtualEmpty"
    "contention = snd (find_or_create_virtual_empty_loop (\<lambda>_ t. t) row now 0 0 tbl)"
  shows "find_or_create_virtual_empty_loop (\<lambda>_ t. t) row now k (Suc n) tbl =
    adopt_or_insert (\<lambda>b. internal_error (''virtual empty file_blob #'' @ int_to_string (fb_id b)
        @ '' ref_count overflow: '' @ int_to_string (fb_ref_count b)))
      (projl contention) now row tbl"
proof (induction n arbitrary: k)
  have s: "slots_distinct tbl" and u: "unique_key fb_id tbl" using assms(1) by (auto simp: blob_table_ok_def)
  note step = find_active_slot_eq [OF s] insert_blob_eq assms(2,3) find_slot_append_new adopt_or_insert_def
    overflow_iff
  {
    case 0
    show ?case
    proof (cases "find_slot (fb_hash row) (fb_policy_id row) VirtualEmpty tbl")
      case (Some b)
      then have "b \<in> set tbl" using find_slot_Some [OF s] by auto
      then show ?thesis using Some increment_active_row [OF u, of b now] by (auto simp: step Let_def)
    qed (simp add: step)
  next
    case (Suc n)
    show ?case
    proof (cases "find_slot (fb_hash row) (fb_policy_id row) VirtualEmpty tbl")
      case (Some b)
      then have "b \<in> set tbl" using find_slot_Some [OF s] by auto
      then show ?thesis
        using Some increment_active_row [OF u, of b now] Suc [of "k + 3"]
        by (auto simp: step Let_def)
    qed (simp add: step)
  }
qed

lemma attempts_Suc: "FIND_OR_CREATE_BLOB_MAX_ATTEMPTS = Suc 6"
  by (simp add: FIND_OR_CREATE_BLOB_MAX_ATTEMPTS_def)

lemma find_or_create_blob_quiet:
  assumes "blob_table_ok tbl"
  shows "find_or_create_blob (\<lambda>_ t. t) now new_id hash sz policy path tbl =
    adopt_or_insert (\<lambda>b. internal_error (''file_blob #'' @ int_to_string (fb_id b) @ '' ref_count overflow: ''
        @ int_to_string (fb_ref_count b)))
      (internal_error (''find_or_create_blob exceeded contention retry budget after ''
         @ nat_to_string FIND_OR_CREATE_BLOB_MAX_ATTEMPTS @ '' attempts for hash='' @ hash
         @ '', policy_id='' @ int_to_string policy))
      now (new_blob_row now new_id hash sz policy (Some path) Stored) tbl"
  using adopt_loop [OF assms, of "new_blob_row now new_id hash sz policy (Some path) Stored" _ now 0 6, OF _ refl]
  by (simp add: find_or_create_blob_def attempts_Suc validate_backing_fields_def new_blob_row_def
      del: find_or_create_blob_loop.simps(2))

lemma find_or_create_empty_quiet:
  assumes "blob_table_ok tbl"
  shows "find_or_create_virtual_empty_blob (\<lambda>_ t. t) now new_id hash policy tbl =
    (if hash = EMPTY_SHA256
     then adopt_or_insert (\<lambda>b. internal_error (''virtual empty file_blob #'' @ int_to_string (fb_id b)
            @ '' ref_count overflow: '' @ int_to_string (fb_ref_count b)))
          (internal_error (''find_or_create_virtual_empty_blob exceeded contention retry budget for policy_id=''
            @ int_to_string policy))
          now (new_blob_row now new_id hash 0 policy None VirtualEmpty) tbl
     else (tbl, Inl (internal_error
       ''virtual_empty blob must have zero size, canonical empty SHA-256, and no storage_path'')))"
proof (cases "hash = EMPTY_SHA256")
  case True
  let ?row = "new_blob_row now new_id EMPTY_SHA256 0 policy None VirtualEmpty"
  have "fb_backing ?row = VirtualEmpty" by (simp add: new_blob_row_def)
  from adopt_empty_loop [OF assms this refl, of now 0 6]
  show ?thesis using True
    by (simp add: find_or_create_virtual_empty_blob_def attempts_Suc validate_backing_fields_def new_blob_row_def
        del: find_or_create_virtual_empty_loop.simps(2) append.simps)
qed (simp add: find_or_create_virtual_empty_blob_def validate_backing_fields_def)

lemma adopt_or_insert_ok:
  assumes "blob_table_ok tbl" "blob_row_ok row" "fb_id row \<notin> fb_id ` set tbl"
  shows "blob_table_ok (fst (adopt_or_insert overflow contention now row tbl))"
proof (cases "find_slot (fb_hash row) (fb_policy_id row) (fb_backing row) tbl")
  case None
  then show ?thesis using table_ok_insert [OF assms(1) _ assms(2,3)]
    by (simp add: insert_blob_eq adopt_or_insert_def)
next
  case (Some b)
  have s: "slots_distinct tbl" and u: "unique_key fb_id tbl" using assms(1) by (auto simp: blob_table_ok_def)
  have "b \<in> set tbl" using Some find_slot_Some [OF s] by auto
  then have "blob_table_ok (map (\<lambda>x. if fb_id x = fb_id b then increment_row now 1 x else x) tbl)"
    if "0 \<le> fb_ref_count b"
    using increment_one_ok [OF increment_active_row(1) [OF u _ that] assms(1)] by simp
  then show ?thesis using Some assms(1) by (simp add: adopt_or_insert_def)
qed

lemma create_blob_ok:
  assumes "create_blob now model tbl = Inr (tbl', row)" "fb_cleanup_pending_since model = None"
    "0 \<le> fb_ref_count model" "fb_id model \<notin> fb_id ` set tbl" "blob_table_ok tbl"
  shows "blob_table_ok tbl'"
  using assms
  by (auto simp: create_blob_def Let_def blob_row_ok_def split: sum.splits option.splits if_splits
      intro!: table_ok_insert [OF assms(5)])

lemma moved_ok:
  assumes "blob_table_ok tbl" "slots_distinct (fst (exec_one p f tbl))" "\<And>b. fb_id (f b) = fb_id b"
    "\<And>b. blob_row_ok b \<Longrightarrow> blob_row_ok (f b)"
  shows "blob_table_ok (fst (exec_one p f tbl))"
proof -
  have "unique_key fb_id (fst (exec_one p f tbl))"
    using assms(1,3) by (simp add: exec_one_def unique_key_update_where blob_table_ok_def del: update_where_simps)
  then show ?thesis using assms(1,2,4) by (auto simp: blob_table_ok_def exec_one_def)
qed

lemma batched_writes_ok:
  assumes "blob_table_ok tbl"
  shows "increment_blob_ref_counts_by now ds tbl = Inr tbl' \<Longrightarrow> blob_table_ok tbl'"
    and "decrement_blob_ref_counts_by now ds tbl = Inr tbl' \<Longrightarrow> blob_table_ok tbl'"
proof -
  have u: "unique_key fb_id tbl" using assms by (simp add: blob_table_ok_def)
  show "blob_table_ok tbl'" if inc: "increment_blob_ref_counts_by now ds tbl = Inr tbl'"
  proof -
    obtain m where m: "normalize_blob_ref_count_deltas ds ''increment_blob_ref_counts_by'' = Inr m"
      using inc by (auto simp: increment_blob_ref_counts_by_def bind_result_Inr_iff)
    have "increments_in_turn now ds tbl = Inr tbl'"
      using inc batched_increment_rows [OF m u] increments_in_turn_eq [OF normalized_deltas(1) [OF m] u]
      by (simp split: if_splits)
    then show ?thesis using assms by (rule increments_in_turn_ok)
  qed
  show "blob_table_ok tbl'" if dec: "decrement_blob_ref_counts_by now ds tbl = Inr tbl'"
  proof -
    obtain m where m: "normalize_blob_ref_count_deltas ds ''decrement_blob_ref_counts_by'' = Inr m"
      using dec by (auto simp: decrement_blob_ref_counts_by_def bind_result_Inr_iff)
    then have "tbl' = fst (update_where (\<lambda>b. True) (\<lambda>b. drain now (delta_sum ds (fb_id b)) b) tbl)"
      using batched_decrement_rows [OF m] dec by simp
    then show ?thesis
      using table_ok_update [OF assms, of "\<lambda>b. drain now (delta_sum ds (fb_id b)) b" "\<lambda>b. True"]
      by (simp add: drain_row_ok) (simp add: drain_def set_count_row_def)
  qed
qed

lemma claim_writes_ok:
  assumes "blob_table_ok tbl"
  shows "blob_table_ok (fst (claim_blob_cleanup now i tbl))"
    and "blob_table_ok (fst (restore_blob_cleanup_claim now i tbl))"
    and "blob_table_ok (fst (delete_blob_if_cleanup_claimed i tbl))"
  using table_ok_update [OF assms, of "claim_blob_row now" "\<lambda>b. fb_id b = i \<and> fb_ref_count b = 0"]
    table_ok_update [OF assms, of "restore_blob_row now"
      "\<lambda>b. fb_id b = i \<and> fb_ref_count b = BLOB_CLEANUP_CLAIMED_REF_COUNT"]
    table_ok_delete [OF assms, of "\<lambda>b. fb_id b = i \<and> fb_ref_count b = BLOB_CLEANUP_CLAIMED_REF_COUNT"]
  by (simp_all add: claim_blob_cleanup_def restore_blob_cleanup_claim_def delete_blob_if_cleanup_claimed_def
      exec_one_def claim_blob_row_ok restore_blob_row_ok case_prod_beta Let_def)
     (simp_all add: claim_blob_row_def restore_blob_row_def)

lemma delete_writes_ok:
  assumes "blob_table_ok tbl"
  shows "blob_table_ok (delete_blobs ids tbl)" "blob_table_ok (delete_blob i tbl)"
    "blob_table_ok (fst (delete_blob_by_id i tbl))"
  using table_ok_delete [OF assms] assms
  by (simp_all add: delete_blobs_def delete_blob_def delete_blob_by_id_def case_prod_beta Let_def)

lemma count_writes_ok:
  assumes "blob_table_ok tbl"
  shows "blob_table_ok (decrement_blob_ref_count now i tbl)"
    and "decrement_blob_ref_count_by now i d tbl = Inr tbl' \<Longrightarrow> blob_table_ok tbl'"
    and "blob_table_ok (reset_blob_ref_count_to_zero now i tbl)"
    and "0 \<le> r \<Longrightarrow> blob_table_ok (fst (set_blob_ref_count now i r tbl))"
  using set_count_ok [OF assms, of "\<lambda>b. floor_sub (fb_ref_count b) 1"]
    set_count_ok [OF assms, of "\<lambda>b. floor_sub (fb_ref_count b) d"]
    set_count_ok [OF assms, of "\<lambda>b. 0"] set_count_ok [OF assms, of "\<lambda>b. r"] assms
  by (auto simp: decrement_blob_ref_count_def decrement_blob_ref_count_by_def reset_blob_ref_count_to_zero_def
      set_blob_ref_count_def floor_sub_nonneg Let_def case_prod_beta simp del: update_where_simps split: if_splits)

lemma thumbnail_writes_ok:
  assumes "blob_table_ok tbl"
  shows "blob_table_ok (fst (set_thumbnail_metadata now i path processor version tbl))"
    and "blob_table_ok (fst (clear_thumbnail_metadata now i tbl))"
  unfolding set_thumbnail_metadata_def clear_thumbnail_metadata_def exec_one_def fst_conv
  by (intro table_ok_update [OF assms]; simp add: blob_row_ok_def clear_thumbnail_row_def)+

lemma move_writes_ok:
  assumes "blob_table_ok tbl"
  shows "move_blob_policy_if_current now i source target hash path tbl = Inr (tbl', done) \<Longrightarrow> blob_table_ok tbl'"
    and "move_virtual_empty_blob_policy_if_current now i source target tbl = Inr (tbl', done) \<Longrightarrow> blob_table_ok tbl'"
proof -
  let ?p = "\<lambda>b. fb_id b = i \<and> fb_policy_id b = source" and ?f = "move_blob_row now target hash path"
  show "blob_table_ok tbl'" if "move_blob_policy_if_current now i source target hash path tbl = Inr (tbl', done)"
    using moved_ok [OF assms, of ?p ?f] that
    by (auto simp: move_blob_policy_if_current_def Let_def move_blob_row_def blob_row_ok_def split: if_splits)
  let ?q = "\<lambda>b. fb_id b = i \<and> fb_policy_id b = source \<and> fb_backing b = VirtualEmpty"
    and ?g = "\<lambda>b. b\<lparr>fb_policy_id := target, fb_updated_at := now\<rparr>"
  show "blob_table_ok tbl'" if "move_virtual_empty_blob_policy_if_current now i source target tbl = Inr (tbl', done)"
    using moved_ok [OF assms, of ?q ?g] that
    by (auto simp: move_virtual_empty_blob_policy_if_current_def Let_def blob_row_ok_def split: if_splits)
qed

lemma create_writes_ok:
  assumes "blob_table_ok tbl" "new_id \<notin> fb_id ` set tbl"
  shows "create_nondedup_blob_with_key now new_id sz policy key path tbl = Inr (tbl', row) \<Longrightarrow> blob_table_ok tbl'"
    and "create_opaque_nondedup_blob now new_id sz policy pre obj path tbl = Inr (tbl', row) \<Longrightarrow> blob_table_ok tbl'"
    and "blob_table_ok (fst (find_or_create_blob (\<lambda>_ t. t) now new_id hash sz policy path tbl))"
    and "blob_table_ok (fst (find_or_create_virtual_empty_blob (\<lambda>_ t. t) now new_id hash policy tbl))"
  using assms adopt_or_insert_ok [OF assms(1)]
  by (auto simp: create_nondedup_blob_with_key_def create_opaque_nondedup_blob_def new_blob_row_def
      find_or_create_blob_quiet find_or_create_empty_quiet blob_row_ok_def split: if_splits
      dest!: create_blob_ok)

lemma blob_write_ok:
  assumes "blob_write tbl tbl'" "blob_table_ok tbl"
  shows "blob_table_ok tbl'"
  using assms(1)
proof cases
  case (increment now i) show ?thesis by (rule increment_one_ok [OF increment assms(2)])
next
  case (increment_by now i d) show ?thesis by (rule increment_by_ok [OF increment_by assms(2)])
next
  case (increments now ds) show ?thesis by (rule batched_writes_ok(1) [OF assms(2) increments])
next
  case (decrement_by now i d) show ?thesis by (rule count_writes_ok(2) [OF assms(2) decrement_by])
next
  case (decrements now ds) show ?thesis by (rule batched_writes_ok(2) [OF assms(2) decrements])
next
  case (move now i source target hash path ok) show ?thesis by (rule move_writes_ok(1) [OF assms(2) move])
next
  case (move_empty now i source target ok) show ?thesis by (rule move_writes_ok(2) [OF assms(2) move_empty])
next
  case (create now model row) then show ?thesis using create_blob_ok assms(2) by blast
next
  case (create_with_key now new_id sz policy key path row)
  show ?thesis by (rule create_writes_ok(1) [OF assms(2) create_with_key(2,1)])
next
  case (create_opaque now new_id sz policy pre obj path row)
  show ?thesis by (rule create_writes_ok(2) [OF assms(2) create_opaque(2,1)])
next
  case (find_or_create now new_id hash sz policy path out)
  show ?thesis
    using create_writes_ok(3) [OF assms(2) find_or_create(2), of now hash sz policy path] find_or_create(1) by simp
next
  case (find_or_create_empty now new_id hash policy out)
  show ?thesis
    using create_writes_ok(4) [OF assms(2) find_or_create_empty(2), of now hash policy] find_or_create_empty(1) by simp
qed (simp_all add: assms(2) claim_writes_ok delete_writes_ok count_writes_ok thumbnail_writes_ok)

interpretation blob_writes: step_system blob_write blob_table_ok
  by unfold_locales (rule blob_write_ok)

text \<open>
  The blob table stays well formed under every write of the repository, in any order. From a well-formed
  table, every sequence of writes leads to a table with unique ids and unique (hash, policy, backing)
  slots, in which no reference count is below the claim value -1 and the cleanup marker is set on exactly
  the rows with no references, so that the maintenance scan by marker finds every unreferenced blob and
  no other.
\<close>

theorem blob_table_stays_well_formed:
  assumes "blob_write\<^sup>*\<^sup>* tbl tbl'" "blob_table_ok tbl"
  shows "unique_key fb_id tbl' \<and> slots_distinct tbl'
    \<and> (\<forall>b \<in> set tbl'. BLOB_CLEANUP_CLAIMED_REF_COUNT \<le> fb_ref_count b
         \<and> (fb_cleanup_pending_since b \<noteq> None \<longleftrightarrow> fb_ref_count b \<le> 0))"
  using blob_writes.reach_inv [OF assms]
  by (simp add: blob_table_ok_def blob_row_ok_def BLOB_CLEANUP_CLAIMED_REF_COUNT_def)

theorem blob_table_stays_well_formed_witness:
  "blob_write\<^sup>*\<^sup>* [ex_blob] (decrement_blob_ref_count 30 3 (decrement_blob_ref_count 20 3 [ex_blob]))
   \<and> list_all (\<lambda>b. BLOB_CLEANUP_CLAIMED_REF_COUNT \<le> fb_ref_count b)
        (decrement_blob_ref_count 30 3 (decrement_blob_ref_count 20 3 [ex_blob]))
   \<and> map fb_cleanup_pending_since (decrement_blob_ref_count 30 3 (decrement_blob_ref_count 20 3 [ex_blob])) = [Some 30]"
proof -
  have w: "blob_write\<^sup>*\<^sup>* [ex_blob] (decrement_blob_ref_count 30 3 (decrement_blob_ref_count 20 3 [ex_blob]))"
    by (rule rtranclp.rtrancl_into_rtrancl [OF r_into_rtranclp]) (rule blob_write.decrement)+
  then show ?thesis
    using blob_table_stays_well_formed [OF w ex_blob_table_ok]
    by (simp add: decrement_blob_ref_count_def set_count_row_def cleanup_pending_since_expr_def floor_sub_def
        ex_blob_def new_blob_row_def list_all_iff)
qed

text \<open>
  What an upload of known content does when no other transaction interferes. In a well-formed table,
  \<open>find_or_create_blob\<close> inserts the row with one reference when the (hash, policy) slot is free, adds one
  reference to an active row and returns that row as stored, refuses a row at the \<open>i32\<close> limit, and after
  its seven attempts gives up on a row that a cleanup worker has claimed; the refusals change nothing.
\<close>

theorem find_or_create_blob_undisturbed:
  assumes "blob_table_ok tbl"
  shows "let row = new_blob_row now new_id hash sz policy (Some path) Stored in case find_blob_by_hash hash policy tbl of
      None \<Rightarrow> find_or_create_blob (\<lambda>_ t. t) now new_id hash sz policy path tbl
                = (tbl @ [row], Inr \<lparr>fr_model = row, fr_inserted = True\<rparr>)
    | Some b \<Rightarrow>
        (if fb_ref_count b = BLOB_CLEANUP_CLAIMED_REF_COUNT \<or> i32_max \<le> fb_ref_count b
         then \<exists>m. find_or_create_blob (\<lambda>_ t. t) now new_id hash sz policy path tbl = (tbl, Inl (internal_error m))
         else find_or_create_blob (\<lambda>_ t. t) now new_id hash sz policy path tbl
                = (map (\<lambda>x. if x = b then increment_row now 1 x else x) tbl,
                   Inr \<lparr>fr_model = increment_row now 1 b, fr_inserted = False\<rparr>))"
proof (cases "find_blob_by_hash hash policy tbl")
  case None
  then have "find_slot hash policy Stored tbl = None" by (simp add: find_blob_by_hash_def find_slot_def)
  then show ?thesis using None find_or_create_blob_quiet [OF assms(1)]
    by (simp add: adopt_or_insert_def new_blob_row_def)
next
  case (Some b)
  define row where "row = new_blob_row now new_id hash sz policy (Some path) Stored"
  have s: "slots_distinct tbl" and u: "unique_key fb_id tbl" using assms(1) by (auto simp: blob_table_ok_def)
  have f: "find_slot hash policy Stored tbl = Some b" using Some by (simp add: find_blob_by_hash_def find_slot_def)
  then have b: "b \<in> set tbl" using find_slot_Some [OF s] by auto
  then have c: "fb_ref_count b < 0 \<longleftrightarrow> fb_ref_count b = BLOB_CLEANUP_CLAIMED_REF_COUNT"
    using assms(1) by (auto simp: blob_table_ok_def blob_row_ok_def BLOB_CLEANUP_CLAIMED_REF_COUNT_def)
  have m: "map (\<lambda>x. if fb_id x = fb_id b then increment_row now 1 x else x) tbl =
        map (\<lambda>x. if x = b then increment_row now 1 x else x) tbl"
    using unique_key_inj [OF u _ b] by (intro map_cong refl) auto
  have q: "find_or_create_blob (\<lambda>_ t. t) now new_id hash sz policy path tbl =
      adopt_or_insert (\<lambda>b. internal_error (''file_blob #'' @ int_to_string (fb_id b) @ '' ref_count overflow: ''
        @ int_to_string (fb_ref_count b)))
      (internal_error (''find_or_create_blob exceeded contention retry budget after ''
         @ nat_to_string FIND_OR_CREATE_BLOB_MAX_ATTEMPTS @ '' attempts for hash='' @ hash
         @ '', policy_id='' @ int_to_string policy)) now row tbl"
    unfolding row_def by (rule find_or_create_blob_quiet [OF assms(1)])
  have r: "find_slot (fb_hash row) (fb_policy_id row) (fb_backing row) tbl = Some b"
    using f by (simp add: row_def new_blob_row_def)
  show ?thesis unfolding Let_def Some option.case q adopt_or_insert_def r c m
    by (cases "fb_ref_count b = BLOB_CLEANUP_CLAIMED_REF_COUNT") (auto simp del: append.simps)
qed

theorem find_or_create_blob_undisturbed_witness:
  "blob_table_ok [ex_blob]
   \<and> find_or_create_blob (\<lambda>_ t. t) 40 9 ''abc'' 5 1 ''files/ab/c'' [ex_blob]
     = ([increment_row 40 1 ex_blob], Inr \<lparr>fr_model = increment_row 40 1 ex_blob, fr_inserted = False\<rparr>)"
  using find_or_create_blob_undisturbed [OF ex_blob_table_ok, of 40 9 "''abc''" 5 1 "''files/ab/c''"] ex_blob_table_ok
  by (simp add: find_blob_by_hash_def ex_blob_def new_blob_row_def BLOB_CLEANUP_CLAIMED_REF_COUNT_def i32_max_def)

end
