(* ===== verification/Entity_Properties.thy ===== *)
theory Entity_Properties
  imports Resource_Locks Blob_Store "HOL-Library.Product_Lexorder" "HOL-Library.List_Lexorder" "HOL-Library.Char_ord"
begin

text \<open>
  Named properties of files and folders: \<open>src/src/db/repository/property_repo.rs\<close>.

  A row is a value under a namespace and a name; the unique key is (entity type, entity, namespace, name),
  compared byte by byte on every backend. Namespaces that start with \<open>system.\<close> and the namespace \<open>DAV:\<close>
  belong to the program; the others are the user's and are what revisions snapshot.
  Ids of new rows are given by the caller as a function of their position in the batch.
\<close>

section \<open>Namespaces\<close>

definition SYSTEM_PROPERTY_NAMESPACE_PREFIX :: string where "SYSTEM_PROPERTY_NAMESPACE_PREFIX = ''system.''"
definition DAV_PROPERTY_NAMESPACE :: string where "DAV_PROPERTY_NAMESPACE = ''DAV:''"
definition ENTITY_PROPERTY_BATCH_CHUNK_SIZE :: nat where "ENTITY_PROPERTY_BATCH_CHUNK_SIZE = 500"

definition is_system_namespace :: "string \<Rightarrow> bool" where
  "is_system_namespace ns = prefix SYSTEM_PROPERTY_NAMESPACE_PREFIX ns"

definition is_dav_namespace :: "string \<Rightarrow> bool" where
  "is_dav_namespace ns = (ns = DAV_PROPERTY_NAMESPACE)"

definition is_protected_namespace :: "string \<Rightarrow> bool" where
  "is_protected_namespace ns = (is_dav_namespace ns \<or> is_system_namespace ns)"

section \<open>Rows\<close>

record entity_property =
  ep_id :: int
  ep_entity_type :: entity_type
  ep_entity_id :: int
  ep_namespace :: string
  ep_name :: string
  ep_value :: "string option"

type_synonym property_table = "entity_property list"

record new_entity_property =
  np_entity_type :: entity_type
  np_entity_id :: int
  np_namespace :: string
  np_name :: string
  np_value :: "string option"

definition property_key :: "entity_property \<Rightarrow> entity_type \<times> int \<times> string \<times> string" where
  "property_key p = (ep_entity_type p, ep_entity_id p, ep_namespace p, ep_name p)"

definition property_constraints :: "property_table \<Rightarrow> bool" where
  "property_constraints t = (unique_key ep_id t \<and> unique_key property_key t)"

definition user_namespace_condition :: "entity_property \<Rightarrow> bool" where
  "user_namespace_condition p =
     (ep_namespace p \<noteq> DAV_PROPERTY_NAMESPACE \<and> \<not> prefix SYSTEM_PROPERTY_NAMESPACE_PREFIX (ep_namespace p))"

definition namespace_eq_condition :: "string \<Rightarrow> entity_property \<Rightarrow> bool" where
  "namespace_eq_condition ns p = (ep_namespace p = ns)"

definition property_key_condition :: "string \<Rightarrow> string \<Rightarrow> entity_property \<Rightarrow> bool" where
  "property_key_condition ns name p = (namespace_eq_condition ns p \<and> ep_name p = name)"

definition of_entity :: "entity_type \<Rightarrow> int \<Rightarrow> entity_property \<Rightarrow> bool" where
  "of_entity ty i p = (ep_entity_type p = ty \<and> ep_entity_id p = i)"

section \<open>Queries\<close>

definition find_by_entity :: "entity_type \<Rightarrow> int \<Rightarrow> property_table \<Rightarrow> entity_property list" where
  "find_by_entity ty i t = select_where (of_entity ty i) t"

text \<open>\<open>slice::chunks\<close>.\<close>

fun chunks_from :: "nat \<Rightarrow> nat \<Rightarrow> 'a list \<Rightarrow> 'a list list" where
  "chunks_from fuel n [] = []"
| "chunks_from 0 n (x # xs) = [x # xs]"
| "chunks_from (Suc fuel) n (x # xs) = take n (x # xs) # chunks_from fuel n (drop n (x # xs))"

definition chunks :: "nat \<Rightarrow> 'a list \<Rightarrow> 'a list list" where
  "chunks n xs = chunks_from (length xs) n xs"

definition find_by_entities :: "(entity_type \<times> int) list \<Rightarrow> property_table \<Rightarrow> entity_property list" where
  "find_by_entities targets t =
     (let ids = \<lambda>ty. remdups_adj (sort (map snd (filter (\<lambda>p. fst p = ty) targets))) in
      concat (map (\<lambda>ty. concat (map (\<lambda>chunk.
          sort_key (\<lambda>p. (ep_entity_id p, ep_namespace p, ep_name p))
            (select_where (\<lambda>p. ep_entity_type p = ty \<and> ep_entity_id p \<in> set chunk) t))
          (chunks ENTITY_PROPERTY_BATCH_CHUNK_SIZE (ids ty)))) [ET_File, ET_Folder]))"

definition property_by_key :: "entity_type \<Rightarrow> int \<Rightarrow> string \<Rightarrow> string \<Rightarrow> property_table \<Rightarrow> entity_property option" where
  "property_by_key ty i ns name t = List.find (\<lambda>p. of_entity ty i p \<and> property_key_condition ns name p) t"

definition has_properties :: "entity_type \<Rightarrow> int \<Rightarrow> property_table \<Rightarrow> bool" where
  "has_properties ty i t = (count_where (of_entity ty i) t > 0)"

definition find_tag_bindings_for_entities ::
  "string \<Rightarrow> int list \<Rightarrow> int list \<Rightarrow> property_table \<Rightarrow> (entity_type \<times> int \<times> string) list" where
  "find_tag_bindings_for_entities ns file_ids folder_ids t =
     (if file_ids = [] \<and> folder_ids = [] then []
      else map (\<lambda>p. (ep_entity_type p, ep_entity_id p, ep_name p))
             (select_where (\<lambda>p. namespace_eq_condition ns p
                \<and> (ep_entity_type p = ET_File \<and> ep_entity_id p \<in> set file_ids
                   \<or> ep_entity_type p = ET_Folder \<and> ep_entity_id p \<in> set folder_ids)) t))"

definition find_entity_ids_by_tag_ids :: "string \<Rightarrow> entity_type \<Rightarrow> int list \<Rightarrow> property_table \<Rightarrow> int list" where
  "find_entity_ids_by_tag_ids ns ty tag_ids t =
     (if tag_ids = [] then []
      else map ep_entity_id (select_where (\<lambda>p. namespace_eq_condition ns p \<and> ep_entity_type p = ty
             \<and> ep_name p \<in> set (map int_to_string tag_ids)) t))"

section \<open>Writes\<close>

definition property_row :: "int \<Rightarrow> new_entity_property \<Rightarrow> entity_property" where
  "property_row i n =
     \<lparr>ep_id = i, ep_entity_type = np_entity_type n, ep_entity_id = np_entity_id n,
      ep_namespace = np_namespace n, ep_name = np_name n, ep_value = np_value n\<rparr>"

text \<open>An insert of several rows succeeds when the table with the rows meets its unique keys.\<close>

definition insert_rows :: "('r list \<Rightarrow> bool) \<Rightarrow> 'r list \<Rightarrow> 'r list \<Rightarrow> 'r list aster_result" where
  "insert_rows ok rows t = (if ok (t @ rows) then Inr (t @ rows) else Inl unique_violation)"

definition enumerated :: "(int \<Rightarrow> 'n \<Rightarrow> 'r) \<Rightarrow> (nat \<Rightarrow> int) \<Rightarrow> 'n list \<Rightarrow> 'r list" where
  "enumerated row ids ns = map (\<lambda>(k, n). row (ids k) n) (enumerate 0 ns)"

fun insert_chunks :: "('r list \<Rightarrow> bool) \<Rightarrow> 'r list list \<Rightarrow> 'r list \<Rightarrow> 'r list aster_result" where
  "insert_chunks ok [] t = Inr t"
| "insert_chunks ok (c # cs) t = bind_result (insert_rows ok c t) (insert_chunks ok cs)"

definition property_insert_many :: "(nat \<Rightarrow> int) \<Rightarrow> new_entity_property list \<Rightarrow> property_table \<Rightarrow> property_table aster_result" where
  "property_insert_many ids ps t =
     insert_chunks property_constraints (chunks ENTITY_PROPERTY_BATCH_CHUNK_SIZE (enumerated property_row ids ps)) t"

text \<open>\<open>on_conflict_do_nothing_on\<close> the unique key: the row is skipped when its key is taken.\<close>

definition insert_unless_conflict :: "entity_property \<Rightarrow> property_table \<Rightarrow> property_table \<times> bool" where
  "insert_unless_conflict row t =
     (if property_key row \<in> property_key ` set t then (t, False) else (t @ [row], True))"

definition entity_type_debug :: "entity_type \<Rightarrow> string" where
  "entity_type_debug ty = (case ty of ET_File \<Rightarrow> ''File'' | ET_Folder \<Rightarrow> ''Folder'')"

definition property_label :: "entity_type \<Rightarrow> int \<Rightarrow> string \<Rightarrow> string \<Rightarrow> string" where
  "property_label ty i ns name = entity_type_debug ty @ ''#'' @ int_to_string i @ '' '' @ ns @ '':'' @ name"

definition upsert ::
  "int \<Rightarrow> entity_type \<Rightarrow> int \<Rightarrow> string \<Rightarrow> string \<Rightarrow> string option \<Rightarrow> property_table
   \<Rightarrow> (property_table \<times> entity_property) aster_result" where
  "upsert new_id ty i ns name v t =
     (let row = \<lparr>ep_id = new_id, ep_entity_type = ty, ep_entity_id = i, ep_namespace = ns, ep_name = name, ep_value = v\<rparr>;
          (t1, inserted) = insert_unless_conflict row t;
          (t2, n) = (if inserted then (t1, 1)
                     else update_where (\<lambda>p. of_entity ty i p \<and> property_key_condition ns name p)
                            (\<lambda>p. p\<lparr>ep_value := v\<rparr>) t1)
      in if n = 0
         then Inl (internal_error (''entity property upsert update affected 0 rows for '' @ property_label ty i ns name))
         else case property_by_key ty i ns name t2 of
                Some p \<Rightarrow> Inr (t2, p)
              | None \<Rightarrow> Inl (internal_error (''entity property upsert could not reload row for '' @ property_label ty i ns name)))"

fun insert_each_unless_conflict :: "entity_property list \<Rightarrow> property_table \<Rightarrow> property_table" where
  "insert_each_unless_conflict [] t = t"
| "insert_each_unless_conflict (r # rs) t = insert_each_unless_conflict rs (fst (insert_unless_conflict r t))"

definition insert_many_for_entities ::
  "(nat \<Rightarrow> int) \<Rightarrow> entity_type \<Rightarrow> int list \<Rightarrow> string \<Rightarrow> string \<Rightarrow> string option \<Rightarrow> property_table \<Rightarrow> property_table" where
  "insert_many_for_entities ids ty entity_ids ns name v t =
     fold insert_each_unless_conflict
       (chunks ENTITY_PROPERTY_BATCH_CHUNK_SIZE
          (enumerated (\<lambda>k i. \<lparr>ep_id = k, ep_entity_type = ty, ep_entity_id = i, ep_namespace = ns, ep_name = name, ep_value = v\<rparr>)
             ids entity_ids)) t"

definition delete_prop :: "entity_type \<Rightarrow> int \<Rightarrow> string \<Rightarrow> string \<Rightarrow> property_table \<Rightarrow> property_table" where
  "delete_prop ty i ns name t = fst (delete_where (\<lambda>p. of_entity ty i p \<and> property_key_condition ns name p) t)"

definition delete_many_for_entities ::
  "entity_type \<Rightarrow> int list \<Rightarrow> string \<Rightarrow> string \<Rightarrow> property_table \<Rightarrow> property_table" where
  "delete_many_for_entities ty entity_ids ns name t =
     fold (\<lambda>chunk t. fst (delete_where (\<lambda>p. ep_entity_type p = ty \<and> ep_entity_id p \<in> set chunk
                                          \<and> property_key_condition ns name p) t))
       (chunks ENTITY_PROPERTY_BATCH_CHUNK_SIZE entity_ids) t"

definition delete_all_for_entity :: "entity_type \<Rightarrow> int \<Rightarrow> property_table \<Rightarrow> property_table" where
  "delete_all_for_entity ty i t = fst (delete_where (of_entity ty i) t)"

definition delete_all_for_entities :: "entity_type \<Rightarrow> int list \<Rightarrow> property_table \<Rightarrow> property_table" where
  "delete_all_for_entities ty entity_ids t =
     (if entity_ids = [] then t
      else fst (delete_where (\<lambda>p. ep_entity_type p = ty \<and> ep_entity_id p \<in> set entity_ids) t))"

definition delete_by_namespace_and_name :: "string \<Rightarrow> string \<Rightarrow> property_table \<Rightarrow> property_table" where
  "delete_by_namespace_and_name ns name t = fst (delete_where (property_key_condition ns name) t)"

definition delete_namespace_for_entity :: "entity_type \<Rightarrow> int \<Rightarrow> string \<Rightarrow> property_table \<Rightarrow> property_table" where
  "delete_namespace_for_entity ty i ns t =
     fst (delete_where (\<lambda>p. of_entity ty i p \<and> namespace_eq_condition ns p) t)"

section \<open>Chunks and batches\<close>

lemma chunks_from_concat [simp]: "concat (chunks_from fuel n xs) = xs"
  by (induction fuel n xs rule: chunks_from.induct) auto

lemma chunks_concat [simp]: "concat (chunks n xs) = xs"
  by (simp add: chunks_def)

lemma chunks_Nil [simp]: "chunks n [] = []"
  by (simp add: chunks_def)

lemma chunks_size: "c \<in> set (chunks_from fuel n xs) \<Longrightarrow> length xs \<le> fuel \<Longrightarrow> 0 < n \<Longrightarrow> length c \<le> n"
  by (induction fuel n xs rule: chunks_from.induct) auto

text \<open>No statement carries more rows than its bound, and the batches together insert every row in order.\<close>

lemma chunks_bounded: "c \<in> set (chunks n xs) \<Longrightarrow> 0 < n \<Longrightarrow> length c \<le> n"
  by (auto simp: chunks_def dest: chunks_size)

lemma insert_chunks_Inr:
  "insert_chunks ok cs t = Inr t' \<Longrightarrow> t' = t @ concat cs \<and> (cs \<noteq> [] \<longrightarrow> ok t')"
proof (induction cs arbitrary: t)
  case (Cons c cs)
  then have c: "ok (t @ c)" "insert_chunks ok cs (t @ c) = Inr t'"
    by (auto simp: insert_rows_def split: if_splits)
  then show ?case using Cons.IH [OF c(2)] by (cases "cs = []") auto
qed simp

lemma insert_chunks_ok:
  assumes "\<And>a b. ok (a @ b) \<Longrightarrow> ok a" "ok (t @ concat cs)"
  shows "insert_chunks ok cs t = Inr (t @ concat cs)"
  using assms(2)
proof (induction cs arbitrary: t)
  case (Cons c cs)
  then have "ok (t @ c)" using assms(1) [of "t @ c" "concat cs"] by simp
  then show ?case using Cons by (simp add: insert_rows_def)
qed simp

text \<open>A batch of inserts is one insert of all its rows.\<close>

lemma insert_chunks_eq:
  assumes "\<And>a b. ok (a @ b) \<Longrightarrow> ok a" "rows \<noteq> []"
  shows "insert_chunks ok (chunks n rows) t = insert_rows ok rows t"
proof (cases "ok (t @ rows)")
  case True
  then show ?thesis using insert_chunks_ok [where ok = ok and t = t and cs = "chunks n rows", OF assms(1)] by (simp add: insert_rows_def)
next
  case False
  have ne: "chunks n rows \<noteq> []" using assms(2) by (metis chunks_concat concat.simps(1))
  have "\<exists>e. insert_chunks ok (chunks n rows) t = Inl e"
    using insert_chunks_Inr [of ok "chunks n rows" t] False ne
    by (cases "insert_chunks ok (chunks n rows) t") auto
  moreover have "insert_chunks ok cs t = Inl e \<Longrightarrow> e = unique_violation" for cs e t
    by (induction cs arbitrary: t) (auto simp: insert_rows_def split: if_splits)
  ultimately show ?thesis using False by (auto simp: insert_rows_def)
qed

lemma unique_key_appendD: "unique_key k (a @ b) \<Longrightarrow> unique_key k a"
  by (simp add: unique_key_def)

lemma property_constraints_appendD: "property_constraints (a @ b) \<Longrightarrow> property_constraints a"
  by (auto simp: property_constraints_def dest: unique_key_appendD)

lemma property_constraints_filter: "property_constraints t \<Longrightarrow> property_constraints (filter p t)"
  by (auto simp: property_constraints_def unique_key_def distinct_map_filter)

section \<open>The user's and the program's namespaces\<close>

lemma user_namespace_condition_iff: "user_namespace_condition p \<longleftrightarrow> \<not> is_protected_namespace (ep_namespace p)"
  by (auto simp: user_namespace_condition_def is_protected_namespace_def is_dav_namespace_def is_system_namespace_def)

section \<open>A property behaves like a map entry\<close>

definition property_value :: "entity_type \<Rightarrow> int \<Rightarrow> string \<Rightarrow> string \<Rightarrow> property_table \<Rightarrow> string option option" where
  "property_value ty i ns name t = map_option ep_value (property_by_key ty i ns name t)"

lemma keyed_iff:
  "of_entity ty i p \<and> property_key_condition ns name p \<longleftrightarrow> property_key p = (ty, i, ns, name)"
  by (auto simp: of_entity_def property_key_condition_def namespace_eq_condition_def property_key_def)

lemma property_by_key_eq: "property_by_key ty i ns name t = find_key property_key (ty, i, ns, name) t"
  by (simp add: property_by_key_def find_key_def keyed_iff)

interpretation property_ku: keyed_update property_key k "\<lambda>p. property_key p = k" "\<lambda>p. p\<lparr>ep_value := v\<rparr>" for k v
  by unfold_locales (auto simp: property_key_def)

lemma upsert_existing:
  assumes "property_key p = (ty, i, ns, name)" "p \<in> set t"
  shows "\<exists>q. upsert new_id ty i ns name v t =
      Inr (fst (exec_one (\<lambda>p. property_key p = (ty, i, ns, name)) (\<lambda>p. p\<lparr>ep_value := v\<rparr>) t), q)
    \<and> ep_value q = v \<and> property_key q = (ty, i, ns, name)"
proof -
  let ?k = "(ty, i, ns, name)"
  let ?t = "fst (exec_one (\<lambda>p. property_key p = ?k) (\<lambda>p. p\<lparr>ep_value := v\<rparr>) t)"
  have t: "fst (update_where (\<lambda>p. property_key p = ?k) (\<lambda>p. p\<lparr>ep_value := v\<rparr>) t) = ?t"
    by (simp add: exec_one_def)
  obtain r where r: "find_key property_key ?k t = Some r"
    using assms by (cases "find_key property_key ?k t") (force simp: find_key_None_iff)+
  then have "find_key property_key ?k ?t = Some (r\<lparr>ep_value := v\<rparr>)"
    using property_ku.its_row [of ?k v t] find_key_SomeD [OF r] by auto
  moreover have "count_where (\<lambda>p. property_key p = ?k) t \<noteq> 0"
    using assms by (auto simp: count_where_0_iff)
  moreover have "?k \<in> property_key ` set t" using assms by force
  ultimately show ?thesis
    using t find_key_SomeD [OF r]
    by (auto simp: upsert_def insert_unless_conflict_def keyed_iff property_by_key_eq property_key_def Let_def case_prod_beta)
qed

lemma upsert_new:
  assumes "(ty, i, ns, name) \<notin> property_key ` set t"
  shows "upsert new_id ty i ns name v t =
    (let row = \<lparr>ep_id = new_id, ep_entity_type = ty, ep_entity_id = i, ep_namespace = ns, ep_name = name, ep_value = v\<rparr>
     in Inr (t @ [row], row))"
proof -
  have "find_key property_key (ty, i, ns, name) (t @ [row]) = Some row" if "property_key row = (ty, i, ns, name)" for row
    using assms that by (induction t) (auto simp: find_key_def)
  then show ?thesis using assms
    by (simp add: upsert_def insert_unless_conflict_def property_key_def property_by_key_eq Let_def)
qed

text \<open>A value written is the value read, and no other property changes.\<close>

lemma upsert_lookup:
  assumes "upsert new_id ty i ns name v t = Inr (t', row)"
  shows "property_value ty' i' ns' name' t' =
    (if (ty', i', ns', name') = (ty, i, ns, name) then Some v else property_value ty' i' ns' name' t)"
proof (cases "(ty, i, ns, name) \<in> property_key ` set t")
  case True
  then obtain p where p: "property_key p = (ty, i, ns, name)" "p \<in> set t" by force
  have t': "t' = fst (exec_one (\<lambda>p. property_key p = (ty, i, ns, name)) (\<lambda>p. p\<lparr>ep_value := v\<rparr>) t)"
    using upsert_existing [OF p, of new_id v] assms by auto
  obtain r where r: "find_key property_key (ty, i, ns, name) t = Some r"
    using True by (cases "find_key property_key (ty, i, ns, name) t") (force simp: find_key_None_iff)+
  show ?thesis
    using property_ku.other_rows [of "(ty', i', ns', name')" "(ty, i, ns, name)" v t]
      property_ku.its_row [of "(ty, i, ns, name)" v t] r find_key_SomeD [OF r]
    by (auto simp: t' property_value_def property_by_key_eq)
next
  case False
  have "find_key property_key k (t @ [r]) = (if property_key r = k \<and> k \<notin> property_key ` set t then Some r else find_key property_key k t)"
    for k r by (induction t) (auto simp: find_key_def)
  then show ?thesis using upsert_new [OF False, of new_id v] assms False
    by (auto simp: property_value_def property_by_key_eq Let_def property_key_def)
qed

end
