(* ===== verification/Revision_Ledger.thy ===== *)
theory Revision_Ledger
  imports Entity_Properties
begin

text \<open>
  The ledger of file revisions: \<open>src/src/db/repository/revision_repo.rs\<close>.

  Every file has one history, a history has revisions numbered by a sequence, and a revision keeps its
  content (blob, size), its metadata and a snapshot of the file's own properties. Revisions that are not
  retired are linked from the newest to the oldest by their predecessor column, and the history points at
  the newest. Retiring one cuts it out of the chain; its row stays as a tombstone.

  The tables keep their insertion order. Ids, public ids and entity tags of new rows come from the database
  and from the uuid library: they are fields of the environment, and a row that breaks a unique key is
  refused as the database refuses it. A function returns the whole new ledger, or the error that rolls the
  transaction back.
\<close>

section \<open>Rows\<close>

record file_model =
  fm_id :: int
  fm_name :: string
  fm_folder_id :: "int option"
  fm_team_id :: "int option"
  fm_blob_id :: int
  fm_size :: int
  fm_owner_user_id :: "int option"
  fm_created_by_user_id :: "int option"
  fm_created_by_username :: string
  fm_modified_by_user_id :: "int option"
  fm_modified_by_username :: "string option"
  fm_modified_at :: "time option"
  fm_mime_type :: string
  fm_extension :: string
  fm_compound_extension :: "string option"
  fm_file_category :: string
  fm_created_at :: time
  fm_updated_at :: time
  fm_deleted_at :: "time option"

record file_revision =
  fr_id :: int
  fr_public_id :: string
  fr_history_id :: int
  fr_sequence :: int
  fr_predecessor_revision_id :: "int option"
  fr_blob_id :: "int option"
  fr_logical_size :: int
  fr_mime_type :: "string option"
  fr_etag :: string
  fr_content_sha256 :: "string option"
  fr_creator_user_id :: "int option"
  fr_creator_display_name :: "string option"
  fr_comment :: "string option"
  fr_reason :: string
  fr_created_at :: time
  fr_retired_at :: "time option"
  fr_purged_at :: "time option"

record file_revision_history =
  fh_id :: int
  fh_public_id :: string
  fh_file_id :: "int option"
  fh_current_revision_id :: "int option"
  fh_next_sequence :: int
  fh_deltav_controlled_at :: "time option"
  fh_deltav_root_revision_id :: "int option"
  fh_created_at :: time
  fh_retired_at :: "time option"

record file_revision_property =
  rp_revision_id :: int
  rp_namespace :: string
  rp_name :: string
  rp_xml_value :: "string option"

record ledger =
  lg_files :: "file_model list"
  lg_histories :: "file_revision_history list"
  lg_revisions :: "file_revision list"
  lg_snapshots :: "file_revision_property list"
  lg_properties :: property_table

record ledger_env =
  re_now :: time
  re_history_id :: "nat \<Rightarrow> int"
  re_revision_id :: "nat \<Rightarrow> int"
  re_property_id :: "nat \<Rightarrow> int"
  re_history_uuid :: "nat \<Rightarrow> string"
  re_revision_uuid :: "nat \<Rightarrow> string"
  re_etag :: "nat \<Rightarrow> string"
  re_best_effort_uuid :: "string \<Rightarrow> (string \<Rightarrow> bool) \<Rightarrow> string aster_result"

text \<open>Unique keys of the tables; a null \<open>file_id\<close> is not compared.\<close>

definition history_constraints :: "file_revision_history list \<Rightarrow> bool" where
  "history_constraints hs =
     (unique_key fh_id hs \<and> unique_key fh_public_id hs
      \<and> sorted_wrt (\<lambda>h h'. fh_file_id h = None \<or> fh_file_id h \<noteq> fh_file_id h') hs)"

definition revision_constraints :: "file_revision list \<Rightarrow> bool" where
  "revision_constraints rs =
     (unique_key fr_id rs \<and> unique_key fr_public_id rs \<and> unique_key (\<lambda>r. (fr_history_id r, fr_sequence r)) rs)"

definition snapshot_constraints :: "file_revision_property list \<Rightarrow> bool" where
  "snapshot_constraints ps = unique_key (\<lambda>p. (rp_revision_id p, rp_namespace p, rp_name p)) ps"

datatype revision_append_error = HeadChanged | EtagMismatch | Repository aster_error

type_synonym 'a revision_append_result = "revision_append_error + 'a"

definition from_aster_error :: "'a aster_result \<Rightarrow> 'a revision_append_result" where
  "from_aster_error r = (case r of Inl e \<Rightarrow> Inl (Repository e) | Inr a \<Rightarrow> Inr a)"

definition map_append_error :: "revision_append_error \<Rightarrow> aster_error" where
  "map_append_error e =
     (case e of
        HeadChanged \<Rightarrow> precondition_failed_with_code ''FileModifiedDuringWrite''
                          ''file revision head changed while content was being committed''
      | EtagMismatch \<Rightarrow> precondition_failed_with_code ''FileEtagMismatch'' ''file has been modified (ETag mismatch)''
      | Repository e' \<Rightarrow> e')"

datatype revision_reason = Create | Overwrite | Restore | Copy | PropertyChange

definition reason_as_str :: "revision_reason \<Rightarrow> string" where
  "reason_as_str r =
     (case r of Create \<Rightarrow> ''create'' | Overwrite \<Rightarrow> ''overwrite'' | Restore \<Rightarrow> ''restore''
      | Copy \<Rightarrow> ''copy'' | PropertyChange \<Rightarrow> ''property_change'')"

record new_revision =
  nr_blob_id :: int
  nr_logical_size :: int
  nr_mime_type :: string
  nr_content_sha256 :: "string option"
  nr_creator_user_id :: "int option"
  nr_creator_display_name :: string
  nr_comment :: "string option"
  nr_reason :: revision_reason
  nr_created_at :: time
  nr_etag :: "string option"

section \<open>Lookups\<close>

definition find_user_properties :: "int list \<Rightarrow> ledger \<Rightarrow> entity_property list" where
  "find_user_properties file_ids lg =
     filter (\<lambda>p. \<not> is_protected_namespace (ep_namespace p))
       (find_by_entities (map (\<lambda>i. (ET_File, i)) file_ids) (lg_properties lg))"

definition history_public_id_exists :: "ledger \<Rightarrow> string \<Rightarrow> bool" where
  "history_public_id_exists lg pid = (\<exists>h \<in> set (lg_histories lg). fh_public_id h = pid)"

definition revision_public_id_exists :: "ledger \<Rightarrow> string \<Rightarrow> bool" where
  "revision_public_id_exists lg pid = (\<exists>r \<in> set (lg_revisions lg). fr_public_id r = pid)"

definition history_of_file :: "int \<Rightarrow> ledger \<Rightarrow> file_revision_history option" where
  "history_of_file i lg = find_key fh_file_id (Some i) (lg_histories lg)"

definition find_history_by_file_id :: "int \<Rightarrow> ledger \<Rightarrow> file_revision_history aster_result" where
  "find_history_by_file_id i lg =
     (case history_of_file i lg of
        Some h \<Rightarrow> Inr h
      | None \<Rightarrow> Inl (internal_error (''file #'' @ int_to_string i @ '' has no revision history'')))"

definition lock_history_by_file_id :: "int \<Rightarrow> ledger \<Rightarrow> file_revision_history aster_result" where
  "lock_history_by_file_id i lg =
     (case history_of_file i lg of
        Some h \<Rightarrow> Inr h
      | None \<Rightarrow> Inl (internal_error (''file #'' @ int_to_string i @ '' has no revision history'')))"

definition revision_by_id :: "int \<Rightarrow> ledger \<Rightarrow> file_revision option" where
  "revision_by_id i lg = find_key fr_id i (lg_revisions lg)"

definition ok_or :: "aster_error \<Rightarrow> 'a option \<Rightarrow> 'a aster_result" where
  "ok_or e x = (case x of Some a \<Rightarrow> Inr a | None \<Rightarrow> Inl e)"

definition no_current :: "int \<Rightarrow> aster_error" where
  "no_current i = internal_error (''file #'' @ int_to_string i @ '' revision history has no current revision'')"

definition dangling_current :: "int \<Rightarrow> aster_error" where
  "dangling_current i = internal_error (''file #'' @ int_to_string i @ '' revision history has a dangling current pointer'')"

definition find_current_by_file_id :: "int \<Rightarrow> ledger \<Rightarrow> file_revision aster_result" where
  "find_current_by_file_id i lg =
     bind_result (find_history_by_file_id i lg) (\<lambda>h.
     bind_result (ok_or (no_current i) (fh_current_revision_id h)) (\<lambda>c.
     bind_result (ok_or (dangling_current i) (revision_by_id c lg)) (\<lambda>r.
     if fr_history_id r \<noteq> fh_id h \<or> fr_retired_at r \<noteq> None
     then Inl (internal_error (''file #'' @ int_to_string i @ '' revision history points to an invalid current revision''))
     else Inr r)))"

definition current_etag :: "int \<Rightarrow> ledger \<Rightarrow> string aster_result" where
  "current_etag i lg = bind_result (find_current_by_file_id i lg) (\<lambda>r. Inr (fr_etag r))"

definition file_by_id :: "int \<Rightarrow> ledger \<Rightarrow> file_model aster_result" where
  "file_by_id i lg = ok_or (FileNotFound (payload_new (''file #'' @ int_to_string i))) (find_key fm_id i (lg_files lg))"

definition find_file_blob_and_current_revision ::
  "int \<Rightarrow> blob_table \<Rightarrow> ledger \<Rightarrow> (file_model \<times> file_blob \<times> file_revision) aster_result" where
  "find_file_blob_and_current_revision i blobs lg =
     bind_result (file_by_id i lg) (\<lambda>f.
     bind_result (find_blob_by_id (fm_blob_id f) blobs) (\<lambda>b.
     bind_result (find_current_by_file_id i lg) (\<lambda>r. Inr (f, b, r))))"

record current_revision_snapshot =
  cs_revision :: file_revision
  cs_deltav_controlled :: bool

fun collect_results :: "'a aster_result list \<Rightarrow> 'a list aster_result" where
  "collect_results [] = Inr []"
| "collect_results (r # rs) = bind_result r (\<lambda>a. bind_result (collect_results rs) (\<lambda>as. Inr (a # as)))"

definition current_revision_snapshots_by_file_ids ::
  "int list \<Rightarrow> ledger \<Rightarrow> (int \<times> current_revision_snapshot) list aster_result" where
  "current_revision_snapshots_by_file_ids file_ids lg =
     (if file_ids = [] then Inr []
      else
        let hs = select_where (\<lambda>h. \<exists>i \<in> set file_ids. fh_file_id h = Some i) (lg_histories lg);
            current_ids = List.map_filter fh_current_revision_id hs;
            rs = select_where (\<lambda>r. fr_id r \<in> set current_ids) (lg_revisions lg)
        in collect_results (map (\<lambda>h.
             bind_result (ok_or (internal_error ''active revision history has no file id'') (fh_file_id h)) (\<lambda>i.
             bind_result (ok_or (no_current i) (fh_current_revision_id h)) (\<lambda>c.
             bind_result (ok_or (dangling_current i) (find_key fr_id c rs)) (\<lambda>r.
             Inr (i, \<lparr>cs_revision = r, cs_deltav_controlled = (fh_deltav_controlled_at h \<noteq> None)\<rparr>))))) hs))"

definition of_live_history :: "int \<Rightarrow> file_revision \<Rightarrow> bool" where
  "of_live_history h r = (fr_history_id r = h \<and> fr_retired_at r = None)"

definition find_by_id_for_file :: "int \<Rightarrow> int \<Rightarrow> ledger \<Rightarrow> file_revision option aster_result" where
  "find_by_id_for_file file_id rev_id lg =
     bind_result (find_history_by_file_id file_id lg) (\<lambda>h.
     Inr (List.find (\<lambda>r. fr_id r = rev_id \<and> of_live_history (fh_id h) r) (lg_revisions lg)))"

definition find_by_file_id :: "int \<Rightarrow> ledger \<Rightarrow> file_revision list aster_result" where
  "find_by_file_id file_id lg =
     bind_result (find_history_by_file_id file_id lg) (\<lambda>h.
     Inr (sort_key (\<lambda>r. - fr_sequence r) (select_where (of_live_history (fh_id h)) (lg_revisions lg))))"

definition find_page_by_file_id :: "int \<Rightarrow> nat \<Rightarrow> int option \<Rightarrow> ledger \<Rightarrow> file_revision list aster_result" where
  "find_page_by_file_id file_id limit after lg =
     bind_result (find_history_by_file_id file_id lg) (\<lambda>h.
     Inr (take limit (sort_key (\<lambda>r. - fr_sequence r)
       (select_where (\<lambda>r. of_live_history (fh_id h) r \<and> (case after of Some s \<Rightarrow> fr_sequence r < s | None \<Rightarrow> True))
          (lg_revisions lg)))))"

definition find_by_blob_id :: "int \<Rightarrow> ledger \<Rightarrow> (file_revision \<times> file_revision_history) list" where
  "find_by_blob_id b lg =
     List.map_filter (\<lambda>r. map_option (Pair r) (find_key fh_id (fr_history_id r) (lg_histories lg)))
       (sort_key fr_id (select_where (\<lambda>r. fr_blob_id r = Some b \<and> fr_retired_at r = None) (lg_revisions lg)))"

definition count_by_file_id :: "int \<Rightarrow> ledger \<Rightarrow> nat aster_result" where
  "count_by_file_id file_id lg =
     bind_result (find_history_by_file_id file_id lg) (\<lambda>h.
     Inr (count_where (of_live_history (fh_id h)) (lg_revisions lg)))"

definition find_oldest_non_current :: "int \<Rightarrow> ledger \<Rightarrow> file_revision option aster_result" where
  "find_oldest_non_current file_id lg =
     bind_result (find_history_by_file_id file_id lg) (\<lambda>h.
     Inr (min_by_key fr_sequence
       (select_where (\<lambda>r. of_live_history (fh_id h) r
           \<and> (case fh_current_revision_id h of Some c \<Rightarrow> fr_id r \<noteq> c | None \<Rightarrow> True)) (lg_revisions lg))))"

definition find_properties :: "int \<Rightarrow> ledger \<Rightarrow> file_revision_property list" where
  "find_properties rev_id lg =
     sort_key (\<lambda>p. (rp_namespace p, rp_name p)) (select_where (\<lambda>p. rp_revision_id p = rev_id) (lg_snapshots lg))"

definition find_properties_by_revision_ids :: "int list \<Rightarrow> ledger \<Rightarrow> int \<Rightarrow> file_revision_property list option" where
  "find_properties_by_revision_ids rev_ids lg i =
     (let rows = concat (map (\<lambda>chunk. sort_key (\<lambda>p. (rp_revision_id p, rp_namespace p, rp_name p))
                    (select_where (\<lambda>p. rp_revision_id p \<in> set chunk) (lg_snapshots lg))) (chunks 500 rev_ids));
          group = filter (\<lambda>p. rp_revision_id p = i) rows
      in if group = [] then None else Some group)"

definition non_current :: "file_revision_history \<Rightarrow> file_revision \<Rightarrow> bool" where
  "non_current h r = (fh_current_revision_id h = None \<or> fh_current_revision_id h \<noteq> Some (fr_id r))"

definition sum_non_current_sizes_by_file_id :: "int \<Rightarrow> ledger \<Rightarrow> int aster_result" where
  "sum_non_current_sizes_by_file_id file_id lg =
     bind_result (find_history_by_file_id file_id lg) (\<lambda>h.
     Inr (sum_list (map fr_logical_size (select_where (\<lambda>r. of_live_history (fh_id h) r
           \<and> (case fh_current_revision_id h of Some c \<Rightarrow> fr_id r \<noteq> c | None \<Rightarrow> True)) (lg_revisions lg)))))"

text \<open>The inner join of the revisions with their histories.\<close>

definition join_histories :: "ledger \<Rightarrow> (file_revision \<times> file_revision_history) list" where
  "join_histories lg =
     concat (map (\<lambda>r. map (Pair r) (filter (\<lambda>h. fh_id h = fr_history_id r) (lg_histories lg))) (lg_revisions lg))"

definition sum_non_current_sizes_by_file_ids :: "int list \<Rightarrow> ledger \<Rightarrow> int \<Rightarrow> int option" where
  "sum_non_current_sizes_by_file_ids file_ids lg i =
     (let rows = select_where (\<lambda>(r, h). fh_file_id h = Some i \<and> i \<in> set file_ids \<and> fr_retired_at r = None \<and> non_current h r)
                   (join_histories lg)
      in if rows = [] then None else Some (sum_list (map (fr_logical_size \<circ> fst) rows)))"

definition count_non_current_blob_refs_for_blobs :: "int list \<Rightarrow> ledger \<Rightarrow> int \<Rightarrow> int option" where
  "count_non_current_blob_refs_for_blobs blob_ids lg b =
     (let rows = select_where (\<lambda>(r, h). fr_blob_id r = Some b \<and> b \<in> set blob_ids \<and> fr_retired_at r = None \<and> non_current h r)
                   (join_histories lg)
      in if rows = [] then None else Some (int (length rows)))"

section \<open>Creating a history\<close>

definition insert_history :: "ledger_env \<Rightarrow> file_model \<Rightarrow> ledger \<Rightarrow> (ledger \<times> file_revision_history) aster_result" where
  "insert_history env file lg =
     bind_result (re_best_effort_uuid env ''file revision history public id'' (history_public_id_exists lg)) (\<lambda>pid.
     let h = \<lparr>fh_id = re_history_id env 0, fh_public_id = pid, fh_file_id = Some (fm_id file),
              fh_current_revision_id = None, fh_next_sequence = 2, fh_deltav_controlled_at = None,
              fh_deltav_root_revision_id = None, fh_created_at = fm_created_at file, fh_retired_at = None\<rparr> in
     bind_result (insert_rows history_constraints [h] (lg_histories lg)) (\<lambda>hs.
     Inr (lg\<lparr>lg_histories := hs\<rparr>, h)))"

definition insert_revision ::
  "ledger_env \<Rightarrow> int \<Rightarrow> int \<Rightarrow> int option \<Rightarrow> new_revision \<Rightarrow> ledger \<Rightarrow> (ledger \<times> file_revision) aster_result" where
  "insert_revision env hid seq pred input lg =
     bind_result (re_best_effort_uuid env ''file revision public id'' (revision_public_id_exists lg)) (\<lambda>pid.
     let r = \<lparr>fr_id = re_revision_id env 0, fr_public_id = pid, fr_history_id = hid, fr_sequence = seq,
              fr_predecessor_revision_id = pred, fr_blob_id = Some (nr_blob_id input),
              fr_logical_size = nr_logical_size input, fr_mime_type = Some (nr_mime_type input),
              fr_etag = (case nr_etag input of Some e \<Rightarrow> e | None \<Rightarrow> re_etag env 0),
              fr_content_sha256 = nr_content_sha256 input, fr_creator_user_id = nr_creator_user_id input,
              fr_creator_display_name = Some (nr_creator_display_name input), fr_comment = nr_comment input,
              fr_reason = reason_as_str (nr_reason input), fr_created_at = nr_created_at input,
              fr_retired_at = None, fr_purged_at = None\<rparr> in
     bind_result (insert_rows revision_constraints [r] (lg_revisions lg)) (\<lambda>rs.
     Inr (lg\<lparr>lg_revisions := rs\<rparr>, r)))"

definition set_current_revision :: "int \<Rightarrow> int \<Rightarrow> ledger \<Rightarrow> ledger" where
  "set_current_revision hid rid lg =
     lg\<lparr>lg_histories := fst (update_where (\<lambda>h. fh_id h = hid) (\<lambda>h. h\<lparr>fh_current_revision_id := Some rid\<rparr>) (lg_histories lg))\<rparr>"

definition snapshot_row :: "int \<Rightarrow> entity_property \<Rightarrow> file_revision_property" where
  "snapshot_row rid p =
     \<lparr>rp_revision_id = rid, rp_namespace = ep_namespace p, rp_name = ep_name p, rp_xml_value = ep_value p\<rparr>"

definition snapshot_user_properties :: "int \<Rightarrow> int \<Rightarrow> ledger \<Rightarrow> ledger aster_result" where
  "snapshot_user_properties file_id rid lg =
     (let ps = find_user_properties [file_id] lg in
      if ps = [] then Inr lg
      else if revision_by_id rid lg = None
      then Inl (internal_error ''new revision disappeared before snapshot'')
      else bind_result (insert_rows snapshot_constraints (map (snapshot_row rid) ps) (lg_snapshots lg)) (\<lambda>ss.
           Inr (lg\<lparr>lg_snapshots := ss\<rparr>)))"

definition initial_input :: "file_model \<Rightarrow> revision_reason \<Rightarrow> new_revision" where
  "initial_input file reason =
     \<lparr>nr_blob_id = fm_blob_id file, nr_logical_size = fm_size file, nr_mime_type = fm_mime_type file,
      nr_content_sha256 = None, nr_creator_user_id = fm_created_by_user_id file,
      nr_creator_display_name = fm_created_by_username file, nr_comment = None, nr_reason = reason,
      nr_created_at = fm_created_at file, nr_etag = None\<rparr>"

definition create_initial :: "ledger_env \<Rightarrow> file_model \<Rightarrow> revision_reason \<Rightarrow> ledger \<Rightarrow> (ledger \<times> file_revision) aster_result" where
  "create_initial env file reason lg =
     bind_result (insert_history env file lg) (\<lambda>(lg1, h).
     bind_result (insert_revision env (fh_id h) 1 None (initial_input file reason) lg1) (\<lambda>(lg2, r).
     bind_result (snapshot_user_properties (fm_id file) (fr_id r) lg2) (\<lambda>lg3.
     Inr (set_current_revision (fh_id h) (fr_id r) lg3, r))))"

section \<open>Creating histories in batches\<close>

definition INITIAL_BATCH_SIZE :: nat where "INITIAL_BATCH_SIZE = 50"

definition batch_history_row :: "ledger_env \<Rightarrow> nat \<Rightarrow> file_model \<Rightarrow> file_revision_history" where
  "batch_history_row env k file =
     \<lparr>fh_id = re_history_id env k, fh_public_id = re_history_uuid env k, fh_file_id = Some (fm_id file),
      fh_current_revision_id = None, fh_next_sequence = 2, fh_deltav_controlled_at = None,
      fh_deltav_root_revision_id = None, fh_created_at = fm_created_at file, fh_retired_at = None\<rparr>"

definition batch_revision_row ::
  "ledger_env \<Rightarrow> revision_reason \<Rightarrow> nat \<Rightarrow> file_model \<Rightarrow> file_revision_history \<Rightarrow> file_revision" where
  "batch_revision_row env reason k file h =
     \<lparr>fr_id = re_revision_id env k, fr_public_id = re_revision_uuid env k, fr_history_id = fh_id h, fr_sequence = 1,
      fr_predecessor_revision_id = None, fr_blob_id = Some (fm_blob_id file), fr_logical_size = fm_size file,
      fr_mime_type = Some (fm_mime_type file), fr_etag = re_etag env k, fr_content_sha256 = None,
      fr_creator_user_id = fm_created_by_user_id file, fr_creator_display_name = Some (fm_created_by_username file),
      fr_comment = None, fr_reason = reason_as_str reason, fr_created_at = fm_created_at file,
      fr_retired_at = None, fr_purged_at = None\<rparr>"

definition history_file :: "file_model list \<Rightarrow> file_revision_history \<Rightarrow> file_model aster_result" where
  "history_file files h =
     bind_result (ok_or (internal_error ''new initial revision history lost its file id'') (fh_file_id h)) (\<lambda>i.
     ok_or (internal_error (''new initial revision history references unexpected file #'' @ int_to_string i))
       (find_key fm_id i files))"

definition history_revision_id :: "file_revision list \<Rightarrow> file_revision_history \<Rightarrow> int aster_result" where
  "history_revision_id rs h =
     bind_result (ok_or (internal_error (''new history #'' @ int_to_string (fh_id h) @ '' has no initial revision''))
       (find_key fr_history_id (fh_id h) rs)) (\<lambda>r. Inr (fr_id r))"

text \<open>One \<open>UPDATE ... CASE\<close> per chunk; the number of rows it touched is checked.\<close>

fun publish_heads :: "file_revision list \<Rightarrow> file_revision_history list list \<Rightarrow> ledger \<Rightarrow> ledger aster_result" where
  "publish_heads rs [] lg = Inr lg"
| "publish_heads rs (chunk # cs) lg =
     bind_result (collect_results (map (history_revision_id rs) chunk)) (\<lambda>heads.
     let (hs, n) = update_where (\<lambda>h. fh_id h \<in> set (map fh_id chunk))
           (\<lambda>h. case map_of (zip (map fh_id chunk) heads) (fh_id h) of
                  Some r \<Rightarrow> h\<lparr>fh_current_revision_id := Some r\<rparr> | None \<Rightarrow> h) (lg_histories lg) in
     if n \<noteq> length chunk then Inl (internal_error ''initial revision batch did not update every history head'')
     else publish_heads rs cs (lg\<lparr>lg_histories := hs\<rparr>))"

fun revision_rows ::
  "ledger_env \<Rightarrow> revision_reason \<Rightarrow> file_model list \<Rightarrow> nat \<Rightarrow> file_revision_history list \<Rightarrow> file_revision list aster_result" where
  "revision_rows env reason files k [] = Inr []"
| "revision_rows env reason files k (h # hs) =
     bind_result (history_file files h) (\<lambda>file.
     bind_result (revision_rows env reason files (Suc k) hs) (\<lambda>rs.
     Inr (batch_revision_row env reason k file h # rs)))"

fun insert_revision_chunks ::
  "ledger_env \<Rightarrow> revision_reason \<Rightarrow> file_model list \<Rightarrow> nat \<Rightarrow> file_revision_history list list \<Rightarrow> file_revision list
   \<Rightarrow> file_revision list aster_result" where
  "insert_revision_chunks env reason files k [] t = Inr t"
| "insert_revision_chunks env reason files k (c # cs) t =
     bind_result (revision_rows env reason files k c) (\<lambda>rows.
     bind_result (insert_rows revision_constraints rows t) (\<lambda>t'.
     insert_revision_chunks env reason files (k + length c) cs t'))"

definition snapshot_models :: "file_revision_history list \<Rightarrow> file_revision list \<Rightarrow> entity_property list
   \<Rightarrow> file_revision_property list aster_result" where
  "snapshot_models hs rs ps =
     bind_result (collect_results (map (\<lambda>h.
         bind_result (ok_or (internal_error ''new initial revision history lost its file id'') (fh_file_id h)) (\<lambda>i.
         bind_result (history_revision_id rs h) (\<lambda>r. Inr (i, r)))) hs)) (\<lambda>by_file.
     collect_results (map (\<lambda>p.
         bind_result (ok_or (internal_error (''initial revision property references unexpected file #''
                             @ int_to_string (ep_entity_id p))) (map_of (rev by_file) (ep_entity_id p))) (\<lambda>r.
         Inr (snapshot_row r p))) ps))"

definition create_initial_many ::
  "ledger_env \<Rightarrow> file_model list \<Rightarrow> revision_reason \<Rightarrow> ledger \<Rightarrow> (ledger \<times> file_revision list) aster_result" where
  "create_initial_many env files reason lg =
     (if files = [] then Inr (lg, [])
      else if \<not> distinct (map fm_id files)
      then Inl (internal_error ''initial revision batch contains duplicate file ids'')
      else
        let rows = map (\<lambda>(k, f). batch_history_row env k f) (enumerate 0 files); file_ids = map fm_id files in
        bind_result (insert_chunks history_constraints (chunks INITIAL_BATCH_SIZE rows) (lg_histories lg)) (\<lambda>ht.
        let hs = concat (map (\<lambda>c. select_where (\<lambda>h. fh_file_id h \<in> Some ` set c) ht) (chunks INITIAL_BATCH_SIZE file_ids)) in
        if length hs \<noteq> length files
        then Inl (internal_error ''initial revision batch could not reload every history'')
        else
        bind_result (insert_revision_chunks env reason files 0 (chunks INITIAL_BATCH_SIZE hs) (lg_revisions lg)) (\<lambda>rt.
        let rs = concat (map (\<lambda>c. select_where (\<lambda>r. fr_history_id r \<in> set c \<and> fr_sequence r = 1) rt)
                   (chunks INITIAL_BATCH_SIZE (map fh_id hs))) in
        if length rs \<noteq> length files
        then Inl (internal_error ''initial revision batch could not reload every revision'')
        else
        let lg1 = lg\<lparr>lg_histories := ht, lg_revisions := rt\<rparr> in
        bind_result (snapshot_models hs rs (find_user_properties file_ids lg1)) (\<lambda>snaps.
        bind_result (insert_chunks snapshot_constraints (chunks INITIAL_BATCH_SIZE snaps) (lg_snapshots lg)) (\<lambda>st.
        bind_result (publish_heads rs (chunks INITIAL_BATCH_SIZE hs) (lg1\<lparr>lg_snapshots := st\<rparr>)) (\<lambda>lg2.
        Inr (lg2, rs)))))))"

section \<open>Appending\<close>

definition append_locked ::
  "ledger_env \<Rightarrow> int \<Rightarrow> file_revision_history \<Rightarrow> new_revision \<Rightarrow> ledger \<Rightarrow> (ledger \<times> file_revision) aster_result" where
  "append_locked env file_id h input lg =
     bind_result (insert_revision env (fh_id h) (fh_next_sequence h) (fh_current_revision_id h) input lg) (\<lambda>(lg1, r).
     bind_result (snapshot_user_properties file_id (fr_id r) lg1) (\<lambda>lg2.
     bind_result (ok_or (internal_error ''file revision sequence exhausted'') (checked_add_i64 (fr_sequence r) 1)) (\<lambda>nxt.
     Inr (lg2\<lparr>lg_histories := fst (update_where (\<lambda>x. fh_id x = fh_id h)
            (\<lambda>x. x\<lparr>fh_current_revision_id := Some (fr_id r), fh_next_sequence := nxt\<rparr>) (lg_histories lg2))\<rparr>, r))))"

definition append_revision ::
  "ledger_env \<Rightarrow> int \<Rightarrow> int option \<Rightarrow> new_revision \<Rightarrow> ledger \<Rightarrow> (ledger \<times> file_revision) revision_append_result" where
  "append_revision env file_id expected input lg =
     bind_result (from_aster_error (lock_history_by_file_id file_id lg)) (\<lambda>h.
     if expected \<noteq> None \<and> fh_current_revision_id h \<noteq> expected then Inl HeadChanged
     else from_aster_error (append_locked env file_id h input lg))"

definition append_for_expected_etag ::
  "ledger_env \<Rightarrow> int \<Rightarrow> string option \<Rightarrow> new_revision \<Rightarrow> ledger \<Rightarrow> (ledger \<times> file_revision) revision_append_result" where
  "append_for_expected_etag env file_id expected input lg =
     bind_result (from_aster_error (lock_history_by_file_id file_id lg)) (\<lambda>h.
     bind_result
       (case expected of
          None \<Rightarrow> Inr ()
        | Some e \<Rightarrow>
            bind_result (from_aster_error (ok_or (no_current file_id) (fh_current_revision_id h))) (\<lambda>c.
            bind_result (from_aster_error (ok_or (dangling_current file_id) (revision_by_id c lg))) (\<lambda>r.
            if to_ascii_lowercase e \<noteq> to_ascii_lowercase (fr_etag r) then Inl EtagMismatch else Inr ())))
       (\<lambda>_. from_aster_error (append_locked env file_id h input lg)))"

section \<open>Version control by WebDAV clients\<close>

definition activate_deltav :: "time \<Rightarrow> int \<Rightarrow> ledger \<Rightarrow> (ledger \<times> file_revision_history) aster_result" where
  "activate_deltav now file_id lg =
     (let lg1 = lg\<lparr>lg_histories := fst (update_where
            (\<lambda>h. fh_file_id h = Some file_id \<and> fh_deltav_controlled_at h = None \<and> fh_current_revision_id h \<noteq> None)
            (\<lambda>h. h\<lparr>fh_deltav_controlled_at := Some now, fh_deltav_root_revision_id := fh_current_revision_id h\<rparr>)
            (lg_histories lg))\<rparr> in
      bind_result (find_history_by_file_id file_id lg1) (\<lambda>h.
      if fh_deltav_controlled_at h = None \<or> fh_deltav_root_revision_id h = None
      then Inl (internal_error (''file #'' @ int_to_string file_id @ '' revision history has no activatable current revision''))
      else Inr (lg1, h)))"

definition deltav_root_sequence :: "file_revision_history \<Rightarrow> ledger \<Rightarrow> int option" where
  "deltav_root_sequence h lg =
     (case fh_deltav_root_revision_id h of
        None \<Rightarrow> None
      | Some root \<Rightarrow> map_option fr_sequence
          (List.find (\<lambda>r. fr_id r = root \<and> fr_history_id r = fh_id h) (lg_revisions lg)))"

record deltav_revision_target =
  dt_file :: file_model
  dt_history :: file_revision_history
  dt_revision :: file_revision

definition find_deltav_revision_by_public_id :: "string \<Rightarrow> ledger \<Rightarrow> deltav_revision_target option aster_result" where
  "find_deltav_revision_by_public_id pid lg =
     (case List.find (\<lambda>r. fr_public_id r = pid \<and> fr_retired_at r = None \<and> fr_purged_at r = None) (lg_revisions lg) of
        None \<Rightarrow> Inr None
      | Some r \<Rightarrow>
          bind_result (ok_or (internal_error (''revision #'' @ int_to_string (fr_id r) @ '' has no history''))
            (find_key fh_id (fr_history_id r) (lg_histories lg))) (\<lambda>h.
          Inr (case deltav_root_sequence h lg of
                 None \<Rightarrow> None
               | Some root \<Rightarrow>
                   if fr_sequence r < root \<or> fr_blob_id r = None then None
                   else case fh_file_id h of
                          None \<Rightarrow> None
                        | Some i \<Rightarrow> map_option (\<lambda>f. \<lparr>dt_file = f, dt_history = h, dt_revision = r\<rparr>)
                                       (find_key fm_id i (lg_files lg)))))"

definition find_deltav_revisions :: "file_revision_history \<Rightarrow> nat \<Rightarrow> ledger \<Rightarrow> file_revision list" where
  "find_deltav_revisions h limit lg =
     (case deltav_root_sequence h lg of
        None \<Rightarrow> []
      | Some root \<Rightarrow> take limit (sort_key fr_sequence
          (select_where (\<lambda>r. fr_history_id r = fh_id h \<and> root \<le> fr_sequence r \<and> fr_retired_at r = None
              \<and> fr_purged_at r = None \<and> fr_blob_id r \<noteq> None) (lg_revisions lg))))"

section \<open>Restoring properties, retiring revisions\<close>

definition restored_property :: "int \<Rightarrow> int \<Rightarrow> file_revision_property \<Rightarrow> entity_property" where
  "restored_property file_id i p =
     \<lparr>ep_id = i, ep_entity_type = ET_File, ep_entity_id = file_id, ep_namespace = rp_namespace p,
      ep_name = rp_name p, ep_value = rp_xml_value p\<rparr>"

definition restore_user_properties :: "ledger_env \<Rightarrow> int \<Rightarrow> int \<Rightarrow> ledger \<Rightarrow> ledger aster_result" where
  "restore_user_properties env file_id rid lg =
     (let t = fst (delete_where (\<lambda>p. of_entity ET_File file_id p \<and> user_namespace_condition p) (lg_properties lg));
          ps = find_properties rid lg
      in if ps = [] then Inr (lg\<lparr>lg_properties := t\<rparr>)
         else bind_result (insert_rows property_constraints
                (enumerated (restored_property file_id) (re_property_id env) ps) t) (\<lambda>t'.
              Inr (lg\<lparr>lg_properties := t'\<rparr>)))"

definition update_revision :: "int \<Rightarrow> (file_revision \<Rightarrow> file_revision) \<Rightarrow> ledger \<Rightarrow> ledger" where
  "update_revision i f lg = lg\<lparr>lg_revisions := fst (update_where (\<lambda>r. fr_id r = i) f (lg_revisions lg))\<rparr>"

definition tombstone :: "time \<Rightarrow> file_revision \<Rightarrow> ledger \<Rightarrow> ledger" where
  "tombstone now r lg =
     (let successor = List.find (\<lambda>x. fr_history_id x = fr_history_id r
              \<and> fr_predecessor_revision_id x = Some (fr_id r) \<and> fr_retired_at x = None) (lg_revisions lg);
          lg1 = (case successor of
                   Some x \<Rightarrow> update_revision (fr_id x)
                     (\<lambda>x. x\<lparr>fr_predecessor_revision_id := fr_predecessor_revision_id r\<rparr>) lg
                 | None \<Rightarrow> lg)
      in update_revision (fr_id r) (\<lambda>x. x\<lparr>fr_blob_id := None, fr_retired_at := Some now, fr_purged_at := Some now\<rparr>) lg1)"

definition retire_histories :: "time \<Rightarrow> int list \<Rightarrow> ledger \<Rightarrow> ledger \<times> (int \<times> int) list" where
  "retire_histories now file_ids lg =
     (if file_ids = [] then (lg, [])
      else
        let ids = map fh_id (select_where (\<lambda>h. fh_file_id h \<in> Some ` set file_ids) (lg_histories lg));
            live = select_where (\<lambda>r. fr_history_id r \<in> set ids \<and> fr_blob_id r \<noteq> None \<and> fr_retired_at r = None) (lg_revisions lg);
            refs = List.map_filter (\<lambda>r. map_option (\<lambda>b. (b, fr_logical_size r)) (fr_blob_id r)) live;
            rs = fst (update_where (\<lambda>r. fr_history_id r \<in> set ids \<and> fr_retired_at r = None)
                   (\<lambda>r. r\<lparr>fr_blob_id := None, fr_retired_at := Some now, fr_purged_at := Some now\<rparr>) (lg_revisions lg));
            hs = fst (update_where (\<lambda>h. fh_id h \<in> set ids)
                   (\<lambda>h. h\<lparr>fh_file_id := None, fh_current_revision_id := None, fh_retired_at := Some now\<rparr>) (lg_histories lg))
        in (lg\<lparr>lg_revisions := rs, lg_histories := hs\<rparr>, refs))"

definition replace_blob_refs :: "int \<Rightarrow> int \<Rightarrow> ledger \<Rightarrow> ledger \<times> nat" where
  "replace_blob_refs old new lg =
     (let (rs, n) = update_where (\<lambda>r. fr_blob_id r = Some old \<and> fr_retired_at r = None)
                      (\<lambda>r. r\<lparr>fr_blob_id := Some new\<rparr>) (lg_revisions lg)
      in (lg\<lparr>lg_revisions := rs\<rparr>, n))"

section \<open>The invariant\<close>

definition of_history :: "int \<Rightarrow> file_revision list \<Rightarrow> file_revision list" where
  "of_history h rs = filter (\<lambda>r. fr_history_id r = h) rs"

definition live_of :: "int \<Rightarrow> file_revision list \<Rightarrow> file_revision list" where
  "live_of h rs = filter (of_live_history h) rs"

text \<open>Every revision's predecessor is the revision before it; the first one has \<open>p\<close>.\<close>

fun linked :: "int option \<Rightarrow> file_revision list \<Rightarrow> bool" where
  "linked p [] = True"
| "linked p (r # rs) = (fr_predecessor_revision_id r = p \<and> linked (Some (fr_id r)) rs)"

definition head_of :: "int option \<Rightarrow> file_revision list \<Rightarrow> int option" where
  "head_of p rs = (if rs = [] then p else Some (fr_id (last rs)))"

text \<open>
  A history: sequence numbers rise and stay below the next one; the live revisions are linked from the
  newest, which is the current one; a history without live revisions is retired and has no file; the
  root of version control is a revision of the history.
\<close>

definition history_ok :: "file_revision list \<Rightarrow> file_revision_history \<Rightarrow> bool" where
  "history_ok rs h =
     (let live = live_of (fh_id h) rs in
      sorted_wrt (<) (map fr_sequence (of_history (fh_id h) rs))
      \<and> (\<forall>r \<in> set (of_history (fh_id h) rs). fr_sequence r < fh_next_sequence h)
      \<and> linked None live \<and> fh_current_revision_id h = head_of None live
      \<and> (fh_file_id h = None \<longleftrightarrow> live = []) \<and> (fh_retired_at h = None \<longleftrightarrow> live \<noteq> [])
      \<and> (fh_deltav_controlled_at h = None \<longleftrightarrow> fh_deltav_root_revision_id h = None)
      \<and> set_option (fh_deltav_root_revision_id h) \<subseteq> fr_id ` set (of_history (fh_id h) rs))"

definition revision_ok :: "file_revision \<Rightarrow> bool" where
  "revision_ok r =
     ((fr_blob_id r = None \<longleftrightarrow> fr_retired_at r \<noteq> None) \<and> (fr_purged_at r = None \<longleftrightarrow> fr_retired_at r = None))"

definition snapshots_ok :: "ledger \<Rightarrow> bool" where
  "snapshots_ok lg =
     (snapshot_constraints (lg_snapshots lg)
      \<and> (\<forall>p \<in> set (lg_snapshots lg). rp_revision_id p \<in> fr_id ` set (lg_revisions lg) \<and> \<not> is_protected_namespace (rp_namespace p)))"

definition ledger_ok :: "ledger \<Rightarrow> bool" where
  "ledger_ok lg =
     (history_constraints (lg_histories lg) \<and> revision_constraints (lg_revisions lg) \<and> snapshots_ok lg
      \<and> property_constraints (lg_properties lg)
      \<and> (\<forall>r \<in> set (lg_revisions lg). fr_history_id r \<in> fh_id ` set (lg_histories lg) \<and> revision_ok r)
      \<and> (\<forall>h \<in> set (lg_histories lg). history_ok (lg_revisions lg) h))"

subsection \<open>Chains\<close>

lemma linked_append: "linked p (xs @ ys) \<longleftrightarrow> linked p xs \<and> linked (head_of p xs) ys"
  by (induction xs arbitrary: p) (auto simp: head_of_def)

lemma head_of_append [simp]: "head_of p (xs @ [r]) = Some (fr_id r)"
  by (simp add: head_of_def)

lemma head_of_Some: "head_of None rs = Some i \<Longrightarrow> rs \<noteq> [] \<and> fr_id (last rs) = i"
  by (auto simp: head_of_def split: if_splits)

lemma linked_pred_in: "linked p xs \<Longrightarrow> z \<in> set xs \<Longrightarrow> fr_predecessor_revision_id z \<in> insert p (Some ` fr_id ` set xs)"
  by (induction p xs rule: linked.induct) auto

text \<open>The successor of a revision is the one behind it in the chain.\<close>

lemma linked_successor:
  assumes "linked p (xs @ r # ys)" "distinct (map fr_id (xs @ r # ys))" "p \<noteq> Some (fr_id r)"
    "z \<in> set (xs @ r # ys)" "fr_predecessor_revision_id z = Some (fr_id r)"
  shows "\<exists>zs. ys = z # zs"
proof -
  have l: "linked p xs" "fr_predecessor_revision_id r = head_of p xs" "linked (Some (fr_id r)) ys"
    using assms(1) by (auto simp: linked_append)
  have "Some (fr_id r) \<notin> insert p (Some ` fr_id ` set xs)" using assms(2,3) by auto
  then have "z \<notin> set xs" using linked_pred_in [OF l(1)] assms(5) by metis
  moreover have "head_of p xs \<in> insert p (Some ` fr_id ` set xs)" by (simp add: head_of_def)
  then have "z \<noteq> r" using l(2) assms(5) \<open>Some (fr_id r) \<notin> insert p (Some ` fr_id ` set xs)\<close> by metis
  ultimately have z: "z \<in> set ys" using assms(4) by auto
  show ?thesis
  proof (cases ys)
    case (Cons y zs)
    have "z \<notin> set zs" if "z \<noteq> y"
    proof
      assume "z \<in> set zs"
      then have "fr_predecessor_revision_id z \<in> insert (Some (fr_id y)) (Some ` fr_id ` set zs)"
        using linked_pred_in [of "Some (fr_id y)" zs z] l(3) Cons by auto
      then show False using assms(2,5) Cons by auto
    qed
    then show ?thesis using z Cons by auto
  qed (use z in auto)
qed

lemma live_of_append [simp]: "live_of h (a @ b) = live_of h a @ live_of h b"
  by (simp add: live_of_def)

lemma of_history_append [simp]: "of_history h (a @ b) = of_history h a @ of_history h b"
  by (simp add: of_history_def)

lemma live_of_single [simp]: "live_of h [r] = (if fr_history_id r = h \<and> fr_retired_at r = None then [r] else [])"
  by (simp add: live_of_def of_live_history_def)

lemma of_history_single [simp]: "of_history h [r] = (if fr_history_id r = h then [r] else [])"
  by (simp add: of_history_def)

lemma live_of_sub: "r \<in> set (live_of h rs) \<longleftrightarrow> r \<in> set rs \<and> fr_history_id r = h \<and> fr_retired_at r = None"
  by (auto simp: live_of_def of_live_history_def)

lemma of_history_in: "r \<in> set (of_history h rs) \<longleftrightarrow> r \<in> set rs \<and> fr_history_id r = h"
  by (auto simp: of_history_def)

lemma live_of_distinct: "unique_key fr_id rs \<Longrightarrow> distinct (map fr_id (live_of h rs))"
  by (simp add: unique_key_def live_of_def distinct_map_filter)

text \<open>Updates that keep identity, history and sequence do not move revisions.\<close>

lemma of_history_map:
  assumes "\<And>r. r \<in> set rs \<Longrightarrow> fr_id (f r) = fr_id r \<and> fr_history_id (f r) = fr_history_id r \<and> fr_sequence (f r) = fr_sequence r"
  shows "map fr_sequence (of_history h (map f rs)) = map fr_sequence (of_history h rs)"
    and "fr_id ` set (of_history h (map f rs)) = fr_id ` set (of_history h rs)"
  using assms by (induction rs) (auto simp: of_history_def image_iff)

lemma live_of_map_other:
  assumes "\<And>r. r \<in> set rs \<Longrightarrow> fr_history_id r = h \<Longrightarrow> f r = r" "\<And>r. r \<in> set rs \<Longrightarrow> fr_history_id (f r) = fr_history_id r"
  shows "live_of h (map f rs) = live_of h rs" "of_history h (map f rs) = of_history h rs"
  using assms by (induction rs) (auto simp: live_of_def of_history_def of_live_history_def)

lemma history_ok_other:
  "history_ok rs h \<Longrightarrow> live_of (fh_id h) rs' = live_of (fh_id h) rs \<Longrightarrow> of_history (fh_id h) rs' = of_history (fh_id h) rs
   \<Longrightarrow> history_ok rs' h"
  by (simp add: history_ok_def)

subsection \<open>What the statements do\<close>

lemma insert_rows_Inr: "insert_rows ok rows t = Inr t' \<longleftrightarrow> t' = t @ rows \<and> ok (t @ rows)"
  by (auto simp: insert_rows_def)

lemma insert_revision_Inr:
  assumes "insert_revision env hid seq pred input lg = Inr (lg', r)"
  shows "lg' = lg\<lparr>lg_revisions := lg_revisions lg @ [r]\<rparr> \<and> revision_constraints (lg_revisions lg @ [r])
    \<and> fr_history_id r = hid \<and> fr_sequence r = seq \<and> fr_predecessor_revision_id r = pred
    \<and> fr_blob_id r = Some (nr_blob_id input) \<and> fr_logical_size r = nr_logical_size input
    \<and> fr_mime_type r = Some (nr_mime_type input) \<and> fr_content_sha256 r = nr_content_sha256 input
    \<and> fr_retired_at r = None \<and> fr_purged_at r = None"
  using assms by (auto simp: insert_revision_def Let_def insert_rows_Inr bind_result_Inr_iff)

lemma snapshot_user_properties_Inr:
  assumes "snapshot_user_properties file_id rid lg = Inr lg'"
  shows "lg' = lg\<lparr>lg_snapshots := lg_snapshots lg @ map (snapshot_row rid) (find_user_properties [file_id] lg)\<rparr>
    \<and> (find_user_properties [file_id] lg \<noteq> [] \<longrightarrow> snapshot_constraints (lg_snapshots lg') \<and> rid \<in> fr_id ` set (lg_revisions lg))"
  using assms
  by (auto simp: snapshot_user_properties_def Let_def insert_rows_Inr bind_result_Inr_iff revision_by_id_def
      find_key_None_iff split: if_splits)

lemma find_user_properties_user: "p \<in> set (find_user_properties ids lg) \<Longrightarrow> \<not> is_protected_namespace (ep_namespace p)"
  by (simp add: find_user_properties_def)

lemma snapshot_keeps:
  assumes "snapshot_user_properties file_id rid lg = Inr lg'" "snapshots_ok lg"
  shows "snapshots_ok lg'"
  using snapshot_user_properties_Inr [OF assms(1)] assms(2)
  by (cases "find_user_properties [file_id] lg = []")
     (auto simp: snapshots_ok_def snapshot_row_def dest: find_user_properties_user)

lemma append_locked_Inr:
  assumes "append_locked env file_id h input lg = Inr (lg', r)"
  shows "\<exists>nxt. nxt = fh_next_sequence h + 1
    \<and> lg' = lg\<lparr>lg_revisions := lg_revisions lg @ [r],
             lg_snapshots := lg_snapshots lg @ map (snapshot_row (fr_id r)) (find_user_properties [file_id] lg),
             lg_histories := map (\<lambda>x. if fh_id x = fh_id h
                 then x\<lparr>fh_current_revision_id := Some (fr_id r), fh_next_sequence := nxt\<rparr> else x) (lg_histories lg)\<rparr>
    \<and> revision_constraints (lg_revisions lg @ [r]) \<and> fr_history_id r = fh_id h \<and> fr_sequence r = fh_next_sequence h
    \<and> fr_predecessor_revision_id r = fh_current_revision_id h \<and> fr_blob_id r = Some (nr_blob_id input)
    \<and> fr_logical_size r = nr_logical_size input \<and> fr_mime_type r = Some (nr_mime_type input)
    \<and> fr_content_sha256 r = nr_content_sha256 input \<and> fr_retired_at r = None \<and> fr_purged_at r = None
    \<and> (snapshots_ok lg \<longrightarrow> snapshots_ok lg')"
proof -
  obtain lg1 lg2 nxt where s: "insert_revision env (fh_id h) (fh_next_sequence h) (fh_current_revision_id h) input lg = Inr (lg1, r)"
      "snapshot_user_properties file_id (fr_id r) lg1 = Inr lg2" "checked_add_i64 (fr_sequence r) 1 = Some nxt"
      "lg' = lg2\<lparr>lg_histories := fst (update_where (\<lambda>x. fh_id x = fh_id h)
            (\<lambda>x. x\<lparr>fh_current_revision_id := Some (fr_id r), fh_next_sequence := nxt\<rparr>) (lg_histories lg2))\<rparr>"
    using assms by (auto simp: append_locked_def bind_result_Inr_iff ok_or_def split: option.splits)
  note i = insert_revision_Inr [OF s(1)] and p = snapshot_user_properties_Inr [OF s(2)]
  have f: "find_user_properties [file_id] lg1 = find_user_properties [file_id] lg"
    using i by (simp add: find_user_properties_def)
  have k: "snapshots_ok lg'" if "snapshots_ok lg"
  proof -
    have "snapshots_ok lg1" using that i by (auto simp: snapshots_ok_def)
    then have "snapshots_ok lg2" by (rule snapshot_keeps [OF s(2)])
    then show ?thesis using s(4) by (simp add: snapshots_ok_def)
  qed
  show ?thesis using i p s(3,4) f k
    by (intro exI [of _ nxt]) (auto simp: update_where_def)
qed

subsection \<open>Appending keeps the invariant\<close>

lemma history_constraints_map:
  assumes "\<And>h. h \<in> set hs \<Longrightarrow> fh_id (f h) = fh_id h \<and> fh_public_id (f h) = fh_public_id h \<and> fh_file_id (f h) \<in> {fh_file_id h, None}"
    "history_constraints hs"
  shows "history_constraints (map f hs)"
proof -
  have "sorted_wrt (\<lambda>h h'. fh_file_id (f h) = None \<or> fh_file_id (f h) \<noteq> fh_file_id (f h')) hs"
  proof (rule sorted_wrt_mono_rel [of hs "\<lambda>h h'. fh_file_id h = None \<or> fh_file_id h \<noteq> fh_file_id h'"])
    fix x y assume "x \<in> set hs" "y \<in> set hs" "fh_file_id x = None \<or> fh_file_id x \<noteq> fh_file_id y"
    then show "fh_file_id (f x) = None \<or> fh_file_id (f x) \<noteq> fh_file_id (f y)"
      using assms(1) [of x] assms(1) [of y] by auto
  qed (use assms(2) in \<open>simp add: history_constraints_def\<close>)
  moreover have "map (fh_id \<circ> f) hs = map fh_id hs" "map (fh_public_id \<circ> f) hs = map fh_public_id hs"
    using assms(1) by auto
  ultimately show ?thesis using assms(2) unfolding history_constraints_def unique_key_def map_map sorted_wrt_map by presburger
qed

lemma ledger_okD:
  assumes "ledger_ok lg"
  shows "history_constraints (lg_histories lg)" "revision_constraints (lg_revisions lg)" "snapshots_ok lg"
    "property_constraints (lg_properties lg)" "unique_key fr_id (lg_revisions lg)" "unique_key fh_id (lg_histories lg)"
    "r \<in> set (lg_revisions lg) \<Longrightarrow> fr_history_id r \<in> fh_id ` set (lg_histories lg)"
    "r \<in> set (lg_revisions lg) \<Longrightarrow> revision_ok r"
    "h \<in> set (lg_histories lg) \<Longrightarrow> history_ok (lg_revisions lg) h"
  using assms by (simp_all add: ledger_ok_def history_constraints_def revision_constraints_def)

lemma history_of_file_SomeD: "history_of_file i lg = Some h \<Longrightarrow> h \<in> set (lg_histories lg) \<and> fh_file_id h = Some i"
  by (auto simp: history_of_file_def dest: find_key_SomeD)

lemma file_histories_unique:
  assumes "history_constraints hs" "h \<in> set hs" "h' \<in> set hs" "fh_file_id h = Some i" "fh_file_id h' = Some i"
  shows "h = h'"
  using assms
proof (induction hs)
  case (Cons x hs)
  have c: "history_constraints hs" "\<forall>y \<in> set hs. fh_file_id x = None \<or> fh_file_id x \<noteq> fh_file_id y"
    using Cons.prems(1) by (auto simp: history_constraints_def unique_key_def)
  consider "h = x \<and> h' = x" | "h \<in> set hs \<and> h' \<in> set hs" | "h = x \<and> h' \<in> set hs" | "h \<in> set hs \<and> h' = x"
    using Cons.prems(2,3) by auto
  then show ?case using Cons.IH [OF c(1)] Cons.prems(4,5) c(2) by cases (metis option.distinct(1))+
qed simp

lemma history_of_file_iff:
  assumes "history_constraints (lg_histories lg)"
  shows "history_of_file i lg = Some h \<longleftrightarrow> h \<in> set (lg_histories lg) \<and> fh_file_id h = Some i"
proof
  assume a: "h \<in> set (lg_histories lg) \<and> fh_file_id h = Some i"
  obtain h' where "history_of_file i lg = Some h'"
    using a by (cases "history_of_file i lg") (force simp: history_of_file_def find_key_None_iff)+
  then show "history_of_file i lg = Some h"
    using a history_of_file_SomeD file_histories_unique [OF assms] by metis
qed (rule history_of_file_SomeD)

lemma ledger_ok_updateI:
  assumes "ledger_ok lg" "lg_histories lg' = map f (lg_histories lg)"
    "\<And>h. h \<in> set (lg_histories lg) \<Longrightarrow> fh_id (f h) = fh_id h \<and> fh_public_id (f h) = fh_public_id h \<and> fh_file_id (f h) \<in> {fh_file_id h, None}"
    "revision_constraints (lg_revisions lg')"
    "\<And>r. r \<in> set (lg_revisions lg') \<Longrightarrow> fr_history_id r \<in> fh_id ` set (lg_histories lg) \<and> revision_ok r"
    "\<And>h. h \<in> set (lg_histories lg) \<Longrightarrow> history_ok (lg_revisions lg') (f h)"
    "snapshots_ok lg'" "property_constraints (lg_properties lg')"
  shows "ledger_ok lg'"
proof -
  have "fh_id ` set (lg_histories lg') = fh_id ` set (lg_histories lg)"
    unfolding assms(2) set_map image_image using assms(3) by (intro image_cong) auto
  moreover have "history_constraints (lg_histories lg')"
    unfolding assms(2) by (rule history_constraints_map [OF assms(3) ledger_okD(1) [OF assms(1)]])
  moreover have "\<forall>h \<in> set (lg_histories lg'). history_ok (lg_revisions lg') h" using assms(6) by (auto simp: assms(2))
  ultimately show ?thesis unfolding ledger_ok_def using assms(4,5,7,8) by (intro conjI ballI) auto
qed

lemma history_ok_append:
  assumes "history_ok rs h" "fr_history_id r = fh_id h" "fr_sequence r = fh_next_sequence h"
    "fr_predecessor_revision_id r = fh_current_revision_id h" "fr_retired_at r = None" "fh_file_id h \<noteq> None"
  shows "history_ok (rs @ [r]) (h\<lparr>fh_current_revision_id := Some (fr_id r), fh_next_sequence := fh_next_sequence h + 1\<rparr>)"
proof -
  let ?seqs = "map fr_sequence (of_history (fh_id h) rs)"
  have ok: "sorted_wrt (<) ?seqs" "\<forall>x \<in> set (of_history (fh_id h) rs). fr_sequence x < fh_next_sequence h"
      "linked None (live_of (fh_id h) rs)" "fh_current_revision_id h = head_of None (live_of (fh_id h) rs)"
      "set_option (fh_deltav_root_revision_id h) \<subseteq> fr_id ` set (of_history (fh_id h) rs)"
      "fh_retired_at h = None" "fh_deltav_controlled_at h = None \<longleftrightarrow> fh_deltav_root_revision_id h = None"
    using assms(1,6) by (auto simp: history_ok_def Let_def)
  have "sorted_wrt (<) (?seqs @ [fr_sequence r])" using ok(1,2) assms(3) by (auto simp: sorted_wrt_append)
  moreover have "\<forall>x \<in> set (of_history (fh_id h) rs). fr_sequence x < fh_next_sequence h + 1" using ok(2) by force
  moreover have "linked None (live_of (fh_id h) rs @ [r])" using ok(3,4) assms(4) by (simp add: linked_append)
  ultimately show ?thesis using ok(5-7) assms by (auto simp: history_ok_def Let_def)
qed

lemma append_locked_keeps:
  assumes "ledger_ok lg" "history_of_file file_id lg = Some h" "append_locked env file_id h input lg = Inr (lg', r)"
  shows "ledger_ok lg'"
proof -
  let ?f = "\<lambda>x. if fh_id x = fh_id h
      then x\<lparr>fh_current_revision_id := Some (fr_id r), fh_next_sequence := fh_next_sequence h + 1\<rparr> else x"
  note e = append_locked_Inr [OF assms(3), simplified] and ok = ledger_okD [OF assms(1)]
  have h: "h \<in> set (lg_histories lg)" "fh_file_id h = Some file_id" using history_of_file_SomeD [OF assms(2)] by auto
  have hs: "lg_histories lg' = map ?f (lg_histories lg)" and rs: "lg_revisions lg' = lg_revisions lg @ [r]"
    using e by simp_all
  have "history_ok (lg_revisions lg') (?f x)" if x: "x \<in> set (lg_histories lg)" for x
  proof (cases "fh_id x = fh_id h")
    case True
    then have "x = h" using unique_key_inj [OF ok(6) x h(1)] by blast
    then show ?thesis using history_ok_append [OF ok(9) [OF h(1)]] e h by (simp add: rs)
  next
    case False
    then show ?thesis using e by (auto intro!: history_ok_other [OF ok(9) [OF x]] simp: rs)
  qed
  moreover have "revision_ok r" using e by (simp add: revision_ok_def)
  moreover have "snapshots_ok lg'" using e ok(3) by blast
  moreover have "property_constraints (lg_properties lg')" using e ok(4) by simp
  ultimately show ?thesis using e ok(7,8) h(1)
    by (intro ledger_ok_updateI [OF assms(1) hs]) (auto simp: rs)
qed

lemma from_aster_error_Inr [simp]: "from_aster_error x = Inr a \<longleftrightarrow> x = Inr a"
  by (auto simp: from_aster_error_def split: sum.splits)

lemma lock_history_Inr [simp]: "lock_history_by_file_id i lg = Inr h \<longleftrightarrow> history_of_file i lg = Some h"
  by (auto simp: lock_history_by_file_id_def split: option.splits)

lemma find_history_Inr [simp]: "find_history_by_file_id i lg = Inr h \<longleftrightarrow> history_of_file i lg = Some h"
  by (auto simp: find_history_by_file_id_def split: option.splits)

lemma append_revision_keeps:
  assumes "ledger_ok lg" "append_revision env file_id expected input lg = Inr (lg', r)"
  shows "ledger_ok lg'"
  using assms append_locked_keeps
  by (auto simp: append_revision_def bind_result_Inr_iff split: if_splits)

lemma append_for_expected_etag_keeps:
  assumes "ledger_ok lg" "append_for_expected_etag env file_id expected input lg = Inr (lg', r)"
  shows "ledger_ok lg'"
  using assms append_locked_keeps
  by (auto simp: append_for_expected_etag_def bind_result_Inr_iff)

subsection \<open>Creating keeps the invariant\<close>

lemma ledger_ok_addI:
  assumes "ledger_ok lg" "lg_histories lg' = lg_histories lg @ hs" "lg_revisions lg' = lg_revisions lg @ rs"
    "history_constraints (lg_histories lg')" "revision_constraints (lg_revisions lg')"
    "\<And>r. r \<in> set rs \<Longrightarrow> fr_history_id r \<in> fh_id ` set hs \<and> revision_ok r"
    "\<And>h. h \<in> set hs \<Longrightarrow> history_ok rs h" "snapshots_ok lg'" "lg_properties lg' = lg_properties lg"
  shows "ledger_ok lg'"
proof -
  note ok = ledger_okD [OF assms(1)]
  have dis: "fh_id h \<notin> fh_id ` set (lg_histories lg)" if "h \<in> set hs" for h
    using assms(2,4) that by (auto simp: history_constraints_def unique_key_def)
  have "history_ok (lg_revisions lg') h" if h: "h \<in> set (lg_histories lg)" for h
  proof -
    have "fr_history_id r \<noteq> fh_id h" if "r \<in> set rs" for r using assms(6) [OF that] dis h by (metis imageE imageI)
    then have "live_of (fh_id h) rs = []" "of_history (fh_id h) rs = []"
      by (auto simp: live_of_def of_live_history_def of_history_def filter_empty_conv)
    then show ?thesis using history_ok_other [OF ok(9) [OF h]] by (simp add: assms(3))
  qed
  moreover have "history_ok (lg_revisions lg') h" if h: "h \<in> set hs" for h
  proof -
    have "fr_history_id r \<noteq> fh_id h" if "r \<in> set (lg_revisions lg)" for r using ok(7) [OF that] dis [OF h] by metis
    then have "live_of (fh_id h) (lg_revisions lg) = []" "of_history (fh_id h) (lg_revisions lg) = []"
      by (auto simp: live_of_def of_live_history_def of_history_def filter_empty_conv)
    then show ?thesis using history_ok_other [OF assms(7) [OF h]] by (simp add: assms(3))
  qed
  ultimately have "\<forall>h \<in> set (lg_histories lg'). history_ok (lg_revisions lg') h" by (auto simp: assms(2))
  moreover have "\<forall>r \<in> set (lg_revisions lg'). fr_history_id r \<in> fh_id ` set (lg_histories lg') \<and> revision_ok r"
    using ok(7,8) assms(6) by (auto simp: assms(2,3) image_Un)
  ultimately show ?thesis unfolding ledger_ok_def using assms(4,5,8) ok(4) by (simp add: assms(9))
qed

lemma insert_history_Inr:
  assumes "insert_history env file lg = Inr (lg', h)"
  shows "lg' = lg\<lparr>lg_histories := lg_histories lg @ [h]\<rparr> \<and> history_constraints (lg_histories lg @ [h])
    \<and> fh_file_id h = Some (fm_id file) \<and> fh_current_revision_id h = None \<and> fh_next_sequence h = 2
    \<and> fh_deltav_controlled_at h = None \<and> fh_deltav_root_revision_id h = None \<and> fh_retired_at h = None"
  using assms by (auto simp: insert_history_def Let_def insert_rows_Inr bind_result_Inr_iff)

lemma create_initial_Inr:
  assumes "create_initial env file reason lg = Inr (lg', r)"
  shows "\<exists>h. lg' = lg\<lparr>lg_histories := lg_histories lg @ [h], lg_revisions := lg_revisions lg @ [r],
        lg_snapshots := lg_snapshots lg @ map (snapshot_row (fr_id r)) (find_user_properties [fm_id file] lg)\<rparr>
    \<and> history_constraints (lg_histories lg') \<and> revision_constraints (lg_revisions lg')
    \<and> (snapshots_ok lg \<longrightarrow> snapshots_ok lg')
    \<and> fh_file_id h = Some (fm_id file) \<and> fh_current_revision_id h = Some (fr_id r) \<and> fh_next_sequence h = 2
    \<and> fh_deltav_controlled_at h = None \<and> fh_deltav_root_revision_id h = None \<and> fh_retired_at h = None
    \<and> fr_history_id r = fh_id h \<and> fr_sequence r = 1 \<and> fr_predecessor_revision_id r = None
    \<and> fr_blob_id r = Some (fm_blob_id file) \<and> fr_logical_size r = fm_size file
    \<and> fr_retired_at r = None \<and> fr_purged_at r = None"
proof -
  obtain lg1 h lg2 lg3 where s: "insert_history env file lg = Inr (lg1, h)"
      "insert_revision env (fh_id h) 1 None (initial_input file reason) lg1 = Inr (lg2, r)"
      "snapshot_user_properties (fm_id file) (fr_id r) lg2 = Inr lg3" "lg' = set_current_revision (fh_id h) (fr_id r) lg3"
    using assms by (auto simp: create_initial_def bind_result_Inr_iff)
  note a = insert_history_Inr [OF s(1)] and b = insert_revision_Inr [OF s(2)] and c = snapshot_user_properties_Inr [OF s(3)]
  let ?h = "h\<lparr>fh_current_revision_id := Some (fr_id r)\<rparr>"
  have f: "find_user_properties [fm_id file] lg2 = find_user_properties [fm_id file] lg"
    using a b by (simp add: find_user_properties_def)
  have fresh: "fh_id x \<noteq> fh_id h" if "x \<in> set (lg_histories lg)" for x
  proof -
    have "fh_id h \<notin> fh_id ` set (lg_histories lg)" using a by (simp add: history_constraints_def unique_key_def)
    then show ?thesis using that by (metis imageI)
  qed
  have up: "map (\<lambda>x. if fh_id x = fh_id h then x\<lparr>fh_current_revision_id := Some (fr_id r)\<rparr> else x) (lg_histories lg) = lg_histories lg"
    using fresh by (intro map_idI) auto
  have k: "snapshots_ok lg'" if "snapshots_ok lg"
  proof -
    have "snapshots_ok lg2" using that a b by (auto simp: snapshots_ok_def)
    then have "snapshots_ok lg3" by (rule snapshot_keeps [OF s(3)])
    then show ?thesis by (simp add: s(4) snapshots_ok_def set_current_revision_def)
  qed
  have hs: "lg_histories lg' = lg_histories lg @ [?h]"
    using a b c up by (simp add: s(4) set_current_revision_def update_where_def)
  have "history_constraints (map (\<lambda>x. if fh_id x = fh_id h then x\<lparr>fh_current_revision_id := Some (fr_id r)\<rparr> else x) (lg_histories lg @ [h]))"
    by (rule history_constraints_map) (use a in auto)
  then have "history_constraints (lg_histories lg')" using up by (simp add: hs)
  then show ?thesis using a b c f hs k
    by (intro exI [of _ ?h]) (auto simp: s(4) set_current_revision_def initial_input_def)
qed

lemma create_initial_keeps:
  assumes "ledger_ok lg" "create_initial env file reason lg = Inr (lg', r)"
  shows "ledger_ok lg'"
proof -
  obtain h where h: "lg_histories lg' = lg_histories lg @ [h]" "lg_revisions lg' = lg_revisions lg @ [r]"
      "history_constraints (lg_histories lg')" "revision_constraints (lg_revisions lg')" "snapshots_ok lg'"
      "fh_file_id h = Some (fm_id file)" "fh_current_revision_id h = Some (fr_id r)" "fh_next_sequence h = 2"
      "fh_deltav_controlled_at h = None" "fh_deltav_root_revision_id h = None" "fh_retired_at h = None"
      "fr_history_id r = fh_id h" "fr_sequence r = 1" "fr_predecessor_revision_id r = None"
      "fr_blob_id r = Some (fm_blob_id file)" "fr_retired_at r = None" "fr_purged_at r = None"
      "lg_properties lg' = lg_properties lg"
    using create_initial_Inr [OF assms(2)] ledger_okD(3) [OF assms(1)] by auto
  show ?thesis
    by (rule ledger_ok_addI [OF assms(1) h(1-4)])
       (use h in \<open>auto simp: revision_ok_def history_ok_def Let_def head_of_def\<close>)
qed

subsection \<open>Retiring keeps the invariant\<close>

lemma find_unique:
  assumes "y \<in> set xs" "P y" "\<And>z. z \<in> set xs \<Longrightarrow> P z \<Longrightarrow> z = y"
  shows "List.find P xs = Some y"
proof (cases "List.find P xs")
  case (Some z)
  then have "z \<in> set xs" "P z" by (auto simp: find_Some_iff)
  then show ?thesis using assms(3) Some by metis
qed (use assms(1,2) in \<open>auto simp: find_None_iff\<close>)

definition retired_row :: "time \<Rightarrow> file_revision \<Rightarrow> file_revision" where
  "retired_row now x = x\<lparr>fr_blob_id := None, fr_retired_at := Some now, fr_purged_at := Some now\<rparr>"

definition cut_row :: "time \<Rightarrow> file_revision \<Rightarrow> file_revision \<Rightarrow> file_revision \<Rightarrow> file_revision" where
  "cut_row now r y x =
     (if fr_id x = fr_id r then retired_row now x
      else if fr_id x = fr_id y then x\<lparr>fr_predecessor_revision_id := fr_predecessor_revision_id r\<rparr> else x)"

lemma retired_row_fields [simp]:
  "fr_id (retired_row now x) = fr_id x" "fr_history_id (retired_row now x) = fr_history_id x"
  "fr_sequence (retired_row now x) = fr_sequence x" "fr_retired_at (retired_row now x) = Some now"
  "fr_public_id (retired_row now x) = fr_public_id x" "fr_blob_id (retired_row now x) = None"
  "revision_ok (retired_row now x)"
  by (simp_all add: retired_row_def revision_ok_def)

lemma cut_row_fields [simp]:
  "fr_id (cut_row now r y x) = fr_id x" "fr_history_id (cut_row now r y x) = fr_history_id x"
  "fr_sequence (cut_row now r y x) = fr_sequence x" "fr_public_id (cut_row now r y x) = fr_public_id x"
  by (simp_all add: cut_row_def)

text \<open>A live revision that is not the current one stands in the chain before another.\<close>

lemma live_chain_split:
  assumes "history_ok rs h" "r \<in> set (live_of (fh_id h) rs)" "fh_current_revision_id h \<noteq> Some (fr_id r)"
  shows "\<exists>xs y zs. live_of (fh_id h) rs = xs @ r # y # zs"
proof -
  obtain xs ys where s: "live_of (fh_id h) rs = xs @ r # ys" using split_list [OF assms(2)] by blast
  have "ys \<noteq> []" using assms(1,3) s by (auto simp: history_ok_def Let_def head_of_def split: if_splits)
  then show ?thesis using s by (cases ys) auto
qed

lemma tombstone_rows:
  assumes "ledger_ok lg" "h \<in> set (lg_histories lg)" "live_of (fh_id h) (lg_revisions lg) = xs @ r # y # zs"
  shows "tombstone now r lg = lg\<lparr>lg_revisions := map (cut_row now r y) (lg_revisions lg)\<rparr>"
proof -
  let ?rs = "lg_revisions lg"
  note ok = ledger_okD [OF assms(1)]
  have l: "linked None (xs @ r # y # zs)" using ok(9) [OF assms(2)] assms(3) by (simp add: history_ok_def Let_def)
  have d: "distinct (map fr_id (xs @ r # y # zs))" using live_of_distinct [OF ok(5), of "fh_id h"] assms(3) by simp
  have r: "r \<in> set (live_of (fh_id h) ?rs)" and y: "y \<in> set (live_of (fh_id h) ?rs)" by (simp_all add: assms(3))
  have find: "List.find (\<lambda>x. fr_history_id x = fr_history_id r \<and> fr_predecessor_revision_id x = Some (fr_id r)
        \<and> fr_retired_at x = None) ?rs = Some y"
  proof (rule find_unique)
    show "y \<in> set ?rs" using y by (simp add: live_of_sub)
    show "fr_history_id y = fr_history_id r \<and> fr_predecessor_revision_id y = Some (fr_id r) \<and> fr_retired_at y = None"
      using r y l by (simp add: live_of_sub linked_append)
    fix z assume "z \<in> set ?rs" and z: "fr_history_id z = fr_history_id r \<and> fr_predecessor_revision_id z = Some (fr_id r) \<and> fr_retired_at z = None"
    then have "z \<in> set (live_of (fh_id h) ?rs)" using r by (simp add: live_of_sub)
    then show "z = y" using linked_successor [OF l d, of z] z assms(3) by auto
  qed
  have "fr_id r \<noteq> fr_id y" using d by simp
  then show ?thesis
    by (auto simp: tombstone_def find update_revision_def update_where_def cut_row_def retired_row_def)
qed

lemma cut_chain:
  assumes "ledger_ok lg" "h \<in> set (lg_histories lg)" "live_of (fh_id h) (lg_revisions lg) = xs @ r # y # zs"
  shows "live_of (fh_id h) (map (cut_row now r y) (lg_revisions lg))
    = xs @ y\<lparr>fr_predecessor_revision_id := fr_predecessor_revision_id r\<rparr> # zs"
proof -
  let ?F = "cut_row now r y" and ?rs = "lg_revisions lg"
  have d: "distinct (map fr_id (xs @ r # y # zs))"
    using live_of_distinct [OF ledger_okD(5) [OF assms(1)], of "fh_id h"] assms(3) by simp
  have "fr_id r \<notin> fr_id ` (set xs \<union> set zs)" "fr_id y \<notin> fr_id ` (set xs \<union> set zs)" using d by (simp_all add: image_Un)
  then have apart: "\<forall>x \<in> set xs \<union> set zs. fr_id x \<noteq> fr_id r \<and> fr_id x \<noteq> fr_id y" by (metis imageI)
  have "live_of (fh_id h) (map ?F ?rs) = map ?F (filter (\<lambda>x. fr_id x \<noteq> fr_id r) (live_of (fh_id h) ?rs))"
  proof -
    have "of_live_history (fh_id h) (?F x) \<longleftrightarrow> of_live_history (fh_id h) x \<and> fr_id x \<noteq> fr_id r" for x
      by (auto simp: of_live_history_def cut_row_def)
    then show ?thesis by (simp add: live_of_def filter_map comp_def conj_commute)
  qed
  also have "filter (\<lambda>x. fr_id x \<noteq> fr_id r) (live_of (fh_id h) ?rs) = xs @ y # zs"
    using apart d by (simp add: assms(3))
  also have "map ?F (xs @ y # zs) = xs @ y\<lparr>fr_predecessor_revision_id := fr_predecessor_revision_id r\<rparr> # zs"
    using apart d by (auto simp: cut_row_def intro!: map_idI)
  finally show ?thesis .
qed

lemma tombstone_keeps:
  assumes "ledger_ok lg" "h \<in> set (lg_histories lg)" "r \<in> set (live_of (fh_id h) (lg_revisions lg))"
    "fh_current_revision_id h \<noteq> Some (fr_id r)"
  shows "ledger_ok (tombstone now r lg)"
proof -
  let ?rs = "lg_revisions lg"
  note ok = ledger_okD [OF assms(1)]
  obtain xs y zs where s: "live_of (fh_id h) ?rs = xs @ r # y # zs"
    using live_chain_split [OF ok(9) [OF assms(2)] assms(3,4)] by blast
  let ?F = "cut_row now r y"
  have t: "tombstone now r lg = lg\<lparr>lg_revisions := map ?F ?rs\<rparr>" by (rule tombstone_rows [OF assms(1,2) s])
  note seqs = of_history_map [of ?rs ?F, simplified]
  have live: "live_of (fh_id h) (map ?F ?rs) = xs @ y\<lparr>fr_predecessor_revision_id := fr_predecessor_revision_id r\<rparr> # zs"
    by (rule cut_chain [OF assms(1,2) s])
  have hh: "fr_history_id r = fh_id h" "fr_history_id y = fh_id h"
    using s live_of_sub [of r "fh_id h" ?rs] live_of_sub [of y "fh_id h" ?rs] by auto
  have own: "history_ok (map ?F ?rs) h"
  proof -
    have a: "history_ok ?rs h" by (rule ok(9) [OF assms(2)])
    have "linked None (xs @ y\<lparr>fr_predecessor_revision_id := fr_predecessor_revision_id r\<rparr> # zs)"
      using a s by (simp add: history_ok_def Let_def linked_append)
    moreover have "\<forall>x \<in> set (of_history (fh_id h) (map ?F ?rs)). fr_sequence x < fh_next_sequence h"
      using a by (auto simp: history_ok_def Let_def of_history_in)
    ultimately show ?thesis using a s by (auto simp: history_ok_def Let_def live seqs head_of_def)
  qed
  have other: "history_ok (map ?F ?rs) x" if x: "x \<in> set (lg_histories lg)" "x \<noteq> h" for x
  proof -
    have ne: "fh_id x \<noteq> fh_id h" using unique_key_inj [OF ok(6) x(1) assms(2)] x(2) by blast
    have "?F z = z" if "z \<in> set ?rs" "fr_history_id z = fh_id x" for z
    proof -
      have "r \<in> set ?rs" "y \<in> set ?rs" using s live_of_sub [of r "fh_id h" ?rs] live_of_sub [of y "fh_id h" ?rs] by auto
      then have "fr_id z \<noteq> fr_id r" "fr_id z \<noteq> fr_id y"
        using unique_key_inj [OF ok(5)] that hh ne by metis+
      then show ?thesis by (simp add: cut_row_def)
    qed
    then show ?thesis by (intro history_ok_other [OF ok(9) [OF x(1)]] live_of_map_other) auto
  qed
  have "revision_constraints (map ?F ?rs)" using ok(2) by (simp add: revision_constraints_def unique_key_def comp_def)
  moreover have "revision_ok (?F x)" if "x \<in> set ?rs" for x
    using ok(8) [OF that] by (simp add: cut_row_def retired_row_def revision_ok_def)
  moreover have "snapshots_ok (tombstone now r lg)" using ok(3) by (simp add: t snapshots_ok_def image_image)
  ultimately show ?thesis using ok(4,7) own other
    by (intro ledger_ok_updateI [OF assms(1), where f = id]) (auto simp: t)
qed

lemma history_ok_rows:
  assumes "history_ok rs h" "\<And>r. r \<in> set rs \<Longrightarrow> fr_id (f r) = fr_id r \<and> fr_history_id (f r) = fr_history_id r
      \<and> fr_sequence (f r) = fr_sequence r"
    "live_of (fh_id h) (map f rs) = map f (live_of (fh_id h) rs)"
    "\<And>r. r \<in> set rs \<Longrightarrow> fr_predecessor_revision_id (f r) = fr_predecessor_revision_id r"
  shows "history_ok (map f rs) h"
proof -
  let ?live = "live_of (fh_id h) rs"
  have sub: "set ?live \<subseteq> set rs" by (auto simp: live_of_sub)
  have "linked p (map f xs) = linked p xs" if "set xs \<subseteq> set rs" for p xs
    using that assms(2,4) by (induction xs arbitrary: p) auto
  moreover have "head_of None (map f ?live) = head_of None ?live"
  proof (cases "?live = []")
    case False
    then have "last ?live \<in> set rs" using sub last_in_set by blast
    then show ?thesis using assms(2) False by (simp add: head_of_def last_map)
  qed (simp add: head_of_def)
  moreover have "\<forall>x \<in> set (of_history (fh_id h) (map f rs)). fr_sequence x < fh_next_sequence h"
    using assms(1,2) by (auto simp: history_ok_def Let_def of_history_in)
  ultimately show ?thesis
    using assms(1) sub by (auto simp: history_ok_def Let_def assms(3) of_history_map [OF assms(2)])
qed

definition retired_history :: "time \<Rightarrow> file_revision_history \<Rightarrow> file_revision_history" where
  "retired_history now h = h\<lparr>fh_file_id := None, fh_current_revision_id := None, fh_retired_at := Some now\<rparr>"

lemma retire_histories_eq:
  assumes "history_constraints (lg_histories lg)" "file_ids \<noteq> []"
  shows "fst (retire_histories now file_ids lg) =
    (let hit = \<lambda>h. fh_file_id h \<in> Some ` set file_ids;
         ids = fh_id ` {h \<in> set (lg_histories lg). hit h}
     in lg\<lparr>lg_revisions := map (\<lambda>r. if fr_history_id r \<in> ids \<and> fr_retired_at r = None then retired_row now r else r) (lg_revisions lg),
           lg_histories := map (\<lambda>h. if fh_id h \<in> ids then retired_history now h else h) (lg_histories lg)\<rparr>)"
  using assms(2)
  by (auto simp: retire_histories_def Let_def select_where_def update_where_def retired_row_def retired_history_def)

lemma retire_histories_keeps:
  assumes "ledger_ok lg"
  shows "ledger_ok (fst (retire_histories now file_ids lg))"
proof (cases "file_ids = []")
  case False
  define ids where "ids = fh_id ` {h \<in> set (lg_histories lg). fh_file_id h \<in> Some ` set file_ids}"
  define F where "F r = (if fr_history_id r \<in> ids \<and> fr_retired_at r = None then retired_row now r else r)" for r
  define G where "G h = (if fh_id h \<in> ids then retired_history now h else h)" for h
  let ?lg = "fst (retire_histories now file_ids lg)"
  note ok = ledger_okD [OF assms]
  have e: "?lg = lg\<lparr>lg_revisions := map F (lg_revisions lg), lg_histories := map G (lg_histories lg)\<rparr>"
    using retire_histories_eq [OF ok(1) False, of now] by (simp add: F_def G_def ids_def Let_def)
  have F [simp]: "fr_id (F r) = fr_id r" "fr_history_id (F r) = fr_history_id r" "fr_sequence (F r) = fr_sequence r"
      "fr_public_id (F r) = fr_public_id r" for r by (simp_all add: F_def)
  have "history_ok (map F (lg_revisions lg)) (G h)" if h: "h \<in> set (lg_histories lg)" for h
  proof (cases "fh_id h \<in> ids")
    case True
    then have live: "live_of (fh_id h) (map F (lg_revisions lg)) = []"
      by (auto simp: live_of_def of_live_history_def filter_empty_conv F_def)
    have "\<forall>x \<in> set (of_history (fh_id h) (map F (lg_revisions lg))). fr_sequence x < fh_next_sequence h"
      using ok(9) [OF h] by (auto simp: history_ok_def Let_def of_history_in)
    then show ?thesis using True ok(9) [OF h] live
      by (auto simp: history_ok_def Let_def G_def retired_history_def head_of_def of_history_map [of _ F])
  next
    case False
    then have "live_of (fh_id h) (map F (lg_revisions lg)) = live_of (fh_id h) (lg_revisions lg)"
      "of_history (fh_id h) (map F (lg_revisions lg)) = of_history (fh_id h) (lg_revisions lg)"
      by (auto intro!: live_of_map_other simp: F_def)
    then show ?thesis using history_ok_other [OF ok(9) [OF h]] False by (simp add: G_def)
  qed
  moreover have "revision_constraints (map F (lg_revisions lg))"
    using ok(2) by (simp add: revision_constraints_def unique_key_def comp_def)
  moreover have "revision_ok (F r)" if "r \<in> set (lg_revisions lg)" for r using ok(8) [OF that] by (simp add: F_def)
  moreover have "snapshots_ok ?lg" using ok(3) by (simp add: e snapshots_ok_def image_image)
  moreover have "fh_id (G h) = fh_id h \<and> fh_public_id (G h) = fh_public_id h \<and> fh_file_id (G h) \<in> {fh_file_id h, None}" for h
    by (simp add: G_def retired_history_def)
  ultimately show ?thesis using ok(4,7)
    by (intro ledger_ok_updateI [OF assms, where f = G]) (auto simp: e)
qed (simp add: retire_histories_def assms)

lemma history_file_unique_ids:
  assumes "history_constraints (lg_histories lg)" "h \<in> set (lg_histories lg)"
  shows "fh_id h \<in> fh_id ` {x \<in> set (lg_histories lg). P x} \<longleftrightarrow> P h"
  using assms unique_key_inj [of fh_id "lg_histories lg" h] by (auto simp: history_constraints_def)

lemma activate_deltav_keeps:
  assumes "ledger_ok lg" "activate_deltav now file_id lg = Inr (lg', h)"
  shows "ledger_ok lg'"
proof -
  let ?G = "\<lambda>h. if fh_file_id h = Some file_id \<and> fh_deltav_controlled_at h = None \<and> fh_current_revision_id h \<noteq> None
      then h\<lparr>fh_deltav_controlled_at := Some now, fh_deltav_root_revision_id := fh_current_revision_id h\<rparr> else h"
  note ok = ledger_okD [OF assms(1)]
  have e: "lg' = lg\<lparr>lg_histories := map ?G (lg_histories lg)\<rparr>"
    using assms(2) by (auto simp: activate_deltav_def Let_def bind_result_Inr_iff update_where_def split: if_splits)
  have "history_ok (lg_revisions lg) (?G x)" if x: "x \<in> set (lg_histories lg)" for x
  proof -
    have "live_of (fh_id x) (lg_revisions lg) \<noteq> [] \<Longrightarrow>
        last (live_of (fh_id x) (lg_revisions lg)) \<in> set (of_history (fh_id x) (lg_revisions lg))"
      using last_in_set [of "live_of (fh_id x) (lg_revisions lg)"] by (simp add: live_of_sub of_history_in)
    then show ?thesis using ok(9) [OF x] by (auto simp: history_ok_def Let_def head_of_def split: if_splits)
  qed
  then show ?thesis using ok
    by (intro ledger_ok_updateI [OF assms(1), where f = ?G]) (auto simp: e snapshots_ok_def)
qed

lemma replace_blob_refs_keeps:
  assumes "ledger_ok lg"
  shows "ledger_ok (fst (replace_blob_refs old new lg))"
proof -
  define F where "F r = (if fr_blob_id r = Some old \<and> fr_retired_at r = None then r\<lparr>fr_blob_id := Some new\<rparr> else r)"
    for r :: file_revision
  note ok = ledger_okD [OF assms]
  have e: "fst (replace_blob_refs old new lg) = lg\<lparr>lg_revisions := map F (lg_revisions lg)\<rparr>"
    by (simp add: replace_blob_refs_def update_where_def F_def)
  have F [simp]: "fr_id (F r) = fr_id r" "fr_history_id (F r) = fr_history_id r" "fr_sequence (F r) = fr_sequence r"
      "fr_public_id (F r) = fr_public_id r" "fr_predecessor_revision_id (F r) = fr_predecessor_revision_id r"
      "of_live_history h (F r) = of_live_history h r" for r h by (simp_all add: F_def of_live_history_def)
  have "history_ok (map F (lg_revisions lg)) h" if h: "h \<in> set (lg_histories lg)" for h
    by (rule history_ok_rows [OF ok(9) [OF h]]) (auto simp: live_of_def filter_map comp_def)
  moreover have "revision_constraints (map F (lg_revisions lg))"
    using ok(2) by (simp add: revision_constraints_def unique_key_def comp_def)
  moreover have "revision_ok (F r)" if "r \<in> set (lg_revisions lg)" for r
    using ok(8) [OF that] by (simp add: revision_ok_def F_def)
  moreover have "snapshots_ok (fst (replace_blob_refs old new lg))"
    using ok(3) by (simp add: e snapshots_ok_def image_image)
  ultimately show ?thesis using ok(4,7)
    by (intro ledger_ok_updateI [OF assms, where f = id]) (auto simp: e)
qed

lemma restore_user_properties_Inr:
  assumes "restore_user_properties env file_id rid lg = Inr lg'"
  shows "lg' = lg\<lparr>lg_properties :=
        filter (\<lambda>p. \<not> (of_entity ET_File file_id p \<and> user_namespace_condition p)) (lg_properties lg)
        @ enumerated (restored_property file_id) (re_property_id env) (find_properties rid lg)\<rparr>
    \<and> (property_constraints (lg_properties lg) \<longrightarrow> property_constraints (lg_properties lg'))"
  using assms
  by (auto simp: restore_user_properties_def Let_def delete_where_def insert_rows_Inr bind_result_Inr_iff enumerated_def
      property_constraints_filter split: if_splits)

lemma restore_user_properties_keeps:
  assumes "ledger_ok lg" "restore_user_properties env file_id rid lg = Inr lg'"
  shows "ledger_ok lg'"
  using restore_user_properties_Inr [OF assms(2)] ledger_okD [OF assms(1)]
  by (intro ledger_ok_updateI [OF assms(1), where f = id]) (auto simp: snapshots_ok_def)

subsection \<open>Creating in batches keeps the invariant\<close>

text \<open>Reading rows back chunk by chunk of their keys gives the rows in order.\<close>

lemma reload_chunks_from:
  assumes "distinct (map key (pre @ rows))" "concat cs = map key rows"
  shows "concat (map (\<lambda>c. filter (\<lambda>x. key x \<in> set c) (pre @ rows)) cs) = rows"
  using assms
proof (induction cs arbitrary: pre rows)
  case (Cons c cs)
  from Cons.prems(2) obtain a b where ab: "rows = a @ b" "map key a = c" "map key b = concat cs"
    by (auto simp: append_eq_map_conv)
  have d: "distinct (map key (pre @ a @ b))" using Cons.prems(1) ab(1) by simp
  have k: "key ` set pre \<inter> key ` set a = {}" "key ` set b \<inter> key ` set a = {}" using d by auto
  have "filter (\<lambda>x. key x \<in> set c) (pre @ rows) = a"
  proof -
    have "filter (\<lambda>x. key x \<in> set c) pre = []" "filter (\<lambda>x. key x \<in> set c) b = []"
      using k by (auto simp: filter_empty_conv ab(2) [symmetric])
    moreover have "filter (\<lambda>x. key x \<in> set c) a = a" by (simp add: ab(2) [symmetric])
    ultimately show ?thesis by (simp add: ab(1))
  qed
  moreover have "concat (map (\<lambda>c. filter (\<lambda>x. key x \<in> set c) ((pre @ a) @ b)) cs) = b"
    by (rule Cons.IH) (use d ab(3) in auto)
  ultimately show ?case by (simp add: ab(1))
qed simp

lemma reload_chunks:
  assumes "distinct (map key rows)" "\<And>x c. x \<in> set old \<Longrightarrow> key x \<notin> key ` set rows"
  shows "concat (map (\<lambda>c. filter (\<lambda>x. key x \<in> set c) (old @ rows)) (chunks n (map key rows))) = rows"
proof -
  have "filter (\<lambda>x. key x \<in> set c) old = []" if "c \<in> set (chunks n (map key rows))" for c
  proof -
    have "set c \<subseteq> key ` set rows" using that chunks_concat [of n "map key rows"] by (metis set_concat Union_upper image_eqI set_map)
    then show ?thesis using assms(2) by (auto simp: filter_empty_conv)
  qed
  then have "concat (map (\<lambda>c. filter (\<lambda>x. key x \<in> set c) (old @ rows)) (chunks n (map key rows)))
      = concat (map (\<lambda>c. filter (\<lambda>x. key x \<in> set c) ([] @ rows)) (chunks n (map key rows)))"
    by (intro arg_cong [where f = concat] map_cong) auto
  also have "\<dots> = rows" by (rule reload_chunks_from) (use assms(1) in auto)
  finally show ?thesis .
qed

lemma revision_rows_append:
  "revision_rows env reason files k (a @ b) = Inr rs \<longleftrightarrow>
   (\<exists>ra rb. revision_rows env reason files k a = Inr ra \<and> revision_rows env reason files (k + length a) b = Inr rb \<and> rs = ra @ rb)"
  by (induction a arbitrary: k rs) (fastforce simp: bind_result_Inr_iff)+

lemma insert_revision_chunks_Inr:
  assumes "insert_revision_chunks env reason files k cs t = Inr t'"
  shows "\<exists>rs. revision_rows env reason files k (concat cs) = Inr rs \<and> t' = t @ rs \<and> (cs \<noteq> [] \<longrightarrow> revision_constraints t')"
  using assms
proof (induction cs arbitrary: k t)
  case (Cons c cs)
  then obtain rows where r: "revision_rows env reason files k c = Inr rows" "revision_constraints (t @ rows)"
      "insert_revision_chunks env reason files (k + length c) cs (t @ rows) = Inr t'"
    by (auto simp: bind_result_Inr_iff insert_rows_Inr)
  obtain rs where "revision_rows env reason files (k + length c) (concat cs) = Inr rs" "t' = (t @ rows) @ rs"
      "cs \<noteq> [] \<longrightarrow> revision_constraints t'"
    using Cons.IH [OF r(3)] by blast
  then show ?case using r(1,2) Cons.prems r(3)
    by (cases "cs = []") (auto simp: revision_rows_append)
qed simp

lemma collect_results_Inr: "collect_results xs = Inr ys \<longleftrightarrow> xs = map Inr ys"
proof (induction xs arbitrary: ys)
  case Nil
  then show ?case by auto
next
  case (Cons x xs)
  then show ?case by (cases ys) (auto simp: bind_result_Inr_iff)
qed

lemma publish_heads_Inr:
  assumes "publish_heads rs cs lg = Inr lg'"
  shows "lg' = lg\<lparr>lg_histories := map (\<lambda>h. if fh_id h \<in> fh_id ` set (concat cs)
        then h\<lparr>fh_current_revision_id := map_option fr_id (find_key fr_history_id (fh_id h) rs)\<rparr> else h) (lg_histories lg)\<rparr>
    \<and> (\<forall>h \<in> set (concat cs). find_key fr_history_id (fh_id h) rs \<noteq> None)"
  using assms
proof (induction cs arbitrary: lg)
  case (Cons c cs)
  let ?g = "\<lambda>i. fr_id (the (find_key fr_history_id i rs))"
  obtain heads where heads: "collect_results (map (history_revision_id rs) c) = Inr heads"
    using Cons.prems by (auto simp: bind_result_Inr_iff)
  have each: "history_revision_id rs h = Inr y \<longleftrightarrow> (\<exists>r. find_key fr_history_id (fh_id h) rs = Some r \<and> y = fr_id r)" for h y
    by (auto simp: history_revision_id_def ok_or_def bind_result_Inr_iff split: option.splits)
  have m: "map (history_revision_id rs) c = map Inr heads" using heads by (simp add: collect_results_Inr)
  have some: "find_key fr_history_id (fh_id h) rs \<noteq> None" if "h \<in> set c" for h
  proof -
    have "history_revision_id rs h \<in> Inr ` set heads" using arg_cong [OF m, of set] that by auto
    then show ?thesis using each by auto
  qed
  have "history_revision_id rs h = Inr (?g (fh_id h))" if "h \<in> set c" for h using some [OF that] each by auto
  then have g: "map (history_revision_id rs) c = map (\<lambda>h. Inr (?g (fh_id h))) c" by (intro map_cong) auto
  from arg_cong [OF trans [OF m [symmetric] g], of "map projr"] have hd: "heads = map ?g (map fh_id c)"
    by (simp add: comp_def)
  let ?F = "\<lambda>h. if fh_id h \<in> fh_id ` set c then h\<lparr>fh_current_revision_id := map_option fr_id (find_key fr_history_id (fh_id h) rs)\<rparr> else h"
  have so: "map_option fr_id (find_key fr_history_id i rs) = Some (?g i)" if i: "i \<in> fh_id ` set c" for i
  proof -
    obtain h where "h \<in> set c" "i = fh_id h" using i by auto
    then show ?thesis using some [of h] by auto
  qed
  have "publish_heads rs cs (lg\<lparr>lg_histories := map ?F (lg_histories lg)\<rparr>) = Inr lg'"
  proof -
    let ?X = "\<lambda>h. if fh_id h \<in> fh_id ` set c then case map_of (zip (map fh_id c) heads) (fh_id h) of
            None \<Rightarrow> h | Some r \<Rightarrow> h\<lparr>fh_current_revision_id := Some r\<rparr> else h"
    have eq: "map ?X (lg_histories lg) = map ?F (lg_histories lg)"
      unfolding hd map_of_zip_map by (intro map_cong refl if_cong) (simp_all add: so)
    have "publish_heads rs cs (lg\<lparr>lg_histories := map ?X (lg_histories lg)\<rparr>) = Inr lg'"
      using Cons.prems heads by (auto simp: update_where_def bind_result_Inr_iff Let_def split: if_splits)
    then show ?thesis unfolding eq .
  qed
  from Cons.IH [OF this] some show ?case by (auto simp: image_Un)
qed (simp add: map_idI)

lemma batch_history_row_fields [simp]:
  "fh_id (batch_history_row env k f) = re_history_id env k" "fh_file_id (batch_history_row env k f) = Some (fm_id f)"
  "fh_current_revision_id (batch_history_row env k f) = None" "fh_next_sequence (batch_history_row env k f) = 2"
  "fh_deltav_controlled_at (batch_history_row env k f) = None" "fh_deltav_root_revision_id (batch_history_row env k f) = None"
  "fh_retired_at (batch_history_row env k f) = None"
  by (simp_all add: batch_history_row_def)

lemma batch_revision_row_fields [simp]:
  "fr_id (batch_revision_row env reason k f h) = re_revision_id env k" "fr_history_id (batch_revision_row env reason k f h) = fh_id h"
  "fr_sequence (batch_revision_row env reason k f h) = 1" "fr_predecessor_revision_id (batch_revision_row env reason k f h) = None"
  "fr_blob_id (batch_revision_row env reason k f h) = Some (fm_blob_id f)" "fr_retired_at (batch_revision_row env reason k f h) = None"
  "fr_purged_at (batch_revision_row env reason k f h) = None" "fr_logical_size (batch_revision_row env reason k f h) = fm_size f"
  by (simp_all add: batch_revision_row_def)

definition batch_histories :: "ledger_env \<Rightarrow> nat \<Rightarrow> file_model list \<Rightarrow> file_revision_history list" where
  "batch_histories env n files = map (\<lambda>(k, f). batch_history_row env k f) (enumerate n files)"

definition batch_revisions :: "ledger_env \<Rightarrow> revision_reason \<Rightarrow> nat \<Rightarrow> file_model list \<Rightarrow> file_revision list" where
  "batch_revisions env reason n files =
     map (\<lambda>(k, f). batch_revision_row env reason k f (batch_history_row env k f)) (enumerate n files)"

lemma batch_file_ids: "map fh_file_id (batch_histories env n files) = map (\<lambda>f. Some (fm_id f)) files"
  by (induction files arbitrary: n) (auto simp: batch_histories_def)

lemma batch_history_ids: "map fr_history_id (batch_revisions env reason n files) = map fh_id (batch_histories env n files)"
  by (induction files arbitrary: n) (auto simp: batch_histories_def batch_revisions_def)

lemma revision_rows_batch:
  assumes "distinct (map fm_id files)" "set fs \<subseteq> set files"
  shows "revision_rows env reason files k (batch_histories env k fs) = Inr (batch_revisions env reason k fs)"
  using assms(2)
proof (induction fs arbitrary: k)
  case (Cons f fs)
  have "find_key fm_id (fm_id f) files = Some f"
    using Cons.prems assms(1) by (simp add: find_key_Some_iff unique_key_def)
  then have "history_file files (batch_history_row env k f) = Inr f" by (simp add: history_file_def ok_or_def)
  then show ?case using Cons by (simp add: batch_histories_def batch_revisions_def)
qed (simp add: batch_histories_def batch_revisions_def)

lemma select_chunks_file_ids:
  "concat (map (\<lambda>c. select_where (\<lambda>h. fh_file_id h \<in> Some ` set c) t) (chunks n (map fm_id files)))
   = concat (map (\<lambda>c. filter (\<lambda>h. fh_file_id h \<in> set c) t) (chunks n (map (\<lambda>f. Some (fm_id f)) files)))"
proof -
  have "chunks_from fuel n (map g xs) = map (map g) (chunks_from fuel n xs)" for fuel and xs :: "int list" and g :: "int \<Rightarrow> int option"
    by (induction fuel n xs rule: chunks_from.induct) (auto simp: take_map drop_map take_Cons drop_Cons split: nat.split)
  then have "chunks n (map (\<lambda>f. Some (fm_id f)) files) = map (map Some) (chunks n (map fm_id files))"
    unfolding chunks_def by (metis (no_types, lifting) length_map list.map_comp comp_def map_eq_conv)
  then show ?thesis by (simp add: select_where_def comp_def)
qed

lemma snapshot_models_Inr:
  assumes "snapshot_models hs rs ps = Inr snaps" "p \<in> set snaps"
  shows "rp_revision_id p \<in> fr_id ` set rs \<and> rp_namespace p \<in> ep_namespace ` set ps"
proof -
  obtain by_file where b: "collect_results (map (\<lambda>h.
         bind_result (ok_or (internal_error ''new initial revision history lost its file id'') (fh_file_id h)) (\<lambda>i.
         bind_result (history_revision_id rs h) (\<lambda>r. Inr (i, r)))) hs) = Inr by_file"
      and c: "map (\<lambda>p. bind_result (ok_or (internal_error (''initial revision property references unexpected file #''
                             @ int_to_string (ep_entity_id p))) (map_of (rev by_file) (ep_entity_id p))) (\<lambda>r.
         Inr (snapshot_row r p))) ps = map Inr snaps"
    using assms(1) by (auto simp: snapshot_models_def bind_result_Inr_iff collect_results_Inr)
  have "snd x \<in> fr_id ` set rs" if "x \<in> set by_file" for x
  proof -
    have "Inr x \<in> set (map (\<lambda>h. bind_result (ok_or (internal_error ''new initial revision history lost its file id'') (fh_file_id h)) (\<lambda>i.
         bind_result (history_revision_id rs h) (\<lambda>r. Inr (i, r)))) hs)"
      using b that by (simp add: collect_results_Inr)
    then show ?thesis
      by (auto simp: bind_result_def history_revision_id_def ok_or_def dest!: find_key_SomeD split: option.splits sum.splits)
  qed
  moreover have "Inr p \<in> set (map (\<lambda>p. bind_result (ok_or (internal_error (''initial revision property references unexpected file #''
                             @ int_to_string (ep_entity_id p))) (map_of (rev by_file) (ep_entity_id p))) (\<lambda>r.
         Inr (snapshot_row r p))) ps)" unfolding c using assms(2) by simp
  then obtain q r where "q \<in> set ps" "map_of (rev by_file) (ep_entity_id q) = Some r" "p = snapshot_row r q"
    by (auto simp: bind_result_def ok_or_def split: option.splits sum.splits)
  moreover from this have "(ep_entity_id q, r) \<in> set by_file" using map_of_SomeD by fastforce
  ultimately show ?thesis by (force simp: snapshot_row_def)
qed

lemma create_initial_many_Inr:
  assumes ok: "ledger_ok lg" and run: "create_initial_many env files reason lg = Inr (lg', rs)" and ne: "files \<noteq> []"
  shows "rs = batch_revisions env reason 0 files
    \<and> lg_histories lg' = lg_histories lg @ map (\<lambda>(k, f). (batch_history_row env k f)\<lparr>fh_current_revision_id := Some (re_revision_id env k)\<rparr>)
        (enumerate 0 files)
    \<and> lg_revisions lg' = lg_revisions lg @ batch_revisions env reason 0 files \<and> lg_properties lg' = lg_properties lg
    \<and> (\<exists>ss. lg_snapshots lg' = lg_snapshots lg @ ss \<and> rp_revision_id ` set ss \<subseteq> fr_id ` set rs)
    \<and> history_constraints (lg_histories lg') \<and> revision_constraints (lg_revisions lg') \<and> snapshots_ok lg'"
proof -
  let ?H = "batch_histories env 0 files" and ?R = "batch_revisions env reason 0 files" and ?n = INITIAL_BATCH_SIZE
  note o = ledger_okD [OF ok]
  have d: "distinct (map fm_id files)" using run ne by (auto simp: create_initial_many_def split: if_splits)
  have Hne: "?H \<noteq> []" using ne by (cases files) (simp_all add: batch_histories_def)
  obtain ht where ht: "insert_chunks history_constraints (chunks ?n ?H) (lg_histories lg) = Inr ht"
    using run ne d by (auto simp: create_initial_many_def batch_histories_def bind_result_Inr_iff Let_def split: if_splits)
  have cne: "chunks ?n ?H \<noteq> []" using Hne by (metis chunks_concat concat.simps(1))
  then have H: "ht = lg_histories lg @ ?H" "history_constraints ht" using insert_chunks_Inr [OF ht] by auto
  have dF: "distinct (map fh_file_id ?H)" using d by (simp add: batch_file_ids distinct_map inj_on_def)
  have Hf: "map (\<lambda>f. Some (fm_id f)) files = map fh_file_id ?H" by (simp add: batch_file_ids)
  have old: "fh_file_id x \<notin> fh_file_id ` set ?H" if "x \<in> set (lg_histories lg)" for x
  proof
    assume "fh_file_id x \<in> fh_file_id ` set ?H"
    then obtain y where "y \<in> set ?H" "fh_file_id x = fh_file_id y" by auto
    moreover have "fh_file_id x = None \<or> fh_file_id x \<noteq> fh_file_id y"
      using H that \<open>y \<in> set ?H\<close> by (auto simp: history_constraints_def sorted_wrt_append)
    moreover have "fh_file_id y \<noteq> None" using \<open>y \<in> set ?H\<close> by (auto simp: batch_histories_def)
    ultimately show False by metis
  qed
  have hs: "concat (map (\<lambda>c. select_where (\<lambda>h. fh_file_id h \<in> Some ` set c) ht) (chunks ?n (map fm_id files))) = ?H"
    unfolding select_chunks_file_ids H(1) Hf by (rule reload_chunks [OF dF old])
  obtain rt where rt: "insert_revision_chunks env reason files 0 (chunks ?n ?H) (lg_revisions lg) = Inr rt"
    using run ne d ht hs by (auto simp: create_initial_many_def batch_histories_def bind_result_Inr_iff Let_def split: if_splits)
  then have R: "rt = lg_revisions lg @ ?R" "revision_constraints rt"
    using insert_revision_chunks_Inr [OF rt] revision_rows_batch [OF d, of files env reason 0] cne by auto
  have dR: "distinct (map fr_history_id ?R)"
    using H by (simp add: batch_history_ids history_constraints_def unique_key_def)
  have oldR: "fr_history_id x \<notin> fr_history_id ` set ?R" if "x \<in> set (lg_revisions lg)" for x
  proof -
    have "fr_history_id ` set ?R = fh_id ` set ?H" using arg_cong [OF batch_history_ids, of set] by simp
    moreover have "fh_id ` set (lg_histories lg) \<inter> fh_id ` set ?H = {}" using H by (auto simp: history_constraints_def unique_key_def)
    ultimately show ?thesis using o(7) [OF that] by auto
  qed
  have one: "\<forall>r \<in> set ?R. fr_sequence r = 1" by (auto simp: batch_revisions_def)
  have sel: "select_where (\<lambda>r. fr_history_id r \<in> set c \<and> fr_sequence r = 1) rt = filter (\<lambda>r. fr_history_id r \<in> set c) rt"
    if "c \<in> set (chunks ?n (map fr_history_id ?R))" for c
  proof -
    have "set c \<subseteq> fr_history_id ` set ?R" using that chunks_concat [of ?n "map fr_history_id ?R"]
      by (metis set_concat Union_upper image_eqI set_map)
    then show ?thesis unfolding select_where_def R(1) using oldR one by (intro filter_cong) auto
  qed
  have selmap: "map (\<lambda>c. select_where (\<lambda>r. fr_history_id r \<in> set c \<and> fr_sequence r = 1) rt) (chunks ?n (map fr_history_id ?R))
      = map (\<lambda>c. filter (\<lambda>r. fr_history_id r \<in> set c) (lg_revisions lg @ ?R)) (chunks ?n (map fr_history_id ?R))"
    using sel R(1) by (intro map_cong) auto
  have "concat (map (\<lambda>c. filter (\<lambda>r. fr_history_id r \<in> set c) (lg_revisions lg @ ?R)) (chunks ?n (map fr_history_id ?R))) = ?R"
    by (rule reload_chunks [OF dR oldR])
  then have rr: "concat (map (\<lambda>c. select_where (\<lambda>r. fr_history_id r \<in> set c \<and> fr_sequence r = 1) rt) (chunks ?n (map fh_id ?H))) = ?R"
    unfolding selmap [unfolded batch_history_ids] batch_history_ids .
  define lg1 where "lg1 = lg\<lparr>lg_histories := ht, lg_revisions := rt\<rparr>"
  obtain snaps st where sn: "snapshot_models ?H ?R (find_user_properties (map fm_id files) lg1) = Inr snaps"
      "insert_chunks snapshot_constraints (chunks ?n snaps) (lg_snapshots lg) = Inr st"
      "publish_heads ?R (chunks ?n ?H) (lg1\<lparr>lg_snapshots := st\<rparr>) = Inr lg'" "rs = ?R"
    using run ne d ht hs rt rr unfolding create_initial_many_def batch_histories_def [symmetric] lg1_def
    by (auto simp: bind_result_Inr_iff Let_def split: if_splits)
  define F where "F h = (if fh_id h \<in> fh_id ` set ?H
      then h\<lparr>fh_current_revision_id := map_option fr_id (find_key fr_history_id (fh_id h) ?R)\<rparr> else h)"
    for h :: file_revision_history
  have l: "lg' = lg1\<lparr>lg_snapshots := st, lg_histories := map F ht\<rparr>"
    using publish_heads_Inr [OF sn(3)] by (simp add: lg1_def F_def)
  have "map F (lg_histories lg) = lg_histories lg"
  proof (rule map_idI)
    fix h assume "h \<in> set (lg_histories lg)"
    moreover have "fh_id ` set (lg_histories lg) \<inter> fh_id ` set ?H = {}" using H by (auto simp: history_constraints_def unique_key_def)
    ultimately show "F h = h" by (auto simp: F_def)
  qed
  moreover have "map F ?H = map (\<lambda>(k, f). (batch_history_row env k f)\<lparr>fh_current_revision_id := Some (re_revision_id env k)\<rparr>) (enumerate 0 files)"
    unfolding batch_histories_def map_map
  proof (rule map_cong [OF refl])
    fix x assume x: "x \<in> set (enumerate 0 files)"
    obtain k f where kf: "x = (k, f)" by (cases x)
    have "find_key fr_history_id (re_history_id env k) ?R = Some (batch_revision_row env reason k f (batch_history_row env k f))"
      using dR x kf by (subst find_key_Some_iff) (auto simp: unique_key_def batch_revisions_def)
    moreover have "re_history_id env k \<in> fh_id ` set ?H" using x kf by (force simp: batch_histories_def)
    ultimately show "(F \<circ> (\<lambda>(k, f). batch_history_row env k f)) x
        = (\<lambda>(k, f). (batch_history_row env k f)\<lparr>fh_current_revision_id := Some (re_revision_id env k)\<rparr>) x"
      by (simp add: kf F_def)
  qed
  moreover have "history_constraints (map F ht)" by (rule history_constraints_map [OF _ H(2)]) (simp add: F_def)
  moreover have "\<exists>ss. lg_snapshots lg' = lg_snapshots lg @ ss \<and> rp_revision_id ` set ss \<subseteq> fr_id ` set rs"
    using insert_chunks_Inr [OF sn(2)] snapshot_models_Inr [OF sn(1)] sn(4)
    by (intro exI [of _ snaps]) (auto simp: l lg1_def)
  moreover have "snapshots_ok lg'"
  proof -
    have "snaps \<noteq> [] \<Longrightarrow> chunks ?n snaps \<noteq> []" by (metis chunks_concat concat.simps(1))
    then have s: "st = lg_snapshots lg @ snaps" "snaps \<noteq> [] \<longrightarrow> snapshot_constraints st"
      using insert_chunks_Inr [OF sn(2)] by auto
    have "snapshot_constraints st" using s o(3) by (cases "snaps = []") (auto simp: snapshots_ok_def)
    moreover have "rp_revision_id p \<in> fr_id ` set ?R \<and> \<not> is_protected_namespace (rp_namespace p)" if "p \<in> set snaps" for p
      using snapshot_models_Inr [OF sn(1) that] find_user_properties_user by fastforce
    ultimately show ?thesis using o(3) by (auto simp: snapshots_ok_def l s(1) lg1_def R(1) image_Un)
  qed
  ultimately show ?thesis using sn(4) R(2) by (simp add: l lg1_def H(1) R(1))
qed

lemma filter_key_single: "distinct (map g xs) \<Longrightarrow> x \<in> set xs \<Longrightarrow> filter (\<lambda>y. g y = g x) xs = [x]"
  by (induction xs) (auto simp: filter_empty_conv image_iff)

lemma create_initial_many_keeps:
  assumes "ledger_ok lg" "create_initial_many env files reason lg = Inr (lg', rs)"
  shows "ledger_ok lg'"
proof (cases "files = []")
  case False
  let ?H = "map (\<lambda>(k, f). (batch_history_row env k f)\<lparr>fh_current_revision_id := Some (re_revision_id env k)\<rparr>) (enumerate 0 files)"
  let ?R = "batch_revisions env reason 0 files"
  have e: "lg_histories lg' = lg_histories lg @ ?H" "lg_revisions lg' = lg_revisions lg @ ?R"
      "lg_properties lg' = lg_properties lg"
      "history_constraints (lg_histories lg')" "revision_constraints (lg_revisions lg')" "snapshots_ok lg'"
    using create_initial_many_Inr [OF assms False] by auto
  have ids: "map fh_id ?H = map (\<lambda>x. re_history_id env (fst x)) (enumerate 0 files)"
    by (auto simp: comp_def case_prod_beta)
  have d: "distinct (map (\<lambda>x. re_history_id env (fst x)) (enumerate 0 files))"
    using e(1,4) unfolding history_constraints_def unique_key_def by (simp flip: ids)
  have at: "live_of (re_history_id env k) ?R = [r] \<and> of_history (re_history_id env k) ?R = [r]"
    if "(k, f) \<in> set (enumerate 0 files)" "r = batch_revision_row env reason k f (batch_history_row env k f)" for k f r
    using filter_key_single [OF d that(1)] that(2)
    by (simp add: live_of_def of_history_def of_live_history_def batch_revisions_def filter_map comp_def case_prod_beta)
  show ?thesis
  proof (rule ledger_ok_addI [OF assms(1) e(1,2,4,5)])
    fix r assume "r \<in> set ?R"
    then obtain k f where "(k, f) \<in> set (enumerate 0 files)" "r = batch_revision_row env reason k f (batch_history_row env k f)"
      by (auto simp: batch_revisions_def)
    then show "fr_history_id r \<in> fh_id ` set ?H \<and> revision_ok r" by (force simp: revision_ok_def)
  next
    fix h assume "h \<in> set ?H"
    then obtain k f where "(k, f) \<in> set (enumerate 0 files)" "h = (batch_history_row env k f)\<lparr>fh_current_revision_id := Some (re_revision_id env k)\<rparr>"
      by auto
    then show "history_ok ?R h" using at [of k f] by (simp add: history_ok_def Let_def head_of_def)
  qed (use e in auto)
qed (use assms in \<open>simp add: create_initial_many_def\<close>)

end
