(* ===== verification/Revision_Chains.thy ===== *)
theory Revision_Chains
  imports Revision_Ledger "HOL-Library.Multiset"
begin

text \<open>
  What the ledger promises its clients: the statements of \<open>Revision_Ledger\<close> in any order (\<open>ledger_step\<close>),
  the chain of a file's revisions in every reachable ledger and what the queries return for it, the
  immutability of revisions, optimistic appends, and the round trip of a file's properties through a
  revision.
\<close>

section \<open>The ledger as a transition system\<close>

inductive ledger_step :: "ledger \<Rightarrow> ledger \<Rightarrow> bool" where
  initial: "create_initial env file reason lg = Inr (lg', r) \<Longrightarrow> ledger_step lg lg'"
| initial_many: "create_initial_many env files reason lg = Inr (lg', rs) \<Longrightarrow> ledger_step lg lg'"
| appended: "append_revision env file_id expected input lg = Inr (lg', r) \<Longrightarrow> ledger_step lg lg'"
| appended_etag: "append_for_expected_etag env file_id etag input lg = Inr (lg', r) \<Longrightarrow> ledger_step lg lg'"
| activated: "activate_deltav now file_id lg = Inr (lg', h) \<Longrightarrow> ledger_step lg lg'"
| restored: "restore_user_properties env file_id rid lg = Inr lg' \<Longrightarrow> ledger_step lg lg'"
| tombstoned: "h \<in> set (lg_histories lg) \<Longrightarrow> r \<in> set (live_of (fh_id h) (lg_revisions lg))
    \<Longrightarrow> fh_current_revision_id h \<noteq> Some (fr_id r) \<Longrightarrow> ledger_step lg (tombstone now r lg)"
| retired: "ledger_step lg (fst (retire_histories now file_ids lg))"
| moved: "ledger_step lg (fst (replace_blob_refs old new lg))"
| properties: "property_constraints t \<Longrightarrow> ledger_step lg (lg\<lparr>lg_properties := t\<rparr>)"
| files: "ledger_step lg (lg\<lparr>lg_files := fs\<rparr>)"

lemma ledger_step_keeps:
  assumes "ledger_ok lg" "ledger_step lg lg'"
  shows "ledger_ok lg'"
  using assms(2,1)
proof cases
  case (properties t)
  then show ?thesis using assms(1) by (simp add: ledger_ok_def snapshots_ok_def)
next
  case (files fs)
  then show ?thesis using assms(1) by (simp add: ledger_ok_def snapshots_ok_def)
qed (auto intro: create_initial_keeps create_initial_many_keeps append_revision_keeps append_for_expected_etag_keeps
      activate_deltav_keeps restore_user_properties_keeps tombstone_keeps retire_histories_keeps replace_blob_refs_keeps)

section \<open>Revisions are immutable\<close>

definition same_revision :: "file_revision \<Rightarrow> file_revision \<Rightarrow> bool" where
  "same_revision r r' =
     (fr_id r' = fr_id r \<and> fr_public_id r' = fr_public_id r \<and> fr_history_id r' = fr_history_id r
      \<and> fr_sequence r' = fr_sequence r \<and> fr_logical_size r' = fr_logical_size r \<and> fr_mime_type r' = fr_mime_type r
      \<and> fr_etag r' = fr_etag r \<and> fr_content_sha256 r' = fr_content_sha256 r
      \<and> fr_creator_user_id r' = fr_creator_user_id r \<and> fr_creator_display_name r' = fr_creator_display_name r
      \<and> fr_comment r' = fr_comment r \<and> fr_reason r' = fr_reason r \<and> fr_created_at r' = fr_created_at r
      \<and> (fr_retired_at r \<noteq> None \<longrightarrow> fr_retired_at r' = fr_retired_at r \<and> fr_purged_at r' = fr_purged_at r
           \<and> fr_blob_id r' = fr_blob_id r))"

lemma same_revision_refl [simp]: "same_revision r r"
  by (simp add: same_revision_def)

lemma same_revision_trans: "same_revision r s \<Longrightarrow> same_revision s t \<Longrightarrow> same_revision r t"
  unfolding same_revision_def by metis

definition ledger_le :: "ledger \<Rightarrow> ledger \<Rightarrow> bool" where
  "ledger_le lg lg' =
     ((\<exists>f new. lg_revisions lg' = map f (lg_revisions lg) @ new \<and> (\<forall>r \<in> set (lg_revisions lg). same_revision r (f r)))
      \<and> (\<exists>new. lg_snapshots lg' = lg_snapshots lg @ new
           \<and> rp_revision_id ` set new \<inter> fr_id ` set (lg_revisions lg) = {})
      \<and> (\<exists>g new. lg_histories lg' = map g (lg_histories lg) @ new
           \<and> (\<forall>h \<in> set (lg_histories lg). fh_id (g h) = fh_id h \<and> fh_public_id (g h) = fh_public_id h
                \<and> (fh_deltav_controlled_at h \<noteq> None \<longrightarrow> fh_deltav_controlled_at (g h) = fh_deltav_controlled_at h
                     \<and> fh_deltav_root_revision_id (g h) = fh_deltav_root_revision_id h))))"

lemma ledger_leI:
  assumes "lg_revisions lg' = map f (lg_revisions lg) @ rs" "\<And>r. r \<in> set (lg_revisions lg) \<Longrightarrow> same_revision r (f r)"
    "lg_snapshots lg' = lg_snapshots lg @ ss" "rp_revision_id ` set ss \<inter> fr_id ` set (lg_revisions lg) = {}"
    "lg_histories lg' = map g (lg_histories lg) @ hs"
    "\<And>h. h \<in> set (lg_histories lg) \<Longrightarrow> fh_id (g h) = fh_id h \<and> fh_public_id (g h) = fh_public_id h
      \<and> (fh_deltav_controlled_at h \<noteq> None \<longrightarrow> fh_deltav_controlled_at (g h) = fh_deltav_controlled_at h
           \<and> fh_deltav_root_revision_id (g h) = fh_deltav_root_revision_id h)"
  shows "ledger_le lg lg'"
  unfolding ledger_le_def using assms by metis

lemma ledger_leE:
  assumes "ledger_le lg lg'"
  obtains f g rs ss hs where "lg_revisions lg' = map f (lg_revisions lg) @ rs" "\<forall>r \<in> set (lg_revisions lg). same_revision r (f r)"
    "lg_snapshots lg' = lg_snapshots lg @ ss" "rp_revision_id ` set ss \<inter> fr_id ` set (lg_revisions lg) = {}"
    "lg_histories lg' = map g (lg_histories lg) @ hs"
    "\<forall>h \<in> set (lg_histories lg). fh_id (g h) = fh_id h \<and> fh_public_id (g h) = fh_public_id h
      \<and> (fh_deltav_controlled_at h \<noteq> None \<longrightarrow> fh_deltav_controlled_at (g h) = fh_deltav_controlled_at h
           \<and> fh_deltav_root_revision_id (g h) = fh_deltav_root_revision_id h)"
  using assms unfolding ledger_le_def by (elim conjE exE) (rule that)

lemma ledger_le_refl: "ledger_le lg lg"
  by (rule ledger_leI [where f = id and g = id and rs = "[]" and ss = "[]" and hs = "[]"]) auto

lemma ledger_le_trans:
  assumes "ledger_le a b" "ledger_le b c"
  shows "ledger_le a c"
proof -
  obtain f g rs ss hs where 1: "lg_revisions b = map f (lg_revisions a) @ rs" "\<forall>r \<in> set (lg_revisions a). same_revision r (f r)"
      "lg_snapshots b = lg_snapshots a @ ss \<and> rp_revision_id ` set ss \<inter> fr_id ` set (lg_revisions a) = {}" "lg_histories b = map g (lg_histories a) @ hs"
      "\<forall>h \<in> set (lg_histories a). fh_id (g h) = fh_id h \<and> fh_public_id (g h) = fh_public_id h
        \<and> (fh_deltav_controlled_at h \<noteq> None \<longrightarrow> fh_deltav_controlled_at (g h) = fh_deltav_controlled_at h
             \<and> fh_deltav_root_revision_id (g h) = fh_deltav_root_revision_id h)"
    using assms(1) unfolding ledger_le_def by blast
  obtain f' g' rs' ss' hs' where 2: "lg_revisions c = map f' (lg_revisions b) @ rs'" "\<forall>r \<in> set (lg_revisions b). same_revision r (f' r)"
      "lg_snapshots c = lg_snapshots b @ ss' \<and> rp_revision_id ` set ss' \<inter> fr_id ` set (lg_revisions b) = {}" "lg_histories c = map g' (lg_histories b) @ hs'"
      "\<forall>h \<in> set (lg_histories b). fh_id (g' h) = fh_id h \<and> fh_public_id (g' h) = fh_public_id h
        \<and> (fh_deltav_controlled_at h \<noteq> None \<longrightarrow> fh_deltav_controlled_at (g' h) = fh_deltav_controlled_at h
             \<and> fh_deltav_root_revision_id (g' h) = fh_deltav_root_revision_id h)"
    using assms(2) unfolding ledger_le_def by blast
  show ?thesis
  proof (rule ledger_leI [where f = "f' \<circ> f" and g = "g' \<circ> g" and rs = "map f' rs @ rs'" and ss = "ss @ ss'" and hs = "map g' hs @ hs'"])
    fix r assume "r \<in> set (lg_revisions a)"
    then show "same_revision r ((f' \<circ> f) r)" using 1(1,2) 2(2) same_revision_trans by (auto intro: same_revision_trans)
  next
    fix h assume h: "h \<in> set (lg_histories a)"
    then have "g h \<in> set (lg_histories b)" using 1(4) by simp
    then show "fh_id ((g' \<circ> g) h) = fh_id h \<and> fh_public_id ((g' \<circ> g) h) = fh_public_id h
        \<and> (fh_deltav_controlled_at h \<noteq> None \<longrightarrow> fh_deltav_controlled_at ((g' \<circ> g) h) = fh_deltav_controlled_at h
             \<and> fh_deltav_root_revision_id ((g' \<circ> g) h) = fh_deltav_root_revision_id h)"
      using 1(5) 2(5) h by (metis comp_apply)
  next
    have "fr_id ` set (lg_revisions a) \<subseteq> fr_id ` set (lg_revisions b)"
      using 1(1,2) by (force simp: same_revision_def image_Un image_image)
    then show "rp_revision_id ` set (ss @ ss') \<inter> fr_id ` set (lg_revisions a) = {}"
      using conjunct2 [OF 1(3)] conjunct2 [OF 2(3)] unfolding set_append image_Un by blast
  qed (use 1 2 in auto)
qed

lemma fresh_revision: "revision_constraints (rs @ new) \<Longrightarrow> fr_id ` set new \<inter> fr_id ` set rs = {}"
  by (auto simp: revision_constraints_def unique_key_def)

lemma snapshot_rows_fresh: "i \<notin> A \<Longrightarrow> rp_revision_id ` set (map (snapshot_row i) ps) \<inter> A = {}"
  by (auto simp: snapshot_row_def)

lemma create_initial_le:
  assumes "create_initial env file reason lg = Inr (lg', r)"
  shows "ledger_le lg lg'"
proof -
  let ?ss = "map (snapshot_row (fr_id r)) (find_user_properties [fm_id file] lg)"
  obtain h where h: "lg' = lg\<lparr>lg_histories := lg_histories lg @ [h], lg_revisions := lg_revisions lg @ [r], lg_snapshots := lg_snapshots lg @ ?ss\<rparr>"
      "revision_constraints (lg_revisions lg @ [r])"
    using create_initial_Inr [OF assms] by fastforce
  have "fr_id r \<notin> fr_id ` set (lg_revisions lg)" using fresh_revision [OF h(2)] by simp
  then have "rp_revision_id ` set ?ss \<inter> fr_id ` set (lg_revisions lg) = {}" by (rule snapshot_rows_fresh)
  then show ?thesis using h(1) by (intro ledger_leI [where f = id and g = id and rs = "[r]" and ss = ?ss and hs = "[h]"]) auto
qed

lemma create_initial_many_le:
  assumes "ledger_ok lg" "create_initial_many env files reason lg = Inr (lg', rs)"
  shows "ledger_le lg lg'"
proof (cases "files = []")
  case False
  obtain ss hs where e: "lg_histories lg' = lg_histories lg @ hs" "lg_revisions lg' = lg_revisions lg @ rs"
      "lg_snapshots lg' = lg_snapshots lg @ ss" "rp_revision_id ` set ss \<subseteq> fr_id ` set rs" "revision_constraints (lg_revisions lg @ rs)"
    using create_initial_many_Inr [OF assms False] by auto
  have "rp_revision_id ` set ss \<inter> fr_id ` set (lg_revisions lg) = {}" using fresh_revision [OF e(5)] e(4) by blast
  then show ?thesis using e(1-3) by (intro ledger_leI [where f = id and g = id and rs = rs and ss = ss and hs = hs]) auto
qed (use assms ledger_le_refl in \<open>simp add: create_initial_many_def\<close>)

lemma append_locked_le:
  assumes "append_locked env file_id h input lg = Inr (lg', r)"
  shows "ledger_le lg lg'"
proof -
  let ?g = "\<lambda>x. if fh_id x = fh_id h
      then x\<lparr>fh_current_revision_id := Some (fr_id r), fh_next_sequence := fh_next_sequence h + 1\<rparr> else x"
  let ?ss = "map (snapshot_row (fr_id r)) (find_user_properties [file_id] lg)"
  have e: "lg' = lg\<lparr>lg_revisions := lg_revisions lg @ [r], lg_snapshots := lg_snapshots lg @ ?ss,
      lg_histories := map ?g (lg_histories lg)\<rparr>" "revision_constraints (lg_revisions lg @ [r])"
    using append_locked_Inr [OF assms] by auto
  have "fr_id r \<notin> fr_id ` set (lg_revisions lg)" using fresh_revision [OF e(2)] by simp
  then have "rp_revision_id ` set ?ss \<inter> fr_id ` set (lg_revisions lg) = {}" by (rule snapshot_rows_fresh)
  then show ?thesis using e(1) by (intro ledger_leI [where f = id and g = ?g and rs = "[r]" and ss = ?ss and hs = "[]"]) auto
qed

lemma tombstone_le:
  assumes "ledger_ok lg" "h \<in> set (lg_histories lg)" "r \<in> set (live_of (fh_id h) (lg_revisions lg))"
    "fh_current_revision_id h \<noteq> Some (fr_id r)"
  shows "ledger_le lg (tombstone now r lg)"
proof -
  obtain xs y zs where s: "live_of (fh_id h) (lg_revisions lg) = xs @ r # y # zs"
    using live_chain_split [OF ledger_okD(9) [OF assms(1,2)] assms(3,4)] by blast
  have "same_revision x (cut_row now r y x)" if x: "x \<in> set (lg_revisions lg)" for x
  proof -
    have r: "r \<in> set (lg_revisions lg)" using assms(3) by (simp add: live_of_sub)
    have "x = r \<or> fr_id x \<noteq> fr_id r" using unique_key_inj [OF ledger_okD(5) [OF assms(1)] x r] by blast
    moreover have "fr_retired_at r = None" using assms(3) by (simp add: live_of_sub)
    ultimately show ?thesis by (elim disjE) (simp_all add: same_revision_def cut_row_def retired_row_def)
  qed
  then show ?thesis
    by (intro ledger_leI [where f = "cut_row now r y" and g = id and rs = "[]" and ss = "[]" and hs = "[]"])
       (simp_all add: tombstone_rows [OF assms(1,2) s])
qed

lemma retire_histories_le:
  assumes "ledger_ok lg"
  shows "ledger_le lg (fst (retire_histories now file_ids lg))"
proof (cases "file_ids = []")
  case False
  let ?ids = "fh_id ` {h \<in> set (lg_histories lg). fh_file_id h \<in> Some ` set file_ids}"
  show ?thesis
    unfolding retire_histories_eq [OF ledger_okD(1) [OF assms] False] Let_def
    by (intro ledger_leI [where f = "\<lambda>r. if fr_history_id r \<in> ?ids \<and> fr_retired_at r = None then retired_row now r else r"
          and g = "\<lambda>h. if fh_id h \<in> ?ids then retired_history now h else h" and rs = "[]" and ss = "[]" and hs = "[]"])
       (auto simp: same_revision_def retired_row_def retired_history_def)
qed (simp add: retire_histories_def ledger_le_refl)

lemma replace_blob_refs_le: "ledger_le lg (fst (replace_blob_refs old new lg))"
  by (intro ledger_leI [where f = "\<lambda>r. if fr_blob_id r = Some old \<and> fr_retired_at r = None then r\<lparr>fr_blob_id := Some new\<rparr> else r"
        and g = id and rs = "[]" and ss = "[]" and hs = "[]"])
     (auto simp: replace_blob_refs_def update_where_def same_revision_def)

lemma activate_deltav_le:
  assumes "activate_deltav now file_id lg = Inr (lg', h)"
  shows "ledger_le lg lg'"
  using assms
  by (intro ledger_leI [where f = id and rs = "[]" and ss = "[]" and hs = "[]" and
        g = "\<lambda>h. if fh_file_id h = Some file_id \<and> fh_deltav_controlled_at h = None \<and> fh_current_revision_id h \<noteq> None
               then h\<lparr>fh_deltav_controlled_at := Some now, fh_deltav_root_revision_id := fh_current_revision_id h\<rparr> else h"])
     (auto simp: activate_deltav_def Let_def bind_result_Inr_iff update_where_def split: if_splits)

lemma unchanged_rows_le:
  "lg_revisions lg' = lg_revisions lg \<Longrightarrow> lg_snapshots lg' = lg_snapshots lg \<Longrightarrow> lg_histories lg' = lg_histories lg \<Longrightarrow> ledger_le lg lg'"
  by (rule ledger_leI [where f = id and g = id and rs = "[]" and ss = "[]" and hs = "[]"]) auto

lemma ledger_step_le:
  assumes "ledger_ok lg" "ledger_step lg lg'"
  shows "ledger_le lg lg'"
  using assms(2)
proof cases
  case (restored env file_id rid)
  show ?thesis by (rule unchanged_rows_le) (use restore_user_properties_Inr [OF restored] in auto)
next
  case (appended env file_id expected input r)
  then show ?thesis using append_locked_le by (auto simp: append_revision_def bind_result_Inr_iff split: if_splits)
next
  case (appended_etag env file_id etag input r)
  then show ?thesis using append_locked_le by (auto simp: append_for_expected_etag_def bind_result_Inr_iff)
qed (auto intro: create_initial_le create_initial_many_le [OF assms(1)] tombstone_le [OF assms(1)]
      retire_histories_le [OF assms(1)] replace_blob_refs_le activate_deltav_le unchanged_rows_le)

interpretation revisions: ordered_steps ledger_step ledger_ok ledger_le
  by unfold_locales (auto intro: ledger_step_keeps ledger_step_le ledger_le_refl dest: ledger_le_trans)

section \<open>A file's chain and what the queries see of it\<close>

lemma live_sequences:
  assumes "history_ok rs h"
  shows "sorted_wrt (<) (map fr_sequence (live_of (fh_id h) rs))"
proof -
  have "live_of (fh_id h) rs = filter (\<lambda>r. fr_retired_at r = None) (of_history (fh_id h) rs)"
    by (auto simp: live_of_def of_history_def of_live_history_def conj_commute intro!: filter_cong)
  then show ?thesis using assms by (simp add: history_ok_def Let_def sorted_wrt_map sorted_wrt_filter)
qed

lemma strict_sorted_sorted: "sorted_wrt (<) (map f xs) \<Longrightarrow> sorted (map f xs) \<and> inj_on f (set xs)"
  for f :: "'a \<Rightarrow> 'k::linorder"
  by (metis distinct_map strict_sorted_iff)

lemma sort_key_rev:
  fixes f :: "'a \<Rightarrow> int"
  assumes "sorted_wrt (<) (map f xs)"
  shows "sort_key (\<lambda>x. - f x) xs = rev xs"
proof (rule sort_key_inj_key_eq)
  show "inj_on (\<lambda>x. - f x) (set xs)" using strict_sorted_sorted [OF assms] by (auto simp: inj_on_def)
  have "sorted_wrt (\<lambda>x y. f y < f x) (rev xs)" using assms by (simp add: sorted_wrt_map sorted_wrt_rev)
  then show "sorted (map (\<lambda>x. - f x) (rev xs))" by (auto simp: sorted_map elim: sorted_wrt_mono_rel [rotated])
qed simp

lemma min_by_key_sorted:
  assumes "sorted_wrt (<) (map f xs)"
  shows "min_by_key f xs = (if xs = [] then None else Some (hd xs))"
proof (cases xs)
  case (Cons x ys)
  have "fold (\<lambda>y best. if f y < f best then y else best) zs x = x" if "\<forall>z \<in> set zs. f x < f z" for zs
    using that by (induction zs) auto
  then show ?thesis using assms by (auto simp: min_by_key_def Cons)
qed simp

lemma chain_queries:
  assumes ok: "ledger_ok lg" and h: "history_of_file i lg = Some h"
  defines "live \<equiv> live_of (fh_id h) (lg_revisions lg)"
  shows "live \<noteq> [] \<and> linked None live \<and> sorted_wrt (<) (map fr_sequence live)"
    and "fh_current_revision_id h = Some (fr_id (last live))"
    and "find_current_by_file_id i lg = Inr (last live)"
    and "find_by_file_id i lg = Inr (rev live)"
    and "count_by_file_id i lg = Inr (length live)"
    and "find_oldest_non_current i lg = Inr (if length live = 1 then None else Some (hd live))"
proof -
  note o = ledger_okD [OF ok]
  have hh: "h \<in> set (lg_histories lg)" "fh_file_id h = Some i" using history_of_file_SomeD [OF h] by auto
  have ok': "history_ok (lg_revisions lg) h" by (rule o(9) [OF hh(1)])
  show l: "live \<noteq> [] \<and> linked None live \<and> sorted_wrt (<) (map fr_sequence live)"
    using ok' hh(2) live_sequences [OF ok'] by (simp add: history_ok_def Let_def live_def)
  show c: "fh_current_revision_id h = Some (fr_id (last live))"
    using ok' l by (simp add: history_ok_def Let_def live_def head_of_def)
  have la: "last live \<in> set (lg_revisions lg)" "fr_history_id (last live) = fh_id h" "fr_retired_at (last live) = None"
    using last_in_set [of live] l by (auto simp: live_def live_of_sub)
  have "find_key fr_id (fr_id (last live)) (lg_revisions lg) = Some (last live)"
    using la(1) by (simp add: find_key_Some_iff [OF o(5)])
  then show "find_current_by_file_id i lg = Inr (last live)"
    using h c la by (simp add: find_current_by_file_id_def find_history_by_file_id_def ok_or_def revision_by_id_def)
  show "find_by_file_id i lg = Inr (rev live)"
    using h l sort_key_rev [of fr_sequence live]
    by (simp add: find_by_file_id_def find_history_by_file_id_def select_where_def live_def live_of_def)
  show "count_by_file_id i lg = Inr (length live)"
    using h by (simp add: count_by_file_id_def find_history_by_file_id_def count_where_def live_def live_of_def)
  have d: "distinct (map fr_id live)" unfolding live_def by (rule live_of_distinct [OF o(5)])
  obtain xs x where s: "live = xs @ [x]" using l by (metis append_butlast_last_id)
  have "fr_id x \<notin> fr_id ` set xs" using d s by simp
  then have "filter (\<lambda>r. fr_id r \<noteq> fr_id x) xs = xs" by (metis (mono_tags, lifting) filter_True imageI)
  then have "filter (\<lambda>r. fr_id r \<noteq> fr_id (last live)) live = xs" by (simp add: s)
  then have f: "select_where (\<lambda>r. of_live_history (fh_id h) r \<and> fr_id r \<noteq> fr_id (last live)) (lg_revisions lg) = xs"
    by (simp add: select_where_def live_def live_of_def conj_commute)
  have "sorted_wrt (<) (map fr_sequence xs)" using l s by (simp add: sorted_wrt_append)
  then show "find_oldest_non_current i lg = Inr (if length live = 1 then None else Some (hd live))"
    using h f [unfolded s] by (auto simp: find_oldest_non_current_def find_history_by_file_id_def c min_by_key_sorted s)
qed

text \<open>
  (C7) The history of a file is a chain. Whatever statements the ledger has executed, a file's revisions that
  are not retired form one chain: each has the one before it as its predecessor, the sequence numbers rise,
  and every one still has its content. The queries see exactly this chain: the current revision is its last
  one and is found without error, the version list is the chain from the newest on, the count is its
  length, and the oldest revision that may be removed is its first one unless it is the only one.
\<close>

theorem file_history_is_a_chain:
  assumes "ledger_step\<^sup>*\<^sup>* lg lg'" "ledger_ok lg" "history_of_file i lg' = Some h"
  shows "let live = live_of (fh_id h) (lg_revisions lg') in
    live \<noteq> [] \<and> linked None live \<and> sorted_wrt (<) (map fr_sequence live)
    \<and> (\<forall>r \<in> set live. fr_blob_id r \<noteq> None)
    \<and> find_current_by_file_id i lg' = Inr (last live)
    \<and> find_by_file_id i lg' = Inr (rev live)
    \<and> count_by_file_id i lg' = Inr (length live)
    \<and> find_oldest_non_current i lg' = Inr (if length live = 1 then None else Some (hd live))"
proof -
  have ok: "ledger_ok lg'" by (rule revisions.reach_inv [OF assms(1,2)])
  have "fr_blob_id r \<noteq> None" if "r \<in> set (live_of (fh_id h) (lg_revisions lg'))" for r
    using ledger_okD(8) [OF ok, of r] that by (simp add: live_of_sub revision_ok_def)
  then show ?thesis using chain_queries [OF ok assms(3)] by (simp add: Let_def)
qed


section \<open>Appending is optimistic\<close>

lemma append_revision_Inr:
  assumes "append_revision env i expected input lg = Inr (lg', r)"
  obtains h where "history_of_file i lg = Some h" "expected = None \<or> expected = fh_current_revision_id h"
    "append_locked env i h input lg = Inr (lg', r)"
  using assms by (auto simp: append_revision_def bind_result_Inr_iff split: if_splits)

lemma find_map_same:
  "(\<And>x. x \<in> set xs \<Longrightarrow> P (f x) = P x \<and> (P x \<longrightarrow> f x = x)) \<Longrightarrow> List.find P (map f xs) = List.find P xs"
  by (induction xs) auto

lemma append_locked_history:
  assumes "ledger_ok lg" "history_of_file i lg = Some h" "append_locked env i h input lg = Inr (lg', r)"
  shows "history_of_file i lg' = Some (h\<lparr>fh_current_revision_id := Some (fr_id r), fh_next_sequence := fh_next_sequence h + 1\<rparr>)"
    and "j \<noteq> i \<Longrightarrow> history_of_file j lg' = history_of_file j lg"
proof -
  let ?f = "\<lambda>x. if fh_id x = fh_id h
      then x\<lparr>fh_current_revision_id := Some (fr_id r), fh_next_sequence := fh_next_sequence h + 1\<rparr> else x"
  note ok = ledger_okD [OF assms(1)] and hh = history_of_file_SomeD [OF assms(2)]
  have hs: "lg_histories lg' = map ?f (lg_histories lg)" using append_locked_Inr [OF assms(3)] by simp
  have c: "history_constraints (lg_histories lg')" by (rule ledger_okD(1) [OF append_locked_keeps [OF assms]])
  have "?f h \<in> set (lg_histories lg')" using hh unfolding hs set_map by (intro imageI) simp
  then show "history_of_file i lg' = Some (h\<lparr>fh_current_revision_id := Some (fr_id r), fh_next_sequence := fh_next_sequence h + 1\<rparr>)"
    unfolding history_of_file_iff [OF c] using hh by simp
  assume j: "j \<noteq> i"
  have "x = h" if "x \<in> set (lg_histories lg)" "fh_id x = fh_id h" for x
    using unique_key_inj [OF ok(6) that(1) conjunct1 [OF hh] that(2)] .
  then have "fh_file_id x \<noteq> Some j" if "x \<in> set (lg_histories lg)" "fh_id x = fh_id h" for x
    using that hh j by (metis option.inject)
  then show "history_of_file j lg' = history_of_file j lg"
    unfolding history_of_file_def find_key_def hs by (intro find_map_same) auto
qed

text \<open>
  (C37) No update is lost. An append that names the revision it was based on succeeds only if that revision
  is still the current one. The new revision then is the current one at the end of the chain, the chain in
  front of it and the histories of other files are unchanged, and any second append based on the same
  revision, as well as one based on the tag of the replaced revision, is refused, unless the new revision
  carries that very tag.
\<close>

theorem appends_lose_no_update:
  assumes "ledger_ok lg" "append_revision env i expected input lg = Inr (lg', r)"
  shows "\<exists>old. find_current_by_file_id i lg = Inr old \<and> (expected = None \<or> expected = Some (fr_id old))
    \<and> find_current_by_file_id i lg' = Inr r
    \<and> find_by_file_id i lg' = map_sum id (\<lambda>rs. r # rs) (find_by_file_id i lg)
    \<and> fr_predecessor_revision_id r = Some (fr_id old)
    \<and> fr_blob_id r = Some (nr_blob_id input) \<and> fr_logical_size r = nr_logical_size input
    \<and> (\<forall>j. j \<noteq> i \<longrightarrow> history_of_file j lg' = history_of_file j lg)
    \<and> append_revision env' i (Some (fr_id old)) input' lg' = Inl HeadChanged
    \<and> (to_ascii_lowercase (fr_etag old) \<noteq> to_ascii_lowercase (fr_etag r)
        \<longrightarrow> append_for_expected_etag env' i (Some (fr_etag old)) input' lg' = Inl EtagMismatch)"
proof -
  obtain h where h: "history_of_file i lg = Some h" "expected = None \<or> expected = fh_current_revision_id h"
      "append_locked env i h input lg = Inr (lg', r)" by (rule append_revision_Inr [OF assms(2)])
  let ?live = "live_of (fh_id h) (lg_revisions lg)"
  let ?h = "h\<lparr>fh_current_revision_id := Some (fr_id r), fh_next_sequence := fh_next_sequence h + 1\<rparr>"
  note q = chain_queries [OF assms(1) h(1)] and e = append_locked_Inr [OF h(3)]
  have ok': "ledger_ok lg'" by (rule append_locked_keeps [OF assms(1) h(1,3)])
  have h': "history_of_file i lg' = Some ?h" by (rule append_locked_history(1) [OF assms(1) h(1,3)])
  have live': "live_of (fh_id ?h) (lg_revisions lg') = ?live @ [r]" using e by auto
  note q' = chain_queries [OF ok' h', unfolded live']
  have "last ?live \<in> set (lg_revisions lg)" using q(1) last_in_set [of ?live] by (auto simp: live_of_sub)
  moreover have "fr_id r \<notin> fr_id ` set (lg_revisions lg)" using e fresh_revision [of "lg_revisions lg" "[r]"] by auto
  ultimately have fresh: "fr_id (last ?live) \<noteq> fr_id r" by (metis imageI)
  have "revision_by_id (fr_id r) lg' = Some r"
    unfolding revision_by_id_def find_key_Some_iff [OF ledger_okD(5) [OF ok']] using e by auto
  then have etag: "append_for_expected_etag env' i (Some (fr_etag (last ?live))) input' lg' = Inl EtagMismatch"
    if "to_ascii_lowercase (fr_etag (last ?live)) \<noteq> to_ascii_lowercase (fr_etag r)"
    using that h' by (simp add: append_for_expected_etag_def lock_history_by_file_id_def ok_or_def from_aster_error_def)
  have "append_revision env' i (Some (fr_id (last ?live))) input' lg' = Inl HeadChanged"
    using h' fresh by (simp add: append_revision_def lock_history_by_file_id_def from_aster_error_def)
  then show ?thesis using q q' e h(2) etag append_locked_history(2) [OF assms(1) h(1,3)] by auto
qed

section \<open>Properties survive a revision\<close>

lemma filter_key_none: "k \<notin> g ` set xs \<Longrightarrow> filter (\<lambda>x. g x = k) xs = []"
  by (auto simp: filter_empty_conv)

lemma enumerated_from:
  assumes "\<And>k x. g (row k x) = f x"
  shows "map g (map (\<lambda>(k, n). row (ids k) n) (enumerate m xs)) = map f xs"
  using assms by (induction xs arbitrary: m) auto

lemma enumerated_ids_from:
  assumes "\<And>k x. g (row k x) = k"
  shows "map g (map (\<lambda>(k, n). row (ids k) n) (enumerate m xs)) = map ids [m..<m + length xs]"
proof -
  have "map g (map (\<lambda>(k, n). row (ids k) n) (enumerate m xs)) = map ids (map fst (enumerate m xs))"
    unfolding map_map by (rule map_cong) (auto simp: assms)
  then show ?thesis by simp
qed

lemma enumerated_values: "(\<And>k x. g (row k x) = f x) \<Longrightarrow> map g (enumerated row ids xs) = map f xs"
  unfolding enumerated_def by (rule enumerated_from)

lemma enumerated_bex:
  assumes "\<And>k x. P (row k x) = Q x"
  shows "(\<exists>p \<in> set (enumerated row ids xs). P p) \<longleftrightarrow> (\<exists>x \<in> set xs. Q x)"
proof -
  have "True \<in> set (map P (enumerated row ids xs)) \<longleftrightarrow> True \<in> set (map Q xs)"
    using enumerated_values [of P row Q ids xs, OF assms] by simp
  then show ?thesis by (auto simp: image_iff)
qed

lemma property_value_iff:
  assumes "property_constraints t"
  shows "property_value ty i ns name t = Some v \<longleftrightarrow> (\<exists>p \<in> set t. property_key p = (ty, i, ns, name) \<and> ep_value p = v)"
  using assms unfolding property_value_def property_by_key_eq property_constraints_def
  by (auto simp: find_key_Some_iff)

lemma property_value_eqI:
  assumes "property_constraints t" "property_constraints t'"
    "\<And>v. (\<exists>p \<in> set t. property_key p = (ty, i, ns, name) \<and> ep_value p = v)
        \<longleftrightarrow> (\<exists>p \<in> set t'. property_key p = (ty, i, ns, name) \<and> ep_value p = v)"
  shows "property_value ty i ns name t = property_value ty i ns name t'"
proof -
  have "property_value ty i ns name t = Some v \<longleftrightarrow> property_value ty i ns name t' = Some v" for v
    using assms(3) [of v] unfolding property_value_iff [OF assms(1)] property_value_iff [OF assms(2)] .
  then show ?thesis by (metis not_Some_eq)
qed

lemma find_user_properties_set:
  "set (find_user_properties [i] lg) = {p \<in> set (lg_properties lg). of_entity ET_File i p \<and> \<not> is_protected_namespace (ep_namespace p)}"
  by (auto simp: find_user_properties_def find_by_entities_def Let_def chunks_def ENTITY_PROPERTY_BATCH_CHUNK_SIZE_def
      select_where_def of_entity_def)

lemma reach_snapshot:
  assumes "ledger_step\<^sup>*\<^sup>* lg lg'" "ledger_ok lg" "r \<in> set (lg_revisions lg)"
  shows "find_properties (fr_id r) lg' = find_properties (fr_id r) lg"
proof -
  obtain ss where e: "lg_snapshots lg' = lg_snapshots lg @ ss" "rp_revision_id ` set ss \<inter> fr_id ` set (lg_revisions lg) = {}"
    by (rule ledger_leE [OF revisions.reach_le [OF assms(1,2)]])
  then have "fr_id r \<notin> rp_revision_id ` set ss" using assms(3) by blast
  then have "filter (\<lambda>p. rp_revision_id p = fr_id r) ss = []" by (rule filter_key_none)
  then show ?thesis by (simp add: find_properties_def select_where_def e(1))
qed

lemma append_snapshot:
  assumes "ledger_ok lg" "append_locked env i h input lg = Inr (lg', r)"
  shows "set (find_properties (fr_id r) lg') = snapshot_row (fr_id r) ` set (find_user_properties [i] lg)"
proof -
  let ?ss = "map (snapshot_row (fr_id r)) (find_user_properties [i] lg)"
  have e: "lg_snapshots lg' = lg_snapshots lg @ ?ss" "revision_constraints (lg_revisions lg @ [r])"
    using append_locked_Inr [OF assms(2)] by auto
  have "fr_id r \<notin> fr_id ` set (lg_revisions lg)" using fresh_revision [OF e(2)] by simp
  then have "fr_id r \<notin> rp_revision_id ` set (lg_snapshots lg)"
    using ledger_okD(3) [OF assms(1)] by (auto simp: snapshots_ok_def)
  then have "filter (\<lambda>p. rp_revision_id p = fr_id r) (lg_snapshots lg) = []" by (rule filter_key_none)
  moreover have "filter (\<lambda>p. rp_revision_id p = fr_id r) ?ss = ?ss" by (simp add: snapshot_row_def)
  ultimately show ?thesis by (simp add: find_properties_def select_where_def e(1))
qed

text \<open>Restoring always succeeds when the database numbers new rows freshly.\<close>

lemma restore_user_properties_succeeds:
  assumes ok: "ledger_ok lg" and ids: "inj (re_property_id env)" "range (re_property_id env) \<inter> ep_id ` set (lg_properties lg) = {}"
  shows "\<exists>lg'. restore_user_properties env i rid lg = Inr lg'"
proof -
  let ?t = "filter (\<lambda>p. \<not> (of_entity ET_File i p \<and> user_namespace_condition p)) (lg_properties lg)"
  let ?ps = "find_properties rid lg" and ?new = "enumerated (restored_property i) (re_property_id env) (find_properties rid lg)"
  have pc: "property_constraints ?t" using ledger_okD(4) [OF ok] by (rule property_constraints_filter)
  have ids_new: "map ep_id ?new = map (re_property_id env) [0..<0 + length ?ps]"
    unfolding enumerated_def by (rule enumerated_ids_from) (simp add: restored_property_def)
  have keys_new: "map property_key ?new = map (\<lambda>p. (ET_File, i, rp_namespace p, rp_name p)) ?ps"
    by (rule enumerated_values) (simp add: restored_property_def property_key_def)
  have sub: "set ?ps \<subseteq> {p \<in> set (lg_snapshots lg). rp_revision_id p = rid}" by (auto simp: find_properties_def select_where_def)
  have "distinct (map (\<lambda>p. (rp_revision_id p, rp_namespace p, rp_name p)) (filter (\<lambda>p. rp_revision_id p = rid) (lg_snapshots lg)))"
    using ledger_okD(3) [OF ok] by (simp add: snapshots_ok_def snapshot_constraints_def unique_key_def distinct_map_filter)
  then have "distinct (map (\<lambda>p. (rp_revision_id p, rp_namespace p, rp_name p)) ?ps)"
    by (simp add: find_properties_def select_where_def distinct_map)
  then have "distinct (map (\<lambda>p. (ET_File, i, rp_namespace p, rp_name p)) ?ps)"
    using sub by (auto simp: distinct_map inj_on_def)
  then have dk: "distinct (map property_key ?new)" unfolding keys_new .
  have di: "distinct (map ep_id ?new)" unfolding ids_new using ids(1) by (simp add: distinct_map inj_on_def)
  have "ep_id ` set ?new \<subseteq> range (re_property_id env)" using arg_cong [OF ids_new, of set] by auto
  then have di2: "ep_id ` set ?t \<inter> ep_id ` set ?new = {}" using ids(2) by auto
  have "\<not> is_protected_namespace (rp_namespace p)" if "p \<in> set ?ps" for p
    using sub that ledger_okD(3) [OF ok] by (auto simp: snapshots_ok_def)
  then have "property_key ` set ?new \<subseteq> {(ET_File, i, ns, name) |ns name. \<not> is_protected_namespace ns}"
    using arg_cong [OF keys_new, of set] by auto
  moreover have "property_key ` set ?t \<inter> {(ET_File, i, ns, name) |ns name. \<not> is_protected_namespace ns} = {}"
    by (auto simp: property_key_def of_entity_def user_namespace_condition_iff)
  ultimately have dk2: "property_key ` set ?t \<inter> property_key ` set ?new = {}" by blast
  have "property_constraints (?t @ ?new)" using pc dk di dk2 di2 by (simp add: property_constraints_def unique_key_def)
  then show ?thesis by (auto simp: restore_user_properties_def Let_def delete_where_def insert_rows_def)
qed

text \<open>
  (C38) A file's own properties come back from a revision. Whatever happens between the append of a revision
  and a later restore from it, restoring succeeds (given row ids the database has not used) and gives every
  property of the file in the user's namespaces the value it had when the revision was appended (absent
  ones are absent again); the program's own properties and those of other entities keep the values they
  had before the restore.
\<close>

theorem properties_roundtrip_through_revision:
  assumes "ledger_ok lg" "append_revision env i expected input lg = Inr (lg1, r)" "ledger_step\<^sup>*\<^sup>* lg1 lg2"
    "inj (re_property_id env')" "range (re_property_id env') \<inter> ep_id ` set (lg_properties lg2) = {}"
  shows "\<exists>lg3. restore_user_properties env' i (fr_id r) lg2 = Inr lg3
    \<and> (\<forall>ty j ns name. property_value ty j ns name (lg_properties lg3) =
         (if ty = ET_File \<and> j = i \<and> \<not> is_protected_namespace ns
          then property_value ty j ns name (lg_properties lg) else property_value ty j ns name (lg_properties lg2)))"
proof -
  obtain h where h: "history_of_file i lg = Some h" "append_locked env i h input lg = Inr (lg1, r)"
    by (rule append_revision_Inr [OF assms(2)])
  have ok1: "ledger_ok lg1" by (rule append_locked_keeps [OF assms(1) h])
  have ok2: "ledger_ok lg2" by (rule revisions.reach_inv [OF assms(3) ok1])
  have "r \<in> set (lg_revisions lg1)" using append_locked_Inr [OF h(2)] by auto
  then have ps: "set (find_properties (fr_id r) lg2) = snapshot_row (fr_id r) ` {p \<in> set (lg_properties lg).
      of_entity ET_File i p \<and> \<not> is_protected_namespace (ep_namespace p)}"
    using reach_snapshot [OF assms(3) ok1] append_snapshot [OF assms(1) h(2)] find_user_properties_set by simp
  obtain lg3 where lg3: "restore_user_properties env' i (fr_id r) lg2 = Inr lg3"
    using restore_user_properties_succeeds [OF ok2 assms(4,5)] by blast
  let ?new = "enumerated (restored_property i) (re_property_id env') (find_properties (fr_id r) lg2)"
  have t3: "lg_properties lg3 = filter (\<lambda>p. \<not> (of_entity ET_File i p \<and> user_namespace_condition p)) (lg_properties lg2) @ ?new"
    using restore_user_properties_Inr [OF lg3] by simp
  have pc: "property_constraints (lg_properties lg3)"
    using ledger_okD(4) [OF restore_user_properties_keeps [OF ok2 lg3]] .
  have new: "(\<exists>p \<in> set ?new. property_key p = (ty, j, ns, name) \<and> ep_value p = v) \<longleftrightarrow>
      ty = ET_File \<and> j = i \<and> (\<exists>q \<in> set (find_properties (fr_id r) lg2). rp_namespace q = ns \<and> rp_name q = name \<and> rp_xml_value q = v)"
    for ty j ns name v
    by (subst enumerated_bex [where Q = "\<lambda>q. ty = ET_File \<and> j = i \<and> rp_namespace q = ns \<and> rp_name q = name \<and> rp_xml_value q = v"])
       (auto simp: restored_property_def property_key_def)
  have "property_value ty j ns name (lg_properties lg3) = (if ty = ET_File \<and> j = i \<and> \<not> is_protected_namespace ns
          then property_value ty j ns name (lg_properties lg) else property_value ty j ns name (lg_properties lg2))"
    for ty j ns name
  proof (cases "ty = ET_File \<and> j = i \<and> \<not> is_protected_namespace ns")
    case True
    have "property_value ty j ns name (lg_properties lg3) = property_value ty j ns name (lg_properties lg)"
      by (rule property_value_eqI [OF pc ledger_okD(4) [OF assms(1)]])
         (use True new in \<open>auto simp: t3 bex_Un ps user_namespace_condition_iff of_entity_def property_key_def snapshot_row_def\<close>)
    then show ?thesis using True by simp
  next
    case False
    have "property_value ty j ns name (lg_properties lg3) = property_value ty j ns name (lg_properties lg2)"
      by (rule property_value_eqI [OF pc ledger_okD(4) [OF ok2]])
         (use False new in \<open>auto simp: t3 bex_Un ps user_namespace_condition_iff of_entity_def property_key_def snapshot_row_def\<close>)
    then show ?thesis using False by meson
  qed
  then show ?thesis using lg3 by blast
qed

section \<open>An example\<close>

definition ex_revision :: "int \<Rightarrow> string \<Rightarrow> int \<Rightarrow> int option \<Rightarrow> file_revision" where
  "ex_revision i pid s p =
     \<lparr>fr_id = i, fr_public_id = pid, fr_history_id = 1, fr_sequence = s, fr_predecessor_revision_id = p,
      fr_blob_id = Some (20 + s), fr_logical_size = 5, fr_mime_type = Some ''text/plain'', fr_etag = pid,
      fr_content_sha256 = None, fr_creator_user_id = Some 1, fr_creator_display_name = Some ''ann'',
      fr_comment = None, fr_reason = ''create'', fr_created_at = s, fr_retired_at = None, fr_purged_at = None\<rparr>"

definition ex_history :: file_revision_history where
  "ex_history =
     \<lparr>fh_id = 1, fh_public_id = ''h1'', fh_file_id = Some 7, fh_current_revision_id = Some 12, fh_next_sequence = 3,
      fh_deltav_controlled_at = Some 2, fh_deltav_root_revision_id = Some 11, fh_created_at = 1, fh_retired_at = None\<rparr>"

definition ex_property :: entity_property where
  "ex_property =
     \<lparr>ep_id = 1, ep_entity_type = ET_File, ep_entity_id = 7, ep_namespace = ''urn:x'', ep_name = ''color'', ep_value = Some ''red''\<rparr>"

definition ex_ledger :: ledger where
  "ex_ledger =
     \<lparr>lg_files = [], lg_histories = [ex_history],
      lg_revisions = [ex_revision 11 ''r1'' 1 None, ex_revision 12 ''r2'' 2 (Some 11)],
      lg_snapshots = [], lg_properties = [ex_property]\<rparr>"

definition ex_ledger_env :: ledger_env where
  "ex_ledger_env =
     \<lparr>re_now = 50, re_history_id = (\<lambda>k. 100 + int k), re_revision_id = (\<lambda>k. 200 + int k),
      re_property_id = (\<lambda>k. 300 + int k), re_history_uuid = (\<lambda>_. ''h''), re_revision_uuid = (\<lambda>_. ''r''),
      re_etag = (\<lambda>_. ''t''), re_best_effort_uuid = (\<lambda>_ _. Inr ''fresh'')\<rparr>"

definition ex_input :: new_revision where
  "ex_input =
     \<lparr>nr_blob_id = 30, nr_logical_size = 8, nr_mime_type = ''text/plain'', nr_content_sha256 = None,
      nr_creator_user_id = Some 1, nr_creator_display_name = ''ann'', nr_comment = None, nr_reason = Overwrite,
      nr_created_at = 50, nr_etag = None\<rparr>"

lemmas ex_defs = ex_revision_def ex_history_def ex_property_def ex_ledger_def ex_ledger_env_def ex_input_def

lemma ex_ledger_ok: "ledger_ok ex_ledger"
  by (simp add: ledger_ok_def ex_defs history_constraints_def revision_constraints_def snapshots_ok_def
      snapshot_constraints_def property_constraints_def unique_key_def property_key_def revision_ok_def history_ok_def
      live_of_def of_history_def of_live_history_def head_of_def Let_def)

theorem file_history_is_a_chain_witness:
  "ledger_step\<^sup>*\<^sup>* ex_ledger (tombstone 9 (ex_revision 11 ''r1'' 1 None) ex_ledger)
   \<and> (\<exists>r. find_current_by_file_id 7 (tombstone 9 (ex_revision 11 ''r1'' 1 None) ex_ledger) = Inr r
        \<and> fr_id r = 12 \<and> fr_predecessor_revision_id r = None)"
proof -
  let ?lg = "tombstone 9 (ex_revision 11 ''r1'' 1 None) ex_ledger"
  have "ledger_step ex_ledger ?lg"
    by (rule ledger_step.tombstoned [of ex_history])
       (simp_all add: ex_defs live_of_def of_live_history_def)
  then have s: "ledger_step\<^sup>*\<^sup>* ex_ledger ?lg" by simp
  have h: "history_of_file 7 ?lg = Some ex_history"
    by (simp add: history_of_file_def find_key_def tombstone_def update_revision_def ex_defs)
  have l: "live_of (fh_id ex_history) (lg_revisions ?lg) = [ex_revision 12 ''r2'' 2 None]"
    by (simp add: tombstone_def update_revision_def update_where_def ex_defs live_of_def of_live_history_def)
  show ?thesis using s file_history_is_a_chain [OF s ex_ledger_ok h] unfolding l by (simp add: ex_defs)
qed


lemma ex_append:
  "\<exists>lg r. append_revision ex_ledger_env 7 (Some 12) ex_input ex_ledger = Inr (lg, r) \<and> fr_id r = 200 \<and> lg_properties lg = [ex_property]"
  by (simp add: append_revision_def lock_history_by_file_id_def history_of_file_def find_key_def append_locked_def
      insert_revision_def insert_rows_def revision_constraints_def unique_key_def snapshot_user_properties_def
      find_user_properties_def find_by_entities_def chunks_def ENTITY_PROPERTY_BATCH_CHUNK_SIZE_def select_where_def
      is_protected_namespace_def is_dav_namespace_def is_system_namespace_def DAV_PROPERTY_NAMESPACE_def
      SYSTEM_PROPERTY_NAMESPACE_PREFIX_def revision_by_id_def snapshot_constraints_def snapshot_row_def from_aster_error_def
      ok_or_def checked_add_i64_def in_i64_def i64_max_def i64_min_def ex_defs Let_def)

theorem appends_lose_no_update_witness:
  "\<exists>lg r. append_revision ex_ledger_env 7 (Some 12) ex_input ex_ledger = Inr (lg, r)
     \<and> find_current_by_file_id 7 lg = Inr r \<and> fr_predecessor_revision_id r = Some 12
     \<and> append_revision ex_ledger_env 7 (Some 12) ex_input lg = Inl HeadChanged"
proof -
  obtain lg r where a: "append_revision ex_ledger_env 7 (Some 12) ex_input ex_ledger = Inr (lg, r)" using ex_append by blast
  show ?thesis
    using a appends_lose_no_update [OF ex_ledger_ok a, where env' = ex_ledger_env and input' = ex_input] by fastforce
qed

theorem properties_roundtrip_through_revision_witness:
  "\<exists>lg1 r lg3. append_revision ex_ledger_env 7 (Some 12) ex_input ex_ledger = Inr (lg1, r)
     \<and> restore_user_properties ex_ledger_env 7 (fr_id r) (lg1\<lparr>lg_properties := []\<rparr>) = Inr lg3
     \<and> property_value ET_File 7 ''urn:x'' ''color'' (lg_properties lg3) = Some (Some ''red'')"
proof -
  obtain lg1 r where a: "append_revision ex_ledger_env 7 (Some 12) ex_input ex_ledger = Inr (lg1, r)" using ex_append by blast
  have "property_constraints []" by (simp add: property_constraints_def unique_key_def)
  then have s: "ledger_step\<^sup>*\<^sup>* lg1 (lg1\<lparr>lg_properties := []\<rparr>)" by (intro r_into_rtranclp ledger_step.properties)
  have ids: "inj (re_property_id ex_ledger_env)" "range (re_property_id ex_ledger_env) \<inter> ep_id ` set (lg_properties (lg1\<lparr>lg_properties := []\<rparr>)) = {}"
    by (simp_all add: ex_ledger_env_def inj_def)
  obtain lg3 where "restore_user_properties ex_ledger_env 7 (fr_id r) (lg1\<lparr>lg_properties := []\<rparr>) = Inr lg3"
      "property_value ET_File 7 ''urn:x'' ''color'' (lg_properties lg3) =
         property_value ET_File 7 ''urn:x'' ''color'' (lg_properties ex_ledger)"
    using properties_roundtrip_through_revision [OF ex_ledger_ok a s ids]
    by (auto simp: is_protected_namespace_def is_dav_namespace_def is_system_namespace_def DAV_PROPERTY_NAMESPACE_def
        SYSTEM_PROPERTY_NAMESPACE_PREFIX_def)
  moreover have "property_value ET_File 7 ''urn:x'' ''color'' (lg_properties ex_ledger) = Some (Some ''red'')"
    by (simp add: property_value_def property_by_key_def of_entity_def property_key_condition_def namespace_eq_condition_def ex_defs)
  ultimately show ?thesis using a by auto
qed

end
