(* ===== verification/Storage_Quota.thy ===== *)
theory Storage_Quota
  imports Task_Dispatch
begin

text \<open>
  Storage quotas of users and teams: the usage statements of \<open>src/src/db/repository/user_repo.rs\<close> and
  \<open>src/src/db/repository/team_repo.rs\<close> and their dispatch by workspace in
  \<open>src/src/services/workspace/storage_core/quota.rs\<close>.

  The users and the teams are two tables of one shape here: the columns that quotas use. Sums are those of
  the database's 64-bit columns; the range check the code makes itself (\<open>checked_add\<close>) is modelled.
  The locale \<open>usage_account\<close> is what the rest of the program relies on: an addition that succeeds never
  passes the quota, a release never goes below zero.
\<close>

section \<open>Accounts\<close>

record storage_account =
  sa_id :: int
  sa_storage_used :: int
  sa_storage_quota :: int
  sa_archived :: bool

type_synonym account_table = "storage_account list"

definition storage_quota_exceeded :: "string \<Rightarrow> aster_error" where
  "storage_quota_exceeded m = StorageQuotaExceeded (payload_new m)"

definition user_account_by_id :: "int \<Rightarrow> account_table \<Rightarrow> storage_account aster_result" where
  "user_account_by_id i tbl =
     (case find_key sa_id i tbl of Some a \<Rightarrow> Inr a | None \<Rightarrow> Inl (record_not_found (''user #'' @ int_to_string i)))"

definition team_account_by_id :: "int \<Rightarrow> account_table \<Rightarrow> storage_account aster_result" where
  "team_account_by_id i tbl =
     (case find_key sa_id i tbl of Some a \<Rightarrow> Inr a | None \<Rightarrow> Inl (record_not_found (''team #'' @ int_to_string i)))"

definition find_active_by_id :: "int \<Rightarrow> account_table \<Rightarrow> storage_account aster_result" where
  "find_active_by_id i tbl =
     (case List.find (\<lambda>a. sa_id a = i \<and> \<not> sa_archived a) tbl of
        Some a \<Rightarrow> Inr a | None \<Rightarrow> Inl (record_not_found (''team #'' @ int_to_string i)))"

text \<open>
  The check that user and team rows share: \<open>who\<close> and \<open>prefix_text\<close> are the words by which the messages of the two
  functions differ.
\<close>

definition ensure_within_quota :: "string \<Rightarrow> string \<Rightarrow> storage_account \<Rightarrow> int \<Rightarrow> unit aster_result" where
  "ensure_within_quota who prefix_text a needed =
     (case checked_add_i64 (sa_storage_used a) needed of
        None \<Rightarrow> Inl (internal_error (who @ '' storage usage overflow: used '' @ int_to_string (sa_storage_used a)
                  @ '', delta '' @ int_to_string needed))
      | Some projected \<Rightarrow>
          if sa_storage_quota a > 0 \<and> projected > sa_storage_quota a
          then Inl (storage_quota_exceeded (prefix_text @ ''quota '' @ int_to_string (sa_storage_quota a)
                 @ '', used '' @ int_to_string (sa_storage_used a) @ '', need '' @ int_to_string needed))
          else Inr ())"

definition user_check_quota :: "int \<Rightarrow> int \<Rightarrow> account_table \<Rightarrow> unit aster_result" where
  "user_check_quota i needed tbl =
     bind_result (user_account_by_id i tbl) (\<lambda>a. ensure_within_quota ''user'' [] a needed)"

definition team_check_quota :: "int \<Rightarrow> int \<Rightarrow> account_table \<Rightarrow> unit aster_result" where
  "team_check_quota i needed tbl =
     bind_result (find_active_by_id i tbl) (\<lambda>a. ensure_within_quota ''team'' ''team '' a needed)"

section \<open>Recording usage\<close>

definition used_after :: "int \<Rightarrow> storage_account \<Rightarrow> int" where
  "used_after delta a =
     (if delta \<ge> 0 then sa_storage_used a + delta
      else let decrement_by = - delta in
           if sa_storage_used a < decrement_by then 0 else sa_storage_used a - decrement_by)"

definition usage_condition :: "int \<Rightarrow> int \<Rightarrow> storage_account \<Rightarrow> bool" where
  "usage_condition i delta a =
     (sa_id a = i
      \<and> (delta \<ge> 0 \<longrightarrow> sa_storage_quota a = 0 \<or> sa_storage_used a + delta \<le> sa_storage_quota a))"

definition update_storage_used_rows :: "int \<Rightarrow> int \<Rightarrow> account_table \<Rightarrow> account_table \<times> nat" where
  "update_storage_used_rows i delta tbl =
     update_where (usage_condition i delta) (\<lambda>a. a\<lparr>sa_storage_used := used_after delta a\<rparr>) tbl"

definition user_update_storage_used :: "int \<Rightarrow> int \<Rightarrow> account_table \<Rightarrow> account_table aster_result" where
  "user_update_storage_used i delta tbl =
     (let (tbl', n) = update_storage_used_rows i delta tbl in
      if n = 0
      then bind_result
             (if delta \<ge> 0
              then bind_result (user_account_by_id i tbl) (\<lambda>a. ensure_within_quota ''user'' [] a delta)
              else Inr ())
             (\<lambda>_. Inl (record_not_found (''user #'' @ int_to_string i)))
      else Inr tbl')"

definition team_update_storage_used :: "int \<Rightarrow> int \<Rightarrow> account_table \<Rightarrow> account_table aster_result" where
  "team_update_storage_used i delta tbl =
     (let (tbl', n) = update_storage_used_rows i delta tbl in
      if n = 0
      then bind_result
             (if delta \<ge> 0
              then bind_result (team_account_by_id i tbl) (\<lambda>a. ensure_within_quota ''team'' ''team '' a delta)
              else Inr ())
             (\<lambda>_. Inl (record_not_found (''team #'' @ int_to_string i)))
      else Inr tbl')"

definition user_set_storage_used :: "int \<Rightarrow> int \<Rightarrow> account_table \<Rightarrow> account_table aster_result" where
  "user_set_storage_used i v tbl =
     (let (tbl', n) = update_where (\<lambda>a. sa_id a = i) (\<lambda>a. a\<lparr>sa_storage_used := v\<rparr>) tbl in
      if n = 0 then Inl (record_not_found (''user #'' @ int_to_string i)) else Inr tbl')"

definition team_set_storage_used :: "int \<Rightarrow> int \<Rightarrow> account_table \<Rightarrow> account_table aster_result" where
  "team_set_storage_used i v tbl =
     (let (tbl', n) = update_where (\<lambda>a. sa_id a = i) (\<lambda>a. a\<lparr>sa_storage_used := v\<rparr>) tbl in
      if n = 0 then Inl (record_not_found (''team #'' @ int_to_string i)) else Inr tbl')"

section \<open>Dispatch by workspace\<close>

datatype workspace_resource_scope = RS_Personal int | RS_Team int

definition resource_scope :: "workspace_storage_scope \<Rightarrow> workspace_resource_scope" where
  "resource_scope sc = (case sc of WS_Personal u \<Rightarrow> RS_Personal u | WS_Team t _ \<Rightarrow> RS_Team t)"

record account_db =
  ad_users :: account_table
  ad_teams :: account_table

definition lock_storage_usage_for_resource_scope :: "workspace_resource_scope \<Rightarrow> account_db \<Rightarrow> unit aster_result" where
  "lock_storage_usage_for_resource_scope sc db =
     (case sc of
        RS_Personal u \<Rightarrow> bind_result (user_account_by_id u (ad_users db)) (\<lambda>_. Inr ())
      | RS_Team t \<Rightarrow> bind_result (team_account_by_id t (ad_teams db)) (\<lambda>_. Inr ()))"

definition lock_storage_usage :: "workspace_storage_scope \<Rightarrow> account_db \<Rightarrow> unit aster_result" where
  "lock_storage_usage sc db = lock_storage_usage_for_resource_scope (resource_scope sc) db"

definition check_quota :: "workspace_storage_scope \<Rightarrow> int \<Rightarrow> account_db \<Rightarrow> unit aster_result" where
  "check_quota sc sz db =
     (case resource_scope sc of
        RS_Personal u \<Rightarrow> user_check_quota u sz (ad_users db)
      | RS_Team t \<Rightarrow> team_check_quota t sz (ad_teams db))"

definition update_storage_used_for_resource_scope ::
  "workspace_resource_scope \<Rightarrow> int \<Rightarrow> account_db \<Rightarrow> account_db aster_result" where
  "update_storage_used_for_resource_scope sc delta db =
     (case sc of
        RS_Personal u \<Rightarrow> bind_result (user_update_storage_used u delta (ad_users db)) (\<lambda>t. Inr (db\<lparr>ad_users := t\<rparr>))
      | RS_Team t \<Rightarrow> bind_result (team_update_storage_used t delta (ad_teams db)) (\<lambda>t. Inr (db\<lparr>ad_teams := t\<rparr>)))"

definition update_storage_used :: "workspace_storage_scope \<Rightarrow> int \<Rightarrow> account_db \<Rightarrow> account_db aster_result" where
  "update_storage_used sc delta db = update_storage_used_for_resource_scope (resource_scope sc) delta db"

section \<open>The abstract account\<close>

text \<open>An account is its usage and its quota (0: no limit); a request adds or releases bytes.\<close>

fun account_add :: "int \<Rightarrow> int \<times> int \<Rightarrow> (int \<times> int) option" where
  "account_add d (used, quota) =
     (if d < 0 then Some (max 0 (used + d), quota)
      else if quota = 0 \<or> used + d \<le> quota then Some (used + d, quota) else None)"

definition within_quota :: "int \<times> int \<Rightarrow> bool" where
  "within_quota a = (0 \<le> fst a \<and> (snd a = 0 \<or> fst a \<le> snd a))"

lemma account_add_within: "within_quota a \<Longrightarrow> account_add d a = Some a' \<Longrightarrow> within_quota a' \<and> snd a' = snd a"
  by (cases a) (auto simp: within_quota_def split: if_splits)

locale usage_account =
  fixes request :: "'r \<Rightarrow> 's \<Rightarrow> 's option" and delta_for :: "'r \<Rightarrow> int option"
    and account :: "'s \<Rightarrow> (int \<times> int) option" and inv :: "'s \<Rightarrow> bool"
  assumes inv_kept: "inv s \<Longrightarrow> request r s = Some t \<Longrightarrow> inv t"
    and own: "inv s \<Longrightarrow> delta_for r = Some d \<Longrightarrow> account s = Some a \<Longrightarrow> request r s = Some t
        \<Longrightarrow> \<exists>a'. account_add d a = Some a' \<and> account t = Some a'"
    and other: "inv s \<Longrightarrow> delta_for r = None \<Longrightarrow> request r s = Some t \<Longrightarrow> account t = account s"
begin

text \<open>Requests in any order, refused ones without effect: the account never leaves its bounds.\<close>

lemma stays_within:
  assumes "inv s" "account s = Some a" "within_quota a"
  shows "\<exists>a'. account (foldl (\<lambda>s r. case request r s of Some t \<Rightarrow> t | None \<Rightarrow> s) s rs) = Some a'
    \<and> within_quota a' \<and> snd a' = snd a"
  using assms
proof (induction rs arbitrary: s a)
  case (Cons r rs)
  show ?case
  proof (cases "request r s")
    case (Some t)
    have t: "inv t" using inv_kept Cons.prems(1) Some by blast
    obtain a' where a': "account t = Some a'" "within_quota a'" "snd a' = snd a"
    proof (cases "delta_for r")
      case None
      then show ?thesis using that Cons.prems other Some by metis
    next
      case d: (Some d)
      then show ?thesis using own [OF Cons.prems(1) d Cons.prems(2) Some] account_add_within [OF Cons.prems(3)] that
        by blast
    qed
    then show ?thesis using Cons.IH [OF t a'(1,2)] Some by auto
  qed (use Cons in auto)
qed auto

end

section \<open>The tables implement the account\<close>

definition account_of :: "workspace_resource_scope \<Rightarrow> account_db \<Rightarrow> (int \<times> int) option" where
  "account_of sc db =
     map_option (\<lambda>a. (sa_storage_used a, sa_storage_quota a))
       (case sc of RS_Personal u \<Rightarrow> find_key sa_id u (ad_users db) | RS_Team t \<Rightarrow> find_key sa_id t (ad_teams db))"

definition accounts_ok :: "account_db \<Rightarrow> bool" where
  "accounts_ok db = (unique_key sa_id (ad_users db) \<and> unique_key sa_id (ad_teams db))"

interpretation usage_ku: keyed_update sa_id i "usage_condition i delta" "\<lambda>a. a\<lparr>sa_storage_used := used_after delta a\<rparr>"
    for i delta
  by unfold_locales (auto simp: usage_condition_def)

lemma usage_row:
  "account_add d (sa_storage_used a, sa_storage_quota a)
     = (if usage_condition (sa_id a) d a then Some (used_after d a, sa_storage_quota a) else None)"
  by (auto simp: usage_condition_def used_after_def Let_def)

lemma update_rows:
  assumes "unique_key sa_id tbl"
  shows "unique_key sa_id (fst (update_storage_used_rows i d tbl))"
    and "j \<noteq> i \<Longrightarrow> find_key sa_id j (fst (update_storage_used_rows i d tbl)) = find_key sa_id j tbl"
    and "snd (update_storage_used_rows i d tbl) = 0 \<longleftrightarrow>
       (case find_key sa_id i tbl of None \<Rightarrow> True
        | Some a \<Rightarrow> account_add d (sa_storage_used a, sa_storage_quota a) = None)"
    and "find_key sa_id i tbl = Some a \<Longrightarrow> snd (update_storage_used_rows i d tbl) \<noteq> 0 \<Longrightarrow>
       \<exists>a'. find_key sa_id i (fst (update_storage_used_rows i d tbl)) = Some a'
         \<and> account_add d (sa_storage_used a, sa_storage_quota a) = Some (sa_storage_used a', sa_storage_quota a')"
proof -
  let ?p = "usage_condition i d" and ?f = "\<lambda>a. a\<lparr>sa_storage_used := used_after d a\<rparr>"
  have e: "fst (update_storage_used_rows i d tbl) = fst (exec_one ?p ?f tbl)"
    by (simp add: update_storage_used_rows_def exec_one_def)
  show "unique_key sa_id (fst (update_storage_used_rows i d tbl))" using assms usage_ku.keeps_unique by (simp add: e)
  show "find_key sa_id j (fst (update_storage_used_rows i d tbl)) = find_key sa_id j tbl" if "j \<noteq> i"
    using usage_ku.other_rows [OF that] by (simp add: e)
  have hit: "snd (update_storage_used_rows i d tbl) = 0 \<longleftrightarrow> (\<forall>x \<in> set tbl. \<not> ?p x)"
    by (simp add: update_storage_used_rows_def count_where_0_iff)
  have one: "?p a \<longleftrightarrow> (\<exists>x \<in> set tbl. ?p x)" if "find_key sa_id i tbl = Some a" for a
    using find_key_SomeD [OF that] find_key_only [OF assms that] by (auto simp: usage_condition_def)
  show "snd (update_storage_used_rows i d tbl) = 0 \<longleftrightarrow>
       (case find_key sa_id i tbl of None \<Rightarrow> True
        | Some a \<Rightarrow> account_add d (sa_storage_used a, sa_storage_quota a) = None)"
  proof (cases "find_key sa_id i tbl")
    case None
    then have "\<forall>x \<in> set tbl. \<not> ?p x" by (auto simp: find_key_None_iff usage_condition_def)
    then show ?thesis using hit None by simp
  next
    case (Some a)
    then show ?thesis using hit one [OF Some] usage_row [of d a] find_key_SomeD [OF Some]
      by (auto simp del: account_add.simps)
  qed
  show "\<exists>a'. find_key sa_id i (fst (update_storage_used_rows i d tbl)) = Some a'
      \<and> account_add d (sa_storage_used a, sa_storage_quota a) = Some (sa_storage_used a', sa_storage_quota a')"
    if a: "find_key sa_id i tbl = Some a" "snd (update_storage_used_rows i d tbl) \<noteq> 0"
    using usage_ku.its_row [of i d tbl] a hit one [OF a(1)] usage_row [of d a] find_key_SomeD [OF a(1)]
    by (auto simp: e simp del: account_add.simps)
qed

text \<open>What a refused request means.\<close>

definition refusal :: "int \<Rightarrow> (int \<times> int) option \<Rightarrow> aster_error \<Rightarrow> bool" where
  "refusal d acct e =
     (case acct of
        None \<Rightarrow> error_code e = ''E006''
      | Some (used, quota) \<Rightarrow>
          account_add d (used, quota) = None \<and> (quota > 0 \<longrightarrow> in_i64 (used + d) \<longrightarrow> error_code e = ''E032''))"

lemma update_used_refines:
  assumes "unique_key sa_id tbl" "upd = user_update_storage_used \<or> upd = team_update_storage_used"
  shows "case upd i d tbl of
      Inr tbl' \<Rightarrow> tbl' = fst (update_storage_used_rows i d tbl) \<and> snd (update_storage_used_rows i d tbl) \<noteq> 0
    | Inl e \<Rightarrow> refusal d (map_option (\<lambda>a. (sa_storage_used a, sa_storage_quota a)) (find_key sa_id i tbl)) e"
proof (cases "snd (update_storage_used_rows i d tbl) = 0")
  case True
  then have "case find_key sa_id i tbl of None \<Rightarrow> True
      | Some a \<Rightarrow> account_add d (sa_storage_used a, sa_storage_quota a) = None"
    using update_rows(3) [OF assms(1)] by blast
  then show ?thesis using assms(2) True
    by (auto simp: user_update_storage_used_def team_update_storage_used_def user_account_by_id_def
        team_account_by_id_def refusal_def ensure_within_quota_def storage_quota_exceeded_def record_not_found_def
        checked_add_i64_def case_prod_beta Let_def split: option.splits if_splits)
qed (use assms(2) in \<open>auto simp: user_update_storage_used_def team_update_storage_used_def case_prod_beta Let_def\<close>)

lemma table_update_refines:
  assumes k: "unique_key sa_id tbl" and "upd = user_update_storage_used \<or> upd = team_update_storage_used"
  shows "case upd i d tbl of
      Inr tbl' \<Rightarrow> unique_key sa_id tbl' \<and> (\<forall>j. j \<noteq> i \<longrightarrow> find_key sa_id j tbl' = find_key sa_id j tbl)
        \<and> (\<exists>a a'. find_key sa_id i tbl = Some a \<and> find_key sa_id i tbl' = Some a'
             \<and> account_add d (sa_storage_used a, sa_storage_quota a) = Some (sa_storage_used a', sa_storage_quota a'))
    | Inl e \<Rightarrow> refusal d (map_option (\<lambda>a. (sa_storage_used a, sa_storage_quota a)) (find_key sa_id i tbl)) e"
proof (cases "upd i d tbl")
  case (Inl e)
  then show ?thesis using update_used_refines [OF assms, where i = i and d = d] by simp
next
  case (Inr t)
  then have t: "t = fst (update_storage_used_rows i d tbl)" "snd (update_storage_used_rows i d tbl) \<noteq> 0"
    using update_used_refines [OF assms, where i = i and d = d] by auto
  obtain a where a: "find_key sa_id i tbl = Some a"
    using t(2) update_rows(3) [OF k, of i d] by (cases "find_key sa_id i tbl") auto
  show ?thesis using Inr t update_rows(4) [OF k a t(2)] update_rows(1,2) [OF k] a
    by (auto simp del: account_add.simps)
qed

definition usage_request :: "workspace_resource_scope \<times> int \<Rightarrow> account_db \<Rightarrow> account_db option" where
  "usage_request r db =
     (case update_storage_used_for_resource_scope (fst r) (snd r) db of Inr db' \<Rightarrow> Some db' | Inl _ \<Rightarrow> None)"

lemma scope_update_refines:
  assumes "accounts_ok db"
  shows "case update_storage_used_for_resource_scope sc d db of
      Inr db' \<Rightarrow> accounts_ok db' \<and> (\<forall>sc'. sc' \<noteq> sc \<longrightarrow> account_of sc' db' = account_of sc' db)
        \<and> (\<exists>a a'. account_of sc db = Some a \<and> account_add d a = Some a' \<and> account_of sc db' = Some a')
    | Inl e \<Rightarrow> refusal d (account_of sc db) e"
proof (cases sc)
  case (RS_Personal u)
  then show ?thesis
    using table_update_refines [of "ad_users db" user_update_storage_used, where i = u and d = d] assms
    by (cases "user_update_storage_used u d (ad_users db)")
       (auto simp: update_storage_used_for_resource_scope_def account_of_def accounts_ok_def
          simp del: account_add.simps split: workspace_resource_scope.splits)
next
  case (RS_Team t)
  then show ?thesis
    using table_update_refines [of "ad_teams db" team_update_storage_used, where i = t and d = d] assms
    by (cases "team_update_storage_used t d (ad_teams db)")
       (auto simp: update_storage_used_for_resource_scope_def account_of_def accounts_ok_def
          simp del: account_add.simps split: workspace_resource_scope.splits)
qed

interpretation workspace_usage: usage_account usage_request "\<lambda>r. if fst r = sc then Some (snd r) else None"
    "account_of sc" accounts_ok for sc
proof
  fix db db' :: account_db and r :: "workspace_resource_scope \<times> int"
  assume ok: "accounts_ok db" and r: "usage_request r db = Some db'"
  then have u: "update_storage_used_for_resource_scope (fst r) (snd r) db = Inr db'"
    by (auto simp: usage_request_def split: sum.splits)
  note s = scope_update_refines [OF ok, where sc = "fst r" and d = "snd r", unfolded u, simplified]
  show "accounts_ok db'" using s by simp
  show "\<exists>a'. account_add d a = Some a' \<and> account_of sc db' = Some a'"
    if "(if fst r = sc then Some (snd r) else None) = Some d" "account_of sc db = Some a" for d a
    using s that by (auto split: if_splits)
  show "account_of sc db' = account_of sc db" if "(if fst r = sc then Some (snd r) else None) = None"
    using s that by (auto split: if_splits)
qed

text \<open>
  (C23) Recording usage refines the abstract account. In tables with unique ids, recording a delta for a
  workspace either changes that workspace's account as the account says (an increment within the quota, a
  release floored at 0) and no other account, or it is refused and then the owner does not exist
  (not found) or the increment would pass the quota (quota exceeded, unless the sum leaves the 64-bit
  range).
\<close>

theorem update_storage_used_refines_account:
  assumes "accounts_ok db"
  shows "case update_storage_used sc d db of
      Inr db' \<Rightarrow> accounts_ok db'
        \<and> (\<forall>sc'. sc' \<noteq> resource_scope sc \<longrightarrow> account_of sc' db' = account_of sc' db)
        \<and> (\<exists>a a'. account_of (resource_scope sc) db = Some a \<and> account_add d a = Some a'
             \<and> account_of (resource_scope sc) db' = Some a')
    | Inl e \<Rightarrow> refusal d (account_of (resource_scope sc) db) e"
  unfolding update_storage_used_def by (rule scope_update_refines [OF assms])

definition ex_accounts :: account_db where
  "ex_accounts = \<lparr>ad_users = [\<lparr>sa_id = 1, sa_storage_used = 90, sa_storage_quota = 100, sa_archived = False\<rparr>], ad_teams = []\<rparr>"

theorem update_storage_used_refines_account_witness:
  "accounts_ok ex_accounts
   \<and> (\<exists>e. update_storage_used (WS_Personal 1) 20 ex_accounts = Inl e \<and> error_code e = ''E032'')"
proof -
  have ok: "accounts_ok ex_accounts" by (simp add: accounts_ok_def ex_accounts_def unique_key_def)
  obtain e where "update_storage_used (WS_Personal 1) 20 ex_accounts = Inl e"
    by (simp add: update_storage_used_def update_storage_used_for_resource_scope_def resource_scope_def ex_accounts_def
        user_update_storage_used_def update_storage_used_rows_def update_where_def usage_condition_def
        user_account_by_id_def find_key_def ensure_within_quota_def checked_add_i64_def in_i64_def i64_max_def i64_min_def
        storage_quota_exceeded_def)
  then show ?thesis
    using ok update_storage_used_refines_account [OF ok, where sc = "WS_Personal 1" and d = 20]
    by (simp add: refusal_def account_of_def resource_scope_def ex_accounts_def find_key_def in_i64_def i64_max_def
        i64_min_def)
qed

text \<open>
  No order of concurrent requests passes a quota. An account that starts within its bounds (usage not
  negative and, when there is a quota, not above it) is still within them after any sequence of usage
  requests for any workspaces, of which the refused ones have no effect; the quota itself is unchanged.
\<close>

theorem usage_requests_stay_within_quota:
  assumes "accounts_ok db" "account_of sc db = Some a" "within_quota a"
  shows "\<exists>a'. account_of sc (foldl (\<lambda>db r. case usage_request r db of Some db' \<Rightarrow> db' | None \<Rightarrow> db) db rs) = Some a'
    \<and> within_quota a' \<and> snd a' = snd a"
  by (rule workspace_usage.stays_within [OF assms])

theorem usage_requests_stay_within_quota_witness:
  "accounts_ok ex_accounts \<and> account_of (RS_Personal 1) ex_accounts = Some (90, 100) \<and> within_quota (90, 100)
   \<and> (\<exists>u. account_of (RS_Personal 1) (foldl (\<lambda>db r. case usage_request r db of Some db' \<Rightarrow> db' | None \<Rightarrow> db) ex_accounts
            [(RS_Personal 1, 8), (RS_Personal 1, 8), (RS_Team 4, 7), (RS_Personal 1, -50)]) = Some (u, 100)
          \<and> 0 \<le> u \<and> u \<le> 100)"
proof -
  have ok: "accounts_ok ex_accounts" by (simp add: accounts_ok_def ex_accounts_def unique_key_def)
  have a: "account_of (RS_Personal 1) ex_accounts = Some (90, 100)"
    by (simp add: account_of_def ex_accounts_def find_key_def)
  have w: "within_quota (90, 100)" by (simp add: within_quota_def)
  show ?thesis
    using usage_requests_stay_within_quota [OF ok a w,
        of "[(RS_Personal 1, 8), (RS_Personal 1, 8), (RS_Team 4, 7), (RS_Personal 1, -50)]"] ok a w
    by (fastforce simp: within_quota_def simp del: foldl.simps)
qed

end
