(* ===== verification/Blob_Cleanup.thy ===== *)
theory Blob_Cleanup
  imports Blob_Store
begin

text \<open>
  Removing unreferenced blobs:
  \<open>src/src/services/files/file/deletion/blob_cleanup.rs\<close> (the cleanup handler),
  \<open>src/src/services/ops/maintenance.rs\<close> (the reconcile job),
  \<open>src/src/services/task/blob_maintenance.rs\<close> (the administrator's reconcile) and the reference count
  repair of \<open>src/src/services/ops/integrity.rs\<close>.

  The handler talks to the database and to a storage driver, and other transactions run between its
  statements. It is therefore modelled as a machine: one stage per statement, one step per database or
  driver call (\<open>cleanup_step\<close>), with the replies of the database and of the driver as an argument of the step.
  A handler that runs alone is the machine run to its end (\<open>cleanup_run\<close>); \<open>blob_step\<close> interleaves any number
  of handlers with uploads, copies, deletions and the reconcile job.

  The objects a driver stores are a set of (policy, path) pairs. A driver call that succeeds has done its
  work; one that fails may or may not have done it.
\<close>

section \<open>State\<close>

record blob_world =
  bw_blobs :: blob_table
  bw_objects :: "(int \<times> string) set"
  bw_file_refs :: "int list"
  bw_revision_refs :: "int list"

text \<open>
  \<open>bw_file_refs\<close> is the column \<open>blob_id\<close> of the files, \<open>bw_revision_refs\<close> that of the revisions that are
  neither current nor retired.
\<close>

datatype delete_reply = Deleted | Delete_Failed bool

text \<open>\<open>Delete_Failed removed\<close>: the call returned an error; \<open>removed\<close> tells whether the object is gone anyway.\<close>

record cleanup_replies =
  cr_db_ok :: bool
  cr_policy_known :: bool
  cr_driver_ok :: bool
  cr_derived :: "string list"
  cr_delete :: "string \<Rightarrow> delete_reply"
  cr_probe_ok :: "string \<Rightarrow> bool"

datatype cleanup_stage =
    C_Reload bool int
  | C_Claim bool file_blob
  | C_Claimed file_blob
  | C_Virtual_Row file_blob
  | C_Delete file_blob string
  | C_Probe file_blob string
  | C_Row file_blob
  | C_Restore int
  | C_Done bool

section \<open>The cleanup handler\<close>

definition object_delete :: "delete_reply \<Rightarrow> (int \<times> string) \<Rightarrow> (int \<times> string) set \<Rightarrow> (int \<times> string) set" where
  "object_delete reply key objs =
     (case reply of Deleted \<Rightarrow> objs - {key} | Delete_Failed removed \<Rightarrow> if removed then objs - {key} else objs)"

text \<open>
  The object loop of \<open>delete_thumbnail_with_driver\<close>: the derived objects of a blob (\<open>cr_derived\<close>: its
  recorded thumbnail and the known cache paths) are probed and deleted in turn; the first error ends it.
\<close>

fun delete_derived ::
  "cleanup_replies \<Rightarrow> int \<Rightarrow> string list \<Rightarrow> (int \<times> string) set \<Rightarrow> (int \<times> string) set \<times> bool" where
  "delete_derived r policy [] objs = (objs, True)"
| "delete_derived r policy (p # ps) objs =
     (if \<not> cr_probe_ok r p then (objs, False)
      else if (policy, p) \<in> objs
      then let objs' = object_delete (cr_delete r p) (policy, p) objs in
           if cr_delete r p = Deleted then delete_derived r policy ps objs' else (objs', False)
      else delete_derived r policy ps objs)"

definition delete_thumbnail_with_driver ::
  "cleanup_replies \<Rightarrow> time \<Rightarrow> file_blob \<Rightarrow> blob_world \<Rightarrow> blob_world \<times> bool" where
  "delete_thumbnail_with_driver r now b w =
     (let (objs, ok) = delete_derived r (fb_policy_id b) (cr_derived r) (bw_objects w) in
      if \<not> ok then (w\<lparr>bw_objects := objs\<rparr>, False)
      else (w\<lparr>bw_objects := objs,
              bw_blobs := (if cr_db_ok r then fst (clear_thumbnail_metadata now (fb_id b) (bw_blobs w)) else bw_blobs w)\<rparr>,
            True))"

text \<open>
  The first component of \<open>C_Reload\<close> and \<open>C_Claim\<close> tells the two entry points apart:
  \<open>ensure_blob_cleanup_if_unreferenced\<close> (\<open>True\<close>) counts a blob that needs no cleanup as success,
  \<open>cleanup_unreferenced_blob\<close> (\<open>False\<close>) does not.
\<close>

fun cleanup_step :: "cleanup_replies \<Rightarrow> time \<Rightarrow> cleanup_stage \<Rightarrow> blob_world \<Rightarrow> cleanup_stage \<times> blob_world" where
  "cleanup_step r now (C_Reload ensure i) w =
     (if \<not> cr_db_ok r then (C_Done False, w)
      else case find_blob_by_id i (bw_blobs w) of
             Inl _ \<Rightarrow> (C_Done True, w)
           | Inr b \<Rightarrow>
               if fb_ref_count b = BLOB_CLEANUP_CLAIMED_REF_COUNT then (C_Done ensure, w)
               else if fb_ref_count b \<noteq> 0 then (C_Done ensure, w)
               else (C_Claim ensure b, w))"
| "cleanup_step r now (C_Claim ensure b) w =
     (if \<not> cr_db_ok r then (C_Done False, w)
      else let (tbl, ok) = claim_blob_cleanup now (fb_id b) (bw_blobs w) in
           (if ok then C_Claimed b else C_Done ensure, w\<lparr>bw_blobs := tbl\<rparr>))"
| "cleanup_step r now (C_Claimed b) w =
     (if is_virtual_empty b then (C_Virtual_Row b, w)
      else case storage_path_for_connector b of
             None \<Rightarrow> (C_Restore (fb_id b), w)
           | Some path \<Rightarrow>
               if \<not> cr_policy_known r then (C_Restore (fb_id b), w)
               else if \<not> cr_driver_ok r then (C_Restore (fb_id b), w)
               else let (w', ok) = delete_thumbnail_with_driver r now b w in
                    (if ok then C_Delete b path else C_Restore (fb_id b), w'))"
| "cleanup_step r now (C_Virtual_Row b) w =
     (if \<not> cr_db_ok r then (C_Restore (fb_id b), w)
      else let (tbl, ok) = delete_blob_if_cleanup_claimed (fb_id b) (bw_blobs w) in
           (C_Done ok, w\<lparr>bw_blobs := tbl\<rparr>))"
| "cleanup_step r now (C_Delete b path) w =
     (if cr_delete r path = Deleted then C_Row b else C_Probe b path,
      w\<lparr>bw_objects := object_delete (cr_delete r path) (fb_policy_id b, path) (bw_objects w)\<rparr>)"
| "cleanup_step r now (C_Probe b path) w =
     (if cr_probe_ok r path \<and> (fb_policy_id b, path) \<notin> bw_objects w then C_Row b else C_Restore (fb_id b), w)"
| "cleanup_step r now (C_Row b) w =
     (if \<not> cr_db_ok r then (C_Restore (fb_id b), w)
      else let (tbl, ok) = delete_blob_if_cleanup_claimed (fb_id b) (bw_blobs w) in
           (if ok then C_Done True else C_Restore (fb_id b), w\<lparr>bw_blobs := tbl\<rparr>))"
| "cleanup_step r now (C_Restore i) w =
     (C_Done False,
      if cr_db_ok r then w\<lparr>bw_blobs := fst (restore_blob_cleanup_claim now i (bw_blobs w))\<rparr> else w)"
| "cleanup_step r now (C_Done b) w = (C_Done b, w)"

text \<open>
  A handler that runs alone: the replies and the clock of its \<open>k\<close>-th call are \<open>replies k\<close> and \<open>clock k\<close>. Seven
  calls are enough for every path (reload, claim, thumbnails, delete, probe, row, restore).
\<close>

primrec cleanup_run ::
  "(nat \<Rightarrow> cleanup_replies) \<Rightarrow> (nat \<Rightarrow> time) \<Rightarrow> nat \<Rightarrow> cleanup_stage \<Rightarrow> blob_world \<Rightarrow> cleanup_stage \<times> blob_world" where
  "cleanup_run replies clock 0 st w = (st, w)"
| "cleanup_run replies clock (Suc n) st w =
     (let (st', w') = cleanup_step (replies 0) (clock 0) st w in
      cleanup_run (\<lambda>k. replies (Suc k)) (\<lambda>k. clock (Suc k)) n st' w')"

definition CLEANUP_CALLS :: nat where "CLEANUP_CALLS = 7"

definition ensure_blob_cleanup_if_unreferenced ::
  "(nat \<Rightarrow> cleanup_replies) \<Rightarrow> (nat \<Rightarrow> time) \<Rightarrow> int \<Rightarrow> blob_world \<Rightarrow> cleanup_stage \<times> blob_world" where
  "ensure_blob_cleanup_if_unreferenced replies clock i w =
     cleanup_run replies clock CLEANUP_CALLS (C_Reload True i) w"

definition cleanup_unreferenced_blob_with_driver ::
  "(nat \<Rightarrow> cleanup_replies) \<Rightarrow> (nat \<Rightarrow> time) \<Rightarrow> file_blob \<Rightarrow> blob_world \<Rightarrow> cleanup_stage \<times> blob_world" where
  "cleanup_unreferenced_blob_with_driver replies clock b w =
     cleanup_run replies clock CLEANUP_CALLS (C_Reload False (fb_id b)) w"

definition cleanup_unreferenced_blob ::
  "(nat \<Rightarrow> cleanup_replies) \<Rightarrow> (nat \<Rightarrow> time) \<Rightarrow> file_blob \<Rightarrow> blob_world \<Rightarrow> cleanup_stage \<times> blob_world" where
  "cleanup_unreferenced_blob replies clock b w = cleanup_unreferenced_blob_with_driver replies clock b w"

section \<open>Reference counts against the references\<close>

definition BLOB_CLEANUP_CLAIM_TIMEOUT_SECS :: int where "BLOB_CLEANUP_CLAIM_TIMEOUT_SECS = 10 * 60"

definition blob_cleanup_claim_is_stale :: "time \<Rightarrow> file_blob \<Rightarrow> bool" where
  "blob_cleanup_claim_is_stale now b = (now - fb_updated_at b \<ge> BLOB_CLEANUP_CLAIM_TIMEOUT_SECS)"

definition count_blob_refs_from_files_for_blob :: "int \<Rightarrow> blob_world \<Rightarrow> int" where
  "count_blob_refs_from_files_for_blob i w = int (count_list (bw_file_refs w) i)"

definition count_non_current_blob_refs_for_blob :: "int \<Rightarrow> blob_world \<Rightarrow> int" where
  "count_non_current_blob_refs_for_blob i w = int (count_list (bw_revision_refs w) i)"

definition i64_to_i32 :: "int \<Rightarrow> aster_error \<Rightarrow> int aster_result" where
  "i64_to_i32 n e = (if - 2147483648 \<le> n \<and> n \<le> i32_max then Inr n else Inl e)"

definition current_blob_ref_count :: "blob_world \<Rightarrow> int \<Rightarrow> int aster_result" where
  "current_blob_ref_count w i =
     (case checked_add_i64 (count_blob_refs_from_files_for_blob i w) (count_non_current_blob_refs_for_blob i w) of
        None \<Rightarrow> Inl (internal_error ''blob ref count overflow during reconcile'')
      | Some n \<Rightarrow> i64_to_i32 n (internal_error (''actual ref count overflow for blob '' @ int_to_string i)))"

record reconciled_blob =
  rb_blob :: file_blob
  rb_actual_refs :: int
  rb_ref_count_fixed :: bool

text \<open>The transaction common to both reconcile jobs, once the row is not skipped.\<close>

definition fix_ref_count :: "time \<Rightarrow> file_blob \<Rightarrow> int \<Rightarrow> blob_world \<Rightarrow> (blob_world \<times> reconciled_blob option) aster_result" where
  "fix_ref_count now b actual w =
     (if fb_ref_count b \<noteq> actual
      then let tbl = fst (set_blob_ref_count now (fb_id b) actual (bw_blobs w)) in
           bind_result (find_blob_by_id (fb_id b) tbl) (\<lambda>b'.
           Inr (w\<lparr>bw_blobs := tbl\<rparr>, Some \<lparr>rb_blob = b', rb_actual_refs = actual, rb_ref_count_fixed = True\<rparr>))
      else Inr (w, Some \<lparr>rb_blob = b, rb_actual_refs = actual, rb_ref_count_fixed = False\<rparr>))"

definition reconcile_single_blob_ref_count ::
  "time \<Rightarrow> int \<Rightarrow> blob_world \<Rightarrow> (blob_world \<times> reconciled_blob option) aster_result" where
  "reconcile_single_blob_ref_count now i w =
     (case lock_blob_by_id i (bw_blobs w) of
        Inl _ \<Rightarrow> Inr (w, None)
      | Inr b \<Rightarrow>
          if fb_ref_count b = BLOB_CLEANUP_CLAIMED_REF_COUNT \<and> \<not> blob_cleanup_claim_is_stale now b
          then Inr (w, None)
          else bind_result (current_blob_ref_count w i) (\<lambda>actual. fix_ref_count now b actual w))"

text \<open>
  The administrator's job never takes a claim over. The error of its range check comes from a library and
  is an argument.
\<close>

definition admin_current_blob_ref_count :: "aster_error \<Rightarrow> blob_world \<Rightarrow> int \<Rightarrow> int aster_result" where
  "admin_current_blob_ref_count out_of_range w i =
     (case checked_add_i64 (count_blob_refs_from_files_for_blob i w) (count_non_current_blob_refs_for_blob i w) of
        None \<Rightarrow> Inl (internal_error ''blob ref count overflow during integrity audit'')
      | Some n \<Rightarrow> i64_to_i32 n out_of_range)"

definition admin_reconcile_single_blob_ref_count ::
  "aster_error \<Rightarrow> time \<Rightarrow> int \<Rightarrow> blob_world \<Rightarrow> (blob_world \<times> reconciled_blob option) aster_result" where
  "admin_reconcile_single_blob_ref_count out_of_range now i w =
     (case lock_blob_by_id i (bw_blobs w) of
        Inl _ \<Rightarrow> Inr (w, None)
      | Inr b \<Rightarrow>
          if fb_ref_count b = BLOB_CLEANUP_CLAIMED_REF_COUNT then Inr (w, None)
          else bind_result (admin_current_blob_ref_count out_of_range w i) (\<lambda>actual. fix_ref_count now b actual w))"

section \<open>One handler alone\<close>

text \<open>How far a stage is from the end.\<close>

fun calls_left :: "cleanup_stage \<Rightarrow> nat" where
  "calls_left (C_Reload _ _) = 7"
| "calls_left (C_Claim _ _) = 6"
| "calls_left (C_Claimed _) = 5"
| "calls_left (C_Delete _ _) = 4"
| "calls_left (C_Probe _ _) = 3"
| "calls_left (C_Row _) = 2"
| "calls_left (C_Virtual_Row _) = 2"
| "calls_left (C_Restore _) = 1"
| "calls_left (C_Done _) = 0"

lemma step_comes_closer:
  "calls_left (fst (cleanup_step r now st w)) \<le> calls_left st - 1"
  by (cases st) (auto simp: Let_def case_prod_beta split: sum.splits option.splits)

lemma calls_left_0: "calls_left st = 0 \<longleftrightarrow> (\<exists>b. st = C_Done b)"
  by (cases st) auto

lemma run_comes_closer: "calls_left (fst (cleanup_run replies clock n st w)) \<le> calls_left st - n"
proof (induction n arbitrary: replies clock st w)
  case (Suc n)
  obtain st' w' where s: "cleanup_step (replies 0) (clock 0) st w = (st', w')" by fastforce
  have "calls_left st' \<le> calls_left st - 1" using step_comes_closer [of "replies 0" "clock 0" st w] s by simp
  then show ?case
    using Suc.IH [of "\<lambda>k. replies (Suc k)" "\<lambda>k. clock (Suc k)" st' w'] s by simp
qed simp

lemma run_ends: "calls_left st \<le> n \<Longrightarrow> \<exists>res w'. cleanup_run replies clock n st w = (C_Done res, w')"
  using run_comes_closer [of replies clock n st w] calls_left_0 [of "fst (cleanup_run replies clock n st w)"]
  by (cases "cleanup_run replies clock n st w") auto

text \<open>The handler holds the claim: the row is still there, marked, and keeps its place in the storage.\<close>

definition same_place :: "file_blob \<Rightarrow> file_blob \<Rightarrow> bool" where
  "same_place a b = (fb_policy_id a = fb_policy_id b \<and> fb_storage_path a = fb_storage_path b
     \<and> fb_backing a = fb_backing b)"

definition holds_claim :: "file_blob \<Rightarrow> blob_table \<Rightarrow> bool" where
  "holds_claim b tbl = (\<exists>r. find_key fb_id (fb_id b) tbl = Some r
     \<and> fb_ref_count r = BLOB_CLEANUP_CLAIMED_REF_COUNT \<and> same_place r b)"

definition object_gone :: "file_blob \<Rightarrow> (int \<times> string) set \<Rightarrow> bool" where
  "object_gone b objs = (\<forall>p. storage_path_for_connector b = Some p \<longrightarrow> (fb_policy_id b, p) \<notin> objs)"

definition others_kept :: "int \<Rightarrow> blob_world \<Rightarrow> blob_world \<Rightarrow> bool" where
  "others_kept i w0 w =
     (filter (\<lambda>b. fb_id b \<noteq> i) (bw_blobs w) = filter (\<lambda>b. fb_id b \<noteq> i) (bw_blobs w0)
      \<and> bw_file_refs w = bw_file_refs w0 \<and> bw_revision_refs w = bw_revision_refs w0
      \<and> unique_key fb_id (bw_blobs w))"

text \<open>
  What a handler for blob \<open>i\<close> that started in \<open>w0\<close> has done when it reaches a stage; \<open>ok\<close> tells whether all its
  database statements succeeded.
\<close>

definition done_ok :: "bool \<Rightarrow> bool \<Rightarrow> int \<Rightarrow> blob_world \<Rightarrow> bool \<Rightarrow> blob_world \<Rightarrow> bool" where
  "done_ok ensure ok i w0 res w =
     (case find_key fb_id i (bw_blobs w0) of
        None \<Rightarrow> bw_blobs w = bw_blobs w0 \<and> (ok \<longrightarrow> res)
      | Some b \<Rightarrow>
          if res
          then fb_ref_count b = 0 \<and> find_key fb_id i (bw_blobs w) = None \<and> object_gone b (bw_objects w)
               \<or> ensure \<and> fb_ref_count b \<noteq> 0 \<and> bw_blobs w = bw_blobs w0
          else (\<exists>r. find_key fb_id i (bw_blobs w) = Some r \<and> same_place r b
                 \<and> (fb_ref_count r = fb_ref_count b
                    \<or> \<not> ok \<and> fb_ref_count r = BLOB_CLEANUP_CLAIMED_REF_COUNT)))"

fun stage_ok :: "bool \<Rightarrow> bool \<Rightarrow> int \<Rightarrow> blob_world \<Rightarrow> cleanup_stage \<Rightarrow> blob_world \<Rightarrow> bool" where
  "stage_ok ensure ok i w0 (C_Reload e j) w = (e = ensure \<and> j = i \<and> w = w0)"
| "stage_ok ensure ok i w0 (C_Claim e b) w =
     (e = ensure \<and> w = w0 \<and> find_key fb_id i (bw_blobs w0) = Some b \<and> fb_ref_count b = 0)"
| "stage_ok ensure ok i w0 (C_Restore j) w =
     (j = i \<and> (\<exists>b. find_key fb_id i (bw_blobs w0) = Some b \<and> fb_ref_count b = 0 \<and> holds_claim b (bw_blobs w)))"
| "stage_ok ensure ok i w0 (C_Done res) w = done_ok ensure ok i w0 res w"
| "stage_ok ensure ok i w0 (C_Claimed b) w =
     (find_key fb_id i (bw_blobs w0) = Some b \<and> fb_ref_count b = 0 \<and> holds_claim b (bw_blobs w))"
| "stage_ok ensure ok i w0 (C_Virtual_Row b) w =
     (find_key fb_id i (bw_blobs w0) = Some b \<and> fb_ref_count b = 0 \<and> holds_claim b (bw_blobs w)
      \<and> is_virtual_empty b)"
| "stage_ok ensure ok i w0 (C_Delete b p) w =
     (find_key fb_id i (bw_blobs w0) = Some b \<and> fb_ref_count b = 0 \<and> holds_claim b (bw_blobs w)
      \<and> storage_path_for_connector b = Some p)"
| "stage_ok ensure ok i w0 (C_Probe b p) w =
     (find_key fb_id i (bw_blobs w0) = Some b \<and> fb_ref_count b = 0 \<and> holds_claim b (bw_blobs w)
      \<and> storage_path_for_connector b = Some p)"
| "stage_ok ensure ok i w0 (C_Row b) w =
     (find_key fb_id i (bw_blobs w0) = Some b \<and> fb_ref_count b = 0 \<and> holds_claim b (bw_blobs w)
      \<and> object_gone b (bw_objects w))"

interpretation claim_blob_ku: keyed_update fb_id i "\<lambda>b. fb_id b = i \<and> fb_ref_count b = 0" "claim_blob_row now" for i now
  by unfold_locales (auto simp: claim_blob_row_def)

interpretation restore_blob_ku: keyed_update fb_id i
    "\<lambda>b. fb_id b = i \<and> fb_ref_count b = BLOB_CLEANUP_CLAIMED_REF_COUNT" "restore_blob_row now" for i now
  by unfold_locales (auto simp: restore_blob_row_def)

interpretation clear_thumbnail_ku: keyed_update fb_id i "\<lambda>b. fb_id b = i" "clear_thumbnail_row now" for i now
  by unfold_locales (auto simp: clear_thumbnail_row_def)

lemma exec_one_others:
  assumes "\<And>r. fb_id (f r) = fb_id r" "\<And>r. p r \<Longrightarrow> fb_id r = i"
  shows "filter (\<lambda>b. fb_id b \<noteq> i) (fst (exec_one p f t)) = filter (\<lambda>b. fb_id b \<noteq> i) t"
  using assms by (induction t) (auto simp: exec_one_def)

lemma claim_others:
  "filter (\<lambda>b. fb_id b \<noteq> i) (fst (claim_blob_cleanup now i t)) = filter (\<lambda>b. fb_id b \<noteq> i) t"
  "filter (\<lambda>b. fb_id b \<noteq> i) (fst (restore_blob_cleanup_claim now i t)) = filter (\<lambda>b. fb_id b \<noteq> i) t"
  "filter (\<lambda>b. fb_id b \<noteq> i) (fst (clear_thumbnail_metadata now i t)) = filter (\<lambda>b. fb_id b \<noteq> i) t"
  "filter (\<lambda>b. fb_id b \<noteq> i) (fst (delete_blob_if_cleanup_claimed i t)) = filter (\<lambda>b. fb_id b \<noteq> i) t"
  unfolding claim_blob_cleanup_def restore_blob_cleanup_claim_def clear_thumbnail_metadata_def
  by (rule exec_one_others; simp add: claim_blob_row_def restore_blob_row_def clear_thumbnail_row_def)+
     (auto simp: delete_blob_if_cleanup_claimed_def case_prod_beta Let_def intro!: filter_cong)

lemma claim_unique:
  "unique_key fb_id (fst (claim_blob_cleanup now i t)) = unique_key fb_id t"
  "unique_key fb_id (fst (restore_blob_cleanup_claim now i t)) = unique_key fb_id t"
  "unique_key fb_id (fst (clear_thumbnail_metadata now i t)) = unique_key fb_id t"
  "unique_key fb_id t \<Longrightarrow> unique_key fb_id (fst (delete_blob_if_cleanup_claimed i t))"
  unfolding claim_blob_cleanup_def restore_blob_cleanup_claim_def clear_thumbnail_metadata_def
  by (rule claim_blob_ku.keeps_unique restore_blob_ku.keeps_unique clear_thumbnail_ku.keeps_unique)+
     (simp add: delete_blob_if_cleanup_claimed_def case_prod_beta Let_def unique_key_def distinct_map_filter)

lemma claim_success:
  assumes "unique_key fb_id t" "find_key fb_id i t = Some b" "fb_ref_count b = 0"
  shows "snd (claim_blob_cleanup now i t)"
    "find_key fb_id i (fst (claim_blob_cleanup now i t)) = Some (claim_blob_row now b)"
  using assms find_key_SomeD [OF assms(2)] claim_blob_ku.success_iff [OF assms(1), of i]
    claim_blob_ku.its_row [of i]
  by (auto simp: claim_blob_cleanup_def)

lemma held_row:
  assumes "unique_key fb_id t" "holds_claim b t"
  obtains r where "r \<in> set t" "fb_id r = fb_id b" "fb_ref_count r = BLOB_CLEANUP_CLAIMED_REF_COUNT" "same_place r b"
    "find_key fb_id (fb_id b) t = Some r"
  using assms find_key_SomeD unfolding holds_claim_def by metis

lemma restore_success:
  assumes "unique_key fb_id t" "holds_claim b t"
  shows "\<exists>r. find_key fb_id (fb_id b) (fst (restore_blob_cleanup_claim now (fb_id b) t)) = Some r
     \<and> fb_ref_count r = 0 \<and> same_place r b"
proof -
  obtain r where r: "find_key fb_id (fb_id b) t = Some r" "fb_ref_count r = BLOB_CLEANUP_CLAIMED_REF_COUNT"
    "same_place r b" "fb_id r = fb_id b"
    using held_row [OF assms] by blast
  then show ?thesis
    using restore_blob_ku.its_row [of "fb_id b" now t]
    by (auto simp: restore_blob_cleanup_claim_def restore_blob_row_def same_place_def)
qed

lemma thumbnail_holds:
  assumes "holds_claim b t"
  shows "holds_claim b (fst (clear_thumbnail_metadata now (fb_id b) t))"
proof -
  obtain r where r: "find_key fb_id (fb_id b) t = Some r" "fb_ref_count r = BLOB_CLEANUP_CLAIMED_REF_COUNT"
    "same_place r b" using assms by (auto simp: holds_claim_def)
  then have "find_key fb_id (fb_id b) (fst (clear_thumbnail_metadata now (fb_id b) t)) = Some (clear_thumbnail_row now r)"
    using clear_thumbnail_ku.its_row [of "fb_id b" now t] find_key_SomeD [OF r(1)]
    by (simp add: clear_thumbnail_metadata_def)
  then show ?thesis using r unfolding holds_claim_def
    by (intro exI [of _ "clear_thumbnail_row now r"]) (simp add: clear_thumbnail_row_def same_place_def)
qed

lemma delete_claimed_success:
  assumes "unique_key fb_id t" "holds_claim b t"
  shows "snd (delete_blob_if_cleanup_claimed (fb_id b) t)"
    "find_key fb_id (fb_id b) (fst (delete_blob_if_cleanup_claimed (fb_id b) t)) = None"
proof -
  let ?p = "\<lambda>x. fb_id x = fb_id b \<and> fb_ref_count x = BLOB_CLEANUP_CLAIMED_REF_COUNT"
  obtain r where r: "r \<in> set t" "?p r" "find_key fb_id (fb_id b) t = Some r" using held_row [OF assms] by metis
  have "count_where ?p t \<le> 1" by (rule count_where_unique_key [OF assms(1)]) simp
  moreover have "0 < count_where ?p t" using r by (auto simp: count_where_pos_iff)
  ultimately show "snd (delete_blob_if_cleanup_claimed (fb_id b) t)"
    by (simp add: delete_blob_if_cleanup_claimed_def case_prod_beta Let_def)
  show "find_key fb_id (fb_id b) (fst (delete_blob_if_cleanup_claimed (fb_id b) t)) = None"
  proof -
    have "\<not> (\<exists>x \<in> set t. \<not> ?p x \<and> fb_id x = fb_id b)" using r(2) find_key_only [OF assms(1) r(3)] by blast
    then show ?thesis
      by (auto simp: find_key_None_iff delete_blob_if_cleanup_claimed_def delete_where_def)
  qed
qed

lemma delete_thumbnail_world:
  assumes "delete_thumbnail_with_driver r now b w = (w', ok)"
  shows "bw_file_refs w' = bw_file_refs w \<and> bw_revision_refs w' = bw_revision_refs w
    \<and> (bw_blobs w' = bw_blobs w \<or> bw_blobs w' = fst (clear_thumbnail_metadata now (fb_id b) (bw_blobs w)))"
  using assms by (auto simp: delete_thumbnail_with_driver_def Let_def case_prod_beta split: if_splits)

lemma held_done:
  assumes "find_key fb_id i (bw_blobs w0) = Some b" "fb_ref_count b = 0" "holds_claim b (bw_blobs w)"
    "unique_key fb_id (bw_blobs w)" "ok \<longrightarrow> cr_db_ok r"
  shows "done_ok ensure ok i w0 False (snd (cleanup_step r now (C_Restore i) w))"
proof -
  have i: "fb_id b = i" using find_key_SomeD [OF assms(1)] by simp
  show ?thesis
    using restore_success [OF assms(4,3), of now] assms i
    by (auto simp: done_ok_def holds_claim_def)
qed

lemma step_stage_ok:
  assumes "stage_ok ensure ok i w0 st w" "others_kept i w0 w" "ok \<longrightarrow> cr_db_ok r"
    "cleanup_step r now st w = (st', w')"
  shows "stage_ok ensure ok i w0 st' w' \<and> others_kept i w0 w'"
proof -
  have u: "unique_key fb_id (bw_blobs w)" using assms(2) by (simp add: others_kept_def)
  show ?thesis
  proof (cases st)
    case (C_Reload e j)
    then show ?thesis using assms find_key_SomeD [of fb_id i "bw_blobs w0"]
      by (auto simp: find_blob_by_id_def done_ok_def same_place_def BLOB_CLEANUP_CLAIMED_REF_COUNT_def
          split: if_splits sum.splits option.splits)
  next
    case (C_Claim e b)
    then have b: "find_key fb_id i (bw_blobs w) = Some b" "fb_ref_count b = 0" "fb_id b = i" "w = w0"
      using assms find_key_SomeD by fastforce+
    show ?thesis
      using C_Claim assms b claim_success [OF u b(1,2), of now] claim_others(1) [of i now "bw_blobs w"]
        claim_unique(1) [of now i "bw_blobs w"]
      by (auto simp: Let_def case_prod_beta holds_claim_def others_kept_def done_ok_def same_place_def
          claim_blob_row_def split: if_splits)
  next
    case (C_Claimed b)
    then have b: "find_key fb_id i (bw_blobs w0) = Some b" "fb_ref_count b = 0" "fb_id b = i" "holds_claim b (bw_blobs w)"
      using assms find_key_SomeD by fastforce+
    obtain w1 k where d: "delete_thumbnail_with_driver r now b w = (w1, k)" by fastforce
    have "holds_claim b (bw_blobs w1)" "others_kept i w0 w1"
      using delete_thumbnail_world [OF d] b thumbnail_holds [of b "bw_blobs w" now] assms(2)
        claim_others(3) [of i now "bw_blobs w"] claim_unique(3) [of now i "bw_blobs w"]
      by (auto simp: others_kept_def)
    then show ?thesis using C_Claimed assms b d
      by (auto simp: Let_def split: if_splits option.splits)
  next
    case (C_Virtual_Row b)
    then have b: "find_key fb_id i (bw_blobs w0) = Some b" "fb_id b = i" "holds_claim b (bw_blobs w)"
      using assms find_key_SomeD by fastforce+
    show ?thesis
      using C_Virtual_Row assms b delete_claimed_success [OF u b(3)] claim_others(4) [of i "bw_blobs w"]
        claim_unique(4) [OF u, of i]
      by (auto simp: Let_def case_prod_beta others_kept_def done_ok_def object_gone_def
          storage_path_for_connector_def has_connector_object_def is_virtual_empty_def split: if_splits)
  next
    case (C_Delete b p)
    then show ?thesis using assms
      by (auto simp: others_kept_def object_gone_def object_delete_def split: if_splits)
  next
    case (C_Probe b p)
    then show ?thesis using assms find_key_SomeD [of fb_id i "bw_blobs w0"]
      by (auto simp: object_gone_def split: if_splits)
  next
    case (C_Row b)
    then have b: "find_key fb_id i (bw_blobs w0) = Some b" "fb_id b = i" "holds_claim b (bw_blobs w)"
      using assms find_key_SomeD by fastforce+
    show ?thesis
      using C_Row assms b delete_claimed_success [OF u b(3)] claim_others(4) [of i "bw_blobs w"]
        claim_unique(4) [OF u, of i]
      by (auto simp: Let_def case_prod_beta others_kept_def done_ok_def split: if_splits)
  next
    case (C_Restore j)
    then show ?thesis
      using assms held_done [of i w0 _ w ok r ensure now] u claim_others(2) [of i now "bw_blobs w"]
        claim_unique(2) [of now i "bw_blobs w"]
      by (auto simp: others_kept_def split: if_splits)
  next
    case (C_Done res)
    then show ?thesis using assms by auto
  qed
qed

lemma run_stage_ok:
  assumes "stage_ok ensure ok i w0 st w" "others_kept i w0 w" "\<forall>k. ok \<longrightarrow> cr_db_ok (replies k)"
    "cleanup_run replies clock n st w = (st', w')"
  shows "stage_ok ensure ok i w0 st' w' \<and> others_kept i w0 w'"
  using assms
proof (induction n arbitrary: replies clock st w)
  case (Suc n)
  obtain st1 w1 where s: "cleanup_step (replies 0) (clock 0) st w = (st1, w1)" by fastforce
  have "stage_ok ensure ok i w0 st1 w1 \<and> others_kept i w0 w1"
    using step_stage_ok [OF Suc.prems(1,2) _ s] Suc.prems(3) by blast
  then show ?case using Suc.IH [of st1 w1 "\<lambda>k. replies (Suc k)" "\<lambda>k. clock (Suc k)"] Suc.prems(3,4) s by auto
qed simp

lemma cleanup_outcome:
  assumes "unique_key fb_id (bw_blobs w)"
  shows "\<exists>res w'. cleanup_run replies clock CLEANUP_CALLS (C_Reload ensure i) w = (C_Done res, w')
    \<and> done_ok ensure (\<forall>k. cr_db_ok (replies k)) i w res w' \<and> others_kept i w w'"
proof -
  obtain res w' where r: "cleanup_run replies clock CLEANUP_CALLS (C_Reload ensure i) w = (C_Done res, w')"
    using run_ends [of "C_Reload ensure i" CLEANUP_CALLS replies clock w] by (auto simp: CLEANUP_CALLS_def)
  have "others_kept i w w" using assms by (simp add: others_kept_def)
  then show ?thesis
    using run_stage_ok [OF _ _ _ r, of ensure "\<forall>k. cr_db_ok (replies k)" i w] r by auto
qed

text \<open>
  (C33) The cleanup of one blob, whatever the database and the storage driver answer. The handler always
  comes to an end and touches no other row and no reference. It reports success only when there was no
  such row or when the row had no references and both the row and its stored object are gone; when it
  reports failure the row is still there, at the same place of the storage, with the reference count it
  had: the claim has been handed back, unless a database statement failed as well.
\<close>

theorem cleanup_removes_object_and_row_or_hands_back:
  assumes "unique_key fb_id (bw_blobs w)"
  shows "\<exists>res w'. cleanup_unreferenced_blob replies clock b w = (C_Done res, w')
    \<and> others_kept (fb_id b) w w'
    \<and> (case find_key fb_id (fb_id b) (bw_blobs w) of
         None \<Rightarrow> bw_blobs w' = bw_blobs w
       | Some r \<Rightarrow>
           (if res
            then fb_ref_count r = 0 \<and> find_key fb_id (fb_id b) (bw_blobs w') = None \<and> object_gone r (bw_objects w')
            else \<exists>r'. find_key fb_id (fb_id b) (bw_blobs w') = Some r' \<and> same_place r' r
                   \<and> (fb_ref_count r' = fb_ref_count r
                      \<or> (\<exists>k. \<not> cr_db_ok (replies k)) \<and> fb_ref_count r' = BLOB_CLEANUP_CLAIMED_REF_COUNT)))"
proof -
  obtain res w' where r: "cleanup_run replies clock CLEANUP_CALLS (C_Reload False (fb_id b)) w = (C_Done res, w')"
    "done_ok False (\<forall>k. cr_db_ok (replies k)) (fb_id b) w res w'" "others_kept (fb_id b) w w'"
    using cleanup_outcome [OF assms] by blast
  then show ?thesis
    unfolding cleanup_unreferenced_blob_def cleanup_unreferenced_blob_with_driver_def
    by (intro exI [of _ res] exI [of _ w']) (auto simp: done_ok_def split: option.splits if_splits)
qed

definition ex_orphan :: file_blob where
  "ex_orphan = ex_blob\<lparr>fb_ref_count := 0, fb_cleanup_pending_since := Some 20\<rparr>"

definition ex_orphan_world :: blob_world where
  "ex_orphan_world = \<lparr>bw_blobs = [ex_orphan], bw_objects = {(1, ''files/ab/c'')}, bw_file_refs = [],
     bw_revision_refs = []\<rparr>"

definition ex_replies :: cleanup_replies where
  "ex_replies = \<lparr>cr_db_ok = True, cr_policy_known = True, cr_driver_ok = True, cr_derived = [''thumb/abc''],
     cr_delete = (\<lambda>_. Deleted), cr_probe_ok = (\<lambda>_. True)\<rparr>"

lemma ex_orphan_row:
  "fb_id ex_orphan = 3" "fb_ref_count ex_orphan = 0" "fb_policy_id ex_orphan = 1" "fb_backing ex_orphan = Stored"
  "fb_storage_path ex_orphan = Some ''files/ab/c''" "fb_cleanup_pending_since ex_orphan = Some 20"
  by (simp_all add: ex_orphan_def ex_blob_def new_blob_row_def)

theorem cleanup_removes_object_and_row_or_hands_back_witness:
  "unique_key fb_id (bw_blobs ex_orphan_world)
   \<and> (\<exists>w'. cleanup_unreferenced_blob (\<lambda>_. ex_replies) (\<lambda>_. 50) ex_orphan ex_orphan_world = (C_Done True, w')
        \<and> find_key fb_id 3 (bw_blobs w') = None \<and> bw_objects w' = {})"
proof -
  have u: "unique_key fb_id (bw_blobs ex_orphan_world)" by (simp add: ex_orphan_world_def unique_key_def)
  define w' where "w' = ex_orphan_world\<lparr>bw_blobs := [], bw_objects := {}\<rparr>"
  have run: "cleanup_unreferenced_blob (\<lambda>_. ex_replies) (\<lambda>_. 50) ex_orphan ex_orphan_world = (C_Done True, w')"
    by (simp add: w'_def cleanup_unreferenced_blob_def cleanup_unreferenced_blob_with_driver_def CLEANUP_CALLS_def
        eval_nat_numeral ex_orphan_world_def ex_replies_def find_blob_by_id_def find_key_def ex_orphan_row
        BLOB_CLEANUP_CLAIMED_REF_COUNT_def claim_blob_cleanup_def exec_one_def claim_blob_row_def
        is_virtual_empty_def storage_path_for_connector_def has_connector_object_def
        delete_thumbnail_with_driver_def clear_thumbnail_metadata_def clear_thumbnail_row_def object_delete_def
        delete_blob_if_cleanup_claimed_def delete_where_def)
  have "find_key fb_id 3 (bw_blobs ex_orphan_world) = Some ex_orphan"
    by (simp add: ex_orphan_world_def find_key_def ex_orphan_row)
  then have "find_key fb_id 3 (bw_blobs w') = None"
    using cleanup_removes_object_and_row_or_hands_back [OF u, of "\<lambda>_. ex_replies" "\<lambda>_. 50" ex_orphan] run
    by (auto simp: ex_orphan_row split: if_splits)
  then show ?thesis using u run by (auto simp: w'_def)
qed

section \<open>Handlers among uploads, copies and deletions\<close>

record blob_system =
  bz_world :: blob_world
  bz_next_id :: int
  bz_handlers :: "cleanup_stage list"

abbreviation bz_blobs :: "blob_system \<Rightarrow> blob_table" where
  "bz_blobs s \<equiv> bw_blobs (bz_world s)"

definition actual_refs :: "blob_world \<Rightarrow> int \<Rightarrow> nat" where
  "actual_refs w i = count_list (bw_file_refs w) i + count_list (bw_revision_refs w) i"

definition object_present :: "file_blob \<Rightarrow> (int \<times> string) set \<Rightarrow> bool" where
  "object_present b objs = (\<forall>p. storage_path_for_connector b = Some p \<longrightarrow> (fb_policy_id b, p) \<in> objs)"

text \<open>The blob a handler works on under a claim.\<close>

fun claim_id :: "cleanup_stage \<Rightarrow> int option" where
  "claim_id (C_Claimed b) = Some (fb_id b)"
| "claim_id (C_Virtual_Row b) = Some (fb_id b)"
| "claim_id (C_Delete b p) = Some (fb_id b)"
| "claim_id (C_Probe b p) = Some (fb_id b)"
| "claim_id (C_Row b) = Some (fb_id b)"
| "claim_id (C_Restore i) = Some i"
| "claim_id _ = None"

text \<open>
  The steps of the system. \<open>stage\<close>: an upload stores an object. \<open>publish\<close>: an upload creates a row for an object it
  has stored under a new path. \<open>upload_known\<close>: an upload takes or creates the row of its content hash, and the
  object is there when it does. \<open>upload_empty\<close>: the same for the empty content, which has no object. \<open>copy\<close>: one
  more file or revision for a blob in use. \<open>demote\<close> and \<open>promote\<close>: overwriting and restoring turn a file's
  reference into a revision's and back. \<open>release\<close>: a file or revision is removed. \<open>spawn\<close> and \<open>handle\<close>: a
  cleanup handler starts and makes its next call. \<open>reconcile\<close> and \<open>admin_reconcile\<close>: the two repair jobs.
\<close>

inductive blob_step :: "blob_system \<Rightarrow> blob_system \<Rightarrow> bool" where
  stage: "blob_step s (s\<lparr>bz_world := (bz_world s)\<lparr>bw_objects := insert key (bw_objects (bz_world s))\<rparr>\<rparr>)"
| publish: "w = bz_world s \<Longrightarrow> row = new_blob_row now (bz_next_id s) hash sz policy path backing
   \<Longrightarrow> create_blob now row (bw_blobs w) = Inr (tbl', row') \<Longrightarrow> object_present row (bw_objects w)
   \<Longrightarrow> (\<forall>b \<in> set (bw_blobs w). fb_backing b = Stored \<longrightarrow> fb_backing row = Stored
          \<longrightarrow> fb_policy_id b = policy \<longrightarrow> fb_storage_path b \<noteq> path)
   \<Longrightarrow> blob_step s (s\<lparr>bz_world := w\<lparr>bw_blobs := tbl', bw_file_refs := bz_next_id s # bw_file_refs w\<rparr>,
                     bz_next_id := bz_next_id s + 1\<rparr>)"
| upload_known: "w = bz_world s
   \<Longrightarrow> find_or_create_blob (\<lambda>_ t. t) now (bz_next_id s) hash sz policy path (bw_blobs w) = (tbl', Inr res)
   \<Longrightarrow> object_present (fr_model res) (bw_objects w)
   \<Longrightarrow> (fr_inserted res \<longrightarrow> (\<forall>b \<in> set (bw_blobs w). fb_backing b = Stored \<longrightarrow> fb_policy_id b = policy
          \<longrightarrow> fb_storage_path b \<noteq> Some path))
   \<Longrightarrow> blob_step s (s\<lparr>bz_world := w\<lparr>bw_blobs := tbl', bw_file_refs := fb_id (fr_model res) # bw_file_refs w\<rparr>,
                     bz_next_id := bz_next_id s + 1\<rparr>)"
| upload_empty: "w = bz_world s
   \<Longrightarrow> find_or_create_virtual_empty_blob (\<lambda>_ t. t) now (bz_next_id s) hash policy (bw_blobs w) = (tbl', Inr res)
   \<Longrightarrow> blob_step s (s\<lparr>bz_world := w\<lparr>bw_blobs := tbl', bw_file_refs := fb_id (fr_model res) # bw_file_refs w\<rparr>,
                     bz_next_id := bz_next_id s + 1\<rparr>)"
| copy: "w = bz_world s \<Longrightarrow> 0 < actual_refs w i \<Longrightarrow> increment_blob_ref_count now i (bw_blobs w) = Inr tbl'
   \<Longrightarrow> blob_step s (s\<lparr>bz_world := w\<lparr>bw_blobs := tbl', bw_file_refs := i # bw_file_refs w\<rparr>\<rparr>)"
| demote: "w = bz_world s \<Longrightarrow> i \<in> set (bw_file_refs w)
   \<Longrightarrow> blob_step s (s\<lparr>bz_world := w\<lparr>bw_file_refs := remove1 i (bw_file_refs w),
                                   bw_revision_refs := i # bw_revision_refs w\<rparr>\<rparr>)"
| promote: "w = bz_world s \<Longrightarrow> i \<in> set (bw_revision_refs w)
   \<Longrightarrow> blob_step s (s\<lparr>bz_world := w\<lparr>bw_revision_refs := remove1 i (bw_revision_refs w),
                                   bw_file_refs := i # bw_file_refs w\<rparr>\<rparr>)"
| release_file: "w = bz_world s \<Longrightarrow> i \<in> set (bw_file_refs w)
   \<Longrightarrow> blob_step s (s\<lparr>bz_world := w\<lparr>bw_blobs := decrement_blob_ref_count now i (bw_blobs w),
                                   bw_file_refs := remove1 i (bw_file_refs w)\<rparr>\<rparr>)"
| release_revision: "w = bz_world s \<Longrightarrow> i \<in> set (bw_revision_refs w)
   \<Longrightarrow> blob_step s (s\<lparr>bz_world := w\<lparr>bw_blobs := decrement_blob_ref_count now i (bw_blobs w),
                                   bw_revision_refs := remove1 i (bw_revision_refs w)\<rparr>\<rparr>)"
| spawn: "blob_step s (s\<lparr>bz_handlers := C_Reload ensure i # bz_handlers s\<rparr>)"
| handle: "k < length (bz_handlers s) \<Longrightarrow> cleanup_step r now (bz_handlers s ! k) (bz_world s) = (st', w')
   \<Longrightarrow> (\<forall>b \<in> set (bz_blobs s). \<forall>p. fb_storage_path b = Some p \<longrightarrow> p \<notin> set (cr_derived r))
   \<Longrightarrow> blob_step s (s\<lparr>bz_world := w', bz_handlers := (bz_handlers s)[k := st']\<rparr>)"
| reconcile: "reconcile_single_blob_ref_count now i (bz_world s) = Inr (w', out)
   \<Longrightarrow> (\<forall>b \<in> set (bz_blobs s). fb_id b = i \<longrightarrow> blob_cleanup_claim_is_stale now b
          \<longrightarrow> Some i \<notin> claim_id ` set (bz_handlers s))
   \<Longrightarrow> blob_step s (s\<lparr>bz_world := w'\<rparr>)"
| admin_reconcile: "admin_reconcile_single_blob_ref_count out_of_range now i (bz_world s) = Inr (w', out)
   \<Longrightarrow> blob_step s (s\<lparr>bz_world := w'\<rparr>)"

section \<open>The invariant\<close>

text \<open>Counts are exact, except on claimed rows, which have no references.\<close>

definition count_exact :: "blob_world \<Rightarrow> file_blob \<Rightarrow> bool" where
  "count_exact w b = (fb_ref_count b = int (actual_refs w (fb_id b))
     \<or> fb_ref_count b = BLOB_CLEANUP_CLAIMED_REF_COUNT \<and> actual_refs w (fb_id b) = 0)"

text \<open>No two rows share a stored object.\<close>

definition places_distinct :: "blob_table \<Rightarrow> bool" where
  "places_distinct tbl = (\<forall>a \<in> set tbl. \<forall>b \<in> set tbl. fb_backing a = Stored \<longrightarrow> fb_backing b = Stored
     \<longrightarrow> fb_policy_id a = fb_policy_id b \<longrightarrow> fb_storage_path a = fb_storage_path b \<longrightarrow> fb_id a = fb_id b)"

definition rows_exact :: "blob_world \<Rightarrow> bool" where
  "rows_exact w = (blob_table_ok (bw_blobs w) \<and> places_distinct (bw_blobs w)
     \<and> (\<forall>b \<in> set (bw_blobs w). count_exact w b)
     \<and> (\<forall>i. 0 < actual_refs w i \<longrightarrow> i \<in> fb_id ` set (bw_blobs w)))"

definition objects_kept :: "blob_world \<Rightarrow> bool" where
  "objects_kept w = (\<forall>b \<in> set (bw_blobs w). 0 < actual_refs w (fb_id b) \<longrightarrow> object_present b (bw_objects w))"

text \<open>What a handler knows is still true of the row, if the row still exists.\<close>

definition snapshot_ok :: "int \<Rightarrow> file_blob \<Rightarrow> blob_table \<Rightarrow> bool" where
  "snapshot_ok n b tbl = (fb_id b < n \<and> (\<forall>r \<in> set tbl. fb_id r = fb_id b \<longrightarrow> same_place r b))"

definition row_claimed :: "int \<Rightarrow> blob_table \<Rightarrow> bool" where
  "row_claimed i tbl = (\<exists>r \<in> set tbl. fb_id r = i \<and> fb_ref_count r = BLOB_CLEANUP_CLAIMED_REF_COUNT)"

fun handler_ok :: "int \<Rightarrow> blob_table \<Rightarrow> cleanup_stage \<Rightarrow> bool" where
  "handler_ok n tbl (C_Reload e i) = True"
| "handler_ok n tbl (C_Claim e b) = snapshot_ok n b tbl"
| "handler_ok n tbl (C_Claimed b) = (snapshot_ok n b tbl \<and> row_claimed (fb_id b) tbl)"
| "handler_ok n tbl (C_Virtual_Row b) = (snapshot_ok n b tbl \<and> row_claimed (fb_id b) tbl)"
| "handler_ok n tbl (C_Delete b p) =
     (snapshot_ok n b tbl \<and> row_claimed (fb_id b) tbl \<and> storage_path_for_connector b = Some p)"
| "handler_ok n tbl (C_Probe b p) =
     (snapshot_ok n b tbl \<and> row_claimed (fb_id b) tbl \<and> storage_path_for_connector b = Some p)"
| "handler_ok n tbl (C_Row b) = (snapshot_ok n b tbl \<and> row_claimed (fb_id b) tbl)"
| "handler_ok n tbl (C_Restore i) = (i < n \<and> row_claimed i tbl)"
| "handler_ok n tbl (C_Done res) = True"

text \<open>No two handlers hold one claim.\<close>

definition claims_exclusive :: "cleanup_stage list \<Rightarrow> bool" where
  "claims_exclusive hs = (\<forall>j < length hs. \<forall>k < length hs. j \<noteq> k \<longrightarrow> claim_id (hs ! j) \<noteq> None
     \<longrightarrow> claim_id (hs ! j) \<noteq> claim_id (hs ! k))"

definition blob_system_ok :: "blob_system \<Rightarrow> bool" where
  "blob_system_ok s =
     (rows_exact (bz_world s) \<and> objects_kept (bz_world s)
      \<and> (\<forall>b \<in> set (bz_blobs s). fb_id b < bz_next_id s)
      \<and> (\<forall>h \<in> set (bz_handlers s). handler_ok (bz_next_id s) (bz_blobs s) h)
      \<and> claims_exclusive (bz_handlers s))"

section \<open>Every step keeps the invariant\<close>

lemma count_list_remove1: "count_list (remove1 a xs) b = (if a = b then count_list xs b - 1 else count_list xs b)"
  by (induction xs) (auto simp: count_list_0_iff)

lemma count_list_pos: "0 < count_list xs a \<longleftrightarrow> a \<in> set xs"
  by (induction xs) auto

lemma rows_exact_map:
  assumes "rows_exact w" "bw_blobs w' = map g (bw_blobs w)" "blob_table_ok (bw_blobs w')"
    and g: "\<And>b. b \<in> set (bw_blobs w) \<Longrightarrow> fb_id (g b) = fb_id b \<and> same_place (g b) b \<and> count_exact w' (g b)"
    and refs: "\<And>i. 0 < actual_refs w' i \<Longrightarrow> i \<in> fb_id ` set (bw_blobs w)"
  shows "rows_exact w'"
proof -
  have pd: "places_distinct (bw_blobs w)" using assms(1) by (simp add: rows_exact_def)
  have pl: "fb_backing (g b) = fb_backing b" "fb_policy_id (g b) = fb_policy_id b"
    "fb_storage_path (g b) = fb_storage_path b" "fb_id (g b) = fb_id b" if "b \<in> set (bw_blobs w)" for b
    using g [OF that] by (auto simp: same_place_def)
  have "places_distinct (bw_blobs w')"
    unfolding places_distinct_def assms(2)
  proof (intro ballI impI)
    fix x y
    assume xy: "x \<in> set (map g (bw_blobs w))" "y \<in> set (map g (bw_blobs w))" "fb_backing x = Stored"
      "fb_backing y = Stored" "fb_policy_id x = fb_policy_id y" "fb_storage_path x = fb_storage_path y"
    then obtain a b where "a \<in> set (bw_blobs w)" "x = g a" "b \<in> set (bw_blobs w)" "y = g b" by auto
    then show "fb_id x = fb_id y" using xy(3-6) pl [of a] pl [of b] pd unfolding places_distinct_def by metis
  qed
  moreover have "fb_id ` set (bw_blobs w') = fb_id ` set (bw_blobs w)"
    using g unfolding assms(2) by (auto simp: image_iff)
  ultimately show ?thesis using assms(2,3) g refs by (auto simp: rows_exact_def)
qed

lemma objects_kept_map:
  assumes "objects_kept w" "bw_blobs w' = map g (bw_blobs w)"
    and g: "\<And>b. b \<in> set (bw_blobs w) \<Longrightarrow> fb_id (g b) = fb_id b \<and> same_place (g b) b"
    and o': "\<And>b. b \<in> set (bw_blobs w) \<Longrightarrow> 0 < actual_refs w' (fb_id b) \<Longrightarrow> object_present b (bw_objects w')"
  shows "objects_kept w'"
proof -
  have "object_present (g b) objs = object_present b objs" if "b \<in> set (bw_blobs w)" for b objs
    using g [OF that] by (simp add: object_present_def same_place_def storage_path_for_connector_def)
  then show ?thesis using g o' unfolding objects_kept_def assms(2) by auto
qed

lemma handler_ok_map:
  assumes "handler_ok n tbl h" "n \<le> n'"
    and rows: "\<And>r'. r' \<in> set tbl' \<Longrightarrow> fb_id r' < n \<Longrightarrow> \<exists>r \<in> set tbl. fb_id r = fb_id r' \<and> same_place r' r"
    and held: "\<And>i. claim_id h = Some i \<Longrightarrow> row_claimed i tbl \<Longrightarrow> row_claimed i tbl'"
  shows "handler_ok n' tbl' h"
proof -
  have snap: "snapshot_ok n' b tbl'" if "snapshot_ok n b tbl" for b
  proof -
    have "same_place r' b" if r': "r' \<in> set tbl'" "fb_id r' = fb_id b" for r'
    proof -
      obtain r where "r \<in> set tbl" "fb_id r = fb_id r'" "same_place r' r"
        using rows [OF r'(1)] \<open>snapshot_ok n b tbl\<close> r'(2) by (auto simp: snapshot_ok_def)
      then show ?thesis using \<open>snapshot_ok n b tbl\<close> r'(2) by (auto simp: snapshot_ok_def same_place_def)
    qed
    then show ?thesis using that assms(2) by (auto simp: snapshot_ok_def)
  qed
  show ?thesis using assms(1,2) snap held by (cases h) auto
qed

text \<open>A row with references is not claimed, and a claimed one has none.\<close>

lemma claimed_unreferenced:
  assumes "rows_exact w" "row_claimed i (bw_blobs w)"
  shows "actual_refs w i = 0"
  using assms by (auto simp: rows_exact_def row_claimed_def count_exact_def BLOB_CLEANUP_CLAIMED_REF_COUNT_def)

lemma map_claimed:
  assumes "row_claimed i tbl" "\<And>b. b \<in> set tbl \<Longrightarrow> fb_id b = i \<Longrightarrow> fb_ref_count b = BLOB_CLEANUP_CLAIMED_REF_COUNT
      \<Longrightarrow> fb_id (g b) = i \<and> fb_ref_count (g b) = BLOB_CLEANUP_CLAIMED_REF_COUNT"
  shows "row_claimed i (map g tbl)"
  using assms by (fastforce simp: row_claimed_def)

text \<open>
  A step that rewrites rows in place: the rows keep their ids and places, the counts are exact for the new
  references, claimed rows that a handler holds stay claimed.
\<close>

lemma system_ok_map:
  assumes ok: "blob_system_ok s" and t: "bz_world t = w'" "bz_handlers t = bz_handlers s" "bz_next_id s \<le> bz_next_id t"
    and b: "bw_blobs w' = map g (bz_blobs s)" "blob_table_ok (bw_blobs w')"
    and g: "\<And>b. b \<in> set (bz_blobs s) \<Longrightarrow> fb_id (g b) = fb_id b \<and> same_place (g b) b \<and> count_exact w' (g b)"
    and refs: "\<And>i. 0 < actual_refs w' i \<Longrightarrow> i \<in> fb_id ` set (bz_blobs s)"
    and obj: "\<And>b. b \<in> set (bz_blobs s) \<Longrightarrow> 0 < actual_refs w' (fb_id b) \<Longrightarrow> object_present b (bw_objects w')"
    and held: "\<And>b. b \<in> set (bz_blobs s) \<Longrightarrow> fb_ref_count b = BLOB_CLEANUP_CLAIMED_REF_COUNT
       \<Longrightarrow> Some (fb_id b) \<in> claim_id ` set (bz_handlers s) \<Longrightarrow> fb_ref_count (g b) = BLOB_CLEANUP_CLAIMED_REF_COUNT"
  shows "blob_system_ok t"
proof -
  have "rows_exact w'" using rows_exact_map [OF _ b g refs] ok by (simp add: blob_system_ok_def)
  moreover have "objects_kept w'"
    using objects_kept_map [OF _ b(1) _ obj] g ok by (simp add: blob_system_ok_def)
  moreover have "handler_ok (bz_next_id t) (bw_blobs w') h" if h: "h \<in> set (bz_handlers s)" for h
  proof (rule handler_ok_map [of "bz_next_id s" "bz_blobs s"])
    show "handler_ok (bz_next_id s) (bz_blobs s) h" using ok h by (simp add: blob_system_ok_def)
    show "bz_next_id s \<le> bz_next_id t" by (rule t(3))
    show "\<exists>r \<in> set (bz_blobs s). fb_id r = fb_id r' \<and> same_place r' r" if "r' \<in> set (bw_blobs w')" for r'
      using that g unfolding b(1) by auto
    show "row_claimed i (bw_blobs w')" if i: "claim_id h = Some i" "row_claimed i (bz_blobs s)" for i
      unfolding b(1)
      by (rule map_claimed [OF i(2)]) (use g held h i(1) in \<open>force simp: image_iff\<close>)
  qed
  moreover have "fb_id r < bz_next_id t" if "r \<in> set (bw_blobs w')" for r
    using that g ok t(3) unfolding b(1) by (force simp: blob_system_ok_def)
  ultimately show ?thesis using ok t by (simp add: blob_system_ok_def)
qed

lemma system_okD:
  assumes "blob_system_ok s"
  shows "rows_exact (bz_world s)" "objects_kept (bz_world s)" "blob_table_ok (bz_blobs s)"
    "unique_key fb_id (bz_blobs s)" "slots_distinct (bz_blobs s)" "claims_exclusive (bz_handlers s)"
    "b \<in> set (bz_blobs s) \<Longrightarrow> fb_id b < bz_next_id s" "b \<in> set (bz_blobs s) \<Longrightarrow> count_exact (bz_world s) b"
    "b \<in> set (bz_blobs s) \<Longrightarrow> 0 < actual_refs (bz_world s) (fb_id b) \<Longrightarrow> object_present b (bw_objects (bz_world s))"
    "0 < actual_refs (bz_world s) i \<Longrightarrow> i \<in> fb_id ` set (bz_blobs s)"
    "h \<in> set (bz_handlers s) \<Longrightarrow> handler_ok (bz_next_id s) (bz_blobs s) h"
  using assms by (auto simp: blob_system_ok_def rows_exact_def objects_kept_def blob_table_ok_def)

lemma active_exact:
  "count_exact w b \<Longrightarrow> 0 \<le> fb_ref_count b \<Longrightarrow> fb_ref_count b = int (actual_refs w (fb_id b))"
  by (auto simp: count_exact_def BLOB_CLEANUP_CLAIMED_REF_COUNT_def)

lemma increment_InrD:
  "increment_blob_ref_count now i tbl = Inr tbl' \<Longrightarrow>
     tbl' = map (\<lambda>x. if fb_id x = i \<and> 0 \<le> fb_ref_count x then increment_row now 1 x else x) tbl
     \<and> (\<exists>x \<in> set tbl. fb_id x = i \<and> 0 \<le> fb_ref_count x)"
  by (auto simp: increment_blob_ref_count_def Let_def case_prod_beta count_where_0_iff split: if_splits)

lemma system_ok_increment:
  assumes ok: "blob_system_ok s" and inc: "increment_blob_ref_count now i (bz_blobs s) = Inr tbl'"
    and obj: "\<forall>b \<in> set (bz_blobs s). fb_id b = i \<longrightarrow> object_present b (bw_objects (bz_world s))"
    and t: "bz_world t = (bz_world s)\<lparr>bw_blobs := tbl', bw_file_refs := i # bw_file_refs (bz_world s)\<rparr>"
      "bz_handlers t = bz_handlers s" "bz_next_id s \<le> bz_next_id t"
  shows "blob_system_ok t"
proof (rule system_ok_map [OF ok t(1,2,3)])
  let ?w = "bz_world s" and ?w' = "(bz_world s)\<lparr>bw_blobs := tbl', bw_file_refs := i # bw_file_refs (bz_world s)\<rparr>"
  let ?g = "\<lambda>x. if fb_id x = i \<and> 0 \<le> fb_ref_count x then increment_row now 1 x else x"
  note D = system_okD [OF ok]
  note I = increment_InrD [OF inc]
  have refs: "actual_refs ?w' j = actual_refs ?w j + (if j = i then 1 else 0)" for j by (simp add: actual_refs_def)
  show "bw_blobs ?w' = map ?g (bz_blobs s)" using I by simp
  show "blob_table_ok (bw_blobs ?w')" using increment_one_ok [OF inc D(3)] by simp
  show "fb_id (?g b) = fb_id b \<and> same_place (?g b) b \<and> count_exact ?w' (?g b)" if b: "b \<in> set (bz_blobs s)" for b
  proof -
    obtain x where x: "x \<in> set (bz_blobs s)" "fb_id x = i" "0 \<le> fb_ref_count x" using I by blast
    show ?thesis
    proof (cases "fb_id b = i")
      case True
      then have "b = x" using unique_key_inj [OF D(4) b x(1)] x(2) by simp
      then have "0 \<le> fb_ref_count b" "fb_ref_count b = int (actual_refs ?w i)"
        using x active_exact [OF D(8) [OF b]] True by simp_all
      then show ?thesis using True by (simp add: same_place_def increment_row_def count_exact_def refs)
    qed (use D(8) [OF b] in \<open>simp add: same_place_def count_exact_def refs\<close>)
  qed
  show "j \<in> fb_id ` set (bz_blobs s)" if "0 < actual_refs ?w' j" for j
  proof (cases "j = i")
    case False
    then show ?thesis using that D(10) [of j] by (simp only: refs) simp
  qed (use I in auto)
  show "object_present b (bw_objects ?w')" if "b \<in> set (bz_blobs s)" "0 < actual_refs ?w' (fb_id b)" for b
    using that D(9) obj by (cases "fb_id b = i") (auto simp: refs)
qed (auto simp: increment_row_def BLOB_CLEANUP_CLAIMED_REF_COUNT_def)

lemma system_ok_decrement:
  assumes ok: "blob_system_ok s" and i: "0 < actual_refs (bz_world s) i"
    and t: "bz_world t = w'" "bz_handlers t = bz_handlers s" "bz_next_id t = bz_next_id s"
    and w': "bw_blobs w' = decrement_blob_ref_count now i (bz_blobs s)" "bw_objects w' = bw_objects (bz_world s)"
      "\<And>j. actual_refs w' j = actual_refs (bz_world s) j - (if j = i then 1 else 0)"
  shows "blob_system_ok t"
proof (rule system_ok_map [OF ok t(1,2)])
  let ?g = "\<lambda>x. if fb_id x = i then set_count_row now (\<lambda>b. floor_sub (fb_ref_count b) 1) x else x"
  note D = system_okD [OF ok]
  show "bz_next_id s \<le> bz_next_id t" using t(3) by simp
  show "bw_blobs w' = map ?g (bz_blobs s)" by (simp add: w' decrement_blob_ref_count_def)
  show "blob_table_ok (bw_blobs w')" using count_writes_ok(1) [OF D(3)] by (simp add: w')
  show "fb_id (?g b) = fb_id b \<and> same_place (?g b) b \<and> count_exact w' (?g b)" if b: "b \<in> set (bz_blobs s)" for b
    using D(8) [OF b] i
    by (auto simp: same_place_def set_count_row_def count_exact_def w' floor_sub_def)
  show "j \<in> fb_id ` set (bz_blobs s)" if "0 < actual_refs w' j" for j using that D(10) by (simp add: w')
  show "object_present b (bw_objects w')" if "b \<in> set (bz_blobs s)" "0 < actual_refs w' (fb_id b)" for b
    using that D(9) by (simp add: w')
  show "fb_ref_count (?g b) = BLOB_CLEANUP_CLAIMED_REF_COUNT"
    if "b \<in> set (bz_blobs s)" "fb_ref_count b = BLOB_CLEANUP_CLAIMED_REF_COUNT" for b
    using that D(8) [OF that(1)] i by (auto simp: count_exact_def BLOB_CLEANUP_CLAIMED_REF_COUNT_def)
qed

lemma system_ok_append:
  assumes ok: "blob_system_ok s" and row: "fb_id row = bz_next_id s" "fb_ref_count row = 1" "blob_row_ok row"
    "object_present row (bw_objects (bz_world s))"
    and slot: "\<forall>b \<in> set (bz_blobs s). \<not> same_slot b row"
    and place: "\<forall>b \<in> set (bz_blobs s). fb_backing b = Stored \<longrightarrow> fb_backing row = Stored
      \<longrightarrow> fb_policy_id b = fb_policy_id row \<longrightarrow> fb_storage_path b \<noteq> fb_storage_path row"
    and t: "bz_world t = (bz_world s)\<lparr>bw_blobs := bz_blobs s @ [row],
        bw_file_refs := bz_next_id s # bw_file_refs (bz_world s)\<rparr>"
      "bz_handlers t = bz_handlers s" "bz_next_id t = bz_next_id s + 1"
  shows "blob_system_ok t"
proof -
  let ?w = "bz_world s" and ?w' = "bz_world t"
  note D = system_okD [OF ok]
  have fresh: "fb_id b \<noteq> bz_next_id s" if "b \<in> set (bz_blobs s)" for b using D(7) [OF that] by simp
  have refs: "actual_refs ?w' j = actual_refs ?w j + (if j = bz_next_id s then 1 else 0)" for j
    by (simp add: actual_refs_def t)
  have unused: "actual_refs ?w (bz_next_id s) = 0" using D(10) fresh by force
  have "bz_next_id s \<notin> fb_id ` set (bz_blobs s)" using fresh by (metis imageE)
  then have tbl: "blob_table_ok (bz_blobs s @ [row])"
    using table_ok_insert [OF D(3) _ row(3), of "bz_blobs s @ [row]"] slot row(1)
    by (auto simp: insert_blob_def)
  have pd: "places_distinct (bz_blobs s)" using D(1) by (simp add: rows_exact_def)
  have "places_distinct (bz_blobs s @ [row])"
    unfolding places_distinct_def
  proof (intro ballI impI)
    fix a b
    assume ab: "a \<in> set (bz_blobs s @ [row])" "b \<in> set (bz_blobs s @ [row])" and
      same: "fb_backing a = Stored" "fb_backing b = Stored" "fb_policy_id a = fb_policy_id b"
        "fb_storage_path a = fb_storage_path b"
    from ab consider "a \<in> set (bz_blobs s)" "b \<in> set (bz_blobs s)" | "a \<in> set (bz_blobs s)" "b = row"
      | "a = row" "b \<in> set (bz_blobs s)" | "a = row" "b = row" by auto
    then show "fb_id a = fb_id b"
      using pd place same unfolding places_distinct_def by cases metis+
  qed
  moreover have "count_exact ?w' b" if "b \<in> set (bz_blobs s @ [row])" for b
    using that D(8) fresh unused row by (auto simp: count_exact_def refs)
  moreover have "j \<in> fb_id ` set (bz_blobs s @ [row])" if "0 < actual_refs ?w' j" for j
    using that D(10) row(1) by (cases "j = bz_next_id s") (auto simp: refs)
  ultimately have "rows_exact ?w'" using tbl by (auto simp: rows_exact_def t(1))
  moreover have "objects_kept ?w'"
    using D(9) row(4) fresh by (auto simp: objects_kept_def t(1) refs [unfolded t(1)])
  moreover have "handler_ok (bz_next_id t) (bz_blobs t) h" if "h \<in> set (bz_handlers s)" for h
  proof (rule handler_ok_map [OF D(11) [OF that]])
    show "\<exists>r \<in> set (bz_blobs s). fb_id r = fb_id r' \<and> same_place r' r"
      if "r' \<in> set (bz_blobs t)" "fb_id r' < bz_next_id s" for r'
      using that row(1) by (auto simp: t same_place_def)
  qed (auto simp: t row_claimed_def)
  moreover have "fb_id r < bz_next_id t" if "r \<in> set (bz_blobs t)" for r
    using that D(7) row(1) by (force simp: t)
  ultimately show ?thesis using D(6) t(2) by (simp add: blob_system_ok_def)
qed

lemma system_ok_set_handler:
  assumes ok: "blob_system_ok s" and k: "k < length (bz_handlers s)" "handler_ok (bz_next_id s) (bz_blobs s) st"
    and c: "claim_id st = None \<or> claim_id st = claim_id (bz_handlers s ! k)
      \<or> claim_id st \<notin> claim_id ` set (bz_handlers s)"
  shows "blob_system_ok (s\<lparr>bz_handlers := (bz_handlers s)[k := st]\<rparr>)"
proof -
  let ?hs = "bz_handlers s"
  have e: "claims_exclusive ?hs" using ok by (simp add: blob_system_ok_def)
  have "claims_exclusive (?hs[k := st])"
    unfolding claims_exclusive_def
  proof (intro allI impI)
    fix i j assume ij: "i < length (?hs[k := st])" "j < length (?hs[k := st])" "i \<noteq> j"
      and n: "claim_id (?hs[k := st] ! i) \<noteq> None"
    have other: "claim_id (?hs ! m) \<noteq> claim_id st" if m: "m < length ?hs" "m \<noteq> k" and s: "claim_id st \<noteq> None" for m
      using c s e k(1) m nth_mem [OF m(1)] unfolding claims_exclusive_def by (metis imageI)
    show "claim_id (?hs[k := st] ! i) \<noteq> claim_id (?hs[k := st] ! j)"
    proof (cases "i = k \<or> j = k")
      case True
      then show ?thesis using other ij n k(1) by (cases "i = k") (metis length_list_update nth_list_update)+
    next
      case False
      then show ?thesis using e ij n by (simp add: claims_exclusive_def)
    qed
  qed
  then show ?thesis
    using ok k set_update_subset_insert [of ?hs k st] by (auto simp: blob_system_ok_def)
qed

lemma system_ok_delete:
  assumes ok: "blob_system_ok s" and t: "bz_world t = (bz_world s)\<lparr>bw_blobs := filter (\<lambda>b. fb_id b \<noteq> i) (bz_blobs s)\<rparr>"
      "bz_handlers t = bz_handlers s" "bz_next_id t = bz_next_id s"
    and i: "actual_refs (bz_world s) i = 0" "Some i \<notin> claim_id ` set (bz_handlers s)"
  shows "blob_system_ok t"
proof -
  note D = system_okD [OF ok]
  have refs: "actual_refs (bz_world t) = actual_refs (bz_world s)" by (simp add: t actual_refs_def fun_eq_iff)
  have "blob_table_ok (bz_blobs t)" using table_ok_delete [OF D(3), of "\<lambda>b. fb_id b = i"] by (simp add: t)
  moreover have "places_distinct (bz_blobs t)" using D(1) by (simp add: t rows_exact_def places_distinct_def)
  moreover have "j \<in> fb_id ` set (bz_blobs t)" if j: "0 < actual_refs (bz_world s) j" for j
  proof -
    have "j \<noteq> i" using i(1) j by auto
    then show ?thesis using D(10) [OF j] by (auto simp: t)
  qed
  ultimately have "rows_exact (bz_world t)"
    using D(8) by (auto simp: rows_exact_def t count_exact_def refs [unfolded t(1)])
  moreover have "objects_kept (bz_world t)"
    using D(9) by (auto simp: objects_kept_def t refs [unfolded t(1)])
  moreover have "handler_ok (bz_next_id t) (bz_blobs t) h" if h: "h \<in> set (bz_handlers s)" for h
  proof (rule handler_ok_map [OF D(11) [OF h]])
    show "row_claimed j (bz_blobs t)" if "claim_id h = Some j" "row_claimed j (bz_blobs s)" for j
    proof -
      have "j \<noteq> i" using i(2) h that(1) by (metis imageI)
      then show ?thesis using that(2) by (auto simp: t row_claimed_def)
    qed
  qed (auto simp: t same_place_def)
  ultimately show ?thesis using D(6,7) by (auto simp: blob_system_ok_def t)
qed

lemma current_count_exact:
  "current_blob_ref_count w i = Inr n \<Longrightarrow> n = int (actual_refs w i)"
  "admin_current_blob_ref_count e w i = Inr n \<Longrightarrow> n = int (actual_refs w i)"
  by (auto simp: current_blob_ref_count_def admin_current_blob_ref_count_def actual_refs_def i64_to_i32_def
      count_blob_refs_from_files_for_blob_def count_non_current_blob_refs_for_blob_def
      split: option.splits if_splits)

lemma system_ok_fix:
  assumes ok: "blob_system_ok s" and fx: "fix_ref_count now b (int (actual_refs (bz_world s) (fb_id b))) (bz_world s) = Inr (w', out)"
    and b: "b \<in> set (bz_blobs s)"
    and held: "fb_ref_count b = BLOB_CLEANUP_CLAIMED_REF_COUNT \<Longrightarrow> Some (fb_id b) \<notin> claim_id ` set (bz_handlers s)"
  shows "blob_system_ok (s\<lparr>bz_world := w'\<rparr>)"
proof -
  let ?n = "int (actual_refs (bz_world s) (fb_id b))"
  let ?tbl = "fst (set_blob_ref_count now (fb_id b) ?n (bz_blobs s))"
  have "w' = bz_world s \<or> w' = (bz_world s)\<lparr>bw_blobs := ?tbl\<rparr>"
    using fx by (auto simp: fix_ref_count_def Let_def bind_result_Inr_iff split: if_splits)
  moreover have "blob_system_ok (s\<lparr>bz_world := (bz_world s)\<lparr>bw_blobs := ?tbl\<rparr>\<rparr>)"
  proof (rule system_ok_map [OF ok])
    let ?g = "\<lambda>x. if fb_id x = fb_id b then set_count_row now (\<lambda>_. ?n) x else x"
      and ?w' = "(bz_world s)\<lparr>bw_blobs := ?tbl\<rparr>"
    note D = system_okD [OF ok]
    have refs: "actual_refs ?w' = actual_refs (bz_world s)" by (simp add: actual_refs_def fun_eq_iff)
    show "bw_blobs ?w' = map ?g (bz_blobs s)" by (simp add: set_blob_ref_count_def Let_def case_prod_beta)
    show "blob_table_ok (bw_blobs ?w')" using count_writes_ok(4) [OF D(3)] by simp
    show "fb_id (?g x) = fb_id x \<and> same_place (?g x) x \<and> count_exact ?w' (?g x)" if "x \<in> set (bz_blobs s)" for x
      using D(8) [OF that] by (auto simp: same_place_def set_count_row_def count_exact_def refs)
    show "j \<in> fb_id ` set (bz_blobs s)" if "0 < actual_refs ?w' j" for j using that D(10) by (simp add: refs)
    show "object_present x (bw_objects ?w')" if "x \<in> set (bz_blobs s)" "0 < actual_refs ?w' (fb_id x)" for x
      using that D(9) by (simp add: refs)
    show "fb_ref_count (?g x) = BLOB_CLEANUP_CLAIMED_REF_COUNT"
      if x: "x \<in> set (bz_blobs s)" "fb_ref_count x = BLOB_CLEANUP_CLAIMED_REF_COUNT"
        "Some (fb_id x) \<in> claim_id ` set (bz_handlers s)" for x
      using unique_key_inj [OF D(4) x(1) b] held x(2,3) by auto
  qed simp_all
  ultimately show ?thesis using ok by auto
qed

lemma system_ok_reconcile:
  assumes ok: "blob_system_ok s" and r: "reconcile_single_blob_ref_count now i (bz_world s) = Inr (w', out)"
    and stale: "\<forall>b \<in> set (bz_blobs s). fb_id b = i \<longrightarrow> blob_cleanup_claim_is_stale now b
          \<longrightarrow> Some i \<notin> claim_id ` set (bz_handlers s)"
  shows "blob_system_ok (s\<lparr>bz_world := w'\<rparr>)"
proof (cases "w' = bz_world s")
  case False
  then obtain b n where b: "find_key fb_id i (bz_blobs s) = Some b" "current_blob_ref_count (bz_world s) i = Inr n"
    "fix_ref_count now b n (bz_world s) = Inr (w', out)"
    "fb_ref_count b = BLOB_CLEANUP_CLAIMED_REF_COUNT \<longrightarrow> blob_cleanup_claim_is_stale now b"
    using r by (auto simp: reconcile_single_blob_ref_count_def lock_blob_by_id_def find_blob_by_id_def
        bind_result_Inr_iff split: option.splits if_splits)
  then have "b \<in> set (bz_blobs s)" "fb_id b = i" using find_key_SomeD by fastforce+
  then show ?thesis using system_ok_fix [OF ok] b current_count_exact(1) [OF b(2)] stale by auto
qed (use ok in simp)

lemma system_ok_admin_reconcile:
  assumes ok: "blob_system_ok s"
    and r: "admin_reconcile_single_blob_ref_count e now i (bz_world s) = Inr (w', out)"
  shows "blob_system_ok (s\<lparr>bz_world := w'\<rparr>)"
proof (cases "w' = bz_world s")
  case False
  then obtain b n where b: "find_key fb_id i (bz_blobs s) = Some b" "admin_current_blob_ref_count e (bz_world s) i = Inr n"
    "fix_ref_count now b n (bz_world s) = Inr (w', out)" "fb_ref_count b \<noteq> BLOB_CLEANUP_CLAIMED_REF_COUNT"
    using r by (auto simp: admin_reconcile_single_blob_ref_count_def lock_blob_by_id_def find_blob_by_id_def
        bind_result_Inr_iff split: option.splits if_splits)
  then have "b \<in> set (bz_blobs s)" "fb_id b = i" using find_key_SomeD by fastforce+
  then show ?thesis using system_ok_fix [OF ok] b current_count_exact(2) [OF b(2)] by auto
qed (use ok in simp)

text \<open>The steps of a handler.\<close>

lemma delete_derived_keeps:
  "q \<notin> set ps \<Longrightarrow> (policy', q) \<in> fst (delete_derived r policy ps objs) \<longleftrightarrow> (policy', q) \<in> objs"
  by (induction r policy ps objs rule: delete_derived.induct)
     (auto simp: Let_def object_delete_def split: delete_reply.splits if_splits)

lemma system_ok_inplace:
  assumes ok: "blob_system_ok s" and w': "w' = (bz_world s)\<lparr>bw_blobs := map g (bz_blobs s), bw_objects := objs\<rparr>"
    and tbl: "blob_table_ok (map g (bz_blobs s))"
    and g: "\<And>b. b \<in> set (bz_blobs s) \<Longrightarrow> fb_id (g b) = fb_id b \<and> same_place (g b) b
      \<and> (fb_ref_count (g b) = fb_ref_count b \<or> actual_refs (bz_world s) (fb_id b) = 0
           \<and> (fb_ref_count (g b) = BLOB_CLEANUP_CLAIMED_REF_COUNT
              \<or> fb_ref_count (g b) = 0 \<and> Some (fb_id b) \<notin> claim_id ` set (bz_handlers s)))"
    and objs: "\<And>b. b \<in> set (bz_blobs s) \<Longrightarrow> 0 < actual_refs (bz_world s) (fb_id b) \<Longrightarrow> object_present b objs"
  shows "blob_system_ok (s\<lparr>bz_world := w'\<rparr>)"
proof (rule system_ok_map [OF ok])
  note D = system_okD [OF ok]
  have refs: "actual_refs w' = actual_refs (bz_world s)" by (simp add: w' actual_refs_def fun_eq_iff)
  show "bw_blobs w' = map g (bz_blobs s)" "blob_table_ok (bw_blobs w')" using tbl by (simp_all add: w')
  show "fb_id (g b) = fb_id b \<and> same_place (g b) b \<and> count_exact w' (g b)" if "b \<in> set (bz_blobs s)" for b
    using g [OF that] D(8) [OF that] by (auto simp: count_exact_def refs)
  show "j \<in> fb_id ` set (bz_blobs s)" if "0 < actual_refs w' j" for j using that D(10) by (simp add: refs)
  have o': "bw_objects w' = objs" by (simp add: w')
  show "object_present b (bw_objects w')" if "b \<in> set (bz_blobs s)" "0 < actual_refs w' (fb_id b)" for b
    using that objs by (simp add: refs o')
  show "fb_ref_count (g b) = BLOB_CLEANUP_CLAIMED_REF_COUNT"
    if "b \<in> set (bz_blobs s)" "fb_ref_count b = BLOB_CLEANUP_CLAIMED_REF_COUNT"
      "Some (fb_id b) \<in> claim_id ` set (bz_handlers s)" for b
    using g [OF that(1)] that(2,3) by auto
qed simp_all

lemma handler_holds:
  assumes "blob_system_ok s" "k < length (bz_handlers s)" "claim_id (bz_handlers s ! k) = Some i"
  shows "row_claimed i (bz_blobs s)"
proof -
  have "handler_ok (bz_next_id s) (bz_blobs s) (bz_handlers s ! k)" using assms by (simp add: system_okD(11))
  then show ?thesis using assms(3) by (cases "bz_handlers s ! k") auto
qed

lemma unclaimed_unheld:
  assumes "blob_system_ok s" "b \<in> set (bz_blobs s)" "fb_ref_count b \<noteq> BLOB_CLEANUP_CLAIMED_REF_COUNT"
  shows "Some (fb_id b) \<notin> claim_id ` set (bz_handlers s)"
proof
  assume "Some (fb_id b) \<in> claim_id ` set (bz_handlers s)"
  then obtain k where "k < length (bz_handlers s)" "claim_id (bz_handlers s ! k) = Some (fb_id b)"
    by (auto simp: in_set_conv_nth)
  then obtain r where "r \<in> set (bz_blobs s)" "fb_id r = fb_id b" "fb_ref_count r = BLOB_CLEANUP_CLAIMED_REF_COUNT"
    using handler_holds [OF assms(1)] by (auto simp: row_claimed_def)
  then show False using unique_key_inj [OF system_okD(4) [OF assms(1)] _ assms(2)] assms(3) by blast
qed

lemma handle_reload:
  assumes ok: "blob_system_ok s" "k < length (bz_handlers s)" and h: "bz_handlers s ! k = C_Reload e i"
    and st: "cleanup_step r now (C_Reload e i) (bz_world s) = (st', w')"
  shows "blob_system_ok (s\<lparr>bz_world := w', bz_handlers := (bz_handlers s)[k := st']\<rparr>)"
proof -
  note D = system_okD [OF ok(1)]
  have w: "w' = bz_world s" and c: "claim_id st' = None"
    using st by (auto split: if_splits sum.splits)
  have "handler_ok (bz_next_id s) (bz_blobs s) st'"
  proof (cases "\<exists>b. st' = C_Claim e b")
    case True
    then obtain b where b: "st' = C_Claim e b" "find_key fb_id i (bz_blobs s) = Some b"
      using st by (auto simp: find_blob_by_id_def split: if_splits option.splits)
    have "same_place x b" if "x \<in> set (bz_blobs s)" "fb_id x = fb_id b" for x
      using find_key_only [OF D(4) b(2) that(1)] find_key_SomeD [OF b(2)] that(2) by (simp add: same_place_def)
    then show ?thesis using b D(7) [of b] find_key_SomeD [OF b(2)] by (simp add: snapshot_ok_def)
  qed (use st in \<open>auto split: if_splits sum.splits\<close>)
  from system_ok_set_handler [OF ok this] c w show ?thesis by simp
qed

lemma handle_claim:
  assumes ok: "blob_system_ok s" "k < length (bz_handlers s)" and h: "bz_handlers s ! k = C_Claim e b"
    and st: "cleanup_step r now (C_Claim e b) (bz_world s) = (st', w')"
  shows "blob_system_ok (s\<lparr>bz_world := w', bz_handlers := (bz_handlers s)[k := st']\<rparr>)"
proof (cases "cr_db_ok r")
  case True
  note D = system_okD [OF ok(1)]
  let ?g = "\<lambda>x. if fb_id x = fb_id b \<and> fb_ref_count x = 0 then claim_blob_row now x else x"
  let ?c = "claim_blob_cleanup now (fb_id b) (bz_blobs s)"
  have w: "w' = (bz_world s)\<lparr>bw_blobs := fst ?c\<rparr>" and st': "st' = (if snd ?c then C_Claimed b else C_Done e)"
    using st True by (auto simp: Let_def case_prod_beta)
  have m: "fst ?c = map ?g (bz_blobs s)" by (simp add: claim_blob_cleanup_def exec_one_def)
  have s1: "blob_system_ok (s\<lparr>bz_world := w'\<rparr>)"
  proof (rule system_ok_inplace [OF ok(1)])
    show "w' = (bz_world s)\<lparr>bw_blobs := map ?g (bz_blobs s), bw_objects := bw_objects (bz_world s)\<rparr>"
      using w m by simp
    show "blob_table_ok (map ?g (bz_blobs s))" using claim_writes_ok(1) [OF D(3)] m by metis
    show "fb_id (?g x) = fb_id x \<and> same_place (?g x) x
      \<and> (fb_ref_count (?g x) = fb_ref_count x \<or> actual_refs (bz_world s) (fb_id x) = 0
           \<and> (fb_ref_count (?g x) = BLOB_CLEANUP_CLAIMED_REF_COUNT
              \<or> fb_ref_count (?g x) = 0 \<and> Some (fb_id x) \<notin> claim_id ` set (bz_handlers s)))"
      if "x \<in> set (bz_blobs s)" for x
      using active_exact [OF D(8) [OF that]] by (auto simp: claim_blob_row_def same_place_def)
    show "object_present x (bw_objects (bz_world s))" if "x \<in> set (bz_blobs s)" "0 < actual_refs (bz_world s) (fb_id x)" for x
      using that by (rule D(9))
  qed
  show ?thesis
  proof (cases "snd ?c")
    case success: True
    then obtain x where x: "x \<in> set (bz_blobs s)" "fb_id x = fb_id b" "fb_ref_count x = 0"
      using claim_blob_ku.success_iff [OF D(4)] by (auto simp: claim_blob_cleanup_def)
    have "handler_ok (bz_next_id s) (bz_blobs s) (C_Claim e b)" using D(11) [OF nth_mem [OF ok(2)]] h by simp
    then have "snapshot_ok (bz_next_id s) b (fst ?c)"
      unfolding m by (auto simp: snapshot_ok_def same_place_def claim_blob_row_def)
    moreover have "row_claimed (fb_id b) (fst ?c)"
      unfolding m row_claimed_def using x by (intro bexI [of _ "?g x"]) (auto simp: claim_blob_row_def)
    moreover have "Some (fb_id b) \<notin> claim_id ` set (bz_handlers s)"
      using unclaimed_unheld [OF ok(1) x(1)] x(2,3) by (simp add: BLOB_CLEANUP_CLAIMED_REF_COUNT_def)
    ultimately show ?thesis
      using system_ok_set_handler [OF s1, of k "C_Claimed b"] ok(2) st' success w by simp
  next
    case False
    then show ?thesis using system_ok_set_handler [OF s1, of k "C_Done e"] ok(2) st' by simp
  qed
next
  case False
  then show ?thesis using system_ok_set_handler [OF ok, of "C_Done False"] st by auto
qed

lemma handle_claimed:
  assumes ok: "blob_system_ok s" "k < length (bz_handlers s)" and h: "bz_handlers s ! k = C_Claimed b"
    and st: "cleanup_step r now (C_Claimed b) (bz_world s) = (st', w')"
    and derived: "\<forall>b \<in> set (bz_blobs s). \<forall>p. fb_storage_path b = Some p \<longrightarrow> p \<notin> set (cr_derived r)"
  shows "blob_system_ok (s\<lparr>bz_world := w', bz_handlers := (bz_handlers s)[k := st']\<rparr>)"
proof -
  note D = system_okD [OF ok(1)]
  have hk: "handler_ok (bz_next_id s) (bz_blobs s) (C_Claimed b)" using D(11) [OF nth_mem [OF ok(2)]] h by simp
  define objs where "objs = fst (delete_derived r (fb_policy_id b) (cr_derived r) (bw_objects (bz_world s)))"
  have keep: "object_present x objs" if "x \<in> set (bz_blobs s)" "0 < actual_refs (bz_world s) (fb_id x)" for x
    using D(9) [OF that] derived that(1)
    by (auto simp: object_present_def objs_def delete_derived_keeps storage_path_for_connector_def split: if_splits)
  have inplace: "blob_system_ok (s\<lparr>bz_world := (bz_world s)\<lparr>bw_blobs := map g (bz_blobs s), bw_objects := objs\<rparr>\<rparr>)"
    if "g = id \<or> g = (\<lambda>x. if fb_id x = fb_id b then clear_thumbnail_row now x else x)" for g
  proof (rule system_ok_inplace [OF ok(1) refl])
    show "blob_table_ok (map g (bz_blobs s))"
      using that D(3) thumbnail_writes_ok(2) [OF D(3), of now "fb_id b"]
      by (auto simp: clear_thumbnail_metadata_def exec_one_def)
    show "fb_id (g x) = fb_id x \<and> same_place (g x) x
      \<and> (fb_ref_count (g x) = fb_ref_count x \<or> actual_refs (bz_world s) (fb_id x) = 0
           \<and> (fb_ref_count (g x) = BLOB_CLEANUP_CLAIMED_REF_COUNT
              \<or> fb_ref_count (g x) = 0 \<and> Some (fb_id x) \<notin> claim_id ` set (bz_handlers s)))" for x
      using that by (cases "fb_id x = fb_id b") (auto simp: clear_thumbnail_row_def same_place_def)
  qed (rule keep)
  let ?cl = "\<lambda>x. if fb_id x = fb_id b then clear_thumbnail_row now x else x"
  have hk': "handler_ok (bz_next_id s) (map ?cl (bz_blobs s)) (C_Claimed b)"
  proof (rule handler_ok_map [OF hk])
    show "\<exists>r \<in> set (bz_blobs s). fb_id r = fb_id r' \<and> same_place r' r" if r': "r' \<in> set (map ?cl (bz_blobs s))" for r'
    proof -
      obtain x where "x \<in> set (bz_blobs s)" "r' = ?cl x" using r' by auto
      then show ?thesis by (intro bexI [of _ x]) (auto simp: clear_thumbnail_row_def same_place_def)
    qed
    show "row_claimed i (map ?cl (bz_blobs s))" if "row_claimed i (bz_blobs s)" for i
      by (rule map_claimed [OF that]) (simp add: clear_thumbnail_row_def)
  qed simp
  consider (same) "w' = bz_world s" "st' = C_Virtual_Row b \<or> st' = C_Restore (fb_id b)"
    | (moved) g where "g = id \<or> g = ?cl" "w' = (bz_world s)\<lparr>bw_blobs := map g (bz_blobs s), bw_objects := objs\<rparr>"
        "st' = C_Restore (fb_id b) \<or> (\<exists>p. st' = C_Delete b p \<and> storage_path_for_connector b = Some p)"
    using st
    by (force simp: Let_def case_prod_beta delete_thumbnail_with_driver_def objs_def clear_thumbnail_metadata_def
        exec_one_def split: if_splits option.splits)
  then show ?thesis
  proof cases
    case same
    then show ?thesis using system_ok_set_handler [OF ok, of st'] hk h by (auto simp: snapshot_ok_def)
  next
    case moved
    then have "blob_system_ok (s\<lparr>bz_world := w'\<rparr>)" using inplace by simp
    moreover have "handler_ok (bz_next_id s) (bw_blobs w') st'" using moved hk hk' by (auto simp: snapshot_ok_def)
    moreover have "claim_id st' = claim_id (bz_handlers s ! k)" using moved(3) h by auto
    ultimately show ?thesis using system_ok_set_handler [of "s\<lparr>bz_world := w'\<rparr>" k st'] ok(2) by simp
  qed
qed

lemma claim_id_dropped:
  assumes "claims_exclusive hs" "k < length hs" "claim_id (hs ! k) = Some i"
  shows "Some i \<notin> claim_id ` set (hs[k := C_Done res])"
proof
  assume "Some i \<in> claim_id ` set (hs[k := C_Done res])"
  then obtain j where "j < length hs" "claim_id (hs[k := C_Done res] ! j) = Some i"
    by (auto simp: in_set_conv_nth)
  then have "j \<noteq> k" "j < length hs" "claim_id (hs ! j) = Some i" using assms(2) by (auto simp: nth_list_update split: if_splits)
  then show False using assms unfolding claims_exclusive_def by (metis option.distinct(1))
qed

lemma delete_claimed_filter:
  assumes "unique_key fb_id tbl" "row_claimed i tbl"
  shows "delete_blob_if_cleanup_claimed i tbl = (filter (\<lambda>b. fb_id b \<noteq> i) tbl, True)"
proof -
  obtain r where r: "r \<in> set tbl" "fb_id r = i" "fb_ref_count r = BLOB_CLEANUP_CLAIMED_REF_COUNT"
    using assms(2) by (auto simp: row_claimed_def)
  have "holds_claim r tbl" using r find_key_Some_iff [OF assms(1)] by (auto simp: holds_claim_def same_place_def)
  then have "snd (delete_blob_if_cleanup_claimed i tbl)" using delete_claimed_success [OF assms(1)] r(2) by blast
  moreover have "fst (delete_blob_if_cleanup_claimed i tbl) = filter (\<lambda>b. fb_id b \<noteq> i) tbl"
  proof -
    have "(\<not> (fb_id x = i \<and> fb_ref_count x = BLOB_CLEANUP_CLAIMED_REF_COUNT)) = (fb_id x \<noteq> i)"
      if "x \<in> set tbl" for x using unique_key_inj [OF assms(1) that r(1)] r(2,3) by metis
    then show ?thesis
      by (simp add: delete_blob_if_cleanup_claimed_def delete_where_def cong: filter_cong)
  qed
  ultimately show ?thesis by (simp add: prod_eq_iff)
qed

lemma handle_row_deleted:
  assumes ok: "blob_system_ok s" "k < length (bz_handlers s)" and h: "claim_id (bz_handlers s ! k) = Some i"
  shows "blob_system_ok (s\<lparr>bz_world := (bz_world s)\<lparr>bw_blobs := fst (delete_blob_if_cleanup_claimed i (bz_blobs s))\<rparr>,
    bz_handlers := (bz_handlers s)[k := C_Done res]\<rparr>)"
proof -
  note D = system_okD [OF ok(1)]
  note claimed = handler_holds [OF ok h]
  let ?s = "s\<lparr>bz_handlers := (bz_handlers s)[k := C_Done res]\<rparr>"
  have "blob_system_ok ?s" using system_ok_set_handler [OF ok, of "C_Done res"] by simp
  then show ?thesis
    by (rule system_ok_delete [where i = i])
      (use delete_claimed_filter [OF D(4) claimed] claimed_unreferenced [OF D(1) claimed]
        claim_id_dropped [OF D(6) ok(2) h, of res] in simp_all)
qed

lemma handle_virtual_row:
  assumes ok: "blob_system_ok s" "k < length (bz_handlers s)" and h: "bz_handlers s ! k = C_Virtual_Row b"
    and st: "cleanup_step r now (C_Virtual_Row b) (bz_world s) = (st', w')"
  shows "blob_system_ok (s\<lparr>bz_world := w', bz_handlers := (bz_handlers s)[k := st']\<rparr>)"
proof (cases "cr_db_ok r")
  case True
  then show ?thesis using st handle_row_deleted [OF ok, of "fb_id b"] h by (auto simp: Let_def case_prod_beta)
next
  case False
  have "handler_ok (bz_next_id s) (bz_blobs s) (C_Virtual_Row b)" using system_okD(11) [OF ok(1) nth_mem [OF ok(2)]] h by simp
  then show ?thesis
    using system_ok_set_handler [OF ok, of "C_Restore (fb_id b)"] st False h by (auto simp: snapshot_ok_def)
qed

lemma handle_row:
  assumes ok: "blob_system_ok s" "k < length (bz_handlers s)" and h: "bz_handlers s ! k = C_Row b"
    and st: "cleanup_step r now (C_Row b) (bz_world s) = (st', w')"
  shows "blob_system_ok (s\<lparr>bz_world := w', bz_handlers := (bz_handlers s)[k := st']\<rparr>)"
proof (cases "cr_db_ok r")
  case True
  have "claim_id (bz_handlers s ! k) = Some (fb_id b)" using h by simp
  then show ?thesis
    using st True handle_row_deleted [OF ok, of "fb_id b"]
      delete_claimed_filter [OF system_okD(4) [OF ok(1)] handler_holds [OF ok]]
    by (auto simp: Let_def case_prod_beta)
next
  case False
  have "handler_ok (bz_next_id s) (bz_blobs s) (C_Row b)" using system_okD(11) [OF ok(1) nth_mem [OF ok(2)]] h by simp
  then show ?thesis
    using system_ok_set_handler [OF ok, of "C_Restore (fb_id b)"] st False h by (auto simp: snapshot_ok_def)
qed

lemma handle_delete:
  assumes ok: "blob_system_ok s" "k < length (bz_handlers s)" and h: "bz_handlers s ! k = C_Delete b p"
    and st: "cleanup_step r now (C_Delete b p) (bz_world s) = (st', w')"
  shows "blob_system_ok (s\<lparr>bz_world := w', bz_handlers := (bz_handlers s)[k := st']\<rparr>)"
proof -
  note D = system_okD [OF ok(1)]
  let ?objs = "object_delete (cr_delete r p) (fb_policy_id b, p) (bw_objects (bz_world s))"
  have hk: "handler_ok (bz_next_id s) (bz_blobs s) (C_Delete b p)" using D(11) [OF nth_mem [OF ok(2)]] h by simp
  then obtain row where row: "row \<in> set (bz_blobs s)" "fb_id row = fb_id b" "same_place row b"
      "fb_ref_count row = BLOB_CLEANUP_CLAIMED_REF_COUNT" and p: "storage_path_for_connector b = Some p"
    by (auto simp: row_claimed_def snapshot_ok_def)
  have keep: "object_present x ?objs" if x: "x \<in> set (bz_blobs s)" "0 < actual_refs (bz_world s) (fb_id x)" for x
  proof -
    have "(fb_policy_id x, q) \<noteq> (fb_policy_id b, p)" if q: "storage_path_for_connector x = Some q" for q
    proof
      assume e: "(fb_policy_id x, q) = (fb_policy_id b, p)"
      then have "fb_backing x = Stored" "fb_backing row = Stored" "fb_policy_id x = fb_policy_id row"
        "fb_storage_path x = fb_storage_path row"
        using q p row(3) by (auto simp: storage_path_for_connector_def has_connector_object_def same_place_def
            split: if_splits)
      then have "fb_id x = fb_id row" using D(1) x(1) row(1) unfolding rows_exact_def places_distinct_def by metis
      moreover have "row_claimed (fb_id row) (bz_blobs s)" using row by (auto simp: row_claimed_def)
      ultimately show False using claimed_unreferenced [OF D(1)] x(2) by simp
    qed
    then show ?thesis using D(9) [OF x] by (auto simp: object_present_def object_delete_def split: delete_reply.splits)
  qed
  have w: "w' = (bz_world s)\<lparr>bw_blobs := map id (bz_blobs s), bw_objects := ?objs\<rparr>"
    and st': "st' = C_Row b \<or> st' = C_Probe b p" using st by (auto split: if_splits)
  have "blob_system_ok (s\<lparr>bz_world := w'\<rparr>)"
    by (rule system_ok_inplace [OF ok(1) w]) (use D(3) keep in \<open>simp_all add: same_place_def\<close>)
  moreover have "handler_ok (bz_next_id s) (bw_blobs w') st'" using hk st' w by auto
  moreover have "claim_id st' = claim_id (bz_handlers s ! k)" using st' h by auto
  ultimately show ?thesis using system_ok_set_handler [of "s\<lparr>bz_world := w'\<rparr>" k st'] ok(2) by simp
qed

lemma handle_probe:
  assumes ok: "blob_system_ok s" "k < length (bz_handlers s)" and h: "bz_handlers s ! k = C_Probe b p"
    and st: "cleanup_step r now (C_Probe b p) (bz_world s) = (st', w')"
  shows "blob_system_ok (s\<lparr>bz_world := w', bz_handlers := (bz_handlers s)[k := st']\<rparr>)"
proof -
  have hk: "handler_ok (bz_next_id s) (bz_blobs s) (C_Probe b p)"
    using system_okD(11) [OF ok(1) nth_mem [OF ok(2)]] h by simp
  have w: "w' = bz_world s" and st': "st' = C_Row b \<or> st' = C_Restore (fb_id b)" using st by (auto split: if_splits)
  then show ?thesis using system_ok_set_handler [OF ok, of st'] hk h by (auto simp: snapshot_ok_def)
qed

lemma handle_restore:
  assumes ok: "blob_system_ok s" "k < length (bz_handlers s)" and h: "bz_handlers s ! k = C_Restore i"
    and st: "cleanup_step r now (C_Restore i) (bz_world s) = (st', w')"
  shows "blob_system_ok (s\<lparr>bz_world := w', bz_handlers := (bz_handlers s)[k := st']\<rparr>)"
proof (cases "cr_db_ok r")
  case True
  let ?s = "s\<lparr>bz_handlers := (bz_handlers s)[k := C_Done False]\<rparr>"
  have ok': "blob_system_ok ?s" using system_ok_set_handler [OF ok, of "C_Done False"] by simp
  note D = system_okD [OF ok']
  let ?g = "\<lambda>x. if fb_id x = i \<and> fb_ref_count x = BLOB_CLEANUP_CLAIMED_REF_COUNT then restore_blob_row now x else x"
  have m: "fst (restore_blob_cleanup_claim now i (bz_blobs s)) = map ?g (bz_blobs s)"
    by (simp add: restore_blob_cleanup_claim_def exec_one_def)
  have free: "Some i \<notin> claim_id ` set (bz_handlers ?s)"
    using claim_id_dropped [OF system_okD(6) [OF ok(1)] ok(2), of i False] h by simp
  have "blob_system_ok (?s\<lparr>bz_world := (bz_world s)\<lparr>bw_blobs := map ?g (bz_blobs s), bw_objects := bw_objects (bz_world s)\<rparr>\<rparr>)"
  proof (rule system_ok_inplace [OF ok'])
    show "blob_table_ok (map ?g (bz_blobs ?s))" using claim_writes_ok(2) [OF D(3), of now i] m by simp
    show "fb_id (?g x) = fb_id x \<and> same_place (?g x) x
      \<and> (fb_ref_count (?g x) = fb_ref_count x \<or> actual_refs (bz_world ?s) (fb_id x) = 0
           \<and> (fb_ref_count (?g x) = BLOB_CLEANUP_CLAIMED_REF_COUNT
              \<or> fb_ref_count (?g x) = 0 \<and> Some (fb_id x) \<notin> claim_id ` set (bz_handlers ?s)))"
      if "x \<in> set (bz_blobs ?s)" for x
      using D(8) [OF that] free
      by (auto simp: restore_blob_row_def same_place_def count_exact_def BLOB_CLEANUP_CLAIMED_REF_COUNT_def)
    show "object_present x (bw_objects (bz_world s))"
      if "x \<in> set (bz_blobs ?s)" "0 < actual_refs (bz_world ?s) (fb_id x)" for x
      using D(9) [OF that] by simp
  qed simp
  moreover have "?s\<lparr>bz_world := (bz_world s)\<lparr>bw_blobs := map ?g (bz_blobs s), bw_objects := bw_objects (bz_world s)\<rparr>\<rparr>
      = s\<lparr>bz_world := w', bz_handlers := (bz_handlers s)[k := st']\<rparr>"
    using st True m by (cases s) auto
  ultimately show ?thesis by simp
next
  case False
  then show ?thesis using system_ok_set_handler [OF ok, of "C_Done False"] st by auto
qed

lemma handle_ok:
  assumes ok: "blob_system_ok s" "k < length (bz_handlers s)"
    and st: "cleanup_step r now (bz_handlers s ! k) (bz_world s) = (st', w')"
    and derived: "\<forall>b \<in> set (bz_blobs s). \<forall>p. fb_storage_path b = Some p \<longrightarrow> p \<notin> set (cr_derived r)"
  shows "blob_system_ok (s\<lparr>bz_world := w', bz_handlers := (bz_handlers s)[k := st']\<rparr>)"
proof (cases "bz_handlers s ! k")
  case (C_Done res)
  then show ?thesis using st ok(1) by (metis (no_types, lifting) Pair_inject cleanup_step.simps(9) list_update_id
    blob_system.surjective blob_system.update_convs)
qed (use assms handle_reload handle_claim handle_claimed handle_virtual_row handle_delete handle_probe
  handle_row handle_restore in \<open>simp_all del: cleanup_step.simps\<close>)

lemma adopt_or_insert_InrD:
  assumes "adopt_or_insert overflow contention now row tbl = (tbl', Inr res)" "unique_key fb_id tbl" "slots_distinct tbl"
  shows "(\<exists>b \<in> set tbl. fb_backing b = fb_backing row \<and> fr_inserted res = False \<and> fb_id (fr_model res) = fb_id b
           \<and> same_place (fr_model res) b \<and> increment_blob_ref_count now (fb_id b) tbl = Inr tbl')
      \<or> fr_inserted res \<and> fr_model res = row \<and> tbl' = tbl @ [row] \<and> (\<forall>b \<in> set tbl. \<not> same_slot b row)"
proof (cases "find_slot (fb_hash row) (fb_policy_id row) (fb_backing row) tbl")
  case None
  then have "\<forall>b \<in> set tbl. \<not> same_slot b row" by (auto simp: find_slot_def find_None_iff same_slot_def)
  then show ?thesis using assms(1) None by (auto simp: adopt_or_insert_def)
next
  case (Some b)
  then have b: "b \<in> set tbl" "fb_backing b = fb_backing row" using find_slot_Some [OF assms(3)] by auto
  have "0 \<le> fb_ref_count b" "fr_inserted res = False" "fr_model res = increment_row now 1 b"
    "tbl' = map (\<lambda>x. if fb_id x = fb_id b then increment_row now 1 x else x) tbl"
    using assms(1) Some by (auto simp: adopt_or_insert_def split: if_splits)
  then show ?thesis using b increment_active_row(1) [OF assms(2) b(1), of now]
    by (intro disjI1 bexI [of _ b]) (auto simp: increment_row_def same_place_def)
qed

lemma new_row_facts:
  "fb_id (new_blob_row now i hash sz policy path backing) = i"
  "fb_ref_count (new_blob_row now i hash sz policy path backing) = 1"
  "fb_policy_id (new_blob_row now i hash sz policy path backing) = policy"
  "fb_storage_path (new_blob_row now i hash sz policy path backing) = path"
  "fb_backing (new_blob_row now i hash sz policy path backing) = backing"
  "fb_cleanup_pending_since (new_blob_row now i hash sz policy path backing) = None"
  "blob_row_ok (new_blob_row now i hash sz policy path backing)"
  by (simp_all add: new_blob_row_def blob_row_ok_def)

lemma system_ok_adopt:
  assumes ok: "blob_system_ok s"
    and a: "adopt_or_insert overflow contention now row (bz_blobs s) = (tbl', Inr res)"
    and row: "row = new_blob_row now (bz_next_id s) hash sz policy path backing"
    and obj: "object_present (fr_model res) (bw_objects (bz_world s))"
    and place: "fr_inserted res \<longrightarrow> (\<forall>b \<in> set (bz_blobs s). fb_backing b = Stored \<longrightarrow> backing = Stored
      \<longrightarrow> fb_policy_id b = policy \<longrightarrow> fb_storage_path b \<noteq> path)"
  shows "blob_system_ok (s\<lparr>bz_world := (bz_world s)\<lparr>bw_blobs := tbl',
      bw_file_refs := fb_id (fr_model res) # bw_file_refs (bz_world s)\<rparr>, bz_next_id := bz_next_id s + 1\<rparr>)"
proof -
  note D = system_okD [OF ok]
  consider (found) b where "b \<in> set (bz_blobs s)" "fb_id (fr_model res) = fb_id b" "same_place (fr_model res) b"
      "increment_blob_ref_count now (fb_id b) (bz_blobs s) = Inr tbl'"
    | (inserted) "fr_inserted res" "fr_model res = row" "tbl' = bz_blobs s @ [row]"
      "\<forall>b \<in> set (bz_blobs s). \<not> same_slot b row"
    using adopt_or_insert_InrD [OF a D(4,5)] by blast
  then show ?thesis
  proof cases
    case found
    have "object_present x (bw_objects (bz_world s))" if "x \<in> set (bz_blobs s)" "fb_id x = fb_id b" for x
      using obj found(3) unique_key_inj [OF D(4) that(1) found(1) that(2)]
      by (simp add: object_present_def same_place_def storage_path_for_connector_def)
    then show ?thesis using found(2) by (intro system_ok_increment [OF ok found(4)]) auto
  next
    case inserted
    then show ?thesis
      by (intro system_ok_append [OF ok, of row]) (use obj place row in \<open>auto simp: new_row_facts\<close>)
  qed
qed

lemma actual_refs_remove:
  "i \<in> set (bw_file_refs w) \<Longrightarrow> actual_refs (w\<lparr>bw_blobs := t, bw_file_refs := remove1 i (bw_file_refs w)\<rparr>) j
     = actual_refs w j - (if j = i then 1 else 0)"
  "i \<in> set (bw_revision_refs w) \<Longrightarrow> actual_refs (w\<lparr>bw_blobs := t, bw_revision_refs := remove1 i (bw_revision_refs w)\<rparr>) j
     = actual_refs w j - (if j = i then 1 else 0)"
  using count_list_pos [of "bw_file_refs w" i] count_list_pos [of "bw_revision_refs w" i]
  by (auto simp: actual_refs_def count_list_remove1)

lemma system_ok_same_refs:
  assumes ok: "blob_system_ok s" and w': "bw_blobs w' = bz_blobs s" "bw_objects (bz_world s) \<subseteq> bw_objects w'"
    "\<And>j. actual_refs w' j = actual_refs (bz_world s) j"
  shows "blob_system_ok (s\<lparr>bz_world := w'\<rparr>)"
proof (rule system_ok_map [OF ok, where g = id])
  note D = system_okD [OF ok]
  show "object_present b (bw_objects w')" if "b \<in> set (bz_blobs s)" "0 < actual_refs w' (fb_id b)" for b
    using D(9) [OF that(1)] that(2) w'(2,3) by (auto simp: object_present_def)
  show "fb_id (id b) = fb_id b \<and> same_place (id b) b \<and> count_exact w' (id b)" if "b \<in> set (bz_blobs s)" for b
    using D(8) [OF that] w'(3) by (simp add: same_place_def count_exact_def)
qed (use w' system_okD [OF ok] in simp_all)

lemma blob_step_ok:
  assumes "blob_step s t" "blob_system_ok s"
  shows "blob_system_ok t"
  using assms(1)
proof cases
  case (stage key)
  show ?thesis unfolding stage by (rule system_ok_same_refs [OF assms(2)]) (auto simp: actual_refs_def)
next
  case (publish w row now hash sz policy path backing tbl' row')
  then have "tbl' = bz_blobs s @ [row]" "\<forall>b \<in> set (bz_blobs s). \<not> same_slot b row"
    by (auto simp: create_blob_def insert_blob_def new_row_facts Let_def split: sum.splits if_splits)
  then show ?thesis using publish
    by (intro system_ok_append [OF assms(2), of row]) (auto simp: new_row_facts)
next
  case (upload_known w now hash sz policy path tbl' res)
  then show ?thesis
    using system_ok_adopt [OF assms(2) _ refl, of _ _ now hash sz policy "Some path" Stored tbl' res]
      find_or_create_blob_quiet [OF system_okD(3) [OF assms(2)]] by (simp add: new_row_facts)
next
  case (upload_empty w now hash policy tbl' res)
  then have h: "hash = EMPTY_SHA256"
    using find_or_create_empty_quiet [OF system_okD(3) [OF assms(2)]] by (auto split: if_splits)
  obtain overflow contention where a: "adopt_or_insert overflow contention now
      (new_blob_row now (bz_next_id s) hash 0 policy None VirtualEmpty) (bz_blobs s) = (tbl', Inr res)"
    using upload_empty find_or_create_empty_quiet [OF system_okD(3) [OF assms(2)]] h by auto
  have "fb_backing (fr_model res) = VirtualEmpty"
    using adopt_or_insert_InrD [OF a system_okD(4,5) [OF assms(2)]] by (auto simp: new_row_facts same_place_def)
  then have "object_present (fr_model res) (bw_objects (bz_world s))"
    by (simp add: object_present_def storage_path_for_connector_def has_connector_object_def)
  then show ?thesis using system_ok_adopt [OF assms(2) a refl] upload_empty by simp
next
  case (copy w i now tbl')
  then show ?thesis
    using system_okD(9) [OF assms(2)] by (intro system_ok_increment [OF assms(2), of now i tbl']) auto
next
  case (demote w i)
  then show ?thesis
    using count_list_pos [of "bw_file_refs w" i]
    by (auto intro!: system_ok_same_refs [OF assms(2)] simp: actual_refs_def count_list_remove1)
next
  case (promote w i)
  then show ?thesis
    using count_list_pos [of "bw_revision_refs w" i]
    by (auto intro!: system_ok_same_refs [OF assms(2)] simp: actual_refs_def count_list_remove1)
next
  case (release_file w i now)
  then have "0 < actual_refs (bz_world s) i" by (simp add: actual_refs_def count_list_pos)
  then show ?thesis
    by (rule system_ok_decrement [OF assms(2), where now = now
          and w' = "w\<lparr>bw_blobs := decrement_blob_ref_count now i (bw_blobs w), bw_file_refs := remove1 i (bw_file_refs w)\<rparr>"])
      (use release_file actual_refs_remove(1) in simp_all)
next
  case (release_revision w i now)
  then have "0 < actual_refs (bz_world s) i" by (simp add: actual_refs_def count_list_pos)
  then show ?thesis
    by (rule system_ok_decrement [OF assms(2), where now = now
          and w' = "w\<lparr>bw_blobs := decrement_blob_ref_count now i (bw_blobs w), bw_revision_refs := remove1 i (bw_revision_refs w)\<rparr>"])
      (use release_revision actual_refs_remove(2) in simp_all)
next
  case (spawn ensure i)
  have "claims_exclusive (C_Reload ensure i # bz_handlers s)"
    using system_okD(6) [OF assms(2)] by (auto simp: claims_exclusive_def nth_Cons split: nat.splits)
  then show ?thesis using spawn assms(2) by (auto simp: blob_system_ok_def)
next
  case (handle k r now st' w')
  then show ?thesis using handle_ok [OF assms(2)] by simp
next
  case (reconcile now i w' out)
  then show ?thesis using system_ok_reconcile [OF assms(2)] by simp
next
  case (admin_reconcile out_of_range now i w' out)
  then show ?thesis using system_ok_admin_reconcile [OF assms(2)] by simp
qed

interpretation blob_life: step_system blob_step blob_system_ok
  by unfold_locales (rule blob_step_ok)

definition empty_blob_system :: blob_system where
  "empty_blob_system = \<lparr>bz_world = \<lparr>bw_blobs = [], bw_objects = {}, bw_file_refs = [], bw_revision_refs = []\<rparr>,
     bz_next_id = 1, bz_handlers = []\<rparr>"

lemma empty_blob_system_ok: "blob_system_ok empty_blob_system"
  by (simp add: blob_system_ok_def empty_blob_system_def rows_exact_def objects_kept_def blob_table_ok_def
      unique_key_def slots_distinct_def places_distinct_def actual_refs_def claims_exclusive_def)


definition ex_stored_system :: blob_system where
  "ex_stored_system = \<lparr>bz_world = \<lparr>bw_blobs = [new_blob_row 10 1 ''s3-x'' 5 1 (Some ''files/x'') Stored],
     bw_objects = {(1, ''files/x'')}, bw_file_refs = [1], bw_revision_refs = []\<rparr>,
     bz_next_id = 2, bz_handlers = [C_Reload True 1]\<rparr>"

lemma ex_stored_reachable: "blob_step\<^sup>*\<^sup>* empty_blob_system ex_stored_system"
proof -
  let ?row = "new_blob_row 10 1 ''s3-x'' 5 1 (Some ''files/x'') Stored"
  define s1 where "s1 = empty_blob_system\<lparr>bz_world := (bz_world empty_blob_system)\<lparr>bw_objects :=
      insert (1, ''files/x'') (bw_objects (bz_world empty_blob_system))\<rparr>\<rparr>"
  define s2 where "s2 = s1\<lparr>bz_world := (bz_world s1)\<lparr>bw_blobs := [?row], bw_file_refs := bz_next_id s1
      # bw_file_refs (bz_world s1)\<rparr>, bz_next_id := bz_next_id s1 + 1\<rparr>"
  have "blob_step empty_blob_system s1" unfolding s1_def by (rule blob_step.stage)
  moreover have "blob_step s1 s2"
    unfolding s2_def
    by (rule blob_step.publish [OF refl, where row = ?row and now = 10 and hash = "''s3-x''" and sz = 5
          and policy = 1 and path = "Some ''files/x''" and backing = Stored and row' = ?row])
       (simp_all add: s1_def empty_blob_system_def create_blob_def validate_backing_def validate_backing_fields_def
          new_blob_row_def insert_blob_def object_present_def storage_path_for_connector_def has_connector_object_def
          Let_def)
  moreover have "blob_step s2 ex_stored_system"
  proof -
    have "ex_stored_system = s2\<lparr>bz_handlers := C_Reload True 1 # bz_handlers s2\<rparr>"
      by (simp add: ex_stored_system_def s2_def s1_def empty_blob_system_def)
    then show ?thesis using blob_step.spawn [of s2 True 1] by metis
  qed
  ultimately show ?thesis by (meson converse_rtranclp_into_rtranclp rtranclp.rtrancl_refl)
qed


end
