(* ===== verification/Drive_State.thy ===== *)
theory Drive_State
  imports Revision_Chains Storage_Quota Blob_Cleanup
begin

text \<open>
  The database as the file services see it, access to it, and the records every change leaves:
  \<open>src/src/services/workspace/scope/mod.rs\<close> (who may use which workspace, which files belong to it),
  \<open>src/src/services/workspace/activity.rs\<close> (the activity rows) and
  \<open>src/src/services/events/storage_change.rs\<close> (the events).

  A \<open>drive\<close> is the tables of the components below put together: the ledger of revisions with the files, the
  blobs and the stored objects, the accounts, the tasks with the locks, the shares. A service function that
  runs in one transaction returns the new drive or an error; one that goes on after its commit returns the
  drive together with its result. The activity's JSON details are kept as the values that are serialised.
\<close>

section \<open>State\<close>

datatype team_member_role = TR_Owner | TR_Admin | TR_Member

definition can_manage_team :: "team_member_role \<Rightarrow> bool" where
  "can_manage_team r = (r \<in> {TR_Owner, TR_Admin})"

record team_member =
  tm_team_id :: int
  tm_user_id :: int
  tm_role :: team_member_role

record share_row =
  sh_id :: int
  sh_file_id :: "int option"
  sh_folder_id :: "int option"

datatype activity_source = AS_Rest | AS_Webdav | AS_Wopi | AS_Task | AS_Service

fun activity_source_as_str :: "activity_source \<Rightarrow> string" where
  "activity_source_as_str AS_Rest = ''rest''"
| "activity_source_as_str AS_Webdav = ''webdav''"
| "activity_source_as_str AS_Wopi = ''wopi''"
| "activity_source_as_str AS_Task = ''task''"
| "activity_source_as_str AS_Service = ''service''"

definition parse_activity_source :: "string \<Rightarrow> activity_source aster_result" where
  "parse_activity_source v =
     (if v = ''rest'' then Inr AS_Rest
      else if v = ''webdav'' then Inr AS_Webdav
      else if v = ''wopi'' then Inr AS_Wopi
      else if v = ''task'' then Inr AS_Task
      else if v = ''service'' then Inr AS_Service
      else Inl (internal_error ''invalid activity source''))"

record file_change_details =
  fc_previous_name :: string
  fc_next_name :: string
  fc_source_folder_id :: "int option"
  fc_target_folder_id :: "int option"
  fc_previous_size :: int
  fc_size :: int
  fc_previous_mime_type :: string
  fc_mime_type :: string

datatype folder_icon_kind = IK_Default | IK_Builtin | IK_Emoji

record folder_change_details =
  fd_previous_name :: string
  fd_next_name :: string
  fd_source_parent_id :: "int option"
  fd_target_parent_id :: "int option"
  fd_previous_kind :: folder_icon_kind
  fd_kind :: folder_icon_kind
  fd_previous_key :: "string option"
  fd_key :: "string option"

datatype activity_details =
    AD_Folder "int option"
  | AD_Change file_change_details "(string \<times> string) option"
  | AD_Parent "int option"
  | AD_FolderChange folder_change_details "(string \<times> string) option"

text \<open>
  The second part of a change is the pair of paths, recorded when the name or the place changed. \<open>AD_Folder\<close> and
  \<open>AD_Parent\<close> are the details of a new file and of a new folder.
\<close>

record workspace_activity =
  wa_event_id :: string
  wa_operation_id :: string
  wa_team_id :: "int option"
  wa_owner_user_id :: "int option"
  wa_entity_type :: string
  wa_entity_id :: int
  wa_entity_name :: string
  wa_actor_user_id :: "int option"
  wa_actor_name :: string
  wa_action :: string
  wa_source :: string
  wa_details :: activity_details
  wa_created_at :: time

datatype storage_change_kind =
    FileCreated | FileUpdated | FileTrashed | FileRestoredFromTrash | FilePurged | FileVersionRestored
  | FileVersionDeleted | FolderCreated | FolderUpdated | FolderTrashed | FolderRestoredFromTrash | FolderPurged
  | TagCreated | TagUpdated | TagDeleted | TagAssignmentChanged | LockCreated | LockDeleted | TrashPurgedAll
  | SyncRequired

datatype storage_change_audience = AU_User int | AU_Team int | AU_Any

datatype storage_change_workspace = CW_Personal | CW_Team int

record storage_change_event =
  ev_audience :: storage_change_audience
  ev_kind :: storage_change_kind
  ev_workspace :: "storage_change_workspace option"
  ev_file_ids :: "int list"
  ev_folder_ids :: "int list"
  ev_affected_parent_ids :: "int list"
  ev_root_affected :: bool
  ev_affects_quota :: bool
  ev_storage_delta :: "int option"
  ev_at :: time

record drive =
  dr_ledger :: ledger
  dr_blobs :: blob_table
  dr_objects :: "(int \<times> string) set"
  dr_accounts :: account_db
  dr_usernames :: "int \<Rightarrow> string"
  dr_members :: "team_member list"
  dr_tasks :: task_world
  dr_shares :: "share_row list"
  dr_activities :: "workspace_activity list"
  dr_events :: "storage_change_event list"

text \<open>
  What a request draws from its surroundings: the clock, ids, the name classifier and the outcome of the
  storage driver's calls.
\<close>

record file_classification =
  cl_extension :: string
  cl_compound_extension :: "string option"
  cl_category :: string

record drive_env =
  de_now :: time
  de_ledger :: ledger_env
  de_locks :: lock_env
  de_event_uuid :: string
  de_operation_uuid :: string
  de_classify :: "string \<Rightarrow> string \<Rightarrow> file_classification"
  de_paths :: "int list \<Rightarrow> (int \<Rightarrow> string option) aster_result"
  de_replies :: "nat \<Rightarrow> nat \<Rightarrow> cleanup_replies"

section \<open>Access to a workspace\<close>

text \<open>
  A cached membership is compared with the database before it is used, so the database decides; the cache
  is not modelled.
\<close>

definition find_active_team_access :: "int \<Rightarrow> int \<Rightarrow> drive \<Rightarrow> team_member option" where
  "find_active_team_access team user d =
     List.find (\<lambda>m. tm_team_id m = team \<and> tm_user_id m = user
       \<and> (\<exists>t \<in> set (ad_teams (dr_accounts d)). sa_id t = tm_team_id m \<and> \<not> sa_archived t)) (dr_members d)"

definition load_team_access :: "int \<Rightarrow> int \<Rightarrow> drive \<Rightarrow> team_member aster_result" where
  "load_team_access team user d =
     (case find_active_team_access team user d of
        Some m \<Rightarrow> Inr m
      | None \<Rightarrow> bind_result (find_active_by_id team (ad_teams (dr_accounts d))) (\<lambda>_.
          Inl (auth_forbidden_with_code ''TeamNotMember'' ''not a member of this team'')))"

definition require_team_access_with_db :: "int \<Rightarrow> int \<Rightarrow> drive \<Rightarrow> unit aster_result" where
  "require_team_access_with_db team user d = bind_result (load_team_access team user d) (\<lambda>_. Inr ())"

definition require_scope_access_with_db :: "workspace_storage_scope \<Rightarrow> drive \<Rightarrow> unit aster_result" where
  "require_scope_access_with_db sc d =
     (case sc of WS_Personal _ \<Rightarrow> Inr () | WS_Team team actor \<Rightarrow> require_team_access_with_db team actor d)"

definition require_team_management_access :: "int \<Rightarrow> int \<Rightarrow> drive \<Rightarrow> unit aster_result" where
  "require_team_management_access team user d =
     bind_result (load_team_access team user d) (\<lambda>m.
     if \<not> can_manage_team (tm_role m)
     then Inl (auth_forbidden_with_code ''TeamAdminOrOwnerRequired'' ''team owner or admin role is required'')
     else Inr ())"

definition load_scope_actor_username :: "workspace_storage_scope \<Rightarrow> drive \<Rightarrow> string aster_result" where
  "load_scope_actor_username sc d =
     bind_result (user_account_by_id (actor_user_id sc) (ad_users (dr_accounts d))) (\<lambda>a.
     Inr (dr_usernames d (sa_id a)))"

definition scope_denied :: "string \<Rightarrow> aster_error" where
  "scope_denied m = auth_forbidden_with_code ''WorkspaceScopeDenied'' m"

definition ensure_personal_file_scope :: "file_model \<Rightarrow> unit aster_result" where
  "ensure_personal_file_scope f =
     (if fm_team_id f \<noteq> None then Inl (scope_denied ''file belongs to a team workspace'') else Inr ())"

definition ensure_file_resource_scope :: "file_model \<Rightarrow> workspace_resource_scope \<Rightarrow> unit aster_result" where
  "ensure_file_resource_scope f sc =
     (case sc of
        RS_Personal u \<Rightarrow>
          bind_result (ensure_personal_file_scope f) (\<lambda>_.
          bind_result (ok_or (scope_denied ''file has no personal owner'') (fm_owner_user_id f)) (\<lambda>owner.
          verify_owner owner u ''file''))
      | RS_Team t \<Rightarrow>
          if fm_team_id f \<noteq> Some t then Inl (scope_denied ''file is outside team workspace'') else Inr ())"

definition ensure_file_scope :: "file_model \<Rightarrow> workspace_storage_scope \<Rightarrow> unit aster_result" where
  "ensure_file_scope f sc = ensure_file_resource_scope f (resource_scope sc)"

definition ensure_active_file_scope :: "file_model \<Rightarrow> workspace_storage_scope \<Rightarrow> unit aster_result" where
  "ensure_active_file_scope f sc =
     bind_result (ensure_file_scope f sc) (\<lambda>_.
     if fm_deleted_at f \<noteq> None
     then Inl (FileNotFound (payload_new (''file #'' @ int_to_string (fm_id f) @ '' is in trash''))) else Inr ())"

definition verify_file_access :: "workspace_storage_scope \<Rightarrow> int \<Rightarrow> drive \<Rightarrow> file_model aster_result" where
  "verify_file_access sc i d =
     bind_result (require_scope_access_with_db sc d) (\<lambda>_.
     bind_result (file_by_id i (dr_ledger d)) (\<lambda>f.
     bind_result (ensure_active_file_scope f sc) (\<lambda>_. Inr f)))"

section \<open>Locks\<close>

text \<open>The locks' view of a file: the columns lock checks use.\<close>

definition lock_row :: "file_model \<Rightarrow> file_row" where
  "lock_row f = \<lparr>fi_id = fm_id f, fi_folder_id = fm_folder_id f, fi_team_id = fm_team_id f,
     fi_owner_user_id = fm_owner_user_id f\<rparr>"

definition lock_view :: "drive \<Rightarrow> lock_db" where
  "lock_view d = (tw_locks (dr_tasks d))\<lparr>db_files := map lock_row (lg_files (dr_ledger d))\<rparr>"

definition with_locks :: "drive \<Rightarrow> lock_db \<Rightarrow> drive" where
  "with_locks d db = d\<lparr>dr_tasks := (dr_tasks d)\<lparr>tw_locks := db\<rparr>\<rparr>"

text \<open>\<open>enforce_file_mutation_on\<close> returns the row it has locked, here with all its columns.\<close>

definition enforce_file_mutation ::
  "drive_env \<Rightarrow> file_model \<Rightarrow> submitted_lock_credentials \<Rightarrow> drive \<Rightarrow> (drive \<times> file_model) aster_result" where
  "enforce_file_mutation env f cr d =
     bind_result (enforce_file_mutation_on (de_locks env) (lock_row f) cr (lock_view d)) (\<lambda>(db, row).
     bind_result (file_by_id (fi_id row) (dr_ledger d)) (\<lambda>current. Inr (with_locks d db, current)))"

section \<open>Activities\<close>

record activity_context =
  ac_actor_user_id :: "int option"
  ac_actor_name :: string
  ac_source :: activity_source
  ac_operation_id :: string

definition actor_context :: "drive_env \<Rightarrow> int \<Rightarrow> activity_source \<Rightarrow> drive \<Rightarrow> activity_context aster_result" where
  "actor_context env u src d =
     bind_result (user_account_by_id u (ad_users (dr_accounts d))) (\<lambda>a.
     Inr \<lparr>ac_actor_user_id = Some u, ac_actor_name = dr_usernames d (sa_id a), ac_source = src,
          ac_operation_id = de_operation_uuid env\<rparr>)"

definition creator_context :: "drive_env \<Rightarrow> int option \<Rightarrow> string \<Rightarrow> activity_context" where
  "creator_context env u name =
     \<lparr>ac_actor_user_id = u, ac_actor_name = name, ac_source = AS_Service, ac_operation_id = de_operation_uuid env\<rparr>"

definition file_activity_model ::
  "drive_env \<Rightarrow> activity_context \<Rightarrow> file_model \<Rightarrow> string \<Rightarrow> activity_details \<Rightarrow> time \<Rightarrow> workspace_activity" where
  "file_activity_model env ctx f action details now =
     \<lparr>wa_event_id = de_event_uuid env, wa_operation_id = ac_operation_id ctx, wa_team_id = fm_team_id f,
      wa_owner_user_id = fm_owner_user_id f, wa_entity_type = ''file'', wa_entity_id = fm_id f,
      wa_entity_name = fm_name f, wa_actor_user_id = ac_actor_user_id ctx, wa_actor_name = ac_actor_name ctx,
      wa_action = action, wa_source = activity_source_as_str (ac_source ctx), wa_details = details,
      wa_created_at = now\<rparr>"

text \<open>The unique key of the table is the event id.\<close>

definition append_activity :: "workspace_activity \<Rightarrow> drive \<Rightarrow> drive aster_result" where
  "append_activity a d =
     bind_result (insert_rows (unique_key wa_event_id) [a] (dr_activities d)) (\<lambda>t. Inr (d\<lparr>dr_activities := t\<rparr>))"

definition file_created :: "drive_env \<Rightarrow> file_model \<Rightarrow> string \<Rightarrow> activity_source \<Rightarrow> drive \<Rightarrow> drive aster_result" where
  "file_created env f action src d =
     append_activity (file_activity_model env
       ((creator_context env (fm_created_by_user_id f) (fm_created_by_username f))\<lparr>ac_source := src\<rparr>)
       f action (AD_Folder (fm_folder_id f)) (de_now env)) d"

definition trim_end_slashes :: "string \<Rightarrow> string" where
  "trim_end_slashes s = rev (dropWhile (\<lambda>c. c = CHR ''/'') (rev s))"

definition location_details ::
  "(int \<Rightarrow> string option) \<Rightarrow> int option \<Rightarrow> string \<Rightarrow> int option \<Rightarrow> string \<Rightarrow> (string \<times> string) aster_result" where
  "location_details paths source_parent source_name target_parent target_name =
     (let path = \<lambda>parent name.
        bind_result (case parent of
             Some i \<Rightarrow> ok_or (internal_error ''missing activity parent path'') (paths i)
           | None \<Rightarrow> Inr ''/'') (\<lambda>p. Inr (trim_end_slashes p @ ''/'' @ name)) in
      bind_result (path source_parent source_name) (\<lambda>s.
      bind_result (path target_parent target_name) (\<lambda>t. Inr (s, t))))"

text \<open>\<open>build_folder_paths\<close> of the two folders is a field of the environment.\<close>

definition location_changes ::
  "drive_env \<Rightarrow> int option \<Rightarrow> string \<Rightarrow> int option \<Rightarrow> string \<Rightarrow> (string \<times> string) aster_result" where
  "location_changes env source_parent source_name target_parent target_name =
     bind_result (de_paths env (List.map_filter id [source_parent, target_parent])) (\<lambda>paths.
     location_details paths source_parent source_name target_parent target_name)"

definition set_file_row :: "int \<Rightarrow> (file_model \<Rightarrow> file_model) \<Rightarrow> drive \<Rightarrow> drive" where
  "set_file_row i g d =
     d\<lparr>dr_ledger := (dr_ledger d)\<lparr>lg_files := fst (update_where (\<lambda>f. fm_id f = i) g (lg_files (dr_ledger d)))\<rparr>\<rparr>"

definition modified_columns :: "drive_env \<Rightarrow> activity_context \<Rightarrow> file_model \<Rightarrow> file_model" where
  "modified_columns env ctx f =
     f\<lparr>fm_modified_by_user_id := ac_actor_user_id ctx, fm_modified_by_username := Some (ac_actor_name ctx),
       fm_modified_at := Some (de_now env)\<rparr>"

definition file_changed ::
  "drive_env \<Rightarrow> activity_context \<Rightarrow> file_model \<Rightarrow> file_model \<Rightarrow> string \<Rightarrow> drive \<Rightarrow> (drive \<times> file_model) aster_result" where
  "file_changed env ctx before after action d =
     bind_result
       (if fm_name before \<noteq> fm_name after \<or> fm_folder_id before \<noteq> fm_folder_id after
        then bind_result (location_changes env (fm_folder_id before) (fm_name before) (fm_folder_id after) (fm_name after))
               (\<lambda>p. Inr (Some p))
        else Inr None) (\<lambda>paths.
     let d1 = set_file_row (fm_id after) (modified_columns env ctx) d;
         after' = modified_columns env ctx after in
     bind_result (append_activity (file_activity_model env ctx after' action
        (AD_Change \<lparr>fc_previous_name = fm_name before, fc_next_name = fm_name after',
            fc_source_folder_id = fm_folder_id before, fc_target_folder_id = fm_folder_id after',
            fc_previous_size = fm_size before, fc_size = fm_size after',
            fc_previous_mime_type = fm_mime_type before, fc_mime_type = fm_mime_type after'\<rparr> paths)
        (de_now env)) d1) (\<lambda>d2. Inr (d2, after')))"

section \<open>Events\<close>

definition normalize_ids :: "int list \<Rightarrow> int list" where
  "normalize_ids ids = sorted_list_of_set (set ids)"

definition normalize_parent_ids :: "int option list \<Rightarrow> int list \<times> bool" where
  "normalize_parent_ids ps = (normalize_ids (List.map_filter id ps), None \<in> set ps)"

definition event_for_resource_scope ::
  "time \<Rightarrow> storage_change_kind \<Rightarrow> workspace_resource_scope \<Rightarrow> int list \<Rightarrow> int list \<Rightarrow> int option list \<Rightarrow> storage_change_event" where
  "event_for_resource_scope now kind sc files folders parents =
     (let (audience, ws) = (case sc of RS_Personal u \<Rightarrow> (AU_User u, CW_Personal) | RS_Team t \<Rightarrow> (AU_Team t, CW_Team t));
          (ps, root) = normalize_parent_ids parents in
      \<lparr>ev_audience = audience, ev_kind = kind, ev_workspace = Some ws, ev_file_ids = normalize_ids files,
       ev_folder_ids = normalize_ids folders, ev_affected_parent_ids = ps, ev_root_affected = root,
       ev_affects_quota = False, ev_storage_delta = None, ev_at = now\<rparr>)"

definition event_new ::
  "time \<Rightarrow> storage_change_kind \<Rightarrow> workspace_storage_scope \<Rightarrow> int list \<Rightarrow> int list \<Rightarrow> int option list \<Rightarrow> storage_change_event" where
  "event_new now kind sc files folders parents =
     (let (audience, ws) = (case sc of WS_Personal u \<Rightarrow> (AU_User u, CW_Personal) | WS_Team t _ \<Rightarrow> (AU_Team t, CW_Team t));
          (ps, root) = normalize_parent_ids parents in
      \<lparr>ev_audience = audience, ev_kind = kind, ev_workspace = Some ws, ev_file_ids = normalize_ids files,
       ev_folder_ids = normalize_ids folders, ev_affected_parent_ids = ps, ev_root_affected = root,
       ev_affects_quota = False, ev_storage_delta = None, ev_at = now\<rparr>)"

definition with_storage_delta :: "int \<Rightarrow> storage_change_event \<Rightarrow> storage_change_event" where
  "with_storage_delta delta e = e\<lparr>ev_affects_quota := delta \<noteq> 0, ev_storage_delta := Some delta\<rparr>"

definition is_visible_to :: "int \<Rightarrow> int set \<Rightarrow> storage_change_event \<Rightarrow> bool" where
  "is_visible_to user teams e =
     (case ev_audience e of AU_Any \<Rightarrow> True | AU_User u \<Rightarrow> u = user | AU_Team t \<Rightarrow> t \<in> teams)"

definition publish_event :: "storage_change_event \<Rightarrow> drive \<Rightarrow> drive" where
  "publish_event e d = d\<lparr>dr_events := dr_events d @ [e]\<rparr>"

section \<open>The blob handlers on the drive\<close>

definition non_current_refs :: "ledger \<Rightarrow> int list" where
  "non_current_refs lg =
     List.map_filter (\<lambda>(r, h). if fr_retired_at r = None \<and> non_current h r then fr_blob_id r else None) (join_histories lg)"

definition blob_view :: "drive \<Rightarrow> blob_world" where
  "blob_view d = \<lparr>bw_blobs = dr_blobs d, bw_objects = dr_objects d,
     bw_file_refs = map fm_blob_id (lg_files (dr_ledger d)), bw_revision_refs = non_current_refs (dr_ledger d)\<rparr>"

definition with_blob_world :: "drive \<Rightarrow> blob_world \<Rightarrow> drive" where
  "with_blob_world d w = d\<lparr>dr_blobs := bw_blobs w, dr_objects := bw_objects w\<rparr>"

definition cleanup_blob_if_unreferenced :: "drive_env \<Rightarrow> nat \<Rightarrow> int \<Rightarrow> drive \<Rightarrow> drive" where
  "cleanup_blob_if_unreferenced env k b d =
     with_blob_world d (snd (ensure_blob_cleanup_if_unreferenced (de_replies env k) (\<lambda>_. de_now env) b (blob_view d)))"

definition delete_thumbnail :: "drive_env \<Rightarrow> nat \<Rightarrow> file_blob \<Rightarrow> drive \<Rightarrow> drive" where
  "delete_thumbnail env k b d =
     (let r = de_replies env k 0 in
      if \<not> cr_policy_known r \<or> \<not> cr_driver_ok r then d
      else with_blob_world d (fst (delete_thumbnail_with_driver r (de_now env) b (blob_view d))))"

end
