(* ===== verification/File_Versions.thy ===== *)
theory File_Versions
  imports Drive_State
begin

text \<open>
  Restoring, deleting and thinning out revisions: \<open>src/src/services/content/version.rs\<close>.

  Each of the three works on all the tables at once: the revision chain, the file row, the reference count
  of the blob and the usage of the workspace. What runs in the transaction is a function to a result, what
  follows the commit (thumbnails, blob cleanup, events) changes the drive whatever it answers.
\<close>

section \<open>Reading\<close>

definition load_revision_for_file :: "int \<Rightarrow> int \<Rightarrow> ledger \<Rightarrow> file_revision aster_result" where
  "load_revision_for_file file_id rev_id lg =
     bind_result (find_by_id_for_file file_id rev_id lg) (ok_or (record_not_found ''version not found''))"

definition resource_scope_from_file :: "file_model \<Rightarrow> workspace_resource_scope aster_result" where
  "resource_scope_from_file f =
     (case fm_team_id f of
        Some t \<Rightarrow> Inr (RS_Team t)
      | None \<Rightarrow> bind_result (ok_or (auth_forbidden ''file has no personal owner'') (fm_owner_user_id f)) (\<lambda>u.
          Inr (RS_Personal u)))"

record file_version =
  vs_id :: int
  vs_file_id :: int
  vs_public_id :: string
  vs_blob_id :: "int option"
  vs_version :: int
  vs_size :: int
  vs_mime_type :: "string option"
  vs_etag :: string
  vs_creator_user_id :: "int option"
  vs_creator_display_name :: "string option"
  vs_comment :: "string option"
  vs_reason :: string
  vs_current :: bool
  vs_created_at :: time

definition from_revision :: "int \<Rightarrow> int option \<Rightarrow> file_revision \<Rightarrow> file_version" where
  "from_revision file_id current r =
     \<lparr>vs_id = fr_id r, vs_file_id = file_id, vs_public_id = fr_public_id r, vs_blob_id = fr_blob_id r,
      vs_version = fr_sequence r, vs_size = fr_logical_size r, vs_mime_type = fr_mime_type r, vs_etag = fr_etag r,
      vs_creator_user_id = fr_creator_user_id r, vs_creator_display_name = fr_creator_display_name r,
      vs_comment = fr_comment r, vs_reason = fr_reason r, vs_current = (current = Some (fr_id r)),
      vs_created_at = fr_created_at r\<rparr>"

definition list_authorized_versions :: "int \<Rightarrow> nat \<Rightarrow> int option \<Rightarrow> drive \<Rightarrow> file_version list aster_result" where
  "list_authorized_versions file_id limit after d =
     bind_result (find_history_by_file_id file_id (dr_ledger d)) (\<lambda>h.
     bind_result (find_page_by_file_id file_id limit after (dr_ledger d)) (\<lambda>rs.
     Inr (map (from_revision file_id (fh_current_revision_id h)) rs)))"

definition list_versions_in_scope ::
  "workspace_storage_scope \<Rightarrow> int \<Rightarrow> nat \<Rightarrow> int option \<Rightarrow> drive \<Rightarrow> file_version list aster_result" where
  "list_versions_in_scope sc file_id limit after d =
     bind_result (verify_file_access sc file_id d) (\<lambda>_. list_authorized_versions file_id limit after d)"

section \<open>Restoring\<close>

definition restored_columns :: "drive_env \<Rightarrow> int \<Rightarrow> int \<Rightarrow> string \<Rightarrow> file_model \<Rightarrow> file_model" where
  "restored_columns env blob sz mime f =
     (let c = de_classify env (fm_name f) mime in
      f\<lparr>fm_blob_id := blob, fm_size := sz, fm_mime_type := mime, fm_extension := cl_extension c,
        fm_compound_extension := cl_compound_extension c, fm_file_category := cl_category c,
        fm_updated_at := de_now env\<rparr>)"

definition restore_input :: "drive_env \<Rightarrow> workspace_storage_scope \<Rightarrow> string \<Rightarrow> int \<Rightarrow> string \<Rightarrow> file_revision \<Rightarrow> new_revision" where
  "restore_input env sc username blob mime target =
     \<lparr>nr_blob_id = blob, nr_logical_size = fr_logical_size target, nr_mime_type = mime,
      nr_content_sha256 = fr_content_sha256 target, nr_creator_user_id = Some (actor_user_id sc),
      nr_creator_display_name = username, nr_comment = Some ''restored historical revision'',
      nr_reason = Restore, nr_created_at = de_now env, nr_etag = None\<rparr>"

definition map_append :: "'a revision_append_result \<Rightarrow> 'a aster_result" where
  "map_append r = (case r of Inl e \<Rightarrow> Inl (map_append_error e) | Inr a \<Rightarrow> Inr a)"

definition restore_transaction ::
  "drive_env \<Rightarrow> workspace_storage_scope \<Rightarrow> file_model \<Rightarrow> int \<Rightarrow> drive \<Rightarrow> (drive \<times> file_model \<times> file_revision) aster_result" where
  "restore_transaction env sc file rev_id d =
     bind_result (load_scope_actor_username sc d) (\<lambda>username.
     bind_result (enforce_file_mutation env file (submitted LC_None) d) (\<lambda>(d1, current).
     if fm_blob_id current \<noteq> fm_blob_id file
     then Inl (precondition_failed_with_code ''FileModifiedDuringWrite''
                 ''file changed while the version restore was being prepared'')
     else
     bind_result (lock_storage_usage sc (dr_accounts d1)) (\<lambda>_.
     bind_result (lock_history_by_file_id (fm_id file) (dr_ledger d1)) (\<lambda>h.
     bind_result (load_revision_for_file (fm_id file) rev_id (dr_ledger d1)) (\<lambda>target.
     bind_result (ok_or (record_not_found ''version content has been purged'') (fr_blob_id target)) (\<lambda>blob.
     let mime = (case fr_mime_type target of Some m \<Rightarrow> m | None \<Rightarrow> fm_mime_type current) in
     bind_result (update_storage_used sc (fr_logical_size target) (dr_accounts d1)) (\<lambda>accounts.
     bind_result (increment_blob_ref_count (de_now env) blob (dr_blobs d1)) (\<lambda>blobs.
     bind_result (restore_user_properties (de_ledger env) (fm_id file) (fr_id target) (dr_ledger d1)) (\<lambda>lg1.
     bind_result (map_append (append_revision (de_ledger env) (fm_id file) (fh_current_revision_id h)
        (restore_input env sc username blob mime target) lg1)) (\<lambda>(lg2, _).
     let d2 = set_file_row (fm_id current) (restored_columns env blob (fr_logical_size target) mime)
                (d1\<lparr>dr_accounts := accounts, dr_blobs := blobs, dr_ledger := lg2\<rparr>);
         updated = restored_columns env blob (fr_logical_size target) mime current in
     bind_result (actor_context env (actor_user_id sc) AS_Rest d2) (\<lambda>ctx.
     bind_result (file_changed env ctx current updated ''file_version_restore'' d2) (\<lambda>(d3, updated').
     Inr (d3, updated', target)))))))))))))"

text \<open>An error leaves the drive as it was, except one after the commit: the old blob's row is gone.\<close>

definition restore_version_inner ::
  "drive_env \<Rightarrow> workspace_storage_scope \<Rightarrow> file_model \<Rightarrow> int \<Rightarrow> drive \<Rightarrow> drive \<times> file_model aster_result" where
  "restore_version_inner env sc file rev_id d =
     (case restore_transaction env sc file rev_id d of
        Inl e \<Rightarrow> (d, Inl e)
      | Inr (d1, updated, target) \<Rightarrow>
          let publish = publish_event (with_storage_delta (fr_logical_size target)
                (event_new (de_now env) FileVersionRestored sc [fm_id updated] [] [fm_folder_id updated])) in
          if fr_blob_id target \<noteq> Some (fm_blob_id file)
          then (case find_blob_by_id (fm_blob_id file) (dr_blobs d1) of
                  Inl e \<Rightarrow> (d1, Inl e)
                | Inr b \<Rightarrow> (publish (delete_thumbnail env 0 b d1), Inr updated))
          else (publish d1, Inr updated))"

section \<open>Deleting\<close>

text \<open>Retiring one revision, as deletion and thinning out do it: the chain, the count, the usage.\<close>

definition retire_revision ::
  "drive_env \<Rightarrow> workspace_resource_scope \<Rightarrow> file_revision \<Rightarrow> int \<Rightarrow> drive \<Rightarrow> drive aster_result" where
  "retire_revision env sc r blob d =
     (let d1 = d\<lparr>dr_ledger := tombstone (de_now env) r (dr_ledger d),
                 dr_blobs := decrement_blob_ref_count (de_now env) blob (dr_blobs d)\<rparr> in
      if fr_logical_size r \<noteq> 0
      then bind_result (update_storage_used_for_resource_scope sc (- fr_logical_size r) (dr_accounts d1)) (\<lambda>a.
           Inr (d1\<lparr>dr_accounts := a\<rparr>))
      else Inr d1)"

definition delete_transaction ::
  "drive_env \<Rightarrow> workspace_storage_scope \<Rightarrow> file_model \<Rightarrow> int \<Rightarrow> drive \<Rightarrow> (drive \<times> int \<times> int) aster_result" where
  "delete_transaction env sc file rev_id d =
     bind_result (lock_storage_usage sc (dr_accounts d)) (\<lambda>_.
     bind_result (lock_history_by_file_id (fm_id file) (dr_ledger d)) (\<lambda>h.
     if fh_current_revision_id h = Some rev_id
     then Inl (validation_error ''the current file revision cannot be deleted'')
     else
     bind_result (load_revision_for_file (fm_id file) rev_id (dr_ledger d)) (\<lambda>r.
     bind_result (ok_or (record_not_found ''version content has been purged'') (fr_blob_id r)) (\<lambda>blob.
     bind_result (retire_revision env (resource_scope sc) r blob d) (\<lambda>d1. Inr (d1, blob, fr_logical_size r))))))"

definition delete_version_inner ::
  "drive_env \<Rightarrow> workspace_storage_scope \<Rightarrow> file_model \<Rightarrow> int \<Rightarrow> drive \<Rightarrow> drive \<times> unit aster_result" where
  "delete_version_inner env sc file rev_id d =
     (case delete_transaction env sc file rev_id d of
        Inl e \<Rightarrow> (d, Inl e)
      | Inr (d1, blob, reclaimed) \<Rightarrow>
          (cleanup_blob_if_unreferenced env 0 blob
             (publish_event (with_storage_delta (- reclaimed)
                (event_new (de_now env) FileVersionDeleted sc [fm_id file] [] [fm_folder_id file])) d1), Inr ()))"

section \<open>Thinning out\<close>

definition get_max_versions :: "nat option \<Rightarrow> nat" where
  "get_max_versions configured = (case configured of Some n \<Rightarrow> n | None \<Rightarrow> 10)"

definition u64_max :: nat where "u64_max = 18446744073709551615"

definition saturating_succ :: "nat \<Rightarrow> nat" where
  "saturating_succ n = min u64_max (n + 1)"

text \<open>One turn of the loop: \<open>None\<close> when enough revisions have been retired.\<close>

definition retire_oldest ::
  "drive_env \<Rightarrow> workspace_resource_scope \<Rightarrow> int \<Rightarrow> nat \<Rightarrow> drive \<Rightarrow> (drive \<times> int \<times> int) option aster_result" where
  "retire_oldest env sc file_id max_total d =
     bind_result (lock_storage_usage_for_resource_scope sc (dr_accounts d)) (\<lambda>_.
     bind_result (lock_history_by_file_id file_id (dr_ledger d)) (\<lambda>_.
     bind_result (count_by_file_id file_id (dr_ledger d)) (\<lambda>n.
     if n \<le> max_total then Inr None
     else
     bind_result (find_oldest_non_current file_id (dr_ledger d)) (\<lambda>oldest.
     case oldest of
       None \<Rightarrow> Inr None
     | Some r \<Rightarrow>
         bind_result (ok_or (internal_error ''active historical revision has no blob'') (fr_blob_id r)) (\<lambda>blob.
         bind_result (retire_revision env sc r blob d) (\<lambda>d1. Inr (Some (d1, blob, fr_logical_size r))))))))"

text \<open>
  The loop. \<open>deleted\<close> and \<open>reclaimed\<close> are its counters; the fuel bounds its turns and \<open>None\<close> means that it ran
  out, which \<open>cleanup_excess\<close> cannot: the fuel is the number of revisions, and every turn retires one.
\<close>

fun cleanup_loop ::
  "drive_env \<Rightarrow> workspace_resource_scope \<Rightarrow> int \<Rightarrow> nat \<Rightarrow> nat \<Rightarrow> nat \<Rightarrow> int \<Rightarrow> drive
   \<Rightarrow> (drive \<times> (nat \<times> int) aster_result) option" where
  "cleanup_loop env sc file_id max_total 0 deleted reclaimed d = None"
| "cleanup_loop env sc file_id max_total (Suc fuel) deleted reclaimed d =
     (case retire_oldest env sc file_id max_total d of
        Inl e \<Rightarrow> Some (d, Inl e)
      | Inr None \<Rightarrow> Some (d, Inr (deleted, reclaimed))
      | Inr (Some (d1, blob, sz)) \<Rightarrow>
          let d2 = cleanup_blob_if_unreferenced env deleted blob d1 in
          (case checked_add_i64 reclaimed sz of
             None \<Rightarrow> Some (d2, Inl (internal_error ''revision cleanup byte count overflow''))
           | Some bytes \<Rightarrow> cleanup_loop env sc file_id max_total fuel (deleted + 1) bytes d2))"

definition cleanup_excess :: "drive_env \<Rightarrow> nat option \<Rightarrow> int \<Rightarrow> drive \<Rightarrow> (drive \<times> unit aster_result) option" where
  "cleanup_excess env configured file_id d =
     (case file_by_id file_id (dr_ledger d) of
        Inl e \<Rightarrow> Some (d, Inl e)
      | Inr file \<Rightarrow>
          (case resource_scope_from_file file of
             Inl e \<Rightarrow> Some (d, Inl e)
           | Inr sc \<Rightarrow>
               map_option (\<lambda>(d1, res).
                 case res of
                   Inl e \<Rightarrow> (d1, Inl e)
                 | Inr (deleted, reclaimed) \<Rightarrow>
                     (if deleted > 0
                      then publish_event (with_storage_delta (- reclaimed)
                             (event_for_resource_scope (de_now env) FileVersionDeleted sc [file_id] [] [fm_folder_id file])) d1
                      else d1, Inr ()))
                 (cleanup_loop env sc file_id (saturating_succ (get_max_versions configured))
                    (Suc (length (lg_revisions (dr_ledger d)))) 0 0 d)))"

section \<open>Entry points\<close>

definition require_scope_management :: "workspace_storage_scope \<Rightarrow> drive \<Rightarrow> unit aster_result" where
  "require_scope_management sc d =
     (case sc of WS_Personal _ \<Rightarrow> Inr () | WS_Team team actor \<Rightarrow> require_team_management_access team actor d)"

definition restore_version_in_scope ::
  "drive_env \<Rightarrow> nat option \<Rightarrow> workspace_storage_scope \<Rightarrow> int \<Rightarrow> int \<Rightarrow> drive \<Rightarrow> (drive \<times> file_model aster_result) option" where
  "restore_version_in_scope env configured sc file_id version_id d =
     (case bind_result (verify_file_access sc file_id d) (\<lambda>file.
             bind_result (require_scope_management sc d) (\<lambda>_. Inr file)) of
        Inl e \<Rightarrow> Some (d, Inl e)
      | Inr file \<Rightarrow>
          (case restore_version_inner env sc file version_id d of
             (d1, Inl e) \<Rightarrow> Some (d1, Inl e)
           | (d1, Inr restored) \<Rightarrow>
               map_option (\<lambda>(d2, res). (d2, bind_result res (\<lambda>_. Inr restored))) (cleanup_excess env configured file_id d1)))"

definition delete_version_in_scope ::
  "drive_env \<Rightarrow> workspace_storage_scope \<Rightarrow> int \<Rightarrow> int \<Rightarrow> drive \<Rightarrow> drive \<times> unit aster_result" where
  "delete_version_in_scope env sc file_id version_id d =
     (case bind_result (verify_file_access sc file_id d) (\<lambda>file.
             bind_result (require_scope_management sc d) (\<lambda>_. Inr file)) of
        Inl e \<Rightarrow> (d, Inl e)
      | Inr file \<Rightarrow> delete_version_inner env sc file version_id d)"

end
