(* ===== verification/Drive_Accounting.thy ===== *)
theory Drive_Accounting
  imports File_Versions
begin

text \<open>
  What the tables of a drive owe each other. Every revision that is not retired is a charge: it uses bytes
  of the workspace its file belongs to and holds one reference to its blob. The accounts and the reference
  counts are caches of these charges, kept by the services; the invariant \<open>drive_ok\<close> says that they are
  exact, and the lemmas of this theory say how each statement of the services moves the charges.
\<close>

section \<open>Charges\<close>

definition file_scope :: "file_model \<Rightarrow> workspace_resource_scope option" where
  "file_scope f = (case fm_team_id f of Some t \<Rightarrow> Some (RS_Team t) | None \<Rightarrow> map_option RS_Personal (fm_owner_user_id f))"

definition history_scope :: "ledger \<Rightarrow> int \<Rightarrow> workspace_resource_scope option" where
  "history_scope lg hid =
     Option.bind (find_key fh_id hid (lg_histories lg)) (\<lambda>h.
     Option.bind (fh_file_id h) (\<lambda>i.
     Option.bind (find_key fm_id i (lg_files lg)) file_scope))"

type_synonym charge = "workspace_resource_scope option \<times> int option \<times> int"

definition charge_of :: "ledger \<Rightarrow> file_revision \<Rightarrow> charge" where
  "charge_of lg r = (history_scope lg (fr_history_id r), fr_blob_id r, fr_logical_size r)"

definition live_rows :: "ledger \<Rightarrow> file_revision list" where
  "live_rows lg = filter (\<lambda>r. fr_retired_at r = None) (lg_revisions lg)"

definition charges :: "ledger \<Rightarrow> charge multiset" where
  "charges lg = mset (map (charge_of lg) (live_rows lg))"

definition blob_charges :: "charge multiset \<Rightarrow> int multiset" where
  "blob_charges C = image_mset the (filter_mset (\<lambda>b. b \<noteq> None) (image_mset (\<lambda>(s, b, n). b) C))"

definition scope_usage :: "charge multiset \<Rightarrow> workspace_resource_scope \<Rightarrow> int" where
  "scope_usage C sc = sum_mset (image_mset (\<lambda>(s, b, n). n) (filter_mset (\<lambda>(s, b, n). s = Some sc) C))"

lemma blob_charges_simps [simp]:
  "blob_charges {#} = {#}"
  "blob_charges (add_mset (s, Some b, n) C) = add_mset b (blob_charges C)"
  "blob_charges (C + D) = blob_charges C + blob_charges D"
  by (simp_all add: blob_charges_def)

lemma scope_usage_simps [simp]:
  "scope_usage {#} sc = 0"
  "scope_usage (add_mset (s, b, n) C) sc = (if s = Some sc then n else 0) + scope_usage C sc"
  "scope_usage (C + D) sc = scope_usage C sc + scope_usage D sc"
  by (simp_all add: scope_usage_def)

lemma scope_usage_nonneg: "\<forall>c \<in># C. 0 \<le> snd (snd c) \<Longrightarrow> 0 \<le> scope_usage C sc"
  by (induction C) auto

section \<open>Reference counts\<close>

text \<open>
  \<open>blobs_ok M\<close>: the blob table is in the state that \<open>Blob_Cleanup\<close> shows every interleaving of uploads and
  handlers to keep, for the references \<open>M\<close>: counts are exact and referenced objects are stored.
\<close>

definition blobs_ok :: "int multiset \<Rightarrow> blob_table \<Rightarrow> (int \<times> string) set \<Rightarrow> bool" where
  "blobs_ok M tbl objs = (\<exists>w n. bw_blobs w = tbl \<and> bw_objects w = objs \<and> (\<forall>i. actual_refs w i = count M i)
     \<and> blob_system_ok \<lparr>bz_world = w, bz_next_id = n, bz_handlers = []\<rparr>)"

lemma blobs_okD:
  assumes "blobs_ok M tbl objs" "bw_blobs w = tbl" "bw_objects w = objs" "\<And>i. actual_refs w i = count M i"
  shows "\<exists>n. blob_system_ok \<lparr>bz_world = w, bz_next_id = n, bz_handlers = []\<rparr>"
proof -
  obtain w0 n where w: "bw_blobs w0 = tbl" "bw_objects w0 = objs" "\<forall>i. actual_refs w0 i = count M i"
    "blob_system_ok \<lparr>bz_world = w0, bz_next_id = n, bz_handlers = []\<rparr>"
    using assms(1) unfolding blobs_ok_def by blast
  then show ?thesis using system_ok_same_refs [OF w(4), of w] assms(2-4) by auto
qed

lemma blobs_okI:
  "blob_system_ok \<lparr>bz_world = w, bz_next_id = n, bz_handlers = []\<rparr> \<Longrightarrow> (\<And>i. actual_refs w i = count M i)
   \<Longrightarrow> blobs_ok M (bw_blobs w) (bw_objects w)"
  unfolding blobs_ok_def by blast

definition refs_world :: "int list \<Rightarrow> blob_table \<Rightarrow> (int \<times> string) set \<Rightarrow> blob_world" where
  "refs_world refs tbl objs = \<lparr>bw_blobs = tbl, bw_objects = objs, bw_file_refs = refs, bw_revision_refs = []\<rparr>"

lemma refs_world_simps [simp]:
  "bw_blobs (refs_world refs tbl objs) = tbl" "bw_objects (refs_world refs tbl objs) = objs"
  "bw_file_refs (refs_world refs tbl objs) = refs" "bw_revision_refs (refs_world refs tbl objs) = []"
  "actual_refs (refs_world refs tbl objs) i = count (mset refs) i"
  "(refs_world refs tbl objs)\<lparr>bw_blobs := t\<rparr> = refs_world refs t objs"
  "(refs_world refs tbl objs)\<lparr>bw_objects := x\<rparr> = refs_world refs tbl x"
  by (simp_all add: refs_world_def actual_refs_def count_mset)

lemma blobs_ok_world:
  assumes "blobs_ok M tbl objs"
  obtains refs n where "mset refs = M" "blob_system_ok \<lparr>bz_world = refs_world refs tbl objs, bz_next_id = n, bz_handlers = []\<rparr>"
proof -
  obtain refs where r: "mset refs = M" using ex_mset by blast
  then show ?thesis using that blobs_okD [OF assms, of "refs_world refs tbl objs"] by auto
qed

lemma blobs_ok_table:
  assumes "blobs_ok M tbl objs"
  shows "blob_table_ok tbl" and "i \<in># M \<Longrightarrow> \<exists>b. find_key fb_id i tbl = Some b \<and> fb_ref_count b = int (count M i)
      \<and> object_present b objs"
    and "b \<in> set tbl \<Longrightarrow> fb_ref_count b = int (count M (fb_id b))
      \<or> fb_ref_count b = BLOB_CLEANUP_CLAIMED_REF_COUNT \<and> count M (fb_id b) = 0"
proof -
  obtain w n where w: "bw_blobs w = tbl" "bw_objects w = objs" "\<forall>i. actual_refs w i = count M i"
    "blob_system_ok \<lparr>bz_world = w, bz_next_id = n, bz_handlers = []\<rparr>"
    using assms unfolding blobs_ok_def by blast
  note D = system_okD [OF w(4), simplified, unfolded w]
  show "blob_table_ok tbl" by (rule D(3))
  show c: "fb_ref_count b = int (count M (fb_id b)) \<or> fb_ref_count b = BLOB_CLEANUP_CLAIMED_REF_COUNT \<and> count M (fb_id b) = 0"
    if "b \<in> set tbl" for b
    using D(8) [OF that] w(3) by (simp add: count_exact_def)
  assume i: "i \<in># M"
  then have "0 < actual_refs w i" using w(3) by simp
  then obtain b where b: "b \<in> set tbl" "fb_id b = i" using D(10) by blast
  then have "find_key fb_id i tbl = Some b" using find_key_Some_iff [OF D(4)] by simp
  then show "\<exists>b. find_key fb_id i tbl = Some b \<and> fb_ref_count b = int (count M i) \<and> object_present b objs"
    using c [OF b(1)] b i D(9) [OF b(1)] w(3) by (auto simp: not_in_iff [symmetric])
qed

lemma blobs_ok_increment:
  assumes "blobs_ok M tbl objs" "i \<in># M" "increment_blob_ref_count now i tbl = Inr tbl'"
  shows "blobs_ok (add_mset i M) tbl' objs"
proof -
  obtain refs n where r: "mset refs = M" "blob_system_ok \<lparr>bz_world = refs_world refs tbl objs, bz_next_id = n, bz_handlers = []\<rparr>"
    by (rule blobs_ok_world [OF assms(1)])
  note D = system_okD [OF r(2), simplified]
  have "object_present b objs" if "b \<in> set tbl" "fb_id b = i" for b
    using D(9) [OF that(1)] that(2) assms(2) r(1) by auto
  then have "blob_system_ok \<lparr>bz_world = refs_world (i # refs) tbl' objs, bz_next_id = n, bz_handlers = []\<rparr>"
    by (intro system_ok_increment [OF r(2)]) (use assms(3) in \<open>auto simp: refs_world_def\<close>)
  then show ?thesis using blobs_okI [of "refs_world (i # refs) tbl' objs" n] r(1) by auto
qed

lemma blobs_ok_decrement:
  assumes "blobs_ok (add_mset i M) tbl objs"
  shows "blobs_ok M (decrement_blob_ref_count now i tbl) objs"
proof -
  obtain refs n where r: "mset refs = add_mset i M" "blob_system_ok \<lparr>bz_world = refs_world refs tbl objs, bz_next_id = n, bz_handlers = []\<rparr>"
    by (rule blobs_ok_world [OF assms])
  let ?w = "refs_world (remove1 i refs) (decrement_blob_ref_count now i tbl) objs"
  have m: "mset (remove1 i refs) = M" using r(1) by simp
  have "blob_system_ok \<lparr>bz_world = ?w, bz_next_id = n, bz_handlers = []\<rparr>"
    by (rule system_ok_decrement [OF r(2), of i _ ?w]) (use r(1) m in auto)
  then show ?thesis using blobs_okI [of ?w n M] by (simp add: m del: mset_remove1)
qed

lemma blobs_ok_drain:
  assumes "blobs_ok (M + D) tbl objs"
  shows "blobs_ok M (map (\<lambda>b. drain now (int (count D (fb_id b))) b) tbl) objs"
proof -
  obtain refs n where r: "mset refs = M + D" "blob_system_ok \<lparr>bz_world = refs_world refs tbl objs, bz_next_id = n, bz_handlers = []\<rparr>"
    by (rule blobs_ok_world [OF assms])
  obtain ms where ms: "mset ms = M" using ex_mset by blast
  let ?g = "\<lambda>b. drain now (int (count D (fb_id b))) b"
  let ?w = "refs_world ms (map ?g tbl) objs"
  note S = system_okD [OF r(2), simplified]
  have sub: "set ms \<subseteq> set refs" using r(1) ms by (metis mset_subset_eq_add_left set_mset_mono set_mset_mset)
  have g: "same_place (?g b) b" "fb_id (?g b) = fb_id b" for b by (simp_all add: same_place_def drain_def set_count_row_def)
  have c: "count_exact ?w (?g b)" if "b \<in> set tbl" for b
    using S(8) [OF that] r(1) ms
    by (cases "count D (fb_id b) = 0")
       (auto simp: count_exact_def drain_def set_count_row_def floor_sub_def BLOB_CLEANUP_CLAIMED_REF_COUNT_def)
  have "blob_system_ok \<lparr>bz_world = ?w, bz_next_id = n, bz_handlers = []\<rparr>"
  proof (rule system_ok_map [OF r(2), where g = ?g])
    show "blob_table_ok (bw_blobs ?w)"
    proof -
      have "fb_hash (?g b) = fb_hash b \<and> fb_policy_id (?g b) = fb_policy_id b \<and> fb_backing (?g b) = fb_backing b" for b
        by (simp add: drain_def set_count_row_def)
      then have "blob_table_ok (fst (update_where (\<lambda>_. True) ?g tbl))"
        by (intro table_ok_update [OF S(3)]) (auto intro: drain_row_ok)
      then show ?thesis by (simp add: update_where_def)
    qed
    show "j \<in> fb_id ` set (bz_blobs \<lparr>bz_world = refs_world refs tbl objs, bz_next_id = n, bz_handlers = []\<rparr>)"
      if "0 < actual_refs ?w j" for j using that S(10) [of j] sub by auto
    show "object_present b (bw_objects ?w)"
      if "b \<in> set (bz_blobs \<lparr>bz_world = refs_world refs tbl objs, bz_next_id = n, bz_handlers = []\<rparr>)"
        "0 < actual_refs ?w (fb_id b)" for b using that S(9) [of b] sub by auto
  qed (use g c in auto)
  then show ?thesis using blobs_okI [of ?w n M] ms by simp
qed

text \<open>The cleanup handler works on the table and the objects, whatever the references are.\<close>

definition with_refs :: "int list \<Rightarrow> int list \<Rightarrow> blob_world \<Rightarrow> blob_world" where
  "with_refs a b w = w\<lparr>bw_file_refs := a, bw_revision_refs := b\<rparr>"

lemma with_refs_simps [simp]:
  "bw_blobs (with_refs a b w) = bw_blobs w" "bw_objects (with_refs a b w) = bw_objects w"
  "(with_refs a b w)\<lparr>bw_blobs := t\<rparr> = with_refs a b (w\<lparr>bw_blobs := t\<rparr>)"
  "(with_refs a b w)\<lparr>bw_objects := x\<rparr> = with_refs a b (w\<lparr>bw_objects := x\<rparr>)"
  by (simp_all add: with_refs_def)

lemma cleanup_step_refs:
  "cleanup_step r now st (with_refs a b w) = (fst (cleanup_step r now st w), with_refs a b (snd (cleanup_step r now st w)))"
  by (cases st)
     (auto simp: delete_thumbnail_with_driver_def Let_def case_prod_beta split: sum.splits option.splits)

lemma cleanup_run_refs:
  "cleanup_run replies clock n st (with_refs a b w)
     = (fst (cleanup_run replies clock n st w), with_refs a b (snd (cleanup_run replies clock n st w)))"
  by (induction n arbitrary: replies clock st w) (simp_all add: cleanup_step_refs case_prod_beta Let_def)

text \<open>
  Derived objects (thumbnails, previews) are kept apart from the content: none of their paths is the path of
  a stored blob.
\<close>

definition derived_apart :: "blob_table \<Rightarrow> (nat \<Rightarrow> cleanup_replies) \<Rightarrow> bool" where
  "derived_apart tbl replies = (\<forall>k. \<forall>b \<in> set tbl. \<forall>p. fb_storage_path b = Some p \<longrightarrow> p \<notin> set (cr_derived (replies k)))"

definition paths_within :: "blob_table \<Rightarrow> blob_table \<Rightarrow> bool" where
  "paths_within tbl' tbl = (fb_storage_path ` set tbl' \<subseteq> fb_storage_path ` set tbl)"

lemma derived_apart_mono: "derived_apart tbl replies \<Longrightarrow> paths_within tbl' tbl \<Longrightarrow> derived_apart tbl' replies"
  unfolding derived_apart_def paths_within_def by (metis (no_types, lifting) imageE imageI subsetD)

lemma paths_within_refl [simp]: "paths_within tbl tbl"
  by (simp add: paths_within_def)

lemma paths_within_trans: "paths_within a b \<Longrightarrow> paths_within b c \<Longrightarrow> paths_within a c"
  by (auto simp: paths_within_def)

lemma paths_within_map: "(\<And>b. fb_storage_path (g b) = fb_storage_path b) \<Longrightarrow> paths_within (map g tbl) tbl"
  by (auto simp: paths_within_def)

lemma claim_statements_paths:
  "paths_within (fst (claim_blob_cleanup now i tbl)) tbl" "paths_within (fst (restore_blob_cleanup_claim now i tbl)) tbl"
  "paths_within (fst (delete_blob_if_cleanup_claimed i tbl)) tbl" "paths_within (fst (clear_thumbnail_metadata now i tbl)) tbl"
  by (auto simp: paths_within_def claim_blob_cleanup_def restore_blob_cleanup_claim_def delete_blob_if_cleanup_claimed_def
      clear_thumbnail_metadata_def exec_one_def update_where_def delete_where_def claim_blob_row_def restore_blob_row_def
      clear_thumbnail_row_def Let_def case_prod_beta)

lemma cleanup_step_paths: "paths_within (bw_blobs (snd (cleanup_step r now st w))) (bw_blobs w)"
  using claim_statements_paths
  by (cases st)
     (auto simp: delete_thumbnail_with_driver_def Let_def case_prod_beta split: sum.splits option.splits)

lemma cleanup_run_ok:
  assumes "blob_system_ok \<lparr>bz_world = w, bz_next_id = n, bz_handlers = [st]\<rparr>" "derived_apart (bw_blobs w) replies"
  shows "blob_system_ok \<lparr>bz_world = snd (cleanup_run replies clock k st w), bz_next_id = n,
      bz_handlers = [fst (cleanup_run replies clock k st w)]\<rparr>
    \<and> paths_within (bw_blobs (snd (cleanup_run replies clock k st w))) (bw_blobs w)"
  using assms
proof (induction k arbitrary: replies clock st w)
  case (Suc k)
  obtain st' w' where s: "cleanup_step (replies 0) (clock 0) st w = (st', w')" by fastforce
  have "\<forall>b \<in> set (bw_blobs w). \<forall>p. fb_storage_path b = Some p \<longrightarrow> p \<notin> set (cr_derived (replies 0))"
    using Suc.prems(2) by (simp add: derived_apart_def)
  then have "blob_system_ok \<lparr>bz_world = w', bz_next_id = n, bz_handlers = [st']\<rparr>"
    using handle_ok [OF Suc.prems(1), of 0 "replies 0" "clock 0" st' w'] s by simp
  moreover have p: "paths_within (bw_blobs w') (bw_blobs w)" using cleanup_step_paths [of "replies 0" "clock 0" st w] s by simp
  moreover have "derived_apart (bw_blobs w') (\<lambda>k. replies (Suc k))"
    using derived_apart_mono [OF Suc.prems(2) p] by (simp add: derived_apart_def)
  ultimately show ?case using Suc.IH [of w' st' "\<lambda>k. replies (Suc k)" "\<lambda>k. clock (Suc k)"] s
    by (auto simp: Let_def intro: paths_within_trans)
qed simp

lemma blobs_ok_cleanup:
  assumes "blobs_ok M tbl objs" "derived_apart tbl replies" "bw_blobs w = tbl" "bw_objects w = objs"
  shows "blobs_ok M (bw_blobs (snd (ensure_blob_cleanup_if_unreferenced replies clock i w)))
      (bw_objects (snd (ensure_blob_cleanup_if_unreferenced replies clock i w)))
    \<and> paths_within (bw_blobs (snd (ensure_blob_cleanup_if_unreferenced replies clock i w))) tbl"
proof -
  obtain refs n where r: "mset refs = M" "blob_system_ok \<lparr>bz_world = refs_world refs tbl objs, bz_next_id = n, bz_handlers = []\<rparr>"
    by (rule blobs_ok_world [OF assms(1)])
  let ?run = "\<lambda>w. cleanup_run replies clock CLEANUP_CALLS (C_Reload True i) w"
  have "refs_world refs tbl objs = with_refs refs [] w" using assms(3,4) by (simp add: refs_world_def with_refs_def)
  then have run: "snd (?run (refs_world refs tbl objs)) = with_refs refs [] (snd (?run w))" by (simp add: cleanup_run_refs)
  have "blob_system_ok \<lparr>bz_world = refs_world refs tbl objs, bz_next_id = n, bz_handlers = [C_Reload True i]\<rparr>"
    using r(2) by (simp add: blob_system_ok_def claims_exclusive_def)
  then have ok: "blob_system_ok \<lparr>bz_world = with_refs refs [] (snd (?run w)), bz_next_id = n,
        bz_handlers = [fst (?run (refs_world refs tbl objs))]\<rparr>"
      and p: "paths_within (bw_blobs (snd (?run w))) tbl"
    using cleanup_run_ok [of "refs_world refs tbl objs" n "C_Reload True i" replies clock CLEANUP_CALLS] assms(2) run by auto
  from ok have "blob_system_ok \<lparr>bz_world = with_refs refs [] (snd (?run w)), bz_next_id = n, bz_handlers = []\<rparr>"
    by (simp add: blob_system_ok_def claims_exclusive_def)
  then have "blobs_ok M (bw_blobs (with_refs refs [] (snd (?run w)))) (bw_objects (with_refs refs [] (snd (?run w))))"
    by (rule blobs_okI) (simp add: r(1) [symmetric] actual_refs_def with_refs_def count_mset)
  then show ?thesis using p by (simp add: ensure_blob_cleanup_if_unreferenced_def)
qed

lemma blobs_ok_thumbnail:
  assumes "blobs_ok M tbl objs" "\<forall>b \<in> set tbl. \<forall>p. fb_storage_path b = Some p \<longrightarrow> p \<notin> set (cr_derived r)"
    "bw_blobs w = tbl" "bw_objects w = objs"
  shows "blobs_ok M (bw_blobs (fst (delete_thumbnail_with_driver r now b w)))
      (bw_objects (fst (delete_thumbnail_with_driver r now b w)))
    \<and> paths_within (bw_blobs (fst (delete_thumbnail_with_driver r now b w))) tbl"
proof -
  obtain refs n where rf: "mset refs = M" "blob_system_ok \<lparr>bz_world = refs_world refs tbl objs, bz_next_id = n, bz_handlers = []\<rparr>"
    by (rule blobs_ok_world [OF assms(1)])
  note D = system_okD [OF rf(2), simplified]
  let ?w' = "fst (delete_thumbnail_with_driver r now b w)"
  let ?objs = "fst (delete_derived r (fb_policy_id b) (cr_derived r) objs)"
  let ?clear = "\<lambda>x. if fb_id x = fb_id b then clear_thumbnail_row now x else x"
  have o': "bw_objects ?w' = ?objs" using assms(3,4) by (simp add: delete_thumbnail_with_driver_def case_prod_beta Let_def)
  have "bw_blobs ?w' = map id tbl \<or> bw_blobs ?w' = map ?clear tbl" using assms(3)
    by (simp add: delete_thumbnail_with_driver_def clear_thumbnail_metadata_def exec_one_def case_prod_beta Let_def)
  then obtain g where g: "bw_blobs ?w' = map g tbl" "g = id \<or> g = ?clear" "bw_objects ?w' = ?objs" using o' by blast
  have gk: "fb_id (g x) = fb_id x" "same_place (g x) x" "fb_ref_count (g x) = fb_ref_count x" "fb_storage_path (g x) = fb_storage_path x" for x
    using g(2) by (auto simp: same_place_def clear_thumbnail_row_def)
  have t: "blob_table_ok (map g tbl)"
    using g(2) thumbnail_writes_ok D(3)
    by (auto simp: clear_thumbnail_metadata_def exec_one_def case_prod_beta Let_def)
  have "object_present x ?objs" if "x \<in> set tbl" "0 < count M (fb_id x)" for x
  proof -
    have "object_present x objs" using D(9) [OF that(1)] that(2) rf(1) by auto
    then show ?thesis using assms(2) that(1) delete_derived_keeps
      by (auto simp: object_present_def storage_path_for_connector_def split: if_splits)
  qed
  then have "blob_system_ok \<lparr>bz_world = (refs_world refs tbl objs)\<lparr>bw_blobs := map g tbl, bw_objects := ?objs\<rparr>, bz_next_id = n, bz_handlers = []\<rparr>"
    using system_ok_inplace [OF rf(2) refl, where g = g and objs = ?objs] t gk rf(1) by simp
  then have "blobs_ok M (map g tbl) ?objs"
    using blobs_okI [of "refs_world refs (map g tbl) ?objs" n M] rf(1) by simp
  then show ?thesis using g gk paths_within_map [of g tbl] by simp
qed

section \<open>Usage\<close>

definition accounts_exact :: "charge multiset \<Rightarrow> account_db \<Rightarrow> bool" where
  "accounts_exact C db = (accounts_ok db \<and> (\<forall>sc a. account_of sc db = Some a \<longrightarrow> fst a = scope_usage C sc))"

lemma accounts_exact_update:
  assumes "accounts_exact C db" "update_storage_used_for_resource_scope sc delta db = Inr db'"
    "\<And>s. scope_usage C' s = scope_usage C s + (if s = sc then delta else 0)" "0 \<le> scope_usage C' sc"
  shows "accounts_exact C' db'"
proof -
  have ok: "accounts_ok db" using assms(1) by (simp add: accounts_exact_def)
  note s = scope_update_refines [OF ok, where sc = sc and d = delta, unfolded assms(2), simplified]
  have "fst a = scope_usage C' s" if "account_of s db' = Some a" for s a
  proof (cases "s = sc")
    case True
    obtain u q u' q' where a: "account_of sc db = Some (u, q)" "account_add delta (u, q) = Some (u', q')" "account_of sc db' = Some (u', q')"
      using s by fastforce
    then have "u = scope_usage C sc" using assms(1) by (auto simp: accounts_exact_def)
    then show ?thesis using a that True assms(3) [of sc] assms(4) by (auto split: if_splits)
  next
    case False
    then have "account_of s db = Some a" using s that by simp
    then show ?thesis using assms(1,3) False unfolding accounts_exact_def by (cases a) auto
  qed
  then show ?thesis using s by (auto simp: accounts_exact_def)
qed

section \<open>How the ledger's statements move the charges\<close>

lemma history_scope_cong:
  assumes "\<And>h. h \<in> set (lg_histories lg) \<Longrightarrow> fh_id (f h) = fh_id h \<and> fh_file_id (f h) = fh_file_id h"
    "lg_histories lg' = map f (lg_histories lg)" "\<And>i. Option.bind (find_key fm_id i (lg_files lg')) file_scope = Option.bind (find_key fm_id i (lg_files lg)) file_scope"
  shows "history_scope lg' hid = history_scope lg hid"
proof -
  have "find_key fh_id hid (map f hs) = map_option f (find_key fh_id hid hs)" if "set hs \<subseteq> set (lg_histories lg)" for hs
    using that assms(1) by (induction hs) (auto simp: find_key_def)
  then have k: "find_key fh_id hid (lg_histories lg') = map_option f (find_key fh_id hid (lg_histories lg))"
    by (simp add: assms(2))
  show ?thesis
  proof (cases "find_key fh_id hid (lg_histories lg)")
    case (Some h)
    then have "fh_file_id (f h) = fh_file_id h" using assms(1) find_key_SomeD [OF Some] by simp
    then show ?thesis using Some k by (simp add: history_scope_def assms(3))
  qed (simp add: history_scope_def k)
qed

lemma charge_of_cong: "(\<And>hid. history_scope lg' hid = history_scope lg hid) \<Longrightarrow> charge_of lg' = charge_of lg"
  by (simp add: charge_of_def fun_eq_iff)

lemma charges_cong:
  assumes "\<And>hid. history_scope lg' hid = history_scope lg hid" "lg_revisions lg' = lg_revisions lg"
  shows "charges lg' = charges lg"
  using charge_of_cong [OF assms(1)] assms(2) by (simp add: charges_def live_rows_def)

lemma append_locked_charges:
  assumes "append_locked env i h input lg = Inr (lg', r)"
  shows "charges lg' = add_mset (history_scope lg (fh_id h), Some (nr_blob_id input), nr_logical_size input) (charges lg)"
    and "history_scope lg' hid = history_scope lg hid"
proof -
  let ?f = "\<lambda>x. if fh_id x = fh_id h then x\<lparr>fh_current_revision_id := Some (fr_id r), fh_next_sequence := fh_next_sequence h + 1\<rparr> else x"
  have e: "lg_histories lg' = map ?f (lg_histories lg)" "lg_revisions lg' = lg_revisions lg @ [r]" "lg_files lg' = lg_files lg"
      "fr_history_id r = fh_id h" "fr_blob_id r = Some (nr_blob_id input)" "fr_logical_size r = nr_logical_size input" "fr_retired_at r = None"
    using append_locked_Inr [OF assms] by auto
  have s: "history_scope lg' hid = history_scope lg hid" for hid
    by (rule history_scope_cong [OF _ e(1)]) (auto simp: e(3))
  then show "history_scope lg' hid = history_scope lg hid" .
  show "charges lg' = add_mset (history_scope lg (fh_id h), Some (nr_blob_id input), nr_logical_size input) (charges lg)"
    using e charge_of_cong [of lg' lg, OF s] by (simp add: charges_def live_rows_def) (simp add: charge_of_def)
qed

lemma tombstone_charges:
  assumes "ledger_ok lg" "h \<in> set (lg_histories lg)" "live_of (fh_id h) (lg_revisions lg) = xs @ r # y # zs"
  shows "charges lg = add_mset (charge_of lg r) (charges (tombstone now r lg))"
    and "history_scope (tombstone now r lg) hid = history_scope lg hid"
proof -
  let ?rs = "lg_revisions lg"
  have t: "tombstone now r lg = lg\<lparr>lg_revisions := map (cut_row now r y) ?rs\<rparr>" by (rule tombstone_rows [OF assms])
  then show s: "history_scope (tombstone now r lg) hid = history_scope lg hid" for hid by (simp add: history_scope_def)
  have r: "r \<in> set ?rs" "fr_retired_at r = None"
    using live_of_sub [of r "fh_id h" ?rs] assms(3) by auto
  have d: "distinct (map fr_id ?rs)" using ledger_okD(5) [OF assms(1)] by (simp add: unique_key_def)
  have "fr_retired_at (cut_row now r y x) = None \<longleftrightarrow> fr_retired_at x = None \<and> fr_id x \<noteq> fr_id r" for x
    by (auto simp: cut_row_def retired_row_def)
  moreover have "charge_of lg (cut_row now r y x) = charge_of lg x" if "fr_id x \<noteq> fr_id r" for x
    using that by (simp add: cut_row_def charge_of_def)
  ultimately have "map (charge_of lg) (filter (\<lambda>x. fr_retired_at x = None) (map (cut_row now r y) xs))
      = map (charge_of lg) (filter (\<lambda>x. fr_retired_at x = None \<and> fr_id x \<noteq> fr_id r) xs)" for xs
    by (induction xs) auto
  then have c: "charges (tombstone now r lg) = mset (map (charge_of lg) (filter (\<lambda>x. fr_retired_at x = None \<and> fr_id x \<noteq> fr_id r) ?rs))"
    using charge_of_cong [of "tombstone now r lg" lg, OF s] by (simp add: charges_def live_rows_def t flip: mset_map mset_filter)
  obtain as bs where sp: "?rs = as @ r # bs" using split_list [OF r(1)] by blast
  have "fr_id r \<notin> fr_id ` set as" "fr_id r \<notin> fr_id ` set bs" using d by (auto simp: sp)
  then have "filter (\<lambda>x. fr_retired_at x = None \<and> fr_id x \<noteq> fr_id r) as = filter (\<lambda>x. fr_retired_at x = None) as"
    "filter (\<lambda>x. fr_retired_at x = None \<and> fr_id x \<noteq> fr_id r) bs = filter (\<lambda>x. fr_retired_at x = None) bs"
    by (metis (mono_tags, lifting) filter_cong imageI)+
  then show "charges lg = add_mset (charge_of lg r) (charges (tombstone now r lg))"
    using r(2) unfolding c by (simp add: charges_def live_rows_def sp del: mset_filter)
qed

section \<open>The invariant\<close>

text \<open>
  Files and histories belong together, and the columns of a file that describe its content are those of its
  current revision.
\<close>

definition shows_current :: "ledger \<Rightarrow> file_model \<Rightarrow> bool" where
  "shows_current lg f = (case find_current_by_file_id (fm_id f) lg of
     Inr r \<Rightarrow> fr_blob_id r = Some (fm_blob_id f) \<and> fr_logical_size r = fm_size f | Inl _ \<Rightarrow> False)"

definition files_ok :: "ledger \<Rightarrow> bool" where
  "files_ok lg =
     (unique_key fm_id (lg_files lg) \<and> (\<forall>f \<in> set (lg_files lg). file_scope f \<noteq> None \<and> shows_current lg f)
      \<and> (\<forall>h \<in> set (lg_histories lg). set_option (fh_file_id h) \<subseteq> fm_id ` set (lg_files lg)))"

text \<open>\<open>pend\<close> are references that a transaction has taken and not yet turned into a revision.\<close>

definition drive_pending :: "int multiset \<Rightarrow> drive \<Rightarrow> bool" where
  "drive_pending pend d =
     (let lg = dr_ledger d; C = charges lg in
      ledger_ok lg \<and> files_ok lg \<and> (\<forall>c \<in># C. 0 \<le> snd (snd c))
      \<and> blobs_ok (blob_charges C + pend) (dr_blobs d) (dr_objects d) \<and> accounts_exact C (dr_accounts d))"

definition drive_ok :: "drive \<Rightarrow> bool" where
  "drive_ok d = drive_pending {#} d"

lemma drive_pendingI:
  "ledger_ok (dr_ledger d) \<Longrightarrow> files_ok (dr_ledger d) \<Longrightarrow> (\<And>c. c \<in># charges (dr_ledger d) \<Longrightarrow> 0 \<le> snd (snd c))
   \<Longrightarrow> blobs_ok (blob_charges (charges (dr_ledger d)) + pend) (dr_blobs d) (dr_objects d)
   \<Longrightarrow> accounts_exact (charges (dr_ledger d)) (dr_accounts d) \<Longrightarrow> drive_pending pend d"
  by (simp add: drive_pending_def Let_def)

lemma drive_pendingD:
  assumes "drive_pending pend d"
  shows "ledger_ok (dr_ledger d)" "files_ok (dr_ledger d)" "c \<in># charges (dr_ledger d) \<Longrightarrow> 0 \<le> snd (snd c)"
    "blobs_ok (blob_charges (charges (dr_ledger d)) + pend) (dr_blobs d) (dr_objects d)"
    "accounts_exact (charges (dr_ledger d)) (dr_accounts d)"
  using assms by (auto simp: drive_pending_def Let_def)

lemma file_row: "files_ok lg \<Longrightarrow> find_key fm_id i (lg_files lg) = Some f \<longleftrightarrow> f \<in> set (lg_files lg) \<and> fm_id f = i"
  by (simp add: files_ok_def find_key_Some_iff)

lemma file_by_id_Inr: "file_by_id i lg = Inr f \<longleftrightarrow> find_key fm_id i (lg_files lg) = Some f"
  by (auto simp: file_by_id_def ok_or_def split: option.splits)

lemma shows_current_iff:
  "shows_current lg f \<longleftrightarrow>
     (\<exists>r. find_current_by_file_id (fm_id f) lg = Inr r \<and> fr_blob_id r = Some (fm_blob_id f) \<and> fr_logical_size r = fm_size f)"
  by (auto simp: shows_current_def split: sum.splits)

lemma shows_current_history: "shows_current lg f \<Longrightarrow> \<exists>h. history_of_file (fm_id f) lg = Some h"
  by (auto simp: shows_current_def find_current_by_file_id_def bind_result_Inr_iff split: sum.splits)

lemma history_scope_of_file:
  assumes "ledger_ok lg" "history_of_file i lg = Some h" "find_key fm_id i (lg_files lg) = Some f"
  shows "history_scope lg (fh_id h) = file_scope f"
proof -
  note h = history_of_file_SomeD [OF assms(2)]
  have "find_key fh_id (fh_id h) (lg_histories lg) = Some h"
    using h find_key_Some_iff [OF ledger_okD(6) [OF assms(1)]] by simp
  then show ?thesis using h assms(3) by (simp add: history_scope_def)
qed

lemma ok_or_Inr [simp]: "ok_or e x = Inr a \<longleftrightarrow> x = Some a"
  by (auto simp: ok_or_def split: option.splits)

lemma find_current_Inr:
  "find_current_by_file_id i lg = Inr r \<longleftrightarrow>
     (\<exists>h c. history_of_file i lg = Some h \<and> fh_current_revision_id h = Some c \<and> revision_by_id c lg = Some r
        \<and> fr_history_id r = fh_id h \<and> fr_retired_at r = None)"
  by (auto simp: find_current_by_file_id_def bind_result_Inr_iff split: if_splits)

lemma scope_checks:
  "ensure_file_resource_scope f sc = Inr () \<Longrightarrow> file_scope f = Some sc"
  "ensure_file_scope f ws = Inr () \<Longrightarrow> file_scope f = Some (resource_scope ws)"
  "ensure_active_file_scope f ws = Inr () \<Longrightarrow> file_scope f = Some (resource_scope ws)"
  "resource_scope_from_file f = Inr sc \<Longrightarrow> file_scope f = Some sc"
  by (auto simp: ensure_file_resource_scope_def ensure_file_scope_def ensure_active_file_scope_def file_scope_def
      resource_scope_from_file_def ensure_personal_file_scope_def verify_owner_def ok_or_def bind_result_Inr_iff
      split: workspace_resource_scope.splits option.splits if_splits)

lemma verify_file_access_Inr:
  assumes "verify_file_access sc i d = Inr f"
  shows "find_key fm_id i (lg_files (dr_ledger d)) = Some f" "file_scope f = Some (resource_scope sc)" "fm_deleted_at f = None" "fm_id f = i"
  using assms find_key_SomeD [of fm_id i]
  by (auto simp: verify_file_access_def bind_result_Inr_iff file_by_id_Inr dest: scope_checks)
     (auto simp: ensure_active_file_scope_def bind_result_Inr_iff split: if_splits)

section \<open>Retiring a revision\<close>

lemma tombstone_files:
  assumes ok: "ledger_ok lg" "files_ok lg" and h: "history_of_file i lg = Some h" "fr_history_id r = fh_id h" "r \<in> set (lg_revisions lg)"
    "live_of (fh_id h) (lg_revisions lg) = xs @ r # y # zs"
  shows "files_ok (tombstone now r lg)"
proof -
  note hh = history_of_file_SomeD [OF h(1)]
  have t: "tombstone now r lg = lg\<lparr>lg_revisions := map (cut_row now r y) (lg_revisions lg)\<rparr>"
    by (rule tombstone_rows [OF ok(1) conjunct1 [OF hh] h(4)])
  have cur: "fh_current_revision_id h \<noteq> Some (fr_id r)"
  proof -
    have "distinct (map fr_id (xs @ r # y # zs))" using live_of_distinct [OF ledger_okD(5) [OF ok(1)], of "fh_id h"] h(4) by simp
    then have "fr_id (last (y # zs)) \<noteq> fr_id r" using last_in_set [of "y # zs"] by (metis distinct.simps(2) distinct_append image_eqI list.distinct(1) list.simps(9) list.set_map map_append)
    then show ?thesis using chain_queries(2) [OF ok(1) h(1)] h(4) by simp
  qed
  have key: "revision_by_id c (tombstone now r lg) = map_option (cut_row now r y) (revision_by_id c lg)" for c
  proof -
    have "find_key fr_id c (map (cut_row now r y) rs) = map_option (cut_row now r y) (find_key fr_id c rs)" for rs
      by (induction rs) (auto simp: find_key_def)
    then show ?thesis by (simp add: revision_by_id_def t)
  qed
  have "shows_current (tombstone now r lg) f" if f: "f \<in> set (lg_files lg)" for f
  proof -
    obtain x where x: "find_current_by_file_id (fm_id f) lg = Inr x" "fr_blob_id x = Some (fm_blob_id f)" "fr_logical_size x = fm_size f"
      using ok(2) f by (auto simp: files_ok_def shows_current_iff)
    then obtain g c where g: "history_of_file (fm_id f) lg = Some g" "fh_current_revision_id g = Some c" "revision_by_id c lg = Some x"
        "fr_history_id x = fh_id g" "fr_retired_at x = None" by (auto simp: find_current_Inr)
    have "fr_id x \<noteq> fr_id r"
    proof
      assume e: "fr_id x = fr_id r"
      have "x \<in> set (lg_revisions lg)" "fr_id x = c" using g(3) find_key_SomeD by (fastforce simp: revision_by_id_def)+
      then have "x = r" using unique_key_inj [OF ledger_okD(5) [OF ok(1)] _ h(3) e] by simp
      then have "fh_id g = fh_id h" using g(4) h(2) by simp
      then have "g = h" using unique_key_inj [OF ledger_okD(6) [OF ok(1)]] history_of_file_SomeD [OF g(1)] hh by metis
      then show False using cur g(2) e \<open>fr_id x = c\<close> by simp
    qed
    then have "find_current_by_file_id (fm_id f) (tombstone now r lg) = Inr (cut_row now r y x)"
      using g key [of c] by (auto simp: find_current_Inr t history_of_file_def cut_row_def)
    then show ?thesis using x(2,3) \<open>fr_id x \<noteq> fr_id r\<close> by (simp add: shows_current_def cut_row_def)
  qed
  then show ?thesis using ok(2) by (simp add: files_ok_def t)
qed

lemma retire_revision_keeps:
  assumes ok: "drive_ok d" and h: "history_of_file i (dr_ledger d) = Some h" and f: "find_key fm_id i (lg_files (dr_ledger d)) = Some f"
    and sc: "file_scope f = Some sc" and r: "r \<in> set (live_of (fh_id h) (lg_revisions (dr_ledger d)))" "fh_current_revision_id h \<noteq> Some (fr_id r)"
      "fr_blob_id r = Some blob"
    and t: "retire_revision env sc r blob d = Inr d'"
  shows "drive_ok d'" and "dr_ledger d' = tombstone (de_now env) r (dr_ledger d)"
    and "dr_blobs d' = decrement_blob_ref_count (de_now env) blob (dr_blobs d)" "dr_objects d' = dr_objects d"
    and "scope_usage (charges (dr_ledger d')) s = scope_usage (charges (dr_ledger d)) s - (if s = sc then fr_logical_size r else 0)"
proof -
  let ?lg = "dr_ledger d" and ?lg' = "tombstone (de_now env) r (dr_ledger d)"
  note D = drive_pendingD [OF ok [unfolded drive_ok_def]]
  note hh = history_of_file_SomeD [OF h]
  obtain xs y zs where s: "live_of (fh_id h) (lg_revisions ?lg) = xs @ r # y # zs"
    using live_chain_split [OF ledger_okD(9) [OF D(1) conjunct1 [OF hh]] r(1,2)] by blast
  note C = tombstone_charges [OF D(1) conjunct1 [OF hh] s, where now = "de_now env"]
  have rr: "r \<in> set (lg_revisions ?lg)" "fr_history_id r = fh_id h" using r(1) by (simp_all add: live_of_sub)
  have c: "charge_of ?lg r = (Some sc, Some blob, fr_logical_size r)"
    using history_scope_of_file [OF D(1) h f] rr(2) r(3) sc by (simp add: charge_of_def)
  have e: "dr_ledger d' = ?lg'" "dr_blobs d' = decrement_blob_ref_count (de_now env) blob (dr_blobs d)" "dr_objects d' = dr_objects d"
    using t by (auto simp: retire_revision_def Let_def bind_result_Inr_iff split: if_splits)
  have u: "scope_usage (charges ?lg') s = scope_usage (charges ?lg) s - (if s = sc then fr_logical_size r else 0)" for s
    using C(1) by (simp add: c)
  have pos: "0 \<le> snd (snd x)" if "x \<in># charges ?lg'" for x using D(3) [of x] that by (simp add: C(1))
  have nn: "0 \<le> scope_usage (charges ?lg') sc" by (rule scope_usage_nonneg) (use pos in blast)
  have a: "accounts_exact (charges ?lg') (dr_accounts d')"
  proof (cases "fr_logical_size r = 0")
    case True
    then show ?thesis using t u D(5) by (simp add: retire_revision_def Let_def accounts_exact_def) auto
  next
    case False
    then have "update_storage_used_for_resource_scope sc (- fr_logical_size r) (dr_accounts d) = Inr (dr_accounts d')"
      using t by (auto simp: retire_revision_def Let_def bind_result_Inr_iff)
    then show ?thesis
      by (rule accounts_exact_update [OF D(5)]) (use u nn in auto)
  qed
  have "blobs_ok (blob_charges (charges ?lg')) (dr_blobs d') (dr_objects d')"
    using blobs_ok_decrement [of blob "blob_charges (charges ?lg')"] D(4) by (simp add: C(1) c e)
  moreover have "ledger_ok ?lg'" by (rule tombstone_keeps [OF D(1) conjunct1 [OF hh] r(1,2)])
  moreover have "files_ok ?lg'" by (rule tombstone_files [OF D(1,2) h rr(2,1) s])
  ultimately show "drive_ok d'" using a pos unfolding drive_ok_def by (intro drive_pendingI) (simp_all add: e)
  show "dr_ledger d' = ?lg'" "dr_blobs d' = decrement_blob_ref_count (de_now env) blob (dr_blobs d)" "dr_objects d' = dr_objects d" by (rule e)+
  show "scope_usage (charges (dr_ledger d')) s = scope_usage (charges (dr_ledger d)) s - (if s = sc then fr_logical_size r else 0)"
    by (simp add: e u)
qed

section \<open>Appending a revision and showing it\<close>

lemma find_current_files [simp]:
  "find_current_by_file_id i (lg\<lparr>lg_files := F\<rparr>) = find_current_by_file_id i lg"
  "history_of_file i (lg\<lparr>lg_files := F\<rparr>) = history_of_file i lg"
  by (simp_all add: find_current_by_file_id_def find_history_by_file_id_def history_of_file_def revision_by_id_def)

lemma ledger_ok_files [simp]: "ledger_ok (lg\<lparr>lg_files := F\<rparr>) = ledger_ok lg"
  by (simp add: ledger_ok_def snapshots_ok_def)

lemma insert_revision_files:
  "insert_revision env hid seq pred input (lg\<lparr>lg_files := F\<rparr>)
     = map_sum id (\<lambda>(l, r). (l\<lparr>lg_files := F\<rparr>, r)) (insert_revision env hid seq pred input lg)"
proof -
  have "revision_public_id_exists (lg\<lparr>lg_files := F\<rparr>) = revision_public_id_exists lg"
    by (simp add: revision_public_id_exists_def fun_eq_iff)
  then show ?thesis
    by (cases "re_best_effort_uuid env ''file revision public id'' (revision_public_id_exists lg)")
       (simp_all add: insert_revision_def Let_def insert_rows_def)
qed

lemma snapshot_user_properties_files:
  "snapshot_user_properties i rid (lg\<lparr>lg_files := F\<rparr>) = map_sum id (\<lambda>l. l\<lparr>lg_files := F\<rparr>) (snapshot_user_properties i rid lg)"
  by (simp add: snapshot_user_properties_def find_user_properties_def revision_by_id_def bind_result_def Let_def insert_rows_def
      split: sum.splits)

lemma append_locked_files:
  "append_locked env i h input (lg\<lparr>lg_files := F\<rparr>)
     = map_sum id (\<lambda>(l, r). (l\<lparr>lg_files := F\<rparr>, r)) (append_locked env i h input lg)"
  by (cases "insert_revision env (fh_id h) (fh_next_sequence h) (fh_current_revision_id h) input lg")
     (auto simp: append_locked_def insert_revision_files snapshot_user_properties_files bind_result_def ok_or_def
      update_where_def split: sum.splits option.splits)

lemma append_locked_current:
  assumes "ledger_ok lg" "history_of_file i lg = Some h" "append_locked env i h input lg = Inr (lg', r)"
  shows "find_current_by_file_id i lg' = Inr r"
    and "j \<noteq> i \<Longrightarrow> find_current_by_file_id j lg = Inr x \<Longrightarrow> find_current_by_file_id j lg' = Inr x"
proof -
  note e = append_locked_Inr [OF assms(3)] and H = append_locked_history [OF assms]
  have ok': "ledger_ok lg'" by (rule append_locked_keeps [OF assms])
  have "revision_by_id (fr_id r) lg' = Some r"
    unfolding revision_by_id_def find_key_Some_iff [OF ledger_okD(5) [OF ok']] using e by auto
  then show "find_current_by_file_id i lg' = Inr r" using e H(1) by (auto simp: find_current_Inr)
  assume j: "j \<noteq> i" "find_current_by_file_id j lg = Inr x"
  then obtain g c where g: "history_of_file j lg = Some g" "fh_current_revision_id g = Some c" "revision_by_id c lg = Some x"
      "fr_history_id x = fh_id g" "fr_retired_at x = None" by (auto simp: find_current_Inr)
  have "revision_by_id c lg' = Some x"
    using g(3) e find_key_SomeD [of fr_id c] unfolding revision_by_id_def find_key_Some_iff [OF ledger_okD(5) [OF ok']] by auto
  then show "find_current_by_file_id j lg' = Inr x" using g H(2) [OF j(1)] by (auto simp: find_current_Inr)
qed

text \<open>The row changes that services make: the content columns of one file.\<close>

definition shows_columns :: "int \<Rightarrow> int \<Rightarrow> (file_model \<Rightarrow> file_model) \<Rightarrow> bool" where
  "shows_columns blob sz g = (\<forall>f. fm_id (g f) = fm_id f \<and> fm_team_id (g f) = fm_team_id f
     \<and> fm_owner_user_id (g f) = fm_owner_user_id f \<and> fm_blob_id (g f) = blob \<and> fm_size (g f) = sz)"

lemma append_shown:
  assumes lg: "ledger_ok lg" "files_ok lg" "\<And>c. c \<in># charges lg \<Longrightarrow> 0 \<le> snd (snd c)"
    and h: "history_of_file i lg = Some h" and f: "find_key fm_id i (lg_files lg) = Some f" "file_scope f = Some sc"
    and a: "append_locked env i h input lg = Inr (lg1, r)" and nn: "0 \<le> nr_logical_size input"
    and g: "shows_columns (nr_blob_id input) (nr_logical_size input) g"
    and lg': "lg' = lg1\<lparr>lg_files := map (\<lambda>x. if fm_id x = i then g x else x) (lg_files lg)\<rparr>"
  shows "ledger_ok lg'" "files_ok lg'" "charges lg' = add_mset (Some sc, Some (nr_blob_id input), nr_logical_size input) (charges lg)"
    and "\<And>c. c \<in># charges lg' \<Longrightarrow> 0 \<le> snd (snd c)"
proof -
  define G where "G x = (if fm_id x = i then g x else x)" for x
  have lg'': "lg' = lg1\<lparr>lg_files := map G (lg_files lg)\<rparr>" by (simp add: lg' G_def)
  note e = append_locked_Inr [OF a] and cur = append_locked_current [OF lg(1) h a]
  have G: "fm_id (G x) = fm_id x" "file_scope (G x) = file_scope x" for x
    using g by (auto simp: G_def shows_columns_def file_scope_def split: option.splits)
  have "find_key fm_id j (map G fs) = map_option G (find_key fm_id j fs)" for j fs
    using G(1) by (induction fs) (auto simp: find_key_def)
  then have fs: "Option.bind (find_key fm_id j (lg_files lg')) file_scope = Option.bind (find_key fm_id j (lg_files lg1)) file_scope" for j
    using e G(2) by (cases "find_key fm_id j (lg_files lg)") (auto simp: lg'')
  have s: "history_scope lg' hid = history_scope lg1 hid" for hid
    by (rule history_scope_cong [where f = id, OF _ _ fs]) (simp_all add: lg'')
  have "charges lg' = charges lg1" by (rule charges_cong [OF s]) (simp add: lg'')
  then show C: "charges lg' = add_mset (Some sc, Some (nr_blob_id input), nr_logical_size input) (charges lg)"
    using append_locked_charges(1) [OF a] history_scope_of_file [OF lg(1) h f(1)] f(2) by simp
  show "0 \<le> snd (snd c)" if "c \<in># charges lg'" for c using that lg(3) [of c] nn by (auto simp: C)
  show "ledger_ok lg'" using append_locked_keeps [OF lg(1) h a] by (simp add: lg'')
  have "shows_current lg' (G x)" if x: "x \<in> set (lg_files lg)" for x
  proof (cases "fm_id x = i")
    case True
    then show ?thesis using cur(1) e g by (auto simp: shows_current_iff lg'' shows_columns_def G_def)
  next
    case False
    then show ?thesis using lg(2) x cur(2) by (force simp: files_ok_def shows_current_iff lg'' G_def)
  qed
  moreover have "unique_key fm_id (lg_files lg')"
    using lg(2) G(1) by (simp add: lg'' files_ok_def unique_key_def comp_def)
  moreover have "fm_id ` set (lg_files lg') = fm_id ` set (lg_files lg)" 
  proof -
    have "map fm_id (map G (lg_files lg)) = map fm_id (lg_files lg)" using G(1) by simp
    then have "set (map fm_id (lg_files lg')) = set (map fm_id (lg_files lg))" by (simp add: lg'' del: set_map map_map)
    then show ?thesis by (simp only: set_map)
  qed
  moreover have "set_option (fh_file_id x) \<subseteq> fm_id ` set (lg_files lg)" if "x \<in> set (lg_histories lg1)" for x
    using that lg(2) e by (auto simp: files_ok_def split: if_splits)
  ultimately show "files_ok lg'" using lg(2) G(2) unfolding files_ok_def by (auto simp: lg'')
qed

end
