(* ===== verification/Drive_Versions.thy ===== *)
theory Drive_Versions
  imports Drive_Accounting
begin

text \<open>
  Restoring, deleting and thinning out revisions keep the drive's books: lemmas for
  \<open>src/src/services/content/version.rs\<close> as modelled in \<open>File_Versions\<close>.
\<close>

section \<open>After the commit\<close>

definition env_apart :: "drive_env \<Rightarrow> drive \<Rightarrow> bool" where
  "env_apart env d = (\<forall>k. derived_apart (dr_blobs d) (de_replies env k))"

text \<open>What the blob handlers leave alone: everything but the blob table and the stored objects.\<close>

definition same_books :: "drive \<Rightarrow> drive \<Rightarrow> bool" where
  "same_books d' d = (dr_ledger d' = dr_ledger d \<and> dr_accounts d' = dr_accounts d)"

lemma same_booksD: "same_books d' d \<Longrightarrow> dr_ledger d' = dr_ledger d \<and> dr_accounts d' = dr_accounts d"
  by (simp add: same_books_def)

lemma pending_blobs:
  assumes "drive_pending pend d" "same_books d' d"
    "blobs_ok (blob_charges (charges (dr_ledger d)) + pend) (dr_blobs d') (dr_objects d')"
  shows "drive_pending pend d'"
  using drive_pendingD [OF assms(1)] assms(2,3) by (intro drive_pendingI) (auto simp: same_books_def)

lemma cleanup_blob_keeps:
  assumes "drive_pending pend d" "env_apart env d"
  shows "drive_pending pend (cleanup_blob_if_unreferenced env k b d)" "same_books (cleanup_blob_if_unreferenced env k b d) d"
    "env_apart env (cleanup_blob_if_unreferenced env k b d)"
proof -
  let ?d = "cleanup_blob_if_unreferenced env k b d"
  have "derived_apart (dr_blobs d) (de_replies env k)" using assms(2) by (simp add: env_apart_def)
  then have k: "blobs_ok (blob_charges (charges (dr_ledger d)) + pend) (dr_blobs ?d) (dr_objects ?d)" "paths_within (dr_blobs ?d) (dr_blobs d)"
    using blobs_ok_cleanup [OF drive_pendingD(4) [OF assms(1)], of "de_replies env k" "blob_view d" "\<lambda>_. de_now env" b]
    by (simp_all add: cleanup_blob_if_unreferenced_def with_blob_world_def blob_view_def)
  show s: "same_books ?d d" by (simp add: same_books_def cleanup_blob_if_unreferenced_def with_blob_world_def)
  show "drive_pending pend ?d" by (rule pending_blobs [OF assms(1) s k(1)])
  show "env_apart env ?d" using assms(2) derived_apart_mono [OF _ k(2)] by (simp add: env_apart_def)
qed

lemma delete_thumbnail_keeps:
  assumes "drive_pending pend d" "env_apart env d"
  shows "drive_pending pend (delete_thumbnail env k b d)" "same_books (delete_thumbnail env k b d) d"
    "env_apart env (delete_thumbnail env k b d)"
proof -
  let ?d = "delete_thumbnail env k b d"
  have "\<forall>x \<in> set (dr_blobs d). \<forall>p. fb_storage_path x = Some p \<longrightarrow> p \<notin> set (cr_derived (de_replies env k 0))"
    using assms(2) by (simp add: env_apart_def derived_apart_def)
  then have k: "blobs_ok (blob_charges (charges (dr_ledger d)) + pend) (dr_blobs ?d) (dr_objects ?d)" "paths_within (dr_blobs ?d) (dr_blobs d)"
    using blobs_ok_thumbnail [OF drive_pendingD(4) [OF assms(1)], of "de_replies env k 0" "blob_view d" "de_now env" b] drive_pendingD(4) [OF assms(1)]
    by (simp_all add: delete_thumbnail_def with_blob_world_def blob_view_def Let_def)
  show s: "same_books ?d d" by (simp add: same_books_def delete_thumbnail_def with_blob_world_def Let_def)
  show "drive_pending pend ?d" by (rule pending_blobs [OF assms(1) s k(1)])
  show "env_apart env ?d" using assms(2) derived_apart_mono [OF _ k(2)] by (simp add: env_apart_def)
qed

lemma publish_event_keeps [simp]:
  "drive_pending pend (publish_event e d) = drive_pending pend d" "drive_ok (publish_event e d) = drive_ok d"
  "env_apart env (publish_event e d) = env_apart env d"
  "dr_ledger (publish_event e d) = dr_ledger d" "dr_accounts (publish_event e d) = dr_accounts d"
  "dr_blobs (publish_event e d) = dr_blobs d" "dr_objects (publish_event e d) = dr_objects d"
  by (simp_all add: publish_event_def drive_ok_def drive_pending_def env_apart_def)

section \<open>Deleting\<close>

lemma load_revision_Inr:
  assumes "ledger_ok lg" "history_of_file i lg = Some h" "load_revision_for_file i rid lg = Inr r"
  shows "r \<in> set (live_of (fh_id h) (lg_revisions lg))" "fr_id r = rid"
  using assms(2,3) find_Some_iff [of _ "lg_revisions lg"]
  by (auto simp: load_revision_for_file_def find_by_id_for_file_def bind_result_Inr_iff live_of_sub of_live_history_def
      find_Some_iff)

lemma retire_paths:
  assumes "retire_revision env sc r blob d = Inr d'" "env_apart env d"
  shows "env_apart env d'"
proof -
  have "dr_blobs d' = decrement_blob_ref_count (de_now env) blob (dr_blobs d)"
    using assms(1) by (auto simp: retire_revision_def Let_def bind_result_Inr_iff split: if_splits)
  then have "paths_within (dr_blobs d') (dr_blobs d)"
    by (auto simp: paths_within_def decrement_blob_ref_count_def update_where_def set_count_row_def)
  then show ?thesis using assms(2) derived_apart_mono by (fastforce simp: env_apart_def)
qed

lemma delete_transaction_Inr:
  assumes ok: "drive_ok d" and f: "find_key fm_id (fm_id file) (lg_files (dr_ledger d)) = Some file" "file_scope file = Some (resource_scope sc)"
    and t: "delete_transaction env sc file rid d = Inr (d', blob, n)"
  obtains h r where "history_of_file (fm_id file) (dr_ledger d) = Some h" "r \<in> set (live_of (fh_id h) (lg_revisions (dr_ledger d)))"
    "fr_id r = rid" "fh_current_revision_id h \<noteq> Some rid" "fr_blob_id r = Some blob" "n = fr_logical_size r"
    "retire_revision env (resource_scope sc) r blob d = Inr d'"
proof -
  obtain h r where h: "history_of_file (fm_id file) (dr_ledger d) = Some h" "fh_current_revision_id h \<noteq> Some rid"
      "load_revision_for_file (fm_id file) rid (dr_ledger d) = Inr r" "fr_blob_id r = Some blob" "n = fr_logical_size r"
      "retire_revision env (resource_scope sc) r blob d = Inr d'"
    using t by (auto simp: delete_transaction_def bind_result_Inr_iff split: if_splits)
  then show ?thesis using that load_revision_Inr [OF drive_pendingD(1) [OF ok [unfolded drive_ok_def]] h(1,3)] by blast
qed

lemma delete_version_keeps:
  assumes ok: "drive_ok d" "env_apart env d" and f: "find_key fm_id (fm_id file) (lg_files (dr_ledger d)) = Some file"
      "file_scope file = Some (resource_scope sc)"
  shows "drive_ok (fst (delete_version_inner env sc file rid d)) \<and> env_apart env (fst (delete_version_inner env sc file rid d))"
proof (cases "delete_transaction env sc file rid d")
  case (Inl e)
  then show ?thesis using ok by (simp add: delete_version_inner_def)
next
  case (Inr t)
  obtain d' blob n where t: "t = (d', blob, n)" by (cases t)
  obtain h r where h: "history_of_file (fm_id file) (dr_ledger d) = Some h" "r \<in> set (live_of (fh_id h) (lg_revisions (dr_ledger d)))"
      "fr_id r = rid" "fh_current_revision_id h \<noteq> Some rid" "fr_blob_id r = Some blob" "n = fr_logical_size r"
      "retire_revision env (resource_scope sc) r blob d = Inr d'"
    by (rule delete_transaction_Inr [OF ok(1) f Inr [unfolded t]])
  have "drive_ok d'" using retire_revision_keeps(1) [OF ok(1) h(1) f h(2) _ h(5,7)] h(3,4) by simp
  moreover have "env_apart env d'" by (rule retire_paths [OF h(7) ok(2)])
  ultimately show ?thesis using cleanup_blob_keeps [of "{#}"] Inr t
    by (simp add: delete_version_inner_def drive_ok_def)
qed

section \<open>Thinning out\<close>

definition live_ids :: "int \<Rightarrow> ledger \<Rightarrow> int list" where
  "live_ids hid lg = map fr_id (live_of hid (lg_revisions lg))"

lemma tombstone_tables [simp]:
  "lg_histories (tombstone now r lg) = lg_histories lg" "lg_files (tombstone now r lg) = lg_files lg"
  "history_of_file i (tombstone now r lg) = history_of_file i lg"
  by (simp_all add: tombstone_def update_revision_def Let_def history_of_file_def split: option.splits)

text \<open>A file of a workspace whose account exists, as the loop of \<open>cleanup_excess\<close> finds it.\<close>

definition thinning :: "workspace_resource_scope \<Rightarrow> int \<Rightarrow> file_model \<Rightarrow> file_revision_history \<Rightarrow> int \<Rightarrow> int \<Rightarrow> drive_env \<Rightarrow> drive \<Rightarrow> bool" where
  "thinning sc i f h u q env d =
     (drive_ok d \<and> env_apart env d \<and> history_of_file i (dr_ledger d) = Some h
      \<and> find_key fm_id i (lg_files (dr_ledger d)) = Some f \<and> file_scope f = Some sc \<and> account_of sc (dr_accounts d) = Some (u, q))"

lemma release_succeeds:
  assumes "accounts_ok db" "account_of sc db = Some (u, q)" "n \<noteq> 0" "0 \<le> n"
  shows "\<exists>db' u'. update_storage_used_for_resource_scope sc (- n) db = Inr db' \<and> account_of sc db' = Some (u', q)"
proof (cases "update_storage_used_for_resource_scope sc (- n) db")
  case (Inl e)
  then show ?thesis
    using scope_update_refines [OF assms(1), where sc = sc and d = "- n"] assms(2-4)
    by (auto simp: refusal_def split: if_splits)
next
  case (Inr db')
  then show ?thesis
    using scope_update_refines [OF assms(1), where sc = sc and d = "- n"] assms(2-4)
    by (auto split: if_splits)
qed

lemma locked_usage: "account_of sc db = Some a \<Longrightarrow> lock_storage_usage_for_resource_scope sc db = Inr ()"
  by (auto simp: account_of_def lock_storage_usage_for_resource_scope_def user_account_by_id_def team_account_by_id_def
      split: workspace_resource_scope.splits)

lemma retire_oldest_turn:
  assumes t: "thinning sc i f h u q env d" and n: "length (live_ids (fh_id h) (dr_ledger d)) > m" "1 \<le> m"
  shows "\<exists>d1 blob sz. retire_oldest env sc i m d = Inr (Some (d1, blob, sz)) \<and> 0 \<le> sz \<and> sz \<le> u
     \<and> thinning sc i f h (u - sz) q env d1 \<and> live_ids (fh_id h) (dr_ledger d1) = tl (live_ids (fh_id h) (dr_ledger d))"
proof -
  let ?lg = "dr_ledger d" and ?live = "live_of (fh_id h) (lg_revisions (dr_ledger d))"
  have T: "drive_ok d" "env_apart env d" "history_of_file i ?lg = Some h" "find_key fm_id i (lg_files ?lg) = Some f"
    "file_scope f = Some sc" "account_of sc (dr_accounts d) = Some (u, q)" using t by (simp_all add: thinning_def)
  note D = drive_pendingD [OF T(1) [unfolded drive_ok_def]] and hh = history_of_file_SomeD [OF T(3)]
  note Q = chain_queries [OF D(1) T(3)]
  obtain r y zs where s: "?live = r # y # zs"
    using n by (cases ?live; cases "tl ?live") (auto simp: live_ids_def)
  have r: "r \<in> set ?live" "r \<in> set (lg_revisions ?lg)" "fr_history_id r = fh_id h" "fr_retired_at r = None"
    using s live_of_sub [of r "fh_id h" "lg_revisions ?lg"] by auto
  obtain blob where blob: "fr_blob_id r = Some blob" using ledger_okD(8) [OF D(1) r(2)] r(4) by (auto simp: revision_ok_def)
  have "distinct (map fr_id ?live)" by (rule live_of_distinct [OF ledger_okD(5) [OF D(1)]])
  then have cur: "fh_current_revision_id h \<noteq> Some (fr_id r)"
    using Q(2) s last_in_set [of "y # zs"] imageI [of "last (y # zs)" "set (y # zs)" fr_id] by auto
  have ch: "charge_of ?lg r = (Some sc, Some blob, fr_logical_size r)"
    using history_scope_of_file [OF D(1) T(3,4)] r(3) blob T(5) by (simp add: charge_of_def)
  have "charge_of ?lg r \<in># charges ?lg" using r(2,4) by (auto simp: charges_def live_rows_def)
  then have nn: "0 \<le> fr_logical_size r" using D(3) ch by fastforce
  have aok: "accounts_ok (dr_accounts d)" using D(5) by (simp add: accounts_exact_def)
  obtain d1 u' where d1: "retire_revision env sc r blob d = Inr d1" "account_of sc (dr_accounts d1) = Some (u', q)"
    using release_succeeds [OF aok T(6) _ nn] T(6)
    by (cases "fr_logical_size r = 0") (fastforce simp: retire_revision_def Let_def)+
  note K = retire_revision_keeps [OF T(1,3,4,5) r(1) cur blob d1(1)]
  note D1 = drive_pendingD [OF K(1) [unfolded drive_ok_def]]
  have uu: "u = scope_usage (charges ?lg) sc" "u' = scope_usage (charges (dr_ledger d1)) sc"
    using D(5) D1(5) T(6) d1(2) by (auto simp: accounts_exact_def)
  have "0 \<le> u'" unfolding uu(2) by (rule scope_usage_nonneg) (use D1(3) in blast)
  then have le: "fr_logical_size r \<le> u" "u' = u - fr_logical_size r" using K(5) [of sc] uu by simp_all
  have "live_of (fh_id h) (lg_revisions (dr_ledger d1)) = y\<lparr>fr_predecessor_revision_id := fr_predecessor_revision_id r\<rparr> # zs"
    using cut_chain [OF D(1) conjunct1 [OF hh], of "[]" r y zs] tombstone_rows [OF D(1) conjunct1 [OF hh], of "[]" r y zs] s
    by (simp add: K(2))
  then have ids: "live_ids (fh_id h) (dr_ledger d1) = tl (live_ids (fh_id h) ?lg)" by (simp add: live_ids_def s)
  have "retire_oldest env sc i m d = Inr (Some (d1, blob, fr_logical_size r))"
    using T(3) locked_usage [OF T(6)] Q(5,6) s n d1(1) blob
    by (simp add: retire_oldest_def live_ids_def lock_history_by_file_id_def ok_or_def)
  moreover have "thinning sc i f h (u - fr_logical_size r) q env d1"
    using T K(1) d1(2) le retire_paths [OF d1(1) T(2)] by (simp add: thinning_def K(2))
  ultimately show ?thesis using ids nn le by blast
qed

lemma retire_oldest_enough:
  assumes t: "thinning sc i f h u q env d" and n: "length (live_ids (fh_id h) (dr_ledger d)) \<le> m"
  shows "retire_oldest env sc i m d = Inr None"
proof -
  have T: "drive_ok d" "history_of_file i (dr_ledger d) = Some h" "account_of sc (dr_accounts d) = Some (u, q)"
    using t by (simp_all add: thinning_def)
  then show ?thesis using chain_queries(5) [OF drive_pendingD(1) [OF T(1) [unfolded drive_ok_def]] T(2)] locked_usage [OF T(3)] n
    by (simp add: retire_oldest_def live_ids_def lock_history_by_file_id_def)
qed

lemma thinning_cleanup: "thinning sc i f h u q env d \<Longrightarrow> thinning sc i f h u q env (cleanup_blob_if_unreferenced env k b d)"
  "thinning sc i f h u q env d \<Longrightarrow> dr_ledger (cleanup_blob_if_unreferenced env k b d) = dr_ledger d"
  using cleanup_blob_keeps [of "{#}" d env k b] by (auto simp: thinning_def drive_ok_def dest!: same_booksD)

lemma cleanup_loop_result:
  assumes "thinning sc i f h u q env d" "1 \<le> m" "length (live_ids (fh_id h) (dr_ledger d)) < fuel"
    "0 \<le> reclaimed" "reclaimed + u \<le> i64_max"
  shows "\<exists>d' bytes. cleanup_loop env sc i m fuel deleted reclaimed d =
      Some (d', Inr (deleted + (length (live_ids (fh_id h) (dr_ledger d)) - m), reclaimed + bytes))
    \<and> 0 \<le> bytes \<and> thinning sc i f h (u - bytes) q env d'
    \<and> live_ids (fh_id h) (dr_ledger d') = drop (length (live_ids (fh_id h) (dr_ledger d)) - m) (live_ids (fh_id h) (dr_ledger d))"
  using assms
proof (induction fuel arbitrary: deleted reclaimed d u)
  case (Suc fuel)
  let ?n = "length (live_ids (fh_id h) (dr_ledger d))"
  show ?case
  proof (cases "?n \<le> m")
    case True
    then show ?thesis using retire_oldest_enough [OF Suc.prems(1) True] Suc.prems(1)
      by (intro exI [of _ d] exI [of _ 0]) simp
  next
    case False
    then obtain d1 blob sz where r: "retire_oldest env sc i m d = Inr (Some (d1, blob, sz))" "0 \<le> sz" "sz \<le> u"
        "thinning sc i f h (u - sz) q env d1" "live_ids (fh_id h) (dr_ledger d1) = tl (live_ids (fh_id h) (dr_ledger d))"
      using retire_oldest_turn [OF Suc.prems(1) _ Suc.prems(2)] by fastforce
    let ?d2 = "cleanup_blob_if_unreferenced env deleted blob d1"
    have t2: "thinning sc i f h (u - sz) q env ?d2" "live_ids (fh_id h) (dr_ledger ?d2) = tl (live_ids (fh_id h) (dr_ledger d))"
      using thinning_cleanup [OF r(4)] r(5) by auto
    have n2: "length (live_ids (fh_id h) (dr_ledger ?d2)) = ?n - 1" by (simp add: t2(2))
    have in64: "in_i64 (reclaimed + sz)" using Suc.prems(4,5) r(2,3) by (simp add: in_i64_def i64_min_def)
    obtain d' bytes where ih: "cleanup_loop env sc i m fuel (deleted + 1) (reclaimed + sz) ?d2 =
          Some (d', Inr (deleted + 1 + (?n - 1 - m), reclaimed + sz + bytes))" "0 \<le> bytes" "thinning sc i f h (u - sz - bytes) q env d'"
        "live_ids (fh_id h) (dr_ledger d') = drop (?n - 1 - m) (tl (live_ids (fh_id h) (dr_ledger d)))"
    proof -
      have "?n - 1 < fuel" using Suc.prems(2,3) False by simp
      then show ?thesis
        using that Suc.IH [OF t2(1) Suc.prems(2), of "reclaimed + sz" "deleted + 1"] Suc.prems(4,5) r(2,3) n2 t2(2) by auto
    qed
    have "deleted + 1 + (?n - 1 - m) = deleted + (?n - m)" "Suc (?n - 1 - m) = ?n - m" using False by auto
    moreover have "drop (?n - 1 - m) (tl xs) = drop (Suc (?n - 1 - m)) xs" for xs :: "int list" by (cases xs) auto
    ultimately show ?thesis using r(1,2) ih in64
      by (intro exI [of _ d'] exI [of _ "sz + bytes"]) (simp add: checked_add_i64_def algebra_simps)
  qed
qed simp

text \<open>Whatever its result, the loop keeps the books.\<close>

lemma usage_locked: "lock_storage_usage_for_resource_scope sc db = Inr () \<Longrightarrow> \<exists>u q. account_of sc db = Some (u, q)"
  by (auto simp: account_of_def lock_storage_usage_for_resource_scope_def user_account_by_id_def team_account_by_id_def
      split: workspace_resource_scope.splits option.splits)

definition thinnable :: "workspace_resource_scope \<Rightarrow> int \<Rightarrow> file_model \<Rightarrow> file_revision_history \<Rightarrow> drive_env \<Rightarrow> drive \<Rightarrow> bool" where
  "thinnable sc i f h env d =
     (drive_ok d \<and> env_apart env d \<and> history_of_file i (dr_ledger d) = Some h
      \<and> find_key fm_id i (lg_files (dr_ledger d)) = Some f \<and> file_scope f = Some sc)"

lemma cleanup_loop_keeps:
  assumes "thinnable sc i f h env d" "1 \<le> m" "cleanup_loop env sc i m fuel deleted reclaimed d = Some (d', res)"
  shows "thinnable sc i f h env d'"
  using assms
proof (induction fuel arbitrary: deleted reclaimed d)
  case (Suc fuel)
  show ?case
  proof (cases "retire_oldest env sc i m d")
    case (Inr o1)
    show ?thesis
    proof (cases o1)
      case None
      then show ?thesis using Suc.prems Inr by simp
    next
      case (Some t)
      then obtain d1 blob sz where o1: "o1 = Some (d1, blob, sz)" by (cases t) auto
      have "lock_storage_usage_for_resource_scope sc (dr_accounts d) = Inr ()"
        using Inr o1 by (auto simp: retire_oldest_def bind_result_Inr_iff)
      then obtain u q where t: "thinning sc i f h u q env d"
        using usage_locked Suc.prems(1) by (fastforce simp: thinning_def thinnable_def)
      have "\<not> length (live_ids (fh_id h) (dr_ledger d)) \<le> m" using retire_oldest_enough [OF t, of m] Inr o1 by auto
      then have "thinning sc i f h (u - sz) q env d1"
        using retire_oldest_turn [OF t _ Suc.prems(2)] Inr o1 by fastforce
      then have k: "thinnable sc i f h env (cleanup_blob_if_unreferenced env deleted blob d1)"
        using thinning_cleanup(1) by (fastforce simp: thinning_def thinnable_def)
      show ?thesis
      proof (cases "checked_add_i64 reclaimed sz")
        case None
        then show ?thesis using Suc.prems(3) Inr o1 k by simp
      next
        case (Some n)
        then show ?thesis using Suc.IH [OF k Suc.prems(2)] Suc.prems(3) Inr o1 by (simp del: checked_add_i64_Some)
      qed
    qed
  qed (use Suc.prems in simp)
qed simp

lemma cleanup_excess_keeps:
  assumes "drive_ok d" "env_apart env d" "cleanup_excess env configured i d = Some (d', res)"
  shows "drive_ok d'" "env_apart env d'"
proof -
  have "drive_ok d' \<and> env_apart env d'"
  proof (cases "\<exists>f sc. file_by_id i (dr_ledger d) = Inr f \<and> resource_scope_from_file f = Inr sc")
    case True
    then obtain f sc where f: "file_by_id i (dr_ledger d) = Inr f" "resource_scope_from_file f = Inr sc" by blast
    let ?m = "saturating_succ (get_max_versions configured)"
    obtain d1 r1 where l: "cleanup_loop env sc i ?m (Suc (length (lg_revisions (dr_ledger d)))) 0 0 d = Some (d1, r1)"
      using assms(3) f by (auto simp: cleanup_excess_def simp del: cleanup_loop.simps)
    have d': "d' = d1 \<or> (\<exists>e. d' = publish_event e d1)"
      using assms(3) f l by (auto simp: cleanup_excess_def simp del: cleanup_loop.simps split: sum.splits if_splits)
    have fk: "find_key fm_id i (lg_files (dr_ledger d)) = Some f" using f(1) by (simp add: file_by_id_Inr)
    then obtain h where h: "history_of_file i (dr_ledger d) = Some h"
      using shows_current_history [of "dr_ledger d" f] drive_pendingD(2) [OF assms(1) [unfolded drive_ok_def]] find_key_SomeD [OF fk]
      by (auto simp: files_ok_def)
    have "thinnable sc i f h env d" using assms(1,2) h fk scope_checks(4) [OF f(2)] by (simp add: thinnable_def)
    moreover have "1 \<le> ?m" by (simp add: saturating_succ_def u64_max_def)
    ultimately have "thinnable sc i f h env d1" using cleanup_loop_keeps l by blast
    then show ?thesis using d' by (auto simp: thinnable_def)
  next
    case False
    then have "d' = d" using assms(3) by (auto simp: cleanup_excess_def split: sum.splits)
    then show ?thesis using assms(1,2) by simp
  qed
  then show "drive_ok d'" "env_apart env d'" by simp_all
qed

section \<open>Restoring\<close>

lemma ensure_and_lock_files: "ensure_and_lock env wt wid db = Inr (db', n) \<Longrightarrow> db_files db' = db_files db"
  by (auto simp: ensure_and_lock_def Let_def split: option.splits)

lemma lock_row_scope: "from_file (lock_row f) = Inr ws \<Longrightarrow> file_scope f = Some (case ws of LW_Personal u \<Rightarrow> RS_Personal u | LW_Team t \<Rightarrow> RS_Team t)"
  by (auto simp: from_file_def workspace_from_def lock_row_def file_scope_def split: option.splits)

lemma enforce_file_mutation_Inr:
  assumes "enforce_file_mutation env f cr d = Inr (d1, current)" "files_ok (dr_ledger d)"
  shows "find_key fm_id (fm_id f) (lg_files (dr_ledger d)) = Some current" "fm_id current = fm_id f" "file_scope current = file_scope f"
    "same_books d1 d" "dr_blobs d1 = dr_blobs d" "dr_objects d1 = dr_objects d"
proof -
  obtain db row ws where e: "from_file (lock_row f) = Inr ws" "file_lock_by_id (fm_id f) db = Inr row" "from_file row = Inr ws"
      "file_by_id (fi_id row) (dr_ledger d) = Inr current" "d1 = with_locks d db" "db_files db = db_files (lock_view d)"
    using assms(1) by (auto simp: enforce_file_mutation_def enforce_file_mutation_on_def lock_workspace_for_mutation_on_def bind_result_Inr_iff
        Let_def case_prod_beta lock_row_def split: if_splits dest!: ensure_and_lock_files)
  have row: "row \<in> set (map lock_row (lg_files (dr_ledger d)))" "fi_id row = fm_id f"
    using e(2,6) find_key_SomeD [of fi_id "fm_id f" "db_files db" row]
    by (auto simp: file_lock_by_id_def file_find_by_id_def lock_view_def split: option.splits)
  have c: "current \<in> set (lg_files (dr_ledger d))" "fm_id current = fi_id row" "find_key fm_id (fi_id row) (lg_files (dr_ledger d)) = Some current"
    using e(4) by (auto simp: file_by_id_Inr dest: find_key_SomeD)
  obtain x where x: "x \<in> set (lg_files (dr_ledger d))" "row = lock_row x" using row(1) by auto
  have u: "unique_key fm_id (lg_files (dr_ledger d))" using assms(2) by (simp add: files_ok_def)
  have "fm_id x = fm_id current" using x(2) c(2) by (simp add: lock_row_def)
  then have "x = current" by (rule unique_key_inj [OF u x(1) c(1)])
  then show "file_scope current = file_scope f" using lock_row_scope e(1,3) x(2) by metis
  show "find_key fm_id (fm_id f) (lg_files (dr_ledger d)) = Some current" "fm_id current = fm_id f" using c row(2) by simp_all
  show "same_books d1 d" "dr_blobs d1 = dr_blobs d" "dr_objects d1 = dr_objects d" by (simp_all add: e(5) with_locks_def same_books_def)
qed

lemma file_changed_Inr:
  assumes "file_changed env ctx before after action d = Inr (d', after')"
  shows "dr_ledger d' = dr_ledger (set_file_row (fm_id after) (modified_columns env ctx) d)" "dr_accounts d' = dr_accounts d"
    "dr_blobs d' = dr_blobs d" "dr_objects d' = dr_objects d" "after' = modified_columns env ctx after" "dr_events d' = dr_events d"
  using assms
  by (auto simp: file_changed_def append_activity_def bind_result_Inr_iff Let_def set_file_row_def split: if_splits)

lemma update_rows_twice:
  "fst (update_where (\<lambda>f. fm_id f = i) g (fst (update_where (\<lambda>f. fm_id f = i) g' fs)))
     = map (\<lambda>f. if fm_id f = i then g (g' f) else f) fs" if "\<And>f. fm_id (g' f) = fm_id f"
  using that by (simp add: update_where_def)

lemma restore_user_properties_files:
  assumes "restore_user_properties env i rid lg = Inr lg'"
  shows "lg_files lg' = lg_files lg" "lg_histories lg' = lg_histories lg" "lg_revisions lg' = lg_revisions lg"
    "history_of_file j lg' = history_of_file j lg" "charges lg' = charges lg" "files_ok lg' = files_ok lg"
proof -
  show t: "lg_files lg' = lg_files lg" "lg_histories lg' = lg_histories lg" "lg_revisions lg' = lg_revisions lg"
    using restore_user_properties_Inr [OF assms] by simp_all
  then show h: "history_of_file j lg' = history_of_file j lg" for j by (simp add: history_of_file_def)
  have "history_scope lg' hid = history_scope lg hid" for hid by (simp add: history_scope_def t)
  then show "charges lg' = charges lg" by (rule charges_cong) (rule t)
  have "find_current_by_file_id j lg' = find_current_by_file_id j lg" for j
    by (simp add: find_current_by_file_id_def find_history_by_file_id_def h revision_by_id_def t)
  then show "files_ok lg' = files_ok lg" by (simp add: files_ok_def t shows_current_def)
qed

lemma restored_shows: "shows_columns blob sz (\<lambda>f. modified_columns env ctx (restored_columns env blob sz mime f))"
  by (simp add: shows_columns_def modified_columns_def restored_columns_def Let_def)

lemma live_charged:
  assumes "ledger_ok lg" "history_of_file i lg = Some h" "find_key fm_id i (lg_files lg) = Some f"
    "r \<in> set (live_of (fh_id h) (lg_revisions lg))" "fr_blob_id r = Some b"
  shows "(file_scope f, Some b, fr_logical_size r) \<in># charges lg" "b \<in># blob_charges (charges lg)"
proof -
  have "charge_of lg r = (file_scope f, Some b, fr_logical_size r)"
    using history_scope_of_file [OF assms(1-3)] assms(4,5) by (simp add: charge_of_def live_of_sub)
  moreover have "charge_of lg r \<in># charges lg" using assms(4) by (auto simp: charges_def live_rows_def live_of_sub)
  ultimately show c: "(file_scope f, Some b, fr_logical_size r) \<in># charges lg" by simp
  then show "b \<in># blob_charges (charges lg)" by (metis add_mset_add_single blob_charges_simps(2) insert_DiffM union_single_eq_member)
qed

lemma map_append_Inr [simp]: "map_append r = Inr a \<longleftrightarrow> r = Inr a"
  by (auto simp: map_append_def split: sum.splits)

text \<open>What the transaction has found and done when it commits.\<close>

lemma restore_transaction_Inr:
  assumes "restore_transaction env sc file rid d = Inr (d', updated, target)"
  obtains d1 current h blob mime accounts blobs lg1 lg2 r username ctx where
    "enforce_file_mutation env file (submitted LC_None) d = Inr (d1, current)" "fm_blob_id current = fm_blob_id file"
    "history_of_file (fm_id file) (dr_ledger d1) = Some h" "load_revision_for_file (fm_id file) rid (dr_ledger d1) = Inr target"
    "fr_blob_id target = Some blob" "update_storage_used sc (fr_logical_size target) (dr_accounts d1) = Inr accounts"
    "increment_blob_ref_count (de_now env) blob (dr_blobs d1) = Inr blobs"
    "restore_user_properties (de_ledger env) (fm_id file) (fr_id target) (dr_ledger d1) = Inr lg1"
    "append_locked (de_ledger env) (fm_id file) h (restore_input env sc username blob mime target) lg1 = Inr (lg2, r)"
    "dr_ledger d' = lg2\<lparr>lg_files := map (\<lambda>f. if fm_id f = fm_id current
        then modified_columns env ctx (restored_columns env blob (fr_logical_size target) mime f) else f) (lg_files lg2)\<rparr>"
    "dr_accounts d' = accounts" "dr_blobs d' = blobs" "dr_objects d' = dr_objects d1"
    "updated = modified_columns env ctx (restored_columns env blob (fr_logical_size target) mime current)"
proof -
  obtain d1 current h blob mime accounts blobs lg1 lg2 r username ctx d2 where
    t: "enforce_file_mutation env file (submitted LC_None) d = Inr (d1, current)" "fm_blob_id current = fm_blob_id file"
    "history_of_file (fm_id file) (dr_ledger d1) = Some h" "load_revision_for_file (fm_id file) rid (dr_ledger d1) = Inr target"
    "fr_blob_id target = Some blob" "update_storage_used sc (fr_logical_size target) (dr_accounts d1) = Inr accounts"
    "increment_blob_ref_count (de_now env) blob (dr_blobs d1) = Inr blobs"
    "restore_user_properties (de_ledger env) (fm_id file) (fr_id target) (dr_ledger d1) = Inr lg1"
    "append_revision (de_ledger env) (fm_id file) (fh_current_revision_id h) (restore_input env sc username blob mime target) lg1 = Inr (lg2, r)"
    and d2: "d2 = set_file_row (fm_id current) (restored_columns env blob (fr_logical_size target) mime)
        (d1\<lparr>dr_accounts := accounts, dr_blobs := blobs, dr_ledger := lg2\<rparr>)"
    and fc: "file_changed env ctx current (restored_columns env blob (fr_logical_size target) mime current) ''file_version_restore'' d2
        = Inr (d', updated)"
    using assms
    by (auto simp: restore_transaction_def bind_result_Inr_iff Let_def split: if_splits)
  have lock: "append_locked (de_ledger env) (fm_id file) h (restore_input env sc username blob mime target) lg1 = Inr (lg2, r)"
    using append_revision_Inr [OF t(9)] restore_user_properties_files(4) [OF t(8)] t(3) by auto
  have id: "fm_id (restored_columns env blob (fr_logical_size target) mime f) = fm_id f" for f
    by (simp add: restored_columns_def Let_def)
  note F = file_changed_Inr [OF fc]
  show thesis
    by (rule that [OF t(1-8) lock]) (use F d2 update_rows_twice [OF id] in \<open>simp_all add: set_file_row_def id\<close>)
qed

lemma restore_transaction_keeps:
  assumes ok: "drive_ok d" "env_apart env d" and sc: "file_scope file = Some (resource_scope sc)"
    and t: "restore_transaction env sc file rid d = Inr (d', updated, target)"
  shows "drive_ok d'" "env_apart env d'"
    and "charges (dr_ledger d') = add_mset (Some (resource_scope sc), fr_blob_id target, fr_logical_size target) (charges (dr_ledger d))"
proof -
  obtain d1 current h blob mime accounts blobs lg1 lg2 r username ctx where
    T: "enforce_file_mutation env file (submitted LC_None) d = Inr (d1, current)" "fm_blob_id current = fm_blob_id file"
    "history_of_file (fm_id file) (dr_ledger d1) = Some h" "load_revision_for_file (fm_id file) rid (dr_ledger d1) = Inr target"
    "fr_blob_id target = Some blob" "update_storage_used sc (fr_logical_size target) (dr_accounts d1) = Inr accounts"
    "increment_blob_ref_count (de_now env) blob (dr_blobs d1) = Inr blobs"
    "restore_user_properties (de_ledger env) (fm_id file) (fr_id target) (dr_ledger d1) = Inr lg1"
    "append_locked (de_ledger env) (fm_id file) h (restore_input env sc username blob mime target) lg1 = Inr (lg2, r)"
    "dr_ledger d' = lg2\<lparr>lg_files := map (\<lambda>f. if fm_id f = fm_id current
        then modified_columns env ctx (restored_columns env blob (fr_logical_size target) mime f) else f) (lg_files lg2)\<rparr>"
    "dr_accounts d' = accounts" "dr_blobs d' = blobs" "dr_objects d' = dr_objects d1"
    by (rule restore_transaction_Inr [OF t])
  note D = drive_pendingD [OF ok(1) [unfolded drive_ok_def]]
  note E = enforce_file_mutation_Inr [OF T(1) D(2)]
  have s1: "dr_ledger d1 = dr_ledger d" "dr_accounts d1 = dr_accounts d" using same_booksD [OF E(4)] by simp_all
  note P = restore_user_properties_files [OF T(8), unfolded s1]
  let ?lg = "dr_ledger d"
  have h: "history_of_file (fm_id file) ?lg = Some h" using T(3) s1 by simp
  have tl: "target \<in> set (live_of (fh_id h) (lg_revisions ?lg))" using load_revision_Inr(1) [OF D(1) h] T(4) s1 by simp
  note L = live_charged [OF D(1) h E(1) tl T(5)]
  have nn: "0 \<le> fr_logical_size target" using D(3) [OF L(1)] by simp
  have lg1: "ledger_ok lg1" using restore_user_properties_keeps [OF D(1)] T(8) s1 by simp
  have f: "lg_files lg2 = lg_files lg1" using append_locked_Inr [OF T(9)] by auto
  have ch1: "0 \<le> snd (snd c)" if "c \<in># charges lg1" for c using D(3) that P(5) by simp
  have A: "ledger_ok (dr_ledger d')" "files_ok (dr_ledger d')"
    "charges (dr_ledger d') = add_mset (Some (resource_scope sc), Some blob, fr_logical_size target) (charges lg1)"
    "\<And>c. c \<in># charges (dr_ledger d') \<Longrightarrow> 0 \<le> snd (snd c)"
    using append_shown [of lg1 "fm_id file" h current "resource_scope sc" "de_ledger env" _ lg2 r
        "\<lambda>f. modified_columns env ctx (restored_columns env blob (fr_logical_size target) mime f)" "dr_ledger d'", OF lg1 _ ch1 _ _ _ T(9)]
      P(1,4,6) D(2) h E(1-3) sc nn restored_shows T(10) f
    by (simp_all add: restore_input_def)
  show C: "charges (dr_ledger d') = add_mset (Some (resource_scope sc), fr_blob_id target, fr_logical_size target) (charges ?lg)"
    using A(3) P(5) T(5) by simp
  have "blobs_ok (blob_charges (charges (dr_ledger d'))) (dr_blobs d') (dr_objects d')"
    using blobs_ok_increment [of "blob_charges (charges ?lg)" "dr_blobs d" "dr_objects d" blob "de_now env" blobs] D(4) L(2) T(7)
    by (simp add: C T(5,12,13) E(5,6))
  moreover have "accounts_exact (charges (dr_ledger d')) (dr_accounts d')"
  proof (rule accounts_exact_update [OF D(5)])
    show "update_storage_used_for_resource_scope (resource_scope sc) (fr_logical_size target) (dr_accounts d) = Inr (dr_accounts d')"
      using T(6,11) s1 by (simp add: update_storage_used_def)
    show "0 \<le> scope_usage (charges (dr_ledger d')) (resource_scope sc)" by (rule scope_usage_nonneg) (use A(4) in blast)
  qed (simp add: C)
  ultimately show "drive_ok d'" using A(1,2,4) unfolding drive_ok_def by (intro drive_pendingI) simp_all
  have "paths_within blobs (dr_blobs d)"
    using increment_InrD [OF T(7)] E(5) by (auto simp: paths_within_def increment_row_def)
  then show "env_apart env d'" using ok(2) derived_apart_mono by (fastforce simp: env_apart_def T(12))
qed

lemma restore_version_keeps:
  assumes "drive_ok d" "env_apart env d" "file_scope file = Some (resource_scope sc)"
  shows "drive_ok (fst (restore_version_inner env sc file rid d)) \<and> env_apart env (fst (restore_version_inner env sc file rid d))"
proof (cases "restore_transaction env sc file rid d")
  case (Inr t)
  obtain d1 updated target where t: "t = (d1, updated, target)" by (cases t)
  note K = restore_transaction_keeps [OF assms Inr [unfolded t]]
  note T = delete_thumbnail_keeps [OF K(1) [unfolded drive_ok_def] K(2)]
  show ?thesis using Inr t K(1,2) T
    by (auto simp: restore_version_inner_def Let_def drive_ok_def split: sum.splits)
qed (use assms in \<open>simp add: restore_version_inner_def\<close>)

end
