(* ===== verification/File_Purge.thy ===== *)
theory File_Purge
  imports Drive_Versions
begin

text \<open>
  Deleting files for good: \<open>src/src/services/files/file/deletion/purge.rs\<close>, with the statements it uses of
  \<open>src/src/db/repository/file_repo/trash.rs\<close>, \<open>src/src/db/repository/file_repo/query/basic.rs\<close> and
  \<open>src/src/db/repository/share_repo.rs\<close>, and that it keeps the drive's books.
\<close>

section \<open>Statements\<close>

definition find_by_ids :: "int list \<Rightarrow> ledger \<Rightarrow> file_model list" where
  "find_by_ids ids lg = (if ids = [] then [] else select_where (\<lambda>f. fm_id f \<in> set ids) (lg_files lg))"

definition delete_by_file_ids :: "int list \<Rightarrow> share_row list \<Rightarrow> share_row list \<times> nat" where
  "delete_by_file_ids ids t =
     (if ids = [] then (t, 0)
      else delete_where (\<lambda>s. case sh_file_id s of Some i \<Rightarrow> i \<in> set ids | None \<Rightarrow> False) t)"

definition file_delete_many :: "int list \<Rightarrow> ledger \<Rightarrow> ledger" where
  "file_delete_many ids lg =
     (if ids = [] then lg else lg\<lparr>lg_files := fst (delete_where (\<lambda>f. fm_id f \<in> set ids) (lg_files lg))\<rparr>)"

section \<open>Purging\<close>

fun check_all :: "('a \<Rightarrow> unit aster_result) \<Rightarrow> 'a list \<Rightarrow> unit aster_result" where
  "check_all p [] = Inr ()"
| "check_all p (x # xs) = bind_result (p x) (\<lambda>_. check_all p xs)"

record batch_purge_summary =
  ps_purged :: nat
  ps_file_ids :: "int list"
  ps_freed_bytes :: int

record purged_files =
  pf_summary :: batch_purge_summary
  pf_blob_ids :: "int list"
  pf_deleted_shares :: nat

definition no_purged_files :: purged_files where
  "no_purged_files = \<lparr>pf_summary = \<lparr>ps_purged = 0, ps_file_ids = [], ps_freed_bytes = 0\<rparr>, pf_blob_ids = [], pf_deleted_shares = 0\<rparr>"

text \<open>The \<open>BTreeMap\<close> of the decrements: blob ids in order, each with the number of its references.\<close>

definition blob_decrements :: "(int \<times> int) list \<Rightarrow> (int \<times> int) list" where
  "blob_decrements refs = map (\<lambda>b. (b, int (count_list (map fst refs) b))) (sorted_list_of_set (set (map fst refs)))"

fun sum_checked :: "aster_error \<Rightarrow> int \<Rightarrow> int list \<Rightarrow> int aster_result" where
  "sum_checked e acc [] = Inr acc"
| "sum_checked e acc (n # ns) = bind_result (ok_or e (checked_add_i64 acc n)) (\<lambda>acc'. sum_checked e acc' ns)"

definition freed_of_blob :: "(int \<times> int) list \<Rightarrow> int \<Rightarrow> int aster_result" where
  "freed_of_blob refs b =
     sum_checked (internal_error (''freed byte count overflow for blob '' @ int_to_string b @ '' during batch purge''))
       0 (map snd (filter (\<lambda>(x, n). x = b) refs))"

text \<open>
  The loop over the decrements; \<open>total_bytes\<close> and \<open>decs\<close> are its accumulators. The error of the range checks of
  the library is an argument.
\<close>

fun purge_totals ::
  "aster_error \<Rightarrow> (int \<times> int) list \<Rightarrow> (int \<Rightarrow> file_blob option) \<Rightarrow> int \<Rightarrow> (int \<times> int) list \<Rightarrow> (int \<times> int) list
   \<Rightarrow> (int \<times> (int \<times> int) list) aster_result" where
  "purge_totals range_error refs blobs total_bytes decs [] = Inr (total_bytes, decs)"
| "purge_totals range_error refs blobs total_bytes decs ((b, n) # rest) =
     (if blobs b \<noteq> None
      then bind_result (freed_of_blob refs b) (\<lambda>freed.
           bind_result (ok_or (internal_error ''total freed byte count overflow during batch purge'')
              (checked_add_i64 total_bytes freed)) (\<lambda>total'.
           bind_result (i64_to_i32 n range_error) (\<lambda>n'.
           purge_totals range_error refs blobs total' (decs @ [(b, n')]) rest)))
      else purge_totals range_error refs blobs total_bytes decs rest)"

definition u32_max :: nat where "u32_max = 4294967295"

definition purge_files_on ::
  "drive_env \<Rightarrow> aster_error \<Rightarrow> workspace_resource_scope \<Rightarrow> file_model list \<Rightarrow> drive \<Rightarrow> (drive \<times> purged_files) aster_result" where
  "purge_files_on env range_error sc files d =
     (if files = [] then Inr (d, no_purged_files)
      else
      bind_result (check_all (\<lambda>f. ensure_file_resource_scope f sc) files) (\<lambda>_.
      let trash_ids = fm_id ` set (filter (\<lambda>f. fm_deleted_at f \<noteq> None) files);
          current = filter (\<lambda>f. fm_id f \<notin> trash_ids \<or> fm_deleted_at f \<noteq> None) (find_by_ids (map fm_id files) (dr_ledger d)) in
      bind_result (check_all (\<lambda>f. ensure_file_resource_scope f sc) current) (\<lambda>_.
      let file_ids = map fm_id current in
      if u32_max < length current then Inl range_error
      else
      bind_result (lock_storage_usage_for_resource_scope sc (dr_accounts d)) (\<lambda>_.
      let (lg1, refs) = retire_histories (de_now env) file_ids (dr_ledger d);
          lg2 = lg1\<lparr>lg_properties := delete_all_for_entities ET_File file_ids (lg_properties lg1)\<rparr>;
          (shares, deleted) = delete_by_file_ids file_ids (dr_shares d);
          lg3 = file_delete_many file_ids lg2;
          decrements = blob_decrements refs;
          blob_ids = map fst decrements in
      bind_result (purge_totals range_error refs (find_blobs_by_ids blob_ids (dr_blobs d)) 0 [] decrements) (\<lambda>(freed, decs).
      bind_result (decrement_blob_ref_counts_by (de_now env) decs (dr_blobs d)) (\<lambda>blobs.
      bind_result (update_storage_used_for_resource_scope sc (- freed) (dr_accounts d)) (\<lambda>accounts.
      Inr (d\<lparr>dr_ledger := lg3, dr_shares := shares, dr_blobs := blobs, dr_accounts := accounts\<rparr>,
           \<lparr>pf_summary = \<lparr>ps_purged = length current, ps_file_ids = file_ids, ps_freed_bytes = freed\<rparr>,
            pf_blob_ids = blob_ids, pf_deleted_shares = deleted\<rparr>))))))))"

text \<open>
  After the commit. The blobs are handled concurrently in the code; each handler works on its own blob, and
  \<open>Blob_Cleanup\<close> covers their interleavings, so here they run one after another. Cache invalidation is not
  modelled.
\<close>

fun cleanup_blobs :: "drive_env \<Rightarrow> nat \<Rightarrow> int list \<Rightarrow> drive \<Rightarrow> drive" where
  "cleanup_blobs env k [] d = d"
| "cleanup_blobs env k (b # bs) d = cleanup_blobs env (Suc k) bs (cleanup_blob_if_unreferenced env k b d)"

definition finish_purged_files :: "drive_env \<Rightarrow> purged_files \<Rightarrow> drive \<Rightarrow> drive \<times> batch_purge_summary" where
  "finish_purged_files env p d = (cleanup_blobs env 0 (pf_blob_ids p) d, pf_summary p)"

definition scope_workspace :: "workspace_resource_scope \<Rightarrow> lock_workspace" where
  "scope_workspace sc = (case sc of RS_Personal u \<Rightarrow> LW_Personal u | RS_Team t \<Rightarrow> LW_Team t)"

definition enforce_guard :: "drive_env \<Rightarrow> purge_guard \<Rightarrow> workspace_resource_scope \<Rightarrow> drive \<Rightarrow> drive aster_result" where
  "enforce_guard env g sc d =
     bind_result (enforce_purge_guard (de_now env) (de_locks env) g (scope_workspace sc) (dr_tasks d)) (\<lambda>w.
     Inr (d\<lparr>dr_tasks := w\<rparr>))"

definition batch_purge_internal ::
  "drive_env \<Rightarrow> aster_error \<Rightarrow> workspace_resource_scope \<Rightarrow> file_model list \<Rightarrow> bool \<Rightarrow> purge_guard \<Rightarrow> drive
   \<Rightarrow> drive \<times> batch_purge_summary aster_result" where
  "batch_purge_internal env range_error sc files emit_event g d =
     (if files = [] then (d, Inr (pf_summary no_purged_files))
      else
        case bind_result (enforce_guard env g sc d) (purge_files_on env range_error sc files) of
          Inl e \<Rightarrow> (d, Inl e)
        | Inr (d1, p) \<Rightarrow>
            let d2 = (if emit_event \<and> ps_purged (pf_summary p) > 0
                      then publish_event (with_storage_delta (- ps_freed_bytes (pf_summary p))
                             (event_for_resource_scope (de_now env) FilePurged sc (ps_file_ids (pf_summary p)) []
                                (map fm_folder_id files))) d1
                      else d1);
                (d3, summary) = finish_purged_files env p d2
            in (d3, Inr summary))"

definition purge_in_scope ::
  "drive_env \<Rightarrow> aster_error \<Rightarrow> workspace_storage_scope \<Rightarrow> int \<Rightarrow> drive \<Rightarrow> drive \<times> unit aster_result" where
  "purge_in_scope env range_error sc i d =
     (case bind_result (require_scope_access_with_db sc d) (\<lambda>_.
             bind_result (file_by_id i (dr_ledger d)) (\<lambda>f.
             bind_result (ensure_file_scope f sc) (\<lambda>_. Inr f))) of
        Inl e \<Rightarrow> (d, Inl e)
      | Inr f \<Rightarrow>
          (case batch_purge_internal env range_error (resource_scope sc) [f] True PG_Mutation d of
             (d1, Inl e) \<Rightarrow> (d1, Inl e) | (d1, Inr _) \<Rightarrow> (d1, Inr ())))"

section \<open>Purging keeps the books\<close>

lemma check_all_Inr [simp]: "check_all p xs = Inr u \<longleftrightarrow> (\<forall>x \<in> set xs. p x = Inr ())"
  by (induction xs) (auto simp: bind_result_Inr_iff)

lemma sum_checked_Inr: "sum_checked e acc ns = Inr n \<Longrightarrow> n = acc + sum_list ns"
proof (induction ns arbitrary: acc)
  case (Cons a ns)
  then have "sum_checked e (acc + a) ns = Inr n" by (auto simp: bind_result_Inr_iff)
  then show ?case using Cons.IH by fastforce
qed simp

lemma purge_totals_Inr:
  assumes "purge_totals e refs blobs acc decs ds = Inr (freed, decs')" "\<forall>p \<in> set ds. blobs (fst p) \<noteq> None"
  shows "decs' = decs @ ds \<and> freed = acc + sum_list (map (\<lambda>p. sum_list (map snd (filter (\<lambda>(x, n). x = fst p) refs))) ds)
    \<and> (\<forall>p \<in> set ds. snd p \<le> i32_max)"
  using assms
proof (induction e refs blobs acc decs ds rule: purge_totals.induct)
  case (2 e refs blobs acc decs b n rest)
  from "2.prems" obtain f t n' where s: "blobs b \<noteq> None" "freed_of_blob refs b = Inr f" "checked_add_i64 acc f = Some t" "i64_to_i32 n e = Inr n'"
      "purge_totals e refs blobs t (decs @ [(b, n')]) rest = Inr (freed, decs')"
    by (auto simp: bind_result_Inr_iff simp del: checked_add_i64_Some split: if_splits)
  have "f = sum_list (map snd (filter (\<lambda>(x, n). x = b) refs))" using s(2) sum_checked_Inr by (fastforce simp: freed_of_blob_def)
  moreover have "n' = n" "n \<le> i32_max" using s(4) by (auto simp: i64_to_i32_def split: if_splits)
  ultimately show ?case using "2.IH"(1) [OF s(1) s(5)] s(3) "2.prems"(2) by auto
qed auto

lemma sum_by_key:
  fixes refs :: "(int \<times> int) list"
  assumes "distinct bs" "set (map fst refs) \<subseteq> set bs"
  shows "sum_list (map (\<lambda>b. sum_list (map snd (filter (\<lambda>(x, n). x = b) refs))) bs) = sum_list (map snd refs)"
  using assms(2)
proof (induction refs)
  case (Cons p refs)
  obtain x n where p: "p = (x, n)" by (cases p)
  let ?g = "\<lambda>refs b. sum_list (map snd (filter (\<lambda>(x, n). x = b) refs))"
  have "sum_list (map (?g (p # refs)) bs) = (\<Sum>b \<in> set bs. (if b = x then n else 0) + ?g refs b)"
    unfolding sum_list_distinct_conv_sum_set [OF assms(1)] by (rule sum.cong) (auto simp: p)
  also have "\<dots> = n + (\<Sum>b \<in> set bs. ?g refs b)" using Cons.prems by (simp add: sum.distrib sum.delta p)
  also have "(\<Sum>b \<in> set bs. ?g refs b) = sum_list (map snd refs)"
    using Cons unfolding sum_list_distinct_conv_sum_set [OF assms(1)] by simp
  finally show ?case by (simp add: p)
qed (simp add: sum_list_triv)

lemma delta_sum_decrements: "delta_sum (blob_decrements refs) b = int (count_list (map fst refs) b)"
proof -
  have "delta_sum (map (\<lambda>b. (b, f b)) bs) b = (if b \<in> set bs then f b else 0)" if "distinct bs" for bs and f :: "int \<Rightarrow> int"
    using that by (induction bs) auto
  then show ?thesis by (simp add: blob_decrements_def count_list_0_iff)
qed

text \<open>The ledger after a purge.\<close>

definition purged_ledger :: "time \<Rightarrow> int list \<Rightarrow> ledger \<Rightarrow> ledger" where
  "purged_ledger now ids lg =
     (let lg1 = fst (retire_histories now ids lg)
      in file_delete_many ids (lg1\<lparr>lg_properties := delete_all_for_entities ET_File ids (lg_properties lg1)\<rparr>))"

definition hit_histories :: "int list \<Rightarrow> ledger \<Rightarrow> int set" where
  "hit_histories ids lg = fh_id ` {h \<in> set (lg_histories lg). fh_file_id h \<in> Some ` set ids}"

definition hit_rows :: "int list \<Rightarrow> ledger \<Rightarrow> file_revision list" where
  "hit_rows ids lg = filter (\<lambda>r. fr_history_id r \<in> hit_histories ids lg) (live_rows lg)"

lemma purged_ledger_tables:
  "lg_revisions (purged_ledger now ids lg) =
     map (\<lambda>r. if fr_history_id r \<in> hit_histories ids lg \<and> fr_retired_at r = None then retired_row now r else r) (lg_revisions lg)"
  "lg_histories (purged_ledger now ids lg) =
     map (\<lambda>h. if fh_id h \<in> hit_histories ids lg then retired_history now h else h) (lg_histories lg)"
  "lg_files (purged_ledger now ids lg) = filter (\<lambda>f. fm_id f \<notin> set ids) (lg_files lg)"
  "lg_snapshots (purged_ledger now ids lg) = lg_snapshots lg"
  by (auto simp: purged_ledger_def retire_histories_def file_delete_many_def Let_def select_where_def update_where_def
      hit_histories_def retired_row_def retired_history_def)

lemma purged_ledger_ok: "ledger_ok lg \<Longrightarrow> ledger_ok (purged_ledger now ids lg)"
proof -
  assume ok: "ledger_ok lg"
  let ?lg1 = "fst (retire_histories now ids lg)"
  have ok1: "ledger_ok ?lg1" by (rule retire_histories_keeps [OF ok])
  then have "ledger_ok (?lg1\<lparr>lg_properties := delete_all_for_entities ET_File ids (lg_properties ?lg1)\<rparr>)"
    using ledger_okD [OF ok1]
    by (intro ledger_ok_updateI [OF ok1, where f = id]) (auto simp: snapshots_ok_def delete_all_for_entities_def property_constraints_filter)
  then show ?thesis by (cases "ids = []") (simp_all add: purged_ledger_def Let_def file_delete_many_def)
qed

lemma retire_refs:
  assumes "ledger_ok lg"
  shows "snd (retire_histories now ids lg) = map (\<lambda>r. (the (fr_blob_id r), fr_logical_size r)) (hit_rows ids lg)"
proof (cases "ids = []")
  case False
  have b: "fr_blob_id r \<noteq> None \<longleftrightarrow> fr_retired_at r = None" if "r \<in> set (lg_revisions lg)" for r
    using ledger_okD(8) [OF assms that] by (auto simp: revision_ok_def)
  have mf: "List.map_filter (\<lambda>r. map_option (\<lambda>b. (b, fr_logical_size r)) (fr_blob_id r)) rs
      = map (\<lambda>r. (the (fr_blob_id r), fr_logical_size r)) rs" if "\<forall>r \<in> set rs. fr_blob_id r \<noteq> None" for rs
    using that by (induction rs) (auto simp: List.map_filter_simps split: option.splits)
  have "filter (\<lambda>r. fr_history_id r \<in> hit_histories ids lg \<and> fr_blob_id r \<noteq> None \<and> fr_retired_at r = None) (lg_revisions lg) = hit_rows ids lg"
    unfolding hit_rows_def live_rows_def filter_filter using b by (intro filter_cong) auto
  moreover have "\<forall>r \<in> set (hit_rows ids lg). fr_blob_id r \<noteq> None" using b by (auto simp: hit_rows_def live_rows_def)
  ultimately show ?thesis using False mf
    by (simp add: retire_histories_def Let_def select_where_def hit_histories_def image_Collect [symmetric])
qed (simp add: retire_histories_def hit_rows_def hit_histories_def)

lemma hit_iff:
  assumes "ledger_ok lg" "h \<in> set (lg_histories lg)"
  shows "fh_id h \<in> hit_histories ids lg \<longleftrightarrow> fh_file_id h \<in> Some ` set ids"
  unfolding hit_histories_def by (rule history_file_unique_ids [OF ledger_okD(1) [OF assms(1)] assms(2)])

lemma purged_scope:
  assumes ok: "ledger_ok lg" and r: "r \<in> set (lg_revisions lg)" "fr_history_id r \<notin> hit_histories ids lg"
  shows "history_scope (purged_ledger now ids lg) (fr_history_id r) = history_scope lg (fr_history_id r)"
proof -
  obtain h where h: "h \<in> set (lg_histories lg)" "fh_id h = fr_history_id r" using ledger_okD(7) [OF ok r(1)] by auto
  note u = ledger_okD(6) [OF ok]
  have k: "find_key fh_id (fr_history_id r) (lg_histories lg) = Some h" using h find_key_Some_iff [OF u] by simp
  have "fh_id h \<notin> hit_histories ids lg" using h(2) r(2) by simp
  then have n: "fh_file_id h \<notin> Some ` set ids" using hit_iff [OF ok h(1)] by simp
  have "find_key fh_id (fr_history_id r) (lg_histories (purged_ledger now ids lg)) = Some h"
    unfolding purged_ledger_tables(2) k [symmetric] find_key_def
    by (rule find_map_same) (use r(2) in \<open>auto simp: retired_history_def\<close>)
  moreover have "find_key fm_id i (filter (\<lambda>f. fm_id f \<notin> set ids) (lg_files lg)) = find_key fm_id i (lg_files lg)" if "i \<notin> set ids" for i
  proof -
    have "find_key fm_id i (filter (\<lambda>f. fm_id f \<notin> set ids) fs) = find_key fm_id i fs" for fs
      using that by (induction fs) (auto simp: find_key_def)
    then show ?thesis .
  qed
  moreover have "i \<notin> set ids" if "fh_file_id h = Some i" for i using n that by auto
  ultimately show ?thesis using k by (cases "fh_file_id h") (auto simp: history_scope_def purged_ledger_tables(3))
qed

lemma purged_charges:
  assumes "ledger_ok lg"
  shows "charges lg = charges (purged_ledger now ids lg) + mset (map (charge_of lg) (hit_rows ids lg))"
proof -
  let ?lg' = "purged_ledger now ids lg" and ?hit = "\<lambda>r. fr_history_id r \<in> hit_histories ids lg"
  let ?F = "\<lambda>r. if ?hit r \<and> fr_retired_at r = None then retired_row now r else r"
  have "filter (\<lambda>r. fr_retired_at r = None) (map ?F rs) = filter (\<lambda>r. \<not> ?hit r) (filter (\<lambda>r. fr_retired_at r = None) rs)" for rs
    by (induction rs) (auto simp: retired_row_def)
  then have l: "live_rows ?lg' = filter (\<lambda>r. \<not> ?hit r) (live_rows lg)" by (simp add: live_rows_def purged_ledger_tables(1))
  have "charge_of ?lg' r = charge_of lg r" if "r \<in> set (live_rows ?lg')" for r
    using that purged_scope [OF assms, of r ids now] by (simp add: l charge_of_def) (simp add: live_rows_def)
  then have c: "charges ?lg' = mset (map (charge_of lg) (filter (\<lambda>r. \<not> ?hit r) (live_rows lg)))"
    unfolding charges_def l [symmetric] by (intro arg_cong [of _ _ mset] map_cong) auto
  have "mset (map (charge_of lg) rs) = mset (map (charge_of lg) (filter (\<lambda>r. \<not> ?hit r) rs)) + mset (map (charge_of lg) (filter ?hit rs))" for rs
    by (induction rs) auto
  then show ?thesis unfolding c hit_rows_def unfolding charges_def by blast
qed

lemma purged_files:
  assumes ok: "ledger_ok lg" "files_ok lg"
  shows "files_ok (purged_ledger now ids lg)"
proof -
  let ?lg' = "purged_ledger now ids lg"
  have "shows_current ?lg' f" if f: "f \<in> set (lg_files lg)" "fm_id f \<notin> set ids" for f
  proof -
    obtain x where x: "find_current_by_file_id (fm_id f) lg = Inr x" "fr_blob_id x = Some (fm_blob_id f)" "fr_logical_size x = fm_size f"
      using ok(2) f(1) by (auto simp: files_ok_def shows_current_iff)
    then obtain g c where g: "history_of_file (fm_id f) lg = Some g" "fh_current_revision_id g = Some c" "revision_by_id c lg = Some x"
        "fr_history_id x = fh_id g" "fr_retired_at x = None" by (auto simp: find_current_Inr)
    have gh: "g \<in> set (lg_histories lg)" "fh_file_id g = Some (fm_id f)" using history_of_file_SomeD [OF g(1)] by auto
    have xr: "x \<in> set (lg_revisions lg)" "fr_id x = c" using g(3) find_key_SomeD by (fastforce simp: revision_by_id_def)+
    have nh: "fh_id g \<notin> hit_histories ids lg" using hit_iff [OF ok(1) gh(1)] gh(2) f(2) by auto
    have c': "history_constraints (lg_histories ?lg')" by (rule ledger_okD(1) [OF purged_ledger_ok [OF ok(1)]])
    have "g \<in> set (lg_histories ?lg')" unfolding purged_ledger_tables(2) set_map using gh(1) nh by (intro image_eqI [of _ _ g]) auto
    then have h': "history_of_file (fm_id f) ?lg' = Some g" unfolding history_of_file_iff [OF c'] using gh by simp
    have "x \<in> set (lg_revisions ?lg')" unfolding purged_ledger_tables(1) set_map using xr(1) nh g(4) by (intro image_eqI [of _ _ x]) auto
    then have "revision_by_id c ?lg' = Some x"
      unfolding revision_by_id_def find_key_Some_iff [OF ledger_okD(5) [OF purged_ledger_ok [OF ok(1)]]] using xr(2) by simp
    then have "find_current_by_file_id (fm_id f) ?lg' = Inr x" using h' g by (auto simp: find_current_Inr)
    then show ?thesis using x(2,3) by (simp add: shows_current_iff)
  qed
  moreover have "set_option (fh_file_id h) \<subseteq> fm_id ` set (lg_files ?lg')" if hm: "h \<in> set (lg_histories ?lg')" for h
  proof -
    obtain h0 where h0: "h0 \<in> set (lg_histories lg)" "h = (if fh_id h0 \<in> hit_histories ids lg then retired_history now h0 else h0)"
      using hm unfolding purged_ledger_tables(2) set_map by (elim imageE) blast
    have "set_option (fh_file_id h0) \<subseteq> fm_id ` set (lg_files lg)" using ok(2) h0(1) by (simp add: files_ok_def)
    then show ?thesis using h0 hit_iff [OF ok(1) h0(1), of ids]
      by (auto simp: purged_ledger_tables(3) retired_history_def split: if_splits)
  qed
  moreover have "unique_key fm_id (lg_files ?lg')"
    using ok(2) by (simp add: files_ok_def purged_ledger_tables(3) unique_key_def distinct_map_filter)
  ultimately show ?thesis using ok(2) unfolding files_ok_def by (auto simp: purged_ledger_tables(3))
qed

definition purge_targets :: "file_model list \<Rightarrow> ledger \<Rightarrow> file_model list" where
  "purge_targets files lg =
     filter (\<lambda>f. fm_id f \<notin> fm_id ` set (filter (\<lambda>f. fm_deleted_at f \<noteq> None) files) \<or> fm_deleted_at f \<noteq> None)
       (find_by_ids (map fm_id files) lg)"

text \<open>What a purge that commits has done.\<close>

lemma purge_files_on_Inr:
  assumes "purge_files_on env e sc files d = Inr (d', p)" "files \<noteq> []"
  obtains current ids refs freed decs where
    "current = purge_targets files (dr_ledger d)" "ids = map fm_id current" "refs = snd (retire_histories (de_now env) ids (dr_ledger d))"
    "\<forall>f \<in> set current. file_scope f = Some sc"
    "purge_totals e refs (find_blobs_by_ids (map fst (blob_decrements refs)) (dr_blobs d)) 0 [] (blob_decrements refs) = Inr (freed, decs)"
    "dr_ledger d' = purged_ledger (de_now env) ids (dr_ledger d)"
    "decrement_blob_ref_counts_by (de_now env) decs (dr_blobs d) = Inr (dr_blobs d')"
    "update_storage_used_for_resource_scope sc (- freed) (dr_accounts d) = Inr (dr_accounts d')" "dr_objects d' = dr_objects d"
    "pf_summary p = \<lparr>ps_purged = length current, ps_file_ids = ids, ps_freed_bytes = freed\<rparr>" "pf_blob_ids p = map fst (blob_decrements refs)"
    "dr_shares d' = fst (delete_by_file_ids ids (dr_shares d))"
proof -
  let ?current = "purge_targets files (dr_ledger d)"
  let ?ids = "map fm_id ?current"
  let ?refs = "snd (retire_histories (de_now env) ?ids (dr_ledger d))"
  obtain freed decs where s:
    "\<forall>f \<in> set ?current. ensure_file_resource_scope f sc = Inr ()"
    "purge_totals e ?refs (find_blobs_by_ids (map fst (blob_decrements ?refs)) (dr_blobs d)) 0 [] (blob_decrements ?refs) = Inr (freed, decs)"
    "decrement_blob_ref_counts_by (de_now env) decs (dr_blobs d) = Inr (dr_blobs d')"
    "update_storage_used_for_resource_scope sc (- freed) (dr_accounts d) = Inr (dr_accounts d')"
    "dr_ledger d' = purged_ledger (de_now env) ?ids (dr_ledger d)" "dr_objects d' = dr_objects d"
    "pf_summary p = \<lparr>ps_purged = length ?current, ps_file_ids = ?ids, ps_freed_bytes = freed\<rparr>" "pf_blob_ids p = map fst (blob_decrements ?refs)"
    "dr_shares d' = fst (delete_by_file_ids ?ids (dr_shares d))"
    using assms
    by (auto simp: purge_files_on_def purge_targets_def bind_result_Inr_iff Let_def case_prod_beta purged_ledger_def split: if_splits)
  then show thesis using that [of ?current ?ids ?refs freed decs] scope_checks(1) by blast
qed

lemma hit_rows_facts:
  assumes ok: "ledger_ok lg" "files_ok lg" and c: "\<forall>f \<in> set current. f \<in> set (lg_files lg) \<and> file_scope f = Some sc"
    and r: "r \<in> set (hit_rows (map fm_id current) lg)"
  shows "charge_of lg r = (Some sc, Some (the (fr_blob_id r)), fr_logical_size r)" "charge_of lg r \<in># charges lg"
proof -
  have rr: "r \<in> set (lg_revisions lg)" "fr_retired_at r = None" "fr_history_id r \<in> hit_histories (map fm_id current) lg"
    using r by (simp_all add: hit_rows_def live_rows_def)
  obtain h f where h: "h \<in> set (lg_histories lg)" "fh_id h = fr_history_id r" "f \<in> set current" "fh_file_id h = Some (fm_id f)"
    using rr(3) by (auto simp: hit_histories_def)
  have "find_key fm_id (fm_id f) (lg_files lg) = Some f" using c h(3) file_row [OF ok(2)] by simp
  moreover have "history_of_file (fm_id f) lg = Some h" unfolding history_of_file_iff [OF ledger_okD(1) [OF ok(1)]] using h by simp
  ultimately have "history_scope lg (fr_history_id r) = Some sc" using history_scope_of_file [OF ok(1)] c h(2,3) by metis
  moreover have "fr_blob_id r \<noteq> None" using ledger_okD(8) [OF ok(1) rr(1)] rr(2) by (auto simp: revision_ok_def)
  ultimately show "charge_of lg r = (Some sc, Some (the (fr_blob_id r)), fr_logical_size r)" by (auto simp: charge_of_def)
  show "charge_of lg r \<in># charges lg" using rr by (auto simp: charges_def live_rows_def)
qed

lemma uniform_charges:
  assumes "\<forall>r \<in> set rs. charge_of lg r = (Some sc, Some (the (fr_blob_id r)), fr_logical_size r)"
  shows "blob_charges (mset (map (charge_of lg) rs)) = mset (map (\<lambda>r. the (fr_blob_id r)) rs)"
    and "scope_usage (mset (map (charge_of lg) rs)) s = (if s = sc then sum_list (map fr_logical_size rs) else 0)"
  using assms by (induction rs) auto

lemma purge_files_on_keeps:
  assumes ok: "drive_ok d" "env_apart env d" and p: "purge_files_on env e sc files d = Inr (d', p)"
  shows "drive_ok d'" "env_apart env d'"
    and "files \<noteq> [] \<Longrightarrow> scope_usage (charges (dr_ledger d')) s = scope_usage (charges (dr_ledger d)) s - (if s = sc then ps_freed_bytes (pf_summary p) else 0)"
proof -
  have "drive_ok d' \<and> env_apart env d' \<and> (files \<noteq> [] \<longrightarrow> scope_usage (charges (dr_ledger d')) s
      = scope_usage (charges (dr_ledger d)) s - (if s = sc then ps_freed_bytes (pf_summary p) else 0))"
  proof (cases "files = []")
    case False
    obtain current ids refs freed decs where P:
      "current = purge_targets files (dr_ledger d)" "ids = map fm_id current" "refs = snd (retire_histories (de_now env) ids (dr_ledger d))"
      "\<forall>f \<in> set current. file_scope f = Some sc"
      "purge_totals e refs (find_blobs_by_ids (map fst (blob_decrements refs)) (dr_blobs d)) 0 [] (blob_decrements refs) = Inr (freed, decs)"
      "dr_ledger d' = purged_ledger (de_now env) ids (dr_ledger d)"
      "decrement_blob_ref_counts_by (de_now env) decs (dr_blobs d) = Inr (dr_blobs d')"
      "update_storage_used_for_resource_scope sc (- freed) (dr_accounts d) = Inr (dr_accounts d')" "dr_objects d' = dr_objects d"
      "pf_summary p = \<lparr>ps_purged = length current, ps_file_ids = ids, ps_freed_bytes = freed\<rparr>"
      by (rule purge_files_on_Inr [OF p False])
    note D = drive_pendingD [OF ok(1) [unfolded drive_ok_def]]
    let ?lg = "dr_ledger d" and ?rs = "hit_rows ids (dr_ledger d)"
    have cur: "\<forall>f \<in> set current. f \<in> set (lg_files ?lg) \<and> file_scope f = Some sc"
      using P(4) by (auto simp: P(1) purge_targets_def find_by_ids_def select_where_def split: if_splits)
    have facts: "charge_of ?lg r = (Some sc, Some (the (fr_blob_id r)), fr_logical_size r)" "charge_of ?lg r \<in># charges ?lg" if "r \<in> set ?rs" for r
      using hit_rows_facts [OF D(1,2) cur] that by (auto simp: P(2))
    have refs: "refs = map (\<lambda>r. (the (fr_blob_id r), fr_logical_size r)) ?rs" unfolding P(3) by (rule retire_refs [OF D(1)])
    note U = uniform_charges [of ?rs ?lg sc] and C = purged_charges [OF D(1), of "de_now env" ids]
    have bU: "blob_charges (mset (map (charge_of ?lg) ?rs)) = mset (map fst refs)" using U(1) facts(1) by (simp add: refs comp_def)
    have sU: "scope_usage (mset (map (charge_of ?lg) ?rs)) s = (if s = sc then sum_list (map snd refs) else 0)" for s
      using U(2) [of s] facts(1) by (simp add: refs comp_def)
    have "find_blobs_by_ids (map fst (blob_decrements refs)) (dr_blobs d) b \<noteq> None" if b: "b \<in> fst ` set (blob_decrements refs)" for b
    proof -
      have "b \<in> set (map fst refs)" using b by (force simp: blob_decrements_def)
      then have "b \<in># blob_charges (mset (map (charge_of ?lg) ?rs))" unfolding bU by simp
      then have "b \<in># blob_charges (charges ?lg)" unfolding C blob_charges_simps by simp
      then show ?thesis using blobs_ok_table(2) [OF D(4), of b] b by (auto simp: find_blobs_by_ids_def)
    qed
    then have T: "decs = blob_decrements refs" "freed = sum_list (map (\<lambda>p. sum_list (map snd (filter (\<lambda>(x, n). x = fst p) refs))) (blob_decrements refs))"
      using purge_totals_Inr [OF P(5)] by auto
    have freed: "freed = sum_list (map snd refs)"
      using sum_by_key [of "sorted_list_of_set (set (map fst refs))" refs] by (simp add: T(2) blob_decrements_def comp_def)
    obtain m where m: "normalize_blob_ref_count_deltas decs ''decrement_blob_ref_counts_by'' = Inr m"
      using P(7) by (auto simp: decrement_blob_ref_counts_by_def bind_result_Inr_iff)
    have blobs: "dr_blobs d' = map (\<lambda>b. drain (de_now env) (int (count (mset (map fst refs)) (fb_id b))) b) (dr_blobs d)"
      using batched_decrement_rows [OF m, of "de_now env" "dr_blobs d"] P(7)
      by (simp add: T(1) delta_sum_decrements count_mset del: mset_map)
    have bk: "blobs_ok (blob_charges (charges (dr_ledger d'))) (dr_blobs d') (dr_objects d')"
    proof -
      have "blob_charges (charges ?lg) = blob_charges (charges (dr_ledger d')) + mset (map fst refs)"
        unfolding P(6) bU [symmetric] blob_charges_simps(3) [symmetric] C [symmetric] ..
      then show ?thesis unfolding blobs P(9) using D(4) by (intro blobs_ok_drain) (simp del: mset_map)
    qed
    have u: "scope_usage (charges (dr_ledger d')) s = scope_usage (charges ?lg) s - (if s = sc then freed else 0)" for s
      using sU [of s] arg_cong [OF C, of "\<lambda>M. scope_usage M s"] by (simp add: P(6) freed del: mset_map)
    have pos: "0 \<le> snd (snd c)" if "c \<in># charges (dr_ledger d')" for c
      using D(3) [of c] that C by (metis P(6) union_iff)
    have "0 \<le> scope_usage (charges (dr_ledger d')) sc" by (rule scope_usage_nonneg) (use pos in blast)
    then have "accounts_exact (charges (dr_ledger d')) (dr_accounts d')"
      by (intro accounts_exact_update [OF D(5) P(8)]) (simp_all add: u)
    moreover have "files_ok (dr_ledger d')" "ledger_ok (dr_ledger d')"
      using purged_files [OF D(1,2)] purged_ledger_ok [OF D(1)] by (simp_all add: P(6))
    ultimately have "drive_ok d'" using bk pos unfolding drive_ok_def by (intro drive_pendingI) simp_all
    moreover have "paths_within (dr_blobs d') (dr_blobs d)" unfolding blobs by (rule paths_within_map) (simp add: drain_def set_count_row_def)
    ultimately show ?thesis using u [of s] derived_apart_mono ok(2) by (fastforce simp: P(10) env_apart_def)
  qed (use p ok in \<open>simp add: purge_files_on_def\<close>)
  then show "drive_ok d'" "env_apart env d'"
    "files \<noteq> [] \<Longrightarrow> scope_usage (charges (dr_ledger d')) s = scope_usage (charges (dr_ledger d)) s - (if s = sc then ps_freed_bytes (pf_summary p) else 0)"
    by blast+
qed

lemma cleanup_blobs_keeps:
  assumes "drive_ok d" "env_apart env d"
  shows "drive_ok (cleanup_blobs env k bs d) \<and> env_apart env (cleanup_blobs env k bs d) \<and> same_books (cleanup_blobs env k bs d) d"
  using assms
proof (induction bs arbitrary: k d)
  case (Cons b bs)
  note K = cleanup_blob_keeps [OF Cons.prems(1) [unfolded drive_ok_def] Cons.prems(2), of k b]
  then show ?case using Cons.IH [of "cleanup_blob_if_unreferenced env k b d" "Suc k"] by (auto simp: drive_ok_def same_books_def)
qed (simp add: same_books_def)

lemma batch_purge_keeps:
  assumes "drive_ok d" "env_apart env d"
  shows "drive_ok (fst (batch_purge_internal env e sc files emit g d)) \<and> env_apart env (fst (batch_purge_internal env e sc files emit g d))"
proof -
  have g: "drive_ok d0 \<and> env_apart env d0" if "enforce_guard env g sc d = Inr d0" for d0
    using that assms by (auto simp: enforce_guard_def bind_result_Inr_iff drive_ok_def drive_pending_def env_apart_def)
  show ?thesis
  proof (cases "files = [] \<or> (\<exists>x. bind_result (enforce_guard env g sc d) (purge_files_on env e sc files) = Inl x)")
    case True
    then show ?thesis using assms by (auto simp: batch_purge_internal_def)
  next
    case False
    then obtain d1 p where b: "bind_result (enforce_guard env g sc d) (purge_files_on env e sc files) = Inr (d1, p)" "files \<noteq> []"
      by (metis old.sum.exhaust surj_pair)
    then obtain d0 where "enforce_guard env g sc d = Inr d0" "purge_files_on env e sc files d0 = Inr (d1, p)"
      by (auto simp: bind_result_Inr_iff)
    then have k: "drive_ok d1" "env_apart env d1" using purge_files_on_keeps(1,2) g by blast+
    let ?d2 = "if emit \<and> ps_purged (pf_summary p) > 0 then publish_event (with_storage_delta (- ps_freed_bytes (pf_summary p))
        (event_for_resource_scope (de_now env) FilePurged sc (ps_file_ids (pf_summary p)) [] (map fm_folder_id files))) d1 else d1"
    have "fst (batch_purge_internal env e sc files emit g d) = cleanup_blobs env 0 (pf_blob_ids p) ?d2"
      using b by (simp add: batch_purge_internal_def finish_purged_files_def Let_def)
    moreover have "drive_ok ?d2" "env_apart env ?d2" using k by simp_all
    ultimately show ?thesis using cleanup_blobs_keeps by presburger
  qed
qed

end
