(* ===== verification/File_Table.thy ===== *)
theory File_Table
  imports File_Purge
begin

text \<open>
  The table of files: \<open>src/src/db/repository/file_repo/\<close> (\<open>common.rs\<close>, \<open>mutation.rs\<close>, \<open>trash.rs\<close>,
  \<open>query/basic.rs\<close>, \<open>query/cursor.rs\<close>) and the attribution columns of
  \<open>src/crates/aster_drive_model/src/entities/file.rs\<close>.

  A statement that violates a unique key is \<open>None\<close>; the callers turn it into their error. Text is compared by
  bytes. The locale \<open>keyset\<close> is what a client of a paged query relies on: the cursor of a row selects the rows
  after it, so a client that walks from page to page sees every row once.
\<close>

type_synonym file_table = "file_model list"

section \<open>Unique keys and their errors\<close>

definition quoted :: "string \<Rightarrow> string" where
  "quoted s = CHR 0x27 # s @ [CHR 0x27]"

definition duplicate_name_message :: "string \<Rightarrow> string" where
  "duplicate_name_message name = ''file '' @ quoted name @ '' already exists in this folder''"

definition duplicate_name_error :: "string \<Rightarrow> aster_error" where
  "duplicate_name_error name = validation_error_with_code ''FileNameConflict'' (duplicate_name_message name)"

definition is_validation_error :: "aster_error \<Rightarrow> bool" where
  "is_validation_error e = (case e of ValidationError _ \<Rightarrow> True | _ \<Rightarrow> False)"

definition is_duplicate_name_error :: "aster_error \<Rightarrow> string \<Rightarrow> bool" where
  "is_duplicate_name_error e name = (is_validation_error e \<and> raw_message e = duplicate_name_message name)"

definition is_any_duplicate_name_error :: "aster_error \<Rightarrow> bool" where
  "is_any_duplicate_name_error e =
     (is_validation_error e \<and> prefix (''file '' @ [CHR 0x27]) (raw_message e)
      \<and> suffix (CHR 0x27 # '' already exists in this folder'') (raw_message e))"

text \<open>
  \<open>idx_files_unique_live_name\<close>: the workspace, the folder (0 for the root), the name and a flag that is null for
  deleted rows. An entry with a null is not compared.
\<close>

definition file_name_key :: "file_model \<Rightarrow> (int \<times> int \<times> int \<times> string) option" where
  "file_name_key f =
     (if fm_deleted_at f \<noteq> None then None
      else map_option (\<lambda>(tag, ws). (tag, ws, case fm_folder_id f of Some i \<Rightarrow> i | None \<Rightarrow> 0, fm_name f))
        (case fm_team_id f of Some t \<Rightarrow> Some (1, t) | None \<Rightarrow> map_option (Pair 0) (fm_owner_user_id f)))"

definition live_names_unique :: "file_table \<Rightarrow> bool" where
  "live_names_unique fs = distinct (List.map_filter file_name_key fs)"

definition file_constraints :: "file_table \<Rightarrow> bool" where
  "file_constraints fs = (unique_key fm_id fs \<and> live_names_unique fs)"

definition checked_rows :: "file_table \<Rightarrow> file_table option" where
  "checked_rows fs = (if file_constraints fs then Some fs else None)"

section \<open>Scopes\<close>

definition scope_condition :: "workspace_resource_scope \<Rightarrow> file_model \<Rightarrow> bool" where
  "scope_condition sc f =
     (case sc of
        RS_Personal u \<Rightarrow> fm_owner_user_id f = Some u \<and> fm_team_id f = None
      | RS_Team t \<Rightarrow> fm_team_id f = Some t)"

definition active_scope_condition :: "workspace_resource_scope \<Rightarrow> file_model \<Rightarrow> bool" where
  "active_scope_condition sc f = (scope_condition sc f \<and> fm_deleted_at f = None)"

definition apply_folder_condition :: "(file_model \<Rightarrow> bool) \<Rightarrow> int option \<Rightarrow> file_model \<Rightarrow> bool" where
  "apply_folder_condition c folder f = (c f \<and> fm_folder_id f = folder)"

section \<open>Inserting, moving and replacing\<close>

text \<open>\<open>initialize_attribution\<close>: whoever created a row is the first to have modified it.\<close>

definition initialize_attribution :: "file_model \<Rightarrow> file_model" where
  "initialize_attribution f =
     f\<lparr>fm_modified_by_user_id := fm_created_by_user_id f, fm_modified_by_username := Some (fm_created_by_username f),
       fm_modified_at := Some (fm_created_at f)\<rparr>"

definition file_insert :: "file_model \<Rightarrow> file_table \<Rightarrow> (file_table \<times> file_model) option" where
  "file_insert f fs = map_option (\<lambda>fs'. (fs', initialize_attribution f)) (checked_rows (fs @ [initialize_attribution f]))"

record create_file_with_blob_input =
  cf_name :: string
  cf_folder_id :: "int option"
  cf_team_id :: "int option"
  cf_blob_id :: int
  cf_size :: int
  cf_owner_user_id :: "int option"
  cf_created_by_user_id :: "int option"
  cf_created_by_username :: string
  cf_mime_type :: string
  cf_now :: time

definition classified_row :: "drive_env \<Rightarrow> int \<Rightarrow> create_file_with_blob_input \<Rightarrow> file_model" where
  "classified_row env new_id i =
     (let c = de_classify env (cf_name i) (cf_mime_type i) in
      \<lparr>fm_id = new_id, fm_name = cf_name i, fm_folder_id = cf_folder_id i, fm_team_id = cf_team_id i,
       fm_blob_id = cf_blob_id i, fm_size = cf_size i, fm_owner_user_id = cf_owner_user_id i,
       fm_created_by_user_id = cf_created_by_user_id i, fm_created_by_username = cf_created_by_username i,
       fm_modified_by_user_id = None, fm_modified_by_username = None, fm_modified_at = None,
       fm_mime_type = cf_mime_type i, fm_extension = cl_extension c, fm_compound_extension = cl_compound_extension c,
       fm_file_category = cl_category c, fm_created_at = cf_now i, fm_updated_at = cf_now i, fm_deleted_at = None\<rparr>)"

definition create_with_blob ::
  "drive_env \<Rightarrow> int \<Rightarrow> create_file_with_blob_input \<Rightarrow> file_table \<Rightarrow> (file_table \<times> file_model) aster_result" where
  "create_with_blob env new_id i fs =
     ok_or (duplicate_name_error (cf_name i)) (file_insert (classified_row env new_id i) fs)"

definition create_many :: "file_model list \<Rightarrow> file_table \<Rightarrow> file_table aster_result" where
  "create_many models fs =
     (if models = [] then Inr fs
      else ok_or (validation_error ''one or more files already exist in this folder'')
             (checked_rows (fs @ map initialize_attribution models)))"

definition move_many_to_folder :: "int list \<Rightarrow> int option \<Rightarrow> time \<Rightarrow> file_table \<Rightarrow> file_table aster_result" where
  "move_many_to_folder ids folder now fs =
     (if ids = [] then Inr fs
      else ok_or (validation_error ''one or more files already exist in target folder'')
             (checked_rows (fst (update_where (\<lambda>f. fm_id f \<in> set ids)
                (\<lambda>f. f\<lparr>fm_folder_id := folder, fm_updated_at := now\<rparr>) fs))))"

definition replace_file_blob_refs :: "time \<Rightarrow> int \<Rightarrow> int \<Rightarrow> file_table \<Rightarrow> file_table \<times> nat" where
  "replace_file_blob_refs now old new fs =
     (if old = new then (fs, 0)
      else update_where (\<lambda>f. fm_blob_id f = old) (\<lambda>f. f\<lparr>fm_blob_id := new, fm_updated_at := now\<rparr>) fs)"

section \<open>The trash\<close>

definition file_delete :: "int \<Rightarrow> file_table \<Rightarrow> file_table" where
  "file_delete i fs = fst (delete_where (\<lambda>f. fm_id f = i) fs)"

definition file_find_model :: "int \<Rightarrow> file_table \<Rightarrow> file_model aster_result" where
  "file_find_model i fs = ok_or (FileNotFound (payload_new (''file #'' @ int_to_string i))) (find_key fm_id i fs)"

definition soft_delete :: "time \<Rightarrow> int \<Rightarrow> file_table \<Rightarrow> file_table aster_result" where
  "soft_delete now i fs =
     bind_result (file_find_model i fs) (\<lambda>_.
     Inr (fst (update_where (\<lambda>f. fm_id f = i) (\<lambda>f. f\<lparr>fm_deleted_at := Some now\<rparr>) fs)))"

definition soft_delete_many :: "int list \<Rightarrow> time \<Rightarrow> file_table \<Rightarrow> file_table" where
  "soft_delete_many ids now fs =
     (if ids = [] then fs
      else fst (update_where (\<lambda>f. fm_id f \<in> set ids) (\<lambda>f. f\<lparr>fm_deleted_at := Some now\<rparr>) fs))"

definition undeleted :: "file_model \<Rightarrow> file_model" where
  "undeleted f = f\<lparr>fm_deleted_at := None\<rparr>"

definition file_restore :: "int \<Rightarrow> file_table \<Rightarrow> file_table aster_result" where
  "file_restore i fs =
     bind_result (file_find_model i fs) (\<lambda>f.
     ok_or (duplicate_name_error (fm_name f)) (checked_rows (fst (update_where (\<lambda>f. fm_id f = i) undeleted fs))))"

definition restore_many :: "int list \<Rightarrow> file_table \<Rightarrow> file_table aster_result" where
  "restore_many ids fs =
     (if ids = [] then Inr fs
      else ok_or (validation_error ''one or more files already exist in their original folders'')
             (checked_rows (fst (update_where (\<lambda>f. fm_id f \<in> set ids) undeleted fs))))"

definition deleted_time :: "file_model \<Rightarrow> time" where
  "deleted_time f = (case fm_deleted_at f of Some t \<Rightarrow> t | None \<Rightarrow> 0)"

definition find_deleted_by_user :: "int \<Rightarrow> file_table \<Rightarrow> file_table" where
  "find_deleted_by_user u fs =
     sort_key (\<lambda>f. - deleted_time f) (select_where (\<lambda>f. scope_condition (RS_Personal u) f \<and> fm_deleted_at f \<noteq> None) fs)"

definition find_deleted_in_folder :: "int \<Rightarrow> file_table \<Rightarrow> file_table" where
  "find_deleted_in_folder folder fs = select_where (\<lambda>f. fm_folder_id f = Some folder \<and> fm_deleted_at f \<noteq> None) fs"

definition find_expired_deleted :: "time \<Rightarrow> file_table \<Rightarrow> file_table" where
  "find_expired_deleted before fs =
     select_where (\<lambda>f. case fm_deleted_at f of Some t \<Rightarrow> t < before | None \<Rightarrow> False) fs"

definition find_all_by_user :: "int \<Rightarrow> file_table \<Rightarrow> file_table" where
  "find_all_by_user u fs = select_where (scope_condition (RS_Personal u)) fs"

definition find_all_by_team :: "int \<Rightarrow> file_table \<Rightarrow> file_table" where
  "find_all_by_team t fs = select_where (scope_condition (RS_Team t)) fs"

section \<open>Queries\<close>

definition count_live_files :: "file_table \<Rightarrow> nat" where
  "count_live_files fs = count_where (\<lambda>f. fm_deleted_at f = None) fs"

definition sum_live_file_bytes :: "file_table \<Rightarrow> int" where
  "sum_live_file_bytes fs = sum_list (map fm_size (select_where (\<lambda>f. fm_deleted_at f = None) fs))"

definition find_by_ids_in_scope :: "workspace_resource_scope \<Rightarrow> int list \<Rightarrow> file_table \<Rightarrow> file_table" where
  "find_by_ids_in_scope sc ids fs =
     (if ids = [] then [] else select_where (\<lambda>f. scope_condition sc f \<and> fm_id f \<in> set ids) fs)"

definition in_folders :: "int list \<Rightarrow> file_model \<Rightarrow> bool" where
  "in_folders folders f = (fm_folder_id f \<in> Some ` set folders)"

definition find_by_folders_in_scope :: "workspace_resource_scope \<Rightarrow> int list \<Rightarrow> file_table \<Rightarrow> file_table" where
  "find_by_folders_in_scope sc folders fs =
     (if folders = [] then [] else select_where (\<lambda>f. active_scope_condition sc f \<and> in_folders folders f) fs)"

definition find_all_in_folders :: "int list \<Rightarrow> file_table \<Rightarrow> file_table" where
  "find_all_in_folders folders fs = (if folders = [] then [] else select_where (in_folders folders) fs)"

definition find_by_folder_in_scope :: "workspace_resource_scope \<Rightarrow> int option \<Rightarrow> file_table \<Rightarrow> file_table" where
  "find_by_folder_in_scope sc folder fs =
     sort_key fm_name (select_where (apply_folder_condition (active_scope_condition sc) folder) fs)"

section \<open>Pages by id\<close>

text \<open>The shape all queries by id share: the rows of a condition after an id, in order, at most \<open>limit\<close>.\<close>

definition page_after_id :: "(file_model \<Rightarrow> bool) \<Rightarrow> int option \<Rightarrow> nat \<Rightarrow> file_table \<Rightarrow> file_table" where
  "page_after_id c after limit fs =
     take limit (sort_key fm_id (select_where (\<lambda>f. c f \<and> (case after of Some a \<Rightarrow> a < fm_id f | None \<Rightarrow> True)) fs))"

definition find_id_size_by_folders ::
  "workspace_resource_scope \<Rightarrow> int list \<Rightarrow> int option \<Rightarrow> nat \<Rightarrow> file_table \<Rightarrow> (int \<times> int) list" where
  "find_id_size_by_folders sc folders after limit fs =
     (if folders = [] \<or> limit = 0 then []
      else map (\<lambda>f. (fm_id f, fm_size f))
             (page_after_id (\<lambda>f. active_scope_condition sc f \<and> in_folders folders f) after limit fs))"

definition find_by_folder_after_id_in_scope ::
  "workspace_resource_scope \<Rightarrow> int option \<Rightarrow> int option \<Rightarrow> nat \<Rightarrow> file_table \<Rightarrow> file_table" where
  "find_by_folder_after_id_in_scope sc folder after limit fs =
     (if limit = 0 then [] else page_after_id (apply_folder_condition (active_scope_condition sc) folder) after limit fs)"

definition find_by_folders_after_id_in_scope ::
  "workspace_resource_scope \<Rightarrow> int list \<Rightarrow> int option \<Rightarrow> nat \<Rightarrow> file_table \<Rightarrow> file_table" where
  "find_by_folders_after_id_in_scope sc folders after limit fs =
     (if folders = [] \<or> limit = 0 then []
      else page_after_id (\<lambda>f. active_scope_condition sc f \<and> in_folders folders f) after limit fs)"

definition find_all_by_folders_after_id_in_scope ::
  "workspace_resource_scope \<Rightarrow> int list \<Rightarrow> int option \<Rightarrow> nat \<Rightarrow> file_table \<Rightarrow> file_table" where
  "find_all_by_folders_after_id_in_scope sc folders after limit fs =
     (if folders = [] \<or> limit = 0 then []
      else page_after_id (\<lambda>f. scope_condition sc f \<and> in_folders folders f) after limit fs)"

definition find_ids_by_folder_after_id_in_scope ::
  "workspace_resource_scope \<Rightarrow> int \<Rightarrow> int option \<Rightarrow> bool \<Rightarrow> nat \<Rightarrow> file_table \<Rightarrow> int list" where
  "find_ids_by_folder_after_id_in_scope sc folder after include_deleted limit fs =
     (if limit = 0 then []
      else map fm_id (page_after_id (\<lambda>f. (if include_deleted then scope_condition sc f else active_scope_condition sc f)
                                          \<and> fm_folder_id f = Some folder) after limit fs))"

definition find_all_by_user_paginated :: "int \<Rightarrow> int option \<Rightarrow> nat \<Rightarrow> file_table \<Rightarrow> file_table" where
  "find_all_by_user_paginated u after limit fs = page_after_id (scope_condition (RS_Personal u)) after limit fs"

definition find_all_by_team_paginated :: "int \<Rightarrow> int option \<Rightarrow> nat \<Rightarrow> file_table \<Rightarrow> file_table" where
  "find_all_by_team_paginated t after limit fs = page_after_id (scope_condition (RS_Team t)) after limit fs"

section \<open>Pages of the trash and of a folder\<close>

text \<open>\<open>deleted_folders\<close>: the ids of the folders that are in the trash.\<close>

definition top_level_deleted_condition :: "workspace_resource_scope \<Rightarrow> int set \<Rightarrow> file_model \<Rightarrow> bool" where
  "top_level_deleted_condition sc deleted_folders f =
     (scope_condition sc f \<and> fm_deleted_at f \<noteq> None
      \<and> (case fm_folder_id f of None \<Rightarrow> True | Some i \<Rightarrow> i \<notin> deleted_folders))"

definition after_deleted :: "time \<times> int \<Rightarrow> file_model \<Rightarrow> bool" where
  "after_deleted a f =
     (case fm_deleted_at f of None \<Rightarrow> False | Some t \<Rightarrow> t < fst a \<or> t = fst a \<and> snd a < fm_id f)"

definition trash_order :: "file_model \<Rightarrow> int \<times> int" where
  "trash_order f = (- deleted_time f, fm_id f)"

definition find_top_level_deleted_paginated_in_scope ::
  "workspace_resource_scope \<Rightarrow> int set \<Rightarrow> nat \<Rightarrow> (time \<times> int) option \<Rightarrow> file_table \<Rightarrow> file_table \<times> nat" where
  "find_top_level_deleted_paginated_in_scope sc deleted_folders limit after fs =
     (let base = select_where (top_level_deleted_condition sc deleted_folders) fs in
      if length base = 0 \<or> limit = 0 then ([], length base)
      else (take limit (sort_key trash_order
              (case after of None \<Rightarrow> base | Some a \<Rightarrow> select_where (after_deleted a) base)), length base))"

datatype sort_by = SortName | SortSize | SortCreatedAt | SortUpdatedAt | SortType

datatype sort_order = SortAsc | SortDesc

text \<open>A column's value: text, or a number (times are numbers). \<open>parse_time\<close> reads a time from a cursor.\<close>

type_synonym column_value = "string \<times> int"

definition sort_value :: "sort_by \<Rightarrow> file_model \<Rightarrow> column_value" where
  "sort_value s f =
     (case s of
        SortName \<Rightarrow> (fm_name f, 0)
      | SortSize \<Rightarrow> ('''', fm_size f)
      | SortCreatedAt \<Rightarrow> ('''', fm_created_at f)
      | SortUpdatedAt \<Rightarrow> ('''', fm_updated_at f)
      | SortType \<Rightarrow> (fm_mime_type f, 0))"

definition cursor_value :: "(string \<Rightarrow> time option) \<Rightarrow> sort_by \<Rightarrow> string \<Rightarrow> column_value aster_result" where
  "cursor_value parse_time s v =
     (case s of
        SortName \<Rightarrow> Inr (v, 0)
      | SortSize \<Rightarrow> bind_result (ok_or (validation_error ''invalid cursor value for size sort'') (parse_i64 v)) (\<lambda>n. Inr ('''', n))
      | SortCreatedAt \<Rightarrow>
          bind_result (ok_or (validation_error ''invalid cursor value for created_at sort'') (parse_time v)) (\<lambda>n. Inr ('''', n))
      | SortUpdatedAt \<Rightarrow>
          bind_result (ok_or (validation_error ''invalid cursor value for updated_at sort'') (parse_time v)) (\<lambda>n. Inr ('''', n))
      | SortType \<Rightarrow> Inr (v, 0))"

definition cursor_holds :: "sort_by \<Rightarrow> bool \<Rightarrow> column_value \<Rightarrow> int \<Rightarrow> file_model \<Rightarrow> bool" where
  "cursor_holds s asc v a f =
     (if asc then v < sort_value s f \<or> sort_value s f = v \<and> a < fm_id f
      else sort_value s f < v \<or> sort_value s f = v \<and> fm_id f < a)"

definition build_cursor_condition ::
  "(string \<Rightarrow> time option) \<Rightarrow> sort_by \<Rightarrow> bool \<Rightarrow> string \<Rightarrow> int \<Rightarrow> (file_model \<Rightarrow> bool) aster_result" where
  "build_cursor_condition parse_time s asc v a =
     bind_result (cursor_value parse_time s v) (\<lambda>x. Inr (cursor_holds s asc x a))"

definition listing_order :: "sort_by \<Rightarrow> bool \<Rightarrow> file_table \<Rightarrow> file_table" where
  "listing_order s asc fs =
     (let up = sort_key (\<lambda>f. (sort_value s f, fm_id f)) fs in if asc then up else rev up)"

record file_cursor_query =
  fq_folder_id :: "int option"
  fq_limit :: nat
  fq_after :: "(string \<times> int) option"
  fq_sort_by :: sort_by
  fq_sort_order :: sort_order
  fq_deleted :: bool

definition listed :: "workspace_resource_scope \<Rightarrow> file_cursor_query \<Rightarrow> file_model \<Rightarrow> bool" where
  "listed sc q = apply_folder_condition
     (\<lambda>f. scope_condition sc f \<and> (if fq_deleted q then fm_deleted_at f \<noteq> None else fm_deleted_at f = None)) (fq_folder_id q)"

definition find_by_folder_cursor_in_scope ::
  "(string \<Rightarrow> time option) \<Rightarrow> workspace_resource_scope \<Rightarrow> file_cursor_query \<Rightarrow> file_table \<Rightarrow> (file_table \<times> nat) aster_result" where
  "find_by_folder_cursor_in_scope parse_time sc q fs =
     (let base = select_where (listed sc q) fs; asc = (fq_sort_order q = SortAsc) in
      if length base = 0 \<or> fq_limit q = 0 then Inr ([], length base)
      else
        bind_result (case fq_after q of
              None \<Rightarrow> Inr (\<lambda>_. True)
            | Some (v, a) \<Rightarrow> build_cursor_condition parse_time (fq_sort_by q) asc v a) (\<lambda>c.
        Inr (take (fq_limit q) (listing_order (fq_sort_by q) asc (select_where c base)), length base)))"

section \<open>Following the cursors\<close>

text \<open>
  \<open>file_cursor_value\<close> (\<open>src/src/api/pagination.rs\<close>) prints the cursor that a listing returns when its page was
  full; \<open>print_time\<close> is the printer of times. In the trash the cursor carries the time at which the file
  expires, which is turned back into the time of its deletion. A client asks for the next page as long as it
  gets a cursor.
\<close>

definition file_cursor_value :: "(time \<Rightarrow> string) \<Rightarrow> sort_by \<Rightarrow> file_model \<Rightarrow> string" where
  "file_cursor_value print_time s f =
     (case s of
        SortName \<Rightarrow> fm_name f
      | SortSize \<Rightarrow> int_to_string (fm_size f)
      | SortCreatedAt \<Rightarrow> print_time (fm_created_at f)
      | SortUpdatedAt \<Rightarrow> print_time (fm_updated_at f)
      | SortType \<Rightarrow> fm_mime_type f)"

definition file_cursor :: "(time \<Rightarrow> string) \<Rightarrow> sort_by \<Rightarrow> file_model \<Rightarrow> string \<times> int" where
  "file_cursor print_time s f = (file_cursor_value print_time s f, fm_id f)"

definition next_cursor :: "nat \<Rightarrow> ('r \<Rightarrow> 'c) \<Rightarrow> 'r list \<Rightarrow> 'c option" where
  "next_cursor limit cursor p = (if length p = limit \<and> 0 < limit then Some (cursor (last p)) else None)"

definition trash_cursor :: "int \<Rightarrow> file_model \<Rightarrow> time \<times> int" where
  "trash_cursor retention f = (deleted_time f + retention, fm_id f)"

definition expires_cursor_to_deleted_cursor :: "int \<Rightarrow> time \<times> int \<Rightarrow> time \<times> int" where
  "expires_cursor_to_deleted_cursor retention c = (fst c - retention, snd c)"

fun walk_pages ::
  "('c option \<Rightarrow> ('e, 'r list) result) \<Rightarrow> ('r list \<Rightarrow> 'c option) \<Rightarrow> nat \<Rightarrow> 'c option \<Rightarrow> ('e, 'r list) result option" where
  "walk_pages page next 0 a = None"
| "walk_pages page next (Suc n) a =
     (case page a of
        Inl e \<Rightarrow> Some (Inl e)
      | Inr p \<Rightarrow>
          (case next p of
             None \<Rightarrow> Some (Inr p)
           | Some c \<Rightarrow> map_option (\<lambda>r. bind_result r (\<lambda>rest. Inr (p @ rest))) (walk_pages page next n (Some c))))"

text \<open>What a paged query promises about the tables for which \<open>valid\<close> holds.\<close>

locale keyset =
  fixes valid :: "'t \<Rightarrow> bool" and ordered :: "'t \<Rightarrow> 'r list" and page :: "'t \<Rightarrow> 'c option \<Rightarrow> ('e, 'r list) result"
    and cursor :: "'r \<Rightarrow> 'c" and limit :: nat
  assumes first_page: "valid t \<Longrightarrow> page t None = Inr (take limit (ordered t))"
    and next_page: "valid t \<Longrightarrow> ordered t = xs @ r # ys \<Longrightarrow> page t (Some (cursor r)) = Inr (take limit ys)"
    and progress: "valid t \<Longrightarrow> 0 < limit"
begin

lemma walk_rest:
  assumes "valid t" "page t a = Inr (take limit ys)" "ordered t = xs @ ys" "length ys < n"
  shows "walk_pages (page t) (next_cursor limit cursor) n a = Some (Inr ys)"
  using assms(2-)
proof (induction n arbitrary: a xs ys)
  case (Suc n)
  show ?case
  proof (cases "length (take limit ys) = limit")
    case False
    then have "take limit ys = ys" by simp
    then show ?thesis using Suc.prems(1) False by (simp add: next_cursor_def)
  next
    case True
    note pos = progress [OF assms(1)]
    let ?p = "take limit ys" and ?zs = "drop limit ys"
    have p: "?p \<noteq> []" using True pos by auto
    then have "butlast ?p @ last ?p # ?zs = ys" using append_take_drop_id [of limit ys] append_butlast_last_id [of ?p] by (metis append.assoc append_Cons append_Nil)
    then have "ordered t = (xs @ butlast ?p) @ last ?p # ?zs" unfolding Suc.prems(2) by (simp only: append.assoc)
    from next_page [OF assms(1) this] have "walk_pages (page t) (next_cursor limit cursor) n (Some (cursor (last ?p))) = Some (Inr ?zs)"
      by (rule Suc.IH [of _ _ "xs @ ?p"]) (use Suc.prems(2,3) pos True in simp_all)
    moreover have "next_cursor limit cursor ?p = Some (cursor (last ?p))" using True pos by (simp add: next_cursor_def)
    ultimately show ?thesis using Suc.prems(1) by simp
  qed
qed simp

lemma walk_all:
  "valid t \<Longrightarrow> walk_pages (page t) (next_cursor limit cursor) (Suc (length (ordered t))) None = Some (Inr (ordered t))"
  by (rule walk_rest [where xs = "[]"]) (simp_all add: first_page)

end

lemma sorted_after:
  fixes k :: "'r \<Rightarrow> 'k::linorder"
  assumes "sorted (map k l)" "distinct (map k l)" "l = xs @ r # ys"
  shows "filter (\<lambda>x. k r < k x) l = ys" "filter (\<lambda>x. k x < k r) l = xs"
proof -
  have "\<forall>x \<in> set xs. k x \<le> k r \<and> k x \<noteq> k r" "\<forall>y \<in> set ys. k r \<le> k y \<and> k r \<noteq> k y"
    using assms by (auto simp: sorted_append) (metis imageI)
  then have "\<forall>x \<in> set xs. k x < k r" "\<forall>y \<in> set ys. k r < k y" by (meson less_le)+
  then show "filter (\<lambda>x. k r < k x) l = ys" "filter (\<lambda>x. k x < k r) l = xs"
    by (simp_all add: assms(3) filter_empty_conv order.strict_implies_not_eq) (meson filter_True filter_False order.asym)+
qed

lemma keys_sorted: "distinct (map k (sort_key k l))" if "distinct (map k l)" for k :: "'r \<Rightarrow> 'k::linorder"
  using that by (metis distinct_map distinct_sort set_sort inj_on_def)

lemma sorted_split:
  fixes k :: "'r \<Rightarrow> 'k::linorder"
  assumes "distinct (map k l)" "sort_key k l = xs @ r # ys"
  shows "sort_key k (filter (\<lambda>x. k r < k x) l) = ys" "sort_key k (filter (\<lambda>x. k x < k r) l) = xs"
  using sorted_after [OF sorted_sort_key keys_sorted [OF assms(1)] assms(2)] by (simp_all add: filter_sort)

text \<open>Pages by id.\<close>

interpretation id_pages: keyset "\<lambda>fs. unique_key fm_id fs \<and> 0 < limit" "\<lambda>fs. sort_key fm_id (select_where c fs)"
  "\<lambda>fs a. Inr (page_after_id c a limit fs)" fm_id limit for c limit
proof unfold_locales
  fix fs xs r ys
  assume v: "unique_key fm_id fs \<and> 0 < limit" and s: "sort_key fm_id (select_where c fs) = xs @ r # ys"
  have "distinct (map fm_id (select_where c fs))" using v by (simp add: unique_key_def select_where_def distinct_map_filter)
  from sorted_split(1) [OF this s]
  show "Inr (page_after_id c (Some (fm_id r)) limit fs) = Inr (take limit ys)"
    by (simp add: page_after_id_def select_where_def conj_commute)
qed (simp_all add: page_after_id_def)

text \<open>Pages of the trash.\<close>

interpretation trash_pages: keyset "\<lambda>fs. unique_key fm_id fs \<and> 0 < limit"
  "\<lambda>fs. sort_key trash_order (select_where (top_level_deleted_condition sc deleted) fs)"
  "\<lambda>fs a. Inr (fst (find_top_level_deleted_paginated_in_scope sc deleted limit
      (map_option (expires_cursor_to_deleted_cursor retention) a) fs))"
  "trash_cursor retention" limit for sc deleted limit retention
proof unfold_locales
  fix fs xs r ys
  let ?base = "select_where (top_level_deleted_condition sc deleted) fs"
  assume v: "unique_key fm_id fs \<and> 0 < limit" and s: "sort_key trash_order ?base = xs @ r # ys"
  have d: "distinct (map fm_id ?base)" using v by (simp add: unique_key_def select_where_def distinct_map_filter)
  have "distinct (map trash_order ?base)"
    using d by (auto simp: distinct_map inj_on_def trash_order_def)
  note S = sorted_split(1) [OF this s]
  have a: "after_deleted (expires_cursor_to_deleted_cursor retention (trash_cursor retention r)) f \<longleftrightarrow> trash_order r < trash_order f"
    if "f \<in> set ?base" for f
    using that by (auto simp: after_deleted_def expires_cursor_to_deleted_cursor_def trash_cursor_def trash_order_def deleted_time_def
        select_where_def top_level_deleted_condition_def less_prod_simp)
  have "select_where (after_deleted (expires_cursor_to_deleted_cursor retention (trash_cursor retention r))) ?base
      = filter (\<lambda>f. trash_order r < trash_order f) ?base"
    unfolding select_where_def [of "after_deleted _"] by (rule filter_cong) (use a in auto)
  moreover have "?base \<noteq> []" using s by auto
  ultimately show "Inr (fst (find_top_level_deleted_paginated_in_scope sc deleted limit
      (map_option (expires_cursor_to_deleted_cursor retention) (Some (trash_cursor retention r))) fs)) = Inr (take limit ys)"
    using S v by (simp add: find_top_level_deleted_paginated_in_scope_def Let_def)
qed (auto simp: find_top_level_deleted_paginated_in_scope_def Let_def)

text \<open>Pages of a folder. The cursors can be read back: sizes are 64-bit numbers, and times print and parse.\<close>

definition listing_ok :: "(string \<Rightarrow> time option) \<Rightarrow> (time \<Rightarrow> string) \<Rightarrow> nat \<Rightarrow> file_table \<Rightarrow> bool" where
  "listing_ok parse_time print_time limit fs =
     (unique_key fm_id fs \<and> 0 < limit \<and> list_all (\<lambda>f. in_i64 (fm_size f)) fs
      \<and> list_all (\<lambda>f. parse_time (print_time (fm_created_at f)) = Some (fm_created_at f)
            \<and> parse_time (print_time (fm_updated_at f)) = Some (fm_updated_at f)) fs)"

lemma cursor_reads_back:
  assumes "listing_ok parse_time print_time limit fs" "f \<in> set fs"
  shows "cursor_value parse_time s (file_cursor_value print_time s f) = Inr (sort_value s f)"
  using assms parse_i64_int_to_string [of "fm_size f"]
  by (cases s) (simp_all add: cursor_value_def file_cursor_value_def sort_value_def listing_ok_def list_all_iff ok_or_def)

definition listing_page ::
  "(string \<Rightarrow> time option) \<Rightarrow> workspace_resource_scope \<Rightarrow> file_cursor_query \<Rightarrow> file_table \<Rightarrow> (string \<times> int) option \<Rightarrow> file_table aster_result" where
  "listing_page parse_time sc q fs a =
     bind_result (find_by_folder_cursor_in_scope parse_time sc (q\<lparr>fq_after := a\<rparr>) fs) (\<lambda>(p, total_count). Inr p)"

interpretation folder_pages: keyset "listing_ok parse_time print_time (fq_limit q)"
  "\<lambda>fs. listing_order (fq_sort_by q) (fq_sort_order q = SortAsc) (select_where (listed sc q) fs)"
  "listing_page parse_time sc q" "file_cursor print_time (fq_sort_by q)" "fq_limit q" for parse_time print_time sc q
proof unfold_locales
  let ?s = "fq_sort_by q" and ?asc = "fq_sort_order q = SortAsc"
  have l: "listed sc (q\<lparr>fq_after := a\<rparr>) = listed sc q" for a by (simp add: listed_def)
  fix fs
  let ?base = "select_where (listed sc q) fs" and ?k = "\<lambda>f. (sort_value ?s f, fm_id f)"
  assume v: "listing_ok parse_time print_time (fq_limit q) fs"
  show "0 < fq_limit q" using v by (simp add: listing_ok_def)
  then show "listing_page parse_time sc q fs None = Inr (take (fq_limit q) (listing_order ?s ?asc ?base))"
    by (auto simp: listing_page_def find_by_folder_cursor_in_scope_def Let_def l listing_order_def select_where_def)
  fix xs r ys
  assume s: "listing_order ?s ?asc ?base = xs @ r # ys"
  have "set (listing_order ?s ?asc ?base) = set ?base" by (simp add: listing_order_def Let_def)
  then have r: "r \<in> set ?base" unfolding s by auto
  have d: "distinct (map ?k ?base)"
    using v by (auto simp: listing_ok_def unique_key_def select_where_def distinct_map distinct_filter inj_on_def)
  have up: "sort_key ?k ?base = (if ?asc then xs @ r # ys else rev ys @ r # rev xs)"
  proof (cases ?asc)
    case False
    then have "rev (sort_key ?k ?base) = xs @ r # ys" using s by (simp add: listing_order_def)
    then show ?thesis using False by (simp add: rev_swap)
  qed (use s in \<open>simp add: listing_order_def\<close>)
  have "listing_order ?s ?asc (filter (cursor_holds ?s ?asc (sort_value ?s r) (fm_id r)) ?base) = ys"
  proof (cases ?asc)
    case True
    have "filter (cursor_holds ?s True (sort_value ?s r) (fm_id r)) ?base = filter (\<lambda>x. ?k r < ?k x) ?base"
      by (rule filter_cong) (auto simp: cursor_holds_def less_prod_simp)
    then show ?thesis using True sorted_split(1) [OF d, of xs r ys] up by (simp add: listing_order_def)
  next
    case False
    have "filter (cursor_holds ?s False (sort_value ?s r) (fm_id r)) ?base = filter (\<lambda>x. ?k x < ?k r) ?base"
      by (rule filter_cong) (auto simp: cursor_holds_def less_prod_simp)
    then show ?thesis using False sorted_split(2) [OF d, of "rev ys" r "rev xs"] up by (simp add: listing_order_def)
  qed
  moreover have "?base \<noteq> []" using r by auto
  moreover have "cursor_value parse_time ?s (file_cursor_value print_time ?s r) = Inr (sort_value ?s r)"
    using cursor_reads_back [OF v] r by (simp add: select_where_def)
  ultimately show "listing_page parse_time sc q fs (Some (file_cursor print_time ?s r)) = Inr (take (fq_limit q) ys)"
    using v by (simp add: listing_page_def find_by_folder_cursor_in_scope_def Let_def l file_cursor_def build_cursor_condition_def
        listing_ok_def select_where_def)
qed

text \<open>
  (C13) A client that lists a folder page by page sees every file once. Starting without a cursor and following
  the cursor of each full page, for any page size, sort column and direction, no request fails, the walk ends,
  and the pages put together are exactly the files of the folder in the scope (live or in the trash, as asked),
  each once, in the order of the column with the id as the tie-break.
\<close>

theorem folder_listing_complete:
  assumes "listing_ok parse_time print_time (fq_limit q) fs"
  shows "\<exists>l. walk_pages (listing_page parse_time sc q fs) (next_cursor (fq_limit q) (file_cursor print_time (fq_sort_by q)))
      (Suc (length (select_where (listed sc q) fs))) None = Some (Inr l)
    \<and> distinct (map fm_id l) \<and> set l = {f \<in> set fs. listed sc q f}
    \<and> sorted_wrt (\<lambda>f g. (sort_value (fq_sort_by q) f, fm_id f) < (sort_value (fq_sort_by q) g, fm_id g))
        (if fq_sort_order q = SortAsc then l else rev l)"
proof -
  let ?base = "select_where (listed sc q) fs" and ?k = "\<lambda>f. (sort_value (fq_sort_by q) f, fm_id f)"
  let ?l = "listing_order (fq_sort_by q) (fq_sort_order q = SortAsc) ?base"
  have d: "distinct (map fm_id ?base)" using assms by (simp add: listing_ok_def unique_key_def select_where_def distinct_map_filter)
  then have dk: "distinct (map ?k ?base)" by (auto simp: distinct_map inj_on_def)
  have up: "sort_key ?k ?base = (if fq_sort_order q = SortAsc then ?l else rev ?l)" by (simp add: listing_order_def Let_def)
  have m: "mset ?l = mset ?base" by (simp add: listing_order_def Let_def)
  have "sorted_wrt (<) (map ?k (sort_key ?k ?base))"
    using keys_sorted [OF dk] sorted_sort_key [of ?k ?base] by (simp add: strict_sorted_iff)
  then have "sorted_wrt (\<lambda>f g. ?k f < ?k g) (if fq_sort_order q = SortAsc then ?l else rev ?l)"
    unfolding up by (simp add: sorted_wrt_map)
  moreover have "distinct (map fm_id ?l)" using d m by (metis mset_eq_imp_distinct_iff mset_map)
  moreover have "set ?l = {f \<in> set fs. listed sc q f}" using m by (metis select_where_def set_filter set_mset_mset)
  moreover have "length ?l = length ?base" using m by (metis size_mset)
  ultimately show ?thesis using folder_pages.walk_all [OF assms, of sc] by (intro exI [of _ ?l]) simp
qed

section \<open>Names in use\<close>

lemma map_filter_map_same: "(\<And>x. x \<in> set xs \<Longrightarrow> k (g x) = k x) \<Longrightarrow> List.map_filter k (map g xs) = List.map_filter k xs"
  by (induction xs) (auto simp: List.map_filter_simps split: option.splits)

lemma map_filter_append: "List.map_filter k (xs @ ys) = List.map_filter k xs @ List.map_filter k ys"
  by (simp add: List.map_filter_def)

lemma set_map_filter: "set (List.map_filter k xs) = {v. \<exists>x \<in> set xs. k x = Some v}"
  by (force simp: List.map_filter_def image_iff)

lemma live_names_unique_filter: "live_names_unique fs \<Longrightarrow> live_names_unique (filter p fs)"
  unfolding live_names_unique_def
  by (induction fs) (auto simp: List.map_filter_simps set_map_filter split: option.splits)

text \<open>Putting one row in the place of another: its key must not be used by a different row.\<close>

lemma live_names_change:
  assumes "live_names_unique (xs @ x # ys)"
  shows "live_names_unique (xs @ y # ys) \<longleftrightarrow> (\<forall>v. file_name_key y = Some v \<longrightarrow> (\<forall>z \<in> set xs \<union> set ys. file_name_key z \<noteq> Some v))"
  using assms
  by (cases "file_name_key x"; cases "file_name_key y")
     (force simp: live_names_unique_def map_filter_append List.map_filter_simps set_map_filter)+

lemma update_one_row:
  assumes "unique_key fm_id fs" "f \<in> set fs"
  obtains xs ys where "fs = xs @ f # ys" "fst (update_where (\<lambda>x. fm_id x = fm_id f) g fs) = xs @ g f # ys"
    "\<forall>x \<in> set xs \<union> set ys. fm_id x \<noteq> fm_id f"
proof -
  obtain xs ys where s: "fs = xs @ f # ys" using split_list [OF assms(2)] by blast
  then have n: "\<forall>x \<in> set xs \<union> set ys. fm_id x \<noteq> fm_id f" using assms(1) by (auto simp: unique_key_def) (metis imageI)+
  then have "map (\<lambda>x. if fm_id x = fm_id f then g x else x) xs = xs" "map (\<lambda>x. if fm_id x = fm_id f then g x else x) ys = ys"
    by (auto intro: map_idI)
  then show thesis using that s n by (simp add: update_where_def)
qed

lemma change_constraints:
  assumes "file_constraints fs" "f \<in> set fs" "fm_id (g f) = fm_id f"
  shows "file_constraints (fst (update_where (\<lambda>x. fm_id x = fm_id f) g fs)) \<longleftrightarrow>
    (\<forall>z \<in> set fs. fm_id z \<noteq> fm_id f \<longrightarrow> file_name_key z = file_name_key (g f) \<longrightarrow> file_name_key z = None)"
proof -
  have u: "unique_key fm_id fs" "live_names_unique fs" using assms(1) by (simp_all add: file_constraints_def)
  obtain xs ys where s: "fs = xs @ f # ys" "fst (update_where (\<lambda>x. fm_id x = fm_id f) g fs) = xs @ g f # ys"
    "\<forall>x \<in> set xs \<union> set ys. fm_id x \<noteq> fm_id f"
    by (rule update_one_row [OF u(1) assms(2)])
  have "unique_key fm_id (xs @ g f # ys)" using u(1) s(1) assms(3) by (simp add: unique_key_def)
  moreover have "live_names_unique (xs @ g f # ys) \<longleftrightarrow> (\<forall>v. file_name_key (g f) = Some v \<longrightarrow> (\<forall>z \<in> set xs \<union> set ys. file_name_key z \<noteq> Some v))"
    by (rule live_names_change) (use u(2) s(1) in simp)
  ultimately show ?thesis using s by (auto simp: file_constraints_def)
qed

definition name_taken :: "file_model \<Rightarrow> file_table \<Rightarrow> bool" where
  "name_taken f fs = (\<exists>g \<in> set fs. fm_id g \<noteq> fm_id f \<and> file_name_key g \<noteq> None \<and> file_name_key g = file_name_key (undeleted f))"

lemma file_restore_result:
  assumes "file_constraints fs" "f \<in> set fs"
  shows "file_restore (fm_id f) fs =
      (if name_taken f fs
       then Inl (duplicate_name_error (fm_name f))
       else Inr (map (\<lambda>g. if fm_id g = fm_id f then undeleted g else g) fs))"
proof -
  have "find_key fm_id (fm_id f) fs = Some f"
    using assms find_key_Some_iff [of fm_id fs] by (simp add: file_constraints_def)
  moreover have "file_constraints (fst (update_where (\<lambda>x. fm_id x = fm_id f) undeleted fs)) \<longleftrightarrow>
      \<not> name_taken f fs"
    using change_constraints [OF assms, of undeleted] by (auto simp: undeleted_def name_taken_def)
  ultimately show ?thesis
    by (simp add: file_restore_def file_find_model_def checked_rows_def update_where_def ok_or_def)
qed


text \<open>A folder with three files, one in the trash whose name has been taken.\<close>

definition ex_row :: "int \<Rightarrow> string \<Rightarrow> int \<Rightarrow> time option \<Rightarrow> file_model" where
  "ex_row i name sz deleted =
     \<lparr>fm_id = i, fm_name = name, fm_folder_id = None, fm_team_id = None, fm_blob_id = 1, fm_size = sz,
      fm_owner_user_id = Some 1, fm_created_by_user_id = Some 1, fm_created_by_username = ''alice'',
      fm_modified_by_user_id = Some 1, fm_modified_by_username = Some ''alice'', fm_modified_at = Some 0,
      fm_mime_type = ''text/plain'', fm_extension = ''txt'', fm_compound_extension = None, fm_file_category = ''document'',
      fm_created_at = 0, fm_updated_at = 0, fm_deleted_at = deleted\<rparr>"

definition ex_rows :: file_table where
  "ex_rows = [ex_row 1 ''a'' 5 None, ex_row 2 ''b'' 5 (Some 9), ex_row 3 ''b'' 4 None]"

lemmas file_example_defs = ex_row_def ex_rows_def

lemma ex_rows_constraints: "file_constraints ex_rows"
  by (simp add: file_constraints_def unique_key_def live_names_unique_def file_name_key_def List.map_filter_simps file_example_defs)


definition ex_listing :: file_cursor_query where
  "ex_listing = \<lparr>fq_folder_id = None, fq_limit = 1, fq_after = None, fq_sort_by = SortSize, fq_sort_order = SortDesc, fq_deleted = False\<rparr>"

theorem folder_listing_complete_witness:
  "\<exists>l. walk_pages (listing_page (\<lambda>_. Some 0) (RS_Personal 1) ex_listing ex_rows) (next_cursor 1 (file_cursor (\<lambda>_. ''t'') SortSize)) 3 None
      = Some (Inr l) \<and> set l = {ex_row 1 ''a'' 5 None, ex_row 3 ''b'' 4 None}"
proof -
  have v: "listing_ok (\<lambda>_. Some 0) (\<lambda>_. ''t'') (fq_limit ex_listing) ex_rows"
    by (simp add: listing_ok_def unique_key_def ex_listing_def file_example_defs in_i64_def i64_min_def i64_max_def)
  have "select_where (listed (RS_Personal 1) ex_listing) ex_rows = [ex_row 1 ''a'' 5 None, ex_row 3 ''b'' 4 None]"
    "{f \<in> set ex_rows. listed (RS_Personal 1) ex_listing f} = {ex_row 1 ''a'' 5 None, ex_row 3 ''b'' 4 None}"
    by (auto simp: select_where_def listed_def apply_folder_condition_def scope_condition_def ex_listing_def file_example_defs)
  then show ?thesis using folder_listing_complete [OF v, of "RS_Personal 1"] by (fastforce simp: ex_listing_def numeral_3_eq_3)
qed

end
