(* ===== verification/File_Names.thy ===== *)
theory File_Names
  imports File_Table
begin

text \<open>
  Names of files in a folder: \<open>src/src/db/repository/file_repo/query/names.rs\<close>, which finds files by name up to
  Unicode normalisation and proposes a free name.

  The rules for names (validation, normalisation, how a copy is numbered) belong to other crates; they are the
  record \<open>name_rules\<close>, and \<open>lawful\<close> states what is documented of them. Strings are byte sequences in UTF-8.
  The loop that proposes a name counts copies with a 32-bit number and ends when that number overflows, so it is
  a total function.
\<close>

section \<open>The rules for names\<close>

record name_rules =
  nr_normalize_validate_name :: "string \<Rightarrow> string aster_result"
  nr_nfc :: "string \<Rightarrow> string"
  nr_nfd :: "string \<Rightarrow> string"
  nr_next_copy_number :: "string \<Rightarrow> nat"
  nr_copy_name :: "string \<Rightarrow> nat \<Rightarrow> string"
  nr_next_copy_name :: "string \<Rightarrow> string"
  nr_guess_mime :: "string \<Rightarrow> string"

text \<open>
  \<open>nr_next_copy_number n\<close> and \<open>nr_copy_name n\<close> are the template of the name \<open>n\<close>: its first number and the name of
  the copy with a number. \<open>is_nfc\<close> and \<open>is_nfd\<close> ask whether a string is its own normal form, and \<open>normalize_name\<close>
  is the normal form.
\<close>

definition is_ascii :: "string \<Rightarrow> bool" where
  "is_ascii s = list_all (\<lambda>c. (of_char c :: nat) < 128) s"

definition is_nfc :: "name_rules \<Rightarrow> string \<Rightarrow> bool" where "is_nfc nr s = (nr_nfc nr s = s)"
definition is_nfd :: "name_rules \<Rightarrow> string \<Rightarrow> bool" where "is_nfd nr s = (nr_nfd nr s = s)"

definition normalize_name :: "name_rules \<Rightarrow> string \<Rightarrow> string" where
  "normalize_name nr s = nr_nfc nr s"

definition lawful :: "name_rules \<Rightarrow> string \<Rightarrow> bool" where
  "lawful nr n =
     ((\<forall>s. is_ascii s \<longrightarrow> nr_nfc nr s = s \<and> nr_nfd nr s = s)
      \<and> (\<forall>s. nr_nfd nr (nr_nfc nr s) = nr_nfd nr s \<and> nr_nfc nr (nr_nfd nr s) = nr_nfc nr s)
      \<and> is_nfc nr n \<and> (\<forall>k. is_nfc nr (nr_copy_name nr n k)) \<and> inj (nr_copy_name nr n))"

section \<open>Finding files by name\<close>

definition in_folder :: "workspace_resource_scope \<Rightarrow> int option \<Rightarrow> file_model \<Rightarrow> bool" where
  "in_folder sc folder = apply_folder_condition (active_scope_condition sc) folder"

definition find_by_name_in_folder_in_scope ::
  "name_rules \<Rightarrow> workspace_resource_scope \<Rightarrow> int option \<Rightarrow> string \<Rightarrow> file_table \<Rightarrow> file_model option" where
  "find_by_name_in_folder_in_scope nr sc folder name fs =
     (case List.find (\<lambda>f. fm_name f = name) (select_where (in_folder sc folder) fs) of
        Some f \<Rightarrow> Some f
      | None \<Rightarrow> List.find (\<lambda>f. normalize_name nr (fm_name f) = normalize_name nr name) (find_by_folder_in_scope sc folder fs))"

definition push_unique :: "string list \<Rightarrow> string \<Rightarrow> string list" where
  "push_unique vs v = (if v \<in> set vs then vs else vs @ [v])"

definition push_variants :: "name_rules \<Rightarrow> string list \<Rightarrow> string \<Rightarrow> string list" where
  "push_variants nr vs name =
     (let vs1 = push_unique vs name in
      if is_ascii name then vs1
      else
        let vs2 = (if is_nfc nr name then vs1 else push_unique vs1 (nr_nfc nr name))
        in if is_nfd nr name then vs2 else push_unique vs2 (nr_nfd nr name))"

definition add_normalization_query_variants :: "name_rules \<Rightarrow> string list \<Rightarrow> string list" where
  "add_normalization_query_variants nr names =
     (if list_all is_ascii names then names else foldl (push_variants nr) [] names)"

definition normalize_existing_filename :: "name_rules \<Rightarrow> string \<Rightarrow> string" where
  "normalize_existing_filename nr name = (if is_ascii name \<or> is_nfc nr name then name else nr_nfc nr name)"

definition normalized_non_ascii_names :: "name_rules \<Rightarrow> string list \<Rightarrow> string set" where
  "normalized_non_ascii_names nr names = normalize_name nr ` set (filter (\<lambda>n. \<not> is_ascii n) names)"

definition find_by_names_in_folder_in_scope ::
  "name_rules \<Rightarrow> workspace_resource_scope \<Rightarrow> int option \<Rightarrow> string list \<Rightarrow> file_table \<Rightarrow> file_table" where
  "find_by_names_in_folder_in_scope nr sc folder names fs =
     (if names = [] then []
      else
        let query_names = add_normalization_query_variants nr names;
            normalized = normalized_non_ascii_names nr names;
            files = select_where (\<lambda>f. in_folder sc folder f \<and> fm_name f \<in> set query_names) fs in
        if normalized = {} then files
        else files @ filter (\<lambda>f. fm_id f \<notin> fm_id ` set files \<and> normalize_name nr (fm_name f) \<in> normalized)
                       (find_by_folder_in_scope sc folder fs))"

definition find_names_by_names_in_folder_in_scope ::
  "workspace_resource_scope \<Rightarrow> int option \<Rightarrow> string list \<Rightarrow> file_table \<Rightarrow> string list" where
  "find_names_by_names_in_folder_in_scope sc folder names fs =
     (if names = [] then []
      else map fm_name (select_where (\<lambda>f. in_folder sc folder f \<and> fm_name f \<in> set names) fs))"

section \<open>Proposing a free name\<close>

definition UNIQUE_FILENAME_CANDIDATE_BATCH_SIZE :: nat where "UNIQUE_FILENAME_CANDIDATE_BATCH_SIZE = 32"

definition unique_filename_candidate_error :: "string \<Rightarrow> aster_error" where
  "unique_filename_candidate_error name =
     validation_error (''failed to resolve a unique file name candidate for '' @ quoted name)"

definition checked_candidate_copy_number :: "string \<Rightarrow> nat \<Rightarrow> nat \<Rightarrow> nat aster_result" where
  "checked_candidate_copy_number name start offset =
     (if offset \<le> u32_max \<and> start + offset \<le> u32_max then Inr (start + offset) else Inl (unique_filename_candidate_error name))"

fun build_copy_filename_candidate_batch_from :: "name_rules \<Rightarrow> string \<Rightarrow> nat \<Rightarrow> nat list \<Rightarrow> string list aster_result" where
  "build_copy_filename_candidate_batch_from nr name start [] = Inr []"
| "build_copy_filename_candidate_batch_from nr name start (off # offs) =
     bind_result (checked_candidate_copy_number name start off) (\<lambda>n.
     bind_result (build_copy_filename_candidate_batch_from nr name start offs) (\<lambda>cs. Inr (nr_copy_name nr name n # cs)))"

definition build_copy_filename_candidate_batch :: "name_rules \<Rightarrow> string \<Rightarrow> nat \<Rightarrow> nat \<Rightarrow> string list aster_result" where
  "build_copy_filename_candidate_batch nr name start batch_len = build_copy_filename_candidate_batch_from nr name start [0..<batch_len]"

definition build_unique_filename_candidates :: "name_rules \<Rightarrow> string \<Rightarrow> string list aster_result" where
  "build_unique_filename_candidates nr name =
     bind_result (build_copy_filename_candidate_batch nr name (nr_next_copy_number nr name)
        (UNIQUE_FILENAME_CANDIDATE_BATCH_SIZE - 1)) (\<lambda>cs. Inr (name # cs))"

text \<open>The first candidate that no file of the folder has, up to normalisation.\<close>

definition free_candidate ::
  "name_rules \<Rightarrow> workspace_resource_scope \<Rightarrow> int option \<Rightarrow> file_table \<Rightarrow> string list \<Rightarrow> string option" where
  "free_candidate nr sc folder fs candidates =
     (let existing = normalize_existing_filename nr ` set (find_names_by_names_in_folder_in_scope sc folder
             (add_normalization_query_variants nr candidates) fs)
      in List.find (\<lambda>c. c \<notin> existing) candidates)"

function resolve_from ::
  "name_rules \<Rightarrow> workspace_resource_scope \<Rightarrow> int option \<Rightarrow> string \<Rightarrow> file_table \<Rightarrow> nat \<Rightarrow> string aster_result" where
  "resolve_from nr sc folder name fs next =
     (case build_copy_filename_candidate_batch nr name next UNIQUE_FILENAME_CANDIDATE_BATCH_SIZE of
        Inl e \<Rightarrow> Inl e
      | Inr candidates \<Rightarrow>
          (case free_candidate nr sc folder fs candidates of
             Some c \<Rightarrow> Inr c
           | None \<Rightarrow>
               (case checked_candidate_copy_number name next UNIQUE_FILENAME_CANDIDATE_BATCH_SIZE of
                  Inl e \<Rightarrow> Inl e
                | Inr next' \<Rightarrow> resolve_from nr sc folder name fs next')))"
  by pat_completeness auto

termination
  by (relation "measure (\<lambda>(nr, sc, folder, name, fs, next). Suc u32_max - next)")
     (auto simp: checked_candidate_copy_number_def UNIQUE_FILENAME_CANDIDATE_BATCH_SIZE_def split: if_splits)

definition resolve_unique_filename_in_scope ::
  "name_rules \<Rightarrow> workspace_resource_scope \<Rightarrow> int option \<Rightarrow> string \<Rightarrow> file_table \<Rightarrow> string aster_result" where
  "resolve_unique_filename_in_scope nr sc folder name fs =
     bind_result (nr_normalize_validate_name nr name) (\<lambda>n.
     bind_result (build_unique_filename_candidates nr n) (\<lambda>candidates.
     case free_candidate nr sc folder fs candidates of
       Some c \<Rightarrow> Inr c
     | None \<Rightarrow>
         bind_result (checked_candidate_copy_number n (nr_next_copy_number nr n) (UNIQUE_FILENAME_CANDIDATE_BATCH_SIZE - 1))
           (resolve_from nr sc folder n fs)))"

declare resolve_from.simps [simp del]

section \<open>Proposed names are free\<close>

definition names_of :: "workspace_resource_scope \<Rightarrow> int option \<Rightarrow> file_table \<Rightarrow> string set" where
  "names_of sc folder fs = fm_name ` set (select_where (in_folder sc folder) fs)"

text \<open>Stored names are in one of the two normal forms.\<close>

definition names_normal :: "name_rules \<Rightarrow> workspace_resource_scope \<Rightarrow> int option \<Rightarrow> file_table \<Rightarrow> bool" where
  "names_normal nr sc folder fs = (\<forall>s \<in> names_of sc folder fs. is_nfc nr s \<or> is_nfd nr s)"

lemma lawfulD:
  assumes "lawful nr n"
  shows "is_ascii s \<Longrightarrow> nr_nfc nr s = s" "is_ascii s \<Longrightarrow> nr_nfd nr s = s" "nr_nfd nr (nr_nfc nr s) = nr_nfd nr s"
    "nr_nfc nr (nr_nfd nr s) = nr_nfc nr s" "nr_nfc nr n = n" "nr_nfc nr (nr_copy_name nr n k) = nr_copy_name nr n k"
    "inj (nr_copy_name nr n)"
  using assms by (auto simp: lawful_def is_nfc_def)

lemma set_push_unique [simp]: "set (push_unique vs v) = insert v (set vs)"
  by (auto simp: push_unique_def)

lemma push_variants_set:
  assumes "lawful nr n"
  shows "set vs \<union> {name, nr_nfd nr name} \<subseteq> set (push_variants nr vs name)"
  using lawfulD(2) [OF assms, of name] by (auto simp: push_variants_def Let_def is_nfd_def)

lemma variants_cover:
  assumes "lawful nr n" "c \<in> set names"
  shows "c \<in> set (add_normalization_query_variants nr names)" "nr_nfd nr c \<in> set (add_normalization_query_variants nr names)"
proof -
  have f: "set vs \<union> set ns \<union> nr_nfd nr ` set ns \<subseteq> set (foldl (push_variants nr) vs ns)" for vs ns
  proof (induction ns arbitrary: vs)
    case (Cons a ns)
    have "set (push_variants nr vs a) \<union> set ns \<union> nr_nfd nr ` set ns \<subseteq> set (foldl (push_variants nr) vs (a # ns))"
      using Cons.IH [of "push_variants nr vs a"] by simp
    then show ?case using push_variants_set [OF assms(1), of vs a] by auto
  qed simp
  show "c \<in> set (add_normalization_query_variants nr names)" "nr_nfd nr c \<in> set (add_normalization_query_variants nr names)"
    using assms f [of "[]" names] lawfulD(2) [OF assms(1), of c]
    by (auto simp: add_normalization_query_variants_def list_all_iff)
qed

lemma normalize_existing: "lawful nr n \<Longrightarrow> normalize_existing_filename nr s = nr_nfc nr s"
  using lawfulD(1) [of nr n s] by (auto simp: normalize_existing_filename_def is_nfc_def)

lemma free_candidate_find:
  assumes "lawful nr n" "names_normal nr sc folder fs" "\<forall>c \<in> set cs. nr_nfc nr c = c"
  shows "free_candidate nr sc folder fs cs = List.find (\<lambda>c. c \<notin> nr_nfc nr ` names_of sc folder fs) cs"
proof -
  let ?q = "add_normalization_query_variants nr cs"
  have "c \<in> normalize_existing_filename nr ` set (find_names_by_names_in_folder_in_scope sc folder ?q fs)
      \<longleftrightarrow> c \<in> nr_nfc nr ` names_of sc folder fs" if c: "c \<in> set cs" for c
  proof
    assume "c \<in> nr_nfc nr ` names_of sc folder fs"
    then obtain s where s: "s \<in> names_of sc folder fs" "c = nr_nfc nr s" by blast
    have "s = c \<or> s = nr_nfd nr c"
      using assms(2) s lawfulD(3) [OF assms(1), of s] by (auto simp: names_normal_def is_nfc_def is_nfd_def)
    then have "s \<in> set ?q" using variants_cover [OF assms(1) c] by auto
    then have "s \<in> set (find_names_by_names_in_folder_in_scope sc folder ?q fs)"
      using s(1) by (auto simp: find_names_by_names_in_folder_in_scope_def names_of_def select_where_def)
    then show "c \<in> normalize_existing_filename nr ` set (find_names_by_names_in_folder_in_scope sc folder ?q fs)"
      using s(2) normalize_existing [OF assms(1)] by auto
  qed (auto simp: find_names_by_names_in_folder_in_scope_def names_of_def select_where_def normalize_existing [OF assms(1)]
      split: if_splits)
  then show ?thesis unfolding free_candidate_def Let_def by (intro find_cong) auto
qed

lemma batch_from:
  "build_copy_filename_candidate_batch_from nr name start offs =
     (if \<forall>i \<in> set offs. start + i \<le> u32_max then Inr (map (\<lambda>i. nr_copy_name nr name (start + i)) offs)
      else Inl (unique_filename_candidate_error name))"
  by (induction offs) (auto simp: checked_candidate_copy_number_def)

lemma batch:
  assumes "start + k \<le> Suc u32_max"
  shows "build_copy_filename_candidate_batch nr name start k = Inr (map (nr_copy_name nr name) [start..<start + k])"
proof -
  have "map (\<lambda>i. nr_copy_name nr name (start + i)) [0..<k] = map (nr_copy_name nr name) (map (\<lambda>i. start + i) [0..<k])" by simp
  also have "map (\<lambda>i. start + i) [0..<k] = [start..<start + k]" using map_add_upt [of start k] by (simp add: add.commute)
  finally show ?thesis using assms by (auto simp: build_copy_filename_candidate_batch_def batch_from)
qed

lemma find_free_None: "List.find (\<lambda>c. c \<notin> T) (map f [a..<b]) = None \<longleftrightarrow> f ` {a..<b} \<subseteq> T"
  by (auto simp: find_None_iff)

lemma find_free_Some: "List.find (\<lambda>c. c \<notin> T) cs = Some c \<Longrightarrow> c \<in> set cs \<and> c \<notin> T"
  by (auto simp: find_Some_iff)

text \<open>The loop: the numbers tried so far are all taken, so they are no more than the names in use.\<close>

lemma resolve_from_free:
  assumes law: "lawful nr n" "names_normal nr sc folder fs" and T: "T = nr_nfc nr ` names_of sc folder fs"
    and tried: "s \<le> next" "nr_copy_name nr n ` {s..<next} \<subseteq> T" and room: "s + card T + 31 \<le> u32_max"
  shows "\<exists>k. resolve_from nr sc folder n fs next = Inr (nr_copy_name nr n k) \<and> nr_copy_name nr n k \<notin> T"
  using tried
proof (induction "Suc u32_max - next" arbitrary: "next" rule: less_induct)
  case less
  have fin: "finite T" by (simp add: T names_of_def)
  have used: "b \<le> s + card T" if "s \<le> b" "nr_copy_name nr n ` {s..<b} \<subseteq> T" for b
    using card_mono [OF fin that(2)] that(1) card_image [OF inj_on_subset [OF lawfulD(7) [OF law(1)] subset_UNIV], of "{s..<b}"] by simp
  have n: "next \<le> s + card T" by (rule used [OF less.prems])
  let ?cs = "map (nr_copy_name nr n) [next..<next + 32]"
  have b: "build_copy_filename_candidate_batch nr n next UNIQUE_FILENAME_CANDIDATE_BATCH_SIZE = Inr ?cs"
    unfolding UNIQUE_FILENAME_CANDIDATE_BATCH_SIZE_def by (rule batch) (use n room in simp)
  have f: "free_candidate nr sc folder fs ?cs = List.find (\<lambda>c. c \<notin> T) ?cs"
    unfolding T by (rule free_candidate_find [OF law]) (simp add: lawfulD(6) [OF law(1)])
  show ?case
  proof (cases "List.find (\<lambda>c. c \<notin> T) ?cs")
    case None
    then have sub: "nr_copy_name nr n ` {s..<next + 32} \<subseteq> T"
      using less.prems by (fastforce simp: find_free_None image_subset_iff)
    then have "next + 32 \<le> s + card T" using used [of "next + 32"] less.prems(1) by simp
    then have c: "checked_candidate_copy_number n next UNIQUE_FILENAME_CANDIDATE_BATCH_SIZE = Inr (next + 32)"
      using room by (simp add: checked_candidate_copy_number_def UNIQUE_FILENAME_CANDIDATE_BATCH_SIZE_def)
    have "\<exists>k. resolve_from nr sc folder n fs (next + 32) = Inr (nr_copy_name nr n k) \<and> nr_copy_name nr n k \<notin> T"
      by (rule less.hyps) (use less.prems(1) sub n room in auto)
    then show ?thesis using None c by (simp add: resolve_from.simps [of nr sc folder n fs "next"] b f del: find_free_None)
  next
    case (Some c)
    then show ?thesis using find_free_Some [OF Some] by (auto simp: resolve_from.simps [of nr sc folder n fs "next"] b f)
  qed
qed

lemma resolve_free:
  assumes law: "nr_normalize_validate_name nr name = Inr n" "lawful nr n" "names_normal nr sc folder fs"
    and T: "T = nr_nfc nr ` names_of sc folder fs" and room: "nr_next_copy_number nr n + card T + 31 \<le> u32_max"
  shows "\<exists>c. resolve_unique_filename_in_scope nr sc folder name fs = Inr c \<and> c \<notin> T
    \<and> (if n \<in> T then c \<in> range (nr_copy_name nr n) else c = n)"
proof -
  let ?s = "nr_next_copy_number nr n"
  let ?cs = "n # map (nr_copy_name nr n) [?s..<?s + 31]"
  have b: "build_unique_filename_candidates nr n = Inr ?cs"
    using batch [of ?s 31 nr n] room by (simp add: build_unique_filename_candidates_def UNIQUE_FILENAME_CANDIDATE_BATCH_SIZE_def)
  have f: "free_candidate nr sc folder fs ?cs = List.find (\<lambda>c. c \<notin> T) ?cs"
    unfolding T by (rule free_candidate_find [OF law(2,3)]) (simp add: lawfulD(5,6) [OF law(2)])
  have c: "checked_candidate_copy_number n ?s (UNIQUE_FILENAME_CANDIDATE_BATCH_SIZE - 1) = Inr (?s + 31)"
    using room by (simp add: checked_candidate_copy_number_def UNIQUE_FILENAME_CANDIDATE_BATCH_SIZE_def)
  have r: "resolve_unique_filename_in_scope nr sc folder name fs =
      (case List.find (\<lambda>c. c \<notin> T) ?cs of Some c \<Rightarrow> Inr c | None \<Rightarrow> resolve_from nr sc folder n fs (?s + 31))"
    unfolding resolve_unique_filename_in_scope_def law(1) b c bind_result_simps f ..
  show ?thesis
  proof (cases "n \<in> T")
    case True
    show ?thesis
    proof (cases "List.find (\<lambda>c. c \<notin> T) (map (nr_copy_name nr n) [?s..<?s + 31])")
      case None
      then have "nr_copy_name nr n ` {?s..<?s + 31} \<subseteq> T" by (simp only: find_free_None)
      then obtain k where "resolve_from nr sc folder n fs (?s + 31) = Inr (nr_copy_name nr n k)" "nr_copy_name nr n k \<notin> T"
        using resolve_from_free [OF law(2,3) T, of ?s "?s + 31"] room by auto
      then show ?thesis using r None True by auto
    next
      case (Some d)
      then show ?thesis using find_free_Some [OF Some] r True by auto
    qed
  qed (use r in simp)
qed

lemma card_names: "card (nr_nfc nr ` names_of sc folder fs) \<le> length (select_where (in_folder sc folder) fs)"
  unfolding names_of_def image_image by (rule order.trans [OF card_image_le]) (simp_all add: card_length)

lemma find_by_name_None:
  "find_by_name_in_folder_in_scope nr sc folder c fs = None \<longleftrightarrow> normalize_name nr c \<notin> normalize_name nr ` names_of sc folder fs"
proof -
  have "find_by_name_in_folder_in_scope nr sc folder c fs = None \<longleftrightarrow>
      (\<forall>f \<in> set (select_where (in_folder sc folder) fs). fm_name f \<noteq> c \<and> normalize_name nr (fm_name f) \<noteq> normalize_name nr c)"
    by (auto simp: find_by_name_in_folder_in_scope_def find_None_iff find_by_folder_in_scope_def in_folder_def find_Some_iff
        split: option.splits)
  then show ?thesis by (auto simp: names_of_def image_iff)
qed

text \<open>
  (C24) A proposed name is free, and one is proposed whenever the numbers do not run out. For a valid name, in a
  folder whose stored names are in a Unicode normal form and which has fewer files than there are copy numbers
  left, the loop ends with a name that no live file of the folder has, up to normalisation (a lookup by that name
  finds nothing); it is the requested name in its normal form when that is free, and a numbered copy of it
  otherwise.
\<close>

theorem resolved_name_is_free:
  assumes "nr_normalize_validate_name nr name = Inr n" "lawful nr n" "names_normal nr sc folder fs"
    and "nr_next_copy_number nr n + length (select_where (in_folder sc folder) fs) + 31 \<le> u32_max"
  shows "\<exists>c. resolve_unique_filename_in_scope nr sc folder name fs = Inr c
    \<and> find_by_name_in_folder_in_scope nr sc folder c fs = None
    \<and> (if find_by_name_in_folder_in_scope nr sc folder n fs = None then c = n else \<exists>k. c = nr_copy_name nr n k)"
proof -
  let ?T = "nr_nfc nr ` names_of sc folder fs"
  have room: "nr_next_copy_number nr n + card ?T + 31 \<le> u32_max" using card_names [of nr sc folder fs] assms(4) by linarith
  obtain c where c: "resolve_unique_filename_in_scope nr sc folder name fs = Inr c" "c \<notin> ?T"
    "if n \<in> ?T then c \<in> range (nr_copy_name nr n) else c = n"
    using resolve_free [OF assms(1-3) refl room] by blast
  have n: "nr_nfc nr n = n" "nr_nfc nr c = c" using c(3) lawfulD(5,6) [OF assms(2)] by (auto split: if_splits)
  have e: "normalize_name nr = nr_nfc nr" by (simp add: normalize_name_def fun_eq_iff)
  show ?thesis by (rule exI [of _ c]) (use c n in \<open>auto simp: find_by_name_None e split: if_splits\<close>)
qed

definition ex_names :: name_rules where
  "ex_names = \<lparr>nr_normalize_validate_name = Inr, nr_nfc = id, nr_nfd = id, nr_next_copy_number = (\<lambda>_. 1),
     nr_copy_name = (\<lambda>n k. n @ '' ('' @ nat_to_string k @ '')''), nr_next_copy_name = (\<lambda>n. n @ '' (1)''),
     nr_guess_mime = (\<lambda>_. ''text/plain'')\<rparr>"

lemma ex_names_lawful: "lawful ex_names n"
proof -
  have "inj nat_to_string" by (rule inj_on_inverseI [of _ "\<lambda>s. the (parse_nat_digits s)"]) simp
  then have "inj (nr_copy_name ex_names n)" by (simp add: ex_names_def inj_def)
  then show ?thesis by (simp add: lawful_def is_nfc_def) (simp add: ex_names_def)
qed

theorem resolved_name_is_free_witness:
  "\<exists>c. resolve_unique_filename_in_scope ex_names (RS_Personal 1) None ''a'' ex_rows = Inr c \<and> c \<noteq> ''a''
     \<and> find_by_name_in_folder_in_scope ex_names (RS_Personal 1) None c ex_rows = None"
proof -
  have t: "find_by_name_in_folder_in_scope ex_names (RS_Personal 1) None ''a'' ex_rows \<noteq> None"
    by (simp add: find_by_name_None names_of_def select_where_def in_folder_def apply_folder_condition_def active_scope_condition_def
        scope_condition_def file_example_defs)
  have "\<exists>c. resolve_unique_filename_in_scope ex_names (RS_Personal 1) None ''a'' ex_rows = Inr c
    \<and> find_by_name_in_folder_in_scope ex_names (RS_Personal 1) None c ex_rows = None
    \<and> (if find_by_name_in_folder_in_scope ex_names (RS_Personal 1) None ''a'' ex_rows = None then c = ''a''
       else \<exists>k. c = nr_copy_name ex_names ''a'' k)"
    by (rule resolved_name_is_free [OF _ ex_names_lawful])
       (simp_all add: ex_names_def names_normal_def is_nfc_def select_where_def file_example_defs u32_max_def)
  then show ?thesis using t by auto
qed

end
