(* ===== verification/Blob_Uploads.thy ===== *)
theory Blob_Uploads
  imports Blob_Cleanup
begin

text \<open>
  How an upload turns a temporary file into a blob:
  \<open>src/src/services/workspace/storage/blob_upload.rs\<close> (objects uploaded ahead of the transaction),
  \<open>src/src/services/workspace/storage/store/\<close> (the staging contract and its cleanup plans) and
  \<open>src/src/storage/drivers/local/promote.rs\<close> (moving a file to its content address without overwriting).

  The object is stored first and the row is written afterwards, in a transaction; \<open>between\<close> is what other
  transactions and handlers do in the meantime. The other work of the transaction (locks, quota, the file
  record) is the argument \<open>rest\<close>: it may fail, and then the transaction leaves no trace.
\<close>

section \<open>Objects uploaded ahead\<close>

datatype prepared_non_dedup_blob_upload =
    Prepared_Local (pp_blob_key: string) (prepared_storage_path: string) (prepared_size: int) (prepared_policy_id: int)
  | Prepared_Opaque (pp_upload_id: string) (pp_hash_prefix: string) (prepared_storage_path: string)
      (prepared_size: int) (prepared_policy_id: int)

definition ensure_matches :: "prepared_non_dedup_blob_upload \<Rightarrow> int \<Rightarrow> int \<Rightarrow> string \<Rightarrow> unit aster_result" where
  "ensure_matches p sz policy ctx =
     (if sz < 0
      then Inl (validation_error (ctx @ '' size must be non-negative, got '' @ int_to_string sz))
      else if prepared_size p \<noteq> sz
      then Inl (validation_error (''preuploaded blob size '' @ int_to_string (prepared_size p) @ '' does not match ''
             @ ctx @ '' size '' @ int_to_string sz))
      else if prepared_policy_id p \<noteq> policy
      then Inl (validation_error (''preuploaded blob policy '' @ int_to_string (prepared_policy_id p)
             @ '' does not match '' @ ctx @ '' policy '' @ int_to_string policy))
      else Inr ())"

definition cleanup_preuploaded_blob_upload ::
  "(string \<Rightarrow> delete_reply) \<Rightarrow> prepared_non_dedup_blob_upload \<Rightarrow> (int \<times> string) set \<Rightarrow> (int \<times> string) set" where
  "cleanup_preuploaded_blob_upload reply p objs =
     object_delete (reply (prepared_storage_path p)) (prepared_policy_id p, prepared_storage_path p) objs"

definition persist_preuploaded_blob ::
  "time \<Rightarrow> int \<Rightarrow> prepared_non_dedup_blob_upload \<Rightarrow> blob_table \<Rightarrow> (blob_table \<times> file_blob) aster_result" where
  "persist_preuploaded_blob now new_id p tbl =
     (case p of
        Prepared_Local key path sz policy \<Rightarrow> create_nondedup_blob_with_key now new_id sz policy key path tbl
      | Prepared_Opaque upload_id hash_prefix path sz policy \<Rightarrow>
          create_opaque_nondedup_blob now new_id sz policy hash_prefix upload_id path tbl)"

section \<open>Moving a file to its content address\<close>

datatype promote_local_file_outcome = Created | AlreadyExists

definition created :: "promote_local_file_outcome \<Rightarrow> bool" where
  "created oc = (oc = Created)"

text \<open>
  The file system as \<open>promote_local_file_if_absent\<close> meets it: the first failing call or checkpoint, if any, the
  size of the temporary file, the size of the file already at the target, and the target as it is printed.
\<close>

record promote_env =
  pe_failure :: "aster_error option"
  pe_source_size :: int
  pe_existing_size :: int
  pe_target :: string

definition size_mismatch :: "promote_env \<Rightarrow> int \<Rightarrow> int \<Rightarrow> aster_error" where
  "size_mismatch pe expected actual =
     StorageDriverError (payload_new (''existing local dedup blob size mismatch for '' @ pe_target pe @ '': expected ''
       @ int_to_string expected @ '', actual '' @ int_to_string actual))"

definition promote_local_file_if_absent ::
  "promote_env \<Rightarrow> (int \<times> string) \<Rightarrow> int \<Rightarrow> (int \<times> string) set
   \<Rightarrow> (int \<times> string) set \<times> promote_local_file_outcome aster_result" where
  "promote_local_file_if_absent pe key expected objs =
     (case pe_failure pe of
        Some e \<Rightarrow> (objs, Inl e)
      | None \<Rightarrow>
          if key \<in> objs
          then (objs, if pe_existing_size pe = expected then Inr AlreadyExists
                      else Inl (size_mismatch pe expected (pe_existing_size pe)))
          else if pe_source_size pe = expected then (insert key objs, Inr Created)
          else (objs, Inl (size_mismatch pe expected (pe_source_size pe))))"

section \<open>The staging contract\<close>

record dedup_target =
  dt_file_hash :: string
  dt_storage_path :: string

datatype temp_blob_plan = Dedup dedup_target | Preuploaded prepared_non_dedup_blob_upload

datatype temp_store_blob_cleanup_plan =
    RollbackStagedDedupIfUnreferenced
  | RetainExistingDedupObject
  | CleanupPreuploadedBlobOnDbFailure

datatype verified_temp_store_blob_source =
    ContentAddressed string
  | PreuploadedNonDedup prepared_non_dedup_blob_upload

record verified_temp_store_blob =
  vb_size :: int
  vb_policy_id :: int
  vb_storage_path :: string
  vb_source :: verified_temp_store_blob_source
  vb_cleanup :: temp_store_blob_cleanup_plan

definition from_staged_plan :: "temp_blob_plan \<Rightarrow> int \<Rightarrow> int \<Rightarrow> bool \<Rightarrow> verified_temp_store_blob aster_result" where
  "from_staged_plan plan sz policy staged =
     (if sz < 0
      then Inl (validation_error (''verified temp store blob size must be non-negative, got '' @ int_to_string sz))
      else case plan of
        Dedup t \<Rightarrow> Inr \<lparr>vb_size = sz, vb_policy_id = policy, vb_storage_path = dt_storage_path t,
                      vb_source = ContentAddressed (dt_file_hash t),
                      vb_cleanup = (if staged then RollbackStagedDedupIfUnreferenced else RetainExistingDedupObject)\<rparr>
      | Preuploaded p \<Rightarrow>
          bind_result (ensure_matches p sz policy ''verified temp store'') (\<lambda>_.
          Inr \<lparr>vb_size = sz, vb_policy_id = policy, vb_storage_path = prepared_storage_path p,
               vb_source = PreuploadedNonDedup p, vb_cleanup = CleanupPreuploadedBlobOnDbFailure\<rparr>))"

definition stage_temp_blob_before_transaction ::
  "promote_env \<Rightarrow> temp_blob_plan \<Rightarrow> int \<Rightarrow> int \<Rightarrow> (int \<times> string) set \<Rightarrow> (int \<times> string) set \<times> bool aster_result" where
  "stage_temp_blob_before_transaction pe plan policy sz objs =
     (case plan of
        Dedup t \<Rightarrow>
          let (objs', r) = promote_local_file_if_absent pe (policy, dt_storage_path t) sz objs in
          (objs', bind_result r (\<lambda>oc. Inr (created oc)))
      | Preuploaded _ \<Rightarrow> (objs, Inr False))"

text \<open>\<open>db_ok\<close>: the lookup of the row succeeded.\<close>

definition rollback_staged_dedup_blob ::
  "bool \<Rightarrow> (string \<Rightarrow> delete_reply) \<Rightarrow> string \<Rightarrow> string \<Rightarrow> int \<Rightarrow> blob_world \<Rightarrow> blob_world" where
  "rollback_staged_dedup_blob db_ok reply hash path policy w =
     (if \<not> db_ok then w
      else case find_blob_by_hash hash policy (bw_blobs w) of
             Some _ \<Rightarrow> w
           | None \<Rightarrow> w\<lparr>bw_objects := object_delete (reply path) (policy, path) (bw_objects w)\<rparr>)"

definition cleanup_staged_blob_plan_after_contract_failure ::
  "bool \<Rightarrow> (string \<Rightarrow> delete_reply) \<Rightarrow> temp_blob_plan \<Rightarrow> bool \<Rightarrow> int \<Rightarrow> blob_world \<Rightarrow> blob_world" where
  "cleanup_staged_blob_plan_after_contract_failure db_ok reply plan staged policy w =
     (case plan of
        Dedup t \<Rightarrow> if staged then rollback_staged_dedup_blob db_ok reply (dt_file_hash t) (dt_storage_path t) policy w
                  else w
      | Preuploaded p \<Rightarrow> w\<lparr>bw_objects := cleanup_preuploaded_blob_upload reply p (bw_objects w)\<rparr>)"

definition cleanup_verified_temp_blob_after_db_failure ::
  "bool \<Rightarrow> (string \<Rightarrow> delete_reply) \<Rightarrow> verified_temp_store_blob \<Rightarrow> blob_world \<Rightarrow> blob_world" where
  "cleanup_verified_temp_blob_after_db_failure db_ok reply v w =
     (case vb_cleanup v of
        RollbackStagedDedupIfUnreferenced \<Rightarrow>
          (case vb_source v of
             ContentAddressed hash \<Rightarrow> rollback_staged_dedup_blob db_ok reply hash (vb_storage_path v) (vb_policy_id v) w
           | PreuploadedNonDedup _ \<Rightarrow> w)
      | CleanupPreuploadedBlobOnDbFailure \<Rightarrow>
          (case vb_source v of
             PreuploadedNonDedup p \<Rightarrow> w\<lparr>bw_objects := cleanup_preuploaded_blob_upload reply p (bw_objects w)\<rparr>
           | ContentAddressed _ \<Rightarrow> w)
      | RetainExistingDedupObject \<Rightarrow> w)"

definition persist_temp_blob ::
  "(nat \<Rightarrow> blob_table \<Rightarrow> blob_table) \<Rightarrow> time \<Rightarrow> int \<Rightarrow> verified_temp_store_blob \<Rightarrow> blob_table
   \<Rightarrow> (blob_table \<times> file_blob) aster_result" where
  "persist_temp_blob others now new_id v tbl =
     (case vb_source v of
        ContentAddressed hash \<Rightarrow>
          let (tbl', r) = find_or_create_blob others now new_id hash (vb_size v) (vb_policy_id v) (vb_storage_path v) tbl in
          bind_result r (\<lambda>res. Inr (tbl', fr_model res))
      | PreuploadedNonDedup p \<Rightarrow> persist_preuploaded_blob now new_id p tbl)"

text \<open>
  The blob side of \<open>persist_temp_store\<close>: stage, check the contract, run the transaction, and clean up by the
  plan when the upload was cancelled after staging, when the entry turns out to be published already
  (result \<open>None\<close>) or when the transaction has failed for certain (\<open>se_uncertain e\<close>: the commit may have
  happened). \<open>se_refused\<close> is the outcome of the checkpoints and the quota check ahead of staging,
  \<open>se_cancelled\<close> that of the checkpoint after it.
\<close>

record store_env =
  se_refused :: "aster_error option"
  se_promote :: promote_env
  se_cancelled :: "aster_error option"
  se_published :: bool
  se_db_ok :: bool
  se_delete :: "string \<Rightarrow> delete_reply"
  se_uncertain :: "aster_error \<Rightarrow> bool"
  se_now :: time
  se_new_id :: int

text \<open>The transaction: nothing is written when the entry is already published or a part of it fails.\<close>

definition store_transaction ::
  "store_env \<Rightarrow> (file_blob \<Rightarrow> unit aster_result) \<Rightarrow> verified_temp_store_blob \<Rightarrow> blob_world
   \<Rightarrow> (blob_world \<times> file_blob option) aster_result" where
  "store_transaction env rest v w =
     (if se_published env then Inr (w, None)
      else bind_result (persist_temp_blob (\<lambda>_ t. t) (se_now env) (se_new_id env) v (bw_blobs w)) (\<lambda>(tbl, b).
           bind_result (rest b) (\<lambda>_.
           Inr (w\<lparr>bw_blobs := tbl, bw_file_refs := fb_id b # bw_file_refs w\<rparr>, Some b))))"

definition persist_temp_store ::
  "store_env \<Rightarrow> (blob_world \<Rightarrow> blob_world) \<Rightarrow> (file_blob \<Rightarrow> unit aster_result) \<Rightarrow> temp_blob_plan \<Rightarrow> int \<Rightarrow> int
   \<Rightarrow> blob_world \<Rightarrow> blob_world \<times> file_blob option aster_result" where
  "persist_temp_store env between rest plan policy sz w =
     (case se_refused env of Some e \<Rightarrow> (w, Inl e) | None \<Rightarrow>
      case stage_temp_blob_before_transaction (se_promote env) plan policy sz (bw_objects w) of
        (objs, Inl e) \<Rightarrow> (w\<lparr>bw_objects := objs\<rparr>, Inl e)
      | (objs, Inr staged) \<Rightarrow>
          let w1 = w\<lparr>bw_objects := objs\<rparr> in
          case from_staged_plan plan sz policy staged of
            Inl e \<Rightarrow> (cleanup_staged_blob_plan_after_contract_failure (se_db_ok env) (se_delete env) plan staged policy w1, Inl e)
          | Inr v \<Rightarrow>
              let undo = cleanup_verified_temp_blob_after_db_failure (se_db_ok env) (se_delete env) v in
              case se_cancelled env of Some e \<Rightarrow> (undo w1, Inl e) | None \<Rightarrow>
              let w2 = between w1 in
              case store_transaction env rest v w2 of
                Inr (w3, None) \<Rightarrow> (undo w3, Inr None)
              | Inr (w3, Some b) \<Rightarrow> (w3, Inr (Some b))
              | Inl e \<Rightarrow> (if se_uncertain env e then w2 else undo w2, Inl e))"

section \<open>Uploads that nothing disturbs\<close>

lemma promote_objects:
  "promote_local_file_if_absent pe key expected objs = (objs', r) \<Longrightarrow>
     (case r of Inr Created \<Rightarrow> key \<notin> objs \<and> objs' = insert key objs
              | Inr AlreadyExists \<Rightarrow> key \<in> objs \<and> objs' = objs
              | Inl _ \<Rightarrow> objs' = objs)"
  by (auto simp: promote_local_file_if_absent_def split: option.splits if_splits)

lemma stage_objects:
  assumes "stage_temp_blob_before_transaction pe (Dedup t) policy sz objs = (objs', r)"
  shows "case r of Inl _ \<Rightarrow> objs' = objs
    | Inr staged \<Rightarrow> objs' = insert (policy, dt_storage_path t) objs \<and> (staged \<longleftrightarrow> (policy, dt_storage_path t) \<notin> objs)"
proof -
  obtain o1 r1 where p: "promote_local_file_if_absent pe (policy, dt_storage_path t) sz objs = (o1, r1)" by fastforce
  show ?thesis
  proof (cases r1)
    case (Inr oc)
    then show ?thesis using assms p promote_objects [OF p]
      by (cases oc) (auto simp: stage_temp_blob_before_transaction_def created_def)
  qed (use assms p promote_objects [OF p] in \<open>auto simp: stage_temp_blob_before_transaction_def\<close>)
qed

lemma create_blob_InrD:
  assumes "create_blob now row tbl = Inr (tbl', b)" "fb_ref_count row = 1"
  shows "b = row \<and> tbl' = tbl @ [row]"
  using assms by (auto simp: create_blob_def insert_blob_def Let_def split: sum.splits if_splits)

lemma persist_preuploaded_InrD:
  assumes "persist_preuploaded_blob now new_id p tbl = Inr (tbl', b)"
  shows "b \<in> set tbl' \<and> fb_ref_count b = 1 \<and> storage_path_for_connector b = Some (prepared_storage_path p)
    \<and> fb_policy_id b = prepared_policy_id p"
  using assms
  by (cases p)
     (auto simp: persist_preuploaded_blob_def create_nondedup_blob_with_key_def create_opaque_nondedup_blob_def
        storage_path_for_connector_def has_connector_object_def new_row_facts dest!: create_blob_InrD
        split: if_splits)

text \<open>The row that an upload of known content obtains.\<close>

lemma persist_known_InrD:
  assumes "blob_table_ok tbl" "vb_source v = ContentAddressed hash"
    and "persist_temp_blob (\<lambda>_ t. t) now new_id v tbl = Inr (tbl', b)"
  shows "b \<in> set tbl' \<and> 0 < fb_ref_count b \<and> fb_policy_id b = vb_policy_id v
    \<and> (find_blob_by_hash hash (vb_policy_id v) tbl = None \<and> storage_path_for_connector b = Some (vb_storage_path v)
       \<or> (\<exists>r. find_blob_by_hash hash (vb_policy_id v) tbl = Some r \<and> same_place b r))"
proof -
  let ?row = "new_blob_row now new_id hash (vb_size v) (vb_policy_id v) (Some (vb_storage_path v)) Stored"
  obtain res where res: "find_or_create_blob (\<lambda>_ t. t) now new_id hash (vb_size v) (vb_policy_id v) (vb_storage_path v) tbl
      = (tbl', Inr res)" "b = fr_model res"
    using assms(2,3) by (auto simp: persist_temp_blob_def case_prod_beta Let_def bind_result_Inr_iff prod_eq_iff)
  have s: "slots_distinct tbl" using assms(1) by (simp add: blob_table_ok_def)
  have f: "find_slot hash (vb_policy_id v) Stored tbl = find_blob_by_hash hash (vb_policy_id v) tbl"
    by (simp add: find_slot_def find_blob_by_hash_def)
  note q = res(1) [unfolded find_or_create_blob_quiet [OF assms(1)] adopt_or_insert_def]
  show ?thesis
  proof (cases "find_blob_by_hash hash (vb_policy_id v) tbl")
    case None
    then have "find_slot (fb_hash ?row) (fb_policy_id ?row) (fb_backing ?row) tbl = None"
      using f by (simp add: new_blob_row_def)
    then have "tbl' = tbl @ [?row]" "fr_model res = ?row" using q by auto
    then show ?thesis using None res(2)
      by (simp add: new_row_facts storage_path_for_connector_def has_connector_object_def)
  next
    case (Some r)
    then have r: "find_slot (fb_hash ?row) (fb_policy_id ?row) (fb_backing ?row) tbl = Some r"
      using f by (simp add: new_blob_row_def)
    have "r \<in> set tbl" "fb_policy_id r = vb_policy_id v" using Some f find_slot_Some [OF s] by auto
    moreover have "0 \<le> fb_ref_count r" "b = increment_row now 1 r"
      "tbl' = map (\<lambda>x. if fb_id x = fb_id r then increment_row now 1 x else x) tbl"
      using q r res(2) by (auto split: if_splits)
    ultimately show ?thesis using Some by (auto simp: increment_row_def same_place_def image_iff intro!: bexI [of _ r])
  qed
qed

lemma rollback_world:
  assumes "reply path = Deleted" "db_ok"
  shows "rollback_staged_dedup_blob db_ok reply hash path policy w =
    (if find_blob_by_hash hash policy (bw_blobs w) = None
     then w\<lparr>bw_objects := bw_objects w - {(policy, path)}\<rparr> else w)"
  using assms by (auto simp: rollback_staged_dedup_blob_def object_delete_def split: option.splits)

text \<open>What an upload that published nothing leaves behind.\<close>

definition left_as_before :: "temp_blob_plan \<Rightarrow> int \<Rightarrow> blob_world \<Rightarrow> blob_world \<Rightarrow> bool" where
  "left_as_before plan policy w w' =
     (bw_blobs w' = bw_blobs w \<and> bw_file_refs w' = bw_file_refs w \<and> bw_revision_refs w' = bw_revision_refs w
      \<and> (case plan of
           Dedup t \<Rightarrow> bw_objects w' = bw_objects w
                     \<or> find_blob_by_hash (dt_file_hash t) policy (bw_blobs w) \<noteq> None
                       \<and> bw_objects w' = insert (policy, dt_storage_path t) (bw_objects w)
         | Preuploaded p \<Rightarrow> bw_objects w' \<subseteq> bw_objects w
             \<and> bw_objects w - {(prepared_policy_id p, prepared_storage_path p)} \<subseteq> bw_objects w'))"

lemma store_transaction_Inr:
  assumes "store_transaction env rest v w = Inr (w', r)"
  shows "case r of None \<Rightarrow> w' = w
    | Some b \<Rightarrow> \<exists>tbl. persist_temp_blob (\<lambda>_ t. t) (se_now env) (se_new_id env) v (bw_blobs w) = Inr (tbl, b)
        \<and> rest b = Inr () \<and> w' = w\<lparr>bw_blobs := tbl, bw_file_refs := fb_id b # bw_file_refs w\<rparr>"
  using assms by (auto simp: store_transaction_def bind_result_Inr_iff split: if_splits)

lemma persist_temp_store_undone:
  assumes "persist_temp_store env id rest plan policy sz w = (w', r)" "r = Inr None \<or> (\<exists>e. r = Inl e \<and> \<not> se_uncertain env e)"
    "\<forall>p. se_delete env p = Deleted" "se_db_ok env"
  shows "left_as_before plan policy w w'"
proof (cases "se_refused env")
  case None
  show ?thesis
  proof (cases plan)
    case (Dedup t)
    obtain objs q where st: "stage_temp_blob_before_transaction (se_promote env) (Dedup t) policy sz (bw_objects w) = (objs, q)"
      by fastforce
    show ?thesis
    proof (cases q)
      case (Inl e')
      then show ?thesis using assms(1) st stage_objects [OF st] Dedup None
        by (simp add: persist_temp_store_def left_as_before_def)
    next
      case (Inr staged)
      let ?key = "(policy, dt_storage_path t)"
      have o': "objs = insert ?key (bw_objects w)" "staged \<longleftrightarrow> ?key \<notin> bw_objects w"
        using stage_objects [OF st] Inr by auto
      have w': "w' = (if staged then rollback_staged_dedup_blob True (se_delete env) (dt_file_hash t) (dt_storage_path t) policy
            (w\<lparr>bw_objects := objs\<rparr>) else w\<lparr>bw_objects := objs\<rparr>)"
        using assms st Inr Dedup None
        by (auto simp: persist_temp_store_def from_staged_plan_def cleanup_staged_blob_plan_after_contract_failure_def
            cleanup_verified_temp_blob_after_db_failure_def Let_def split: if_splits sum.splits option.splits
            dest!: store_transaction_Inr)
      then show ?thesis using o' Dedup assms(3) by (auto simp: rollback_world left_as_before_def split: if_splits)
    qed
  next
    case (Preuploaded p)
    then show ?thesis using assms None
      by (auto simp: persist_temp_store_def stage_temp_blob_before_transaction_def from_staged_plan_def Let_def
          cleanup_staged_blob_plan_after_contract_failure_def cleanup_verified_temp_blob_after_db_failure_def
          cleanup_preuploaded_blob_upload_def object_delete_def bind_result_Inr_iff left_as_before_def
          split: if_splits sum.splits option.splits dest!: store_transaction_Inr)
  qed
qed (use assms in \<open>auto simp: persist_temp_store_def left_as_before_def split: temp_blob_plan.splits\<close>)

lemma persist_temp_store_published:
  assumes "persist_temp_store env id rest plan policy sz w = (w', Inr (Some b))" "blob_table_ok (bw_blobs w)"
    and "case plan of
        Dedup t \<Rightarrow> \<forall>r. find_blob_by_hash (dt_file_hash t) policy (bw_blobs w) = Some r
                    \<longrightarrow> fb_storage_path r = Some (dt_storage_path t)
      | Preuploaded p \<Rightarrow> (policy, prepared_storage_path p) \<in> bw_objects w"
  shows "b \<in> set (bw_blobs w') \<and> 0 < fb_ref_count b \<and> object_present b (bw_objects w')
    \<and> bw_file_refs w' = fb_id b # bw_file_refs w \<and> rest b = Inr ()"
proof -
  obtain objs staged v where st: "stage_temp_blob_before_transaction (se_promote env) plan policy sz (bw_objects w) = (objs, Inr staged)"
    "from_staged_plan plan sz policy staged = Inr v"
    "store_transaction env rest v (w\<lparr>bw_objects := objs\<rparr>) = Inr (w', Some b)"
    using assms(1) by (auto simp: persist_temp_store_def Let_def split: option.splits sum.splits prod.splits)
  obtain tbl where r: "persist_temp_blob (\<lambda>_ t. t) (se_now env) (se_new_id env) v (bw_blobs w) = Inr (tbl, b)"
    "rest b = Inr ()" "w' = w\<lparr>bw_objects := objs, bw_blobs := tbl, bw_file_refs := fb_id b # bw_file_refs w\<rparr>"
    using store_transaction_Inr [OF st(3)] by auto
  show ?thesis
  proof (cases plan)
    case (Dedup t)
    have v: "vb_source v = ContentAddressed (dt_file_hash t)" "vb_policy_id v = policy" "vb_storage_path v = dt_storage_path t"
      using st(2) Dedup by (auto simp: from_staged_plan_def split: if_splits)
    have "(policy, dt_storage_path t) \<in> objs" using stage_objects [OF st(1) [unfolded Dedup]] by simp
    moreover note k = persist_known_InrD [OF assms(2) v(1) r(1)]
    have "fb_policy_id b = policy" using k v(2) by simp
    moreover have "storage_path_for_connector b = Some q \<Longrightarrow> q = dt_storage_path t" for q
      using k v assms(3) Dedup by (auto simp: storage_path_for_connector_def same_place_def split: if_splits)
    ultimately have "object_present b objs" by (auto simp: object_present_def)
    then show ?thesis using k r(2,3) by simp
  next
    case (Preuploaded p)
    have o': "objs = bw_objects w" using st(1) Preuploaded by (simp add: stage_temp_blob_before_transaction_def)
    have "vb_source v = PreuploadedNonDedup p" "prepared_policy_id p = policy"
      using st(2) Preuploaded by (auto simp: from_staged_plan_def ensure_matches_def bind_result_Inr_iff split: if_splits)
    then have "persist_preuploaded_blob (se_now env) (se_new_id env) p (bw_blobs w) = Inr (tbl, b)"
      using r(1) by (simp add: persist_temp_blob_def)
    from persist_preuploaded_InrD [OF this] show ?thesis
      using assms(3) Preuploaded r(2,3) \<open>prepared_policy_id p = policy\<close> o' by (auto simp: object_present_def)
  qed
qed

text \<open>
  (C34) An upload that nothing disturbs is all or nothing. If it publishes, its blob is in the table with a
  positive count, the new file refers to it and its object is stored. If it is refused, cancelled, fails
  for certain or finds its entry published already, the tables are as before and so are the stored objects:
  a staged object is taken back, unless a row with its hash exists, and of the objects uploaded ahead at
  most the upload's own is removed.
\<close>

theorem undisturbed_upload_all_or_nothing:
  assumes "persist_temp_store env id rest plan policy sz w = (w', r)" "blob_table_ok (bw_blobs w)"
    and "\<forall>p. se_delete env p = Deleted" "se_db_ok env" "\<forall>e. \<not> se_uncertain env e"
    and "case plan of
        Dedup t \<Rightarrow> \<forall>x. find_blob_by_hash (dt_file_hash t) policy (bw_blobs w) = Some x
                    \<longrightarrow> fb_storage_path x = Some (dt_storage_path t)
      | Preuploaded p \<Rightarrow> (policy, prepared_storage_path p) \<in> bw_objects w"
  shows "case r of
      Inr (Some b) \<Rightarrow> b \<in> set (bw_blobs w') \<and> 0 < fb_ref_count b \<and> object_present b (bw_objects w')
        \<and> bw_file_refs w' = fb_id b # bw_file_refs w \<and> rest b = Inr ()
    | _ \<Rightarrow> left_as_before plan policy w w'"
proof -
  consider e where "r = Inl e" | "r = Inr None" | b where "r = Inr (Some b)"
    by (metis not_None_eq old.sum.exhaust)
  then show ?thesis
    using persist_temp_store_undone [OF assms(1) _ assms(3,4)] assms(5)
      persist_temp_store_published [of env rest plan policy sz w w'] assms(1,2,6)
    by cases auto
qed

definition ex_store_env :: store_env where
  "ex_store_env = \<lparr>se_refused = None, se_promote = \<lparr>pe_failure = None, pe_source_size = 5, pe_existing_size = 5, pe_target = ''/data/files/ab/c''\<rparr>,
     se_cancelled = None, se_published = False, se_db_ok = True, se_delete = (\<lambda>_. Deleted), se_uncertain = (\<lambda>_. False), se_now = 60, se_new_id = 9\<rparr>"

definition ex_target :: dedup_target where
  "ex_target = \<lparr>dt_file_hash = ''abc'', dt_storage_path = ''files/ab/c''\<rparr>"

definition ex_empty_world :: blob_world where
  "ex_empty_world = \<lparr>bw_blobs = [], bw_objects = {}, bw_file_refs = [], bw_revision_refs = []\<rparr>"

definition ex_new_row :: file_blob where
  "ex_new_row = new_blob_row 60 9 ''abc'' 5 1 (Some ''files/ab/c'') Stored"

lemma ex_find_or_create:
  "find_or_create_blob (\<lambda>_ t. t) 60 9 ''abc'' 5 1 ''files/ab/c'' []
     = ([ex_new_row], Inr \<lparr>fr_model = ex_new_row, fr_inserted = True\<rparr>)"
proof -
  have "blob_table_ok []" by (simp add: blob_table_ok_def unique_key_def slots_distinct_def)
  from find_or_create_blob_quiet [OF this] show ?thesis
    by (simp add: adopt_or_insert_def find_slot_def ex_new_row_def)
qed

lemma ex_upload_runs:
  assumes "bw_blobs (between (w\<lparr>bw_objects := insert (1, ''files/ab/c'') (bw_objects w)\<rparr>)) = []"
  shows "persist_temp_store ex_store_env between (\<lambda>_. Inr ()) (Dedup ex_target) 1 5 w =
    (let w2 = between (w\<lparr>bw_objects := insert (1, ''files/ab/c'') (bw_objects w)\<rparr>) in
     (w2\<lparr>bw_blobs := [ex_new_row], bw_file_refs := 9 # bw_file_refs w2\<rparr>, Inr (Some ex_new_row)))"
proof -
  have i: "fb_id ex_new_row = 9" by (simp add: ex_new_row_def new_row_facts)
  have "bw_objects w = insert (1, ''files/ab/c'') (bw_objects w)" if "(1, ''files/ab/c'') \<in> bw_objects w"
    using that by blast
  then show ?thesis
    using assms
    by (auto simp: persist_temp_store_def stage_temp_blob_before_transaction_def promote_local_file_if_absent_def
        ex_store_env_def ex_target_def created_def from_staged_plan_def store_transaction_def persist_temp_blob_def ex_find_or_create i Let_def)
qed

theorem undisturbed_upload_all_or_nothing_witness:
  "persist_temp_store ex_store_env id (\<lambda>_. Inr ()) (Dedup ex_target) 1 5 ex_empty_world
     = (\<lparr>bw_blobs = [ex_new_row], bw_objects = {(1, ''files/ab/c'')}, bw_file_refs = [9], bw_revision_refs = []\<rparr>,
        Inr (Some ex_new_row))
   \<and> object_present ex_new_row {(1, ''files/ab/c'')}"
proof -
  let ?w' = "\<lparr>bw_blobs = [ex_new_row], bw_objects = {(1, ''files/ab/c'')}, bw_file_refs = [9], bw_revision_refs = []\<rparr>"
  have run: "persist_temp_store ex_store_env id (\<lambda>_. Inr ()) (Dedup ex_target) 1 5 ex_empty_world = (?w', Inr (Some ex_new_row))"
    by (subst ex_upload_runs) (simp_all add: ex_empty_world_def)
  have "blob_table_ok (bw_blobs ex_empty_world)"
    by (simp add: ex_empty_world_def blob_table_ok_def unique_key_def slots_distinct_def)
  from undisturbed_upload_all_or_nothing [OF run this] show ?thesis
    using run by (simp add: ex_store_env_def ex_empty_world_def find_blob_by_hash_def)
qed

section \<open>An upload between the claim and the deletion\<close>

text \<open>A handler has claimed the orphan; the upload of the same content starts now.\<close>

definition ex_claimed_row :: file_blob where
  "ex_claimed_row = claim_blob_row 50 ex_orphan"

definition ex_claimed_world :: blob_world where
  "ex_claimed_world = ex_orphan_world\<lparr>bw_blobs := [ex_claimed_row]\<rparr>"

lemma ex_claimed_reached:
  "cleanup_run (\<lambda>_. ex_replies) (\<lambda>_. 50) 2 (C_Reload True 3) ex_orphan_world = (C_Claimed ex_orphan, ex_claimed_world)"
  by (simp add: eval_nat_numeral ex_replies_def ex_orphan_world_def find_blob_by_id_def find_key_def ex_orphan_row
      BLOB_CLEANUP_CLAIMED_REF_COUNT_def claim_blob_cleanup_def exec_one_def ex_claimed_world_def ex_claimed_row_def)

lemma ex_handler_finishes:
  "cleanup_run (\<lambda>_. ex_replies) (\<lambda>_. 51) 5 (C_Claimed ex_orphan) ex_claimed_world
     = (C_Done True, ex_claimed_world\<lparr>bw_blobs := [], bw_objects := {}\<rparr>)"
  by (simp add: eval_nat_numeral ex_replies_def ex_orphan_world_def ex_claimed_world_def ex_claimed_row_def
      ex_orphan_row claim_blob_row_def BLOB_CLEANUP_CLAIMED_REF_COUNT_def is_virtual_empty_def
      storage_path_for_connector_def has_connector_object_def delete_thumbnail_with_driver_def
      clear_thumbnail_metadata_def clear_thumbnail_row_def exec_one_def object_delete_def
      delete_blob_if_cleanup_claimed_def delete_where_def)

lemma ex_no_files: "bw_file_refs ex_claimed_world = []"
  by (simp add: ex_claimed_world_def ex_orphan_world_def)


end
