(* ===== verification/Upload_Sessions.thy ===== *)
theory Upload_Sessions
  imports Task_Dispatch Blob_Store "HOL-Library.List_Lexorder" "HOL-Library.Char_ord"
begin

text \<open>
  Upload sessions: the table \<open>upload_sessions\<close> and its statements
  (\<open>src/src/db/repository/upload_session_repo.rs\<close>), the receipts of the chunks
  (\<open>src/src/db/repository/upload_session_part_repo.rs\<close>), the kinds of sessions
  (\<open>src/src/services/files/upload/session/kind.rs\<close>), the rules the services share
  (\<open>src/src/services/files/upload/session/shared.rs\<close>) and the choice of a completion
  (\<open>src/src/services/files/upload/complete/plan.rs\<close>).

  A statement takes the table and returns it with its answer. The clock is an argument; the database is
  assumed to answer (its errors end the request and are not modelled here).
\<close>

section \<open>Data\<close>

datatype upload_session_status = US_Uploading | US_Assembling | US_Completed | US_Failed | US_Presigned

datatype upload_session_kind =
    UK_Stream
  | UK_OffsetStaging
  | UK_StreamStaging
  | UK_ProviderRelayMultipart
  | UK_ProviderPresignedSingle
  | UK_ProviderPresignedMultipart
  | UK_RemoteRelayMultipart
  | UK_RemotePresignedSingle
  | UK_RemotePresignedMultipart
  | UK_ProviderDirectResumable
  | UK_ProviderRelayResumable

fun upload_session_kind_as_str :: "upload_session_kind \<Rightarrow> string" where
  "upload_session_kind_as_str UK_Stream = ''stream''"
| "upload_session_kind_as_str UK_OffsetStaging = ''offset_staging''"
| "upload_session_kind_as_str UK_StreamStaging = ''stream_staging''"
| "upload_session_kind_as_str UK_ProviderRelayMultipart = ''provider_relay_multipart''"
| "upload_session_kind_as_str UK_ProviderPresignedSingle = ''provider_presigned_single''"
| "upload_session_kind_as_str UK_ProviderPresignedMultipart = ''provider_presigned_multipart''"
| "upload_session_kind_as_str UK_RemoteRelayMultipart = ''remote_relay_multipart''"
| "upload_session_kind_as_str UK_RemotePresignedSingle = ''remote_presigned_single''"
| "upload_session_kind_as_str UK_RemotePresignedMultipart = ''remote_presigned_multipart''"
| "upload_session_kind_as_str UK_ProviderDirectResumable = ''provider_direct_resumable''"
| "upload_session_kind_as_str UK_ProviderRelayResumable = ''provider_relay_resumable''"

record upload_session =
  up_id :: string
  up_user_id :: int
  up_team_id :: "int option"
  up_frontend_client_id :: "string option"
  up_filename :: string
  up_mime_type :: string
  up_total_size :: int
  up_chunk_size :: int
  up_total_chunks :: int
  up_received_count :: int
  up_folder_id :: "int option"
  up_policy_id :: int
  up_placement_profile_id :: int
  up_placement_rule_id :: "int option"
  up_placement_revision :: int
  up_placement_execution_preference :: string
  up_status :: upload_session_status
  up_session_kind :: upload_session_kind
  up_object_temp_key :: "string option"
  up_object_multipart_id :: "string option"
  up_provider_session_ciphertext :: "string option"
  up_file_id :: "int option"
  up_created_at :: time
  up_expires_at :: time
  up_updated_at :: time

type_synonym session_table = "upload_session list"

record upload_session_part =
  ps_id :: int
  ps_upload_id :: string
  ps_part_number :: int
  ps_etag :: string
  ps_size :: int
  ps_created_at :: time
  ps_updated_at :: time

type_synonym part_table = "upload_session_part list"

section \<open>Errors\<close>

definition upload_assembly_error_with_code :: "api_error_code \<Rightarrow> string \<Rightarrow> aster_error" where
  "upload_assembly_error_with_code c m = with_api_error_code c (UploadAssemblyFailed (payload_new m))"

definition chunk_upload_error_with_code :: "api_error_code \<Rightarrow> string \<Rightarrow> aster_error" where
  "chunk_upload_error_with_code c m = with_api_error_code c (ChunkUploadFailed (payload_new m))"

definition upload_session_expired :: "string \<Rightarrow> aster_error" where
  "upload_session_expired m = UploadSessionExpired (payload_new m)"

definition session_not_found :: "string \<Rightarrow> aster_error" where
  "session_not_found i = UploadSessionNotFound (payload_new (''session '' @ i))"

fun upload_session_status_label :: "upload_session_status \<Rightarrow> string" where
  "upload_session_status_label US_Uploading = ''uploading''"
| "upload_session_status_label US_Assembling = ''assembling''"
| "upload_session_status_label US_Completed = ''completed''"
| "upload_session_status_label US_Failed = ''failed''"
| "upload_session_status_label US_Presigned = ''presigned''"

definition upload_status_conflict :: "upload_session_status \<Rightarrow> upload_session_status \<Rightarrow> aster_error" where
  "upload_status_conflict actual expected =
     with_api_error_code ''UploadStatusConflict''
       (conflict_error (''session status is '' @ [CHR 0x27] @ upload_session_status_label actual @ [CHR 0x27]
          @ '', expected '' @ [CHR 0x27] @ upload_session_status_label expected @ [CHR 0x27]))"

section \<open>Statements on sessions\<close>

definition session_find_by_id :: "string \<Rightarrow> session_table \<Rightarrow> upload_session aster_result" where
  "session_find_by_id i t = (case find_key up_id i t of Some s \<Rightarrow> Inr s | None \<Rightarrow> Inl (session_not_found i))"

definition session_lock_by_id :: "string \<Rightarrow> session_table \<Rightarrow> upload_session aster_result" where
  "session_lock_by_id i t = session_find_by_id i t"

text \<open>The id is the primary key: inserting a used one is a unique conflict.\<close>

definition session_try_create :: "upload_session \<Rightarrow> session_table \<Rightarrow> session_table \<times> bool" where
  "session_try_create s t = (if find_key up_id (up_id s) t \<noteq> None then (t, False) else (t @ [s], True))"

definition session_delete :: "string \<Rightarrow> session_table \<Rightarrow> session_table" where
  "session_delete i t = fst (delete_where (\<lambda>s. up_id s = i) t)"

definition delete_if_cancellable :: "string \<Rightarrow> session_table \<Rightarrow> session_table \<times> bool" where
  "delete_if_cancellable i t =
     (let (t', n) = delete_where (\<lambda>s. up_id s = i \<and> up_status s \<in> {US_Uploading, US_Presigned, US_Failed}) t in (t', n = 1))"

definition session_exists_by_folder_id :: "time \<Rightarrow> int \<Rightarrow> session_table \<Rightarrow> bool" where
  "session_exists_by_folder_id now folder t =
     (select_where (\<lambda>s. up_folder_id s = Some folder \<and> now < up_expires_at s
        \<and> up_status s \<in> {US_Uploading, US_Assembling, US_Presigned}) t \<noteq> [])"

definition increment_received_count_if_uploading :: "time \<Rightarrow> string \<Rightarrow> session_table \<Rightarrow> session_table \<times> bool" where
  "increment_received_count_if_uploading now i t =
     exec_one (\<lambda>s. up_id s = i \<and> up_status s = US_Uploading)
       (\<lambda>s. s\<lparr>up_received_count := up_received_count s + 1, up_updated_at := now\<rparr>) t"

definition advance_provider_relay_received_count :: "time \<Rightarrow> string \<Rightarrow> int \<Rightarrow> session_table \<Rightarrow> session_table \<times> bool" where
  "advance_provider_relay_received_count now i expected t =
     exec_one (\<lambda>s. up_id s = i \<and> up_session_kind s = UK_ProviderRelayResumable \<and> up_status s = US_Uploading
         \<and> up_received_count s = expected)
       (\<lambda>s. s\<lparr>up_received_count := up_received_count s + 1, up_updated_at := now\<rparr>) t"

definition complete_if_assembling :: "time \<Rightarrow> string \<Rightarrow> int \<Rightarrow> session_table \<Rightarrow> session_table \<times> bool" where
  "complete_if_assembling now i file_id t =
     exec_one (\<lambda>s. up_id s = i \<and> up_status s = US_Assembling)
       (\<lambda>s. s\<lparr>up_status := US_Completed, up_file_id := Some file_id, up_updated_at := now\<rparr>) t"

definition try_transition_status ::
  "time \<Rightarrow> string \<Rightarrow> upload_session_status \<Rightarrow> upload_session_status \<Rightarrow> session_table \<Rightarrow> session_table \<times> bool" where
  "try_transition_status now i expected new_status t =
     exec_one (\<lambda>s. up_id s = i \<and> up_status s = expected) (\<lambda>s. s\<lparr>up_status := new_status, up_updated_at := now\<rparr>) t"

definition fail_columns :: "time \<Rightarrow> time \<Rightarrow> upload_session \<Rightarrow> upload_session" where
  "fail_columns now expires s = s\<lparr>up_status := US_Failed, up_expires_at := expires, up_updated_at := now\<rparr>"

definition try_fail_with_expiration ::
  "time \<Rightarrow> string \<Rightarrow> upload_session_status \<Rightarrow> time \<Rightarrow> session_table \<Rightarrow> session_table \<times> bool" where
  "try_fail_with_expiration now i expected expires t =
     exec_one (\<lambda>s. up_id s = i \<and> up_status s = expected) (fail_columns now expires) t"

definition try_fail_with_expiration_if_lease_stale ::
  "time \<Rightarrow> string \<Rightarrow> time \<Rightarrow> time \<Rightarrow> session_table \<Rightarrow> session_table \<times> bool" where
  "try_fail_with_expiration_if_lease_stale now i lease_deadline expires t =
     exec_one (\<lambda>s. up_id s = i \<and> up_status s = US_Assembling \<and> up_updated_at s \<le> lease_deadline) (fail_columns now expires) t"

definition try_transition_status_before_expiry ::
  "string \<Rightarrow> upload_session_status \<Rightarrow> upload_session_status \<Rightarrow> time \<Rightarrow> session_table \<Rightarrow> session_table \<times> bool" where
  "try_transition_status_before_expiry i expected new_status now t =
     exec_one (\<lambda>s. up_id s = i \<and> up_status s = expected \<and> now < up_expires_at s)
       (\<lambda>s. s\<lparr>up_status := new_status, up_updated_at := now\<rparr>) t"

definition touch_assembling :: "string \<Rightarrow> time \<Rightarrow> session_table \<Rightarrow> session_table \<times> bool" where
  "touch_assembling i now t =
     exec_one (\<lambda>s. up_id s = i \<and> up_status s = US_Assembling) (\<lambda>s. s\<lparr>up_updated_at := now\<rparr>) t"

definition find_expired_sessions :: "time \<Rightarrow> session_table \<Rightarrow> session_table" where
  "find_expired_sessions now t =
     select_where (\<lambda>s. up_expires_at s < now \<and> up_status s \<in> {US_Uploading, US_Presigned, US_Failed, US_Assembling}) t"

definition find_active_staged :: "time \<Rightarrow> session_table \<Rightarrow> session_table" where
  "find_active_staged now t =
     select_where (\<lambda>s. now < up_expires_at s \<and> up_status s \<in> {US_Uploading, US_Assembling}
       \<and> up_session_kind s \<in> {UK_OffsetStaging, UK_StreamStaging}) t"

definition find_sessions_by_team :: "int \<Rightarrow> session_table \<Rightarrow> session_table" where
  "find_sessions_by_team team t = select_where (\<lambda>s. up_team_id s = Some team) t"

definition find_sessions_by_policy :: "int \<Rightarrow> session_table \<Rightarrow> session_table" where
  "find_sessions_by_policy policy t = select_where (\<lambda>s. up_policy_id s = policy) t"

definition count_sessions_by_policy :: "int \<Rightarrow> session_table \<Rightarrow> nat" where
  "count_sessions_by_policy policy t = count_where (\<lambda>s. up_policy_id s = policy) t"

definition count_active_by_policy :: "time \<Rightarrow> int \<Rightarrow> session_table \<Rightarrow> nat" where
  "count_active_by_policy now policy t =
     count_where (\<lambda>s. up_policy_id s = policy \<and> now < up_expires_at s
       \<and> up_status s \<in> {US_Uploading, US_Assembling, US_Presigned}) t"

definition count_unfinished_by_policy :: "int \<Rightarrow> session_table \<Rightarrow> nat" where
  "count_unfinished_by_policy policy t = count_where (\<lambda>s. up_policy_id s = policy \<and> up_status s \<noteq> US_Completed) t"

text \<open>\<open>ORDER BY updated_at DESC, id DESC\<close>: the ascending order reversed.\<close>

definition find_recoverable_by_owner ::
  "time \<Rightarrow> int \<Rightarrow> int option \<Rightarrow> string option \<Rightarrow> nat \<Rightarrow> session_table \<Rightarrow> session_table" where
  "find_recoverable_by_owner now user team client limit t =
     take limit (rev (sort_key up_updated_at (sort_key up_id
       (select_where (\<lambda>s. up_user_id s = user \<and> now < up_expires_at s
          \<and> up_status s \<in> {US_Uploading, US_Assembling, US_Presigned} \<and> up_team_id s = team
          \<and> (client = None \<or> up_frontend_client_id s = client)) t))))"

definition list_temp_keys_by_policy :: "int \<Rightarrow> session_table \<Rightarrow> string list" where
  "list_temp_keys_by_policy policy t =
     List.map_filter up_object_temp_key (select_where (\<lambda>s. up_policy_id s = policy \<and> up_object_temp_key s \<noteq> None) t)"

definition delete_sessions_by_user :: "int \<Rightarrow> session_table \<Rightarrow> session_table \<times> nat" where
  "delete_sessions_by_user user t = delete_where (\<lambda>s. up_user_id s = user) t"

definition delete_sessions_by_team :: "int \<Rightarrow> session_table \<Rightarrow> session_table \<times> nat" where
  "delete_sessions_by_team team t = delete_where (\<lambda>s. up_team_id s = Some team) t"

definition find_expired_completed_paginated :: "time \<Rightarrow> string option \<Rightarrow> nat \<Rightarrow> session_table \<Rightarrow> session_table" where
  "find_expired_completed_paginated now after limit t =
     take limit (sort_key up_id (select_where (\<lambda>s. up_expires_at s < now \<and> up_status s = US_Completed
       \<and> (case after of None \<Rightarrow> True | Some last_id \<Rightarrow> last_id < up_id s)) t))"

definition compare_exchange_provider_session ::
  "time \<Rightarrow> string \<Rightarrow> string \<Rightarrow> string \<Rightarrow> session_table \<Rightarrow> session_table \<times> bool" where
  "compare_exchange_provider_session now i previous next_value t =
     exec_one (\<lambda>s. up_id s = i \<and> up_session_kind s = UK_ProviderDirectResumable \<and> up_status s = US_Uploading
         \<and> now < up_expires_at s \<and> up_provider_session_ciphertext s = Some previous)
       (\<lambda>s. s\<lparr>up_provider_session_ciphertext := Some next_value, up_updated_at := now\<rparr>) t"

section \<open>Statements on receipts\<close>

text \<open>\<open>(upload_id, part_number)\<close> is a unique key; the id of a new row is an argument.\<close>

definition part_key :: "upload_session_part \<Rightarrow> string \<times> int" where
  "part_key p = (ps_upload_id p, ps_part_number p)"

definition insert_part ::
  "time \<Rightarrow> int \<Rightarrow> string \<Rightarrow> int \<Rightarrow> string \<Rightarrow> int \<Rightarrow> part_table \<Rightarrow> part_table \<times> bool" where
  "insert_part now new_id upload part etag sz t =
     (if find_key part_key (upload, part) t \<noteq> None then (t, False)
      else (t @ [\<lparr>ps_id = new_id, ps_upload_id = upload, ps_part_number = part, ps_etag = etag, ps_size = sz,
                  ps_created_at = now, ps_updated_at = now\<rparr>], True))"

definition try_claim_part :: "time \<Rightarrow> int \<Rightarrow> string \<Rightarrow> int \<Rightarrow> part_table \<Rightarrow> part_table \<times> bool" where
  "try_claim_part now new_id upload part t = insert_part now new_id upload part '''' 0 t"

definition insert_part_if_missing ::
  "time \<Rightarrow> int \<Rightarrow> string \<Rightarrow> int \<Rightarrow> string \<Rightarrow> int \<Rightarrow> part_table \<Rightarrow> part_table \<times> bool" where
  "insert_part_if_missing now new_id upload part etag sz t = insert_part now new_id upload part etag sz t"

definition set_part_columns :: "time \<Rightarrow> string \<Rightarrow> int \<Rightarrow> upload_session_part \<Rightarrow> upload_session_part" where
  "set_part_columns now etag sz p = p\<lparr>ps_etag := etag, ps_size := sz, ps_updated_at := now\<rparr>"

definition find_by_upload_and_part :: "string \<Rightarrow> int \<Rightarrow> part_table \<Rightarrow> upload_session_part option" where
  "find_by_upload_and_part upload part t = find_key part_key (upload, part) t"

definition upsert_part ::
  "time \<Rightarrow> int \<Rightarrow> string \<Rightarrow> int \<Rightarrow> string \<Rightarrow> int \<Rightarrow> part_table \<Rightarrow> (part_table \<times> upload_session_part \<times> bool) aster_result" where
  "upsert_part now new_id upload part etag sz t =
     (let (t1, inserted) = insert_part now new_id upload part etag sz t;
          (t2, n) = (if inserted then (t1, 1) else update_where (\<lambda>p. part_key p = (upload, part)) (set_part_columns now etag sz) t1) in
      if n = 0
      then Inl (internal_error (''upsert_part update affected 0 rows for upload_id='' @ upload @ '', part_number='' @ int_to_string part))
      else case find_by_upload_and_part upload part t2 of
             None \<Rightarrow> Inl (internal_error (''upsert_part could not reload row for upload_id='' @ upload @ '', part_number='' @ int_to_string part))
           | Some p \<Rightarrow> Inr (t2, p, inserted))"

definition finalize_claimed_part :: "time \<Rightarrow> string \<Rightarrow> int \<Rightarrow> string \<Rightarrow> int \<Rightarrow> part_table \<Rightarrow> part_table \<times> bool" where
  "finalize_claimed_part now upload part etag sz t =
     exec_one (\<lambda>p. part_key p = (upload, part) \<and> ps_etag p = '''') (set_part_columns now etag sz) t"

definition touch_claimed_part :: "time \<Rightarrow> string \<Rightarrow> int \<Rightarrow> part_table \<Rightarrow> part_table \<times> bool" where
  "touch_claimed_part now upload part t =
     (let p = (\<lambda>p. part_key p = (upload, part) \<and> ps_etag p = '''') in
      if select_where p t = [] then (t, False) else (fst (update_where p (\<lambda>r. r\<lparr>ps_updated_at := now\<rparr>) t), True))"

definition delete_stale_claim :: "string \<Rightarrow> int \<Rightarrow> time \<Rightarrow> part_table \<Rightarrow> part_table \<times> bool" where
  "delete_stale_claim upload part stale_before t =
     (let (t', n) = delete_where (\<lambda>p. part_key p = (upload, part) \<and> ps_etag p = '''' \<and> ps_updated_at p < stale_before) t in (t', n = 1))"

definition list_by_upload :: "string \<Rightarrow> part_table \<Rightarrow> part_table" where
  "list_by_upload upload t = sort_key ps_part_number (select_where (\<lambda>p. ps_upload_id p = upload \<and> ps_etag p \<noteq> '''') t)"

definition list_all_by_upload :: "string \<Rightarrow> part_table \<Rightarrow> part_table" where
  "list_all_by_upload upload t = sort_key ps_part_number (select_where (\<lambda>p. ps_upload_id p = upload) t)"

definition list_part_numbers :: "string \<Rightarrow> part_table \<Rightarrow> int list" where
  "list_part_numbers upload t = map ps_part_number (list_by_upload upload t)"

definition delete_by_upload :: "string \<Rightarrow> part_table \<Rightarrow> part_table \<times> nat" where
  "delete_by_upload upload t = delete_where (\<lambda>p. ps_upload_id p = upload) t"

definition delete_by_upload_and_part :: "string \<Rightarrow> int \<Rightarrow> part_table \<Rightarrow> part_table \<times> nat" where
  "delete_by_upload_and_part upload part t = delete_where (\<lambda>p. part_key p = (upload, part)) t"

end
