(* ===== verification/Upload_Lifecycle.thy ===== *)
theory Upload_Lifecycle
  imports Upload_Sessions Blob_Cleanup
begin

text \<open>
  The life of an upload session: validation of its kind, receipts for chunks, the claim for assembly, the
  outcome of a completion, cancellation and the cleanup of what expired uploads leave behind.
  Sources: \<open>src/src/services/files/upload/session/kind.rs\<close>, \<open>src/src/services/files/upload/session/shared.rs\<close>,
  \<open>src/src/services/files/upload/complete/plan.rs\<close>, \<open>src/src/services/files/upload/complete/chunked.rs\<close> (the
  check of the receipts), \<open>src/src/services/files/upload/ingest/chunk.rs\<close> (the receipts) and
  \<open>src/src/services/files/upload/cleanup.rs\<close>.
\<close>

section \<open>Kinds\<close>

definition session_corrupted :: "string \<Rightarrow> aster_error" where
  "session_corrupted m = upload_assembly_error_with_code ''UploadSessionCorrupted'' m"

definition expects_multipart_id :: "upload_session_kind \<Rightarrow> bool" where
  "expects_multipart_id k = (k \<in> {UK_ProviderRelayMultipart, UK_ProviderPresignedMultipart, UK_RemoteRelayMultipart,
     UK_RemotePresignedMultipart})"

definition expects_temp_key :: "upload_session_kind \<Rightarrow> bool" where
  "expects_temp_key k = (k \<in> {UK_ProviderRelayMultipart, UK_ProviderPresignedSingle, UK_ProviderPresignedMultipart,
     UK_RemoteRelayMultipart, UK_RemotePresignedSingle, UK_RemotePresignedMultipart, UK_ProviderDirectResumable,
     UK_ProviderRelayResumable})"

definition expects_provider_session :: "upload_session_kind \<Rightarrow> bool" where
  "expects_provider_session k = (k \<in> {UK_ProviderDirectResumable, UK_ProviderRelayResumable})"

definition validate_persisted_kind :: "upload_session \<Rightarrow> upload_session_kind aster_result" where
  "validate_persisted_kind s =
     (let k = up_session_kind s; name = upload_session_kind_as_str k in
      if expects_multipart_id k \<noteq> (up_object_multipart_id s \<noteq> None)
      then Inl (session_corrupted (''session kind '' @ name @ '' does not match multipart fields''))
      else if expects_temp_key k \<noteq> (up_object_temp_key s \<noteq> None)
      then Inl (session_corrupted (''session kind '' @ name @ '' does not match temporary object fields''))
      else if expects_provider_session k \<noteq> (up_provider_session_ciphertext s \<noteq> None)
      then Inl (session_corrupted (''session kind '' @ name @ '' does not match provider session metadata''))
      else Inr k)"

definition resolve_upload_session_kind :: "upload_session \<Rightarrow> upload_session_kind aster_result" where
  "resolve_upload_session_kind s = validate_persisted_kind s"

datatype upload_transport = UT_Stream | UT_Chunked | UT_Presigned | UT_PresignedMultipart | UT_ProviderResumable

fun mode_for_kind :: "upload_session_kind \<Rightarrow> upload_transport" where
  "mode_for_kind UK_Stream = UT_Stream"
| "mode_for_kind UK_ProviderPresignedSingle = UT_Presigned"
| "mode_for_kind UK_RemotePresignedSingle = UT_Presigned"
| "mode_for_kind UK_ProviderPresignedMultipart = UT_PresignedMultipart"
| "mode_for_kind UK_RemotePresignedMultipart = UT_PresignedMultipart"
| "mode_for_kind UK_ProviderDirectResumable = UT_ProviderResumable"
| "mode_for_kind _ = UT_Chunked"

datatype upload_chunk_ordering = CO_Unordered | CO_Sequential

record upload_scheduling =
  ss_chunk_ordering :: upload_chunk_ordering
  ss_max_chunk_concurrency :: int

definition scheduling_for_kind :: "upload_session_kind \<Rightarrow> upload_scheduling option" where
  "scheduling_for_kind k =
     (if k \<in> {UK_ProviderDirectResumable, UK_ProviderRelayResumable}
      then Some \<lparr>ss_chunk_ordering = CO_Sequential, ss_max_chunk_concurrency = 1\<rparr>
      else if k \<in> {UK_OffsetStaging, UK_StreamStaging, UK_ProviderRelayMultipart, UK_ProviderPresignedMultipart,
                   UK_RemoteRelayMultipart, UK_RemotePresignedMultipart}
      then Some \<lparr>ss_chunk_ordering = CO_Unordered, ss_max_chunk_concurrency = 16\<rparr>
      else None)"

fun data_plane_label_for_kind :: "upload_session_kind \<Rightarrow> string" where
  "data_plane_label_for_kind UK_Stream = ''streaming_direct''"
| "data_plane_label_for_kind UK_OffsetStaging = ''staged''"
| "data_plane_label_for_kind UK_StreamStaging = ''staged''"
| "data_plane_label_for_kind UK_ProviderRelayMultipart = ''connector_multipart''"
| "data_plane_label_for_kind UK_RemoteRelayMultipart = ''connector_multipart''"
| "data_plane_label_for_kind UK_ProviderRelayResumable = ''provider_relay''"
| "data_plane_label_for_kind _ = ''client_direct''"

section \<open>Choosing the completion\<close>

datatype completion_plan =
    CP_ReturnCompleted
  | CP_CompletePresigned
  | CP_CompletePresignedMultipart "(int \<times> string) list"
  | CP_CompleteRelayMultipart
  | CP_CompleteProviderResumable
  | CP_CompleteChunked

definition require_all_chunks_received :: "upload_session \<Rightarrow> unit aster_result" where
  "require_all_chunks_received s =
     (if up_received_count s \<noteq> up_total_chunks s
      then Inl (upload_assembly_error_with_code ''UploadIncompleteChunks''
             (''expected '' @ int_to_string (up_total_chunks s) @ '' chunks, got '' @ int_to_string (up_received_count s)))
      else Inr ())"

definition determine_completion_plan ::
  "time \<Rightarrow> upload_session \<Rightarrow> upload_session_kind \<Rightarrow> (int \<times> string) list option \<Rightarrow> completion_plan aster_result" where
  "determine_completion_plan now s k parts =
     (if up_status s = US_Completed then Inr CP_ReturnCompleted
      else if up_status s = US_Assembling
      then Inl (UploadAssembling (payload_new ''upload is being processed, please wait and retry in a few seconds''))
      else if up_expires_at s \<le> now then Inl (upload_session_expired ''session expired'')
      else if up_status s = US_Failed
      then Inl (upload_assembly_error_with_code ''UploadPreviousFailure''
             ''upload assembly failed previously; please start a new upload'')
      else case k of
        UK_Stream \<Rightarrow> Inl (upload_assembly_error_with_code ''UploadIncompleteChunks'' ''stream body must be uploaded before completion'')
      | UK_ProviderPresignedMultipart \<Rightarrow>
          (case parts of None \<Rightarrow> Inl (validation_error_with_code ''UploadPartsRequired'' ''parts required for multipart upload completion'')
           | Some ps \<Rightarrow> Inr (CP_CompletePresignedMultipart ps))
      | UK_RemotePresignedMultipart \<Rightarrow>
          (case parts of None \<Rightarrow> Inl (validation_error_with_code ''UploadPartsRequired'' ''parts required for multipart upload completion'')
           | Some ps \<Rightarrow> Inr (CP_CompletePresignedMultipart ps))
      | UK_ProviderPresignedSingle \<Rightarrow> Inr CP_CompletePresigned
      | UK_RemotePresignedSingle \<Rightarrow> Inr CP_CompletePresigned
      | UK_ProviderRelayMultipart \<Rightarrow> Inr CP_CompleteRelayMultipart
      | UK_RemoteRelayMultipart \<Rightarrow> Inr CP_CompleteRelayMultipart
      | UK_ProviderDirectResumable \<Rightarrow> Inr CP_CompleteProviderResumable
      | UK_ProviderRelayResumable \<Rightarrow> bind_result (require_all_chunks_received s) (\<lambda>_. Inr CP_CompleteProviderResumable)
      | UK_OffsetStaging \<Rightarrow> bind_result (require_all_chunks_received s) (\<lambda>_. Inr CP_CompleteChunked)
      | UK_StreamStaging \<Rightarrow> bind_result (require_all_chunks_received s) (\<lambda>_. Inr CP_CompleteChunked))"

fun completion_plan_label :: "completion_plan \<Rightarrow> string" where
  "completion_plan_label CP_ReturnCompleted = ''return_completed''"
| "completion_plan_label CP_CompletePresigned = ''complete_presigned''"
| "completion_plan_label (CP_CompletePresignedMultipart _) = ''complete_presigned_multipart''"
| "completion_plan_label CP_CompleteRelayMultipart = ''complete_relay_multipart''"
| "completion_plan_label CP_CompleteProviderResumable = ''complete_provider_resumable''"
| "completion_plan_label CP_CompleteChunked = ''complete_chunked''"

section \<open>Chunks and their receipts\<close>

definition upload_session_chunk_unavailable_error :: "upload_session \<Rightarrow> aster_error" where
  "upload_session_chunk_unavailable_error s =
     (case up_status s of
        US_Failed \<Rightarrow> upload_session_expired ''session was canceled or failed''
      | US_Assembling \<Rightarrow> upload_session_expired ''session is assembling and no longer accepts chunks''
      | US_Completed \<Rightarrow> upload_session_expired ''session already completed''
      | US_Presigned \<Rightarrow> validation_error_with_code ''UploadChunkTransportMismatch'' ''session does not accept relay chunk uploads''
      | US_Uploading \<Rightarrow> session_not_found (up_id s))"

text \<open>
  The last chunk is what the others leave. The product of the chunk size and the chunk count is taken as
  an integer: the two columns are set together when the session is created.
\<close>

definition expected_chunk_size_for_upload :: "upload_session \<Rightarrow> int \<Rightarrow> int aster_result" where
  "expected_chunk_size_for_upload s chunk =
     (if up_total_chunks s \<le> 0 \<or> up_chunk_size s \<le> 0
      then Inl (chunk_upload_error_with_code ''UploadChunkSessionInvalid''
             (''invalid upload session chunk metadata: total_chunks='' @ int_to_string (up_total_chunks s) @ '', chunk_size=''
                @ int_to_string (up_chunk_size s)))
      else if chunk < up_total_chunks s - 1 then Inr (up_chunk_size s)
      else let preceding = up_chunk_size s * (up_total_chunks s - 1); expected = up_total_size s - preceding in
        if expected \<le> 0
        then Inl (chunk_upload_error_with_code ''UploadChunkSessionInvalid''
               (''invalid final chunk size for upload '' @ up_id s @ '': total_size='' @ int_to_string (up_total_size s)
                  @ '', preceding='' @ int_to_string preceding))
        else Inr expected)"

text \<open>\<open>staging::chunk_receipt_etag\<close>, a constant of \<open>src/src/services/files/upload/ingest/staging.rs\<close>.\<close>

definition CHUNK_RECEIPT_ETAG :: string where
  "CHUNK_RECEIPT_ETAG = ''aster-drive-offset-staging-receipt-v1''"

definition chunk_receipt_matches :: "upload_session_part \<Rightarrow> int \<Rightarrow> int \<Rightarrow> bool" where
  "chunk_receipt_matches p part sz = (ps_part_number p = part \<and> ps_etag p = CHUNK_RECEIPT_ETAG \<and> ps_size p = sz)"

definition increment_session_received_count :: "time \<Rightarrow> string \<Rightarrow> session_table \<Rightarrow> session_table aster_result" where
  "increment_session_received_count now i t =
     (let (t', ok) = increment_received_count_if_uploading now i t in
      if ok then Inr t'
      else case session_find_by_id i t' of
             Inr s \<Rightarrow> Inl (upload_session_chunk_unavailable_error s)
           | Inl e \<Rightarrow> Inl e)"

text \<open>One transaction: an error leaves both tables as they were.\<close>

definition record_staged_chunk_receipt ::
  "time \<Rightarrow> int \<Rightarrow> string \<Rightarrow> int \<Rightarrow> int \<Rightarrow> session_table \<times> part_table \<Rightarrow> ((session_table \<times> part_table) \<times> bool) aster_result" where
  "record_staged_chunk_receipt now new_id upload chunk expected = (\<lambda>(sessions, parts).
     let (parts', inserted) = insert_part_if_missing now new_id upload (chunk + 1) CHUNK_RECEIPT_ETAG expected parts in
     if inserted
     then bind_result (increment_session_received_count now upload sessions) (\<lambda>sessions'. Inr ((sessions', parts'), True))
     else case find_by_upload_and_part upload (chunk + 1) parts' of
            None \<Rightarrow> Inl (chunk_upload_error_with_code ''UploadChunkPersistFailed''
                      (''local chunk receipt disappeared for chunk '' @ int_to_string chunk))
          | Some p \<Rightarrow>
              if ps_etag p \<noteq> CHUNK_RECEIPT_ETAG \<or> ps_size p \<noteq> expected
              then Inl (chunk_upload_error_with_code ''UploadChunkPersistFailed''
                     (''local chunk receipt is corrupted for chunk '' @ int_to_string chunk))
              else bind_result (session_find_by_id upload sessions) (\<lambda>s.
                   if up_status s \<noteq> US_Uploading then Inl (upload_session_chunk_unavailable_error s)
                   else Inr ((sessions, parts'), False)))"

definition has_staged_chunk_receipt :: "string \<Rightarrow> int \<Rightarrow> int \<Rightarrow> part_table \<Rightarrow> bool aster_result" where
  "has_staged_chunk_receipt upload chunk expected parts =
     (case find_by_upload_and_part upload (chunk + 1) parts of
        None \<Rightarrow> Inr False
      | Some p \<Rightarrow>
          if ps_etag p \<noteq> CHUNK_RECEIPT_ETAG \<or> ps_size p \<noteq> expected
          then Inl (chunk_upload_error_with_code ''UploadChunkPersistFailed''
                 (''local chunk receipt is corrupted for chunk '' @ int_to_string chunk))
          else Inr True)"

text \<open>
  A staged chunk in \<open>upload_chunk_impl\<close>: the checks, then the receipt, unless there is one already. Writing
  the bytes of the chunk to the staging file (under a lock) is file system work; \<open>write_ok\<close> is its outcome.
\<close>

definition check_chunk_request :: "time \<Rightarrow> upload_session \<Rightarrow> int \<Rightarrow> int \<Rightarrow> (int \<times> upload_session_kind) aster_result" where
  "check_chunk_request now s chunk data_len =
     (if up_status s \<noteq> US_Uploading then Inl (upload_session_chunk_unavailable_error s)
      else if up_expires_at s < now then Inl (upload_session_expired ''session expired'')
      else if chunk < 0 \<or> chunk \<ge> up_total_chunks s
      then Inl (validation_error_with_code ''UploadChunkNumberOutOfRange''
             (''chunk_number '' @ int_to_string chunk @ '' out of range [0, '' @ int_to_string (up_total_chunks s) @ '')''))
      else
      bind_result (expected_chunk_size_for_upload s chunk) (\<lambda>expected.
      bind_result (resolve_upload_session_kind s) (\<lambda>k.
      if k \<in> {UK_ProviderPresignedSingle, UK_ProviderPresignedMultipart, UK_RemotePresignedSingle, UK_RemotePresignedMultipart}
      then Inl (session_corrupted ''presigned upload sessions do not accept server chunk PUT'')
      else if data_len \<noteq> expected
      then Inl (chunk_upload_error_with_code ''UploadChunkSizeMismatch''
             (''chunk '' @ int_to_string chunk @ '' size mismatch: expected '' @ int_to_string expected @ '', got '' @ int_to_string data_len))
      else Inr (expected, k))))"

record chunk_upload_response =
  cu_received_count :: int
  cu_total_chunks :: int

definition chunk_response :: "string \<Rightarrow> session_table \<Rightarrow> chunk_upload_response aster_result" where
  "chunk_response upload sessions =
     bind_result (session_find_by_id upload sessions) (\<lambda>s.
     Inr \<lparr>cu_received_count = up_received_count s, cu_total_chunks = up_total_chunks s\<rparr>)"

definition upload_staged_chunk ::
  "time \<Rightarrow> int \<Rightarrow> aster_error option \<Rightarrow> upload_session \<Rightarrow> int \<Rightarrow> int \<Rightarrow> session_table \<times> part_table
   \<Rightarrow> (session_table \<times> part_table) \<times> chunk_upload_response aster_result" where
  "upload_staged_chunk now new_id write_error s chunk data_len db =
     (case check_chunk_request now s chunk data_len of
        Inl e \<Rightarrow> (db, Inl e)
      | Inr (expected, k) \<Rightarrow>
          if k \<notin> {UK_OffsetStaging, UK_StreamStaging}
          then (db, Inl (session_corrupted (''session kind '' @ upload_session_kind_as_str k @ '' does not accept server chunk PUT'')))
          else
          case has_staged_chunk_receipt (up_id s) chunk expected (snd db) of
            Inl e \<Rightarrow> (db, Inl e)
          | Inr True \<Rightarrow>
              (db, bind_result (session_find_by_id (up_id s) (fst db)) (\<lambda>updated.
                     if up_status updated \<noteq> US_Uploading then Inl (upload_session_chunk_unavailable_error updated)
                     else Inr \<lparr>cu_received_count = up_received_count updated, cu_total_chunks = up_total_chunks updated\<rparr>))
          | Inr False \<Rightarrow>
              (case write_error of
                 Some e \<Rightarrow> (db, Inl e)
               | None \<Rightarrow>
                   case record_staged_chunk_receipt now new_id (up_id s) chunk expected db of
                     Inl e \<Rightarrow> (db, Inl e)
                   | Inr (db', _) \<Rightarrow> (db', chunk_response (up_id s) (fst db'))))"

text \<open>The receipts as \<open>validate_offset_staging_file\<close> checks them; \<open>range_error\<close> is that of \<open>i32_to_usize\<close>.\<close>

fun check_receipts :: "upload_session \<Rightarrow> int \<Rightarrow> part_table \<Rightarrow> unit aster_result" where
  "check_receipts s chunk [] = Inr ()"
| "check_receipts s chunk (p # ps) =
     (if up_total_chunks s \<le> chunk then Inr ()
      else bind_result (expected_chunk_size_for_upload s chunk) (\<lambda>expected.
        if \<not> chunk_receipt_matches p (chunk + 1) expected
        then Inl (upload_assembly_error_with_code ''UploadAssemblyIoFailed''
               (''offset staging receipt is invalid for chunk '' @ int_to_string chunk @ '': part_number=''
                  @ int_to_string (ps_part_number p) @ '', etag='' @ ps_etag p @ '', size='' @ int_to_string (ps_size p)
                  @ '', expected_size='' @ int_to_string expected))
        else check_receipts s (chunk + 1) ps))"

definition validate_staging_receipts :: "aster_error \<Rightarrow> upload_session \<Rightarrow> part_table \<Rightarrow> unit aster_result" where
  "validate_staging_receipts range_error s parts =
     (let receipts = list_all_by_upload (up_id s) parts in
      if up_total_chunks s < 0 then Inl range_error
      else if length receipts \<noteq> nat (up_total_chunks s)
      then Inl (upload_assembly_error_with_code ''UploadAssemblyIoFailed''
             (''offset staging receipt count mismatch: expected '' @ int_to_string (up_total_chunks s) @ '', got ''
                @ nat_to_string (length receipts)))
      else check_receipts s 0 receipts)"

section \<open>Assembly\<close>

definition transition_upload_session_to_assembling ::
  "time \<Rightarrow> string \<Rightarrow> upload_session_status \<Rightarrow> upload_session_status \<Rightarrow> session_table \<Rightarrow> session_table \<times> unit aster_result" where
  "transition_upload_session_to_assembling now i actual expected t =
     (let (t', ok) = try_transition_status_before_expiry i expected US_Assembling now t in
      if ok then (t', Inr ())
      else (t', case session_find_by_id i t' of
                  Inr s \<Rightarrow>
                    if up_status s = expected \<and> up_expires_at s \<le> now then Inl (upload_session_expired ''session expired'')
                    else Inl (upload_status_conflict (up_status s) expected)
                | Inl _ \<Rightarrow> Inl (upload_status_conflict actual expected)))"

definition mark_session_failed :: "time \<Rightarrow> string \<Rightarrow> session_table \<Rightarrow> session_table" where
  "mark_session_failed now i t =
     (case session_find_by_id i t of
        Inr s \<Rightarrow> fst (update_where (\<lambda>x. up_id x = up_id s) (\<lambda>x. x\<lparr>up_status := US_Failed, up_updated_at := now\<rparr>) t)
      | Inl _ \<Rightarrow> t)"

datatype upload_storage_error_class = UC_Retryable | UC_RequiresIntervention | UC_NotFound | UC_Terminal

fun classify_storage_error_kind :: "storage_error_kind \<Rightarrow> upload_storage_error_class" where
  "classify_storage_error_kind SK_Transient = UC_Retryable"
| "classify_storage_error_kind SK_RateLimited = UC_Retryable"
| "classify_storage_error_kind SK_Auth = UC_RequiresIntervention"
| "classify_storage_error_kind SK_Permission = UC_RequiresIntervention"
| "classify_storage_error_kind SK_Misconfigured = UC_RequiresIntervention"
| "classify_storage_error_kind SK_Unsupported = UC_RequiresIntervention"
| "classify_storage_error_kind SK_Precondition = UC_RequiresIntervention"
| "classify_storage_error_kind SK_NotFound = UC_NotFound"
| "classify_storage_error_kind SK_Unknown = UC_Terminal"

definition classify_upload_storage_error :: "aster_error \<Rightarrow> upload_storage_error_class" where
  "classify_upload_storage_error e =
     (case e of
        RecordNotFound _ \<Rightarrow> UC_NotFound
      | PreconditionFailed _ \<Rightarrow> UC_RequiresIntervention
      | ValidationError _ \<Rightarrow> UC_RequiresIntervention
      | UnsupportedDriver _ \<Rightarrow> UC_RequiresIntervention
      | StorageDriverError _ \<Rightarrow>
          (case storage_error_kind_of e of Some k \<Rightarrow> classify_storage_error_kind k | None \<Rightarrow> UC_Terminal)
      | _ \<Rightarrow> UC_Terminal)"

definition upload_completion_error_is_retryable :: "aster_error \<Rightarrow> bool" where
  "upload_completion_error_is_retryable e = (classify_upload_storage_error e = UC_Retryable)"

definition restore_session_status_after_retryable_completion_error ::
  "time \<Rightarrow> string \<Rightarrow> upload_session_status \<Rightarrow> session_table \<Rightarrow> session_table" where
  "restore_session_status_after_retryable_completion_error now i restore_status t =
     fst (try_transition_status now i US_Assembling restore_status t)"

definition handle_completion_error ::
  "time \<Rightarrow> string \<Rightarrow> upload_session_status \<Rightarrow> aster_error \<Rightarrow> session_table \<Rightarrow> session_table" where
  "handle_completion_error now i restore_status e t =
     (if upload_completion_error_is_retryable e
      then restore_session_status_after_retryable_completion_error now i restore_status t
      else mark_session_failed now i t)"

text \<open>
  The world of a session: the two tables, the stored objects, and the places (policy and path) of the blobs
  that published files use. A completion works on it and answers with the id of the file.
\<close>

record upload_world =
  uw_sessions :: session_table
  uw_parts :: part_table
  uw_objects :: "(int \<times> string) set"
  uw_tracked :: "(int \<times> string) set"

definition run_upload_completion_stage ::
  "time \<Rightarrow> time \<Rightarrow> upload_session \<Rightarrow> upload_session_status \<Rightarrow> (upload_world \<Rightarrow> upload_world \<times> int aster_result)
   \<Rightarrow> upload_world \<Rightarrow> upload_world \<times> int aster_result" where
  "run_upload_completion_stage now later s expected completion w =
     (case transition_upload_session_to_assembling now (up_id s) (up_status s) expected (uw_sessions w) of
        (t, Inl e) \<Rightarrow> (w\<lparr>uw_sessions := t\<rparr>, Inl e)
      | (t, Inr _) \<Rightarrow>
          (case completion (w\<lparr>uw_sessions := t\<rparr>) of
             (w', Inr f) \<Rightarrow> (w', Inr f)
           | (w', Inl e) \<Rightarrow> (w'\<lparr>uw_sessions := handle_completion_error later (up_id s) expected e (uw_sessions w')\<rparr>, Inl e)))"

definition find_file_by_session :: "upload_session \<Rightarrow> (int \<Rightarrow> 'f aster_result) \<Rightarrow> 'f aster_result" where
  "find_file_by_session s file_by_id =
     (case up_file_id s of
        None \<Rightarrow> Inl (upload_assembly_error_with_code ''UploadCompletedFileMissing''
                  ''upload already completed but file_id not found; please refresh'')
      | Some i \<Rightarrow> file_by_id i)"

text \<open>\<open>mark_upload_session_completed\<close> of \<open>src/src/services/workspace/storage_core/finalize.rs\<close>, the end of the publishing transaction.\<close>

definition mark_upload_session_completed :: "time \<Rightarrow> string \<Rightarrow> int \<Rightarrow> session_table \<Rightarrow> session_table aster_result" where
  "mark_upload_session_completed now i file_id t =
     (let (t', ok) = complete_if_assembling now i file_id t in
      if ok then Inr t'
      else bind_result (session_find_by_id i t') (\<lambda>s.
        if up_status s = US_Failed
        then Inl (upload_assembly_error_with_code ''UploadPreviousFailure'' ''upload was canceled during assembly'')
        else Inl (upload_status_conflict (up_status s) US_Assembling)))"

section \<open>Cleanup\<close>

datatype upload_remote_cleanup_outcome = RC_Complete | RC_DeferredRetry | RC_DeferredIntervention

fun cleanup_outcome_for_class :: "upload_storage_error_class \<Rightarrow> upload_remote_cleanup_outcome" where
  "cleanup_outcome_for_class UC_Retryable = RC_DeferredRetry"
| "cleanup_outcome_for_class UC_RequiresIntervention = RC_DeferredIntervention"
| "cleanup_outcome_for_class UC_Terminal = RC_DeferredIntervention"
| "cleanup_outcome_for_class UC_NotFound = RC_Complete"

datatype upload_stage_error_disposition = PreserveSession | TerminateSession

definition stage_error_disposition :: "aster_error \<Rightarrow> upload_stage_error_disposition" where
  "stage_error_disposition e =
     (if api_error_retryable e then PreserveSession
      else if (case e of
                 DatabaseConnection _ \<Rightarrow> True | DatabaseOperation _ \<Rightarrow> True | AuthInvalidCredentials _ \<Rightarrow> True
               | AuthTokenExpired _ \<Rightarrow> True | AuthTokenInvalid _ \<Rightarrow> True | AuthForbidden _ \<Rightarrow> True
               | AuthTokenMissing _ \<Rightarrow> True | UploadSessionNotFound _ \<Rightarrow> True | UploadAssembling _ \<Rightarrow> True | _ \<Rightarrow> False)
      then PreserveSession
      else if api_error_code e \<in> set [''UploadChunkNumberOutOfRange'', ''UploadChunkTransportMismatch'', ''UploadStatusConflict'',
                ''UploadPartNumbersEmpty'', ''UploadPartNumbersTooMany'', ''UploadPartNumberOutOfRange'']
      then PreserveSession
      else TerminateSession)"

text \<open>
  What the storage answers: whether policy and driver resolve, whether the provider session decrypts, and
  the outcomes of the calls (\<open>None\<close> for success). \<open>rr_exists_ok\<close>: the probe after a failed delete answered.
\<close>

record remote_replies =
  rr_policy_known :: bool
  rr_driver_error :: "aster_error option"
  rr_secret_ok :: bool
  rr_provider_resumable :: bool
  rr_provider_abort :: "storage_error_kind option"
  rr_multipart :: bool
  rr_multipart_abort :: "storage_error_kind option"
  rr_delete :: delete_reply
  rr_delete_error :: storage_error_kind
  rr_exists_ok :: bool

definition delete_temp_object_for_cleanup ::
  "remote_replies \<Rightarrow> (int \<times> string) \<Rightarrow> (int \<times> string) set \<Rightarrow> (int \<times> string) set \<times> upload_remote_cleanup_outcome" where
  "delete_temp_object_for_cleanup r key objs =
     (let objs' = object_delete (rr_delete r) key objs in
      (objs',
       if rr_delete r = Deleted then RC_Complete
       else if rr_exists_ok r \<and> key \<notin> objs' then RC_Complete
       else cleanup_outcome_for_class (classify_storage_error_kind (rr_delete_error r))))"

definition blocked :: "storage_error_kind option \<Rightarrow> upload_remote_cleanup_outcome option" where
  "blocked e = (case e of
      None \<Rightarrow> None
    | Some k \<Rightarrow> (let oc = cleanup_outcome_for_class (classify_storage_error_kind k) in if oc = RC_Complete then None else Some oc))"

definition cleanup_resolved_remote_upload_state ::
  "remote_replies \<Rightarrow> upload_session_kind option \<Rightarrow> (int \<times> string) \<Rightarrow> string option \<Rightarrow> (int \<times> string) set
   \<Rightarrow> (int \<times> string) set \<times> upload_remote_cleanup_outcome" where
  "cleanup_resolved_remote_upload_state r kind key multipart_id objs =
     (let provider_kind = (kind = Some UK_ProviderDirectResumable \<or> kind = Some UK_ProviderRelayResumable) in
      if provider_kind \<and> \<not> rr_provider_resumable r then (objs, RC_DeferredIntervention)
      else case (if provider_kind then blocked (rr_provider_abort r) else None) of
        Some oc \<Rightarrow> (objs, oc)
      | None \<Rightarrow>
          (case (if multipart_id \<noteq> None \<and> rr_multipart r then blocked (rr_multipart_abort r) else None) of
             Some oc \<Rightarrow> (objs, oc)
           | None \<Rightarrow> delete_temp_object_for_cleanup r key objs))"

definition cleanup_remote_upload_state ::
  "remote_replies \<Rightarrow> upload_session \<Rightarrow> bool \<Rightarrow> (int \<times> string) set \<Rightarrow> (int \<times> string) set \<times> upload_remote_cleanup_outcome" where
  "cleanup_remote_upload_state r s allow_corrupted objs =
     (case (case resolve_upload_session_kind s of
              Inr k \<Rightarrow> Some (Some k)
            | Inl _ \<Rightarrow> if allow_corrupted then Some None else None) of
        None \<Rightarrow> (objs, RC_DeferredIntervention)
      | Some kind \<Rightarrow>
          if (case kind of Some k \<Rightarrow> \<not> expects_temp_key k | None \<Rightarrow> False) then (objs, RC_Complete)
          else case up_object_temp_key s of
            None \<Rightarrow> (objs, RC_Complete)
          | Some key \<Rightarrow>
              if \<not> rr_policy_known r then (objs, RC_DeferredIntervention)
              else case rr_driver_error r of
                Some e \<Rightarrow> (objs, cleanup_outcome_for_class (classify_upload_storage_error e))
              | None \<Rightarrow>
                  if (kind = Some UK_ProviderDirectResumable \<or> kind = Some UK_ProviderRelayResumable) \<and> \<not> rr_secret_ok r
                  then (objs, RC_DeferredIntervention)
                  else cleanup_resolved_remote_upload_state r kind (up_policy_id s, key) (up_object_multipart_id s) objs)"

definition DEFERRED_UPLOAD_SESSION_CLEANUP_GRACE_SECS :: int where "DEFERRED_UPLOAD_SESSION_CLEANUP_GRACE_SECS = 15"

definition ASSEMBLY_LEASE_TIMEOUT_SECS :: int where "ASSEMBLY_LEASE_TIMEOUT_SECS = 60"

definition assembly_cancellation_expiry :: "time \<Rightarrow> time" where
  "assembly_cancellation_expiry now = now + ASSEMBLY_LEASE_TIMEOUT_SECS"

text \<open>
  A handler that cleans up after a session works in three parts, between which other requests run: it
  claims the session (\<open>S_Cancel\<close>, \<open>S_Stage_Error\<close> and \<open>S_Expired\<close>, by the session it has read), it removes what the
  storage holds (\<open>S_Remote\<close>), and it deletes the row (\<open>S_Row\<close>, by plain \<open>delete\<close> or by \<open>delete_if_cancellable\<close>).
\<close>

datatype cleanup_actor =
    S_Cancel upload_session
  | S_Stage_Error upload_session aster_error
  | S_Expired upload_session
  | S_Remote upload_session bool
  | S_Row string bool
  | S_Done

definition claimed_session :: "upload_session \<Rightarrow> bool \<Rightarrow> session_table \<times> bool \<Rightarrow> session_table \<times> cleanup_actor" where
  "claimed_session s only_cancellable = (\<lambda>(t, ok). (t, if ok then S_Remote s only_cancellable else S_Done))"

definition cancel_upload_impl :: "time \<Rightarrow> upload_session \<Rightarrow> session_table \<Rightarrow> session_table \<times> cleanup_actor" where
  "cancel_upload_impl now s t =
     (case up_status s of
        US_Completed \<Rightarrow> (t, S_Done)
      | US_Assembling \<Rightarrow> (fst (try_fail_with_expiration now (up_id s) US_Assembling (assembly_cancellation_expiry now) t), S_Done)
      | _ \<Rightarrow> claimed_session s True
               (try_fail_with_expiration now (up_id s) (up_status s) (now + DEFERRED_UPLOAD_SESSION_CLEANUP_GRACE_SECS) t))"

definition terminate_upload_stage_session ::
  "time \<Rightarrow> upload_session \<Rightarrow> aster_error \<Rightarrow> session_table \<Rightarrow> session_table \<times> cleanup_actor" where
  "terminate_upload_stage_session now s e t =
     (if stage_error_disposition e = PreserveSession \<or> up_status s \<notin> {US_Uploading, US_Presigned} then (t, S_Done)
      else claimed_session s False
             (try_fail_with_expiration now (up_id s) (up_status s) (now + DEFERRED_UPLOAD_SESSION_CLEANUP_GRACE_SECS) t))"

definition cleanup_expired_session :: "time \<Rightarrow> upload_session \<Rightarrow> session_table \<Rightarrow> session_table \<times> cleanup_actor" where
  "cleanup_expired_session now s t =
     (let lease_deadline = now - ASSEMBLY_LEASE_TIMEOUT_SECS in
      if up_status s = US_Failed \<and> lease_deadline < up_updated_at s then (t, S_Done)
      else if up_status s = US_Assembling
      then if lease_deadline < up_updated_at s then (t, S_Done)
           else claimed_session s False
                  (try_fail_with_expiration_if_lease_stale now (up_id s) lease_deadline
                     (now + DEFERRED_UPLOAD_SESSION_CLEANUP_GRACE_SECS) t)
      else (t, S_Remote s False))"

text \<open>The parts of a session are deleted with it, by the foreign key.\<close>

definition delete_session_rows :: "string \<Rightarrow> upload_world \<Rightarrow> upload_world" where
  "delete_session_rows i w =
     w\<lparr>uw_sessions := session_delete i (uw_sessions w), uw_parts := fst (delete_by_upload i (uw_parts w))\<rparr>"

definition delete_cancellable_rows :: "string \<Rightarrow> upload_world \<Rightarrow> upload_world" where
  "delete_cancellable_rows i w =
     (let (t, ok) = delete_if_cancellable i (uw_sessions w) in
      w\<lparr>uw_sessions := t, uw_parts := (if ok then fst (delete_by_upload i (uw_parts w)) else uw_parts w)\<rparr>)"

fun cleanup_actor_step :: "time \<Rightarrow> remote_replies \<Rightarrow> cleanup_actor \<Rightarrow> upload_world \<Rightarrow> upload_world \<times> cleanup_actor" where
  "cleanup_actor_step now r (S_Cancel s) w =
     (let (t, a) = cancel_upload_impl now s (uw_sessions w) in (w\<lparr>uw_sessions := t\<rparr>, a))"
| "cleanup_actor_step now r (S_Stage_Error s e) w =
     (let (t, a) = terminate_upload_stage_session now s e (uw_sessions w) in (w\<lparr>uw_sessions := t\<rparr>, a))"
| "cleanup_actor_step now r (S_Expired s) w =
     (let (t, a) = cleanup_expired_session now s (uw_sessions w) in (w\<lparr>uw_sessions := t\<rparr>, a))"
| "cleanup_actor_step now r (S_Remote s only_cancellable) w =
     (let (objs, oc) = cleanup_remote_upload_state r s False (uw_objects w) in
      (w\<lparr>uw_objects := objs\<rparr>, if oc = RC_Complete then S_Row (up_id s) only_cancellable else S_Done))"
| "cleanup_actor_step now r (S_Row i only_cancellable) w =
     (if only_cancellable then delete_cancellable_rows i w else delete_session_rows i w, S_Done)"
| "cleanup_actor_step now r S_Done w = (w, S_Done)"

text \<open>
  Completed sessions are swept by \<open>src/src/services/ops/maintenance.rs\<close>: the temporary object goes unless it is
  the place of a blob. \<open>aborts\<close> are the answers to the attempts at aborting a multipart upload.
\<close>

definition session_stale_temp_key :: "upload_session \<Rightarrow> string set \<Rightarrow> string option" where
  "session_stale_temp_key s tracked = (case up_object_temp_key s of
      None \<Rightarrow> None | Some key \<Rightarrow> if key \<in> tracked then None else Some key)"

definition delete_completed_stale_temp_object ::
  "remote_replies \<Rightarrow> (int \<times> string) \<Rightarrow> (int \<times> string) set \<Rightarrow> (int \<times> string) set \<times> bool" where
  "delete_completed_stale_temp_object r key objs =
     (let objs' = object_delete (rr_delete r) key objs in
      (objs', rr_delete r = Deleted \<or> rr_exists_ok r \<and> key \<notin> objs'))"

definition MULTIPART_ABORT_MAX_ATTEMPTS :: nat where "MULTIPART_ABORT_MAX_ATTEMPTS = 3"

definition aborted_in_time :: "(nat \<Rightarrow> storage_error_kind option) \<Rightarrow> bool" where
  "aborted_in_time aborts = list_ex (\<lambda>k. aborts k \<in> {None, Some SK_NotFound}) [1..<Suc MULTIPART_ABORT_MAX_ATTEMPTS]"

definition cleanup_completed_session_stale_temp_object ::
  "remote_replies \<Rightarrow> (nat \<Rightarrow> storage_error_kind option) \<Rightarrow> upload_session \<Rightarrow> (int \<times> string) set \<Rightarrow> (int \<times> string) set \<times> bool" where
  "cleanup_completed_session_stale_temp_object r aborts s objs =
     (case up_object_temp_key s of
        None \<Rightarrow> (objs, True)
      | Some key \<Rightarrow>
          if \<not> rr_policy_known r \<or> rr_driver_error r \<noteq> None then (objs, False)
          else if up_object_multipart_id s \<noteq> None \<and> rr_multipart r \<and> \<not> aborted_in_time aborts then (objs, False)
          else delete_completed_stale_temp_object r (up_policy_id s, key) objs)"

definition sweep_completed_session ::
  "remote_replies \<Rightarrow> (nat \<Rightarrow> storage_error_kind option) \<Rightarrow> upload_session \<Rightarrow> upload_world \<Rightarrow> upload_world" where
  "sweep_completed_session r aborts s w =
     (if session_stale_temp_key s (snd ` uw_tracked w) = None then delete_session_rows (up_id s) w
      else
        let (objs, ok) = cleanup_completed_session_stale_temp_object r aborts s (uw_objects w);
            w' = w\<lparr>uw_objects := objs\<rparr> in
        if ok then delete_session_rows (up_id s) w' else w')"

end
