(* ===== verification/File_Writes.thy ===== *)
theory File_Writes
  imports File_Names Blob_Uploads Upload_Lifecycle
begin

text \<open>
  Writing files: \<open>src/src/services/workspace/storage_core/file_record.rs\<close> (the row of a new file),
  \<open>src/src/services/workspace/storage/store/\<close> (storing from a temporary file, from an object uploaded ahead, empty
  files) and \<open>src/src/services/workspace/storage_core/finalize.rs\<close> (the end of an upload session).

  A write is one transaction over the drive and the upload sessions: blob, file row, revision, usage, and the
  session that the write completes. What the code takes from parts that are not modelled here is an argument:
  the resolved storage policy, the outcome of cancellation checkpoints, and the publications of background
  tasks. A retried transaction is its last run.
\<close>

section \<open>The row of a new file\<close>

datatype new_file_name_mode = ResolveUnique | Exact

definition MAX_AUTO_NAME_RETRIES :: nat where "MAX_AUTO_NAME_RETRIES = 32"

record write_env =
  we_drive :: drive_env
  we_names :: name_rules
  we_file_id :: int
  we_blob_id :: int

definition owner_user_id :: "workspace_storage_scope \<Rightarrow> int option" where
  "owner_user_id sc = (case sc of WS_Personal u \<Rightarrow> Some u | WS_Team _ _ \<Rightarrow> None)"

record create_file_params =
  cp_scope :: workspace_storage_scope
  cp_activity_source :: activity_source
  cp_creation_action :: string
  cp_folder_id :: "int option"
  cp_filename :: string
  cp_blob :: file_blob
  cp_now :: time
  cp_name_mode :: new_file_name_mode
  cp_actor_username :: "string option"
  cp_mime_type :: "string option"

definition new_file_row :: "write_env \<Rightarrow> create_file_params \<Rightarrow> string \<Rightarrow> string \<Rightarrow> string \<Rightarrow> file_model" where
  "new_file_row we p username mime name =
     classified_row (we_drive we) (we_file_id we)
       \<lparr>cf_name = name, cf_folder_id = cp_folder_id p, cf_team_id = scope_team_id (cp_scope p),
        cf_blob_id = fb_id (cp_blob p), cf_size = fb_size (cp_blob p), cf_owner_user_id = owner_user_id (cp_scope p),
        cf_created_by_user_id = Some (actor_user_id (cp_scope p)), cf_created_by_username = username,
        cf_mime_type = mime, cf_now = cp_now p\<rparr>"

definition allocate_name_error :: "string \<Rightarrow> aster_error" where
  "allocate_name_error name = validation_error (''failed to allocate a unique file name for '' @ quoted name)"

text \<open>The attempts that are left; a name that has been taken meanwhile is replaced by the next copy's.\<close>

fun create_attempts ::
  "write_env \<Rightarrow> create_file_params \<Rightarrow> string \<Rightarrow> string \<Rightarrow> string \<Rightarrow> nat \<Rightarrow> string \<Rightarrow> drive \<Rightarrow> (drive \<times> file_model) aster_result" where
  "create_attempts we p username mime normalized 0 name d = Inl (allocate_name_error normalized)"
| "create_attempts we p username mime normalized (Suc attempts) name d =
     (case file_insert (new_file_row we p username mime name) (lg_files (dr_ledger d)) of
        Some (fs, file) \<Rightarrow>
          bind_result (create_initial (de_ledger (we_drive we)) file Create ((dr_ledger d)\<lparr>lg_files := fs\<rparr>)) (\<lambda>(lg, _).
          bind_result (file_created (we_drive we) file (cp_creation_action p) (cp_activity_source p) (d\<lparr>dr_ledger := lg\<rparr>))
            (\<lambda>d1. Inr (d1, file)))
      | None \<Rightarrow>
          if cp_name_mode p = Exact then Inl (duplicate_name_error name)
          else if attempts = 0 then Inl (allocate_name_error normalized)
          else create_attempts we p username mime normalized attempts (nr_next_copy_name (we_names we) name) d)"

definition create_file_from_blob_with_name_mode ::
  "write_env \<Rightarrow> create_file_params \<Rightarrow> drive \<Rightarrow> (drive \<times> file_model) aster_result" where
  "create_file_from_blob_with_name_mode we p d =
     bind_result (nr_normalize_validate_name (we_names we) (cp_filename p)) (\<lambda>normalized.
     bind_result (case cp_actor_username p of Some u \<Rightarrow> Inr u | None \<Rightarrow> load_scope_actor_username (cp_scope p) d) (\<lambda>username.
     bind_result (case cp_name_mode p of
           ResolveUnique \<Rightarrow> resolve_unique_filename_in_scope (we_names we) (resource_scope (cp_scope p)) (cp_folder_id p) normalized
                              (lg_files (dr_ledger d))
         | Exact \<Rightarrow> Inr normalized) (\<lambda>name.
     let mime = (case cp_mime_type p of Some m \<Rightarrow> m | None \<Rightarrow> nr_guess_mime (we_names we) name);
         attempts = (case cp_name_mode p of ResolveUnique \<Rightarrow> MAX_AUTO_NAME_RETRIES | Exact \<Rightarrow> 1)
     in create_attempts we p username mime normalized attempts name d)))"

definition create_new_file_from_blob ::
  "write_env \<Rightarrow> workspace_storage_scope \<Rightarrow> int option \<Rightarrow> string \<Rightarrow> file_blob \<Rightarrow> time \<Rightarrow> string \<Rightarrow> drive \<Rightarrow> (drive \<times> file_model) aster_result" where
  "create_new_file_from_blob we sc folder filename blob now action =
     create_file_from_blob_with_name_mode we
       \<lparr>cp_scope = sc, cp_activity_source = AS_Rest, cp_creation_action = action, cp_folder_id = folder, cp_filename = filename,
        cp_blob = blob, cp_now = now, cp_name_mode = ResolveUnique, cp_actor_username = None, cp_mime_type = None\<rparr>"

definition create_new_file_from_blob_with_actor_username ::
  "write_env \<Rightarrow> workspace_storage_scope \<Rightarrow> int option \<Rightarrow> string \<Rightarrow> file_blob \<Rightarrow> time \<Rightarrow> string \<Rightarrow> drive \<Rightarrow> (drive \<times> file_model) aster_result" where
  "create_new_file_from_blob_with_actor_username we sc folder filename blob now username =
     create_file_from_blob_with_name_mode we
       \<lparr>cp_scope = sc, cp_activity_source = AS_Rest, cp_creation_action = ''file_upload'', cp_folder_id = folder,
        cp_filename = filename, cp_blob = blob, cp_now = now, cp_name_mode = ResolveUnique, cp_actor_username = Some username,
        cp_mime_type = None\<rparr>"

definition create_file_from_blob_with_mime ::
  "write_env \<Rightarrow> workspace_storage_scope \<Rightarrow> activity_source \<Rightarrow> int option \<Rightarrow> string \<Rightarrow> string \<Rightarrow> file_blob \<Rightarrow> time \<Rightarrow> string option \<Rightarrow> bool
   \<Rightarrow> drive \<Rightarrow> (drive \<times> file_model) aster_result" where
  "create_file_from_blob_with_mime we sc src folder filename mime blob now username exact_name =
     create_file_from_blob_with_name_mode we
       \<lparr>cp_scope = sc, cp_activity_source = src, cp_creation_action = ''file_upload'', cp_folder_id = folder,
        cp_filename = filename, cp_blob = blob, cp_now = now,
        cp_name_mode = (if exact_name then Exact else ResolveUnique), cp_actor_username = username, cp_mime_type = Some mime\<rparr>"

section \<open>Locks on the drive\<close>

definition lock_workspace_for_mutation :: "drive_env \<Rightarrow> workspace_storage_scope \<Rightarrow> drive \<Rightarrow> drive aster_result" where
  "lock_workspace_for_mutation env sc d =
     bind_result (lock_workspace_for_mutation_on (de_locks env) (scope_lock_workspace sc) (lock_view d)) (\<lambda>(db, _). Inr (with_locks d db))"

definition enforce_membership ::
  "drive_env \<Rightarrow> workspace_storage_scope \<Rightarrow> int option \<Rightarrow> submitted_lock_credentials \<Rightarrow> drive \<Rightarrow> drive aster_result" where
  "enforce_membership env sc folder cr d =
     bind_result (enforce_collection_membership_mutation_on (de_locks env) (scope_lock_workspace sc) folder cr (lock_view d)) (\<lambda>db.
     Inr (with_locks d db))"

section \<open>Overwriting\<close>

record file_write_snapshot =
  sn_id :: int
  sn_blob_id :: int
  sn_size :: int
  sn_updated_at :: time

datatype file_write_precondition = FP_Missing | FP_Existing file_write_snapshot

definition snapshot_of :: "file_model \<Rightarrow> file_write_snapshot" where
  "snapshot_of f = \<lparr>sn_id = fm_id f, sn_blob_id = fm_blob_id f, sn_size = fm_size f, sn_updated_at = fm_updated_at f\<rparr>"

definition modified_during_write :: "string \<Rightarrow> aster_error" where
  "modified_during_write m = precondition_failed_with_code ''FileModifiedDuringWrite'' m"

definition expected_changed :: "file_write_precondition option \<Rightarrow> file_model \<Rightarrow> bool" where
  "expected_changed pre current =
     (case pre of
        Some (FP_Existing expected) \<Rightarrow>
          fm_id current \<noteq> sn_id expected \<or> fm_blob_id current \<noteq> sn_blob_id expected \<or> fm_size current \<noteq> sn_size expected
          \<or> fm_updated_at current \<noteq> sn_updated_at expected
      | Some FP_Missing \<Rightarrow> True
      | None \<Rightarrow> False)"

definition revalidate_overwrite_target ::
  "drive_env \<Rightarrow> workspace_storage_scope \<Rightarrow> file_model \<Rightarrow> lock_mutation_credentials \<Rightarrow> file_write_precondition option \<Rightarrow> drive
   \<Rightarrow> (drive \<times> file_model) aster_result" where
  "revalidate_overwrite_target env sc old_file cr pre d =
     bind_result (enforce_file_mutation env old_file (submitted cr) d) (\<lambda>(d1, current).
     bind_result (ensure_active_file_scope current sc) (\<lambda>_.
     if expected_changed pre current \<or> fm_blob_id current \<noteq> fm_blob_id old_file \<or> fm_size current \<noteq> fm_size old_file
        \<or> fm_updated_at current \<noteq> fm_updated_at old_file
     then Inl (modified_during_write ''file changed while upload body was being received'')
     else Inr (d1, current)))"

definition revalidate_preuploaded_overwrite_target ::
  "drive_env \<Rightarrow> workspace_storage_scope \<Rightarrow> file_model \<Rightarrow> lock_mutation_credentials \<Rightarrow> drive \<Rightarrow> (drive \<times> file_model) aster_result" where
  "revalidate_preuploaded_overwrite_target env sc old_file cr d =
     bind_result (enforce_file_mutation env old_file (submitted cr) d) (\<lambda>(d1, current).
     bind_result (ensure_active_file_scope current sc) (\<lambda>_.
     if fm_blob_id current \<noteq> fm_blob_id old_file
     then Inl (modified_during_write ''file changed while upload body was being received'')
     else Inr (d1, current)))"

definition overwrite_input ::
  "workspace_storage_scope \<Rightarrow> string \<Rightarrow> string \<Rightarrow> time \<Rightarrow> string option \<Rightarrow> file_blob \<Rightarrow> new_revision" where
  "overwrite_input sc username mime now etag blob =
     \<lparr>nr_blob_id = fb_id blob, nr_logical_size = fb_size blob, nr_mime_type = mime, nr_content_sha256 = None,
      nr_creator_user_id = Some (actor_user_id sc), nr_creator_display_name = username, nr_comment = None,
      nr_reason = Overwrite, nr_created_at = now, nr_etag = etag\<rparr>"

text \<open>The columns an overwrite sets; \<open>now\<close> is the time of the write.\<close>

definition overwritten_columns :: "drive_env \<Rightarrow> time \<Rightarrow> file_blob \<Rightarrow> string \<Rightarrow> file_model \<Rightarrow> file_model" where
  "overwritten_columns env now blob mime f =
     (let c = de_classify env (fm_name f) mime in
      f\<lparr>fm_blob_id := fb_id blob, fm_size := fb_size blob, fm_mime_type := mime, fm_extension := cl_extension c,
        fm_compound_extension := cl_compound_extension c, fm_file_category := cl_category c, fm_updated_at := now\<rparr>)"

record overwrite_request =
  or_scope :: workspace_storage_scope
  or_activity_source :: activity_source
  or_activity_action :: string
  or_mime :: string
  or_now :: time
  or_actor_username :: "string option"
  or_expected_revision_id :: "int option"
  or_expected_revision_etag :: "string option"
  or_revision_etag :: "string option"

text \<open>
  The part that both ways of storing share, from the validated row on: the row, the activity, the revision.
  \<open>locked\<close> is the current revision of the locked history.
\<close>

definition overwrite_file ::
  "drive_env \<Rightarrow> overwrite_request \<Rightarrow> file_blob \<Rightarrow> file_model \<Rightarrow> int option \<Rightarrow> drive \<Rightarrow> (drive \<times> file_model) aster_result" where
  "overwrite_file env q blob current locked d =
     (let updated = overwritten_columns env (or_now q) blob (or_mime q) current;
          d1 = set_file_row (fm_id current) (overwritten_columns env (or_now q) blob (or_mime q)) d in
      bind_result (actor_context env (actor_user_id (or_scope q)) (or_activity_source q) d1) (\<lambda>ctx.
      bind_result (file_changed env ctx current updated (or_activity_action q) d1) (\<lambda>(d2, updated').
      bind_result (case or_actor_username q of Some u \<Rightarrow> Inr u | None \<Rightarrow> load_scope_actor_username (or_scope q) d2) (\<lambda>username.
      let input = overwrite_input (or_scope q) username (or_mime q) (or_now q) (or_revision_etag q) blob in
      bind_result (map_append (case or_expected_revision_etag q of
            Some etag \<Rightarrow> append_for_expected_etag (de_ledger env) (fm_id current) (Some etag) input (dr_ledger d2)
          | None \<Rightarrow> append_revision (de_ledger env) (fm_id current)
                     (case or_expected_revision_id q of Some i \<Rightarrow> Some i | None \<Rightarrow> locked) input (dr_ledger d2))) (\<lambda>(lg, _).
      Inr (d2\<lparr>dr_ledger := lg\<rparr>, updated'))))))"

section \<open>Recording a stored blob\<close>

definition charge_usage :: "workspace_storage_scope \<Rightarrow> int \<Rightarrow> drive \<Rightarrow> drive aster_result" where
  "charge_usage sc delta d =
     (if delta \<noteq> 0 then bind_result (update_storage_used sc delta (dr_accounts d)) (\<lambda>a. Inr (d\<lparr>dr_accounts := a\<rparr>)) else Inr d)"

record store_params =
  sp_scope :: workspace_storage_scope
  sp_activity_source :: activity_source
  sp_activity_action :: string
  sp_folder_id :: "int option"
  sp_filename :: string
  sp_mime :: string
  sp_old_file :: "file_model option"
  sp_now :: time
  sp_storage_delta :: int
  sp_new_file_mode :: new_file_name_mode
  sp_actor_username :: "string option"
  sp_lock_credentials :: lock_mutation_credentials
  sp_file_precondition :: "file_write_precondition option"
  sp_expected_revision_id :: "int option"
  sp_expected_revision_etag :: "string option"
  sp_revision_etag :: "string option"
  sp_complete_upload_id :: "string option"

definition overwrite_request_of :: "store_params \<Rightarrow> overwrite_request" where
  "overwrite_request_of sp =
     \<lparr>or_scope = sp_scope sp, or_activity_source = sp_activity_source sp, or_activity_action = sp_activity_action sp,
      or_mime = sp_mime sp, or_now = sp_now sp, or_actor_username = sp_actor_username sp,
      or_expected_revision_id = sp_expected_revision_id sp, or_expected_revision_etag = sp_expected_revision_etag sp,
      or_revision_etag = sp_revision_etag sp\<rparr>"

definition write_file_record_from_temp :: "write_env \<Rightarrow> store_params \<Rightarrow> file_blob \<Rightarrow> drive \<Rightarrow> (drive \<times> file_model) aster_result" where
  "write_file_record_from_temp we sp blob d =
     bind_result (case sp_old_file sp of
        None \<Rightarrow>
          bind_result (enforce_membership (we_drive we) (sp_scope sp) (sp_folder_id sp) (submitted (sp_lock_credentials sp)) d) (\<lambda>d1.
          create_file_from_blob_with_mime we (sp_scope sp) (sp_activity_source sp) (sp_folder_id sp) (sp_filename sp) (sp_mime sp)
            blob (sp_now sp) (sp_actor_username sp) (sp_new_file_mode sp = Exact) d1)
      | Some old_file \<Rightarrow>
          bind_result (revalidate_overwrite_target (we_drive we) (sp_scope sp) old_file (sp_lock_credentials sp)
             (sp_file_precondition sp) d) (\<lambda>(d1, current).
          bind_result (lock_history_by_file_id (fm_id current) (dr_ledger d1)) (\<lambda>h.
          overwrite_file (we_drive we) (overwrite_request_of sp) blob current (fh_current_revision_id h) d1))) (\<lambda>(d2, file).
     bind_result (charge_usage (sp_scope sp) (sp_storage_delta sp) d2) (\<lambda>d3. Inr (d3, file)))"

definition publishing_conflict :: aster_error where
  "publishing_conflict =
     with_api_error_code ''UploadStatusConflict'' (Conflict (payload_new ''upload session changed while publishing the file''))"

definition complete_session :: "time \<Rightarrow> string option \<Rightarrow> int \<Rightarrow> session_table \<Rightarrow> session_table aster_result" where
  "complete_session now upload file_id t =
     (case upload of
        None \<Rightarrow> Inr t
      | Some i \<Rightarrow> (case complete_if_assembling now i file_id t of (t', True) \<Rightarrow> Inr t' | (_, False) \<Rightarrow> Inl publishing_conflict))"

section \<open>Storing from a temporary file\<close>

type_synonym store_world = "drive \<times> session_table"

text \<open>
  \<open>sx_checkpoint k\<close> is the outcome of the \<open>k\<close>-th cancellation checkpoint, \<open>sx_published\<close> that of asking whether a
  background task has already published this entry, \<open>sx_publish\<close> that of recording it.
\<close>

record store_context =
  sx_checkpoint :: "nat \<Rightarrow> unit aster_result"
  sx_published :: "file_model option aster_result"
  sx_publish :: "file_model \<Rightarrow> unit aster_result"

definition temp_store_transaction ::
  "write_env \<Rightarrow> store_context \<Rightarrow> store_params \<Rightarrow> verified_temp_store_blob \<Rightarrow> store_world
   \<Rightarrow> (store_world \<times> file_model \<times> bool) aster_result" where
  "temp_store_transaction we sx sp v w =
     bind_result (sx_published sx) (\<lambda>published.
     case published of
       Some f \<Rightarrow> Inr (w, f, False)
     | None \<Rightarrow>
         bind_result (lock_workspace_for_mutation (we_drive we) (sp_scope sp) (fst w)) (\<lambda>d.
         if sp_file_precondition sp = Some FP_Missing
            \<and> find_by_name_in_folder_in_scope (we_names we) (resource_scope (sp_scope sp)) (sp_folder_id sp) (sp_filename sp)
                (lg_files (dr_ledger d)) \<noteq> None
         then Inl (modified_during_write ''file appeared while upload body was being received'')
         else
         bind_result (lock_storage_usage (sp_scope sp) (dr_accounts d)) (\<lambda>_.
         bind_result (sx_checkpoint sx 3) (\<lambda>_.
         bind_result (if sp_storage_delta sp > 0 then check_quota (sp_scope sp) (sp_storage_delta sp) (dr_accounts d) else Inr ()) (\<lambda>_.
         bind_result (sx_checkpoint sx 4) (\<lambda>_.
         bind_result (persist_temp_blob (\<lambda>_ t. t) (de_now (we_drive we)) (we_blob_id we) v (dr_blobs d)) (\<lambda>(blobs, blob).
         bind_result (sx_checkpoint sx 5) (\<lambda>_.
         bind_result (write_file_record_from_temp we sp blob (d\<lparr>dr_blobs := blobs\<rparr>)) (\<lambda>(d1, file).
         bind_result (complete_session (de_now (we_drive we)) (sp_complete_upload_id sp) (fm_id file) (snd w)) (\<lambda>t.
         bind_result (sx_publish sx file) (\<lambda>_.
         bind_result (sx_checkpoint sx 6) (\<lambda>_.
         Inr ((d1, t), file, True)))))))))))))"

definition undo_staged :: "store_env \<Rightarrow> verified_temp_store_blob \<Rightarrow> drive \<Rightarrow> drive" where
  "undo_staged se v d =
     with_blob_world d (cleanup_verified_temp_blob_after_db_failure (se_db_ok se) (se_delete se) v (blob_view d))"

definition persist_store ::
  "write_env \<Rightarrow> store_env \<Rightarrow> store_context \<Rightarrow> store_params \<Rightarrow> temp_blob_plan \<Rightarrow> int \<Rightarrow> int \<Rightarrow> bool \<Rightarrow> store_world
   \<Rightarrow> store_world \<times> (file_model \<times> bool) aster_result" where
  "persist_store we se sx sp plan policy sz prechecked w =
     (let (d, t) = w in
      case bind_result (sx_checkpoint sx 0) (\<lambda>_.
           bind_result (if sp_storage_delta sp > 0 \<and> \<not> prechecked then check_quota (sp_scope sp) (sp_storage_delta sp) (dr_accounts d)
                        else Inr ()) (\<lambda>_. sx_checkpoint sx 1)) of
        Inl e \<Rightarrow> (w, Inl e)
      | Inr _ \<Rightarrow>
          case stage_temp_blob_before_transaction (se_promote se) plan policy sz (dr_objects d) of
            (objs, Inl e) \<Rightarrow> ((d\<lparr>dr_objects := objs\<rparr>, t), Inl e)
          | (objs, Inr staged) \<Rightarrow>
              let d1 = d\<lparr>dr_objects := objs\<rparr> in
              case from_staged_plan plan sz policy staged of
                Inl e \<Rightarrow> ((with_blob_world d1 (cleanup_staged_blob_plan_after_contract_failure (se_db_ok se) (se_delete se) plan staged
                              policy (blob_view d1)), t), Inl e)
              | Inr v \<Rightarrow>
                  case sx_checkpoint sx 2 of
                    Inl e \<Rightarrow> ((undo_staged se v d1, t), Inl e)
                  | Inr _ \<Rightarrow>
                      case temp_store_transaction we sx sp v (d1, t) of
                        Inr ((d2, t2), file, fresh) \<Rightarrow> ((if fresh then d2 else undo_staged se v d2, t2), Inr (file, fresh))
                      | Inl e \<Rightarrow> ((if se_uncertain se e then d1 else undo_staged se v d1, t), Inl e))"

definition load_overwrite_context ::
  "drive_env \<Rightarrow> workspace_storage_scope \<Rightarrow> int option \<Rightarrow> lock_mutation_credentials \<Rightarrow> drive \<Rightarrow> drive \<times> file_model option aster_result" where
  "load_overwrite_context env sc existing cr d =
     (case existing of
        None \<Rightarrow> (d, Inr None)
      | Some i \<Rightarrow>
          case bind_result (verify_file_access sc i d) (\<lambda>old.
               bind_result (enforce_file_mutation env old (submitted cr) d) (\<lambda>(d1, _). Inr (d1, old))) of
            Inl e \<Rightarrow> (d, Inl e)
          | Inr (d1, old) \<Rightarrow>
              case find_blob_by_id (fm_blob_id old) (dr_blobs d1) of
                Inl e \<Rightarrow> (d1, Inl e)
              | Inr b \<Rightarrow> (delete_thumbnail env 0 b d1, Inr (Some old)))"

text \<open>
  What surrounds \<open>persist_store\<close>: the event, and thinning out the revisions of an overwritten file. \<open>existing\<close> is
  the id of the file to overwrite.
\<close>

definition store_event :: "write_env \<Rightarrow> store_params \<Rightarrow> bool \<Rightarrow> file_model \<Rightarrow> drive \<Rightarrow> drive" where
  "store_event we sp overwritten file d =
     publish_event (with_storage_delta (sp_storage_delta sp)
       (event_new (de_now (we_drive we)) (if overwritten then FileUpdated else FileCreated) (sp_scope sp) [fm_id file] []
          [fm_folder_id file])) d"

definition store_from_temp ::
  "write_env \<Rightarrow> store_env \<Rightarrow> store_context \<Rightarrow> nat option \<Rightarrow> store_params \<Rightarrow> int option \<Rightarrow> temp_blob_plan \<Rightarrow> int \<Rightarrow> int \<Rightarrow> bool \<Rightarrow> bool
   \<Rightarrow> store_world \<Rightarrow> (store_world \<times> file_model aster_result) option" where
  "store_from_temp we se sx configured sp existing plan policy sz prechecked emit w =
     (case load_overwrite_context (we_drive we) (sp_scope sp) existing (sp_lock_credentials sp) (fst w) of
        (d, Inl e) \<Rightarrow> Some ((d, snd w), Inl e)
      | (d, Inr old) \<Rightarrow>
          case persist_store we se sx (sp\<lparr>sp_old_file := old\<rparr>) plan policy sz prechecked (d, snd w) of
            (w1, Inl e) \<Rightarrow> Some (w1, Inl e)
          | ((d1, t1), Inr (file, fresh)) \<Rightarrow>
              let d2 = (if emit \<and> fresh then store_event we sp (existing \<noteq> None) file d1 else d1) in
              case (if fresh then existing else None) of
                None \<Rightarrow> Some ((d2, t1), Inr file)
              | Some i \<Rightarrow> map_option (\<lambda>(d3, res). ((d3, t1), bind_result res (\<lambda>_. Inr file)))
                           (cleanup_excess (we_drive we) configured i d2))"

section \<open>Storing an object uploaded ahead\<close>

definition preuploaded_transaction ::
  "write_env \<Rightarrow> store_params \<Rightarrow> prepared_non_dedup_blob_upload \<Rightarrow> store_world \<Rightarrow> (store_world \<times> file_model) aster_result" where
  "preuploaded_transaction we sp p w =
     (let env = we_drive we; sc = sp_scope sp in
      bind_result (lock_workspace_for_mutation env sc (fst w)) (\<lambda>d.
      bind_result (lock_storage_usage sc (dr_accounts d)) (\<lambda>_.
      bind_result (if sp_storage_delta sp > 0 then check_quota sc (sp_storage_delta sp) (dr_accounts d) else Inr ()) (\<lambda>_.
      bind_result (persist_preuploaded_blob (de_now env) (we_blob_id we) p (dr_blobs d)) (\<lambda>(blobs, blob).
      let d1 = d\<lparr>dr_blobs := blobs\<rparr> in
      bind_result (case sp_old_file sp of
           Some old_file \<Rightarrow>
             bind_result (revalidate_preuploaded_overwrite_target env sc old_file (sp_lock_credentials sp) d1) (\<lambda>(d2, current).
             bind_result (lock_history_by_file_id (fm_id current) (dr_ledger d2)) (\<lambda>h.
             overwrite_file env ((overwrite_request_of sp)\<lparr>or_activity_action := ''file_edit'', or_expected_revision_id := None,
                 or_expected_revision_etag := None, or_revision_etag := None\<rparr>) blob current (fh_current_revision_id h) d2))
         | None \<Rightarrow>
             bind_result (enforce_membership env sc (sp_folder_id sp) (submitted (sp_lock_credentials sp)) d1) (\<lambda>d2.
             create_file_from_blob_with_mime we sc (sp_activity_source sp) (sp_folder_id sp) (sp_filename sp) (sp_mime sp) blob
               (sp_now sp) (sp_actor_username sp) False d2)) (\<lambda>(d3, file).
      bind_result (charge_usage sc (sp_storage_delta sp) d3) (\<lambda>d4.
      bind_result (complete_session (de_now env) (sp_complete_upload_id sp) (fm_id file) (snd w)) (\<lambda>t.
      Inr ((d4, t), file)))))))))"

definition discard_preuploaded :: "store_env \<Rightarrow> prepared_non_dedup_blob_upload \<Rightarrow> drive \<Rightarrow> drive" where
  "discard_preuploaded se p d = d\<lparr>dr_objects := cleanup_preuploaded_blob_upload (se_delete se) p (dr_objects d)\<rparr>"

text \<open>
  \<open>policy\<close> is the id and the size limit of the policy, \<open>driver\<close> the outcome of looking its driver up, \<open>mime\<close> the content
  type the caller states. The checks ahead of the transaction discard the object when the contract, the size or the
  lock refuses it; the name, the driver, the access check and the lookup of the old blob do not.
\<close>

definition overwrite_target ::
  "write_env \<Rightarrow> store_env \<Rightarrow> store_params \<Rightarrow> int option \<Rightarrow> prepared_non_dedup_blob_upload \<Rightarrow> drive
   \<Rightarrow> drive \<times> file_model option aster_result" where
  "overwrite_target we se sp existing p d =
     (case existing of
        None \<Rightarrow> (d, Inr None)
      | Some i \<Rightarrow>
          case verify_file_access (sp_scope sp) i d of
            Inl e \<Rightarrow> (d, Inl e)
          | Inr old \<Rightarrow>
              case enforce_file_mutation (we_drive we) old (submitted (sp_lock_credentials sp)) d of
                Inl e \<Rightarrow> (discard_preuploaded se p d, Inl e)
              | Inr (d1, _) \<Rightarrow>
                  case find_blob_by_id (fm_blob_id old) (dr_blobs d1) of
                    Inl e \<Rightarrow> (d1, Inl e)
                  | Inr b \<Rightarrow> (delete_thumbnail (we_drive we) 0 b d1, Inr (Some old)))"

definition store_preuploaded_nondedup ::
  "write_env \<Rightarrow> store_env \<Rightarrow> nat option \<Rightarrow> store_params \<Rightarrow> string option \<Rightarrow> int option \<Rightarrow> int \<times> int \<Rightarrow> unit aster_result \<Rightarrow> int
   \<Rightarrow> prepared_non_dedup_blob_upload \<Rightarrow> store_world \<Rightarrow> (store_world \<times> file_model aster_result) option" where
  "store_preuploaded_nondedup we se configured sp mime existing policy driver sz p w =
     (let (d, t) = w; (policy_id, limit) = policy in
      case bind_result (nr_normalize_validate_name (we_names we) (sp_filename sp)) (\<lambda>n. bind_result driver (\<lambda>_. Inr n)) of
        Inl e \<Rightarrow> Some (w, Inl e)
      | Inr filename \<Rightarrow>
      case ensure_matches p sz policy_id ''verified preuploaded store blob'' of
        Inl e \<Rightarrow> Some ((discard_preuploaded se p d, t), Inl e)
      | Inr _ \<Rightarrow>
      if 0 < limit \<and> limit < sz
      then Some ((discard_preuploaded se p d, t),
             Inl (FileTooLarge (payload_new (''file size '' @ int_to_string sz @ '' exceeds limit '' @ int_to_string limit))))
      else
      case overwrite_target we se sp existing p d of
        (d1, Inl e) \<Rightarrow> Some ((d1, t), Inl e)
      | (d1, Inr old) \<Rightarrow>
          let sp1 = sp\<lparr>sp_filename := filename, sp_old_file := old, sp_storage_delta := sz,
                      sp_mime := (case mime of Some m \<Rightarrow> m | None \<Rightarrow> nr_guess_mime (we_names we) filename)\<rparr> in
          case preuploaded_transaction we sp1 p (d1, t) of
            Inl e \<Rightarrow> Some ((if se_uncertain se e then d1 else discard_preuploaded se p d1, t), Inl e)
          | Inr ((d2, t2), file) \<Rightarrow>
              let d3 = store_event we sp1 (existing \<noteq> None) file d2 in
              case existing of
                None \<Rightarrow> Some ((d3, t2), Inr file)
              | Some i \<Rightarrow> map_option (\<lambda>(d4, res). ((d4, t2), bind_result res (\<lambda>_. Inr file))) (cleanup_excess (we_drive we) configured i d3))"

text \<open>
  An overwrite of a file that is not accessible, for example because it has been purged while the content was being
  uploaded, leaves the uploaded object behind: no row refers to it and nothing removes it.
\<close>

lemma refused_overwrite_keeps_uploaded_object:
  assumes "verify_file_access (sp_scope sp) i d = Inl e" "nr_normalize_validate_name (we_names we) (sp_filename sp) = Inr n"
    "ensure_matches p sz (fst policy) ''verified preuploaded store blob'' = Inr u" "snd policy = 0"
  shows "store_preuploaded_nondedup we se configured sp mime (Some i) policy (Inr ()) sz p (d, t) = Some ((d, t), Inl e)"
  using assms by (cases policy) (simp add: store_preuploaded_nondedup_def overwrite_target_def)

section \<open>Finishing an upload session\<close>

definition scope_from_session :: "upload_session \<Rightarrow> workspace_storage_scope" where
  "scope_from_session s =
     (case up_team_id s of Some t \<Rightarrow> WS_Team t (up_user_id s) | None \<Rightarrow> WS_Personal (up_user_id s))"

definition finalize_upload_session_blob_with_actor_username ::
  "write_env \<Rightarrow> upload_session \<Rightarrow> file_blob \<Rightarrow> time \<Rightarrow> string option \<Rightarrow> store_world \<Rightarrow> (store_world \<times> file_model) aster_result" where
  "finalize_upload_session_blob_with_actor_username we s blob now username w =
     (let sc = scope_from_session s in
      bind_result (case username of
           Some u \<Rightarrow> create_new_file_from_blob_with_actor_username we sc (up_folder_id s) (up_filename s) blob now u (fst w)
         | None \<Rightarrow> create_new_file_from_blob we sc (up_folder_id s) (up_filename s) blob now ''file_upload'' (fst w)) (\<lambda>(d, file).
      bind_result (update_storage_used sc (fb_size blob) (dr_accounts d)) (\<lambda>a.
      bind_result (mark_upload_session_completed (de_now (we_drive we)) (up_id s) (fm_id file) (snd w)) (\<lambda>t.
      Inr ((d\<lparr>dr_accounts := a\<rparr>, t), file)))))"

definition finalize_upload_session_file ::
  "write_env \<Rightarrow> upload_session \<Rightarrow> string \<Rightarrow> int \<Rightarrow> int \<Rightarrow> string \<Rightarrow> time \<Rightarrow> string option \<Rightarrow> store_world \<Rightarrow> store_world \<times> file_model aster_result" where
  "finalize_upload_session_file we s hash sz policy path now username w =
     (let sc = scope_from_session s; (d, t) = w in
      case bind_result (lock_storage_usage sc (dr_accounts d)) (\<lambda>_.
           let (blobs, r) = find_or_create_blob (\<lambda>_ t. t) (de_now (we_drive we)) (we_blob_id we) hash sz policy path (dr_blobs d) in
           bind_result r (\<lambda>res.
           finalize_upload_session_blob_with_actor_username we s (fr_model res) now username (d\<lparr>dr_blobs := blobs\<rparr>, t))) of
        Inl e \<Rightarrow> (w, Inl e)
      | Inr ((d1, t1), file) \<Rightarrow>
          ((publish_event (with_storage_delta sz
              (event_new (de_now (we_drive we)) FileCreated sc [fm_id file] [] [fm_folder_id file])) d1, t1), Inr file))"

section \<open>Empty files\<close>

text \<open>
  \<open>src/src/db/repository/file_create_idempotency_repo.rs\<close>: a request with a key claims it, records its result, and a
  repeated request gets the recorded file. The table is unique in its scope and key.
\<close>

record idempotency_row =
  ik_id :: int
  ik_actor_user_id :: int
  ik_workspace_kind :: string
  ik_workspace_id :: int
  ik_key_hash :: string
  ik_request_fingerprint :: string
  ik_result_file_id :: "int option"
  ik_created_at :: time
  ik_expires_at :: time

type_synonym idempotency_table = "idempotency_row list"

type_synonym idempotency_scope = "int \<times> string \<times> int"

definition row_scope_key :: "idempotency_row \<Rightarrow> idempotency_scope \<times> string" where
  "row_scope_key r = ((ik_actor_user_id r, ik_workspace_kind r, ik_workspace_id r), ik_key_hash r)"

definition idempotency_find :: "idempotency_scope \<Rightarrow> string \<Rightarrow> idempotency_table \<Rightarrow> idempotency_row option" where
  "idempotency_find sc key t = find_key row_scope_key (sc, key) t"

definition idempotency_delete :: "int \<Rightarrow> idempotency_table \<Rightarrow> idempotency_table" where
  "idempotency_delete i t = fst (delete_where (\<lambda>r. ik_id r = i) t)"

definition create_claim ::
  "int \<Rightarrow> idempotency_scope \<Rightarrow> string \<Rightarrow> string \<Rightarrow> time \<Rightarrow> time \<Rightarrow> idempotency_table \<Rightarrow> (idempotency_table \<times> idempotency_row) aster_result" where
  "create_claim new_id sc key fingerprint now expires t =
     (let (actor, kind, ws) = sc;
          r = \<lparr>ik_id = new_id, ik_actor_user_id = actor, ik_workspace_kind = kind, ik_workspace_id = ws, ik_key_hash = key,
               ik_request_fingerprint = fingerprint, ik_result_file_id = None, ik_created_at = now, ik_expires_at = expires\<rparr> in
      bind_result (insert_rows (\<lambda>t. unique_key ik_id t \<and> unique_key row_scope_key t) [r] t) (\<lambda>t'. Inr (t', r)))"

definition complete_claim :: "idempotency_row \<Rightarrow> int \<Rightarrow> idempotency_table \<Rightarrow> idempotency_table" where
  "complete_claim held file_id t = fst (update_where (\<lambda>r. ik_id r = ik_id held) (\<lambda>r. r\<lparr>ik_result_file_id := Some file_id\<rparr>) t)"

definition FILE_CREATE_IDEMPOTENCY_RETENTION :: int where "FILE_CREATE_IDEMPOTENCY_RETENTION = 86400"

definition idempotency_scope_of :: "workspace_storage_scope \<Rightarrow> idempotency_scope" where
  "idempotency_scope_of sc =
     (case sc of WS_Personal u \<Rightarrow> (u, ''personal'', u) | WS_Team t actor \<Rightarrow> (actor, ''team'', t))"

text \<open>Looking a key up: the recorded file, or the claim under which the file is created.\<close>

definition purged_result :: aster_error where
  "purged_result = Conflict (payload_new ''idempotency result file was purged during its retention window'')"

definition claim_key ::
  "time \<Rightarrow> int \<Rightarrow> workspace_storage_scope \<Rightarrow> string \<times> string \<Rightarrow> ledger \<Rightarrow> idempotency_table
   \<Rightarrow> (idempotency_table \<times> (file_model + idempotency_row)) aster_result" where
  "claim_key now new_id sc request lg t =
     (let (key, fingerprint) = request; isc = idempotency_scope_of sc;
          held = (\<lambda>t. bind_result (create_claim new_id isc key fingerprint now (now + FILE_CREATE_IDEMPOTENCY_RETENTION) t)
                       (\<lambda>(t', r). Inr (t', Inr r))) in
      case idempotency_find isc key t of
        None \<Rightarrow> held t
      | Some existing \<Rightarrow>
          if ik_expires_at existing \<le> now then held (idempotency_delete (ik_id existing) t)
          else if ik_request_fingerprint existing \<noteq> fingerprint
          then Inl (Conflict (payload_new ''idempotency key was already used with a different create-empty request''))
          else
          bind_result (ok_or purged_result (ik_result_file_id existing)) (\<lambda>i.
          bind_result (ok_or purged_result (find_key fm_id i (lg_files lg))) (\<lambda>f. Inr (t, Inl f))))"

record empty_file_context =
  ex_folder_access :: "unit aster_result"
  ex_policy :: "int aster_result"
  ex_claim_id :: int

definition persist_empty_blob :: "write_env \<Rightarrow> int \<Rightarrow> drive \<Rightarrow> (drive \<times> file_blob) aster_result" where
  "persist_empty_blob we policy d =
     (let (blobs, r) = find_or_create_virtual_empty_blob (\<lambda>_ t. t) (de_now (we_drive we)) (we_blob_id we) EMPTY_SHA256 policy (dr_blobs d) in
      bind_result r (\<lambda>res. Inr (d\<lparr>dr_blobs := blobs\<rparr>, fr_model res)))"

definition create_empty_file ::
  "write_env \<Rightarrow> workspace_storage_scope \<Rightarrow> int option \<Rightarrow> string \<Rightarrow> new_file_name_mode \<Rightarrow> file_blob \<Rightarrow> drive \<Rightarrow> (drive \<times> file_model) aster_result" where
  "create_empty_file we sc folder filename mode blob =
     create_file_from_blob_with_name_mode we
       \<lparr>cp_scope = sc, cp_activity_source = AS_Rest, cp_creation_action = ''file_create'', cp_folder_id = folder,
        cp_filename = filename, cp_blob = blob, cp_now = de_now (we_drive we), cp_name_mode = mode, cp_actor_username = None,
        cp_mime_type = None\<rparr>"

definition create_empty_transaction ::
  "write_env \<Rightarrow> empty_file_context \<Rightarrow> workspace_storage_scope \<Rightarrow> int option \<Rightarrow> string \<Rightarrow> new_file_name_mode \<Rightarrow> (string \<times> string) option
   \<Rightarrow> drive \<times> idempotency_table \<Rightarrow> ((drive \<times> idempotency_table) \<times> file_model \<times> bool) aster_result" where
  "create_empty_transaction we ex sc folder filename mode idempotency w =
     (let env = we_drive we in
      bind_result (lock_workspace_for_mutation env sc (fst w)) (\<lambda>d.
      bind_result (lock_storage_usage sc (dr_accounts d)) (\<lambda>_.
      bind_result (case idempotency of
           None \<Rightarrow> Inr (snd w, None)
         | Some request \<Rightarrow> bind_result (claim_key (de_now env) (ex_claim_id ex) sc request (dr_ledger d) (snd w)) (\<lambda>(t, r). Inr (t, Some r)))
        (\<lambda>(t, held).
      case held of
        Some (Inl f) \<Rightarrow> Inr ((d, t), f, True)
      | _ \<Rightarrow>
          bind_result (ex_folder_access ex) (\<lambda>_.
          bind_result (enforce_membership env sc folder \<lparr>sc_holder_user_id = None, sc_tokens = []\<rparr> d) (\<lambda>d1.
          bind_result (ex_policy ex) (\<lambda>policy.
          bind_result (nr_normalize_validate_name (we_names we) filename) (\<lambda>prepared.
          bind_result (persist_empty_blob we policy d1) (\<lambda>(d2, blob).
          bind_result (create_empty_file we sc folder prepared mode blob d2) (\<lambda>(d3, file).
          Inr ((d3, case held of Some (Inr r) \<Rightarrow> complete_claim r (fm_id file) t | _ \<Rightarrow> t), file, False)))))))))))"

definition create_empty_with_idempotency ::
  "write_env \<Rightarrow> empty_file_context \<Rightarrow> workspace_storage_scope \<Rightarrow> int option \<Rightarrow> string \<Rightarrow> new_file_name_mode \<Rightarrow> (string \<times> string) option
   \<Rightarrow> drive \<times> idempotency_table \<Rightarrow> (drive \<times> idempotency_table) \<times> (file_model \<times> bool) aster_result" where
  "create_empty_with_idempotency we ex sc folder filename mode idempotency w =
     (case bind_result (nr_normalize_validate_name (we_names we) filename) (\<lambda>name.
           create_empty_transaction we ex sc folder name mode idempotency w) of
        Inl e \<Rightarrow> (w, Inl e)
      | Inr ((d, t), file, replayed) \<Rightarrow>
          ((if replayed then d
            else publish_event (with_storage_delta 0
                   (event_new (de_now (we_drive we)) FileCreated sc [fm_id file] [] [fm_folder_id file])) d, t), Inr (file, replayed)))"

end
