(* ===== verification/Drive_Writes.thy ===== *)
theory Drive_Writes
  imports File_Writes
begin

text \<open>
  Writes keep the books: a new file or a new revision adds one charge, for the blob the transaction has taken a
  reference to and the size it has counted. The lemmas follow the order of a transaction: the blob first
  (\<open>blobs_ok\<close> with one pending reference), then the ledger, then the account.
\<close>

section \<open>Taking a reference\<close>

lemma system_ok_next_id:
  assumes "blob_system_ok \<lparr>bz_world = w, bz_next_id = n, bz_handlers = []\<rparr>" "\<forall>b \<in> set (bw_blobs w). fb_id b < m"
  shows "blob_system_ok \<lparr>bz_world = w, bz_next_id = m, bz_handlers = []\<rparr>"
  using assms by (simp add: blob_system_ok_def)

lemma blobs_ok_adopt:
  assumes ok: "blobs_ok M tbl objs" "\<forall>b \<in> set tbl. fb_id b < new_id"
    and a: "adopt_or_insert overflow contention now (new_blob_row now new_id hash sz policy path backing) tbl = (tbl', Inr res)"
    and obj: "object_present (fr_model res) objs"
    and place: "fr_inserted res \<longrightarrow> (\<forall>b \<in> set tbl. fb_backing b = Stored \<longrightarrow> backing = Stored \<longrightarrow> fb_policy_id b = policy
      \<longrightarrow> fb_storage_path b \<noteq> path)"
  shows "blobs_ok (add_mset (fb_id (fr_model res)) M) tbl' objs"
proof -
  obtain refs n where r: "mset refs = M" "blob_system_ok \<lparr>bz_world = refs_world refs tbl objs, bz_next_id = n, bz_handlers = []\<rparr>"
    by (rule blobs_ok_world [OF ok(1)])
  let ?s = "\<lparr>bz_world = refs_world refs tbl objs, bz_next_id = new_id, bz_handlers = []\<rparr>" and ?i = "fb_id (fr_model res)"
  have "blob_system_ok ?s" by (rule system_ok_next_id [OF r(2)]) (use ok(2) in simp)
  then have "blob_system_ok (?s\<lparr>bz_world := (bz_world ?s)\<lparr>bw_blobs := tbl', bw_file_refs := ?i # bw_file_refs (bz_world ?s)\<rparr>,
      bz_next_id := bz_next_id ?s + 1\<rparr>)"
    by (rule system_ok_adopt [where row = "new_blob_row now new_id hash sz policy path backing"]) (use a obj place in simp_all)
  then have "blob_system_ok \<lparr>bz_world = refs_world (?i # refs) tbl' objs, bz_next_id = new_id + 1, bz_handlers = []\<rparr>"
    by (simp add: refs_world_def)
  then show ?thesis using blobs_okI [of "refs_world (?i # refs) tbl' objs"] r(1) by auto
qed

lemma blobs_ok_create:
  assumes ok: "blobs_ok M tbl objs" "\<forall>b \<in> set tbl. fb_id b < new_id"
    and c: "create_blob now (new_blob_row now new_id hash sz policy path backing) tbl = Inr (tbl', b)"
    and obj: "object_present (new_blob_row now new_id hash sz policy path backing) objs"
    and place: "\<forall>b \<in> set tbl. fb_backing b = Stored \<longrightarrow> backing = Stored \<longrightarrow> fb_policy_id b = policy \<longrightarrow> fb_storage_path b \<noteq> path"
  shows "blobs_ok (add_mset new_id M) tbl' objs" "b = new_blob_row now new_id hash sz policy path backing"
proof -
  let ?row = "new_blob_row now new_id hash sz policy path backing"
  obtain refs n where r: "mset refs = M" "blob_system_ok \<lparr>bz_world = refs_world refs tbl objs, bz_next_id = n, bz_handlers = []\<rparr>"
    by (rule blobs_ok_world [OF ok(1)])
  let ?s = "\<lparr>bz_world = refs_world refs tbl objs, bz_next_id = new_id, bz_handlers = []\<rparr>"
  have s: "blob_system_ok ?s" by (rule system_ok_next_id [OF r(2)]) (use ok(2) in simp)
  have b: "b = ?row" "tbl' = tbl @ [?row]" using create_blob_InrD [OF c] by (simp_all add: new_row_facts)
  then show "b = ?row" by simp
  have slot: "\<forall>x \<in> set tbl. \<not> same_slot x ?row"
    using c by (auto simp: create_blob_def insert_blob_def Let_def new_row_facts split: sum.splits if_splits)
  have "blob_system_ok \<lparr>bz_world = refs_world (new_id # refs) tbl' objs, bz_next_id = new_id + 1, bz_handlers = []\<rparr>"
    by (rule system_ok_append [OF s, of ?row]) (use obj place slot b in \<open>auto simp: new_row_facts refs_world_def\<close>)
  then show "blobs_ok (add_mset new_id M) tbl' objs"
    using blobs_okI [of "refs_world (new_id # refs) tbl' objs"] r(1) by auto
qed

text \<open>The object of a write: it is stored, and no other content has its place.\<close>

definition place_ready :: "int \<Rightarrow> string \<Rightarrow> drive \<Rightarrow> bool" where
  "place_ready policy path d = ((policy, path) \<in> dr_objects d)"

definition place_unused :: "int \<Rightarrow> string \<Rightarrow> blob_table \<Rightarrow> bool" where
  "place_unused policy path tbl =
     (\<forall>b \<in> set tbl. fb_backing b = Stored \<longrightarrow> fb_policy_id b = policy \<longrightarrow> fb_storage_path b \<noteq> Some path)"

text \<open>
  Content addresses: the row of a hash has the size and the place that the hash determines, and a place that
  belongs to no row is free.
\<close>

definition content_addressed :: "string \<Rightarrow> int \<Rightarrow> int \<Rightarrow> string \<Rightarrow> blob_table \<Rightarrow> bool" where
  "content_addressed hash sz policy path tbl =
     (case find_blob_by_hash hash policy tbl of
        Some b \<Rightarrow> fb_size b = sz \<and> fb_storage_path b = Some path
      | None \<Rightarrow> place_unused policy path tbl)"

lemma blobs_ok_find_or_create:
  assumes ok: "blobs_ok M tbl objs" "\<forall>b \<in> set tbl. fb_id b < new_id"
    and f: "find_or_create_blob (\<lambda>_ t. t) now new_id hash sz policy path tbl = (tbl', Inr res)"
    and c: "content_addressed hash sz policy path tbl" "(policy, path) \<in> objs"
  shows "blobs_ok (add_mset (fb_id (fr_model res)) M) tbl' objs" "fb_size (fr_model res) = sz"
proof -
  let ?row = "new_blob_row now new_id hash sz policy (Some path) Stored"
  have t: "blob_table_ok tbl" by (rule blobs_ok_table(1) [OF ok(1)])
  note a = f [unfolded find_or_create_blob_quiet [OF t]]
  have slot: "find_slot (fb_hash ?row) (fb_policy_id ?row) (fb_backing ?row) tbl = find_blob_by_hash hash policy tbl"
    by (simp add: find_slot_def find_blob_by_hash_def new_blob_row_def)
  have facts: "fb_size (fr_model res) = sz \<and> fb_policy_id (fr_model res) = policy \<and> fb_storage_path (fr_model res) = Some path
      \<and> (fr_inserted res \<longrightarrow> place_unused policy path tbl)"
  proof (cases "find_blob_by_hash hash policy tbl")
    case None
    then have "fr_model res = ?row" "place_unused policy path tbl"
      using a c(1) slot by (auto simp: adopt_or_insert_def content_addressed_def)
    then show ?thesis by (simp add: new_blob_row_def)
  next
    case (Some b)
    then have "find_slot hash policy Stored tbl = Some b" by (simp add: find_slot_def find_blob_by_hash_def)
    then have "fb_policy_id b = policy" using find_slot_Some [of tbl] t by (auto simp: blob_table_ok_def)
    moreover have "fr_model res = increment_row now 1 b" "\<not> fr_inserted res"
      using a Some slot by (auto simp: adopt_or_insert_def split: if_splits)
    ultimately show ?thesis using c(1) Some by (simp add: content_addressed_def increment_row_def)
  qed
  then show "fb_size (fr_model res) = sz" by simp
  have "object_present (fr_model res) objs" using facts c(2) by (auto simp: object_present_def storage_path_for_connector_def split: if_splits)
  then show "blobs_ok (add_mset (fb_id (fr_model res)) M) tbl' objs"
    by (intro blobs_ok_adopt [OF ok a]) (use facts in \<open>auto simp: place_unused_def\<close>)
qed

lemma blobs_ok_empty_blob:
  assumes ok: "blobs_ok M tbl objs" "\<forall>b \<in> set tbl. fb_id b < new_id" "\<forall>b \<in> set tbl. fb_backing b = VirtualEmpty \<longrightarrow> fb_size b = 0"
    and f: "find_or_create_virtual_empty_blob (\<lambda>_ t. t) now new_id EMPTY_SHA256 policy tbl = (tbl', Inr res)"
  shows "blobs_ok (add_mset (fb_id (fr_model res)) M) tbl' objs" "fb_size (fr_model res) = 0"
proof -
  let ?row = "new_blob_row now new_id EMPTY_SHA256 0 policy None VirtualEmpty"
  have t: "blob_table_ok tbl" by (rule blobs_ok_table(1) [OF ok(1)])
  have s: "slots_distinct tbl" using t by (simp add: blob_table_ok_def)
  note a = f [unfolded find_or_create_empty_quiet [OF t], simplified]
  have facts: "fb_size (fr_model res) = 0 \<and> fb_backing (fr_model res) = VirtualEmpty"
  proof (cases "find_slot (fb_hash ?row) (fb_policy_id ?row) (fb_backing ?row) tbl")
    case None
    then show ?thesis using a by (auto simp: adopt_or_insert_def new_blob_row_def)
  next
    case (Some b)
    then have "b \<in> set tbl" "fb_backing b = VirtualEmpty" using find_slot_Some [OF s] by (auto simp: new_blob_row_def)
    then show ?thesis using a Some ok(3) by (auto simp: adopt_or_insert_def increment_row_def split: if_splits)
  qed
  then show "fb_size (fr_model res) = 0" by simp
  have "object_present (fr_model res) objs" using facts by (simp add: object_present_def storage_path_for_connector_def has_connector_object_def)
  then show "blobs_ok (add_mset (fb_id (fr_model res)) M) tbl' objs" by (intro blobs_ok_adopt [OF ok(1,2) a]) auto
qed

section \<open>A new file\<close>

text \<open>The parts of the invariant about the ledger.\<close>

definition ledger_books :: "ledger \<Rightarrow> bool" where
  "ledger_books lg = (ledger_ok lg \<and> files_ok lg \<and> (\<forall>c \<in># charges lg. 0 \<le> snd (snd c)))"

lemma find_key_append_new: "find_key k i (xs @ [y]) = (case find_key k i xs of Some x \<Rightarrow> Some x | None \<Rightarrow> if k y = i then Some y else None)"
  by (induction xs) (auto simp: find_key_def)

lemma new_file_history_scope:
  assumes "files_ok lg" "unique_key fm_id (lg_files lg @ [f])" "lg_histories lg' = lg_histories lg @ [h]" "lg_files lg' = lg_files lg @ [f]"
    "hid \<in> fh_id ` set (lg_histories lg)"
  shows "history_scope lg' hid = history_scope lg hid"
proof -
  obtain g where g: "find_key fh_id hid (lg_histories lg) = Some g" using assms(5) find_key_None_iff by (metis not_None_eq)
  have "i \<noteq> fm_id f" if "fh_file_id g = Some i" for i
  proof -
    have "i \<in> fm_id ` set (lg_files lg)" using assms(1) find_key_SomeD [OF g] that by (auto simp: files_ok_def)
    then show ?thesis using assms(2) unfolding unique_key_def by (cases "i = fm_id f") simp_all
  qed
  then show ?thesis using g assms(3,4)
    by (cases "fh_file_id g") (auto simp: history_scope_def find_key_append_new split: option.splits)
qed

lemma create_initial_books:
  assumes lg: "ledger_books lg" and f: "unique_key fm_id (lg_files lg @ [f])" "file_scope f = Some sc" "0 \<le> fm_size f"
    and c: "create_initial env f reason (lg\<lparr>lg_files := lg_files lg @ [f]\<rparr>) = Inr (lg', r)"
  shows "ledger_books lg'" "charges lg' = add_mset (Some sc, Some (fm_blob_id f), fm_size f) (charges lg)" "lg_files lg' = lg_files lg @ [f]"
proof -
  have ok: "ledger_ok lg" "files_ok lg" using lg by (simp_all add: ledger_books_def)
  obtain h where h: "lg_histories lg' = lg_histories lg @ [h]" "lg_revisions lg' = lg_revisions lg @ [r]" "lg_files lg' = lg_files lg @ [f]"
      "history_constraints (lg_histories lg')" "fh_file_id h = Some (fm_id f)" "fh_current_revision_id h = Some (fr_id r)"
      "fr_history_id r = fh_id h" "fr_blob_id r = Some (fm_blob_id f)" "fr_logical_size r = fm_size f" "fr_retired_at r = None"
    using create_initial_Inr [OF c] by auto
  show fs: "lg_files lg' = lg_files lg @ [f]" by (rule h(3))
  have ok': "ledger_ok lg'" by (rule create_initial_keeps [OF _ c]) (simp add: ok(1))
  have old: "charge_of lg' x = charge_of lg x" if "x \<in> set (lg_revisions lg)" for x
    using new_file_history_scope [OF ok(2) f(1) h(1,3) ledger_okD(7) [OF ok(1) that]] by (simp add: charge_of_def)
  have fk: "find_key fm_id (fm_id f) (lg_files lg') = Some f" unfolding find_key_Some_iff [OF f(1), folded fs] by (simp add: fs)
  have hk: "history_of_file (fm_id f) lg' = Some h" unfolding history_of_file_iff [OF h(4)] using h(1,5) by simp
  have "charge_of lg' r = (Some sc, Some (fm_blob_id f), fm_size f)"
    using history_scope_of_file [OF ok' hk fk] f(2) h by (simp add: charge_of_def)
  moreover have "map (charge_of lg') (live_rows lg) = map (charge_of lg) (live_rows lg)" using old by (simp add: live_rows_def)
  moreover have "live_rows lg' = live_rows lg @ [r]" using h(2,10) by (simp add: live_rows_def)
  ultimately have "map (charge_of lg') (live_rows lg') = map (charge_of lg) (live_rows lg) @ [(Some sc, Some (fm_blob_id f), fm_size f)]"
    by (simp only: map_append list.map)
  then show C: "charges lg' = add_mset (Some sc, Some (fm_blob_id f), fm_size f) (charges lg)"
    by (simp add: charges_def del: mset_map)
  have cur: "shows_current lg' f"
  proof -
    have "revision_by_id (fr_id r) lg' = Some r"
      unfolding revision_by_id_def find_key_Some_iff [OF ledger_okD(5) [OF ok']] using h(2) by simp
    then show ?thesis using hk h by (auto simp: shows_current_iff find_current_Inr)
  qed
  have "shows_current lg' g" if g: "g \<in> set (lg_files lg)" for g
  proof -
    obtain x where x: "find_current_by_file_id (fm_id g) lg = Inr x" "fr_blob_id x = Some (fm_blob_id g)" "fr_logical_size x = fm_size g"
      using ok(2) g by (auto simp: files_ok_def shows_current_iff)
    then obtain k c where k: "history_of_file (fm_id g) lg = Some k" "fh_current_revision_id k = Some c" "revision_by_id c lg = Some x"
      "fr_history_id x = fh_id k" "fr_retired_at x = None" by (auto simp: find_current_Inr)
    have "history_of_file (fm_id g) lg' = Some k"
      unfolding history_of_file_iff [OF h(4)] using history_of_file_SomeD [OF k(1)] h(1) by simp
    moreover have "revision_by_id c lg' = Some x"
      using k(3) find_key_SomeD [of fr_id c "lg_revisions lg" x] h(2)
      unfolding revision_by_id_def find_key_Some_iff [OF ledger_okD(5) [OF ok']] by simp
    ultimately show ?thesis using k x(2,3) by (auto simp: shows_current_iff find_current_Inr)
  qed
  then have "files_ok lg'" using ok(2) f(1,2) cur h(1,3,5) by (fastforce simp: files_ok_def)
  then show "ledger_books lg'" using ok' lg C f(3) by (auto simp: ledger_books_def)
qed

section \<open>Transactions\<close>

text \<open>What a step that records content has done: the books of the ledger hold with one charge more.\<close>

definition recorded :: "workspace_resource_scope \<Rightarrow> file_blob \<Rightarrow> drive \<Rightarrow> drive \<Rightarrow> bool" where
  "recorded sc b d d' =
     (ledger_books (dr_ledger d') \<and> charges (dr_ledger d') = add_mset (Some sc, Some (fb_id b), fb_size b) (charges (dr_ledger d))
      \<and> dr_blobs d' = dr_blobs d \<and> dr_objects d' = dr_objects d \<and> dr_accounts d' = dr_accounts d)"

lemma scope_team_id_case: "scope_team_id sc = (case sc of WS_Personal _ \<Rightarrow> None | WS_Team t _ \<Rightarrow> Some t)"
  by (cases sc) simp_all

lemma new_row_scope [simp]: "file_scope (initialize_attribution (new_file_row we p u m n)) = Some (resource_scope (cp_scope p))"
  by (simp add: file_scope_def initialize_attribution_def new_file_row_def classified_row_def Let_def scope_team_id_case owner_user_id_def
      resource_scope_def split: workspace_storage_scope.splits)

lemma file_created_Inr:
  assumes "file_created env f action src d = Inr d'"
  shows "dr_ledger d' = dr_ledger d" "dr_blobs d' = dr_blobs d" "dr_objects d' = dr_objects d" "dr_accounts d' = dr_accounts d"
  using assms by (auto simp: file_created_def append_activity_def bind_result_Inr_iff)

lemma create_attempts_recorded:
  assumes "create_attempts we p u m nm k name d = Inr (d', f)" "ledger_books (dr_ledger d)" "0 \<le> fb_size (cp_blob p)"
  shows "recorded (resource_scope (cp_scope p)) (cp_blob p) d d'"
  using assms(1)
proof (induction k arbitrary: name)
  case (Suc k)
  show ?case
  proof (cases "file_insert (new_file_row we p u m name) (lg_files (dr_ledger d))")
    case None
    then show ?thesis using Suc by (auto split: if_splits)
  next
    case (Some x)
    let ?f = "initialize_attribution (new_file_row we p u m name)" and ?lg = "dr_ledger d"
    have x: "x = (lg_files ?lg @ [?f], ?f)" "unique_key fm_id (lg_files ?lg @ [?f])"
      using Some by (auto simp: file_insert_def checked_rows_def file_constraints_def split: if_splits)
    obtain lg r where c: "create_initial (de_ledger (we_drive we)) ?f Create (?lg\<lparr>lg_files := lg_files ?lg @ [?f]\<rparr>) = Inr (lg, r)"
        "file_created (we_drive we) ?f (cp_creation_action p) (cp_activity_source p) (d\<lparr>dr_ledger := lg\<rparr>) = Inr d'"
      using Suc.prems Some x(1) by (auto simp: bind_result_Inr_iff)
    have b: "fm_blob_id ?f = fb_id (cp_blob p)" "fm_size ?f = fb_size (cp_blob p)"
      by (simp_all add: initialize_attribution_def new_file_row_def classified_row_def Let_def)
    show ?thesis
      using create_initial_books [OF assms(2) x(2) new_row_scope _ c(1)] assms(3) b file_created_Inr [OF c(2)] by (simp add: recorded_def)
  qed
qed simp

lemma create_file_recorded:
  assumes "create_file_from_blob_with_name_mode we p d = Inr (d', f)" "ledger_books (dr_ledger d)" "0 \<le> fb_size (cp_blob p)"
  shows "recorded (resource_scope (cp_scope p)) (cp_blob p) d d'"
  using assms create_attempts_recorded by (auto simp: create_file_from_blob_with_name_mode_def bind_result_Inr_iff Let_def)

lemma overwritten_shows:
  "shows_columns (fb_id b) (fb_size b) (\<lambda>f. modified_columns env ctx (overwritten_columns env now b mime f))"
  by (simp add: shows_columns_def modified_columns_def overwritten_columns_def Let_def)

lemma appended_Inr:
  assumes "(case etag of Some t \<Rightarrow> append_for_expected_etag env i (Some t) input lg | None \<Rightarrow> append_revision env i expected input lg) = Inr (lg', r)"
  obtains h where "history_of_file i lg = Some h" "append_locked env i h input lg = Inr (lg', r)"
  using assms by (auto simp: append_revision_def append_for_expected_etag_def bind_result_Inr_iff split: option.splits if_splits)

lemma overwrite_recorded:
  assumes w: "overwrite_file env q b current locked d = Inr (d', f')" and lg: "ledger_books (dr_ledger d)" and nn: "0 \<le> fb_size b"
    and cur: "find_key fm_id (fm_id current) (lg_files (dr_ledger d)) = Some current" "file_scope current = Some (resource_scope (or_scope q))"
  shows "recorded (resource_scope (or_scope q)) b d d'"
proof -
  let ?cols = "overwritten_columns env (or_now q) b (or_mime q)" and ?lg = "dr_ledger d"
  define d1 where "d1 = set_file_row (fm_id current) ?cols d"
  obtain ctx d2 lg' r username where s: "file_changed env ctx current (?cols current) (or_activity_action q) d1 = Inr (d2, f')"
      "(case or_expected_revision_etag q of
            Some etag \<Rightarrow> append_for_expected_etag (de_ledger env) (fm_id current) (Some etag)
                (overwrite_input (or_scope q) username (or_mime q) (or_now q) (or_revision_etag q) b) (dr_ledger d2)
          | None \<Rightarrow> append_revision (de_ledger env) (fm_id current) (case or_expected_revision_id q of Some i \<Rightarrow> Some i | None \<Rightarrow> locked)
                (overwrite_input (or_scope q) username (or_mime q) (or_now q) (or_revision_etag q) b) (dr_ledger d2)) = Inr (lg', r)"
      "d' = d2\<lparr>dr_ledger := lg'\<rparr>"
    using w by (auto simp: overwrite_file_def Let_def bind_result_Inr_iff d1_def)
  let ?input = "overwrite_input (or_scope q) username (or_mime q) (or_now q) (or_revision_etag q) b"
  let ?g = "\<lambda>f. modified_columns env ctx (?cols f)"
  let ?F = "map (\<lambda>f. if fm_id f = fm_id current then ?g f else f) (lg_files ?lg)"
  note C = file_changed_Inr [OF s(1)]
  have id: "fm_id (?cols f) = fm_id f" for f by (simp add: overwritten_columns_def Let_def)
  have lg2: "dr_ledger d2 = ?lg\<lparr>lg_files := ?F\<rparr>"
    using C(1) update_rows_twice [OF id] by (simp add: d1_def set_file_row_def id)
  obtain h where h: "history_of_file (fm_id current) (dr_ledger d2) = Some h"
      "append_locked (de_ledger env) (fm_id current) h ?input (dr_ledger d2) = Inr (lg', r)"
    by (rule appended_Inr [OF s(2)])
  obtain lg1 where a: "append_locked (de_ledger env) (fm_id current) h ?input ?lg = Inr (lg1, r)" "lg' = lg1\<lparr>lg_files := ?F\<rparr>"
    using h(2) unfolding lg2 append_locked_files
    by (cases "append_locked (de_ledger env) (fm_id current) h ?input ?lg") auto
  have hh: "history_of_file (fm_id current) ?lg = Some h" using h(1) by (simp add: lg2)
  have in1: "nr_blob_id ?input = fb_id b" "nr_logical_size ?input = fb_size b" by (simp_all add: overwrite_input_def)
  have L: "ledger_ok ?lg" "files_ok ?lg" "\<And>c. c \<in># charges ?lg \<Longrightarrow> 0 \<le> snd (snd c)" using lg by (auto simp: ledger_books_def)
  have g: "shows_columns (nr_blob_id ?input) (nr_logical_size ?input) ?g" unfolding in1 by (rule overwritten_shows)
  note S = append_shown [OF L hh cur a(1) _ g a(2)]
  have "ledger_books lg'" "charges lg' = add_mset (Some (resource_scope (or_scope q)), Some (fb_id b), fb_size b) (charges ?lg)"
    using S nn unfolding in1 ledger_books_def by auto
  then show ?thesis using s(3) C by (simp add: recorded_def d1_def set_file_row_def)
qed

lemma recorded_commit:
  assumes ok: "drive_ok d" and d1: "dr_ledger d1 = dr_ledger d" "dr_accounts d1 = dr_accounts d"
    and blobs: "blobs_ok (add_mset (fb_id b) (blob_charges (charges (dr_ledger d)))) (dr_blobs d1) (dr_objects d1)"
    and r: "recorded sc b d1 d2" and u: "dr_ledger d3 = dr_ledger d2" "dr_blobs d3 = dr_blobs d2" "dr_objects d3 = dr_objects d2"
      "update_storage_used_for_resource_scope sc (fb_size b) (dr_accounts d2) = Inr (dr_accounts d3) \<or> fb_size b = 0 \<and> dr_accounts d3 = dr_accounts d2"
  shows "drive_ok d3"
proof -
  note D = drive_pendingD [OF ok [unfolded drive_ok_def]]
  have L: "ledger_books (dr_ledger d3)" "charges (dr_ledger d3) = add_mset (Some sc, Some (fb_id b), fb_size b) (charges (dr_ledger d))"
    using r u d1 by (simp_all add: recorded_def)
  have nn: "\<And>c. c \<in># charges (dr_ledger d3) \<Longrightarrow> 0 \<le> snd (snd c)" using L(1) by (auto simp: ledger_books_def)
  have bl: "blobs_ok (blob_charges (charges (dr_ledger d3)) + {#}) (dr_blobs d3) (dr_objects d3)"
    using blobs r u by (simp add: L(2) recorded_def d1(1))
  have acc: "accounts_exact (charges (dr_ledger d)) (dr_accounts d2)" using D(5) r d1 by (simp add: recorded_def)
  have "accounts_exact (charges (dr_ledger d3)) (dr_accounts d3)"
    using u(4)
  proof
    assume "update_storage_used_for_resource_scope sc (fb_size b) (dr_accounts d2) = Inr (dr_accounts d3)"
    moreover have "0 \<le> scope_usage (charges (dr_ledger d3)) sc" by (rule scope_usage_nonneg) (use nn in blast)
    ultimately show ?thesis by (intro accounts_exact_update [OF acc]) (auto simp: L(2))
  qed (use acc in \<open>simp add: L(2) accounts_exact_def\<close>)
  then show ?thesis unfolding drive_ok_def
    by (intro drive_pendingI) (use L(1) nn bl in \<open>simp_all add: ledger_books_def\<close>)
qed

lemma drive_books: "drive_ok d \<Longrightarrow> ledger_books (dr_ledger d)"
  using drive_pendingD [of "{#}" d] by (auto simp: drive_ok_def ledger_books_def)

lemma with_locks_same [simp]:
  "dr_ledger (with_locks d db) = dr_ledger d" "dr_accounts (with_locks d db) = dr_accounts d" "dr_blobs (with_locks d db) = dr_blobs d"
  "dr_objects (with_locks d db) = dr_objects d"
  by (simp_all add: with_locks_def)

definition same_tables :: "drive \<Rightarrow> drive \<Rightarrow> bool" where
  "same_tables d' d = (dr_ledger d' = dr_ledger d \<and> dr_accounts d' = dr_accounts d \<and> dr_blobs d' = dr_blobs d \<and> dr_objects d' = dr_objects d)"

lemma locking_same:
  "lock_workspace_for_mutation env sc d = Inr d' \<Longrightarrow> same_tables d' d"
  "enforce_membership env sc folder cr d = Inr d' \<Longrightarrow> same_tables d' d"
  by (auto simp: lock_workspace_for_mutation_def enforce_membership_def bind_result_Inr_iff same_tables_def)

lemma same_tables_ok: "same_tables d' d \<Longrightarrow> drive_ok d' = drive_ok d" "same_tables d' d \<Longrightarrow> env_apart env d' = env_apart env d"
  by (simp_all add: same_tables_def drive_ok_def drive_pending_def Let_def env_apart_def)

lemma recorded_same: "same_tables d1 d \<Longrightarrow> recorded sc b d1 d' = recorded sc b d d'"
  by (simp add: recorded_def same_tables_def)

lemma revalidated:
  assumes "enforce_file_mutation env old cr d = Inr (d1, current)" "ensure_active_file_scope current sc = Inr ()" "files_ok (dr_ledger d)"
  shows "same_tables d1 d" "find_key fm_id (fm_id current) (lg_files (dr_ledger d1)) = Some current"
    "file_scope current = Some (resource_scope sc)"
  using enforce_file_mutation_Inr [OF assms(1,3)] scope_checks(3) [OF assms(2)]
  by (auto simp: same_tables_def same_books_def)

lemma write_record_recorded:
  assumes w: "write_file_record_from_temp we sp b d = Inr (d', f)" and lg: "ledger_books (dr_ledger d)" "0 \<le> fb_size b"
  obtains d2 where "recorded (resource_scope (sp_scope sp)) b d d2" "charge_usage (sp_scope sp) (sp_storage_delta sp) d2 = Inr d'"
proof (cases "sp_old_file sp")
  case None
  then obtain d1 d2 where s: "enforce_membership (we_drive we) (sp_scope sp) (sp_folder_id sp) (submitted (sp_lock_credentials sp)) d = Inr d1"
      "create_file_from_blob_with_mime we (sp_scope sp) (sp_activity_source sp) (sp_folder_id sp) (sp_filename sp) (sp_mime sp)
            b (sp_now sp) (sp_actor_username sp) (sp_new_file_mode sp = Exact) d1 = Inr (d2, f)"
      "charge_usage (sp_scope sp) (sp_storage_delta sp) d2 = Inr d'"
    using w by (auto simp: write_file_record_from_temp_def bind_result_Inr_iff)
  note t = locking_same(2) [OF s(1)]
  have "recorded (resource_scope (sp_scope sp)) b d1 d2"
    using create_file_recorded [OF s(2) [unfolded create_file_from_blob_with_mime_def]] lg t by (simp add: same_tables_def)
  then show thesis using that s(3) recorded_same [OF t] by blast
next
  case (Some old)
  then obtain d1 current locked d2 where s: "enforce_file_mutation (we_drive we) old (submitted (sp_lock_credentials sp)) d = Inr (d1, current)"
      "ensure_active_file_scope current (sp_scope sp) = Inr ()"
      "overwrite_file (we_drive we) (overwrite_request_of sp) b current locked d1 = Inr (d2, f)"
      "charge_usage (sp_scope sp) (sp_storage_delta sp) d2 = Inr d'"
    using w by (auto simp: write_file_record_from_temp_def revalidate_overwrite_target_def bind_result_Inr_iff split: if_splits)
  note t = revalidated [OF s(1,2)]
  have f: "files_ok (dr_ledger d)" using lg by (simp add: ledger_books_def)
  have sc: "or_scope (overwrite_request_of sp) = sp_scope sp" by (simp add: overwrite_request_of_def)
  have "recorded (resource_scope (sp_scope sp)) b d1 d2"
    using overwrite_recorded [OF s(3)] lg t [OF f] sc by (simp add: same_tables_def)
  then show thesis using that s(4) recorded_same [OF t(1) [OF f]] by blast
qed

lemma charge_usage_Inr:
  assumes "charge_usage sc delta d = Inr d'"
  shows "dr_ledger d' = dr_ledger d" "dr_blobs d' = dr_blobs d" "dr_objects d' = dr_objects d"
    "update_storage_used_for_resource_scope (resource_scope sc) delta (dr_accounts d) = Inr (dr_accounts d') \<or> delta = 0 \<and> dr_accounts d' = dr_accounts d"
  using assms by (auto simp: charge_usage_def update_storage_used_def bind_result_Inr_iff split: if_splits)

section \<open>Every write keeps the invariant\<close>

definition ids_below :: "int \<Rightarrow> drive \<Rightarrow> bool" where
  "ids_below i d = (\<forall>b \<in> set (dr_blobs d). fb_id b < i)"

text \<open>The contract under which a staged blob is recorded.\<close>

definition staged_for :: "verified_temp_store_blob \<Rightarrow> drive \<Rightarrow> bool" where
  "staged_for v d =
     (0 \<le> vb_size v \<and> place_ready (vb_policy_id v) (vb_storage_path v) d
      \<and> (case vb_source v of
           ContentAddressed hash \<Rightarrow> content_addressed hash (vb_size v) (vb_policy_id v) (vb_storage_path v) (dr_blobs d)
         | PreuploadedNonDedup p \<Rightarrow> prepared_size p = vb_size v \<and> prepared_policy_id p = vb_policy_id v
             \<and> prepared_storage_path p = vb_storage_path v \<and> place_unused (vb_policy_id v) (vb_storage_path v) (dr_blobs d)))"

lemma persist_preuploaded_ok:
  assumes "blobs_ok M tbl objs" "\<forall>b \<in> set tbl. fb_id b < new_id" "persist_preuploaded_blob now new_id p tbl = Inr (tbl', b)"
    "(prepared_policy_id p, prepared_storage_path p) \<in> objs" "place_unused (prepared_policy_id p) (prepared_storage_path p) tbl"
  shows "blobs_ok (add_mset (fb_id b) M) tbl' objs" "fb_size b = prepared_size p"
proof -
  obtain hash where c: "create_blob now (new_blob_row now new_id hash (prepared_size p) (prepared_policy_id p)
      (Some (prepared_storage_path p)) Stored) tbl = Inr (tbl', b)"
    using assms(3) by (cases p) (auto simp: persist_preuploaded_blob_def create_nondedup_blob_with_key_def create_opaque_nondedup_blob_def
        split: if_splits)
  have o: "object_present (new_blob_row now new_id hash (prepared_size p) (prepared_policy_id p) (Some (prepared_storage_path p)) Stored) objs"
    using assms(4) by (simp add: object_present_def storage_path_for_connector_def has_connector_object_def new_row_facts)
  note K = blobs_ok_create [OF assms(1,2) c o]
  show "blobs_ok (add_mset (fb_id b) M) tbl' objs" "fb_size b = prepared_size p"
    using K assms(5) by (auto simp: place_unused_def new_blob_row_def)
qed

lemma persist_staged_ok:
  assumes ok: "blobs_ok M (dr_blobs d) (dr_objects d)" "ids_below new_id d" "staged_for v d"
    and p: "persist_temp_blob (\<lambda>_ t. t) now new_id v (dr_blobs d) = Inr (tbl', b)"
  shows "blobs_ok (add_mset (fb_id b) M) tbl' (dr_objects d)" "fb_size b = vb_size v"
proof -
  have i: "\<forall>b \<in> set (dr_blobs d). fb_id b < new_id" using ok(2) by (simp add: ids_below_def)
  show "blobs_ok (add_mset (fb_id b) M) tbl' (dr_objects d)" "fb_size b = vb_size v"
  proof (atomize (full), cases "vb_source v")
    case (ContentAddressed hash)
    obtain res where "find_or_create_blob (\<lambda>_ t. t) now new_id hash (vb_size v) (vb_policy_id v) (vb_storage_path v) (dr_blobs d) = (tbl', Inr res)"
        "b = fr_model res"
      using p ContentAddressed by (auto simp: persist_temp_blob_def case_prod_beta Let_def bind_result_Inr_iff prod_eq_iff)
    then show "blobs_ok (add_mset (fb_id b) M) tbl' (dr_objects d) \<and> fb_size b = vb_size v"
      using blobs_ok_find_or_create [OF ok(1) i] ok(3) ContentAddressed by (simp add: staged_for_def place_ready_def)
  next
    case (PreuploadedNonDedup q)
    then show "blobs_ok (add_mset (fb_id b) M) tbl' (dr_objects d) \<and> fb_size b = vb_size v"
      using persist_preuploaded_ok [OF ok(1) i, of now q tbl' b] ok(3) p
      by (simp add: persist_temp_blob_def staged_for_def place_ready_def)
  qed
qed

lemma drive_blobs: "drive_ok d \<Longrightarrow> blobs_ok (blob_charges (charges (dr_ledger d))) (dr_blobs d) (dr_objects d)"
  using drive_pendingD(4) [of "{#}" d] by (simp add: drive_ok_def)

lemma temp_store_keeps:
  assumes ok: "drive_ok (fst w)" "ids_below (we_blob_id we) (fst w)" "staged_for v (fst w)" "sp_storage_delta sp = vb_size v"
    and t: "temp_store_transaction we sx sp v w = Inr (w', f, fresh)"
  shows "drive_ok (fst w')"
proof (cases fresh)
  case False
  then show ?thesis using t ok(1) by (auto simp: temp_store_transaction_def bind_result_Inr_iff split: option.splits if_splits)
next
  case True
  obtain d blobs b d1 where s: "lock_workspace_for_mutation (we_drive we) (sp_scope sp) (fst w) = Inr d"
      "persist_temp_blob (\<lambda>_ t. t) (de_now (we_drive we)) (we_blob_id we) v (dr_blobs d) = Inr (blobs, b)"
      "write_file_record_from_temp we sp b (d\<lparr>dr_blobs := blobs\<rparr>) = Inr (d1, f)" "fst w' = d1"
    using t True by (auto simp: temp_store_transaction_def bind_result_Inr_iff split: option.splits if_splits)
  have l: "same_tables d (fst w)" by (rule locking_same(1) [OF s(1)])
  then have d: "drive_ok d" "ids_below (we_blob_id we) d" "staged_for v d"
    using ok same_tables_ok(1) [OF l]
    by (simp_all add: same_tables_def ids_below_def staged_for_def place_ready_def split: verified_temp_store_blob_source.splits)
  note P = persist_staged_ok [OF drive_blobs [OF d(1)] d(2,3) s(2)]
  have nn: "0 \<le> fb_size b" using P(2) d(3) by (simp add: staged_for_def)
  obtain d2 where r: "recorded (resource_scope (sp_scope sp)) b (d\<lparr>dr_blobs := blobs\<rparr>) d2"
      "charge_usage (sp_scope sp) (sp_storage_delta sp) d2 = Inr d1"
    by (rule write_record_recorded [OF s(3) _ nn]) (use drive_books [OF d(1)] in simp_all)
  note C = charge_usage_Inr [OF r(2)]
  show ?thesis unfolding s(4)
    by (rule recorded_commit [OF d(1) _ _ _ r(1) C(1-3)]) (use P C(4) ok(4) in simp_all)
qed

lemma preuploaded_keeps:
  assumes ok: "drive_ok (fst w)" "ids_below (we_blob_id we) (fst w)" "place_ready (prepared_policy_id p) (prepared_storage_path p) (fst w)"
      "place_unused (prepared_policy_id p) (prepared_storage_path p) (dr_blobs (fst w))"
      "0 \<le> prepared_size p" "sp_storage_delta sp = prepared_size p"
    and t: "preuploaded_transaction we sp p w = Inr (w', f)"
  shows "drive_ok (fst w')"
proof -
  obtain d blobs b where s: "lock_workspace_for_mutation (we_drive we) (sp_scope sp) (fst w) = Inr d"
      "persist_preuploaded_blob (de_now (we_drive we)) (we_blob_id we) p (dr_blobs d) = Inr (blobs, b)"
    using t by (auto simp: preuploaded_transaction_def bind_result_Inr_iff Let_def)
  have l: "same_tables d (fst w)" by (rule locking_same(1) [OF s(1)])
  then have d: "drive_ok d" "\<forall>b \<in> set (dr_blobs d). fb_id b < we_blob_id we" "(prepared_policy_id p, prepared_storage_path p) \<in> dr_objects d"
      "place_unused (prepared_policy_id p) (prepared_storage_path p) (dr_blobs d)"
    using ok same_tables_ok(1) [OF l] by (simp_all add: same_tables_def ids_below_def place_ready_def)
  note P = persist_preuploaded_ok [OF drive_blobs [OF d(1)] d(2) s(2) d(3,4)]
  let ?d1 = "d\<lparr>dr_blobs := blobs\<rparr>" and ?sc = "resource_scope (sp_scope sp)"
  have nn: "0 \<le> fb_size b" using P(2) ok(5) by simp
  have lg: "ledger_books (dr_ledger ?d1)" using drive_books [OF d(1)] by simp
  have "\<exists>d3. recorded ?sc b ?d1 d3 \<and> charge_usage (sp_scope sp) (sp_storage_delta sp) d3 = Inr (fst w')"
  proof (cases "sp_old_file sp")
    case None
    then obtain d2 d3 where c: "enforce_membership (we_drive we) (sp_scope sp) (sp_folder_id sp) (submitted (sp_lock_credentials sp)) ?d1 = Inr d2"
        "create_file_from_blob_with_mime we (sp_scope sp) (sp_activity_source sp) (sp_folder_id sp) (sp_filename sp) (sp_mime sp) b
               (sp_now sp) (sp_actor_username sp) False d2 = Inr (d3, f)"
        "charge_usage (sp_scope sp) (sp_storage_delta sp) d3 = Inr (fst w')"
      using t s by (auto simp: preuploaded_transaction_def bind_result_Inr_iff Let_def)
    note m = locking_same(2) [OF c(1)]
    have "recorded ?sc b d2 d3"
      using create_file_recorded [OF c(2) [unfolded create_file_from_blob_with_mime_def]] lg m nn by (simp add: same_tables_def)
    then show ?thesis using c(3) recorded_same [OF m] by blast
  next
    case (Some old)
    then obtain d2 current q locked d3 where c: "enforce_file_mutation (we_drive we) old (submitted (sp_lock_credentials sp)) ?d1 = Inr (d2, current)"
        "ensure_active_file_scope current (sp_scope sp) = Inr ()"
        "overwrite_file (we_drive we) q b current locked d2 = Inr (d3, f)" "or_scope q = sp_scope sp"
        "charge_usage (sp_scope sp) (sp_storage_delta sp) d3 = Inr (fst w')"
      using t s by (fastforce simp: preuploaded_transaction_def revalidate_preuploaded_overwrite_target_def bind_result_Inr_iff Let_def
          overwrite_request_of_def split: if_splits)
    have "files_ok (dr_ledger ?d1)" using lg by (simp add: ledger_books_def)
    note m = revalidated [OF c(1,2) this]
    have "recorded ?sc b d2 d3" using overwrite_recorded [OF c(3)] lg m nn c(4) by (simp add: same_tables_def)
    then show ?thesis using c(5) recorded_same [OF m(1)] by blast
  qed
  then obtain d3 where r: "recorded ?sc b ?d1 d3" "charge_usage (sp_scope sp) (sp_storage_delta sp) d3 = Inr (fst w')" by blast
  note C = charge_usage_Inr [OF r(2)]
  show ?thesis by (rule recorded_commit [OF d(1) _ _ _ r(1) C(1-3)]) (use P C(4) ok(6) in simp_all)
qed

lemma finalize_keeps:
  assumes ok: "drive_ok (fst w)" "ids_below (we_blob_id we) (fst w)" "content_addressed hash sz policy path (dr_blobs (fst w))"
      "place_ready policy path (fst w)" "0 \<le> sz"
  shows "drive_ok (fst (fst (finalize_upload_session_file we s hash sz policy path now username w)))"
proof -
  obtain d t where w: "w = (d, t)" by (cases w)
  let ?sc = "scope_from_session s"
  obtain blobs r where f: "find_or_create_blob (\<lambda>_ t. t) (de_now (we_drive we)) (we_blob_id we) hash sz policy path (dr_blobs d) = (blobs, r)"
    by fastforce
  show ?thesis
  proof (cases "bind_result (lock_storage_usage ?sc (dr_accounts d)) (\<lambda>_. bind_result r (\<lambda>res.
      finalize_upload_session_blob_with_actor_username we s (fr_model res) now username (d\<lparr>dr_blobs := blobs\<rparr>, t)))")
    case (Inl e)
    then show ?thesis using ok(1) f by (simp add: finalize_upload_session_file_def w)
  next
    case (Inr x)
    obtain w1 fl where x: "x = (w1, fl)" by (cases x)
    obtain res where res: "r = Inr res"
        "finalize_upload_session_blob_with_actor_username we s (fr_model res) now username (d\<lparr>dr_blobs := blobs\<rparr>, t) = Inr (w1, fl)"
      using Inr x by (auto simp: bind_result_Inr_iff)
    let ?b = "fr_model res" and ?d1 = "d\<lparr>dr_blobs := blobs\<rparr>"
    have i: "\<forall>b \<in> set (dr_blobs d). fb_id b < we_blob_id we" using ok(2) w by (simp add: ids_below_def)
    have P: "blobs_ok (add_mset (fb_id ?b) (blob_charges (charges (dr_ledger d)))) blobs (dr_objects d)" "fb_size ?b = sz"
      using blobs_ok_find_or_create [OF drive_blobs i f [unfolded res(1)]] ok w by (auto simp: place_ready_def)
    obtain p d2 a where c: "create_file_from_blob_with_name_mode we p ?d1 = Inr (d2, fl)" "cp_scope p = ?sc" "cp_blob p = ?b"
        "update_storage_used ?sc (fb_size ?b) (dr_accounts d2) = Inr a" "fst w1 = d2\<lparr>dr_accounts := a\<rparr>"
      using res(2) by (auto simp: finalize_upload_session_blob_with_actor_username_def bind_result_Inr_iff Let_def
          create_new_file_from_blob_def create_new_file_from_blob_with_actor_username_def split: option.splits)
    have "recorded (resource_scope ?sc) ?b ?d1 d2"
      using create_file_recorded [OF c(1)] drive_books ok P(2) c(2,3) w by simp
    then have "drive_ok (fst w1)"
      by (rule recorded_commit [where d = d, rotated 4]) (use ok(1) w P(1) c(4,5) in \<open>simp_all add: update_storage_used_def\<close>)
    then show ?thesis using Inr x f res(1)
      by (cases w1) (simp add: finalize_upload_session_file_def w drive_ok_def)
  qed
qed

lemma create_empty_Inr:
  assumes "create_empty_transaction we ex sc folder filename mode idem w = Inr (w', f, replayed)"
  obtains d where "lock_workspace_for_mutation (we_drive we) sc (fst w) = Inr d" "replayed \<longrightarrow> fst w' = d"
    "\<not> replayed \<longrightarrow> (\<exists>d1 policy prepared d2 b.
       enforce_membership (we_drive we) sc folder \<lparr>sc_holder_user_id = None, sc_tokens = []\<rparr> d = Inr d1
       \<and> persist_empty_blob we policy d1 = Inr (d2, b) \<and> create_empty_file we sc folder prepared mode b d2 = Inr (fst w', f))"
proof -
  obtain d t1 held where h: "lock_workspace_for_mutation (we_drive we) sc (fst w) = Inr d"
      "(case held of
        Some (Inl f) \<Rightarrow> Inr ((d, t1), f, True)
      | _ \<Rightarrow>
          bind_result (ex_folder_access ex) (\<lambda>_.
          bind_result (enforce_membership (we_drive we) sc folder \<lparr>sc_holder_user_id = None, sc_tokens = []\<rparr> d) (\<lambda>d1.
          bind_result (ex_policy ex) (\<lambda>policy.
          bind_result (nr_normalize_validate_name (we_names we) filename) (\<lambda>prepared.
          bind_result (persist_empty_blob we policy d1) (\<lambda>(d2, blob).
          bind_result (create_empty_file we sc folder prepared mode blob d2) (\<lambda>(d3, fl).
          Inr ((d3, case held of Some (Inr r) \<Rightarrow> complete_claim r (fm_id fl) t1 | _ \<Rightarrow> t1), fl, False)))))))) = Inr (w', f, replayed)"
    using assms unfolding create_empty_transaction_def Let_def bind_result_Inr_iff by (elim exE conjE) (auto simp: case_prod_beta)
  show thesis
    by (rule that [OF h(1)]) (use h(2) in \<open>cases held; cases "the held"; force simp: bind_result_Inr_iff\<close>)+
qed

lemma create_empty_keeps:
  assumes ok: "drive_ok (fst w)" "ids_below (we_blob_id we) (fst w)" "\<forall>b \<in> set (dr_blobs (fst w)). fb_backing b = VirtualEmpty \<longrightarrow> fb_size b = 0"
    and t: "create_empty_transaction we ex sc folder filename mode idem w = Inr (w', f, replayed)"
  shows "drive_ok (fst w')"
proof -
  obtain d where l: "lock_workspace_for_mutation (we_drive we) sc (fst w) = Inr d" "replayed \<longrightarrow> fst w' = d"
    and c0: "\<not> replayed \<longrightarrow> (\<exists>d1 policy prepared d2 b.
       enforce_membership (we_drive we) sc folder \<lparr>sc_holder_user_id = None, sc_tokens = []\<rparr> d = Inr d1
       \<and> persist_empty_blob we policy d1 = Inr (d2, b) \<and> create_empty_file we sc folder prepared mode b d2 = Inr (fst w', f))"
    by (rule create_empty_Inr [OF t])
  note s = locking_same(1) [OF l(1)]
  show ?thesis
  proof (cases replayed)
    case True
    then show ?thesis using same_tables_ok(1) [OF s] ok(1) l(2) by simp
  next
    case False
    then obtain d1 policy d2 b p where c: "enforce_membership (we_drive we) sc folder \<lparr>sc_holder_user_id = None, sc_tokens = []\<rparr> d = Inr d1"
        "persist_empty_blob we policy d1 = Inr (d2, b)" "create_file_from_blob_with_name_mode we p d2 = Inr (fst w', f)"
        "cp_scope p = sc" "cp_blob p = b"
      using c0 by (auto simp: create_empty_file_def)
    have d1: "same_tables d1 (fst w)" using s locking_same(2) [OF c(1)] by (simp add: same_tables_def)
    have d: "drive_ok d1" "\<forall>b \<in> set (dr_blobs d1). fb_id b < we_blob_id we" "\<forall>b \<in> set (dr_blobs d1). fb_backing b = VirtualEmpty \<longrightarrow> fb_size b = 0"
      using ok same_tables_ok(1) [OF d1] d1 by (simp_all add: same_tables_def ids_below_def)
    obtain blobs res where e: "find_or_create_virtual_empty_blob (\<lambda>_ t. t) (de_now (we_drive we)) (we_blob_id we) EMPTY_SHA256 policy (dr_blobs d1)
        = (blobs, Inr res)" "d2 = d1\<lparr>dr_blobs := blobs\<rparr>" "b = fr_model res"
      using c(2) by (auto simp: persist_empty_blob_def case_prod_beta Let_def bind_result_Inr_iff prod_eq_iff)
    note P = blobs_ok_empty_blob [OF drive_blobs [OF d(1)] d(2,3) e(1)]
    have "recorded (resource_scope sc) b d2 (fst w')" using create_file_recorded [OF c(3)] drive_books [OF d(1)] P(2) c(4,5) e by simp
    then show ?thesis by (rule recorded_commit [where d = d1, rotated 4]) (use d(1) P e in simp_all)
  qed
qed

end
