(* ===== verification/Upload_System.thy ===== *)
theory Upload_System
  imports Upload_Lifecycle
begin

text \<open>
  Uploads, cancellations and cleanup at once. \<open>upload_step\<close> interleaves the statements of any number of
  requests on any number of sessions with the handlers that clean up after them, and the invariant
  \<open>upload_ok\<close> says that none of them removes an object that a published file uses.
\<close>

section \<open>The system\<close>

text \<open>
  \<open>us_owner\<close> records which session was given a place (policy and path) as its temporary object, \<open>us_ids\<close> the
  session ids that have been used: ids are UUIDs, and the places are made from them.
\<close>

record upload_system =
  us_world :: upload_world
  us_now :: time
  us_actors :: "cleanup_actor list"
  us_owner :: "(int \<times> string) \<Rightarrow> string option"
  us_ids :: "string set"

definition session_place :: "upload_session \<Rightarrow> (int \<times> string) option" where
  "session_place x = map_option (\<lambda>k. (up_policy_id x, k)) (up_object_temp_key x)"

abbreviation us_sessions :: "upload_system \<Rightarrow> session_table" where
  "us_sessions s \<equiv> uw_sessions (us_world s)"

definition with_sessions :: "session_table \<Rightarrow> upload_system \<Rightarrow> upload_system" where
  "with_sessions t s = s\<lparr>us_world := (us_world s)\<lparr>uw_sessions := t\<rparr>\<rparr>"

definition own_place :: "upload_session \<Rightarrow> ((int \<times> string) \<Rightarrow> string option) \<Rightarrow> (int \<times> string) \<Rightarrow> string option" where
  "own_place x owner = (case session_place x of None \<Rightarrow> owner | Some k \<Rightarrow> owner(k := Some (up_id x)))"

inductive upload_step :: "upload_system \<Rightarrow> upload_system \<Rightarrow> bool" where
  tick: "us_now s \<le> n \<Longrightarrow> upload_step s (s\<lparr>us_now := n\<rparr>)"
| create: "up_id x \<notin> us_ids s \<Longrightarrow> up_status x \<in> {US_Uploading, US_Presigned}
    \<Longrightarrow> \<forall>k \<in> set_option (session_place x). us_owner s k = None \<and> k \<notin> uw_tracked (us_world s)
    \<Longrightarrow> session_try_create x (us_sessions s) = (t, True)
    \<Longrightarrow> upload_step s (with_sessions t s\<lparr>us_ids := insert (up_id x) (us_ids s), us_owner := own_place x (us_owner s)\<rparr>)"
| store: "upload_step s (s\<lparr>us_world := (us_world s)\<lparr>uw_objects := insert k (uw_objects (us_world s))\<rparr>\<rparr>)"
| receive: "increment_session_received_count (us_now s) i (us_sessions s) = Inr t \<Longrightarrow> upload_step s (with_sessions t s)"
| relay: "advance_provider_relay_received_count (us_now s) i n (us_sessions s) = (t, ok) \<Longrightarrow> upload_step s (with_sessions t s)"
| exchange: "compare_exchange_provider_session (us_now s) i previous next_value (us_sessions s) = (t, ok)
    \<Longrightarrow> upload_step s (with_sessions t s)"
| assemble: "expected \<in> {US_Uploading, US_Presigned}
    \<Longrightarrow> transition_upload_session_to_assembling (us_now s) i actual expected (us_sessions s) = (t, Inr ())
    \<Longrightarrow> upload_step s (with_sessions t s)"
| lease: "touch_assembling i (us_now s) (us_sessions s) = (t, ok) \<Longrightarrow> upload_step s (with_sessions t s)"
| restore: "restore_status \<in> {US_Uploading, US_Presigned}
    \<Longrightarrow> t = restore_session_status_after_retryable_completion_error (us_now s) i restore_status (us_sessions s)
    \<Longrightarrow> upload_step s (with_sessions t s)"
| fail: "find_key up_id i (us_sessions s) = Some x \<Longrightarrow> up_status x \<noteq> US_Completed
    \<Longrightarrow> upload_step s (with_sessions (mark_session_failed (us_now s) i (us_sessions s)) s)"
| publish: "find_key up_id i (us_sessions s) = Some x \<Longrightarrow> mark_upload_session_completed (us_now s) i f (us_sessions s) = Inr t
    \<Longrightarrow> session_place x = Some k \<or> us_owner s k = None \<Longrightarrow> k \<in> uw_objects (us_world s)
    \<Longrightarrow> upload_step s (s\<lparr>us_world := (us_world s)\<lparr>uw_sessions := t, uw_tracked := insert k (uw_tracked (us_world s))\<rparr>\<rparr>)"
| track: "us_owner s k = None \<Longrightarrow> k \<in> uw_objects (us_world s)
    \<Longrightarrow> upload_step s (s\<lparr>us_world := (us_world s)\<lparr>uw_tracked := insert k (uw_tracked (us_world s))\<rparr>\<rparr>)"
| forget: "upload_step s (s\<lparr>us_world := (us_world s)\<lparr>uw_tracked := uw_tracked (us_world s) - {k},
      uw_objects := uw_objects (us_world s) - {k}\<rparr>\<rparr>)"
| cancel: "find_key up_id i (us_sessions s) = Some x \<Longrightarrow> upload_step s (s\<lparr>us_actors := S_Cancel x # us_actors s\<rparr>)"
| stage_error: "find_key up_id i (us_sessions s) = Some x \<Longrightarrow> upload_step s (s\<lparr>us_actors := S_Stage_Error x e # us_actors s\<rparr>)"
| expire: "x \<in> set (find_expired_sessions (us_now s) (us_sessions s)) \<Longrightarrow> upload_step s (s\<lparr>us_actors := S_Expired x # us_actors s\<rparr>)"
| act: "n < length (us_actors s) \<Longrightarrow> cleanup_actor_step (us_now s) r (us_actors s ! n) (us_world s) = (w, a)
    \<Longrightarrow> upload_step s (s\<lparr>us_world := w, us_actors := (us_actors s)[n := a]\<rparr>)"
| sweep: "x \<in> set (us_sessions s) \<Longrightarrow> up_status x = US_Completed
    \<Longrightarrow> upload_step s (s\<lparr>us_world := sweep_completed_session r aborts x (us_world s)\<rparr>)"

text \<open>
  Rules without a counterpart among the functions above: \<open>store\<close> is a client or a relay writing an object,
  \<open>track\<close> any other upload publishing a blob at a place of its own, \<open>forget\<close> the cleanup of a blob that is no
  longer used. \<open>publish\<close> and \<open>track\<close> ask that the object is stored when the row is written, and \<open>fail\<close> that
  the session is not completed.
\<close>

section \<open>The invariant\<close>

definition doomed :: "time \<Rightarrow> upload_session \<Rightarrow> bool" where
  "doomed now x = (up_status x = US_Failed \<or> up_status x \<in> {US_Uploading, US_Presigned} \<and> up_expires_at x < now)"

fun actor_session :: "cleanup_actor \<Rightarrow> upload_session option" where
  "actor_session (S_Cancel x) = Some x"
| "actor_session (S_Stage_Error x e) = Some x"
| "actor_session (S_Expired x) = Some x"
| "actor_session (S_Remote x b) = Some x"
| "actor_session (S_Row i b) = None"
| "actor_session S_Done = None"

text \<open>The session whose object an actor may go on to remove.\<close>

fun threatens :: "cleanup_actor \<Rightarrow> string option" where
  "threatens (S_Expired x) = (if up_status x = US_Assembling then None else Some (up_id x))"
| "threatens (S_Remote x b) = Some (up_id x)"
| "threatens _ = None"

definition known_sessions :: "upload_system \<Rightarrow> upload_session set" where
  "known_sessions s = set (us_sessions s) \<union> \<Union> (set_option ` actor_session ` set (us_actors s))"

definition sessions_owned :: "upload_system \<Rightarrow> bool" where
  "sessions_owned s =
     (unique_key up_id (us_sessions s)
      \<and> (\<forall>x \<in> known_sessions s. up_id x \<in> us_ids s \<and> (\<forall>k \<in> set_option (session_place x). us_owner s k = Some (up_id x))))"

definition rows_are :: "(upload_session \<Rightarrow> bool) \<Rightarrow> string \<Rightarrow> session_table \<Rightarrow> bool" where
  "rows_are P i t = (\<forall>x \<in> set t. up_id x = i \<longrightarrow> P x)"

definition threats_doomed :: "upload_system \<Rightarrow> bool" where
  "threats_doomed s = (\<forall>i \<in> \<Union> (set_option ` threatens ` set (us_actors s)). rows_are (doomed (us_now s)) i (us_sessions s))"

definition tracked_safe :: "upload_system \<Rightarrow> bool" where
  "tracked_safe s = (\<forall>k \<in> uw_tracked (us_world s). k \<in> uw_objects (us_world s)
     \<and> (\<forall>i. us_owner s k = Some i \<longrightarrow> i \<in> us_ids s \<and> rows_are (\<lambda>x. up_status x = US_Completed) i (us_sessions s)
          \<and> (\<forall>a \<in> set (us_actors s). threatens a \<noteq> Some i)))"

definition upload_ok :: "upload_system \<Rightarrow> bool" where
  "upload_ok s = (sessions_owned s \<and> threats_doomed s \<and> tracked_safe s)"

section \<open>Every step keeps the invariant\<close>

text \<open>Row changes: no session changes hands, a completed one stays completed, a doomed one stays doomed.\<close>

definition keeps_session :: "time \<Rightarrow> (upload_session \<Rightarrow> upload_session) \<Rightarrow> upload_session \<Rightarrow> bool" where
  "keeps_session now g x =
     (up_id (g x) = up_id x \<and> session_place (g x) = session_place x
      \<and> (up_status x = US_Completed \<longrightarrow> up_status (g x) = US_Completed) \<and> (doomed now x \<longrightarrow> doomed now (g x)))"

lemma with_sessions_simps [simp]:
  "us_sessions (with_sessions t s) = t" "us_now (with_sessions t s) = us_now s" "us_actors (with_sessions t s) = us_actors s"
  "us_owner (with_sessions t s) = us_owner s" "us_ids (with_sessions t s) = us_ids s"
  "uw_tracked (us_world (with_sessions t s)) = uw_tracked (us_world s)" "uw_objects (us_world (with_sessions t s)) = uw_objects (us_world s)"
  by (simp_all add: with_sessions_def)

lemma rows_are_map:
  "(\<And>x. x \<in> set t \<Longrightarrow> up_id (g x) = up_id x \<and> (P x \<longrightarrow> Q (g x))) \<Longrightarrow> rows_are P i t \<Longrightarrow> rows_are Q i (map g t)"
  by (auto simp: rows_are_def)

lemma rows_are_sub: "set t' \<subseteq> set t \<Longrightarrow> rows_are P i t \<Longrightarrow> rows_are P i t'"
  by (auto simp: rows_are_def)

lemma upload_okD:
  assumes "upload_ok s"
  shows "unique_key up_id (us_sessions s)"
    "x \<in> set (us_sessions s) \<Longrightarrow> up_id x \<in> us_ids s"
    "x \<in> set (us_sessions s) \<Longrightarrow> session_place x = Some k \<Longrightarrow> us_owner s k = Some (up_id x)"
    "a \<in> set (us_actors s) \<Longrightarrow> actor_session a = Some x \<Longrightarrow> up_id x \<in> us_ids s"
    "a \<in> set (us_actors s) \<Longrightarrow> actor_session a = Some x \<Longrightarrow> session_place x = Some k \<Longrightarrow> us_owner s k = Some (up_id x)"
    "a \<in> set (us_actors s) \<Longrightarrow> threatens a = Some i \<Longrightarrow> rows_are (doomed (us_now s)) i (us_sessions s)"
    "k \<in> uw_tracked (us_world s) \<Longrightarrow> k \<in> uw_objects (us_world s)"
    "k \<in> uw_tracked (us_world s) \<Longrightarrow> us_owner s k = Some i \<Longrightarrow> i \<in> us_ids s"
    "k \<in> uw_tracked (us_world s) \<Longrightarrow> us_owner s k = Some i \<Longrightarrow> rows_are (\<lambda>x. up_status x = US_Completed) i (us_sessions s)"
    "k \<in> uw_tracked (us_world s) \<Longrightarrow> us_owner s k = Some i \<Longrightarrow> a \<in> set (us_actors s) \<Longrightarrow> threatens a \<noteq> Some i"
  using assms unfolding upload_ok_def sessions_owned_def threats_doomed_def tracked_safe_def known_sessions_def
  by auto

lemma upload_okI:
  assumes "unique_key up_id (us_sessions s)"
    "\<And>x. x \<in> set (us_sessions s) \<Longrightarrow> up_id x \<in> us_ids s"
    "\<And>x k. x \<in> set (us_sessions s) \<Longrightarrow> session_place x = Some k \<Longrightarrow> us_owner s k = Some (up_id x)"
    "\<And>a x. a \<in> set (us_actors s) \<Longrightarrow> actor_session a = Some x \<Longrightarrow> up_id x \<in> us_ids s"
    "\<And>a x k. a \<in> set (us_actors s) \<Longrightarrow> actor_session a = Some x \<Longrightarrow> session_place x = Some k \<Longrightarrow> us_owner s k = Some (up_id x)"
    "\<And>a i. a \<in> set (us_actors s) \<Longrightarrow> threatens a = Some i \<Longrightarrow> rows_are (doomed (us_now s)) i (us_sessions s)"
    "\<And>k. k \<in> uw_tracked (us_world s) \<Longrightarrow> k \<in> uw_objects (us_world s)"
    "\<And>k i. k \<in> uw_tracked (us_world s) \<Longrightarrow> us_owner s k = Some i \<Longrightarrow> i \<in> us_ids s"
    "\<And>k i. k \<in> uw_tracked (us_world s) \<Longrightarrow> us_owner s k = Some i \<Longrightarrow> rows_are (\<lambda>x. up_status x = US_Completed) i (us_sessions s)"
    "\<And>k i a. k \<in> uw_tracked (us_world s) \<Longrightarrow> us_owner s k = Some i \<Longrightarrow> a \<in> set (us_actors s) \<Longrightarrow> threatens a \<noteq> Some i"
  shows "upload_ok s"
proof -
  have "sessions_owned s" using assms(1-5) by (auto simp: sessions_owned_def known_sessions_def)
  moreover have "threats_doomed s" using assms(6) by (auto simp: threats_doomed_def)
  moreover have "tracked_safe s" using assms(7-10) by (auto simp: tracked_safe_def)
  ultimately show ?thesis by (simp add: upload_ok_def)
qed

lemma rows_step:
  assumes ok: "upload_ok s" and t: "us_sessions s' = map g (us_sessions s)" and g: "\<And>x. x \<in> set (us_sessions s) \<Longrightarrow> keeps_session (us_now s) g x"
    and same: "us_now s' = us_now s" "us_actors s' = us_actors s" "us_owner s' = us_owner s" "us_ids s' = us_ids s"
      "uw_tracked (us_world s') = uw_tracked (us_world s)" "uw_objects (us_world s') = uw_objects (us_world s)"
  shows "upload_ok s'"
proof -
  have "map up_id (us_sessions s') = map up_id (us_sessions s)" using g by (auto simp: t keeps_session_def)
  then have u: "unique_key up_id (us_sessions s')" using upload_okD(1) [OF ok] by (simp only: unique_key_def)
  have r: "rows_are (doomed (us_now s)) i (us_sessions s) \<Longrightarrow> rows_are (doomed (us_now s)) i (us_sessions s')"
    "rows_are (\<lambda>x. up_status x = US_Completed) i (us_sessions s) \<Longrightarrow> rows_are (\<lambda>x. up_status x = US_Completed) i (us_sessions s')" for i
    unfolding t by (rule rows_are_map; use g in \<open>auto simp: keeps_session_def\<close>)+
  show ?thesis
    by (rule upload_okI)
       (use u r upload_okD [OF ok] g in \<open>auto simp: same t keeps_session_def\<close>)
qed

lemma statement_keeps:
  assumes "upload_ok s" "\<And>x. x \<in> set (us_sessions s) \<Longrightarrow> p x \<Longrightarrow> keeps_session (us_now s) f x"
  shows "upload_ok (with_sessions (fst (exec_one p f (us_sessions s))) s)"
  by (rule rows_step [OF assms(1), where g = "\<lambda>x. if p x then f x else x"])
     (use assms(2) in \<open>auto simp: exec_one_simps keeps_session_def\<close>)

lemma statement_rows:
  "increment_session_received_count now i t = Inr t' \<Longrightarrow> t' = fst (increment_received_count_if_uploading now i t)"
  "transition_upload_session_to_assembling now i actual expected t = (t', res)
     \<Longrightarrow> t' = fst (try_transition_status_before_expiry i expected US_Assembling now t)"
  "mark_upload_session_completed now i f t = Inr t' \<Longrightarrow> t' = fst (complete_if_assembling now i f t)"
  by (auto simp: increment_session_received_count_def Let_def case_prod_beta
      transition_upload_session_to_assembling_def mark_upload_session_completed_def bind_result_Inr_iff split: if_splits sum.splits)

lemmas statement_defs = increment_received_count_if_uploading_def advance_provider_relay_received_count_def
  compare_exchange_provider_session_def touch_assembling_def complete_if_assembling_def try_transition_status_def
  try_transition_status_before_expiry_def try_fail_with_expiration_def try_fail_with_expiration_if_lease_stale_def fail_columns_def

lemma statements_keep:
  assumes ok: "upload_ok s"
  shows "upload_ok (with_sessions (fst (increment_received_count_if_uploading (us_now s) i (us_sessions s))) s)"
    "upload_ok (with_sessions (fst (advance_provider_relay_received_count (us_now s) i n (us_sessions s))) s)"
    "upload_ok (with_sessions (fst (compare_exchange_provider_session (us_now s) i previous next_value (us_sessions s))) s)"
    "upload_ok (with_sessions (fst (touch_assembling i (us_now s) (us_sessions s))) s)"
    "expected \<in> {US_Uploading, US_Presigned}
       \<Longrightarrow> upload_ok (with_sessions (fst (try_transition_status_before_expiry i expected US_Assembling (us_now s) (us_sessions s))) s)"
    "upload_ok (with_sessions (fst (try_transition_status (us_now s) i US_Assembling restored (us_sessions s))) s)"
    "expected \<noteq> US_Completed \<Longrightarrow> upload_ok (with_sessions (fst (try_fail_with_expiration (us_now s) i expected e (us_sessions s))) s)"
    "upload_ok (with_sessions (fst (try_fail_with_expiration_if_lease_stale (us_now s) i l e (us_sessions s))) s)"
    "upload_ok (with_sessions (fst (complete_if_assembling (us_now s) i f (us_sessions s))) s)"
  unfolding statement_defs
  by (rule statement_keeps [OF ok]; auto simp: keeps_session_def doomed_def session_place_def)+

lemma actors_keep:
  assumes ok: "upload_ok s" and new: "\<And>a. a \<in> set as \<Longrightarrow> a \<notin> set (us_actors s) \<Longrightarrow>
      (\<forall>x. actor_session a = Some x \<longrightarrow> up_id x \<in> us_ids s \<and> (\<forall>k. session_place x = Some k \<longrightarrow> us_owner s k = Some (up_id x)))
      \<and> (\<forall>i. threatens a = Some i \<longrightarrow> rows_are (doomed (us_now s)) i (us_sessions s) \<and> (\<forall>k \<in> uw_tracked (us_world s). us_owner s k \<noteq> Some i))"
  shows "upload_ok (s\<lparr>us_actors := as\<rparr>)"
proof (rule upload_okI)
  fix a x assume a: "a \<in> set (us_actors (s\<lparr>us_actors := as\<rparr>))" "actor_session a = Some x"
  show "up_id x \<in> us_ids (s\<lparr>us_actors := as\<rparr>)"
    using new [of a] upload_okD(4) [OF ok, of a] a by (cases "a \<in> set (us_actors s)") simp_all
  show "us_owner (s\<lparr>us_actors := as\<rparr>) k = Some (up_id x)" if "session_place x = Some k" for k
    using new [of a] upload_okD(5) [OF ok, of a x k] a that by (cases k; cases "a \<in> set (us_actors s)") simp_all
next
  fix a i assume a: "a \<in> set (us_actors (s\<lparr>us_actors := as\<rparr>))" "threatens a = Some i"
  show "rows_are (doomed (us_now (s\<lparr>us_actors := as\<rparr>))) i (us_sessions (s\<lparr>us_actors := as\<rparr>))"
    using new [of a] upload_okD(6) [OF ok, of a] a by (cases "a \<in> set (us_actors s)") simp_all
next
  fix a i k assume a: "a \<in> set (us_actors (s\<lparr>us_actors := as\<rparr>))"
    and k: "k \<in> uw_tracked (us_world (s\<lparr>us_actors := as\<rparr>))" "us_owner (s\<lparr>us_actors := as\<rparr>) k = Some i"
  show "threatens a \<noteq> Some i"
    using new [of a] upload_okD(10) [OF ok, of k i a] a k by (cases "a \<in> set (us_actors s)") auto
qed (use upload_okD [OF ok] in simp_all)

lemma worlds_keep:
  assumes ok: "upload_ok s" and w: "set (uw_sessions w) \<subseteq> set (us_sessions s)" "unique_key up_id (uw_sessions w)"
      "uw_tracked w \<subseteq> uw_tracked (us_world s)" "\<And>k. k \<in> uw_tracked w \<Longrightarrow> k \<in> uw_objects (us_world s) \<Longrightarrow> k \<in> uw_objects w"
  shows "upload_ok (s\<lparr>us_world := w\<rparr>)"
proof (rule upload_okI)
  fix a i assume "a \<in> set (us_actors (s\<lparr>us_world := w\<rparr>))" "threatens a = Some i"
  then show "rows_are (doomed (us_now (s\<lparr>us_world := w\<rparr>))) i (us_sessions (s\<lparr>us_world := w\<rparr>))"
    using upload_okD(6) [OF ok, of a i] rows_are_sub [OF w(1)] by simp
next
  fix k i assume k: "k \<in> uw_tracked (us_world (s\<lparr>us_world := w\<rparr>))" "us_owner (s\<lparr>us_world := w\<rparr>) k = Some i"
  then show "rows_are (\<lambda>x. up_status x = US_Completed) i (us_sessions (s\<lparr>us_world := w\<rparr>))"
    using upload_okD(9) [OF ok, of k i] rows_are_sub [OF w(1)] w(3) by auto
  show "i \<in> us_ids (s\<lparr>us_world := w\<rparr>)" using upload_okD(8) [OF ok, of k i] k w(3) by auto
  show "threatens a \<noteq> Some i" if "a \<in> set (us_actors (s\<lparr>us_world := w\<rparr>))" for a
    using upload_okD(10) [OF ok, of k i a] k w(3) that by auto
next
  fix k assume "k \<in> uw_tracked (us_world (s\<lparr>us_world := w\<rparr>))"
  then show "k \<in> uw_objects (us_world (s\<lparr>us_world := w\<rparr>))" using w(3,4) upload_okD(7) [OF ok, of k] by (cases k) auto
qed (use upload_okD(1-5) [OF ok] w(1,2) in auto)

text \<open>A handler that has claimed a session: the row is doomed, and nothing at the session's place is published.\<close>

lemma claim_dooms:
  assumes ok: "upload_ok s" and c: "exec_one p (fail_columns now e) (us_sessions s) = (t, True)"
    and p: "\<And>x. p x \<Longrightarrow> up_id x = i \<and> up_status x \<noteq> US_Completed"
  shows "rows_are (doomed now') i t \<and> (\<forall>k \<in> uw_tracked (us_world s). us_owner s k \<noteq> Some i)"
proof -
  have t: "t = map (\<lambda>x. if p x then fail_columns now e x else x) (us_sessions s)" "count_where p (us_sessions s) = 1"
    using c exec_one_simps [of p "fail_columns now e" "us_sessions s"] by simp_all
  obtain x where x: "x \<in> set (us_sessions s)" "p x" using t(2) count_where_0_iff [of p "us_sessions s"] by auto
  have "p y" if "y \<in> set (us_sessions s)" "up_id y = i" for y
    using unique_key_inj [OF upload_okD(1) [OF ok] that(1) x(1)] that p [OF x(2)] x(2) by simp
  moreover have "up_id (fail_columns now e y) = up_id y \<and> doomed now' (fail_columns now e y)" for y
    by (simp add: fail_columns_def doomed_def)
  ultimately have "rows_are (doomed now') i t" by (auto simp: t(1) rows_are_def)
  moreover have "us_owner s k \<noteq> Some i" if "k \<in> uw_tracked (us_world s)" for k
    using upload_okD(9) [OF ok that, of i] p [OF x(2)] x(1) by (auto simp: rows_are_def)
  ultimately show ?thesis by blast
qed

lemma claimed_keeps:
  assumes ok: "upload_ok s" and n: "n < length (us_actors s)" "actor_session (us_actors s ! n) = Some x"
    and p: "\<And>y. p y \<Longrightarrow> up_id y = up_id x \<and> up_status y \<noteq> US_Completed"
    and c: "claimed_session x b (exec_one p (fail_columns now e) (us_sessions s)) = (t, a)"
  shows "upload_ok ((with_sessions t s)\<lparr>us_actors := (us_actors s)[n := a]\<rparr>)"
proof -
  let ?s = "with_sessions t s"
  have t: "t = fst (exec_one p (fail_columns now e) (us_sessions s))" using c by (auto simp: claimed_session_def split: prod.splits)
  have ok1: "upload_ok ?s" unfolding t
    by (rule statement_keeps [OF ok]) (auto simp: keeps_session_def fail_columns_def session_place_def doomed_def dest: p)
  have m: "us_actors s ! n \<in> set (us_actors s)" using n(1) by simp
  show ?thesis
  proof (cases a)
    case (S_Remote y b')
    have e: "exec_one p (fail_columns now e) (us_sessions s) = (t, True)" "y = x"
      using c S_Remote by (auto simp: claimed_session_def split: prod.splits if_splits)
    note D = claim_dooms [OF ok e(1) p, of "us_now s"]
    show ?thesis
      using actors_keep [OF ok1, of "(us_actors s)[n := a]"] set_update_subset_insert [of "us_actors s" n a] D
        upload_okD(4,5) [OF ok m n(2)] S_Remote e(2) by fastforce
  qed (use c actors_keep [OF ok1, of "(us_actors s)[n := a]"] set_update_subset_insert [of "us_actors s" n a]
        in \<open>fastforce simp: claimed_session_def split: prod.splits if_splits\<close>)+
qed

lemma remote_objects:
  "k \<in> objs \<Longrightarrow> session_place x \<noteq> Some k \<Longrightarrow> k \<in> fst (cleanup_remote_upload_state r x allow objs)"
  by (cases k)
     (auto simp: cleanup_remote_upload_state_def cleanup_resolved_remote_upload_state_def delete_temp_object_for_cleanup_def
        object_delete_def session_place_def Let_def split: sum.splits option.splits delete_reply.splits)

lemma unclaimed_keeps:
  "upload_ok s \<Longrightarrow> n < length (us_actors s) \<Longrightarrow> upload_ok (s\<lparr>us_actors := (us_actors s)[n := S_Done]\<rparr>)"
  "upload_ok s \<Longrightarrow> n < length (us_actors s) \<Longrightarrow> upload_ok (s\<lparr>us_actors := (us_actors s)[n := S_Row i b]\<rparr>)"
  using set_update_subset_insert [of "us_actors s" n] by (intro actors_keep; fastforce)+

lemma act_keeps:
  assumes ok: "upload_ok s" and n: "n < length (us_actors s)"
    and c: "cleanup_actor_step (us_now s) r (us_actors s ! n) (us_world s) = (w, a)"
  shows "upload_ok (s\<lparr>us_world := w, us_actors := (us_actors s)[n := a]\<rparr>)"
proof -
  have ws: "s\<lparr>us_world := (us_world s)\<lparr>uw_sessions := t\<rparr>, us_actors := as\<rparr> = (with_sessions t s)\<lparr>us_actors := as\<rparr>" for t as
    by (simp add: with_sessions_def)
  have m: "us_actors s ! n \<in> set (us_actors s)" using n by simp
  note claim = claimed_keeps [OF ok n]
  show ?thesis
  proof (cases "us_actors s ! n")
    case (S_Cancel x)
    then obtain t where t: "cancel_upload_impl (us_now s) x (us_sessions s) = (t, a)" "w = (us_world s)\<lparr>uw_sessions := t\<rparr>"
      using c by (auto simp: Let_def split: prod.splits)
    have "t = us_sessions s \<and> a = S_Done
        \<or> t = fst (try_fail_with_expiration (us_now s) (up_id x) US_Assembling (assembly_cancellation_expiry (us_now s)) (us_sessions s)) \<and> a = S_Done
        \<or> up_status x \<noteq> US_Completed \<and> claimed_session x True (try_fail_with_expiration (us_now s) (up_id x) (up_status x)
             (us_now s + DEFERRED_UPLOAD_SESSION_CLEANUP_GRACE_SECS) (us_sessions s)) = (t, a)"
      using t(1) by (auto simp: cancel_upload_impl_def split: upload_session_status.splits)
    then show ?thesis
      using unclaimed_keeps(1) [OF ok n] unclaimed_keeps(1) [OF statements_keep(7) [OF ok]] n t(2) S_Cancel
        claim [of x "\<lambda>y. up_id y = up_id x \<and> up_status y = up_status x" True]
      by (auto simp: ws try_fail_with_expiration_def) (simp add: with_sessions_def)
  next
    case (S_Stage_Error x e)
    then obtain t where t: "terminate_upload_stage_session (us_now s) x e (us_sessions s) = (t, a)" "w = (us_world s)\<lparr>uw_sessions := t\<rparr>"
      using c by (auto simp: Let_def split: prod.splits)
    have "t = us_sessions s \<and> a = S_Done
        \<or> up_status x \<noteq> US_Completed \<and> claimed_session x False (try_fail_with_expiration (us_now s) (up_id x) (up_status x)
             (us_now s + DEFERRED_UPLOAD_SESSION_CLEANUP_GRACE_SECS) (us_sessions s)) = (t, a)"
      using t(1) by (auto simp: terminate_upload_stage_session_def split: if_splits)
    then show ?thesis
      using unclaimed_keeps(1) [OF ok n] t(2) S_Stage_Error claim [of x "\<lambda>y. up_id y = up_id x \<and> up_status y = up_status x" False]
      by (auto simp: ws try_fail_with_expiration_def) (simp add: with_sessions_def)
  next
    case (S_Expired x)
    then obtain t where t: "cleanup_expired_session (us_now s) x (us_sessions s) = (t, a)" "w = (us_world s)\<lparr>uw_sessions := t\<rparr>"
      using c by (auto simp: Let_def split: prod.splits)
    have "t = us_sessions s \<and> (a = S_Done \<or> up_status x \<noteq> US_Assembling \<and> a = S_Remote x False)
        \<or> claimed_session x False (try_fail_with_expiration_if_lease_stale (us_now s) (up_id x) (us_now s - ASSEMBLY_LEASE_TIMEOUT_SECS)
             (us_now s + DEFERRED_UPLOAD_SESSION_CLEANUP_GRACE_SECS) (us_sessions s)) = (t, a)"
      using t(1) by (auto simp: cleanup_expired_session_def Let_def split: if_splits)
    moreover have "upload_ok (s\<lparr>us_actors := (us_actors s)[n := S_Remote x False]\<rparr>)" if "up_status x \<noteq> US_Assembling"
      using set_update_subset_insert [of "us_actors s" n "S_Remote x False"] upload_okD(4-6) [OF ok m] upload_okD(10) [OF ok _ _ m]
        S_Expired that by (intro actors_keep [OF ok]) fastforce
    ultimately show ?thesis
      using unclaimed_keeps(1) [OF ok n] t(2) S_Expired
        claim [of x "\<lambda>y. up_id y = up_id x \<and> up_status y = US_Assembling \<and> up_updated_at y \<le> us_now s - ASSEMBLY_LEASE_TIMEOUT_SECS" False]
      by (auto simp: ws try_fail_with_expiration_if_lease_stale_def) (simp_all add: with_sessions_def)
  next
    case (S_Remote x b)
    let ?w = "(us_world s)\<lparr>uw_objects := fst (cleanup_remote_upload_state r x False (uw_objects (us_world s)))\<rparr>"
    have w: "w = ?w" "a = S_Done \<or> a = S_Row (up_id x) b" using c S_Remote by (auto simp: Let_def split: prod.splits if_splits)
    have "session_place x \<noteq> Some k" if "k \<in> uw_tracked (us_world s)" for k
      using upload_okD(5) [OF ok m] upload_okD(10) [OF ok that _ m] S_Remote by (cases k) auto
    then have "upload_ok (s\<lparr>us_world := ?w\<rparr>)"
      using upload_okD(1) [OF ok] by (intro worlds_keep [OF ok]) (auto intro: remote_objects)
    then show ?thesis using unclaimed_keeps [of "s\<lparr>us_world := ?w\<rparr>" n] n w by auto
  next
    case (S_Row i b)
    have w: "w = (if b then delete_cancellable_rows i (us_world s) else delete_session_rows i (us_world s))" "a = S_Done"
      using c S_Row by auto
    have "upload_ok (s\<lparr>us_world := w\<rparr>)"
      using upload_okD(1) [OF ok] unique_key_delete_where
      by (intro worlds_keep [OF ok])
         (auto simp: w(1) delete_cancellable_rows_def delete_session_rows_def session_delete_def delete_if_cancellable_def
            delete_where_def Let_def unique_key_def distinct_map_filter split: if_splits)
    then show ?thesis using unclaimed_keeps(1) [of "s\<lparr>us_world := w\<rparr>" n] n w(2) by simp
  next
    case S_Done
    then have w: "w = us_world s" "a = S_Done" using c by simp_all
    have "upload_ok (s\<lparr>us_world := w\<rparr>)" using upload_okD(1) [OF ok] by (intro worlds_keep [OF ok]) (simp_all add: w)
    then show ?thesis using unclaimed_keeps(1) [of "s\<lparr>us_world := w\<rparr>" n] n w(2) by simp
  qed
qed

lemma sweep_keeps: "upload_ok s \<Longrightarrow> upload_ok (s\<lparr>us_world := sweep_completed_session r aborts x (us_world s)\<rparr>)"
proof (rule worlds_keep)
  assume ok: "upload_ok s"
  let ?w = "sweep_completed_session r aborts x (us_world s)"
  have t: "uw_sessions ?w = us_sessions s \<or> uw_sessions ?w = session_delete (up_id x) (us_sessions s)" "uw_tracked ?w = uw_tracked (us_world s)"
    by (auto simp: sweep_completed_session_def delete_session_rows_def Let_def case_prod_beta)
  then show "set (uw_sessions ?w) \<subseteq> set (us_sessions s)" "uw_tracked ?w \<subseteq> uw_tracked (us_world s)"
    by (auto simp: session_delete_def delete_where_def)
  show "unique_key up_id (uw_sessions ?w)"
    using t(1) upload_okD(1) [OF ok] unique_key_delete_where [of up_id "us_sessions s"] by (auto simp: session_delete_def)
  show "k \<in> uw_objects ?w" if "k \<in> uw_tracked ?w" "k \<in> uw_objects (us_world s)" for k
  proof (cases "session_stale_temp_key x (snd ` uw_tracked (us_world s))")
    case (Some key)
    then have "snd k \<noteq> key" "up_object_temp_key x = Some key"
      using that(1) t(2) by (auto simp: session_stale_temp_key_def split: option.splits if_splits)
    then show ?thesis using that(2)
      by (auto simp: sweep_completed_session_def cleanup_completed_session_stale_temp_object_def delete_completed_stale_temp_object_def
          object_delete_def delete_session_rows_def Let_def case_prod_beta Some split: delete_reply.splits)
  qed (use that(2) in \<open>simp add: sweep_completed_session_def delete_session_rows_def\<close>)
qed

lemma doomed_later: "doomed now x \<Longrightarrow> now \<le> n \<Longrightarrow> doomed n x"
  by (auto simp: doomed_def)

lemma create_keeps:
  assumes ok: "upload_ok s" and x: "up_id x \<notin> us_ids s" "\<forall>k \<in> set_option (session_place x). us_owner s k = None \<and> k \<notin> uw_tracked (us_world s)"
    and t: "session_try_create x (us_sessions s) = (t, True)"
  shows "upload_ok ((with_sessions t s)\<lparr>us_ids := insert (up_id x) (us_ids s), us_owner := own_place x (us_owner s)\<rparr>)" (is "upload_ok ?s")
proof -
  have t: "t = us_sessions s @ [x]" using t by (auto simp: session_try_create_def split: if_splits)
  have o1: "own_place x (us_owner s) k = Some (up_id x)" if "session_place x = Some k" for k using that by (simp add: own_place_def)
  have o2: "own_place x (us_owner s) k = us_owner s k" if "session_place x \<noteq> Some k" for k
    using that by (auto simp: own_place_def split: option.splits)
  have o3: "own_place x (us_owner s) k = Some i" if "us_owner s k = Some i" for k i
    using that x(2) o2 by (cases "session_place x = Some k") auto
  have fresh: "up_id x \<noteq> i" if "i \<in> us_ids s" for i using x(1) that by auto
  have tracked: "own_place x (us_owner s) k = us_owner s k" if "k \<in> uw_tracked (us_world s)" for k
    using o2 [of k] x(2) that by (cases "session_place x = Some k") auto
  have rows: "rows_are P i (us_sessions ?s) = rows_are P i (us_sessions s)" if "i \<in> us_ids s" for P i
    using fresh [OF that] by (auto simp: rows_are_def t)
  have th: "i \<in> us_ids s" if "a \<in> set (us_actors s)" "threatens a = Some i" for a i
    using upload_okD(4) [OF ok that(1)] that(2) by (cases a) (auto split: if_splits)
  have notin: "up_id x \<notin> up_id ` set (us_sessions s)" using upload_okD(2) [OF ok] x(1) by auto
  then have u: "unique_key up_id (us_sessions ?s)" using upload_okD(1) [OF ok] by (simp add: t unique_key_def)
  show ?thesis
  proof (rule upload_okI)
    fix a i assume "a \<in> set (us_actors ?s)" "threatens a = Some i"
    then show "rows_are (doomed (us_now ?s)) i (us_sessions ?s)" using upload_okD(6) [OF ok, of a i] th [of a i] rows by simp
  next
    fix k i assume k: "k \<in> uw_tracked (us_world ?s)" "us_owner ?s k = Some i"
    then have k': "k \<in> uw_tracked (us_world s)" "us_owner s k = Some i" using tracked [of k] by simp_all
    show "i \<in> us_ids ?s" using upload_okD(8) [OF ok k'] by simp
    show "rows_are (\<lambda>x. up_status x = US_Completed) i (us_sessions ?s)" using upload_okD(8,9) [OF ok k'] rows by simp
    show "threatens a \<noteq> Some i" if "a \<in> set (us_actors ?s)" for a using upload_okD(10) [OF ok k'] that by simp
  qed (use u upload_okD(2-5,7) [OF ok] o1 o3 in \<open>auto simp: t\<close>)
qed

lemma publish_keeps:
  assumes ok: "upload_ok s" and x: "find_key up_id i (us_sessions s) = Some x"
    and c: "mark_upload_session_completed (us_now s) i f (us_sessions s) = Inr t"
    and k: "session_place x = Some k \<or> us_owner s k = None" "k \<in> uw_objects (us_world s)"
  shows "upload_ok (s\<lparr>us_world := (us_world s)\<lparr>uw_sessions := t, uw_tracked := insert k (uw_tracked (us_world s))\<rparr>\<rparr>)" (is "upload_ok ?s")
proof -
  have xi: "x \<in> set (us_sessions s)" "up_id x = i" using find_key_SomeD [OF x] by simp_all
  have t: "t = map (\<lambda>y. if up_id y = i \<and> up_status y = US_Assembling then y\<lparr>up_status := US_Completed, up_file_id := Some f, up_updated_at := us_now s\<rparr> else y) (us_sessions s)"
    "count_where (\<lambda>y. up_id y = i \<and> up_status y = US_Assembling) (us_sessions s) = 1"
    using c by (auto simp: mark_upload_session_completed_def complete_if_assembling_def exec_one_simps Let_def bind_result_Inr_iff case_prod_beta split: if_splits)
  obtain y where y: "y \<in> set (us_sessions s)" "up_id y = i" "up_status y = US_Assembling"
    using t(2) count_where_0_iff [of "\<lambda>y. up_id y = i \<and> up_status y = US_Assembling" "us_sessions s"] by auto
  have st: "up_status z = US_Assembling" if "z \<in> set (us_sessions s)" "up_id z = i" for z
    using unique_key_inj [OF upload_okD(1) [OF ok] that(1) y(1)] that(2) y(2,3) by simp
  have ok1: "upload_ok (with_sessions t s)" using statements_keep(9) [OF ok] statement_rows(3) [OF c] by simp
  have own: "j = i" if "us_owner s k = Some j" for j
    using k(1) upload_okD(3) [OF ok xi(1), of k] xi(2) that by (elim disjE) simp_all
  have fin: "rows_are (\<lambda>x. up_status x = US_Completed) i t"
    unfolding t(1) rows_are_def set_map ball_simps using st by simp
  have calm: "threatens a \<noteq> Some i" if "a \<in> set (us_actors s)" for a
    using upload_okD(6) [OF ok that, of i] st [OF xi] xi by (fastforce simp: rows_are_def doomed_def)
  have ids: "i \<in> us_ids s" using upload_okD(2) [OF ok xi(1)] xi(2) by simp
  note D = upload_okD [OF ok1, simplified]
  show ?thesis
  proof (rule upload_okI)
    fix k' j assume k': "k' \<in> uw_tracked (us_world ?s)" "us_owner ?s k' = Some j"
    have j: "k' = k \<and> j = i \<or> k' \<in> uw_tracked (us_world s) \<and> us_owner s k' = Some j" using k' own by auto
    show "j \<in> us_ids ?s" using j ids D(8) [of k' j] by auto
    show "rows_are (\<lambda>x. up_status x = US_Completed) j (us_sessions ?s)" using j fin D(9) [of k' j] by auto
    show "threatens a \<noteq> Some j" if "a \<in> set (us_actors ?s)" for a using j calm [of a] D(10) [of k' j a] that by auto
  next
    fix k' assume "k' \<in> uw_tracked (us_world ?s)"
    then show "k' \<in> uw_objects (us_world ?s)" using D(7) [of k'] k(2) by auto
  qed (use D(1-6) in simp_all)
qed

lemma mark_failed_keeps:
  assumes ok: "upload_ok s" and x: "find_key up_id i (us_sessions s) = Some x" "up_status x \<noteq> US_Completed"
  shows "upload_ok (with_sessions (mark_session_failed (us_now s) i (us_sessions s)) s)"
proof (rule rows_step [OF ok])
  show "us_sessions (with_sessions (mark_session_failed (us_now s) i (us_sessions s)) s)
      = map (\<lambda>y. if up_id y = i then y\<lparr>up_status := US_Failed, up_updated_at := us_now s\<rparr> else y) (us_sessions s)"
    using find_key_SomeD [OF x(1)] x(1) by (simp add: mark_session_failed_def session_find_by_id_def update_where_def)
  have "y = x" if "y \<in> set (us_sessions s)" "up_id y = i" for y
    using unique_key_inj [OF upload_okD(1) [OF ok] that(1)] find_key_SomeD [OF x(1)] that(2) by simp
  then show "keeps_session (us_now s) (\<lambda>y. if up_id y = i then y\<lparr>up_status := US_Failed, up_updated_at := us_now s\<rparr> else y) y"
    if "y \<in> set (us_sessions s)" for y
    using x(2) that by (auto simp: keeps_session_def session_place_def doomed_def)
qed simp_all

lemma upload_step_keeps: "upload_step s s' \<Longrightarrow> upload_ok s \<Longrightarrow> upload_ok s'"
proof (induction rule: upload_step.induct)
  case (tick s n)
  have "rows_are (doomed (us_now s)) i (us_sessions s) \<Longrightarrow> rows_are (doomed n) i (us_sessions s)" for i
    using doomed_later [OF _ tick.hyps] by (auto simp: rows_are_def)
  then show ?case using upload_okD [OF tick.prems] by (intro upload_okI) auto
next
  case (expire x s)
  then have x: "x \<in> set (us_sessions s)" "up_status x \<noteq> US_Completed" "up_status x \<noteq> US_Assembling \<Longrightarrow> doomed (us_now s) x"
    by (auto simp: find_expired_sessions_def select_where_def doomed_def)
  have "y = x" if "y \<in> set (us_sessions s)" "up_id y = up_id x" for y
    using unique_key_inj [OF upload_okD(1) [OF expire.prems] that(1) x(1) that(2)] .
  then have "rows_are (doomed (us_now s)) (up_id x) (us_sessions s)" if "up_status x \<noteq> US_Assembling"
    using x(3) that by (auto simp: rows_are_def)
  moreover have "us_owner s k \<noteq> Some (up_id x)" if "k \<in> uw_tracked (us_world s)" for k
    using upload_okD(9) [OF expire.prems that] x(1,2) by (auto simp: rows_are_def)
  ultimately show ?case using upload_okD(2,3) [OF expire.prems x(1)] by (intro actors_keep [OF expire.prems]) auto
next
  case (cancel i s x)
  then show ?case using upload_okD(2,3) [OF cancel.prems, of x] find_key_SomeD [of up_id i] by (intro actors_keep) auto
next
  case (stage_error i s x e)
  then show ?case using upload_okD(2,3) [OF stage_error.prems, of x] find_key_SomeD [of up_id i] by (intro actors_keep) auto
next
  case (store s k)
  then show ?case using upload_okD(1) [OF store.prems] by (intro worlds_keep) auto
next
  case (forget s k)
  then show ?case using upload_okD(1) [OF forget.prems] by (intro worlds_keep) auto
next
  case (track s k)
  then show ?case using upload_okD [OF track.prems] by (intro upload_okI) auto
next
  case (restore restore_status t s i)
  then show ?case using statements_keep(6) by (simp add: restore_session_status_after_retryable_completion_error_def)
next
  case (relay s i n t ok)
  then show ?case using statements_keep(2) [of s i n] by simp
next
  case (exchange s i previous next_value t ok)
  then show ?case using statements_keep(3) [of s i previous next_value] by simp
next
  case (lease i s t ok)
  then show ?case using statements_keep(4) [of s i] by simp
next
  case (receive s i t)
  then show ?case using statements_keep(1) [of s i] statement_rows(1) by metis
next
  case (assemble expected s i actual t)
  then show ?case using statements_keep(5) [of s expected i] statement_rows(2) by metis
qed (auto intro: create_keeps publish_keeps mark_failed_keeps act_keeps sweep_keeps)

interpretation uploads: step_system upload_step upload_ok
  by unfold_locales (rule upload_step_keeps)

section \<open>Published objects stay\<close>

definition empty_upload_system :: upload_system where
  "empty_upload_system =
     \<lparr>us_world = \<lparr>uw_sessions = [], uw_parts = [], uw_objects = {}, uw_tracked = {}\<rparr>, us_now = 0, us_actors = [],
      us_owner = (\<lambda>_. None), us_ids = {}\<rparr>"

lemma empty_upload_ok: "upload_ok empty_upload_system"
  by (rule upload_okI) (simp_all add: empty_upload_system_def unique_key_def)


section \<open>A completed session marked as failed\<close>

definition ex_session :: upload_session where
  "ex_session =
     \<lparr>up_id = ''u1'', up_user_id = 1, up_team_id = None, up_frontend_client_id = None, up_filename = ''a.bin'',
      up_mime_type = ''application/octet-stream'', up_total_size = 10, up_chunk_size = 5, up_total_chunks = 2,
      up_received_count = 2, up_folder_id = None, up_policy_id = 3, up_placement_profile_id = 1,
      up_placement_rule_id = None, up_placement_revision = 1, up_placement_execution_preference = ''automatic'',
      up_status = US_Uploading, up_session_kind = UK_ProviderRelayMultipart, up_object_temp_key = Some ''files/u1'',
      up_object_multipart_id = Some ''m1'', up_provider_session_ciphertext = None, up_file_id = None,
      up_created_at = 0, up_expires_at = 100, up_updated_at = 0\<rparr>"

definition ex_replies :: remote_replies where
  "ex_replies = \<lparr>rr_policy_known = True, rr_driver_error = None, rr_secret_ok = True, rr_provider_resumable = False,
     rr_provider_abort = None, rr_multipart = True, rr_multipart_abort = Some SK_NotFound, rr_delete = Deleted,
     rr_delete_error = SK_Unknown, rr_exists_ok = True\<rparr>"

lemmas session_example_defs = ex_session_def ex_replies_def session_place_def

lemma ex_published: "upload_step\<^sup>*\<^sup>* empty_upload_system
    \<lparr>us_world = \<lparr>uw_sessions = [ex_session\<lparr>up_status := US_Completed, up_file_id := Some 9\<rparr>], uw_parts = [],
        uw_objects = {(3, ''files/u1'')}, uw_tracked = {(3, ''files/u1'')}\<rparr>, us_now = 0, us_actors = [],
      us_owner = [(3, ''files/u1'') \<mapsto> ''u1''], us_ids = {''u1''}\<rparr>" (is "upload_step\<^sup>*\<^sup>* _ ?s4")
proof -
  let ?s1 = "(with_sessions [ex_session] empty_upload_system)\<lparr>us_ids := insert (up_id ex_session) (us_ids empty_upload_system),
      us_owner := own_place ex_session (us_owner empty_upload_system)\<rparr>"
  let ?s2 = "?s1\<lparr>us_world := (us_world ?s1)\<lparr>uw_objects := insert (3, ''files/u1'') (uw_objects (us_world ?s1))\<rparr>\<rparr>"
  let ?s3 = "with_sessions [ex_session\<lparr>up_status := US_Assembling\<rparr>] ?s2"
  have "upload_step empty_upload_system ?s1"
    by (rule upload_step.create) (simp_all add: empty_upload_system_def session_try_create_def session_example_defs find_key_def)
  moreover have "upload_step ?s1 ?s2" by (rule upload_step.store)
  moreover have "upload_step ?s2 ?s3"
    by (rule upload_step.assemble [where expected = US_Uploading and i = "''u1''" and actual = US_Uploading])
       (simp_all add: transition_upload_session_to_assembling_def try_transition_status_before_expiry_def exec_one_def
          with_sessions_def empty_upload_system_def session_example_defs)
  moreover have "upload_step ?s3 ?s4"
  proof -
    have "?s4 = ?s3\<lparr>us_world := (us_world ?s3)\<lparr>uw_sessions := [ex_session\<lparr>up_status := US_Completed, up_file_id := Some 9\<rparr>],
        uw_tracked := insert (3, ''files/u1'') (uw_tracked (us_world ?s3))\<rparr>\<rparr>"
      by (simp add: with_sessions_def empty_upload_system_def own_place_def session_example_defs)
    then show ?thesis
      using upload_step.publish [of "''u1''" ?s3 "ex_session\<lparr>up_status := US_Assembling\<rparr>" 9
          "[ex_session\<lparr>up_status := US_Completed, up_file_id := Some 9\<rparr>]" "(3, ''files/u1'')"]
      by (simp add: mark_upload_session_completed_def complete_if_assembling_def exec_one_def with_sessions_def
          empty_upload_system_def session_example_defs find_key_def)
  qed
  ultimately show ?thesis by (meson converse_rtranclp_into_rtranclp rtranclp.rtrancl_refl)
qed


text \<open>
  The condition on \<open>fail\<close> is one the code does not check: \<open>handle_completion_error\<close> marks the session as failed
  whatever its row says. A commit whose outcome the database could not report has completed the session and
  published the file; the completion then marks the session as failed, and once it has expired the cleanup
  deletes the object of the published file.
\<close>

definition uncertain_completion :: "upload_world \<Rightarrow> upload_world \<times> int aster_result" where
  "uncertain_completion w =
     (w\<lparr>uw_sessions := fst (complete_if_assembling 5 ''u1'' 9 (uw_sessions w)), uw_tracked := insert (3, ''files/u1'') (uw_tracked w)\<rparr>,
      Inl (DatabaseOperation (payload_new ''connection lost during commit'')))"

lemma uncertain_commit_loses_published_object:
  "let w0 = \<lparr>uw_sessions = [ex_session], uw_parts = [], uw_objects = {(3, ''files/u1'')}, uw_tracked = {}\<rparr>;
       w1 = fst (run_upload_completion_stage 5 6 ex_session US_Uploading uncertain_completion w0);
       x = hd (find_expired_sessions 200 (uw_sessions w1));
       (w2, a2) = cleanup_actor_step 200 ex_replies (S_Expired x) w1;
       (w3, a3) = cleanup_actor_step 200 ex_replies a2 w2
   in up_file_id x = Some 9 \<and> (3, ''files/u1'') \<in> uw_tracked w1 \<inter> uw_objects w1
      \<and> (3, ''files/u1'') \<in> uw_tracked w3 \<and> (3, ''files/u1'') \<notin> uw_objects w3"
  by (simp add: run_upload_completion_stage_def transition_upload_session_to_assembling_def try_transition_status_before_expiry_def
      exec_one_def uncertain_completion_def complete_if_assembling_def handle_completion_error_def upload_completion_error_is_retryable_def
      classify_upload_storage_error_def mark_session_failed_def session_find_by_id_def find_key_def find_expired_sessions_def
      select_where_def cleanup_expired_session_def ASSEMBLY_LEASE_TIMEOUT_SECS_def cleanup_remote_upload_state_def
      resolve_upload_session_kind_def validate_persisted_kind_def expects_multipart_id_def expects_temp_key_def
      expects_provider_session_def cleanup_resolved_remote_upload_state_def blocked_def delete_temp_object_for_cleanup_def
      object_delete_def session_example_defs Let_def)

end
