(* ===== verification/Upload_Receipts.thy ===== *)
theory Upload_Receipts
  imports Upload_System "HOL-Library.Multiset"
begin

text \<open>
  Receipts of staged chunks. Each chunk that has been written to the staging file leaves one receipt, and the
  session counts them; retries and concurrent uploads of one chunk leave one receipt and count once. The
  completion checks the count first and the receipts afterwards: the lemmas of this theory show that the
  second check cannot fail when the first has passed.
\<close>

definition staged :: "upload_session \<Rightarrow> bool" where
  "staged x = (up_session_kind x \<in> {UK_OffsetStaging, UK_StreamStaging})"

text \<open>The columns that are fixed when a session is created.\<close>

definition same_upload :: "upload_session \<Rightarrow> upload_session \<Rightarrow> bool" where
  "same_upload x y = (up_id x = up_id y \<and> up_total_chunks x = up_total_chunks y \<and> up_chunk_size x = up_chunk_size y
     \<and> up_total_size x = up_total_size y \<and> up_session_kind x = up_session_kind y)"

text \<open>
  \<open>chunk\<close> is a request for a chunk, with the session as it was read when the request came in. \<open>change\<close> stands for the
  statements that change other columns of a session: those of assembly, cancellation and cleanup.
\<close>

inductive receipt_step :: "session_table \<times> part_table \<Rightarrow> session_table \<times> part_table \<Rightarrow> bool" where
  create: "staged x \<Longrightarrow> up_received_count x = 0 \<Longrightarrow> session_try_create x sessions = (sessions', True)
    \<Longrightarrow> receipt_step (sessions, parts) (sessions', parts)"
| chunk: "find_key up_id (up_id x) sessions = Some y \<Longrightarrow> same_upload x y
    \<Longrightarrow> upload_staged_chunk now new_id write_error x c data_len (sessions, parts) = (db, res)
    \<Longrightarrow> receipt_step (sessions, parts) db"
| change: "(\<And>x. same_upload (g x) x \<and> up_received_count (g x) = up_received_count x)
    \<Longrightarrow> receipt_step (sessions, parts) (map g sessions, parts)"
| delete: "receipt_step (sessions, parts) (session_delete i sessions, fst (delete_by_upload i parts))"

definition parts_of :: "string \<Rightarrow> part_table \<Rightarrow> part_table" where
  "parts_of i parts = filter (\<lambda>p. ps_upload_id p = i) parts"

definition receipt_ok :: "upload_session \<Rightarrow> upload_session_part \<Rightarrow> bool" where
  "receipt_ok x p = (1 \<le> ps_part_number p \<and> ps_part_number p \<le> up_total_chunks x \<and> ps_etag p = CHUNK_RECEIPT_ETAG
     \<and> expected_chunk_size_for_upload x (ps_part_number p - 1) = Inr (ps_size p))"

definition session_receipts_ok :: "part_table \<Rightarrow> upload_session \<Rightarrow> bool" where
  "session_receipts_ok parts x = (staged x \<and> up_received_count x = int (length (parts_of (up_id x) parts))
     \<and> (\<forall>p \<in> set (parts_of (up_id x) parts). receipt_ok x p))"

definition receipts_ok :: "session_table \<times> part_table \<Rightarrow> bool" where
  "receipts_ok = (\<lambda>(sessions, parts). unique_key up_id sessions \<and> unique_key part_key parts
     \<and> ps_upload_id ` set parts \<subseteq> up_id ` set sessions \<and> (\<forall>x \<in> set sessions. session_receipts_ok parts x))"

lemma receipts_okD:
  assumes "receipts_ok (sessions, parts)"
  shows "unique_key up_id sessions" "unique_key part_key parts" "p \<in> set parts \<Longrightarrow> ps_upload_id p \<in> up_id ` set sessions"
    "x \<in> set sessions \<Longrightarrow> session_receipts_ok parts x"
  using assms by (auto simp: receipts_ok_def)

lemma receipts_okI:
  "unique_key up_id sessions \<Longrightarrow> unique_key part_key parts \<Longrightarrow> (\<And>p. p \<in> set parts \<Longrightarrow> ps_upload_id p \<in> up_id ` set sessions)
   \<Longrightarrow> (\<And>x. x \<in> set sessions \<Longrightarrow> session_receipts_ok parts x) \<Longrightarrow> receipts_ok (sessions, parts)"
  by (auto simp: receipts_ok_def)

lemma receipt_ok_same: "same_upload x y \<Longrightarrow> receipt_ok x p = receipt_ok y p"
proof -
  assume s: "same_upload x y"
  have "expected_chunk_size_for_upload x c = Inr v \<longleftrightarrow> expected_chunk_size_for_upload y c = Inr v" for c v
    using s by (simp add: expected_chunk_size_for_upload_def same_upload_def Let_def)
  then show ?thesis using s by (simp add: receipt_ok_def same_upload_def)
qed

lemma change_keeps:
  assumes ok: "receipts_ok (sessions, parts)" and g: "\<And>x. same_upload (g x) x \<and> up_received_count (g x) = up_received_count x"
  shows "receipts_ok (map g sessions, parts)"
proof -
  have "map up_id (map g sessions) = map up_id sessions" using g by (simp add: same_upload_def)
  then have "unique_key up_id (map g sessions)" "up_id ` set (map g sessions) = up_id ` set sessions"
    using receipts_okD(1) [OF ok] by (simp_all only: unique_key_def set_map [symmetric])
  moreover have "session_receipts_ok parts (g x)" if "x \<in> set sessions" for x
    using receipts_okD(4) [OF ok that] g [of x] receipt_ok_same [of "g x" x] by (auto simp: session_receipts_ok_def same_upload_def staged_def)
  ultimately show ?thesis using receipts_okD(2,3) [OF ok] by (auto simp: receipts_ok_def)
qed

lemma delete_keeps:
  assumes ok: "receipts_ok (sessions, parts)"
  shows "receipts_ok (session_delete i sessions, fst (delete_by_upload i parts))"
proof -
  let ?parts = "fst (delete_by_upload i parts)"
  have "parts_of j ?parts = parts_of j parts" if "j \<noteq> i" for j
    using that by (auto simp: parts_of_def delete_by_upload_def delete_where_def intro: filter_cong)
  then have "session_receipts_ok ?parts x" if "x \<in> set (session_delete i sessions)" for x
    using that receipts_okD(4) [OF ok] by (simp add: session_receipts_ok_def session_delete_def delete_where_def)
  moreover have "ps_upload_id p \<in> up_id ` set (session_delete i sessions)" if "p \<in> set ?parts" for p
    using that receipts_okD(3) [OF ok, of p] by (fastforce simp: session_delete_def delete_by_upload_def delete_where_def)
  moreover have "unique_key up_id (session_delete i sessions)" "unique_key part_key ?parts"
    using receipts_okD(1,2) [OF ok] unique_key_delete_where unfolding session_delete_def delete_by_upload_def by blast+
  ultimately show ?thesis by (auto simp: receipts_ok_def)
qed

lemma create_keeps_receipts:
  assumes ok: "receipts_ok (sessions, parts)" and x: "staged x" "up_received_count x = 0" "session_try_create x sessions = (sessions', True)"
  shows "receipts_ok (sessions', parts)"
proof -
  have s: "sessions' = sessions @ [x]" "up_id x \<notin> up_id ` set sessions"
    using x(3) find_key_None_iff [of up_id "up_id x" sessions] by (auto simp: session_try_create_def split: if_splits)
  have "ps_upload_id p \<noteq> up_id x" if "p \<in> set parts" for p using receipts_okD(3) [OF ok that] s(2) by metis
  then have "parts_of (up_id x) parts = []" by (simp add: parts_of_def filter_empty_conv)
  then show ?thesis using receipts_okD [OF ok] s x(1,2) by (auto simp: receipts_ok_def session_receipts_ok_def unique_key_def)
qed

lemma staged_chunk_effect:
  assumes "upload_staged_chunk now new_id write_error x c data_len (sessions, parts) = (db, res)"
  shows "db = (sessions, parts) \<or> (\<exists>expected. 0 \<le> c \<and> c < up_total_chunks x \<and> expected_chunk_size_for_upload x c = Inr expected
     \<and> find_key part_key (up_id x, c + 1) parts = None \<and> snd (increment_received_count_if_uploading now (up_id x) sessions)
     \<and> db = (fst (increment_received_count_if_uploading now (up_id x) sessions),
             parts @ [\<lparr>ps_id = new_id, ps_upload_id = up_id x, ps_part_number = c + 1, ps_etag = CHUNK_RECEIPT_ETAG, ps_size = expected,
               ps_created_at = now, ps_updated_at = now\<rparr>]))"
proof (cases "check_chunk_request now x c data_len")
  case (Inr ek)
  obtain expected k where ek: "ek = (expected, k)" by (cases ek)
  have c: "0 \<le> c" "c < up_total_chunks x" "expected_chunk_size_for_upload x c = Inr expected"
    using Inr ek by (auto simp: check_chunk_request_def bind_result_Inr_iff split: if_splits)
  show ?thesis
  proof (cases "find_key part_key (up_id x, c + 1) parts")
    case None
    let ?inc = "increment_received_count_if_uploading now (up_id x) sessions"
    have "db = (sessions, parts) \<or> snd ?inc
        \<and> db = (fst ?inc, fst (insert_part now new_id (up_id x) (c + 1) CHUNK_RECEIPT_ETAG expected parts))"
      using assms Inr ek None
      by (auto simp: upload_staged_chunk_def has_staged_chunk_receipt_def find_by_upload_and_part_def record_staged_chunk_receipt_def
          insert_part_if_missing_def insert_part_def increment_session_received_count_def Let_def
          split: if_splits option.splits sum.splits prod.splits)
    then show ?thesis using c None by (auto simp: insert_part_def)
  next
    case (Some p)
    then show ?thesis using assms Inr ek
      by (auto simp: upload_staged_chunk_def has_staged_chunk_receipt_def find_by_upload_and_part_def split: if_splits)
  qed
qed (use assms in \<open>simp add: upload_staged_chunk_def\<close>)

lemma receipt_added:
  assumes ok: "receipts_ok (sessions, parts)" and y: "find_key up_id i sessions = Some y" "snd (increment_received_count_if_uploading now i sessions)"
    and p: "ps_upload_id p = i" "part_key p \<notin> part_key ` set parts" "receipt_ok y p"
  shows "receipts_ok (fst (increment_received_count_if_uploading now i sessions), parts @ [p])"
proof -
  let ?inc = "\<lambda>z. if up_id z = i \<and> up_status z = US_Uploading then z\<lparr>up_received_count := up_received_count z + 1, up_updated_at := now\<rparr> else z"
  define g where "g z = (if up_id z = i then z\<lparr>up_received_count := up_received_count z + 1, up_updated_at := now\<rparr> else z)" for z :: upload_session
  have yi: "y \<in> set sessions" "up_id y = i" using find_key_SomeD [OF y(1)] by simp_all
  have only: "z = y" if "z \<in> set sessions" "up_id z = i" for z
    using unique_key_inj [OF receipts_okD(1) [OF ok] that(1) yi(1)] that(2) yi(2) by simp
  have "\<exists>z \<in> set sessions. up_id z = i \<and> up_status z = US_Uploading"
    using y(2) count_where_0_iff [of "\<lambda>z. up_id z = i \<and> up_status z = US_Uploading" sessions]
    by (force simp: increment_received_count_if_uploading_def exec_one_simps)
  then have "up_status y = US_Uploading" using only by blast
  then have s: "fst (increment_received_count_if_uploading now i sessions) = map g sessions"
    using only by (auto simp: increment_received_count_if_uploading_def exec_one_simps g_def)
  have keys: "map up_id (map g sessions) = map up_id sessions" by (simp add: g_def)
  then have "unique_key up_id (map g sessions)" "up_id ` set (map g sessions) = up_id ` set sessions"
    using receipts_okD(1) [OF ok] by (simp_all only: unique_key_def set_map [symmetric])
  moreover have "session_receipts_ok (parts @ [p]) (g z)" if z: "z \<in> set sessions" for z
  proof (cases "up_id z = i")
    case True
    have "receipt_ok (g y) q = receipt_ok y q" for q by (rule receipt_ok_same) (simp add: same_upload_def g_def)
    then show ?thesis using receipts_okD(4) [OF ok yi(1)] only [OF z True] p(1,3) yi(2)
      by (auto simp: session_receipts_ok_def parts_of_def staged_def g_def)
  next
    case False
    then show ?thesis using receipts_okD(4) [OF ok z] p(1) by (auto simp: session_receipts_ok_def parts_of_def g_def)
  qed
  moreover have "unique_key part_key (parts @ [p])" using receipts_okD(2) [OF ok] p(2) by (simp add: unique_key_def)
  moreover have "ps_upload_id q \<in> up_id ` set sessions" if "q \<in> set (parts @ [p])" for q
    using that receipts_okD(3) [OF ok, of q] imageI [OF yi(1), of up_id] unfolding p(1) yi(2) set_append
    by (elim UnE) (simp_all add: p(1))
  ultimately show ?thesis unfolding s by (intro receipts_okI) auto
qed

lemma receipt_step_keeps: "receipt_step db db' \<Longrightarrow> receipts_ok db \<Longrightarrow> receipts_ok db'"
proof (induction rule: receipt_step.induct)
  case (chunk x sessions y now new_id write_error c data_len parts db res)
  consider "db = (sessions, parts)"
    | expected where "0 \<le> c" "c < up_total_chunks x" "expected_chunk_size_for_upload x c = Inr expected"
        "find_key part_key (up_id x, c + 1) parts = None" "snd (increment_received_count_if_uploading now (up_id x) sessions)"
        "db = (fst (increment_received_count_if_uploading now (up_id x) sessions),
             parts @ [\<lparr>ps_id = new_id, ps_upload_id = up_id x, ps_part_number = c + 1, ps_etag = CHUNK_RECEIPT_ETAG, ps_size = expected,
               ps_created_at = now, ps_updated_at = now\<rparr>])"
    using staged_chunk_effect [OF chunk.hyps(3)] by blast
  then show ?case
  proof cases
    case (2 expected)
    let ?p = "\<lparr>ps_id = new_id, ps_upload_id = up_id x, ps_part_number = c + 1, ps_etag = CHUNK_RECEIPT_ETAG, ps_size = expected,
               ps_created_at = now, ps_updated_at = now\<rparr>"
    have "receipt_ok x ?p" using 2 by (simp add: receipt_ok_def)
    then have "receipt_ok y ?p" using receipt_ok_same [OF chunk.hyps(2)] by simp
    then show ?thesis unfolding 2(6)
      using receipt_added [OF chunk.prems chunk.hyps(1) 2(5), of ?p] 2(4) find_key_None_iff [of part_key "(up_id x, c + 1)" parts]
      by (simp add: part_key_def)
  qed (use chunk.prems in simp)
qed (auto intro: create_keeps_receipts change_keeps delete_keeps)

interpretation receipts: step_system receipt_step receipts_ok
  by unfold_locales (rule receipt_step_keeps)

section \<open>A complete count means complete receipts\<close>

lemma receipt_numbers:
  assumes "receipts_ok (sessions, parts)" "x \<in> set sessions"
  shows "sorted (map ps_part_number (list_all_by_upload (up_id x) parts))" "distinct (map ps_part_number (list_all_by_upload (up_id x) parts))"
    "set (list_all_by_upload (up_id x) parts) = set (parts_of (up_id x) parts)"
    "length (list_all_by_upload (up_id x) parts) = length (parts_of (up_id x) parts)"
proof -
  let ?l = "list_all_by_upload (up_id x) parts"
  show "sorted (map ps_part_number ?l)" "set ?l = set (parts_of (up_id x) parts)" "length ?l = length (parts_of (up_id x) parts)"
    by (simp_all add: list_all_by_upload_def parts_of_def select_where_def)
  have "distinct (map part_key (parts_of (up_id x) parts))"
    using receipts_okD(2) [OF assms(1)] by (simp add: unique_key_def parts_of_def distinct_map_filter)
  moreover have "map part_key (parts_of (up_id x) parts) = map (Pair (up_id x)) (map ps_part_number (parts_of (up_id x) parts))"
    by (simp add: part_key_def parts_of_def)
  ultimately have "distinct (map ps_part_number (parts_of (up_id x) parts))" by (metis distinct_map)
  moreover have "mset (map ps_part_number ?l) = mset (map ps_part_number (parts_of (up_id x) parts))"
    by (simp add: list_all_by_upload_def parts_of_def select_where_def)
  ultimately show "distinct (map ps_part_number ?l)" using mset_eq_imp_distinct_iff by blast
qed

lemma check_receipts_numbered:
  assumes "map ps_part_number ps = [c + 1..up_total_chunks x]" "\<forall>p \<in> set ps. receipt_ok x p"
  shows "check_receipts x c ps = Inr ()"
  using assms
proof (induction ps arbitrary: c)
  case (Cons p ps)
  have c: "c + 1 \<le> up_total_chunks x" "ps_part_number p = c + 1" "map ps_part_number ps = [c + 1 + 1..up_total_chunks x]"
    using Cons.prems(1) upto_rec1 [of "c + 1" "up_total_chunks x"] by (cases "c + 1 \<le> up_total_chunks x"; simp)+
  then show ?case using Cons.prems(2) Cons.IH [of "c + 1"] by (simp add: receipt_ok_def chunk_receipt_matches_def)
qed simp

text \<open>
  (C18) The receipts of a staged upload are complete exactly when the session has counted all its chunks. In
  every state that requests for chunks (with retries, duplicates and stale snapshots), session changes and
  deletions reach from the empty tables, a session has counted as many chunks as it has receipts, never more
  than it has chunks; and when the completion of a staged session is admitted by the count, the check of the
  receipts that follows (one receipt per chunk, in order, of the right size) succeeds.
\<close>

theorem staged_receipts_complete:
  assumes "receipt_step\<^sup>*\<^sup>* ([], []) (sessions, parts)" "x \<in> set sessions"
  shows "up_received_count x = int (length (list_all_by_upload (up_id x) parts)) \<and> up_received_count x \<le> max 0 (up_total_chunks x)
    \<and> (determine_completion_plan now x (up_session_kind x) ps = Inr CP_CompleteChunked \<longrightarrow> validate_staging_receipts e x parts = Inr ())"
proof -
  let ?l = "list_all_by_upload (up_id x) parts"
  have ok: "receipts_ok (sessions, parts)"
    by (rule receipts.reach_inv [OF assms(1)]) (simp add: receipts_ok_def unique_key_def)
  note N = receipt_numbers [OF ok assms(2)]
  have x: "up_received_count x = int (length ?l)" "\<forall>p \<in> set ?l. receipt_ok x p"
    using receipts_okD(4) [OF ok assms(2)] N(3,4) by (simp_all add: session_receipts_ok_def)
  have sub: "set (map ps_part_number ?l) \<subseteq> {1..up_total_chunks x}" using x(2) by (auto simp: receipt_ok_def)
  have card: "card (set (map ps_part_number ?l)) = length ?l" using distinct_card [OF N(2)] by simp
  have le: "int (length ?l) \<le> max 0 (up_total_chunks x)" using card_mono [OF _ sub] card by simp
  have "validate_staging_receipts e x parts = Inr ()" if "up_received_count x = up_total_chunks x"
  proof -
    have n: "0 \<le> up_total_chunks x" "length ?l = nat (up_total_chunks x)" using that x(1) by simp_all
    have "set (map ps_part_number ?l) = {1..up_total_chunks x}" by (rule card_subset_eq [OF _ sub]) (use card n in simp_all)
    then have "map ps_part_number ?l = [0 + 1..up_total_chunks x]"
      by (intro sorted_distinct_set_unique) (use N(1,2) in simp_all)
    then show ?thesis using check_receipts_numbered [of ?l 0 x] x(2) n by (simp add: validate_staging_receipts_def Let_def)
  qed
  moreover have "up_received_count x = up_total_chunks x" if "determine_completion_plan now x (up_session_kind x) ps = Inr CP_CompleteChunked"
    using that by (auto simp: determine_completion_plan_def require_all_chunks_received_def bind_result_Inr_iff
        split: if_splits upload_session_kind.splits option.splits)
  ultimately show ?thesis using x(1) le by (intro conjI impI) simp_all
qed

section \<open>A staged upload of two chunks\<close>

definition ex_staged :: upload_session where
  "ex_staged = ex_session\<lparr>up_session_kind := UK_OffsetStaging, up_object_temp_key := None, up_object_multipart_id := None,
     up_received_count := 0\<rparr>"

definition ex_receipt :: "int \<Rightarrow> upload_session_part" where
  "ex_receipt n = \<lparr>ps_id = n, ps_upload_id = ''u1'', ps_part_number = n, ps_etag = CHUNK_RECEIPT_ETAG, ps_size = 5,
     ps_created_at = 1, ps_updated_at = 1\<rparr>"

lemmas staged_example_defs = ex_staged_def ex_receipt_def session_example_defs upload_staged_chunk_def check_chunk_request_def
  resolve_upload_session_kind_def validate_persisted_kind_def expects_multipart_id_def expects_temp_key_def expects_provider_session_def
  expected_chunk_size_for_upload_def has_staged_chunk_receipt_def find_by_upload_and_part_def record_staged_chunk_receipt_def
  insert_part_if_missing_def try_claim_part_def insert_part_def increment_session_received_count_def
  increment_received_count_if_uploading_def exec_one_def
  find_key_def part_key_def chunk_receipt_matches_def chunk_response_def session_find_by_id_def same_upload_def staged_def

lemma ex_staged_run:
  "receipt_step\<^sup>*\<^sup>* ([], []) ([ex_staged\<lparr>up_received_count := 2, up_updated_at := 1\<rparr>], [ex_receipt 2, ex_receipt 1])"
proof -
  have "receipt_step ([], []) ([ex_staged], [])"
    by (rule receipt_step.create [where x = ex_staged]) (simp_all add: session_try_create_def staged_example_defs)
  moreover have "receipt_step ([ex_staged], []) ([ex_staged\<lparr>up_received_count := 1, up_updated_at := 1\<rparr>], [ex_receipt 2])"
    by (rule receipt_step.chunk [where x = ex_staged and y = ex_staged and now = 1 and new_id = 2 and c = 1 and data_len = 5
        and write_error = None and res = "Inr \<lparr>cu_received_count = 1, cu_total_chunks = 2\<rparr>"])
       (simp_all add: staged_example_defs)
  moreover have "receipt_step ([ex_staged\<lparr>up_received_count := 1, up_updated_at := 1\<rparr>], [ex_receipt 2])
      ([ex_staged\<lparr>up_received_count := 2, up_updated_at := 1\<rparr>], [ex_receipt 2, ex_receipt 1])"
    by (rule receipt_step.chunk [where x = ex_staged and y = "ex_staged\<lparr>up_received_count := 1, up_updated_at := 1\<rparr>" and now = 1
        and new_id = 1 and c = 0 and data_len = 5
        and write_error = None and res = "Inr \<lparr>cu_received_count = 2, cu_total_chunks = 2\<rparr>"])
       (simp_all add: staged_example_defs)
  ultimately show ?thesis by (meson converse_rtranclp_into_rtranclp rtranclp.rtrancl_refl)
qed

theorem staged_receipts_complete_witness:
  "\<exists>x parts. receipt_step\<^sup>*\<^sup>* ([], []) ([x], parts) \<and> determine_completion_plan 2 x (up_session_kind x) None = Inr CP_CompleteChunked
     \<and> up_received_count x = int (length (list_all_by_upload (up_id x) parts)) \<and> validate_staging_receipts (internal_error ''chunk count out of range'') x parts = Inr ()"
  using ex_staged_run
    staged_receipts_complete [OF ex_staged_run, of "ex_staged\<lparr>up_received_count := 2, up_updated_at := 1\<rparr>" 2 None "internal_error ''chunk count out of range''"]
  by (intro exI [of _ "ex_staged\<lparr>up_received_count := 2, up_updated_at := 1\<rparr>"] exI [of _ "[ex_receipt 2, ex_receipt 1]"])
     (simp add: determine_completion_plan_def require_all_chunks_received_def ex_staged_def ex_session_def)

end
