(* ===== verification/Drive_Operations.thy ===== *)
theory Drive_Operations
  imports Drive_Writes Upload_Receipts
begin

text \<open>
  The drive under all the operations of the components below, in any order. A step is one of the phases in which
  the code touches the database or the storage: staging an object, a transaction, the cleanup after a failed one,
  a request on versions, a purge. Phases of different requests interleave.

  What a step assumes of its surroundings is stated with it: ids that the database assigns are new, an upload
  writes to a place of its own, a content address determines the content's size, and derived objects such as
  thumbnails are not blobs' objects (\<open>env_apart\<close>).
\<close>

section \<open>Objects\<close>

lemma blobs_ok_more_objects: "blobs_ok M tbl objs \<Longrightarrow> objs \<subseteq> objs' \<Longrightarrow> blobs_ok M tbl objs'"
proof -
  assume a: "blobs_ok M tbl objs" "objs \<subseteq> objs'"
  obtain refs n where r: "mset refs = M" "blob_system_ok \<lparr>bz_world = refs_world refs tbl objs, bz_next_id = n, bz_handlers = []\<rparr>"
    by (rule blobs_ok_world [OF a(1)])
  have "blob_system_ok (\<lparr>bz_world = refs_world refs tbl objs, bz_next_id = n, bz_handlers = []\<rparr>\<lparr>bz_world := refs_world refs tbl objs'\<rparr>)"
    by (rule system_ok_same_refs [OF r(2)]) (use a(2) in auto)
  then show ?thesis using blobs_okI [of "refs_world refs tbl objs'" n M] r(1) by simp
qed

lemma blobs_ok_unused_object: "blobs_ok M tbl objs \<Longrightarrow> place_unused policy path tbl \<Longrightarrow> blobs_ok M tbl (objs - {(policy, path)})"
proof -
  assume a: "blobs_ok M tbl objs" "place_unused policy path tbl"
  obtain refs n where r: "mset refs = M" "blob_system_ok \<lparr>bz_world = refs_world refs tbl objs, bz_next_id = n, bz_handlers = []\<rparr>"
    by (rule blobs_ok_world [OF a(1)])
  note D = system_okD [OF r(2), simplified]
  have "blob_system_ok (\<lparr>bz_world = refs_world refs tbl objs, bz_next_id = n, bz_handlers = []\<rparr>\<lparr>bz_world := refs_world refs tbl (objs - {(policy, path)})\<rparr>)"
  proof (rule system_ok_inplace [OF r(2), where g = id and objs = "objs - {(policy, path)}"])
    fix b assume b: "b \<in> set (bz_blobs \<lparr>bz_world = refs_world refs tbl objs, bz_next_id = n, bz_handlers = []\<rparr>)"
      "0 < actual_refs (bz_world \<lparr>bz_world = refs_world refs tbl objs, bz_next_id = n, bz_handlers = []\<rparr>) (fb_id b)"
    then have "object_present b objs" using D(9) [of b] by simp
    then show "object_present b (objs - {(policy, path)})" using a(2) b(1)
      by (auto simp: object_present_def place_unused_def storage_path_for_connector_def has_connector_object_def split: if_splits)
  qed (use D(3) in \<open>simp_all add: same_place_def\<close>)
  then show ?thesis using blobs_okI [of "refs_world refs tbl (objs - {(policy, path)})" n M] r(1) by simp
qed

lemma drive_ok_objects:
  assumes "drive_ok d" "\<And>M. blobs_ok M (dr_blobs d) (dr_objects d) \<Longrightarrow> blobs_ok M (dr_blobs d) objs"
  shows "drive_ok (d\<lparr>dr_objects := objs\<rparr>)"
  using assms by (simp add: drive_ok_def drive_pending_def Let_def)

lemma blobs_ok_delete_object:
  "blobs_ok M tbl objs \<Longrightarrow> place_unused policy path tbl \<Longrightarrow> blobs_ok M tbl (object_delete reply (policy, path) objs)"
  using blobs_ok_unused_object [of M tbl objs policy path] by (auto simp: object_delete_def split: delete_reply.splits)

text \<open>An object that an upload may delete again: its place belongs to no row.\<close>

definition disposable :: "verified_temp_store_blob \<Rightarrow> drive \<Rightarrow> bool" where
  "disposable v d =
     (case vb_source v of
        ContentAddressed hash \<Rightarrow> content_addressed hash (vb_size v) (vb_policy_id v) (vb_storage_path v) (dr_blobs d)
      | PreuploadedNonDedup p \<Rightarrow> place_unused (prepared_policy_id p) (prepared_storage_path p) (dr_blobs d))"

lemma undo_keeps:
  assumes "drive_ok d" "disposable v d"
  shows "drive_ok (undo_staged se v d)"
proof -
  let ?w = "cleanup_verified_temp_blob_after_db_failure (se_db_ok se) (se_delete se) v (blob_view d)"
  have "bw_blobs ?w = dr_blobs d \<and> (\<forall>M. blobs_ok M (dr_blobs d) (dr_objects d) \<longrightarrow> blobs_ok M (dr_blobs d) (bw_objects ?w))"
    using assms(2)
    by (auto simp: cleanup_verified_temp_blob_after_db_failure_def rollback_staged_dedup_blob_def blob_view_def disposable_def
        content_addressed_def cleanup_preuploaded_blob_upload_def intro: blobs_ok_delete_object
        split: temp_store_blob_cleanup_plan.splits verified_temp_store_blob_source.splits option.splits)
  then show ?thesis using drive_ok_objects [OF assms(1), of "bw_objects ?w"] by (simp add: undo_staged_def with_blob_world_def)
qed

section \<open>Rows of files that carry no charge\<close>

text \<open>Moving files, putting them into the trash and restoring them change columns that no book is kept of.\<close>

definition places_only :: "(file_model \<Rightarrow> file_model) \<Rightarrow> bool" where
  "places_only g = (\<forall>f. fm_id (g f) = fm_id f \<and> fm_team_id (g f) = fm_team_id f \<and> fm_owner_user_id (g f) = fm_owner_user_id f
     \<and> fm_blob_id (g f) = fm_blob_id f \<and> fm_size (g f) = fm_size f)"

lemma places_only_charges:
  assumes "places_only g"
  shows "charges (lg\<lparr>lg_files := map g (lg_files lg)\<rparr>) = charges lg" "file_scope (g f) = file_scope f"
proof -
  have g: "fm_id (g f) = fm_id f" and gs: "file_scope (g f) = file_scope f" for f
    using assms by (simp_all add: places_only_def file_scope_def split: option.splits)
  show "file_scope (g f) = file_scope f" by (rule gs)
  have "find_key fm_id i (map g fs) = map_option g (find_key fm_id i fs)" for i fs
    using g by (induction fs) (auto simp: find_key_def)
  then have "Option.bind (find_key fm_id i (map g (lg_files lg))) file_scope = Option.bind (find_key fm_id i (lg_files lg)) file_scope" for i
    using gs by (cases "find_key fm_id i (lg_files lg)") auto
  then have "history_scope (lg\<lparr>lg_files := map g (lg_files lg)\<rparr>) hid = history_scope lg hid" for hid
    by (intro history_scope_cong [where f = id]) simp_all
  then show "charges (lg\<lparr>lg_files := map g (lg_files lg)\<rparr>) = charges lg" by (rule charges_cong) simp
qed

lemma map_files_keeps:
  assumes "places_only g" "drive_ok d"
  shows "drive_ok (d\<lparr>dr_ledger := (dr_ledger d)\<lparr>lg_files := map g (lg_files (dr_ledger d))\<rparr>\<rparr>)"
proof -
  let ?lg = "dr_ledger d" and ?lg' = "(dr_ledger d)\<lparr>lg_files := map g (lg_files (dr_ledger d))\<rparr>"
  note D = drive_pendingD [OF assms(2) [unfolded drive_ok_def]]
  have g: "fm_id (g f) = fm_id f" "file_scope (g f) = file_scope f" "fm_blob_id (g f) = fm_blob_id f" "fm_size (g f) = fm_size f" for f
    using assms(1) places_only_charges(2) [OF assms(1)] by (simp_all add: places_only_def)
  note c = places_only_charges(1) [OF assms(1), of ?lg]
  have ids: "map fm_id (map g fs) = map fm_id fs" for fs using g(1) by simp
  then have "fm_id ` set (map g fs) = fm_id ` set fs" for fs by (simp only: set_map [symmetric])
  moreover have "unique_key fm_id (map g (lg_files ?lg))" using D(2) by (simp only: files_ok_def unique_key_def ids)
  moreover have "shows_current ?lg' (g f) = shows_current ?lg f" for f using g by (simp add: shows_current_iff)
  ultimately have "files_ok ?lg'" using D(2) g(2) by (simp add: files_ok_def)
  then show ?thesis using D c unfolding drive_ok_def by (intro drive_pendingI) simp_all
qed

section \<open>The steps\<close>

abbreviation with_files :: "file_table \<Rightarrow> drive \<Rightarrow> drive" where
  "with_files fs d \<equiv> d\<lparr>dr_ledger := (dr_ledger d)\<lparr>lg_files := fs\<rparr>\<rparr>"

text \<open>A change of quotas: usage stays what it is.\<close>

definition same_usage :: "account_db \<Rightarrow> account_db \<Rightarrow> bool" where
  "same_usage a b = (accounts_ok a \<and> (\<forall>sc. map_option fst (account_of sc a) = map_option fst (account_of sc b)))"

inductive drive_step :: "drive \<Rightarrow> drive \<Rightarrow> bool" where
  stage: "drive_step d (d\<lparr>dr_objects := insert key (dr_objects d)\<rparr>)"
| undo: "disposable v d \<Longrightarrow> drive_step d (undo_staged se v d)"
| store: "temp_store_transaction we sx sp v (d, t) = Inr ((d', t'), f, fresh) \<Longrightarrow> ids_below (we_blob_id we) d \<Longrightarrow> staged_for v d
    \<Longrightarrow> sp_storage_delta sp = vb_size v \<Longrightarrow> drive_step d d'"
| store_preuploaded: "preuploaded_transaction we sp p (d, t) = Inr ((d', t'), f) \<Longrightarrow> ids_below (we_blob_id we) d
    \<Longrightarrow> place_ready (prepared_policy_id p) (prepared_storage_path p) d
    \<Longrightarrow> place_unused (prepared_policy_id p) (prepared_storage_path p) (dr_blobs d)
    \<Longrightarrow> 0 \<le> prepared_size p \<Longrightarrow> sp_storage_delta sp = prepared_size p \<Longrightarrow> drive_step d d'"
| finalize: "finalize_upload_session_file we s hash sz policy path now username (d, t) = ((d', t'), res) \<Longrightarrow> ids_below (we_blob_id we) d
    \<Longrightarrow> content_addressed hash sz policy path (dr_blobs d) \<Longrightarrow> place_ready policy path d \<Longrightarrow> 0 \<le> sz \<Longrightarrow> drive_step d d'"
| create_empty: "create_empty_transaction we ex sc folder filename mode idem (d, k) = Inr ((d', k'), f, replayed) \<Longrightarrow> ids_below (we_blob_id we) d
    \<Longrightarrow> (\<forall>b \<in> set (dr_blobs d). fb_backing b = VirtualEmpty \<longrightarrow> fb_size b = 0) \<Longrightarrow> drive_step d d'"
| restore_version: "restore_version_in_scope env configured sc i vid d = Some (d', res) \<Longrightarrow> env_apart env d \<Longrightarrow> drive_step d d'"
| delete_version: "delete_version_in_scope env sc i vid d = (d', res2) \<Longrightarrow> env_apart env d \<Longrightarrow> drive_step d d'"
| thin: "cleanup_excess env configured i d = Some (d', res2) \<Longrightarrow> env_apart env d \<Longrightarrow> drive_step d d'"
| purge: "batch_purge_internal env e rsc files emit g d = (d', res3) \<Longrightarrow> env_apart env d \<Longrightarrow> drive_step d d'"
| move: "move_many_to_folder ids folder now (lg_files (dr_ledger d)) = Inr fs \<Longrightarrow> drive_step d (with_files fs d)"
| trash: "drive_step d (with_files (soft_delete_many ids now (lg_files (dr_ledger d))) d)"
| untrash: "restore_many ids (lg_files (dr_ledger d)) = Inr fs \<Longrightarrow> drive_step d (with_files fs d)"
| quota: "same_usage a (dr_accounts d) \<Longrightarrow> drive_step d (d\<lparr>dr_accounts := a\<rparr>)"

inductive_cases drive_stepE: "drive_step d d'"

lemma restore_in_scope_keeps:
  assumes "drive_ok d" "env_apart env d" "restore_version_in_scope env configured sc i vid d = Some (d', res)"
  shows "drive_ok d'"
proof (cases "bind_result (verify_file_access sc i d) (\<lambda>file. bind_result (require_scope_management sc d) (\<lambda>_. Inr file))")
  case (Inl e)
  then show ?thesis using assms by (simp add: restore_version_in_scope_def)
next
  case (Inr f)
  then have "file_scope f = Some (resource_scope sc)" by (auto simp: bind_result_Inr_iff dest: verify_file_access_Inr)
  note K = restore_version_keeps [OF assms(1,2) this, of vid]
  obtain d1 r where r: "restore_version_inner env sc f vid d = (d1, r)" by fastforce
  show ?thesis
  proof (cases r)
    case (Inl e)
    then show ?thesis using Inr r K assms(3) by (simp add: restore_version_in_scope_def)
  next
    case (Inr u)
    then obtain res1 where "cleanup_excess env configured i d1 = Some (d', res1)"
      using \<open>bind_result _ _ = Inr f\<close> r assms(3) by (auto simp: restore_version_in_scope_def)
    moreover have "drive_ok d1" "env_apart env d1" using K r by simp_all
    ultimately show ?thesis by (intro cleanup_excess_keeps(1) [of d1 env configured i d' res1])
  qed
qed

lemma delete_in_scope_keeps:
  assumes "drive_ok d" "env_apart env d" "delete_version_in_scope env sc i vid d = (d', res)"
  shows "drive_ok d'"
proof (cases "bind_result (verify_file_access sc i d) (\<lambda>file. bind_result (require_scope_management sc d) (\<lambda>_. Inr file))")
  case (Inl e)
  then show ?thesis using assms by (simp add: delete_version_in_scope_def)
next
  case (Inr f)
  then have "find_key fm_id (fm_id f) (lg_files (dr_ledger d)) = Some f" "file_scope f = Some (resource_scope sc)"
    by (auto simp: bind_result_Inr_iff dest: verify_file_access_Inr)
  then show ?thesis using delete_version_keeps [OF assms(1,2), of f sc vid] Inr assms(3) by (simp add: delete_version_in_scope_def)
qed

lemma table_statements_keep:
  assumes "drive_ok d"
  shows "move_many_to_folder ids folder now (lg_files (dr_ledger d)) = Inr fs \<Longrightarrow> drive_ok (with_files fs d)"
    "drive_ok (with_files (soft_delete_many ids now (lg_files (dr_ledger d))) d)"
    "restore_many ids (lg_files (dr_ledger d)) = Inr fs \<Longrightarrow> drive_ok (with_files fs d)"
proof -
  have k: "drive_ok (with_files (map (\<lambda>f. if fm_id f \<in> set ids then g f else f) (lg_files (dr_ledger d))) d)" if "places_only g" for g
    by (rule map_files_keeps [OF _ assms]) (use that in \<open>simp add: places_only_def\<close>)
  have "places_only (\<lambda>f. f\<lparr>fm_folder_id := folder, fm_updated_at := now\<rparr>)" "places_only (\<lambda>f. f\<lparr>fm_deleted_at := Some now\<rparr>)"
    "places_only undeleted" by (simp_all add: places_only_def undeleted_def)
  note K = this [THEN k]
  show "move_many_to_folder ids folder now (lg_files (dr_ledger d)) = Inr fs \<Longrightarrow> drive_ok (with_files fs d)"
    using K(1) assms by (auto simp: move_many_to_folder_def checked_rows_def update_where_def split: if_splits)
  show "drive_ok (with_files (soft_delete_many ids now (lg_files (dr_ledger d))) d)"
    using K(2) assms by (auto simp: soft_delete_many_def update_where_def)
  show "restore_many ids (lg_files (dr_ledger d)) = Inr fs \<Longrightarrow> drive_ok (with_files fs d)"
    using K(3) assms by (auto simp: restore_many_def checked_rows_def update_where_def split: if_splits)
qed

lemma quota_keeps:
  assumes "drive_ok d" "same_usage a (dr_accounts d)"
  shows "drive_ok (d\<lparr>dr_accounts := a\<rparr>)"
proof -
  note D = drive_pendingD [OF assms(1) [unfolded drive_ok_def]]
  have "fst x = scope_usage (charges (dr_ledger d)) sc" if "account_of sc a = Some x" for sc x
  proof -
    have "map_option fst (account_of sc a) = map_option fst (account_of sc (dr_accounts d))"
      using assms(2) by (simp add: same_usage_def)
    then have "map_option fst (account_of sc (dr_accounts d)) = Some (fst x)" using that by simp
    then show ?thesis using D(5) by (auto simp: accounts_exact_def)
  qed
  then have "accounts_exact (charges (dr_ledger d)) a" using assms(2) by (simp add: accounts_exact_def same_usage_def)
  then show ?thesis using D(1-4) unfolding drive_ok_def by (intro drive_pendingI) simp_all
qed

lemma drive_step_keeps: "drive_step d d' \<Longrightarrow> drive_ok d \<Longrightarrow> drive_ok d'"
proof (induction rule: drive_step.induct)
  case (stage d key)
  then show ?case using drive_ok_objects blobs_ok_more_objects by blast
next
  case (store we sx sp v d t d' t' f fresh)
  then show ?case using temp_store_keeps [of "(d, t)" we v sp sx "(d', t')" f fresh] by simp
next
  case (store_preuploaded we sp p d t d' t' f)
  then show ?case using preuploaded_keeps [of "(d, t)" we p sp "(d', t')" f] by simp
next
  case (finalize we s hash sz policy path now username d t d' t' res)
  then show ?case using finalize_keeps [of "(d, t)" we hash sz policy path s now username] by simp
next
  case (create_empty we ex sc folder filename mode idem d k d' k' f replayed)
  then show ?case using create_empty_keeps [of "(d, k)" we ex sc folder filename mode idem "(d', k')" f replayed] by simp
next
  case (purge env e rsc files emit g d d' res3)
  then show ?case using batch_purge_keeps [of d env e rsc files emit g] by simp
qed (blast intro: undo_keeps restore_in_scope_keeps delete_in_scope_keeps cleanup_excess_keeps(1) table_statements_keep quota_keeps)+

interpretation drives: step_system drive_step drive_ok
  by unfold_locales (rule drive_step_keeps)

end
