(* ===== verification/Drive_Books.thy ===== *)
theory Drive_Books
  imports Drive_Operations
begin

text \<open>
  What the invariant of the drive says to its users, and a run of it: the usage of every account, the reference
  counts of the blobs, the stored objects and the rows of files, all read off the live revisions.
\<close>

section \<open>What the books are compared with\<close>

definition live_bytes :: "drive \<Rightarrow> workspace_resource_scope \<Rightarrow> int" where
  "live_bytes d sc =
     sum_list (map fr_logical_size (filter (\<lambda>r. history_scope (dr_ledger d) (fr_history_id r) = Some sc) (live_rows (dr_ledger d))))"

definition live_uses :: "drive \<Rightarrow> int \<Rightarrow> nat" where
  "live_uses d i = length (filter (\<lambda>r. fr_blob_id r = Some i) (live_rows (dr_ledger d)))"

lemma scope_usage_live: "scope_usage (charges (dr_ledger d)) sc = live_bytes d sc"
proof -
  have "scope_usage (mset (map (charge_of lg) rs)) sc
      = sum_list (map fr_logical_size (filter (\<lambda>r. history_scope lg (fr_history_id r) = Some sc) rs))" for lg rs
    by (induction rs) (auto simp: charge_of_def)
  then show ?thesis by (simp only: charges_def live_bytes_def)
qed

lemma blob_charges_live: "count (blob_charges (charges (dr_ledger d))) i = live_uses d i"
proof -
  have "count (blob_charges (mset (map (charge_of lg) rs))) i = length (filter (\<lambda>r. fr_blob_id r = Some i) rs)" for lg rs
    by (induction rs) (auto simp: charge_of_def blob_charges_def)
  then show ?thesis by (simp only: charges_def live_uses_def)
qed

text \<open>A drive without files whose accounts are empty.\<close>

definition fresh_drive :: "drive \<Rightarrow> bool" where
  "fresh_drive d =
     (dr_ledger d = \<lparr>lg_files = [], lg_histories = [], lg_revisions = [], lg_snapshots = [], lg_properties = []\<rparr>
      \<and> dr_blobs d = [] \<and> accounts_ok (dr_accounts d)
      \<and> (\<forall>a \<in> set (ad_users (dr_accounts d)) \<union> set (ad_teams (dr_accounts d)). sa_storage_used a = 0))"

lemma fresh_drive_ok:
  assumes "fresh_drive d"
  shows "drive_ok d"
proof -
  have "blob_system_ok \<lparr>bz_world = refs_world [] [] (dr_objects d), bz_next_id = 1, bz_handlers = []\<rparr>"
    by (simp add: blob_system_ok_def rows_exact_def objects_kept_def blob_table_ok_def unique_key_def slots_distinct_def
        places_distinct_def refs_world_def actual_refs_def claims_exclusive_def)
  then have b: "blobs_ok {#} [] (dr_objects d)" using blobs_okI [of "refs_world [] [] (dr_objects d)" 1 "{#}"] by simp
  have "fst a = 0" if "account_of sc (dr_accounts d) = Some a" for sc a
    using that assms find_key_SomeD
    by (fastforce simp: account_of_def fresh_drive_def split: workspace_resource_scope.splits)
  then have "accounts_exact {#} (dr_accounts d)" using assms by (simp add: accounts_exact_def fresh_drive_def)
  then show ?thesis using assms b
    by (simp add: drive_ok_def drive_pending_def Let_def fresh_drive_def ledger_ok_def files_ok_def charges_def live_rows_def
        history_constraints_def revision_constraints_def snapshots_ok_def snapshot_constraints_def property_constraints_def
        unique_key_def)
qed

lemma drive_ok_uses:
  assumes "drive_ok d" "0 < live_uses d i"
  shows "\<exists>b \<in> set (dr_blobs d). fb_id b = i \<and> fb_ref_count b = int (live_uses d i) \<and> object_present b (dr_objects d)"
proof -
  obtain refs n where r: "mset refs = blob_charges (charges (dr_ledger d))"
      "blob_system_ok \<lparr>bz_world = refs_world refs (dr_blobs d) (dr_objects d), bz_next_id = n, bz_handlers = []\<rparr>"
    by (rule blobs_ok_world [OF drive_blobs [OF assms(1)]])
  note S = system_okD [OF r(2), simplified]
  have u: "count (mset refs) i = live_uses d i" by (simp add: r(1) blob_charges_live)
  have "i \<in># mset refs" using assms(2) u by (metis count_greater_zero_iff)
  then have i: "i \<in> set refs" by simp
  obtain b where b: "b \<in> set (dr_blobs d)" "fb_id b = i" using S(10) [OF i] by auto
  then show ?thesis using S(8,9) [of b] u assms(2) i by (auto simp: count_exact_def intro!: bexI [of _ b])
qed


section \<open>A run\<close>

text \<open>Comparisons with machine bounds are evaluated on integers.\<close>

lemma u32_max_code [code_unfold]: "n \<le> u32_max \<longleftrightarrow> int n \<le> 4294967295" "u32_max < n \<longleftrightarrow> 4294967295 < int n"
  by (auto simp: u32_max_def)

lemma saturating_succ_code [code]: "saturating_succ n = (if int n < 18446744073709551615 then n + 1 else u64_max)"
  by (simp add: saturating_succ_def u64_max_def)

definition ex_fresh :: drive where
  "ex_fresh = \<lparr>dr_ledger = \<lparr>lg_files = [], lg_histories = [], lg_revisions = [], lg_snapshots = [], lg_properties = []\<rparr>,
     dr_blobs = [], dr_objects = {},
     dr_accounts = \<lparr>ad_users = [\<lparr>sa_id = 1, sa_storage_used = 0, sa_storage_quota = 100, sa_archived = False\<rparr>], ad_teams = []\<rparr>,
     dr_usernames = (\<lambda>_. ''ann''), dr_members = [],
     dr_tasks = \<lparr>tw_tasks = [], tw_members = [],
        tw_locks = \<lparr>db_kind = Postgres, db_users = [1], db_teams = [], db_files = [], db_folders = [], db_namespaces = [], db_locks = []\<rparr>\<rparr>,
     dr_shares = [], dr_activities = [], dr_events = []\<rparr>"

definition ex_drive_env :: drive_env where
  "ex_drive_env = \<lparr>de_now = 50, de_ledger = ex_ledger_env,
     de_locks = \<lparr>le_now = 50, le_uuid = ''l'', le_new_namespace_id = 1, le_new_lock_id = 1\<rparr>,
     de_event_uuid = ''e'', de_operation_uuid = ''o'',
     de_classify = (\<lambda>_ _. \<lparr>cl_extension = ''txt'', cl_compound_extension = None, cl_category = ''document''\<rparr>),
     de_paths = (\<lambda>_. Inr (\<lambda>_. None)),
     de_replies = (\<lambda>_ _. \<lparr>cr_db_ok = True, cr_policy_known = True, cr_driver_ok = True, cr_derived = [], cr_delete = (\<lambda>_. Deleted),
        cr_probe_ok = (\<lambda>_. True)\<rparr>)\<rparr>"

definition ex_write_env :: write_env where
  "ex_write_env = \<lparr>we_drive = ex_drive_env, we_names = ex_names, we_file_id = 7, we_blob_id = 3\<rparr>"

definition ex_store :: store_params where
  "ex_store = \<lparr>sp_scope = WS_Personal 1, sp_activity_source = AS_Rest, sp_activity_action = ''file_upload'', sp_folder_id = None,
     sp_filename = ''a.txt'', sp_mime = ''text/plain'', sp_old_file = None, sp_now = 50, sp_storage_delta = 5,
     sp_new_file_mode = Exact, sp_actor_username = None, sp_lock_credentials = LC_None, sp_file_precondition = None,
     sp_expected_revision_id = None, sp_expected_revision_etag = None, sp_revision_etag = None, sp_complete_upload_id = None\<rparr>"

definition ex_upload :: verified_temp_store_blob where
  "ex_upload = \<lparr>vb_size = 5, vb_policy_id = 1, vb_storage_path = ''files/u1'',
     vb_source = PreuploadedNonDedup (Prepared_Opaque ''u1'' ''s3'' ''files/u1'' 5 1), vb_cleanup = CleanupPreuploadedBlobOnDbFailure\<rparr>"

definition ex_context :: store_context where
  "ex_context = \<lparr>sx_checkpoint = (\<lambda>_. Inr ()), sx_published = Inr None, sx_publish = (\<lambda>_. Inr ())\<rparr>"

definition ex_staged_drive :: drive where
  "ex_staged_drive = ex_fresh\<lparr>dr_objects := {(1, ''files/u1'')}\<rparr>"

definition ex_stored :: "(store_world \<times> file_model \<times> bool) aster_result" where
  "ex_stored = temp_store_transaction ex_write_env ex_context ex_store ex_upload (ex_staged_drive, [])"

lemma ex_stored_facts:
  "case ex_stored of
     Inl _ \<Rightarrow> False
   | Inr ((d, _), f, _) \<Rightarrow> account_of (RS_Personal 1) (dr_accounts d) = Some (5, 100) \<and> live_uses d 3 = 1
       \<and> map fm_id (lg_files (dr_ledger d)) = [7]"
  by code_simp

lemma ex_store_step:
  "temp_store_transaction ex_write_env ex_context ex_store ex_upload (ex_staged_drive, t0) = Inr ((d, t), f, b) \<Longrightarrow> drive_step ex_staged_drive d"
  by (erule drive_step.store)
     (simp_all add: ids_below_def staged_for_def place_ready_def place_unused_def ex_staged_drive_def ex_fresh_def ex_upload_def ex_store_def)

lemma ex_store_run:
  obtains d where "drive_step\<^sup>*\<^sup>* ex_fresh d" "account_of (RS_Personal 1) (dr_accounts d) = Some (5, 100)" "live_uses d 3 = 1"
    "map fm_id (lg_files (dr_ledger d)) = [7]"
proof -
  obtain d t f b where r: "temp_store_transaction ex_write_env ex_context ex_store ex_upload (ex_staged_drive, []) = Inr ((d, t), f, b)"
      "account_of (RS_Personal 1) (dr_accounts d) = Some (5, 100)" "live_uses d 3 = 1" "map fm_id (lg_files (dr_ledger d)) = [7]"
    using ex_stored_facts by (auto simp: ex_stored_def split: sum.splits)
  have "drive_step ex_fresh ex_staged_drive"
    using drive_step.stage [of ex_fresh "(1, ''files/u1'')"] by (simp add: ex_staged_drive_def ex_fresh_def)
  moreover have "drive_step ex_staged_drive d" by (rule ex_store_step [OF r(1)])
  ultimately show thesis using that r(2-4) by (meson converse_rtranclp_into_rtranclp rtranclp.rtrancl_refl)
qed

lemma ex_fresh_fresh: "fresh_drive ex_fresh"
  by (simp add: fresh_drive_def ex_fresh_def accounts_ok_def unique_key_def)


section \<open>Thinning out the versions of a file\<close>

text \<open>The ids of a file's live revisions, oldest first.\<close>

definition file_revision_ids :: "int \<Rightarrow> ledger \<Rightarrow> int list" where
  "file_revision_ids i lg = (case history_of_file i lg of None \<Rightarrow> [] | Some h \<Rightarrow> live_ids (fh_id h) lg)"

lemma file_scope_resource: "file_scope f = Some sc \<Longrightarrow> resource_scope_from_file f = Inr sc"
  by (auto simp: file_scope_def resource_scope_from_file_def ok_or_def split: option.splits)

lemma live_ids_fuel: "length (live_ids hid lg) < Suc (length (lg_revisions lg))"
  by (simp add: live_ids_def live_of_def le_imp_less_Suc)

lemma cleanup_excess_result:
  assumes t: "thinning sc i f h used quota env d" and u: "used \<le> i64_max"
  shows "\<exists>d' freed. cleanup_excess env configured i d = Some (d', Inr ()) \<and> 0 \<le> freed \<and> thinning sc i f h (used - freed) quota env d'
    \<and> live_ids (fh_id h) (dr_ledger d') = drop (length (live_ids (fh_id h) (dr_ledger d)) - saturating_succ (get_max_versions configured))
          (live_ids (fh_id h) (dr_ledger d))"
proof -
  let ?m = "saturating_succ (get_max_versions configured)" and ?n = "length (live_ids (fh_id h) (dr_ledger d))"
  have m: "1 \<le> ?m" by (simp add: saturating_succ_def u64_max_def)
  obtain d1 bytes where l: "cleanup_loop env sc i ?m (Suc (length (lg_revisions (dr_ledger d)))) 0 0 d = Some (d1, Inr (0 + (?n - ?m), 0 + bytes))"
      "0 \<le> bytes" "thinning sc i f h (used - bytes) quota env d1" "live_ids (fh_id h) (dr_ledger d1) = drop (?n - ?m) (live_ids (fh_id h) (dr_ledger d))"
    using cleanup_loop_result [OF t m live_ids_fuel, of 0 0] u by auto
  have f: "file_by_id i (dr_ledger d) = Inr f" "resource_scope_from_file f = Inr sc"
    using t by (simp_all add: thinning_def file_by_id_Inr file_scope_resource)
  have p: "thinning sc i f h u q env (publish_event e d1) = thinning sc i f h u q env d1" for u q e
    by (simp add: thinning_def publish_event_def drive_ok_def drive_pending_def env_apart_def)
  have e: "dr_ledger (publish_event e d1) = dr_ledger d1" for e by (simp add: publish_event_def)
  show ?thesis
  proof (cases "?n - ?m > 0")
    case True
    then show ?thesis using f l(2,3,4) p e by (simp add: cleanup_excess_def l(1) del: cleanup_loop.simps) blast
  next
    case False
    then show ?thesis using f l(2,3,4) by (simp add: cleanup_excess_def l(1) del: cleanup_loop.simps) blast
  qed
qed

text \<open>
  (C12) Thinning out a file's versions ends, reports no error, and keeps exactly the newest ones. In every reachable
  state of the drive, for a file of a workspace whose account exists, \<open>cleanup_excess\<close> returns, the file is left with
  the newest revisions up to the configured number of versions and the current one, in their order, and the account
  is charged for what is left.
\<close>

theorem thinning_keeps_newest:
  assumes "fresh_drive d0" "drive_step\<^sup>*\<^sup>* d0 d" "find_key fm_id i (lg_files (dr_ledger d)) = Some f" "file_scope f = Some sc"
    "account_of sc (dr_accounts d) = Some (used, quota)" "used \<le> i64_max" "env_apart env d"
  shows "\<exists>d'. cleanup_excess env configured i d = Some (d', Inr ())
    \<and> file_revision_ids i (dr_ledger d')
        = drop (length (file_revision_ids i (dr_ledger d)) - saturating_succ (get_max_versions configured)) (file_revision_ids i (dr_ledger d))
    \<and> account_of sc (dr_accounts d') = Some (live_bytes d' sc, quota)"
proof -
  have ok: "drive_ok d" by (rule drives.reach_inv [OF assms(2) fresh_drive_ok [OF assms(1)]])
  note D = drive_pendingD [OF ok [unfolded drive_ok_def]]
  have f: "f \<in> set (lg_files (dr_ledger d))" "fm_id f = i" using D(2) assms(3) by (simp_all add: file_row)
  obtain h where h: "history_of_file i (dr_ledger d) = Some h"
    using D(2) f shows_current_history [of "dr_ledger d" f] by (auto simp: files_ok_def)
  have "thinning sc i f h used quota env d" using ok h assms by (simp add: thinning_def)
  from cleanup_excess_result [OF this assms(6), of configured] obtain d' freed where
    r: "cleanup_excess env configured i d = Some (d', Inr ())" "thinning sc i f h (used - freed) quota env d'"
      "live_ids (fh_id h) (dr_ledger d') = drop (length (live_ids (fh_id h) (dr_ledger d)) - saturating_succ (get_max_versions configured))
          (live_ids (fh_id h) (dr_ledger d))" by blast
  note T = r(2) [unfolded thinning_def]
  have "used - freed = live_bytes d' sc"
    using T drive_pendingD(5) [of "{#}" d'] by (auto simp: drive_ok_def accounts_exact_def scope_usage_live)
  then show ?thesis using r h T by (intro exI [of _ d']) (simp add: file_revision_ids_def)
qed

text \<open>A second upload over the first one, then thinning that keeps the current revision only.\<close>

definition ex_second_env :: write_env where
  "ex_second_env = ex_write_env\<lparr>we_blob_id := 4, we_drive := ex_drive_env\<lparr>de_event_uuid := ''e2'', de_ledger := ex_ledger_env\<lparr>
     re_revision_id := (\<lambda>k. 210 + int k), re_best_effort_uuid := (\<lambda>_ _. Inr ''r2''), re_etag := (\<lambda>_. ''t2'')\<rparr>\<rparr>\<rparr>"

definition ex_second_upload :: verified_temp_store_blob where
  "ex_second_upload = \<lparr>vb_size = 6, vb_policy_id = 1, vb_storage_path = ''files/u2'',
     vb_source = PreuploadedNonDedup (Prepared_Opaque ''u2'' ''s3'' ''files/u2'' 6 1), vb_cleanup = CleanupPreuploadedBlobOnDbFailure\<rparr>"

definition ex_second_store :: "file_model \<Rightarrow> store_params" where
  "ex_second_store f = ex_store\<lparr>sp_old_file := Some f, sp_storage_delta := 6\<rparr>"

lemma ex_overwritten_facts:
  "case ex_stored of
     Inl _ \<Rightarrow> False
   | Inr ((d, _), f, _) \<Rightarrow>
       (let d1 = d\<lparr>dr_objects := insert (1, ''files/u2'') (dr_objects d)\<rparr> in
        ids_below 4 d1 \<and> staged_for ex_second_upload d1
        \<and> (case temp_store_transaction ex_second_env ex_context (ex_second_store f) ex_second_upload (d1, []) of
             Inl _ \<Rightarrow> False
           | Inr ((d2, _), _, _) \<Rightarrow>
               account_of (RS_Personal 1) (dr_accounts d2) = Some (11, 100) \<and> file_revision_ids 7 (dr_ledger d2) = [200, 210]
               \<and> map_option file_scope (find_key fm_id 7 (lg_files (dr_ledger d2))) = Some (Some (RS_Personal 1))))"
  by code_simp

lemma ex_overwrite_run:
  obtains d f where "drive_step\<^sup>*\<^sup>* ex_fresh d" "account_of (RS_Personal 1) (dr_accounts d) = Some (11, 100)"
    "file_revision_ids 7 (dr_ledger d) = [200, 210]" "find_key fm_id 7 (lg_files (dr_ledger d)) = Some f" "file_scope f = Some (RS_Personal 1)"
proof -
  obtain d t f b where r: "temp_store_transaction ex_write_env ex_context ex_store ex_upload (ex_staged_drive, []) = Inr ((d, t), f, b)"
    using ex_stored_facts by (auto simp: ex_stored_def split: sum.splits)
  define d1 where "d1 = d\<lparr>dr_objects := insert (1, ''files/u2'') (dr_objects d)\<rparr>"
  have "ids_below 4 d1 \<and> staged_for ex_second_upload d1
      \<and> (case temp_store_transaction ex_second_env ex_context (ex_second_store f) ex_second_upload (d1, []) of
             Inl _ \<Rightarrow> False
           | Inr ((d2, _), _, _) \<Rightarrow>
               account_of (RS_Personal 1) (dr_accounts d2) = Some (11, 100) \<and> file_revision_ids 7 (dr_ledger d2) = [200, 210]
               \<and> map_option file_scope (find_key fm_id 7 (lg_files (dr_ledger d2))) = Some (Some (RS_Personal 1)))"
    using ex_overwritten_facts by (simp add: ex_stored_def r Let_def d1_def)
  then obtain d2 t2 f2 b2 where s: "ids_below 4 d1" "staged_for ex_second_upload d1"
      "temp_store_transaction ex_second_env ex_context (ex_second_store f) ex_second_upload (d1, []) = Inr ((d2, t2), f2, b2)"
      "account_of (RS_Personal 1) (dr_accounts d2) = Some (11, 100)" "file_revision_ids 7 (dr_ledger d2) = [200, 210]"
      "map_option file_scope (find_key fm_id 7 (lg_files (dr_ledger d2))) = Some (Some (RS_Personal 1))"
    by (auto split: sum.splits)
  have "drive_step ex_fresh ex_staged_drive"
    using drive_step.stage [of ex_fresh "(1, ''files/u1'')"] by (simp add: ex_staged_drive_def ex_fresh_def)
  moreover have "drive_step ex_staged_drive d" by (rule ex_store_step [OF r])
  moreover have "drive_step d d1" unfolding d1_def by (rule drive_step.stage)
  moreover have "drive_step d1 d2"
    by (rule drive_step.store [OF s(3) _ s(2)]) (use s(1) in \<open>simp_all add: ex_second_env_def ex_second_store_def ex_second_upload_def\<close>)
  ultimately have "drive_step\<^sup>*\<^sup>* ex_fresh d2" by (meson converse_rtranclp_into_rtranclp rtranclp.rtrancl_refl)
  then show thesis using that s(4-6) by blast
qed

theorem thinning_keeps_newest_witness:
  "\<exists>d d'. drive_step\<^sup>*\<^sup>* ex_fresh d \<and> file_revision_ids 7 (dr_ledger d) = [200, 210]
     \<and> cleanup_excess ex_drive_env (Some 0) 7 d = Some (d', Inr ()) \<and> file_revision_ids 7 (dr_ledger d') = [210]"
proof -
  obtain d f where d: "drive_step\<^sup>*\<^sup>* ex_fresh d" "account_of (RS_Personal 1) (dr_accounts d) = Some (11, 100)"
    "file_revision_ids 7 (dr_ledger d) = [200, 210]" "find_key fm_id 7 (lg_files (dr_ledger d)) = Some f" "file_scope f = Some (RS_Personal 1)"
    by (rule ex_overwrite_run)
  have e: "env_apart ex_drive_env d" by (simp add: env_apart_def derived_apart_def ex_drive_env_def)
  have k: "saturating_succ (get_max_versions (Some 0)) = 1" by (simp add: saturating_succ_def get_max_versions_def u64_max_def)
  show ?thesis
    using thinning_keeps_newest [OF ex_fresh_fresh d(1,4,5,2) _ e, of "Some 0"] d(1,3) by (auto simp: k i64_max_def)
qed

end
