(* ===== verification/Drive_Requests.thy ===== *)
theory Drive_Requests
  imports Drive_Books
begin

text \<open>
  What single requests promise to their callers: an upload session publishes one file, a repeated creation of an
  empty file gets the file of the first, a purge removes what it reports and gives back the bytes it reports.
\<close>

section \<open>An upload session publishes one file\<close>

lemma complete_if_assembling_True:
  assumes "complete_if_assembling now i f t = (t', True)"
  shows "\<exists>x \<in> set t'. up_id x = i \<and> up_status x = US_Completed \<and> up_file_id x = Some f"
    "x \<in> set t' \<Longrightarrow> up_id x = i \<Longrightarrow> up_status x \<noteq> US_Assembling"
proof -
  let ?p = "\<lambda>s. up_id s = i \<and> up_status s = US_Assembling"
  let ?g = "\<lambda>s. s\<lparr>up_status := US_Completed, up_file_id := Some f, up_updated_at := now\<rparr>"
  have t': "t' = map (\<lambda>s. if ?p s then ?g s else s) t" "count_where ?p t = 1"
    using assms by (auto simp: complete_if_assembling_def exec_one_def update_where_def)
  then obtain s where s: "s \<in> set t" "?p s" using count_where_0_iff [of ?p t] by auto
  from s have "?g s \<in> set t'" unfolding t'(1) set_map by (intro image_eqI [of _ _ s]) simp_all
  moreover have "up_id (?g s) = i" "up_status (?g s) = US_Completed" "up_file_id (?g s) = Some f" using s(2) by simp_all
  ultimately show "\<exists>x \<in> set t'. up_id x = i \<and> up_status x = US_Completed \<and> up_file_id x = Some f" by blast
  show "up_status x \<noteq> US_Assembling" if "x \<in> set t'" "up_id x = i"
  proof -
    obtain s where "s \<in> set t" "x = (if ?p s then ?g s else s)" using \<open>x \<in> set t'\<close> unfolding t'(1) set_map by blast
    then show ?thesis using \<open>up_id x = i\<close> by (cases "?p s") simp_all
  qed
qed

definition not_assembling :: "string \<Rightarrow> session_table \<Rightarrow> bool" where
  "not_assembling i t = (\<forall>x \<in> set t. up_id x = i \<longrightarrow> up_status x \<noteq> US_Assembling)"

lemma complete_twice: "not_assembling i t \<Longrightarrow> complete_if_assembling now i f t = (t, False)"
  unfolding complete_if_assembling_def by (rule exec_one_no_match) (auto simp: not_assembling_def)

lemma mark_completed_iff:
  "mark_upload_session_completed now i f t = Inr t' \<longleftrightarrow> complete_if_assembling now i f t = (t', True)"
  by (auto simp: mark_upload_session_completed_def Let_def bind_result_Inr_iff split: prod.splits if_splits)

lemma finalize_Inr:
  assumes "finalize_upload_session_file we s hash sz policy path now username (d, t) = ((d1, t1), Inr f)"
  shows "complete_if_assembling (de_now (we_drive we)) (up_id s) (fm_id f) t = (t1, True)"
  using assms
  by (auto simp: finalize_upload_session_file_def Let_def case_prod_beta bind_result_Inr_iff finalize_upload_session_blob_with_actor_username_def
      mark_completed_iff split: sum.splits)

lemma finalize_refused:
  assumes "not_assembling (up_id s) t"
  shows "\<exists>e. finalize_upload_session_file we s hash sz policy path now username (d, t) = ((d, t), Inl e)"
proof (cases "finalize_upload_session_file we s hash sz policy path now username (d, t)")
  case (Pair w r)
  obtain d1 t1 where w: "w = (d1, t1)" by (cases w)
  show ?thesis
  proof (cases r)
    case (Inl e)
    then show ?thesis using Pair by (auto simp: finalize_upload_session_file_def Let_def split: sum.splits prod.splits)
  next
    case (Inr f)
    then show ?thesis using finalize_Inr [OF Pair [unfolded w Inr]] complete_twice [OF assms] by simp
  qed
qed

lemma complete_session_refused: "not_assembling i t \<Longrightarrow> complete_session now (Some i) f t = Inl publishing_conflict"
  by (simp add: complete_session_def complete_twice)

lemma store_refused:
  assumes "not_assembling i t" "sp_complete_upload_id sp = Some i"
  shows "temp_store_transaction we sx sp v (d, t) \<noteq> Inr (w, f, True)" "preuploaded_transaction we sp p (d, t) \<noteq> Inr (w, f)"
  using complete_session_refused [OF assms(1)] assms(2)
  by (auto simp: temp_store_transaction_def preuploaded_transaction_def Let_def bind_result_Inr_iff split: option.splits if_splits)

text \<open>
  (C14) An upload session publishes at most one file. Once a completion has published the file \<open>f\<close>, the session's row
  names \<open>f\<close> and is completed, and every further attempt to publish through the same session, by finalizing it again
  with whatever content or by a store that completes it, is refused; a refused finalization leaves the drive and the
  sessions as they were.
\<close>

theorem session_publishes_once:
  assumes "finalize_upload_session_file we s hash sz policy path now username (d, t) = ((d1, t1), Inr f)"
  shows "(\<exists>x \<in> set t1. up_id x = up_id s \<and> up_status x = US_Completed \<and> up_file_id x = Some (fm_id f))
    \<and> (\<forall>we' s' hash' sz' policy' path' now' username' d'. up_id s' = up_id s \<longrightarrow>
          (\<exists>e. finalize_upload_session_file we' s' hash' sz' policy' path' now' username' (d', t1) = ((d', t1), Inl e)))
    \<and> (\<forall>we' sx sp v p d' w f'. sp_complete_upload_id sp = Some (up_id s) \<longrightarrow>
          temp_store_transaction we' sx sp v (d', t1) \<noteq> Inr (w, f', True) \<and> preuploaded_transaction we' sp p (d', t1) \<noteq> Inr (w, f'))"
proof -
  note C = complete_if_assembling_True [OF finalize_Inr [OF assms]]
  have n: "not_assembling (up_id s) t1" using C(2) by (auto simp: not_assembling_def)
  have "\<exists>e. finalize_upload_session_file we' s' hash' sz' policy' path' now' username' (d', t1) = ((d', t1), Inl e)"
    if "up_id s' = up_id s" for we' s' hash' sz' policy' path' now' username' d'
    using finalize_refused [of s' t1] n that by metis
  then show ?thesis by (intro conjI C(1) allI impI store_refused [OF n])
qed

definition ex_assembling :: upload_session where
  "ex_assembling = ex_session\<lparr>up_status := US_Assembling\<rparr>"

lemma ex_finalized:
  "case finalize_upload_session_file ex_write_env ex_assembling ''h'' 5 1 ''files/u1'' 50 None (ex_staged_drive, [ex_assembling]) of
     (w, Inl e) \<Rightarrow> False
   | ((d, t), Inr f) \<Rightarrow> fm_id f = 7 \<and> map up_file_id t = [Some 7]"
  by code_simp

theorem session_publishes_once_witness:
  "\<exists>d t f e. finalize_upload_session_file ex_write_env ex_assembling ''h'' 5 1 ''files/u1'' 50 None (ex_staged_drive, [ex_assembling])
        = ((d, t), Inr f)
     \<and> finalize_upload_session_file ex_second_env ex_assembling ''h2'' 6 1 ''files/u2'' 51 None (d, t) = ((d, t), Inl e)"
proof -
  obtain d t f where r: "finalize_upload_session_file ex_write_env ex_assembling ''h'' 5 1 ''files/u1'' 50 None
      (ex_staged_drive, [ex_assembling]) = ((d, t), Inr f)"
    using ex_finalized by (auto split: prod.splits sum.splits)
  then show ?thesis using conjunct1 [OF conjunct2 [OF session_publishes_once [OF r]]] by blast
qed

section \<open>A repeated creation gets the first file\<close>

lemma complete_claim_find:
  assumes "unique_key ik_id t" "unique_key row_scope_key t" "r \<in> set t"
  shows "idempotency_find (fst (row_scope_key r)) (snd (row_scope_key r)) (complete_claim r i t) = Some (r\<lparr>ik_result_file_id := Some i\<rparr>)"
proof -
  let ?g = "\<lambda>x. if ik_id x = ik_id r then x\<lparr>ik_result_file_id := Some i\<rparr> else x"
  have k: "row_scope_key (?g x) = row_scope_key x" for x by (simp add: row_scope_key_def)
  have "find_key row_scope_key (row_scope_key r) (map ?g u) = map_option ?g (find_key row_scope_key (row_scope_key r) u)" for u
    using k by (induction u) (auto simp: find_key_def)
  moreover have "find_key row_scope_key (row_scope_key r) t = Some r" using find_key_Some_iff [OF assms(2)] assms(3) by simp
  ultimately show ?thesis by (simp add: idempotency_find_def complete_claim_def update_where_def)
qed

lemma claim_key_row:
  assumes "claim_key now new_id sc (key, fp) lg t = Inr (t1, Inr r)"
  shows "unique_key ik_id t1 \<and> unique_key row_scope_key t1 \<and> r \<in> set t1 \<and> row_scope_key r = (idempotency_scope_of sc, key)
    \<and> ik_request_fingerprint r = fp \<and> ik_expires_at r = now + FILE_CREATE_IDEMPOTENCY_RETENTION"
  using assms
  by (auto simp: claim_key_def Let_def create_claim_def case_prod_beta bind_result_Inr_iff insert_rows_def row_scope_key_def
      split: option.splits if_splits)

lemma create_empty_claims:
  assumes "create_empty_transaction we ex sc folder filename mode (Some (key, fp)) w = Inr ((d1, t2), f, False)"
  obtains r t1 where "claim_key (de_now (we_drive we)) (ex_claim_id ex) sc (key, fp) (dr_ledger (fst w)) (snd w) = Inr (t1, Inr r)"
    "t2 = complete_claim r (fm_id f) t1"
proof -
  obtain d where l: "lock_workspace_for_mutation (we_drive we) sc (fst w) = Inr d"
    using assms by (auto simp: create_empty_transaction_def Let_def bind_result_Inr_iff)
  have s: "dr_ledger d = dr_ledger (fst w)" using locking_same(1) [OF l] by (simp add: same_tables_def)
  obtain t1 x where c: "claim_key (de_now (we_drive we)) (ex_claim_id ex) sc (key, fp) (dr_ledger d) (snd w) = Inr (t1, x)"
    using assms l by (auto simp: create_empty_transaction_def Let_def bind_result_Inr_iff case_prod_beta)
  obtain r where r: "x = Inr r"
    using assms l c by (cases x) (auto simp: create_empty_transaction_def Let_def bind_result_Inr_iff)
  have "t2 = complete_claim r (fm_id f) t1"
    using assms l c r by (auto simp: create_empty_transaction_def Let_def bind_result_Inr_iff)
  then show thesis using that c r s by simp
qed

lemma create_empty_with_Inr:
  assumes "create_empty_with_idempotency we ex sc folder filename mode idem w = (w1, Inr (f, replayed))"
  obtains name d where "create_empty_transaction we ex sc folder name mode idem w = Inr ((d, snd w1), f, replayed)"
  using assms by (auto simp: create_empty_with_idempotency_def bind_result_Inr_iff split: sum.splits)

definition key_conflict :: aster_error where
  "key_conflict = Conflict (payload_new ''idempotency key was already used with a different create-empty request'')"

text \<open>
  (C26) Creating an empty file twice with one idempotency key creates one file. Within the retention of the key, a
  request that repeats the first one gets the file that the first one created, marked as replayed, and neither files,
  blobs, usage nor the recorded key change; if that file has been purged the request fails, and so does one that
  uses the key with another fingerprint, without an effect. Name, folder and mode of the repeated request do not
  matter.
\<close>

theorem create_empty_once_per_key:
  assumes "create_empty_with_idempotency we ex sc folder filename mode (Some (key, fp)) (d, t) = ((d1, t1), Inr (f, False))"
    "de_now (we_drive we') < de_now (we_drive we) + FILE_CREATE_IDEMPOTENCY_RETENTION"
    "nr_normalize_validate_name (we_names we') filename' = Inr n'"
    "lock_workspace_for_mutation (we_drive we') sc d2 = Inr d3" "lock_storage_usage sc (dr_accounts d2) = Inr ()"
  shows "same_tables d3 d2 \<and> create_empty_with_idempotency we' ex' sc folder' filename' mode' (Some (key, fp')) (d2, t1)
     = (if fp' \<noteq> fp then ((d2, t1), Inl key_conflict)
        else case find_key fm_id (fm_id f) (lg_files (dr_ledger d2)) of
          None \<Rightarrow> ((d2, t1), Inl purged_result)
        | Some f' \<Rightarrow> ((d3, t1), Inr (f', True)))"
proof -
  obtain name d' where "create_empty_transaction we ex sc folder name mode (Some (key, fp)) (d, t) = Inr ((d', t1), f, False)"
    using create_empty_with_Inr [OF assms(1)] by fastforce
  then obtain r t0 where c: "claim_key (de_now (we_drive we)) (ex_claim_id ex) sc (key, fp) (dr_ledger d) t = Inr (t0, Inr r)"
      "t1 = complete_claim r (fm_id f) t0"
    by (rule create_empty_claims) simp
  note R = claim_key_row [OF c(1)]
  have k: "idempotency_find (idempotency_scope_of sc) key t1 = Some (r\<lparr>ik_result_file_id := Some (fm_id f)\<rparr>)"
    using complete_claim_find [of t0 r "fm_id f"] R c(2) by simp
  have s: "same_tables d3 d2" by (rule locking_same(1) [OF assms(4)])
  have "claim_key (de_now (we_drive we')) (ex_claim_id ex') sc (key, fp') (dr_ledger d3) t1
      = (if fp' \<noteq> fp then Inl key_conflict
         else case find_key fm_id (fm_id f) (lg_files (dr_ledger d2)) of None \<Rightarrow> Inl purged_result | Some f' \<Rightarrow> Inr (t1, Inl f'))"
    using k R assms(2) s by (auto simp: claim_key_def Let_def key_conflict_def ok_or_def same_tables_def split: option.splits)
  then show ?thesis using s assms(3-5)
    by (auto simp: create_empty_with_idempotency_def create_empty_transaction_def Let_def same_tables_def split: option.splits)
qed

definition ex_empty_context :: empty_file_context where
  "ex_empty_context = \<lparr>ex_folder_access = Inr (), ex_policy = Inr 1, ex_claim_id = 1\<rparr>"

lemma ex_created:
  "case create_empty_with_idempotency ex_write_env ex_empty_context (WS_Personal 1) None ''e.txt'' ResolveUnique (Some (''k'', ''p'')) (ex_fresh, []) of
     (_, Inl e) \<Rightarrow> False
   | ((d, t), Inr (f, replayed)) \<Rightarrow> \<not> replayed \<and> fm_id f = 7 \<and> map fm_id (lg_files (dr_ledger d)) = [7]
       \<and> \<not> isl (lock_workspace_for_mutation ex_drive_env (WS_Personal 1) d) \<and> lock_storage_usage (WS_Personal 1) (dr_accounts d) = Inr ()
       \<and> find_key fm_id 7 (lg_files (dr_ledger d)) = Some f"
  by code_simp

theorem create_empty_once_per_key_witness:
  "\<exists>d t f d3.
     create_empty_with_idempotency ex_write_env ex_empty_context (WS_Personal 1) None ''e.txt'' ResolveUnique (Some (''k'', ''p'')) (ex_fresh, [])
       = ((d, t), Inr (f, False))
     \<and> create_empty_with_idempotency ex_write_env ex_empty_context (WS_Personal 1) None ''e.txt'' ResolveUnique (Some (''k'', ''p'')) (d, t)
       = ((d3, t), Inr (f, True))"
proof -
  obtain d t f where r: "create_empty_with_idempotency ex_write_env ex_empty_context (WS_Personal 1) None ''e.txt'' ResolveUnique
        (Some (''k'', ''p'')) (ex_fresh, []) = ((d, t), Inr (f, False))"
      "\<not> isl (lock_workspace_for_mutation ex_drive_env (WS_Personal 1) d)" "lock_storage_usage (WS_Personal 1) (dr_accounts d) = Inr ()"
      "find_key fm_id (fm_id f) (lg_files (dr_ledger d)) = Some f"
    using ex_created by (auto split: prod.splits sum.splits)
  then obtain d3 where l: "lock_workspace_for_mutation ex_drive_env (WS_Personal 1) d = Inr d3"
    by (cases "lock_workspace_for_mutation ex_drive_env (WS_Personal 1) d") auto
  have "create_empty_with_idempotency ex_write_env ex_empty_context (WS_Personal 1) None ''e.txt'' ResolveUnique (Some (''k'', ''p'')) (d, t)
      = ((d3, t), Inr (f, True))"
    using create_empty_once_per_key [OF r(1), where we' = ex_write_env and filename' = "''e.txt''" and n' = "''e.txt''" and ?d2.0 = d and ?d3.0 = d3
        and fp' = "''p''"] l r(3,4)
    by (simp add: ex_write_env_def ex_names_def FILE_CREATE_IDEMPOTENCY_RETENTION_def)
  then show ?thesis using r(1) by blast
qed

section \<open>A purge removes what it reports\<close>

lemma purge_targets_ids:
  assumes "files \<noteq> []"
  shows "fm_id ` set (purge_targets files lg) = {fm_id f | f. f \<in> set (lg_files lg) \<and> fm_id f \<in> fm_id ` set files
      \<and> \<not> (fm_deleted_at f = None \<and> (\<exists>r \<in> set files. fm_id r = fm_id f \<and> fm_deleted_at r \<noteq> None))}"
proof -
  have t: "fm_id f \<in> fm_id ` set (filter (\<lambda>f. fm_deleted_at f \<noteq> None) files) \<longleftrightarrow> (\<exists>r \<in> set files. fm_id r = fm_id f \<and> fm_deleted_at r \<noteq> None)" for f
    by (auto simp del: not_None_eq intro: rev_image_eqI)
  show ?thesis using assms unfolding purge_targets_def find_by_ids_def select_where_def t by auto
qed

lemma batch_purge_Inr:
  assumes "batch_purge_internal env e sc files emit g d = (d', Inr summary)" "files \<noteq> []" "drive_ok d" "env_apart env d"
  obtains d0 d1 p where "same_books d0 d" "dr_shares d0 = dr_shares d" "drive_ok d0" "env_apart env d0"
    "purge_files_on env e sc files d0 = Inr (d1, p)" "summary = pf_summary p"
    "same_books d' d1"
proof -
  obtain d0 d1 p where s: "enforce_guard env g sc d = Inr d0" "purge_files_on env e sc files d0 = Inr (d1, p)"
    using assms(1,2) by (auto simp: batch_purge_internal_def bind_result_Inr_iff split: sum.splits)
  have d0: "same_books d0 d" "dr_shares d0 = dr_shares d" "drive_ok d0" "env_apart env d0"
    using s(1) assms(3,4)
    by (auto simp: enforce_guard_def bind_result_Inr_iff drive_ok_def drive_pending_def env_apart_def same_books_def)
  let ?d2 = "if emit \<and> ps_purged (pf_summary p) > 0 then publish_event (with_storage_delta (- ps_freed_bytes (pf_summary p))
      (event_for_resource_scope (de_now env) FilePurged sc (ps_file_ids (pf_summary p)) [] (map fm_folder_id files))) d1 else d1"
  have f: "d' = cleanup_blobs env 0 (pf_blob_ids p) ?d2" "summary = pf_summary p"
    using assms(1,2) s by (auto simp: batch_purge_internal_def finish_purged_files_def Let_def bind_result_def)
  have "drive_ok ?d2" "env_apart env ?d2" "same_books ?d2 d1"
    using purge_files_on_keeps(1,2) [OF d0(3,4) s(2)] by (simp_all add: same_books_def)
  then have "same_books d' d1" using cleanup_blobs_keeps [of ?d2 env 0 "pf_blob_ids p"] unfolding f(1) by (simp add: same_books_def)
  then show thesis using that d0 s(2) f(2) by blast
qed

text \<open>
  (C10) A purge removes exactly the files it reports and gives back exactly the bytes it reports. In every reachable
  state: the reported files are the requested ones that still exist, without those that were in the trash when they
  were requested and have been restored since; their rows are gone and no other row is; the bytes charged to the
  workspace's live revisions and its account's usage fall by the reported number, and no other workspace's do.
\<close>

theorem purge_exact:
  assumes "fresh_drive d0" "drive_step\<^sup>*\<^sup>* d0 d" "env_apart env d" "files \<noteq> []" "account_of sc (dr_accounts d) = Some (used, quota)"
    "batch_purge_internal env e sc files emit g d = (d', Inr summary)"
  shows "set (ps_file_ids summary) = {fm_id f | f. f \<in> set (lg_files (dr_ledger d)) \<and> fm_id f \<in> fm_id ` set files
        \<and> \<not> (fm_deleted_at f = None \<and> (\<exists>r \<in> set files. fm_id r = fm_id f \<and> fm_deleted_at r \<noteq> None))}
    \<and> lg_files (dr_ledger d') = filter (\<lambda>f. fm_id f \<notin> set (ps_file_ids summary)) (lg_files (dr_ledger d))
    \<and> (\<forall>s. live_bytes d' s = live_bytes d s - (if s = sc then ps_freed_bytes summary else 0))
    \<and> account_of sc (dr_accounts d') = Some (used - ps_freed_bytes summary, quota)"
proof -
  have ok: "drive_ok d" by (rule drives.reach_inv [OF assms(2) fresh_drive_ok [OF assms(1)]])
  obtain dg d1 p where b: "same_books dg d" "drive_ok dg" "env_apart env dg" "purge_files_on env e sc files dg = Inr (d1, p)" "summary = pf_summary p"
      "same_books d' d1"
    by (rule batch_purge_Inr [OF assms(6,4) ok assms(3)])
  obtain ids freed where P: "ids = map fm_id (purge_targets files (dr_ledger dg))" "dr_ledger d1 = purged_ledger (de_now env) ids (dr_ledger dg)"
      "update_storage_used_for_resource_scope sc (- freed) (dr_accounts dg) = Inr (dr_accounts d1)" "ps_file_ids summary = ids"
    by (rule purge_files_on_Inr [OF b(4) assms(4)]) (use b(5) in force)
  note B = same_booksD [OF b(1)] and B' = same_booksD [OF b(6)]
  have l: "live_bytes d' s = live_bytes d s - (if s = sc then ps_freed_bytes summary else 0)" for s
    using purge_files_on_keeps(3) [OF b(2,3,4) assms(4), of s] B B' b(5)
    by (simp only: scope_usage_live [symmetric])
  have d': "drive_ok d'" using batch_purge_keeps [OF ok assms(3), of e sc files emit g] assms(6) by simp
  have x: "u = live_bytes x sc" if "drive_ok x" "account_of sc (dr_accounts x) = Some (u, q)" for x u q
    using drive_pendingD(5) [OF that(1) [unfolded drive_ok_def]] that(2) by (auto simp: accounts_exact_def scope_usage_live)
  have "accounts_ok (dr_accounts dg)" using drive_pendingD(5) [OF b(2) [unfolded drive_ok_def]] by (simp add: accounts_exact_def)
  note S = scope_update_refines [OF this, where sc = sc and d = "- freed", unfolded P(3)]
  obtain u where u: "account_of sc (dr_accounts d') = Some (u, quota)" using S B B' assms(5) by (auto split: if_splits)
  have "account_of sc (dr_accounts d') = Some (used - ps_freed_bytes summary, quota)"
    using u x [OF d' u] x [OF ok assms(5)] l [of sc] by simp
  moreover have "set ids = {fm_id f | f. f \<in> set (lg_files (dr_ledger d)) \<and> fm_id f \<in> fm_id ` set files
        \<and> \<not> (fm_deleted_at f = None \<and> (\<exists>r \<in> set files. fm_id r = fm_id f \<and> fm_deleted_at r \<noteq> None))}"
    using purge_targets_ids [OF assms(4), of "dr_ledger dg"] B by (simp add: P(1))
  moreover have "lg_files (dr_ledger d') = filter (\<lambda>f. fm_id f \<notin> set ids) (lg_files (dr_ledger d))"
    using B B' by (simp add: P(2) purged_ledger_tables(3))
  ultimately show ?thesis using l by (simp add: P(4))
qed

definition ex_range_error :: aster_error where
  "ex_range_error = internal_error ''out of range''"

lemma ex_purged:
  "case ex_stored of
     Inl _ \<Rightarrow> False
   | Inr ((d, _), f, _) \<Rightarrow>
       (case batch_purge_internal ex_drive_env ex_range_error (RS_Personal 1) [f] False PG_Mutation d of
          (_, Inl _) \<Rightarrow> False
        | (d', Inr s) \<Rightarrow> ps_file_ids s = [7] \<and> ps_freed_bytes s = 5)"
  by code_simp

theorem purge_exact_witness:
  "\<exists>d d' f s. drive_step\<^sup>*\<^sup>* ex_fresh d \<and> batch_purge_internal ex_drive_env ex_range_error (RS_Personal 1) [f] False PG_Mutation d = (d', Inr s)
     \<and> account_of (RS_Personal 1) (dr_accounts d) = Some (5, 100) \<and> account_of (RS_Personal 1) (dr_accounts d') = Some (0, 100)
     \<and> lg_files (dr_ledger d') = []"
proof -
  obtain d t f b where r: "ex_stored = Inr ((d, t), f, b)" "account_of (RS_Personal 1) (dr_accounts d) = Some (5, 100)"
      "map fm_id (lg_files (dr_ledger d)) = [7]"
    using ex_stored_facts by (auto split: sum.splits)
  have "drive_step ex_fresh ex_staged_drive"
    using drive_step.stage [of ex_fresh "(1, ''files/u1'')"] by (simp add: ex_staged_drive_def ex_fresh_def)
  moreover have "drive_step ex_staged_drive d" by (rule ex_store_step [OF r(1) [unfolded ex_stored_def]])
  ultimately have run: "drive_step\<^sup>*\<^sup>* ex_fresh d" by (meson converse_rtranclp_into_rtranclp rtranclp.rtrancl_refl)
  obtain d' s where p: "batch_purge_internal ex_drive_env ex_range_error (RS_Personal 1) [f] False PG_Mutation d = (d', Inr s)"
      "ps_file_ids s = [7]" "ps_freed_bytes s = 5"
    using ex_purged by (auto simp: r(1) split: prod.splits sum.splits)
  have e: "env_apart ex_drive_env d" by (simp add: env_apart_def derived_apart_def ex_drive_env_def)
  note P = purge_exact [OF ex_fresh_fresh run e _ r(2) p(1)]
  obtain x where "lg_files (dr_ledger d) = [x]" "fm_id x = 7" using r(3) by auto
  then have "lg_files (dr_ledger d') = []" "account_of (RS_Personal 1) (dr_accounts d') = Some (0, 100)" using P p(2,3) by simp_all
  then show ?thesis using run r(2) p(1) by blast
qed

text \<open>
  A purge that frees no bytes is refused while the workspace is over its quota: the usage statement is issued with a
  change of zero, and its condition then asks for \<open>used \<le> quota\<close>. After an administrator has lowered a quota below the
  usage, empty files can no longer be removed from the trash.
\<close>

lemma over_quota_purge_frees:
  assumes "purge_files_on env e sc files d = Inr (d', p)" "files \<noteq> []" "accounts_ok (dr_accounts d)"
    "account_of sc (dr_accounts d) = Some (used, quota)" "0 < quota" "quota < used"
  shows "ps_freed_bytes (pf_summary p) \<noteq> 0"
proof -
  obtain freed where P: "update_storage_used_for_resource_scope sc (- freed) (dr_accounts d) = Inr (dr_accounts d')"
      "ps_freed_bytes (pf_summary p) = freed"
    by (rule purge_files_on_Inr [OF assms(1,2)]) force
  then show ?thesis
    using scope_update_refines [OF assms(3), where sc = sc and d = "- freed"] assms(4-6) by (auto split: if_splits)
qed

text \<open>An empty file beside a file of five bytes, under a quota of three.\<close>

definition ex_lowered_quota :: "drive \<Rightarrow> drive" where
  "ex_lowered_quota d = d\<lparr>dr_accounts := \<lparr>ad_users = [\<lparr>sa_id = 1, sa_storage_used = 5, sa_storage_quota = 3, sa_archived = False\<rparr>], ad_teams = []\<rparr>\<rparr>"

lemma empty_file_not_purged_over_quota:
  "case bind_result ex_stored (\<lambda>((d, _), _, _). create_empty_transaction
       (ex_second_env\<lparr>we_file_id := 8, we_drive := (we_drive ex_second_env)\<lparr>de_ledger := (de_ledger (we_drive ex_second_env))\<lparr>
          re_history_id := (\<lambda>k. 110 + int k), re_history_uuid := (\<lambda>_. ''h2''), re_revision_uuid := (\<lambda>_. ''r2'')\<rparr>\<rparr>\<rparr>)
       ex_empty_context (WS_Personal 1) None ''e.txt'' ResolveUnique None (d, [])) of
     Inl _ \<Rightarrow> False
   | Inr ((d, _), f, _) \<Rightarrow> fm_size f = 0
       \<and> snd (purge_in_scope ex_drive_env ex_range_error (WS_Personal 1) 8 d) = Inr ()
       \<and> isl (snd (purge_in_scope ex_drive_env ex_range_error (WS_Personal 1) 8 (ex_lowered_quota d)))"
  by code_simp

end
