(* ===== verification/Folder_Table.thy ===== *)
theory Folder_Table
  imports File_Names
begin

text \<open>
  The table of folders: \<open>src/src/db/repository/folder_repo/\<close> (\<open>common.rs\<close>, \<open>query.rs\<close>, \<open>mutation.rs\<close>,
  \<open>trash.rs\<close>), the entity \<open>src/crates/aster_drive_model/src/entities/folder.rs\<close> with its unique index of live
  names, icons (\<open>src/src/services/files/folder/icon.rs\<close>) and the scope checks of folders
  (\<open>src/src/services/workspace/scope/mod.rs\<close>).

  A row extends the columns that lock checks read (\<open>folder_row\<close>). As for files, a statement that violates a
  unique key is \<open>None\<close> and its caller turns it into an error.
\<close>

section \<open>Rows and icons\<close>

record folder_model = folder_row +
  fo_name :: string
  fo_created_by_user_id :: "int option"
  fo_created_by_username :: string
  fo_modified_by_user_id :: "int option"
  fo_modified_by_username :: "string option"
  fo_modified_at :: "time option"
  fo_policy_id :: "int option"
  fo_icon_kind :: folder_icon_kind
  fo_icon_value :: "string option"
  fo_created_at :: time
  fo_updated_at :: time

type_synonym folder_table = "folder_model list"

datatype folder_builtin_icon =
    FB_Documents | FB_Images | FB_Music | FB_Videos | FB_Work | FB_Home | FB_Archive | FB_Library | FB_Database
  | FB_Calendar | FB_Ideas

definition all_builtin_icons :: "folder_builtin_icon list" where
  "all_builtin_icons =
     [FB_Documents, FB_Images, FB_Music, FB_Videos, FB_Work, FB_Home, FB_Archive, FB_Library, FB_Database, FB_Calendar,
      FB_Ideas]"

fun builtin_icon_as_str :: "folder_builtin_icon \<Rightarrow> string" where
  "builtin_icon_as_str FB_Documents = ''documents''"
| "builtin_icon_as_str FB_Images = ''images''"
| "builtin_icon_as_str FB_Music = ''music''"
| "builtin_icon_as_str FB_Videos = ''videos''"
| "builtin_icon_as_str FB_Work = ''work''"
| "builtin_icon_as_str FB_Home = ''home''"
| "builtin_icon_as_str FB_Archive = ''archive''"
| "builtin_icon_as_str FB_Library = ''library''"
| "builtin_icon_as_str FB_Database = ''database''"
| "builtin_icon_as_str FB_Calendar = ''calendar''"
| "builtin_icon_as_str FB_Ideas = ''ideas''"

definition builtin_icon_from_str :: "string \<Rightarrow> folder_builtin_icon aster_result" where
  "builtin_icon_from_str v =
     ok_or (validation_error ''unsupported folder builtin icon'') (List.find (\<lambda>k. builtin_icon_as_str k = v) all_builtin_icons)"

datatype folder_icon = FI_Default | FI_Builtin folder_builtin_icon | FI_Emoji string

definition MAX_FOLDER_EMOJI_BYTES :: nat where "MAX_FOLDER_EMOJI_BYTES = 64"

text \<open>\<open>emoji\<close> is the lookup of the \<open>emojis\<close> crate: the canonical spelling of an emoji.\<close>

definition normalize_icon :: "(string \<Rightarrow> string option) \<Rightarrow> folder_icon \<Rightarrow> (folder_icon_kind \<times> string option) aster_result" where
  "normalize_icon emoji icon =
     (case icon of
        FI_Default \<Rightarrow> Inr (IK_Default, None)
      | FI_Builtin k \<Rightarrow> Inr (IK_Builtin, Some (builtin_icon_as_str k))
      | FI_Emoji v \<Rightarrow>
          if v = [] \<or> MAX_FOLDER_EMOJI_BYTES < length v
          then Inl (validation_error ''folder emoji must be 1 to 64 UTF-8 bytes'')
          else bind_result (ok_or (validation_error ''folder emoji must be exactly one RGI emoji'') (emoji v))
                 (\<lambda>e. Inr (IK_Emoji, Some e)))"

definition from_persisted :: "(string \<Rightarrow> string option) \<Rightarrow> folder_icon_kind \<Rightarrow> string option \<Rightarrow> folder_icon aster_result" where
  "from_persisted emoji kind v =
     (case (kind, v) of
        (IK_Default, None) \<Rightarrow> Inr FI_Default
      | (IK_Builtin, Some s) \<Rightarrow> bind_result (builtin_icon_from_str s) (\<lambda>k. Inr (FI_Builtin k))
      | (IK_Emoji, Some s) \<Rightarrow>
          bind_result (normalize_icon emoji (FI_Emoji s)) (\<lambda>(_, s'). Inr (FI_Emoji (case s' of Some x \<Rightarrow> x | None \<Rightarrow> [])))
      | _ \<Rightarrow> Inl (internal_error ''folder icon kind and value violate the persistence contract''))"

definition icon_from_model :: "(string \<Rightarrow> string option) \<Rightarrow> folder_model \<Rightarrow> folder_icon" where
  "icon_from_model emoji f =
     (case from_persisted emoji (fo_icon_kind f) (fo_icon_value f) of Inr i \<Rightarrow> i | Inl _ \<Rightarrow> FI_Default)"

section \<open>Unique keys and their errors\<close>

definition folder_duplicate_name_message :: "string \<Rightarrow> string" where
  "folder_duplicate_name_message name = ''folder '' @ quoted name @ '' already exists in this location''"

definition folder_duplicate_name_error :: "string \<Rightarrow> aster_error" where
  "folder_duplicate_name_error name = validation_error_with_code ''FolderNameConflict'' (folder_duplicate_name_message name)"

definition folder_is_duplicate_name_error :: "aster_error \<Rightarrow> string \<Rightarrow> bool" where
  "folder_is_duplicate_name_error e name = (is_validation_error e \<and> raw_message e = folder_duplicate_name_message name)"

definition folder_is_any_duplicate_name_error :: "aster_error \<Rightarrow> bool" where
  "folder_is_any_duplicate_name_error e =
     (is_validation_error e \<and> prefix (''folder '' @ [CHR 0x27]) (raw_message e)
      \<and> suffix (CHR 0x27 # '' already exists in this location'') (raw_message e))"

text \<open>\<open>idx_folders_unique_live_name\<close>, as for files with the parent in place of the folder.\<close>

definition folder_name_key :: "folder_model \<Rightarrow> (int \<times> int \<times> int \<times> string) option" where
  "folder_name_key f =
     (if fo_deleted_at f \<noteq> None then None
      else map_option (\<lambda>(tag, ws). (tag, ws, case fo_parent_id f of Some i \<Rightarrow> i | None \<Rightarrow> 0, fo_name f))
        (case fo_team_id f of Some t \<Rightarrow> Some (1, t) | None \<Rightarrow> map_option (Pair 0) (fo_owner_user_id f)))"

definition folder_names_unique :: "folder_table \<Rightarrow> bool" where
  "folder_names_unique fs = distinct (List.map_filter folder_name_key fs)"

definition folder_constraints :: "folder_table \<Rightarrow> bool" where
  "folder_constraints fs = (unique_key fo_id fs \<and> folder_names_unique fs)"

definition checked_folders :: "folder_table \<Rightarrow> folder_table option" where
  "checked_folders fs = (if folder_constraints fs then Some fs else None)"

section \<open>Scopes\<close>

definition folder_scope_condition :: "workspace_resource_scope \<Rightarrow> folder_model \<Rightarrow> bool" where
  "folder_scope_condition sc f =
     (case sc of
        RS_Personal u \<Rightarrow> fo_owner_user_id f = Some u \<and> fo_team_id f = None
      | RS_Team t \<Rightarrow> fo_team_id f = Some t)"

definition folder_active_scope_condition :: "workspace_resource_scope \<Rightarrow> folder_model \<Rightarrow> bool" where
  "folder_active_scope_condition sc f = (folder_scope_condition sc f \<and> fo_deleted_at f = None)"

definition apply_parent_condition :: "(folder_model \<Rightarrow> bool) \<Rightarrow> int option \<Rightarrow> folder_model \<Rightarrow> bool" where
  "apply_parent_condition c parent f = (c f \<and> fo_parent_id f = parent)"

definition ensure_personal_folder_scope :: "folder_model \<Rightarrow> unit aster_result" where
  "ensure_personal_folder_scope f =
     (if fo_team_id f \<noteq> None then Inl (scope_denied ''folder belongs to a team workspace'') else Inr ())"

definition ensure_folder_resource_scope :: "folder_model \<Rightarrow> workspace_resource_scope \<Rightarrow> unit aster_result" where
  "ensure_folder_resource_scope f sc =
     (case sc of
        RS_Personal u \<Rightarrow>
          bind_result (ensure_personal_folder_scope f) (\<lambda>_.
          bind_result (ok_or (scope_denied ''folder has no personal owner'') (fo_owner_user_id f)) (\<lambda>owner.
          verify_owner owner u ''folder''))
      | RS_Team t \<Rightarrow>
          if fo_team_id f \<noteq> Some t then Inl (scope_denied ''folder is outside team workspace'') else Inr ())"

definition ensure_folder_scope :: "folder_model \<Rightarrow> workspace_storage_scope \<Rightarrow> unit aster_result" where
  "ensure_folder_scope f sc = ensure_folder_resource_scope f (resource_scope sc)"

definition ensure_active_folder_scope :: "folder_model \<Rightarrow> workspace_storage_scope \<Rightarrow> unit aster_result" where
  "ensure_active_folder_scope f sc =
     bind_result (ensure_folder_scope f sc) (\<lambda>_.
     if fo_deleted_at f \<noteq> None
     then Inl (FolderNotFound (payload_new (''Folder #'' @ int_to_string (fo_id f) @ '' is in trash''))) else Inr ())"

section \<open>Queries\<close>

definition folder_by_id :: "int \<Rightarrow> folder_table \<Rightarrow> folder_model aster_result" where
  "folder_by_id i fs = ok_or (record_not_found (''folder #'' @ int_to_string i)) (find_key fo_id i fs)"

definition folder_for_update :: "db_backend \<Rightarrow> int \<Rightarrow> folder_table \<Rightarrow> folder_model aster_result" where
  "folder_for_update kind i fs =
     (if kind \<in> {Postgres, MySql}
      then ok_or (FolderNotFound (payload_new (''folder #'' @ int_to_string i))) (find_key fo_id i fs)
      else folder_by_id i fs)"

definition folders_by_ids :: "int list \<Rightarrow> folder_table \<Rightarrow> folder_table" where
  "folders_by_ids ids fs = (if ids = [] then [] else select_where (\<lambda>f. fo_id f \<in> set ids) fs)"

definition folders_by_ids_in_scope :: "workspace_resource_scope \<Rightarrow> int list \<Rightarrow> folder_table \<Rightarrow> folder_table" where
  "folders_by_ids_in_scope sc ids fs =
     (if ids = [] then [] else select_where (\<lambda>f. folder_scope_condition sc f \<and> fo_id f \<in> set ids) fs)"

definition find_children_in_scope :: "workspace_resource_scope \<Rightarrow> int option \<Rightarrow> folder_table \<Rightarrow> folder_table" where
  "find_children_in_scope sc parent fs =
     sort_key fo_name (select_where (apply_parent_condition (folder_active_scope_condition sc) parent) fs)"

definition folder_page_after_id :: "(folder_model \<Rightarrow> bool) \<Rightarrow> int option \<Rightarrow> nat \<Rightarrow> folder_table \<Rightarrow> folder_table" where
  "folder_page_after_id c after limit fs =
     take limit (sort_key fo_id (select_where (\<lambda>f. c f \<and> (case after of Some a \<Rightarrow> a < fo_id f | None \<Rightarrow> True)) fs))"

definition find_children_after_id_in_scope ::
  "workspace_resource_scope \<Rightarrow> int option \<Rightarrow> int option \<Rightarrow> nat \<Rightarrow> folder_table \<Rightarrow> folder_table" where
  "find_children_after_id_in_scope sc parent after limit fs =
     (if limit = 0 then []
      else folder_page_after_id (apply_parent_condition (folder_active_scope_condition sc) parent) after limit fs)"

definition find_child_ids_after_id_in_scope ::
  "workspace_resource_scope \<Rightarrow> int \<Rightarrow> int option \<Rightarrow> bool \<Rightarrow> nat \<Rightarrow> folder_table \<Rightarrow> int list" where
  "find_child_ids_after_id_in_scope sc parent after include_deleted limit fs =
     (if limit = 0 then []
      else map fo_id (folder_page_after_id (\<lambda>f. (if include_deleted then folder_scope_condition sc f
                                                   else folder_active_scope_condition sc f)
                                                \<and> fo_parent_id f = Some parent) after limit fs))"

definition in_parents :: "int list \<Rightarrow> folder_model \<Rightarrow> bool" where
  "in_parents parents f = (fo_parent_id f \<in> Some ` set parents)"

definition find_children_in_parents_in_scope :: "workspace_resource_scope \<Rightarrow> int list \<Rightarrow> folder_table \<Rightarrow> folder_table" where
  "find_children_in_parents_in_scope sc parents fs =
     (if parents = [] then [] else select_where (\<lambda>f. folder_active_scope_condition sc f \<and> in_parents parents f) fs)"

definition find_child_ids_in_parents :: "workspace_resource_scope \<Rightarrow> int list \<Rightarrow> folder_table \<Rightarrow> int list" where
  "find_child_ids_in_parents sc parents fs =
     (if parents = [] then []
      else map fo_id (select_where (\<lambda>f. folder_active_scope_condition sc f \<and> in_parents parents f) fs))"

definition find_all_children :: "int \<Rightarrow> folder_table \<Rightarrow> folder_table" where
  "find_all_children parent fs = select_where (\<lambda>f. fo_parent_id f = Some parent) fs"

definition find_all_children_in_parents :: "int list \<Rightarrow> folder_table \<Rightarrow> folder_table" where
  "find_all_children_in_parents parents fs = (if parents = [] then [] else select_where (in_parents parents) fs)"

record folder_children_query =
  fk_parent_id :: "int option"
  fk_limit :: nat
  fk_offset :: nat
  fk_sort_by :: sort_by
  fk_sort_order :: sort_order
  fk_deleted :: bool

definition children_order :: "sort_by \<Rightarrow> folder_model \<Rightarrow> column_value" where
  "children_order sb f =
     (case sb of
        SortCreatedAt \<Rightarrow> ([], fo_created_at f)
      | SortUpdatedAt \<Rightarrow> ([], fo_updated_at f)
      | _ \<Rightarrow> (fo_name f, 0))"

definition find_children_paginated_in_scope ::
  "workspace_resource_scope \<Rightarrow> folder_children_query \<Rightarrow> folder_table \<Rightarrow> folder_table \<times> nat" where
  "find_children_paginated_in_scope sc q fs =
     (let base = select_where (apply_parent_condition
                   (\<lambda>f. folder_scope_condition sc f \<and> (fo_deleted_at f \<noteq> None \<longleftrightarrow> fk_deleted q)) (fk_parent_id q)) fs;
          asc = sort_key (\<lambda>f. (children_order (fk_sort_by q) f, fo_id f)) base in
      if length base = 0 \<or> fk_limit q = 0 then ([], length base)
      else (take (fk_limit q) (drop (fk_offset q) (if fk_sort_order q = SortAsc then asc else rev asc)), length base))"

definition find_folder_by_name ::
  "name_rules \<Rightarrow> workspace_resource_scope \<Rightarrow> int option \<Rightarrow> string \<Rightarrow> folder_table \<Rightarrow> folder_model option" where
  "find_folder_by_name nr sc parent name fs =
     (case List.find (\<lambda>f. fo_name f = name)
             (select_where (apply_parent_condition (folder_active_scope_condition sc) parent) fs) of
        Some f \<Rightarrow> Some f
      | None \<Rightarrow> List.find (\<lambda>f. normalize_name nr (fo_name f) = normalize_name nr name) (find_children_in_scope sc parent fs))"

definition lock_folder_by_name :: "workspace_resource_scope \<Rightarrow> int option \<Rightarrow> string \<Rightarrow> folder_table \<Rightarrow> folder_model option" where
  "lock_folder_by_name sc parent name fs =
     List.find (\<lambda>f. fo_name f = name) (select_where (apply_parent_condition (folder_active_scope_condition sc) parent) fs)"

definition find_folders_by_names ::
  "name_rules \<Rightarrow> workspace_resource_scope \<Rightarrow> int option \<Rightarrow> string list \<Rightarrow> folder_table \<Rightarrow> folder_table" where
  "find_folders_by_names nr sc parent names fs =
     (if names = [] then []
      else
        let query_names = add_normalization_query_variants nr names;
            normalized = normalized_non_ascii_names nr names;
            folders = select_where (\<lambda>f. apply_parent_condition (folder_active_scope_condition sc) parent f
                                        \<and> fo_name f \<in> set query_names) fs in
        if normalized = {} then folders
        else folders @ filter (\<lambda>f. fo_id f \<notin> fo_id ` set folders \<and> normalize_name nr (fo_name f) \<in> normalized)
                         (find_children_in_scope sc parent fs))"

section \<open>Inserting, moving and deleting\<close>

definition folder_initialize_attribution :: "folder_model \<Rightarrow> folder_model" where
  "folder_initialize_attribution f =
     f\<lparr>fo_modified_by_user_id := fo_created_by_user_id f, fo_modified_by_username := Some (fo_created_by_username f),
       fo_modified_at := Some (fo_created_at f)\<rparr>"

definition folder_insert :: "folder_model \<Rightarrow> folder_table \<Rightarrow> (folder_table \<times> folder_model) option" where
  "folder_insert f fs =
     map_option (\<lambda>fs'. (fs', folder_initialize_attribution f)) (checked_folders (fs @ [folder_initialize_attribution f]))"

definition folder_repo_create :: "folder_model \<Rightarrow> folder_table \<Rightarrow> (folder_table \<times> folder_model) aster_result" where
  "folder_repo_create f fs = ok_or (folder_duplicate_name_error (fo_name f)) (folder_insert f fs)"

definition create_or_find_in_scope_with_created ::
  "folder_model \<Rightarrow> workspace_resource_scope \<Rightarrow> int option \<Rightarrow> string \<Rightarrow> folder_table
   \<Rightarrow> (folder_table \<times> folder_model \<times> bool) aster_result" where
  "create_or_find_in_scope_with_created f sc parent name fs =
     (case folder_insert f fs of
        Some (fs', created) \<Rightarrow> Inr (fs', created, True)
      | None \<Rightarrow>
          bind_result (ok_or (internal_error ''folder insert conflict could not be reloaded'')
                         (lock_folder_by_name sc parent name fs)) (\<lambda>g. Inr (fs, g, False)))"

definition create_or_find_in_scope ::
  "folder_model \<Rightarrow> workspace_resource_scope \<Rightarrow> int option \<Rightarrow> string \<Rightarrow> folder_table \<Rightarrow> (folder_table \<times> folder_model) aster_result" where
  "create_or_find_in_scope f sc parent name fs =
     (case folder_insert f fs of
        Some (fs', created) \<Rightarrow> Inr (fs', created)
      | None \<Rightarrow>
          bind_result (ok_or (internal_error ''folder insert conflict could not be reloaded'')
                         (lock_folder_by_name sc parent name fs)) (\<lambda>g. Inr (fs, g)))"

definition folder_create_many :: "folder_model list \<Rightarrow> folder_table \<Rightarrow> folder_table aster_result" where
  "folder_create_many models fs =
     (if models = [] then Inr fs
      else ok_or (validation_error ''one or more folders already exist in this location'')
             (checked_folders (fs @ map folder_initialize_attribution models)))"

text \<open>\<open>ActiveModel::update\<close> writes the row back under its id.\<close>

definition folder_update :: "folder_model \<Rightarrow> folder_table \<Rightarrow> folder_table option" where
  "folder_update f fs = checked_folders (fst (update_where (\<lambda>g. fo_id g = fo_id f) (\<lambda>_. f) fs))"

definition update_icon ::
  "folder_model \<Rightarrow> folder_icon_kind \<Rightarrow> string option \<Rightarrow> time \<Rightarrow> folder_table \<Rightarrow> (folder_table \<times> folder_model) aster_result" where
  "update_icon f kind v now fs =
     (let f' = f\<lparr>fo_icon_kind := kind, fo_icon_value := v, fo_updated_at := now\<rparr> in
      bind_result (ok_or unique_violation (folder_update f' fs)) (\<lambda>fs'. Inr (fs', f')))"

definition move_many_to_parent :: "int list \<Rightarrow> int option \<Rightarrow> time \<Rightarrow> folder_table \<Rightarrow> folder_table aster_result" where
  "move_many_to_parent ids parent now fs =
     (if ids = [] then Inr fs
      else ok_or (validation_error ''one or more folders already exist in target folder'')
             (checked_folders (fst (update_where (\<lambda>f. fo_id f \<in> set ids)
                (\<lambda>f. f\<lparr>fo_parent_id := parent, fo_updated_at := now\<rparr>) fs))))"

text \<open>
  The foreign keys of \<open>parent_id\<close> and of the files' \<open>folder_id\<close> are \<open>ON DELETE SET NULL\<close>: what stays behind a
  deleted folder moves to the root of its workspace.
\<close>

definition folder_delete_many :: "int list \<Rightarrow> folder_table \<Rightarrow> folder_table aster_result" where
  "folder_delete_many ids fs =
     (if ids = [] then Inr fs
      else ok_or unique_violation (checked_folders
        (fst (update_where (in_parents ids) (\<lambda>f. f\<lparr>fo_parent_id := None\<rparr>) (fst (delete_where (\<lambda>f. fo_id f \<in> set ids) fs))))))"

definition folder_delete :: "int \<Rightarrow> folder_table \<Rightarrow> folder_table aster_result" where
  "folder_delete i fs =
     ok_or unique_violation (checked_folders
       (fst (update_where (in_parents [i]) (\<lambda>f. f\<lparr>fo_parent_id := None\<rparr>) (fst (delete_where (\<lambda>f. fo_id f = i) fs)))))"

definition detach_files :: "int list \<Rightarrow> file_table \<Rightarrow> file_table aster_result" where
  "detach_files ids tbl =
     ok_or unique_violation (checked_rows (fst (update_where (in_folders ids) (\<lambda>f. f\<lparr>fm_folder_id := None\<rparr>) tbl)))"

definition clear_policy_references :: "int \<Rightarrow> folder_table \<Rightarrow> folder_table \<times> nat" where
  "clear_policy_references policy fs = update_where (\<lambda>f. fo_policy_id f = Some policy) (\<lambda>f. f\<lparr>fo_policy_id := None\<rparr>) fs"

section \<open>The trash\<close>

definition folder_soft_delete :: "time \<Rightarrow> int \<Rightarrow> folder_table \<Rightarrow> folder_table aster_result" where
  "folder_soft_delete now i fs =
     bind_result (folder_by_id i fs) (\<lambda>_.
     Inr (fst (update_where (\<lambda>f. fo_id f = i) (\<lambda>f. f\<lparr>fo_deleted_at := Some now\<rparr>) fs)))"

definition folder_soft_delete_many :: "int list \<Rightarrow> time \<Rightarrow> folder_table \<Rightarrow> folder_table" where
  "folder_soft_delete_many ids now fs =
     (if ids = [] then fs
      else fst (update_where (\<lambda>f. fo_id f \<in> set ids) (\<lambda>f. f\<lparr>fo_deleted_at := Some now\<rparr>) fs))"

definition folder_restore :: "int \<Rightarrow> folder_table \<Rightarrow> folder_table aster_result" where
  "folder_restore i fs =
     bind_result (folder_by_id i fs) (\<lambda>f.
     ok_or (folder_duplicate_name_error (fo_name f))
       (checked_folders (fst (update_where (\<lambda>f. fo_id f = i) (\<lambda>f. f\<lparr>fo_deleted_at := None\<rparr>) fs))))"

definition folder_restore_many :: "int list \<Rightarrow> folder_table \<Rightarrow> folder_table aster_result" where
  "folder_restore_many ids fs =
     (if ids = [] then Inr fs
      else ok_or (validation_error ''one or more folders already exist in their original locations'')
             (checked_folders (fst (update_where (\<lambda>f. fo_id f \<in> set ids) (\<lambda>f. f\<lparr>fo_deleted_at := None\<rparr>) fs))))"

definition folder_deleted_time :: "folder_model \<Rightarrow> time" where
  "folder_deleted_time f = (case fo_deleted_at f of Some t \<Rightarrow> t | None \<Rightarrow> 0)"

definition folder_top_level_deleted_condition :: "workspace_resource_scope \<Rightarrow> folder_table \<Rightarrow> folder_model \<Rightarrow> bool" where
  "folder_top_level_deleted_condition sc fs f =
     (folder_scope_condition sc f \<and> fo_deleted_at f \<noteq> None
      \<and> (fo_parent_id f = None
         \<or> \<not> list_ex (\<lambda>p. Some (fo_id p) = fo_parent_id f \<and> fo_deleted_at p \<noteq> None) fs))"

definition folder_trash_order :: "folder_model \<Rightarrow> int \<times> int" where
  "folder_trash_order f = (- folder_deleted_time f, - fo_id f)"

definition folder_after_deleted :: "time \<times> int \<Rightarrow> folder_model \<Rightarrow> bool" where
  "folder_after_deleted a f =
     (case fo_deleted_at f of None \<Rightarrow> False | Some t \<Rightarrow> t < fst a \<or> t = fst a \<and> fo_id f < snd a)"

definition find_top_level_deleted_folders ::
  "workspace_resource_scope \<Rightarrow> nat \<Rightarrow> nat \<Rightarrow> folder_table \<Rightarrow> folder_table \<times> nat" where
  "find_top_level_deleted_folders sc limit offset fs =
     (let base = select_where (folder_top_level_deleted_condition sc fs) fs in
      if length base = 0 \<or> limit = 0 then ([], length base)
      else (take limit (drop offset (sort_key folder_trash_order base)), length base))"

definition find_top_level_deleted_cursor_in_scope ::
  "workspace_resource_scope \<Rightarrow> nat \<Rightarrow> (time \<times> int) option \<Rightarrow> folder_table \<Rightarrow> folder_table \<times> nat" where
  "find_top_level_deleted_cursor_in_scope sc limit after fs =
     (let base = select_where (folder_top_level_deleted_condition sc fs) fs in
      if length base = 0 \<or> limit = 0 then ([], length base)
      else (take limit (sort_key folder_trash_order
              (case after of None \<Rightarrow> base | Some a \<Rightarrow> select_where (folder_after_deleted a) base)), length base))"

definition find_deleted_folders_by_user :: "int \<Rightarrow> folder_table \<Rightarrow> folder_table" where
  "find_deleted_folders_by_user u fs =
     sort_key (\<lambda>f. - folder_deleted_time f)
       (select_where (\<lambda>f. folder_scope_condition (RS_Personal u) f \<and> fo_deleted_at f \<noteq> None) fs)"

definition find_deleted_children :: "int \<Rightarrow> folder_table \<Rightarrow> folder_table" where
  "find_deleted_children parent fs = select_where (\<lambda>f. fo_parent_id f = Some parent \<and> fo_deleted_at f \<noteq> None) fs"

definition find_expired_deleted_folders :: "time \<Rightarrow> folder_table \<Rightarrow> folder_table" where
  "find_expired_deleted_folders before fs =
     select_where (\<lambda>f. case fo_deleted_at f of Some t \<Rightarrow> t < before | None \<Rightarrow> False) fs"

definition find_all_folders_by_user :: "int \<Rightarrow> folder_table \<Rightarrow> folder_table" where
  "find_all_folders_by_user u fs = select_where (folder_scope_condition (RS_Personal u)) fs"

definition find_all_folders_by_user_paginated :: "int \<Rightarrow> int option \<Rightarrow> nat \<Rightarrow> folder_table \<Rightarrow> folder_table" where
  "find_all_folders_by_user_paginated u after limit fs =
     folder_page_after_id (folder_scope_condition (RS_Personal u)) after limit fs"

definition find_all_folders_by_team :: "int \<Rightarrow> folder_table \<Rightarrow> folder_table" where
  "find_all_folders_by_team t fs = select_where (folder_scope_condition (RS_Team t)) fs"

definition find_all_folders_by_team_paginated :: "int \<Rightarrow> int option \<Rightarrow> nat \<Rightarrow> folder_table \<Rightarrow> folder_table" where
  "find_all_folders_by_team_paginated t after limit fs =
     folder_page_after_id (folder_scope_condition (RS_Team t)) after limit fs"

end
