(* ===== verification/Folder_Tree.thy ===== *)
theory Folder_Tree
  imports Folder_Table
begin

text \<open>
  Walks over the folders: up to the root (\<open>src/src/services/files/folder/hierarchy.rs\<close>, \<open>access.rs\<close> and the chain
  of \<open>mutation.rs\<close>) and down to all descendants (\<open>tree.rs\<close>).

  The walk down remembers the folders it has seen and ends on every table. The walks up that build a path or look
  for a shared root do not; on a cycle they never end, which is the value \<open>None\<close>. \<open>forest_ok\<close> is what the
  operations on folders keep, and every walk ends on such a table.
\<close>

section \<open>The walk up to the root\<close>

definition ensure_folder_model_in_scope :: "folder_model \<Rightarrow> workspace_storage_scope \<Rightarrow> unit aster_result" where
  "ensure_folder_model_in_scope f sc = ensure_active_folder_scope f sc"

function chain_from :: "workspace_storage_scope \<Rightarrow> folder_table \<Rightarrow> int list \<Rightarrow> int option \<Rightarrow> folder_table aster_result" where
  "chain_from sc fs seen cursor =
     (case cursor of
        None \<Rightarrow> Inr []
      | Some i \<Rightarrow>
          if i \<in> set seen then Inl (validation_error ''folder hierarchy contains a cycle'')
          else (case folder_by_id i fs of
                  Inl e \<Rightarrow> Inl e
                | Inr f \<Rightarrow>
                    (case ensure_folder_model_in_scope f sc of
                       Inl e \<Rightarrow> Inl e
                     | Inr _ \<Rightarrow> bind_result (chain_from sc fs (i # seen) (fo_parent_id f)) (\<lambda>rest. Inr (f # rest)))))"
  by pat_completeness auto
termination
proof (relation "measure (\<lambda>(sc, fs, seen, cursor). card (fo_id ` set fs - set seen))", simp_all)
  fix fs :: folder_table and seen :: "int list" and i f
  assume "i \<notin> set seen" "folder_by_id i fs = Inr f"
  then have "i \<in> fo_id ` set fs - set seen" using find_key_SomeD [of fo_id i fs]
    by (auto simp: folder_by_id_def ok_or_def split: option.splits)
  moreover have "fo_id ` set fs - insert i (set seen) = fo_id ` set fs - set seen - {i}" by blast
  ultimately show "card (fo_id ` set fs - insert i (set seen)) < card (fo_id ` set fs - set seen)"
    using card_Diff1_less [of "fo_id ` set fs - set seen" i] by simp
qed

declare chain_from.simps [simp del]

definition load_folder_chain_in_scope :: "workspace_storage_scope \<Rightarrow> folder_table \<Rightarrow> int option \<Rightarrow> folder_table aster_result" where
  "load_folder_chain_in_scope sc fs start = chain_from sc fs [] start"

section \<open>The rows of several chains\<close>

fun chain_next :: "folder_table \<Rightarrow> folder_table \<Rightarrow> int list" where
  "chain_next loaded [] = []"
| "chain_next loaded (row # rows) =
     (case fo_parent_id row of
        Some p \<Rightarrow> if p \<in> fo_id ` set loaded then [] else [p]
      | None \<Rightarrow> []) @ chain_next (loaded @ [row]) rows"

function chain_map_from :: "folder_table \<Rightarrow> folder_table \<Rightarrow> int list \<Rightarrow> folder_table aster_result" where
  "chain_map_from fs loaded frontier =
     (let fr = sorted_list_of_set (set frontier - fo_id ` set loaded) in
      if fr = [] then Inr loaded
      else
        let rows = folders_by_ids fr fs in
        case List.find (\<lambda>i. i \<notin> fo_id ` set rows) fr of
          Some missing \<Rightarrow> Inl (record_not_found (''folder #'' @ int_to_string missing))
        | None \<Rightarrow> chain_map_from fs (loaded @ rows) (chain_next loaded rows))"
  by pat_completeness auto
termination
proof (relation "measure (\<lambda>(fs, loaded, frontier). card (fo_id ` set fs - fo_id ` set loaded))", simp_all)
  fix fs loaded :: folder_table and frontier
  let ?fr = "sorted_list_of_set (set frontier - fo_id ` set loaded)"
  let ?rows = "folders_by_ids ?fr fs" and ?open = "fo_id ` set fs - fo_id ` set loaded"
  assume a: "\<not> set frontier \<subseteq> fo_id ` set loaded" "List.find (\<lambda>i. i \<notin> fo_id ` set ?rows) ?fr = None"
  then obtain i where i: "i \<in> set frontier - fo_id ` set loaded" by blast
  then have "i \<in> fo_id ` set ?rows" using a(2) by (auto simp: find_None_iff)
  then have o: "i \<in> ?open" using i by (auto simp: folders_by_ids_def select_where_def split: if_splits)
  have "fo_id ` set fs - fo_id ` (set loaded \<union> set ?rows) \<subseteq> ?open - {i}" using \<open>i \<in> fo_id ` set ?rows\<close> by blast
  then have "card (fo_id ` set fs - fo_id ` (set loaded \<union> set ?rows)) \<le> card (?open - {i})" by (intro card_mono) auto
  also have "\<dots> < card ?open" using o by (intro card_Diff1_less) auto
  finally show "card (fo_id ` set fs - fo_id ` (set loaded \<union> set ?rows)) < card ?open" .
qed

declare chain_map_from.simps [simp del]

definition load_folder_chain_map :: "folder_table \<Rightarrow> int list \<Rightarrow> folder_table aster_result" where
  "load_folder_chain_map fs ids = chain_map_from fs [] ids"

record folder_path_entry =
  pe_path :: string
  pe_chain_ids :: "int list"

text \<open>\<open>while let Some(id)\<close>: names from the root down, ids from the folder up.\<close>

partial_function (option) path_parts :: "folder_table \<Rightarrow> int option \<Rightarrow> (string list \<times> int list) aster_result option" where
  "path_parts chain cursor =
     (case cursor of
        None \<Rightarrow> Some (Inr ([], []))
      | Some i \<Rightarrow>
          (case find_key fo_id i chain of
             None \<Rightarrow> Some (Inl (record_not_found (''folder #'' @ int_to_string i)))
           | Some f \<Rightarrow>
               Option.bind (path_parts chain (fo_parent_id f)) (\<lambda>r.
               Some (bind_result r (\<lambda>(parts, ids). Inr (parts @ [fo_name f], i # ids))))))"

declare path_parts.simps [code]

fun path_entries_from_chain_map :: "folder_table \<Rightarrow> int list \<Rightarrow> (int \<times> folder_path_entry) list aster_result option" where
  "path_entries_from_chain_map chain [] = Some (Inr [])"
| "path_entries_from_chain_map chain (i # ids) =
     Option.bind (path_parts chain (Some i)) (\<lambda>r.
     case r of
       Inl e \<Rightarrow> Some (Inl e)
     | Inr (parts, chain_ids) \<Rightarrow>
         map_option (\<lambda>rest. bind_result rest (\<lambda>es.
           Inr ((i, \<lparr>pe_path = ''/'' @ join_with ''/'' parts, pe_chain_ids = chain_ids\<rparr>) # es)))
           (path_entries_from_chain_map chain ids))"

definition build_folder_path_entries :: "folder_table \<Rightarrow> int list \<Rightarrow> (int \<times> folder_path_entry) list aster_result option" where
  "build_folder_path_entries fs ids =
     (case load_folder_chain_map fs ids of Inl e \<Rightarrow> Some (Inl e) | Inr chain \<Rightarrow> path_entries_from_chain_map chain ids)"

definition build_folder_paths :: "folder_table \<Rightarrow> int list \<Rightarrow> (int \<Rightarrow> string option) aster_result option" where
  "build_folder_paths fs ids =
     map_option (\<lambda>r. bind_result r (\<lambda>es. Inr (map_option pe_path \<circ> map_of es))) (build_folder_path_entries fs ids)"

partial_function (option) below_root :: "folder_table \<Rightarrow> int \<Rightarrow> int option \<Rightarrow> unit aster_result option" where
  "below_root chain root cursor =
     (case cursor of
        None \<Rightarrow> Some (Inl (auth_forbidden ''folder is outside shared folder scope''))
      | Some i \<Rightarrow>
          (case find_key fo_id i chain of
             None \<Rightarrow> Some (Inl (record_not_found (''folder #'' @ int_to_string i)))
           | Some f \<Rightarrow> if fo_parent_id f = Some root then Some (Inr ()) else below_root chain root (fo_parent_id f)))"

declare below_root.simps [code]

definition verify_folder_in_scope :: "folder_table \<Rightarrow> int \<Rightarrow> int \<Rightarrow> unit aster_result option" where
  "verify_folder_in_scope fs i root =
     (if i = root then Some (Inr ())
      else (case load_folder_chain_map fs [i] of
              Inl e \<Rightarrow> Some (Inl e)
            | Inr chain \<Rightarrow> below_root chain root (Some i)))"

section \<open>The walk down to all descendants\<close>

record folder_tree_traversal_limits =
  tl_maximum_resources :: nat
  tl_maximum_frontier :: nat
  tl_maximum_depth :: nat

definition FOLDER_TREE_FILE_PAGE_SIZE :: nat where "FOLDER_TREE_FILE_PAGE_SIZE = 512"

definition REST_FOLDER_TREE_LIMITS :: folder_tree_traversal_limits where
  "REST_FOLDER_TREE_LIMITS = \<lparr>tl_maximum_resources = 10000, tl_maximum_frontier = 2000, tl_maximum_depth = 128\<rparr>"

definition folder_tree_limit_error :: aster_error where
  "folder_tree_limit_error =
     OperationResourceLimitExceeded (payload_new ''recursive folder tree exceeds the operation resource budget'')"

definition folder_tree_shape_limit_error :: aster_error where
  "folder_tree_shape_limit_error =
     OperationResourceLimitExceeded (payload_new ''recursive folder tree exceeds the operation frontier or depth bound'')"

text \<open>Counts are \<open>usize\<close> values of 64 bits.\<close>

definition checked_add_usize :: "nat \<Rightarrow> nat \<Rightarrow> nat option" where
  "checked_add_usize a b = (if a + b \<le> u64_max then Some (a + b) else None)"

definition check_folder_tree_frontier_limits :: "folder_tree_traversal_limits option \<Rightarrow> nat \<Rightarrow> nat \<Rightarrow> unit aster_result" where
  "check_folder_tree_frontier_limits limits frontier depth =
     (case limits of
        None \<Rightarrow> Inr ()
      | Some l \<Rightarrow>
          if tl_maximum_depth l < depth \<or> tl_maximum_frontier l < frontier then Inl folder_tree_shape_limit_error else Inr ())"

definition check_folder_tree_resource_limits ::
  "folder_tree_traversal_limits option \<Rightarrow> nat \<Rightarrow> nat \<Rightarrow> nat \<Rightarrow> unit aster_result" where
  "check_folder_tree_resource_limits limits folders files additional =
     (case limits of
        None \<Rightarrow> Inr ()
      | Some l \<Rightarrow>
          (case Option.bind (checked_add_usize folders files) (\<lambda>n. checked_add_usize n additional) of
             None \<Rightarrow> Inl folder_tree_limit_error
           | Some n \<Rightarrow> if tl_maximum_resources l < n then Inl folder_tree_limit_error else Inr ()))"

definition level_page ::
  "workspace_resource_scope \<Rightarrow> bool \<Rightarrow> int list \<Rightarrow> int option \<Rightarrow> nat \<Rightarrow> file_table \<Rightarrow> file_table" where
  "level_page sc include_deleted frontier after limit tbl =
     (if include_deleted then find_all_by_folders_after_id_in_scope sc frontier after limit tbl
      else find_by_folders_after_id_in_scope sc frontier after limit tbl)"

lemma level_page_rows:
  assumes "level_page sc incl frontier after limit tbl \<noteq> []" "l = last (level_page sc incl frontier after limit tbl)"
  shows "l \<in> set tbl" "\<And>a. after = Some a \<Longrightarrow> a < fm_id l"
proof -
  have "l \<in> set (level_page sc incl frontier after limit tbl)" using assms last_in_set by metis
  then show "l \<in> set tbl" "\<And>a. after = Some a \<Longrightarrow> a < fm_id l"
    by (auto simp: level_page_def find_all_by_folders_after_id_in_scope_def find_by_folders_after_id_in_scope_def page_after_id_def
        select_where_def dest!: in_set_takeD split: if_splits)
qed

function level_pages :: "workspace_resource_scope \<Rightarrow> bool \<Rightarrow> int list \<Rightarrow> file_table \<Rightarrow> int option \<Rightarrow> file_table" where
  "level_pages sc include_deleted frontier tbl after =
     (let page = level_page sc include_deleted frontier after FOLDER_TREE_FILE_PAGE_SIZE tbl in
      if page = [] then []
      else if length page < FOLDER_TREE_FILE_PAGE_SIZE then page
      else page @ level_pages sc include_deleted frontier tbl (Some (fm_id (last page))))"
  by pat_completeness auto
termination
proof (relation "measure (\<lambda>(sc, incl, frontier, tbl, after).
    length (filter (\<lambda>f. case after of None \<Rightarrow> True | Some a \<Rightarrow> a < fm_id f) tbl))", simp, clarsimp)
  fix sc incl frontier and tbl :: file_table and after
  let ?p = "level_page sc incl frontier after FOLDER_TREE_FILE_PAGE_SIZE tbl" and ?open = "\<lambda>f. case after of None \<Rightarrow> True | Some a \<Rightarrow> a < fm_id f"
  assume "?p \<noteq> []"
  note l = level_page_rows [OF this refl]
  have "length (filter (\<lambda>f. fm_id x < fm_id f) tbl) < length (filter ?open tbl)"
    if x: "x \<in> set tbl" "\<And>a. after = Some a \<Longrightarrow> a < fm_id x" for x
  proof -
    have "filter (\<lambda>f. fm_id x < fm_id f) tbl = filter (\<lambda>f. fm_id x < fm_id f) (filter ?open tbl)"
      using x(2) by (cases after) (auto intro!: filter_cong)
    moreover have "x \<in> set (filter ?open tbl)" using x by (auto split: option.splits)
    ultimately show ?thesis using length_filter_less [of x "filter ?open tbl" "\<lambda>f. fm_id x < fm_id f"] by simp
  qed
  from this [OF l] show "length (filter (\<lambda>f. fm_id (last ?p) < fm_id f) tbl) < length (filter ?open tbl)" .
qed

declare level_pages.simps [simp del]

definition load_level_files ::
  "workspace_resource_scope \<Rightarrow> int list \<Rightarrow> bool \<Rightarrow> folder_tree_traversal_limits option \<Rightarrow> nat \<Rightarrow> nat \<Rightarrow> file_table
   \<Rightarrow> file_table aster_result" where
  "load_level_files sc frontier include_deleted limits folder_count file_count tbl =
     (case limits of
        None \<Rightarrow> Inr (level_pages sc include_deleted frontier tbl None)
      | Some l \<Rightarrow>
          bind_result (ok_or folder_tree_limit_error (checked_add_usize folder_count file_count)) (\<lambda>used.
          if tl_maximum_resources l < used then Inl folder_tree_limit_error
          else
          bind_result (ok_or folder_tree_limit_error (checked_add_usize (tl_maximum_resources l - used) 1)) (\<lambda>page_limit.
          let page = level_page sc include_deleted frontier None page_limit tbl in
          if tl_maximum_resources l - min u64_max (folder_count + file_count) < length page then Inl folder_tree_limit_error
          else Inr page)))"

definition extend_level_files ::
  "folder_tree_traversal_limits option \<Rightarrow> file_table \<Rightarrow> nat \<Rightarrow> file_table \<Rightarrow> file_table aster_result" where
  "extend_level_files limits files folder_count level_files =
     bind_result (check_folder_tree_resource_limits limits folder_count (length files) (length level_files)) (\<lambda>_.
     Inr (files @ level_files))"

definition folder_matches_scope :: "folder_model \<Rightarrow> workspace_resource_scope \<Rightarrow> bool" where
  "folder_matches_scope f sc =
     (case sc of
        RS_Personal u \<Rightarrow> fo_team_id f = None \<and> fo_owner_user_id f = Some u
      | RS_Team t \<Rightarrow> fo_team_id f = Some t)"

definition level_children :: "workspace_resource_scope \<Rightarrow> bool \<Rightarrow> folder_table \<Rightarrow> int list \<Rightarrow> int list" where
  "level_children sc include_deleted fs frontier =
     (if include_deleted
      then map fo_id (filter (\<lambda>f. folder_matches_scope f sc) (find_all_children_in_parents frontier fs))
      else map fo_id (find_children_in_parents_in_scope sc frontier fs))"

lemma level_children_ids: "set (level_children sc incl fs frontier) \<subseteq> fo_id ` set fs"
  by (auto simp: level_children_def find_all_children_in_parents_def find_children_in_parents_in_scope_def select_where_def)

text \<open>\<open>folder_ids\<close> are also the folders seen so far: the code adds a level to both.\<close>

definition collect_level ::
  "workspace_resource_scope \<Rightarrow> bool \<Rightarrow> folder_tree_traversal_limits option \<Rightarrow> file_table \<Rightarrow> file_table \<Rightarrow> int list \<Rightarrow> int list \<Rightarrow> nat
   \<Rightarrow> (file_table \<times> nat) aster_result" where
  "collect_level sc include_deleted limits tbl files folder_ids frontier depth =
     bind_result (check_folder_tree_frontier_limits limits (length frontier) depth) (\<lambda>_.
     bind_result (check_folder_tree_resource_limits limits (length folder_ids) (length files) (length frontier)) (\<lambda>_.
     let folder_count = length folder_ids + length frontier in
     bind_result (load_level_files sc frontier include_deleted limits folder_count (length files) tbl) (\<lambda>level_files.
     bind_result (extend_level_files limits files folder_count level_files) (\<lambda>files'.
     bind_result (ok_or folder_tree_shape_limit_error (checked_add_usize depth 1)) (\<lambda>depth'. Inr (files', depth'))))))"

function collect_levels ::
  "workspace_resource_scope \<Rightarrow> bool \<Rightarrow> folder_tree_traversal_limits option \<Rightarrow> folder_table \<Rightarrow> file_table
   \<Rightarrow> file_table \<Rightarrow> int list \<Rightarrow> int list \<Rightarrow> nat \<Rightarrow> (file_table \<times> int list) aster_result" where
  "collect_levels sc include_deleted limits fs tbl files folder_ids frontier depth =
     (let fr = filter (\<lambda>i. i \<notin> set folder_ids) (sorted_list_of_set (set frontier)) in
      if fr = [] then Inr (files, folder_ids)
      else
        case collect_level sc include_deleted limits tbl files folder_ids fr depth of
          Inl e \<Rightarrow> Inl e
        | Inr (files', depth') \<Rightarrow>
            collect_levels sc include_deleted limits fs tbl files' (folder_ids @ fr)
              (level_children sc include_deleted fs fr) depth')"
  by pat_completeness auto
termination
proof (relation "measure (\<lambda>(sc, incl, limits, fs, tbl, files, ids, frontier, depth). card ((set frontier \<union> fo_id ` set fs) - set ids))", simp, clarsimp)
  fix sc incl and fs :: folder_table and ids frontier :: "int list"
  let ?fr = "filter (\<lambda>i. i \<notin> set ids) (sorted_list_of_set (set frontier))"
  let ?next = "set (level_children sc incl fs ?fr)" and ?open = "set frontier \<union> fo_id ` set fs - set ids"
  assume "?fr \<noteq> []"
  then obtain i where i: "i \<in> set ?fr" by (cases ?fr) auto
  then have "?next \<union> fo_id ` set fs - (set ids \<union> {i. i \<in> set frontier \<and> i \<notin> set ids}) \<subseteq> ?open - {i}"
    using level_children_ids [of sc incl fs ?fr] by auto
  then have "card (?next \<union> fo_id ` set fs - (set ids \<union> {i. i \<in> set frontier \<and> i \<notin> set ids})) \<le> card (?open - {i})" by (intro card_mono) auto
  also have "\<dots> < card ?open" using i by (intro card_Diff1_less) auto
  finally show "card (?next \<union> fo_id ` set fs - (set ids \<union> {i. i \<in> set frontier \<and> i \<notin> set ids})) < card ?open" .
qed

declare collect_levels.simps [simp del]

definition collect_folder_forest_in_resource_scope ::
  "workspace_resource_scope \<Rightarrow> int list \<Rightarrow> bool \<Rightarrow> folder_tree_traversal_limits option \<Rightarrow> folder_table \<Rightarrow> file_table
   \<Rightarrow> (file_table \<times> int list) aster_result" where
  "collect_folder_forest_in_resource_scope sc roots include_deleted limits fs tbl =
     (if roots = [] then Inr ([], []) else collect_levels sc include_deleted limits fs tbl [] [] roots 0)"

definition collect_folder_tree_in_scope ::
  "workspace_storage_scope \<Rightarrow> int \<Rightarrow> bool \<Rightarrow> folder_tree_traversal_limits option \<Rightarrow> folder_table \<Rightarrow> file_table
   \<Rightarrow> (file_table \<times> int list) aster_result" where
  "collect_folder_tree_in_scope sc i include_deleted limits fs tbl =
     collect_folder_forest_in_resource_scope (resource_scope sc) [i] include_deleted limits fs tbl"

end
