(* ===== verification/Folder_Forest.thy ===== *)
theory Folder_Forest
  imports Folder_Tree
begin

text \<open>
  What the walks over folders compute. \<open>forest_ok\<close> is the invariant of the table of folders; on a table with
  it the walks up end and agree with the parent pointers. The walk down is exact on every table.
\<close>

section \<open>The forest\<close>

definition folder_ws :: "folder_model \<Rightarrow> workspace_resource_scope option" where
  "folder_ws f = (case fo_team_id f of Some t \<Rightarrow> Some (RS_Team t) | None \<Rightarrow> map_option RS_Personal (fo_owner_user_id f))"

definition parent_edges :: "folder_table \<Rightarrow> (int \<times> int) set" where
  "parent_edges fs = {(fo_id f, p) | f p. f \<in> set fs \<and> fo_parent_id f = Some p}"

definition parents_ok :: "folder_table \<Rightarrow> bool" where
  "parents_ok fs =
     (\<forall>f \<in> set fs. folder_ws f \<noteq> None
        \<and> (\<forall>p. fo_parent_id f = Some p \<longrightarrow>
              (\<exists>g \<in> set fs. fo_id g = p \<and> folder_ws g = folder_ws f \<and> (fo_deleted_at f = None \<longrightarrow> fo_deleted_at g = None))))"

definition forest_ok :: "folder_table \<Rightarrow> bool" where
  "forest_ok fs = (folder_constraints fs \<and> parents_ok fs \<and> acyclic (parent_edges fs))"

lemma forest_okD:
  assumes "forest_ok fs"
  shows "unique_key fo_id fs" "folder_names_unique fs" "acyclic (parent_edges fs)"
    and "\<And>f. f \<in> set fs \<Longrightarrow> folder_ws f \<noteq> None"
    and "\<And>f p. f \<in> set fs \<Longrightarrow> fo_parent_id f = Some p \<Longrightarrow>
           \<exists>g \<in> set fs. fo_id g = p \<and> folder_ws g = folder_ws f \<and> (fo_deleted_at f = None \<longrightarrow> fo_deleted_at g = None)"
  using assms by (auto simp: forest_ok_def folder_constraints_def parents_ok_def)

lemma finite_parent_edges: "finite (parent_edges fs)"
proof (rule finite_subset)
  show "parent_edges fs \<subseteq> (\<lambda>f. (fo_id f, the (fo_parent_id f))) ` set fs" by (force simp: parent_edges_def)
qed simp

lemma wf_parents: "forest_ok fs \<Longrightarrow> wf ((parent_edges fs)\<inverse>)"
  using finite_acyclic_wf_converse [OF finite_parent_edges] by (simp add: forest_ok_def)

lemma parent_edge: "unique_key fo_id fs \<Longrightarrow> f \<in> set fs \<Longrightarrow> (fo_id f, p) \<in> parent_edges fs \<longleftrightarrow> fo_parent_id f = Some p"
  by (auto simp: parent_edges_def dest: unique_key_inj)

text \<open>Induction from the root down.\<close>

lemma forest_induct [consumes 2, case_names folder]:
  assumes "forest_ok fs" "f \<in> set fs"
    and "\<And>f. f \<in> set fs \<Longrightarrow> (\<And>g. g \<in> set fs \<Longrightarrow> fo_parent_id f = Some (fo_id g) \<Longrightarrow> P g) \<Longrightarrow> P f"
  shows "P f"
proof -
  have "\<forall>f \<in> set fs. fo_id f = i \<longrightarrow> P f" for i
    using wf_parents [OF assms(1)]
  proof (induction i rule: wf_induct_rule)
    case (less i)
    show ?case
    proof (intro ballI impI)
      fix f assume f: "f \<in> set fs" "fo_id f = i"
      have "P g" if "g \<in> set fs" "fo_parent_id f = Some (fo_id g)" for g
      proof -
        have "(fo_id g, i) \<in> (parent_edges fs)\<inverse>" using f that by (auto simp: parent_edges_def)
        then show ?thesis using less.IH that(1) by blast
      qed
      then show "P f" using assms(3) f(1) by blast
    qed
  qed
  then show ?thesis using assms(2) by blast
qed

section \<open>Scope checks\<close>

lemma folder_scope_checks:
  "ensure_folder_resource_scope f sc = Inr u \<longleftrightarrow> folder_ws f = Some sc"
  "folder_scope_condition sc f \<longleftrightarrow> folder_ws f = Some sc"
  "folder_matches_scope f sc \<longleftrightarrow> folder_ws f = Some sc"
  by (auto simp: ensure_folder_resource_scope_def ensure_personal_folder_scope_def folder_ws_def ok_or_def verify_owner_def
      folder_scope_condition_def folder_matches_scope_def split: workspace_resource_scope.splits option.splits)

lemma folder_active_checks:
  "ensure_folder_scope f ws = Inr u \<longleftrightarrow> folder_ws f = Some (resource_scope ws)"
  "ensure_active_folder_scope f ws = Inr u \<longleftrightarrow> folder_ws f = Some (resource_scope ws) \<and> fo_deleted_at f = None"
  "ensure_folder_model_in_scope f ws = Inr u \<longleftrightarrow> folder_ws f = Some (resource_scope ws) \<and> fo_deleted_at f = None"
  "folder_active_scope_condition sc f \<longleftrightarrow> folder_ws f = Some sc \<and> fo_deleted_at f = None"
  by (auto simp: ensure_folder_scope_def ensure_active_folder_scope_def ensure_folder_model_in_scope_def
      folder_active_scope_condition_def bind_result_Inr_iff folder_scope_checks)

lemma folder_by_id_Inr: "folder_by_id i fs = Inr f \<longleftrightarrow> find_key fo_id i fs = Some f"
  by (auto simp: folder_by_id_def ok_or_def split: option.splits)

section \<open>The walk down\<close>

definition child_edges :: "workspace_resource_scope \<Rightarrow> bool \<Rightarrow> folder_table \<Rightarrow> (int \<times> int) set" where
  "child_edges sc include_deleted fs =
     {(p, fo_id f) | f p. f \<in> set fs \<and> fo_parent_id f = Some p \<and> folder_ws f = Some sc
        \<and> (include_deleted \<or> fo_deleted_at f = None)}"

definition files_below :: "workspace_resource_scope \<Rightarrow> bool \<Rightarrow> int set \<Rightarrow> file_table \<Rightarrow> file_model set" where
  "files_below sc include_deleted folders tbl =
     {f \<in> set tbl. scope_condition sc f \<and> (include_deleted \<or> fm_deleted_at f = None) \<and> fm_folder_id f \<in> Some ` folders}"

lemma level_children_set: "set (level_children sc incl fs fr) = child_edges sc incl fs `` set fr"
  by (force simp: level_children_def find_all_children_in_parents_def find_children_in_parents_in_scope_def select_where_def
      child_edges_def in_parents_def folder_scope_checks folder_active_checks split: if_splits)

definition level_condition :: "workspace_resource_scope \<Rightarrow> bool \<Rightarrow> int list \<Rightarrow> file_model \<Rightarrow> bool" where
  "level_condition sc incl fr f =
     ((if incl then scope_condition sc f else active_scope_condition sc f) \<and> in_folders fr f)"

lemma level_page_eq: "fr \<noteq> [] \<Longrightarrow> 0 < limit \<Longrightarrow> level_page sc incl fr after limit tbl = page_after_id (level_condition sc incl fr) after limit tbl"
  unfolding level_condition_def [abs_def]
  by (simp add: level_page_def find_all_by_folders_after_id_in_scope_def find_by_folders_after_id_in_scope_def)

lemma level_pages_rest:
  assumes "unique_key fm_id tbl" "fr \<noteq> []" "sort_key fm_id (select_where (level_condition sc incl fr) tbl) = xs @ ys"
    and "level_page sc incl fr after FOLDER_TREE_FILE_PAGE_SIZE tbl = take FOLDER_TREE_FILE_PAGE_SIZE ys"
  shows "level_pages sc incl fr tbl after = ys"
  using assms(3,4)
proof (induction "length ys" arbitrary: after xs ys rule: less_induct)
  case less
  let ?n = FOLDER_TREE_FILE_PAGE_SIZE
  have n: "0 < ?n" by (simp add: FOLDER_TREE_FILE_PAGE_SIZE_def)
  let ?p = "take ?n ys" and ?zs = "drop ?n ys"
  show ?case
  proof (cases "?p = [] \<or> length ?p < ?n")
    case True
    then show ?thesis using n less.prems(2) by (subst level_pages.simps) (auto simp: Let_def)
  next
    case False
    then have "butlast ?p @ last ?p # ?zs = ys"
      using append_take_drop_id [of ?n ys] append_butlast_last_id [of ?p] by (metis append.assoc append_Cons append_Nil)
    then have o: "sort_key fm_id (select_where (level_condition sc incl fr) tbl) = (xs @ butlast ?p) @ last ?p # ?zs"
      unfolding less.prems(1) by (simp only: append.assoc)
    have "page_after_id (level_condition sc incl fr) (Some (fm_id (last ?p))) ?n tbl = take ?n ?zs"
      using id_pages.next_page [OF conjI [OF assms(1) n] o] by simp
    then have p: "level_page sc incl fr (Some (fm_id (last ?p))) ?n tbl = take ?n ?zs" using level_page_eq [OF assms(2) n] by simp
    have "level_pages sc incl fr tbl (Some (fm_id (last ?p))) = ?zs"
      by (rule less.hyps [OF _ _ p, of "xs @ ?p"]) (use False n less.prems(1) in auto)
    then show ?thesis using False less.prems(2) append_take_drop_id [of ?n ys] by (subst level_pages.simps) (auto simp: Let_def)
  qed
qed

lemma level_pages_all:
  assumes "unique_key fm_id tbl" "fr \<noteq> []"
  shows "level_pages sc incl fr tbl None = sort_key fm_id (select_where (level_condition sc incl fr) tbl)"
  by (rule level_pages_rest [OF assms, where xs = "[]"])
    (simp_all add: level_page_eq [OF assms(2)] FOLDER_TREE_FILE_PAGE_SIZE_def page_after_id_def)

definition level_files :: "workspace_resource_scope \<Rightarrow> bool \<Rightarrow> int list \<Rightarrow> file_table \<Rightarrow> file_table" where
  "level_files sc incl fr tbl = sort_key fm_id (select_where (level_condition sc incl fr) tbl)"

lemma level_files_facts:
  "set (level_files sc incl fr tbl) = files_below sc incl (set fr) tbl"
  "unique_key fm_id tbl \<Longrightarrow> distinct (level_files sc incl fr tbl)"
proof -
  show "set (level_files sc incl fr tbl) = files_below sc incl (set fr) tbl"
    by (auto simp: level_files_def select_where_def level_condition_def files_below_def active_scope_condition_def in_folders_def)
  assume "unique_key fm_id tbl"
  then have "distinct tbl" by (simp add: unique_key_def distinct_map)
  then show "distinct (level_files sc incl fr tbl)" by (simp add: level_files_def select_where_def)
qed

text \<open>A level that passes the limits loads the same files as one without limits.\<close>

lemma load_level_Inr:
  assumes "unique_key fm_id tbl" "fr \<noteq> []" "load_level_files sc fr incl limits folders files tbl = Inr lf"
  shows "lf = level_files sc incl fr tbl"
proof (cases limits)
  case None
  then show ?thesis using assms level_pages_all [OF assms(1,2)] by (simp add: load_level_files_def level_files_def)
next
  case (Some l)
  let ?used = "folders + files" and ?all = "level_files sc incl fr tbl"
  have u: "?used \<le> u64_max" "?used \<le> tl_maximum_resources l" and lf: "lf = level_page sc incl fr None (Suc (tl_maximum_resources l - ?used)) tbl"
    "length lf \<le> tl_maximum_resources l - ?used"
    using assms(3) Some
    by (auto simp: load_level_files_def bind_result_Inr_iff ok_or_def checked_add_usize_def Let_def split: if_splits option.splits)
  have "lf = take (Suc (tl_maximum_resources l - ?used)) ?all"
    using lf(1) level_page_eq [OF assms(2), of "Suc (tl_maximum_resources l - ?used)" sc incl None tbl]
    by (simp add: page_after_id_def level_files_def)
  then show ?thesis using lf(2) by (cases "length ?all \<le> tl_maximum_resources l - ?used") simp_all
qed

lemma collect_level_Inr:
  assumes "unique_key fm_id tbl" "fr \<noteq> []" "collect_level sc incl limits tbl files ids fr depth = Inr (files', depth')"
  shows "files' = files @ level_files sc incl fr tbl" "depth' = Suc depth"
    "limits = Some l \<Longrightarrow> length ids + length fr + length files' \<le> tl_maximum_resources l"
proof -
  obtain lf where lf: "load_level_files sc fr incl limits (length ids + length fr) (length files) tbl = Inr lf"
      "extend_level_files limits files (length ids + length fr) lf = Inr files'" "checked_add_usize depth 1 = Some depth'"
    using assms(3) by (auto simp: collect_level_def bind_result_Inr_iff Let_def ok_or_def split: option.splits)
  then show "files' = files @ level_files sc incl fr tbl" "depth' = Suc depth"
    using load_level_Inr [OF assms(1,2) lf(1)] by (auto simp: extend_level_files_def bind_result_Inr_iff checked_add_usize_def split: if_splits)
  show "length ids + length fr + length files' \<le> tl_maximum_resources l" if "limits = Some l"
    using lf(2) that
    by (auto simp: extend_level_files_def check_folder_tree_resource_limits_def bind_result_Inr_iff checked_add_usize_def split: if_splits)
qed

lemma collect_level_unlimited:
  assumes "unique_key fm_id tbl" "fr \<noteq> []" "depth < u64_max"
  shows "collect_level sc incl None tbl files ids fr depth = Inr (files @ level_files sc incl fr tbl, Suc depth)"
  using assms level_pages_all [OF assms(1,2)]
  by (simp add: collect_level_def check_folder_tree_frontier_limits_def check_folder_tree_resource_limits_def load_level_files_def
      extend_level_files_def ok_or_def checked_add_usize_def level_files_def)

lemma collect_levels_step:
  assumes "fr = filter (\<lambda>i. i \<notin> set ids) (sorted_list_of_set (set frontier))"
  shows "collect_levels sc incl limits fs tbl files ids frontier depth =
    (if fr = [] then Inr (files, ids)
     else bind_result (collect_level sc incl limits tbl files ids fr depth) (\<lambda>(files', depth').
       collect_levels sc incl limits fs tbl files' (ids @ fr) (level_children sc incl fs fr) depth'))"
  unfolding assms by (subst collect_levels.simps) (simp add: Let_def bind_result_def)

lemma rtrancl_closed: "E `` S \<subseteq> S \<Longrightarrow> E\<^sup>* `` S = S"
  by (rule Image_closed_trancl)

text \<open>The walk visits what can be reached from what it has and what it is about to visit.\<close>

lemma collect_levels_reach:
  assumes "unique_key fm_id tbl" "collect_levels sc incl limits fs tbl files ids frontier depth = Inr (files', ids')"
    and "child_edges sc incl fs `` set ids \<subseteq> set ids \<union> set frontier" "distinct ids"
    and "set files = files_below sc incl (set ids) tbl" "distinct files"
  shows "set ids' = (child_edges sc incl fs)\<^sup>* `` (set ids \<union> set frontier) \<and> distinct ids'
    \<and> set files' = files_below sc incl (set ids') tbl \<and> distinct files'"
  using assms
proof (induction sc incl limits fs tbl files ids frontier depth rule: collect_levels.induct [case_names loop])
  case (loop sc incl limits fs tbl files ids frontier depth)
  let ?E = "child_edges sc incl fs" and ?fr = "filter (\<lambda>i. i \<notin> set ids) (sorted_list_of_set (set frontier))"
  note step = collect_levels_step [OF refl, of sc incl limits fs tbl files ids frontier depth]
  have sub: "set ids \<union> set ?fr = set ids \<union> set frontier" by auto
  show ?case
  proof (cases "?fr = []")
    case True
    then have "set frontier \<subseteq> set ids" by (auto simp: filter_empty_conv)
    then show ?thesis using loop.prems step True rtrancl_closed [of ?E "set ids"] by (simp add: Un_absorb2)
  next
    case False
    obtain f1 d1 where l: "collect_level sc incl limits tbl files ids ?fr depth = Inr (f1, d1)"
        "collect_levels sc incl limits fs tbl f1 (ids @ ?fr) (level_children sc incl fs ?fr) d1 = Inr (files', ids')"
      using loop.prems(2) step False by (auto simp: bind_result_Inr_iff)
    note f1 = collect_level_Inr(1) [OF loop.prems(1) False l(1)]
    have fb: "files_below sc incl (set ids) tbl \<inter> files_below sc incl (set ?fr) tbl = {}" by (auto simp: files_below_def)
    have dj: "distinct (ids @ ?fr)" using loop.prems(4) by auto
    have "?E `` (set ids \<union> set ?fr) \<subseteq> set ids \<union> set ?fr \<union> ?E `` set ?fr" using loop.prems(3) sub by auto
    then have cl: "?E `` set (ids @ ?fr) \<subseteq> set (ids @ ?fr) \<union> set (level_children sc incl fs ?fr)" by (simp only: set_append level_children_set)
    have sf: "set f1 = files_below sc incl (set (ids @ ?fr)) tbl" unfolding f1
      using loop.prems(5) level_files_facts(1) [of sc incl ?fr tbl] by (auto simp: files_below_def)
    have df: "distinct f1" unfolding f1 using loop.prems(5,6) level_files_facts(1) [of sc incl ?fr tbl] level_files_facts(2) [OF loop.prems(1)] fb by simp
    note IH = loop.IH [OF refl False l(1) refl loop.prems(1) l(2) cl dj sf df]
    have "?E\<^sup>* `` (set (ids @ ?fr) \<union> set (level_children sc incl fs ?fr)) = ?E\<^sup>* `` (set ids \<union> set frontier)"
      unfolding level_children_set set_append sub by (auto intro: converse_rtrancl_into_rtrancl)
    then show ?thesis using IH by simp
  qed
qed

lemma collect_levels_longer:
  assumes "unique_key fm_id tbl" "collect_levels sc incl limits fs tbl files ids frontier depth = Inr (files', ids')"
  shows "length files \<le> length files'" "length ids \<le> length ids'"
proof -
  have "length files \<le> length files' \<and> length ids \<le> length ids'"
    using assms
  proof (induction sc incl limits fs tbl files ids frontier depth rule: collect_levels.induct [case_names loop])
    case (loop sc incl limits fs tbl files ids frontier depth)
    let ?fr = "filter (\<lambda>i. i \<notin> set ids) (sorted_list_of_set (set frontier))"
    note step = collect_levels_step [OF refl, of sc incl limits fs tbl files ids frontier depth]
    show ?case
    proof (cases "?fr = []")
      case False
      obtain f1 d1 where l: "collect_level sc incl limits tbl files ids ?fr depth = Inr (f1, d1)"
          "collect_levels sc incl limits fs tbl f1 (ids @ ?fr) (level_children sc incl fs ?fr) d1 = Inr (files', ids')"
        using loop.prems(2) step False by (auto simp: bind_result_Inr_iff)
      from loop.IH [OF refl False l(1) refl loop.prems(1) l(2)]
      show ?thesis using collect_level_Inr(1) [OF loop.prems(1) False l(1)] by simp
    qed (use loop.prems(2) step in simp)
  qed
  then show "length files \<le> length files'" "length ids \<le> length ids'" by simp_all
qed

lemma collect_level_Inl:
  assumes "unique_key fm_id tbl" "fr \<noteq> []" "tl_maximum_resources l \<le> u64_max" "depth < u64_max"
    and "collect_level sc incl (Some l) tbl files ids fr depth = Inl e"
  shows "e = folder_tree_shape_limit_error
    \<or> e = folder_tree_limit_error \<and> tl_maximum_resources l < length (files @ level_files sc incl fr tbl) + length (ids @ fr)"
proof (rule ccontr)
  let ?m = "tl_maximum_resources l" and ?all = "level_files sc incl fr tbl" and ?used = "length ids + length fr + length files"
  assume n: "\<not> ?thesis"
  have pos: "0 < length fr" using assms(2) by simp
  have e: "e = folder_tree_shape_limit_error \<or> e = folder_tree_limit_error"
    using assms(5)
    by (auto simp: collect_level_def check_folder_tree_frontier_limits_def check_folder_tree_resource_limits_def load_level_files_def
        extend_level_files_def ok_or_def bind_result_def Let_def split: option.splits sum.splits if_splits)
  then have fit: "?used + length ?all \<le> ?m" using n by auto
  then have page: "level_page sc incl fr None (Suc (?m - ?used)) tbl = ?all"
    using level_page_eq [OF assms(2), of "Suc (?m - ?used)" sc incl None tbl] by (simp add: page_after_id_def level_files_def)
  have "load_level_files sc fr incl (Some l) (length ids + length fr) (length files) tbl = Inr ?all"
  proof -
    have "?used \<le> u64_max" "?used \<le> ?m" "Suc (?m - ?used) \<le> u64_max" "length ?all \<le> ?m - ?used" "min u64_max ?used = ?used"
      using fit pos assms(3) by linarith+
    then show ?thesis by (simp add: load_level_files_def ok_or_def checked_add_usize_def page Let_def)
  qed
  then have "e = folder_tree_shape_limit_error"
    using assms(3-5) fit
    by (auto simp: collect_level_def check_folder_tree_frontier_limits_def check_folder_tree_resource_limits_def
        extend_level_files_def ok_or_def Let_def checked_add_usize_def split: if_splits)
  then show False using n by simp
qed

lemma collect_levels_unlimited:
  assumes "unique_key fm_id tbl" "finite S" "card S \<le> u64_max" "set frontier \<union> fo_id ` set fs \<union> set ids \<subseteq> S"
    and "distinct ids" "depth \<le> length ids"
  shows "\<exists>r. collect_levels sc incl None fs tbl files ids frontier depth = Inr r"
  using assms
proof (induction sc incl "None :: folder_tree_traversal_limits option" fs tbl files ids frontier depth
    rule: collect_levels.induct [case_names loop])
  case (loop sc incl fs tbl files ids frontier depth)
  let ?fr = "filter (\<lambda>i. i \<notin> set ids) (sorted_list_of_set (set frontier))"
  note step = collect_levels_step [OF refl, of sc incl None fs tbl files ids frontier depth]
  show ?case
  proof (cases "?fr = []")
    case False
    then have pos: "1 \<le> length ?fr" by (cases ?fr) auto
    have dj: "distinct (ids @ ?fr)" using loop.prems(5) by auto
    have sub: "set (ids @ ?fr) \<subseteq> S" using loop.prems(4) by auto
    then have "length (ids @ ?fr) \<le> u64_max" using distinct_card [OF dj] card_mono [OF loop.prems(2) sub] loop.prems(3) by simp
    then have d: "depth < u64_max" "Suc depth \<le> length (ids @ ?fr)" using pos loop.prems(6) by simp_all
    note l = collect_level_unlimited [OF loop.prems(1) False d(1), of sc incl files ids]
    have "set (level_children sc incl fs ?fr) \<union> fo_id ` set fs \<union> set (ids @ ?fr) \<subseteq> S"
      using loop.prems(4) sub level_children_ids [of sc incl fs ?fr] by blast
    from loop.hyps [OF refl False l refl loop.prems(1-3) this dj d(2)]
    show ?thesis using step False l by simp
  qed (use step in simp)
qed

lemma collect_levels_limited:
  assumes "unique_key fm_id tbl" "collect_levels sc incl None fs tbl files ids frontier depth = Inr (files', ids')"
    and "tl_maximum_resources l \<le> u64_max" "length files + length ids \<le> tl_maximum_resources l"
  shows "case collect_levels sc incl (Some l) fs tbl files ids frontier depth of
      Inr r \<Rightarrow> r = (files', ids') \<and> length files' + length ids' \<le> tl_maximum_resources l
    | Inl e \<Rightarrow> e = folder_tree_shape_limit_error \<or> e = folder_tree_limit_error \<and> tl_maximum_resources l < length files' + length ids'"
  using assms
proof (induction sc incl "None :: folder_tree_traversal_limits option" fs tbl files ids frontier depth
    rule: collect_levels.induct [case_names loop])
  case (loop sc incl fs tbl files ids frontier depth)
  let ?fr = "filter (\<lambda>i. i \<notin> set ids) (sorted_list_of_set (set frontier))" and ?m = "tl_maximum_resources l"
  note step = collect_levels_step [OF refl, of sc incl _ fs tbl files ids frontier depth]
  show ?case
  proof (cases "?fr = []")
    case True
    then show ?thesis using loop.prems step by simp
  next
    case False
    let ?lf = "level_files sc incl ?fr tbl"
    have d: "depth < u64_max"
      using loop.prems(2) step [of None] False
      by (auto simp: bind_result_Inr_iff collect_level_def ok_or_def checked_add_usize_def Let_def split: option.splits if_splits)
    note l = collect_level_unlimited [OF loop.prems(1) False d, of sc incl files ids]
    have r: "collect_levels sc incl None fs tbl (files @ ?lf) (ids @ ?fr) (level_children sc incl fs ?fr) (Suc depth) = Inr (files', ids')"
      using loop.prems(2) step [of None] False l by simp
    note longer = collect_levels_longer [OF loop.prems(1) r]
    show ?thesis
    proof (cases "collect_level sc incl (Some l) tbl files ids ?fr depth")
      case (Inl e)
      then show ?thesis using step [of "Some l"] False longer loop.prems(3) collect_level_Inl [OF loop.prems(1) False _ d Inl] by auto
    next
      case (Inr x)
      obtain f1 d1 where x: "x = (f1, d1)" by (cases x)
      note C = collect_level_Inr [OF loop.prems(1) False Inr [unfolded x]]
      have "length (files @ ?lf) + length (ids @ ?fr) \<le> ?m" using C(3) [OF refl] C(1) by simp
      from loop.hyps [OF refl False l refl loop.prems(1) r loop.prems(3) this]
      show ?thesis using step [of "Some l"] False Inr x C(1,2) by simp
    qed
  qed
qed


text \<open>Two folders that are each other's parent: no operation makes them, and still the walk ends.\<close>

definition ex_row :: "int \<Rightarrow> int option \<Rightarrow> folder_model" where
  "ex_row i parent =
     \<lparr>fo_id = i, fo_parent_id = parent, fo_team_id = None, fo_owner_user_id = Some 1, fo_deleted_at = None, fo_name = ''f'',
      fo_created_by_user_id = Some 1, fo_created_by_username = ''ann'', fo_modified_by_user_id = None,
      fo_modified_by_username = None, fo_modified_at = None, fo_policy_id = None, fo_icon_kind = IK_Default,
      fo_icon_value = None, fo_created_at = 0, fo_updated_at = 0\<rparr>"


section \<open>The walks up\<close>

lemma chain_from_Inr:
  assumes "chain_from sc fs seen cursor = Inr chain"
  shows "set chain \<subseteq> set fs" "\<And>g. g \<in> set chain \<Longrightarrow> folder_ws g = Some (resource_scope sc) \<and> fo_deleted_at g = None"
    and "\<And>i. cursor = Some i \<Longrightarrow> i \<in> fo_id ` set chain"
    and "\<And>g p. g \<in> set chain \<Longrightarrow> fo_parent_id g = Some p \<Longrightarrow> p \<in> fo_id ` set chain"
proof -
  have "set chain \<subseteq> set fs \<and> (\<forall>g \<in> set chain. folder_ws g = Some (resource_scope sc) \<and> fo_deleted_at g = None)
     \<and> (\<forall>i. cursor = Some i \<longrightarrow> i \<in> fo_id ` set chain) \<and> (\<forall>g \<in> set chain. \<forall>p. fo_parent_id g = Some p \<longrightarrow> p \<in> fo_id ` set chain)"
    using assms
  proof (induction sc fs seen cursor arbitrary: chain rule: chain_from.induct [case_names loop])
    case (loop sc fs seen cursor)
    show ?case
    proof (cases cursor)
      case None
      then show ?thesis using loop.prems by (simp add: chain_from.simps)
    next
      case (Some i)
      then obtain f rest where f: "i \<notin> set seen" "folder_by_id i fs = Inr f" "ensure_folder_model_in_scope f sc = Inr ()"
          "chain_from sc fs (i # seen) (fo_parent_id f) = Inr rest" "chain = f # rest"
        using loop.prems by (subst (asm) chain_from.simps) (auto simp: bind_result_Inr_iff split: if_splits sum.splits)
      from loop.IH [OF Some f(1,2,3,4)] show ?thesis
        using f Some find_key_SomeD [of fo_id i fs f] by (auto simp: folder_by_id_Inr folder_active_checks)
    qed
  qed
  then show "set chain \<subseteq> set fs" "\<And>g. g \<in> set chain \<Longrightarrow> folder_ws g = Some (resource_scope sc) \<and> fo_deleted_at g = None"
    "\<And>i. cursor = Some i \<Longrightarrow> i \<in> fo_id ` set chain" "\<And>g p. g \<in> set chain \<Longrightarrow> fo_parent_id g = Some p \<Longrightarrow> p \<in> fo_id ` set chain"
    by auto
qed

lemma chain_ancestors:
  assumes "unique_key fo_id fs" "chain_from sc fs seen (Some i) = Inr chain" "(i, j) \<in> (parent_edges fs)\<^sup>*"
  shows "j \<in> fo_id ` set chain"
  using assms(3)
proof (induction rule: rtrancl_induct)
  case (step y z)
  then obtain g where g: "g \<in> set chain" "y = fo_id g" by blast
  then have "fo_parent_id g = Some z" using parent_edge [OF assms(1)] chain_from_Inr(1) [OF assms(2)] step.hyps(2) by auto
  then show ?case using chain_from_Inr(4) [OF assms(2) g(1)] by simp
qed (use chain_from_Inr(3) [OF assms(2)] in simp)

text \<open>On a forest the chain ends, and it is refused only for its first folder: the ancestors of a live folder are live.\<close>

lemma chain_from_live:
  assumes "forest_ok fs" "f \<in> set fs" "fo_deleted_at f = None" "folder_ws f = Some (resource_scope sc)"
    and "\<forall>j \<in> set seen. (fo_id f, j) \<notin> (parent_edges fs)\<^sup>*"
  shows "\<exists>chain. chain_from sc fs seen (Some (fo_id f)) = Inr chain"
  using assms
proof (induction arbitrary: seen rule: forest_induct [of fs, consumes 2])
  case (folder f)
  note D = forest_okD [OF assms(1)]
  have c: "fo_id f \<notin> set seen" "folder_by_id (fo_id f) fs = Inr f" "ensure_folder_model_in_scope f sc = Inr ()"
    using folder.prems folder.hyps D(1) by (auto simp: folder_by_id_Inr find_key_Some_iff folder_active_checks)
  show ?case
  proof (cases "fo_parent_id f")
    case None
    then show ?thesis using c by (subst chain_from.simps) (simp add: chain_from.simps [of _ _ _ None])
  next
    case (Some p)
    then obtain g where g: "g \<in> set fs" "fo_id g = p" "folder_ws g = folder_ws f" "fo_deleted_at g = None"
      using D(5) [OF folder.hyps Some] folder.prems(1) by auto
    have e: "(fo_id f, fo_id g) \<in> parent_edges fs" using parent_edge [OF D(1) folder.hyps] Some g(2) by simp
    have "(fo_id g, fo_id f) \<notin> (parent_edges fs)\<^sup>*" using D(3) e by (auto simp: acyclic_def dest: rtrancl_into_trancl2)
    moreover have "(fo_id g, j) \<notin> (parent_edges fs)\<^sup>*" if "j \<in> set seen" for j
      using folder.prems(3) that e by (meson converse_rtrancl_into_rtrancl)
    ultimately have "\<forall>j \<in> set (fo_id f # seen). (fo_id g, j) \<notin> (parent_edges fs)\<^sup>*" by simp
    from folder.IH [OF g(1) _ g(4) _ this] obtain rest where "chain_from sc fs (fo_id f # seen) (Some p) = Inr rest"
      using g Some folder.prems(2) by auto
    then show ?thesis using c Some by (subst chain_from.simps) simp
  qed
qed

lemma chain_next_covers: "f \<in> set rows \<Longrightarrow> fo_parent_id f = Some p \<Longrightarrow> p \<in> fo_id ` (set loaded \<union> set rows) \<union> set (chain_next loaded rows)"
proof (induction rows arbitrary: loaded)
  case (Cons a rows)
  show ?case
  proof (cases "f = a")
    case False
    then show ?thesis using Cons.IH [of "loaded @ [a]"] Cons.prems by auto
  qed (use Cons.prems in auto)
qed simp

lemma chain_next_parents: "set (chain_next loaded rows) \<subseteq> {p. \<exists>f \<in> set rows. fo_parent_id f = Some p}"
  by (induction rows arbitrary: loaded) (auto split: option.splits)

lemma chain_map_from_Inr:
  assumes "chain_map_from fs loaded frontier = Inr chain" "set loaded \<subseteq> set fs"
    and "\<forall>f \<in> set loaded. \<forall>p. fo_parent_id f = Some p \<longrightarrow> p \<in> fo_id ` set loaded \<union> set frontier"
  shows "set chain \<subseteq> set fs \<and> fo_id ` set loaded \<union> set frontier \<subseteq> fo_id ` set chain
    \<and> (\<forall>f \<in> set chain. \<forall>p. fo_parent_id f = Some p \<longrightarrow> p \<in> fo_id ` set chain)"
  using assms
proof (induction fs loaded frontier rule: chain_map_from.induct [case_names loop])
  case (loop fs loaded frontier)
  let ?fr = "sorted_list_of_set (set frontier - fo_id ` set loaded)"
  show ?case
  proof (cases "?fr = []")
    case True
    then have "set frontier \<subseteq> fo_id ` set loaded" by simp
    moreover have "chain = loaded" using loop.prems(1) True by (subst (asm) chain_map_from.simps) (simp add: Let_def)
    ultimately show ?thesis using loop.prems(2,3) by blast
  next
    case False
    let ?rows = "folders_by_ids ?fr fs"
    note step = chain_map_from.simps [of fs loaded frontier, unfolded Let_def, folded folders_by_ids_def]
    have n1: "List.find (\<lambda>i. i \<notin> fo_id ` set ?rows) ?fr = None"
      by (rule ccontr) (use loop.prems(1) False step in auto)
    then have n: "List.find (\<lambda>i. i \<notin> fo_id ` set ?rows) ?fr = None"
        "chain_map_from fs (loaded @ ?rows) (chain_next loaded ?rows) = Inr chain"
      using loop.prems(1) False step by simp_all
    have rows: "set ?rows \<subseteq> set fs" by (auto simp: folders_by_ids_def select_where_def)
    have fr: "set ?fr \<subseteq> fo_id ` set ?rows" using n(1) by (auto simp: find_None_iff)
    then have covered: "fo_id ` set loaded \<union> set frontier \<subseteq> fo_id ` set (loaded @ ?rows)" by auto
    have "p \<in> fo_id ` set (loaded @ ?rows) \<union> set (chain_next loaded ?rows)"
      if "f \<in> set (loaded @ ?rows)" "fo_parent_id f = Some p" for f p
    proof (cases "f \<in> set loaded")
      case True
      then have "p \<in> fo_id ` set loaded \<union> set frontier" using loop.prems(3) that(2) by blast
      then show ?thesis using covered by (rule UnI1 [OF subsetD, rotated])
    next
      case False
      then have "f \<in> set ?rows" using that(1) by (simp only: set_append Un_iff simp_thms)
      then show ?thesis using chain_next_covers [of f ?rows p loaded] that(2) by (simp only: set_append)
    qed
    then have closed: "\<forall>f \<in> set (loaded @ ?rows). \<forall>p. fo_parent_id f = Some p \<longrightarrow>
        p \<in> fo_id ` set (loaded @ ?rows) \<union> set (chain_next loaded ?rows)" by blast
    have "set (loaded @ ?rows) \<subseteq> set fs" using loop.prems(2) rows by simp
    note I = loop.IH [OF refl False refl n(1,2) this closed]
    then have "fo_id ` set (loaded @ ?rows) \<subseteq> fo_id ` set chain" by (simp only: Un_subset_iff)
    then have "fo_id ` set loaded \<union> set frontier \<subseteq> fo_id ` set chain" by (rule order_trans [OF covered])
    with conjunct1 [OF I] conjunct2 [OF conjunct2 [OF I]] show ?thesis by (intro conjI)
  qed
qed

lemma chain_map_from_forest:
  assumes "forest_ok fs" "set loaded \<subseteq> set fs" "set frontier \<subseteq> fo_id ` set fs"
  shows "\<exists>chain. chain_map_from fs loaded frontier = Inr chain"
  using assms
proof (induction fs loaded frontier rule: chain_map_from.induct [case_names loop])
  case (loop fs loaded frontier)
  let ?fr = "sorted_list_of_set (set frontier - fo_id ` set loaded)"
  let ?rows = "folders_by_ids ?fr fs"
  show ?case
  proof (cases "?fr = []")
    case False
    have "set ?fr \<subseteq> fo_id ` set ?rows" using loop.prems(3) False by (auto simp: folders_by_ids_def select_where_def)
    then have n: "List.find (\<lambda>i. i \<notin> fo_id ` set ?rows) ?fr = None" by (auto simp: find_None_iff)
    have rows: "set (loaded @ ?rows) \<subseteq> set fs" using loop.prems(2) by (auto simp: folders_by_ids_def select_where_def)
    have "set (chain_next loaded ?rows) \<subseteq> fo_id ` set fs"
      using chain_next_parents [of loaded ?rows] rows forest_okD(5) [OF loop.prems(1)] by fastforce
    from loop.IH [OF refl False refl n loop.prems(1) rows this] show ?thesis
      using False n by (subst chain_map_from.simps) (simp add: Let_def)
  qed (subst chain_map_from.simps, simp)
qed

text \<open>The rows of the chains: each is found under its id, and its parent is among them.\<close>

definition chain_closed :: "folder_table \<Rightarrow> bool" where
  "chain_closed chain =
     (\<forall>f \<in> set chain. find_key fo_id (fo_id f) chain = Some f
        \<and> (\<forall>p. fo_parent_id f = Some p \<longrightarrow> (\<exists>g \<in> set chain. fo_id g = p)))"

lemma chain_closedD:
  assumes "chain_closed chain" "f \<in> set chain"
  shows "find_key fo_id (fo_id f) chain = Some f" "fo_parent_id f = Some p \<Longrightarrow> \<exists>g \<in> set chain. fo_id g = p"
  using assms by (auto simp: chain_closed_def)

lemma chain_map_lookup:
  assumes "forest_ok fs" "load_folder_chain_map fs ids = Inr chain"
  shows "set ids \<subseteq> fo_id ` set chain" "set chain \<subseteq> set fs" "chain_closed chain"
proof -
  have c: "set chain \<subseteq> set fs \<and> set ids \<subseteq> fo_id ` set chain \<and> (\<forall>f \<in> set chain. \<forall>p. fo_parent_id f = Some p \<longrightarrow> p \<in> fo_id ` set chain)"
    using chain_map_from_Inr [OF assms(2) [unfolded load_folder_chain_map_def]] by simp
  then show "set ids \<subseteq> fo_id ` set chain" and sub: "set chain \<subseteq> set fs" by auto
  have "find_key fo_id (fo_id f) chain = Some f" if f: "f \<in> set chain" for f
  proof -
    obtain g where g: "find_key fo_id (fo_id f) chain = Some g" using f by (cases "find_key fo_id (fo_id f) chain") (auto simp: find_key_None_iff)
    then have "g \<in> set chain" "fo_id g = fo_id f" by (auto dest: find_key_SomeD)
    then show ?thesis using g f sub unique_key_inj [OF forest_okD(1) [OF assms(1)], of g f] by auto
  qed
  moreover have "\<exists>g \<in> set chain. fo_id g = p" if "f \<in> set chain" "fo_parent_id f = Some p" for f p
    using c that by (metis imageE)
  ultimately show "chain_closed chain" by (simp add: chain_closed_def)
qed

lemma table_closed: "forest_ok fs \<Longrightarrow> chain_closed fs"
  using forest_okD(1,5) [of fs] by (auto simp: chain_closed_def find_key_Some_iff)

definition parts_of :: "folder_table \<Rightarrow> int \<Rightarrow> string list" where
  "parts_of fs i = (case path_parts fs (Some i) of Some (Inr (parts, _)) \<Rightarrow> parts | _ \<Rightarrow> [])"

lemma path_parts_chain:
  assumes "forest_ok fs" "f \<in> set chain" "set chain \<subseteq> set fs"
    and "chain_closed chain"
  shows "\<exists>ids. path_parts chain (Some (fo_id f)) = Some (Inr (parts_of fs (fo_id f), ids))"
    and "parts_of fs (fo_id f) = (case fo_parent_id f of None \<Rightarrow> [] | Some p \<Rightarrow> parts_of fs p) @ [fo_name f]"
proof -
  have "f \<in> set fs" using assms(2,3) by blast
  from assms(1) this assms(2)
  have "(\<exists>parts ids ids'. path_parts chain (Some (fo_id f)) = Some (Inr (parts, ids)) \<and> path_parts fs (Some (fo_id f)) = Some (Inr (parts, ids')))
    \<and> parts_of fs (fo_id f) = (case fo_parent_id f of None \<Rightarrow> [] | Some p \<Rightarrow> parts_of fs p) @ [fo_name f]"
  proof (induction rule: forest_induct)
    case (folder f)
    have k: "find_key fo_id (fo_id f) fs = Some f" using folder.hyps forest_okD(1) [OF assms(1)] by (simp add: find_key_Some_iff)
    note unfold = path_parts.simps [of _ "Some (fo_id f)"] path_parts.simps [of _ None]
    show ?case
    proof (cases "fo_parent_id f")
      case None
      then show ?thesis using k chain_closedD(1) [OF assms(4) folder.prems] by (simp add: unfold parts_of_def)
    next
      case (Some p)
      then obtain g where g: "g \<in> set chain" "fo_id g = p" using chain_closedD(2) [OF assms(4) folder.prems] by blast
      obtain parts ids ids' where "path_parts chain (Some p) = Some (Inr (parts, ids))" "path_parts fs (Some p) = Some (Inr (parts, ids'))"
        using folder.IH [of g] g assms(3) Some by blast
      then show ?thesis using k chain_closedD(1) [OF assms(4) folder.prems] Some by (simp add: unfold(1) parts_of_def)
    qed
  qed
  then show "\<exists>ids. path_parts chain (Some (fo_id f)) = Some (Inr (parts_of fs (fo_id f), ids))"
    "parts_of fs (fo_id f) = (case fo_parent_id f of None \<Rightarrow> [] | Some p \<Rightarrow> parts_of fs p) @ [fo_name f]"
    by (auto simp: parts_of_def)
qed

lemma join_with_snoc: "join_with sep (ps @ [x]) = (if ps = [] then x else join_with sep ps @ sep @ x)"
  by (induction sep ps rule: join_with.induct) auto

definition path_of :: "folder_table \<Rightarrow> int \<Rightarrow> string" where
  "path_of fs i = ''/'' @ join_with ''/'' (parts_of fs i)"

lemma path_of_folder:
  assumes "forest_ok fs" "f \<in> set fs"
  shows "path_of fs (fo_id f) = (case fo_parent_id f of None \<Rightarrow> ''/'' @ fo_name f | Some p \<Rightarrow> path_of fs p @ ''/'' @ fo_name f)"
proof (cases "fo_parent_id f")
  case None
  then show ?thesis using path_parts_chain(2) [OF assms(1,2) order_refl table_closed [OF assms(1)]] by (simp add: path_of_def)
next
  case (Some p)
  then obtain g where g: "g \<in> set fs" "fo_id g = p" using chain_closedD(2) [OF table_closed [OF assms(1)] assms(2)] by blast
  have "parts_of fs p \<noteq> []" using path_parts_chain(2) [OF assms(1) g(1) order_refl table_closed [OF assms(1)]] g(2) by simp
  then show ?thesis using Some path_parts_chain(2) [OF assms(1,2) order_refl table_closed [OF assms(1)]]
    by (simp add: path_of_def join_with_snoc)
qed

lemma path_entries_chain:
  assumes "forest_ok fs" "set chain \<subseteq> set fs" "chain_closed chain" "set ids \<subseteq> fo_id ` set chain"
  shows "\<exists>es. path_entries_from_chain_map chain ids = Some (Inr es) \<and> map fst es = ids \<and> (\<forall>(i, e) \<in> set es. pe_path e = path_of fs i)"
  using assms(4)
proof (induction ids)
  case (Cons i ids)
  then obtain f where f: "f \<in> set chain" "fo_id f = i" by auto
  obtain cs where "path_parts chain (Some i) = Some (Inr (parts_of fs i, cs))"
    using path_parts_chain(1) [OF assms(1) f(1) assms(2,3)] f(2) by blast
  then show ?case using Cons by (auto simp: path_of_def)
qed simp

lemma build_folder_paths_forest:
  assumes "forest_ok fs" "set ids \<subseteq> fo_id ` set fs"
  shows "build_folder_paths fs ids = Some (Inr (\<lambda>i. if i \<in> set ids then Some (path_of fs i) else None))"
proof -
  obtain chain where c: "load_folder_chain_map fs ids = Inr chain"
    using chain_map_from_forest [OF assms(1) _ assms(2), of "[]"] by (auto simp: load_folder_chain_map_def)
  note L = chain_map_lookup [OF assms(1) c]
  obtain es where es: "path_entries_from_chain_map chain ids = Some (Inr es)" "map fst es = ids" "\<forall>(i, e) \<in> set es. pe_path e = path_of fs i"
    using path_entries_chain [OF assms(1) L(2,3,1)] by blast
  have "map_option pe_path (map_of es i) = (if i \<in> set ids then Some (path_of fs i) else None)" for i
  proof (cases "map_of es i")
    case None
    then show ?thesis using es(2) by (auto simp: map_of_eq_None_iff)
  next
    case (Some e)
    then have "(i, e) \<in> set es" by (rule map_of_SomeD)
    then show ?thesis using Some es(2,3) by (force simp: image_iff)
  qed
  then show ?thesis using c es(1) by (simp add: build_folder_paths_def build_folder_path_entries_def comp_def)
qed

lemma below_root_chain:
  assumes "forest_ok fs" "f \<in> set chain" "set chain \<subseteq> set fs"
    and "chain_closed chain"
  shows "below_root chain root (Some (fo_id f)) =
    Some (if (fo_id f, root) \<in> (parent_edges fs)\<^sup>+ then Inr () else Inl (auth_forbidden ''folder is outside shared folder scope''))"
proof -
  have "f \<in> set fs" using assms(2,3) by blast
  from assms(1) this assms(2) show ?thesis
  proof (induction rule: forest_induct)
    case (folder f)
    note edge = parent_edge [OF forest_okD(1) [OF assms(1)] folder.hyps]
    have below: "(fo_id f, root) \<in> (parent_edges fs)\<^sup>+ \<longleftrightarrow> (\<exists>p. fo_parent_id f = Some p \<and> (p = root \<or> (p, root) \<in> (parent_edges fs)\<^sup>+))"
      by (metis converse_tranclE edge r_into_trancl trancl_into_trancl2)
    show ?case
    proof (cases "fo_parent_id f")
      case None
      then show ?thesis using chain_closedD(1) [OF assms(4) folder.prems] below by (simp add: below_root.simps)
    next
      case (Some p)
      then obtain g where g: "g \<in> set chain" "fo_id g = p" using chain_closedD(2) [OF assms(4) folder.prems] by blast
      note IH = folder.IH [of g]
      show ?thesis using IH g assms(3) chain_closedD(1) [OF assms(4) folder.prems] Some below by (subst below_root.simps) auto
    qed
  qed
qed

lemma verify_folder_in_scope_forest:
  assumes "forest_ok fs" "f \<in> set fs"
  shows "verify_folder_in_scope fs (fo_id f) root =
    Some (if (fo_id f, root) \<in> (parent_edges fs)\<^sup>* then Inr () else Inl (auth_forbidden ''folder is outside shared folder scope''))"
proof -
  obtain chain where c: "load_folder_chain_map fs [fo_id f] = Inr chain"
    using chain_map_from_forest [OF assms(1), of "[]" "[fo_id f]"] assms(2) by (auto simp: load_folder_chain_map_def)
  note L = chain_map_lookup [OF assms(1) c]
  obtain g where g: "g \<in> set chain" "fo_id g = fo_id f" using L(1) by auto
  show ?thesis using below_root_chain [OF assms(1) g(1) L(2,3)] g(2) c by (auto simp: verify_folder_in_scope_def rtrancl_eq_or_trancl)
qed

end
