(* ===== verification/Folder_Operations.thy ===== *)
theory Folder_Operations
  imports Folder_Forest Drive_Operations
begin

text \<open>
  The operations on folders: \<open>src/src/services/files/folder/mutation.rs\<close> (creating, renaming, moving, icons, policies,
  deleting a tree), \<open>src/src/services/files/trash/\<close> (\<open>restore.rs\<close>, the purge of \<open>common.rs\<close> and \<open>purge.rs\<close>) and
  the activities of folders (\<open>src/src/services/workspace/activity.rs\<close>, \<open>activity/batch.rs\<close>).

  The state is the drive and the table of folders; lock checks see the folders' columns they read (\<open>synced\<close>). A
  transaction is one step: it takes the lock of the workspace first. The caches of paths and shares are not
  modelled.
\<close>

section \<open>State and locks\<close>

record folder_world =
  fw_drive :: drive
  fw_folders :: folder_table

record folder_env =
  fe_drive :: drive_env
  fe_names :: name_rules
  fe_new_ids :: "nat \<Rightarrow> int"
  fe_event_uuids :: "nat \<Rightarrow> string"
  fe_emoji :: "string \<Rightarrow> string option"

definition synced :: "folder_world \<Rightarrow> drive" where
  "synced w = with_locks (fw_drive w)
     ((tw_locks (dr_tasks (fw_drive w)))\<lparr>db_folders := map folder_row.truncate (fw_folders w)\<rparr>)"

definition backend_of :: "folder_world \<Rightarrow> db_backend" where
  "backend_of w = db_kind (tw_locks (dr_tasks (fw_drive w)))"

definition files_of :: "folder_world \<Rightarrow> file_table" where
  "files_of w = lg_files (dr_ledger (fw_drive w))"

definition on_drive :: "(drive \<Rightarrow> drive aster_result) \<Rightarrow> folder_world \<Rightarrow> folder_world aster_result" where
  "on_drive g w = bind_result (g (fw_drive w)) (\<lambda>d. Inr (w\<lparr>fw_drive := d\<rparr>))"

definition no_credentials :: submitted_lock_credentials where
  "no_credentials = \<lparr>sc_holder_user_id = None, sc_tokens = []\<rparr>"

text \<open>\<open>enforce_folder_mutation_on\<close> returns the row it has locked, here with all its columns.\<close>

definition enforce_folder_mutation ::
  "drive_env \<Rightarrow> folder_model \<Rightarrow> lock_depth \<Rightarrow> submitted_lock_credentials \<Rightarrow> folder_world
   \<Rightarrow> (folder_world \<times> folder_model) aster_result" where
  "enforce_folder_mutation env f depth cr w =
     bind_result (enforce_folder_mutation_on (de_locks env) (folder_row.truncate f) depth cr (lock_view (synced w))) (\<lambda>(db, row).
     bind_result (folder_by_id (fo_id row) (fw_folders w)) (\<lambda>current.
     Inr (w\<lparr>fw_drive := with_locks (synced w) db\<rparr>, current)))"

definition enforce_folder_membership ::
  "drive_env \<Rightarrow> lock_workspace \<Rightarrow> int option \<Rightarrow> submitted_lock_credentials \<Rightarrow> folder_world \<Rightarrow> folder_world aster_result" where
  "enforce_folder_membership env ws parent cr w =
     bind_result (enforce_collection_membership_mutation_on (de_locks env) ws parent cr (lock_view (synced w))) (\<lambda>db.
     Inr (w\<lparr>fw_drive := with_locks (synced w) db\<rparr>))"

definition admit_folder_mutation :: "drive_env \<Rightarrow> workspace_storage_scope \<Rightarrow> folder_world \<Rightarrow> folder_world aster_result" where
  "admit_folder_mutation env sc w =
     bind_result (admit_mutation_on (de_locks env) (scope_lock_workspace sc) (dr_tasks (fw_drive w))) (\<lambda>t.
     Inr (w\<lparr>fw_drive := (fw_drive w)\<lparr>dr_tasks := t\<rparr>\<rparr>))"

definition lock_folder_ids_in_order :: "db_backend \<Rightarrow> int list \<Rightarrow> folder_table \<Rightarrow> unit aster_result" where
  "lock_folder_ids_in_order kind ids fs =
     check_all (\<lambda>i. bind_result (folder_for_update kind i fs) (\<lambda>_. Inr ())) (sorted_list_of_set (set ids))"

section \<open>Activities of folders\<close>

definition folder_activity_model ::
  "string \<Rightarrow> activity_context \<Rightarrow> folder_model \<Rightarrow> string \<Rightarrow> activity_details \<Rightarrow> time \<Rightarrow> workspace_activity" where
  "folder_activity_model uuid ctx f action details now =
     \<lparr>wa_event_id = uuid, wa_operation_id = ac_operation_id ctx, wa_team_id = fo_team_id f,
      wa_owner_user_id = fo_owner_user_id f, wa_entity_type = ''folder'', wa_entity_id = fo_id f,
      wa_entity_name = fo_name f, wa_actor_user_id = ac_actor_user_id ctx, wa_actor_name = ac_actor_name ctx,
      wa_action = action, wa_source = activity_source_as_str (ac_source ctx), wa_details = details,
      wa_created_at = now\<rparr>"

definition folder_change_of :: "folder_model \<Rightarrow> folder_model \<Rightarrow> folder_change_details" where
  "folder_change_of before after =
     \<lparr>fd_previous_name = fo_name before, fd_next_name = fo_name after, fd_source_parent_id = fo_parent_id before,
      fd_target_parent_id = fo_parent_id after, fd_previous_kind = fo_icon_kind before, fd_kind = fo_icon_kind after,
      fd_previous_key = fo_icon_value before, fd_key = fo_icon_value after\<rparr>"

definition folder_created :: "drive_env \<Rightarrow> folder_model \<Rightarrow> activity_source \<Rightarrow> drive \<Rightarrow> drive aster_result" where
  "folder_created env f src d =
     append_activity (folder_activity_model (de_event_uuid env)
       ((creator_context env (fo_created_by_user_id f) (fo_created_by_username f))\<lparr>ac_source := src\<rparr>)
       f ''folder_create'' (AD_Parent (fo_parent_id f)) (de_now env)) d"

definition folder_modified_columns :: "drive_env \<Rightarrow> activity_context \<Rightarrow> folder_model \<Rightarrow> folder_model" where
  "folder_modified_columns env ctx f =
     f\<lparr>fo_modified_by_user_id := ac_actor_user_id ctx, fo_modified_by_username := Some (ac_actor_name ctx),
       fo_modified_at := Some (de_now env)\<rparr>"

definition touch_folders :: "drive_env \<Rightarrow> activity_context \<Rightarrow> int list \<Rightarrow> folder_table \<Rightarrow> folder_table" where
  "touch_folders env ctx ids fs = fst (update_where (\<lambda>f. fo_id f \<in> set ids) (folder_modified_columns env ctx) fs)"

definition folder_changed ::
  "drive_env \<Rightarrow> activity_context \<Rightarrow> folder_model \<Rightarrow> folder_model \<Rightarrow> string \<Rightarrow> folder_world
   \<Rightarrow> (folder_world \<times> folder_model) aster_result" where
  "folder_changed env ctx before after action w =
     bind_result
       (if fo_name before \<noteq> fo_name after \<or> fo_parent_id before \<noteq> fo_parent_id after
        then bind_result (location_changes env (fo_parent_id before) (fo_name before) (fo_parent_id after) (fo_name after))
               (\<lambda>p. Inr (Some p))
        else Inr None) (\<lambda>paths.
     let after' = folder_modified_columns env ctx after in
     bind_result (on_drive (append_activity (folder_activity_model (de_event_uuid env) ctx after' action
        (AD_FolderChange (folder_change_of before after') paths) (de_now env)))
        (w\<lparr>fw_folders := touch_folders env ctx [fo_id after] (fw_folders w)\<rparr>)) (\<lambda>w'. Inr (w', after')))"

definition create_folder_row ::
  "drive_env \<Rightarrow> folder_model \<Rightarrow> activity_source \<Rightarrow> folder_world \<Rightarrow> (folder_world \<times> folder_model) aster_result" where
  "create_folder_row env f src w =
     bind_result (folder_repo_create f (fw_folders w)) (\<lambda>(fs, created).
     bind_result (on_drive (folder_created env created src) (w\<lparr>fw_folders := fs\<rparr>)) (\<lambda>w'. Inr (w', created)))"

text \<open>
  \<open>ActivityBatch\<close> for deleted and restored entries, whose place does not change: the columns of who modified them,
  in statements of at most 400 ids, and one record each, in statements of at most 50. \<open>n\<close> counts the records of
  the request.
\<close>

definition append_many :: "workspace_activity list \<Rightarrow> drive \<Rightarrow> drive aster_result" where
  "append_many records d =
     bind_result (insert_chunks (unique_key wa_event_id) (chunks 50 records) (dr_activities d)) (\<lambda>t.
     Inr (d\<lparr>dr_activities := t\<rparr>))"

fun touch_files :: "drive_env \<Rightarrow> activity_context \<Rightarrow> int list list \<Rightarrow> file_table \<Rightarrow> file_table" where
  "touch_files env ctx [] t = t"
| "touch_files env ctx (ids # rest) t =
     touch_files env ctx rest (fst (update_where (\<lambda>f. fm_id f \<in> set ids) (modified_columns env ctx) t))"

definition file_lifecycle_details :: "file_model \<Rightarrow> activity_details" where
  "file_lifecycle_details f =
     AD_Change \<lparr>fc_previous_name = fm_name f, fc_next_name = fm_name f, fc_source_folder_id = fm_folder_id f,
       fc_target_folder_id = fm_folder_id f, fc_previous_size = fm_size f, fc_size = fm_size f,
       fc_previous_mime_type = fm_mime_type f, fc_mime_type = fm_mime_type f\<rparr> None"

definition file_lifecycle_record ::
  "folder_env \<Rightarrow> activity_context \<Rightarrow> string \<Rightarrow> nat \<times> file_model \<Rightarrow> workspace_activity" where
  "file_lifecycle_record env ctx action = (\<lambda>(k, f).
     (file_activity_model (fe_drive env) ctx f action (file_lifecycle_details f) (de_now (fe_drive env)))\<lparr>
        wa_event_id := fe_event_uuids env k\<rparr>)"

definition persist_file_batch ::
  "folder_env \<Rightarrow> activity_context \<Rightarrow> string \<Rightarrow> nat \<Rightarrow> file_model list \<Rightarrow> folder_world \<Rightarrow> folder_world aster_result" where
  "persist_file_batch env ctx action n files w =
     on_drive (append_many (map (file_lifecycle_record env ctx action) (enumerate n files)))
       (w\<lparr>fw_drive := with_files (touch_files (fe_drive env) ctx (chunks 400 (map fm_id files)) (files_of w)) (fw_drive w)\<rparr>)"

fun touch_folder_chunks :: "drive_env \<Rightarrow> activity_context \<Rightarrow> int list list \<Rightarrow> folder_table \<Rightarrow> folder_table" where
  "touch_folder_chunks env ctx [] t = t"
| "touch_folder_chunks env ctx (ids # rest) t = touch_folder_chunks env ctx rest (touch_folders env ctx ids t)"

definition folder_lifecycle_record ::
  "folder_env \<Rightarrow> activity_context \<Rightarrow> string \<Rightarrow> nat \<times> folder_model \<Rightarrow> workspace_activity" where
  "folder_lifecycle_record env ctx action = (\<lambda>(k, f).
     folder_activity_model (fe_event_uuids env k) ctx f action (AD_FolderChange (folder_change_of f f) None)
       (de_now (fe_drive env)))"

definition persist_folder_batch ::
  "folder_env \<Rightarrow> activity_context \<Rightarrow> string \<Rightarrow> nat \<Rightarrow> folder_model list \<Rightarrow> folder_world \<Rightarrow> folder_world aster_result" where
  "persist_folder_batch env ctx action n folders w =
     on_drive (append_many (map (folder_lifecycle_record env ctx action) (enumerate n folders)))
       (w\<lparr>fw_folders := touch_folder_chunks (fe_drive env) ctx (chunks 400 (map fo_id folders)) (fw_folders w)\<rparr>)"

section \<open>Creating\<close>

definition new_folder_row :: "folder_env \<Rightarrow> nat \<Rightarrow> workspace_storage_scope \<Rightarrow> string \<Rightarrow> string \<Rightarrow> int option \<Rightarrow> folder_model" where
  "new_folder_row env k sc name username parent =
     \<lparr>fo_id = fe_new_ids env k, fo_parent_id = parent, fo_team_id = scope_team_id sc, fo_owner_user_id = owner_user_id sc,
      fo_deleted_at = None, fo_name = name, fo_created_by_user_id = Some (actor_user_id sc), fo_created_by_username = username,
      fo_modified_by_user_id = None, fo_modified_by_username = None, fo_modified_at = None, fo_policy_id = None,
      fo_icon_kind = IK_Default, fo_icon_value = None, fo_created_at = de_now (fe_drive env), fo_updated_at = de_now (fe_drive env)\<rparr>"

definition check_parent ::
  "(int \<Rightarrow> folder_table \<Rightarrow> folder_model aster_result) \<Rightarrow> workspace_storage_scope \<Rightarrow> int option \<Rightarrow> folder_table \<Rightarrow> unit aster_result" where
  "check_parent look sc parent fs =
     (case parent of
        None \<Rightarrow> Inr ()
      | Some p \<Rightarrow> bind_result (look p fs) (\<lambda>f. ensure_folder_model_in_scope f sc))"

definition create_folder_transaction ::
  "folder_env \<Rightarrow> workspace_storage_scope \<Rightarrow> string \<Rightarrow> string \<Rightarrow> int option \<Rightarrow> lock_mutation_credentials \<Rightarrow> activity_source
   \<Rightarrow> folder_world \<Rightarrow> (folder_world \<times> folder_model) aster_result" where
  "create_folder_transaction env sc name username parent cr src w =
     bind_result (enforce_folder_membership (fe_drive env) (scope_lock_workspace sc) parent (submitted cr) w) (\<lambda>w1.
     bind_result (check_parent (folder_for_update (backend_of w1)) sc parent (fw_folders w1)) (\<lambda>_.
     if find_folder_by_name (fe_names env) (resource_scope sc) parent name (fw_folders w1) \<noteq> None
     then Inl (folder_duplicate_name_error name)
     else create_folder_row (fe_drive env) (new_folder_row env 0 sc name username parent) src w1))"

definition published_folders ::
  "folder_env \<Rightarrow> storage_change_kind \<Rightarrow> workspace_storage_scope \<Rightarrow> int list \<Rightarrow> int option list \<Rightarrow> folder_world \<Rightarrow> folder_world" where
  "published_folders env kind sc ids parents w =
     w\<lparr>fw_drive := publish_event (event_new (de_now (fe_drive env)) kind sc [] ids parents) (fw_drive w)\<rparr>"

definition create_in_scope ::
  "folder_env \<Rightarrow> workspace_storage_scope \<Rightarrow> string \<Rightarrow> int option \<Rightarrow> lock_mutation_credentials \<Rightarrow> activity_source \<Rightarrow> folder_world
   \<Rightarrow> folder_world \<times> folder_model aster_result" where
  "create_in_scope env sc name parent cr src w =
     (case bind_result (require_scope_access_with_db sc (fw_drive w)) (\<lambda>_.
           bind_result (nr_normalize_validate_name (fe_names env) name) (\<lambda>name'.
           bind_result (load_scope_actor_username sc (fw_drive w)) (\<lambda>username.
           bind_result (check_parent folder_by_id sc parent (fw_folders w)) (\<lambda>_.
           create_folder_transaction env sc name' username parent cr src w)))) of
        Inl e \<Rightarrow> (w, Inl e)
      | Inr (w', f) \<Rightarrow> (published_folders env FolderCreated sc [fo_id f] [fo_parent_id f] w', Inr f))"

text \<open>
  The folders of a relative upload path (\<open>src/src/services/workspace/storage_core/path.rs\<close>): each segment is the
  live folder of that name or a new one. \<open>made\<close> are the folders made so far.
\<close>

fun ensure_upload_parent_path_with_created ::
  "folder_env \<Rightarrow> workspace_storage_scope \<Rightarrow> string \<Rightarrow> int option \<Rightarrow> string list \<Rightarrow> int list \<Rightarrow> folder_world
   \<Rightarrow> (folder_world \<times> int option \<times> int list) aster_result" where
  "ensure_upload_parent_path_with_created env sc username parent [] made w = Inr (w, parent, made)"
| "ensure_upload_parent_path_with_created env sc username parent (segment # rest) made w =
     (case find_folder_by_name (fe_names env) (resource_scope sc) parent segment (fw_folders w) of
        Some f \<Rightarrow> ensure_upload_parent_path_with_created env sc username (Some (fo_id f)) rest made w
      | None \<Rightarrow>
          bind_result (create_or_find_in_scope_with_created (new_folder_row env (length made) sc segment username parent)
                         (resource_scope sc) parent segment (fw_folders w)) (\<lambda>(fs, f, was_created).
          if was_created
          then bind_result (on_drive (folder_created ((fe_drive env)\<lparr>de_event_uuid := fe_event_uuids env (length made)\<rparr>) f AS_Rest)
                              (w\<lparr>fw_folders := fs\<rparr>))
                 (ensure_upload_parent_path_with_created env sc username (Some (fo_id f)) rest (made @ [fo_id f]))
          else ensure_upload_parent_path_with_created env sc username (Some (fo_id f)) rest made w))"

text \<open>
  Inside the transaction of a new file the base folder is locked and checked first, and the folder that the path leads to
  is checked for locks as well.
\<close>

definition upload_parent_transaction ::
  "folder_env \<Rightarrow> workspace_storage_scope \<Rightarrow> string \<Rightarrow> int option \<Rightarrow> string list \<Rightarrow> folder_world
   \<Rightarrow> (folder_world \<times> int option \<times> int list) aster_result" where
  "upload_parent_transaction env sc username base segments w =
     bind_result (case base of None \<Rightarrow> Inr () | Some _ \<Rightarrow> require_scope_access_with_db sc (fw_drive w)) (\<lambda>_.
     bind_result (check_parent (folder_for_update (backend_of w)) sc base (fw_folders w)) (\<lambda>_.
     bind_result (enforce_folder_membership (fe_drive env) (scope_lock_workspace sc) base no_credentials w) (\<lambda>w1.
     bind_result (ensure_upload_parent_path_with_created env sc username base segments [] w1) (\<lambda>(w2, leaf, made).
     if leaf = base then Inr (w2, leaf, made)
     else
     bind_result (enforce_folder_membership (fe_drive env) (scope_lock_workspace sc) leaf no_credentials w2) (\<lambda>w3.
     Inr (w3, leaf, made))))))"

section \<open>Renaming and moving\<close>

datatype 'a nullable_patch = NP_Absent | NP_Null | NP_Value 'a

fun patched :: "'a nullable_patch \<Rightarrow> 'a option \<Rightarrow> 'a option" where
  "patched NP_Absent v = v"
| "patched NP_Null v = None"
| "patched (NP_Value x) v = Some x"

definition check_move ::
  "drive_env \<Rightarrow> folder_model \<Rightarrow> int option \<Rightarrow> folder_world \<Rightarrow> folder_world aster_result" where
  "check_move env current target w =
     (if target = fo_parent_id current then Inr w
      else
        bind_result (from_folder (folder_row.truncate current)) (\<lambda>ws.
        bind_result (enforce_folder_membership env ws (fo_parent_id current) no_credentials w) (\<lambda>w1.
        enforce_folder_membership env ws target no_credentials w1)))"

definition update_folder_transaction ::
  "folder_env \<Rightarrow> workspace_storage_scope \<Rightarrow> int \<Rightarrow> string option \<Rightarrow> int nullable_patch \<Rightarrow> activity_source \<Rightarrow> folder_world
   \<Rightarrow> (folder_world \<times> folder_model \<times> int option) aster_result" where
  "update_folder_transaction env sc i name parent src w =
     bind_result (folder_by_id i (fw_folders w)) (\<lambda>preview.
     bind_result (ensure_folder_model_in_scope preview sc) (\<lambda>_.
     bind_result (load_folder_chain_in_scope sc (fw_folders w) (patched parent (fo_parent_id preview))) (\<lambda>initial.
     bind_result (lock_folder_ids_in_order (backend_of w) (i # map fo_id initial) (fw_folders w)) (\<lambda>_.
     bind_result (enforce_folder_mutation (fe_drive env) preview Infinity no_credentials w) (\<lambda>(w1, current).
     bind_result (ensure_folder_model_in_scope current sc) (\<lambda>_.
     let target = patched parent (fo_parent_id current) in
     bind_result (load_folder_chain_in_scope sc (fw_folders w1) target) (\<lambda>chain.
     bind_result (check_move (fe_drive env) current target w1) (\<lambda>w2.
     if list_ex (\<lambda>f. fo_id f = i) chain then Inl (validation_error ''cannot move folder into its own subfolder'')
     else
     let final_name = (case name of Some n \<Rightarrow> n | None \<Rightarrow> fo_name current) in
     if (case find_folder_by_name (fe_names env) (resource_scope sc) target final_name (fw_folders w2) of
           Some existing \<Rightarrow> fo_id existing \<noteq> i | None \<Rightarrow> False)
     then Inl (folder_duplicate_name_error final_name)
     else if final_name = fo_name current \<and> target = fo_parent_id current then Inr (w2, current, fo_parent_id current)
     else
     let updated = current\<lparr>fo_name := final_name, fo_parent_id := target, fo_updated_at := de_now (fe_drive env)\<rparr> in
     bind_result (ok_or (folder_duplicate_name_error final_name) (folder_update updated (fw_folders w2))) (\<lambda>fs.
     bind_result (actor_context (fe_drive env) (actor_user_id sc) src (fw_drive w2)) (\<lambda>ctx.
     bind_result (folder_changed (fe_drive env) ctx current updated
        (if fo_parent_id current \<noteq> fo_parent_id updated then ''folder_move'' else ''folder_rename'') (w2\<lparr>fw_folders := fs\<rparr>)) (\<lambda>(w3, updated').
     Inr (w3, updated', fo_parent_id current))))))))))))"

definition normalized_patch :: "name_rules \<Rightarrow> string option \<Rightarrow> string option aster_result" where
  "normalized_patch nr name =
     (case name of None \<Rightarrow> Inr None | Some n \<Rightarrow> bind_result (nr_normalize_validate_name nr n) (\<lambda>n'. Inr (Some n')))"

definition update_in_scope ::
  "folder_env \<Rightarrow> workspace_storage_scope \<Rightarrow> int \<Rightarrow> string option \<Rightarrow> int nullable_patch \<Rightarrow> int nullable_patch \<Rightarrow> activity_source
   \<Rightarrow> folder_world \<Rightarrow> folder_world \<times> folder_model aster_result" where
  "update_in_scope env sc i name parent policy src w =
     (if parent = NP_Value i then (w, Inl (validation_error ''cannot move folder into itself''))
      else if policy \<noteq> NP_Absent
      then (w, Inl (auth_forbidden_with_code ''AuthAdminRequired''
              ''omit policy_id from regular folder PATCH requests unless changing storage policy; binding or clearing a folder storage policy requires the admin-only folder storage policy API with an admin token''))
      else
        case bind_result (normalized_patch (fe_names env) name) (\<lambda>name'. update_folder_transaction env sc i name' parent src w) of
          Inl e \<Rightarrow> (w, Inl e)
        | Inr (w', f, previous) \<Rightarrow>
            (published_folders env FolderUpdated sc [fo_id f] [previous, fo_parent_id f] w', Inr f))"

section \<open>Icons and policies\<close>

definition set_icon_transaction ::
  "folder_env \<Rightarrow> workspace_storage_scope \<Rightarrow> int \<Rightarrow> folder_icon_kind \<Rightarrow> string option \<Rightarrow> folder_world
   \<Rightarrow> (folder_world \<times> folder_model \<times> folder_model) aster_result" where
  "set_icon_transaction env sc i kind v w =
     bind_result (folder_by_id i (fw_folders w)) (\<lambda>preview.
     bind_result (ensure_folder_model_in_scope preview sc) (\<lambda>_.
     bind_result (enforce_folder_mutation (fe_drive env) preview Resource no_credentials w) (\<lambda>(w1, current).
     bind_result (ensure_folder_model_in_scope current sc) (\<lambda>_.
     if fo_deleted_at current \<noteq> None
     then Inl (FolderNotFound (payload_new (''folder #'' @ int_to_string i @ '' is in trash'')))
     else if fo_icon_kind current = kind \<and> fo_icon_value current = v then Inr (w1, current, current)
     else
     bind_result (update_icon current kind v (de_now (fe_drive env)) (fw_folders w1)) (\<lambda>(fs, updated).
     bind_result (actor_context (fe_drive env) (actor_user_id sc) AS_Rest (fw_drive w1)) (\<lambda>ctx.
     bind_result (folder_changed (fe_drive env) ctx current updated ''folder_icon_change'' (w1\<lparr>fw_folders := fs\<rparr>)) (\<lambda>(w2, updated').
     Inr (w2, current, updated'))))))))"

definition set_icon_in_scope ::
  "folder_env \<Rightarrow> workspace_storage_scope \<Rightarrow> int \<Rightarrow> folder_icon \<Rightarrow> folder_world
   \<Rightarrow> folder_world \<times> (folder_model \<times> folder_model) aster_result" where
  "set_icon_in_scope env sc i icon w =
     (case bind_result (normalize_icon (fe_emoji env) icon) (\<lambda>(kind, v). set_icon_transaction env sc i kind v w) of
        Inl e \<Rightarrow> (w, Inl e)
      | Inr (w', previous, updated) \<Rightarrow>
          (published_folders env FolderUpdated sc [fo_id updated] [fo_parent_id updated] w', Inr (previous, updated)))"

text \<open>\<open>policy_ok\<close>: the policy exists and is available for the binding of a folder.\<close>

definition admin_set_policy_transaction ::
  "folder_env \<Rightarrow> (int \<Rightarrow> unit aster_result) \<Rightarrow> int \<Rightarrow> int option \<Rightarrow> folder_world
   \<Rightarrow> (folder_world \<times> folder_model \<times> int option) aster_result" where
  "admin_set_policy_transaction env policy_ok i policy w =
     bind_result (folder_by_id i (fw_folders w)) (\<lambda>snapshot.
     bind_result (enforce_folder_mutation (fe_drive env) snapshot Resource no_credentials w) (\<lambda>(w1, current).
     if fo_deleted_at current \<noteq> None
     then Inl (FileNotFound (payload_new (''folder #'' @ int_to_string (fo_id current) @ '' is in trash'')))
     else
     bind_result (case policy of None \<Rightarrow> Inr () | Some p \<Rightarrow> policy_ok p) (\<lambda>_.
     let updated = current\<lparr>fo_policy_id := policy, fo_updated_at := de_now (fe_drive env)\<rparr> in
     bind_result (ok_or unique_violation (folder_update updated (fw_folders w1))) (\<lambda>fs.
     Inr (w1\<lparr>fw_folders := fs\<rparr>, updated, fo_policy_id current)))))"

definition folder_resource_scope :: "folder_model \<Rightarrow> workspace_resource_scope aster_result" where
  "folder_resource_scope f =
     bind_result (from_folder (folder_row.truncate f)) (\<lambda>ws.
     Inr (case ws of LW_Personal u \<Rightarrow> RS_Personal u | LW_Team t \<Rightarrow> RS_Team t))"

definition admin_set_policy ::
  "folder_env \<Rightarrow> (int \<Rightarrow> unit aster_result) \<Rightarrow> int \<Rightarrow> int option \<Rightarrow> folder_world
   \<Rightarrow> folder_world \<times> (folder_model \<times> int option) aster_result" where
  "admin_set_policy env policy_ok i policy w =
     (case admin_set_policy_transaction env policy_ok i policy w of
        Inl e \<Rightarrow> (w, Inl e)
      | Inr (w', updated, previous) \<Rightarrow>
          (case folder_resource_scope updated of
             Inl e \<Rightarrow> (w', Inl e)
           | Inr sc \<Rightarrow>
               (w'\<lparr>fw_drive := publish_event (event_for_resource_scope (de_now (fe_drive env)) FolderUpdated sc [] [fo_id updated]
                    [fo_parent_id updated]) (fw_drive w')\<rparr>, Inr (updated, previous))))"

section \<open>Deleting a tree\<close>

definition MAX_STABILIZATION_ATTEMPTS :: nat where "MAX_STABILIZATION_ATTEMPTS = 8"

text \<open>
  Each attempt collects the tree, locks its folders and collects it again. \<open>views k\<close> are the tables that the
  \<open>k\<close>-th collection of the transaction sees.
\<close>

fun collect_locked_folder_tree ::
  "workspace_storage_scope \<Rightarrow> int \<Rightarrow> folder_tree_traversal_limits option \<Rightarrow> db_backend \<Rightarrow> (nat \<Rightarrow> folder_table \<times> file_table)
   \<Rightarrow> nat \<Rightarrow> nat \<Rightarrow> (file_table \<times> int list) aster_result" where
  "collect_locked_folder_tree sc i limits kind views k 0 =
     Inl (internal_error ''folder tree did not stabilize while acquiring delete locks'')"
| "collect_locked_folder_tree sc i limits kind views k (Suc attempts) =
     bind_result (collect_folder_tree_in_scope sc i False limits (fst (views k)) (snd (views k))) (\<lambda>(_, ids).
     bind_result (lock_folder_ids_in_order kind ids (fst (views (k + 1)))) (\<lambda>_.
     bind_result (collect_folder_tree_in_scope sc i False limits (fst (views (k + 1))) (snd (views (k + 1)))) (\<lambda>(files, confirmed).
     if set ids = set confirmed then Inr (files, confirmed)
     else collect_locked_folder_tree sc i limits kind views (k + 2) attempts)))"

record locked_folder_tree_deletion =
  ld_actor_user_id :: int
  ld_folder :: folder_model
  ld_file_ids :: "int list"
  ld_folder_ids :: "int list"

fun enforce_files :: "drive_env \<Rightarrow> file_model list \<Rightarrow> folder_world \<Rightarrow> folder_world aster_result" where
  "enforce_files env [] w = Inr w"
| "enforce_files env (f # fs) w =
     bind_result (enforce_file_mutation env f no_credentials (synced w)) (\<lambda>(d, _). enforce_files env fs (w\<lparr>fw_drive := d\<rparr>))"

fun enforce_descendants :: "drive_env \<Rightarrow> int list \<Rightarrow> folder_world \<Rightarrow> folder_world aster_result" where
  "enforce_descendants env [] w = Inr w"
| "enforce_descendants env (i # ids) w =
     bind_result (folder_by_id i (fw_folders w)) (\<lambda>f.
     bind_result (enforce_folder_mutation env f Resource no_credentials w) (\<lambda>(w', _). enforce_descendants env ids w'))"

definition lock_tree_for_deletion_on ::
  "folder_env \<Rightarrow> workspace_storage_scope \<Rightarrow> int \<Rightarrow> folder_tree_traversal_limits option \<Rightarrow> bool \<Rightarrow> folder_world
   \<Rightarrow> (folder_world \<times> locked_folder_tree_deletion) aster_result" where
  "lock_tree_for_deletion_on env sc i limits allow_locked_root w =
     bind_result (admit_folder_mutation (fe_drive env) sc w) (\<lambda>w1.
     bind_result (folder_by_id i (fw_folders w1)) (\<lambda>snapshot.
     bind_result (ensure_folder_model_in_scope snapshot sc) (\<lambda>_.
     bind_result (if allow_locked_root
                  then bind_result (folder_for_update (backend_of w1) i (fw_folders w1)) (\<lambda>f. Inr (w1, f))
                  else enforce_folder_mutation (fe_drive env) snapshot Infinity no_credentials w1) (\<lambda>(w2, folder).
     bind_result (collect_locked_folder_tree sc i limits (backend_of w2) (\<lambda>_. (fw_folders w2, files_of w2)) 0
                    MAX_STABILIZATION_ATTEMPTS) (\<lambda>(files, ids).
     bind_result (if allow_locked_root then Inr w2
                  else bind_result (enforce_files (fe_drive env) files w2)
                         (enforce_descendants (fe_drive env) (filter (\<lambda>j. j \<noteq> i) ids))) (\<lambda>w3.
     Inr (w3, \<lparr>ld_actor_user_id = actor_user_id sc, ld_folder = folder, ld_file_ids = map fm_id files, ld_folder_ids = ids\<rparr>)))))))"

fun record_deleted_files ::
  "folder_env \<Rightarrow> activity_context \<Rightarrow> nat \<Rightarrow> int list list \<Rightarrow> folder_world \<Rightarrow> folder_world aster_result" where
  "record_deleted_files env ctx n [] w = Inr w"
| "record_deleted_files env ctx n (ids # rest) w =
     (let files = find_by_ids ids (dr_ledger (fw_drive w)) in
      bind_result (persist_file_batch env ctx ''file_delete'' n files w) (\<lambda>w'.
      record_deleted_files env ctx (n + length files) rest w'))"

fun record_deleted_folders ::
  "folder_env \<Rightarrow> activity_context \<Rightarrow> nat \<Rightarrow> int list list \<Rightarrow> folder_world \<Rightarrow> folder_world aster_result" where
  "record_deleted_folders env ctx n [] w = Inr w"
| "record_deleted_folders env ctx n (ids # rest) w =
     (let folders = folders_by_ids ids (fw_folders w) in
      bind_result (persist_folder_batch env ctx ''folder_delete'' n folders w) (\<lambda>w'.
      record_deleted_folders env ctx (n + length folders) rest w'))"

definition apply_locked_tree_deletion_on ::
  "folder_env \<Rightarrow> locked_folder_tree_deletion \<Rightarrow> activity_source \<Rightarrow> folder_world \<Rightarrow> folder_world aster_result" where
  "apply_locked_tree_deletion_on env l src w =
     bind_result (actor_context (fe_drive env) (ld_actor_user_id l) src (fw_drive w)) (\<lambda>ctx.
     bind_result (record_deleted_files env ctx 0 (chunks 200 (ld_file_ids l)) w) (\<lambda>w1.
     bind_result (record_deleted_folders env ctx (length (ld_file_ids l)) (chunks 200 (ld_folder_ids l)) w1) (\<lambda>w2.
     Inr (w2\<lparr>fw_drive := with_files (soft_delete_many (ld_file_ids l) (de_now (fe_drive env)) (files_of w2)) (fw_drive w2),
             fw_folders := folder_soft_delete_many (ld_folder_ids l) (de_now (fe_drive env)) (fw_folders w2)\<rparr>))))"

definition delete_tree_in_scope_on ::
  "folder_env \<Rightarrow> workspace_storage_scope \<Rightarrow> int \<Rightarrow> folder_tree_traversal_limits option \<Rightarrow> bool \<Rightarrow> activity_source \<Rightarrow> folder_world
   \<Rightarrow> (folder_world \<times> folder_model) aster_result" where
  "delete_tree_in_scope_on env sc i limits allow_locked_root src w =
     bind_result (lock_tree_for_deletion_on env sc i limits allow_locked_root w) (\<lambda>(w1, l).
     bind_result (apply_locked_tree_deletion_on env l src w1) (\<lambda>w2. Inr (w2, ld_folder l)))"

definition delete_in_scope ::
  "folder_env \<Rightarrow> workspace_storage_scope \<Rightarrow> int \<Rightarrow> folder_tree_traversal_limits option \<Rightarrow> activity_source \<Rightarrow> folder_world
   \<Rightarrow> folder_world \<times> unit aster_result" where
  "delete_in_scope env sc i limits src w =
     (case delete_tree_in_scope_on env sc i limits False src w of
        Inl e \<Rightarrow> (w, Inl e)
      | Inr (w', f) \<Rightarrow> (published_folders env FolderTrashed sc [fo_id f] [fo_parent_id f] w', Inr ()))"

section \<open>Restoring\<close>

definition unavailable_error :: "aster_error \<Rightarrow> bool" where
  "unavailable_error e =
     (case e of AuthForbidden _ \<Rightarrow> True | RecordNotFound _ \<Rightarrow> True | FileNotFound _ \<Rightarrow> True | FolderNotFound _ \<Rightarrow> True | _ \<Rightarrow> False)"

definition parent_restore_target_unavailable :: "folder_model aster_result \<Rightarrow> workspace_storage_scope \<Rightarrow> bool aster_result" where
  "parent_restore_target_unavailable parent sc =
     (case parent of
        Inl e \<Rightarrow> if unavailable_error e then Inr True else Inl e
      | Inr p \<Rightarrow>
          (case ensure_folder_scope p sc of
             Inr _ \<Rightarrow> Inr (fo_deleted_at p \<noteq> None)
           | Inl e \<Rightarrow> if unavailable_error e then Inr True else Inl e))"

definition restore_place :: "workspace_storage_scope \<Rightarrow> int option \<Rightarrow> folder_table \<Rightarrow> int option aster_result" where
  "restore_place sc parent fs =
     (case parent of
        None \<Rightarrow> Inr None
      | Some p \<Rightarrow>
          bind_result (parent_restore_target_unavailable (folder_by_id p fs) sc) (\<lambda>gone. Inr (if gone then None else Some p)))"

definition restore_file_transaction ::
  "folder_env \<Rightarrow> workspace_storage_scope \<Rightarrow> int \<Rightarrow> folder_world \<Rightarrow> (folder_world \<times> int option) aster_result" where
  "restore_file_transaction env sc i w =
     bind_result (admit_folder_mutation (fe_drive env) sc w) (\<lambda>w1.
     bind_result (file_by_id i (dr_ledger (fw_drive w1))) (\<lambda>file.
     bind_result (ensure_file_scope file sc) (\<lambda>_.
     if fm_deleted_at file = None then Inl (validation_error ''file is not in trash'')
     else
     bind_result (restore_place sc (fm_folder_id file) (fw_folders w1)) (\<lambda>place.
     let after = file\<lparr>fm_folder_id := place, fm_deleted_at := None\<rparr> in
     bind_result (ok_or (duplicate_name_error (fm_name file))
        (checked_rows (fst (update_where (\<lambda>f. fm_id f = i) (\<lambda>_. after) (files_of w1))))) (\<lambda>tbl.
     let d = with_files tbl (fw_drive w1) in
     bind_result (actor_context (fe_drive env) (actor_user_id sc) AS_Rest d) (\<lambda>ctx.
     bind_result (file_changed (fe_drive env) ctx file after ''file_restore'' d) (\<lambda>(d', _).
     Inr (w1\<lparr>fw_drive := d'\<rparr>, place))))))))"

definition restore_file_in_scope ::
  "folder_env \<Rightarrow> workspace_storage_scope \<Rightarrow> int \<Rightarrow> folder_world \<Rightarrow> folder_world \<times> unit aster_result" where
  "restore_file_in_scope env sc i w =
     (case bind_result (require_scope_access_with_db sc (fw_drive w)) (\<lambda>_. restore_file_transaction env sc i w) of
        Inl e \<Rightarrow> (w, Inl e)
      | Inr (w', place) \<Rightarrow>
          (w'\<lparr>fw_drive := publish_event (event_new (de_now (fe_drive env)) FileRestoredFromTrash sc [i] [] [place]) (fw_drive w')\<rparr>, Inr ()))"

definition restore_folder_transaction ::
  "folder_env \<Rightarrow> workspace_storage_scope \<Rightarrow> int \<Rightarrow> folder_tree_traversal_limits option \<Rightarrow> folder_world
   \<Rightarrow> (folder_world \<times> int option) aster_result" where
  "restore_folder_transaction env sc i limits w =
     bind_result (admit_folder_mutation (fe_drive env) sc w) (\<lambda>w1.
     bind_result (folder_by_id i (fw_folders w1)) (\<lambda>folder.
     bind_result (ensure_folder_scope folder sc) (\<lambda>_.
     if fo_deleted_at folder = None then Inl (validation_error ''folder is not in trash'')
     else
     bind_result (collect_folder_tree_in_scope sc i True limits (fw_folders w1) (files_of w1)) (\<lambda>(files, ids).
     let child_ids = filter (\<lambda>j. j \<noteq> i) ids in
     bind_result (restore_place sc (fo_parent_id folder) (fw_folders w1)) (\<lambda>place.
     let root = folder\<lparr>fo_parent_id := place, fo_deleted_at := None\<rparr> in
     bind_result (ok_or (folder_duplicate_name_error (fo_name folder)) (folder_update root (fw_folders w1))) (\<lambda>fs.
     bind_result (actor_context (fe_drive env) (actor_user_id sc) AS_Rest (fw_drive w1)) (\<lambda>ctx.
     bind_result (folder_changed (fe_drive env) ctx folder root ''folder_restore'' (w1\<lparr>fw_folders := fs\<rparr>)) (\<lambda>(w2, _).
     bind_result (persist_file_batch env ctx ''file_restore'' 0 (filter (\<lambda>f. fm_deleted_at f \<noteq> None) files) w2) (\<lambda>w3.
     bind_result (persist_folder_batch env ctx ''folder_restore'' (length files)
        (filter (\<lambda>f. fo_deleted_at f \<noteq> None) (folders_by_ids child_ids (fw_folders w3))) w3) (\<lambda>w4.
     bind_result (restore_many (map fm_id files) (files_of w4)) (\<lambda>tbl.
     bind_result (folder_restore_many child_ids (fw_folders w4)) (\<lambda>fs'.
     Inr (w4\<lparr>fw_drive := with_files tbl (fw_drive w4), fw_folders := fs'\<rparr>, place)))))))))))))"

definition restore_folder_in_scope ::
  "folder_env \<Rightarrow> workspace_storage_scope \<Rightarrow> int \<Rightarrow> folder_tree_traversal_limits option \<Rightarrow> folder_world
   \<Rightarrow> folder_world \<times> unit aster_result" where
  "restore_folder_in_scope env sc i limits w =
     (case bind_result (require_scope_access_with_db sc (fw_drive w)) (\<lambda>_. restore_folder_transaction env sc i limits w) of
        Inl e \<Rightarrow> (w, Inl e)
      | Inr (w', place) \<Rightarrow> (published_folders env FolderRestoredFromTrash sc [i] [place] w', Inr ()))"

section \<open>Purging\<close>

definition delete_by_folder_ids :: "int list \<Rightarrow> share_row list \<Rightarrow> share_row list \<times> nat" where
  "delete_by_folder_ids ids t =
     (if ids = [] then (t, 0)
      else delete_where (\<lambda>s. case sh_folder_id s of Some i \<Rightarrow> i \<in> set ids | None \<Rightarrow> False) t)"

definition FOLDER_PURGED_EVENT_FILE_IDS_LIMIT :: nat where "FOLDER_PURGED_EVENT_FILE_IDS_LIMIT = 1000"

definition build_folder_purged_storage_event ::
  "time \<Rightarrow> workspace_resource_scope \<Rightarrow> int list \<Rightarrow> int list \<Rightarrow> int option list \<Rightarrow> int \<Rightarrow> storage_change_event" where
  "build_folder_purged_storage_event now sc file_ids folder_ids parents freed =
     with_storage_delta (- freed)
       (if FOLDER_PURGED_EVENT_FILE_IDS_LIMIT < length file_ids
        then event_for_resource_scope now SyncRequired sc [] folder_ids parents
        else event_for_resource_scope now FolderPurged sc file_ids folder_ids parents)"

record folder_purge_summary =
  fs_purged :: nat
  fs_freed_bytes :: int

definition purge_forest_transaction ::
  "folder_env \<Rightarrow> aster_error \<Rightarrow> workspace_resource_scope \<Rightarrow> int list \<Rightarrow> purge_guard \<Rightarrow> folder_world
   \<Rightarrow> (folder_world \<times> (purged_files \<times> folder_table) option) aster_result" where
  "purge_forest_transaction env range_error sc ids g w =
     bind_result (enforce_guard (fe_drive env) g sc (fw_drive w)) (\<lambda>d1.
     let roots = filter (\<lambda>f. fo_deleted_at f \<noteq> None) (folders_by_ids ids (fw_folders w)) in
     bind_result (check_all (\<lambda>f. ensure_folder_resource_scope f sc) roots) (\<lambda>_.
     if roots = [] then Inr (w, None)
     else
     bind_result (collect_folder_forest_in_resource_scope sc (map fo_id roots) True None (fw_folders w) (files_of w)) (\<lambda>(files, all_ids).
     bind_result (purge_files_on (fe_drive env) range_error sc files d1) (\<lambda>(d2, p).
     let properties = delete_all_for_entities ET_Folder all_ids (lg_properties (dr_ledger d2)) in
     bind_result (folder_delete_many all_ids (fw_folders w)) (\<lambda>fs.
     bind_result (detach_files all_ids (lg_files (dr_ledger d2))) (\<lambda>tbl.
     Inr (w\<lparr>fw_drive := d2\<lparr>dr_ledger := (dr_ledger d2)\<lparr>lg_properties := properties, lg_files := tbl\<rparr>,
                           dr_shares := fst (delete_by_folder_ids all_ids (dr_shares d2))\<rparr>,
            fw_folders := fs\<rparr>, Some (p, roots))))))))"

definition purge_folder_forest_in_resource_scope ::
  "folder_env \<Rightarrow> aster_error \<Rightarrow> workspace_resource_scope \<Rightarrow> int list \<Rightarrow> bool \<Rightarrow> purge_guard \<Rightarrow> folder_world
   \<Rightarrow> folder_world \<times> folder_purge_summary aster_result" where
  "purge_folder_forest_in_resource_scope env range_error sc ids emit_event g w =
     (if ids = [] then (w, Inr \<lparr>fs_purged = 0, fs_freed_bytes = 0\<rparr>)
      else
        case purge_forest_transaction env range_error sc ids g w of
          Inl e \<Rightarrow> (w, Inl e)
        | Inr (w1, None) \<Rightarrow> (w1, Inr \<lparr>fs_purged = 0, fs_freed_bytes = 0\<rparr>)
        | Inr (w1, Some (p, roots)) \<Rightarrow>
            let (d2, summary) = finish_purged_files (fe_drive env) p (fw_drive w1);
                d3 = (if emit_event
                      then publish_event (build_folder_purged_storage_event (de_now (fe_drive env)) sc (ps_file_ids summary)
                             (map fo_id roots) (map fo_parent_id roots) (ps_freed_bytes summary)) d2
                      else d2)
            in (w1\<lparr>fw_drive := d3\<rparr>,
                if u32_max < length roots then Inl range_error
                else Inr \<lparr>fs_purged = length roots, fs_freed_bytes = ps_freed_bytes summary\<rparr>))"

definition verify_folder_in_trash_in_scope :: "workspace_storage_scope \<Rightarrow> int \<Rightarrow> folder_world \<Rightarrow> folder_model aster_result" where
  "verify_folder_in_trash_in_scope sc i w =
     bind_result (require_scope_access_with_db sc (fw_drive w)) (\<lambda>_.
     bind_result (folder_by_id i (fw_folders w)) (\<lambda>f.
     bind_result (ensure_folder_scope f sc) (\<lambda>_.
     if fo_deleted_at f = None then Inl (validation_error ''folder is not in trash'') else Inr f)))"

definition purge_folder :: "folder_env \<Rightarrow> aster_error \<Rightarrow> workspace_storage_scope \<Rightarrow> int \<Rightarrow> folder_world \<Rightarrow> folder_world \<times> unit aster_result" where
  "purge_folder env range_error sc i w =
     (case verify_folder_in_trash_in_scope sc i w of
        Inl e \<Rightarrow> (w, Inl e)
      | Inr _ \<Rightarrow>
          (case purge_folder_forest_in_resource_scope env range_error (resource_scope sc) [i] True PG_Mutation w of
             (w', Inl e) \<Rightarrow> (w', Inl e)
           | (w', Inr _) \<Rightarrow> (w', Inr ())))"

end
