(* ===== verification/Folder_System.thy ===== *)
theory Folder_System
  imports Folder_Operations
begin

text \<open>
  The operations on folders and files as steps of one system. Every step keeps \<open>folder_ok\<close>: the folders are a forest
  whose live part is closed upwards, and the books of the drive are exact.
\<close>

section \<open>Changes of the table that keep the forest\<close>

definition folder_shape :: "folder_model \<Rightarrow> int \<times> int option \<times> int option \<times> int option \<times> time option \<times> string" where
  "folder_shape f = (fo_id f, fo_parent_id f, fo_team_id f, fo_owner_user_id f, fo_deleted_at f, fo_name f)"

lemma shape_ws: "folder_shape f = folder_shape g \<Longrightarrow> folder_ws f = folder_ws g \<and> folder_name_key f = folder_name_key g"
  unfolding folder_shape_def prod.inject folder_ws_def folder_name_key_def by (elim conjE) (simp only: simp_thms)

lemma folder_ws_updates [simp]:
  "folder_ws (f\<lparr>fo_parent_id := p\<rparr>) = folder_ws f" "folder_ws (f\<lparr>fo_deleted_at := t\<rparr>) = folder_ws f"
  "folder_ws (f\<lparr>fo_name := n\<rparr>) = folder_ws f" "folder_ws (f\<lparr>fo_updated_at := u\<rparr>) = folder_ws f"
  by (simp_all add: folder_ws_def cong: option.case_cong)

text \<open>A change of rows that keeps ids and workspaces.\<close>

lemma forest_ok_map:
  assumes "forest_ok fs" "folder_constraints (map h fs)" "\<And>f. f \<in> set fs \<Longrightarrow> fo_id (h f) = fo_id f \<and> folder_ws (h f) = folder_ws f"
    and "\<And>f p. f \<in> set fs \<Longrightarrow> fo_parent_id (h f) = Some p \<Longrightarrow>
           \<exists>g \<in> set fs. fo_id g = p \<and> folder_ws g = folder_ws f \<and> (fo_deleted_at (h f) = None \<longrightarrow> fo_deleted_at (h g) = None)"
    and "acyclic (parent_edges (map h fs))"
  shows "forest_ok (map h fs)"
proof -
  have "parents_ok (map h fs)"
    unfolding parents_ok_def
  proof (intro ballI conjI allI impI)
    fix f' assume "f' \<in> set (map h fs)"
    then obtain f where f: "f \<in> set fs" "f' = h f" by auto
    then show "folder_ws f' \<noteq> None" using assms(3) [OF f(1)] forest_okD(4) [OF assms(1) f(1)] by simp
    fix p assume "fo_parent_id f' = Some p"
    then obtain g where "g \<in> set fs" "fo_id g = p" "folder_ws g = folder_ws f" "fo_deleted_at (h f) = None \<longrightarrow> fo_deleted_at (h g) = None"
      using assms(4) [OF f(1)] f(2) by blast
    then show "\<exists>g \<in> set (map h fs). fo_id g = p \<and> folder_ws g = folder_ws f' \<and> (fo_deleted_at f' = None \<longrightarrow> fo_deleted_at g = None)"
      using assms(3) f by (intro bexI [of _ "h g"]) auto
  qed
  then show ?thesis using assms(2,5) by (simp add: forest_ok_def)
qed

lemma parent_edges_map:
  assumes "\<And>f. f \<in> set fs \<Longrightarrow> fo_id (h f) = fo_id f \<and> (fo_parent_id (h f) = fo_parent_id f \<or> fo_parent_id (h f) = None)"
  shows "parent_edges (map h fs) \<subseteq> parent_edges fs"
proof
  fix e assume "e \<in> parent_edges (map h fs)"
  then obtain f p where "f \<in> set fs" "e = (fo_id (h f), p)" "fo_parent_id (h f) = Some p" by (auto simp: parent_edges_def)
  then show "e \<in> parent_edges fs" using assms by (fastforce simp: parent_edges_def)
qed

lemma keys_fewer:
  assumes "distinct (List.map_filter k fs)" "\<And>f. f \<in> set fs \<Longrightarrow> k (h f) = k f \<or> k (h f) = None"
  shows "distinct (List.map_filter k (map h fs))"
  using assms
proof (induction fs)
  case (Cons f fs)
  have "set (List.map_filter k (map h fs)) \<subseteq> set (List.map_filter k fs)"
  proof
    fix v assume "v \<in> set (List.map_filter k (map h fs))"
    then obtain g where "g \<in> set fs" "k (h g) = Some v" by (auto simp: set_map_filter)
    then show "v \<in> set (List.map_filter k fs)" using Cons.prems(2) [of g] by (auto simp: set_map_filter)
  qed
  moreover have "distinct (List.map_filter k (map h fs))" using Cons by (auto simp: List.map_filter_simps split: option.splits)
  ultimately show ?case using Cons.prems(1) Cons.prems(2) [of f]
    by (cases "k (h f)"; cases "k f") (auto simp: List.map_filter_simps)
qed (simp add: List.map_filter_simps)

lemma unique_ids_map: "(\<And>f. f \<in> set fs \<Longrightarrow> fo_id (h f) = fo_id f) \<Longrightarrow> unique_key fo_id (map h fs) = unique_key fo_id fs"
proof -
  assume "\<And>f. f \<in> set fs \<Longrightarrow> fo_id (h f) = fo_id f"
  then have "map fo_id (map h fs) = map fo_id fs" by simp
  then show ?thesis by (simp only: unique_key_def)
qed

text \<open>Columns that no pointer, name or scope depends on.\<close>

lemma forest_ok_shape:
  assumes "forest_ok fs" "\<And>f. f \<in> set fs \<Longrightarrow> folder_shape (h f) = folder_shape f"
  shows "forest_ok (map h fs)"
proof (rule forest_ok_map [OF assms(1)])
  have s: "fo_id (h f) = fo_id f" "fo_parent_id (h f) = fo_parent_id f" "fo_deleted_at (h f) = fo_deleted_at f"
      "folder_ws (h f) = folder_ws f" "folder_name_key (h f) = folder_name_key f" if "f \<in> set fs" for f
    using assms(2) [OF that] shape_ws [OF assms(2) [OF that]] by (simp_all add: folder_shape_def)
  show "folder_constraints (map h fs)"
    using forest_okD(1,2) [OF assms(1)] unique_ids_map [of fs h] keys_fewer [of folder_name_key fs h] s
    by (simp add: folder_constraints_def folder_names_unique_def)
  show "acyclic (parent_edges (map h fs))"
    using acyclic_subset [OF forest_okD(3) [OF assms(1)] parent_edges_map] s by blast
  show "\<exists>g \<in> set fs. fo_id g = p \<and> folder_ws g = folder_ws f \<and> (fo_deleted_at (h f) = None \<longrightarrow> fo_deleted_at (h g) = None)"
    if "f \<in> set fs" "fo_parent_id (h f) = Some p" for f p
    using forest_okD(5) [OF assms(1) that(1), of p] that s by auto
  show "fo_id (h f) = fo_id f \<and> folder_ws (h f) = folder_ws f" if "f \<in> set fs" for f using s that by simp
qed

lemma forest_ok_append:
  assumes "forest_ok fs" "folder_constraints (fs @ [f])" "folder_ws f \<noteq> None" "fo_deleted_at f = None"
    and "\<And>p. fo_parent_id f = Some p \<Longrightarrow> \<exists>g \<in> set fs. fo_id g = p \<and> folder_ws g = folder_ws f \<and> fo_deleted_at g = None"
  shows "forest_ok (fs @ [f])"
proof -
  have new: "fo_id f \<notin> fo_id ` set fs" using assms(2) by (auto simp: folder_constraints_def unique_key_def)
  have p: "parents_ok (fs @ [f])" using assms forest_okD(4,5) [OF assms(1)] by (fastforce simp: parents_ok_def)
  have into: "j \<in> fo_id ` set fs" if "(i, j) \<in> parent_edges fs" for i j
    using that forest_okD(5) [OF assms(1)] by (fastforce simp: parent_edges_def)
  have "acyclic (parent_edges (fs @ [f]))"
  proof (cases "fo_parent_id f")
    case None
    then have "parent_edges (fs @ [f]) = parent_edges fs" by (auto simp: parent_edges_def)
    then show ?thesis using forest_okD(3) [OF assms(1)] by simp
  next
    case (Some q)
    then have "parent_edges (fs @ [f]) = insert (fo_id f, q) (parent_edges fs)" by (auto simp: parent_edges_def)
    moreover have "(q, fo_id f) \<notin> (parent_edges fs)\<^sup>*"
    proof
      assume "(q, fo_id f) \<in> (parent_edges fs)\<^sup>*"
      moreover have "q \<in> fo_id ` set fs" using assms(5) [OF Some] by blast
      ultimately have "fo_id f \<in> fo_id ` set fs" by (cases rule: rtranclE) (simp_all add: into)
      then show False using new by simp
    qed
    ultimately show ?thesis using forest_okD(3) [OF assms(1)] by (simp add: acyclic_insert)
  qed
  then show ?thesis using p assms(2) by (simp add: forest_ok_def)
qed

text \<open>A new place for one folder: the chain of the new parent must not lead back to it.\<close>

lemma forest_ok_move:
  assumes "forest_ok fs" "folder_constraints (map h fs)"
    and h: "\<And>f. f \<in> set fs \<Longrightarrow> fo_id (h f) = fo_id f \<and> folder_ws (h f) = folder_ws f \<and> fo_deleted_at (h f) = fo_deleted_at f
          \<and> fo_parent_id (h f) = (if fo_id f = i then target else fo_parent_id f)"
    and t: "\<And>f p. f \<in> set fs \<Longrightarrow> fo_id f = i \<Longrightarrow> target = Some p \<Longrightarrow> (p, i) \<notin> (parent_edges fs)\<^sup>*
          \<and> (\<exists>g \<in> set fs. fo_id g = p \<and> folder_ws g = folder_ws f \<and> fo_deleted_at g = None)"
  shows "forest_ok (map h fs)"
proof (cases "i \<in> fo_id ` set fs")
  case False
  then have "map h fs = map h fs \<and> (\<forall>f \<in> set fs. fo_parent_id (h f) = fo_parent_id f)" using h by auto
  then show ?thesis
    using forest_okD(5) [OF assms(1)] h acyclic_subset [OF forest_okD(3) [OF assms(1)] parent_edges_map [of fs h]]
    by (intro forest_ok_map [OF assms(1,2)]) auto
next
  case True
  then obtain x where x: "x \<in> set fs" "fo_id x = i" by auto
  show ?thesis
  proof (rule forest_ok_map [OF assms(1,2)])
    show "\<exists>g \<in> set fs. fo_id g = p \<and> folder_ws g = folder_ws f \<and> (fo_deleted_at (h f) = None \<longrightarrow> fo_deleted_at (h g) = None)"
      if "f \<in> set fs" "fo_parent_id (h f) = Some p" for f p
      using that h [OF that(1)] forest_okD(5) [OF assms(1) that(1), of p] t [OF that(1)] h by (cases "fo_id f = i") fastforce+
    show "acyclic (parent_edges (map h fs))"
    proof (cases target)
      case None
      then have "parent_edges (map h fs) \<subseteq> parent_edges fs" using h by (intro parent_edges_map) auto
      then show ?thesis using acyclic_subset [OF forest_okD(3) [OF assms(1)]] by blast
    next
      case (Some p)
      then have "parent_edges (map h fs) \<subseteq> insert (i, p) (parent_edges fs)"
        using h by (fastforce simp: parent_edges_def split: if_splits)
      moreover have "acyclic (insert (i, p) (parent_edges fs))"
        using t [OF x Some] forest_okD(3) [OF assms(1)] by (simp add: acyclic_insert)
      ultimately show ?thesis using acyclic_subset by blast
    qed
  qed (use h in auto)
qed

lemma forest_ok_trash:
  assumes "forest_ok fs" "\<And>f p. f \<in> set fs \<Longrightarrow> fo_deleted_at f = None \<Longrightarrow> fo_parent_id f = Some p \<Longrightarrow> p \<in> set ids \<Longrightarrow> fo_id f \<in> set ids"
  shows "forest_ok (folder_soft_delete_many ids now fs)"
proof (cases "ids = []")
  case False
  let ?h = "\<lambda>f. if fo_id f \<in> set ids then f\<lparr>fo_deleted_at := Some now\<rparr> else f"
  have keep: "fo_id (?h f) = fo_id f" "fo_parent_id (?h f) = fo_parent_id f" "folder_ws (?h f) = folder_ws f" for f
    by simp_all
  have "forest_ok (map ?h fs)"
  proof (rule forest_ok_map [OF assms(1)])
    show "folder_constraints (map ?h fs)"
    proof -
      have "folder_name_key (?h f) = folder_name_key f \<or> folder_name_key (?h f) = None" for f
        by (cases "fo_id f \<in> set ids") (simp_all add: folder_name_key_def)
      then have "distinct (List.map_filter folder_name_key (map ?h fs))"
        using forest_okD(2) [OF assms(1)] by (intro keys_fewer) (simp_all add: folder_names_unique_def)
      then show ?thesis using forest_okD(1) [OF assms(1)] unique_ids_map [of fs ?h] keep(1)
        by (simp add: folder_constraints_def folder_names_unique_def)
    qed
    show "\<exists>g \<in> set fs. fo_id g = p \<and> folder_ws g = folder_ws f \<and> (fo_deleted_at (?h f) = None \<longrightarrow> fo_deleted_at (?h g) = None)"
      if x: "f \<in> set fs" "fo_parent_id (?h f) = Some p" for f p
    proof -
      have p: "fo_parent_id f = Some p" using x(2) keep(2) by simp
      then obtain g where g: "g \<in> set fs" "fo_id g = p" "folder_ws g = folder_ws f" "fo_deleted_at f = None \<longrightarrow> fo_deleted_at g = None"
        using forest_okD(5) [OF assms(1) x(1)] by blast
      then show ?thesis using assms(2) [OF x(1) _ p] by (intro bexI [of _ g]) auto
    qed
    show "acyclic (parent_edges (map ?h fs))"
      using acyclic_subset [OF forest_okD(3) [OF assms(1)] parent_edges_map [of fs ?h]] keep by simp
  qed (use keep in simp)
  then show ?thesis using False by (simp add: folder_soft_delete_many_def)
qed (use assms(1) in \<open>simp add: folder_soft_delete_many_def\<close>)

lemma forest_ok_undelete:
  assumes "forest_ok fs" "folder_restore_many ids fs = Inr fs'"
    and "\<And>f p. f \<in> set fs \<Longrightarrow> fo_id f \<in> set ids \<Longrightarrow> fo_parent_id f = Some p \<Longrightarrow>
           p \<in> set ids \<or> (\<forall>g \<in> set fs. fo_id g = p \<longrightarrow> fo_deleted_at g = None)"
  shows "forest_ok fs'"
proof (cases "ids = []")
  case False
  let ?h = "\<lambda>f. if fo_id f \<in> set ids then f\<lparr>fo_deleted_at := None\<rparr> else f"
  have keep: "fo_id (?h f) = fo_id f" "fo_parent_id (?h f) = fo_parent_id f" "folder_ws (?h f) = folder_ws f" for f
    by simp_all
  have fs': "fs' = map ?h fs" "folder_constraints (map ?h fs)"
    using assms(2) False by (auto simp: folder_restore_many_def checked_folders_def ok_or_def split: if_splits)
  show ?thesis unfolding fs'(1)
  proof (rule forest_ok_map [OF assms(1) fs'(2)])
    show "\<exists>g \<in> set fs. fo_id g = p \<and> folder_ws g = folder_ws f \<and> (fo_deleted_at (?h f) = None \<longrightarrow> fo_deleted_at (?h g) = None)"
      if x: "f \<in> set fs" "fo_parent_id (?h f) = Some p" for f p
    proof -
      have p: "fo_parent_id f = Some p" using x(2) keep(2) by simp
      then obtain g where g: "g \<in> set fs" "fo_id g = p" "folder_ws g = folder_ws f" "fo_deleted_at f = None \<longrightarrow> fo_deleted_at g = None"
        using forest_okD(5) [OF assms(1) x(1)] by blast
      then show ?thesis using assms(3) [OF x(1) _ p] by (intro bexI [of _ g]) auto
    qed
    show "acyclic (parent_edges (map ?h fs))"
      using acyclic_subset [OF forest_okD(3) [OF assms(1)] parent_edges_map [of fs ?h]] keep by simp
  qed (use keep in simp)
qed (use assms(1,2) in \<open>simp add: folder_restore_many_def\<close>)

lemma folder_update_Some: "folder_update f fs = Some fs' \<longleftrightarrow> fs' = map (\<lambda>g. if fo_id g = fo_id f then f else g) fs \<and> folder_constraints fs'"
  by (auto simp: folder_update_def checked_folders_def)

text \<open>A folder that comes back from the trash, under its parent or in the root.\<close>

lemma forest_ok_revive:
  assumes "forest_ok fs" "f \<in> set fs" "folder_update (f\<lparr>fo_parent_id := place, fo_deleted_at := None\<rparr>) fs = Some fs'"
    and "place = None \<or> place = fo_parent_id f \<and> (\<forall>p. place = Some p \<longrightarrow> (\<forall>g \<in> set fs. fo_id g = p \<longrightarrow> fo_deleted_at g = None))"
  shows "forest_ok fs'"
proof -
  let ?f = "f\<lparr>fo_parent_id := place, fo_deleted_at := None\<rparr>"
  let ?h = "\<lambda>g. if fo_id g = fo_id f then ?f else g"
  have fs': "fs' = map ?h fs" "folder_constraints (map ?h fs)" using assms(3) by (auto simp: folder_update_Some)
  have same: "g = f" if "g \<in> set fs" "fo_id g = fo_id f" for g using unique_key_inj [OF forest_okD(1) [OF assms(1)] that(1) assms(2) that(2)] .
  have keep: "fo_id (?h g) = fo_id g" "folder_ws (?h g) = folder_ws g" "fo_parent_id (?h g) = fo_parent_id g \<or> fo_parent_id (?h g) = None"
    if "g \<in> set fs" for g using same [OF that] assms(4) by auto
  show ?thesis unfolding fs'(1)
  proof (rule forest_ok_map [OF assms(1) fs'(2)])
    show "\<exists>g \<in> set fs. fo_id g = p \<and> folder_ws g = folder_ws x \<and> (fo_deleted_at (?h x) = None \<longrightarrow> fo_deleted_at (?h g) = None)"
      if y: "x \<in> set fs" "fo_parent_id (?h x) = Some p" for x p
    proof -
      have p: "fo_parent_id x = Some p" using y(2) keep(3) [OF y(1)] by (elim disjE) (simp_all only: option.distinct)
      obtain g where g: "g \<in> set fs" "fo_id g = p" "folder_ws g = folder_ws x" "fo_deleted_at x = None \<longrightarrow> fo_deleted_at g = None"
        using forest_okD(5) [OF assms(1) y(1) p] by (elim bexE conjE)
      have "fo_deleted_at (?h x) = None \<longrightarrow> fo_deleted_at (?h g) = None"
      proof (cases "fo_id g = fo_id f")
        case False
        then have d: "fo_deleted_at (?h g) = fo_deleted_at g" by simp
        show ?thesis
        proof (cases "fo_id x = fo_id f")
          case True
          then have "place = Some p" using y(2) by simp
          then show ?thesis unfolding d using assms(4) g(1,2) by blast
        qed (use d g(4) in simp)
      qed simp
      then show ?thesis using g(1-3) by (intro bexI [of _ g] conjI)
    qed
    show "acyclic (parent_edges (map ?h fs))"
      using acyclic_subset [OF forest_okD(3) [OF assms(1)] parent_edges_map [of fs ?h]] keep by simp
  qed (use keep in simp)
qed

lemma forest_ok_purge:
  assumes "forest_ok fs" "folder_delete_many ids fs = Inr fs'"
  shows "forest_ok fs'"
proof (cases "ids = []")
  case False
  let ?h = "\<lambda>f. if in_parents ids f then f\<lparr>fo_parent_id := None\<rparr> else f" and ?rest = "filter (\<lambda>f. fo_id f \<notin> set ids) fs"
  have fs': "fs' = map ?h ?rest" "folder_constraints fs'"
    using assms(2) False by (auto simp: folder_delete_many_def checked_folders_def ok_or_def split: if_splits)
  have keep: "fo_id (?h f) = fo_id f" "folder_ws (?h f) = folder_ws f" "fo_deleted_at (?h f) = fo_deleted_at f"
      "fo_parent_id (?h f) = fo_parent_id f \<or> fo_parent_id (?h f) = None" for f
    by auto
  have "parents_ok (map ?h ?rest)"
    unfolding parents_ok_def
  proof (intro ballI conjI allI impI)
    fix f' assume "f' \<in> set (map ?h ?rest)"
    then obtain f where f: "f \<in> set fs" "fo_id f \<notin> set ids" "f' = ?h f" by auto
    then show "folder_ws f' \<noteq> None" using keep(2) forest_okD(4) [OF assms(1) f(1)] by metis
    fix p assume "fo_parent_id f' = Some p"
    then have p: "fo_parent_id f = Some p" "p \<notin> set ids" using f(3) by (auto simp: in_parents_def split: if_splits)
    then obtain g where g: "g \<in> set fs" "fo_id g = p" "folder_ws g = folder_ws f" "fo_deleted_at f = None \<longrightarrow> fo_deleted_at g = None"
      using forest_okD(5) [OF assms(1) f(1)] by blast
    then have "?h g \<in> set (map ?h ?rest)" using p(2) by auto
    moreover have "fo_id (?h g) = p" "folder_ws (?h g) = folder_ws f'" "fo_deleted_at f' = None \<longrightarrow> fo_deleted_at (?h g) = None"
      using g keep(1-3) [of g] keep(1-3) [of f] f(3) by (simp_all only: simp_thms)
    ultimately show "\<exists>g \<in> set (map ?h ?rest). fo_id g = p \<and> folder_ws g = folder_ws f' \<and> (fo_deleted_at f' = None \<longrightarrow> fo_deleted_at g = None)"
      by (intro bexI [of _ "?h g"]) (simp_all only: simp_thms)
  qed
  moreover have "parent_edges (map ?h ?rest) \<subseteq> parent_edges ?rest" by (rule parent_edges_map) (intro conjI keep(1,4))
  then have "acyclic (parent_edges (map ?h ?rest))"
    by (rule acyclic_subset [OF forest_okD(3) [OF assms(1)] order_trans]) (auto simp: parent_edges_def)
  ultimately show ?thesis using fs' by (simp only: forest_ok_def simp_thms)
qed (use assms in \<open>simp add: folder_delete_many_def\<close>)

lemma touch_keeps [simp]:
  "folder_shape (folder_modified_columns env ctx f) = folder_shape f"
  "forest_ok fs \<Longrightarrow> forest_ok (touch_folders env ctx ids fs)"
proof -
  show s: "folder_shape (folder_modified_columns env ctx f) = folder_shape f" for f by (simp add: folder_shape_def folder_modified_columns_def)
  assume "forest_ok fs"
  then show "forest_ok (touch_folders env ctx ids fs)" using forest_ok_shape [of fs] s by (simp add: touch_folders_def)
qed

lemma touch_chunks_keeps [simp]: "forest_ok fs \<Longrightarrow> forest_ok (touch_folder_chunks env ctx cs fs)"
  by (induction cs arbitrary: fs) auto

section \<open>Changes that no place depends on\<close>

definition folder_ok :: "folder_world \<Rightarrow> bool" where
  "folder_ok w = (drive_ok (fw_drive w) \<and> forest_ok (fw_folders w))"

definition file_shape :: "file_model \<Rightarrow> (int \<times> int option \<times> int option \<times> int \<times> int) \<times> int option \<times> string \<times> time option" where
  "file_shape f = ((fm_id f, fm_team_id f, fm_owner_user_id f, fm_blob_id f, fm_size f), fm_folder_id f, fm_name f, fm_deleted_at f)"

text \<open>Locks, activities, events and the columns of who has modified an entry.\<close>

definition tame :: "folder_world \<Rightarrow> folder_world \<Rightarrow> bool" where
  "tame w w' = (\<exists>g h. (\<forall>f. file_shape (g f) = file_shape f) \<and> (\<forall>f. folder_shape (h f) = folder_shape f)
     \<and> fw_folders w' = map h (fw_folders w) \<and> same_tables (fw_drive w') (with_files (map g (files_of w)) (fw_drive w)))"

lemma tameI:
  assumes "\<And>f. file_shape (g f) = file_shape f" "\<And>f. folder_shape (h f) = folder_shape f" "fw_folders w' = map h (fw_folders w)"
    "same_tables (fw_drive w') (with_files (map g (files_of w)) (fw_drive w))"
  shows "tame w w'"
  using assms by (auto simp: tame_def)

lemma tameE:
  assumes "tame w w'"
  obtains g h where "\<forall>f. file_shape (g f) = file_shape f" "\<forall>f. folder_shape (h f) = folder_shape f"
    "fw_folders w' = map h (fw_folders w)" "same_tables (fw_drive w') (with_files (map g (files_of w)) (fw_drive w))"
  using assms unfolding tame_def by blast

lemma tame_same: "fw_folders w' = fw_folders w \<Longrightarrow> same_tables (fw_drive w') (fw_drive w) \<Longrightarrow> tame w w'"
  by (rule tameI [of id id]) (simp_all add: files_of_def same_tables_def)

lemma tame_refl [simp]: "tame w w"
  by (rule tame_same) (simp_all add: same_tables_def)

lemma tame_trans [trans]: "tame w1 w2 \<Longrightarrow> tame w2 w3 \<Longrightarrow> tame w1 w3"
proof -
  assume t: "tame w1 w2" "tame w2 w3"
  obtain g1 h1 where a: "\<forall>f. file_shape (g1 f) = file_shape f" "\<forall>f. folder_shape (h1 f) = folder_shape f"
      "fw_folders w2 = map h1 (fw_folders w1)" "same_tables (fw_drive w2) (with_files (map g1 (files_of w1)) (fw_drive w1))"
    by (rule tameE [OF t(1)])
  obtain g2 h2 where "\<forall>f. file_shape (g2 f) = file_shape f" "\<forall>f. folder_shape (h2 f) = folder_shape f"
      "fw_folders w3 = map h2 (fw_folders w2)" "same_tables (fw_drive w3) (with_files (map g2 (files_of w2)) (fw_drive w2))"
    by (rule tameE [OF t(2)])
  then show ?thesis using a by (intro tameI [of "g2 \<circ> g1" "h2 \<circ> h1"]) (simp_all add: same_tables_def files_of_def)
qed

lemma tame_shapes:
  assumes "tame w w'"
  shows "map folder_shape (fw_folders w') = map folder_shape (fw_folders w)" "map file_shape (files_of w') = map file_shape (files_of w)"
  using assms by (auto simp: tame_def same_tables_def files_of_def)

lemma shape_place: "file_shape (g f) = file_shape f \<Longrightarrow> fm_id (g f) = fm_id f \<and> fm_team_id (g f) = fm_team_id f
    \<and> fm_owner_user_id (g f) = fm_owner_user_id f \<and> fm_blob_id (g f) = fm_blob_id f \<and> fm_size (g f) = fm_size f"
  by (simp add: file_shape_def)

lemma tame_ok:
  assumes "tame w w'"
  shows "drive_ok (fw_drive w) \<Longrightarrow> drive_ok (fw_drive w')" "forest_ok (fw_folders w) \<Longrightarrow> forest_ok (fw_folders w')"
    "folder_ok w \<Longrightarrow> folder_ok w'" "env_apart env (fw_drive w) \<Longrightarrow> env_apart env (fw_drive w')"
proof -
  obtain g h where t: "\<forall>f. file_shape (g f) = file_shape f" "\<forall>f. folder_shape (h f) = folder_shape f"
      "fw_folders w' = map h (fw_folders w)" "same_tables (fw_drive w') (with_files (map g (files_of w)) (fw_drive w))"
    by (rule tameE [OF assms])
  have g: "places_only g" using shape_place t(1) by (simp add: places_only_def)
  show d: "drive_ok (fw_drive w) \<Longrightarrow> drive_ok (fw_drive w')"
    using map_files_keeps [OF g] same_tables_ok(1) [OF t(4)] by (simp add: files_of_def)
  show f: "forest_ok (fw_folders w) \<Longrightarrow> forest_ok (fw_folders w')" using forest_ok_shape t(2,3) by simp
  show "folder_ok w \<Longrightarrow> folder_ok w'" using d f by (simp add: folder_ok_def)
  show "env_apart env (fw_drive w) \<Longrightarrow> env_apart env (fw_drive w')" using t(4) by (simp add: env_apart_def same_tables_def)
qed

lemma synced_same [simp]: "same_tables (synced w) (fw_drive w)"
  by (simp add: synced_def same_tables_def)

lemma same_tables_trans: "same_tables a b \<Longrightarrow> same_tables b c \<Longrightarrow> same_tables a c"
  by (simp add: same_tables_def)

lemma locks_same [simp]: "same_tables (with_locks d db) d" "same_tables (publish_event e d) d" "same_tables (d\<lparr>dr_tasks := t\<rparr>) d"
  by (simp_all add: same_tables_def publish_event_def)

text \<open>The checks: they change locks at most.\<close>

definition checked :: "folder_world \<Rightarrow> folder_world \<Rightarrow> bool" where
  "checked w w' = (fw_folders w' = fw_folders w \<and> same_tables (fw_drive w') (fw_drive w))"

lemma checked_refl [simp]: "checked w w"
  by (simp add: checked_def same_tables_def)

lemma checked_trans [trans]: "checked w1 w2 \<Longrightarrow> checked w2 w3 \<Longrightarrow> checked w1 w3"
  by (auto simp: checked_def intro: same_tables_trans)

lemma checked_tame: "checked w w' \<Longrightarrow> tame w w'"
  by (simp add: checked_def tame_same)

lemma checkedD: "checked w w' \<Longrightarrow> fw_folders w' = fw_folders w" "checked w w' \<Longrightarrow> files_of w' = files_of w"
  by (simp_all add: checked_def same_tables_def files_of_def)

lemma with_checks [simp]:
  "checked w (w\<lparr>fw_drive := with_locks (synced w) db\<rparr>)" "checked w (w\<lparr>fw_drive := (fw_drive w)\<lparr>dr_tasks := t\<rparr>\<rparr>)"
  using same_tables_trans [OF locks_same(1) synced_same] by (auto simp: checked_def)

lemma checks:
  "admit_folder_mutation env sc w = Inr w' \<Longrightarrow> checked w w'"
  "enforce_folder_membership env ws parent cr w = Inr w' \<Longrightarrow> checked w w'"
  "enforce_folder_mutation env f depth cr w = Inr (w', current) \<Longrightarrow> checked w w'"
  by (auto simp: admit_folder_mutation_def enforce_folder_membership_def enforce_folder_mutation_def bind_result_Inr_iff)

lemma move_checks: "check_move env current target w = Inr w' \<Longrightarrow> checked w w'"
  by (auto simp: check_move_def bind_result_Inr_iff split: if_splits dest!: checks(2) intro: checked_trans)

lemma file_check_same: "enforce_file_mutation env f cr d = Inr (d', current) \<Longrightarrow> same_tables d' d"
  by (auto simp: enforce_file_mutation_def bind_result_Inr_iff case_prod_beta)

lemma file_checks: "enforce_files env fs w = Inr w' \<Longrightarrow> checked w w'"
proof (induction fs arbitrary: w)
  case (Cons f fs)
  then obtain d c where d: "enforce_file_mutation env f no_credentials (synced w) = Inr (d, c)" "enforce_files env fs (w\<lparr>fw_drive := d\<rparr>) = Inr w'"
    by (auto simp: bind_result_Inr_iff)
  from d(1) have "checked w (w\<lparr>fw_drive := d\<rparr>)"
    using same_tables_trans [OF file_check_same synced_same] by (auto simp: checked_def)
  then show ?case using checked_trans Cons.IH [OF d(2)] by blast
qed simp

lemma descendant_checks: "enforce_descendants env ids w = Inr w' \<Longrightarrow> checked w w'"
proof (induction ids arbitrary: w)
  case (Cons i ids)
  then show ?case by (auto simp: bind_result_Inr_iff intro: checked_trans [OF checks(3)])
qed simp

section \<open>Statements\<close>

lemma locked_folder:
  assumes "enforce_folder_mutation env f depth cr w = Inr (w', current)"
  shows "find_key fo_id (fo_id f) (fw_folders w) = Some current" "current \<in> set (fw_folders w)" "fo_id current = fo_id f"
proof -
  obtain db row where r: "enforce_folder_mutation_on (de_locks env) (folder_row.truncate f) depth cr (lock_view (synced w)) = Inr (db, row)"
      "folder_by_id (fo_id row) (fw_folders w) = Inr current"
    using assms by (auto simp: enforce_folder_mutation_def bind_result_Inr_iff)
  have "fo_id row = fo_id (folder_row.truncate f)"
    using r(1) by (auto simp: enforce_folder_mutation_on_def bind_result_Inr_iff Let_def case_prod_beta folder_lock_by_id_def folder_find_by_id_def
        split: if_splits option.splits dest!: find_key_SomeD)
  then show "find_key fo_id (fo_id f) (fw_folders w) = Some current" using r(2) by (simp add: folder_by_id_Inr folder_row.truncate_def)
  then show "current \<in> set (fw_folders w)" "fo_id current = fo_id f" by (auto dest: find_key_SomeD)
qed

lemma append_same:
  "append_activity a d = Inr d' \<Longrightarrow> same_tables d' d" "append_many as d = Inr d' \<Longrightarrow> same_tables d' d"
  "folder_created env f src d = Inr d' \<Longrightarrow> same_tables d' d"
  by (auto simp: append_activity_def append_many_def folder_created_def bind_result_Inr_iff same_tables_def)

lemma on_drive_Inr: "on_drive g w = Inr w' \<longleftrightarrow> (\<exists>d. g (fw_drive w) = Inr d \<and> w' = w\<lparr>fw_drive := d\<rparr>)"
  by (auto simp: on_drive_def bind_result_Inr_iff)

lemma touched_folders:
  "\<exists>h. (\<forall>f. folder_shape (h f) = folder_shape f) \<and> touch_folders env ctx ids fs = map h fs"
  by (intro exI [of _ "\<lambda>f. if fo_id f \<in> set ids then folder_modified_columns env ctx f else f"]) (simp add: touch_folders_def)

lemma touched_folder_chunks:
  "\<exists>h. (\<forall>f. folder_shape (h f) = folder_shape f) \<and> touch_folder_chunks env ctx cs fs = map h fs"
proof (induction cs arbitrary: fs)
  case (Cons ids cs)
  obtain h1 where h1: "\<forall>f. folder_shape (h1 f) = folder_shape f" "touch_folders env ctx ids fs = map h1 fs" using touched_folders by blast
  obtain h2 where "\<forall>f. folder_shape (h2 f) = folder_shape f" "touch_folder_chunks env ctx cs (map h1 fs) = map h2 (map h1 fs)" using Cons by blast
  then show ?case using h1 by (intro exI [of _ "h2 \<circ> h1"]) simp
qed (auto intro: exI [of _ id])

lemma touched_files:
  "\<exists>g. (\<forall>f. file_shape (g f) = file_shape f) \<and> touch_files env ctx cs fs = map g fs"
proof (induction cs arbitrary: fs)
  case (Cons ids cs)
  let ?g = "\<lambda>f. if fm_id f \<in> set ids then modified_columns env ctx f else f"
  obtain g where "\<forall>f. file_shape (g f) = file_shape f" "touch_files env ctx cs (map ?g fs) = map g (map ?g fs)" using Cons by blast
  moreover have "file_shape (?g f) = file_shape f" for f by (simp add: file_shape_def modified_columns_def)
  ultimately show ?case by (intro exI [of _ "g \<circ> ?g"]) (simp add: update_where_def)
qed (auto intro: exI [of _ id])

lemma tame_folders:
  assumes "\<exists>h. (\<forall>f. folder_shape (h f) = folder_shape f) \<and> fs = map h (fw_folders w)" "same_tables d (fw_drive w)"
  shows "tame w (w\<lparr>fw_drive := d, fw_folders := fs\<rparr>)" "tame w (w\<lparr>fw_folders := fs, fw_drive := d\<rparr>)"
proof -
  obtain h where h: "\<forall>f. folder_shape (h f) = folder_shape f" "fs = map h (fw_folders w)" using assms(1) by blast
  show "tame w (w\<lparr>fw_drive := d, fw_folders := fs\<rparr>)" by (rule tameI [of id h]) (use h assms(2) in \<open>simp_all add: files_of_def same_tables_def\<close>)
  show "tame w (w\<lparr>fw_folders := fs, fw_drive := d\<rparr>)" by (rule tameI [of id h]) (use h assms(2) in \<open>simp_all add: files_of_def same_tables_def\<close>)
qed

lemma folder_changed_Inr:
  assumes "folder_changed env ctx before after action w = Inr (w', after')"
  shows "tame w w'" "after' = folder_modified_columns env ctx after"
  using assms touched_folders [of env ctx "[fo_id after]" "fw_folders w"]
  by (auto simp: folder_changed_def bind_result_Inr_iff Let_def on_drive_Inr intro!: tame_folders dest: append_same)

lemma folder_batch_tame: "persist_folder_batch env ctx action n fs w = Inr w' \<Longrightarrow> tame w w'"
  using touched_folder_chunks [of "fe_drive env" ctx "chunks 400 (map fo_id fs)" "fw_folders w"]
  by (auto simp: persist_folder_batch_def on_drive_Inr intro!: tame_folders dest: append_same)

lemma file_batch_tame:
  assumes "persist_file_batch env ctx action n fs w = Inr w'"
  shows "tame w w'"
proof -
  let ?t = "touch_files (fe_drive env) ctx (chunks 400 (map fm_id fs)) (files_of w)"
  obtain d where d: "append_many (map (file_lifecycle_record env ctx action) (enumerate n fs)) (with_files ?t (fw_drive w)) = Inr d"
      "w' = w\<lparr>fw_drive := d\<rparr>"
    using assms by (auto simp: persist_file_batch_def on_drive_Inr)
  obtain g where g: "\<forall>f. file_shape (g f) = file_shape f" "?t = map g (files_of w)" using touched_files by blast
  show ?thesis by (rule tameI [of g id]) (use g d(2) append_same(2) [OF d(1)] in simp_all)
qed

lemma record_deleted_tame:
  "record_deleted_files env ctx n cs w = Inr w' \<Longrightarrow> tame w w'"
  "record_deleted_folders env ctx n cs w = Inr w' \<Longrightarrow> tame w w'"
  by (induction cs arbitrary: n w)
    (auto simp: bind_result_Inr_iff Let_def intro: tame_trans [OF file_batch_tame] tame_trans [OF folder_batch_tame])

section \<open>Operations keep the forest and the books\<close>

lemma folder_ok_files: "folder_ok w \<Longrightarrow> unique_key fm_id (files_of w)"
  using drive_pendingD(2) by (auto simp: folder_ok_def drive_ok_def files_ok_def files_of_def)

lemma folder_okI: "drive_ok (fw_drive w) \<Longrightarrow> same_tables d (fw_drive w) \<Longrightarrow> forest_ok fs \<Longrightarrow> folder_ok (w\<lparr>fw_folders := fs, fw_drive := d\<rparr>)"
  using same_tables_ok(1) by (simp add: folder_ok_def)

lemma published_ok: "folder_ok (published_folders env kind sc ids parents w) = folder_ok w"
  using tame_ok(3) [OF tame_same] by (simp add: published_folders_def folder_ok_def same_tables_ok(1) [OF locks_same(2)])

definition parent_live :: "workspace_storage_scope \<Rightarrow> int option \<Rightarrow> folder_table \<Rightarrow> bool" where
  "parent_live sc parent fs =
     (\<forall>p. parent = Some p \<longrightarrow> (\<exists>g \<in> set fs. fo_id g = p \<and> folder_ws g = Some (resource_scope sc) \<and> fo_deleted_at g = None))"

lemma folder_for_update_Inr: "folder_for_update kind i fs = Inr f \<longleftrightarrow> find_key fo_id i fs = Some f"
  by (simp add: folder_for_update_def folder_by_id_Inr)

lemma check_parent_live: "check_parent (folder_for_update kind) sc parent fs = Inr u \<Longrightarrow> parent_live sc parent fs"
  by (auto simp: check_parent_def parent_live_def bind_result_Inr_iff folder_for_update_Inr folder_active_checks split: option.splits
      dest!: find_key_SomeD)

lemma new_folder_facts [simp]:
  "folder_ws (folder_initialize_attribution (new_folder_row env k sc name username parent)) = Some (resource_scope sc)"
  "fo_deleted_at (folder_initialize_attribution (new_folder_row env k sc name username parent)) = None"
  "fo_parent_id (folder_initialize_attribution (new_folder_row env k sc name username parent)) = parent"
  by (simp_all add: folder_ws_def folder_initialize_attribution_def new_folder_row_def scope_team_id_case owner_user_id_def resource_scope_def
      split: workspace_storage_scope.splits)

lemma folder_insert_forest:
  assumes "forest_ok fs" "parent_live sc parent fs" "folder_insert (new_folder_row env k sc name username parent) fs = Some (fs', f)"
  shows "forest_ok fs'" "fs' = fs @ [f]" "folder_ws f = Some (resource_scope sc)" "fo_deleted_at f = None"
proof -
  let ?f = "folder_initialize_attribution (new_folder_row env k sc name username parent)"
  have f: "f = ?f" "fs' = fs @ [?f]" "folder_constraints (fs @ [?f])"
    using assms(3) by (auto simp: folder_insert_def checked_folders_def split: if_splits)
  then show "fs' = fs @ [f]" "folder_ws f = Some (resource_scope sc)" "fo_deleted_at f = None" by simp_all
  show "forest_ok fs'" unfolding f(2) by (rule forest_ok_append [OF assms(1) f(3)]) (use assms(2) in \<open>auto simp: parent_live_def\<close>)
qed

lemma create_folder_keeps:
  assumes "folder_ok w" "create_folder_transaction env sc name username parent cr src w = Inr (w', f)"
  shows "folder_ok w'"
proof -
  obtain w1 where w1: "enforce_folder_membership (fe_drive env) (scope_lock_workspace sc) parent (submitted cr) w = Inr w1"
      "check_parent (folder_for_update (backend_of w1)) sc parent (fw_folders w1) = Inr ()"
      "create_folder_row (fe_drive env) (new_folder_row env 0 sc name username parent) src w1 = Inr (w', f)"
    using assms(2) by (auto simp: create_folder_transaction_def bind_result_Inr_iff split: if_splits)
  have ok: "folder_ok w1" by (rule tame_ok(3) [OF checked_tame [OF checks(2) [OF w1(1)]] assms(1)])
  obtain fs d where r: "folder_insert (new_folder_row env 0 sc name username parent) (fw_folders w1) = Some (fs, f)"
      "folder_created (fe_drive env) f src (fw_drive w1) = Inr d" "w' = w1\<lparr>fw_folders := fs, fw_drive := d\<rparr>"
    using w1(3) by (auto simp: create_folder_row_def folder_repo_create_def bind_result_Inr_iff on_drive_Inr)
  show ?thesis unfolding r(3)
    using folder_okI [OF _ append_same(3) [OF r(2)] folder_insert_forest(1) [OF _ check_parent_live [OF w1(2)] r(1)]] ok by (simp add: folder_ok_def)
qed

lemma create_in_scope_keeps: "folder_ok w \<Longrightarrow> folder_ok (fst (create_in_scope env sc name parent cr src w))"
  by (auto simp: create_in_scope_def published_ok bind_result_Inr_iff split: sum.splits intro: create_folder_keeps)

lemma found_folder_live:
  "find_folder_by_name nr (resource_scope sc) parent name fs = Some f \<Longrightarrow> parent_live sc (Some (fo_id f)) fs"
  "lock_folder_by_name (resource_scope sc) parent name fs = Some f \<Longrightarrow> parent_live sc (Some (fo_id f)) fs"
proof -
  have f: "List.find P xs = Some f \<Longrightarrow> f \<in> set xs" for P xs by (auto simp: find_Some_iff)
  show "find_folder_by_name nr (resource_scope sc) parent name fs = Some f \<Longrightarrow> parent_live sc (Some (fo_id f)) fs"
    by (auto simp: find_folder_by_name_def select_where_def apply_parent_condition_def find_children_in_scope_def folder_active_checks
        parent_live_def split: option.splits dest!: f)
  show "lock_folder_by_name (resource_scope sc) parent name fs = Some f \<Longrightarrow> parent_live sc (Some (fo_id f)) fs"
    by (auto simp: lock_folder_by_name_def select_where_def apply_parent_condition_def folder_active_checks parent_live_def dest!: f)
qed

lemma upload_path_keeps:
  assumes "folder_ok w" "parent_live sc parent (fw_folders w)"
    "ensure_upload_parent_path_with_created env sc username parent segments made w = Inr (w', leaf, made')"
  shows "folder_ok w'" "parent_live sc leaf (fw_folders w')"
proof -
  have "folder_ok w' \<and> parent_live sc leaf (fw_folders w')" using assms
  proof (induction segments arbitrary: parent made w)
    case (Cons segment rest)
    show ?case
    proof (cases "find_folder_by_name (fe_names env) (resource_scope sc) parent segment (fw_folders w)")
      case (Some f)
      then show ?thesis using Cons.IH [OF Cons.prems(1) found_folder_live(1) [OF Some]] Cons.prems(3) by simp
    next
      case None
      then obtain fs f c where c: "create_or_find_in_scope_with_created (new_folder_row env (length made) sc segment username parent)
          (resource_scope sc) parent segment (fw_folders w) = Inr (fs, f, c)"
        using Cons.prems(3) by (auto simp: bind_result_Inr_iff)
      show ?thesis
      proof (cases c)
        case True
        then have i: "folder_insert (new_folder_row env (length made) sc segment username parent) (fw_folders w) = Some (fs, f)"
          using c by (auto simp: create_or_find_in_scope_with_created_def bind_result_Inr_iff split: option.splits)
        obtain d where d: "folder_created ((fe_drive env)\<lparr>de_event_uuid := fe_event_uuids env (length made)\<rparr>) f AS_Rest (fw_drive w) = Inr d"
            "ensure_upload_parent_path_with_created env sc username (Some (fo_id f)) rest (made @ [fo_id f]) (w\<lparr>fw_folders := fs, fw_drive := d\<rparr>)
              = Inr (w', leaf, made')"
          using Cons.prems(3) None c True by (auto simp: bind_result_Inr_iff on_drive_Inr)
        have F: "forest_ok (fw_folders w)" "drive_ok (fw_drive w)" using Cons.prems(1) by (simp_all add: folder_ok_def)
        note I = folder_insert_forest [OF F(1) Cons.prems(2) i]
        have "parent_live sc (Some (fo_id f)) fs" using I(2-4) by (auto simp: parent_live_def)
        then show ?thesis using Cons.IH [OF folder_okI [OF F(2) append_same(3) [OF d(1)] I(1)] _ d(2)] by simp
      next
        case False
        then have "lock_folder_by_name (resource_scope sc) parent segment (fw_folders w) = Some f"
          using c by (auto simp: create_or_find_in_scope_with_created_def bind_result_Inr_iff split: option.splits)
        then show ?thesis using Cons.IH [OF Cons.prems(1) found_folder_live(2)] Cons.prems(3) None c False by simp
      qed
    qed
  qed simp
  then show "folder_ok w'" "parent_live sc leaf (fw_folders w')" by simp_all
qed

lemma upload_parent_keeps:
  assumes "folder_ok w" "upload_parent_transaction env sc username base segments w = Inr (w', leaf, made)"
  shows "folder_ok w'" "parent_live sc leaf (fw_folders w')"
proof -
  obtain w1 w2 where w1: "check_parent (folder_for_update (backend_of w)) sc base (fw_folders w) = Inr ()"
      "enforce_folder_membership (fe_drive env) (scope_lock_workspace sc) base no_credentials w = Inr w1"
      "ensure_upload_parent_path_with_created env sc username base segments [] w1 = Inr (w2, leaf, made)" "checked w2 w'"
    using assms(2) by (auto simp: upload_parent_transaction_def bind_result_Inr_iff split: if_splits dest: checks(2))
  note c = checks(2) [OF w1(2)]
  have "parent_live sc base (fw_folders w1)" using check_parent_live [OF w1(1)] checkedD(1) [OF c] by simp
  note K = upload_path_keeps [OF tame_ok(3) [OF checked_tame [OF c] assms(1)] this w1(3)]
  then show "folder_ok w'" "parent_live sc leaf (fw_folders w')"
    using tame_ok(3) [OF checked_tame [OF w1(4)]] checkedD(1) [OF w1(4)] by simp_all
qed

text \<open>Writing a row back with another place.\<close>

lemma folder_update_forest:
  assumes ok: "forest_ok fs" "current \<in> set fs" "folder_update updated fs = Some fs'"
    and same: "fo_id updated = fo_id current" "folder_ws updated = folder_ws current" "fo_deleted_at updated = fo_deleted_at current"
    and place: "fo_parent_id updated = fo_parent_id current
      \<or> (\<forall>p. fo_parent_id updated = Some p \<longrightarrow> (p, fo_id current) \<notin> (parent_edges fs)\<^sup>*
          \<and> (\<exists>g \<in> set fs. fo_id g = p \<and> folder_ws g = folder_ws current \<and> fo_deleted_at g = None))"
  shows "forest_ok fs'"
proof -
  let ?h = "\<lambda>g. if fo_id g = fo_id current then updated else g"
  have fs': "fs' = map ?h fs" "folder_constraints (map ?h fs)" using ok(3) same(1) by (auto simp: folder_update_Some)
  have eq: "g = current" if "g \<in> set fs" "fo_id g = fo_id current" for g
    using unique_key_inj [OF forest_okD(1) [OF ok(1)] that(1) ok(2) that(2)] .
  have h: "fo_id (?h f) = fo_id f \<and> folder_ws (?h f) = folder_ws f \<and> fo_deleted_at (?h f) = fo_deleted_at f" if "f \<in> set fs" for f
    using eq [OF that] same by auto
  show ?thesis
  proof (cases "fo_parent_id updated = fo_parent_id current")
    case True
    have e: "parent_edges (map ?h fs) \<subseteq> parent_edges fs" by (rule parent_edges_map) (use eq same True in auto)
    show ?thesis unfolding fs'(1)
    proof (rule forest_ok_map [OF ok(1) fs'(2)])
      show "\<exists>g \<in> set fs. fo_id g = p \<and> folder_ws g = folder_ws f \<and> (fo_deleted_at (?h f) = None \<longrightarrow> fo_deleted_at (?h g) = None)"
        if x: "f \<in> set fs" "fo_parent_id (?h f) = Some p" for f p
      proof -
        have "fo_parent_id f = Some p" using x eq [OF x(1)] True by (cases "fo_id f = fo_id current") auto
        then obtain g where g: "g \<in> set fs" "fo_id g = p" "folder_ws g = folder_ws f" "fo_deleted_at f = None \<longrightarrow> fo_deleted_at g = None"
          using forest_okD(5) [OF ok(1) x(1)] by blast
        then show ?thesis using h [OF x(1)] h [OF g(1)] by (intro bexI [OF _ g(1)]) simp
      qed
      show "acyclic (parent_edges (map ?h fs))" by (rule acyclic_subset [OF forest_okD(3) [OF ok(1)] e])
    qed (use h in simp)
  next
    case False
    show ?thesis unfolding fs'(1)
      by (rule forest_ok_move [OF ok(1) fs'(2), where i = "fo_id current" and target = "fo_parent_id updated"])
        (use h eq place False in auto)
  qed
qed

text \<open>
  What an update has checked when it succeeds: the row, the chain of the new parent without the folder itself; then the
  row is written, unless nothing changes.
\<close>

lemma update_folder_Inr:
  assumes "update_folder_transaction env sc i name parent src w = Inr (w', f, previous)"
  obtains current chain n w2 where "checked w w2" "find_key fo_id i (fw_folders w) = Some current" "ensure_folder_model_in_scope current sc = Inr ()"
    "load_folder_chain_in_scope sc (fw_folders w) (patched parent (fo_parent_id current)) = Inr chain" "i \<notin> fo_id ` set chain"
    "n = (case name of Some m \<Rightarrow> m | None \<Rightarrow> fo_name current)"
    "n = fo_name current \<and> patched parent (fo_parent_id current) = fo_parent_id current \<and> w' = w2 \<and> f = current
     \<or> (\<exists>fs ctx action. folder_update (current\<lparr>fo_name := n, fo_parent_id := patched parent (fo_parent_id current), fo_updated_at := de_now (fe_drive env)\<rparr>)
          (fw_folders w) = Some fs
        \<and> folder_changed (fe_drive env) ctx current (current\<lparr>fo_name := n, fo_parent_id := patched parent (fo_parent_id current),
             fo_updated_at := de_now (fe_drive env)\<rparr>) action (w2\<lparr>fw_folders := fs\<rparr>) = Inr (w', f))"
proof -
  obtain preview w1 current where a: "folder_by_id i (fw_folders w) = Inr preview"
      "enforce_folder_mutation (fe_drive env) preview Infinity no_credentials w = Inr (w1, current)"
      "ensure_folder_model_in_scope current sc = Inr ()"
    using assms by (auto simp: update_folder_transaction_def bind_result_Inr_iff case_prod_beta)
  let ?target = "patched parent (fo_parent_id current)" and ?n = "case name of Some m \<Rightarrow> m | None \<Rightarrow> fo_name current"
  obtain chain w2 where b: "load_folder_chain_in_scope sc (fw_folders w1) ?target = Inr chain"
      "check_move (fe_drive env) current ?target w1 = Inr w2" "\<not> list_ex (\<lambda>f. fo_id f = i) chain"
    using assms a by (auto simp: update_folder_transaction_def bind_result_Inr_iff Let_def split: if_splits)
  have c: "checked w w2" by (rule checked_trans [OF checks(3) [OF a(2)] move_checks [OF b(2)]])
  have fs: "fw_folders w1 = fw_folders w" "fw_folders w2 = fw_folders w"
    using checkedD(1) [OF c] checkedD(1) [OF checks(3) [OF a(2)]] by simp_all
  have i: "fo_id preview = i" using a(1) by (auto simp: folder_by_id_Inr dest: find_key_SomeD)
  let ?updated = "current\<lparr>fo_name := ?n, fo_parent_id := ?target, fo_updated_at := de_now (fe_drive env)\<rparr>"
  have "?n = fo_name current \<and> ?target = fo_parent_id current \<and> w' = w2 \<and> f = current
     \<or> (\<exists>fs ctx action. folder_update ?updated (fw_folders w) = Some fs
        \<and> folder_changed (fe_drive env) ctx current ?updated action (w2\<lparr>fw_folders := fs\<rparr>) = Inr (w', f))"
    using assms a b fs by (cases "?n = fo_name current \<and> ?target = fo_parent_id current")
      (auto simp: update_folder_transaction_def bind_result_Inr_iff Let_def split: if_splits)
  moreover have "i \<notin> fo_id ` set chain" using b(3) by (auto simp: list_ex_iff)
  ultimately show thesis using that [OF c locked_folder(1) [OF a(2), unfolded i] a(3) b(1) [unfolded fs] _ refl] by blast
qed

lemma update_target:
  assumes "unique_key fo_id fs" "load_folder_chain_in_scope sc fs (Some p) = Inr chain" "i \<notin> fo_id ` set chain"
  shows "(p, i) \<notin> (parent_edges fs)\<^sup>*" "\<exists>g \<in> set fs. fo_id g = p \<and> folder_ws g = Some (resource_scope sc) \<and> fo_deleted_at g = None"
proof -
  have c: "chain_from sc fs [] (Some p) = Inr chain" using assms(2) by (simp add: load_folder_chain_in_scope_def)
  show "(p, i) \<notin> (parent_edges fs)\<^sup>*" using chain_ancestors [OF assms(1) c] assms(3) by blast
  show "\<exists>g \<in> set fs. fo_id g = p \<and> folder_ws g = Some (resource_scope sc) \<and> fo_deleted_at g = None"
    using chain_from_Inr(1,2,3) [OF c] by auto
qed

lemma update_folder_keeps:
  assumes ok: "folder_ok w" and u: "update_folder_transaction env sc i name parent src w = Inr (w', f, previous)"
  shows "folder_ok w'"
proof -
  obtain current chain n w2 where U: "checked w w2" "find_key fo_id i (fw_folders w) = Some current" "ensure_folder_model_in_scope current sc = Inr ()"
    "load_folder_chain_in_scope sc (fw_folders w) (patched parent (fo_parent_id current)) = Inr chain" "i \<notin> fo_id ` set chain"
    "n = (case name of Some m \<Rightarrow> m | None \<Rightarrow> fo_name current)"
    "n = fo_name current \<and> patched parent (fo_parent_id current) = fo_parent_id current \<and> w' = w2 \<and> f = current
     \<or> (\<exists>fs ctx action. folder_update (current\<lparr>fo_name := n, fo_parent_id := patched parent (fo_parent_id current), fo_updated_at := de_now (fe_drive env)\<rparr>)
          (fw_folders w) = Some fs
        \<and> folder_changed (fe_drive env) ctx current (current\<lparr>fo_name := n, fo_parent_id := patched parent (fo_parent_id current),
             fo_updated_at := de_now (fe_drive env)\<rparr>) action (w2\<lparr>fw_folders := fs\<rparr>) = Inr (w', f))"
    by (rule update_folder_Inr [OF u])
  let ?fs = "fw_folders w" and ?updated = "current\<lparr>fo_name := n, fo_parent_id := patched parent (fo_parent_id current), fo_updated_at := de_now (fe_drive env)\<rparr>"
  have ok2: "folder_ok w2" by (rule tame_ok(3) [OF checked_tame [OF U(1)] ok])
  have fo: "forest_ok ?fs" using ok by (simp add: folder_ok_def)
  have cur: "current \<in> set ?fs" "fo_id current = i" "folder_ws current = Some (resource_scope sc)"
    using find_key_SomeD [OF U(2)] U(3) by (simp_all add: folder_active_checks)
  have "folder_ok w'" if t: "folder_update ?updated ?fs = Some fs" "folder_changed (fe_drive env) ctx current ?updated action (w2\<lparr>fw_folders := fs\<rparr>) = Inr (w', f)"
    for fs ctx action
  proof -
    have "forest_ok fs"
    proof (rule folder_update_forest [OF fo cur(1) t(1)])
      have "(p, i) \<notin> (parent_edges ?fs)\<^sup>* \<and> (\<exists>g \<in> set ?fs. fo_id g = p \<and> folder_ws g = Some (resource_scope sc) \<and> fo_deleted_at g = None)"
        if "patched parent (fo_parent_id current) = Some p" for p
        using update_target [OF forest_okD(1) [OF fo] U(4) [unfolded that] U(5)] by blast
      then show "fo_parent_id ?updated = fo_parent_id current
        \<or> (\<forall>p. fo_parent_id ?updated = Some p \<longrightarrow> (p, fo_id current) \<notin> (parent_edges ?fs)\<^sup>*
          \<and> (\<exists>g \<in> set ?fs. fo_id g = p \<and> folder_ws g = folder_ws current \<and> fo_deleted_at g = None))"
        using cur(2,3) by simp
    qed simp_all
    then have "folder_ok (w2\<lparr>fw_folders := fs\<rparr>)" using ok2 by (simp add: folder_ok_def)
    then show ?thesis by (rule tame_ok(3) [OF folder_changed_Inr(1) [OF t(2)]])
  qed
  then show ?thesis using U(7) ok2 by blast
qed

lemma update_in_scope_keeps: "folder_ok w \<Longrightarrow> folder_ok (fst (update_in_scope env sc i name parent policy src w))"
  by (auto simp: update_in_scope_def published_ok bind_result_Inr_iff split: sum.splits intro: update_folder_keeps)

text \<open>Writing a row back with other columns that no pointer depends on.\<close>

lemma folder_row_keeps:
  assumes "folder_ok w" "current \<in> set (fw_folders w)" "folder_update updated (fw_folders w) = Some fs" "folder_shape updated = folder_shape current"
  shows "folder_ok (w\<lparr>fw_folders := fs\<rparr>)"
proof -
  have "forest_ok fs"
    by (rule folder_update_forest [OF _ assms(2,3)])
      (use assms(1,4) shape_ws [OF assms(4)] in \<open>simp_all add: folder_ok_def folder_shape_def\<close>)
  then show ?thesis using assms(1) by (simp add: folder_ok_def)
qed

lemma locked_ok:
  assumes "folder_ok w" "enforce_folder_mutation env f depth cr w = Inr (w1, current)"
  shows "folder_ok w1" "current \<in> set (fw_folders w1)"
  using tame_ok(3) [OF checked_tame [OF checks(3) [OF assms(2)]] assms(1)] locked_folder(2) [OF assms(2)] checkedD(1) [OF checks(3) [OF assms(2)]]
  by simp_all

lemma set_icon_transaction_keeps:
  assumes ok: "folder_ok w" and t: "set_icon_transaction env sc i kind v w = Inr (w', previous, updated)"
  shows "folder_ok w'"
proof -
  obtain preview w1 where a: "folder_by_id i (fw_folders w) = Inr preview"
      "enforce_folder_mutation (fe_drive env) preview Resource no_credentials w = Inr (w1, previous)"
    using t by (auto simp: set_icon_transaction_def update_icon_def bind_result_Inr_iff Let_def split: if_splits)
  note L = locked_ok [OF ok a(2)]
  show ?thesis
  proof (cases "fo_icon_kind previous = kind \<and> fo_icon_value previous = v")
    case True
    then show ?thesis using L(1) t a by (auto simp: set_icon_transaction_def bind_result_Inr_iff split: if_splits)
  next
    case False
    let ?f = "previous\<lparr>fo_icon_kind := kind, fo_icon_value := v, fo_updated_at := de_now (fe_drive env)\<rparr>"
    obtain fs ctx action where u: "folder_update ?f (fw_folders w1) = Some fs"
        "folder_changed (fe_drive env) ctx previous ?f action (w1\<lparr>fw_folders := fs\<rparr>) = Inr (w', updated)"
      using t a False by (auto simp: set_icon_transaction_def update_icon_def bind_result_Inr_iff Let_def split: if_splits)
    show ?thesis by (rule tame_ok(3) [OF folder_changed_Inr(1) [OF u(2)] folder_row_keeps [OF L u(1)]]) (simp add: folder_shape_def)
  qed
qed

lemma set_icon_keeps: "folder_ok w \<Longrightarrow> folder_ok (fst (set_icon_in_scope env sc i icon w))"
  by (auto simp: set_icon_in_scope_def published_ok bind_result_Inr_iff split: sum.splits intro: set_icon_transaction_keeps)

lemma admin_set_policy_keeps:
  assumes "folder_ok w"
  shows "folder_ok (fst (admin_set_policy env policy_ok i policy w))"
proof (cases "admin_set_policy_transaction env policy_ok i policy w")
  case (Inr x)
  obtain w' updated previous where x: "x = (w', updated, previous)" by (cases x)
  obtain snapshot w1 current fs where a: "enforce_folder_mutation (fe_drive env) snapshot Resource no_credentials w = Inr (w1, current)"
      "folder_update (current\<lparr>fo_policy_id := policy, fo_updated_at := de_now (fe_drive env)\<rparr>) (fw_folders w1) = Some fs" "w' = w1\<lparr>fw_folders := fs\<rparr>"
    using Inr x by (auto simp: admin_set_policy_transaction_def bind_result_Inr_iff Let_def split: if_splits)
  have "folder_ok w'" unfolding a(3) by (rule folder_row_keeps [OF locked_ok [OF assms a(1)] a(2)]) (simp add: folder_shape_def)
  moreover have "folder_ok (w'\<lparr>fw_drive := publish_event e (fw_drive w')\<rparr>) = folder_ok w'" for e
    by (simp add: folder_ok_def same_tables_ok(1) [OF locks_same(2)])
  ultimately show ?thesis using Inr x by (auto simp: admin_set_policy_def split: sum.splits)
qed (use assms in \<open>simp add: admin_set_policy_def\<close>)

subsection \<open>Deleting a tree\<close>

lemma collect_forest_reach:
  assumes "unique_key fm_id tbl" "collect_folder_forest_in_resource_scope sc roots incl limits fs tbl = Inr (files, ids)"
  shows "set ids = (child_edges sc incl fs)\<^sup>* `` set roots" "distinct ids" "set files = files_below sc incl (set ids) tbl" "distinct files"
proof -
  have "set ids = (child_edges sc incl fs)\<^sup>* `` set roots \<and> distinct ids \<and> set files = files_below sc incl (set ids) tbl \<and> distinct files"
  proof (cases "roots = []")
    case False
    then have "collect_levels sc incl limits fs tbl [] [] roots 0 = Inr (files, ids)"
      using assms(2) by (simp add: collect_folder_forest_in_resource_scope_def)
    from collect_levels_reach [OF assms(1) this] show ?thesis by (simp add: files_below_def)
  qed (use assms(2) in \<open>simp add: collect_folder_forest_in_resource_scope_def files_below_def\<close>)
  then show "set ids = (child_edges sc incl fs)\<^sup>* `` set roots" "distinct ids" "set files = files_below sc incl (set ids) tbl" "distinct files"
    by simp_all
qed

text \<open>What the walk reaches from folders of the workspace stays in it and takes every child along.\<close>

lemma reach_closed:
  assumes "forest_ok fs" "\<forall>i \<in> roots. \<forall>g \<in> set fs. fo_id g = i \<longrightarrow> folder_ws g = Some sc"
    and "f \<in> set fs" "fo_parent_id f = Some p" "p \<in> (child_edges sc incl fs)\<^sup>* `` roots" "incl \<or> fo_deleted_at f = None"
  shows "fo_id f \<in> (child_edges sc incl fs)\<^sup>* `` roots"
proof -
  obtain r where r: "r \<in> roots" "(r, p) \<in> (child_edges sc incl fs)\<^sup>*" using assms(5) by blast
  obtain g where g: "g \<in> set fs" "fo_id g = p" "folder_ws g = folder_ws f" using forest_okD(5) [OF assms(1,3,4)] by blast
  have "folder_ws g = Some sc"
    using r(2)
  proof (cases rule: rtranclE)
    case base
    then show ?thesis using assms(2) r(1) g(1,2) by blast
  next
    case (step y)
    then obtain x where "x \<in> set fs" "fo_id x = p" "folder_ws x = Some sc" by (auto simp: child_edges_def)
    then show ?thesis using unique_key_inj [OF forest_okD(1) [OF assms(1)] g(1), of x] g(2) by simp
  qed
  then have "(p, fo_id f) \<in> child_edges sc incl fs" using assms(3,4,6) g(3) by (auto simp: child_edges_def)
  then show ?thesis using r by (blast intro: rtrancl_into_rtrancl)
qed

lemma collect_locked_Inr:
  assumes "collect_locked_folder_tree sc i limits kind (\<lambda>_. (fs, tbl)) k n = Inr (files, ids)"
  shows "collect_folder_tree_in_scope sc i False limits fs tbl = Inr (files, ids)"
  using assms by (induction n arbitrary: k) (auto simp: bind_result_Inr_iff split: if_splits)

lemma lock_tree_Inr:
  assumes "lock_tree_for_deletion_on env sc i limits allow w = Inr (w', l)"
  shows "checked w w'" "ld_folder l \<in> set (fw_folders w)" "fo_id (ld_folder l) = i"
    "\<exists>snapshot. find_key fo_id i (fw_folders w) = Some snapshot \<and> folder_ws snapshot = Some (resource_scope sc) \<and> fo_deleted_at snapshot = None"
    "\<exists>files. collect_folder_tree_in_scope sc i False limits (fw_folders w) (files_of w) = Inr (files, ld_folder_ids l) \<and> ld_file_ids l = map fm_id files"
    "ld_actor_user_id l = actor_user_id sc"
proof -
  obtain w1 snapshot w2 folder files ids where a: "admit_folder_mutation (fe_drive env) sc w = Inr w1" "folder_by_id i (fw_folders w1) = Inr snapshot"
      "ensure_folder_model_in_scope snapshot sc = Inr ()"
      "(if allow then bind_result (folder_for_update (backend_of w1) i (fw_folders w1)) (\<lambda>f. Inr (w1, f))
        else enforce_folder_mutation (fe_drive env) snapshot Infinity no_credentials w1) = Inr (w2, folder)"
      "collect_locked_folder_tree sc i limits (backend_of w2) (\<lambda>_. (fw_folders w2, files_of w2)) 0 MAX_STABILIZATION_ATTEMPTS = Inr (files, ids)"
      "(if allow then Inr w2 else bind_result (enforce_files (fe_drive env) files w2)
         (enforce_descendants (fe_drive env) (filter (\<lambda>j. j \<noteq> i) ids))) = Inr w'"
      "l = \<lparr>ld_actor_user_id = actor_user_id sc, ld_folder = folder, ld_file_ids = map fm_id files, ld_folder_ids = ids\<rparr>"
    using assms unfolding lock_tree_for_deletion_on_def bind_result_Inr_iff split_paired_Ex prod.case sum.inject prod.inject
    by (elim exE conjE) (rule that; assumption | simp)
  note c1 = checks(1) [OF a(1)]
  have i: "fo_id snapshot = i" using a(2) by (auto simp: folder_by_id_Inr dest: find_key_SomeD)
  have c2: "checked w1 w2" and f: "find_key fo_id i (fw_folders w1) = Some folder"
    using a(4) checks(3) locked_folder(1) i by (auto simp: bind_result_Inr_iff folder_for_update_Inr split: if_splits)
  have "checked w2 w'" using a(6) by (auto simp: bind_result_Inr_iff split: if_splits intro: checked_trans [OF file_checks descendant_checks])
  then show "checked w w'" using c1 c2 checked_trans by blast
  note fs = checkedD [OF checked_trans [OF c1 c2]] checkedD(1) [OF c1]
  show "ld_folder l \<in> set (fw_folders w)" "fo_id (ld_folder l) = i" using f fs a(7) by (auto dest: find_key_SomeD)
  show "\<exists>snapshot. find_key fo_id i (fw_folders w) = Some snapshot \<and> folder_ws snapshot = Some (resource_scope sc) \<and> fo_deleted_at snapshot = None"
    using a(2,3) fs by (auto simp: folder_by_id_Inr folder_active_checks)
  show "\<exists>files. collect_folder_tree_in_scope sc i False limits (fw_folders w) (files_of w) = Inr (files, ld_folder_ids l) \<and> ld_file_ids l = map fm_id files"
    using collect_locked_Inr [OF a(5)] a(7) fs by simp
  show "ld_actor_user_id l = actor_user_id sc" using a(7) by simp
qed

text \<open>After a deletion the tables are those of before with the times of deletion set and the columns of who has modified them.\<close>

lemma delete_tree_Inr:
  assumes "delete_tree_in_scope_on env sc i limits allow src w = Inr (w', f)" "unique_key fm_id (files_of w)"
  obtains files ids w2 where "tame w w2" "f \<in> set (fw_folders w)" "fo_id f = i"
    "fw_folders w' = folder_soft_delete_many ids (de_now (fe_drive env)) (fw_folders w2)"
    "fw_drive w' = with_files (soft_delete_many (map fm_id files) (de_now (fe_drive env)) (files_of w2)) (fw_drive w2)"
    "set ids = (child_edges (resource_scope sc) False (fw_folders w))\<^sup>* `` {i}"
    "set files = files_below (resource_scope sc) False (set ids) (files_of w)"
    "\<forall>g \<in> set (fw_folders w). fo_id g = i \<longrightarrow> unique_key fo_id (fw_folders w) \<longrightarrow> folder_ws g = Some (resource_scope sc) \<and> fo_deleted_at g = None"
proof -
  obtain w1 l where a: "lock_tree_for_deletion_on env sc i limits allow w = Inr (w1, l)" "apply_locked_tree_deletion_on env l src w1 = Inr w'" "f = ld_folder l"
    using assms(1) by (auto simp: delete_tree_in_scope_on_def bind_result_Inr_iff)
  note T = lock_tree_Inr [OF a(1)]
  obtain files where f: "collect_folder_tree_in_scope sc i False limits (fw_folders w) (files_of w) = Inr (files, ld_folder_ids l)" "ld_file_ids l = map fm_id files"
    using T(5) by blast
  obtain ctx w2 w3 where b: "record_deleted_files env ctx 0 (chunks 200 (ld_file_ids l)) w1 = Inr w2"
      "record_deleted_folders env ctx (length (ld_file_ids l)) (chunks 200 (ld_folder_ids l)) w2 = Inr w3"
      "w' = w3\<lparr>fw_drive := with_files (soft_delete_many (ld_file_ids l) (de_now (fe_drive env)) (files_of w3)) (fw_drive w3),
             fw_folders := folder_soft_delete_many (ld_folder_ids l) (de_now (fe_drive env)) (fw_folders w3)\<rparr>"
    using a(2) by (auto simp: apply_locked_tree_deletion_on_def bind_result_Inr_iff)
  have t: "tame w w3" using tame_trans [OF checked_tame [OF T(1)] tame_trans [OF record_deleted_tame(1) [OF b(1)] record_deleted_tame(2) [OF b(2)]]] .
  note R = collect_forest_reach [OF assms(2) f(1) [unfolded collect_folder_tree_in_scope_def]]
  have ws: "\<forall>g \<in> set (fw_folders w). fo_id g = i \<longrightarrow> unique_key fo_id (fw_folders w) \<longrightarrow> folder_ws g = Some (resource_scope sc) \<and> fo_deleted_at g = None"
    using T(4) by (auto simp: find_key_Some_iff dest: unique_key_inj)
  show thesis by (rule that [OF t _ _ _ _ _ R(3) ws]) (use a(3) T(2,3) b(3) f(2) R(1) in simp_all)
qed

lemma delete_tree_keeps:
  assumes ok: "folder_ok w" and d: "delete_tree_in_scope_on env sc i limits allow src w = Inr (w', f)"
  shows "folder_ok w'"
proof -
  note u = folder_ok_files [OF ok]
  obtain files ids w2 where D: "tame w w2" "f \<in> set (fw_folders w)" "fo_id f = i" "fw_folders w' = folder_soft_delete_many ids (de_now (fe_drive env)) (fw_folders w2)"
    "fw_drive w' = with_files (soft_delete_many (map fm_id files) (de_now (fe_drive env)) (files_of w2)) (fw_drive w2)"
    "set ids = (child_edges (resource_scope sc) False (fw_folders w))\<^sup>* `` {i}"
    "set files = files_below (resource_scope sc) False (set ids) (files_of w)"
    "\<forall>g \<in> set (fw_folders w). fo_id g = i \<longrightarrow> unique_key fo_id (fw_folders w) \<longrightarrow> folder_ws g = Some (resource_scope sc) \<and> fo_deleted_at g = None"
    by (rule delete_tree_Inr [OF d u])
  have fo: "forest_ok (fw_folders w)" using ok by (simp add: folder_ok_def)
  obtain h where h: "\<forall>f. folder_shape (h f) = folder_shape f" "fw_folders w2 = map h (fw_folders w)" by (rule tameE [OF D(1)])
  have "forest_ok (fw_folders w')" unfolding D(4)
  proof (rule forest_ok_trash)
    show "forest_ok (fw_folders w2)" by (rule tame_ok(2) [OF D(1) fo])
    fix f2 p assume f2: "f2 \<in> set (fw_folders w2)" "fo_deleted_at f2 = None" "fo_parent_id f2 = Some p" "p \<in> set ids"
    then obtain f where "f \<in> set (fw_folders w)" "folder_shape f2 = folder_shape f" using h by auto
    then show "fo_id f2 \<in> set ids"
      using reach_closed [OF fo, of "{i}" "resource_scope sc" f p False] D(8) f2 forest_okD(1) [OF fo] unfolding D(6) by (auto simp: folder_shape_def)
  qed
  moreover have "drive_ok (fw_drive w')" unfolding D(5) files_of_def
    by (rule table_statements_keep(2) [OF tame_ok(1) [OF D(1)]]) (use ok in \<open>simp add: folder_ok_def\<close>)
  ultimately show ?thesis by (simp add: folder_ok_def)
qed

lemma delete_folder_keeps: "folder_ok w \<Longrightarrow> folder_ok (fst (delete_in_scope env sc i limits src w))"
  by (auto simp: delete_in_scope_def published_ok split: sum.splits intro: delete_tree_keeps)

subsection \<open>Restoring\<close>

lemma restore_place_Inr:
  assumes "restore_place sc parent fs = Inr place"
  shows "place = None \<or> place = parent" "parent_live sc place fs"
  using assms
  by (auto simp: restore_place_def parent_restore_target_unavailable_def bind_result_Inr_iff parent_live_def folder_by_id_Inr folder_active_checks
      split: option.splits sum.splits if_splits dest!: find_key_SomeD)

lemma restore_place_live:
  assumes "find_key fo_id p fs = Some g" "folder_ws g = Some (resource_scope sc)" "fo_deleted_at g = None"
  shows "restore_place sc (Some p) fs = Inr (Some p)"
proof -
  have "folder_by_id p fs = Inr g" "ensure_folder_scope g sc = Inr ()" using assms by (simp_all add: folder_by_id_Inr folder_active_checks)
  then show ?thesis using assms(3) by (simp add: restore_place_def parent_restore_target_unavailable_def)
qed

lemma file_changed_tables:
  assumes "file_changed env ctx before after action d = Inr (d', after')"
  shows "\<exists>g. (\<forall>f. file_shape (g f) = file_shape f) \<and> same_tables d' (with_files (map g (lg_files (dr_ledger d))) d)"
proof -
  have "same_tables d' (set_file_row (fm_id after) (modified_columns env ctx) d)"
    using assms by (auto simp: file_changed_def bind_result_Inr_iff Let_def dest: append_same(1))
  then show ?thesis
    by (intro exI [of _ "\<lambda>f. if fm_id f = fm_id after then modified_columns env ctx f else f"])
      (simp add: set_file_row_def update_where_def file_shape_def modified_columns_def)
qed

lemma shaped_files_keep:
  assumes "drive_ok d" "\<forall>f. file_shape (g f) = file_shape f" "same_tables d' (with_files (map g (lg_files (dr_ledger d))) d)"
  shows "drive_ok d'"
  using map_files_keeps [of g d] shape_place assms same_tables_ok(1) [OF assms(3)] by (simp add: places_only_def)

lemma restore_file_keeps:
  assumes ok: "folder_ok w" and t: "restore_file_transaction env sc i w = Inr (w', place)"
  shows "folder_ok w'"
proof -
  obtain w1 row tbl ctx d' after where a: "admit_folder_mutation (fe_drive env) sc w = Inr w1" "file_by_id i (dr_ledger (fw_drive w1)) = Inr row"
      "checked_rows (fst (update_where (\<lambda>f. fm_id f = i) (\<lambda>_. row\<lparr>fm_folder_id := place, fm_deleted_at := None\<rparr>) (files_of w1))) = Some tbl"
      "file_changed (fe_drive env) ctx row (row\<lparr>fm_folder_id := place, fm_deleted_at := None\<rparr>) ''file_restore'' (with_files tbl (fw_drive w1)) = Inr (d', after)"
      "w' = w1\<lparr>fw_drive := d'\<rparr>"
    using t by (auto simp: restore_file_transaction_def bind_result_Inr_iff Let_def split: if_splits)
  have ok1: "folder_ok w1" by (rule tame_ok(3) [OF checked_tame [OF checks(1) [OF a(1)]] ok])
  let ?g = "\<lambda>f. if fm_id f = i then f\<lparr>fm_folder_id := place, fm_deleted_at := None\<rparr> else f"
  have "row \<in> set (files_of w1)" "fm_id row = i" using a(2) by (auto simp: file_by_id_Inr files_of_def dest: find_key_SomeD)
  then have "f = row" if "f \<in> set (files_of w1)" "fm_id f = i" for f
    using unique_key_inj [OF folder_ok_files [OF ok1] that(1)] that(2) by simp
  then have tbl: "tbl = map ?g (files_of w1)" using a(3) by (auto simp: checked_rows_def update_where_def split: if_splits)
  have "drive_ok (with_files tbl (fw_drive w1))" unfolding tbl files_of_def
    by (rule map_files_keeps) (use ok1 in \<open>simp_all add: places_only_def folder_ok_def\<close>)
  then have "drive_ok d'" using file_changed_tables [OF a(4)] shaped_files_keep by blast
  then show ?thesis using ok1 a(5) by (simp add: folder_ok_def)
qed

lemma reach_parent:
  assumes "unique_key fo_id fs" "f \<in> set fs" "fo_id f \<in> (child_edges sc incl fs)\<^sup>* `` {i}" "fo_id f \<noteq> i" "fo_parent_id f = Some p"
  shows "p \<in> (child_edges sc incl fs)\<^sup>* `` {i}"
proof -
  have "(i, fo_id f) \<in> (child_edges sc incl fs)\<^sup>*" using assms(3) by simp
  then obtain y where y: "(i, y) \<in> (child_edges sc incl fs)\<^sup>*" "(y, fo_id f) \<in> child_edges sc incl fs" using assms(4) by (auto elim: rtranclE)
  then obtain x where "x \<in> set fs" "fo_id x = fo_id f" "fo_parent_id x = Some y" by (auto simp: child_edges_def)
  then show ?thesis using unique_key_inj [OF assms(1) _ assms(2), of x] assms(5) y(1) by simp
qed

lemma restore_folder_Inr:
  assumes "restore_folder_transaction env sc i limits w = Inr (w', place)" "unique_key fm_id (files_of w)"
  obtains folder files ids fs w4 tbl where "find_key fo_id i (fw_folders w) = Some folder" "folder_ws folder = Some (resource_scope sc)" "fo_deleted_at folder \<noteq> None"
    "restore_place sc (fo_parent_id folder) (fw_folders w) = Inr place"
    "set ids = (child_edges (resource_scope sc) True (fw_folders w))\<^sup>* `` {i}" "set files = files_below (resource_scope sc) True (set ids) (files_of w)"
    "folder_update (folder\<lparr>fo_parent_id := place, fo_deleted_at := None\<rparr>) (fw_folders w) = Some fs" "tame (w\<lparr>fw_folders := fs\<rparr>) w4"
    "restore_many (map fm_id files) (files_of w4) = Inr tbl" "fw_drive w' = with_files tbl (fw_drive w4)"
    "folder_restore_many (filter (\<lambda>j. j \<noteq> i) ids) (fw_folders w4) = Inr (fw_folders w')"
proof -
  obtain w1 folder files ids fs ctx w2 after w3 w4 tbl fs' where a: "admit_folder_mutation (fe_drive env) sc w = Inr w1"
      "folder_by_id i (fw_folders w1) = Inr folder" "ensure_folder_scope folder sc = Inr ()" "fo_deleted_at folder \<noteq> None"
      "collect_folder_tree_in_scope sc i True limits (fw_folders w1) (files_of w1) = Inr (files, ids)"
      "restore_place sc (fo_parent_id folder) (fw_folders w1) = Inr place"
      "folder_update (folder\<lparr>fo_parent_id := place, fo_deleted_at := None\<rparr>) (fw_folders w1) = Some fs"
      "folder_changed (fe_drive env) ctx folder (folder\<lparr>fo_parent_id := place, fo_deleted_at := None\<rparr>) ''folder_restore'' (w1\<lparr>fw_folders := fs\<rparr>) = Inr (w2, after)"
      "persist_file_batch env ctx ''file_restore'' 0 (filter (\<lambda>f. fm_deleted_at f \<noteq> None) files) w2 = Inr w3"
      "persist_folder_batch env ctx ''folder_restore'' (length files)
        (filter (\<lambda>f. fo_deleted_at f \<noteq> None) (folders_by_ids (filter (\<lambda>j. j \<noteq> i) ids) (fw_folders w3))) w3 = Inr w4"
      "restore_many (map fm_id files) (files_of w4) = Inr tbl" "folder_restore_many (filter (\<lambda>j. j \<noteq> i) ids) (fw_folders w4) = Inr fs'"
      "w' = w4\<lparr>fw_drive := with_files tbl (fw_drive w4), fw_folders := fs'\<rparr>"
    using assms(1) by (auto simp: restore_folder_transaction_def bind_result_Inr_iff Let_def split: if_splits)
  note c = checks(1) [OF a(1)]
  note fs = checkedD [OF c]
  have t: "tame (w1\<lparr>fw_folders := fs\<rparr>) w4"
    using tame_trans [OF folder_changed_Inr(1) [OF a(8)] tame_trans [OF file_batch_tame [OF a(9)] folder_batch_tame [OF a(10)]]] .
  have "tame (w\<lparr>fw_folders := fs\<rparr>) (w1\<lparr>fw_folders := fs\<rparr>)" by (rule tame_same) (use c in \<open>simp_all add: checked_def\<close>)
  note t = tame_trans [OF this t]
  note R = collect_forest_reach [OF assms(2) a(5) [unfolded fs collect_folder_tree_in_scope_def]]
  show thesis by (rule that [OF _ _ a(4) _ _ R(3) _ t a(11)]) (use a fs R(1) in \<open>simp_all add: folder_by_id_Inr folder_active_checks\<close>)
qed

lemma restore_folder_keeps:
  assumes ok: "folder_ok w" and t: "restore_folder_transaction env sc i limits w = Inr (w', place)"
  shows "folder_ok w'"
proof -
  obtain folder files ids fs w4 tbl where R: "find_key fo_id i (fw_folders w) = Some folder" "folder_ws folder = Some (resource_scope sc)" "fo_deleted_at folder \<noteq> None"
    "restore_place sc (fo_parent_id folder) (fw_folders w) = Inr place"
    "set ids = (child_edges (resource_scope sc) True (fw_folders w))\<^sup>* `` {i}" "set files = files_below (resource_scope sc) True (set ids) (files_of w)"
    "folder_update (folder\<lparr>fo_parent_id := place, fo_deleted_at := None\<rparr>) (fw_folders w) = Some fs" "tame (w\<lparr>fw_folders := fs\<rparr>) w4"
    "restore_many (map fm_id files) (files_of w4) = Inr tbl" "fw_drive w' = with_files tbl (fw_drive w4)"
    "folder_restore_many (filter (\<lambda>j. j \<noteq> i) ids) (fw_folders w4) = Inr (fw_folders w')"
    by (rule restore_folder_Inr [OF t folder_ok_files [OF ok]])
  have fo: "forest_ok (fw_folders w)" using ok by (simp add: folder_ok_def)
  have f: "folder \<in> set (fw_folders w)" "fo_id folder = i" using find_key_SomeD [OF R(1)] by simp_all
  note P = restore_place_Inr(1,2) [OF R(4)]
  have "forest_ok fs"
  proof (rule forest_ok_revive [OF fo f(1) R(7)])
    show "place = None \<or> place = fo_parent_id folder \<and> (\<forall>p. place = Some p \<longrightarrow> (\<forall>g \<in> set (fw_folders w). fo_id g = p \<longrightarrow> fo_deleted_at g = None))"
    proof (cases place)
      case (Some p)
      then obtain x where x: "x \<in> set (fw_folders w)" "fo_id x = p" "fo_deleted_at x = None" using P(2) by (auto simp: parent_live_def)
      have "fo_deleted_at g = None" if "g \<in> set (fw_folders w)" "fo_id g = p" for g
        using unique_key_inj [OF forest_okD(1) [OF fo] that(1) x(1)] that(2) x(2,3) by simp
      moreover have "fo_parent_id folder = Some p" using P(1) Some by auto
      ultimately show ?thesis using Some by auto
    qed simp
  qed
  then have ok4: "folder_ok w4" using ok by (intro tame_ok(3) [OF R(8)]) (simp add: folder_ok_def)
  obtain h where h: "\<forall>f. folder_shape (h f) = folder_shape f" "fw_folders w4 = map h fs" by (rule tameE [OF R(8)]) simp
  have fs: "fs = map (\<lambda>g. if fo_id g = i then folder\<lparr>fo_parent_id := place, fo_deleted_at := None\<rparr> else g) (fw_folders w)"
    using R(7) f(2) by (simp add: folder_update_Some)
  have live: "fo_deleted_at g = None" if "g \<in> set (fw_folders w4)" "fo_id g = i" for g
  proof -
    obtain x where x: "x \<in> set fs" "folder_shape g = folder_shape x" using \<open>g \<in> set (fw_folders w4)\<close> h by auto
    then have "fo_id x = i" "fo_deleted_at g = fo_deleted_at x" using \<open>fo_id g = i\<close> by (simp_all add: folder_shape_def)
    moreover have "fo_id x = i \<longrightarrow> fo_deleted_at x = None" using x(1) unfolding fs set_map by (elim imageE) (simp split: if_splits)
    ultimately show ?thesis by simp
  qed
  have "forest_ok (fw_folders w')"
  proof (rule forest_ok_undelete [OF _ R(11)])
    show "forest_ok (fw_folders w4)" using ok4 by (simp add: folder_ok_def)
    fix f4 p assume f4: "f4 \<in> set (fw_folders w4)" "fo_id f4 \<in> set (filter (\<lambda>j. j \<noteq> i) ids)" "fo_parent_id f4 = Some p"
    then obtain x where "x \<in> set fs" "folder_shape f4 = folder_shape x" using h by auto
    then have x: "x \<in> set (fw_folders w)" "fo_id x = fo_id f4" "fo_parent_id x = Some p" using fs f4(2,3) f(2) by (auto simp: folder_shape_def split: if_splits)
    have "fo_id x \<in> (child_edges (resource_scope sc) True (fw_folders w))\<^sup>* `` {i}" "fo_id x \<noteq> i" using f4(2) x(2) R(5) by simp_all
    then have "p \<in> set ids" unfolding R(5) by (rule reach_parent [OF forest_okD(1) [OF fo] x(1) _ _ x(3)])
    then show "p \<in> set (filter (\<lambda>j. j \<noteq> i) ids) \<or> (\<forall>g \<in> set (fw_folders w4). fo_id g = p \<longrightarrow> fo_deleted_at g = None)"
      using live by auto
  qed
  moreover have "drive_ok (fw_drive w')" unfolding R(10) using ok4 R(9) by (auto simp: folder_ok_def files_of_def intro: table_statements_keep(3))
  ultimately show ?thesis by (simp add: folder_ok_def)
qed

lemma restore_requests_keep:
  assumes "folder_ok w"
  shows "folder_ok (fst (restore_file_in_scope env sc i w))" "folder_ok (fst (restore_folder_in_scope env sc i limits w))"
proof -
  have "folder_ok (w'\<lparr>fw_drive := publish_event e (fw_drive w')\<rparr>) = folder_ok w'" for w' e
    by (simp add: folder_ok_def same_tables_ok(1) [OF locks_same(2)])
  then show "folder_ok (fst (restore_file_in_scope env sc i w))"
    using assms by (auto simp: restore_file_in_scope_def bind_result_Inr_iff split: sum.splits intro: restore_file_keeps)
  show "folder_ok (fst (restore_folder_in_scope env sc i limits w))"
    using assms by (auto simp: restore_folder_in_scope_def published_ok bind_result_Inr_iff split: sum.splits intro: restore_folder_keeps)
qed

subsection \<open>Purging\<close>

lemma properties_charges [simp]: "charges (lg\<lparr>lg_properties := ps\<rparr>) = charges lg"
  by (rule charges_cong) (simp_all add: history_scope_def)

lemma drive_properties_keep:
  assumes "drive_ok d"
  shows "drive_ok (d\<lparr>dr_ledger := (dr_ledger d)\<lparr>lg_properties := delete_all_for_entities k ids (lg_properties (dr_ledger d))\<rparr>\<rparr>)"
proof -
  let ?lg = "(dr_ledger d)\<lparr>lg_properties := delete_all_for_entities k ids (lg_properties (dr_ledger d))\<rparr>"
  note D = drive_pendingD [OF assms [unfolded drive_ok_def]]
  have "ledger_ok ?lg"
    using ledger_okD [OF D(1)]
    by (intro ledger_ok_updateI [OF D(1), where f = id]) (auto simp: snapshots_ok_def delete_all_for_entities_def property_constraints_filter)
  moreover have "files_ok ?lg" using D(2) by (simp add: files_ok_def shows_current_iff find_current_Inr history_of_file_def revision_by_id_def)
  ultimately show ?thesis using D(3-5) unfolding drive_ok_def by (intro drive_pendingI) simp_all
qed

lemma purge_forest_Inr:
  assumes "purge_forest_transaction env e sc ids g w = Inr (w', Some (p, roots))"
  obtains d1 files all_ids d2 tbl where "same_tables d1 (fw_drive w)" "roots = filter (\<lambda>f. fo_deleted_at f \<noteq> None) (folders_by_ids ids (fw_folders w))"
    "\<forall>f \<in> set roots. folder_ws f = Some sc"
    "collect_folder_forest_in_resource_scope sc (map fo_id roots) True None (fw_folders w) (files_of w) = Inr (files, all_ids)"
    "purge_files_on (fe_drive env) e sc files d1 = Inr (d2, p)" "folder_delete_many all_ids (fw_folders w) = Inr (fw_folders w')"
    "detach_files all_ids (lg_files (dr_ledger d2)) = Inr tbl"
    "fw_drive w' = d2\<lparr>dr_ledger := (dr_ledger d2)\<lparr>lg_properties := delete_all_for_entities ET_Folder all_ids (lg_properties (dr_ledger d2)), lg_files := tbl\<rparr>,
       dr_shares := fst (delete_by_folder_ids all_ids (dr_shares d2))\<rparr>"
proof -
  let ?R = "filter (\<lambda>f. fo_deleted_at f \<noteq> None) (folders_by_ids ids (fw_folders w))"
  have ne: "?R \<noteq> []" using assms by (auto simp: purge_forest_transaction_def bind_result_Inr_iff Let_def split: if_splits)
  obtain d1 u files all_ids d2 p' fs tbl where a: "enforce_guard (fe_drive env) g sc (fw_drive w) = Inr d1"
      "check_all (\<lambda>f. ensure_folder_resource_scope f sc) ?R = Inr u"
      "collect_folder_forest_in_resource_scope sc (map fo_id ?R) True None (fw_folders w) (files_of w) = Inr (files, all_ids)"
      "purge_files_on (fe_drive env) e sc files d1 = Inr (d2, p')" "folder_delete_many all_ids (fw_folders w) = Inr fs"
      "detach_files all_ids (lg_files (dr_ledger d2)) = Inr tbl" "?R = roots" "p' = p"
      "w\<lparr>fw_drive := d2\<lparr>dr_ledger := (dr_ledger d2)\<lparr>lg_properties := delete_all_for_entities ET_Folder all_ids (lg_properties (dr_ledger d2)), lg_files := tbl\<rparr>,
         dr_shares := fst (delete_by_folder_ids all_ids (dr_shares d2))\<rparr>, fw_folders := fs\<rparr> = w'"
    using assms unfolding purge_forest_transaction_def Let_def if_not_P [OF ne] bind_result_Inr_iff split_paired_Ex prod.case sum.inject prod.inject option.inject
    by (elim exE conjE) (rule that; assumption)
  have "same_tables d1 (fw_drive w)" using a(1) by (auto simp: enforce_guard_def bind_result_Inr_iff)
  moreover have "\<forall>f \<in> set roots. folder_ws f = Some sc" using a(2) unfolding a(7) by (simp add: folder_scope_checks)
  ultimately show thesis using a(3-6) unfolding a(7,8) by (intro that [of d1 files all_ids d2 tbl]) (simp_all add: a(7) [symmetric] a(9) [symmetric] del: not_None_eq)
qed

lemma purge_forest_keeps:
  assumes ok: "folder_ok w" "env_apart (fe_drive env) (fw_drive w)" and t: "purge_forest_transaction env e sc ids g w = Inr (w', Some (p, roots))"
  shows "folder_ok w'" "env_apart (fe_drive env) (fw_drive w')"
proof -
  obtain d1 files all_ids d2 tbl where P: "same_tables d1 (fw_drive w)" "roots = filter (\<lambda>f. fo_deleted_at f \<noteq> None) (folders_by_ids ids (fw_folders w))"
    "\<forall>f \<in> set roots. folder_ws f = Some sc"
    "collect_folder_forest_in_resource_scope sc (map fo_id roots) True None (fw_folders w) (files_of w) = Inr (files, all_ids)"
    "purge_files_on (fe_drive env) e sc files d1 = Inr (d2, p)" "folder_delete_many all_ids (fw_folders w) = Inr (fw_folders w')"
    "detach_files all_ids (lg_files (dr_ledger d2)) = Inr tbl"
    "fw_drive w' = d2\<lparr>dr_ledger := (dr_ledger d2)\<lparr>lg_properties := delete_all_for_entities ET_Folder all_ids (lg_properties (dr_ledger d2)), lg_files := tbl\<rparr>,
       dr_shares := fst (delete_by_folder_ids all_ids (dr_shares d2))\<rparr>"
    by (rule purge_forest_Inr [OF t])
  have d1: "drive_ok d1" "env_apart (fe_drive env) d1" using ok same_tables_ok [OF P(1)] by (simp_all add: folder_ok_def)
  note K = purge_files_on_keeps(1,2) [OF d1 P(5)]
  let ?d = "d2\<lparr>dr_ledger := (dr_ledger d2)\<lparr>lg_properties := delete_all_for_entities ET_Folder all_ids (lg_properties (dr_ledger d2))\<rparr>\<rparr>"
  let ?g = "\<lambda>f. if in_folders all_ids f then f\<lparr>fm_folder_id := None\<rparr> else f"
  have tbl: "tbl = map ?g (lg_files (dr_ledger ?d))" using P(7) by (auto simp: detach_files_def checked_rows_def update_where_def split: if_splits)
  have "drive_ok (with_files tbl ?d)" unfolding tbl
    by (rule map_files_keeps [OF _ drive_properties_keep [OF K(1)]]) (simp add: places_only_def)
  moreover have "same_tables (fw_drive w') (with_files tbl ?d)" unfolding P(8) by (simp add: same_tables_def)
  ultimately have "drive_ok (fw_drive w')" using same_tables_ok(1) by blast
  moreover have "forest_ok (fw_folders w')" by (rule forest_ok_purge [OF _ P(6)]) (use ok in \<open>simp add: folder_ok_def\<close>)
  ultimately show "folder_ok w'" by (simp add: folder_ok_def)
  show "env_apart (fe_drive env) (fw_drive w')" using K(2) unfolding P(8) by (simp add: env_apart_def)
qed

lemma purge_folders_keep:
  assumes "folder_ok w" "env_apart (fe_drive env) (fw_drive w)"
  shows "folder_ok (fst (purge_folder_forest_in_resource_scope env e sc ids emit g w))"
proof -
  have none: "w1 = w" if "purge_forest_transaction env e sc ids g w = Inr (w1, None)" for w1
    using that by (auto simp: purge_forest_transaction_def bind_result_Inr_iff Let_def split: if_splits)
  have "folder_ok (w1\<lparr>fw_drive := cleanup_blobs (fe_drive env) 0 bs (fw_drive w1)\<rparr>)
      \<and> folder_ok (w1\<lparr>fw_drive := publish_event ev (cleanup_blobs (fe_drive env) 0 bs (fw_drive w1))\<rparr>)"
    if "purge_forest_transaction env e sc ids g w = Inr (w1, Some (p, roots))" for w1 p roots bs ev
  proof -
    note K = purge_forest_keeps [OF assms that]
    have "drive_ok (cleanup_blobs (fe_drive env) 0 bs (fw_drive w1))" using cleanup_blobs_keeps [OF _ K(2)] K(1) by (simp add: folder_ok_def)
    then show ?thesis using K(1) same_tables_ok(1) [OF locks_same(2)] by (simp add: folder_ok_def)
  qed
  then show ?thesis using assms(1) none
    by (auto simp: purge_folder_forest_in_resource_scope_def finish_purged_files_def Let_def split: sum.splits option.splits prod.splits)
qed

lemma purge_folder_keeps: "folder_ok w \<Longrightarrow> env_apart (fe_drive env) (fw_drive w) \<Longrightarrow> folder_ok (fst (purge_folder env e sc i w))"
  using purge_folders_keep [of w env e "resource_scope sc" "[i]" True PG_Mutation]
  by (auto simp: purge_folder_def split: sum.splits prod.splits)

section \<open>The system\<close>

text \<open>
  A step is a request on folders, a transaction that makes the folders of an upload path, a policy that is removed from
  the folders bound to it, or a step of the files and their contents. The last kind sees the folders only through the
  lock checks.
\<close>

inductive folder_step :: "folder_world \<Rightarrow> folder_world \<Rightarrow> bool" where
  create: "folder_step w (fst (create_in_scope env sc name parent cr src w))"
| upload_path: "upload_parent_transaction env sc username base segments w = Inr (w', leaf, made) \<Longrightarrow> folder_step w w'"
| update: "folder_step w (fst (update_in_scope env sc i name parent policy src w))"
| icon: "folder_step w (fst (set_icon_in_scope env sc i icon w))"
| policy: "folder_step w (fst (admin_set_policy env policy_ok i bound w))"
| clear_policy: "folder_step w (w\<lparr>fw_folders := fst (clear_policy_references policy_id (fw_folders w))\<rparr>)"
| trash_tree: "folder_step w (fst (delete_in_scope env sc i limits src w))"
| trash_locked_tree: "delete_tree_in_scope_on env sc i limits allow_locked_root src w = Inr (w', f) \<Longrightarrow> folder_step w w'"
| restore_file: "folder_step w (fst (restore_file_in_scope env sc i w))"
| restore_tree: "folder_step w (fst (restore_folder_in_scope env sc i limits w))"
| purge_trees: "env_apart (fe_drive env) (fw_drive w) \<Longrightarrow> folder_step w (fst (purge_folder_forest_in_resource_scope env e rsc ids emit g w))"
| purge_tree: "env_apart (fe_drive env) (fw_drive w) \<Longrightarrow> folder_step w (fst (purge_folder env e sc i w))"
| files: "drive_step (synced w) d \<Longrightarrow> folder_step w (w\<lparr>fw_drive := d\<rparr>)"

inductive_cases folder_stepE: "folder_step w w'"

lemma clear_policy_keeps: "folder_ok w \<Longrightarrow> folder_ok (w\<lparr>fw_folders := fst (clear_policy_references policy_id (fw_folders w))\<rparr>)"
  using forest_ok_shape [of "fw_folders w" "\<lambda>f. if fo_policy_id f = Some policy_id then f\<lparr>fo_policy_id := None\<rparr> else f"]
  by (simp add: folder_ok_def clear_policy_references_def update_where_def folder_shape_def)

lemma folder_step_keeps: "folder_step w w' \<Longrightarrow> folder_ok w \<Longrightarrow> folder_ok w'"
proof (induction rule: folder_step.induct)
  case (files w d)
  then have "drive_ok d" using drive_step_keeps [OF files.hyps] same_tables_ok(1) [OF synced_same] by (simp add: folder_ok_def)
  then show ?case using files.prems by (simp add: folder_ok_def)
qed (blast intro: create_in_scope_keeps upload_parent_keeps(1) update_in_scope_keeps set_icon_keeps admin_set_policy_keeps clear_policy_keeps
    delete_folder_keeps delete_tree_keeps restore_requests_keep purge_folders_keep purge_folder_keeps)+

interpretation folders: step_system folder_step folder_ok
  by unfold_locales (rule folder_step_keeps)

end
