(* ===== verification/Folder_Requests.thy ===== *)
theory Folder_Requests
  imports Folder_System Drive_Requests
begin

text \<open>
  What the folders promise to their users: a sound tree in every reachable state, paths and share boundaries that agree
  with it, moves that never close a cycle, a trash that takes exactly a tree and gives it back, and a purge that takes
  nothing but trash.
\<close>

section \<open>The tree\<close>

lemma fresh_folders_ok: "fresh_drive (fw_drive w) \<Longrightarrow> fw_folders w = [] \<Longrightarrow> folder_ok w"
  using fresh_drive_ok
  by (simp add: folder_ok_def forest_ok_def folder_constraints_def unique_key_def folder_names_unique_def parents_ok_def parent_edges_def
      List.map_filter_simps acyclic_def)

lemma map_filter_inj: "distinct (List.map_filter k xs) \<Longrightarrow> x \<in> set xs \<Longrightarrow> y \<in> set xs \<Longrightarrow> k x = Some v \<Longrightarrow> k y = Some v \<Longrightarrow> x = y"
proof (induction xs)
  case (Cons a xs)
  show ?case
  proof (cases "k a")
    case None
    then show ?thesis using Cons by (auto simp: List.map_filter_simps)
  next
    case (Some u)
    then have "u \<notin> set (List.map_filter k xs)" "distinct (List.map_filter k xs)" using Cons.prems(1) by (simp_all add: List.map_filter_simps)
    then have "z \<noteq> a \<Longrightarrow> z \<in> set (a # xs) \<Longrightarrow> k z \<noteq> Some u" for z by (auto simp: set_map_filter)
    then show ?thesis using Cons Some \<open>distinct (List.map_filter k xs)\<close> by (cases "x = a"; cases "y = a") auto
  qed
qed simp

lemma folder_name_key_live:
  "fo_deleted_at f = None \<Longrightarrow> folder_ws f \<noteq> None \<Longrightarrow> folder_ws f = folder_ws g \<Longrightarrow> fo_parent_id f = fo_parent_id g \<Longrightarrow> fo_name f = fo_name g
   \<Longrightarrow> fo_deleted_at g = None \<Longrightarrow> \<exists>v. folder_name_key f = Some v \<and> folder_name_key g = Some v"
  by (auto simp: folder_name_key_def folder_ws_def split: option.splits)

text \<open>
  (C2) The folders are a sound tree in every state that requests on folders, direct writes into paths, the trash,
  restores, purges and the operations on files reach from an empty instance (the paths that the opening of an upload
  session makes are left out, because they are not checked; the last section shows what they do). The parent of a folder exists, lies in the same
  workspace, and is not in the trash while the folder is not; no folder is below itself; two folders outside the trash
  with the same workspace, parent and name are the same. The books stay exact as well: the usage of each account is
  the size of the live revisions of its workspace.
\<close>

theorem folder_tree_sound:
  assumes "fresh_drive (fw_drive w0)" "fw_folders w0 = []" "folder_step\<^sup>*\<^sup>* w0 w"
  shows "(\<forall>f \<in> set (fw_folders w). \<forall>p. fo_parent_id f = Some p \<longrightarrow>
        (\<exists>g \<in> set (fw_folders w). fo_id g = p \<and> folder_ws g = folder_ws f \<and> (fo_deleted_at f = None \<longrightarrow> fo_deleted_at g = None)))
    \<and> (\<forall>i. (i, i) \<notin> (parent_edges (fw_folders w))\<^sup>+)
    \<and> (\<forall>f \<in> set (fw_folders w). \<forall>g \<in> set (fw_folders w). fo_deleted_at f = None \<longrightarrow> fo_deleted_at g = None \<longrightarrow> folder_ws f = folder_ws g
        \<longrightarrow> fo_parent_id f = fo_parent_id g \<longrightarrow> fo_name f = fo_name g \<longrightarrow> f = g)
    \<and> (\<forall>sc used quota. account_of sc (dr_accounts (fw_drive w)) = Some (used, quota) \<longrightarrow> used = live_bytes (fw_drive w) sc)"
proof -
  have ok: "folder_ok w" by (rule folders.reach_inv [OF assms(3) fresh_folders_ok [OF assms(1,2)]])
  then have fo: "forest_ok (fw_folders w)" and d: "drive_ok (fw_drive w)" by (simp_all add: folder_ok_def)
  have "f = g" if "f \<in> set (fw_folders w)" "g \<in> set (fw_folders w)" "fo_deleted_at f = None" "fo_deleted_at g = None" "folder_ws f = folder_ws g"
    "fo_parent_id f = fo_parent_id g" "fo_name f = fo_name g" for f g
    using folder_name_key_live [OF that(3) forest_okD(4) [OF fo that(1)] that(5-7,4)] map_filter_inj [OF _ that(1,2), of folder_name_key]
      forest_okD(2) [OF fo] by (auto simp: folder_names_unique_def)
  moreover have "used = live_bytes (fw_drive w) sc" if "account_of sc (dr_accounts (fw_drive w)) = Some (used, quota)" for sc used quota
    using drive_pendingD(5) [OF d [unfolded drive_ok_def]] that by (auto simp: accounts_exact_def scope_usage_live)
  ultimately show ?thesis using forest_okD(3,5) [OF fo] by (auto simp: acyclic_def)
qed

section \<open>A run\<close>

text \<open>Comparisons with machine bounds and page sizes are evaluated on integers.\<close>

lemma checked_add_usize_code [code]: "checked_add_usize a b = (if int a + int b \<le> 18446744073709551615 then Some (a + b) else None)"
  by (auto simp: checked_add_usize_def u64_max_def)

definition ex_folder_env :: "nat \<Rightarrow> folder_env" where
  "ex_folder_env k = \<lparr>fe_drive = ex_drive_env\<lparr>de_event_uuid := replicate k (CHR ''e'')\<rparr>, fe_names = ex_names,
     fe_new_ids = (\<lambda>n. 10 * int k + int n), fe_event_uuids = (\<lambda>n. replicate k (CHR ''b'') @ replicate n (CHR ''c'')),
     fe_emoji = (\<lambda>_. None)\<rparr>"

definition ex_world :: folder_world where
  "ex_world = \<lparr>fw_drive = ex_fresh, fw_folders = []\<rparr>"

text \<open>The folder \<open>a\<close>, the folder \<open>b\<close> in it, then \<open>a\<close> in the trash.\<close>

definition ex_world1 :: folder_world where
  "ex_world1 = fst (create_in_scope (ex_folder_env 1) (WS_Personal 1) ''a'' None LC_None AS_Rest ex_world)"

definition ex_world2 :: folder_world where
  "ex_world2 = fst (create_in_scope (ex_folder_env 2) (WS_Personal 1) ''b'' (Some 10) LC_None AS_Rest ex_world1)"

definition ex_world3 :: folder_world where
  "ex_world3 = fst (delete_in_scope (ex_folder_env 3) (WS_Personal 1) 10 None AS_Rest ex_world2)"

lemma ex_world2_shapes:
  "map folder_shape (fw_folders ex_world2) = [(10, None, None, Some 1, None, ''a''), (20, Some 10, None, Some 1, None, ''b'')]"
  by code_simp

lemma ex_world3_shapes:
  "map folder_shape (fw_folders ex_world3) = [(10, None, None, Some 1, Some 50, ''a''), (20, Some 10, None, Some 1, Some 50, ''b'')]"
  by code_simp

lemma ex_worlds_run: "folder_step\<^sup>*\<^sup>* ex_world ex_world2" "folder_step\<^sup>*\<^sup>* ex_world ex_world3"
proof -
  show r: "folder_step\<^sup>*\<^sup>* ex_world ex_world2"
    unfolding ex_world2_def ex_world1_def by (meson folder_step.create r_into_rtranclp rtranclp.rtrancl_into_rtrancl)
  show "folder_step\<^sup>*\<^sup>* ex_world ex_world3"
    unfolding ex_world3_def using r by (meson folder_step.trash_tree rtranclp.rtrancl_into_rtrancl)
qed

lemma ex_world_fresh: "fresh_drive (fw_drive ex_world)" "fw_folders ex_world = []"
  using ex_fresh_fresh by (simp_all add: ex_world_def)

theorem folder_tree_sound_witness:
  "folder_step\<^sup>*\<^sup>* ex_world ex_world3 \<and> length (fw_folders ex_world3) = 2 \<and> (10, 10) \<notin> (parent_edges (fw_folders ex_world3))\<^sup>+"
  using folder_tree_sound [OF ex_world_fresh ex_worlds_run(2)] ex_worlds_run(2) arg_cong [OF ex_world3_shapes, of length] by simp

section \<open>Paths, shares and moves\<close>

text \<open>
  (C39) Paths and share boundaries agree with the tree. In every reachable state the walks that build paths end and find
  a path for every folder they are asked for: the path of its parent followed by its name. The check that confines a
  request to a shared folder ends, accepts a folder if and only if it is the shared folder or lies below it, and refuses
  every other one.
\<close>

theorem folder_paths_exact:
  assumes "fresh_drive (fw_drive w0)" "fw_folders w0 = []" "folder_step\<^sup>*\<^sup>* w0 w" "set ids \<subseteq> fo_id ` set (fw_folders w)"
  shows "(\<exists>path. build_folder_paths (fw_folders w) ids = Some (Inr (\<lambda>i. if i \<in> set ids then Some (path i) else None))
        \<and> (\<forall>f \<in> set (fw_folders w). path (fo_id f) =
             (case fo_parent_id f of None \<Rightarrow> ''/'' @ fo_name f | Some p \<Rightarrow> path p @ ''/'' @ fo_name f)))
    \<and> (\<forall>f \<in> set (fw_folders w). \<forall>root. verify_folder_in_scope (fw_folders w) (fo_id f) root =
         Some (if (fo_id f, root) \<in> (parent_edges (fw_folders w))\<^sup>* then Inr ()
               else Inl (auth_forbidden ''folder is outside shared folder scope'')))"
proof -
  have fo: "forest_ok (fw_folders w)"
    using folders.reach_inv [OF assms(3) fresh_folders_ok [OF assms(1,2)]] by (simp add: folder_ok_def)
  show ?thesis
    using build_folder_paths_forest [OF fo assms(4)] path_of_folder [OF fo] verify_folder_in_scope_forest [OF fo]
    by (intro conjI exI [of _ "path_of (fw_folders w)"]) blast+
qed

theorem folder_paths_exact_witness:
  "\<exists>paths. build_folder_paths (fw_folders ex_world2) [20] = Some (Inr paths) \<and> paths 20 = Some ''/a/b''
     \<and> verify_folder_in_scope (fw_folders ex_world2) 10 20 = Some (Inl (auth_forbidden ''folder is outside shared folder scope''))"
proof -
  obtain a b where fs: "fw_folders ex_world2 = [a, b]" "folder_shape a = (10, None, None, Some 1, None, ''a'')"
      "folder_shape b = (20, Some 10, None, Some 1, None, ''b'')"
    using ex_world2_shapes by (auto simp: map_eq_Cons_conv)
  then have r: "fo_id a = 10" "fo_parent_id a = None" "fo_name a = ''a''" "fo_id b = 20" "fo_parent_id b = Some 10" "fo_name b = ''b''"
    by (simp_all add: folder_shape_def)
  have "set [20] \<subseteq> fo_id ` set (fw_folders ex_world2)" using fs(1) r by simp
  note P = folder_paths_exact [OF ex_world_fresh ex_worlds_run(1) this]
  have e: "parent_edges (fw_folders ex_world2) = {(20, 10)}" using fs(1) r by (auto simp: parent_edges_def)
  have "(10, 20) \<notin> {(20 :: int, 10 :: int)}\<^sup>*" by (auto elim: converse_rtranclE)
  then have "verify_folder_in_scope (fw_folders ex_world2) 10 20 = Some (Inl (auth_forbidden ''folder is outside shared folder scope''))"
    using spec [OF bspec [OF conjunct2 [OF P], of a], of 20] e fs(1) r(1) by simp
  moreover obtain path where p: "build_folder_paths (fw_folders ex_world2) [20] = Some (Inr (\<lambda>i. if i \<in> set [20] then Some (path i) else None))"
      "\<forall>f \<in> set (fw_folders ex_world2). path (fo_id f) = (case fo_parent_id f of None \<Rightarrow> ''/'' @ fo_name f | Some p \<Rightarrow> path p @ ''/'' @ fo_name f)"
    using conjunct1 [OF P] by blast
  moreover have "path 10 = ''/a''" "path 20 = path 10 @ ''/b''" using p(2) fs(1) r by simp_all
  ultimately show ?thesis by simp
qed

text \<open>One folder has a new name and a new parent, which is a live folder of the workspace that does not lie below it.\<close>

definition folder_moved ::
  "name_rules \<Rightarrow> workspace_storage_scope \<Rightarrow> int \<Rightarrow> string option \<Rightarrow> int nullable_patch \<Rightarrow> folder_table \<Rightarrow> folder_table \<Rightarrow> bool" where
  "folder_moved nr sc i name parent fs fs' =
     (\<exists>current n. find_key fo_id i fs = Some current
        \<and> (case name of None \<Rightarrow> n = fo_name current | Some m \<Rightarrow> nr_normalize_validate_name nr m = Inr n)
        \<and> map folder_shape fs' = map (\<lambda>g. folder_shape
            (if fo_id g = i then g\<lparr>fo_name := n, fo_parent_id := patched parent (fo_parent_id g)\<rparr> else g)) fs
        \<and> (\<forall>p. patched parent (fo_parent_id current) = Some p \<longrightarrow> (p, i) \<notin> (parent_edges fs)\<^sup>*
            \<and> (\<exists>g \<in> set fs. fo_id g = p \<and> folder_ws g = Some (resource_scope sc) \<and> fo_deleted_at g = None)))"

lemma update_transaction_moves:
  assumes u: "unique_key fo_id (fw_folders w)"
    and t: "update_folder_transaction env sc i name' parent src w = Inr (w', f, previous)" "normalized_patch (fe_names env) name = Inr name'"
  shows "folder_moved (fe_names env) sc i name parent (fw_folders w) (fw_folders w')"
proof -
  let ?fs = "fw_folders w"
  obtain current chain n w2 where U: "checked w w2" "find_key fo_id i ?fs = Some current" "ensure_folder_model_in_scope current sc = Inr ()"
    "load_folder_chain_in_scope sc ?fs (patched parent (fo_parent_id current)) = Inr chain" "i \<notin> fo_id ` set chain"
    "n = (case name' of Some m \<Rightarrow> m | None \<Rightarrow> fo_name current)"
    "n = fo_name current \<and> patched parent (fo_parent_id current) = fo_parent_id current \<and> w' = w2 \<and> f = current
     \<or> (\<exists>fs ctx action. folder_update (current\<lparr>fo_name := n, fo_parent_id := patched parent (fo_parent_id current), fo_updated_at := de_now (fe_drive env)\<rparr>)
          ?fs = Some fs
        \<and> folder_changed (fe_drive env) ctx current (current\<lparr>fo_name := n, fo_parent_id := patched parent (fo_parent_id current),
             fo_updated_at := de_now (fe_drive env)\<rparr>) action (w2\<lparr>fw_folders := fs\<rparr>) = Inr (w', f))"
    by (rule update_folder_Inr [OF t(1)])
  have cur: "current \<in> set ?fs" "fo_id current = i" using find_key_SomeD [OF U(2)] by simp_all
  have eq: "g = current" if "g \<in> set ?fs" "fo_id g = i" for g using unique_key_inj [OF u that(1) cur(1)] that(2) cur(2) by simp
  have "map folder_shape (fw_folders w') = map (\<lambda>g. folder_shape
      (if fo_id g = i then g\<lparr>fo_name := n, fo_parent_id := patched parent (fo_parent_id g)\<rparr> else g)) ?fs"
  proof (cases "n = fo_name current \<and> patched parent (fo_parent_id current) = fo_parent_id current \<and> w' = w2 \<and> f = current")
    case True
    then show ?thesis using checkedD(1) [OF U(1)] eq by (auto simp: folder_shape_def)
  next
    case False
    then obtain fs where fs: "folder_update (current\<lparr>fo_name := n, fo_parent_id := patched parent (fo_parent_id current), fo_updated_at := de_now (fe_drive env)\<rparr>)
          ?fs = Some fs" "tame (w2\<lparr>fw_folders := fs\<rparr>) w'" using U(7) folder_changed_Inr(1) by blast
    then show ?thesis using tame_shapes(1) [OF fs(2)] eq cur(2) by (auto simp: folder_update_Some folder_shape_def)
  qed
  moreover have "case name of None \<Rightarrow> n = fo_name current | Some m \<Rightarrow> nr_normalize_validate_name (fe_names env) m = Inr n"
    using t(2) U(6) by (auto simp: normalized_patch_def bind_result_Inr_iff split: option.splits)
  moreover have "(p, i) \<notin> (parent_edges ?fs)\<^sup>* \<and> (\<exists>g \<in> set ?fs. fo_id g = p \<and> folder_ws g = Some (resource_scope sc) \<and> fo_deleted_at g = None)"
    if "patched parent (fo_parent_id current) = Some p" for p
    using update_target [OF u U(4) [unfolded that] U(5)] by (intro conjI)
  ultimately show ?thesis using U(2) unfolding folder_moved_def by (intro exI [of _ current] exI [of _ n] conjI) simp_all
qed

text \<open>
  (C9) A rename or move is refused without an effect or changes one row. When it succeeds, the folder has its new name
  and parent, every other folder keeps its place, and the new parent is a folder of the workspace outside the trash that
  is neither the folder itself nor below it. A request to move a folder into itself or into a folder below it is
  always refused.
\<close>

theorem folder_update_exact:
  assumes "folder_ok w"
  shows "(case update_in_scope env sc i name parent policy src w of
        (w', Inl e) \<Rightarrow> w' = w
      | (w', Inr f) \<Rightarrow> folder_moved (fe_names env) sc i name parent (fw_folders w) (fw_folders w'))
    \<and> (\<forall>p. parent = NP_Value p \<longrightarrow> (p, i) \<in> (parent_edges (fw_folders w))\<^sup>* \<longrightarrow>
         (\<exists>e. update_in_scope env sc i name parent policy src w = (w, Inl e)))"
proof -
  have u: "unique_key fo_id (fw_folders w)" using assms forest_okD(1) by (simp add: folder_ok_def)
  obtain w' r where r: "update_in_scope env sc i name parent policy src w = (w', r)" by fastforce
  have A: "case r of Inl e \<Rightarrow> w' = w | Inr f \<Rightarrow> folder_moved (fe_names env) sc i name parent (fw_folders w) (fw_folders w')"
    using r by (cases r) (auto simp: update_in_scope_def bind_result_Inr_iff published_folders_def split: if_splits sum.splits
        dest!: update_transaction_moves [OF u])
  have "\<exists>e. r = Inl e" if "parent = NP_Value p" "(p, i) \<in> (parent_edges (fw_folders w))\<^sup>*" for p
    using A that by (cases r) (auto simp: folder_moved_def)
  then show ?thesis using A r by (auto split: sum.splits)
qed

theorem folder_update_exact_witness:
  "\<exists>e. update_in_scope (ex_folder_env 3) (WS_Personal 1) 10 None (NP_Value 20) NP_Absent AS_Rest ex_world2 = (ex_world2, Inl e)"
proof -
  have ok: "folder_ok ex_world2" by (rule folders.reach_inv [OF ex_worlds_run(1) fresh_folders_ok [OF ex_world_fresh]])
  obtain a b where "fw_folders ex_world2 = [a, b]" "fo_id b = 20" "fo_parent_id b = Some 10"
    using ex_world2_shapes by (auto simp: map_eq_Cons_conv folder_shape_def)
  then have "(20, 10) \<in> (parent_edges (fw_folders ex_world2))\<^sup>*" by (intro r_into_rtrancl) (auto simp: parent_edges_def)
  then show ?thesis using conjunct2 [OF folder_update_exact [OF ok]] by blast
qed

section \<open>The trash\<close>

definition folder_trashed :: "time \<Rightarrow> int set \<Rightarrow> folder_model \<Rightarrow> folder_model" where
  "folder_trashed now ids f = (if fo_id f \<in> ids then f\<lparr>fo_deleted_at := Some now\<rparr> else f)"

definition file_trashed :: "time \<Rightarrow> file_model set \<Rightarrow> file_model \<Rightarrow> file_model" where
  "file_trashed now fs f = (if f \<in> fs then f\<lparr>fm_deleted_at := Some now\<rparr> else f)"

text \<open>A tree: the folders the walk down reaches from one folder.\<close>

abbreviation tree_below :: "workspace_storage_scope \<Rightarrow> bool \<Rightarrow> int \<Rightarrow> folder_table \<Rightarrow> int set" where
  "tree_below sc include_deleted i fs \<equiv> (child_edges (resource_scope sc) include_deleted fs)\<^sup>* `` {i}"

abbreviation tree_files :: "workspace_storage_scope \<Rightarrow> bool \<Rightarrow> int \<Rightarrow> folder_table \<Rightarrow> file_table \<Rightarrow> file_model set" where
  "tree_files sc include_deleted i fs tbl \<equiv> files_below (resource_scope sc) include_deleted (tree_below sc include_deleted i fs) tbl"

lemma shape_updates:
  "folder_shape f = folder_shape g \<Longrightarrow> folder_shape (f\<lparr>fo_deleted_at := t\<rparr>) = folder_shape (g\<lparr>fo_deleted_at := t\<rparr>)"
  "file_shape x = file_shape y \<Longrightarrow> file_shape (x\<lparr>fm_deleted_at := t\<rparr>) = file_shape (y\<lparr>fm_deleted_at := t\<rparr>)"
  by (simp_all add: folder_shape_def file_shape_def)

lemma trashed_tables:
  assumes ok: "folder_ok w" and d: "delete_in_scope env sc i limits src w = (w', Inr ())"
  shows "map folder_shape (fw_folders w') = map (folder_shape \<circ> folder_trashed (de_now (fe_drive env)) (tree_below sc False i (fw_folders w))) (fw_folders w)"
    "map file_shape (files_of w') = map (file_shape \<circ> file_trashed (de_now (fe_drive env)) (tree_files sc False i (fw_folders w) (files_of w))) (files_of w)"
    "\<exists>f \<in> set (fw_folders w). fo_id f = i \<and> folder_ws f = Some (resource_scope sc) \<and> fo_deleted_at f = None"
proof -
  obtain w1 f where d1: "delete_tree_in_scope_on env sc i limits False src w = Inr (w1, f)" and w': "fw_folders w' = fw_folders w1" "files_of w' = files_of w1"
    using d by (auto simp: delete_in_scope_def published_folders_def files_of_def publish_event_def split: sum.splits)
  note u = folder_ok_files [OF ok]
  obtain files ids w2 where D: "tame w w2" "f \<in> set (fw_folders w)" "fo_id f = i" "fw_folders w1 = folder_soft_delete_many ids (de_now (fe_drive env)) (fw_folders w2)"
    "fw_drive w1 = with_files (soft_delete_many (map fm_id files) (de_now (fe_drive env)) (files_of w2)) (fw_drive w2)"
    "set ids = tree_below sc False i (fw_folders w)" "set files = files_below (resource_scope sc) False (set ids) (files_of w)"
    "\<forall>g \<in> set (fw_folders w). fo_id g = i \<longrightarrow> unique_key fo_id (fw_folders w) \<longrightarrow> folder_ws g = Some (resource_scope sc) \<and> fo_deleted_at g = None"
    by (rule delete_tree_Inr [OF d1 u])
  obtain g h where t: "\<forall>f. file_shape (g f) = file_shape f" "\<forall>f. folder_shape (h f) = folder_shape f"
      "fw_folders w2 = map h (fw_folders w)" "same_tables (fw_drive w2) (with_files (map g (files_of w)) (fw_drive w))"
    by (rule tameE [OF D(1)])
  have hid: "fo_id (h x) = fo_id x" for x using t(2) [THEN spec, of x] by (simp add: folder_shape_def)
  have gid: "fm_id (g x) = fm_id x" for x using t(1) [THEN spec, of x] by (simp add: file_shape_def)
  have "folder_shape (if fo_id (h x) \<in> set ids then h x\<lparr>fo_deleted_at := Some n\<rparr> else h x) = folder_shape (folder_trashed n (set ids) x)" for x n
    using t(2) shape_updates(1) [of "h x" x] by (simp add: folder_trashed_def hid)
  then show "map folder_shape (fw_folders w') = map (folder_shape \<circ> folder_trashed (de_now (fe_drive env)) (tree_below sc False i (fw_folders w))) (fw_folders w)"
    unfolding w' D(4) t(3) D(6) [symmetric] by (cases "ids = []") (simp_all add: folder_soft_delete_many_def update_where_def folder_trashed_def hid t(2))
  have f2: "files_of w2 = map g (files_of w)" using t(4) by (simp add: same_tables_def files_of_def)
  have in_files: "fm_id x \<in> fm_id ` set files \<longleftrightarrow> x \<in> set files" if "x \<in> set (files_of w)" for x
  proof -
    have "y = x" if "y \<in> set files" "fm_id x = fm_id y" for y
      using that unique_key_inj [OF u _ \<open>x \<in> set (files_of w)\<close>, of y] unfolding D(7) by (simp add: files_below_def)
    then show ?thesis by blast
  qed
  have "file_shape (if fm_id (g x) \<in> fm_id ` set files then g x\<lparr>fm_deleted_at := Some n\<rparr> else g x) = file_shape (file_trashed n (set files) x)"
    if "x \<in> set (files_of w)" for x n
    using t(1) shape_updates(2) [of "g x" x] in_files [OF that] by (simp add: file_trashed_def gid)
  moreover have "files_of w1 = soft_delete_many (map fm_id files) (de_now (fe_drive env)) (map g (files_of w))" unfolding files_of_def D(5) using f2 by (simp add: files_of_def)
  ultimately show "map file_shape (files_of w') = map (file_shape \<circ> file_trashed (de_now (fe_drive env)) (tree_files sc False i (fw_folders w) (files_of w))) (files_of w)"
    unfolding w' D(6,7) [symmetric] by (cases "files = []") (simp_all add: soft_delete_many_def update_where_def file_trashed_def t(1) D(7) [unfolded D(6), symmetric])
  show "\<exists>f \<in> set (fw_folders w). fo_id f = i \<and> folder_ws f = Some (resource_scope sc) \<and> fo_deleted_at f = None"
    using D(2,3,8) forest_okD(1) ok by (auto simp: folder_ok_def)
qed

definition folder_restored :: "int option \<Rightarrow> int \<Rightarrow> int set \<Rightarrow> folder_model \<Rightarrow> folder_model" where
  "folder_restored place i ids f =
     (if fo_id f = i then f\<lparr>fo_parent_id := place, fo_deleted_at := None\<rparr>
      else if fo_id f \<in> ids then f\<lparr>fo_deleted_at := None\<rparr> else f)"

definition file_restored :: "file_model set \<Rightarrow> file_model \<Rightarrow> file_model" where
  "file_restored fs f = (if f \<in> fs then f\<lparr>fm_deleted_at := None\<rparr> else f)"

lemma restored_folders:
  assumes u: "unique_key fo_id fs" and f: "find_key fo_id i fs = Some folder"
    and r: "folder_update (folder\<lparr>fo_parent_id := place, fo_deleted_at := None\<rparr>) fs = Some fs1"
    and h: "\<forall>f. folder_shape (h f) = folder_shape f" and c: "folder_restore_many (filter (\<lambda>j. j \<noteq> i) ids) (map h fs1) = Inr fs'"
  shows "map folder_shape fs' = map (folder_shape \<circ> folder_restored place i (set ids)) fs"
proof -
  have cur: "folder \<in> set fs" "fo_id folder = i" using find_key_SomeD [OF f] by simp_all
  have eq: "x = folder" if "x \<in> set fs" "fo_id x = i" for x using unique_key_inj [OF u that(1) cur(1)] that(2) cur(2) by simp
  let ?r = "\<lambda>x. if fo_id x = i then x\<lparr>fo_parent_id := place, fo_deleted_at := None\<rparr> else x"
  have fs1: "fs1 = map ?r fs" using r cur(2) eq by (auto simp: folder_update_Some)
  have hid: "fo_id (h x) = fo_id x" for x using h [THEN spec, of x] by (simp add: folder_shape_def)
  let ?k = "\<lambda>x. if fo_id x \<in> set ids \<and> fo_id x \<noteq> i then x\<lparr>fo_deleted_at := None\<rparr> else x"
  have fs': "fs' = map ?k (map h fs1)"
    using c by (cases "filter (\<lambda>j. j \<noteq> i) ids = []")
      (auto simp: folder_restore_many_def checked_folders_def update_where_def filter_empty_conv split: if_splits intro!: map_idI [symmetric])
  have k: "folder_shape (?k (h y)) = folder_shape (?k y)" for y using h shape_updates(1) [of "h y" y] by (simp add: hid)
  have r: "?k (?r x) = folder_restored place i (set ids) x" for x by (simp add: folder_restored_def)
  show ?thesis unfolding fs' fs1 map_map comp_def k r ..
qed

lemma restored_tables:
  assumes ok: "folder_ok w" and d: "restore_folder_in_scope env sc i limits w = (w', Inr ())"
  obtains folder place where "find_key fo_id i (fw_folders w) = Some folder" "fo_deleted_at folder \<noteq> None" "folder_ws folder = Some (resource_scope sc)"
    "restore_place sc (fo_parent_id folder) (fw_folders w) = Inr place"
    "map folder_shape (fw_folders w') = map (folder_shape \<circ> folder_restored place i (tree_below sc True i (fw_folders w))) (fw_folders w)"
    "map file_shape (files_of w') = map (file_shape \<circ> file_restored (tree_files sc True i (fw_folders w) (files_of w))) (files_of w)"
proof -
  obtain w1 place where t1: "restore_folder_transaction env sc i limits w = Inr (w1, place)"
      and w': "fw_folders w' = fw_folders w1" "files_of w' = files_of w1"
    using d by (auto simp: restore_folder_in_scope_def published_folders_def files_of_def publish_event_def bind_result_Inr_iff split: sum.splits)
  note u = folder_ok_files [OF ok]
  obtain folder files ids fs w4 tbl where R: "find_key fo_id i (fw_folders w) = Some folder" "folder_ws folder = Some (resource_scope sc)" "fo_deleted_at folder \<noteq> None"
    "restore_place sc (fo_parent_id folder) (fw_folders w) = Inr place"
    "set ids = tree_below sc True i (fw_folders w)" "set files = files_below (resource_scope sc) True (set ids) (files_of w)"
    "folder_update (folder\<lparr>fo_parent_id := place, fo_deleted_at := None\<rparr>) (fw_folders w) = Some fs" "tame (w\<lparr>fw_folders := fs\<rparr>) w4"
    "restore_many (map fm_id files) (files_of w4) = Inr tbl" "fw_drive w1 = with_files tbl (fw_drive w4)"
    "folder_restore_many (filter (\<lambda>j. j \<noteq> i) ids) (fw_folders w4) = Inr (fw_folders w1)"
    by (rule restore_folder_Inr [OF t1 u])
  obtain g h where t: "\<forall>f. file_shape (g f) = file_shape f" "\<forall>f. folder_shape (h f) = folder_shape f" "fw_folders w4 = map h fs"
      "same_tables (fw_drive w4) (with_files (map g (files_of w)) (fw_drive w))"
    by (rule tameE [OF R(8)]) (simp add: files_of_def)
  have uf: "unique_key fo_id (fw_folders w)" using ok forest_okD(1) by (simp add: folder_ok_def)
  have A: "map folder_shape (fw_folders w') = map (folder_shape \<circ> folder_restored place i (tree_below sc True i (fw_folders w))) (fw_folders w)"
    unfolding w' R(5) [symmetric] by (rule restored_folders [OF uf R(1,7) t(2) R(11) [unfolded t(3)]])
  have gid: "fm_id (g x) = fm_id x" for x using t(1) [THEN spec, of x] by (simp add: file_shape_def)
  have in_files: "fm_id x \<in> fm_id ` set files \<longleftrightarrow> x \<in> set files" if "x \<in> set (files_of w)" for x
  proof -
    have "y = x" if "y \<in> set files" "fm_id x = fm_id y" for y
      using that unique_key_inj [OF u _ \<open>x \<in> set (files_of w)\<close>, of y] unfolding R(6) by (simp add: files_below_def)
    then show ?thesis by blast
  qed
  have "file_shape (if fm_id (g x) \<in> fm_id ` set files then undeleted (g x) else g x) = file_shape (file_restored (set files) x)"
    if "x \<in> set (files_of w)" for x
    using t(1) shape_updates(2) [of "g x" x] in_files [OF that] by (simp add: file_restored_def gid undeleted_def)
  moreover have "tbl = map (\<lambda>x. if fm_id x \<in> fm_id ` set files then undeleted x else x) (map g (files_of w))"
    using R(9) t(4) by (cases "files = []") (auto simp: restore_many_def checked_rows_def update_where_def files_of_def same_tables_def split: if_splits)
  moreover have "files_of w1 = tbl" by (simp add: files_of_def R(10))
  ultimately have "map file_shape (files_of w') = map (file_shape \<circ> file_restored (tree_files sc True i (fw_folders w) (files_of w))) (files_of w)"
    unfolding w' R(5,6) [symmetric] by simp
  then show thesis using that R(1,3,2,4) A by blast
qed

text \<open>The walk that follows the trash does not see it.\<close>

lemma child_edges_shape:
  assumes "map folder_shape fs' = map (folder_shape \<circ> folder_trashed now ids) fs"
  shows "child_edges sc True fs' = child_edges sc True fs"
proof -
  let ?e = "\<lambda>f. (fo_id f, fo_parent_id f, folder_ws f)"
  let ?ws = "\<lambda>(i, p, t, u, d, n). (i, p, case t of Some t \<Rightarrow> Some (RS_Team t) | None \<Rightarrow> map_option RS_Personal u)"
  have e: "?ws (folder_shape f) = ?e f" for f by (simp add: folder_shape_def folder_ws_def)
  have "map ?e fs' = map ?ws (map folder_shape fs')" using e by simp
  also have "\<dots> = map (?e \<circ> folder_trashed now ids) fs" unfolding assms using e by simp
  also have "\<dots> = map ?e fs" by (simp add: folder_trashed_def)
  finally have "set (map ?e fs') = set (map ?e fs)" by (rule arg_cong)
  moreover have "child_edges sc True x = {(p, i). (i, Some p, Some sc) \<in> set (map ?e x)}" for x by (force simp: child_edges_def)
  ultimately show ?thesis by simp
qed

lemma live_tree:
  assumes "\<forall>f \<in> set fs. fo_id f \<in> (child_edges sc True fs)\<^sup>* `` {i} \<longrightarrow> fo_deleted_at f = None"
  shows "(child_edges sc True fs)\<^sup>* `` {i} = (child_edges sc False fs)\<^sup>* `` {i}"
proof
  have "child_edges sc False fs \<subseteq> child_edges sc True fs" by (auto simp: child_edges_def)
  then show "(child_edges sc False fs)\<^sup>* `` {i} \<subseteq> (child_edges sc True fs)\<^sup>* `` {i}" using rtrancl_mono by blast
  have "(i, j) \<in> (child_edges sc False fs)\<^sup>*" if "(i, j) \<in> (child_edges sc True fs)\<^sup>*" for j
    using that
  proof (induction rule: rtrancl_induct)
    case (step y z)
    then obtain f where f: "f \<in> set fs" "fo_id f = z" "fo_parent_id f = Some y" "folder_ws f = Some sc" by (auto simp: child_edges_def)
    have "(i, z) \<in> (child_edges sc True fs)\<^sup>*" using step.hyps by (rule rtrancl_into_rtrancl)
    then have "(y, z) \<in> child_edges sc False fs" using assms f by (auto simp: child_edges_def)
    then show ?case using step.IH by (rule rtrancl_into_rtrancl [rotated])
  qed simp
  then show "(child_edges sc True fs)\<^sup>* `` {i} \<subseteq> (child_edges sc False fs)\<^sup>* `` {i}" by blast
qed

lemma child_parent_edges: "(i, j) \<in> (child_edges sc incl fs)\<^sup>* \<Longrightarrow> (j, i) \<in> (parent_edges fs)\<^sup>*"
proof (induction rule: rtrancl_induct)
  case (step y z)
  then have "(z, y) \<in> parent_edges fs" by (auto simp: child_edges_def parent_edges_def)
  then show ?case using step.IH by (rule converse_rtrancl_into_rtrancl)
qed simp

lemma roundtrip_place:
  assumes ok: "forest_ok fs" "f \<in> set fs" "fo_deleted_at f = None" "folder_ws f = Some (resource_scope sc)"
    and fs1: "map folder_shape fs1 = map (folder_shape \<circ> folder_trashed now (tree_below sc False (fo_id f) fs)) fs" "unique_key fo_id fs1"
  shows "restore_place sc (fo_parent_id f) fs1 = Inr (fo_parent_id f)"
proof (cases "fo_parent_id f")
  case None
  then show ?thesis by (simp add: restore_place_def)
next
  case (Some p)
  then obtain g where g: "g \<in> set fs" "fo_id g = p" "folder_ws g = Some (resource_scope sc)" "fo_deleted_at g = None"
    using forest_okD(5) [OF ok(1,2) Some] ok(3,4) by auto
  have "p \<notin> tree_below sc False (fo_id f) fs"
  proof
    assume "p \<in> tree_below sc False (fo_id f) fs"
    then have "(p, fo_id f) \<in> (parent_edges fs)\<^sup>*" using child_parent_edges by blast
    moreover have "(fo_id f, p) \<in> parent_edges fs" using parent_edge [OF forest_okD(1) [OF ok(1)] ok(2)] Some by simp
    ultimately show False using forest_okD(3) [OF ok(1)] by (auto simp: acyclic_def dest: rtrancl_into_trancl2)
  qed
  then have "folder_shape g \<in> set (map folder_shape fs1)" unfolding fs1(1) using g(1,2) by (force simp: folder_trashed_def)
  then obtain g1 where g1: "g1 \<in> set fs1" "folder_shape g1 = folder_shape g" by auto
  then have "find_key fo_id p fs1 = Some g1" using fs1(2) g(2) by (simp add: find_key_Some_iff folder_shape_def)
  moreover have "folder_ws g1 = Some (resource_scope sc)" "fo_deleted_at g1 = None" using shape_ws [OF g1(2)] g g1(2) by (simp_all add: folder_shape_def)
  ultimately show ?thesis using restore_place_live Some by simp
qed

lemma trashed_restored_folders:
  assumes live: "\<forall>f \<in> set fs. fo_id f \<in> T \<longrightarrow> fo_deleted_at f = None" and i: "i \<in> T" "\<forall>f \<in> set fs. fo_id f = i \<longrightarrow> fo_parent_id f = place"
    and fs1: "map folder_shape fs1 = map (folder_shape \<circ> folder_trashed now T) fs"
  shows "map (folder_shape \<circ> folder_restored place i T) fs1 = map folder_shape fs"
proof -
  let ?R = "\<lambda>(j, p, t, u, d, n). if j = i then (j, place, t, u, None, n) else if j \<in> T then (j, p, t, u, None, n) else (j, p, t, u, d, n)"
  have r: "folder_shape (folder_restored place i T f) = ?R (folder_shape f)" for f by (simp add: folder_restored_def folder_shape_def)
  have "map (folder_shape \<circ> folder_restored place i T) fs1 = map ?R (map folder_shape fs1)" using r by simp
  also have "\<dots> = map (\<lambda>f. ?R (folder_shape (folder_trashed now T f))) fs" unfolding fs1 by simp
  also have "\<dots> = map folder_shape fs" using live i by (auto simp: folder_shape_def folder_trashed_def)
  finally show ?thesis .
qed

lemma trashed_restored_files:
  assumes live: "\<forall>f \<in> files_below sc True T tbl. fm_deleted_at f = None"
    and t1: "map file_shape tbl1 = map (file_shape \<circ> file_trashed now (files_below sc False T tbl)) tbl"
  shows "map (file_shape \<circ> file_restored (files_below sc True T tbl1)) tbl1 = map file_shape tbl"
proof -
  let ?in = "\<lambda>((j, t, u, b, z), p, n, d). (case sc of RS_Team x \<Rightarrow> t = Some x | RS_Personal x \<Rightarrow> u = Some x \<and> t = None) \<and> p \<in> Some ` T"
  let ?R = "\<lambda>s. if ?in s then (case s of (k, p, n, d) \<Rightarrow> (k, p, n, None)) else s"
  have s: "?in (file_shape f) \<longleftrightarrow> scope_condition sc f \<and> fm_folder_id f \<in> Some ` T" for f
    by (auto simp: file_shape_def scope_condition_def split: workspace_resource_scope.splits)
  have "file_shape (file_restored (files_below sc True T tbl1) f) = ?R (file_shape f)" if "f \<in> set tbl1" for f
    using that s [of f] by (auto simp: file_restored_def files_below_def file_shape_def)
  then have "map (file_shape \<circ> file_restored (files_below sc True T tbl1)) tbl1 = map ?R (map file_shape tbl1)" by simp
  also have "\<dots> = map (\<lambda>f. ?R (file_shape (file_trashed now (files_below sc False T tbl) f))) tbl" unfolding t1 by simp
  also have "\<dots> = map file_shape tbl"
  proof (rule map_cong [OF refl])
    fix f assume f: "f \<in> set tbl"
    have same: "?in (file_shape (file_trashed now X f)) = ?in (file_shape f)" for X unfolding s by (auto simp: file_trashed_def scope_condition_def split: workspace_resource_scope.splits)
    show "?R (file_shape (file_trashed now (files_below sc False T tbl) f)) = file_shape f"
    proof (cases "f \<in> files_below sc True T tbl")
      case True
      then have "f \<in> files_below sc False T tbl" "fm_deleted_at f = None" "?in (file_shape f)" using live s by (auto simp: files_below_def)
      then show ?thesis using same by (simp add: file_trashed_def file_shape_def)
    next
      case False
      then have "f \<notin> files_below sc False T tbl" "\<not> ?in (file_shape f)" using f s by (auto simp: files_below_def)
      then show ?thesis by (simp add: file_trashed_def)
    qed
  qed
  finally show ?thesis .
qed

text \<open>
  (C8) Putting a folder into the trash and taking it out again changes nothing. In a reachable state, if nothing below
  the folder is in the trash, a deletion of its tree that succeeds, followed by a restore that succeeds, leaves every
  folder and every file with the id, workspace, place, name and content it had, and outside the trash. In between
  exactly the folders of the tree and the files in them carry the time of the deletion.
\<close>

theorem trash_restore_roundtrip:
  assumes "fresh_drive (fw_drive w0)" "fw_folders w0 = []" "folder_step\<^sup>*\<^sup>* w0 w"
    and "\<forall>f \<in> set (fw_folders w). fo_id f \<in> tree_below sc True i (fw_folders w) \<longrightarrow> fo_deleted_at f = None"
    and "\<forall>f \<in> tree_files sc True i (fw_folders w) (files_of w). fm_deleted_at f = None"
    and "delete_in_scope env sc i limits src w = (w1, Inr ())" "restore_folder_in_scope env' sc i limits' w1 = (w2, Inr ())"
  shows "map folder_shape (fw_folders w1) =
        map (folder_shape \<circ> folder_trashed (de_now (fe_drive env)) (tree_below sc False i (fw_folders w))) (fw_folders w)
    \<and> map file_shape (files_of w1) =
        map (file_shape \<circ> file_trashed (de_now (fe_drive env)) (tree_files sc False i (fw_folders w) (files_of w))) (files_of w)
    \<and> map folder_shape (fw_folders w2) = map folder_shape (fw_folders w) \<and> map file_shape (files_of w2) = map file_shape (files_of w)"
proof -
  have ok: "folder_ok w" by (rule folders.reach_inv [OF assms(3) fresh_folders_ok [OF assms(1,2)]])
  let ?fs = "fw_folders w" and ?fs1 = "fw_folders w1" and ?T = "tree_below sc True i (fw_folders w)"
  have fo: "forest_ok ?fs" using ok by (simp add: folder_ok_def)
  have T: "tree_below sc False i ?fs = ?T" by (rule live_tree [OF assms(4), symmetric])
  note D = trashed_tables [OF ok assms(6)]
  obtain f where f: "f \<in> set ?fs" "fo_id f = i" "folder_ws f = Some (resource_scope sc)" "fo_deleted_at f = None" using D(3) by blast
  have ok1: "folder_ok w1" using delete_folder_keeps [OF ok, of env sc i limits src] assms(6) by simp
  obtain folder place where R: "find_key fo_id i ?fs1 = Some folder" "fo_deleted_at folder \<noteq> None" "folder_ws folder = Some (resource_scope sc)"
    "restore_place sc (fo_parent_id folder) ?fs1 = Inr place"
    "map folder_shape (fw_folders w2) = map (folder_shape \<circ> folder_restored place i (tree_below sc True i ?fs1)) ?fs1"
    "map file_shape (files_of w2) = map (file_shape \<circ> file_restored (tree_files sc True i ?fs1 (files_of w1))) (files_of w1)"
    by (rule restored_tables [OF ok1 assms(7)])
  have T1: "tree_below sc True i ?fs1 = ?T" by (simp only: child_edges_shape [OF D(1)])
  have u1: "unique_key fo_id ?fs1" using ok1 forest_okD(1) by (simp add: folder_ok_def)
  have "fo_parent_id folder = fo_parent_id f"
  proof -
    have "folder_shape folder \<in> set (map folder_shape ?fs1)" using find_key_SomeD [OF R(1)] by simp
    then obtain x where x: "x \<in> set ?fs" "folder_shape folder = folder_shape (folder_trashed (de_now (fe_drive env)) (tree_below sc False i ?fs) x)"
      unfolding D(1) by auto
    then have "fo_id x = i" "fo_parent_id folder = fo_parent_id x" using find_key_SomeD [OF R(1)] by (auto simp: folder_shape_def folder_trashed_def split: if_splits)
    then show ?thesis using unique_key_inj [OF forest_okD(1) [OF fo] x(1) f(1)] f(2) by simp
  qed
  then have place: "place = fo_parent_id f" using R(4) roundtrip_place [OF fo f(1,4,3) D(1) [folded f(2)] u1] by simp
  have p: "\<forall>x \<in> set ?fs. fo_id x = i \<longrightarrow> fo_parent_id x = place"
    using unique_key_inj [OF forest_okD(1) [OF fo] _ f(1)] f(2) place by auto
  have "map folder_shape (fw_folders w2) = map folder_shape ?fs"
    unfolding R(5) T1 by (rule trashed_restored_folders [OF assms(4) _ p D(1) [unfolded T]]) simp
  moreover have "map file_shape (files_of w2) = map file_shape (files_of w)"
    unfolding R(6) T1 by (rule trashed_restored_files [OF assms(5) D(2) [unfolded T]])
  ultimately show ?thesis using D(1,2) by simp
qed

lemma ex_restored:
  "snd (delete_in_scope (ex_folder_env 3) (WS_Personal 1) 10 None AS_Rest ex_world2) = Inr ()"
  "snd (restore_folder_in_scope (ex_folder_env 4) (WS_Personal 1) 10 None ex_world3) = Inr ()"
  by code_simp+

lemma ex_world2_live: "files_of ex_world2 = []" "\<forall>f \<in> set (fw_folders ex_world2). fo_deleted_at f = None"
proof -
  show "files_of ex_world2 = []" by code_simp
  show "\<forall>f \<in> set (fw_folders ex_world2). fo_deleted_at f = None" using ex_world2_shapes by (auto simp: map_eq_Cons_conv folder_shape_def)
qed

theorem trash_restore_roundtrip_witness:
  "map folder_shape (fw_folders (fst (restore_folder_in_scope (ex_folder_env 4) (WS_Personal 1) 10 None ex_world3)))
     = [(10, None, None, Some 1, None, ''a''), (20, Some 10, None, Some 1, None, ''b'')]"
proof -
  have d: "delete_in_scope (ex_folder_env 3) (WS_Personal 1) 10 None AS_Rest ex_world2 = (ex_world3, Inr ())"
    using ex_restored(1) by (simp add: ex_world3_def prod_eq_iff)
  obtain w2 where r: "restore_folder_in_scope (ex_folder_env 4) (WS_Personal 1) 10 None ex_world3 = (w2, Inr ())"
    using ex_restored(2) by (cases "restore_folder_in_scope (ex_folder_env 4) (WS_Personal 1) 10 None ex_world3") simp
  have "map folder_shape (fw_folders w2) = map folder_shape (fw_folders ex_world2)"
    using trash_restore_roundtrip [OF ex_world_fresh ex_worlds_run(1) _ _ d r] ex_world2_live by (simp add: files_below_def)
  then show ?thesis using r ex_world2_shapes by simp
qed

section \<open>Purging\<close>

lemma purged_are_trash:
  assumes "forest_ok fs" "\<forall>i \<in> roots. \<forall>f \<in> set fs. fo_id f = i \<longrightarrow> fo_deleted_at f \<noteq> None"
    and "f \<in> set fs" "fo_id f \<in> (child_edges sc True fs)\<^sup>* `` roots"
  shows "fo_deleted_at f \<noteq> None"
proof -
  obtain r where r: "r \<in> roots" "(r, fo_id f) \<in> (child_edges sc True fs)\<^sup>*" using assms(4) by blast
  from r(2) have "\<forall>x \<in> set fs. fo_id x = fo_id f \<longrightarrow> fo_deleted_at x \<noteq> None"
  proof (induction rule: rtrancl_induct)
    case base
    then show ?case using assms(2) r(1) by blast
  next
    case (step y z)
    then obtain x where x: "x \<in> set fs" "fo_id x = z" "fo_parent_id x = Some y" by (auto simp: child_edges_def)
    have "fo_deleted_at x \<noteq> None" using forest_okD(5) [OF assms(1) x(1,3)] step.IH by blast
    then show ?case using unique_key_inj [OF forest_okD(1) [OF assms(1)] _ x(1)] x(2) by auto
  qed
  then show ?thesis using assms(3) by blast
qed

lemma purge_forest_None:
  assumes "purge_forest_transaction env e sc ids g w = Inr (w1, None)"
  shows "w1 = w" "{fo_id f | f. f \<in> set (fw_folders w) \<and> fo_id f \<in> set ids \<and> fo_deleted_at f \<noteq> None} = {}"
proof -
  have "w1 = w \<and> filter (\<lambda>f. fo_deleted_at f \<noteq> None) (folders_by_ids ids (fw_folders w)) = []"
    using assms by (auto simp: purge_forest_transaction_def Let_def bind_result_Inr_iff split: if_splits)
  then show "w1 = w" "{fo_id f | f. f \<in> set (fw_folders w) \<and> fo_id f \<in> set ids \<and> fo_deleted_at f \<noteq> None} = {}"
    by (auto simp: folders_by_ids_def select_where_def filter_empty_conv split: if_splits)
qed

lemma purge_collected_files:
  assumes d: "drive_ok d" "env_apart env d" and sub: "set files \<subseteq> set (lg_files (dr_ledger d))" and p: "purge_files_on env e sc files d = Inr (d', p)"
  shows "lg_files (dr_ledger d') = filter (\<lambda>f. f \<notin> set files) (lg_files (dr_ledger d))"
    "scope_usage (charges (dr_ledger d')) s = scope_usage (charges (dr_ledger d)) s - (if s = sc then ps_freed_bytes (pf_summary p) else 0)"
proof -
  let ?tbl = "lg_files (dr_ledger d)"
  have "lg_files (dr_ledger d') = filter (\<lambda>f. f \<notin> set files) ?tbl
    \<and> scope_usage (charges (dr_ledger d')) s = scope_usage (charges (dr_ledger d)) s - (if s = sc then ps_freed_bytes (pf_summary p) else 0)"
  proof (cases "files = []")
    case True
    then show ?thesis using p by (auto simp: purge_files_on_def no_purged_files_def)
  next
    case False
    obtain cs where Q: "cs = map fm_id (purge_targets files (dr_ledger d))" "dr_ledger d' = purged_ledger (de_now env) cs (dr_ledger d)"
      by (rule purge_files_on_Inr [OF p False]) blast
    have u: "unique_key fm_id ?tbl" using drive_pendingD(2) [OF d(1) [unfolded drive_ok_def]] by (simp add: files_ok_def)
    have cs: "set cs = {fm_id f | f. f \<in> set ?tbl \<and> fm_id f \<in> fm_id ` set files
        \<and> \<not> (fm_deleted_at f = None \<and> (\<exists>r \<in> set files. fm_id r = fm_id f \<and> fm_deleted_at r \<noteq> None))}"
      using purge_targets_ids [OF False, of "dr_ledger d"] by (simp add: Q(1))
    have "fm_id x \<in> set cs \<longleftrightarrow> x \<in> set files" if x: "x \<in> set ?tbl" for x
    proof
      assume "fm_id x \<in> set cs"
      then obtain y where "y \<in> set files" "fm_id y = fm_id x" unfolding cs by auto
      then show "x \<in> set files" using unique_key_inj [OF u _ x, of y] sub by auto
    next
      assume f: "x \<in> set files"
      have "fm_deleted_at r = fm_deleted_at x" if "r \<in> set files" "fm_id r = fm_id x" for r
        using unique_key_inj [OF u _ x, of r] that sub by auto
      then have "\<not> (fm_deleted_at x = None \<and> (\<exists>r \<in> set files. fm_id r = fm_id x \<and> fm_deleted_at r \<noteq> None))" by auto
      then show "fm_id x \<in> set cs" unfolding cs using f x by (intro CollectI exI [of _ x] conjI) simp_all
    qed
    then have "lg_files (dr_ledger d') = filter (\<lambda>f. f \<notin> set files) ?tbl"
      unfolding Q(2) purged_ledger_tables(3) by (intro filter_cong) simp_all
    then show ?thesis using purge_files_on_keeps(3) [OF d p False] by simp
  qed
  then show "lg_files (dr_ledger d') = filter (\<lambda>f. f \<notin> set files) ?tbl"
    "scope_usage (charges (dr_ledger d')) s = scope_usage (charges (dr_ledger d)) s - (if s = sc then ps_freed_bytes (pf_summary p) else 0)"
    by simp_all
qed

lemma purge_forest_tables:
  assumes ok: "folder_ok w" "env_apart (fe_drive env) (fw_drive w)" and t: "purge_forest_transaction env e sc ids g w = Inr (w', Some (p, roots))"
  defines "gone \<equiv> (child_edges sc True (fw_folders w))\<^sup>* `` (fo_id ` set roots)"
  shows "fw_folders w' = filter (\<lambda>f. fo_id f \<notin> gone) (fw_folders w)"
    "map fm_id (files_of w') = map fm_id (filter (\<lambda>f. f \<notin> files_below sc True gone (files_of w)) (files_of w))"
    "live_bytes (fw_drive w') s = live_bytes (fw_drive w) s - (if s = sc then ps_freed_bytes (pf_summary p) else 0)"
proof -
  obtain d1 files all_ids d2 tbl where P: "same_tables d1 (fw_drive w)" "roots = filter (\<lambda>f. fo_deleted_at f \<noteq> None) (folders_by_ids ids (fw_folders w))"
    "\<forall>f \<in> set roots. folder_ws f = Some sc"
    "collect_folder_forest_in_resource_scope sc (map fo_id roots) True None (fw_folders w) (files_of w) = Inr (files, all_ids)"
    "purge_files_on (fe_drive env) e sc files d1 = Inr (d2, p)" "folder_delete_many all_ids (fw_folders w) = Inr (fw_folders w')"
    "detach_files all_ids (lg_files (dr_ledger d2)) = Inr tbl"
    "fw_drive w' = d2\<lparr>dr_ledger := (dr_ledger d2)\<lparr>lg_properties := delete_all_for_entities ET_Folder all_ids (lg_properties (dr_ledger d2)), lg_files := tbl\<rparr>,
       dr_shares := fst (delete_by_folder_ids all_ids (dr_shares d2))\<rparr>"
    by (rule purge_forest_Inr [OF t])
  note u = folder_ok_files [OF ok(1)]
  note R = collect_forest_reach [OF u P(4)]
  have fo: "forest_ok (fw_folders w)" using ok(1) by (simp add: folder_ok_def)
  have gone: "set all_ids = gone" unfolding R(1) gone_def by simp
  have rs: "set roots \<subseteq> set (fw_folders w)" unfolding P(2) by (auto simp: folders_by_ids_def select_where_def split: if_splits)
  have "f = r" if "f \<in> set (fw_folders w)" "r \<in> set roots" "fo_id f = fo_id r" for f r
    using unique_key_inj [OF forest_okD(1) [OF fo] that(1) subsetD [OF rs that(2)] that(3)] .
  then have "\<forall>i \<in> fo_id ` set roots. \<forall>f \<in> set (fw_folders w). fo_id f = i \<longrightarrow> folder_ws f = Some sc" using P(3) by auto
  then have closed: "fo_id f \<in> gone" if "f \<in> set (fw_folders w)" "fo_parent_id f = Some q" "q \<in> gone" for f q
    unfolding gone_def using reach_closed [OF fo _ that(1,2), of "fo_id ` set roots" sc True] that(3) by (simp add: gone_def)
  have "\<not> in_parents all_ids f" if "f \<in> set (fw_folders w)" "fo_id f \<notin> gone" for f
    using closed [OF that(1)] that(2) gone by (auto simp: in_parents_def split: option.splits)
  then have "map (\<lambda>f. if in_parents all_ids f then f\<lparr>fo_parent_id := None\<rparr> else f) (filter (\<lambda>f. fo_id f \<notin> gone) (fw_folders w))
      = filter (\<lambda>f. fo_id f \<notin> gone) (fw_folders w)" by (intro map_idI) simp
  then show "fw_folders w' = filter (\<lambda>f. fo_id f \<notin> gone) (fw_folders w)"
    using P(6) unfolding gone [symmetric]
    by (cases "all_ids = []") (auto simp: folder_delete_many_def checked_folders_def update_where_def delete_where_def split: if_splits)
  have d1: "drive_ok d1" "env_apart (fe_drive env) d1" "dr_ledger d1 = dr_ledger (fw_drive w)"
    using ok same_tables_ok [OF P(1)] P(1) by (simp_all add: folder_ok_def same_tables_def)
  have tbl: "tbl = map (\<lambda>f. if in_folders all_ids f then f\<lparr>fm_folder_id := None\<rparr> else f) (lg_files (dr_ledger d2))"
    using P(7) by (auto simp: detach_files_def checked_rows_def update_where_def split: if_splits)
  have sub: "set files \<subseteq> set (lg_files (dr_ledger d1))" unfolding R(3) d1(3) by (auto simp: files_below_def files_of_def)
  note F = purge_collected_files [OF d1(1,2) sub P(5), unfolded d1(3), folded files_of_def]
  have "fm_id (if in_folders all_ids f then f\<lparr>fm_folder_id := None\<rparr> else f) = fm_id f" for f by simp
  then have "map fm_id (files_of w') = map fm_id (lg_files (dr_ledger d2))" by (simp add: files_of_def P(8) tbl)
  then show "map fm_id (files_of w') = map fm_id (filter (\<lambda>f. f \<notin> files_below sc True gone (files_of w)) (files_of w))"
    using F(1) by (simp add: R(3) gone)
  have "charges (dr_ledger (fw_drive w')) = charges (dr_ledger d2)"
    using places_only_charges(1) [of "\<lambda>f. if in_folders all_ids f then f\<lparr>fm_folder_id := None\<rparr> else f"
        "(dr_ledger d2)\<lparr>lg_properties := delete_all_for_entities ET_Folder all_ids (lg_properties (dr_ledger d2))\<rparr>"]
    by (simp add: P(8) tbl places_only_def)
  then show "live_bytes (fw_drive w') s = live_bytes (fw_drive w) s - (if s = sc then ps_freed_bytes (pf_summary p) else 0)"
    using F(2) by (simp only: scope_usage_live [symmetric] simp_thms)
qed


lemma ex_purged_folders:
  "case purge_folder_forest_in_resource_scope (ex_folder_env 4) ex_range_error (RS_Personal 1) [10] True PG_Mutation ex_world3 of
     (_, Inl _) \<Rightarrow> False | (_, Inr s) \<Rightarrow> fs_purged s = 1"
  by code_simp


section \<open>Two ways into a folder in the trash\<close>

text \<open>
  The tree stays sound because every step checks the folder it writes into inside its transaction. Two writes do not.
  The completion of an upload session publishes the file in the folder of the session without looking at the folder
  again (\<open>src/src/services/workspace/storage_core/finalize.rs\<close>): when the folder has gone to the trash since the
  session was opened, a file outside the trash lies in it, and the purge of the folder takes the file along.
\<close>

lemma late_upload_is_purged:
  "case finalize_upload_session_file (ex_write_env\<lparr>we_drive := ex_drive_env\<lparr>de_event_uuid := ''u''\<rparr>\<rparr>)
          (ex_assembling\<lparr>up_folder_id := Some 10\<rparr>) ''h'' 5 1 ''files/u1'' 50 None
          ((synced ex_world3)\<lparr>dr_objects := {(1, ''files/u1'')}\<rparr>, [ex_assembling]) of
     (_, Inl _) \<Rightarrow> False
   | ((d, _), Inr f) \<Rightarrow> fm_folder_id f = Some 10 \<and> fm_deleted_at f = None
       \<and> (case purge_folder (ex_folder_env 5) ex_range_error (WS_Personal 1) 10 (ex_world3\<lparr>fw_drive := d\<rparr>) of
            (w, r) \<Rightarrow> r = Inr () \<and> files_of w = [])"
  by code_simp

text \<open>
  The folders of a relative path are made, when a session is opened, in a transaction that does not check the base
  folder again (\<open>materialize_upload_target\<close> in \<open>src/src/services/files/upload/plan/context.rs\<close>): a base folder that has
  gone to the trash in between gets a child outside the trash. \<open>upload_parent_transaction\<close>, used for direct writes,
  checks it.
\<close>

lemma late_path_is_live:
  "case ensure_upload_parent_path_with_created (ex_folder_env 5) (WS_Personal 1) ''ann'' (Some 10) [''c''] [] ex_world3 of
     Inl _ \<Rightarrow> False
   | Inr (w, _, made) \<Rightarrow> made = [50] \<and> map folder_shape (fw_folders w) =
       [(10, None, None, Some 1, Some 50, ''a''), (20, Some 10, None, Some 1, Some 50, ''b''), (50, Some 10, None, Some 1, None, ''c'')]"
  by code_simp

lemma late_path_is_refused:
  "case upload_parent_transaction (ex_folder_env 5) (WS_Personal 1) ''ann'' (Some 10) [''c''] ex_world3 of Inl _ \<Rightarrow> True | Inr _ \<Rightarrow> False"
  by code_simp

end
